(* ===== verification/Prelude.thy ===== *)
theory Prelude
  imports Main "HOL-Library.Word"
begin

unbundle bit_operations_syntax

text \<open>
  Shared vocabulary of the development: the machine integer types of the C++ sources, the model
  of a byte buffer that is written through a pointer, the collections of rewrite rules the
  component theories fill, and the generic lemmas on lists and words they use.
\<close>

section \<open>Machine types\<close>

type_synonym uint8 = "8 word"
type_synonym uint16 = "16 word"
type_synonym uint32 = "32 word"
type_synonym uint64 = "64 word"

type_synonym bytes = "uint8 list"

section \<open>Collections of rules\<close>

named_theorems size_simps \<open>sizes of buffers, slices and frames\<close>
named_theorems inv_intros \<open>an operation keeps an invariant\<close>
named_theorems frame_simps \<open>fields an operation leaves unchanged\<close>

section \<open>Writing through a pointer\<close>

text \<open>
  A C++ buffer is a list of bytes; a pointer into it is an offset.  \<open>overwrite buf off bs\<close> is
  what \<open>memcpy(buf + off, bs, n)\<close> leaves in the buffer.  A write that runs past the end makes
  the list longer, so that "the length is unchanged" is the absence of an overrun.
\<close>

definition overwrite :: "'a list \<Rightarrow> nat \<Rightarrow> 'a list \<Rightarrow> 'a list" where
  "overwrite buf off bs = take off buf @ bs @ drop (off + length bs) buf"

lemma length_overwrite [size_simps]:
  "off + length bs \<le> length buf \<Longrightarrow> length (overwrite buf off bs) = length buf"
  by (simp add: overwrite_def)

lemma overwrite_Nil [simp]: "overwrite buf off [] = buf"
  by (simp add: overwrite_def)

lemma take_overwrite:
  "n \<le> off \<Longrightarrow> off \<le> length buf \<Longrightarrow> take n (overwrite buf off bs) = take n buf"
  by (simp add: overwrite_def)

lemma drop_overwrite:
  "off + length bs \<le> n \<Longrightarrow> off \<le> length buf \<Longrightarrow> drop n (overwrite buf off bs) = drop n buf"
  by (simp add: overwrite_def)

lemma take_overwrite_end:
  "off \<le> length buf \<Longrightarrow> take (off + length bs) (overwrite buf off bs) = take off buf @ bs"
  by (simp add: overwrite_def)

lemma overwrite_inside:
  "off \<le> length buf \<Longrightarrow> take (length bs) (drop off (overwrite buf off bs)) = bs"
  by (simp add: overwrite_def)

lemma overwrite_0: "overwrite buf 0 bs = bs @ drop (length bs) buf"
  by (simp add: overwrite_def)

lemma overwrite_append:
  "off + length bs \<le> length buf \<Longrightarrow>
     overwrite (overwrite buf off bs) (off + length bs) cs = overwrite buf off (bs @ cs)"
  by (simp add: overwrite_def ac_simps)

section \<open>Lists\<close>

lemma take_drop_decomp:
  "a \<le> b \<Longrightarrow> b \<le> length xs \<Longrightarrow> drop a (take b xs) = take (b - a) (drop a xs)"
  by (simp add: drop_take)

lemma take_2_conv: "1 < length xs \<Longrightarrow> take 2 xs = [xs ! 0, xs ! 1]"
  by (cases xs; cases "tl xs") (auto simp: numeral_2_eq_2)

lemma take_prefix: "length xs = n \<Longrightarrow> take n (xs @ ys) = xs"
  by simp

lemma drop_prefix: "length xs = n \<Longrightarrow> drop n (xs @ ys) = ys"
  by simp

lemma take_2_nthD:
  assumes "take 2 (drop off xs) = [x, y]"
  shows "off + 1 < length xs" and "xs ! off = x" and "xs ! (off + 1) = y"
proof -
  have len: "2 \<le> length (drop off xs)"
  proof (rule ccontr)
    assume "\<not> ?thesis"
    then have "length (take 2 (drop off xs)) < 2" by simp
    then show False unfolding assms by simp
  qed
  then show "off + 1 < length xs" by simp
  with assms show "xs ! off = x" "xs ! (off + 1) = y"
    by (simp_all add: take_2_conv)
qed

section \<open>Words\<close>

lemma unat_uint8_less [simp]: "unat (w :: uint8) < 256"
  using unsigned_less[of w] by simp

lemma unat_uint8_le [simp]: "unat (w :: uint8) \<le> 255"
  using unat_uint8_less[of w] by linarith

lemma bit_uint8_ge [simp]: "\<not> bit (x :: uint8) (8 + n)"
  using bit_imp_le_length[of x "8 + n"] by auto

lemma word_xor_cancel: "(a :: 'a::len word) XOR c = b XOR c \<longleftrightarrow> a = b"
  by (metis xor.assoc xor_self_eq xor.right_neutral)

lemma bit_double_word: "bit (w * 2 :: 'a::len word) n \<longleftrightarrow> 0 < n \<and> n < LENGTH('a) \<and> bit w (n - 1)"
  using bit_push_bit_iff[of 1 w n] by (auto simp: Suc_le_eq)

lemma bit_drop_1_word: "bit (drop_bit (Suc 0) (w :: 'a::len word)) n \<longleftrightarrow> bit w (Suc n)"
  by (simp add: bit_drop_bit_eq)

text \<open>A 16-bit word is its low byte and its high byte.\<close>

lemma uint16_eq_iff_bytes:
  "(x :: uint16) = y \<longleftrightarrow>
     (ucast x :: uint8) = ucast y \<and> (ucast (drop_bit 8 x) :: uint8) = ucast (drop_bit 8 y)"
proof
  assume bytes: "(ucast x :: uint8) = ucast y \<and>
    (ucast (drop_bit 8 x) :: uint8) = ucast (drop_bit 8 y)"
  show "x = y"
  proof (rule bit_word_eqI)
    fix n
    assume n: "n < LENGTH(16)"
    show "bit x n = bit y n"
    proof (cases "n < 8")
      case True
      from bytes have "bit (ucast x :: uint8) n = bit (ucast y :: uint8) n" by simp
      with True show ?thesis by (simp add: bit_ucast_iff)
    next
      case False
      from bytes have "bit (ucast (drop_bit 8 x) :: uint8) (n - 8) =
          bit (ucast (drop_bit 8 y) :: uint8) (n - 8)" by simp
      moreover from n have "n - 8 < LENGTH(8)" by simp
      ultimately show ?thesis using False by (simp add: bit_ucast_iff bit_drop_bit_eq)
    qed
  qed
qed simp

end
