(* ===== verification/CRC.thy ===== *)
theory CRC
  imports Prelude
begin

text \<open>
  \<^verbatim>\<open>link/CRC.cpp\<close>: the table-driven CRC-16/DNP of the link layer and the little-endian
  16-bit access of \<^verbatim>\<open>openpal/serialization/SerializationTemplatesLE.h\<close> it stores its result
  with.  The lemmas show that the table is the bitwise CRC of the polynomial 0x3D65 (reflected:
  0xA6BC), that the register update is injective in the register and in the byte, and what the
  check value therefore detects.
\<close>

section \<open>Little-endian 16-bit access (SerializationTemplatesLE.h)\<close>

definition UInt16_Read :: "bytes \<Rightarrow> nat \<Rightarrow> uint16" where
  "UInt16_Read data off =
     push_bit 0 (ucast (data ! off)) OR push_bit 8 (ucast (data ! (off + 1)))"

definition UInt16_Write :: "bytes \<Rightarrow> nat \<Rightarrow> uint16 \<Rightarrow> bytes" where
  "UInt16_Write data off value =
     data[off := ucast (value AND 0xFF), off + 1 := ucast (drop_bit 8 value AND 0xFF)]"

text \<open>The two bytes a 16-bit value is stored as.\<close>

definition uint16_bytes :: "uint16 \<Rightarrow> bytes" where
  "uint16_bytes v = [ucast v, ucast (drop_bit 8 v)]"

lemma length_uint16_bytes [simp]: "length (uint16_bytes v) = 2"
  by (simp add: uint16_bytes_def)

lemma ucast_mask_uint8 [simp]: "(ucast (v AND 0xFF :: uint16) :: uint8) = ucast v"
proof (rule bit_word_eqI)
  fix n
  assume n: "n < LENGTH(8)"
  then have "n < 8" by simp
  moreover from this have "bit (0xFF :: uint16) n"
    using bit_mask_iff[where 'a = "16 word", of 8 n] by (simp add: mask_eq_exp_minus_1)
  ultimately show "bit (ucast (v AND 0xFF) :: uint8) n = bit (ucast v :: uint8) n"
    by (simp add: bit_ucast_iff bit_and_iff)
qed

lemma diff_eq_SucSucD: "(i::nat) - off = Suc (Suc k) \<Longrightarrow> i = Suc (Suc (off + k))"
  by arith

lemma UInt16_Write_overwrite:
  "off + 2 \<le> length data \<Longrightarrow> UInt16_Write data off v = overwrite data off (uint16_bytes v)"
  by (rule nth_equalityI)
    (auto simp: UInt16_Write_def overwrite_def uint16_bytes_def nth_append nth_list_update
      nth_Cons less_Suc_eq split: nat.splits dest!: diff_eq_SucSucD)

lemma UInt16_Read_bytes:
  assumes "take 2 (drop off data) = uint16_bytes v"
  shows "UInt16_Read data off = v"
proof -
  have d: "data ! off = ucast v" "data ! (off + 1) = ucast (drop_bit 8 v)"
    using take_2_nthD[OF assms[unfolded uint16_bytes_def]] by simp_all
  show ?thesis
    unfolding UInt16_Read_def d
    by (rule bit_word_eqI) (auto simp: bit_or_iff bit_push_bit_iff bit_ucast_iff bit_drop_bit_eq)
qed

lemma UInt16_Read_cong:
  assumes "take 2 (drop off a) = take 2 (drop off b)" and "off + 2 \<le> length b"
  shows "UInt16_Read a off = UInt16_Read b off"
proof -
  from assms(2) have "take 2 (drop off b) = [b ! off, b ! (off + 1)]"
    by (simp add: take_2_conv)
  with assms(1) have "a ! off = b ! off" "a ! (off + 1) = b ! (off + 1)"
    using take_2_nthD[of off a] by simp_all
  then show ?thesis by (simp add: UInt16_Read_def)
qed

lemma UInt16_Read_holds:
  assumes "off + 2 \<le> length b" shows "take 2 (drop off b) = uint16_bytes (UInt16_Read b off)"
proof -
  have "\<exists>v. [x, y] = uint16_bytes v" for x y
  proof
    show "[x, y] = uint16_bytes (ucast x OR push_bit 8 (ucast y))"
      by (auto simp: uint16_bytes_def intro!: bit_word_eqI simp: bit_ucast_iff bit_or_iff bit_push_bit_iff bit_drop_bit_eq)
  qed
  then obtain v where "take 2 (drop off b) = uint16_bytes v"
    using take_2_conv[of "drop off b"] assms by force
  then show ?thesis using UInt16_Read_bytes by metis
qed

section \<open>The table and the check value\<close>

definition crcTable :: "uint16 list" where
  "crcTable = [
    0x0000, 0x365E, 0x6CBC, 0x5AE2, 0xD978, 0xEF26, 0xB5C4, 0x839A,
    0xFF89, 0xC9D7, 0x9335, 0xA56B, 0x26F1, 0x10AF, 0x4A4D, 0x7C13,
    0xB26B, 0x8435, 0xDED7, 0xE889, 0x6B13, 0x5D4D, 0x07AF, 0x31F1,
    0x4DE2, 0x7BBC, 0x215E, 0x1700, 0x949A, 0xA2C4, 0xF826, 0xCE78,
    0x29AF, 0x1FF1, 0x4513, 0x734D, 0xF0D7, 0xC689, 0x9C6B, 0xAA35,
    0xD626, 0xE078, 0xBA9A, 0x8CC4, 0x0F5E, 0x3900, 0x63E2, 0x55BC,
    0x9BC4, 0xAD9A, 0xF778, 0xC126, 0x42BC, 0x74E2, 0x2E00, 0x185E,
    0x644D, 0x5213, 0x08F1, 0x3EAF, 0xBD35, 0x8B6B, 0xD189, 0xE7D7,
    0x535E, 0x6500, 0x3FE2, 0x09BC, 0x8A26, 0xBC78, 0xE69A, 0xD0C4,
    0xACD7, 0x9A89, 0xC06B, 0xF635, 0x75AF, 0x43F1, 0x1913, 0x2F4D,
    0xE135, 0xD76B, 0x8D89, 0xBBD7, 0x384D, 0x0E13, 0x54F1, 0x62AF,
    0x1EBC, 0x28E2, 0x7200, 0x445E, 0xC7C4, 0xF19A, 0xAB78, 0x9D26,
    0x7AF1, 0x4CAF, 0x164D, 0x2013, 0xA389, 0x95D7, 0xCF35, 0xF96B,
    0x8578, 0xB326, 0xE9C4, 0xDF9A, 0x5C00, 0x6A5E, 0x30BC, 0x06E2,
    0xC89A, 0xFEC4, 0xA426, 0x9278, 0x11E2, 0x27BC, 0x7D5E, 0x4B00,
    0x3713, 0x014D, 0x5BAF, 0x6DF1, 0xEE6B, 0xD835, 0x82D7, 0xB489,
    0xA6BC, 0x90E2, 0xCA00, 0xFC5E, 0x7FC4, 0x499A, 0x1378, 0x2526,
    0x5935, 0x6F6B, 0x3589, 0x03D7, 0x804D, 0xB613, 0xECF1, 0xDAAF,
    0x14D7, 0x2289, 0x786B, 0x4E35, 0xCDAF, 0xFBF1, 0xA113, 0x974D,
    0xEB5E, 0xDD00, 0x87E2, 0xB1BC, 0x3226, 0x0478, 0x5E9A, 0x68C4,
    0x8F13, 0xB94D, 0xE3AF, 0xD5F1, 0x566B, 0x6035, 0x3AD7, 0x0C89,
    0x709A, 0x46C4, 0x1C26, 0x2A78, 0xA9E2, 0x9FBC, 0xC55E, 0xF300,
    0x3D78, 0x0B26, 0x51C4, 0x679A, 0xE400, 0xD25E, 0x88BC, 0xBEE2,
    0xC2F1, 0xF4AF, 0xAE4D, 0x9813, 0x1B89, 0x2DD7, 0x7735, 0x416B,
    0xF5E2, 0xC3BC, 0x995E, 0xAF00, 0x2C9A, 0x1AC4, 0x4026, 0x7678,
    0x0A6B, 0x3C35, 0x66D7, 0x5089, 0xD313, 0xE54D, 0xBFAF, 0x89F1,
    0x4789, 0x71D7, 0x2B35, 0x1D6B, 0x9EF1, 0xA8AF, 0xF24D, 0xC413,
    0xB800, 0x8E5E, 0xD4BC, 0xE2E2, 0x6178, 0x5726, 0x0DC4, 0x3B9A,
    0xDC4D, 0xEA13, 0xB0F1, 0x86AF, 0x0535, 0x336B, 0x6989, 0x5FD7,
    0x23C4, 0x159A, 0x4F78, 0x7926, 0xFABC, 0xCCE2, 0x9600, 0xA05E,
    0x6E26, 0x5878, 0x029A, 0x34C4, 0xB75E, 0x8100, 0xDBE2, 0xEDBC,
    0x91AF, 0xA7F1, 0xFD13, 0xCB4D, 0x48D7, 0x7E89, 0x246B, 0x1235]"

definition crc_step :: "uint16 \<Rightarrow> uint8 \<Rightarrow> uint16" where
  "crc_step crc b =
     (let index = (ucast ((crc XOR ucast b) AND 0xFF) :: uint8)
      in (crcTable ! unat index) XOR drop_bit 8 crc)"

text \<open>\<open>CalcCrc\<close> is the loop of the source over the \<open>length\<close> bytes at the pointer.\<close>

definition CalcCrc :: "bytes \<Rightarrow> uint16" where
  "CalcCrc input = NOT (foldl crc_step 0 input)"

definition AddCrc :: "bytes \<Rightarrow> nat \<Rightarrow> nat \<Rightarrow> bytes" where
  "AddCrc buf off len = UInt16_Write buf (off + len) (CalcCrc (take len (drop off buf)))"

definition IsCorrectCRC :: "bytes \<Rightarrow> nat \<Rightarrow> nat \<Rightarrow> bool" where
  "IsCorrectCRC buf off len \<longleftrightarrow>
     CalcCrc (take len (drop off buf)) = UInt16_Read buf (off + len)"

section \<open>The bitwise reference\<close>

text \<open>One bit of the reflected shift register, one data bit, one byte.\<close>

definition crc_bit :: "uint16 \<Rightarrow> uint16" where
  "crc_bit c = (if bit c 0 then drop_bit 1 c XOR 0xA6BC else drop_bit 1 c)"

definition crc_feed :: "uint16 \<Rightarrow> bool \<Rightarrow> uint16" where
  "crc_feed c d = crc_bit (c XOR of_bool d)"

definition byte_bits :: "uint8 \<Rightarrow> bool list" where
  "byte_bits b = map (bit b) [0..<8]"

lemma length_byte_bits [simp]: "length (byte_bits b) = 8"
  by (simp add: byte_bits_def)

lemma crc_bit_xor: "crc_bit (a XOR b) = crc_bit a XOR crc_bit b"
  by (auto simp: crc_bit_def bit_xor_iff ac_simps)

lemma crc_bits_xor: "(crc_bit ^^ n) (a XOR b) = (crc_bit ^^ n) a XOR (crc_bit ^^ n) b"
  by (induction n arbitrary: a b) (simp_all add: crc_bit_xor funpow_swap1)

lemma crc_bits_high: "(\<And>i. i < n \<Longrightarrow> \<not> bit h i) \<Longrightarrow> (crc_bit ^^ n) h = drop_bit n h"
proof (induction n)
  case 0
  then show ?case by simp
next
  case (Suc n)
  then have "(crc_bit ^^ n) h = drop_bit n h" and "\<not> bit h n" by simp_all
  then show ?case by (simp add: crc_bit_def[of "drop_bit n h"] bit_drop_bit_eq)
qed

text \<open>The register update loses nothing: its top bit tells which branch was taken.\<close>

lemma inj_crc_bit: "inj crc_bit"
proof (rule injI)
  fix x y :: uint16
  assume eq: "crc_bit x = crc_bit y"
  have top: "bit (crc_bit c) 15 = bit c 0" for c :: uint16
    by (auto simp: crc_bit_def bit_xor_iff bit_drop_bit_eq impossible_bit)
  have "bit x 0 = bit y 0" using eq top by metis
  with eq have "drop_bit 1 x = drop_bit 1 y"
    by (simp add: crc_bit_def word_xor_cancel split: if_splits)
  show "x = y"
  proof (rule bit_word_eqI)
    fix n
    show "bit x n = bit y n"
      using \<open>bit x 0 = bit y 0\<close> \<open>drop_bit 1 x = drop_bit 1 y\<close>
      by (cases n) (simp_all flip: bit_drop_1_word)
  qed
qed

section \<open>The table is the bitwise CRC\<close>

lemma funpow8: "(f ^^ 8) x = f (f (f (f (f (f (f (f x)))))))"
  by (simp add: eval_nat_numeral)

definition crc_entry :: "nat \<Rightarrow> uint16" where
  "crc_entry i = (crc_bit ^^ 8) (word_of_nat i)"

lemma nat_power_add_xor: "i < 2 ^ k \<Longrightarrow> 2 ^ k + i = 2 ^ k XOR (i :: nat)"
  by (rule disjunctive_add_eq_xor, rule bit_eqI)
    (auto simp: bit_and_iff bit_exp_iff, metis bit_take_bit_iff less_irrefl take_bit_nat_eq_self)

lemma crc_entries_double:
  "map crc_entry [0..<2 ^ Suc k] =
     map crc_entry [0..<2 ^ k] @ map ((XOR) (crc_entry (2 ^ k))) (map crc_entry [0..<2 ^ k])"
proof -
  have "[0..<2 ^ Suc k] = [0..<2 ^ k] @ map (\<lambda>i. 2 ^ k + i) [0..<2 ^ k]"
    using upt_add_eq_append[of 0 "2 ^ k" "2 ^ k"] map_add_upt[of "2 ^ k" "2 ^ k"]
    by (simp add: ac_simps mult_2)
  moreover have "crc_entry (2 ^ k + i) = crc_entry (2 ^ k) XOR crc_entry i" if "i < 2 ^ k" for i
    unfolding crc_entry_def nat_power_add_xor[OF that] crc_bits_xor[symmetric]
    by (simp add: of_nat_xor_eq)
  ultimately show ?thesis by simp
qed

lemma crc_entry_basis:
  "crc_entry 1 = 0x365E" "crc_entry 2 = 0x6CBC" "crc_entry 4 = 0xD978" "crc_entry 8 = 0xFF89"
  "crc_entry 16 = 0xB26B" "crc_entry 32 = 0x29AF" "crc_entry 64 = 0x535E" "crc_entry 128 = 0xA6BC"
  by (simp_all add: crc_entry_def funpow8 crc_bit_def)

lemma crcTable_entries: "map crc_entry [0..<256] = crcTable"
proof -
  have zero: "crc_entry 0 = 0"
    by (simp add: crc_entry_def funpow8 crc_bit_def)
  have double: "map crc_entry [0..<2 * n] =
      map crc_entry [0..<n] @ map ((XOR) (crc_entry n)) (map crc_entry [0..<n])"
    if "n = 2 ^ k" for n k
    using that crc_entries_double[of k] by simp
  note doubles = double[of 1 0] double[of 2 1] double[of 4 2] double[of 8 3] double[of 16 4]
    double[of 32 5] double[of 64 6] double[of 128 7]
  from doubles show ?thesis
    by (simp add: zero crc_entry_basis crc_entry_basis(1)[unfolded One_nat_def] crcTable_def
        del: upt_rec_numeral map_map)
qed

lemma crcTable_nth: "n < 256 \<Longrightarrow> crcTable ! n = (crc_bit ^^ 8) (word_of_nat n)"
  by (simp flip: crcTable_entries add: crc_entry_def)

text \<open>
  The optimised step looks up the low byte and shifts the rest; the reference feeds eight bits.
\<close>

lemma crc_step_bits: "crc_step c b = (crc_bit ^^ 8) (c XOR ucast b)"
proof -
  define x where "x = c XOR ucast b"
  define lo :: uint8 where "lo = ucast x"
  define hi where "hi = push_bit 8 (drop_bit 8 x)"
  have split: "x = ucast lo XOR hi"
    by (rule bit_word_eqI)
      (auto simp: lo_def hi_def bit_xor_iff bit_push_bit_iff bit_drop_bit_eq bit_ucast_iff)
  have "(crc_bit ^^ 8) hi = drop_bit 8 hi"
    by (rule crc_bits_high) (simp add: hi_def bit_push_bit_iff)
  also have "drop_bit 8 hi = drop_bit 8 c"
    by (rule bit_word_eqI)
      (auto simp: hi_def x_def bit_push_bit_iff bit_drop_bit_eq bit_xor_iff bit_ucast_iff
        dest: bit_imp_le_length)
  finally have "(crc_bit ^^ 8) x = (crc_bit ^^ 8) (ucast lo) XOR drop_bit 8 c"
    by (simp add: split crc_bits_xor)
  also have "(crc_bit ^^ 8) (ucast lo) = crcTable ! unat lo"
    by (simp add: crcTable_nth)
  finally show ?thesis
    by (simp add: crc_step_def Let_def x_def lo_def)
qed

section \<open>Message bits and what the check value detects\<close>

definition data_bits :: "bytes \<Rightarrow> bool list" where
  "data_bits data = concat (map byte_bits data)"

lemma data_bits_simps [simp]:
  "data_bits [] = []" "data_bits (b # bs) = byte_bits b @ data_bits bs"
  by (simp_all add: data_bits_def)

lemma length_data_bits [size_simps]: "length (data_bits bs) = 8 * length bs"
  by (induction bs) simp_all

text \<open>Feeding at most 16 bits is exclusive-or with the word they spell, then shifting.\<close>

lemma crc_bit_push:
  assumes "\<not> bit w 15"
  shows "crc_bit (w * 2) = w"
proof (rule bit_word_eqI)
  fix n
  assume "n < LENGTH(16)"
  then have "n < 15 \<or> n = 15" by auto
  with assms show "bit (crc_bit (w * 2)) n = bit w n"
    by (auto simp: crc_bit_def bit_drop_1_word bit_double_word)
qed

lemma bit_horner_uint16:
  "bit (horner_sum of_bool 2 ds :: uint16) n \<longleftrightarrow> n < 16 \<and> n < length ds \<and> ds ! n"
  by (simp add: bit_horner_sum_bit_word_iff)

lemma foldl_crc_feed:
  "length ds \<le> 16 \<Longrightarrow>
     foldl crc_feed c ds = (crc_bit ^^ length ds) (c XOR horner_sum of_bool 2 ds)"
proof (induction ds arbitrary: c)
  case Nil
  then show ?case by simp
next
  case (Cons d ds)
  let ?w = "horner_sum of_bool 2 ds :: uint16"
  from Cons.prems have "\<not> bit ?w 15" by (simp add: bit_horner_uint16)
  then have push: "crc_bit (?w * 2) = ?w" by (rule crc_bit_push)
  have "horner_sum of_bool 2 (d # ds) = of_bool d XOR ?w * 2"
    by (rule bit_word_eqI)
      (auto simp: bit_horner_uint16 bit_xor_iff bit_double_word bit_of_bool_iff nth_Cons'
        simp del: horner_sum_simps)
  then have "crc_bit (c XOR horner_sum of_bool 2 (d # ds)) = crc_feed c d XOR ?w"
    by (simp add: crc_feed_def push crc_bit_xor flip: xor.assoc del: horner_sum_simps)
  with Cons show ?case
    by (simp add: funpow_swap1 del: horner_sum_simps)
qed

lemma crc_step_feed: "crc_step c b = foldl crc_feed c (byte_bits b)"
proof -
  have "horner_sum of_bool 2 (byte_bits b) = (ucast b :: uint16)"
  proof (rule bit_word_eqI)
    fix n
    have "bit b n \<Longrightarrow> n < 8" using bit_imp_le_length[of b n] by simp
    then show "bit (horner_sum of_bool 2 (byte_bits b) :: uint16) n = bit (ucast b :: uint16) n"
      by (auto simp: bit_horner_uint16 byte_bits_def bit_ucast_iff simp del: upt_rec_numeral)
  qed
  then show ?thesis by (simp add: crc_step_bits foldl_crc_feed)
qed

lemma foldl_crc_step_feed: "foldl crc_step c bs = foldl crc_feed c (data_bits bs)"
  by (induction bs arbitrary: c) (simp_all add: crc_step_feed)

lemma inj_foldl_crc_feed: "foldl crc_feed c ds = foldl crc_feed c' ds \<Longrightarrow> c = c'"
proof (induction ds arbitrary: c c')
  case (Cons d ds)
  then have "crc_feed c d = crc_feed c' d" by simp
  then show ?case
    by (simp add: crc_feed_def inj_eq[OF inj_crc_bit] word_xor_cancel)
qed simp

lemma inj_crc_bits: "inj (crc_bit ^^ n)"
proof (induction n)
  case (Suc n)
  then show ?case unfolding funpow.simps(2) by (rule inj_compose[OF inj_crc_bit])
qed (simp add: inj_on_def)

lemma crc_feed_window:
  assumes "length ds = length es" "length ds \<le> 16"
    and "foldl crc_feed c ds = foldl crc_feed c es"
  shows "ds = es"
proof -
  let ?w = "\<lambda>ds. horner_sum of_bool 2 ds :: uint16"
  have "(crc_bit ^^ length ds) (c XOR ?w ds) = (crc_bit ^^ length ds) (c XOR ?w es)"
    using assms by (simp add: foldl_crc_feed)
  then have "?w ds XOR c = ?w es XOR c"
    by (simp add: inj_eq[OF inj_crc_bits] xor.commute)
  then have "?w ds = ?w es" by (simp add: word_xor_cancel)
  then have bits: "bit (?w ds) n = bit (?w es) n" for n by simp
  show ?thesis
  proof (rule nth_equalityI)
    fix n
    assume "n < length ds"
    with bits[of n] assms(1,2) show "ds ! n = es ! n"
      by (simp add: bit_horner_uint16)
  qed (rule assms(1))
qed

lemma CalcCrc_feed: "CalcCrc data = NOT (foldl crc_feed 0 (data_bits data))"
  by (simp add: CalcCrc_def foldl_crc_step_feed)

lemma CalcCrc_burst:
  assumes "data_bits xs = p @ d @ s" and "data_bits ys = p @ e @ s"
    and "length d = length e" and "length d \<le> 16" and "d \<noteq> e"
  shows "CalcCrc xs \<noteq> CalcCrc ys"
proof
  assume "CalcCrc xs = CalcCrc ys"
  then have "foldl crc_feed 0 (data_bits xs) = foldl crc_feed 0 (data_bits ys)"
    by (simp add: CalcCrc_feed)
  then have "foldl crc_feed (foldl crc_feed 0 p) d = foldl crc_feed (foldl crc_feed 0 p) e"
    using inj_foldl_crc_feed unfolding assms(1,2) foldl_append by blast
  with assms(3,4,5) show False using crc_feed_window by blast
qed

section \<open>Writing and checking a block\<close>

lemma AddCrc_overwrite:
  "off + len + 2 \<le> length buf \<Longrightarrow>
     AddCrc buf off len = overwrite buf (off + len) (uint16_bytes (CalcCrc (take len (drop off buf))))"
  by (simp add: AddCrc_def UInt16_Write_overwrite)

lemma IsCorrectCRC_bytes:
  "take (len + 2) (drop off buf) = bs @ uint16_bytes (CalcCrc bs) \<Longrightarrow> length bs = len \<Longrightarrow>
     IsCorrectCRC buf off len"
proof -
  assume eq: "take (len + 2) (drop off buf) = bs @ uint16_bytes (CalcCrc bs)" and len: "length bs = len"
  have "take len (drop off buf) = take len (take (len + 2) (drop off buf))"
    by (simp only: take_take) simp
  then have data: "take len (drop off buf) = bs" unfolding eq using len by simp
  have "take 2 (drop (off + len) buf) = drop len (take (len + 2) (drop off buf))"
    by (simp add: drop_take ac_simps)
  also have "\<dots> = uint16_bytes (CalcCrc bs)" unfolding eq using len by simp
  finally show ?thesis
    unfolding IsCorrectCRC_def data by (simp add: UInt16_Read_bytes)
qed

lemma IsCorrectCRC_holds:
  assumes "IsCorrectCRC buf p n" "p + n + 2 \<le> length buf"
  shows "take (n + 2) (drop p buf) =
    take n (drop p buf) @ uint16_bytes (CalcCrc (take n (drop p buf)))"
proof -
  have "take (n + 2) (drop p buf) = take n (drop p buf) @ take 2 (drop (p + n) buf)"
    unfolding take_add by (simp add: ac_simps)
  moreover have "take 2 (drop (p + n) buf) = uint16_bytes (UInt16_Read buf (p + n))"
    by (rule UInt16_Read_holds) (use assms(2) in simp)
  ultimately show ?thesis using assms(1) by (simp add: IsCorrectCRC_def)
qed

text \<open>
  \<^bold>\<open>C25\<close>.  The table-driven check value computed by \<^verbatim>\<open>CRC::CalcCrc\<close> is the complement of the
  bit-serial CRC of the message (polynomial 0xA6BC, least significant bit of each byte first), for
  every message.
\<close>

theorem CalcCrc_bit_serial: "CalcCrc data = NOT (foldl crc_feed 0 (data_bits data))"
  by (rule CalcCrc_feed)

text \<open>
  \<^bold>\<open>C24\<close>.  Every error burst of at most 16 bits in the data of a block is detected: if a block
  carries its correct CRC and a second block of the same layout has the same CRC bytes but data
  that differ, inside one window of 16 bits at any bit offset, then the second one fails the check.
\<close>

theorem IsCorrectCRC_rejects_burst:
  assumes "IsCorrectCRC blk off len"
    and "take 2 (drop (off + len) blk') = take 2 (drop (off + len) blk)"
    and "off + len + 2 \<le> length blk"
    and "data_bits (take len (drop off blk)) = p @ d @ s"
    and "data_bits (take len (drop off blk')) = p @ e @ s"
    and "length d = length e" and "length d \<le> 16" and "d \<noteq> e"
  shows "\<not> IsCorrectCRC blk' off len"
proof -
  have "UInt16_Read blk' (off + len) = UInt16_Read blk (off + len)"
    by (rule UInt16_Read_cong[OF assms(2,3)])
  moreover have "CalcCrc (take len (drop off blk)) \<noteq> CalcCrc (take len (drop off blk'))"
    by (rule CalcCrc_burst[OF assms(4-8)])
  ultimately show ?thesis using assms(1) by (simp add: IsCorrectCRC_def)
qed

lemma crc_step_eval: "crc_step c b = crc_bit (crc_bit (crc_bit (crc_bit (crc_bit (crc_bit (crc_bit
    (crc_bit (c XOR ucast b))))))))"
  by (simp add: crc_step_bits funpow8)

lemmas crc_eval = CalcCrc_def crc_step_eval crc_bit_def

theorem IsCorrectCRC_rejects_burst_witness:
  "\<not> IsCorrectCRC [0x05, 0x64, 0x15, 0xC0, 0x01, 0x00, 0x00, 0x04, 0xE9, 0x21] 0 8"
proof -
  let ?blk = "[0x05, 0x64, 0x05, 0xC0, 0x01, 0x00, 0x00, 0x04, 0xE9, 0x21] :: bytes"
  have "IsCorrectCRC ?blk 0 8"
    by (simp add: IsCorrectCRC_def UInt16_Read_def crc_eval)
  moreover have "byte_bits 0x05 \<noteq> byte_bits 0x15"
    by (simp add: byte_bits_def) (rule bexI[of _ 4], simp_all)
  ultimately show ?thesis
    by (intro IsCorrectCRC_rejects_burst[where p = "data_bits [0x05, 0x64]" and blk = ?blk
          and d = "byte_bits 0x05" and e = "byte_bits 0x15"
          and s = "data_bits [0xC0, 0x01, 0x00, 0x00, 0x04]"]) simp_all
qed

end
