(* ===== verification/LinkFrame.thy ===== *)
theory LinkFrame
  imports LinkHeader
begin

text \<open>
  \<^verbatim>\<open>link/LinkFrame.cpp\<close>: the body of a link frame (user data in blocks of 16 bytes, each followed
  by its CRC) and the formatting of every outgoing frame.  A formatting function takes the
  contents of the buffer behind the \<^verbatim>\<open>WSlice\<close> and returns the contents afterwards together with
  the slice it returns; \<open>None\<close> is a failed \<^verbatim>\<open>assert\<close>.  The lemmas refine the pointer loops to a
  list specification of the body, and show that no write leaves the buffer and that a formatted
  body is read back unchanged.
\<close>

section \<open>Body: user data interlaced with CRCs\<close>

text \<open>
  \<open>ReadUserData buf rd wr len\<close>: both pointers of the source point into one buffer when the parser
  calls it, so the copy is a sequence of writes to that buffer.
\<close>

function ReadUserData :: "bytes \<Rightarrow> nat \<Rightarrow> nat \<Rightarrow> nat \<Rightarrow> bytes" where
  "ReadUserData buf pRead pWrite len =
     (if len > 0
      then let num = (if len \<le> LPDU_DATA_BLOCK_SIZE then len else LPDU_DATA_BLOCK_SIZE);
               buf = overwrite buf pWrite (take num (drop pRead buf))
           in ReadUserData buf (pRead + (num + 2)) (pWrite + num) (len - num)
      else buf)"
  by pat_completeness auto
termination
  by (relation "measure (\<lambda>(_, _, _, n). n)") (auto simp: lpdu_consts)

declare ReadUserData.simps [simp del]

function ValidateBodyCRC :: "bytes \<Rightarrow> nat \<Rightarrow> nat \<Rightarrow> bool" where
  "ValidateBodyCRC buf pBody len =
     (if len > 0
      then let num = (if len \<le> LPDU_DATA_BLOCK_SIZE then len else LPDU_DATA_BLOCK_SIZE)
           in if IsCorrectCRC buf pBody num
              then ValidateBodyCRC buf (pBody + (num + 2)) (len - num)
              else False
      else True)"
  by pat_completeness auto
termination
  by (relation "measure (\<lambda>(_, _, n). n)") (auto simp: lpdu_consts)

declare ValidateBodyCRC.simps [simp del]

definition CalcUserDataSize :: "nat \<Rightarrow> nat" where
  "CalcUserDataSize dataLength =
     (if dataLength > 0
      then let mod16 = dataLength mod LPDU_DATA_BLOCK_SIZE;
               size = (dataLength div LPDU_DATA_BLOCK_SIZE) * LPDU_DATA_PLUS_CRC_SIZE
           in if mod16 > 0 then size + mod16 + LPDU_CRC_SIZE else size
      else 0)"

definition CalcFrameSize :: "nat \<Rightarrow> nat" where
  "CalcFrameSize dataLength = LPDU_HEADER_SIZE + CalcUserDataSize dataLength"

text \<open>\<open>WriteUserData src buf dst\<close> writes the bytes \<open>src\<close> at offset \<open>dst\<close> of \<open>buf\<close>.\<close>

function WriteUserData :: "bytes \<Rightarrow> bytes \<Rightarrow> nat \<Rightarrow> bytes" where
  "WriteUserData src buf pDest =
     (if length src > 0
      then let num = (if length src > LPDU_DATA_BLOCK_SIZE then LPDU_DATA_BLOCK_SIZE else length src);
               buf = overwrite buf pDest (take num src);
               buf = AddCrc buf pDest num
           in WriteUserData (drop num src) buf (pDest + (num + 2))
      else buf)"
  by pat_completeness auto
termination
  by (relation "measure (\<lambda>(s, _, _). length s)") (auto simp: lpdu_consts)

declare WriteUserData.simps [simp del]

section \<open>Formatting frames\<close>

definition FormatHeader ::
  "bytes \<Rightarrow> uint8 \<Rightarrow> bool \<Rightarrow> bool \<Rightarrow> bool \<Rightarrow> LinkFunction \<Rightarrow> uint16 \<Rightarrow> uint16 \<Rightarrow> (bytes \<times> bytes) option" where
  "FormatHeader buffer aDataLength aIsMaster aFcb aFcvDfc aFuncCode aDest aSrc =
     (if length buffer \<ge> LPDU_HEADER_SIZE
      then let header = LinkHeader_make (aDataLength + word_of_nat LPDU_MIN_LENGTH) aSrc aDest
                          aIsMaster aFcvDfc aFcb aFuncCode;
               buffer = LinkHeader_Write header buffer 0
           in Some (buffer, take 10 buffer)
      else None)"

definition FormatAck :: "bytes \<Rightarrow> bool \<Rightarrow> bool \<Rightarrow> uint16 \<Rightarrow> uint16 \<Rightarrow> (bytes \<times> bytes) option" where
  "FormatAck buffer aIsMaster aIsRcvBuffFull aDest aSrc =
     FormatHeader buffer 0 aIsMaster False aIsRcvBuffFull SEC_ACK aDest aSrc"

definition FormatNack :: "bytes \<Rightarrow> bool \<Rightarrow> bool \<Rightarrow> uint16 \<Rightarrow> uint16 \<Rightarrow> (bytes \<times> bytes) option" where
  "FormatNack buffer aIsMaster aIsRcvBuffFull aDest aSrc =
     FormatHeader buffer 0 aIsMaster False aIsRcvBuffFull SEC_NACK aDest aSrc"

definition FormatLinkStatus :: "bytes \<Rightarrow> bool \<Rightarrow> bool \<Rightarrow> uint16 \<Rightarrow> uint16 \<Rightarrow> (bytes \<times> bytes) option" where
  "FormatLinkStatus buffer aIsMaster aIsRcvBuffFull aDest aSrc =
     FormatHeader buffer 0 aIsMaster False aIsRcvBuffFull SEC_LINK_STATUS aDest aSrc"

definition FormatNotSupported :: "bytes \<Rightarrow> bool \<Rightarrow> bool \<Rightarrow> uint16 \<Rightarrow> uint16 \<Rightarrow> (bytes \<times> bytes) option" where
  "FormatNotSupported buffer aIsMaster aIsRcvBuffFull aDest aSrc =
     FormatHeader buffer 0 aIsMaster False aIsRcvBuffFull SEC_NOT_SUPPORTED aDest aSrc"

definition FormatResetLinkStates :: "bytes \<Rightarrow> bool \<Rightarrow> uint16 \<Rightarrow> uint16 \<Rightarrow> (bytes \<times> bytes) option" where
  "FormatResetLinkStates buffer aIsMaster aDest aSrc =
     FormatHeader buffer 0 aIsMaster False False PRI_RESET_LINK_STATES aDest aSrc"

definition FormatRequestLinkStatus :: "bytes \<Rightarrow> bool \<Rightarrow> uint16 \<Rightarrow> uint16 \<Rightarrow> (bytes \<times> bytes) option" where
  "FormatRequestLinkStatus buffer aIsMaster aDest aSrc =
     FormatHeader buffer 0 aIsMaster False False PRI_REQUEST_LINK_STATUS aDest aSrc"

definition FormatTestLinkStatus :: "bytes \<Rightarrow> bool \<Rightarrow> bool \<Rightarrow> uint16 \<Rightarrow> uint16 \<Rightarrow> (bytes \<times> bytes) option" where
  "FormatTestLinkStatus buffer aIsMaster aFcb aDest aSrc =
     FormatHeader buffer 0 aIsMaster aFcb True PRI_TEST_LINK_STATES aDest aSrc"

text \<open>
  The returned slice is a view of the buffer, taken before the user data are written; its bytes
  are those of the buffer at the end.
\<close>

definition FormatConfirmedUserData ::
  "bytes \<Rightarrow> bool \<Rightarrow> bool \<Rightarrow> uint16 \<Rightarrow> uint16 \<Rightarrow> bytes \<Rightarrow> (bytes \<times> bytes) option" where
  "FormatConfirmedUserData buffer aIsMaster aFcb aDest aSrc apData =
     (let dataLength = length apData in
      if dataLength > 0 \<and> dataLength \<le> LPDU_MAX_USER_DATA_SIZE
      then let userDataSize = CalcUserDataSize dataLength in
           (case FormatHeader buffer (word_of_nat dataLength) aIsMaster aFcb True
                   PRI_CONFIRMED_USER_DATA aDest aSrc of
              None \<Rightarrow> None
            | Some (buffer, _) \<Rightarrow>
                let buffer = WriteUserData apData buffer 10
                in Some (buffer, take (userDataSize + LPDU_HEADER_SIZE) buffer))
      else None)"

definition FormatUnconfirmedUserData ::
  "bytes \<Rightarrow> bool \<Rightarrow> uint16 \<Rightarrow> uint16 \<Rightarrow> bytes \<Rightarrow> (bytes \<times> bytes) option" where
  "FormatUnconfirmedUserData buffer aIsMaster aDest aSrc apData =
     (let dataLength = length apData in
      if dataLength > 0 \<and> dataLength \<le> LPDU_MAX_USER_DATA_SIZE
      then let userDataSize = CalcUserDataSize dataLength in
           (case FormatHeader buffer (word_of_nat dataLength) aIsMaster False False
                   PRI_UNCONFIRMED_USER_DATA aDest aSrc of
              None \<Rightarrow> None
            | Some (buffer, _) \<Rightarrow>
                let buffer = WriteUserData apData buffer 10
                in Some (buffer, take (userDataSize + LPDU_HEADER_SIZE) buffer))
      else None)"

section \<open>The body as a list\<close>

text \<open>What the loops compute, without buffers: each block of 16 bytes followed by its CRC.\<close>

function frame_body :: "bytes \<Rightarrow> bytes" where
  "frame_body src =
     (if src = [] then []
      else let blk = take 16 src in blk @ uint16_bytes (CalcCrc blk) @ frame_body (drop 16 src))"
  by pat_completeness auto
termination
  by (relation "measure length") auto

declare frame_body.simps [simp del]


lemma frame_body_Nil [simp]: "frame_body [] = []" by (simp add: frame_body.simps)

lemma frame_body_step: "src \<noteq> [] \<Longrightarrow> frame_body src =
    take 16 src @ uint16_bytes (CalcCrc (take 16 src)) @ frame_body (drop 16 src)"
  by (subst frame_body.simps) (simp add: Let_def)

lemma CalcUserDataSize_step:
  "n > 0 \<Longrightarrow> CalcUserDataSize n = min 16 n + 2 + CalcUserDataSize (n - min 16 n)"
proof -
  assume n: "n > 0"
  have "n div 16 = Suc ((n - 16) div 16) \<and> n mod 16 = (n - 16) mod 16" if "16 \<le> n"
    using that by (simp add: le_div_geq le_mod_geq)
  with n show ?thesis
    by (cases "16 \<le> n") (auto simp: CalcUserDataSize_def lpdu_consts Let_def)
qed

lemma length_frame_body [size_simps]: "length (frame_body src) = CalcUserDataSize (length src)"
proof (induction src rule: frame_body.induct)
  case (1 src)
  show ?case
  proof (cases "src = []")
    case True then show ?thesis by (simp add: CalcUserDataSize_def)
  next
    case False
    with 1 show ?thesis using CalcUserDataSize_step[of "length src"]
      by (simp add: frame_body_step min_def split: if_splits)
  qed
qed

lemma WriteUserData_overwrite:
  "pDest + CalcUserDataSize (length src) \<le> length buf \<Longrightarrow>
     WriteUserData src buf pDest = overwrite buf pDest (frame_body src)"
proof (induction src buf pDest rule: WriteUserData.induct)
  case (1 src buf pDest)
  show ?case
  proof (cases "src = []")
    case True then show ?thesis by (simp add: WriteUserData.simps)
  next
    case False
    define num where "num = min 16 (length src)"
    define blk where "blk = take 16 src"
    define buf1 where "buf1 = overwrite buf pDest blk"
    define buf2 where "buf2 = overwrite buf pDest (blk @ uint16_bytes (CalcCrc blk))"
    have blk: "take num src = blk" "length blk = num" by (auto simp: blk_def num_def min_def)
    have drop_num: "drop num src = drop 16 src" by (auto simp: num_def min_def)
    from False CalcUserDataSize_step[of "length src"]
    have size: "CalcUserDataSize (length src) = num + 2 + CalcUserDataSize (length (drop 16 src))"
      by (simp add: num_def min_def split: if_splits)
    with 1(2) have fits: "pDest + num + 2 + CalcUserDataSize (length (drop 16 src)) \<le> length buf"
      by simp
    have "take num (drop pDest buf1) = blk"
      using fits blk(2) overwrite_inside[of pDest buf blk] by (simp add: buf1_def)
    then have "AddCrc buf1 pDest num = overwrite buf1 (pDest + num) (uint16_bytes (CalcCrc blk))"
      using fits blk(2) by (simp add: AddCrc_overwrite buf1_def length_overwrite)
    also have "\<dots> = buf2"
      using fits blk(2) by (simp add: buf1_def buf2_def overwrite_append[symmetric])
    finally have add: "AddCrc buf1 pDest num = buf2" .
    have len2: "length buf2 = length buf"
      using fits blk(2) by (simp add: buf2_def length_overwrite)
    have num: "(if length src > LPDU_DATA_BLOCK_SIZE then LPDU_DATA_BLOCK_SIZE else length src) = num"
      by (simp add: num_def lpdu_consts)
    have "WriteUserData src buf pDest = WriteUserData (drop 16 src) buf2 (pDest + (num + 2))"
      using False by (subst WriteUserData.simps) (simp add: num blk drop_num add Let_def flip: buf1_def)
    also have "\<dots> = overwrite buf2 (pDest + (num + 2)) (frame_body (drop 16 src))"
      using 1(1)[OF _ num[symmetric] refl refl] False fits
      by (simp add: num blk drop_num add len2 flip: buf1_def)
    also have "\<dots> = overwrite buf pDest (frame_body src)"
      using False fits blk(2) overwrite_append[of pDest "blk @ uint16_bytes (CalcCrc blk)" buf]
      by (simp add: buf2_def frame_body_step flip: blk_def)
    finally show ?thesis .
  qed
qed

lemma ValidateBodyCRC_step:
  "len > 0 \<Longrightarrow> ValidateBodyCRC buf p len \<longleftrightarrow>
     IsCorrectCRC buf p (min 16 len) \<and> ValidateBodyCRC buf (p + (min 16 len + 2)) (len - min 16 len)"
  by (subst ValidateBodyCRC.simps) (simp add: Let_def lpdu_consts min_def)

lemma ReadUserData_step:
  "len > 0 \<Longrightarrow> ReadUserData buf rd wr len =
     ReadUserData (overwrite buf wr (take (min 16 len) (drop rd buf))) (rd + (min 16 len + 2))
       (wr + min 16 len) (len - min 16 len)"
  by (subst ReadUserData.simps) (simp add: Let_def lpdu_consts min_def)

lemma ReadUserData_0 [simp]: "ReadUserData buf rd wr 0 = buf"
  by (simp add: ReadUserData.simps)

lemma ValidateBodyCRC_0 [simp]: "ValidateBodyCRC buf p 0"
  by (simp add: ValidateBodyCRC.simps)

text \<open>A region holds a body.\<close>

definition holds_body :: "bytes \<Rightarrow> nat \<Rightarrow> bytes \<Rightarrow> bool" where
  "holds_body buf p src \<longleftrightarrow> take (length (frame_body src)) (drop p buf) = frame_body src"

lemma holds_body_step:
  assumes "src \<noteq> []" "holds_body buf p src"
  shows "take (min 16 (length src) + 2) (drop p buf) = take 16 src @ uint16_bytes (CalcCrc (take 16 src))"
    and "holds_body buf (p + (min 16 (length src) + 2)) (drop 16 src)"
proof -
  let ?n = "min 16 (length src) + 2"
  let ?blk = "take 16 src @ uint16_bytes (CalcCrc (take 16 src))"
  have body: "frame_body src = ?blk @ frame_body (drop 16 src)" and n: "length ?blk = ?n"
    using assms(1) by (simp_all add: frame_body_step)
  have region: "take (?n + length (frame_body (drop 16 src))) (drop p buf) = ?blk @ frame_body (drop 16 src)"
    using assms(2) n unfolding holds_body_def body by simp
  have "take ?n (drop p buf) = take ?n (take (?n + length (frame_body (drop 16 src))) (drop p buf))"
    by simp
  also have "\<dots> = ?blk" unfolding region by (rule take_prefix[OF n])
  finally show "take ?n (drop p buf) = ?blk" .
  have "take (length (frame_body (drop 16 src))) (drop (p + ?n) buf) =
      drop ?n (take (?n + length (frame_body (drop 16 src))) (drop p buf))"
    by (simp add: drop_take ac_simps)
  also have "\<dots> = frame_body (drop 16 src)" unfolding region by (rule drop_prefix[OF n])
  finally show "holds_body buf (p + ?n) (drop 16 src)" by (simp add: holds_body_def)
qed

lemma ValidateBodyCRC_complete:
  "holds_body buf p src \<Longrightarrow> ValidateBodyCRC buf p (length src)"
proof (induction src arbitrary: p rule: frame_body.induct)
  case (1 src)
  show ?case
  proof (cases "src = []")
    case False
    have "IsCorrectCRC buf p (min 16 (length src))"
      by (rule IsCorrectCRC_bytes[OF holds_body_step(1)[OF False "1.prems"]]) simp
    moreover have "ValidateBodyCRC buf (p + (min 16 (length src) + 2)) (length (drop 16 src))"
      using 1(1)[OF False refl] holds_body_step(2)[OF False "1.prems"] by blast
    ultimately show ?thesis using False
      by (subst ValidateBodyCRC_step) (auto simp: min_def split: if_splits)
  qed simp
qed

lemma ValidateBodyCRC_sound:
  "ValidateBodyCRC buf p len \<Longrightarrow> p + CalcUserDataSize len \<le> length buf \<Longrightarrow>
     \<exists>src. length src = len \<and> holds_body buf p src"
proof (induction len arbitrary: p rule: less_induct)
  case (less len)
  show ?case
  proof (cases "len = 0")
    case True
    then show ?thesis by (auto simp: holds_body_def)
  next
    case False
    define n where "n = min 16 len"
    from False have n: "0 < n" "n \<le> len" "n \<le> 16" "len - n < len" by (auto simp: n_def)
    have size: "CalcUserDataSize len = n + 2 + CalcUserDataSize (len - n)"
      using False CalcUserDataSize_step[of len] by (simp add: n_def)
    from less.prems(1) False have crc: "IsCorrectCRC buf p n"
      and rest: "ValidateBodyCRC buf (p + (n + 2)) (len - n)"
      using ValidateBodyCRC_step[of len buf p] by (simp_all add: n_def)
    from less.IH[OF n(4) rest] less.prems(2) size obtain src where
      src: "length src = len - n" "holds_body buf (p + (n + 2)) src" by auto
    define blk where "blk = take n (drop p buf)"
    have blk: "length blk = n" using less.prems(2) size by (simp add: blk_def)
    have "take 16 (blk @ src) = blk \<and> drop 16 (blk @ src) = src"
      using blk src(1) n by (cases "len \<le> 16") (auto simp: n_def)
    then have body: "frame_body (blk @ src) = blk @ uint16_bytes (CalcCrc blk) @ frame_body src"
      using blk n by (subst frame_body_step) auto
    have "take (n + 2) (drop p buf) = blk @ uint16_bytes (CalcCrc blk)"
      using IsCorrectCRC_holds[OF crc] less.prems(2) size by (simp add: blk_def)
    then have "take ((n + 2) + length (frame_body src)) (drop p buf) =
        (blk @ uint16_bytes (CalcCrc blk)) @ frame_body src"
      using src(2) unfolding take_add holds_body_def by (simp add: ac_simps)
    then have "holds_body buf p (blk @ src)"
      using blk by (simp add: holds_body_def body)
    with src(1) blk n show ?thesis by (intro exI[of _ "blk @ src"]) simp
  qed
qed

lemma ReadUserData_overwrite:
  "holds_body buf rd src \<Longrightarrow> wr \<le> rd \<Longrightarrow> rd \<le> length buf \<Longrightarrow>
     ReadUserData buf rd wr (length src) = overwrite buf wr src"
proof (induction src arbitrary: buf rd wr rule: frame_body.induct)
  case (1 src)
  show ?case
  proof (cases "src = []")
    case False
    define blk where "blk = take 16 src"
    define n where "n = min 16 (length src)"
    define buf1 where "buf1 = overwrite buf wr blk"
    have lens: "length blk = n" "length src = n + length (drop 16 src)" "src = blk @ drop 16 src"
      by (auto simp: blk_def n_def min_def)
    have region: "take (n + 2) (drop rd buf) = blk @ uint16_bytes (CalcCrc blk)"
      and next_body: "holds_body buf (rd + (n + 2)) (drop 16 src)"
      using holds_body_step[OF False "1.prems"(1)] by (simp_all add: blk_def n_def)
    have "take n (drop rd buf) = take n (take (n + 2) (drop rd buf))" by (simp add: min_def)
    then have blk: "take n (drop rd buf) = blk" unfolding region using lens(1) by simp
    have "length (take (n + 2) (drop rd buf)) = n + 2" unfolding region using lens(1) by simp
    then have fits: "rd + (n + 2) \<le> length buf" using "1.prems"(3) by simp
    have "drop (rd + (n + 2)) buf1 = drop (rd + (n + 2)) buf"
      unfolding buf1_def using "1.prems"(2,3) lens(1) by (intro drop_overwrite) auto
    with next_body have "holds_body buf1 (rd + (n + 2)) (drop 16 src)"
      by (simp add: holds_body_def)
    then have "ReadUserData buf1 (rd + (n + 2)) (wr + n) (length (drop 16 src)) =
        overwrite buf1 (wr + n) (drop 16 src)"
      using 1(1)[OF False refl] "1.prems"(2) fits lens(1) by (simp add: buf1_def length_overwrite)
    moreover have "ReadUserData buf rd wr (length src) =
        ReadUserData buf1 (rd + (n + 2)) (wr + n) (length (drop 16 src))"
    proof -
      have "length src - n = length (drop 16 src)" by (auto simp: n_def min_def)
      then show ?thesis
        using ReadUserData_step[of "length src" buf rd wr] False
        by (simp add: n_def[symmetric] blk buf1_def)
    qed
    moreover have "overwrite buf1 (wr + n) (drop 16 src) = overwrite buf wr src"
      using overwrite_append[of wr blk buf "drop 16 src"] "1.prems"(2) fits lens(1)
      by (simp add: buf1_def lens(3)[symmetric])
    ultimately show ?thesis by simp
  qed simp
qed

section \<open>Formatted frames\<close>

text \<open>The bytes of a frame with header \<open>h\<close> and user data \<open>src\<close>.\<close>

definition frame_bytes :: "LinkHeader \<Rightarrow> bytes \<Rightarrow> bytes" where
  "frame_bytes h src = header_bytes h @ uint16_bytes (CalcCrc (header_bytes h)) @ frame_body src"

lemma length_frame_bytes [size_simps]: "length (frame_bytes h src) = CalcFrameSize (length src)"
  by (simp add: frame_bytes_def size_simps CalcFrameSize_def lpdu_consts)

lemma CalcUserDataSize_le: "n \<le> 250 \<Longrightarrow> CalcUserDataSize n \<le> 282"
proof -
  assume n: "n \<le> 250"
  define q r where "q = n div 16" and "r = n mod 16"
  have "n = 16 * q + r" and "r < 16" by (simp_all add: q_def r_def)
  moreover from calculation n have "q \<le> 15" by linarith
  ultimately have "18 * q + r + 2 \<le> 282" using n by linarith
  then show ?thesis by (simp add: CalcUserDataSize_def lpdu_consts Let_def flip: q_def r_def)
qed

lemma CalcFrameSize_le: "n \<le> 250 \<Longrightarrow> CalcFrameSize n \<le> LPDU_MAX_FRAME_SIZE"
  using CalcUserDataSize_le[of n] by (simp add: CalcFrameSize_def lpdu_consts)

lemma FormatHeader_bytes:
  assumes "10 \<le> length buffer"
  shows "FormatHeader buffer n m fcb fcv f dest src =
    (let frame = frame_bytes (LinkHeader_make (n + 5) src dest m fcv fcb f) []
     in Some (overwrite buffer 0 frame, frame))"
  using assms
  by (simp add: FormatHeader_def lpdu_consts Let_def LinkHeader_Write_overwrite frame_bytes_def
      overwrite_0)

lemma format_user_data:
  assumes "LPDU_MAX_FRAME_SIZE \<le> length buffer" "length src \<le> 250"
  shows "WriteUserData src (overwrite buffer 0 (frame_bytes h [])) 10 =
      overwrite buffer 0 (frame_bytes h src)"
    and "take (CalcUserDataSize (length src) + LPDU_HEADER_SIZE)
      (overwrite buffer 0 (frame_bytes h src)) = frame_bytes h src"
proof -
  have size: "10 + CalcUserDataSize (length src) \<le> length buffer"
    using assms CalcUserDataSize_le[of "length src"] by (simp add: lpdu_consts)
  have ten: "length (frame_bytes h []) = 10"
    by (simp add: frame_bytes_def)
  have "WriteUserData src (overwrite buffer 0 (frame_bytes h [])) 10 =
      overwrite (overwrite buffer 0 (frame_bytes h [])) (0 + length (frame_bytes h [])) (frame_body src)"
    using size ten by (simp add: WriteUserData_overwrite length_overwrite)
  also have "\<dots> = overwrite buffer 0 (frame_bytes h src)"
    using size ten by (subst overwrite_append) (simp_all add: frame_bytes_def)
  finally show "WriteUserData src (overwrite buffer 0 (frame_bytes h [])) 10 =
      overwrite buffer 0 (frame_bytes h src)" .
  show "take (CalcUserDataSize (length src) + LPDU_HEADER_SIZE)
      (overwrite buffer 0 (frame_bytes h src)) = frame_bytes h src"
    unfolding overwrite_0
    by (rule take_prefix) (simp add: length_frame_bytes CalcFrameSize_def)
qed

lemma FormatConfirmedUserData_bytes:
  assumes "LPDU_MAX_FRAME_SIZE \<le> length buffer" "0 < length data" "length data \<le> 250"
  shows "FormatConfirmedUserData buffer m fcb dest src data =
    (let frame = frame_bytes (LinkHeader_make (word_of_nat (length data) + 5) src dest m True fcb
                   PRI_CONFIRMED_USER_DATA) data
     in Some (overwrite buffer 0 frame, frame))"
  using assms format_user_data[OF assms(1,3)]
  by (simp add: FormatConfirmedUserData_def FormatHeader_bytes lpdu_consts Let_def)

lemma FormatUnconfirmedUserData_bytes:
  assumes "LPDU_MAX_FRAME_SIZE \<le> length buffer" "0 < length data" "length data \<le> 250"
  shows "FormatUnconfirmedUserData buffer m dest src data =
    (let frame = frame_bytes (LinkHeader_make (word_of_nat (length data) + 5) src dest m False False
                   PRI_UNCONFIRMED_USER_DATA) data
     in Some (overwrite buffer 0 frame, frame))"
  using assms format_user_data[OF assms(1,3)]
  by (simp add: FormatUnconfirmedUserData_def FormatHeader_bytes lpdu_consts Let_def)

end
