(* ===== verification/TransportSegment.thy ===== *)
theory TransportSegment
  imports Prelude
begin

text \<open>
  \<^verbatim>\<open>link/ITransportSegment\<close>: the interface the link layer sends through.  The transport layer's
  transmitter provides it, the link layer's primary station is its client.
\<close>

text \<open>The virtual methods the link layer calls.\<close>

record 's ITransportSegment =
  vt_GetSegment :: "'s \<Rightarrow> 's \<times> bytes"
  vt_Advance :: "'s \<Rightarrow> 's \<times> bool"

section \<open>The contract\<close>

text \<open>
  \<open>todo s\<close> are the segments still to be sent.  A provider promises that \<open>GetSegment\<close> always yields
  the first of them, however often it is asked, and that \<open>Advance\<close> drops it and tells whether any
  are left.
\<close>

locale transport_segment =
  fixes has_value :: "'s \<Rightarrow> bool"
    and get_segment :: "'s \<Rightarrow> 's \<times> bytes"
    and advance :: "'s \<Rightarrow> 's \<times> bool"
    and seg_inv :: "'s \<Rightarrow> bool"
    and todo :: "'s \<Rightarrow> bytes list"
  assumes has_value: "seg_inv s \<Longrightarrow> has_value s \<longleftrightarrow> todo s \<noteq> []"
    and get_segment: "seg_inv s \<Longrightarrow> todo s \<noteq> [] \<Longrightarrow> get_segment s = (s', seg) \<Longrightarrow>
      seg = hd (todo s) \<and> seg_inv s' \<and> todo s' = todo s"
    and advance: "seg_inv s \<Longrightarrow> todo s \<noteq> [] \<Longrightarrow> advance s = (s', again) \<Longrightarrow>
      seg_inv s' \<and> todo s' = tl (todo s) \<and> (again \<longleftrightarrow> todo s' \<noteq> [])"

text \<open>A sender that reads each segment once again than \<open>ks\<close> says (a retry reads it again).\<close>

fun read_again :: "('s \<Rightarrow> 's \<times> bytes) \<Rightarrow> nat \<Rightarrow> 's \<Rightarrow> 's \<times> bytes" where
  "read_again get 0 s = get s"
| "read_again get (Suc k) s = read_again get k (fst (get s))"

fun send_segments ::
  "('s \<Rightarrow> 's \<times> bytes) \<Rightarrow> ('s \<Rightarrow> 's \<times> bool) \<Rightarrow> nat list \<Rightarrow> 's \<Rightarrow> 's \<times> bytes list" where
  "send_segments get adv [] s = (s, [])"
| "send_segments get adv (k # ks) s =
     (let (s, seg) = read_again get k s; (s, again) = adv s
      in if again then (let (s, segs) = send_segments get adv ks s in (s, seg # segs)) else (s, [seg]))"

context transport_segment
begin

lemma read_again_todo:
  "seg_inv s \<Longrightarrow> todo s \<noteq> [] \<Longrightarrow> read_again get_segment k s = (s', seg) \<Longrightarrow>
     seg = hd (todo s) \<and> seg_inv s' \<and> todo s' = todo s"
proof (induction k arbitrary: s)
  case 0
  then have "get_segment s = (s', seg)" by simp
  from get_segment[OF 0(1,2) this] show ?case .
next
  case (Suc k)
  obtain s1 seg1 where g: "get_segment s = (s1, seg1)" by (cases "get_segment s")
  note s1 = get_segment[OF Suc.prems(1,2) g]
  have "read_again get_segment k s1 = (s', seg)" using Suc.prems(3) g by simp
  with Suc.IH[of s1] s1 Suc.prems(2) show ?case by simp
qed

lemma send_segments_todo:
  "seg_inv s \<Longrightarrow> todo s \<noteq> [] \<Longrightarrow> length (todo s) \<le> length ks \<Longrightarrow>
     send_segments get_segment advance ks s = (s', segs) \<Longrightarrow>
     segs = todo s \<and> seg_inv s' \<and> todo s' = [] \<and> \<not> has_value s'"
proof (induction ks arbitrary: s s' segs)
  case (Cons k ks)
  obtain s1 seg where r: "read_again get_segment k s = (s1, seg)" by (cases "read_again get_segment k s")
  note s1 = read_again_todo[OF Cons.prems(1,2) r]
  obtain s2 again where a: "advance s1 = (s2, again)" by (cases "advance s1")
  have s2: "seg_inv s2" "todo s2 = tl (todo s)" "again \<longleftrightarrow> todo s2 \<noteq> []"
    using advance[OF _ _ a] s1 Cons.prems(2) by auto
  have cons: "todo s = hd (todo s) # tl (todo s)" using Cons.prems(2) by simp
  show ?case
  proof (cases "todo s2 = []")
    case True
    with Cons.prems(4) r a s2(3) have "s' = s2" "segs = [seg]" by simp_all
    with True s1 s2 has_value[OF s2(1)] cons show ?thesis by simp
  next
    case False
    obtain s3 segs3 where rest: "send_segments get_segment advance ks s2 = (s3, segs3)"
      by (cases "send_segments get_segment advance ks s2")
    have "length (todo s2) \<le> length ks" using Cons.prems(3) s2(2) by simp
    note IH = Cons.IH[OF s2(1) False this rest]
    from Cons.prems(4) r a s2(3) False rest have "s' = s3" "segs = seg # segs3" by simp_all
    with IH s1 s2(2) cons show ?thesis by metis
  qed
qed simp

end

end
