(* ===== verification/LinkContext.thy ===== *)
theory LinkContext
  imports LinkFrame TransportSegment "HOL-Library.Monad_Syntax"
begin

text \<open>
  \<^verbatim>\<open>link/LinkContext\<close>, \<^verbatim>\<open>link/PriLinkLayerStates\<close>, \<^verbatim>\<open>link/SecLinkLayerStates\<close>, \<^verbatim>\<open>link/LinkLayer\<close> and
  \<^verbatim>\<open>openpal/executor/TimerRef\<close>: the primary and the secondary station of one link session.

  Operations take and return the context; \<open>None\<close> is a failed \<^verbatim>\<open>assert\<close> or a null pointer that the
  source would dereference.  Calls that leave the layer (router, upper layer, listener, executor) are
  appended to \<open>lc_out\<close>.  Frames are slices at the start of the station's transmit buffer, kept as
  their size, so a queued frame is read from the buffer when it is handed to the router.  The
  segments to send are an object of the upper layer behind \<^verbatim>\<open>ITransportSegment\<close>: its two methods are
  the argument \<open>vt\<close>, its state is in \<open>lc_pSegments\<close>.  While it handles received data the upper layer
  may call \<^verbatim>\<open>Send\<close>, before the frame handler returns: the argument \<open>reply\<close> is what it sends.
\<close>

section \<open>Data\<close>

datatype LinkTransmitMode = TxIdle | TxPrimary | TxSecondary

datatype PriState =
    PLLS_Idle
  | PLLS_SendUnconfirmedTransmitWait
  | PLLS_LinkResetTransmitWait
  | PLLS_ConfUserDataTransmitWait
  | PLLS_RequestLinkStatusTransmitWait
  | PLLS_ResetLinkWait
  | PLLS_ConfDataWait
  | PLLS_RequestLinkStatusWait

datatype SecState = SLLS_NotReset | SLLS_Reset | SLLS_TransmitWaitReset | SLLS_TransmitWaitNotReset

datatype LinkStatus = UNRESET | RESET

datatype LinkAction =
    RouterBeginTransmit LinkTransmitMode bytes
  | UpperLowerLayerUp | UpperLowerLayerDown
  | UpperReceive bytes
  | PostSendResult bool
  | PostStatus LinkStatus
  | KeepAliveInitiated | KeepAliveFailure | KeepAliveSuccess

record LinkConfig =
  cfg_IsMaster :: bool
  cfg_UseConfirms :: bool
  cfg_NumRetry :: nat
  cfg_LocalAddr :: uint16
  cfg_RemoteAddr :: uint16
  cfg_Timeout :: int
  cfg_KeepAliveTimeout :: int

record 's LinkContext =
  lc_priTxBuffer :: bytes
  lc_secTxBuffer :: bytes
  lc_pendingPriTx :: "nat option"
  lc_pendingSecTx :: "nat option"
  lc_config :: LinkConfig
  lc_pSegments :: "'s option"
  lc_txMode :: LinkTransmitMode
  lc_numRetryRemaining :: nat
  lc_rspTimeoutTimer :: "int option"
  lc_keepAliveTimer :: "int option"
  lc_nextReadFCB :: bool
  lc_nextWriteFCB :: bool
  lc_isOnline :: bool
  lc_isRemoteReset :: bool
  lc_keepAliveTimeout :: bool
  lc_lastMessageTimestamp :: int
  lc_pRouter :: bool
  lc_pPriState :: PriState
  lc_pSecState :: SecState
  lc_out :: "LinkAction list"

definition LinkContext_make :: "LinkConfig \<Rightarrow> int \<Rightarrow> 's LinkContext" where
  "LinkContext_make config now =
     \<lparr>lc_priTxBuffer = replicate LPDU_MAX_FRAME_SIZE 0, lc_secTxBuffer = replicate LPDU_HEADER_SIZE 0,
      lc_pendingPriTx = None, lc_pendingSecTx = None, lc_config = config, lc_pSegments = None,
      lc_txMode = TxIdle, lc_numRetryRemaining = 0, lc_rspTimeoutTimer = None, lc_keepAliveTimer = None,
      lc_nextReadFCB = False, lc_nextWriteFCB = False, lc_isOnline = False, lc_isRemoteReset = False,
      lc_keepAliveTimeout = False, lc_lastMessageTimestamp = now, lc_pRouter = False,
      lc_pPriState = PLLS_Idle, lc_pSecState = SLLS_NotReset, lc_out = []\<rparr>"

section \<open>TimerRef\<close>

text \<open>A timer is what it was started with, when it is active: here the duration.\<close>

definition TimerRef_Cancel :: "'d option \<Rightarrow> 'd option \<times> bool" where
  "TimerRef_Cancel t = (case t of Some _ \<Rightarrow> (None, True) | None \<Rightarrow> (None, False))"

definition TimerRef_Start :: "'d option \<Rightarrow> 'd \<Rightarrow> 'd option \<times> bool" where
  "TimerRef_Start t timeout = (case t of Some d \<Rightarrow> (Some d, False) | None \<Rightarrow> (Some timeout, True))"

section \<open>LinkContext: helpers\<close>

definition emit :: "LinkAction \<Rightarrow> 's LinkContext \<Rightarrow> 's LinkContext" where
  "emit a ctx = ctx\<lparr>lc_out := lc_out ctx @ [a]\<rparr>"

definition ResetReadFCB :: "'s LinkContext \<Rightarrow> 's LinkContext" where
  "ResetReadFCB ctx = ctx\<lparr>lc_nextReadFCB := True\<rparr>"

definition ResetWriteFCB :: "'s LinkContext \<Rightarrow> 's LinkContext" where
  "ResetWriteFCB ctx = ctx\<lparr>lc_nextWriteFCB := True\<rparr>"

definition ToggleReadFCB :: "'s LinkContext \<Rightarrow> 's LinkContext" where
  "ToggleReadFCB ctx = ctx\<lparr>lc_nextReadFCB := \<not> lc_nextReadFCB ctx\<rparr>"

definition ToggleWriteFCB :: "'s LinkContext \<Rightarrow> 's LinkContext" where
  "ToggleWriteFCB ctx = ctx\<lparr>lc_nextWriteFCB := \<not> lc_nextWriteFCB ctx\<rparr>"

text \<open>The slice handed to the router is read from the station's buffer.\<close>

definition router_transmit :: "'s LinkContext \<Rightarrow> nat \<Rightarrow> bool \<Rightarrow> 's LinkContext option" where
  "router_transmit ctx n primary =
     (if lc_pRouter ctx
      then Some (emit (if primary then RouterBeginTransmit TxPrimary (take n (lc_priTxBuffer ctx))
                       else RouterBeginTransmit TxSecondary (take n (lc_secTxBuffer ctx))) ctx)
      else None)"

definition QueueTransmit :: "'s LinkContext \<Rightarrow> nat \<Rightarrow> bool \<Rightarrow> 's LinkContext option" where
  "QueueTransmit ctx n primary =
     (if lc_txMode ctx = TxIdle
      then router_transmit (ctx\<lparr>lc_txMode := (if primary then TxPrimary else TxSecondary)\<rparr>) n primary
      else if primary then Some (ctx\<lparr>lc_pendingPriTx := Some n\<rparr>)
      else Some (ctx\<lparr>lc_pendingSecTx := Some n\<rparr>))"

text \<open>A formatted frame in one of the two buffers, and its size.\<close>

definition put_pri :: "'s LinkContext \<Rightarrow> (bytes \<times> bytes) option \<Rightarrow> ('s LinkContext \<times> nat) option" where
  "put_pri ctx r = map_option (\<lambda>(buf, slice). (ctx\<lparr>lc_priTxBuffer := buf\<rparr>, length slice)) r"

definition put_sec :: "'s LinkContext \<Rightarrow> (bytes \<times> bytes) option \<Rightarrow> ('s LinkContext \<times> nat) option" where
  "put_sec ctx r = map_option (\<lambda>(buf, slice). (ctx\<lparr>lc_secTxBuffer := buf\<rparr>, length slice)) r"

text \<open>The data length is passed as a \<^verbatim>\<open>uint8_t\<close>.\<close>

definition FormatPrimaryBufferWithConfirmed :: "'s LinkContext \<Rightarrow> bytes \<Rightarrow> bool \<Rightarrow> ('s LinkContext \<times> nat) option" where
  "FormatPrimaryBufferWithConfirmed ctx tpdu FCB =
     (let config = lc_config ctx in
      put_pri ctx (FormatConfirmedUserData (lc_priTxBuffer ctx) (cfg_IsMaster config) FCB
        (cfg_RemoteAddr config) (cfg_LocalAddr config) (take (length tpdu mod 256) tpdu)))"

definition FormatPrimaryBufferWithUnconfirmed :: "'s LinkContext \<Rightarrow> bytes \<Rightarrow> ('s LinkContext \<times> nat) option" where
  "FormatPrimaryBufferWithUnconfirmed ctx tpdu =
     (let config = lc_config ctx in
      put_pri ctx (FormatUnconfirmedUserData (lc_priTxBuffer ctx) (cfg_IsMaster config)
        (cfg_RemoteAddr config) (cfg_LocalAddr config) (take (length tpdu mod 256) tpdu)))"

definition QueueAck :: "'s LinkContext \<Rightarrow> 's LinkContext option" where
  "QueueAck ctx =
     (let config = lc_config ctx in do {
        (ctx, n) \<leftarrow> put_sec ctx (FormatAck (lc_secTxBuffer ctx) (cfg_IsMaster config) False
                       (cfg_RemoteAddr config) (cfg_LocalAddr config));
        QueueTransmit ctx n False })"

definition QueueLinkStatus :: "'s LinkContext \<Rightarrow> 's LinkContext option" where
  "QueueLinkStatus ctx =
     (let config = lc_config ctx in do {
        (ctx, n) \<leftarrow> put_sec ctx (FormatLinkStatus (lc_secTxBuffer ctx) (cfg_IsMaster config) False
                       (cfg_RemoteAddr config) (cfg_LocalAddr config));
        QueueTransmit ctx n False })"

definition QueueResetLinks :: "'s LinkContext \<Rightarrow> 's LinkContext option" where
  "QueueResetLinks ctx =
     (let config = lc_config ctx in do {
        (ctx, n) \<leftarrow> put_pri ctx (FormatResetLinkStates (lc_priTxBuffer ctx) (cfg_IsMaster config)
                       (cfg_RemoteAddr config) (cfg_LocalAddr config));
        QueueTransmit ctx n True })"

definition QueueRequestLinkStatus :: "'s LinkContext \<Rightarrow> 's LinkContext option" where
  "QueueRequestLinkStatus ctx =
     (let config = lc_config ctx in do {
        (ctx, n) \<leftarrow> put_pri ctx (FormatRequestLinkStatus (lc_priTxBuffer ctx) (cfg_IsMaster config)
                       (cfg_RemoteAddr config) (cfg_LocalAddr config));
        QueueTransmit ctx n True })"

definition ResetRetry :: "'s LinkContext \<Rightarrow> 's LinkContext" where
  "ResetRetry ctx = ctx\<lparr>lc_numRetryRemaining := cfg_NumRetry (lc_config ctx)\<rparr>"

definition Retry :: "'s LinkContext \<Rightarrow> 's LinkContext \<times> bool" where
  "Retry ctx =
     (if lc_numRetryRemaining ctx > 0
      then (ctx\<lparr>lc_numRetryRemaining := lc_numRetryRemaining ctx - 1\<rparr>, True)
      else (ctx, False))"

definition PostStatusCallback :: "LinkStatus \<Rightarrow> 's LinkContext \<Rightarrow> 's LinkContext" where
  "PostStatusCallback status ctx = emit (PostStatus status) ctx"

definition CompleteSendOperation :: "'s LinkContext \<Rightarrow> bool \<Rightarrow> 's LinkContext" where
  "CompleteSendOperation ctx success = emit (PostSendResult success) (ctx\<lparr>lc_pSegments := None\<rparr>)"

definition StartResponseTimer :: "'s LinkContext \<Rightarrow> 's LinkContext" where
  "StartResponseTimer ctx =
     ctx\<lparr>lc_rspTimeoutTimer := fst (TimerRef_Start (lc_rspTimeoutTimer ctx) (cfg_Timeout (lc_config ctx)))\<rparr>"

definition StartKeepAliveTimer :: "'s LinkContext \<Rightarrow> 's LinkContext" where
  "StartKeepAliveTimer ctx =
     ctx\<lparr>lc_keepAliveTimer := fst (TimerRef_Start (lc_keepAliveTimer ctx) (cfg_KeepAliveTimeout (lc_config ctx)))\<rparr>"

definition CancelTimer :: "'s LinkContext \<Rightarrow> 's LinkContext" where
  "CancelTimer ctx = ctx\<lparr>lc_rspTimeoutTimer := fst (TimerRef_Cancel (lc_rspTimeoutTimer ctx))\<rparr>"

definition FailKeepAlive :: "'s LinkContext \<Rightarrow> bool \<Rightarrow> 's LinkContext" where
  "FailKeepAlive ctx timeout = (if timeout then emit KeepAliveFailure ctx else ctx)"

definition CompleteKeepAlive :: "'s LinkContext \<Rightarrow> 's LinkContext" where
  "CompleteKeepAlive ctx = emit KeepAliveSuccess ctx"

definition LinkContext_OnLowerLayerUp :: "'s LinkContext \<Rightarrow> int \<Rightarrow> 's LinkContext \<times> bool" where
  "LinkContext_OnLowerLayerUp ctx now =
     (if lc_isOnline ctx then (ctx, False)
      else
        (let ctx = ctx\<lparr>lc_isOnline := True, lc_lastMessageTimestamp := now\<rparr>;
             ctx = StartKeepAliveTimer ctx;
             ctx = PostStatusCallback UNRESET ctx
         in (emit UpperLowerLayerUp ctx, True)))"

definition LinkContext_OnLowerLayerDown :: "'s LinkContext \<Rightarrow> 's LinkContext \<times> bool" where
  "LinkContext_OnLowerLayerDown ctx =
     (if \<not> lc_isOnline ctx then (ctx, False)
      else
        (let ctx = ctx\<lparr>lc_isOnline := False, lc_keepAliveTimeout := False, lc_isRemoteReset := False,
                   lc_pSegments := None, lc_txMode := TxIdle, lc_pendingPriTx := None, lc_pendingSecTx := None\<rparr>;
             ctx = ctx\<lparr>lc_rspTimeoutTimer := fst (TimerRef_Cancel (lc_rspTimeoutTimer ctx)),
                   lc_keepAliveTimer := fst (TimerRef_Cancel (lc_keepAliveTimer ctx))\<rparr>;
             ctx = ctx\<lparr>lc_pPriState := PLLS_Idle, lc_pSecState := SLLS_NotReset\<rparr>;
             ctx = PostStatusCallback UNRESET ctx
         in (emit UpperLowerLayerDown ctx, True)))"

definition SetTxSegment :: "'s LinkContext \<Rightarrow> 's \<Rightarrow> 's LinkContext \<times> bool" where
  "SetTxSegment ctx segments =
     (if \<not> lc_isOnline ctx then (ctx, False)
      else case lc_pSegments ctx of
        Some _ \<Rightarrow> (ctx, False)
      | None \<Rightarrow> (ctx\<lparr>lc_pSegments := Some segments\<rparr>, True))"

definition TryPendingSecTx :: "'s LinkContext \<Rightarrow> 's LinkContext option" where
  "TryPendingSecTx ctx =
     (case (lc_txMode ctx, lc_pendingSecTx ctx) of
        (TxIdle, Some n) \<Rightarrow>
          do { ctx \<leftarrow> router_transmit ctx n False;
               Some (ctx\<lparr>lc_pendingSecTx := None, lc_txMode := TxSecondary\<rparr>) }
      | _ \<Rightarrow> Some ctx)"

definition TryPendingPriTx :: "'s LinkContext \<Rightarrow> 's LinkContext option" where
  "TryPendingPriTx ctx =
     (case (lc_txMode ctx, lc_pendingPriTx ctx) of
        (TxIdle, Some n) \<Rightarrow>
          do { ctx \<leftarrow> router_transmit ctx n True;
               Some (ctx\<lparr>lc_pendingPriTx := None, lc_txMode := TxPrimary\<rparr>) }
      | _ \<Rightarrow> Some ctx)"

definition LinkContext_Validate :: "'s LinkContext \<Rightarrow> bool \<Rightarrow> uint16 \<Rightarrow> uint16 \<Rightarrow> bool" where
  "LinkContext_Validate ctx isMaster src dest =
     (if isMaster = cfg_IsMaster (lc_config ctx) then False
      else if dest \<noteq> cfg_LocalAddr (lc_config ctx) then False
      else if src \<noteq> cfg_RemoteAddr (lc_config ctx) then False
      else True)"


section \<open>PriLinkLayerStates\<close>

text \<open>
  One definition per overridden method; a base-class method logs and keeps the state.  The dispatch
  functions stand for the virtual call \<^verbatim>\<open>pPriState = &pPriState->OnX(*this)\<close>.
\<close>

definition GetSegment_of :: "'s ITransportSegment \<Rightarrow> 's LinkContext \<Rightarrow> ('s LinkContext \<times> bytes) option" where
  "GetSegment_of vt ctx =
     (case lc_pSegments ctx of
        None \<Rightarrow> None
      | Some s \<Rightarrow> (let (s, tpdu) = vt_GetSegment vt s in Some (ctx\<lparr>lc_pSegments := Some s\<rparr>, tpdu)))"

definition Advance_of :: "'s ITransportSegment \<Rightarrow> 's LinkContext \<Rightarrow> ('s LinkContext \<times> bool) option" where
  "Advance_of vt ctx =
     (case lc_pSegments ctx of
        None \<Rightarrow> None
      | Some s \<Rightarrow> (let (s, again) = vt_Advance vt s in Some (ctx\<lparr>lc_pSegments := Some s\<rparr>, again)))"

definition QueueConfirmedSegment :: "'s ITransportSegment \<Rightarrow> 's LinkContext \<Rightarrow> 's LinkContext option" where
  "QueueConfirmedSegment vt ctx =
     do { (ctx, tpdu) \<leftarrow> GetSegment_of vt ctx;
          (ctx, n) \<leftarrow> FormatPrimaryBufferWithConfirmed ctx tpdu (lc_nextWriteFCB ctx);
          QueueTransmit ctx n True }"

definition QueueUnconfirmedSegment :: "'s ITransportSegment \<Rightarrow> 's LinkContext \<Rightarrow> 's LinkContext option" where
  "QueueUnconfirmedSegment vt ctx =
     do { (ctx, tpdu) \<leftarrow> GetSegment_of vt ctx;
          (ctx, n) \<leftarrow> FormatPrimaryBufferWithUnconfirmed ctx tpdu;
          QueueTransmit ctx n True }"

definition PLLS_Idle_TrySendUnconfirmed ::
  "'s ITransportSegment \<Rightarrow> 's LinkContext \<Rightarrow> ('s LinkContext \<times> PriState) option" where
  "PLLS_Idle_TrySendUnconfirmed vt ctx =
     do { ctx \<leftarrow> QueueUnconfirmedSegment vt ctx; Some (ctx, PLLS_SendUnconfirmedTransmitWait) }"

definition PLLS_Idle_TrySendConfirmed ::
  "'s ITransportSegment \<Rightarrow> 's LinkContext \<Rightarrow> ('s LinkContext \<times> PriState) option" where
  "PLLS_Idle_TrySendConfirmed vt ctx =
     (if lc_isRemoteReset ctx
      then do { ctx \<leftarrow> QueueConfirmedSegment vt (ResetRetry ctx); Some (ctx, PLLS_ConfUserDataTransmitWait) }
      else do { ctx \<leftarrow> QueueResetLinks (ResetRetry ctx); Some (ctx, PLLS_LinkResetTransmitWait) })"

definition PLLS_Idle_TrySendRequestLinkStatus :: "'s LinkContext \<Rightarrow> ('s LinkContext \<times> PriState) option" where
  "PLLS_Idle_TrySendRequestLinkStatus ctx =
     do { ctx \<leftarrow> QueueRequestLinkStatus (ctx\<lparr>lc_keepAliveTimeout := False\<rparr>);
          Some (emit KeepAliveInitiated ctx, PLLS_RequestLinkStatusTransmitWait) }"

definition PLLS_SendUnconfirmedTransmitWait_OnTransmitResult ::
  "'s ITransportSegment \<Rightarrow> 's LinkContext \<Rightarrow> bool \<Rightarrow> ('s LinkContext \<times> PriState) option" where
  "PLLS_SendUnconfirmedTransmitWait_OnTransmitResult vt ctx success =
     do { (ctx, again) \<leftarrow> Advance_of vt ctx;
          if again
          then do { ctx \<leftarrow> QueueUnconfirmedSegment vt ctx; Some (ctx, PLLS_SendUnconfirmedTransmitWait) }
          else Some (CompleteSendOperation ctx success, PLLS_Idle) }"

definition PLLS_LinkResetTransmitWait_OnTransmitResult ::
  "'s LinkContext \<Rightarrow> bool \<Rightarrow> 's LinkContext \<times> PriState" where
  "PLLS_LinkResetTransmitWait_OnTransmitResult ctx success =
     (if success then (StartResponseTimer ctx, PLLS_ResetLinkWait)
      else (CompleteSendOperation ctx success, PLLS_Idle))"

definition PLLS_ConfUserDataTransmitWait_OnTransmitResult ::
  "'s LinkContext \<Rightarrow> bool \<Rightarrow> 's LinkContext \<times> PriState" where
  "PLLS_ConfUserDataTransmitWait_OnTransmitResult ctx success =
     (if success then (StartResponseTimer ctx, PLLS_ConfDataWait)
      else (CompleteSendOperation ctx False, PLLS_Idle))"

definition PLLS_RequestLinkStatusTransmitWait_OnTransmitResult ::
  "'s LinkContext \<Rightarrow> bool \<Rightarrow> 's LinkContext \<times> PriState" where
  "PLLS_RequestLinkStatusTransmitWait_OnTransmitResult ctx success =
     (if success then (StartResponseTimer ctx, PLLS_RequestLinkStatusWait)
      else (FailKeepAlive ctx False, PLLS_Idle))"

definition PLLS_ResetLinkWait_OnAck ::
  "'s ITransportSegment \<Rightarrow> 's LinkContext \<Rightarrow> ('s LinkContext \<times> PriState) option" where
  "PLLS_ResetLinkWait_OnAck vt ctx =
     do { ctx \<leftarrow> QueueConfirmedSegment vt (CancelTimer (ResetWriteFCB (ctx\<lparr>lc_isRemoteReset := True\<rparr>)));
          Some (PostStatusCallback RESET ctx, PLLS_ConfUserDataTransmitWait) }"

definition PLLS_ResetLinkWait_OnTimeout :: "'s LinkContext \<Rightarrow> ('s LinkContext \<times> PriState) option" where
  "PLLS_ResetLinkWait_OnTimeout ctx =
     (case Retry ctx of
        (ctx, True) \<Rightarrow> do { ctx \<leftarrow> QueueResetLinks ctx; Some (ctx, PLLS_LinkResetTransmitWait) }
      | (ctx, False) \<Rightarrow> Some (CompleteSendOperation ctx False, PLLS_Idle))"

text \<open>\<^verbatim>\<open>Failure\<close> of \<^verbatim>\<open>PLLS_ResetLinkWait\<close> and of \<^verbatim>\<open>PLLS_ConfDataWait\<close>, the same three lines.\<close>

definition PLLS_Failure :: "'s LinkContext \<Rightarrow> 's LinkContext \<times> PriState" where
  "PLLS_Failure ctx = (CompleteSendOperation (CancelTimer ctx) False, PLLS_Idle)"

definition PLLS_ConfDataWait_OnAck ::
  "'s ITransportSegment \<Rightarrow> 's LinkContext \<Rightarrow> ('s LinkContext \<times> PriState) option" where
  "PLLS_ConfDataWait_OnAck vt ctx =
     do { (ctx, again) \<leftarrow> Advance_of vt (CancelTimer (ToggleWriteFCB ctx));
          if again
          then do { ctx \<leftarrow> QueueConfirmedSegment vt ctx; Some (ctx, PLLS_ConfUserDataTransmitWait) }
          else Some (CompleteSendOperation ctx True, PLLS_Idle) }"

definition PLLS_ConfDataWait_OnNack :: "'s LinkContext \<Rightarrow> bool \<Rightarrow> ('s LinkContext \<times> PriState) option" where
  "PLLS_ConfDataWait_OnNack ctx rxBuffFull =
     (let ctx = PostStatusCallback UNRESET ctx in
      if rxBuffFull then Some (PLLS_Failure ctx)
      else do { ctx \<leftarrow> QueueResetLinks (CancelTimer (ResetRetry ctx)); Some (ctx, PLLS_LinkResetTransmitWait) })"

definition PLLS_ConfDataWait_OnTimeout ::
  "'s ITransportSegment \<Rightarrow> 's LinkContext \<Rightarrow> ('s LinkContext \<times> PriState) option" where
  "PLLS_ConfDataWait_OnTimeout vt ctx =
     (case Retry ctx of
        (ctx, True) \<Rightarrow> do { ctx \<leftarrow> QueueConfirmedSegment vt ctx; Some (ctx, PLLS_ConfUserDataTransmitWait) }
      | (ctx, False) \<Rightarrow> Some (CompleteSendOperation (PostStatusCallback UNRESET ctx) False, PLLS_Idle))"

definition PLLS_RequestLinkStatusWait_OnNack :: "'s LinkContext \<Rightarrow> 's LinkContext \<times> PriState" where
  "PLLS_RequestLinkStatusWait_OnNack ctx = (FailKeepAlive (CancelTimer ctx) False, PLLS_Idle)"

definition PLLS_RequestLinkStatusWait_OnLinkStatus :: "'s LinkContext \<Rightarrow> 's LinkContext \<times> PriState" where
  "PLLS_RequestLinkStatusWait_OnLinkStatus ctx = (CompleteKeepAlive (CancelTimer ctx), PLLS_Idle)"

definition PLLS_RequestLinkStatusWait_OnNotSupported :: "'s LinkContext \<Rightarrow> 's LinkContext \<times> PriState" where
  "PLLS_RequestLinkStatusWait_OnNotSupported ctx = (FailKeepAlive (CancelTimer ctx) False, PLLS_Idle)"

definition PLLS_RequestLinkStatusWait_OnTimeout :: "'s LinkContext \<Rightarrow> 's LinkContext \<times> PriState" where
  "PLLS_RequestLinkStatusWait_OnTimeout ctx = (FailKeepAlive ctx True, PLLS_Idle)"

subsection \<open>Virtual dispatch\<close>

definition set_pri :: "'s LinkContext \<times> PriState \<Rightarrow> 's LinkContext" where
  "set_pri r = (fst r)\<lparr>lc_pPriState := snd r\<rparr>"

definition PriState_OnAck :: "'s ITransportSegment \<Rightarrow> 's LinkContext \<Rightarrow> 's LinkContext option" where
  "PriState_OnAck vt ctx =
     (case lc_pPriState ctx of
        PLLS_ResetLinkWait \<Rightarrow> map_option set_pri (PLLS_ResetLinkWait_OnAck vt ctx)
      | PLLS_ConfDataWait \<Rightarrow> map_option set_pri (PLLS_ConfDataWait_OnAck vt ctx)
      | _ \<Rightarrow> Some ctx)"

definition PriState_OnNack :: "'s LinkContext \<Rightarrow> bool \<Rightarrow> 's LinkContext option" where
  "PriState_OnNack ctx rxBuffFull =
     (case lc_pPriState ctx of
        PLLS_ResetLinkWait \<Rightarrow> Some (set_pri (PLLS_Failure ctx))
      | PLLS_ConfDataWait \<Rightarrow> map_option set_pri (PLLS_ConfDataWait_OnNack ctx rxBuffFull)
      | PLLS_RequestLinkStatusWait \<Rightarrow> Some (set_pri (PLLS_RequestLinkStatusWait_OnNack ctx))
      | _ \<Rightarrow> Some ctx)"

definition PriState_OnLinkStatus :: "'s LinkContext \<Rightarrow> 's LinkContext" where
  "PriState_OnLinkStatus ctx =
     (case lc_pPriState ctx of
        PLLS_ResetLinkWait \<Rightarrow> set_pri (PLLS_Failure ctx)
      | PLLS_ConfDataWait \<Rightarrow> set_pri (PLLS_Failure ctx)
      | PLLS_RequestLinkStatusWait \<Rightarrow> set_pri (PLLS_RequestLinkStatusWait_OnLinkStatus ctx)
      | _ \<Rightarrow> ctx)"

definition PriState_OnNotSupported :: "'s LinkContext \<Rightarrow> 's LinkContext" where
  "PriState_OnNotSupported ctx =
     (case lc_pPriState ctx of
        PLLS_ResetLinkWait \<Rightarrow> set_pri (PLLS_Failure ctx)
      | PLLS_ConfDataWait \<Rightarrow> set_pri (PLLS_Failure ctx)
      | PLLS_RequestLinkStatusWait \<Rightarrow> set_pri (PLLS_RequestLinkStatusWait_OnNotSupported ctx)
      | _ \<Rightarrow> ctx)"

definition PriState_OnTransmitResult :: "'s ITransportSegment \<Rightarrow> 's LinkContext \<Rightarrow> bool \<Rightarrow> 's LinkContext option" where
  "PriState_OnTransmitResult vt ctx success =
     (case lc_pPriState ctx of
        PLLS_SendUnconfirmedTransmitWait \<Rightarrow>
          map_option set_pri (PLLS_SendUnconfirmedTransmitWait_OnTransmitResult vt ctx success)
      | PLLS_LinkResetTransmitWait \<Rightarrow> Some (set_pri (PLLS_LinkResetTransmitWait_OnTransmitResult ctx success))
      | PLLS_ConfUserDataTransmitWait \<Rightarrow> Some (set_pri (PLLS_ConfUserDataTransmitWait_OnTransmitResult ctx success))
      | PLLS_RequestLinkStatusTransmitWait \<Rightarrow>
          Some (set_pri (PLLS_RequestLinkStatusTransmitWait_OnTransmitResult ctx success))
      | _ \<Rightarrow> Some ctx)"

definition PriState_OnTimeout :: "'s ITransportSegment \<Rightarrow> 's LinkContext \<Rightarrow> 's LinkContext option" where
  "PriState_OnTimeout vt ctx =
     (case lc_pPriState ctx of
        PLLS_ResetLinkWait \<Rightarrow> map_option set_pri (PLLS_ResetLinkWait_OnTimeout ctx)
      | PLLS_ConfDataWait \<Rightarrow> map_option set_pri (PLLS_ConfDataWait_OnTimeout vt ctx)
      | PLLS_RequestLinkStatusWait \<Rightarrow> Some (set_pri (PLLS_RequestLinkStatusWait_OnTimeout ctx))
      | _ \<Rightarrow> Some ctx)"

definition PriState_TrySendConfirmed :: "'s ITransportSegment \<Rightarrow> 's LinkContext \<Rightarrow> 's LinkContext option" where
  "PriState_TrySendConfirmed vt ctx =
     (if lc_pPriState ctx = PLLS_Idle then map_option set_pri (PLLS_Idle_TrySendConfirmed vt ctx) else Some ctx)"

definition PriState_TrySendUnconfirmed :: "'s ITransportSegment \<Rightarrow> 's LinkContext \<Rightarrow> 's LinkContext option" where
  "PriState_TrySendUnconfirmed vt ctx =
     (if lc_pPriState ctx = PLLS_Idle then map_option set_pri (PLLS_Idle_TrySendUnconfirmed vt ctx) else Some ctx)"

definition PriState_TrySendRequestLinkStatus :: "'s LinkContext \<Rightarrow> 's LinkContext option" where
  "PriState_TrySendRequestLinkStatus ctx =
     (if lc_pPriState ctx = PLLS_Idle then map_option set_pri (PLLS_Idle_TrySendRequestLinkStatus ctx) else Some ctx)"

section \<open>LinkContext: starting transmissions and sending\<close>

definition TryStartTransmission :: "'s ITransportSegment \<Rightarrow> 's LinkContext \<Rightarrow> 's LinkContext option" where
  "TryStartTransmission vt ctx =
     do { ctx \<leftarrow> (if lc_keepAliveTimeout ctx then PriState_TrySendRequestLinkStatus ctx else Some ctx);
          if lc_pSegments ctx \<noteq> None
          then if cfg_UseConfirms (lc_config ctx) then PriState_TrySendConfirmed vt ctx
               else PriState_TrySendUnconfirmed vt ctx
          else Some ctx }"

definition LinkLayer_Send :: "'s ITransportSegment \<Rightarrow> 's LinkContext \<Rightarrow> 's \<Rightarrow> 's LinkContext option" where
  "LinkLayer_Send vt ctx segments =
     (case SetTxSegment ctx segments of
        (ctx, True) \<Rightarrow> TryStartTransmission vt ctx
      | (ctx, False) \<Rightarrow> Some ctx)"

text \<open>The upper layer is called here, and may call \<^verbatim>\<open>Send\<close> before it returns.\<close>

definition PushDataUp ::
  "'s ITransportSegment \<Rightarrow> 's option \<Rightarrow> 's LinkContext \<Rightarrow> bytes \<Rightarrow> 's LinkContext option" where
  "PushDataUp vt reply ctx data =
     (let ctx = emit (UpperReceive data) ctx
      in case reply of None \<Rightarrow> Some ctx | Some segments \<Rightarrow> LinkLayer_Send vt ctx segments)"

section \<open>SecLinkLayerStates\<close>

definition SLLS_NotReset_OnResetLinkStates :: "'s LinkContext \<Rightarrow> ('s LinkContext \<times> SecState) option" where
  "SLLS_NotReset_OnResetLinkStates ctx =
     do { ctx \<leftarrow> QueueAck ctx; Some (ResetReadFCB ctx, SLLS_TransmitWaitReset) }"

definition SLLS_NotReset_OnRequestLinkStatus :: "'s LinkContext \<Rightarrow> ('s LinkContext \<times> SecState) option" where
  "SLLS_NotReset_OnRequestLinkStatus ctx =
     do { ctx \<leftarrow> QueueLinkStatus ctx; Some (ctx, SLLS_TransmitWaitNotReset) }"

definition SLLS_Reset_OnTestLinkStatus :: "'s LinkContext \<Rightarrow> bool \<Rightarrow> ('s LinkContext \<times> SecState) option" where
  "SLLS_Reset_OnTestLinkStatus ctx fcb =
     (if lc_nextReadFCB ctx = fcb
      then do { ctx \<leftarrow> QueueAck ctx; Some (ToggleReadFCB ctx, SLLS_TransmitWaitReset) }
      else Some (ctx, SLLS_Reset))"

definition SLLS_Reset_OnConfirmedUserData ::
  "'s ITransportSegment \<Rightarrow> 's option \<Rightarrow> 's LinkContext \<Rightarrow> bool \<Rightarrow> bytes \<Rightarrow> ('s LinkContext \<times> SecState) option" where
  "SLLS_Reset_OnConfirmedUserData vt reply ctx fcb data =
     do { ctx \<leftarrow> QueueAck ctx;
          ctx \<leftarrow> (if lc_nextReadFCB ctx = fcb
                 then PushDataUp vt reply (ToggleReadFCB ctx) data
                 else Some ctx);
          Some (ctx, SLLS_TransmitWaitReset) }"

definition SLLS_Reset_OnResetLinkStates :: "'s LinkContext \<Rightarrow> ('s LinkContext \<times> SecState) option" where
  "SLLS_Reset_OnResetLinkStates ctx =
     do { ctx \<leftarrow> QueueAck ctx; Some (ResetReadFCB ctx, SLLS_TransmitWaitReset) }"

definition SLLS_Reset_OnRequestLinkStatus :: "'s LinkContext \<Rightarrow> ('s LinkContext \<times> SecState) option" where
  "SLLS_Reset_OnRequestLinkStatus ctx =
     do { ctx \<leftarrow> QueueLinkStatus ctx; Some (ctx, SLLS_TransmitWaitReset) }"

subsection \<open>Virtual dispatch\<close>

definition set_sec :: "'s LinkContext \<times> SecState \<Rightarrow> 's LinkContext" where
  "set_sec r = (fst r)\<lparr>lc_pSecState := snd r\<rparr>"

definition SecState_OnResetLinkStates :: "'s LinkContext \<Rightarrow> 's LinkContext option" where
  "SecState_OnResetLinkStates ctx =
     (case lc_pSecState ctx of
        SLLS_NotReset \<Rightarrow> map_option set_sec (SLLS_NotReset_OnResetLinkStates ctx)
      | SLLS_Reset \<Rightarrow> map_option set_sec (SLLS_Reset_OnResetLinkStates ctx)
      | _ \<Rightarrow> Some ctx)"

definition SecState_OnRequestLinkStatus :: "'s LinkContext \<Rightarrow> 's LinkContext option" where
  "SecState_OnRequestLinkStatus ctx =
     (case lc_pSecState ctx of
        SLLS_NotReset \<Rightarrow> map_option set_sec (SLLS_NotReset_OnRequestLinkStatus ctx)
      | SLLS_Reset \<Rightarrow> map_option set_sec (SLLS_Reset_OnRequestLinkStatus ctx)
      | _ \<Rightarrow> Some ctx)"

definition SecState_OnTestLinkStatus :: "'s LinkContext \<Rightarrow> bool \<Rightarrow> 's LinkContext option" where
  "SecState_OnTestLinkStatus ctx fcb =
     (case lc_pSecState ctx of
        SLLS_Reset \<Rightarrow> map_option set_sec (SLLS_Reset_OnTestLinkStatus ctx fcb)
      | _ \<Rightarrow> Some ctx)"

definition SecState_OnConfirmedUserData ::
  "'s ITransportSegment \<Rightarrow> 's option \<Rightarrow> 's LinkContext \<Rightarrow> bool \<Rightarrow> bytes \<Rightarrow> 's LinkContext option" where
  "SecState_OnConfirmedUserData vt reply ctx fcb data =
     (case lc_pSecState ctx of
        SLLS_Reset \<Rightarrow> map_option set_sec (SLLS_Reset_OnConfirmedUserData vt reply ctx fcb data)
      | _ \<Rightarrow> Some ctx)"

definition SecState_OnTransmitResult :: "'s LinkContext \<Rightarrow> 's LinkContext" where
  "SecState_OnTransmitResult ctx =
     (case lc_pSecState ctx of
        SLLS_TransmitWaitReset \<Rightarrow> set_sec (ctx, SLLS_Reset)
      | SLLS_TransmitWaitNotReset \<Rightarrow> set_sec (ctx, SLLS_NotReset)
      | _ \<Rightarrow> ctx)"

section \<open>LinkContext: events\<close>

definition LinkContext_OnTransmitResult ::
  "'s ITransportSegment \<Rightarrow> 's LinkContext \<Rightarrow> bool \<Rightarrow> ('s LinkContext \<times> bool) option" where
  "LinkContext_OnTransmitResult vt ctx success =
     (if lc_txMode ctx = TxIdle then Some (ctx, False)
      else
        (let isPrimary = (lc_txMode ctx = TxPrimary); ctx = ctx\<lparr>lc_txMode := TxIdle\<rparr>
         in do { ctx \<leftarrow> TryPendingSecTx ctx;
                 ctx \<leftarrow> TryPendingPriTx ctx;
                 ctx \<leftarrow> (if isPrimary then PriState_OnTransmitResult vt ctx success
                        else Some (SecState_OnTransmitResult ctx));
                 Some (ctx, True) }))"

definition OnKeepAliveTimeout :: "'s ITransportSegment \<Rightarrow> 's LinkContext \<Rightarrow> int \<Rightarrow> 's LinkContext option" where
  "OnKeepAliveTimeout vt ctx now =
     (let elapsed = now - lc_lastMessageTimestamp ctx;
          ctx = (if elapsed \<ge> cfg_KeepAliveTimeout (lc_config ctx)
                 then ctx\<lparr>lc_lastMessageTimestamp := now, lc_keepAliveTimeout := True\<rparr>
                 else ctx);
          expiration = lc_lastMessageTimestamp ctx + cfg_KeepAliveTimeout (lc_config ctx);
          ctx = StartKeepAliveTimer ctx
      in TryStartTransmission vt ctx)"

definition OnResponseTimeout :: "'s ITransportSegment \<Rightarrow> 's LinkContext \<Rightarrow> 's LinkContext option" where
  "OnResponseTimeout vt ctx = do { ctx \<leftarrow> PriState_OnTimeout vt ctx; TryStartTransmission vt ctx }"

definition LinkContext_OnFrame ::
  "'s ITransportSegment \<Rightarrow> 's option \<Rightarrow> 's LinkContext \<Rightarrow> int \<Rightarrow> LinkHeaderFields \<Rightarrow> bytes \<Rightarrow>
     ('s LinkContext \<times> bool) option" where
  "LinkContext_OnFrame vt reply ctx now header userdata =
     (if \<not> lc_isOnline ctx then Some (ctx, False)
      else if \<not> LinkContext_Validate ctx (f_isFromMaster header) (f_src header) (f_dest header)
      then Some (ctx, False)
      else
        (let ctx = ctx\<lparr>lc_lastMessageTimestamp := now\<rparr>;
             ok = map_option (\<lambda>ctx. (ctx, True))
         in case f_func header of
              SEC_ACK \<Rightarrow> ok (PriState_OnAck vt ctx)
            | SEC_NACK \<Rightarrow> ok (PriState_OnNack ctx (f_fcvdfc header))
            | SEC_LINK_STATUS \<Rightarrow> ok (Some (PriState_OnLinkStatus ctx))
            | SEC_NOT_SUPPORTED \<Rightarrow> ok (Some (PriState_OnNotSupported ctx))
            | PRI_TEST_LINK_STATES \<Rightarrow> ok (SecState_OnTestLinkStatus ctx (f_fcb header))
            | PRI_RESET_LINK_STATES \<Rightarrow> ok (SecState_OnResetLinkStates ctx)
            | PRI_REQUEST_LINK_STATUS \<Rightarrow> ok (SecState_OnRequestLinkStatus ctx)
            | PRI_CONFIRMED_USER_DATA \<Rightarrow> ok (SecState_OnConfirmedUserData vt reply ctx (f_fcb header) userdata)
            | PRI_UNCONFIRMED_USER_DATA \<Rightarrow> ok (PushDataUp vt reply ctx userdata)
            | LinkFunction_INVALID \<Rightarrow> Some (ctx, False)))"

section \<open>LinkLayer\<close>

definition SetRouter :: "'s LinkContext \<Rightarrow> 's LinkContext option" where
  "SetRouter ctx = (if \<not> lc_pRouter ctx then Some (ctx\<lparr>lc_pRouter := True\<rparr>) else None)"

definition LinkLayer_OnTransmitResult ::
  "'s ITransportSegment \<Rightarrow> 's LinkContext \<Rightarrow> bool \<Rightarrow> 's LinkContext option" where
  "LinkLayer_OnTransmitResult vt ctx success =
     do { (ctx, ret) \<leftarrow> LinkContext_OnTransmitResult vt ctx success;
          if ret then TryStartTransmission vt ctx else Some ctx }"

definition LinkLayer_OnFrame ::
  "'s ITransportSegment \<Rightarrow> 's option \<Rightarrow> 's LinkContext \<Rightarrow> int \<Rightarrow> LinkHeaderFields \<Rightarrow> bytes \<Rightarrow>
     ('s LinkContext \<times> bool) option" where
  "LinkLayer_OnFrame vt reply ctx now header userdata =
     do { (ctx, ret) \<leftarrow> LinkContext_OnFrame vt reply ctx now header userdata;
          ctx \<leftarrow> (if ret then TryStartTransmission vt ctx else Some ctx);
          Some (ctx, ret) }"

text \<open>
  What can happen to a session.  A timer only fires while it is active; firing it first clears the
  reference, then runs the action.
\<close>

datatype 's LinkEvent =
    LowerLayerUp int
  | LowerLayerDown
  | Send 's
  | TransmitResult bool
  | Frame int LinkHeaderFields bytes "'s option"
  | ResponseTimerFires
  | KeepAliveTimerFires int

definition LinkLayer_step :: "'s ITransportSegment \<Rightarrow> 's LinkContext \<Rightarrow> 's LinkEvent \<Rightarrow> 's LinkContext option" where
  "LinkLayer_step vt ctx e =
     (case e of
        LowerLayerUp now \<Rightarrow> Some (fst (LinkContext_OnLowerLayerUp ctx now))
      | LowerLayerDown \<Rightarrow> Some (fst (LinkContext_OnLowerLayerDown ctx))
      | Send s \<Rightarrow> LinkLayer_Send vt ctx s
      | TransmitResult b \<Rightarrow> LinkLayer_OnTransmitResult vt ctx b
      | Frame now header data reply \<Rightarrow> map_option fst (LinkLayer_OnFrame vt reply ctx now header data)
      | ResponseTimerFires \<Rightarrow>
          (if lc_rspTimeoutTimer ctx \<noteq> None then OnResponseTimeout vt (ctx\<lparr>lc_rspTimeoutTimer := None\<rparr>)
           else Some ctx)
      | KeepAliveTimerFires now \<Rightarrow>
          (if lc_keepAliveTimer ctx \<noteq> None then OnKeepAliveTimeout vt (ctx\<lparr>lc_keepAliveTimer := None\<rparr>) now
           else Some ctx))"

fun LinkLayer_run :: "'s ITransportSegment \<Rightarrow> 's LinkContext \<Rightarrow> 's LinkEvent list \<Rightarrow> 's LinkContext option" where
  "LinkLayer_run vt ctx [] = Some ctx"
| "LinkLayer_run vt ctx (e # es) = do { ctx \<leftarrow> LinkLayer_step vt ctx e; LinkLayer_run vt ctx es }"

end
