(* ===== verification/LinkInvariant.thy ===== *)
theory LinkInvariant
  imports LinkContext
begin

text \<open>
  The invariant of a link session and its preservation by every event.  \<open>link_inv\<close> ties the frames in
  flight or queued, the response timer and the segment pointer to the states of the two stations;
  \<open>settled\<close> says that an idle primary has nothing left to send.  \<open>link_client\<close> extends the segment
  interface with the sizes the link layer relies on; in it \<open>step_keeps\<close> shows that no event, at any
  time, fails an assertion or dereferences a null pointer, and that the invariant is kept.
\<close>

section \<open>What the queueing helpers do\<close>

definition ctl_frame :: "LinkConfig \<Rightarrow> LinkFunction \<Rightarrow> bytes" where
  "ctl_frame cfg f = frame_bytes (LinkHeader_make 5 (cfg_LocalAddr cfg) (cfg_RemoteAddr cfg)
     (cfg_IsMaster cfg) False False f) []"

definition conf_frame :: "LinkConfig \<Rightarrow> bool \<Rightarrow> bytes \<Rightarrow> bytes" where
  "conf_frame cfg fcb data = frame_bytes (LinkHeader_make (word_of_nat (length data) + 5)
     (cfg_LocalAddr cfg) (cfg_RemoteAddr cfg) (cfg_IsMaster cfg) True fcb PRI_CONFIRMED_USER_DATA) data"

definition unconf_frame :: "LinkConfig \<Rightarrow> bytes \<Rightarrow> bytes" where
  "unconf_frame cfg data = frame_bytes (LinkHeader_make (word_of_nat (length data) + 5)
     (cfg_LocalAddr cfg) (cfg_RemoteAddr cfg) (cfg_IsMaster cfg) False False PRI_UNCONFIRMED_USER_DATA) data"

lemma length_ctl_frame [simp]: "length (ctl_frame cfg f) = 10"
  by (simp add: ctl_frame_def size_simps CalcFrameSize_def CalcUserDataSize_def lpdu_consts)

text \<open>Both buffers have their size and the router is attached.\<close>

definition wired :: "'s LinkContext \<Rightarrow> bool" where
  "wired ctx \<longleftrightarrow> length (lc_priTxBuffer ctx) = LPDU_MAX_FRAME_SIZE
     \<and> length (lc_secTxBuffer ctx) = LPDU_HEADER_SIZE \<and> lc_pRouter ctx"

definition queue_pri :: "'s LinkContext \<Rightarrow> bytes \<Rightarrow> 's LinkContext" where
  "queue_pri ctx frame =
     (let ctx = ctx\<lparr>lc_priTxBuffer := overwrite (lc_priTxBuffer ctx) 0 frame\<rparr>
      in if lc_txMode ctx = TxIdle
         then ctx\<lparr>lc_txMode := TxPrimary, lc_out := lc_out ctx @ [RouterBeginTransmit TxPrimary frame]\<rparr>
         else ctx\<lparr>lc_pendingPriTx := Some (length frame)\<rparr>)"

definition queue_sec :: "'s LinkContext \<Rightarrow> bytes \<Rightarrow> 's LinkContext" where
  "queue_sec ctx frame =
     (let ctx = ctx\<lparr>lc_secTxBuffer := overwrite (lc_secTxBuffer ctx) 0 frame\<rparr>
      in if lc_txMode ctx = TxIdle
         then ctx\<lparr>lc_txMode := TxSecondary, lc_out := lc_out ctx @ [RouterBeginTransmit TxSecondary frame]\<rparr>
         else ctx\<lparr>lc_pendingSecTx := Some (length frame)\<rparr>)"

lemma take_overwrite_frame:
  "length frame \<le> length buf \<Longrightarrow> take (length frame) (overwrite buf 0 frame) = frame"
  by (simp add: overwrite_0)

lemma QueueTransmit_pri:
  assumes "lc_pRouter ctx" "length frame \<le> length (lc_priTxBuffer ctx)"
  shows "QueueTransmit (ctx\<lparr>lc_priTxBuffer := overwrite (lc_priTxBuffer ctx) 0 frame\<rparr>) (length frame) True
    = Some (queue_pri ctx frame)"
  using assms
  by (simp add: QueueTransmit_def router_transmit_def queue_pri_def emit_def take_overwrite_frame)

lemma QueueTransmit_sec:
  assumes "lc_pRouter ctx" "length frame \<le> length (lc_secTxBuffer ctx)"
  shows "QueueTransmit (ctx\<lparr>lc_secTxBuffer := overwrite (lc_secTxBuffer ctx) 0 frame\<rparr>) (length frame) False
    = Some (queue_sec ctx frame)"
  using assms
  by (simp add: QueueTransmit_def router_transmit_def queue_sec_def emit_def take_overwrite_frame)

lemma queue_control:
  assumes "wired ctx"
  shows "QueueAck ctx = Some (queue_sec ctx (ctl_frame (lc_config ctx) SEC_ACK))"
    and "QueueLinkStatus ctx = Some (queue_sec ctx (ctl_frame (lc_config ctx) SEC_LINK_STATUS))"
    and "QueueResetLinks ctx = Some (queue_pri ctx (ctl_frame (lc_config ctx) PRI_RESET_LINK_STATES))"
    and "QueueRequestLinkStatus ctx = Some (queue_pri ctx (ctl_frame (lc_config ctx) PRI_REQUEST_LINK_STATUS))"
proof -
  have size: "lc_pRouter ctx" "length (ctl_frame cfg f) \<le> length (lc_priTxBuffer ctx)"
    "length (ctl_frame cfg f) \<le> length (lc_secTxBuffer ctx)" "10 \<le> length (lc_priTxBuffer ctx)"
    "10 \<le> length (lc_secTxBuffer ctx)" for cfg f
    using assms by (simp_all add: wired_def lpdu_consts)
  show "QueueAck ctx = Some (queue_sec ctx (ctl_frame (lc_config ctx) SEC_ACK))"
    "QueueLinkStatus ctx = Some (queue_sec ctx (ctl_frame (lc_config ctx) SEC_LINK_STATUS))"
    "QueueResetLinks ctx = Some (queue_pri ctx (ctl_frame (lc_config ctx) PRI_RESET_LINK_STATES))"
    "QueueRequestLinkStatus ctx = Some (queue_pri ctx (ctl_frame (lc_config ctx) PRI_REQUEST_LINK_STATUS))"
    using QueueTransmit_sec[OF size(1,3)] QueueTransmit_pri[OF size(1,2)] size(4,5)
    by (simp_all add: QueueAck_def QueueLinkStatus_def QueueResetLinks_def QueueRequestLinkStatus_def
        FormatAck_def FormatLinkStatus_def FormatResetLinkStates_def FormatRequestLinkStatus_def
        FormatHeader_bytes put_pri_def put_sec_def Let_def ctl_frame_def del: length_ctl_frame)
qed

definition tpdu_ok :: "bytes \<Rightarrow> bool" where
  "tpdu_ok tpdu \<longleftrightarrow> 1 \<le> length tpdu \<and> length tpdu \<le> 250"

lemma queue_data:
  assumes "wired ctx" "tpdu_ok tpdu"
  shows "do { (ctx, n) \<leftarrow> FormatPrimaryBufferWithConfirmed ctx tpdu fcb; QueueTransmit ctx n True }
      = Some (queue_pri ctx (conf_frame (lc_config ctx) fcb tpdu))"
    and "do { (ctx, n) \<leftarrow> FormatPrimaryBufferWithUnconfirmed ctx tpdu; QueueTransmit ctx n True }
      = Some (queue_pri ctx (unconf_frame (lc_config ctx) tpdu))"
proof -
  have tpdu: "take (length tpdu mod 256) tpdu = tpdu" "0 < length tpdu" "length tpdu \<le> 250"
    using assms(2) by (auto simp: tpdu_ok_def)
  have buf: "LPDU_MAX_FRAME_SIZE \<le> length (lc_priTxBuffer ctx)" "lc_pRouter ctx"
    using assms(1) by (simp_all add: wired_def)
  have size: "length (frame_bytes h tpdu) \<le> length (lc_priTxBuffer ctx)" for h
    using CalcFrameSize_le[OF tpdu(3)] buf(1) by (simp add: size_simps)
  show "do { (ctx, n) \<leftarrow> FormatPrimaryBufferWithConfirmed ctx tpdu fcb; QueueTransmit ctx n True }
      = Some (queue_pri ctx (conf_frame (lc_config ctx) fcb tpdu))"
    using QueueTransmit_pri[OF buf(2) size]
    by (simp add: FormatPrimaryBufferWithConfirmed_def tpdu(1) FormatConfirmedUserData_bytes[OF buf(1) tpdu(2,3)]
        put_pri_def Let_def conf_frame_def)
  show "do { (ctx, n) \<leftarrow> FormatPrimaryBufferWithUnconfirmed ctx tpdu; QueueTransmit ctx n True }
      = Some (queue_pri ctx (unconf_frame (lc_config ctx) tpdu))"
    using QueueTransmit_pri[OF buf(2) size]
    by (simp add: FormatPrimaryBufferWithUnconfirmed_def tpdu(1) FormatUnconfirmedUserData_bytes[OF buf(1) tpdu(2,3)]
        put_pri_def Let_def unconf_frame_def)
qed

section \<open>The invariant\<close>

definition pri_waits_tx :: "PriState \<Rightarrow> bool" where
  "pri_waits_tx s \<longleftrightarrow> s \<in> {PLLS_SendUnconfirmedTransmitWait, PLLS_LinkResetTransmitWait,
     PLLS_ConfUserDataTransmitWait, PLLS_RequestLinkStatusTransmitWait}"

definition pri_waits_rsp :: "PriState \<Rightarrow> bool" where
  "pri_waits_rsp s \<longleftrightarrow> s \<in> {PLLS_ResetLinkWait, PLLS_ConfDataWait, PLLS_RequestLinkStatusWait}"

definition pri_sends :: "PriState \<Rightarrow> bool" where
  "pri_sends s \<longleftrightarrow> s \<in> {PLLS_SendUnconfirmedTransmitWait, PLLS_LinkResetTransmitWait,
     PLLS_ConfUserDataTransmitWait, PLLS_ResetLinkWait, PLLS_ConfDataWait}"

definition sec_waits_tx :: "SecState \<Rightarrow> bool" where
  "sec_waits_tx s \<longleftrightarrow> s \<in> {SLLS_TransmitWaitReset, SLLS_TransmitWaitNotReset}"

lemmas waits_defs = pri_waits_tx_def pri_waits_rsp_def pri_sends_def sec_waits_tx_def

text \<open>The frames in flight or queued, and the timers, as the two stations' states say.\<close>

definition pri_tx_ok :: "'s LinkContext \<Rightarrow> PriState \<Rightarrow> bool" where
  "pri_tx_ok ctx s \<longleftrightarrow> (pri_waits_tx s \<longleftrightarrow> lc_txMode ctx = TxPrimary \<or> lc_pendingPriTx ctx \<noteq> None)
     \<and> \<not> (lc_txMode ctx = TxPrimary \<and> lc_pendingPriTx ctx \<noteq> None)
     \<and> (lc_txMode ctx = TxIdle \<longrightarrow> lc_pendingPriTx ctx = None)"

definition sec_tx_ok :: "'s LinkContext \<Rightarrow> SecState \<Rightarrow> bool" where
  "sec_tx_ok ctx s \<longleftrightarrow> (sec_waits_tx s \<longleftrightarrow> lc_txMode ctx = TxSecondary \<or> lc_pendingSecTx ctx \<noteq> None)
     \<and> \<not> (lc_txMode ctx = TxSecondary \<and> lc_pendingSecTx ctx \<noteq> None)
     \<and> (lc_txMode ctx = TxIdle \<longrightarrow> lc_pendingSecTx ctx = None)"

definition link_common :: "('s \<Rightarrow> bool) \<Rightarrow> 's LinkContext \<Rightarrow> bool" where
  "link_common seg_ok ctx \<longleftrightarrow> wired ctx \<and> (\<forall>s. lc_pSegments ctx = Some s \<longrightarrow> seg_ok s)
     \<and> (lc_keepAliveTimer ctx \<noteq> None \<longleftrightarrow> lc_isOnline ctx)
     \<and> lc_numRetryRemaining ctx \<le> cfg_NumRetry (lc_config ctx)
     \<and> (\<not> lc_isOnline ctx \<longrightarrow> lc_pPriState ctx = PLLS_Idle \<and> lc_pSecState ctx = SLLS_NotReset
          \<and> lc_txMode ctx = TxIdle \<and> lc_pSegments ctx = None \<and> \<not> lc_keepAliveTimeout ctx
          \<and> \<not> lc_isRemoteReset ctx)"

definition pri_ok :: "'s LinkContext \<Rightarrow> bool" where
  "pri_ok ctx \<longleftrightarrow> pri_tx_ok ctx (lc_pPriState ctx)
     \<and> (lc_rspTimeoutTimer ctx \<noteq> None \<longleftrightarrow> pri_waits_rsp (lc_pPriState ctx))
     \<and> (pri_sends (lc_pPriState ctx) \<longrightarrow> lc_pSegments ctx \<noteq> None)"

definition link_inv :: "SecState \<Rightarrow> ('s \<Rightarrow> bool) \<Rightarrow> 's LinkContext \<Rightarrow> bool" where
  "link_inv sec seg_ok ctx \<longleftrightarrow> link_common seg_ok ctx \<and> pri_ok ctx \<and> sec_tx_ok ctx sec"

text \<open>Between events an idle primary station has nothing to send.\<close>

definition settled :: "'s LinkContext \<Rightarrow> bool" where
  "settled ctx \<longleftrightarrow> (lc_pPriState ctx = PLLS_Idle \<longrightarrow> lc_pSegments ctx = None \<and> \<not> lc_keepAliveTimeout ctx)"

section \<open>Preservation, one handler at a time\<close>

definition retried :: "'s LinkContext \<Rightarrow> 's LinkContext" where
  "retried ctx = ctx\<lparr>lc_numRetryRemaining := lc_numRetryRemaining ctx - 1\<rparr>"

text \<open>No primary frame is out and no response is awaited: the primary may queue a frame or go idle.\<close>

definition pri_free :: "SecState \<Rightarrow> ('s \<Rightarrow> bool) \<Rightarrow> 's LinkContext \<Rightarrow> bool" where
  "pri_free sec ok ctx \<longleftrightarrow> wired ctx \<and> (\<forall>s. lc_pSegments ctx = Some s \<longrightarrow> ok s)
     \<and> lc_keepAliveTimer ctx \<noteq> None \<and> lc_numRetryRemaining ctx \<le> cfg_NumRetry (lc_config ctx)
     \<and> lc_isOnline ctx \<and> sec_tx_ok ctx sec
     \<and> lc_txMode ctx \<noteq> TxPrimary \<and> lc_pendingPriTx ctx = None \<and> lc_rspTimeoutTimer ctx = None"

lemma queue_pri_sel [simp]:
  "lc_config (queue_pri ctx f) = lc_config ctx" "lc_pSegments (queue_pri ctx f) = lc_pSegments ctx"
  "lc_secTxBuffer (queue_pri ctx f) = lc_secTxBuffer ctx" "lc_pendingSecTx (queue_pri ctx f) = lc_pendingSecTx ctx"
  "lc_numRetryRemaining (queue_pri ctx f) = lc_numRetryRemaining ctx"
  "lc_rspTimeoutTimer (queue_pri ctx f) = lc_rspTimeoutTimer ctx"
  "lc_keepAliveTimer (queue_pri ctx f) = lc_keepAliveTimer ctx"
  "lc_nextReadFCB (queue_pri ctx f) = lc_nextReadFCB ctx" "lc_nextWriteFCB (queue_pri ctx f) = lc_nextWriteFCB ctx"
  "lc_isOnline (queue_pri ctx f) = lc_isOnline ctx" "lc_isRemoteReset (queue_pri ctx f) = lc_isRemoteReset ctx"
  "lc_keepAliveTimeout (queue_pri ctx f) = lc_keepAliveTimeout ctx"
  "lc_lastMessageTimestamp (queue_pri ctx f) = lc_lastMessageTimestamp ctx"
  "lc_pRouter (queue_pri ctx f) = lc_pRouter ctx" "lc_pPriState (queue_pri ctx f) = lc_pPriState ctx"
  "lc_pSecState (queue_pri ctx f) = lc_pSecState ctx"
  by (simp_all add: queue_pri_def Let_def)

lemma queue_sec_sel [simp]:
  "lc_config (queue_sec ctx f) = lc_config ctx" "lc_pSegments (queue_sec ctx f) = lc_pSegments ctx"
  "lc_priTxBuffer (queue_sec ctx f) = lc_priTxBuffer ctx" "lc_pendingPriTx (queue_sec ctx f) = lc_pendingPriTx ctx"
  "lc_numRetryRemaining (queue_sec ctx f) = lc_numRetryRemaining ctx"
  "lc_rspTimeoutTimer (queue_sec ctx f) = lc_rspTimeoutTimer ctx"
  "lc_keepAliveTimer (queue_sec ctx f) = lc_keepAliveTimer ctx"
  "lc_nextReadFCB (queue_sec ctx f) = lc_nextReadFCB ctx" "lc_nextWriteFCB (queue_sec ctx f) = lc_nextWriteFCB ctx"
  "lc_isOnline (queue_sec ctx f) = lc_isOnline ctx" "lc_isRemoteReset (queue_sec ctx f) = lc_isRemoteReset ctx"
  "lc_keepAliveTimeout (queue_sec ctx f) = lc_keepAliveTimeout ctx"
  "lc_lastMessageTimestamp (queue_sec ctx f) = lc_lastMessageTimestamp ctx"
  "lc_pRouter (queue_sec ctx f) = lc_pRouter ctx" "lc_pPriState (queue_sec ctx f) = lc_pPriState ctx"
  "lc_pSecState (queue_sec ctx f) = lc_pSecState ctx"
  by (simp_all add: queue_sec_def Let_def)

lemma wired_queue:
  "wired ctx \<Longrightarrow> length frame \<le> LPDU_MAX_FRAME_SIZE \<Longrightarrow> wired (queue_pri ctx frame)"
  "wired ctx \<Longrightarrow> length frame \<le> LPDU_HEADER_SIZE \<Longrightarrow> wired (queue_sec ctx frame)"
  by (simp_all add: wired_def queue_pri_def queue_sec_def length_overwrite Let_def)

lemma queue_pri_free:
  assumes "pri_free sec ok ctx" "length frame \<le> LPDU_MAX_FRAME_SIZE" "pri_waits_tx S"
    and "pri_sends S \<Longrightarrow> lc_pSegments ctx \<noteq> None"
  shows "link_inv sec ok (set_pri (queue_pri ctx frame, S))"
proof -
  have "wired (queue_pri ctx frame)" using assms(1,2) by (simp add: wired_queue pri_free_def)
  then have "wired (set_pri (queue_pri ctx frame, S))" by (simp add: wired_def set_pri_def)
  moreover have "pri_tx_ok (set_pri (queue_pri ctx frame, S)) S"
    using assms(1,3) by (auto simp: pri_tx_ok_def pri_free_def set_pri_def queue_pri_def Let_def)
  moreover have "sec_tx_ok (set_pri (queue_pri ctx frame, S)) sec"
    using assms(1) by (auto simp: sec_tx_ok_def pri_free_def set_pri_def queue_pri_def Let_def)
  moreover have "\<not> pri_waits_rsp S" using assms(3) by (auto simp: waits_defs)
  ultimately show ?thesis
    using assms(1,4) by (simp add: link_inv_def link_common_def pri_ok_def pri_free_def) (simp add: set_pri_def)
qed

lemma idle_pri_free: "pri_free sec ok ctx \<Longrightarrow> link_inv sec ok (set_pri (ctx, PLLS_Idle))"
  by (auto simp: link_inv_def link_common_def pri_ok_def pri_free_def set_pri_def pri_tx_ok_def sec_tx_ok_def
      waits_defs wired_def)

lemma wait_pri_free:
  assumes "pri_free sec ok ctx" "pri_waits_rsp S" "pri_sends S \<Longrightarrow> lc_pSegments ctx \<noteq> None"
  shows "link_inv sec ok (set_pri (StartResponseTimer ctx, S))"
proof -
  have "\<not> pri_waits_tx S" using assms(2) by (auto simp: waits_defs)
  with assms show ?thesis
    by (auto simp: link_inv_def link_common_def pri_ok_def pri_free_def set_pri_def pri_tx_ok_def sec_tx_ok_def
        wired_def StartResponseTimer_def TimerRef_Start_def)
qed

named_theorems pri_free_simps

lemma pri_free_updates [pri_free_simps]:
  "pri_free sec ok (emit a ctx) = pri_free sec ok ctx"
  "pri_free sec ok (ctx\<lparr>lc_keepAliveTimeout := k\<rparr>) = pri_free sec ok ctx"
  "pri_free sec ok (ctx\<lparr>lc_isRemoteReset := k\<rparr>) = pri_free sec ok ctx"
  "pri_free sec ok (ctx\<lparr>lc_lastMessageTimestamp := now\<rparr>) = pri_free sec ok ctx"
  "pri_free sec ok (ResetWriteFCB ctx) = pri_free sec ok ctx" "pri_free sec ok (ToggleWriteFCB ctx) = pri_free sec ok ctx"
  "pri_free sec ok (PostStatusCallback st ctx) = pri_free sec ok ctx"
  "pri_free sec ok ctx \<Longrightarrow> pri_free sec ok (ResetRetry ctx)"
  "pri_free sec ok ctx \<Longrightarrow> pri_free sec ok (CompleteSendOperation ctx b)"
  "pri_free sec ok ctx \<Longrightarrow> pri_free sec ok (FailKeepAlive ctx b)" "pri_free sec ok ctx \<Longrightarrow> pri_free sec ok (CompleteKeepAlive ctx)"
  "pri_free sec ok ctx \<Longrightarrow> pri_free sec ok (retried ctx)"
  "pri_free sec ok ctx \<Longrightarrow> ok s \<Longrightarrow> pri_free sec ok (ctx\<lparr>lc_pSegments := Some s\<rparr>)"
  by (auto simp: pri_free_def emit_def wired_def sec_tx_ok_def ResetWriteFCB_def ToggleWriteFCB_def
      PostStatusCallback_def ResetRetry_def CompleteSendOperation_def FailKeepAlive_def CompleteKeepAlive_def
      retried_def)

lemma pri_free_Cancel:
  assumes "link_inv sec ok ctx" "lc_isOnline ctx" "\<not> pri_waits_tx (lc_pPriState ctx)"
  shows "pri_free sec ok (CancelTimer ctx)"
proof -
  have "CancelTimer ctx = ctx\<lparr>lc_rspTimeoutTimer := None\<rparr>"
    by (simp add: CancelTimer_def TimerRef_Cancel_def split: option.splits)
  with assms show ?thesis
    by (auto simp: link_inv_def link_common_def pri_ok_def pri_free_def pri_tx_ok_def sec_tx_ok_def wired_def)
qed

lemma helper_sel [simp]:
  "lc_pSegments (ResetRetry ctx) = lc_pSegments ctx" "lc_pSegments (CancelTimer ctx) = lc_pSegments ctx"
  "lc_pSegments (ResetWriteFCB ctx) = lc_pSegments ctx" "lc_pSegments (ToggleWriteFCB ctx) = lc_pSegments ctx"
  "lc_pSegments (retried ctx) = lc_pSegments ctx" "lc_pSegments (emit a ctx) = lc_pSegments ctx"
  "lc_pSegments (PostStatusCallback st ctx) = lc_pSegments ctx"
  by (simp_all add: ResetRetry_def CancelTimer_def ResetWriteFCB_def ToggleWriteFCB_def retried_def emit_def
      PostStatusCallback_def)

lemma pri_free_wired: "pri_free sec ok ctx \<Longrightarrow> wired ctx"
  by (simp add: pri_free_def)

lemma length_data_frames:
  "tpdu_ok tpdu \<Longrightarrow> length (conf_frame cfg fcb tpdu) \<le> LPDU_MAX_FRAME_SIZE"
  "tpdu_ok tpdu \<Longrightarrow> length (unconf_frame cfg tpdu) \<le> LPDU_MAX_FRAME_SIZE"
  using CalcFrameSize_le[of "length tpdu"]
  by (simp_all add: conf_frame_def unconf_frame_def size_simps tpdu_ok_def)

lemma Retry_cases: "Retry ctx = (retried ctx, lc_numRetryRemaining ctx > 0)"
  by (simp add: Retry_def retried_def)

text \<open>The upper layer sends objects that have something to send.\<close>

definition sends_ok :: "('s \<Rightarrow> bool) \<Rightarrow> 's LinkEvent \<Rightarrow> bool" where
  "sends_ok seg_ok e \<longleftrightarrow> (case e of Send s \<Rightarrow> seg_ok s | Frame _ _ _ (Some s) \<Rightarrow> seg_ok s | _ \<Rightarrow> True)"

section \<open>The client of the segment interface\<close>

locale link_client = transport_segment has_value get_segment advance seg_inv todo
  for has_value :: "'s \<Rightarrow> bool" and get_segment :: "'s \<Rightarrow> 's \<times> bytes" and advance :: "'s \<Rightarrow> 's \<times> bool"
    and seg_inv :: "'s \<Rightarrow> bool" and todo :: "'s \<Rightarrow> bytes list" +
  assumes tpdu_size: "seg_inv s \<Longrightarrow> tpdu \<in> set (todo s) \<Longrightarrow> tpdu_ok tpdu"
begin

abbreviation vt :: "'s ITransportSegment" where
  "vt \<equiv> \<lparr>vt_GetSegment = get_segment, vt_Advance = advance\<rparr>"

abbreviation seg_ok :: "'s \<Rightarrow> bool" where
  "seg_ok s \<equiv> seg_inv s \<and> todo s \<noteq> []"

lemma wired_pSegments [simp]: "wired (ctx\<lparr>lc_pSegments := x\<rparr>) = wired ctx"
  by (simp add: wired_def)

lemma queue_segment:
  assumes "wired ctx" "lc_pSegments ctx = Some s" "seg_ok s"
  obtains s' where "seg_ok s'" "todo s' = todo s"
    "QueueConfirmedSegment vt ctx = Some (queue_pri (ctx\<lparr>lc_pSegments := Some s'\<rparr>)
       (conf_frame (lc_config ctx) (lc_nextWriteFCB ctx) (hd (todo s))))"
    "QueueUnconfirmedSegment vt ctx = Some (queue_pri (ctx\<lparr>lc_pSegments := Some s'\<rparr>)
       (unconf_frame (lc_config ctx) (hd (todo s))))"
proof -
  obtain s' tpdu where g: "get_segment s = (s', tpdu)" by fastforce
  from get_segment[OF _ _ g] assms(3) have s': "tpdu = hd (todo s)" "seg_inv s'" "todo s' = todo s"
    by blast+
  have ok: "tpdu_ok (hd (todo s))" using tpdu_size[of s "hd (todo s)"] assms(3) by simp
  show ?thesis
    using s' assms g queue_data[of "ctx\<lparr>lc_pSegments := Some s'\<rparr>", OF _ ok]
    by (intro that[of s']) (simp_all add: QueueConfirmedSegment_def QueueUnconfirmedSegment_def GetSegment_of_def)
qed

lemma advance_segment:
  assumes "lc_pSegments ctx = Some s" "seg_ok s"
  obtains s' where "seg_inv s'" "todo s' = tl (todo s)"
    "Advance_of vt ctx = Some (ctx\<lparr>lc_pSegments := Some s'\<rparr>, todo s' \<noteq> [])"
proof -
  obtain s' again where a: "advance s = (s', again)" by fastforce
  from advance[OF _ _ a] assms(2) have "seg_inv s'" "todo s' = tl (todo s)" "again \<longleftrightarrow> todo s' \<noteq> []" by blast+
  with assms(1) a show ?thesis by (intro that[of s']) (simp_all add: Advance_of_def)
qed


abbreviation same :: "'s LinkContext \<Rightarrow> 's LinkContext \<Rightarrow> bool" where
  "same ctx' ctx \<equiv> lc_isOnline ctx' = lc_isOnline ctx \<and> lc_pSecState ctx' = lc_pSecState ctx"

definition good :: "SecState \<Rightarrow> 's LinkContext \<Rightarrow> 's LinkContext option \<Rightarrow> bool" where
  "good sec ctx r \<longleftrightarrow> (\<exists>ctx'. r = Some ctx' \<and> link_inv sec seg_ok ctx' \<and> same ctx' ctx)"

lemma set_pri_sel [simp]: "lc_isOnline (set_pri (ctx, S)) = lc_isOnline ctx"
  "lc_pSecState (set_pri (ctx, S)) = lc_pSecState ctx"
  by (simp_all add: set_pri_def)

lemma link_inv_emit [simp]:
  "link_inv sec ok (emit a ctx) = link_inv sec ok ctx" "link_inv sec ok (set_pri (emit a ctx, S)) = link_inv sec ok (set_pri (ctx, S))"
  by (auto simp: link_inv_def link_common_def pri_ok_def pri_tx_ok_def sec_tx_ok_def set_pri_def emit_def wired_def)

lemma online_sel [simp]:
  "lc_isOnline (emit a ctx) = lc_isOnline ctx" "lc_isOnline (ResetRetry ctx) = lc_isOnline ctx"
  "lc_isOnline (CancelTimer ctx) = lc_isOnline ctx" "lc_isOnline (ResetWriteFCB ctx) = lc_isOnline ctx"
  "lc_isOnline (ToggleWriteFCB ctx) = lc_isOnline ctx" "lc_isOnline (retried ctx) = lc_isOnline ctx"
  "lc_isOnline (PostStatusCallback st ctx) = lc_isOnline ctx"
  "lc_isOnline (CompleteSendOperation ctx b) = lc_isOnline ctx" "lc_isOnline (FailKeepAlive ctx b) = lc_isOnline ctx"
  "lc_isOnline (CompleteKeepAlive ctx) = lc_isOnline ctx" "lc_isOnline (StartResponseTimer ctx) = lc_isOnline ctx"
  "lc_pSecState (emit a ctx) = lc_pSecState ctx"
  "lc_pSecState (ResetRetry ctx) = lc_pSecState ctx"
  "lc_pSecState (CancelTimer ctx) = lc_pSecState ctx"
  "lc_pSecState (ResetWriteFCB ctx) = lc_pSecState ctx"
  "lc_pSecState (ToggleWriteFCB ctx) = lc_pSecState ctx"
  "lc_pSecState (retried ctx) = lc_pSecState ctx"
  "lc_pSecState (PostStatusCallback st ctx) = lc_pSecState ctx"
  "lc_pSecState (CompleteSendOperation ctx b) = lc_pSecState ctx"
  "lc_pSecState (FailKeepAlive ctx b) = lc_pSecState ctx"
  "lc_pSecState (CompleteKeepAlive ctx) = lc_pSecState ctx"
  "lc_pSecState (StartResponseTimer ctx) = lc_pSecState ctx"
  by (simp_all add: emit_def ResetRetry_def CancelTimer_def ResetWriteFCB_def ToggleWriteFCB_def retried_def
      PostStatusCallback_def CompleteSendOperation_def FailKeepAlive_def CompleteKeepAlive_def StartResponseTimer_def)

lemma pri_free_seg: "pri_free sec seg_ok ctx \<Longrightarrow> lc_pSegments ctx = Some s \<Longrightarrow> seg_ok s"
  by (simp add: pri_free_def)

lemma queue_segment_free:
  assumes "pri_free sec seg_ok ctx" "lc_pSegments ctx \<noteq> None" "pri_waits_tx S"
  obtains c u where "QueueConfirmedSegment vt ctx = Some c" "link_inv sec seg_ok (set_pri (c, S))"
    "same c ctx"
    "QueueUnconfirmedSegment vt ctx = Some u" "link_inv sec seg_ok (set_pri (u, S))"
    "same u ctx"
proof -
  from assms(2) obtain s where s: "lc_pSegments ctx = Some s" by blast
  have ok: "seg_ok s" by (rule pri_free_seg[OF assms(1) s])
  obtain s' where s': "seg_ok s'" "todo s' = todo s"
    "QueueConfirmedSegment vt ctx = Some (queue_pri (ctx\<lparr>lc_pSegments := Some s'\<rparr>)
       (conf_frame (lc_config ctx) (lc_nextWriteFCB ctx) (hd (todo s))))"
    "QueueUnconfirmedSegment vt ctx = Some (queue_pri (ctx\<lparr>lc_pSegments := Some s'\<rparr>)
       (unconf_frame (lc_config ctx) (hd (todo s))))"
    using queue_segment[OF pri_free_wired[OF assms(1)] s ok] by blast
  have size: "tpdu_ok (hd (todo s))" using tpdu_size[of s "hd (todo s)"] ok by simp
  have free: "pri_free sec seg_ok (ctx\<lparr>lc_pSegments := Some s'\<rparr>)"
    using assms(1) s'(1) by (rule pri_free_updates)
  show ?thesis
    by (rule that[OF s'(3) _ _ s'(4)])
      (use queue_pri_free[OF free _ assms(3)] length_data_frames[OF size] in auto)
qed

lemma queue_reset_free:
  assumes "pri_free sec seg_ok ctx" "lc_pSegments ctx \<noteq> None"
  obtains c where "QueueResetLinks ctx = Some c" "link_inv sec seg_ok (set_pri (c, PLLS_LinkResetTransmitWait))"
    "same c ctx"
  using queue_control(3)[OF pri_free_wired[OF assms(1)]]
    queue_pri_free[OF assms(1), of "ctl_frame (lc_config ctx) PRI_RESET_LINK_STATES" PLLS_LinkResetTransmitWait] assms(2)
  by (simp add: waits_defs lpdu_consts)

lemma advance_free:
  assumes "pri_free sec seg_ok ctx" "lc_pSegments ctx \<noteq> None"
  obtains s' where "Advance_of vt ctx = Some (ctx\<lparr>lc_pSegments := Some s'\<rparr>, todo s' \<noteq> [])"
    "todo s' \<noteq> [] \<longrightarrow> pri_free sec seg_ok (ctx\<lparr>lc_pSegments := Some s'\<rparr>)"
    "pri_free sec seg_ok (CompleteSendOperation (ctx\<lparr>lc_pSegments := Some s'\<rparr>) b)"
proof -
  from assms(2) obtain s where s: "lc_pSegments ctx = Some s" by blast
  obtain s' where s': "seg_inv s'" "todo s' = tl (todo s)"
    "Advance_of vt ctx = Some (ctx\<lparr>lc_pSegments := Some s'\<rparr>, todo s' \<noteq> [])"
    using advance_segment[OF s pri_free_seg[OF assms(1) s]] by blast
  have "CompleteSendOperation (ctx\<lparr>lc_pSegments := Some s'\<rparr>) b = CompleteSendOperation ctx b"
    by (simp add: CompleteSendOperation_def)
  with s' assms(1) show ?thesis by (intro that[of s']) (simp_all add: pri_free_simps)
qed

lemma TryStartTransmission_good:
  assumes "link_inv sec seg_ok ctx"
  shows "\<exists>ctx'. TryStartTransmission vt ctx = Some ctx' \<and> link_inv sec seg_ok ctx'
    \<and> same ctx' ctx \<and> settled ctx'"
proof (cases "lc_pPriState ctx = PLLS_Idle \<and> lc_isOnline ctx")
  case False
  then have "TryStartTransmission vt ctx = Some ctx \<and> settled ctx"
    using assms
    by (auto simp: TryStartTransmission_def PriState_TrySendRequestLinkStatus_def PriState_TrySendConfirmed_def
        PriState_TrySendUnconfirmed_def settled_def link_inv_def link_common_def)
  with assms show ?thesis by simp
next
  case True
  then have free: "pri_free sec seg_ok ctx"
    using assms by (auto simp: link_inv_def link_common_def pri_ok_def pri_free_def pri_tx_ok_def waits_defs)
  show ?thesis
  proof (cases "lc_keepAliveTimeout ctx")
    case ka: True
    let ?d = "ctx\<lparr>lc_keepAliveTimeout := False\<rparr>"
    let ?c = "set_pri (emit KeepAliveInitiated (queue_pri ?d (ctl_frame (lc_config ctx) PRI_REQUEST_LINK_STATUS)),
        PLLS_RequestLinkStatusTransmitWait)"
    have free0: "pri_free sec seg_ok ?d" using free by (simp add: pri_free_simps)
    have step: "PriState_TrySendRequestLinkStatus ctx = Some ?c"
      using True queue_control(4)[OF pri_free_wired[OF free0]]
      by (simp add: PriState_TrySendRequestLinkStatus_def PLLS_Idle_TrySendRequestLinkStatus_def)
    have "link_inv sec seg_ok ?c"
      using queue_pri_free[OF free0, of "ctl_frame (lc_config ctx) PRI_REQUEST_LINK_STATUS"
          PLLS_RequestLinkStatusTransmitWait] by (simp add: waits_defs lpdu_consts)
    moreover have "lc_pPriState ?c = PLLS_RequestLinkStatusTransmitWait" by (simp add: set_pri_def)
    moreover have "TryStartTransmission vt ctx = Some ?c"
      using step ka calculation(2)
      by (auto simp: TryStartTransmission_def PriState_TrySendConfirmed_def PriState_TrySendUnconfirmed_def)
    ultimately show ?thesis by (simp add: settled_def)
  next
    case ka: False
    show ?thesis
    proof (cases "lc_pSegments ctx")
      case None
      with ka assms show ?thesis by (simp add: TryStartTransmission_def settled_def)
    next
      case (Some s)
      have tx: "pri_waits_tx PLLS_SendUnconfirmedTransmitWait" "pri_waits_tx PLLS_ConfUserDataTransmitWait"
        by (simp_all add: waits_defs)
      have retry: "pri_free sec seg_ok (ResetRetry ctx)" using free by (simp add: pri_free_simps)
      obtain u where u: "QueueUnconfirmedSegment vt ctx = Some u" "link_inv sec seg_ok (set_pri (u, PLLS_SendUnconfirmedTransmitWait))"
        "same u ctx"
        using queue_segment_free[OF free _ tx(1)] Some by auto
      obtain c where c: "QueueConfirmedSegment vt (ResetRetry ctx) = Some c"
        "link_inv sec seg_ok (set_pri (c, PLLS_ConfUserDataTransmitWait))" "same c ctx"
        using queue_segment_free[OF retry _ tx(2)] Some by auto
      obtain r where r: "QueueResetLinks (ResetRetry ctx) = Some r"
        "link_inv sec seg_ok (set_pri (r, PLLS_LinkResetTransmitWait))" "same r ctx"
        using queue_reset_free[OF retry] Some by auto
      have "settled (set_pri (x, S))" if "S \<noteq> PLLS_Idle" for x :: "'s LinkContext" and S
        using that by (simp add: settled_def set_pri_def)
      with u c r Some ka True show ?thesis
        by (simp add: TryStartTransmission_def PriState_TrySendConfirmed_def PriState_TrySendUnconfirmed_def
            PLLS_Idle_TrySendConfirmed_def PLLS_Idle_TrySendUnconfirmed_def)
    qed
  qed
qed

subsection \<open>The primary station's events\<close>

lemma CancelTimer_free:
  "link_inv sec seg_ok ctx \<Longrightarrow> lc_isOnline ctx \<Longrightarrow> pri_waits_rsp (lc_pPriState ctx) \<Longrightarrow> pri_free sec seg_ok (CancelTimer ctx)"
  by (rule pri_free_Cancel) (auto simp: waits_defs)

lemma sends_pSegments:
  "link_inv sec seg_ok ctx \<Longrightarrow> pri_sends (lc_pPriState ctx) \<Longrightarrow> lc_pSegments ctx \<noteq> None"
  by (simp add: link_inv_def pri_ok_def)

lemma goodI: "r = Some ctx' \<Longrightarrow> link_inv sec seg_ok ctx' \<Longrightarrow> same ctx' ctx \<Longrightarrow> good sec ctx r"
  by (simp add: good_def)

lemma good_same: "link_inv sec seg_ok ctx \<Longrightarrow> good sec ctx (Some ctx)"
  by (simp add: good_def)

lemma good_idle: "pri_free sec seg_ok c \<Longrightarrow> same c ctx \<Longrightarrow> good sec ctx (Some (set_pri (c, PLLS_Idle)))"
  by (simp add: good_def idle_pri_free)

lemma Cancel_commute:
  "CancelTimer (ResetWriteFCB (ctx\<lparr>lc_isRemoteReset := b\<rparr>)) = ResetWriteFCB ((CancelTimer ctx)\<lparr>lc_isRemoteReset := b\<rparr>)"
  "CancelTimer (ToggleWriteFCB ctx) = ToggleWriteFCB (CancelTimer ctx)"
  "CancelTimer (ResetRetry ctx) = ResetRetry (CancelTimer ctx)"
  "CancelTimer (PostStatusCallback st ctx) = PostStatusCallback st (CancelTimer ctx)"
  "ResetRetry (PostStatusCallback st ctx) = PostStatusCallback st (ResetRetry ctx)"
  by (simp_all add: CancelTimer_def ResetWriteFCB_def ToggleWriteFCB_def ResetRetry_def PostStatusCallback_def emit_def)

lemma Failure_good:
  assumes "pri_free sec seg_ok (CancelTimer ctx)"
  shows "good sec ctx (Some (set_pri (PLLS_Failure ctx)))"
  using assms by (auto simp: PLLS_Failure_def pri_free_simps intro!: good_idle)

lemma PriState_OnAck_good:
  assumes "link_inv sec seg_ok ctx" "lc_isOnline ctx"
  shows "good sec ctx (PriState_OnAck vt ctx)"
proof (cases "lc_pPriState ctx")
  case PLLS_ResetLinkWait
  let ?c = "ResetWriteFCB ((CancelTimer ctx)\<lparr>lc_isRemoteReset := True\<rparr>)"
  have "pri_free sec seg_ok (CancelTimer ctx)" "lc_pSegments ctx \<noteq> None"
    using PLLS_ResetLinkWait CancelTimer_free[OF assms] sends_pSegments[OF assms(1)] by (simp_all add: waits_defs)
  then have free: "pri_free sec seg_ok ?c" "lc_pSegments ?c \<noteq> None" by (simp_all add: pri_free_simps)
  have tx: "pri_waits_tx PLLS_ConfUserDataTransmitWait" by (simp add: waits_defs)
  obtain c where "QueueConfirmedSegment vt ?c = Some c"
    "link_inv sec seg_ok (set_pri (c, PLLS_ConfUserDataTransmitWait))" "same c ?c"
    using queue_segment_free[OF free tx] by auto
  then show ?thesis using PLLS_ResetLinkWait
    by (simp add: PriState_OnAck_def PLLS_ResetLinkWait_OnAck_def good_def PostStatusCallback_def Cancel_commute)
next
  case PLLS_ConfDataWait
  let ?c = "ToggleWriteFCB (CancelTimer ctx)"
  have "pri_free sec seg_ok (CancelTimer ctx)" "lc_pSegments ctx \<noteq> None"
    using PLLS_ConfDataWait CancelTimer_free[OF assms] sends_pSegments[OF assms(1)] by (simp_all add: waits_defs)
  then have free: "pri_free sec seg_ok ?c" "lc_pSegments ?c \<noteq> None" by (simp_all add: pri_free_simps)
  obtain s' where s': "Advance_of vt ?c = Some (?c\<lparr>lc_pSegments := Some s'\<rparr>, todo s' \<noteq> [])"
    "todo s' \<noteq> [] \<longrightarrow> pri_free sec seg_ok (?c\<lparr>lc_pSegments := Some s'\<rparr>)"
    "pri_free sec seg_ok (CompleteSendOperation (?c\<lparr>lc_pSegments := Some s'\<rparr>) True)"
    by (rule advance_free[OF free, where b = True])
  have tx: "pri_waits_tx PLLS_ConfUserDataTransmitWait" by (simp add: waits_defs)
  show ?thesis
  proof (cases "todo s' = []")
    case True
    then have "PriState_OnAck vt ctx =
        Some (set_pri (CompleteSendOperation (?c\<lparr>lc_pSegments := Some s'\<rparr>) True, PLLS_Idle))"
      using s'(1) PLLS_ConfDataWait by (simp add: PriState_OnAck_def PLLS_ConfDataWait_OnAck_def Cancel_commute)
    then show ?thesis by (rule goodI) (simp_all add: idle_pri_free[OF s'(3)])
  next
    case False
    obtain c where c: "QueueConfirmedSegment vt (?c\<lparr>lc_pSegments := Some s'\<rparr>) = Some c"
      "link_inv sec seg_ok (set_pri (c, PLLS_ConfUserDataTransmitWait))" "same c ctx"
      using queue_segment_free[OF s'(2)[rule_format, OF False] _ tx] by auto
    with False s'(1) PLLS_ConfDataWait
    have "PriState_OnAck vt ctx = Some (set_pri (c, PLLS_ConfUserDataTransmitWait))"
      by (simp add: PriState_OnAck_def PLLS_ConfDataWait_OnAck_def Cancel_commute)
    then show ?thesis by (rule goodI) (simp_all add: c)
  qed
qed (use good_same[OF assms(1)] in \<open>simp_all add: PriState_OnAck_def\<close>)

lemma PriState_OnNack_good:
  assumes "link_inv sec seg_ok ctx" "lc_isOnline ctx"
  shows "good sec ctx (PriState_OnNack ctx full)"
proof (cases "lc_pPriState ctx")
  case PLLS_ResetLinkWait
  with CancelTimer_free[OF assms] Failure_good show ?thesis by (simp add: PriState_OnNack_def waits_defs)
next
  case PLLS_RequestLinkStatusWait
  with CancelTimer_free[OF assms] good_idle show ?thesis
    by (simp add: PriState_OnNack_def waits_defs PLLS_RequestLinkStatusWait_OnNack_def pri_free_simps)
next
  case PLLS_ConfDataWait
  let ?c = "PostStatusCallback UNRESET (CancelTimer ctx)"
  have "pri_free sec seg_ok (CancelTimer ctx)" and seg: "lc_pSegments ctx \<noteq> None"
    using PLLS_ConfDataWait CancelTimer_free[OF assms] sends_pSegments[OF assms(1)] by (simp_all add: waits_defs)
  then have free: "pri_free sec seg_ok (CancelTimer (PostStatusCallback UNRESET ctx))"
    "pri_free sec seg_ok (ResetRetry ?c)" by (simp_all add: pri_free_simps Cancel_commute)
  obtain c where "QueueResetLinks (ResetRetry ?c) = Some c"
    "link_inv sec seg_ok (set_pri (c, PLLS_LinkResetTransmitWait))" "same c ctx"
    using queue_reset_free[OF free(2)] seg by auto
  with Failure_good[OF free(1)] PLLS_ConfDataWait show ?thesis
    by (cases full) (simp_all add: PriState_OnNack_def PLLS_ConfDataWait_OnNack_def good_def Cancel_commute Let_def)
qed (use good_same[OF assms(1)] in \<open>simp_all add: PriState_OnNack_def\<close>)

lemma PriState_OnLinkStatus_good:
  assumes "link_inv sec seg_ok ctx" "lc_isOnline ctx"
  shows "good sec ctx (Some (PriState_OnLinkStatus ctx))" "good sec ctx (Some (PriState_OnNotSupported ctx))"
  using assms CancelTimer_free[OF assms] good_same[OF assms(1)] Failure_good[of _ ctx]
    good_idle[of _ "CompleteKeepAlive (CancelTimer ctx)" ctx] good_idle[of _ "FailKeepAlive (CancelTimer ctx) False" ctx]
  by (cases "lc_pPriState ctx"; simp add: PriState_OnLinkStatus_def PriState_OnNotSupported_def waits_defs pri_free_simps
      PLLS_RequestLinkStatusWait_OnLinkStatus_def PLLS_RequestLinkStatusWait_OnNotSupported_def)+

lemma PriState_OnTimeout_good:
  assumes "link_inv sec seg_ok ctx" "lc_rspTimeoutTimer ctx \<noteq> None"
  shows "good sec ctx (PriState_OnTimeout vt (ctx\<lparr>lc_rspTimeoutTimer := None\<rparr>))"
proof -
  let ?c = "ctx\<lparr>lc_rspTimeoutTimer := None\<rparr>"
  have rsp: "pri_waits_rsp (lc_pPriState ctx)" using assms by (simp add: link_inv_def pri_ok_def)
  then have online: "lc_isOnline ctx" using assms(1) by (auto simp: link_inv_def link_common_def waits_defs)
  have eq: "?c = CancelTimer ctx" by (simp add: CancelTimer_def TimerRef_Cancel_def split: option.splits)
  have free: "pri_free sec seg_ok ?c" unfolding eq using CancelTimer_free[OF assms(1) online rsp] .
  then have retry: "pri_free sec seg_ok (retried ?c)" by (rule pri_free_updates)
  have tx: "pri_waits_tx PLLS_ConfUserDataTransmitWait" by (simp add: waits_defs)
  consider "lc_pPriState ctx = PLLS_ResetLinkWait" | "lc_pPriState ctx = PLLS_ConfDataWait"
    | "lc_pPriState ctx = PLLS_RequestLinkStatusWait"
    using rsp by (auto simp: waits_defs)
  then show ?thesis
  proof cases
    case 1
    then have "lc_pSegments (retried ?c) \<noteq> None" using sends_pSegments[OF assms(1)] by (simp add: waits_defs)
    then obtain c where "QueueResetLinks (retried ?c) = Some c"
      "link_inv sec seg_ok (set_pri (c, PLLS_LinkResetTransmitWait))" "same c ctx"
      using queue_reset_free[OF retry] by auto
    with 1 good_idle[of _ "CompleteSendOperation (retried ?c) False" ctx] retry show ?thesis
      by (cases "lc_numRetryRemaining ctx > 0")
        (simp_all add: PriState_OnTimeout_def PLLS_ResetLinkWait_OnTimeout_def Retry_cases[of ?c] good_def pri_free_simps
          del: split_paired_Ex)
  next
    case 2
    then have "lc_pSegments (retried ?c) \<noteq> None" using sends_pSegments[OF assms(1)] by (simp add: waits_defs)
    then obtain c where "QueueConfirmedSegment vt (retried ?c) = Some c"
      "link_inv sec seg_ok (set_pri (c, PLLS_ConfUserDataTransmitWait))" "same c ctx"
      using queue_segment_free[OF retry _ tx] by auto
    with 2 good_idle[of _ "CompleteSendOperation (PostStatusCallback UNRESET (retried ?c)) False" ctx] retry show ?thesis
      by (cases "lc_numRetryRemaining ctx > 0")
        (simp_all add: PriState_OnTimeout_def PLLS_ConfDataWait_OnTimeout_def Retry_cases[of ?c] good_def pri_free_simps
          del: split_paired_Ex)
  next
    case 3
    with good_idle[of _ "FailKeepAlive ?c True" ctx] free show ?thesis
      by (simp add: PriState_OnTimeout_def PLLS_RequestLinkStatusWait_OnTimeout_def pri_free_simps)
  qed
qed

text \<open>A transmission of the primary ended: \<open>ctx\<close> has no primary frame out, its state still waits for one.\<close>

lemma PriState_OnTransmitResult_good:
  assumes "pri_free sec seg_ok ctx" "pri_waits_tx (lc_pPriState ctx)"
    and "pri_sends (lc_pPriState ctx) \<Longrightarrow> lc_pSegments ctx \<noteq> None"
  shows "good sec ctx (PriState_OnTransmitResult vt ctx success)"
proof -
  have rsp: "pri_waits_rsp PLLS_ResetLinkWait" "pri_waits_rsp PLLS_ConfDataWait"
    "pri_waits_rsp PLLS_RequestLinkStatusWait" by (simp_all add: waits_defs)
  consider "lc_pPriState ctx = PLLS_SendUnconfirmedTransmitWait" | "lc_pPriState ctx = PLLS_LinkResetTransmitWait"
    | "lc_pPriState ctx = PLLS_ConfUserDataTransmitWait" | "lc_pPriState ctx = PLLS_RequestLinkStatusTransmitWait"
    using assms(2) by (auto simp: waits_defs)
  then show ?thesis
  proof cases
    case 1
    then have seg: "lc_pSegments ctx \<noteq> None" using assms(3) by (simp add: waits_defs)
    obtain s' where s': "Advance_of vt ctx = Some (ctx\<lparr>lc_pSegments := Some s'\<rparr>, todo s' \<noteq> [])"
      "todo s' \<noteq> [] \<longrightarrow> pri_free sec seg_ok (ctx\<lparr>lc_pSegments := Some s'\<rparr>)"
      "pri_free sec seg_ok (CompleteSendOperation (ctx\<lparr>lc_pSegments := Some s'\<rparr>) success)"
      by (rule advance_free[OF assms(1) seg, where b = success])
    have tx: "pri_waits_tx PLLS_SendUnconfirmedTransmitWait" by (simp add: waits_defs)
    show ?thesis
    proof (cases "todo s' = []")
      case True
      with s'(1) 1 have "PriState_OnTransmitResult vt ctx success =
          Some (set_pri (CompleteSendOperation (ctx\<lparr>lc_pSegments := Some s'\<rparr>) success, PLLS_Idle))"
        by (simp add: PriState_OnTransmitResult_def PLLS_SendUnconfirmedTransmitWait_OnTransmitResult_def)
      then show ?thesis by (rule goodI) (simp_all add: idle_pri_free[OF s'(3)])
    next
      case False
      obtain c where c: "QueueUnconfirmedSegment vt (ctx\<lparr>lc_pSegments := Some s'\<rparr>) = Some c"
        "link_inv sec seg_ok (set_pri (c, PLLS_SendUnconfirmedTransmitWait))" "same c ctx"
        using queue_segment_free[OF s'(2)[rule_format, OF False] _ tx] by auto
      with False s'(1) 1
      have "PriState_OnTransmitResult vt ctx success = Some (set_pri (c, PLLS_SendUnconfirmedTransmitWait))"
        by (simp add: PriState_OnTransmitResult_def PLLS_SendUnconfirmedTransmitWait_OnTransmitResult_def)
      then show ?thesis by (rule goodI) (simp_all add: c)
    qed
  next
    case 2
    with assms wait_pri_free[OF assms(1) rsp(1)] good_idle[of _ "CompleteSendOperation ctx False" ctx] show ?thesis
      by (cases success) (simp_all add: PriState_OnTransmitResult_def PLLS_LinkResetTransmitWait_OnTransmitResult_def
          good_def pri_free_simps waits_defs)
  next
    case 3
    with assms wait_pri_free[OF assms(1) rsp(2)] good_idle[of _ "CompleteSendOperation ctx False" ctx] show ?thesis
      by (cases success) (simp_all add: PriState_OnTransmitResult_def
          PLLS_ConfUserDataTransmitWait_OnTransmitResult_def good_def pri_free_simps waits_defs)
  next
    case 4
    with assms wait_pri_free[OF assms(1) rsp(3)] good_idle[of _ "FailKeepAlive ctx False" ctx] show ?thesis
      by (cases success) (simp_all add: PriState_OnTransmitResult_def
          PLLS_RequestLinkStatusTransmitWait_OnTransmitResult_def good_def pri_free_simps waits_defs)
  qed
qed

subsection \<open>The secondary station's events\<close>

text \<open>
  The frame is queued before the secondary changes its state, so the invariant is stated at the state
  \<open>sec\<close> it is about to take.
\<close>

lemma queue_sec_inv:
  assumes "link_inv sec seg_ok ctx" "lc_isOnline ctx" "\<not> sec_waits_tx sec"
    and "length frame \<le> LPDU_HEADER_SIZE" "sec_waits_tx sec'"
  shows "link_inv sec' seg_ok (queue_sec ctx frame)"
proof -
  have "wired (queue_sec ctx frame)"
    using assms(1,4) by (simp add: wired_queue link_inv_def link_common_def)
  moreover have "sec_tx_ok (queue_sec ctx frame) sec'"
    using assms(1,3,5) by (auto simp: link_inv_def sec_tx_ok_def queue_sec_def Let_def)
  moreover have "pri_tx_ok (queue_sec ctx frame) (lc_pPriState ctx)"
    using assms(1) by (auto simp: link_inv_def pri_ok_def pri_tx_ok_def queue_sec_def Let_def)
  ultimately show ?thesis
    using assms(1,2) by (simp add: link_inv_def link_common_def pri_ok_def)
qed

lemma set_sec_inv: "link_inv sec ok ctx \<Longrightarrow> lc_isOnline ctx \<Longrightarrow> link_inv sec ok (set_sec (ctx, sec'))"
  by (simp add: link_inv_def link_common_def pri_ok_def pri_tx_ok_def sec_tx_ok_def set_sec_def wired_def)

lemma set_sec_sel [simp]:
  "lc_isOnline (set_sec (ctx, S)) = lc_isOnline ctx" "lc_pSecState (set_sec (ctx, S)) = S"
  by (simp_all add: set_sec_def)

lemma read_FCB_inv [simp]:
  "link_inv sec ok (ResetReadFCB ctx) = link_inv sec ok ctx"
  "link_inv sec ok (ToggleReadFCB ctx) = link_inv sec ok ctx"
  "lc_isOnline (ResetReadFCB ctx) = lc_isOnline ctx" "lc_isOnline (ToggleReadFCB ctx) = lc_isOnline ctx"
  "lc_pSecState (ToggleReadFCB ctx) = lc_pSecState ctx"
  by (simp_all add: link_inv_def link_common_def pri_ok_def pri_tx_ok_def sec_tx_ok_def wired_def
      ResetReadFCB_def ToggleReadFCB_def)

lemma link_wired: "link_inv sec seg_ok ctx \<Longrightarrow> wired ctx"
  by (simp add: link_inv_def link_common_def)

text \<open>The invariant between events, at the secondary's actual state.\<close>

definition session_inv :: "'s LinkContext \<Rightarrow> bool" where
  "session_inv ctx \<longleftrightarrow> link_inv (lc_pSecState ctx) seg_ok ctx"

definition keeps :: "'s LinkContext \<Rightarrow> 's LinkContext option \<Rightarrow> bool" where
  "keeps ctx r \<longleftrightarrow> (\<exists>ctx'. r = Some ctx' \<and> session_inv ctx' \<and> lc_isOnline ctx' = lc_isOnline ctx)"

lemma keeps_good: "good (lc_pSecState ctx) ctx r \<Longrightarrow> keeps ctx r"
  by (auto simp: good_def keeps_def session_inv_def)

lemma keeps_set_sec:
  "link_inv sec seg_ok c \<Longrightarrow> lc_isOnline c \<Longrightarrow> lc_isOnline ctx \<Longrightarrow> keeps ctx (Some (set_sec (c, sec)))"
  by (simp add: keeps_def session_inv_def set_sec_inv)

lemma sec_control_keeps:
  assumes "session_inv ctx" "lc_isOnline ctx"
  shows "keeps ctx (SecState_OnResetLinkStates ctx)" "keeps ctx (SecState_OnRequestLinkStatus ctx)"
    "keeps ctx (SecState_OnTestLinkStatus ctx fcb)"
proof -
  note queue = queue_control(1,2)[OF link_wired[OF assms(1)[unfolded session_inv_def]]]
  have ack: "link_inv sec seg_ok (queue_sec ctx (ctl_frame (lc_config ctx) f))"
    if "\<not> sec_waits_tx (lc_pSecState ctx)" "sec_waits_tx sec" for f sec
    using queue_sec_inv[OF assms(1)[unfolded session_inv_def] assms(2) that(1) _ that(2)] by (simp add: lpdu_consts)
  have same: "keeps ctx (Some ctx)" using assms(1) by (simp add: keeps_def)
  have id: "set_sec (ctx, SLLS_Reset) = ctx" if "lc_pSecState ctx = SLLS_Reset"
    using that by (simp add: set_sec_def)
  show "keeps ctx (SecState_OnResetLinkStates ctx)" "keeps ctx (SecState_OnRequestLinkStatus ctx)"
    "keeps ctx (SecState_OnTestLinkStatus ctx fcb)"
    using queue ack assms(2) id same
    by (cases "lc_pSecState ctx"; simp add: SecState_OnResetLinkStates_def SecState_OnRequestLinkStatus_def
        SecState_OnTestLinkStatus_def SLLS_NotReset_OnResetLinkStates_def SLLS_NotReset_OnRequestLinkStatus_def
        SLLS_Reset_OnTestLinkStatus_def SLLS_Reset_OnResetLinkStates_def SLLS_Reset_OnRequestLinkStatus_def
        sec_waits_tx_def keeps_set_sec)+
qed

lemma Send_good:
  assumes "link_inv sec seg_ok ctx" "seg_ok s"
  shows "\<exists>ctx'. LinkLayer_Send vt ctx s = Some ctx' \<and> link_inv sec seg_ok ctx' \<and> same ctx' ctx
    \<and> (settled ctx \<longrightarrow> settled ctx')"
proof (cases "lc_isOnline ctx \<and> lc_pSegments ctx = None")
  case True
  let ?c = "ctx\<lparr>lc_pSegments := Some s\<rparr>"
  have "link_inv sec seg_ok ?c"
    using assms(1,2) True
    by (auto simp: link_inv_def link_common_def pri_ok_def pri_tx_ok_def sec_tx_ok_def wired_def)
  from TryStartTransmission_good[OF this] True show ?thesis
    by (auto simp: LinkLayer_Send_def SetTxSegment_def)
next
  case False
  then show ?thesis
    using assms(1) by (auto simp: LinkLayer_Send_def SetTxSegment_def split: option.splits)
qed

lemma PushDataUp_good:
  assumes "link_inv sec seg_ok ctx" "\<And>s. reply = Some s \<Longrightarrow> seg_ok s"
  shows "good sec ctx (PushDataUp vt reply ctx data)"
proof (cases reply)
  case None
  then show ?thesis using assms(1) by (simp add: PushDataUp_def good_def)
next
  case (Some s)
  have "link_inv sec seg_ok (emit (UpperReceive data) ctx)" using assms(1) by simp
  from Send_good[OF this assms(2)[OF Some]] Some show ?thesis by (auto simp: PushDataUp_def good_def)
qed

lemma SecState_OnConfirmedUserData_keeps:
  assumes "session_inv ctx" "lc_isOnline ctx" "\<And>s. reply = Some s \<Longrightarrow> seg_ok s"
  shows "keeps ctx (SecState_OnConfirmedUserData vt reply ctx fcb data)"
proof (cases "lc_pSecState ctx = SLLS_Reset")
  case False
  with assms(1) show ?thesis
    by (cases "lc_pSecState ctx") (simp_all add: SecState_OnConfirmedUserData_def keeps_def)
next
  case True
  let ?ack = "queue_sec ctx (ctl_frame (lc_config ctx) SEC_ACK)"
  have ack: "link_inv SLLS_TransmitWaitReset seg_ok ?ack"
    using assms(1) True queue_sec_inv[OF _ assms(2), of SLLS_Reset _ SLLS_TransmitWaitReset]
    by (simp add: session_inv_def sec_waits_tx_def lpdu_consts)
  then have toggled: "link_inv SLLS_TransmitWaitReset seg_ok (ToggleReadFCB ?ack)" by simp
  obtain c where c: "PushDataUp vt reply (ToggleReadFCB ?ack) data = Some c"
    "link_inv SLLS_TransmitWaitReset seg_ok c" "same c (ToggleReadFCB ?ack)"
    using PushDataUp_good[OF toggled assms(3)] by (auto simp: good_def)
  have q: "QueueAck ctx = Some ?ack"
    using queue_control(1)[OF link_wired[OF assms(1)[unfolded session_inv_def]]] .
  show ?thesis
    using True q c keeps_set_sec[OF c(2)] keeps_set_sec[OF ack] assms(2)
    by (simp add: SecState_OnConfirmedUserData_def SLLS_Reset_OnConfirmedUserData_def)
qed

lemma SecState_OnTransmitResult_inv:
  assumes "link_inv sec seg_ok ctx" "\<not> sec_waits_tx sec" "sec_waits_tx (lc_pSecState ctx)" "lc_isOnline ctx"
  shows "session_inv (SecState_OnTransmitResult ctx) \<and> lc_isOnline (SecState_OnTransmitResult ctx) = lc_isOnline ctx"
proof -
  have "link_inv sec' seg_ok ctx" if "\<not> sec_waits_tx sec'" for sec'
    using assms(1,2) that by (simp add: link_inv_def sec_tx_ok_def)
  moreover have "\<not> sec_waits_tx SLLS_Reset" "\<not> sec_waits_tx SLLS_NotReset" by (simp_all add: sec_waits_tx_def)
  ultimately show ?thesis
    using assms(3,4) by (cases "lc_pSecState ctx")
      (auto simp: SecState_OnTransmitResult_def session_inv_def sec_waits_tx_def intro: set_sec_inv)
qed

subsection \<open>Events of the session\<close>

lemma LinkContext_OnTransmitResult_keeps:
  assumes "session_inv ctx" "lc_txMode ctx \<noteq> TxIdle"
  shows "\<exists>ctx'. LinkContext_OnTransmitResult vt ctx success = Some (ctx', True) \<and> session_inv ctx'"
proof -
  have online: "lc_isOnline ctx" using assms by (auto simp: session_inv_def link_inv_def link_common_def)
  have router: "lc_pRouter ctx" using assms(1) by (simp add: session_inv_def link_inv_def link_common_def wired_def)
  let ?c = "ctx\<lparr>lc_txMode := TxIdle\<rparr>"
  show ?thesis
  proof (cases "lc_txMode ctx = TxPrimary")
    case True
    then have pri: "lc_pendingPriTx ctx = None" "pri_waits_tx (lc_pPriState ctx)"
      using assms(1) by (auto simp: session_inv_def link_inv_def pri_ok_def pri_tx_ok_def)
    define d where "d = (case lc_pendingSecTx ctx of None \<Rightarrow> ?c
      | Some n \<Rightarrow> (emit (RouterBeginTransmit TxSecondary (take n (lc_secTxBuffer ctx))) ?c)
          \<lparr>lc_pendingSecTx := None, lc_txMode := TxSecondary\<rparr>)"
    have d: "TryPendingSecTx ?c = Some d" "TryPendingPriTx d = Some d"
      using pri router by (auto simp: TryPendingSecTx_def TryPendingPriTx_def d_def router_transmit_def emit_def
          split: option.splits LinkTransmitMode.splits)
    have sel: "lc_pPriState d = lc_pPriState ctx" "lc_pSegments d = lc_pSegments ctx"
      "lc_pSecState d = lc_pSecState ctx" "lc_isOnline d = lc_isOnline ctx"
      by (auto simp: d_def emit_def split: option.splits)
    have "\<not> pri_waits_rsp (lc_pPriState ctx)" using pri(2) by (auto simp: waits_defs)
    then have free: "pri_free (lc_pSecState ctx) seg_ok d"
      using assms(1) True pri online
      by (auto simp: d_def session_inv_def link_inv_def link_common_def pri_ok_def pri_free_def sec_tx_ok_def wired_def emit_def
          split: option.splits)
    have "pri_sends (lc_pPriState ctx) \<Longrightarrow> lc_pSegments ctx \<noteq> None"
      using assms(1) sends_pSegments by (simp add: session_inv_def)
    then have "good (lc_pSecState d) d (PriState_OnTransmitResult vt d success)"
      using PriState_OnTransmitResult_good[OF free] pri(2) sel by simp
    with keeps_good[OF this] d True assms(2) show ?thesis
      by (auto simp: LinkContext_OnTransmitResult_def keeps_def)
  next
    case False
    with assms(2) have sec: "lc_txMode ctx = TxSecondary" by (cases "lc_txMode ctx") auto
    then have s: "lc_pendingSecTx ctx = None" "sec_waits_tx (lc_pSecState ctx)"
      using assms(1) by (auto simp: session_inv_def link_inv_def sec_tx_ok_def)
    define d where "d = (case lc_pendingPriTx ctx of None \<Rightarrow> ?c
      | Some n \<Rightarrow> (emit (RouterBeginTransmit TxPrimary (take n (lc_priTxBuffer ctx))) ?c)
          \<lparr>lc_pendingPriTx := None, lc_txMode := TxPrimary\<rparr>)"
    have d: "TryPendingSecTx ?c = Some ?c" "TryPendingPriTx ?c = Some d"
      using s router by (auto simp: TryPendingSecTx_def TryPendingPriTx_def d_def router_transmit_def emit_def
          split: option.splits LinkTransmitMode.splits)
    have sel: "lc_pSecState d = lc_pSecState ctx" "lc_isOnline d"
      using online by (auto simp: d_def emit_def split: option.splits)
    have "link_inv SLLS_Reset seg_ok d"
      using assms(1) sec s online
      by (auto simp: d_def session_inv_def link_inv_def link_common_def pri_ok_def pri_tx_ok_def sec_tx_ok_def wired_def
          emit_def sec_waits_tx_def split: option.splits)
    then have "session_inv (SecState_OnTransmitResult d)"
      using SecState_OnTransmitResult_inv[of SLLS_Reset d] s(2) sel by (simp add: sec_waits_tx_def)
    with d sec show ?thesis by (simp add: LinkContext_OnTransmitResult_def)
  qed
qed

lemma link_inv_time [simp]:
  "link_inv sec ok (ctx\<lparr>lc_lastMessageTimestamp := now\<rparr>) = link_inv sec ok ctx"
  by (simp add: link_inv_def link_common_def pri_ok_def pri_tx_ok_def sec_tx_ok_def wired_def)

lemma inv_time [simp]: "session_inv (ctx\<lparr>lc_lastMessageTimestamp := now\<rparr>) = session_inv ctx"
  by (simp add: session_inv_def)

lemma LinkContext_OnFrame_keeps:
  assumes "session_inv ctx" "\<And>s. reply = Some s \<Longrightarrow> seg_ok s"
  shows "\<exists>ctx' ret. LinkContext_OnFrame vt reply ctx now header data = Some (ctx', ret) \<and> session_inv ctx'
    \<and> (\<not> ret \<longrightarrow> ctx' = ctx \<or> ctx' = ctx\<lparr>lc_lastMessageTimestamp := now\<rparr>)"
proof (cases "lc_isOnline ctx \<and> LinkContext_Validate ctx (f_isFromMaster header) (f_src header) (f_dest header)")
  case False
  then show ?thesis using assms(1) by (auto simp: LinkContext_OnFrame_def)
next
  case True
  let ?c = "ctx\<lparr>lc_lastMessageTimestamp := now\<rparr>"
  have inv: "session_inv ?c" "lc_isOnline ?c" "link_inv (lc_pSecState ?c) seg_ok ?c"
    using assms(1) True by (simp_all add: session_inv_def)
  have k: "keeps ?c r \<Longrightarrow> \<exists>ctx'. map_option (\<lambda>c. (c, True)) r = Some (ctx', True) \<and> session_inv ctx'" for r
    by (auto simp: keeps_def)
  note handlers = PriState_OnAck_good[OF inv(3,2), THEN keeps_good, THEN k]
    PriState_OnNack_good[OF inv(3,2), THEN keeps_good, THEN k]
    PriState_OnLinkStatus_good[OF inv(3,2), THEN keeps_good, THEN k]
    sec_control_keeps[OF inv(1,2), THEN k]
    SecState_OnConfirmedUserData_keeps[OF inv(1,2) assms(2), THEN k]
    PushDataUp_good[OF inv(3) assms(2), THEN keeps_good, THEN k]
  show ?thesis
  proof (cases "f_func header = LinkFunction_INVALID")
    case invalid: True
    with True assms(1) show ?thesis by (auto simp: LinkContext_OnFrame_def)
  next
    case False
    then have "\<exists>ctx'. LinkContext_OnFrame vt reply ctx now header data = Some (ctx', True) \<and> session_inv ctx'"
      using True handlers
      by (cases "f_func header") (simp_all only: LinkContext_OnFrame_def Let_def LinkFunction.case if_True if_False simp_thms)
    then show ?thesis by blast
  qed
qed

lemma TryStart_inv:
  "session_inv ctx \<Longrightarrow> \<exists>ctx'. TryStartTransmission vt ctx = Some ctx' \<and> session_inv ctx' \<and> settled ctx'"
  unfolding session_inv_def by (drule TryStartTransmission_good) auto

lemma OnLowerLayerUp_inv:
  assumes "session_inv ctx" "settled ctx"
  shows "session_inv (fst (LinkContext_OnLowerLayerUp ctx now)) \<and> settled (fst (LinkContext_OnLowerLayerUp ctx now))"
  using assms
  by (auto simp: LinkContext_OnLowerLayerUp_def Let_def StartKeepAliveTimer_def TimerRef_Start_def
      PostStatusCallback_def emit_def session_inv_def link_inv_def link_common_def pri_ok_def pri_tx_ok_def sec_tx_ok_def
      settled_def wired_def split: option.splits)

lemma OnLowerLayerDown_inv:
  assumes "session_inv ctx" "settled ctx"
  shows "session_inv (fst (LinkContext_OnLowerLayerDown ctx)) \<and> settled (fst (LinkContext_OnLowerLayerDown ctx))"
  using assms
  by (auto simp: LinkContext_OnLowerLayerDown_def Let_def TimerRef_Cancel_def PostStatusCallback_def emit_def
      session_inv_def link_inv_def link_common_def pri_ok_def pri_tx_ok_def sec_tx_ok_def settled_def wired_def waits_defs
      split: option.splits)

lemma OnKeepAliveTimeout_inv:
  assumes "session_inv ctx" "lc_keepAliveTimer ctx \<noteq> None"
  shows "\<exists>ctx'. OnKeepAliveTimeout vt (ctx\<lparr>lc_keepAliveTimer := None\<rparr>) now = Some ctx' \<and> session_inv ctx' \<and> settled ctx'"
proof -
  define late where "late \<longleftrightarrow> cfg_KeepAliveTimeout (lc_config ctx) \<le> now - lc_lastMessageTimestamp ctx"
  let ?c = "(if late then ctx\<lparr>lc_lastMessageTimestamp := now, lc_keepAliveTimeout := True\<rparr> else ctx)
      \<lparr>lc_keepAliveTimer := Some (cfg_KeepAliveTimeout (lc_config ctx))\<rparr>"
  have "session_inv ?c" using assms
    by (auto simp: session_inv_def link_inv_def link_common_def pri_ok_def pri_tx_ok_def sec_tx_ok_def wired_def)
  moreover have "OnKeepAliveTimeout vt (ctx\<lparr>lc_keepAliveTimer := None\<rparr>) now = TryStartTransmission vt ?c"
    by (simp add: OnKeepAliveTimeout_def Let_def StartKeepAliveTimer_def TimerRef_Start_def late_def)
  ultimately show ?thesis using TryStart_inv[of ?c] by simp
qed

lemma step_keeps:
  assumes "session_inv ctx" "settled ctx" "sends_ok seg_ok e"
  shows "\<exists>ctx'. LinkLayer_step vt ctx e = Some ctx' \<and> session_inv ctx' \<and> settled ctx'"
proof (cases e)
  case (LowerLayerUp now)
  with OnLowerLayerUp_inv[OF assms(1,2)] show ?thesis by (simp add: LinkLayer_step_def)
next
  case LowerLayerDown
  with OnLowerLayerDown_inv[OF assms(1,2)] show ?thesis by (simp add: LinkLayer_step_def)
next
  case (Send s)
  then have "seg_ok s" using assms(3) by (simp add: sends_ok_def)
  with Send_good[OF assms(1)[unfolded session_inv_def], of s] Send assms(2) show ?thesis
    by (auto simp: LinkLayer_step_def session_inv_def)
next
  case (TransmitResult b)
  show ?thesis
  proof (cases "lc_txMode ctx = TxIdle")
    case True
    with TransmitResult assms show ?thesis
      by (simp add: LinkLayer_step_def LinkLayer_OnTransmitResult_def LinkContext_OnTransmitResult_def)
  next
    case False
    with LinkContext_OnTransmitResult_keeps[OF assms(1) False, of b] TransmitResult TryStart_inv show ?thesis
      by (auto simp: LinkLayer_step_def LinkLayer_OnTransmitResult_def)
  qed
next
  case (Frame now header data reply)
  have "reply = Some s \<Longrightarrow> seg_ok s" for s using assms(3) Frame by (simp add: sends_ok_def)
  from LinkContext_OnFrame_keeps[OF assms(1) this, where now = now and header = header and data = data] obtain c ret where
    c: "LinkContext_OnFrame vt reply ctx now header data = Some (c, ret)" "session_inv c"
    "\<not> ret \<longrightarrow> c = ctx \<or> c = ctx\<lparr>lc_lastMessageTimestamp := now\<rparr>" by blast
  show ?thesis
  proof (cases ret)
    case True
    with c Frame TryStart_inv[OF c(2)] show ?thesis by (auto simp: LinkLayer_step_def LinkLayer_OnFrame_def)
  next
    case False
    with c assms(2) have "settled c" by (auto simp: settled_def)
    with c Frame False show ?thesis by (simp add: LinkLayer_step_def LinkLayer_OnFrame_def)
  qed
next
  case ResponseTimerFires
  show ?thesis
  proof (cases "lc_rspTimeoutTimer ctx = None")
    case True
    with ResponseTimerFires assms show ?thesis by (simp add: LinkLayer_step_def)
  next
    case False
    from PriState_OnTimeout_good[OF assms(1)[unfolded session_inv_def] False] obtain c where
      "PriState_OnTimeout vt (ctx\<lparr>lc_rspTimeoutTimer := None\<rparr>) = Some c" "session_inv c"
      by (auto simp: good_def session_inv_def)
    with False ResponseTimerFires TryStart_inv show ?thesis
      by (auto simp: LinkLayer_step_def OnResponseTimeout_def)
  qed
next
  case (KeepAliveTimerFires now)
  with OnKeepAliveTimeout_inv[OF assms(1)] assms show ?thesis by (auto simp: LinkLayer_step_def)
qed

end

section \<open>Reachable sessions\<close>

text \<open>A session is constructed, gets its router, and then sees events in any order.\<close>

inductive link_reachable ::
  "'s ITransportSegment \<Rightarrow> ('s LinkEvent \<Rightarrow> bool) \<Rightarrow> LinkConfig \<Rightarrow> 's LinkContext \<Rightarrow> bool"
  for vt ok config where
  start: "SetRouter (LinkContext_make config now) = Some ctx \<Longrightarrow> link_reachable vt ok config ctx"
| step: "link_reachable vt ok config ctx \<Longrightarrow> ok e \<Longrightarrow> LinkLayer_step vt ctx e = Some ctx' \<Longrightarrow>
    link_reachable vt ok config ctx'"

lemma link_inv_start:
  assumes "SetRouter (LinkContext_make config now) = Some ctx"
  shows "link_inv (lc_pSecState ctx) ok ctx \<and> settled ctx"
proof -
  have "ctx = (LinkContext_make config now)\<lparr>lc_pRouter := True\<rparr>"
    using assms by (simp add: SetRouter_def LinkContext_make_def)
  then show ?thesis
    by (simp add: LinkContext_make_def link_inv_def link_common_def pri_ok_def pri_tx_ok_def sec_tx_ok_def
        settled_def wired_def waits_defs)
qed

context link_client
begin

lemma reachable_inv:
  "link_reachable vt (sends_ok seg_ok) config ctx \<Longrightarrow> session_inv ctx \<and> settled ctx"
proof (induction rule: link_reachable.induct)
  case (start now ctx)
  then show ?case using link_inv_start by (simp add: session_inv_def)
next
  case (step ctx e ctx')
  with step_keeps[of ctx e] show ?case by auto
qed

end

end
