(* ===== verification/LinkConversation.thy ===== *)
theory LinkConversation
  imports LinkInvariant
begin

text \<open>
  Conversations of a link session, computed event by event: confirmed sends with and without a link
  reset, unconfirmed sends, sends to a peer that never answers, a confirmed frame received by the
  secondary; and the two lemmas that say when a transmit buffer keeps its bytes.
\<close>

section \<open>Conversations\<close>

lemma LinkLayer_run_append:
  "LinkLayer_run vt ctx (es @ fs) = do { ctx \<leftarrow> LinkLayer_run vt ctx es; LinkLayer_run vt ctx fs }"
  by (induction es arbitrary: ctx) (auto split: Option.bind_splits)

text \<open>A reply of the remote station to this one.\<close>

definition from_remote :: "LinkConfig \<Rightarrow> LinkHeaderFields \<Rightarrow> bool" where
  "from_remote cfg h \<longleftrightarrow> f_isFromMaster h \<noteq> cfg_IsMaster cfg \<and> f_src h = cfg_RemoteAddr cfg
     \<and> f_dest h = cfg_LocalAddr cfg"

definition is_ack :: "LinkConfig \<Rightarrow> LinkHeaderFields \<Rightarrow> bool" where
  "is_ack cfg h \<longleftrightarrow> from_remote cfg h \<and> f_func h = SEC_ACK"

lemma Validate_from_remote:
  "LinkContext_Validate ctx (f_isFromMaster h) (f_src h) (f_dest h) \<longleftrightarrow> from_remote (lc_config ctx) h"
  by (auto simp: LinkContext_Validate_def from_remote_def)

text \<open>A session that only its primary station uses, in state \<open>st\<close>.\<close>

definition sess :: "PriState \<Rightarrow> 's LinkContext \<Rightarrow> bool" where
  "sess st ctx \<longleftrightarrow> wired ctx \<and> lc_isOnline ctx \<and> lc_pPriState ctx = st \<and> lc_pendingPriTx ctx = None
     \<and> lc_pendingSecTx ctx = None \<and> \<not> lc_keepAliveTimeout ctx
     \<and> lc_txMode ctx = (if pri_waits_tx st then TxPrimary else TxIdle)
     \<and> (lc_rspTimeoutTimer ctx \<noteq> None \<longleftrightarrow> pri_waits_rsp st)"

abbreviation same_link :: "'s LinkContext \<Rightarrow> 's LinkContext \<Rightarrow> bool" where
  "same_link c ctx \<equiv> lc_config c = lc_config ctx \<and> lc_isRemoteReset c = lc_isRemoteReset ctx"

lemma transmitted:
  assumes "sess st ctx" "st = PLLS_LinkResetTransmitWait \<and> st' = PLLS_ResetLinkWait
      \<or> st = PLLS_ConfUserDataTransmitWait \<and> st' = PLLS_ConfDataWait"
  obtains c where "LinkLayer_step vt ctx (TransmitResult True) = Some c" "sess st' c" "same_link c ctx"
    "lc_out c = lc_out ctx" "lc_pSegments c = lc_pSegments ctx" "lc_nextWriteFCB c = lc_nextWriteFCB ctx"
    "lc_numRetryRemaining c = lc_numRetryRemaining ctx"
proof -
  let ?c = "ctx\<lparr>lc_txMode := TxIdle, lc_rspTimeoutTimer := Some (cfg_Timeout (lc_config ctx)), lc_pPriState := st'\<rparr>"
  have tx: "pri_waits_tx st" "\<not> pri_waits_tx st'" "pri_waits_rsp st'" "\<not> pri_waits_rsp st"
    using assms(2) by (auto simp: waits_defs)
  have step: "LinkContext_OnTransmitResult vt ctx True = Some (?c, True)"
    using assms tx
    by (auto simp: LinkContext_OnTransmitResult_def sess_def Let_def TryPendingSecTx_def TryPendingPriTx_def
        PriState_OnTransmitResult_def PLLS_LinkResetTransmitWait_OnTransmitResult_def
        PLLS_ConfUserDataTransmitWait_OnTransmitResult_def StartResponseTimer_def TimerRef_Start_def set_pri_def)
  have "TryStartTransmission vt ?c = Some ?c"
    using assms by (auto simp: TryStartTransmission_def sess_def PriState_TrySendConfirmed_def
        PriState_TrySendUnconfirmed_def)
  with step have "LinkLayer_step vt ctx (TransmitResult True) = Some ?c"
    by (simp add: LinkLayer_step_def LinkLayer_OnTransmitResult_def)
  then show ?thesis
    using assms(1) tx by (intro that[of ?c]) (simp_all add: sess_def wired_def)
qed

text \<open>The frames of a confirmed send, the frame count bit alternating.\<close>

fun confirmed_out :: "LinkConfig \<Rightarrow> bool \<Rightarrow> bytes list \<Rightarrow> LinkAction list" where
  "confirmed_out cfg fcb [] = []"
| "confirmed_out cfg fcb (tpdu # rest) =
     RouterBeginTransmit TxPrimary (conf_frame cfg fcb tpdu) # confirmed_out cfg (\<not> fcb) rest"

definition sent_and_acked :: "nat \<Rightarrow> int \<Rightarrow> LinkHeaderFields \<Rightarrow> 's LinkEvent list" where
  "sent_and_acked n now h = concat (replicate n [TransmitResult True, Frame now h [] None])"

text \<open>Each frame is put on the wire and not answered in time.\<close>

definition silence :: "nat \<Rightarrow> 's LinkEvent list" where
  "silence n = concat (replicate n [TransmitResult True, ResponseTimerFires])"

text \<open>An idle session with nothing to do.\<close>

definition ready :: "'s LinkContext \<Rightarrow> bool" where
  "ready ctx \<longleftrightarrow> sess PLLS_Idle ctx \<and> lc_pSegments ctx = None"

context link_client
begin

lemma wired_retry [simp]: "wired (ctx\<lparr>lc_numRetryRemaining := n\<rparr>) = wired ctx"
  by (simp add: wired_def)

lemma sess_queue_pri:
  assumes "wired ctx" "lc_isOnline ctx" "lc_txMode ctx = TxIdle" "lc_pendingPriTx ctx = None" "lc_pendingSecTx ctx = None"
    "\<not> lc_keepAliveTimeout ctx" "lc_rspTimeoutTimer ctx = None" "length frame \<le> LPDU_MAX_FRAME_SIZE" "pri_waits_tx st"
  shows "sess st (set_pri (queue_pri ctx frame, st))"
    "lc_out (set_pri (queue_pri ctx frame, st)) = lc_out ctx @ [RouterBeginTransmit TxPrimary frame]"
proof -
  have "\<not> pri_waits_rsp st" using assms(9) by (auto simp: waits_defs)
  with assms show "sess st (set_pri (queue_pri ctx frame, st))"
    by (simp add: sess_def set_pri_def queue_pri_def Let_def wired_def length_overwrite)
  show "lc_out (set_pri (queue_pri ctx frame, st)) = lc_out ctx @ [RouterBeginTransmit TxPrimary frame]"
    using assms(3) by (simp add: set_pri_def queue_pri_def)
qed

lemma TryStart_busy: "\<not> lc_keepAliveTimeout ctx \<Longrightarrow> lc_pPriState ctx \<noteq> PLLS_Idle \<or> lc_pSegments ctx = None \<Longrightarrow>
  TryStartTransmission vt ctx = Some ctx"
  by (auto simp: TryStartTransmission_def PriState_TrySendConfirmed_def PriState_TrySendUnconfirmed_def)

lemma ack_frame:
  assumes "is_ack (lc_config ctx) h" "lc_isOnline ctx" "PriState_OnAck vt (ctx\<lparr>lc_lastMessageTimestamp := now\<rparr>) = Some c"
    and "\<not> lc_keepAliveTimeout c" "lc_pPriState c \<noteq> PLLS_Idle \<or> lc_pSegments c = None"
  shows "LinkLayer_step vt ctx (Frame now h d reply) = Some c"
  using assms TryStart_busy[of c]
  by (simp add: LinkLayer_step_def LinkLayer_OnFrame_def LinkContext_OnFrame_def Validate_from_remote is_ack_def)

lemma data_acked:
  assumes "sess PLLS_ConfDataWait ctx" "lc_pSegments ctx = Some s" "seg_ok s" "is_ack (lc_config ctx) h"
  obtains c where "LinkLayer_step vt ctx (Frame now h d reply) = Some c" "same_link c ctx"
    "lc_nextWriteFCB c = (\<not> lc_nextWriteFCB ctx)"
    "tl (todo s) = [] \<Longrightarrow> sess PLLS_Idle c \<and> lc_pSegments c = None
       \<and> lc_out c = lc_out ctx @ [PostSendResult True]"
    "tl (todo s) \<noteq> [] \<Longrightarrow> sess PLLS_ConfUserDataTransmitWait c
       \<and> (\<exists>s'. lc_pSegments c = Some s' \<and> seg_ok s' \<and> todo s' = tl (todo s))
       \<and> lc_out c = lc_out ctx @ [RouterBeginTransmit TxPrimary
            (conf_frame (lc_config ctx) (\<not> lc_nextWriteFCB ctx) (hd (tl (todo s))))]"
proof -
  let ?c = "ctx\<lparr>lc_lastMessageTimestamp := now, lc_nextWriteFCB := \<not> lc_nextWriteFCB ctx, lc_rspTimeoutTimer := None\<rparr>"
  have cancel: "CancelTimer (ToggleWriteFCB (ctx\<lparr>lc_lastMessageTimestamp := now\<rparr>)) = ?c"
    by (simp add: CancelTimer_def ToggleWriteFCB_def TimerRef_Cancel_def split: option.splits)
  have wired: "wired ?c" using assms(1) by (simp add: sess_def wired_def)
  have seg: "lc_pSegments ?c = Some s" using assms(2) by simp
  obtain s' where s': "seg_inv s'" "todo s' = tl (todo s)"
    "Advance_of vt ?c = Some (?c\<lparr>lc_pSegments := Some s'\<rparr>, todo s' \<noteq> [])"
    using advance_segment[OF seg assms(3)] by blast
  show ?thesis
  proof (cases "tl (todo s) = []")
    case True
    let ?d = "set_pri (CompleteSendOperation (?c\<lparr>lc_pSegments := Some s'\<rparr>) True, PLLS_Idle)"
    have "PriState_OnAck vt (ctx\<lparr>lc_lastMessageTimestamp := now\<rparr>) = Some ?d"
      using assms(1) s' True cancel by (simp add: PriState_OnAck_def sess_def PLLS_ConfDataWait_OnAck_def)
    then have "LinkLayer_step vt ctx (Frame now h d reply) = Some ?d"
      using assms(1,4) by (intro ack_frame) (simp_all add: sess_def set_pri_def CompleteSendOperation_def emit_def)
    then show ?thesis using assms(1) True
      by (intro that[of ?d]) (simp_all add: sess_def set_pri_def CompleteSendOperation_def emit_def wired_def waits_defs)
  next
    case False
    let ?e = "?c\<lparr>lc_pSegments := Some s'\<rparr>"
    have ok: "seg_ok s'" using s' False by simp
    obtain s2 where s2: "seg_ok s2" "todo s2 = todo s'"
      "QueueConfirmedSegment vt ?e = Some (queue_pri (?e\<lparr>lc_pSegments := Some s2\<rparr>)
         (conf_frame (lc_config ctx) (\<not> lc_nextWriteFCB ctx) (hd (todo s'))))"
      using queue_segment[of ?e s', OF _ _ ok] wired by auto
    let ?f = "conf_frame (lc_config ctx) (\<not> lc_nextWriteFCB ctx) (hd (tl (todo s)))"
    let ?d = "set_pri (queue_pri (?e\<lparr>lc_pSegments := Some s2\<rparr>) ?f, PLLS_ConfUserDataTransmitWait)"
    have size: "length ?f \<le> LPDU_MAX_FRAME_SIZE"
      using length_data_frames(1)[OF tpdu_size[of s' "hd (todo s')"]] ok s'(2) by simp
    have ack: "PriState_OnAck vt (ctx\<lparr>lc_lastMessageTimestamp := now\<rparr>) = Some ?d"
      using assms(1) s'(2,3) s2(3) False cancel by (simp add: PriState_OnAck_def sess_def PLLS_ConfDataWait_OnAck_def)
    have d: "sess PLLS_ConfUserDataTransmitWait ?d" "lc_out ?d = lc_out ctx @ [RouterBeginTransmit TxPrimary ?f]"
      using sess_queue_pri[of "?e\<lparr>lc_pSegments := Some s2\<rparr>" ?f PLLS_ConfUserDataTransmitWait, OF _ _ _ _ _ _ _ size]
        assms(1) wired by (simp_all add: sess_def waits_defs)
    have "LinkLayer_step vt ctx (Frame now h d reply) = Some ?d"
      using d(1) assms(1,4) by (intro ack_frame[OF _ _ ack]) (simp_all add: sess_def)
    then show ?thesis using d s2 s'(2) False
      by (intro that[of ?d]) (simp_all add: set_pri_def)
  qed
qed

lemma reset_acked:
  assumes "sess PLLS_ResetLinkWait ctx" "lc_pSegments ctx = Some s" "seg_ok s" "is_ack (lc_config ctx) h"
  obtains c s' where "LinkLayer_step vt ctx (Frame now h d reply) = Some c" "lc_config c = lc_config ctx"
    "lc_nextWriteFCB c" "lc_isRemoteReset c" "sess PLLS_ConfUserDataTransmitWait c" "lc_pSegments c = Some s'"
    "seg_ok s'" "todo s' = todo s" "lc_out c = lc_out ctx @ [RouterBeginTransmit TxPrimary
       (conf_frame (lc_config ctx) True (hd (todo s))), PostStatus RESET]"
proof -
  let ?c = "ctx\<lparr>lc_lastMessageTimestamp := now, lc_isRemoteReset := True, lc_nextWriteFCB := True, lc_rspTimeoutTimer := None\<rparr>"
  have cancel: "CancelTimer (ResetWriteFCB (ctx\<lparr>lc_lastMessageTimestamp := now, lc_isRemoteReset := True\<rparr>)) = ?c"
    by (simp add: CancelTimer_def ResetWriteFCB_def TimerRef_Cancel_def split: option.splits)
  have wired: "wired ?c" using assms(1) by (simp add: sess_def wired_def)
  obtain s' where s': "seg_ok s'" "todo s' = todo s"
    "QueueConfirmedSegment vt ?c = Some (queue_pri (?c\<lparr>lc_pSegments := Some s'\<rparr>)
       (conf_frame (lc_config ctx) True (hd (todo s))))"
    using queue_segment[of ?c s, OF wired _ assms(3)] assms(2) by auto
  let ?f = "conf_frame (lc_config ctx) True (hd (todo s))"
  let ?e = "?c\<lparr>lc_pSegments := Some s'\<rparr>"
  let ?d = "set_pri (queue_pri ?e ?f, PLLS_ConfUserDataTransmitWait)"
  let ?r = "set_pri (PostStatusCallback RESET (queue_pri ?e ?f), PLLS_ConfUserDataTransmitWait)"
  have size: "length ?f \<le> LPDU_MAX_FRAME_SIZE"
    using length_data_frames(1)[OF tpdu_size[of s "hd (todo s)"]] assms(3) by simp
  have d: "sess PLLS_ConfUserDataTransmitWait ?d" "lc_out ?d = lc_out ctx @ [RouterBeginTransmit TxPrimary ?f]"
    using sess_queue_pri[of ?e ?f PLLS_ConfUserDataTransmitWait, OF _ _ _ _ _ _ _ size]
      assms(1) wired by (simp_all add: sess_def waits_defs)
  have r: "?r = ?d\<lparr>lc_out := lc_out ?d @ [PostStatus RESET]\<rparr>"
    by (simp add: set_pri_def PostStatusCallback_def emit_def)
  have ack: "PriState_OnAck vt (ctx\<lparr>lc_lastMessageTimestamp := now\<rparr>) = Some ?r"
    using assms(1) s'(3) cancel by (simp add: PriState_OnAck_def sess_def PLLS_ResetLinkWait_OnAck_def)
  have sess: "sess PLLS_ConfUserDataTransmitWait ?r" using d(1) unfolding r by (simp add: sess_def wired_def)
  have "LinkLayer_step vt ctx (Frame now h d reply) = Some ?r"
    using sess assms(1,4) by (intro ack_frame[OF _ _ ack]) (simp_all add: sess_def)
  moreover have "lc_nextWriteFCB ?r" "lc_isRemoteReset ?r" "lc_pSegments ?r = Some s'" "lc_config ?r = lc_config ctx"
    by (simp_all add: set_pri_def PostStatusCallback_def emit_def)
  ultimately show ?thesis using sess s' d(2) r by (intro that[of ?r s']) simp_all
qed

lemma confirmed_rest:
  "sess PLLS_ConfUserDataTransmitWait ctx \<Longrightarrow> lc_pSegments ctx = Some s \<Longrightarrow> seg_ok s \<Longrightarrow> is_ack (lc_config ctx) h \<Longrightarrow>
     \<exists>c. LinkLayer_run vt ctx (sent_and_acked (length (todo s)) now h) = Some c \<and> sess PLLS_Idle c
       \<and> lc_pSegments c = None \<and> same_link c ctx
       \<and> lc_nextWriteFCB c = (if even (length (todo s)) then lc_nextWriteFCB ctx else \<not> lc_nextWriteFCB ctx)
       \<and> lc_out c = lc_out ctx @ confirmed_out (lc_config ctx) (\<not> lc_nextWriteFCB ctx) (tl (todo s)) @ [PostSendResult True]"
proof (induction "length (todo s)" arbitrary: ctx s)
  case 0
  then show ?case by simp
next
  case (Suc n)
  obtain c where c: "LinkLayer_step vt ctx (TransmitResult True) = Some c" "sess PLLS_ConfDataWait c" "same_link c ctx"
    "lc_out c = lc_out ctx" "lc_pSegments c = lc_pSegments ctx" "lc_nextWriteFCB c = lc_nextWriteFCB ctx"
    using transmitted[OF Suc.prems(1), of PLLS_ConfDataWait] by auto
  have seg: "lc_pSegments c = Some s" and h: "is_ack (lc_config c) h" using c Suc.prems(2,4) by simp_all
  obtain e where e: "LinkLayer_step vt c (Frame now h [] None) = Some e" "same_link e c"
    "lc_nextWriteFCB e = (\<not> lc_nextWriteFCB c)"
    "tl (todo s) = [] \<Longrightarrow> sess PLLS_Idle e \<and> lc_pSegments e = None \<and> lc_out e = lc_out c @ [PostSendResult True]"
    "tl (todo s) \<noteq> [] \<Longrightarrow> sess PLLS_ConfUserDataTransmitWait e
       \<and> (\<exists>s'. lc_pSegments e = Some s' \<and> seg_ok s' \<and> todo s' = tl (todo s))
       \<and> lc_out e = lc_out c @ [RouterBeginTransmit TxPrimary
            (conf_frame (lc_config c) (\<not> lc_nextWriteFCB c) (hd (tl (todo s))))]"
    using data_acked[OF c(2) seg Suc.prems(3) h] by blast
  have n: "length (tl (todo s)) = n" using Suc.hyps(2) by simp
  have two: "LinkLayer_run vt ctx (sent_and_acked (length (todo s)) now h) = LinkLayer_run vt e (sent_and_acked n now h)"
    using c(1) e(1) by (simp add: sent_and_acked_def flip: Suc.hyps(2))
  show ?case
  proof (cases "tl (todo s) = []")
    case True
    with n have "n = 0" by simp
    with Suc.hyps(2) have len: "length (todo s) = 1" by simp
    have run: "LinkLayer_run vt ctx (sent_and_acked (length (todo s)) now h) = Some e"
      using two \<open>n = 0\<close> by (simp add: sent_and_acked_def)
    show ?thesis unfolding run using e(2,3,4) True c(3,4,6) len by simp
  next
    case False
    with e(5) obtain s' where s': "sess PLLS_ConfUserDataTransmitWait e" "lc_pSegments e = Some s'" "seg_ok s'"
      "todo s' = tl (todo s)" "lc_out e = lc_out c @ [RouterBeginTransmit TxPrimary
            (conf_frame (lc_config c) (\<not> lc_nextWriteFCB c) (hd (tl (todo s))))]" by blast
    have len: "n = length (todo s')" using n s'(4) by simp
    have h': "is_ack (lc_config e) h" using h e(2) by simp
    have cons: "tl (todo s) = hd (tl (todo s)) # tl (tl (todo s))" using False by simp
    have out: "confirmed_out cfg fcb (tl (todo s)) = RouterBeginTransmit TxPrimary (conf_frame cfg fcb (hd (tl (todo s))))
        # confirmed_out cfg (\<not> fcb) (tl (tl (todo s)))" for cfg fcb
      by (subst cons) simp
    from Suc.hyps(1)[OF len s'(1,2,3) h'] obtain f where f:
      "LinkLayer_run vt e (sent_and_acked n now h) = Some f" "sess PLLS_Idle f" "lc_pSegments f = None" "same_link f e"
      "lc_nextWriteFCB f = (if even n then lc_nextWriteFCB e else \<not> lc_nextWriteFCB e)"
      "lc_out f = lc_out e @ confirmed_out (lc_config e) (\<not> lc_nextWriteFCB e) (tl (tl (todo s))) @ [PostSendResult True]"
      unfolding len s'(4) by blast
    with two e(2,3) c(3,4,6) s'(5) out Suc.hyps(2)[symmetric] show ?thesis by simp
  qed
qed

lemma Send_ready:
  assumes "ready ctx"
  shows "LinkLayer_step vt ctx (Send s) =
    (if cfg_UseConfirms (lc_config ctx)
     then map_option set_pri (PLLS_Idle_TrySendConfirmed vt (ctx\<lparr>lc_pSegments := Some s\<rparr>))
     else map_option set_pri (PLLS_Idle_TrySendUnconfirmed vt (ctx\<lparr>lc_pSegments := Some s\<rparr>)))"
  using assms by (simp add: ready_def sess_def LinkLayer_step_def LinkLayer_Send_def SetTxSegment_def
      TryStartTransmission_def PriState_TrySendConfirmed_def PriState_TrySendUnconfirmed_def)

lemma Send_first_confirmed:
  assumes "ready ctx" "seg_ok s" "cfg_UseConfirms (lc_config ctx)" "lc_isRemoteReset ctx"
  obtains c s' where "LinkLayer_step vt ctx (Send s) = Some c" "sess PLLS_ConfUserDataTransmitWait c"
    "lc_pSegments c = Some s'" "seg_ok s'" "todo s' = todo s" "same_link c ctx"
    "lc_nextWriteFCB c = lc_nextWriteFCB ctx" "lc_numRetryRemaining c = cfg_NumRetry (lc_config ctx)"
    "lc_out c = lc_out ctx @ [RouterBeginTransmit TxPrimary (conf_frame (lc_config ctx) (lc_nextWriteFCB ctx) (hd (todo s)))]"
proof -
  let ?c = "ctx\<lparr>lc_pSegments := Some s, lc_numRetryRemaining := cfg_NumRetry (lc_config ctx)\<rparr>"
  have c: "ResetRetry (ctx\<lparr>lc_pSegments := Some s\<rparr>) = ?c" by (simp add: ResetRetry_def)
  have wired: "wired ?c" using assms(1) by (simp add: ready_def sess_def wired_def)
  obtain s' where s': "seg_ok s'" "todo s' = todo s"
    "QueueConfirmedSegment vt ?c = Some (queue_pri (?c\<lparr>lc_pSegments := Some s'\<rparr>)
       (conf_frame (lc_config ctx) (lc_nextWriteFCB ctx) (hd (todo s))))"
    using queue_segment[of ?c s, OF wired _ assms(2)] by auto
  let ?f = "conf_frame (lc_config ctx) (lc_nextWriteFCB ctx) (hd (todo s))"
  let ?e = "?c\<lparr>lc_pSegments := Some s'\<rparr>"
  let ?d = "set_pri (queue_pri ?e ?f, PLLS_ConfUserDataTransmitWait)"
  have size: "length ?f \<le> LPDU_MAX_FRAME_SIZE"
    using length_data_frames(1)[OF tpdu_size[of s "hd (todo s)"]] assms(2) by simp
  have d: "sess PLLS_ConfUserDataTransmitWait ?d" "lc_out ?d = lc_out ctx @ [RouterBeginTransmit TxPrimary ?f]"
    using sess_queue_pri[of ?e ?f PLLS_ConfUserDataTransmitWait, OF _ _ _ _ _ _ _ size]
      assms(1) wired by (simp_all add: sess_def ready_def waits_defs)
  have "LinkLayer_step vt ctx (Send s) = Some ?d"
    using assms(3,4) s'(3) c by (simp add: Send_ready[OF assms(1)] PLLS_Idle_TrySendConfirmed_def)
  then show ?thesis using d s' by (intro that[of ?d s']) (simp_all add: set_pri_def)
qed

lemma Send_first_reset:
  assumes "ready ctx" "seg_ok s" "cfg_UseConfirms (lc_config ctx)" "\<not> lc_isRemoteReset ctx"
  obtains c where "LinkLayer_step vt ctx (Send s) = Some c" "sess PLLS_LinkResetTransmitWait c"
    "lc_pSegments c = Some s" "same_link c ctx" "lc_numRetryRemaining c = cfg_NumRetry (lc_config ctx)"
    "lc_out c = lc_out ctx @ [RouterBeginTransmit TxPrimary (ctl_frame (lc_config ctx) PRI_RESET_LINK_STATES)]"
proof -
  let ?c = "ctx\<lparr>lc_pSegments := Some s, lc_numRetryRemaining := cfg_NumRetry (lc_config ctx)\<rparr>"
  let ?f = "ctl_frame (lc_config ctx) PRI_RESET_LINK_STATES"
  let ?d = "set_pri (queue_pri ?c ?f, PLLS_LinkResetTransmitWait)"
  have c: "ResetRetry (ctx\<lparr>lc_pSegments := Some s\<rparr>) = ?c" by (simp add: ResetRetry_def)
  have wired: "wired ?c" using assms(1) by (simp add: ready_def sess_def wired_def)
  have d: "sess PLLS_LinkResetTransmitWait ?d" "lc_out ?d = lc_out ctx @ [RouterBeginTransmit TxPrimary ?f]"
    using sess_queue_pri[of ?c ?f PLLS_LinkResetTransmitWait] assms(1) wired
    by (simp_all add: sess_def ready_def waits_defs lpdu_consts)
  have "LinkLayer_step vt ctx (Send s) = Some ?d"
    using assms(3,4) queue_control(3)[OF wired] c by (simp add: Send_ready[OF assms(1)] PLLS_Idle_TrySendConfirmed_def)
  then show ?thesis using d by (intro that[of ?d]) (simp_all add: set_pri_def)
qed

lemma confirmed_send:
  assumes "ready ctx" "seg_ok s" "cfg_UseConfirms (lc_config ctx)" "is_ack (lc_config ctx) h"
  defines "n \<equiv> length (todo s)"
  shows "lc_isRemoteReset ctx \<Longrightarrow> \<exists>c. LinkLayer_run vt ctx (Send s # sent_and_acked n now h) = Some c \<and> ready c
      \<and> lc_isRemoteReset c \<and> lc_out c = lc_out ctx @ confirmed_out (lc_config ctx) (lc_nextWriteFCB ctx) (todo s) @ [PostSendResult True]"
    and "\<not> lc_isRemoteReset ctx \<Longrightarrow> \<exists>c. LinkLayer_run vt ctx (Send s # sent_and_acked (Suc n) now h) = Some c \<and> ready c
      \<and> lc_isRemoteReset c
      \<and> lc_out c = lc_out ctx @ RouterBeginTransmit TxPrimary (ctl_frame (lc_config ctx) PRI_RESET_LINK_STATES)
          # RouterBeginTransmit TxPrimary (conf_frame (lc_config ctx) True (hd (todo s))) # PostStatus RESET
          # confirmed_out (lc_config ctx) False (tl (todo s)) @ [PostSendResult True]"
proof -
  have cons: "todo s = hd (todo s) # tl (todo s)" using assms(2) by simp
  have out: "confirmed_out cfg fcb (todo s) = RouterBeginTransmit TxPrimary (conf_frame cfg fcb (hd (todo s)))
        # confirmed_out cfg (\<not> fcb) (tl (todo s))" for cfg fcb
    by (subst cons) simp
  {
    assume reset: "lc_isRemoteReset ctx"
    obtain c s' where c: "LinkLayer_step vt ctx (Send s) = Some c" "sess PLLS_ConfUserDataTransmitWait c"
      "lc_pSegments c = Some s'" "seg_ok s'" "todo s' = todo s" "same_link c ctx"
      "lc_nextWriteFCB c = lc_nextWriteFCB ctx"
      "lc_out c = lc_out ctx @ [RouterBeginTransmit TxPrimary (conf_frame (lc_config ctx) (lc_nextWriteFCB ctx) (hd (todo s)))]"
      using Send_first_confirmed[OF assms(1-3) reset] by blast
    have h: "is_ack (lc_config c) h" using c(6) assms(4) by simp
    obtain d where "LinkLayer_run vt c (sent_and_acked n now h) = Some d" "sess PLLS_Idle d"
      "lc_pSegments d = None" "lc_isRemoteReset d = lc_isRemoteReset c"
      "lc_out d = lc_out c @ confirmed_out (lc_config c) (\<not> lc_nextWriteFCB c) (tl (todo s')) @ [PostSendResult True]"
      using confirmed_rest[OF c(2,3,4) h, where now = now] c(5) unfolding n_def by auto
    with c out reset
    show "\<exists>c. LinkLayer_run vt ctx (Send s # sent_and_acked n now h) = Some c \<and> ready c
      \<and> lc_isRemoteReset c \<and> lc_out c = lc_out ctx @ confirmed_out (lc_config ctx) (lc_nextWriteFCB ctx) (todo s) @ [PostSendResult True]"
      by (simp add: ready_def)
  next
    assume reset: "\<not> lc_isRemoteReset ctx"
    obtain c where c: "LinkLayer_step vt ctx (Send s) = Some c" "sess PLLS_LinkResetTransmitWait c"
      "lc_pSegments c = Some s" "same_link c ctx" 
      "lc_out c = lc_out ctx @ [RouterBeginTransmit TxPrimary (ctl_frame (lc_config ctx) PRI_RESET_LINK_STATES)]"
      using Send_first_reset[OF assms(1-3) reset] by blast
    obtain d where d: "LinkLayer_step vt c (TransmitResult True) = Some d" "sess PLLS_ResetLinkWait d" "same_link d c"
      "lc_out d = lc_out c" "lc_pSegments d = lc_pSegments c"
      using transmitted[OF c(2), of PLLS_ResetLinkWait] by auto
    have "lc_pSegments d = Some s" and hd: "is_ack (lc_config d) h" using c d assms(4) by simp_all
    then obtain e s' where e: "LinkLayer_step vt d (Frame now h [] None) = Some e" "lc_config e = lc_config d"
      "lc_nextWriteFCB e" "lc_isRemoteReset e" "sess PLLS_ConfUserDataTransmitWait e" "lc_pSegments e = Some s'"
      "seg_ok s'" "todo s' = todo s" "lc_out e = lc_out d @ [RouterBeginTransmit TxPrimary
         (conf_frame (lc_config d) True (hd (todo s))), PostStatus RESET]"
      using reset_acked[OF d(2) _ assms(2) hd] by blast
    have h: "is_ack (lc_config e) h" using e(2) hd by simp
    obtain f where f: "LinkLayer_run vt e (sent_and_acked n now h) = Some f" "sess PLLS_Idle f"
      "lc_pSegments f = None" "lc_isRemoteReset f = lc_isRemoteReset e"
      "lc_out f = lc_out e @ confirmed_out (lc_config e) (\<not> lc_nextWriteFCB e) (tl (todo s')) @ [PostSendResult True]"
      using confirmed_rest[OF e(5,6,7) h, where now = now] e(8) unfolding n_def by auto
    have "LinkLayer_run vt ctx (Send s # sent_and_acked (Suc n) now h) = Some f"
      using c(1) d(1) e(1) f(1) by (simp add: sent_and_acked_def)
    with f(2-5) c(4,5) d(3,4) e(2,3,4,8,9)
    show "\<exists>c. LinkLayer_run vt ctx (Send s # sent_and_acked (Suc n) now h) = Some c \<and> ready c
      \<and> lc_isRemoteReset c
      \<and> lc_out c = lc_out ctx @ RouterBeginTransmit TxPrimary (ctl_frame (lc_config ctx) PRI_RESET_LINK_STATES)
          # RouterBeginTransmit TxPrimary (conf_frame (lc_config ctx) True (hd (todo s))) # PostStatus RESET
          # confirmed_out (lc_config ctx) False (tl (todo s)) @ [PostSendResult True]"
      by (simp add: ready_def)
  }
qed

subsection \<open>Unconfirmed sends\<close>

lemma queue_unconfirmed:
  assumes "wired ctx" "lc_isOnline ctx" "lc_txMode ctx = TxIdle" "lc_pendingPriTx ctx = None" "lc_pendingSecTx ctx = None"
    "\<not> lc_keepAliveTimeout ctx" "lc_rspTimeoutTimer ctx = None" "lc_pSegments ctx = Some s" "seg_ok s"
  obtains c s' where "QueueUnconfirmedSegment vt ctx = Some c"
    "sess PLLS_SendUnconfirmedTransmitWait (set_pri (c, PLLS_SendUnconfirmedTransmitWait))"
    "lc_pSegments c = Some s'" "seg_ok s'" "todo s' = todo s" "lc_config c = lc_config ctx"
    "lc_out c = lc_out ctx @ [RouterBeginTransmit TxPrimary (unconf_frame (lc_config ctx) (hd (todo s)))]"
proof -
  obtain s' where s': "seg_ok s'" "todo s' = todo s"
    "QueueUnconfirmedSegment vt ctx = Some (queue_pri (ctx\<lparr>lc_pSegments := Some s'\<rparr>)
       (unconf_frame (lc_config ctx) (hd (todo s))))"
    using queue_segment[OF assms(1,8,9)] by blast
  let ?f = "unconf_frame (lc_config ctx) (hd (todo s))"
  have size: "length ?f \<le> LPDU_MAX_FRAME_SIZE"
    using length_data_frames(2)[OF tpdu_size[of s "hd (todo s)"]] assms(9) by simp
  let ?d = "queue_pri (ctx\<lparr>lc_pSegments := Some s'\<rparr>) ?f"
  have "sess PLLS_SendUnconfirmedTransmitWait (set_pri (?d, PLLS_SendUnconfirmedTransmitWait))"
    "lc_out (set_pri (?d, PLLS_SendUnconfirmedTransmitWait)) = lc_out ctx @ [RouterBeginTransmit TxPrimary ?f]"
    using sess_queue_pri[of "ctx\<lparr>lc_pSegments := Some s'\<rparr>" ?f PLLS_SendUnconfirmedTransmitWait, OF _ _ _ _ _ _ _ size] assms
    by (simp_all add: waits_defs)
  with s' show ?thesis by (intro that[of ?d s']) (simp_all add: set_pri_def)
qed

lemma unconfirmed_transmitted:
  assumes "sess PLLS_SendUnconfirmedTransmitWait ctx" "lc_pSegments ctx = Some s" "seg_ok s"
  obtains c where "LinkLayer_step vt ctx (TransmitResult b) = Some c" "lc_config c = lc_config ctx"
    "tl (todo s) = [] \<Longrightarrow> ready c \<and> lc_out c = lc_out ctx @ [PostSendResult b]"
    "tl (todo s) \<noteq> [] \<Longrightarrow> sess PLLS_SendUnconfirmedTransmitWait c
       \<and> (\<exists>s'. lc_pSegments c = Some s' \<and> seg_ok s' \<and> todo s' = tl (todo s))
       \<and> lc_out c = lc_out ctx @ [RouterBeginTransmit TxPrimary (unconf_frame (lc_config ctx) (hd (tl (todo s))))]"
proof -
  let ?c = "ctx\<lparr>lc_txMode := TxIdle\<rparr>"
  have seg: "lc_pSegments ?c = Some s" using assms(2) by simp
  obtain s' where s': "seg_inv s'" "todo s' = tl (todo s)"
    "Advance_of vt ?c = Some (?c\<lparr>lc_pSegments := Some s'\<rparr>, todo s' \<noteq> [])"
    using advance_segment[OF seg assms(3)] by blast
  let ?e = "?c\<lparr>lc_pSegments := Some s'\<rparr>"
  have event: "LinkLayer_step vt ctx (TransmitResult b) = do {
      ctx \<leftarrow> map_option set_pri (PLLS_SendUnconfirmedTransmitWait_OnTransmitResult vt ?c b);
      TryStartTransmission vt ctx }"
    using assms(1) by (auto simp: LinkLayer_step_def LinkLayer_OnTransmitResult_def LinkContext_OnTransmitResult_def
        TryPendingSecTx_def TryPendingPriTx_def sess_def waits_defs PriState_OnTransmitResult_def Let_def
        split: Option.bind_splits)
  show ?thesis
  proof (cases "tl (todo s) = []")
    case True
    let ?d = "set_pri (CompleteSendOperation ?e b, PLLS_Idle)"
    have d: "ready ?d" "lc_out ?d = lc_out ctx @ [PostSendResult b]" "lc_config ?d = lc_config ctx"
      using assms(1) by (simp_all add: ready_def sess_def set_pri_def CompleteSendOperation_def emit_def wired_def waits_defs)
    have "LinkLayer_step vt ctx (TransmitResult b) = Some ?d"
      using s' True TryStart_busy[of ?d] d(1)
      by (simp add: event PLLS_SendUnconfirmedTransmitWait_OnTransmitResult_def ready_def sess_def)
    with d True show ?thesis by (intro that[of ?d]) simp_all
  next
    case False
    have ok: "seg_ok s'" using s' False by simp
    have e: "wired ?e" "lc_isOnline ?e" "lc_txMode ?e = TxIdle" "lc_pendingPriTx ?e = None" "lc_pendingSecTx ?e = None"
      "\<not> lc_keepAliveTimeout ?e" "lc_rspTimeoutTimer ?e = None" "lc_pSegments ?e = Some s'"
      using assms(1) by (simp_all add: sess_def wired_def waits_defs)
    obtain u s2 where u: "QueueUnconfirmedSegment vt ?e = Some u"
      "sess PLLS_SendUnconfirmedTransmitWait (set_pri (u, PLLS_SendUnconfirmedTransmitWait))"
      "lc_pSegments u = Some s2" "seg_ok s2" "todo s2 = todo s'" "lc_config u = lc_config ?e"
      "lc_out u = lc_out ?e @ [RouterBeginTransmit TxPrimary (unconf_frame (lc_config ?e) (hd (todo s')))]"
      using queue_unconfirmed[OF e ok] by metis
    let ?d = "set_pri (u, PLLS_SendUnconfirmedTransmitWait)"
    have "LinkLayer_step vt ctx (TransmitResult b) = Some ?d"
      using s' False u(1,2) TryStart_busy[of ?d]
      by (simp add: event PLLS_SendUnconfirmedTransmitWait_OnTransmitResult_def sess_def)
    moreover have "lc_config ?d = lc_config ctx" "lc_pSegments ?d = Some s2" "lc_out ?d = lc_out u"
      using u(3,6) by (simp_all add: set_pri_def)
    ultimately show ?thesis using u False s'(2) by (intro that[of ?d]) simp_all
  qed
qed

lemma unconfirmed_rest:
  "sess PLLS_SendUnconfirmedTransmitWait ctx \<Longrightarrow> lc_pSegments ctx = Some s \<Longrightarrow> seg_ok s \<Longrightarrow> length bs = length (todo s) \<Longrightarrow>
     \<exists>c. LinkLayer_run vt ctx (map TransmitResult bs) = Some c \<and> ready c
       \<and> lc_out c = lc_out ctx @ map (\<lambda>tpdu. RouterBeginTransmit TxPrimary (unconf_frame (lc_config ctx) tpdu)) (tl (todo s))
           @ [PostSendResult (last bs)]"
proof (induction bs arbitrary: ctx s)
  case Nil
  then show ?case by simp
next
  case (Cons b bs)
  obtain c where c: "LinkLayer_step vt ctx (TransmitResult b) = Some c" "lc_config c = lc_config ctx"
    "tl (todo s) = [] \<Longrightarrow> ready c \<and> lc_out c = lc_out ctx @ [PostSendResult b]"
    "tl (todo s) \<noteq> [] \<Longrightarrow> sess PLLS_SendUnconfirmedTransmitWait c
       \<and> (\<exists>s'. lc_pSegments c = Some s' \<and> seg_ok s' \<and> todo s' = tl (todo s))
       \<and> lc_out c = lc_out ctx @ [RouterBeginTransmit TxPrimary (unconf_frame (lc_config ctx) (hd (tl (todo s))))]"
    using unconfirmed_transmitted[OF Cons.prems(1-3)] by blast
  have n: "length (tl (todo s)) = length bs" using Cons.prems(4) by simp
  show ?case
  proof (cases "tl (todo s) = []")
    case True
    with n c show ?thesis by simp
  next
    case False
    with c(4) obtain s' where s': "sess PLLS_SendUnconfirmedTransmitWait c" "lc_pSegments c = Some s'" "seg_ok s'"
      "todo s' = tl (todo s)"
      "lc_out c = lc_out ctx @ [RouterBeginTransmit TxPrimary (unconf_frame (lc_config ctx) (hd (tl (todo s))))]" by blast
    have bs: "bs \<noteq> []" using n False by (metis length_0_conv)
    have cons: "tl (todo s) = hd (tl (todo s)) # tl (tl (todo s))" using False by simp
    have len: "length bs = length (todo s')" using n s'(4) by simp
    from Cons.IH[OF s'(1,2,3) len] obtain d where d: "LinkLayer_run vt c (map TransmitResult bs) = Some d" "ready d"
      "lc_out d = lc_out c @ map (\<lambda>tpdu. RouterBeginTransmit TxPrimary (unconf_frame (lc_config c) tpdu)) (tl (todo s'))
           @ [PostSendResult (last bs)]" by blast
    have "map f (tl (todo s)) = f (hd (tl (todo s))) # map f (tl (tl (todo s)))" for f :: "bytes \<Rightarrow> LinkAction"
      by (subst cons) simp
    with d c(1,2) s'(4,5) bs show ?thesis by simp
  qed
qed

lemma unconfirmed_send:
  assumes "ready ctx" "seg_ok s" "\<not> cfg_UseConfirms (lc_config ctx)" "length bs = length (todo s)"
  shows "\<exists>c. LinkLayer_run vt ctx (Send s # map TransmitResult bs) = Some c \<and> ready c
    \<and> lc_out c = lc_out ctx @ map (\<lambda>tpdu. RouterBeginTransmit TxPrimary (unconf_frame (lc_config ctx) tpdu)) (todo s)
        @ [PostSendResult (last bs)]"
proof -
  let ?e = "ctx\<lparr>lc_pSegments := Some s\<rparr>"
  have e: "wired ?e" "lc_isOnline ?e" "lc_txMode ?e = TxIdle" "lc_pendingPriTx ?e = None" "lc_pendingSecTx ?e = None"
    "\<not> lc_keepAliveTimeout ?e" "lc_rspTimeoutTimer ?e = None" "lc_pSegments ?e = Some s"
    using assms(1) by (simp_all add: ready_def sess_def wired_def waits_defs)
  obtain u s2 where u: "QueueUnconfirmedSegment vt ?e = Some u"
    "sess PLLS_SendUnconfirmedTransmitWait (set_pri (u, PLLS_SendUnconfirmedTransmitWait))"
    "lc_pSegments u = Some s2" "seg_ok s2" "todo s2 = todo s" "lc_config u = lc_config ?e"
    "lc_out u = lc_out ?e @ [RouterBeginTransmit TxPrimary (unconf_frame (lc_config ?e) (hd (todo s)))]"
    using queue_unconfirmed[OF e assms(2)] by metis
  let ?d = "set_pri (u, PLLS_SendUnconfirmedTransmitWait)"
  have step: "LinkLayer_step vt ctx (Send s) = Some ?d"
    using assms(3) u(1) by (simp add: Send_ready[OF assms(1)] PLLS_Idle_TrySendUnconfirmed_def)
  have d: "lc_config ?d = lc_config ctx" "lc_pSegments ?d = Some s2" "lc_out ?d = lc_out u"
    using u(3,6) by (simp_all add: set_pri_def)
  have len: "length bs = length (todo s2)" using assms(4) u(5) by simp
  have cons: "todo s = hd (todo s) # tl (todo s)" using assms(2) by simp
  have "map f (todo s) = f (hd (todo s)) # map f (tl (todo s))" for f :: "bytes \<Rightarrow> LinkAction"
    by (subst cons) simp
  with unconfirmed_rest[OF u(2) d(2) u(4) len] step d u(5,7) show ?thesis by simp
qed

subsection \<open>A peer that never answers\<close>

lemma data_timeout:
  assumes "sess PLLS_ConfDataWait ctx" "lc_pSegments ctx = Some s" "seg_ok s"
  obtains c where "LinkLayer_step vt ctx ResponseTimerFires = Some c" "same_link c ctx"
    "lc_nextWriteFCB c = lc_nextWriteFCB ctx"
    "lc_numRetryRemaining ctx = 0 \<longrightarrow> ready c \<and> lc_out c = lc_out ctx @ [PostStatus UNRESET, PostSendResult False]"
    "lc_numRetryRemaining ctx > 0 \<longrightarrow> sess PLLS_ConfUserDataTransmitWait c
       \<and> lc_numRetryRemaining c = lc_numRetryRemaining ctx - 1
       \<and> (\<exists>s'. lc_pSegments c = Some s' \<and> seg_ok s' \<and> todo s' = todo s)
       \<and> lc_out c = lc_out ctx @ [RouterBeginTransmit TxPrimary (conf_frame (lc_config ctx) (lc_nextWriteFCB ctx) (hd (todo s)))]"
proof -
  let ?c = "ctx\<lparr>lc_rspTimeoutTimer := None\<rparr>"
  have timer: "lc_rspTimeoutTimer ctx \<noteq> None" using assms(1) by (simp add: sess_def waits_defs)
  have event: "LinkLayer_step vt ctx ResponseTimerFires = do {
      ctx \<leftarrow> map_option set_pri (PLLS_ConfDataWait_OnTimeout vt ?c); TryStartTransmission vt ctx }"
    using assms(1) timer by (simp add: LinkLayer_step_def OnResponseTimeout_def PriState_OnTimeout_def sess_def)
  show ?thesis
  proof (cases "lc_numRetryRemaining ctx = 0")
    case True
    let ?d = "set_pri (CompleteSendOperation (PostStatusCallback UNRESET ?c) False, PLLS_Idle)"
    have d: "ready ?d" "lc_out ?d = lc_out ctx @ [PostStatus UNRESET, PostSendResult False]" "same_link ?d ctx"
      "lc_nextWriteFCB ?d = lc_nextWriteFCB ctx"
      using assms(1) by (simp_all add: ready_def sess_def set_pri_def CompleteSendOperation_def PostStatusCallback_def
          emit_def wired_def waits_defs)
    have "LinkLayer_step vt ctx ResponseTimerFires = Some ?d"
      using True d(1) TryStart_busy[of ?d]
      by (simp add: event PLLS_ConfDataWait_OnTimeout_def Retry_def ready_def sess_def)
    with d True show ?thesis by (intro that[of ?d]) simp_all
  next
    case False
    let ?e = "retried ?c"
    have e: "wired ?e" "lc_pSegments ?e = Some s" "lc_config ?e = lc_config ctx" "lc_nextWriteFCB ?e = lc_nextWriteFCB ctx"
      "lc_out ?e = lc_out ctx" "lc_isRemoteReset ?e = lc_isRemoteReset ctx"
      using assms(1,2) by (simp_all add: retried_def sess_def wired_def)
    let ?f = "conf_frame (lc_config ctx) (lc_nextWriteFCB ctx) (hd (todo s))"
    obtain s' where s': "seg_ok s'" "todo s' = todo s"
      "QueueConfirmedSegment vt ?e = Some (queue_pri (?e\<lparr>lc_pSegments := Some s'\<rparr>) ?f)"
      using queue_segment[OF e(1,2) assms(3)] e(3,4) by auto
    have size: "length ?f \<le> LPDU_MAX_FRAME_SIZE"
      using length_data_frames(1)[OF tpdu_size[of s "hd (todo s)"]] assms(3) by simp
    let ?d = "set_pri (queue_pri (?e\<lparr>lc_pSegments := Some s'\<rparr>) ?f, PLLS_ConfUserDataTransmitWait)"
    have d: "sess PLLS_ConfUserDataTransmitWait ?d" "lc_out ?d = lc_out ctx @ [RouterBeginTransmit TxPrimary ?f]"
      using sess_queue_pri[of "?e\<lparr>lc_pSegments := Some s'\<rparr>" ?f PLLS_ConfUserDataTransmitWait, OF _ _ _ _ _ _ _ size]
        assms(1) e(1,5) by (simp_all add: sess_def waits_defs) (simp_all add: retried_def)
    have "LinkLayer_step vt ctx ResponseTimerFires = Some ?d"
      using False s'(3) d(1) TryStart_busy[of ?d]
      by (simp add: event PLLS_ConfDataWait_OnTimeout_def Retry_cases[of ?c] sess_def)
    then show ?thesis using d s' e False
      by (intro that[of ?d]) (simp_all add: set_pri_def retried_def)
  qed
qed

lemma reset_timeout:
  assumes "sess PLLS_ResetLinkWait ctx" "lc_pSegments ctx = Some s" "seg_ok s"
  obtains c where "LinkLayer_step vt ctx ResponseTimerFires = Some c" "same_link c ctx"
    "lc_numRetryRemaining ctx = 0 \<longrightarrow> ready c \<and> lc_out c = lc_out ctx @ [PostSendResult False]"
    "lc_numRetryRemaining ctx > 0 \<longrightarrow> sess PLLS_LinkResetTransmitWait c
       \<and> lc_numRetryRemaining c = lc_numRetryRemaining ctx - 1 \<and> lc_pSegments c = Some s
       \<and> lc_out c = lc_out ctx @ [RouterBeginTransmit TxPrimary (ctl_frame (lc_config ctx) PRI_RESET_LINK_STATES)]"
proof -
  let ?c = "ctx\<lparr>lc_rspTimeoutTimer := None\<rparr>"
  have timer: "lc_rspTimeoutTimer ctx \<noteq> None" using assms(1) by (simp add: sess_def waits_defs)
  have event: "LinkLayer_step vt ctx ResponseTimerFires = do {
      ctx \<leftarrow> map_option set_pri (PLLS_ResetLinkWait_OnTimeout ?c); TryStartTransmission vt ctx }"
    using assms(1) timer by (simp add: LinkLayer_step_def OnResponseTimeout_def PriState_OnTimeout_def sess_def)
  show ?thesis
  proof (cases "lc_numRetryRemaining ctx = 0")
    case True
    let ?d = "set_pri (CompleteSendOperation ?c False, PLLS_Idle)"
    have d: "ready ?d" "lc_out ?d = lc_out ctx @ [PostSendResult False]" "same_link ?d ctx"
      using assms(1) by (simp_all add: ready_def sess_def set_pri_def CompleteSendOperation_def emit_def wired_def waits_defs)
    have "LinkLayer_step vt ctx ResponseTimerFires = Some ?d"
      using True d(1) TryStart_busy[of ?d]
      by (simp add: event PLLS_ResetLinkWait_OnTimeout_def Retry_def ready_def sess_def)
    with d True show ?thesis by (intro that[of ?d]) simp_all
  next
    case False
    let ?e = "retried ?c"
    have e: "wired ?e" "lc_pSegments ?e = Some s" "lc_config ?e = lc_config ctx"
      "lc_out ?e = lc_out ctx" "lc_isRemoteReset ?e = lc_isRemoteReset ctx"
      using assms(1,2) by (simp_all add: retried_def sess_def wired_def)
    let ?f = "ctl_frame (lc_config ctx) PRI_RESET_LINK_STATES"
    let ?d = "set_pri (queue_pri ?e ?f, PLLS_LinkResetTransmitWait)"
    have d: "sess PLLS_LinkResetTransmitWait ?d" "lc_out ?d = lc_out ctx @ [RouterBeginTransmit TxPrimary ?f]"
      using sess_queue_pri[of ?e ?f PLLS_LinkResetTransmitWait] assms(1) e(1,4)
      by (simp_all add: sess_def waits_defs lpdu_consts) (simp_all add: retried_def)
    have "LinkLayer_step vt ctx ResponseTimerFires = Some ?d"
      using False d(1) TryStart_busy[of ?d] queue_control(3)[OF e(1)] e(3)
      by (simp add: event PLLS_ResetLinkWait_OnTimeout_def Retry_cases[of ?c] sess_def)
    then show ?thesis using d e False
      by (intro that[of ?d]) (simp_all add: set_pri_def retried_def)
  qed
qed

lemma silent_data:
  "sess PLLS_ConfUserDataTransmitWait ctx \<Longrightarrow> lc_pSegments ctx = Some s \<Longrightarrow> seg_ok s \<Longrightarrow> lc_numRetryRemaining ctx = n \<Longrightarrow>
     \<exists>c. LinkLayer_run vt ctx (silence (Suc n)) = Some c \<and> ready c \<and> same_link c ctx
       \<and> lc_nextWriteFCB c = lc_nextWriteFCB ctx
       \<and> lc_out c = lc_out ctx @ replicate n (RouterBeginTransmit TxPrimary
             (conf_frame (lc_config ctx) (lc_nextWriteFCB ctx) (hd (todo s)))) @ [PostStatus UNRESET, PostSendResult False]"
proof (induction n arbitrary: ctx s)
  case 0
  obtain c where c: "LinkLayer_step vt ctx (TransmitResult True) = Some c" "sess PLLS_ConfDataWait c" "same_link c ctx"
    "lc_out c = lc_out ctx" "lc_pSegments c = lc_pSegments ctx" "lc_nextWriteFCB c = lc_nextWriteFCB ctx"
    "lc_numRetryRemaining c = lc_numRetryRemaining ctx"
    using transmitted[OF "0.prems"(1), of PLLS_ConfDataWait] by auto
  have seg: "lc_pSegments c = Some s" using c(5) "0.prems"(2) by simp
  obtain d where d: "LinkLayer_step vt c ResponseTimerFires = Some d" "same_link d c" "lc_nextWriteFCB d = lc_nextWriteFCB c"
    "lc_numRetryRemaining c = 0 \<longrightarrow> ready d \<and> lc_out d = lc_out c @ [PostStatus UNRESET, PostSendResult False]"
    by (rule data_timeout[OF c(2) seg "0.prems"(3)])
  have end_d: "ready d" "lc_out d = lc_out c @ [PostStatus UNRESET, PostSendResult False]"
    using d(4) c(7) "0.prems"(4) by simp_all
  have run: "LinkLayer_run vt ctx (silence (Suc 0)) = Some d" using c(1) d(1) by (simp add: silence_def)
  show ?case unfolding run using end_d d(2,3) c(3,4,6) by simp
next
  case (Suc n)
  obtain c where c: "LinkLayer_step vt ctx (TransmitResult True) = Some c" "sess PLLS_ConfDataWait c" "same_link c ctx"
    "lc_out c = lc_out ctx" "lc_pSegments c = lc_pSegments ctx" "lc_nextWriteFCB c = lc_nextWriteFCB ctx"
    "lc_numRetryRemaining c = lc_numRetryRemaining ctx"
    using transmitted[OF Suc.prems(1), of PLLS_ConfDataWait] by auto
  have seg: "lc_pSegments c = Some s" using c(5) Suc.prems(2) by simp
  obtain d where d: "LinkLayer_step vt c ResponseTimerFires = Some d" "same_link d c" "lc_nextWriteFCB d = lc_nextWriteFCB c"
    "lc_numRetryRemaining c > 0 \<longrightarrow> sess PLLS_ConfUserDataTransmitWait d
       \<and> lc_numRetryRemaining d = lc_numRetryRemaining c - 1
       \<and> (\<exists>s'. lc_pSegments d = Some s' \<and> seg_ok s' \<and> todo s' = todo s)
       \<and> lc_out d = lc_out c @ [RouterBeginTransmit TxPrimary (conf_frame (lc_config c) (lc_nextWriteFCB c) (hd (todo s)))]"
    by (rule data_timeout[OF c(2) seg Suc.prems(3)])
  with c(7) Suc.prems(4) obtain s' where s': "sess PLLS_ConfUserDataTransmitWait d" "lc_numRetryRemaining d = n"
    "lc_pSegments d = Some s'" "seg_ok s'" "todo s' = todo s"
    "lc_out d = lc_out c @ [RouterBeginTransmit TxPrimary (conf_frame (lc_config c) (lc_nextWriteFCB c) (hd (todo s)))]"
    by auto
  from Suc.IH[OF s'(1,3,4,2)] obtain e where e: "LinkLayer_run vt d (silence (Suc n)) = Some e" "ready e" "same_link e d"
    "lc_nextWriteFCB e = lc_nextWriteFCB d"
    "lc_out e = lc_out d @ replicate n (RouterBeginTransmit TxPrimary
       (conf_frame (lc_config d) (lc_nextWriteFCB d) (hd (todo s')))) @ [PostStatus UNRESET, PostSendResult False]" by blast
  have "LinkLayer_run vt ctx (silence (Suc (Suc n))) = Some e"
    using c(1) d(1) e(1) by (simp add: silence_def)
  with e(2-5) d(2,3) c(3,4,6) s'(5,6) show ?case by simp
qed

lemma silent_reset:
  "sess PLLS_LinkResetTransmitWait ctx \<Longrightarrow> lc_pSegments ctx = Some s \<Longrightarrow> seg_ok s \<Longrightarrow> lc_numRetryRemaining ctx = n \<Longrightarrow>
     \<exists>c. LinkLayer_run vt ctx (silence (Suc n)) = Some c \<and> ready c \<and> same_link c ctx
       \<and> lc_out c = lc_out ctx @ replicate n (RouterBeginTransmit TxPrimary
             (ctl_frame (lc_config ctx) PRI_RESET_LINK_STATES)) @ [PostSendResult False]"
proof (induction n arbitrary: ctx s)
  case 0
  obtain c where c: "LinkLayer_step vt ctx (TransmitResult True) = Some c" "sess PLLS_ResetLinkWait c" "same_link c ctx"
    "lc_out c = lc_out ctx" "lc_pSegments c = lc_pSegments ctx" "lc_numRetryRemaining c = lc_numRetryRemaining ctx"
    using transmitted[OF "0.prems"(1), of PLLS_ResetLinkWait] by auto
  have seg: "lc_pSegments c = Some s" using c(5) "0.prems"(2) by simp
  obtain d where d: "LinkLayer_step vt c ResponseTimerFires = Some d" "same_link d c"
    "lc_numRetryRemaining c = 0 \<longrightarrow> ready d \<and> lc_out d = lc_out c @ [PostSendResult False]"
    by (rule reset_timeout[OF c(2) seg "0.prems"(3)])
  have end_d: "ready d" "lc_out d = lc_out c @ [PostSendResult False]"
    using d(3) c(6) "0.prems"(4) by simp_all
  have run: "LinkLayer_run vt ctx (silence (Suc 0)) = Some d" using c(1) d(1) by (simp add: silence_def)
  show ?case unfolding run using end_d d(2) c(3,4) by simp
next
  case (Suc n)
  obtain c where c: "LinkLayer_step vt ctx (TransmitResult True) = Some c" "sess PLLS_ResetLinkWait c" "same_link c ctx"
    "lc_out c = lc_out ctx" "lc_pSegments c = lc_pSegments ctx" "lc_numRetryRemaining c = lc_numRetryRemaining ctx"
    using transmitted[OF Suc.prems(1), of PLLS_ResetLinkWait] by auto
  have seg: "lc_pSegments c = Some s" using c(5) Suc.prems(2) by simp
  obtain d where d: "LinkLayer_step vt c ResponseTimerFires = Some d" "same_link d c"
    "lc_numRetryRemaining c > 0 \<longrightarrow> sess PLLS_LinkResetTransmitWait d
       \<and> lc_numRetryRemaining d = lc_numRetryRemaining c - 1 \<and> lc_pSegments d = Some s
       \<and> lc_out d = lc_out c @ [RouterBeginTransmit TxPrimary (ctl_frame (lc_config c) PRI_RESET_LINK_STATES)]"
    by (rule reset_timeout[OF c(2) seg Suc.prems(3)])
  with c(6) Suc.prems(4) have s': "sess PLLS_LinkResetTransmitWait d" "lc_numRetryRemaining d = n"
    "lc_pSegments d = Some s"
    "lc_out d = lc_out c @ [RouterBeginTransmit TxPrimary (ctl_frame (lc_config c) PRI_RESET_LINK_STATES)]"
    by auto
  from Suc.IH[OF s'(1,3) Suc.prems(3) s'(2)] obtain e where e: "LinkLayer_run vt d (silence (Suc n)) = Some e" "ready e"
    "same_link e d" "lc_out e = lc_out d @ replicate n (RouterBeginTransmit TxPrimary
       (ctl_frame (lc_config d) PRI_RESET_LINK_STATES)) @ [PostSendResult False]" by blast
  have "LinkLayer_run vt ctx (silence (Suc (Suc n))) = Some e"
    using c(1) d(1) e(1) by (simp add: silence_def)
  with e(2-4) d(2) c(3,4) s'(4) show ?case by simp
qed

lemma silent_send:
  assumes "ready ctx" "seg_ok s" "cfg_UseConfirms (lc_config ctx)"
  shows "\<exists>c. LinkLayer_run vt ctx (Send s # silence (Suc (cfg_NumRetry (lc_config ctx)))) = Some c \<and> ready c
    \<and> same_link c ctx
    \<and> lc_out c = lc_out ctx @ replicate (Suc (cfg_NumRetry (lc_config ctx))) (RouterBeginTransmit TxPrimary
        (if lc_isRemoteReset ctx then conf_frame (lc_config ctx) (lc_nextWriteFCB ctx) (hd (todo s))
         else ctl_frame (lc_config ctx) PRI_RESET_LINK_STATES))
      @ (if lc_isRemoteReset ctx then [PostStatus UNRESET] else []) @ [PostSendResult False]"
proof (cases "lc_isRemoteReset ctx")
  case True
  obtain c s' where c: "LinkLayer_step vt ctx (Send s) = Some c" "sess PLLS_ConfUserDataTransmitWait c"
    "lc_pSegments c = Some s'" "seg_ok s'" "todo s' = todo s" "same_link c ctx"
    "lc_nextWriteFCB c = lc_nextWriteFCB ctx" "lc_numRetryRemaining c = cfg_NumRetry (lc_config ctx)"
    "lc_out c = lc_out ctx @ [RouterBeginTransmit TxPrimary (conf_frame (lc_config ctx) (lc_nextWriteFCB ctx) (hd (todo s)))]"
    by (rule Send_first_confirmed[OF assms True])
  from silent_data[OF c(2,3,4,8)] obtain d where
    "LinkLayer_run vt c (silence (Suc (cfg_NumRetry (lc_config ctx)))) = Some d" "ready d" "same_link d c"
    "lc_out d = lc_out c @ replicate (cfg_NumRetry (lc_config ctx)) (RouterBeginTransmit TxPrimary
       (conf_frame (lc_config c) (lc_nextWriteFCB c) (hd (todo s')))) @ [PostStatus UNRESET, PostSendResult False]"
    by blast
  with c(1,5,6,7,9) True show ?thesis by simp
next
  case False
  obtain c where c: "LinkLayer_step vt ctx (Send s) = Some c" "sess PLLS_LinkResetTransmitWait c"
    "lc_pSegments c = Some s" "same_link c ctx" "lc_numRetryRemaining c = cfg_NumRetry (lc_config ctx)"
    "lc_out c = lc_out ctx @ [RouterBeginTransmit TxPrimary (ctl_frame (lc_config ctx) PRI_RESET_LINK_STATES)]"
    by (rule Send_first_reset[OF assms False])
  from silent_reset[OF c(2,3) assms(2) c(5)] obtain d where
    "LinkLayer_run vt c (silence (Suc (cfg_NumRetry (lc_config ctx)))) = Some d" "ready d" "same_link d c"
    "lc_out d = lc_out c @ replicate (cfg_NumRetry (lc_config ctx)) (RouterBeginTransmit TxPrimary
       (ctl_frame (lc_config c) PRI_RESET_LINK_STATES)) @ [PostSendResult False]" by blast
  with c(1,4,6) False show ?thesis by simp
qed

end

section \<open>The secondary station\<close>

text \<open>A confirmed user data frame arriving while the secondary has nothing in flight.\<close>

lemma confirmed_data:
  assumes "ready ctx" "lc_pSecState ctx = SLLS_Reset" "from_remote (lc_config ctx) h"
    and "f_func h = PRI_CONFIRMED_USER_DATA"
  obtains c where "LinkLayer_run vt ctx [Frame now h data None, TransmitResult b] = Some c" "ready c"
    "lc_pSecState c = SLLS_Reset" "lc_config c = lc_config ctx" "lc_nextReadFCB c = (\<not> f_fcb h)"
    "lc_out c = lc_out ctx @ [RouterBeginTransmit TxSecondary (ctl_frame (lc_config ctx) SEC_ACK)]
       @ (if f_fcb h = lc_nextReadFCB ctx then [UpperReceive data] else [])"
proof -
  let ?c = "ctx\<lparr>lc_lastMessageTimestamp := now\<rparr>"
  let ?f = "ctl_frame (lc_config ctx) SEC_ACK"
  let ?new = "f_fcb h = lc_nextReadFCB ctx"
  let ?buf = "overwrite (lc_secTxBuffer ctx) 0 ?f"
  define c1 where "c1 = ?c\<lparr>lc_secTxBuffer := ?buf, lc_txMode := TxSecondary,
      lc_nextReadFCB := (\<not> f_fcb h),
      lc_out := lc_out ctx @ RouterBeginTransmit TxSecondary ?f # (if ?new then [UpperReceive data] else []),
      lc_pSecState := SLLS_TransmitWaitReset\<rparr>"
  have wired: "wired ?c" and idle: "lc_txMode ctx = TxIdle"
    using assms(1) by (simp_all add: ready_def sess_def wired_def waits_defs)
  have ack: "QueueAck ?c = Some (?c\<lparr>lc_secTxBuffer := ?buf, lc_txMode := TxSecondary,
      lc_out := lc_out ctx @ [RouterBeginTransmit TxSecondary ?f]\<rparr>)"
    using queue_control(1)[OF wired] idle by (simp add: queue_sec_def)
  have sec: "SecState_OnConfirmedUserData vt None ?c (f_fcb h) data = Some c1"
    using assms(2) ack
    by (cases ?new) (simp_all add: SecState_OnConfirmedUserData_def SLLS_Reset_OnConfirmedUserData_def c1_def
        PushDataUp_def ToggleReadFCB_def emit_def set_sec_def)
  have busy: "TryStartTransmission vt x = Some x"
    if "\<not> lc_keepAliveTimeout x" "lc_pSegments x = None" for x
    using that by (simp add: TryStartTransmission_def)
  have step1: "LinkLayer_step vt ctx (Frame now h data None) = Some c1"
    using assms sec busy[of c1]
    by (simp add: LinkLayer_step_def LinkLayer_OnFrame_def LinkContext_OnFrame_def Validate_from_remote ready_def
        sess_def c1_def)
  let ?d = "c1\<lparr>lc_txMode := TxIdle, lc_pSecState := SLLS_Reset\<rparr>"
  have step2: "LinkLayer_step vt c1 (TransmitResult b) = Some ?d"
    using assms(1) busy[of ?d]
    by (simp add: LinkLayer_step_def LinkLayer_OnTransmitResult_def LinkContext_OnTransmitResult_def Let_def
        TryPendingSecTx_def TryPendingPriTx_def ready_def sess_def c1_def SecState_OnTransmitResult_def set_sec_def)
  have "ready ?d"
    using assms(1) by (simp add: ready_def sess_def c1_def wired_def length_overwrite lpdu_consts waits_defs)
  with step1 step2 show ?thesis
    by (intro that[of ?d]) (simp_all add: c1_def)
qed

section \<open>A queued frame is not overwritten\<close>

text \<open>Operations of the primary leave the secondary's buffer alone.\<close>

lemma QueueTransmit_buffers:
  "QueueTransmit ctx n p = Some c \<Longrightarrow> lc_secTxBuffer c = lc_secTxBuffer ctx \<and> lc_priTxBuffer c = lc_priTxBuffer ctx"
  by (auto simp: QueueTransmit_def router_transmit_def emit_def split: if_splits)

lemma pri_queue_sec_buffer:
  "QueueConfirmedSegment vt ctx = Some c \<Longrightarrow> lc_secTxBuffer c = lc_secTxBuffer ctx"
  "QueueUnconfirmedSegment vt ctx = Some c \<Longrightarrow> lc_secTxBuffer c = lc_secTxBuffer ctx"
  "QueueResetLinks ctx = Some c \<Longrightarrow> lc_secTxBuffer c = lc_secTxBuffer ctx"
  "QueueRequestLinkStatus ctx = Some c \<Longrightarrow> lc_secTxBuffer c = lc_secTxBuffer ctx"
  by (auto simp: QueueConfirmedSegment_def QueueUnconfirmedSegment_def QueueResetLinks_def QueueRequestLinkStatus_def
      GetSegment_of_def FormatPrimaryBufferWithConfirmed_def FormatPrimaryBufferWithUnconfirmed_def put_pri_def Let_def
      dest!: QueueTransmit_buffers split: Option.bind_splits option.splits prod.splits)

lemma Advance_of_buffer: "Advance_of vt ctx = Some (c, b) \<Longrightarrow> lc_secTxBuffer c = lc_secTxBuffer ctx"
  by (auto simp: Advance_of_def split: option.splits prod.splits)

lemma helper_buffers [simp]:
  "lc_secTxBuffer (ResetRetry ctx) = lc_secTxBuffer ctx" "lc_secTxBuffer (CancelTimer ctx) = lc_secTxBuffer ctx"
  "lc_secTxBuffer (ResetWriteFCB ctx) = lc_secTxBuffer ctx" "lc_secTxBuffer (ToggleWriteFCB ctx) = lc_secTxBuffer ctx"
  "lc_secTxBuffer (fst (Retry ctx)) = lc_secTxBuffer ctx" "lc_secTxBuffer (emit a ctx) = lc_secTxBuffer ctx"
  "lc_secTxBuffer (PostStatusCallback st ctx) = lc_secTxBuffer ctx"
  "lc_secTxBuffer (CompleteSendOperation ctx b) = lc_secTxBuffer ctx"
  "lc_secTxBuffer (FailKeepAlive ctx b) = lc_secTxBuffer ctx" "lc_secTxBuffer (CompleteKeepAlive ctx) = lc_secTxBuffer ctx"
  "lc_secTxBuffer (StartResponseTimer ctx) = lc_secTxBuffer ctx"
  "lc_secTxBuffer (StartKeepAliveTimer ctx) = lc_secTxBuffer ctx"
  "lc_secTxBuffer (set_pri (ctx, S)) = lc_secTxBuffer ctx" "lc_secTxBuffer (set_sec (ctx, S')) = lc_secTxBuffer ctx"
  "lc_secTxBuffer (retried ctx) = lc_secTxBuffer ctx"
  "lc_secTxBuffer (ToggleReadFCB ctx) = lc_secTxBuffer ctx"
  by (simp_all add: ResetRetry_def CancelTimer_def ResetWriteFCB_def ToggleWriteFCB_def Retry_def emit_def
      PostStatusCallback_def CompleteSendOperation_def FailKeepAlive_def CompleteKeepAlive_def StartResponseTimer_def
      StartKeepAliveTimer_def set_pri_def set_sec_def retried_def ToggleReadFCB_def)

lemma TryStart_sec_buffer:
  "TryStartTransmission vt ctx = Some c \<Longrightarrow> lc_secTxBuffer c = lc_secTxBuffer ctx"
  by (auto simp: TryStartTransmission_def PriState_TrySendRequestLinkStatus_def PriState_TrySendConfirmed_def
      PriState_TrySendUnconfirmed_def PLLS_Idle_TrySendConfirmed_def PLLS_Idle_TrySendUnconfirmed_def
      PLLS_Idle_TrySendRequestLinkStatus_def dest!: pri_queue_sec_buffer
      split: Option.bind_splits if_splits)

lemma pri_events_sec_buffer:
  "PriState_OnAck vt ctx = Some c \<Longrightarrow> lc_secTxBuffer c = lc_secTxBuffer ctx"
  "PriState_OnNack ctx full = Some c \<Longrightarrow> lc_secTxBuffer c = lc_secTxBuffer ctx"
  "PriState_OnTimeout vt ctx = Some c \<Longrightarrow> lc_secTxBuffer c = lc_secTxBuffer ctx"
  "PriState_OnTransmitResult vt ctx b = Some c \<Longrightarrow> lc_secTxBuffer c = lc_secTxBuffer ctx"
proof -
  show "lc_secTxBuffer c = lc_secTxBuffer ctx" if "PriState_OnAck vt ctx = Some c"
    using that by (cases "lc_pPriState ctx")
      (auto simp: PriState_OnAck_def PLLS_ResetLinkWait_OnAck_def PLLS_ConfDataWait_OnAck_def
        dest!: pri_queue_sec_buffer Advance_of_buffer split: Option.bind_splits if_splits)
  show "lc_secTxBuffer c = lc_secTxBuffer ctx" if "PriState_OnNack ctx full = Some c"
    using that by (cases "lc_pPriState ctx")
      (auto simp: PriState_OnNack_def PLLS_ConfDataWait_OnNack_def PLLS_Failure_def Let_def
        PLLS_RequestLinkStatusWait_OnNack_def dest!: pri_queue_sec_buffer split: Option.bind_splits if_splits)
  show "lc_secTxBuffer c = lc_secTxBuffer ctx" if "PriState_OnTimeout vt ctx = Some c"
    using that by (cases "lc_pPriState ctx"; cases "lc_numRetryRemaining ctx > 0")
      (auto simp: PriState_OnTimeout_def PLLS_ResetLinkWait_OnTimeout_def PLLS_ConfDataWait_OnTimeout_def
        PLLS_RequestLinkStatusWait_OnTimeout_def Retry_cases dest!: pri_queue_sec_buffer split: Option.bind_splits)
  show "lc_secTxBuffer c = lc_secTxBuffer ctx" if "PriState_OnTransmitResult vt ctx b = Some c"
    using that by (cases "lc_pPriState ctx")
      (auto simp: PriState_OnTransmitResult_def PLLS_SendUnconfirmedTransmitWait_OnTransmitResult_def
        PLLS_LinkResetTransmitWait_OnTransmitResult_def PLLS_ConfUserDataTransmitWait_OnTransmitResult_def
        PLLS_RequestLinkStatusTransmitWait_OnTransmitResult_def
        dest!: pri_queue_sec_buffer Advance_of_buffer split: Option.bind_splits if_splits)
qed

lemma pri_status_sec_buffer [simp]:
  "lc_secTxBuffer (PriState_OnLinkStatus ctx) = lc_secTxBuffer ctx"
  "lc_secTxBuffer (PriState_OnNotSupported ctx) = lc_secTxBuffer ctx"
  by (cases "lc_pPriState ctx"; simp add: PriState_OnLinkStatus_def PriState_OnNotSupported_def PLLS_Failure_def
      PLLS_RequestLinkStatusWait_OnLinkStatus_def PLLS_RequestLinkStatusWait_OnNotSupported_def)+

lemma PushDataUp_sec_buffer:
  "PushDataUp vt reply ctx data = Some c \<Longrightarrow> lc_secTxBuffer c = lc_secTxBuffer ctx"
  by (auto simp: PushDataUp_def LinkLayer_Send_def SetTxSegment_def Let_def dest!: TryStart_sec_buffer
      split: option.splits if_splits)

lemma sec_waiting_ignores:
  assumes "sec_waits_tx (lc_pSecState ctx)"
  shows "SecState_OnTestLinkStatus ctx fcb = Some ctx" "SecState_OnResetLinkStates ctx = Some ctx"
    "SecState_OnRequestLinkStatus ctx = Some ctx" "SecState_OnConfirmedUserData vt reply ctx fcb data = Some ctx"
  using assms by (auto simp: sec_waits_tx_def SecState_OnTestLinkStatus_def SecState_OnResetLinkStates_def
      SecState_OnRequestLinkStatus_def SecState_OnConfirmedUserData_def)

lemma pending_buffers:
  "TryPendingSecTx ctx = Some c \<Longrightarrow> lc_secTxBuffer c = lc_secTxBuffer ctx \<and> lc_priTxBuffer c = lc_priTxBuffer ctx
     \<and> lc_pPriState c = lc_pPriState ctx \<and> lc_pSecState c = lc_pSecState ctx \<and> lc_keepAliveTimeout c = lc_keepAliveTimeout ctx"
  "TryPendingPriTx ctx = Some c \<Longrightarrow> lc_secTxBuffer c = lc_secTxBuffer ctx \<and> lc_priTxBuffer c = lc_priTxBuffer ctx
     \<and> lc_pPriState c = lc_pPriState ctx \<and> lc_pSecState c = lc_pSecState ctx \<and> lc_keepAliveTimeout c = lc_keepAliveTimeout ctx"
  by (auto simp: TryPendingSecTx_def TryPendingPriTx_def router_transmit_def emit_def
      split: LinkTransmitMode.splits option.splits if_splits)

lemma sec_buffer_kept:
  assumes "LinkLayer_step vt ctx e = Some ctx'" "sec_waits_tx (lc_pSecState ctx)"
    and "\<And>b. e = TransmitResult b \<Longrightarrow> lc_txMode ctx \<noteq> TxSecondary"
  shows "lc_secTxBuffer ctx' = lc_secTxBuffer ctx"
proof (cases e)
  case (LowerLayerUp now)
  with assms(1) show ?thesis
    by (auto simp: LinkLayer_step_def LinkContext_OnLowerLayerUp_def Let_def)
next
  case LowerLayerDown
  with assms(1) show ?thesis by (auto simp: LinkLayer_step_def LinkContext_OnLowerLayerDown_def Let_def)
next
  case (Send s)
  with assms(1) show ?thesis
    by (auto simp: LinkLayer_step_def LinkLayer_Send_def SetTxSegment_def dest!: TryStart_sec_buffer
        split: if_splits option.splits)
next
  case (TransmitResult b)
  show ?thesis
  proof (cases "lc_txMode ctx = TxPrimary")
    case True
    with TransmitResult assms(1) show ?thesis
      by (auto simp: LinkLayer_step_def LinkLayer_OnTransmitResult_def LinkContext_OnTransmitResult_def Let_def
          dest!: TryStart_sec_buffer pending_buffers pri_events_sec_buffer split: Option.bind_splits)
  next
    case False
    with assms(3)[OF TransmitResult] have "lc_txMode ctx = TxIdle" by (cases "lc_txMode ctx") auto
    with TransmitResult assms(1) show ?thesis
      by (simp add: LinkLayer_step_def LinkLayer_OnTransmitResult_def LinkContext_OnTransmitResult_def)
  qed
next
  case (Frame now h data reply)
  then obtain c ret where c: "LinkContext_OnFrame vt reply ctx now h data = Some (c, ret)"
    and rest: "(if ret then TryStartTransmission vt c else Some c) = Some ctx'"
    using assms(1) by (auto simp: LinkLayer_step_def LinkLayer_OnFrame_def split: Option.bind_splits)
  have "lc_secTxBuffer c = lc_secTxBuffer ctx"
    using c sec_waiting_ignores[of "ctx\<lparr>lc_lastMessageTimestamp := now\<rparr>"] assms(2)
    by (cases "f_func h") (auto simp: LinkContext_OnFrame_def Let_def split: if_splits
        dest!: pri_events_sec_buffer PushDataUp_sec_buffer)
  with rest show ?thesis by (auto dest!: TryStart_sec_buffer split: if_splits)
next
  case ResponseTimerFires
  with assms(1) show ?thesis
    by (auto simp: LinkLayer_step_def OnResponseTimeout_def dest!: TryStart_sec_buffer pri_events_sec_buffer
        split: Option.bind_splits if_splits)
next
  case (KeepAliveTimerFires now)
  with assms(1) show ?thesis
    by (auto simp: LinkLayer_step_def OnKeepAliveTimeout_def Let_def dest!: TryStart_sec_buffer split: if_splits)
qed

text \<open>While the primary waits for a transmission, its other operations do nothing.\<close>

lemma pri_waiting_ignores:
  assumes "pri_waits_tx (lc_pPriState ctx)"
  shows "PriState_OnAck vt ctx = Some ctx" "PriState_OnNack ctx full = Some ctx" "PriState_OnLinkStatus ctx = ctx"
    "PriState_OnNotSupported ctx = ctx" "PriState_OnTimeout vt ctx = Some ctx" "TryStartTransmission vt ctx = Some ctx"
  using assms by (auto simp: waits_defs PriState_OnAck_def PriState_OnNack_def PriState_OnLinkStatus_def
      PriState_OnNotSupported_def PriState_OnTimeout_def TryStartTransmission_def PriState_TrySendRequestLinkStatus_def
      PriState_TrySendConfirmed_def PriState_TrySendUnconfirmed_def)

lemma PushDataUp_waiting:
  assumes "pri_waits_tx (lc_pPriState ctx)" "PushDataUp vt reply ctx data = Some c"
  shows "lc_priTxBuffer c = lc_priTxBuffer ctx \<and> lc_pPriState c = lc_pPriState ctx"
proof (cases reply)
  case None
  with assms(2) show ?thesis by (auto simp: PushDataUp_def emit_def)
next
  case (Some s)
  have "LinkLayer_Send vt (emit (UpperReceive data) ctx) s = Some c" using assms(2) Some by (simp add: PushDataUp_def)
  then show ?thesis
    using assms(1) pri_waiting_ignores(6)[of "(emit (UpperReceive data) ctx)\<lparr>lc_pSegments := Some s\<rparr>" vt]
    by (auto simp: LinkLayer_Send_def SetTxSegment_def emit_def split: if_splits option.splits)
qed

lemma queue_sec_pri_buffer:
  "QueueAck ctx = Some c \<Longrightarrow> lc_priTxBuffer c = lc_priTxBuffer ctx \<and> lc_pPriState c = lc_pPriState ctx"
  "QueueLinkStatus ctx = Some c \<Longrightarrow> lc_priTxBuffer c = lc_priTxBuffer ctx \<and> lc_pPriState c = lc_pPriState ctx"
  by (auto simp: QueueAck_def QueueLinkStatus_def put_sec_def Let_def QueueTransmit_def router_transmit_def emit_def
      split: Option.bind_splits if_splits)

lemma sec_events_pri_buffer:
  "SecState_OnTestLinkStatus ctx fcb = Some c \<Longrightarrow> lc_priTxBuffer c = lc_priTxBuffer ctx \<and> lc_pPriState c = lc_pPriState ctx"
  "SecState_OnResetLinkStates ctx = Some c \<Longrightarrow> lc_priTxBuffer c = lc_priTxBuffer ctx \<and> lc_pPriState c = lc_pPriState ctx"
  "SecState_OnRequestLinkStatus ctx = Some c \<Longrightarrow> lc_priTxBuffer c = lc_priTxBuffer ctx \<and> lc_pPriState c = lc_pPriState ctx"
  by (cases "lc_pSecState ctx"; fastforce simp: SecState_OnTestLinkStatus_def SecState_OnResetLinkStates_def
      SecState_OnRequestLinkStatus_def SLLS_NotReset_OnResetLinkStates_def SLLS_NotReset_OnRequestLinkStatus_def
      SLLS_Reset_OnTestLinkStatus_def SLLS_Reset_OnResetLinkStates_def SLLS_Reset_OnRequestLinkStatus_def
      set_sec_def ResetReadFCB_def ToggleReadFCB_def dest!: queue_sec_pri_buffer
      split: Option.bind_splits if_splits)+

lemma sec_data_pri_buffer:
  assumes "pri_waits_tx (lc_pPriState ctx)" "SecState_OnConfirmedUserData vt reply ctx fcb data = Some c"
  shows "lc_priTxBuffer c = lc_priTxBuffer ctx \<and> lc_pPriState c = lc_pPriState ctx"
proof (cases "lc_pSecState ctx = SLLS_Reset")
  case False
  with assms(2) show ?thesis by (cases "lc_pSecState ctx") (simp_all add: SecState_OnConfirmedUserData_def)
next
  case True
  then obtain a d where a: "QueueAck ctx = Some a" and c: "c = set_sec (d, SLLS_TransmitWaitReset)"
    and d: "(if lc_nextReadFCB a = fcb then PushDataUp vt reply (ToggleReadFCB a) data else Some a) = Some d"
    using assms(2) by (auto simp: SecState_OnConfirmedUserData_def SLLS_Reset_OnConfirmedUserData_def
        split: Option.bind_splits)
  note ack = queue_sec_pri_buffer(1)[OF a]
  have "pri_waits_tx (lc_pPriState (ToggleReadFCB a))" using ack assms(1) by (simp add: ToggleReadFCB_def)
  from PushDataUp_waiting[OF this] d ack c show ?thesis
    by (auto simp: set_sec_def ToggleReadFCB_def split: if_splits)
qed

lemma pri_buffer_kept:
  assumes "LinkLayer_step vt ctx e = Some ctx'" "pri_waits_tx (lc_pPriState ctx)"
    and "\<And>b. e = TransmitResult b \<Longrightarrow> lc_txMode ctx \<noteq> TxPrimary"
  shows "lc_priTxBuffer ctx' = lc_priTxBuffer ctx"
proof (cases e)
  case (LowerLayerUp now)
  with assms(1) show ?thesis
    by (auto simp: LinkLayer_step_def LinkContext_OnLowerLayerUp_def Let_def emit_def PostStatusCallback_def
        StartKeepAliveTimer_def)
next
  case LowerLayerDown
  with assms(1) show ?thesis
    by (auto simp: LinkLayer_step_def LinkContext_OnLowerLayerDown_def Let_def emit_def PostStatusCallback_def)
next
  case (Send s)
  with assms(1,2) pri_waiting_ignores(6)[of "ctx\<lparr>lc_pSegments := Some s\<rparr>" vt] show ?thesis
    by (auto simp: LinkLayer_step_def LinkLayer_Send_def SetTxSegment_def split: if_splits option.splits)
next
  case (TransmitResult b)
  show ?thesis
  proof (cases "lc_txMode ctx = TxSecondary")
    case True
    then obtain c1 c2 where c: "TryPendingSecTx (ctx\<lparr>lc_txMode := TxIdle\<rparr>) = Some c1" "TryPendingPriTx c1 = Some c2"
      "TryStartTransmission vt (SecState_OnTransmitResult c2) = Some ctx'"
      using TransmitResult assms(1)
      by (auto simp: LinkLayer_step_def LinkLayer_OnTransmitResult_def LinkContext_OnTransmitResult_def Let_def
          split: Option.bind_splits)
    note kept = pending_buffers(1)[OF c(1)] pending_buffers(2)[OF c(2)]
    have sec: "lc_pPriState (SecState_OnTransmitResult c2) = lc_pPriState ctx"
      "lc_priTxBuffer (SecState_OnTransmitResult c2) = lc_priTxBuffer ctx"
      using kept by (cases "lc_pSecState c2"; simp add: SecState_OnTransmitResult_def set_sec_def)+
    with c(3) pri_waiting_ignores(6)[of "SecState_OnTransmitResult c2" vt] assms(2) show ?thesis by simp
  next
    case False
    with assms(3)[OF TransmitResult] have "lc_txMode ctx = TxIdle" by (cases "lc_txMode ctx") auto
    with TransmitResult assms(1) show ?thesis
      by (simp add: LinkLayer_step_def LinkLayer_OnTransmitResult_def LinkContext_OnTransmitResult_def)
  qed
next
  case (Frame now h data reply)
  then obtain c ret where c: "LinkContext_OnFrame vt reply ctx now h data = Some (c, ret)"
    and rest: "(if ret then TryStartTransmission vt c else Some c) = Some ctx'"
    using assms(1) by (auto simp: LinkLayer_step_def LinkLayer_OnFrame_def split: Option.bind_splits)
  let ?c = "ctx\<lparr>lc_lastMessageTimestamp := now\<rparr>"
  have waits: "pri_waits_tx (lc_pPriState ?c)" using assms(2) by simp
  have "lc_priTxBuffer c = lc_priTxBuffer ctx \<and> lc_pPriState c = lc_pPriState ctx"
    using c pri_waiting_ignores[OF waits]
    by (cases "f_func h") (auto simp: LinkContext_OnFrame_def Let_def split: if_splits
        dest!: sec_events_pri_buffer sec_data_pri_buffer[OF waits] PushDataUp_waiting[OF waits])
  with rest assms(2) pri_waiting_ignores(6)[of c vt] show ?thesis by (auto split: if_splits)
next
  case ResponseTimerFires
  with assms(1,2) pri_waiting_ignores(5,6)[of "ctx\<lparr>lc_rspTimeoutTimer := None\<rparr>" vt] show ?thesis
    by (auto simp: LinkLayer_step_def OnResponseTimeout_def split: if_splits)
next
  case (KeepAliveTimerFires now)
  show ?thesis
  proof (cases "lc_keepAliveTimer ctx")
    case None
    with KeepAliveTimerFires assms(1) show ?thesis by (simp add: LinkLayer_step_def)
  next
    case (Some d)
    let ?late = "cfg_KeepAliveTimeout (lc_config ctx) \<le> now - lc_lastMessageTimestamp ctx"
    let ?x = "StartKeepAliveTimer (if ?late then ctx\<lparr>lc_keepAliveTimer := None, lc_lastMessageTimestamp := now,
        lc_keepAliveTimeout := True\<rparr> else ctx\<lparr>lc_keepAliveTimer := None\<rparr>)"
    have x: "lc_pPriState ?x = lc_pPriState ctx" "lc_priTxBuffer ?x = lc_priTxBuffer ctx"
      by (simp_all add: StartKeepAliveTimer_def)
    have "TryStartTransmission vt ?x = Some ctx'"
      using KeepAliveTimerFires assms(1) Some by (auto simp: LinkLayer_step_def OnKeepAliveTimeout_def Let_def split: if_splits)
    with pri_waiting_ignores(6)[of ?x vt] x assms(2) show ?thesis by simp
  qed
qed

end
