(* ===== verification/Transport.thy ===== *)
theory Transport
  imports TransportSegment "HOL-Library.Sublist"
begin

text \<open>
  \<^verbatim>\<open>transport/\<close>: the segmenter \<^verbatim>\<open>TransportTx\<close>, the reassembler \<^verbatim>\<open>TransportRx\<close> and the layer
  \<^verbatim>\<open>TransportLayer\<close> that drives them, with \<^verbatim>\<open>openpal::SequenceNum\<close> at modulus 64.  A slice into a
  component's own buffer is kept as its size, so that what a reader sees is what the buffer holds
  when it reads; the APDU, which belongs to the layer above, is a byte list.  Calls to the other
  layers are the last thing each operation does and are returned as a list of actions.
\<close>

section \<open>Constants, sequence numbers and statistics\<close>

definition TL_HDR_FIN :: uint8 where "TL_HDR_FIN = 0x80"
definition TL_HDR_FIR :: uint8 where "TL_HDR_FIR = 0x40"
definition TL_HDR_SEQ :: uint8 where "TL_HDR_SEQ = 0x3F"
definition MAX_TPDU_LENGTH :: nat where "MAX_TPDU_LENGTH = 250"
definition MAX_TPDU_PAYLOAD :: nat where "MAX_TPDU_PAYLOAD = 249"

lemmas tl_consts = TL_HDR_FIN_def TL_HDR_FIR_def TL_HDR_SEQ_def MAX_TPDU_LENGTH_def MAX_TPDU_PAYLOAD_def

text \<open>\<^verbatim>\<open>SequenceNum<uint8_t, 64>::Next\<close>; the sum is computed in \<^verbatim>\<open>int\<close>.\<close>

definition TransportSeqNum_Next :: "uint8 \<Rightarrow> uint8" where
  "TransportSeqNum_Next s = word_of_nat ((unat s + 1) mod 64)"

record StackStatistics =
  numTransportRx :: uint32
  numTransportTx :: uint32
  numTransportErrorRx :: uint32

section \<open>TransportTx\<close>

record TransportTx =
  tx_apdu :: bytes
  tx_txSegment :: "nat option" \<comment> \<open>size of the slice at the start of the buffer, when set\<close>
  tx_tpduBuffer :: bytes
  tx_pStatistics :: "StackStatistics option"
  tx_sequence :: uint8
  tx_tpduCount :: uint32

definition TransportTx_make :: "StackStatistics option \<Rightarrow> TransportTx" where
  "TransportTx_make stats =
     \<lparr>tx_apdu = [], tx_txSegment = None, tx_tpduBuffer = replicate MAX_TPDU_LENGTH 0,
      tx_pStatistics = stats, tx_sequence = 0, tx_tpduCount = 0\<rparr>"

definition Configure :: "TransportTx \<Rightarrow> bytes \<Rightarrow> TransportTx option" where
  "Configure t output =
     (if output \<noteq> []
      then Some (t\<lparr>tx_txSegment := None, tx_apdu := output, tx_tpduCount := 0\<rparr>)
      else None)"

definition HasValue :: "TransportTx \<Rightarrow> bool" where
  "HasValue t = (length (tx_apdu t) > 0)"

definition GetHeader :: "bool \<Rightarrow> bool \<Rightarrow> uint8 \<Rightarrow> uint8" where
  "GetHeader fir fin sequence =
     (let hdr = 0;
          hdr = (if fir then hdr OR TL_HDR_FIR else hdr);
          hdr = (if fin then hdr OR TL_HDR_FIN else hdr)
      in hdr OR (TL_HDR_SEQ AND sequence))"

definition GetSegment :: "TransportTx \<Rightarrow> TransportTx \<times> bytes" where
  "GetSegment t =
     (case tx_txSegment t of
        Some n \<Rightarrow> (t, take n (tx_tpduBuffer t))
      | None \<Rightarrow>
          (let apdu = tx_apdu t;
               numToSend = (if length apdu < MAX_TPDU_PAYLOAD then length apdu else MAX_TPDU_PAYLOAD);
               buf = overwrite (tx_tpduBuffer t) 1 (take numToSend apdu);
               fir = (tx_tpduCount t = 0);
               fin = (numToSend = length apdu);
               buf = buf[0 := GetHeader fir fin (tx_sequence t)];
               t = t\<lparr>tx_tpduBuffer := buf,
                     tx_pStatistics := map_option (numTransportTx_update (\<lambda>n. n + 1)) (tx_pStatistics t),
                     tx_txSegment := Some (numToSend + 1)\<rparr>
           in (t, take (numToSend + 1) buf)))"

definition Advance :: "TransportTx \<Rightarrow> TransportTx \<times> bool" where
  "Advance t =
     (let numToSend = (if length (tx_apdu t) < MAX_TPDU_PAYLOAD then length (tx_apdu t) else MAX_TPDU_PAYLOAD);
          t = t\<lparr>tx_txSegment := None, tx_apdu := drop numToSend (tx_apdu t),
                tx_tpduCount := tx_tpduCount t + 1,
                tx_sequence := TransportSeqNum_Next (tx_sequence t)\<rparr>
      in (t, tx_apdu t \<noteq> []))"

section \<open>TransportRx\<close>

record TransportRx =
  rx_pStatistics :: "StackStatistics option"
  rx_rxBuffer :: bytes
  rx_numBytesRead :: nat
  rx_sequence :: uint8

definition TransportRx_make :: "nat \<Rightarrow> StackStatistics option \<Rightarrow> TransportRx" where
  "TransportRx_make maxRxFragSize stats =
     \<lparr>rx_pStatistics = stats, rx_rxBuffer = replicate maxRxFragSize 0, rx_numBytesRead = 0, rx_sequence = 0\<rparr>"

definition ClearRxBuffer :: "TransportRx \<Rightarrow> TransportRx" where
  "ClearRxBuffer r = r\<lparr>rx_numBytesRead := 0\<rparr>"

definition TransportRx_Reset :: "TransportRx \<Rightarrow> TransportRx" where
  "TransportRx_Reset r = ClearRxBuffer (r\<lparr>rx_sequence := 0\<rparr>)"

text \<open>\<^verbatim>\<open>GetAvailable\<close>: the size of the free part of the buffer, which starts at \<open>rx_numBytesRead\<close>.\<close>

definition GetAvailable :: "TransportRx \<Rightarrow> nat" where
  "GetAvailable r = length (rx_rxBuffer r) - rx_numBytesRead r"

definition ValidateHeader :: "TransportRx \<Rightarrow> bool \<Rightarrow> uint8 \<Rightarrow> TransportRx \<times> bool" where
  "ValidateHeader r fir seq =
     (if fir
      then (let r = r\<lparr>rx_sequence := seq\<rparr>
            in (if rx_numBytesRead r > 0 then r\<lparr>rx_numBytesRead := 0\<rparr> else r, True))
      else if rx_numBytesRead r = 0 then (r, False)
      else if seq \<noteq> rx_sequence r then (r, False)
      else (r, True))"

definition rx_count :: "((uint32 \<Rightarrow> uint32) \<Rightarrow> StackStatistics \<Rightarrow> StackStatistics) \<Rightarrow> TransportRx \<Rightarrow> TransportRx" where
  "rx_count upd r = r\<lparr>rx_pStatistics := map_option (upd (\<lambda>n. n + 1)) (rx_pStatistics r)\<rparr>"

text \<open>The empty list is the source's \<^verbatim>\<open>RSlice::Empty()\<close>: no fragment is complete.\<close>

definition ProcessReceive :: "TransportRx \<Rightarrow> bytes \<Rightarrow> TransportRx \<times> bytes" where
  "ProcessReceive r input =
     (case input of
        [] \<Rightarrow> (rx_count numTransportErrorRx_update r, [])
      | hdr # payload \<Rightarrow>
          (let first = (hdr AND TL_HDR_FIR \<noteq> 0);
               last = (hdr AND TL_HDR_FIN \<noteq> 0);
               seq = hdr AND TL_HDR_SEQ
           in case ValidateHeader r first seq of
                (r, False) \<Rightarrow> (rx_count numTransportErrorRx_update r, [])
              | (r, True) \<Rightarrow>
                  if length payload > GetAvailable r
                  then (ClearRxBuffer (rx_count numTransportErrorRx_update r), [])
                  else
                    (let r = rx_count numTransportRx_update r;
                         r = r\<lparr>rx_rxBuffer := overwrite (rx_rxBuffer r) (rx_numBytesRead r) payload,
                               rx_numBytesRead := rx_numBytesRead r + length payload,
                               rx_sequence := TransportSeqNum_Next (rx_sequence r)\<rparr>
                     in if last
                        then (ClearRxBuffer r, take (rx_numBytesRead r) (rx_rxBuffer r))
                        else (r, []))))"

section \<open>TransportLayer\<close>

text \<open>
  The two neighbours are only ever tested for being attached.  \<open>TlPostSendResult b\<close> is the lambda
  posted to the executor, which will call \<open>TransportLayer_OnSendResult b\<close>.
\<close>

datatype TransportAction =
    TlLinkSend
  | TlPostSendResult bool
  | TlUpperReceive bytes
  | TlUpperSendResult bool
  | TlUpperLowerLayerUp
  | TlUpperLowerLayerDown

record TransportLayer =
  tl_pUpperLayer :: bool
  tl_pLinkLayer :: bool
  tl_isOnline :: bool
  tl_isSending :: bool
  tl_receiver :: TransportRx
  tl_transmitter :: TransportTx

definition TransportLayer_make :: "nat \<Rightarrow> StackStatistics option \<Rightarrow> TransportLayer" where
  "TransportLayer_make maxRxFragSize stats =
     \<lparr>tl_pUpperLayer = False, tl_pLinkLayer = False, tl_isOnline = False, tl_isSending = False,
      tl_receiver = TransportRx_make maxRxFragSize stats, tl_transmitter = TransportTx_make stats\<rparr>"

definition BeginTransmit :: "TransportLayer \<Rightarrow> bytes \<Rightarrow> (TransportLayer \<times> TransportAction list) option" where
  "BeginTransmit l apdu =
     (if tl_isOnline l
      then if apdu = [] then Some (l, [TlPostSendResult False])
           else if tl_isSending l then Some (l, [])
           else
             (let l = l\<lparr>tl_isSending := True\<rparr>
              in if tl_pLinkLayer l
                 then map_option (\<lambda>t. (l\<lparr>tl_transmitter := t\<rparr>, [TlLinkSend])) (Configure (tl_transmitter l) apdu)
                 else Some (l, [TlPostSendResult False]))
      else Some (l, []))"

definition TransportLayer_OnReceive :: "TransportLayer \<Rightarrow> bytes \<Rightarrow> TransportLayer \<times> TransportAction list \<times> bool" where
  "TransportLayer_OnReceive l tpdu =
     (if tl_isOnline l
      then (let (r, apdu) = ProcessReceive (tl_receiver l) tpdu
            in (l\<lparr>tl_receiver := r\<rparr>, if apdu \<noteq> [] \<and> tl_pUpperLayer l then [TlUpperReceive apdu] else [], True))
      else (l, [], False))"

definition TransportLayer_OnSendResult :: "TransportLayer \<Rightarrow> bool \<Rightarrow> TransportLayer \<times> TransportAction list \<times> bool" where
  "TransportLayer_OnSendResult l isSuccess =
     (if \<not> tl_isOnline l then (l, [], False)
      else if \<not> tl_isSending l then (l, [], False)
      else (l\<lparr>tl_isSending := False\<rparr>, if tl_pUpperLayer l then [TlUpperSendResult isSuccess] else [], True))"

definition SetAppLayer :: "TransportLayer \<Rightarrow> TransportLayer option" where
  "SetAppLayer l = (if \<not> tl_pUpperLayer l then Some (l\<lparr>tl_pUpperLayer := True\<rparr>) else None)"

definition SetLinkLayer :: "TransportLayer \<Rightarrow> TransportLayer option" where
  "SetLinkLayer l = (if \<not> tl_pLinkLayer l then Some (l\<lparr>tl_pLinkLayer := True\<rparr>) else None)"

definition TransportLayer_OnLowerLayerUp :: "TransportLayer \<Rightarrow> TransportLayer \<times> TransportAction list \<times> bool" where
  "TransportLayer_OnLowerLayerUp l =
     (if tl_isOnline l then (l, [], False)
      else (l\<lparr>tl_isOnline := True\<rparr>, if tl_pUpperLayer l then [TlUpperLowerLayerUp] else [], True))"

definition TransportLayer_OnLowerLayerDown :: "TransportLayer \<Rightarrow> TransportLayer \<times> TransportAction list \<times> bool" where
  "TransportLayer_OnLowerLayerDown l =
     (if \<not> tl_isOnline l then (l, [], True)
      else (l\<lparr>tl_isOnline := False, tl_isSending := False, tl_receiver := TransportRx_Reset (tl_receiver l)\<rparr>,
            if tl_pUpperLayer l then [TlUpperLowerLayerDown] else [], True))"

section \<open>The header octet\<close>

lemma GetHeader_fields:
  "GetHeader fir fin s AND TL_HDR_FIR \<noteq> 0 \<longleftrightarrow> fir"
  "GetHeader fir fin s AND TL_HDR_FIN \<noteq> 0 \<longleftrightarrow> fin"
  "GetHeader fir fin s AND TL_HDR_SEQ = s AND TL_HDR_SEQ"
proof -
  define q where "q = TL_HDR_SEQ AND s"
  have q: "q AND 0x40 = 0" "q AND 0x80 = 0" "q AND 0x3F = s AND 0x3F"
  proof -
    have "q AND m = (0x3F AND m) AND s" for m by (simp add: q_def tl_consts ac_simps)
    then show "q AND 0x40 = 0" "q AND 0x80 = 0" "q AND 0x3F = s AND 0x3F"
      by (simp_all add: and.commute[of s])
  qed
  have "GetHeader fir fin s = (if fir then 0x40 else 0) OR (if fin then 0x80 else 0) OR q"
    by (cases fir; cases fin) (simp_all add: GetHeader_def tl_consts q_def flip: or.assoc)
  then show "GetHeader fir fin s AND TL_HDR_FIR \<noteq> 0 \<longleftrightarrow> fir"
    "GetHeader fir fin s AND TL_HDR_FIN \<noteq> 0 \<longleftrightarrow> fin"
    "GetHeader fir fin s AND TL_HDR_SEQ = s AND TL_HDR_SEQ"
    by (simp_all add: bit.conj_disj_distrib2 q TL_HDR_FIR_def TL_HDR_FIN_def TL_HDR_SEQ_def)
qed

lemma Next_seq: "TransportSeqNum_Next s AND TL_HDR_SEQ = TransportSeqNum_Next s"
proof -
  have "(word_of_nat n :: uint8) AND 0x3F = word_of_nat n" if "n < 64" for n
  proof -
    have "(0x3F :: uint8) = mask 6" by (simp add: mask_eq_exp_minus_1)
    then have "(word_of_nat n :: uint8) AND 0x3F = take_bit 6 (word_of_nat n)" by (simp add: take_bit_eq_mask)
    also have "\<dots> = word_of_nat n" using that by (simp add: take_bit_of_nat take_bit_nat_eq_self)
    finally show ?thesis .
  qed
  then show ?thesis by (simp add: TransportSeqNum_Next_def tl_consts)
qed

section \<open>The segments of an APDU\<close>

function tpdus :: "bool \<Rightarrow> uint8 \<Rightarrow> bytes \<Rightarrow> bytes list" where
  "tpdus fir seq apdu =
     (if apdu = [] then []
      else (GetHeader fir (length apdu \<le> 249) seq # take 249 apdu)
             # tpdus False (TransportSeqNum_Next seq) (drop 249 apdu))"
  by pat_completeness auto
termination by (relation "measure (\<lambda>(_, _, apdu). length apdu)") auto

declare tpdus.simps [simp del]

lemma tpdus_Nil [simp]: "tpdus fir seq [] = []" by (simp add: tpdus.simps)

lemma tpdus_ne: "apdu \<noteq> [] \<Longrightarrow> tpdus fir seq apdu =
   (GetHeader fir (length apdu \<le> 249) seq # take 249 apdu)
     # tpdus False (TransportSeqNum_Next seq) (drop 249 apdu)"
  by (simp add: tpdus.simps)

lemma tpdus_eq_Nil [simp]: "tpdus fir seq apdu = [] \<longleftrightarrow> apdu = []"
  by (simp add: tpdus.simps)

definition tx_todo :: "TransportTx \<Rightarrow> bytes list" where
  "tx_todo t = tpdus (tx_tpduCount t = 0) (tx_sequence t) (tx_apdu t)"

definition tx_inv :: "TransportTx \<Rightarrow> bool" where
  "tx_inv t \<longleftrightarrow> length (tx_tpduBuffer t) = 250 \<and> tx_sequence t AND TL_HDR_SEQ = tx_sequence t
     \<and> (\<forall>n. tx_txSegment t = Some n \<longrightarrow> tx_apdu t \<noteq> [] \<and> take n (tx_tpduBuffer t) = hd (tx_todo t))
     \<and> (tx_apdu t \<noteq> [] \<longrightarrow> unat (tx_tpduCount t) * 249 + length (tx_apdu t) < 2 ^ 32)"

lemma tx_inv_make: "tx_inv (TransportTx_make stats)"
  by (simp add: tx_inv_def TransportTx_make_def tl_consts)

lemma tx_inv_Configure:
  "tx_inv t \<Longrightarrow> length apdu < 2 ^ 32 \<Longrightarrow> Configure t apdu = Some t' \<Longrightarrow>
     tx_inv t' \<and> tx_todo t' = tpdus True (tx_sequence t) apdu"
  by (auto simp: Configure_def tx_inv_def tx_todo_def split: if_splits)

lemma GetSegment_todo:
  assumes "tx_inv t" "tx_todo t \<noteq> []" "GetSegment t = (t', seg)"
  shows "seg = hd (tx_todo t) \<and> tx_inv t' \<and> tx_todo t' = tx_todo t"
proof (cases "tx_txSegment t")
  case (Some n)
  with assms show ?thesis by (auto simp: GetSegment_def tx_inv_def)
next
  case None
  let ?apdu = "tx_apdu t" and ?n = "min 249 (length (tx_apdu t))"
  let ?h = "GetHeader (tx_tpduCount t = 0) (length ?apdu \<le> 249) (tx_sequence t)"
  let ?buf = "(overwrite (tx_tpduBuffer t) 1 (take ?n ?apdu))[0 := ?h]"
  have ne: "?apdu \<noteq> []" using assms(2) by (simp add: tx_todo_def)
  have len: "length (tx_tpduBuffer t) = 250" using assms(1) by (simp add: tx_inv_def)
  then obtain b bs where b: "tx_tpduBuffer t = b # bs" by (cases "tx_tpduBuffer t") auto
  have "?buf = ?h # overwrite bs 0 (take ?n ?apdu)"
    using b by (simp add: overwrite_def)
  then have slice: "take (?n + 1) ?buf = ?h # take 249 ?apdu"
    by (simp add: overwrite_0 min_def)
  have hd: "hd (tx_todo t) = ?h # take 249 ?apdu" using ne by (simp add: tx_todo_def tpdus_ne)
  have t': "tx_apdu t' = ?apdu" "tx_tpduCount t' = tx_tpduCount t" "tx_sequence t' = tx_sequence t"
    "tx_txSegment t' = Some (?n + 1)" "tx_tpduBuffer t' = ?buf" "seg = take (?n + 1) ?buf"
    using assms(3) None by (auto simp: GetSegment_def Let_def tl_consts min_def not_less not_le split: if_splits)
  have "length ?buf = 250" using len by (simp add: length_overwrite)
  with slice hd t' ne assms(1) show ?thesis by (simp add: tx_inv_def tx_todo_def)
qed

lemma Advance_todo:
  assumes "tx_inv t" "tx_todo t \<noteq> []" "Advance t = (t', again)"
  shows "tx_inv t' \<and> tx_todo t' = tl (tx_todo t) \<and> (again \<longleftrightarrow> tx_todo t' \<noteq> [])"
proof -
  let ?apdu = "tx_apdu t"
  have ne: "?apdu \<noteq> []" using assms(2) by (simp add: tx_todo_def)
  have t': "tx_apdu t' = drop 249 ?apdu" "tx_tpduCount t' = tx_tpduCount t + 1"
    "tx_sequence t' = TransportSeqNum_Next (tx_sequence t)" "tx_txSegment t' = None"
    "tx_tpduBuffer t' = tx_tpduBuffer t" "again \<longleftrightarrow> drop 249 ?apdu \<noteq> []"
    using assms(3) by (auto simp: Advance_def Let_def MAX_TPDU_PAYLOAD_def split: if_splits)
  have count: "unat (tx_tpduCount t + 1) = unat (tx_tpduCount t) + 1" if "249 < length ?apdu"
  proof -
    have "unat (tx_tpduCount t) + unat (1 :: uint32) < 2 ^ LENGTH(32)"
      using that assms(1) ne by (simp add: tx_inv_def)
    then have "unat (tx_tpduCount t + 1) = unat (tx_tpduCount t) + unat (1 :: uint32)"
      by (rule unat_add_lem[THEN iffD1])
    then show ?thesis by simp
  qed
  have "tx_tpduCount t + 1 \<noteq> 0" if "249 < length ?apdu"
    using count[OF that] by (auto simp: unat_eq_zero[symmetric])
  then show ?thesis
    using assms(1) ne t' count by (auto simp: tx_inv_def tx_todo_def tpdus_ne not_le Next_seq)
qed

interpretation tx: transport_segment HasValue GetSegment Advance tx_inv tx_todo
  by unfold_locales (simp add: HasValue_def tx_todo_def, rule GetSegment_todo, assumption+, rule Advance_todo, assumption+)


section \<open>Reassembly\<close>

text \<open>A receiver fed with TPDUs one after the other, and the fragments it returns.\<close>

fun ProcessAll :: "TransportRx \<Rightarrow> bytes list \<Rightarrow> TransportRx \<times> bytes list" where
  "ProcessAll r [] = (r, [])"
| "ProcessAll r (t # ts) =
     (let (r, apdu) = ProcessReceive r t; (r, apdus) = ProcessAll r ts
      in (r, if apdu \<noteq> [] then apdu # apdus else apdus))"

lemma ProcessAll_append:
  "ProcessAll r (ts @ us) =
     (let (r, a) = ProcessAll r ts; (r, b) = ProcessAll r us in (r, a @ b))"
  by (induction ts arbitrary: r) (auto split: prod.splits)

lemma rx_count_sel [simp]:
  "rx_rxBuffer (rx_count u r) = rx_rxBuffer r" "rx_numBytesRead (rx_count u r) = rx_numBytesRead r"
  "rx_sequence (rx_count u r) = rx_sequence r"
  by (simp_all add: rx_count_def)

lemma ClearRxBuffer_sel [simp]:
  "rx_rxBuffer (ClearRxBuffer r) = rx_rxBuffer r" "rx_numBytesRead (ClearRxBuffer r) = 0"
  "rx_sequence (ClearRxBuffer r) = rx_sequence r"
  by (simp_all add: ClearRxBuffer_def)

text \<open>
  What one TPDU does: it is rejected, or its payload is appended to the \<open>acc\<close> bytes already read
  (none of them after FIR), and the fragment is returned on FIN.
\<close>

definition rx_accepts :: "TransportRx \<Rightarrow> uint8 \<Rightarrow> bool" where
  "rx_accepts r hdr \<longleftrightarrow> hdr AND TL_HDR_FIR \<noteq> 0 \<or> rx_numBytesRead r > 0 \<and> hdr AND TL_HDR_SEQ = rx_sequence r"

definition rx_kept :: "TransportRx \<Rightarrow> uint8 \<Rightarrow> bytes" where
  "rx_kept r hdr = (if hdr AND TL_HDR_FIR \<noteq> 0 then [] else take (rx_numBytesRead r) (rx_rxBuffer r))"

lemma ProcessReceive_accept:
  assumes "rx_accepts r hdr" "rx_numBytesRead r \<le> length (rx_rxBuffer r)"
    and "length (rx_kept r hdr) + length payload \<le> length (rx_rxBuffer r)"
    and "ProcessReceive r (hdr # payload) = (r', apdu)"
  shows "take (length (rx_kept r hdr) + length payload) (rx_rxBuffer r') = rx_kept r hdr @ payload"
    and "length (rx_rxBuffer r') = length (rx_rxBuffer r)"
    and "rx_sequence r' = TransportSeqNum_Next (hdr AND TL_HDR_SEQ)"
    and "hdr AND TL_HDR_FIN \<noteq> 0 \<Longrightarrow> apdu = rx_kept r hdr @ payload \<and> rx_numBytesRead r' = 0"
    and "hdr AND TL_HDR_FIN = 0 \<Longrightarrow>
      apdu = [] \<and> rx_numBytesRead r' = length (rx_kept r hdr) + length payload"
proof -
  define n where "n = length (rx_kept r hdr)"
  define buf where "buf = overwrite (rx_rxBuffer r) n payload"
  define r1 where "r1 = rx_count numTransportRx_update (r\<lparr>rx_numBytesRead := n, rx_sequence := hdr AND TL_HDR_SEQ\<rparr>)"
  have vh: "\<exists>r0. ValidateHeader r (hdr AND TL_HDR_FIR \<noteq> 0) (hdr AND TL_HDR_SEQ) = (r0, True)
      \<and> rx_count numTransportRx_update r0 = r1"
    using assms(1,2) by (auto simp: ValidateHeader_def rx_accepts_def rx_kept_def n_def r1_def rx_count_def min_def)
  then obtain r0 where r0: "ValidateHeader r (hdr AND TL_HDR_FIR \<noteq> 0) (hdr AND TL_HDR_SEQ) = (r0, True)"
    "rx_count numTransportRx_update r0 = r1" by blast
  have "GetAvailable r0 = GetAvailable r1" using r0(2) by (metis GetAvailable_def rx_count_sel(1,2))
  then have avail: "GetAvailable r0 = length (rx_rxBuffer r) - n"
    by (simp add: GetAvailable_def r1_def)
  have fit: "n + length payload \<le> length (rx_rxBuffer r)" using assms(3) by (simp add: n_def)
  have kept: "take n (rx_rxBuffer r) = rx_kept r hdr"
    using assms(2) by (simp add: n_def rx_kept_def min_def)
  have buf: "take (n + length payload) buf = rx_kept r hdr @ payload"
    using take_overwrite_end[of n "rx_rxBuffer r" payload] fit kept by (simp add: buf_def)
  let ?r2 = "r1\<lparr>rx_rxBuffer := buf, rx_numBytesRead := n + length payload,
      rx_sequence := TransportSeqNum_Next (hdr AND TL_HDR_SEQ)\<rparr>"
  have res: "(r', apdu) = (if hdr AND TL_HDR_FIN \<noteq> 0 then (ClearRxBuffer ?r2, take (n + length payload) buf)
      else (?r2, []))"
  proof -
    have nl: "\<not> GetAvailable r0 < length payload" using avail fit by simp
    have "rx_rxBuffer r1 = rx_rxBuffer r" "rx_numBytesRead r1 = n" "rx_sequence r1 = hdr AND TL_HDR_SEQ"
      by (simp_all add: r1_def)
    with assms(4) nl show ?thesis by (simp add: ProcessReceive_def r0 Let_def buf_def split: if_splits)
  qed
  from res buf show "take (length (rx_kept r hdr) + length payload) (rx_rxBuffer r') = rx_kept r hdr @ payload"
    by (auto simp: n_def split: if_splits)
  from res fit show "length (rx_rxBuffer r') = length (rx_rxBuffer r)"
    by (auto simp: buf_def length_overwrite split: if_splits)
  from res show "rx_sequence r' = TransportSeqNum_Next (hdr AND TL_HDR_SEQ)"
    by (auto split: if_splits)
  from res buf show "hdr AND TL_HDR_FIN \<noteq> 0 \<Longrightarrow> apdu = rx_kept r hdr @ payload \<and> rx_numBytesRead r' = 0"
    by simp
  from res show "hdr AND TL_HDR_FIN = 0 \<Longrightarrow>
      apdu = [] \<and> rx_numBytesRead r' = length (rx_kept r hdr) + length payload" by (simp add: n_def)
qed

lemma ProcessReceive_reject:
  assumes "\<not> rx_accepts r hdr \<or> length (rx_rxBuffer r) < length (rx_kept r hdr) + length payload"
    and "rx_numBytesRead r \<le> length (rx_rxBuffer r)"
    and "ProcessReceive r (hdr # payload) = (r', apdu)"
  shows "apdu = [] \<and> rx_rxBuffer r' = rx_rxBuffer r
    \<and> (rx_numBytesRead r' = 0 \<or> rx_numBytesRead r' = rx_numBytesRead r \<and> rx_sequence r' = rx_sequence r)"
  using assms
  by (auto simp: ProcessReceive_def ValidateHeader_def rx_accepts_def rx_kept_def GetAvailable_def Let_def
      split: if_splits)

lemma ProcessAll_tpdus:
  assumes "apdu \<noteq> []" "fir \<or> rx_numBytesRead r > 0 \<and> rx_sequence r = seq" "seq AND TL_HDR_SEQ = seq"
    and "acc = (if fir then [] else take (rx_numBytesRead r) (rx_rxBuffer r))"
    and "rx_numBytesRead r \<le> length (rx_rxBuffer r)"
    and "length acc + length apdu \<le> length (rx_rxBuffer r)"
  obtains r' where "ProcessAll r (tpdus fir seq apdu) = (r', [acc @ apdu])" "rx_numBytesRead r' = 0"
    "length (rx_rxBuffer r') = length (rx_rxBuffer r)"
  using assms
proof (induction fir seq apdu arbitrary: r acc thesis rule: tpdus.induct)
  case (1 fir seq apdu)
  let ?fin = "length apdu \<le> 249"
  let ?hdr = "GetHeader fir ?fin seq"
  let ?payload = "take 249 apdu"
  obtain r1 a where step: "ProcessReceive r (?hdr # ?payload) = (r1, a)" by fastforce
  have acc: "rx_accepts r ?hdr" "rx_kept r ?hdr = acc"
    using "1.prems"(3-5) by (auto simp: rx_accepts_def rx_kept_def GetHeader_fields)
  have fit: "length (rx_kept r ?hdr) + length ?payload \<le> length (rx_rxBuffer r)"
    using "1.prems"(7) acc(2) by simp
  note res = ProcessReceive_accept[OF acc(1) "1.prems"(6) fit step, unfolded acc(2) GetHeader_fields]
  show ?case
  proof (cases ?fin)
    case True
    with res step "1.prems"(2) show ?thesis
      by (intro "1.prems"(1)[of r1]) (simp_all add: tpdus_ne)
  next
    case False
    then have ne: "drop 249 apdu \<noteq> []" by simp
    have n: "rx_numBytesRead r1 = length (acc @ ?payload)" "a = []" using res(5) False GetHeader_fields(2)[of fir ?fin seq] by simp_all
    have seq: "rx_sequence r1 = TransportSeqNum_Next seq" using res(3) "1.prems"(4) by simp
    obtain r2 where r2: "ProcessAll r1 (tpdus False (TransportSeqNum_Next seq) (drop 249 apdu)) =
        (r2, [(acc @ ?payload) @ drop 249 apdu])" "rx_numBytesRead r2 = 0"
        "length (rx_rxBuffer r2) = length (rx_rxBuffer r1)"
    proof (rule "1.IH"[OF "1.prems"(2) _ ne, of r1 "acc @ ?payload"])
      show "acc @ ?payload = (if False then [] else take (rx_numBytesRead r1) (rx_rxBuffer r1))"
        using res(1) n by simp
    qed (use False n seq res(2) fit acc(2) "1.prems"(7) in \<open>auto simp: Next_seq\<close>)
    then have "ProcessAll r (tpdus fir seq apdu) = (r2, [acc @ apdu])"
      using step n(2) by (simp add: tpdus_ne[OF "1.prems"(2)])
    with r2 res(2) show ?thesis by (intro "1.prems"(1)[of r2]) simp_all
  qed
qed


section \<open>Only whole, in-order fragments are returned\<close>

text \<open>TPDUs with consecutive sequence numbers, the first one (and only it) with FIR when \<open>fir\<close>.\<close>

fun chain :: "bool \<Rightarrow> uint8 \<Rightarrow> bytes list \<Rightarrow> bool" where
  "chain fir seq [] = True"
| "chain fir seq (t # ts) =
     (t \<noteq> [] \<and> (hd t AND TL_HDR_FIR \<noteq> 0 \<longleftrightarrow> fir) \<and> hd t AND TL_HDR_SEQ = seq
       \<and> chain False (TransportSeqNum_Next seq) ts)"

definition has_fin :: "bytes \<Rightarrow> bool" where
  "has_fin t \<longleftrightarrow> hd t AND TL_HDR_FIN \<noteq> 0"

definition fragment :: "bytes list \<Rightarrow> bool" where
  "fragment ts \<longleftrightarrow> ts \<noteq> [] \<and> chain True (hd (hd ts) AND TL_HDR_SEQ) ts
     \<and> has_fin (last ts) \<and> (\<forall>t \<in> set (butlast ts). \<not> has_fin t)"

definition payload_of :: "bytes list \<Rightarrow> bytes" where
  "payload_of ts = concat (map tl ts)"

lemma chain_snoc:
  "chain fir seq (ts @ [t]) \<longleftrightarrow> chain fir seq ts
     \<and> chain (fir \<and> ts = []) ((TransportSeqNum_Next ^^ length ts) seq) [t]"
  by (induction ts arbitrary: fir seq) (auto simp: funpow_swap1)

text \<open>
  What the receiver makes of the TPDUs behind one with FIR: it takes those that come with the sequence number that comes next,
  and passes over all others.
\<close>

fun next_tpdus :: "uint8 \<Rightarrow> bytes list \<Rightarrow> bytes list" where
  "next_tpdus seq [] = []"
| "next_tpdus seq (t # ts) =
     (if t \<noteq> [] \<and> hd t AND TL_HDR_SEQ = seq then t # next_tpdus (TransportSeqNum_Next seq) ts else next_tpdus seq ts)"

definition no_fir :: "bytes \<Rightarrow> bool" where
  "no_fir t \<longleftrightarrow> t = [] \<or> hd t AND TL_HDR_FIR = 0"

text \<open>The fragment that starts with \<open>t\<close>, as far as it is complete after \<open>mid\<close>.\<close>

definition fragment_from :: "bytes \<Rightarrow> bytes list \<Rightarrow> bytes list" where
  "fragment_from t mid = t # next_tpdus (TransportSeqNum_Next (hd t AND TL_HDR_SEQ)) mid"

lemma next_tpdus_snoc:
  "next_tpdus seq (ts @ [t]) = next_tpdus seq ts
     @ (if t \<noteq> [] \<and> hd t AND TL_HDR_SEQ = (TransportSeqNum_Next ^^ length (next_tpdus seq ts)) seq then [t] else [])"
  by (induction seq ts rule: next_tpdus.induct) (auto simp: funpow_swap1)

lemma chain_next_tpdus: "list_all no_fir ts \<Longrightarrow> chain False seq (next_tpdus seq ts)"
  by (induction seq ts rule: next_tpdus.induct) (auto simp: no_fir_def)

lemma chain_fragment_from:
  "t \<noteq> [] \<Longrightarrow> hd t AND TL_HDR_FIR \<noteq> 0 \<Longrightarrow> list_all no_fir mid \<Longrightarrow> chain True (hd t AND TL_HDR_SEQ) (fragment_from t mid)"
  by (simp add: fragment_from_def chain_next_tpdus)

lemma fragment_from_snoc:
  "fragment_from t (mid @ [u]) = fragment_from t mid
     @ (if u \<noteq> [] \<and> hd u AND TL_HDR_SEQ = (TransportSeqNum_Next ^^ length (fragment_from t mid)) (hd t AND TL_HDR_SEQ) then [u] else [])"
  by (simp add: fragment_from_def next_tpdus_snoc funpow_swap1)

lemma fragment_from_hd [simp]: "fragment_from t mid \<noteq> []" "hd (fragment_from t mid) = t" "fragment_from t [] = [t]"
  by (simp_all add: fragment_from_def)

text \<open>The bytes a receiver holds are the payload of the unfinished fragment behind the last FIR it saw.\<close>

definition rx_inv :: "bytes list \<Rightarrow> TransportRx \<Rightarrow> bool" where
  "rx_inv hist r \<longleftrightarrow> rx_numBytesRead r \<le> length (rx_rxBuffer r) \<and> (rx_numBytesRead r > 0 \<longrightarrow>
     (\<exists>before t mid. hist = before @ t # mid \<and> t \<noteq> [] \<and> hd t AND TL_HDR_FIR \<noteq> 0 \<and> list_all no_fir mid
        \<and> (\<forall>u \<in> set (fragment_from t mid). \<not> has_fin u)
        \<and> rx_sequence r = (TransportSeqNum_Next ^^ length (fragment_from t mid)) (hd t AND TL_HDR_SEQ)
        \<and> take (rx_numBytesRead r) (rx_rxBuffer r) = payload_of (fragment_from t mid)))"

lemma rx_inv_make: "rx_inv [] (TransportRx_make n stats)"
  by (simp add: rx_inv_def TransportRx_make_def)

text \<open>A TPDU that is passed over.\<close>

lemma rx_inv_extend:
  assumes inv: "rx_inv hist r"
    and r': "rx_numBytesRead r' = 0 \<or> rx_numBytesRead r' = rx_numBytesRead r \<and> rx_sequence r' = rx_sequence r \<and> no_fir u
      \<and> (u = [] \<or> hd u AND TL_HDR_SEQ \<noteq> rx_sequence r)" "rx_rxBuffer r' = rx_rxBuffer r"
  shows "rx_inv (hist @ [u]) r'"
proof (cases "rx_numBytesRead r' = 0")
  case True
  with r'(2) inv show ?thesis by (simp add: rx_inv_def)
next
  case False
  with r' have same: "rx_numBytesRead r' = rx_numBytesRead r" "rx_sequence r' = rx_sequence r" "no_fir u"
    "u = [] \<or> hd u AND TL_HDR_SEQ \<noteq> rx_sequence r" by auto
  with False inv obtain before t mid where h: "hist = before @ t # mid" "t \<noteq> []" "hd t AND TL_HDR_FIR \<noteq> 0" "list_all no_fir mid"
    "\<forall>u \<in> set (fragment_from t mid). \<not> has_fin u"
    "rx_sequence r = (TransportSeqNum_Next ^^ length (fragment_from t mid)) (hd t AND TL_HDR_SEQ)"
    "take (rx_numBytesRead r) (rx_rxBuffer r) = payload_of (fragment_from t mid)" by (auto simp: rx_inv_def)
  have "fragment_from t (mid @ [u]) = fragment_from t mid" using same(4) by (auto simp: fragment_from_snoc h(6))
  with h same r'(2) inv show ?thesis unfolding rx_inv_def
    by (intro conjI impI exI[of _ before] exI[of _ t] exI[of _ "mid @ [u]"]) auto
qed

text \<open>A complete fragment among the TPDUs \<open>ts\<close>, and its payload.\<close>

definition received_in :: "bytes list \<Rightarrow> bytes \<Rightarrow> bool" where
  "received_in ts apdu \<longleftrightarrow> (\<exists>before t mid after. ts = before @ t # mid @ after \<and> list_all no_fir mid
     \<and> fragment (fragment_from t mid) \<and> apdu = payload_of (fragment_from t mid))"

lemma received_in_append: "received_in ts apdu \<Longrightarrow> received_in (ts @ us) apdu"
  unfolding received_in_def by (metis append.assoc append_Cons)

lemma ProcessReceive_fragment:
  assumes "rx_inv hist r" "ProcessReceive r u = (r', apdu)"
  shows "rx_inv (hist @ [u]) r' \<and> length (rx_rxBuffer r') = length (rx_rxBuffer r)
    \<and> (apdu \<noteq> [] \<longrightarrow> length apdu \<le> length (rx_rxBuffer r) \<and> received_in (hist @ [u]) apdu)"
proof (cases u)
  case Nil
  with assms have "r' = rx_count numTransportErrorRx_update r" "apdu = []"
    by (simp_all add: ProcessReceive_def)
  with rx_inv_extend[OF assms(1), of r' u] Nil show ?thesis by (simp add: no_fir_def)
next
  case (Cons hdr payload)
  have le: "rx_numBytesRead r \<le> length (rx_rxBuffer r)" using assms(1) by (simp add: rx_inv_def)
  note step = assms(2)[unfolded Cons]
  show ?thesis
  proof (cases "rx_accepts r hdr \<and> length (rx_kept r hdr) + length payload \<le> length (rx_rxBuffer r)")
    case False
    with ProcessReceive_reject[OF _ le step] have rej: "apdu = []" "rx_rxBuffer r' = rx_rxBuffer r"
      "rx_numBytesRead r' = 0 \<or> rx_numBytesRead r' = rx_numBytesRead r \<and> rx_sequence r' = rx_sequence r"
      by auto
    have "rx_accepts r hdr \<Longrightarrow> rx_numBytesRead r' = 0"
      using False step le by (auto simp: ProcessReceive_def ValidateHeader_def rx_accepts_def rx_kept_def GetAvailable_def Let_def
          split: if_splits)
    then have "rx_numBytesRead r' = 0 \<or> rx_numBytesRead r' = rx_numBytesRead r \<and> rx_sequence r' = rx_sequence r \<and> no_fir u
      \<and> (u = [] \<or> hd u AND TL_HDR_SEQ \<noteq> rx_sequence r)"
      using rej(3) Cons by (cases "rx_accepts r hdr") (auto simp: rx_accepts_def no_fir_def)
    with rx_inv_extend[OF assms(1) _ rej(2)] rej show ?thesis by simp
  next
    case True
    note res = ProcessReceive_accept[OF True[THEN conjunct1] le True[THEN conjunct2] step]
    obtain before t mid where us: "hist @ [u] = before @ t # mid" "t \<noteq> []" "hd t AND TL_HDR_FIR \<noteq> 0" "list_all no_fir mid"
      "last (fragment_from t mid) = u" "\<forall>u \<in> set (butlast (fragment_from t mid)). \<not> has_fin u" "payload_of (fragment_from t mid) = rx_kept r hdr @ payload"
      "TransportSeqNum_Next (hdr AND TL_HDR_SEQ) = (TransportSeqNum_Next ^^ length (fragment_from t mid)) (hd t AND TL_HDR_SEQ)"
    proof (cases "hdr AND TL_HDR_FIR \<noteq> 0")
      case fir: True
      then show ?thesis using Cons
        by (intro that[of hist u "[]"]) (simp_all add: payload_of_def rx_kept_def)
    next
      case fir: False
      then have acc: "rx_numBytesRead r > 0" "hdr AND TL_HDR_SEQ = rx_sequence r"
        using True by (simp_all add: rx_accepts_def)
      with assms(1) obtain before t mid where h: "hist = before @ t # mid" "t \<noteq> []" "hd t AND TL_HDR_FIR \<noteq> 0" "list_all no_fir mid"
        "\<forall>u \<in> set (fragment_from t mid). \<not> has_fin u" "rx_sequence r = (TransportSeqNum_Next ^^ length (fragment_from t mid)) (hd t AND TL_HDR_SEQ)"
        "take (rx_numBytesRead r) (rx_rxBuffer r) = payload_of (fragment_from t mid)" by (auto simp: rx_inv_def)
      have snoc: "fragment_from t (mid @ [u]) = fragment_from t mid @ [u]" using acc(2) h(6) Cons by (simp add: fragment_from_snoc)
      show ?thesis
        by (rule that[of before t "mid @ [u]"], unfold snoc) (use h fir acc Cons in \<open>simp_all add: payload_of_def rx_kept_def no_fir_def\<close>)
    qed
    have chain: "chain True (hd t AND TL_HDR_SEQ) (fragment_from t mid)" using chain_fragment_from[OF us(2-4)] .
    show ?thesis
    proof (cases "hdr AND TL_HDR_FIN \<noteq> 0")
      case fin: True
      have "fragment (fragment_from t mid)" using us chain fin Cons by (simp add: fragment_def has_fin_def)
      with us have "received_in (hist @ [u]) (rx_kept r hdr @ payload)" unfolding received_in_def
        by (intro exI[of _ before] exI[of _ t] exI[of _ mid] exI[of _ "[]"]) simp
      with res(1,2) res(4)[OF fin] le True show ?thesis by (auto simp: rx_inv_def)
    next
      case fin: False
      then have "\<not> has_fin u" using Cons by (simp add: has_fin_def)
      then have nofin: "\<forall>u \<in> set (fragment_from t mid). \<not> has_fin u"
        using us(5,6) append_butlast_last_id[OF fragment_from_hd(1), of t mid] by (metis Un_iff empty_iff list.set set_ConsD set_append)
      from fin res(5) have n: "apdu = []" "rx_numBytesRead r' = length (rx_kept r hdr) + length payload" by auto
      with res(1,2,3) True have "rx_inv (hist @ [u]) r'"
        unfolding rx_inv_def using us nofin by (intro conjI impI exI[of _ before] exI[of _ t] exI[of _ mid]) simp_all
      with n(1) res(2) show ?thesis by simp
    qed
  qed
qed

lemma ProcessAll_fragments:
  "rx_inv hist r \<Longrightarrow> ProcessAll r ts = (r', apdus) \<Longrightarrow>
     rx_inv (hist @ ts) r' \<and> length (rx_rxBuffer r') = length (rx_rxBuffer r) \<and> (\<forall>apdu \<in> set apdus.
       length apdu \<le> length (rx_rxBuffer r) \<and> received_in (hist @ ts) apdu)"
proof (induction ts arbitrary: hist r r' apdus)
  case (Cons t ts)
  obtain r1 a where step: "ProcessReceive r t = (r1, a)" by fastforce
  obtain r2 as where rest: "ProcessAll r1 ts = (r2, as)" by fastforce
  note one = ProcessReceive_fragment[OF Cons.prems(1) step]
  note IH = Cons.IH[OF one[THEN conjunct1] rest]
  have res: "r' = r2" "apdus = (if a \<noteq> [] then a # as else as)"
    using Cons.prems(2) step rest by simp_all
  have "received_in (hist @ t # ts) apdu" if "received_in (hist @ [t]) apdu" for apdu
    using received_in_append[OF that, of ts] by simp
  with one IH res show ?case by auto
qed simp

section \<open>Runs of the layer\<close>

datatype TransportEvent =
    BeginTransmitEvent bytes
  | OnReceiveEvent bytes
  | OnSendResultEvent bool
  | LowerLayerUpEvent
  | LowerLayerDownEvent
  | SetAppLayerEvent
  | SetLinkLayerEvent

definition TransportLayer_step ::
  "TransportLayer \<Rightarrow> TransportEvent \<Rightarrow> (TransportLayer \<times> TransportAction list) option" where
  "TransportLayer_step l e =
     (case e of
        BeginTransmitEvent apdu \<Rightarrow> BeginTransmit l apdu
      | OnReceiveEvent tpdu \<Rightarrow> (let (l, acts, _) = TransportLayer_OnReceive l tpdu in Some (l, acts))
      | OnSendResultEvent b \<Rightarrow> (let (l, acts, _) = TransportLayer_OnSendResult l b in Some (l, acts))
      | LowerLayerUpEvent \<Rightarrow> (let (l, acts, _) = TransportLayer_OnLowerLayerUp l in Some (l, acts))
      | LowerLayerDownEvent \<Rightarrow> (let (l, acts, _) = TransportLayer_OnLowerLayerDown l in Some (l, acts))
      | SetAppLayerEvent \<Rightarrow> map_option (\<lambda>l. (l, [])) (SetAppLayer l)
      | SetLinkLayerEvent \<Rightarrow> map_option (\<lambda>l. (l, [])) (SetLinkLayer l))"

fun TransportLayer_run ::
  "TransportLayer \<Rightarrow> TransportEvent list \<Rightarrow> (TransportLayer \<times> TransportAction list) option" where
  "TransportLayer_run l [] = Some (l, [])"
| "TransportLayer_run l (e # es) =
     (case TransportLayer_step l e of
        None \<Rightarrow> None
      | Some (l, acts) \<Rightarrow>
          (case TransportLayer_run l es of None \<Rightarrow> None | Some (l, acts') \<Rightarrow> Some (l, acts @ acts')))"

definition transport_inv :: "TransportLayer \<Rightarrow> bool" where
  "transport_inv l \<longleftrightarrow> (tl_isSending l \<longrightarrow> tl_isOnline l)
     \<and> (\<not> tl_isOnline l \<longrightarrow> rx_numBytesRead (tl_receiver l) = 0)
     \<and> rx_numBytesRead (tl_receiver l) \<le> length (rx_rxBuffer (tl_receiver l))
     \<and> tx_inv (tl_transmitter l)"

lemma ProcessReceive_le:
  "rx_numBytesRead r \<le> length (rx_rxBuffer r) \<Longrightarrow> ProcessReceive r t = (r', a) \<Longrightarrow>
     rx_numBytesRead r' \<le> length (rx_rxBuffer r')"
  by (auto simp: ProcessReceive_def ValidateHeader_def GetAvailable_def length_overwrite Let_def
      split: list.splits if_splits)

definition event_ok :: "TransportEvent \<Rightarrow> bool" where
  "event_ok e \<longleftrightarrow> (case e of BeginTransmitEvent apdu \<Rightarrow> length apdu < 2 ^ 32 | _ \<Rightarrow> True)"

lemma TransportLayer_step_inv:
  assumes "transport_inv l" "TransportLayer_step l e = Some (l', acts)" "event_ok e"
  shows "transport_inv l'"
proof (cases e)
  case (BeginTransmitEvent apdu)
  with assms tx_inv_Configure[of "tl_transmitter l" apdu] show ?thesis
    by (auto simp: TransportLayer_step_def BeginTransmit_def transport_inv_def event_ok_def Let_def
        split: if_splits)
next
  case (OnReceiveEvent t)
  with assms ProcessReceive_le[of "tl_receiver l" t] show ?thesis
    by (auto simp: TransportLayer_step_def TransportLayer_OnReceive_def transport_inv_def Let_def
        split: if_splits prod.splits)
qed (use assms in \<open>auto simp: TransportLayer_step_def TransportLayer_OnSendResult_def
    TransportLayer_OnLowerLayerUp_def TransportLayer_OnLowerLayerDown_def SetAppLayer_def SetLinkLayer_def
    TransportRx_Reset_def transport_inv_def split: if_splits\<close>)

lemma TransportLayer_run_inv:
  "transport_inv l \<Longrightarrow> TransportLayer_run l es = Some (l', acts) \<Longrightarrow> list_all event_ok es \<Longrightarrow>
     transport_inv l'"
proof (induction es arbitrary: l acts)
  case (Cons e es)
  from Cons.prems(2) obtain l1 a1 a2 where one: "TransportLayer_step l e = Some (l1, a1)"
    and rest: "TransportLayer_run l1 es = Some (l', a2)" "acts = a1 @ a2"
    by (auto split: option.splits)
  from TransportLayer_step_inv[OF Cons.prems(1) one] Cons.IH[OF _ rest(1)] Cons.prems(3)
  show ?case by simp
qed simp

lemma transport_inv_make: "transport_inv (TransportLayer_make n stats)"
  by (simp add: transport_inv_def TransportLayer_make_def tx_inv_make) (simp add: TransportRx_make_def)

text \<open>
  What the actions of a layer tell of its sends: \<open>under_way\<close> is whether one is under way.  A send is begun only while none is, and a
  result is reported only while one is; \<open>None\<close> is anything else.  When the layer below goes down the send is given up.
\<close>

fun sends_and_results :: "bool \<Rightarrow> TransportAction list \<Rightarrow> bool option" where
  "sends_and_results under_way [] = Some under_way"
| "sends_and_results under_way (TlLinkSend # acts) = (if under_way then None else sends_and_results True acts)"
| "sends_and_results under_way (TlUpperSendResult b # acts) = (if under_way then sends_and_results False acts else None)"
| "sends_and_results under_way (TlUpperLowerLayerDown # acts) = sends_and_results False acts"
| "sends_and_results under_way (_ # acts) = sends_and_results under_way acts"

lemma sends_and_results_append:
  "sends_and_results under_way (as @ bs) = Option.bind (sends_and_results under_way as) (\<lambda>u. sends_and_results u bs)"
  by (induction under_way as rule: sends_and_results.induct) simp_all

definition attached :: "TransportLayer \<Rightarrow> bool" where
  "attached l \<longleftrightarrow> tl_pUpperLayer l \<and> tl_pLinkLayer l"

lemma TransportLayer_step_sends:
  assumes "attached l" "TransportLayer_step l e = Some (l', acts)"
  shows "attached l' \<and> sends_and_results (tl_isSending l) acts = Some (tl_isSending l')"
  using assms
  by (cases e) (auto simp: TransportLayer_step_def BeginTransmit_def TransportLayer_OnReceive_def TransportLayer_OnSendResult_def
      TransportLayer_OnLowerLayerUp_def TransportLayer_OnLowerLayerDown_def SetAppLayer_def SetLinkLayer_def attached_def Let_def
      split: if_splits prod.splits)

lemma TransportLayer_run_sends:
  "attached l \<Longrightarrow> TransportLayer_run l es = Some (l', acts) \<Longrightarrow> sends_and_results (tl_isSending l) acts = Some (tl_isSending l')"
proof (induction es arbitrary: l acts)
  case (Cons e es)
  from Cons.prems(2) obtain l1 a1 a2 where one: "TransportLayer_step l e = Some (l1, a1)"
    and rest: "TransportLayer_run l1 es = Some (l', a2)" "acts = a1 @ a2"
    by (auto split: option.splits)
  from TransportLayer_step_sends[OF Cons.prems(1) one] Cons.IH[OF _ rest(1)] rest(2)
  show ?case by (simp add: sends_and_results_append)
qed simp

lemma chain_tpdus: "seq AND TL_HDR_SEQ = seq \<Longrightarrow> chain fir seq (tpdus fir seq apdu)
   \<and> payload_of (tpdus fir seq apdu) = apdu
   \<and> (\<forall>s \<in> set (tpdus fir seq apdu). 2 \<le> length s \<and> length s \<le> 250)
   \<and> (apdu \<noteq> [] \<longrightarrow> has_fin (last (tpdus fir seq apdu)) \<and> (\<forall>s \<in> set (butlast (tpdus fir seq apdu)). \<not> has_fin s))"
proof (induction fir seq apdu rule: tpdus.induct)
  case (1 fir seq apdu)
  show ?case
  proof (cases "apdu = []")
    case True
    then show ?thesis by (simp add: payload_of_def)
  next
    case False
    note IH = "1.IH"[OF False Next_seq]
    let ?h = "GetHeader fir (length apdu \<le> 249) seq # take 249 apdu"
    let ?rest = "tpdus False (TransportSeqNum_Next seq) (drop 249 apdu)"
    have tp: "tpdus fir seq apdu = ?h # ?rest" by (rule tpdus_ne[OF False])
    have hdr: "hd ?h AND TL_HDR_FIR \<noteq> 0 \<longleftrightarrow> fir" "hd ?h AND TL_HDR_SEQ = seq"
      "has_fin ?h \<longleftrightarrow> length apdu \<le> 249"
      using GetHeader_fields[of fir "length apdu \<le> 249" seq] "1.prems" by (simp_all add: has_fin_def)
    have "2 \<le> length ?h" "length ?h \<le> 250" using False by (cases apdu; simp)+
    moreover have "payload_of (?h # ?rest) = apdu" using IH by (simp add: payload_of_def)
    moreover have "has_fin (last (?h # ?rest)) \<and> (\<forall>s \<in> set (butlast (?h # ?rest)). \<not> has_fin s)"
      using IH hdr(3) by (cases "length apdu \<le> 249") simp_all
    ultimately show ?thesis unfolding tp using IH hdr(1,2) by simp
  qed
qed

lemma fragment_tpdus:
  assumes "apdu \<noteq> []" "seq AND TL_HDR_SEQ = seq"
  shows "fragment (tpdus True seq apdu)"
proof -
  have "hd (hd (tpdus True seq apdu)) AND TL_HDR_SEQ = seq"
    using assms by (simp add: tpdus_ne GetHeader_fields)
  with chain_tpdus[OF assms(2), of True apdu] assms(1) show ?thesis by (simp add: fragment_def)
qed

lemma configured_segments:
  assumes "tx_inv t" "length apdu < 2 ^ 32" "Configure t apdu = Some t1"
    and "length apdu \<le> length ks" "send_segments GetSegment Advance ks t1 = (t2, segs)"
  shows "segs = tpdus True (tx_sequence t) apdu \<and> tx_inv t2 \<and> \<not> HasValue t2 \<and> apdu \<noteq> []
    \<and> tx_sequence t AND TL_HDR_SEQ = tx_sequence t"
proof -
  have ne: "apdu \<noteq> []" using assms(3) by (auto simp: Configure_def split: if_splits)
  have t1: "tx_inv t1" "tx_todo t1 = tpdus True (tx_sequence t) apdu"
    using tx_inv_Configure[OF assms(1-3)] by simp_all
  have "length (tpdus fir seq a) \<le> length a" for fir seq and a :: bytes
  proof (induction fir seq a rule: tpdus.induct)
    case (1 fir seq a)
    then show ?case by (cases a) (auto simp: tpdus_ne)
  qed
  then have "length (tx_todo t1) \<le> length ks" using t1(2) assms(4) le_trans by metis
  with tx.send_segments_todo[OF t1(1) _ _ assms(5)] t1(2) ne assms(1) show ?thesis
    by (simp add: tx_inv_def)
qed

section \<open>Properties\<close>

text \<open>
  \<^bold>\<open>C16\<close>.  Segmentation.  Whatever the state of the transmitter and however often each segment is
  read again for a retry, sending an APDU yields TPDUs of 2 to 250 bytes with consecutive sequence
  numbers, FIR on the first one only and FIN on the last one only, whose payloads are the APDU; at
  the end the transmitter has nothing left.
\<close>

theorem segmentation:
  assumes "tx_inv t" "length apdu < 2 ^ 32" "Configure t apdu = Some t1"
    and "length apdu \<le> length ks" "send_segments GetSegment Advance ks t1 = (t2, segs)"
  shows "fragment segs \<and> payload_of segs = apdu \<and> (\<forall>s \<in> set segs. 2 \<le> length s \<and> length s \<le> 250)
    \<and> tx_inv t2 \<and> \<not> HasValue t2"
  using configured_segments[OF assms] fragment_tpdus[of apdu "tx_sequence t"]
    chain_tpdus[of "tx_sequence t" True apdu] by simp

theorem segmentation_witness:
  "\<exists>t2 segs. send_segments GetSegment Advance (replicate 300 1)
      (the (Configure (TransportTx_make None) (replicate 300 7))) = (t2, segs)
    \<and> fragment segs \<and> payload_of segs = replicate 300 7 \<and> \<not> HasValue t2"
proof -
  let ?t1 = "the (Configure (TransportTx_make None) (replicate 300 7))"
  have c: "Configure (TransportTx_make None) (replicate 300 7) = Some ?t1"
    by (simp add: Configure_def)
  obtain t2 segs where s: "send_segments GetSegment Advance (replicate 300 1) ?t1 = (t2, segs)" by fastforce
  show ?thesis
    using segmentation[OF tx_inv_make _ c _ s] s by simp
qed

text \<open>
  \<^bold>\<open>C17\<close>.  Round trip.  A receiver in any state (mid-fragment included) with room for the APDU,
  given the TPDUs of that APDU in order, returns exactly the APDU, exactly once, and is ready for
  the next fragment.
\<close>

theorem transport_roundtrip:
  assumes "tx_inv t" "length apdu < 2 ^ 32" "Configure t apdu = Some t1"
    and "length apdu \<le> length ks" "send_segments GetSegment Advance ks t1 = (t2, segs)"
    and "rx_numBytesRead r \<le> length (rx_rxBuffer r)" "length apdu \<le> length (rx_rxBuffer r)"
  shows "\<exists>r'. ProcessAll r segs = (r', [apdu]) \<and> rx_numBytesRead r' = 0
    \<and> length (rx_rxBuffer r') = length (rx_rxBuffer r)"
proof -
  note segs = configured_segments[OF assms(1-5)]
  from segs assms(6,7) show ?thesis
    using ProcessAll_tpdus[of apdu True r "tx_sequence t" "[]"] by auto
qed

theorem transport_roundtrip_witness:
  "\<exists>t2 segs r'. send_segments GetSegment Advance (replicate 300 0)
      (the (Configure (TransportTx_make None) (replicate 300 7))) = (t2, segs)
    \<and> ProcessAll (TransportRx_make 2048 None) segs = (r', [replicate 300 7])"
proof -
  let ?t1 = "the (Configure (TransportTx_make None) (replicate 300 7))"
  have c: "Configure (TransportTx_make None) (replicate 300 7) = Some ?t1"
    by (simp add: Configure_def)
  obtain t2 segs where s: "send_segments GetSegment Advance (replicate 300 0) ?t1 = (t2, segs)" by fastforce
  show ?thesis
    using transport_roundtrip[OF tx_inv_make _ c _ s, of "TransportRx_make 2048 None"] s
    by (auto simp: TransportRx_make_def)
qed

text \<open>
  \<^bold>\<open>C2\<close>.  Nothing but whole fragments.  For every sequence of received TPDUs, of any content and order, each APDU a receiver
  returns starts with the payload of a TPDU with FIR, and is completed by the TPDUs that follow it, up to one with FIN: of these,
  in order, exactly those with the sequence number, modulo 64, that is expected next are used, and those in between with
  another one (or without any octets) are passed over; none of them has FIR.  It fits the buffer.
\<close>

theorem reassembly_sound:
  assumes "ProcessAll (TransportRx_make n stats) ts = (r, apdus)" "apdu \<in> set apdus"
  shows "length apdu \<le> n \<and> (\<exists>before t mid after. ts = before @ t # mid @ after
    \<and> list_all no_fir mid \<and> fragment (fragment_from t mid) \<and> apdu = payload_of (fragment_from t mid))"
  using ProcessAll_fragments[OF rx_inv_make assms(1)] assms(2) by (auto simp: TransportRx_make_def received_in_def)

lemma reassembly_example:
  "snd (ProcessAll (TransportRx_make 10 None) [[0x40, 1, 2], [0x03, 9], [0x81, 3]]) = [[1, 2, 3]]"
  by code_simp

theorem reassembly_sound_witness:
  "\<exists>before t mid after. [[0x40, 1, 2], [0x03, 9], [0x81, 3]] = before @ t # mid @ after
    \<and> fragment (fragment_from t mid) \<and> [1, 2, 3] = payload_of (fragment_from t mid)"
proof -
  obtain r where "ProcessAll (TransportRx_make 10 None) [[0x40, 1, 2], [0x03, 9], [0x81, 3]] = (r, [[1, 2, 3]])"
    by (metis prod.collapse reassembly_example)
  from reassembly_sound[OF this, of "[1, 2, 3]"] show ?thesis by auto
qed

text \<open>
  \<^bold>\<open>C18\<close>.  Accounts.  In every run of a layer between its two neighbours, under every order of calls from them, there is one
  send under way at most: it is handed to the link layer while no other is, and ends with one result, or when the link
  layer goes down.  The upper layer is told a result only while a send is under way, and \<^verbatim>\<open>isSending\<close> says exactly whether one
  is.  A send is under way only online, and an offline layer holds no received bytes.
\<close>

theorem TransportLayer_accounts:
  assumes "TransportLayer_run (TransportLayer_make n stats) (SetAppLayerEvent # SetLinkLayerEvent # es) = Some (l, acts)"
    and "list_all event_ok es"
  shows "transport_inv l \<and> sends_and_results False acts = Some (tl_isSending l)"
proof -
  define l0 where "l0 = (TransportLayer_make n stats)\<lparr>tl_pUpperLayer := True, tl_pLinkLayer := True\<rparr>"
  have run: "TransportLayer_run l0 es = Some (l, acts)"
    using assms(1) by (auto simp: TransportLayer_step_def SetAppLayer_def SetLinkLayer_def TransportLayer_make_def l0_def split: option.splits)
  have "attached l0" "\<not> tl_isSending l0" by (simp_all add: attached_def l0_def TransportLayer_make_def)
  moreover have "transport_inv l0" using transport_inv_make[of n stats] by (simp add: transport_inv_def l0_def)
  ultimately show ?thesis using TransportLayer_run_sends[OF _ run] TransportLayer_run_inv[OF _ run assms(2)] by simp
qed

theorem TransportLayer_accounts_witness:
  "\<exists>l. TransportLayer_run (TransportLayer_make 2048 None)
      [SetAppLayerEvent, SetLinkLayerEvent, LowerLayerUpEvent, BeginTransmitEvent [1, 2], OnSendResultEvent True]
     = Some (l, [TlUpperLowerLayerUp, TlLinkSend, TlUpperSendResult True]) \<and> transport_inv l \<and> \<not> tl_isSending l"
proof -
  obtain l where "TransportLayer_run (TransportLayer_make 2048 None)
      [SetAppLayerEvent, SetLinkLayerEvent, LowerLayerUpEvent, BeginTransmitEvent [1, 2], OnSendResultEvent True]
     = Some (l, [TlUpperLowerLayerUp, TlLinkSend, TlUpperSendResult True])"
    by (simp add: TransportLayer_step_def TransportLayer_make_def SetAppLayer_def SetLinkLayer_def
        TransportLayer_OnLowerLayerUp_def BeginTransmit_def Configure_def TransportTx_make_def TransportLayer_OnSendResult_def)
  with TransportLayer_accounts[OF this] show ?thesis by (simp add: event_ok_def)
qed

text \<open>
  \<^bold>\<open>C27\<close>.  The failure posted for an empty APDU has no send of its own: run by the executor while
  nothing is being sent it is dropped, so the caller is never answered; run after a later
  \<^verbatim>\<open>BeginTransmit\<close> it ends that send, reporting as failed a transmission the link layer is still making.
\<close>

theorem empty_APDU_failure_misdirected:
  assumes "tl_isOnline l" "\<not> tl_isSending l" "tl_pLinkLayer l" "tl_pUpperLayer l" "apdu \<noteq> []"
  shows "TransportLayer_run l [BeginTransmitEvent [], OnSendResultEvent False] = Some (l, [TlPostSendResult False])
    \<and> (\<exists>l'. TransportLayer_run l [BeginTransmitEvent [], BeginTransmitEvent apdu, OnSendResultEvent False]
          = Some (l', [TlPostSendResult False, TlLinkSend, TlUpperSendResult False]) \<and> \<not> tl_isSending l')"
  using assms by (simp add: TransportLayer_step_def BeginTransmit_def Configure_def TransportLayer_OnSendResult_def)

theorem empty_APDU_failure_misdirected_witness:
  "\<exists>l'. TransportLayer_run ((TransportLayer_make 2048 None)
        \<lparr>tl_isOnline := True, tl_pLinkLayer := True, tl_pUpperLayer := True\<rparr>)
      [BeginTransmitEvent [], BeginTransmitEvent [1], OnSendResultEvent False]
    = Some (l', [TlPostSendResult False, TlLinkSend, TlUpperSendResult False]) \<and> \<not> tl_isSending l'"
  by (rule empty_APDU_failure_misdirected[THEN conjunct2]) (simp_all add: TransportLayer_make_def)

end
