(* ===== verification/ShiftableBuffer.thy ===== *)
theory ShiftableBuffer
  imports LinkFrame
begin

text \<open>
  \<^verbatim>\<open>link/ShiftableBuffer\<close>: the receive buffer of the link parser, a byte array with a read and a
  write position.  \<open>None\<close> is a failed \<^verbatim>\<open>assert\<close>.  The invariant \<open>sb_inv\<close> (positions ordered and
  inside the array) is kept by every operation, so the unsigned differences of the source never
  wrap; the abstraction \<open>unread\<close> is the byte string not yet read, and each operation is a plain
  list operation on it.
\<close>

record ShiftableBuffer =
  sb_pBuffer :: bytes
  sb_M_SIZE :: nat
  sb_writePos :: nat
  sb_readPos :: nat

definition ShiftableBuffer_make :: "bytes \<Rightarrow> nat \<Rightarrow> ShiftableBuffer" where
  "ShiftableBuffer_make buf n =
     \<lparr>sb_pBuffer = buf, sb_M_SIZE = n, sb_writePos = 0, sb_readPos = 0\<rparr>"

definition NumBytesRead :: "ShiftableBuffer \<Rightarrow> nat" where
  "NumBytesRead b = sb_writePos b - sb_readPos b"

definition ReadBuffer :: "ShiftableBuffer \<Rightarrow> bytes" where
  "ReadBuffer b = take (NumBytesRead b) (drop (sb_readPos b) (sb_pBuffer b))"

definition NumWriteBytes :: "ShiftableBuffer \<Rightarrow> nat" where
  "NumWriteBytes b = sb_M_SIZE b - sb_writePos b"

definition Shift :: "ShiftableBuffer \<Rightarrow> ShiftableBuffer" where
  "Shift b =
     (let numRead = NumBytesRead b
      in b\<lparr>sb_pBuffer := overwrite (sb_pBuffer b) 0 (take numRead (drop (sb_readPos b) (sb_pBuffer b))),
           sb_readPos := 0, sb_writePos := numRead\<rparr>)"

definition ShiftableBuffer_Reset :: "ShiftableBuffer \<Rightarrow> ShiftableBuffer" where
  "ShiftableBuffer_Reset b = b\<lparr>sb_writePos := 0, sb_readPos := 0\<rparr>"

definition AdvanceRead :: "ShiftableBuffer \<Rightarrow> nat \<Rightarrow> ShiftableBuffer option" where
  "AdvanceRead b numBytes =
     (if numBytes \<le> NumBytesRead b then Some (b\<lparr>sb_readPos := sb_readPos b + numBytes\<rparr>) else None)"

definition AdvanceWrite :: "ShiftableBuffer \<Rightarrow> nat \<Rightarrow> ShiftableBuffer option" where
  "AdvanceWrite b aNumBytes =
     (if aNumBytes \<le> NumWriteBytes b then Some (b\<lparr>sb_writePos := sb_writePos b + aNumBytes\<rparr>) else None)"

lemma AdvanceRead_decreases:
  "AdvanceRead b n = Some b' \<Longrightarrow> n > 0 \<Longrightarrow> NumBytesRead b' < NumBytesRead b"
  by (auto simp: AdvanceRead_def NumBytesRead_def split: if_splits)

function Sync :: "ShiftableBuffer \<Rightarrow> (ShiftableBuffer \<times> bool) option" where
  "Sync b =
     (if NumBytesRead b > 1
      then if sb_pBuffer b ! sb_readPos b = 0x05 \<and> sb_pBuffer b ! (sb_readPos b + 1) = 0x64
           then Some (b, True)
           else (case AdvanceRead b 1 of None \<Rightarrow> None | Some b' \<Rightarrow> Sync b')
      else Some (b, False))"
  by pat_completeness auto
termination
  by (relation "measure NumBytesRead") (auto dest: AdvanceRead_decreases)

declare Sync.simps [simp del]

text \<open>The environment's write: bytes placed at \<open>WriteBuff()\<close> before they are announced.\<close>

definition WriteBuff_fill :: "ShiftableBuffer \<Rightarrow> bytes \<Rightarrow> ShiftableBuffer" where
  "WriteBuff_fill b bs = b\<lparr>sb_pBuffer := overwrite (sb_pBuffer b) (sb_writePos b) bs\<rparr>"

section \<open>Invariant and abstraction\<close>

definition sb_inv :: "ShiftableBuffer \<Rightarrow> bool" where
  "sb_inv b \<longleftrightarrow> sb_readPos b \<le> sb_writePos b \<and> sb_writePos b \<le> sb_M_SIZE b
     \<and> length (sb_pBuffer b) = sb_M_SIZE b"

abbreviation unread :: "ShiftableBuffer \<Rightarrow> bytes" where
  "unread \<equiv> ReadBuffer"

lemma length_unread [size_simps]: "sb_inv b \<Longrightarrow> length (unread b) = NumBytesRead b"
  by (auto simp: ReadBuffer_def NumBytesRead_def sb_inv_def)

lemma sb_inv_make [inv_intros]: "length buf = n \<Longrightarrow> sb_inv (ShiftableBuffer_make buf n)"
  by (simp add: sb_inv_def ShiftableBuffer_make_def)

lemma unread_make [simp]: "unread (ShiftableBuffer_make buf n) = []"
  by (simp add: ReadBuffer_def NumBytesRead_def ShiftableBuffer_make_def)

lemma sb_inv_Reset [inv_intros]: "sb_inv b \<Longrightarrow> sb_inv (ShiftableBuffer_Reset b)"
  by (simp add: sb_inv_def ShiftableBuffer_Reset_def)

lemma AdvanceRead_spec:
  assumes "sb_inv b" "n \<le> length (unread b)"
  obtains b' where "AdvanceRead b n = Some b'" "sb_inv b'" "unread b' = drop n (unread b)"
    "sb_M_SIZE b' = sb_M_SIZE b" "sb_pBuffer b' = sb_pBuffer b"
    "sb_readPos b' = sb_readPos b + n" "sb_writePos b' = sb_writePos b"
proof
  let ?b = "b\<lparr>sb_readPos := sb_readPos b + n\<rparr>"
  have n: "n \<le> NumBytesRead b" using assms by (simp add: length_unread)
  then show "AdvanceRead b n = Some ?b" by (simp add: AdvanceRead_def)
  from n assms(1) show "sb_inv ?b" by (auto simp: sb_inv_def NumBytesRead_def)
  show "unread ?b = drop n (unread b)"
    by (simp add: ReadBuffer_def NumBytesRead_def drop_take ac_simps)
qed simp_all

lemma fill_AdvanceWrite_spec:
  assumes "sb_inv b" "length bs \<le> NumWriteBytes b"
  obtains b' where "AdvanceWrite (WriteBuff_fill b bs) (length bs) = Some b'" "sb_inv b'"
    "unread b' = unread b @ bs" "sb_M_SIZE b' = sb_M_SIZE b" "sb_readPos b' = sb_readPos b"
proof
  let ?b = "(WriteBuff_fill b bs)\<lparr>sb_writePos := sb_writePos b + length bs\<rparr>"
  show "AdvanceWrite (WriteBuff_fill b bs) (length bs) = Some ?b"
    using assms(2) by (simp add: AdvanceWrite_def WriteBuff_fill_def NumWriteBytes_def)
  have fit: "sb_writePos b + length bs \<le> length (sb_pBuffer b)"
    using assms by (auto simp: sb_inv_def NumWriteBytes_def)
  then show "sb_inv ?b"
    using assms by (simp add: sb_inv_def WriteBuff_fill_def length_overwrite)
  have pos: "sb_readPos b \<le> sb_writePos b" using assms(1) by (simp add: sb_inv_def)
  have split: "drop (sb_readPos b) (take n xs) = take (n - sb_readPos b) (drop (sb_readPos b) xs)" for n and xs :: bytes
    by (simp add: drop_take)
  have "unread ?b = drop (sb_readPos b)
      (take (sb_writePos b + length bs) (overwrite (sb_pBuffer b) (sb_writePos b) bs))"
    by (simp add: ReadBuffer_def NumBytesRead_def WriteBuff_fill_def split)
  also have "\<dots> = drop (sb_readPos b) (take (sb_writePos b) (sb_pBuffer b)) @ bs"
    using fit pos by (simp add: take_overwrite_end)
  also have "\<dots> = unread b @ bs"
    by (simp add: ReadBuffer_def NumBytesRead_def split)
  finally show "unread ?b = unread b @ bs" .
qed (simp_all add: WriteBuff_fill_def)

lemma Shift_spec:
  assumes "sb_inv b"
  shows "sb_inv (Shift b)" "unread (Shift b) = unread b" "sb_readPos (Shift b) = 0"
    "sb_M_SIZE (Shift b) = sb_M_SIZE b" "NumWriteBytes (Shift b) = sb_M_SIZE b - length (unread b)"
proof -
  have len: "length (unread b) = NumBytesRead b" using assms by (rule length_unread)
  then show "sb_inv (Shift b)"
    using assms by (simp add: Shift_def Let_def sb_inv_def length_overwrite ReadBuffer_def NumBytesRead_def)
  show "unread (Shift b) = unread b"
    using len by (simp add: Shift_def Let_def ReadBuffer_def[of "_\<lparr>sb_pBuffer := _, sb_readPos := _, sb_writePos := _\<rparr>"]
        NumBytesRead_def[of "_\<lparr>sb_pBuffer := _, sb_readPos := _, sb_writePos := _\<rparr>"] overwrite_0 flip: ReadBuffer_def)
qed (simp_all add: Shift_def Let_def NumWriteBytes_def length_unread assms)

lemma unread_nth:
  "sb_inv b \<Longrightarrow> i < NumBytesRead b \<Longrightarrow> sb_pBuffer b ! (sb_readPos b + i) = unread b ! i"
  by (simp add: ReadBuffer_def NumBytesRead_def sb_inv_def)

text \<open>\<open>Sync\<close> drops bytes up to the first 0x05 0x64, or all but at most one.\<close>

fun sync_list :: "bytes \<Rightarrow> bytes \<times> bool" where
  "sync_list (a # b # bs) = (if a = 0x05 \<and> b = 0x64 then (a # b # bs, True) else sync_list (b # bs))"
| "sync_list bs = (bs, False)"

lemma Sync_spec:
  assumes "sb_inv b"
  obtains b' where "Sync b = Some (b', snd (sync_list (unread b)))" "sb_inv b'"
    "unread b' = fst (sync_list (unread b))" "sb_M_SIZE b' = sb_M_SIZE b"
    "sb_pBuffer b' = sb_pBuffer b"
  using assms
proof (induction b arbitrary: thesis rule: Sync.induct)
  case (1 b)
  show ?case
  proof (cases "NumBytesRead b > 1")
    case False
    with 1(3) have "length (unread b) \<le> 1" by (simp add: length_unread)
    then have "sync_list (unread b) = (unread b, False)"
      by (cases "unread b" rule: sync_list.cases) auto
    with False 1(2)[of b] 1(3) show ?thesis by (simp add: Sync.simps)
  next
    case True
    then obtain x y bs where u: "unread b = x # y # bs"
      using length_unread[OF 1(3)] by (cases "unread b" rule: sync_list.cases) auto
    have xy: "sb_pBuffer b ! sb_readPos b = x" "sb_pBuffer b ! (sb_readPos b + 1) = y"
      using unread_nth[OF 1(3), of 0] unread_nth[OF 1(3), of 1] True u by simp_all
    show ?thesis
    proof (cases "x = 0x05 \<and> y = 0x64")
      case yes: True
      with True xy u 1(2)[of b] 1(3) show ?thesis by (simp add: Sync.simps)
    next
      case no: False
      obtain b1 where b1: "AdvanceRead b 1 = Some b1" "sb_inv b1" "unread b1 = y # bs"
        "sb_M_SIZE b1 = sb_M_SIZE b" "sb_pBuffer b1 = sb_pBuffer b"
        using AdvanceRead_spec[OF 1(3), of 1] u by auto
      obtain b2 where b2: "Sync b1 = Some (b2, snd (sync_list (y # bs)))" "sb_inv b2"
        "unread b2 = fst (sync_list (y # bs))" "sb_M_SIZE b2 = sb_M_SIZE b"
        "sb_pBuffer b2 = sb_pBuffer b"
        using 1(1)[OF True _ b1(1) _ b1(2)] no xy b1 by auto
      have "Sync b = Sync b1" using True no xy b1(1) by (subst Sync.simps) auto
      with b2 no u show ?thesis by (intro 1(2)[of b2]) auto
    qed
  qed
qed

lemma length_sync_list: "length (fst (sync_list bs)) \<le> length bs"
  by (induction bs rule: sync_list.induct) auto

lemma sync_list_True:
  "snd (sync_list bs) \<Longrightarrow> \<exists>rest. fst (sync_list bs) = 0x05 # 0x64 # rest"
  by (induction bs rule: sync_list.induct) auto

lemma sync_list_False: "\<not> snd (sync_list bs) \<Longrightarrow> length (fst (sync_list bs)) \<le> 1"
  by (induction bs rule: sync_list.induct) auto

lemma sync_list_start [simp]: "sync_list (0x05 # 0x64 # bs) = (0x05 # 0x64 # bs, True)"
  by simp

end
