(* ===== verification/LinkLayerParser.thy ===== *)
theory LinkLayerParser
  imports ShiftableBuffer
begin

text \<open>
  \<^verbatim>\<open>link/LinkLayerParser\<close>: the receiver's frame parser, a state machine over the shiftable buffer.
  The user data of a complete frame are copied to the front of the same array the unread bytes
  live in, which the model keeps as one list; \<open>None\<close> is a failed \<^verbatim>\<open>assert\<close>.  Both loops of the
  source are total functions here: their termination proofs are part of the definitions.
\<close>

record LinkChannelStatistics =
  numCrcError :: uint32
  numLinkFrameTx :: uint32
  numLinkFrameRx :: uint32
  numBadLinkFrameRx :: uint32

datatype ParserState = FindSync | ReadHeaderState | ReadBody | Complete

record LinkLayerParser =
  lp_pStatistics :: "LinkChannelStatistics option"
  lp_header :: LinkHeader
  lp_state :: ParserState
  lp_frameSize :: nat
  lp_userData :: nat \<comment> \<open>size of the slice; it starts at the front of the receive buffer\<close>
  lp_buffer :: ShiftableBuffer

definition LinkLayerParser_make :: "LinkChannelStatistics option \<Rightarrow> bytes \<Rightarrow> LinkLayerParser" where
  "LinkLayerParser_make stats rxBuffer =
     \<lparr>lp_pStatistics = stats, lp_header = LinkHeader_default, lp_state = FindSync,
      lp_frameSize = 0, lp_userData = 0,
      lp_buffer = ShiftableBuffer_make rxBuffer LPDU_MAX_FRAME_SIZE\<rparr>"

definition LinkLayerParser_Reset :: "LinkLayerParser \<Rightarrow> LinkLayerParser" where
  "LinkLayerParser_Reset p =
     p\<lparr>lp_state := FindSync, lp_frameSize := 0,
       lp_buffer := ShiftableBuffer_Reset (lp_buffer p)\<rparr>"

definition count_stat ::
  "((uint32 \<Rightarrow> uint32) \<Rightarrow> LinkChannelStatistics \<Rightarrow> LinkChannelStatistics) \<Rightarrow> LinkLayerParser \<Rightarrow> LinkLayerParser" where
  "count_stat upd p = p\<lparr>lp_pStatistics := map_option (upd (\<lambda>n. n + 1)) (lp_pStatistics p)\<rparr>"

section \<open>Header validation\<close>

definition ValidateFunctionCode :: "LinkHeader \<Rightarrow> bool" where
  "ValidateFunctionCode h =
     (if IsPriToSec h
      then (let fcv_ok = (\<lambda>fcv_set. fcv_set = IsFcvDfcSet h) in
            case GetFuncEnum h of
              PRI_CONFIRMED_USER_DATA \<Rightarrow> fcv_ok True
            | PRI_TEST_LINK_STATES \<Rightarrow> fcv_ok True
            | PRI_REQUEST_LINK_STATUS \<Rightarrow> fcv_ok False
            | PRI_RESET_LINK_STATES \<Rightarrow> fcv_ok False
            | PRI_UNCONFIRMED_USER_DATA \<Rightarrow> fcv_ok False
            | _ \<Rightarrow> False)
      else (case GetFuncEnum h of
              SEC_ACK \<Rightarrow> \<not> IsFcbSet h
            | SEC_NACK \<Rightarrow> \<not> IsFcbSet h
            | SEC_LINK_STATUS \<Rightarrow> \<not> IsFcbSet h
            | SEC_NOT_SUPPORTED \<Rightarrow> \<not> IsFcbSet h
            | _ \<Rightarrow> False))"

definition is_user_data :: "LinkFunction \<Rightarrow> bool" where
  "is_user_data func \<longleftrightarrow> func = PRI_CONFIRMED_USER_DATA \<or> func = PRI_UNCONFIRMED_USER_DATA"

text \<open>The user data length as the source computes it, a \<^verbatim>\<open>uint8_t\<close> difference.\<close>

definition user_data_length :: "LinkHeader \<Rightarrow> uint8" where
  "user_data_length h = h_length h - word_of_nat LPDU_MIN_LENGTH"

definition ValidateHeaderParameters :: "LinkLayerParser \<Rightarrow> LinkLayerParser \<times> bool" where
  "ValidateHeaderParameters p =
     (let h = lp_header p in
      if \<not> ValidLength h then (p, False)
      else if \<not> ValidateFunctionCode h then (p, False)
      else
        let udl = user_data_length h;
            p = p\<lparr>lp_frameSize := CalcFrameSize (unat udl)\<rparr>;
            func = GetFuncEnum h
        in if is_user_data func
           then if udl > 0
                then let p = p\<lparr>lp_frameSize := CalcFrameSize (unat udl)\<rparr>
                     in if udl > 0 then (if is_user_data func then (p, True) else (p, False))
                        else (if is_user_data func then (p, False) else (p, True))
                else (p, False)
           else if udl > 0
                then (p, False)
                else if udl > 0 then (if is_user_data func then (p, True) else (p, False))
                     else (if is_user_data func then (p, False) else (p, True)))"

definition ReadHeader :: "LinkLayerParser \<Rightarrow> LinkLayerParser \<times> bool" where
  "ReadHeader p =
     (let b = lp_buffer p;
          p = p\<lparr>lp_header := LinkHeader_Read (sb_pBuffer b) (sb_readPos b)\<rparr>
      in if IsCorrectCRC (sb_pBuffer b) (sb_readPos b) LI_CRC
         then (case ValidateHeaderParameters p of
                 (p, True) \<Rightarrow> (p, True)
               | (p, False) \<Rightarrow> (count_stat numBadLinkFrameRx_update p, False))
         else (count_stat numCrcError_update p, False))"

section \<open>Body\<close>

text \<open>\<^verbatim>\<open>uint32_t len = header.GetLength() - LPDU_MIN_LENGTH\<close>\<close>

definition body_length :: "LinkHeader \<Rightarrow> uint32" where
  "body_length h = ucast (h_length h) - word_of_nat LPDU_MIN_LENGTH"

definition ValidateBody :: "LinkLayerParser \<Rightarrow> LinkLayerParser \<times> bool" where
  "ValidateBody p =
     (let len = unat (body_length (lp_header p)); b = lp_buffer p
      in if ValidateBodyCRC (sb_pBuffer b) (sb_readPos b + LPDU_HEADER_SIZE) len
         then (p, True)
         else (count_stat numCrcError_update p, False))"

definition TransferUserData :: "LinkLayerParser \<Rightarrow> LinkLayerParser" where
  "TransferUserData p =
     (let len = unat (body_length (lp_header p)); b = lp_buffer p
      in p\<lparr>lp_buffer := b\<lparr>sb_pBuffer :=
              ReadUserData (sb_pBuffer b) (sb_readPos b + LPDU_HEADER_SIZE) 0 len\<rparr>,
           lp_userData := len\<rparr>)"

definition FailFrame :: "LinkLayerParser \<Rightarrow> LinkLayerParser option" where
  "FailFrame p = map_option (\<lambda>b. p\<lparr>lp_buffer := b\<rparr>) (AdvanceRead (lp_buffer p) 1)"

text \<open>\<open>PushFrame\<close> hands the frame to the sink and consumes its bytes.\<close>

definition PushFrame :: "LinkLayerParser \<Rightarrow> (LinkLayerParser \<times> (LinkHeaderFields \<times> bytes)) option" where
  "PushFrame p =
     (let header = lp_header p;
          fields = \<lparr>f_func = GetFuncEnum header, f_isFromMaster = IsFromMaster header,
            f_fcb = IsFcbSet header, f_fcvdfc = IsFcvDfcSet header,
            f_dest = h_dest header, f_src = h_src header\<rparr>;
          userData = take (lp_userData p) (sb_pBuffer (lp_buffer p))
      in map_option (\<lambda>b. (p\<lparr>lp_buffer := b\<rparr>, (fields, userData)))
           (AdvanceRead (lp_buffer p) (lp_frameSize p)))"

section \<open>The parser's steps\<close>

definition ParseSync :: "LinkLayerParser \<Rightarrow> (LinkLayerParser \<times> ParserState) option" where
  "ParseSync p =
     (if NumBytesRead (lp_buffer p) \<ge> 10
      then (case Sync (lp_buffer p) of
              None \<Rightarrow> None
            | Some (b, found) \<Rightarrow> Some (p\<lparr>lp_buffer := b\<rparr>, if found then ReadHeaderState else FindSync))
      else Some (p, FindSync))"

definition ParseHeader :: "LinkLayerParser \<Rightarrow> (LinkLayerParser \<times> ParserState) option" where
  "ParseHeader p =
     (if NumBytesRead (lp_buffer p) \<ge> 10
      then (case ReadHeader p of
              (p, True) \<Rightarrow> Some (p, ReadBody)
            | (p, False) \<Rightarrow> map_option (\<lambda>p. (p, FindSync)) (FailFrame p))
      else Some (p, ReadHeaderState))"

definition ParseBody :: "LinkLayerParser \<Rightarrow> (LinkLayerParser \<times> ParserState) option" where
  "ParseBody p =
     (if NumBytesRead (lp_buffer p) < lp_frameSize p
      then Some (p, ReadBody)
      else (case ValidateBody p of
              (p, True) \<Rightarrow> Some (TransferUserData p, Complete)
            | (p, False) \<Rightarrow> map_option (\<lambda>p. (p, FindSync)) (FailFrame p)))"

definition ParseOneStep :: "LinkLayerParser \<Rightarrow> (LinkLayerParser \<times> ParserState) option" where
  "ParseOneStep p =
     (case lp_state p of
        FindSync \<Rightarrow> ParseSync p
      | ReadHeaderState \<Rightarrow> ParseHeader p
      | ReadBody \<Rightarrow> ParseBody p
      | Complete \<Rightarrow> Some (p, lp_state p))"

text \<open>
  Every step that changes the state makes progress: it consumes bytes, or moves on towards
  \<open>Complete\<close> with the same bytes.
\<close>

fun state_rank :: "ParserState \<Rightarrow> nat" where
  "state_rank FindSync = 3"
| "state_rank ReadHeaderState = 2"
| "state_rank ReadBody = 1"
| "state_rank Complete = 0"

abbreviation parser_bytes :: "LinkLayerParser \<Rightarrow> nat" where
  "parser_bytes p \<equiv> NumBytesRead (lp_buffer p)"

lemma NumBytesRead_pBuffer [simp]: "NumBytesRead (b\<lparr>sb_pBuffer := xs\<rparr>) = NumBytesRead b"
  by (simp add: NumBytesRead_def)

lemma count_stat_sel [simp]:
  "lp_header (count_stat u p) = lp_header p" "lp_state (count_stat u p) = lp_state p"
  "lp_frameSize (count_stat u p) = lp_frameSize p" "lp_userData (count_stat u p) = lp_userData p"
  "lp_buffer (count_stat u p) = lp_buffer p"
  by (simp_all add: count_stat_def)

lemma Sync_bytes: "Sync b = Some (b', r) \<Longrightarrow> NumBytesRead b' \<le> NumBytesRead b"
proof (induction b rule: Sync.induct)
  case (1 b)
  show ?case
  proof (cases "1 < NumBytesRead b \<and> \<not> (sb_pBuffer b ! sb_readPos b = 0x05 \<and>
      sb_pBuffer b ! (sb_readPos b + 1) = 0x64)")
    case True
    with "1.prems" obtain b1 where b1: "AdvanceRead b 1 = Some b1" "Sync b1 = Some (b', r)"
      by (subst (asm) Sync.simps) (auto split: option.splits if_splits)
    from True 1(1)[OF _ _ b1] AdvanceRead_decreases[OF b1(1)] show ?thesis by auto
  next
    case False
    with "1.prems" show ?thesis by (subst (asm) Sync.simps) (auto split: if_splits)
  qed
qed

text \<open>The header checks, without the buffer: what a header must satisfy to be accepted.\<close>

definition valid_header :: "LinkHeader \<Rightarrow> bool" where
  "valid_header h \<longleftrightarrow> ValidLength h \<and> ValidateFunctionCode h
     \<and> (is_user_data (GetFuncEnum h) \<longleftrightarrow> user_data_length h > 0)"

lemma ValidateHeaderParameters_eq:
  "ValidateHeaderParameters p =
     (let h = lp_header p
      in (if ValidLength h \<and> ValidateFunctionCode h
          then p\<lparr>lp_frameSize := CalcFrameSize (unat (user_data_length h))\<rparr> else p,
          valid_header h))"
  by (simp add: ValidateHeaderParameters_def valid_header_def Let_def)

lemma ReadHeader_eq:
  "ReadHeader p =
     (let b = lp_buffer p; h = LinkHeader_Read (sb_pBuffer b) (sb_readPos b); p1 = p\<lparr>lp_header := h\<rparr>;
          p2 = (if ValidLength h \<and> ValidateFunctionCode h
                then p1\<lparr>lp_frameSize := CalcFrameSize (unat (user_data_length h))\<rparr> else p1)
      in if IsCorrectCRC (sb_pBuffer b) (sb_readPos b) LI_CRC
         then if valid_header h then (p2, True) else (count_stat numBadLinkFrameRx_update p2, False)
         else (count_stat numCrcError_update p1, False))"
  by (auto simp: ReadHeader_def ValidateHeaderParameters_eq Let_def)

lemma ReadHeader_bytes: "ReadHeader p = (p', r) \<Longrightarrow> lp_buffer p' = lp_buffer p"
  by (auto simp: ReadHeader_eq Let_def split: if_splits)

lemma ValidateBody_bytes: "ValidateBody p = (p', r) \<Longrightarrow> lp_buffer p' = lp_buffer p"
  by (auto simp: ValidateBody_def Let_def split: if_splits)

lemma FailFrame_bytes:
  "FailFrame p = Some p' \<Longrightarrow> parser_bytes p' < parser_bytes p"
  by (auto simp: FailFrame_def dest: AdvanceRead_decreases)

lemma ParseOneStep_progress:
  assumes "ParseOneStep p = Some (p', s)" "s \<noteq> lp_state p"
  shows "parser_bytes p' < parser_bytes p \<or>
    parser_bytes p' = parser_bytes p \<and> state_rank s < state_rank (lp_state p)"
proof (cases "lp_state p")
  case FindSync
  with assms show ?thesis
    by (auto simp: ParseOneStep_def ParseSync_def split: if_splits option.splits dest!: Sync_bytes)
next
  case ReadHeaderState
  with assms show ?thesis
    by (auto simp: ParseOneStep_def ParseHeader_def split: if_splits option.splits prod.splits bool.splits
        dest!: FailFrame_bytes ReadHeader_bytes)
next
  case ReadBody
  with assms show ?thesis
    by (auto simp: ParseOneStep_def ParseBody_def TransferUserData_def Let_def
        split: if_splits option.splits prod.splits bool.splits
        dest!: FailFrame_bytes ValidateBody_bytes)
qed (use assms in \<open>simp add: ParseOneStep_def\<close>)

section \<open>The parser's loops\<close>

text \<open>
  \<^verbatim>\<open>while ((this->state = ParseOneStep()) != lastState) lastState = state;\<close>\ \ at the head of each
  iteration \<open>lastState\<close> is the current state.
\<close>

function ParseUntilComplete :: "LinkLayerParser \<Rightarrow> LinkLayerParser option" where
  "ParseUntilComplete p =
     (let lastState = lp_state p in
      case ParseOneStep p of
        None \<Rightarrow> None
      | Some (p', s) \<Rightarrow>
          if s \<noteq> lastState then ParseUntilComplete (p'\<lparr>lp_state := s\<rparr>)
          else Some (p'\<lparr>lp_state := s\<rparr>))"
  by pat_completeness auto
termination
  by (relation "measures [parser_bytes, \<lambda>p. state_rank (lp_state p)]")
    (auto dest: ParseOneStep_progress)

declare ParseUntilComplete.simps [simp del]

lemma ParseUntilComplete_bytes:
  "ParseUntilComplete p = Some p' \<Longrightarrow> parser_bytes p' \<le> parser_bytes p"
proof (induction p rule: ParseUntilComplete.induct)
  case (1 p)
  from "1.prems" obtain p1 s where step: "ParseOneStep p = Some (p1, s)"
    by (subst (asm) ParseUntilComplete.simps) (auto split: option.splits)
  show ?case
  proof (cases "s = lp_state p")
    case True
    with "1.prems" step have p': "p' = p1\<lparr>lp_state := s\<rparr>"
      by (subst (asm) ParseUntilComplete.simps) simp
    from step True have "parser_bytes p1 \<le> parser_bytes p"
      by (cases "lp_state p") (auto simp: ParseOneStep_def ParseSync_def ParseHeader_def ParseBody_def
          split: if_splits option.splits prod.splits bool.splits dest!: Sync_bytes)
    with p' show ?thesis by simp
  next
    case False
    with "1.prems" step have "ParseUntilComplete (p1\<lparr>lp_state := s\<rparr>) = Some p'"
      by (subst (asm) ParseUntilComplete.simps) simp
    from 1(1)[OF refl step refl False this] ParseOneStep_progress[OF step False]
    show ?thesis by auto
  qed
qed

text \<open>A frame is only complete once its header has fixed a frame size of at least ten bytes.\<close>

definition frame_ready :: "LinkLayerParser \<Rightarrow> bool" where
  "frame_ready p \<longleftrightarrow> lp_state p = FindSync \<or> lp_state p = ReadHeaderState \<or> 10 \<le> lp_frameSize p"

lemma ParseOneStep_frame_ready:
  assumes "ParseOneStep p = Some (p', s)" "frame_ready p"
  shows "frame_ready (p'\<lparr>lp_state := s\<rparr>)"
proof (cases "lp_state p")
  case ReadHeaderState
  with assms show ?thesis
    by (auto simp: ParseOneStep_def ParseHeader_def ReadHeader_eq Let_def frame_ready_def
        valid_header_def CalcFrameSize_def lpdu_consts split: if_splits)
qed (use assms in \<open>auto simp: ParseOneStep_def ParseSync_def ParseBody_def ValidateBody_def
    TransferUserData_def Let_def frame_ready_def split: if_splits option.splits\<close>)

lemma ParseUntilComplete_frame_ready:
  "ParseUntilComplete p = Some p' \<Longrightarrow> frame_ready p \<Longrightarrow> frame_ready p'"
proof (induction p rule: ParseUntilComplete.induct)
  case (1 p)
  from "1.prems"(1) obtain p1 s where step: "ParseOneStep p = Some (p1, s)"
    by (subst (asm) ParseUntilComplete.simps) (auto split: option.splits)
  note ready = ParseOneStep_frame_ready[OF step "1.prems"(2)]
  show ?case
  proof (cases "s = lp_state p")
    case True
    with "1.prems"(1) step ready show ?thesis
      by (subst (asm) ParseUntilComplete.simps) auto
  next
    case False
    with "1.prems"(1) step have "ParseUntilComplete (p1\<lparr>lp_state := s\<rparr>) = Some p'"
      by (subst (asm) ParseUntilComplete.simps) simp
    from 1(1)[OF refl step refl False this ready] show ?thesis .
  qed
qed

lemma PushFrame_bytes:
  "PushFrame p = Some (p', f) \<Longrightarrow>
     parser_bytes p' + lp_frameSize p = parser_bytes p \<and> lp_state p' = lp_state p"
  by (auto simp: PushFrame_def Let_def AdvanceRead_def NumBytesRead_def split: if_splits)

text \<open>The body of the loop of \<open>OnRead\<close>; the frames are those handed to the sink, in order.\<close>

function OnReadLoop ::
  "LinkLayerParser \<Rightarrow> (LinkHeaderFields \<times> bytes) list \<Rightarrow>
     (LinkLayerParser \<times> (LinkHeaderFields \<times> bytes) list) option" where
  "OnReadLoop p sink =
     (case ParseUntilComplete p of
        None \<Rightarrow> None
      | Some p1 \<Rightarrow>
          if lp_state p1 = Complete
          then (case PushFrame (count_stat numLinkFrameRx_update p1) of
                  None \<Rightarrow> None
                | Some (p2, frame) \<Rightarrow> OnReadLoop (p2\<lparr>lp_state := FindSync\<rparr>) (sink @ [frame]))
          else Some (p1, sink))"
  by pat_completeness auto
termination
proof (relation "measures [\<lambda>(p, _). parser_bytes p, \<lambda>(p, _). if lp_state p = FindSync then 0 else 1]")
  fix p sink p1 pair p2 and frame :: "LinkHeaderFields \<times> bytes"
  assume until: "ParseUntilComplete p = Some p1" and complete: "lp_state p1 = Complete"
    and push: "PushFrame (count_stat numLinkFrameRx_update p1) = Some pair" and pair: "(p2, frame) = pair"
  from push pair have bytes: "parser_bytes p2 + lp_frameSize p1 = parser_bytes p1"
    using PushFrame_bytes[of "count_stat numLinkFrameRx_update p1" p2 frame] by simp
  have le: "parser_bytes p1 \<le> parser_bytes p" by (rule ParseUntilComplete_bytes[OF until])
  have "10 \<le> lp_frameSize p1" if "lp_state p = FindSync"
    using ParseUntilComplete_frame_ready[OF until] that complete by (simp add: frame_ready_def)
  with bytes le
  show "((p2\<lparr>lp_state := FindSync\<rparr>, sink @ [frame]), (p, sink))
      \<in> measures [\<lambda>(p, _). parser_bytes p, \<lambda>(p, _). if lp_state p = FindSync then 0 else 1]"
    by (cases "lp_state p = FindSync") auto
qed simp

declare OnReadLoop.simps [simp del]

definition OnRead ::
  "LinkLayerParser \<Rightarrow> nat \<Rightarrow> (LinkLayerParser \<times> (LinkHeaderFields \<times> bytes) list) option" where
  "OnRead p numBytes =
     (case AdvanceWrite (lp_buffer p) numBytes of
        None \<Rightarrow> None
      | Some b \<Rightarrow>
          (case OnReadLoop (p\<lparr>lp_buffer := b\<rparr>) [] of
             None \<Rightarrow> None
           | Some (p, frames) \<Rightarrow> Some (p\<lparr>lp_buffer := Shift (lp_buffer p)\<rparr>, frames)))"

text \<open>The channel writes at \<open>WriteBuff()\<close> and then calls \<open>OnRead\<close>.\<close>

definition receive ::
  "LinkLayerParser \<Rightarrow> bytes \<Rightarrow> (LinkLayerParser \<times> (LinkHeaderFields \<times> bytes) list) option" where
  "receive p bs = OnRead (p\<lparr>lp_buffer := WriteBuff_fill (lp_buffer p) bs\<rparr>) (length bs)"

end
