(* ===== verification/LinkStream.thy ===== *)
theory LinkStream
  imports LinkLayerParser
begin

text \<open>
  An abstract specification of the link receiver, and the proof that the parser implements it.
  \<open>link_parse\<close> reads a byte stream with no buffer, no state machine and no positions: it says which
  frames are in the stream and which bytes are left over.  \<open>link_parse_append\<close> shows that the stream may
  be cut anywhere; \<open>parser_rel\<close> relates a parser to the result still to be produced, and each step
  (\<open>ParseOneStep_rel\<close>), the inner loop (\<open>ParseUntilComplete_rel\<close>) and the outer loop (\<open>OnReadLoop_rel\<close>)
  keep it, without a failed assertion.
\<close>

section \<open>What the parser computes, on the byte stream\<close>

definition header_fields :: "LinkHeader \<Rightarrow> LinkHeaderFields" where
  "header_fields h = \<lparr>f_func = GetFuncEnum h, f_isFromMaster = IsFromMaster h,
     f_fcb = IsFcbSet h, f_fcvdfc = IsFcvDfcSet h, f_dest = h_dest h, f_src = h_src h\<rparr>"

definition header_at :: "bytes \<Rightarrow> LinkHeader option" where
  "header_at v =
     (if IsCorrectCRC v 0 8 \<and> valid_header (LinkHeader_Read v 0)
      then Some (LinkHeader_Read v 0) else None)"

definition data_size :: "LinkHeader \<Rightarrow> nat" where
  "data_size h = unat (user_data_length h)"

fun deblock :: "bytes \<Rightarrow> nat \<Rightarrow> bytes" where
  "deblock v n = (if n = 0 then [] else take (min 16 n) v @ deblock (drop (min 16 n + 2) v) (n - min 16 n))"

declare deblock.simps [simp del]

function link_parse :: "bytes \<Rightarrow> (LinkHeaderFields \<times> bytes) list \<times> bytes" where
  "link_parse u =
     (let v = fst (sync_list u) in
      if length v < 10 then ([], v)
      else case header_at v of
             None \<Rightarrow> link_parse (tl v)
           | Some h \<Rightarrow>
               if length v < CalcFrameSize (data_size h) then ([], v)
               else if ValidateBodyCRC v 10 (data_size h)
                    then let rest = link_parse (drop (CalcFrameSize (data_size h)) v)
                         in ((header_fields h, deblock (drop 10 v) (data_size h)) # fst rest, snd rest)
                    else link_parse (tl v))"
  by pat_completeness auto
termination
proof (relation "measure length")
  fix u v
  assume "v = fst (sync_list u)" "\<not> length v < 10"
  then show "(tl v, u) \<in> measure length"
    using length_sync_list[of u] by (cases v) auto
  then show "(tl v, u) \<in> measure length" .
next
  fix u v h
  assume "v = fst (sync_list u)" "\<not> length v < 10"
  then show "(drop (CalcFrameSize (data_size h)) v, u) \<in> measure length"
    using length_sync_list[of u] by (simp add: CalcFrameSize_def lpdu_consts)
qed simp

declare link_parse.simps [simp del]

lemma sync_list_idem [simp]: "sync_list (fst (sync_list u)) = sync_list u"
  by (induction u rule: sync_list.induct) auto

lemma sync_list_append: "sync_list (u @ x) = sync_list (fst (sync_list u) @ x)"
  by (induction u rule: sync_list.induct) auto

lemma sync_list_append_True: "snd (sync_list u) \<Longrightarrow> sync_list (u @ x) = (fst (sync_list u) @ x, True)"
  by (induction u rule: sync_list.induct) auto

lemma link_parse_sync: "link_parse (fst (sync_list u)) = link_parse u"
  by (subst (1 2) link_parse.simps) simp

lemma link_parse_sync_append: "link_parse (fst (sync_list u) @ x) = link_parse (u @ x)"
  by (subst (1 2) link_parse.simps) (simp flip: sync_list_append)

section \<open>Locality of the checks\<close>

lemma UInt16_Read_take_drop:
  "off + i + 2 \<le> length buf \<Longrightarrow> i + 2 \<le> n \<Longrightarrow> UInt16_Read (take n (drop off buf)) i = UInt16_Read buf (off + i)"
  by (simp add: UInt16_Read_def ac_simps)

lemma IsCorrectCRC_take_drop:
  "off + i + k + 2 \<le> length buf \<Longrightarrow> i + k + 2 \<le> n \<Longrightarrow>
     IsCorrectCRC (take n (drop off buf)) i k = IsCorrectCRC buf (off + i) k"
  using UInt16_Read_take_drop[of off "i + k" buf n]
  by (simp add: IsCorrectCRC_def drop_take ac_simps min_def)

lemma ValidateBodyCRC_take_drop:
  "off + i + CalcUserDataSize k \<le> length buf \<Longrightarrow> i + CalcUserDataSize k \<le> n \<Longrightarrow>
     ValidateBodyCRC (take n (drop off buf)) i k = ValidateBodyCRC buf (off + i) k"
proof (induction k arbitrary: i rule: less_induct)
  case (less k)
  show ?case
  proof (cases "k = 0")
    case False
    define m where "m = min 16 k"
    have m: "m > 0" "m \<le> k" "k - m < k" using False by (auto simp: m_def)
    have size: "CalcUserDataSize k = m + 2 + CalcUserDataSize (k - m)"
      using False CalcUserDataSize_step[of k] by (simp add: m_def)
    with less.prems have "off + i + m + 2 \<le> length buf" "i + m + 2 \<le> n"
      "off + (i + (m + 2)) + CalcUserDataSize (k - m) \<le> length buf"
      "i + (m + 2) + CalcUserDataSize (k - m) \<le> n" by simp_all
    with less.IH[OF m(3), of "i + (m + 2)"] IsCorrectCRC_take_drop[of off i m buf n]
    show ?thesis
      using False ValidateBodyCRC_step[of k "take n (drop off buf)" i] ValidateBodyCRC_step[of k buf "off + i"]
      by (simp add: m_def ac_simps)
  qed simp
qed

lemma LinkHeader_Read_take_drop:
  "off + 10 \<le> length buf \<Longrightarrow> 10 \<le> n \<Longrightarrow> LinkHeader_Read (take n (drop off buf)) 0 = LinkHeader_Read buf off"
  by (simp add: LinkHeader_Read_def li_consts UInt16_Read_take_drop[of off 4 buf n, simplified]
      UInt16_Read_take_drop[of off 6 buf n, simplified])

lemma take_append_le: "n \<le> length v \<Longrightarrow> take n (v @ x) = take n v" by simp

lemma header_at_append: "10 \<le> length v \<Longrightarrow> header_at (v @ x) = header_at v"
  using IsCorrectCRC_take_drop[of 0 0 8 v 10] IsCorrectCRC_take_drop[of 0 0 8 "v @ x" 10]
    LinkHeader_Read_take_drop[of 0 v 10] LinkHeader_Read_take_drop[of 0 "v @ x" 10]
  by (simp add: header_at_def)

lemma ValidateBodyCRC_append:
  "i + CalcUserDataSize k \<le> length v \<Longrightarrow> ValidateBodyCRC (v @ x) i k = ValidateBodyCRC v i k"
  using ValidateBodyCRC_take_drop[of 0 i k v "length v"] ValidateBodyCRC_take_drop[of 0 i k "v @ x" "length v"]
  by simp

lemma deblock_append:
  "CalcUserDataSize k \<le> length v \<Longrightarrow> deblock (v @ x) k = deblock v k"
proof (induction k arbitrary: v rule: less_induct)
  case (less k)
  show ?case
  proof (cases "k = 0")
    case True then show ?thesis by (simp add: deblock.simps)
  next
    case False
    define m where "m = min 16 k"
    have m: "m > 0" "m \<le> k" "k - m < k" using False by (auto simp: m_def)
    have size: "CalcUserDataSize k = m + 2 + CalcUserDataSize (k - m)"
      using False CalcUserDataSize_step[of k] by (simp add: m_def)
    with less.prems have "CalcUserDataSize (k - m) \<le> length (drop (m + 2) v)" "m + 2 \<le> length v" by simp_all
    with less.IH[OF m(3), of "drop (m + 2) v"] False show ?thesis
      by (subst (1 2) deblock.simps) (simp add: m_def[symmetric])
  qed
qed

lemma deblock_holds_body: "holds_body buf p src \<Longrightarrow> deblock (drop p buf) (length src) = src"
proof (induction src arbitrary: p rule: frame_body.induct)
  case (1 src)
  show ?case
  proof (cases "src = []")
    case True then show ?thesis by (simp add: deblock.simps)
  next
    case False
    let ?m = "min 16 (length src)"
    have t: "take ?m (drop p buf) = take 16 src"
    proof -
      have "take ?m (drop p buf) = take ?m (take (?m + 2) (drop p buf))" by simp
      also have "\<dots> = take 16 src" unfolding holds_body_step(1)[OF False 1(2)] by (rule take_prefix) simp
      finally show ?thesis .
    qed
    have "deblock (drop (p + (?m + 2)) buf) (length (drop 16 src)) = drop 16 src"
      using 1(1)[OF False refl holds_body_step(2)[OF False 1(2)]] .
    moreover have "length src - ?m = length (drop 16 src)" by (auto simp: min_def)
    ultimately show ?thesis using False t by (subst deblock.simps) (simp add: ac_simps)
  qed
qed

section \<open>The stream may be cut anywhere\<close>

lemma link_parse_append:
  "link_parse (u @ x) = (let (fs, r) = link_parse u; (gs, t) = link_parse (r @ x) in (fs @ gs, t))"
proof (induction u rule: link_parse.induct)
  case (1 u)
  define v where "v = fst (sync_list u)"
  have vx: "link_parse (u @ x) = link_parse (v @ x)" by (simp add: v_def link_parse_sync_append)
  have u: "link_parse u = link_parse v" by (simp add: v_def link_parse_sync)
  show ?case
  proof (cases "length v < 10")
    case True
    then have "link_parse u = ([], v)" by (simp add: link_parse.simps[of u] flip: v_def)
    with vx show ?thesis by (simp split: prod.splits)
  next
    case False
    then have long: "10 \<le> length v" by simp
    then have found: "snd (sync_list u)" using sync_list_False[of u] by (fastforce simp: v_def)
    have sv: "fst (sync_list v) = v" by (simp add: v_def)
    have svx: "fst (sync_list (v @ x)) = v @ x"
      using sync_list_append_True[OF found, of x] sync_list_append[of u x] by (simp add: v_def)
    have tlvx: "tl (v @ x) = tl v @ x" using long by (cases v) auto
    show ?thesis
    proof (cases "header_at v")
      case None
      have "link_parse (v @ x) = link_parse (tl v @ x)"
        using long None tlvx by (subst link_parse.simps) (simp add: svx header_at_append Let_def)
      moreover have "link_parse u = link_parse (tl v)"
        unfolding u using long None by (subst link_parse.simps) (simp add: sv Let_def)
      ultimately show ?thesis using 1(1)[OF v_def False None] vx by simp
    next
      case (Some h)
      define n where "n = data_size h"
      show ?thesis
      proof (cases "length v < CalcFrameSize n")
        case True
        then have "link_parse u = ([], v)"
          unfolding u using long Some by (subst link_parse.simps) (simp add: sv Let_def n_def)
        with vx show ?thesis by (simp split: prod.splits)
      next
        case fits: False
        then have body: "ValidateBodyCRC (v @ x) 10 n = ValidateBodyCRC v 10 n"
          by (intro ValidateBodyCRC_append) (simp add: CalcFrameSize_def lpdu_consts)
        show ?thesis
        proof (cases "ValidateBodyCRC v 10 n")
          case valid: True
          have data: "deblock (drop 10 (v @ x)) n = deblock (drop 10 v) n"
            using long fits deblock_append[of n "drop 10 v" x] by (simp add: CalcFrameSize_def lpdu_consts)
          have "link_parse (v @ x) = (let rest = link_parse (drop (CalcFrameSize n) v @ x) in
              ((header_fields h, deblock (drop 10 v) n) # fst rest, snd rest))"
            using long Some fits valid body data
            by (subst link_parse.simps) (simp add: svx header_at_append Let_def flip: n_def)
          moreover have "link_parse u = (let rest = link_parse (drop (CalcFrameSize n) v) in
              ((header_fields h, deblock (drop 10 v) n) # fst rest, snd rest))"
            unfolding u using long Some fits valid by (subst link_parse.simps) (simp add: sv Let_def flip: n_def)
          ultimately show ?thesis
            using 1(2)[OF v_def False Some] fits valid vx by (simp add: n_def Let_def split: prod.splits)
        next
          case invalid: False
          have "link_parse (v @ x) = link_parse (tl v @ x)"
            using long Some fits invalid body tlvx
            by (subst link_parse.simps) (simp add: svx header_at_append Let_def flip: n_def)
          moreover have "link_parse u = link_parse (tl v)"
            unfolding u using long Some fits invalid by (subst link_parse.simps) (simp add: sv Let_def flip: n_def)
          ultimately show ?thesis using 1(3)[OF v_def False Some] fits invalid vx by (simp add: n_def)
        qed
      qed
    qed
  qed
qed

section \<open>The parser refines the stream function\<close>

abbreviation parser_unread :: "LinkLayerParser \<Rightarrow> bytes" where
  "parser_unread p \<equiv> unread (lp_buffer p)"

definition synced :: "bytes \<Rightarrow> bool" where
  "synced u \<longleftrightarrow> sync_list u = (u, True)"

lemma synced_sync_list: "snd (sync_list u) \<Longrightarrow> synced (fst (sync_list u))"
  by (metis synced_def prod.collapse sync_list_idem)

lemma synced_append: "synced u \<Longrightarrow> synced (u @ x)"
  using sync_list_append_True[of u x] by (simp add: synced_def)

lemma synced_fst [simp]: "synced u \<Longrightarrow> fst (sync_list u) = u"
  by (simp add: synced_def)

definition parser_rel :: "LinkLayerParser \<Rightarrow> (LinkHeaderFields \<times> bytes) list \<times> bytes \<Rightarrow> bool" where
  "parser_rel p S \<longleftrightarrow>
     sb_inv (lp_buffer p) \<and> sb_M_SIZE (lp_buffer p) = LPDU_MAX_FRAME_SIZE \<and>
     (let u = parser_unread p in
      case lp_state p of
        FindSync \<Rightarrow> link_parse u = S
      | ReadHeaderState \<Rightarrow> synced u \<and> link_parse u = S
      | ReadBody \<Rightarrow> synced u \<and> 10 \<le> length u \<and> header_at u = Some (lp_header p)
          \<and> lp_frameSize p = CalcFrameSize (data_size (lp_header p)) \<and> link_parse u = S
      | Complete \<Rightarrow> 10 \<le> lp_frameSize p \<and> lp_frameSize p \<le> length u \<and>
          (let rest = link_parse (drop (lp_frameSize p) u)
           in S = ((header_fields (lp_header p), take (lp_userData p) (sb_pBuffer (lp_buffer p))) # fst rest,
                   snd rest)))"

text \<open>The parser is waiting for more bytes, or has a frame.\<close>

definition waiting :: "LinkLayerParser \<Rightarrow> bool" where
  "waiting p \<longleftrightarrow> (case lp_state p of
     FindSync \<Rightarrow> length (parser_unread p) < 10
   | ReadHeaderState \<Rightarrow> length (parser_unread p) < 10
   | ReadBody \<Rightarrow> length (parser_unread p) < lp_frameSize p
   | Complete \<Rightarrow> True)"

lemma parser_rel_inv: "parser_rel p S \<Longrightarrow> sb_inv (lp_buffer p) \<and> sb_M_SIZE (lp_buffer p) = LPDU_MAX_FRAME_SIZE"
  by (simp add: parser_rel_def)

lemma unread_checks:
  assumes "sb_inv b"
  shows "10 \<le> length (unread b) \<Longrightarrow> LinkHeader_Read (sb_pBuffer b) (sb_readPos b) = LinkHeader_Read (unread b) 0"
    and "10 \<le> length (unread b) \<Longrightarrow> IsCorrectCRC (sb_pBuffer b) (sb_readPos b) 8 = IsCorrectCRC (unread b) 0 8"
    and "10 + CalcUserDataSize k \<le> length (unread b) \<Longrightarrow>
      ValidateBodyCRC (sb_pBuffer b) (sb_readPos b + 10) k = ValidateBodyCRC (unread b) 10 k"
    and "10 + CalcUserDataSize (length src) \<le> length (unread b) \<Longrightarrow>
      holds_body (sb_pBuffer b) (sb_readPos b + 10) src = holds_body (unread b) 10 src"
proof -
  let ?n = "NumBytesRead b"
  have pos: "sb_readPos b + ?n \<le> length (sb_pBuffer b)"
    using assms by (simp add: sb_inv_def NumBytesRead_def)
  note len = length_unread[OF assms]
  show "10 \<le> length (unread b) \<Longrightarrow> LinkHeader_Read (sb_pBuffer b) (sb_readPos b) = LinkHeader_Read (unread b) 0"
    unfolding ReadBuffer_def using pos len by (subst LinkHeader_Read_take_drop) auto
  show "10 \<le> length (unread b) \<Longrightarrow> IsCorrectCRC (sb_pBuffer b) (sb_readPos b) 8 = IsCorrectCRC (unread b) 0 8"
    unfolding ReadBuffer_def using pos len by (subst IsCorrectCRC_take_drop) auto
  show "10 + CalcUserDataSize k \<le> length (unread b) \<Longrightarrow>
      ValidateBodyCRC (sb_pBuffer b) (sb_readPos b + 10) k = ValidateBodyCRC (unread b) 10 k"
    unfolding ReadBuffer_def using pos len by (subst ValidateBodyCRC_take_drop) auto
  assume "10 + CalcUserDataSize (length src) \<le> length (unread b)"
  then have "CalcUserDataSize (length src) \<le> ?n - 10" by (simp add: len)
  then show "holds_body (sb_pBuffer b) (sb_readPos b + 10) src = holds_body (unread b) 10 src"
    by (simp add: ReadBuffer_def holds_body_def size_simps drop_take min_def ac_simps)
qed

lemma FailFrame_spec:
  assumes "sb_inv (lp_buffer p)" "parser_unread p \<noteq> []"
  obtains p' where "FailFrame p = Some p'" "sb_inv (lp_buffer p')" "parser_unread p' = tl (parser_unread p)"
    "sb_M_SIZE (lp_buffer p') = sb_M_SIZE (lp_buffer p)"
proof -
  from assms(2) have "1 \<le> length (parser_unread p)" by (cases "parser_unread p") auto
  from AdvanceRead_spec[OF assms(1) this] obtain b where
    "AdvanceRead (lp_buffer p) 1 = Some b" "sb_inv b" "unread b = drop 1 (parser_unread p)"
    "sb_M_SIZE b = sb_M_SIZE (lp_buffer p)" by metis
  then show ?thesis by (intro that[of "p\<lparr>lp_buffer := b\<rparr>"]) (simp_all add: FailFrame_def drop_Suc)
qed

text \<open>Unfolding the stream function at a synchronised position.\<close>

lemma link_parse_synced:
  assumes "synced u" "10 \<le> length u"
  shows "header_at u = None \<Longrightarrow> link_parse u = link_parse (tl u)"
    and "header_at u = Some h \<Longrightarrow> length u < CalcFrameSize (data_size h) \<Longrightarrow> link_parse u = ([], u)"
    and "header_at u = Some h \<Longrightarrow> CalcFrameSize (data_size h) \<le> length u \<Longrightarrow>
      \<not> ValidateBodyCRC u 10 (data_size h) \<Longrightarrow> link_parse u = link_parse (tl u)"
    and "header_at u = Some h \<Longrightarrow> CalcFrameSize (data_size h) \<le> length u \<Longrightarrow>
      ValidateBodyCRC u 10 (data_size h) \<Longrightarrow> link_parse u =
        (let rest = link_parse (drop (CalcFrameSize (data_size h)) u)
         in ((header_fields h, deblock (drop 10 u) (data_size h)) # fst rest, snd rest))"
  using assms by (simp_all add: link_parse.simps[of u] Let_def)

lemma link_parse_short: "length u < 10 \<Longrightarrow> link_parse u = ([], fst (sync_list u))"
  using length_sync_list[of u] by (simp add: link_parse.simps[of u] Let_def)

lemma header_at_valid: "header_at u = Some h \<Longrightarrow> ValidLength h"
  by (auto simp: header_at_def valid_header_def split: if_splits)

lemma body_length_data_size: "ValidLength h \<Longrightarrow> unat (body_length h) = data_size h"
proof -
  assume "ValidLength h"
  then have five: "5 \<le> unat (h_length h)" by (simp add: ValidLength_def word_less_nat_alt)
  have "take_bit 32 (unat (h_length h)) = unat (h_length h)"
    by (rule take_bit_nat_eq_self, rule less_le_trans[OF unat_uint8_less]) simp
  then have "unat (body_length h) = unat (h_length h) - 5"
    using five by (simp add: body_length_def lpdu_consts unat_sub_if' unsigned_ucast_eq word_le_nat_alt)
  moreover have "data_size h = unat (h_length h) - 5"
    using five by (simp add: data_size_def user_data_length_def lpdu_consts unat_sub_if' word_le_nat_alt)
  ultimately show ?thesis by simp
qed

lemma CalcUserDataSize_ge: "n \<le> CalcUserDataSize n"
proof -
  have "n = 16 * (n div 16) + n mod 16" by simp
  then have "n \<le> 18 * (n div 16) + n mod 16" by linarith
  then show ?thesis by (auto simp: CalcUserDataSize_def lpdu_consts Let_def)
qed

lemma ParseOneStep_rel:
  assumes "parser_rel p S"
  shows "\<exists>p' s. ParseOneStep p = Some (p', s) \<and> parser_rel (p'\<lparr>lp_state := s\<rparr>) S
    \<and> (s = lp_state p \<longrightarrow> waiting (p'\<lparr>lp_state := s\<rparr>))"
proof -
  let ?b = "lp_buffer p" and ?u = "parser_unread p"
  have inv: "sb_inv ?b" and size: "sb_M_SIZE ?b = LPDU_MAX_FRAME_SIZE"
    using parser_rel_inv[OF assms] by simp_all
  note len = length_unread[OF inv, symmetric]
  show ?thesis
  proof (cases "lp_state p")
    case FindSync
    with assms have S: "link_parse ?u = S" by (simp add: parser_rel_def)
    show ?thesis
    proof (cases "10 \<le> length ?u")
      case True
      obtain b' where b': "Sync ?b = Some (b', snd (sync_list ?u))" "sb_inv b'"
        "unread b' = fst (sync_list ?u)" "sb_M_SIZE b' = sb_M_SIZE ?b"
        using Sync_spec[OF inv] by metis
      with True FindSync S size show ?thesis
        using synced_sync_list[of ?u] sync_list_False[of ?u]
        by (auto simp: ParseOneStep_def ParseSync_def len parser_rel_def waiting_def link_parse_sync Let_def)
    next
      case False
      with FindSync S inv size show ?thesis
        by (simp add: ParseOneStep_def ParseSync_def len parser_rel_def waiting_def Let_def)
    qed
  next
    case ReadHeaderState
    with assms have S: "link_parse ?u = S" and sync: "synced ?u" by (simp_all add: parser_rel_def Let_def)
    show ?thesis
    proof (cases "10 \<le> length ?u")
      case False
      with ReadHeaderState S sync inv size show ?thesis
        by (simp add: ParseOneStep_def ParseHeader_def len parser_rel_def waiting_def Let_def)
    next
      case True
      note hd = unread_checks(1,2)[OF inv True]
      show ?thesis
      proof (cases "header_at ?u")
        case None
        then have "\<exists>p1. ReadHeader p = (p1, False) \<and> lp_buffer p1 = ?b"
          by (auto simp: header_at_def ReadHeader_eq Let_def hd li_consts split: if_splits)
        then obtain p1 where p1: "ReadHeader p = (p1, False)" "lp_buffer p1 = ?b" by blast
        have "?u \<noteq> []" using True by auto
        with p1(2) inv obtain p2 where p2: "FailFrame p1 = Some p2" "sb_inv (lp_buffer p2)"
          "parser_unread p2 = tl ?u" "sb_M_SIZE (lp_buffer p2) = sb_M_SIZE ?b"
          using FailFrame_spec[of p1] by auto
        with p1(1) True ReadHeaderState link_parse_synced(1)[OF sync True None] S size show ?thesis
          by (simp add: ParseOneStep_def ParseHeader_def len parser_rel_def Let_def)
      next
        case (Some h)
        then have h: "IsCorrectCRC ?u 0 8" "valid_header h" "LinkHeader_Read ?u 0 = h"
          by (auto simp: header_at_def split: if_splits)
        then have "ReadHeader p = (p\<lparr>lp_header := h, lp_frameSize := CalcFrameSize (data_size h)\<rparr>, True)"
          by (auto simp: ReadHeader_eq Let_def hd li_consts valid_header_def data_size_def)
        with True ReadHeaderState S sync inv size Some show ?thesis
          by (simp add: ParseOneStep_def ParseHeader_def len parser_rel_def Let_def)
      qed
    qed
  next
    case ReadBody
    define n where "n = data_size (lp_header p)"
    from ReadBody assms have S: "link_parse ?u = S" and sync: "synced ?u" and ten: "10 \<le> length ?u"
      and hdr: "header_at ?u = Some (lp_header p)" and fs: "lp_frameSize p = CalcFrameSize n"
      by (simp_all add: parser_rel_def Let_def n_def)
    have bl: "unat (body_length (lp_header p)) = n"
      using body_length_data_size[OF header_at_valid[OF hdr]] by (simp add: n_def)
    show ?thesis
    proof (cases "length ?u < CalcFrameSize n")
      case True
      with ReadBody S sync inv size ten hdr fs show ?thesis
        by (simp add: ParseOneStep_def ParseBody_def len parser_rel_def waiting_def Let_def n_def)
    next
      case False
      then have fits: "10 + CalcUserDataSize n \<le> length ?u" and fits': "CalcFrameSize n \<le> length ?u"
        by (simp_all add: CalcFrameSize_def lpdu_consts)
      note body = unread_checks(3)[OF inv fits]
      show ?thesis
      proof (cases "ValidateBodyCRC ?u 10 n")
        case invalid: False
        then have vb: "ValidateBody p = (count_stat numCrcError_update p, False)"
          by (simp add: ValidateBody_def Let_def bl body lpdu_consts)
        have "?u \<noteq> []" using ten by auto
        with inv obtain p2 where p2: "FailFrame (count_stat numCrcError_update p) = Some p2"
          "sb_inv (lp_buffer p2)" "parser_unread p2 = tl ?u" "sb_M_SIZE (lp_buffer p2) = sb_M_SIZE ?b"
          using FailFrame_spec[of "count_stat numCrcError_update p"] by auto
        with vb False ReadBody fs size S
          link_parse_synced(3)[OF sync ten hdr fits'[unfolded n_def] invalid[unfolded n_def]]
        show ?thesis by (simp add: ParseOneStep_def ParseBody_def len parser_rel_def Let_def)
      next
        case valid: True
        then have vb: "ValidateBody p = (p, True)"
          by (simp add: ValidateBody_def Let_def bl body lpdu_consts)
        from ValidateBodyCRC_sound[OF valid fits] obtain src
          where src: "length src = n" "holds_body ?u 10 src" by blast
        have hb: "holds_body (sb_pBuffer ?b) (sb_readPos ?b + 10) src"
          using unread_checks(4)[OF inv, of src] fits src by simp
        have pos: "sb_readPos ?b + length ?u \<le> length (sb_pBuffer ?b)"
          using inv by (simp add: length_unread sb_inv_def NumBytesRead_def)
        have n: "n \<le> length (sb_pBuffer ?b)"
          using pos fits CalcUserDataSize_ge[of n] by linarith
        define buf where "buf = overwrite (sb_pBuffer ?b) 0 src"
        have read: "ReadUserData (sb_pBuffer ?b) (sb_readPos ?b + 10) 0 n = buf"
          using ReadUserData_overwrite[OF hb] pos fits src(1) by (simp add: buf_def)
        have buf: "length buf = length (sb_pBuffer ?b)" "take n buf = src"
          using n src(1) by (simp_all add: buf_def length_overwrite overwrite_0)
        have keep: "drop (sb_readPos ?b + CalcFrameSize n) buf = drop (sb_readPos ?b + CalcFrameSize n) (sb_pBuffer ?b)"
          unfolding buf_def using src(1) CalcUserDataSize_ge[of n]
          by (intro drop_overwrite) (simp_all add: CalcFrameSize_def lpdu_consts)
        let ?p = "TransferUserData p\<lparr>lp_state := Complete\<rparr>"
        have tr: "lp_buffer ?p = ?b\<lparr>sb_pBuffer := buf\<rparr>" "lp_userData ?p = n"
          "lp_frameSize ?p = CalcFrameSize n" "lp_header ?p = lp_header p"
          by (simp_all add: TransferUserData_def Let_def bl read lpdu_consts fs)
        have rest: "drop (CalcFrameSize n) (parser_unread ?p) = drop (CalcFrameSize n) ?u"
          using keep by (simp add: tr ReadBuffer_def drop_take ac_simps del: drop_drop, simp add: ac_simps)
        have inv': "sb_inv (lp_buffer ?p)" using inv buf(1) by (simp add: tr sb_inv_def)
        have "length (parser_unread ?p) = length ?u"
          using length_unread[OF inv'] length_unread[OF inv] by (simp add: tr)
        then have "parser_rel ?p S"
          using inv' size fits' S rest buf(2) deblock_holds_body[OF src(2)] src(1)
            link_parse_synced(4)[OF sync ten hdr fits'[unfolded n_def] valid[unfolded n_def]]
          by (simp add: parser_rel_def tr Let_def CalcFrameSize_def lpdu_consts flip: n_def)
        with vb False ReadBody fs show ?thesis
          by (simp add: ParseOneStep_def ParseBody_def len waiting_def)
      qed
    qed
  next
    case Complete
    have "p\<lparr>lp_state := Complete\<rparr> = p" using Complete by simp
    with assms Complete show ?thesis by (simp add: ParseOneStep_def waiting_def parser_rel_def)
  qed
qed

lemma parser_rel_FindSync [simp]:
  "parser_rel (p\<lparr>lp_state := FindSync\<rparr>) S \<longleftrightarrow> sb_inv (lp_buffer p)
     \<and> sb_M_SIZE (lp_buffer p) = LPDU_MAX_FRAME_SIZE \<and> link_parse (parser_unread p) = S"
  by (simp add: parser_rel_def)

lemma ParseUntilComplete_rel:
  "parser_rel p S \<Longrightarrow> \<exists>p'. ParseUntilComplete p = Some p' \<and> parser_rel p' S \<and> waiting p'"
proof (induction p rule: ParseUntilComplete.induct)
  case (1 p)
  from ParseOneStep_rel[OF "1.prems"] obtain p1 s where step: "ParseOneStep p = Some (p1, s)"
    and rel: "parser_rel (p1\<lparr>lp_state := s\<rparr>) S"
    and wait: "s = lp_state p \<Longrightarrow> waiting (p1\<lparr>lp_state := s\<rparr>)" by blast
  show ?case
  proof (cases "s = lp_state p")
    case True
    with step rel wait show ?thesis by (subst ParseUntilComplete.simps) simp
  next
    case False
    with 1(1)[OF refl step refl False rel] step show ?thesis by (subst ParseUntilComplete.simps) simp
  qed
qed

lemma PushFrame_rel:
  assumes "parser_rel p S" "lp_state p = Complete"
  obtains p' where "PushFrame (count_stat numLinkFrameRx_update p) = Some (p', hd (fst S))"
    "fst S \<noteq> []" "parser_rel (p'\<lparr>lp_state := FindSync\<rparr>) (tl (fst S), snd S)"
proof -
  have inv: "sb_inv (lp_buffer p)" and le: "lp_frameSize p \<le> length (parser_unread p)"
    and S: "S = ((header_fields (lp_header p), take (lp_userData p) (sb_pBuffer (lp_buffer p)))
        # fst (link_parse (drop (lp_frameSize p) (parser_unread p))),
        snd (link_parse (drop (lp_frameSize p) (parser_unread p))))"
    using assms by (simp_all add: parser_rel_def Let_def)
  from AdvanceRead_spec[OF inv le] obtain b where b: "AdvanceRead (lp_buffer p) (lp_frameSize p) = Some b"
    "sb_inv b" "unread b = drop (lp_frameSize p) (parser_unread p)" "sb_M_SIZE b = sb_M_SIZE (lp_buffer p)"
    by metis
  let ?p = "(count_stat numLinkFrameRx_update p)\<lparr>lp_buffer := b\<rparr>"
  show ?thesis
  proof (rule that[of ?p])
    show "PushFrame (count_stat numLinkFrameRx_update p) = Some (?p, hd (fst S))"
      using b(1) S by (simp add: PushFrame_def Let_def header_fields_def)
    show "fst S \<noteq> []" using S by simp
    show "parser_rel (?p\<lparr>lp_state := FindSync\<rparr>) (tl (fst S), snd S)"
      using b S parser_rel_inv[OF assms(1)] by simp
  qed
qed

lemma waiting_rel:
  assumes "parser_rel p S" "waiting p" "lp_state p \<noteq> Complete"
  shows "link_parse (parser_unread p) = S" "fst S = []" "length (parser_unread p) < LPDU_MAX_FRAME_SIZE"
proof -
  show parse: "link_parse (parser_unread p) = S"
    using assms by (cases "lp_state p") (auto simp: parser_rel_def Let_def)
  show "fst S = []"
  proof (cases "lp_state p")
    case ReadBody
    with assms parse link_parse_synced(2)[of "parser_unread p" "lp_header p"] show ?thesis
      by (auto simp: parser_rel_def waiting_def Let_def)
  qed (use assms parse link_parse_short[of "parser_unread p"] in \<open>auto simp: waiting_def\<close>)
  show "length (parser_unread p) < LPDU_MAX_FRAME_SIZE"
  proof (cases "lp_state p")
    case ReadBody
    have "data_size h \<le> 250" if "ValidLength h" for h
    proof -
      have "5 \<le> unat (h_length h)" using that by (simp add: ValidLength_def word_less_nat_alt)
      then have "data_size h = unat (h_length h) - 5"
        by (simp add: data_size_def user_data_length_def lpdu_consts unat_sub_if' word_le_nat_alt)
      then show ?thesis using unat_uint8_le[of "h_length h"] by linarith
    qed
    with ReadBody assms show ?thesis
      using CalcFrameSize_le[of "data_size (lp_header p)"] header_at_valid
      by (fastforce simp: parser_rel_def waiting_def Let_def)
  qed (use assms in \<open>auto simp: waiting_def lpdu_consts\<close>)
qed

lemma OnReadLoop_rel:
  assumes "parser_rel p S"
  obtains p' where "OnReadLoop p sink = Some (p', sink @ fst S)" "parser_rel p' ([], snd S)"
    "waiting p'" "lp_state p' \<noteq> Complete"
  using assms
proof (induction p sink arbitrary: S thesis rule: OnReadLoop.induct)
  case (1 p sink)
  from ParseUntilComplete_rel[OF 1(3)] obtain p1 where p1: "ParseUntilComplete p = Some p1"
    "parser_rel p1 S" "waiting p1" by blast
  show ?case
  proof (cases "lp_state p1 = Complete")
    case False
    note w = waiting_rel[OF p1(2,3) False]
    have "S = ([], snd S)" using w(2) by (cases S) simp
    with p1 False w show ?thesis by (intro 1(2)[of p1]) (simp_all add: OnReadLoop.simps)
  next
    case True
    obtain p2 where p2: "PushFrame (count_stat numLinkFrameRx_update p1) = Some (p2, hd (fst S))"
      "fst S \<noteq> []" "parser_rel (p2\<lparr>lp_state := FindSync\<rparr>) (tl (fst S), snd S)"
      using PushFrame_rel[OF p1(2) True] by blast
    obtain p3 where p3: "OnReadLoop (p2\<lparr>lp_state := FindSync\<rparr>) (sink @ [hd (fst S)]) =
        Some (p3, (sink @ [hd (fst S)]) @ tl (fst S))" "parser_rel p3 ([], snd S)" "waiting p3"
      "lp_state p3 \<noteq> Complete"
      using 1(1)[OF p1(1) True p2(1) refl _ p2(3)] by auto
    have "OnReadLoop p sink = Some (p3, sink @ fst S)"
      using p1(1) True p2(1,2) p3(1) by (subst OnReadLoop.simps) (cases "fst S"; simp)
    with p3 show ?thesis by (intro 1(2)[of p3])
  qed
qed

end
