(* ===== verification/LinkReceiver.thy ===== *)
theory LinkReceiver
  imports LinkStream
begin

text \<open>
  The receiver as the channel drives it: \<open>receive\<close> is one read of the physical layer, \<open>receive_all\<close> a
  sequence of them.  \<open>parser_ok\<close> is the invariant between reads; \<open>carved\<close> says that frames lie in a
  stream, in order and without overlap.
\<close>

section \<open>Receiving\<close>

definition parser_ok :: "LinkLayerParser \<Rightarrow> bool" where
  "parser_ok p \<longleftrightarrow> parser_rel p (link_parse (parser_unread p)) \<and> fst (link_parse (parser_unread p)) = []
     \<and> waiting p \<and> lp_state p \<noteq> Complete \<and> sb_readPos (lp_buffer p) = 0"

lemma NumWriteBytes_0: "sb_inv b \<Longrightarrow> sb_readPos b = 0 \<Longrightarrow> NumWriteBytes b = sb_M_SIZE b - length (unread b)"
  by (simp add: NumWriteBytes_def length_unread NumBytesRead_def)

lemma parser_ok_make: "length buf = LPDU_MAX_FRAME_SIZE \<Longrightarrow> parser_ok (LinkLayerParser_make stats buf)"
  by (simp add: parser_ok_def parser_rel_def LinkLayerParser_make_def inv_intros waiting_def link_parse_short
      ShiftableBuffer_make_def lpdu_consts)
    (simp add: sb_inv_def ReadBuffer_def NumBytesRead_def link_parse_short)

lemma parser_ok_Reset: "parser_ok p \<Longrightarrow> parser_ok (LinkLayerParser_Reset p)"
  by (simp add: parser_ok_def parser_rel_def LinkLayerParser_Reset_def waiting_def link_parse_short inv_intros
      ShiftableBuffer_Reset_def ReadBuffer_def NumBytesRead_def)
    (simp add: sb_inv_def)

lemma parser_rel_append:
  assumes "parser_rel p (link_parse (parser_unread p))" "lp_state p \<noteq> Complete"
    and "sb_inv b" "sb_M_SIZE b = LPDU_MAX_FRAME_SIZE" "unread b = parser_unread p @ bs"
  shows "parser_rel (p\<lparr>lp_buffer := b\<rparr>) (link_parse (parser_unread p @ bs))"
proof (cases "lp_state p")
  case ReadBody
  with assms show ?thesis
    by (auto simp: parser_rel_def Let_def synced_append header_at_append)
qed (use assms in \<open>auto simp: parser_rel_def Let_def synced_append\<close>)

lemma parser_ok_resume: "parser_ok p \<Longrightarrow> snd (link_parse (parser_unread p)) = r \<Longrightarrow>
   link_parse (parser_unread p @ x) = link_parse (r @ x)"
  by (cases "link_parse (parser_unread p)") (auto simp: link_parse_append[of "parser_unread p" x] parser_ok_def split: prod.splits)

lemma receive_spec:
  assumes "parser_ok p" "length bs \<le> NumWriteBytes (lp_buffer p)"
  obtains p' where "receive p bs = Some (p', fst (link_parse (parser_unread p @ bs)))" "parser_ok p'"
    "snd (link_parse (parser_unread p')) = snd (link_parse (parser_unread p @ bs))"
    "0 < NumWriteBytes (lp_buffer p')"
proof -
  let ?S = "link_parse (parser_unread p @ bs)"
  note ok = assms(1)[unfolded parser_ok_def]
  from parser_rel_inv ok have inv: "sb_inv (lp_buffer p)" "sb_M_SIZE (lp_buffer p) = LPDU_MAX_FRAME_SIZE"
    by blast+
  obtain b where b: "AdvanceWrite (WriteBuff_fill (lp_buffer p) bs) (length bs) = Some b" "sb_inv b"
    "unread b = parser_unread p @ bs" "sb_M_SIZE b = LPDU_MAX_FRAME_SIZE"
    using fill_AdvanceWrite_spec[OF inv(1) assms(2)] inv(2) by metis
  have "parser_rel (p\<lparr>lp_buffer := b\<rparr>) ?S"
    using parser_rel_append[OF _ _ b(2,4,3)] ok by blast
  from OnReadLoop_rel[OF this, of "[]"] obtain p1 where
    p1: "OnReadLoop (p\<lparr>lp_buffer := b\<rparr>) [] = Some (p1, fst ?S)" "parser_rel p1 ([], snd ?S)"
      "waiting p1" "lp_state p1 \<noteq> Complete" by auto
  let ?p = "p1\<lparr>lp_buffer := Shift (lp_buffer p1)\<rparr>"
  from parser_rel_inv[OF p1(2)] have inv1: "sb_inv (lp_buffer p1)" "sb_M_SIZE (lp_buffer p1) = LPDU_MAX_FRAME_SIZE"
    by simp_all
  note shift = Shift_spec[OF inv1(1)]
  note w = waiting_rel[OF p1(2-4)]
  have rel: "parser_rel ?p ([], snd ?S)"
    using p1(2,4) shift inv1 by (cases "lp_state p1") (simp_all add: parser_rel_def Let_def)
  have wait: "waiting ?p" using p1(3) shift(2) by (cases "lp_state p1") (simp_all add: waiting_def)
  show ?thesis
  proof (rule that[of ?p])
    show "receive p bs = Some (?p, fst ?S)"
      using b(1) p1(1) by (simp add: receive_def OnRead_def)
    show "parser_ok ?p"
      using rel wait w(1,2) p1(4) shift(2,3) by (simp add: parser_ok_def)
    show "snd (link_parse (parser_unread ?p)) = snd ?S"
      using w(1) shift(2) by simp
    show "0 < NumWriteBytes (lp_buffer ?p)"
      using shift(5) w(3) inv1(2) by simp
  qed
qed

fun receive_all :: "LinkLayerParser \<Rightarrow> bytes list \<Rightarrow> (LinkLayerParser \<times> (LinkHeaderFields \<times> bytes) list) option" where
  "receive_all p [] = Some (p, [])"
| "receive_all p (c # cs) =
     (case receive p c of
        None \<Rightarrow> None
      | Some (p, fs) \<Rightarrow> (case receive_all p cs of None \<Rightarrow> None | Some (p, gs) \<Rightarrow> Some (p, fs @ gs)))"

lemma receive_overflow: 
  assumes "parser_ok p" "receive p bs = Some r" shows "length bs \<le> NumWriteBytes (lp_buffer p)"
  using assms by (auto simp: receive_def OnRead_def AdvanceWrite_def WriteBuff_fill_def NumWriteBytes_def split: if_splits)

lemma receive_all_spec:
  "parser_ok p \<Longrightarrow> receive_all p cs = Some (p', fs) \<Longrightarrow>
     fs = fst (link_parse (parser_unread p @ concat cs)) \<and> parser_ok p'"
proof (induction cs arbitrary: p fs)
  case Nil then show ?case by (simp add: parser_ok_def)
next
  case (Cons c cs)
  from Cons.prems(2) obtain p1 fs1 fs2 where first: "receive p c = Some (p1, fs1)"
    and rest: "receive_all p1 cs = Some (p', fs2)" and fs: "fs = fs1 @ fs2"
    by (auto split: option.splits)
  from receive_spec[OF Cons.prems(1) receive_overflow[OF Cons.prems(1) first]] first
  have p1: "fs1 = fst (link_parse (parser_unread p @ c))" "parser_ok p1"
    "snd (link_parse (parser_unread p1)) = snd (link_parse (parser_unread p @ c))"
    by auto
  have "fs2 = fst (link_parse (parser_unread p1 @ concat cs))" "parser_ok p'"
    using Cons.IH[OF p1(2) rest] by simp_all
  with fs p1 parser_ok_resume[OF p1(2) p1(3)] link_parse_append[of "parser_unread p @ c" "concat cs"]
  show ?case by (simp add: Let_def split: prod.splits)
qed

lemma receive_all_bytes: "parser_ok p \<Longrightarrow> 0 < NumWriteBytes (lp_buffer p) \<Longrightarrow> receive_all p (map (\<lambda>b. [b]) bs) \<noteq> None"
proof (induction bs arbitrary: p)
  case (Cons b bs)
  from receive_spec[OF Cons.prems(1), of "[b]"] Cons.prems(2) obtain p1 where
    "receive p [b] = Some (p1, fst (link_parse (parser_unread p @ [b])))" "parser_ok p1" "0 < NumWriteBytes (lp_buffer p1)"
    by auto
  with Cons.IH[of p1] show ?case by auto
qed simp

section \<open>Frames\<close>

lemma header_at_frame:
  assumes "valid_header h"
  shows "header_at (frame_bytes h data @ x) = Some h"
proof -
  let ?v = "frame_bytes h data @ x"
  have "take (8 + 2) (drop 0 ?v) = header_bytes h @ uint16_bytes (CalcCrc (header_bytes h))"
    by (simp add: frame_bytes_def)
  then have "IsCorrectCRC ?v 0 8" by (rule IsCorrectCRC_bytes) simp
  moreover have "LinkHeader_Read ?v 0 = h" by (rule LinkHeader_Read_bytes) (simp add: frame_bytes_def)
  ultimately show ?thesis using assms by (simp add: header_at_def)
qed

lemma link_parse_frame:
  assumes "valid_header h" "data_size h = length data"
  shows "link_parse (frame_bytes h data @ x) =
    ((header_fields h, data) # fst (link_parse x), snd (link_parse x))"
proof -
  let ?v = "frame_bytes h data @ x"
  have sync: "synced ?v" by (simp add: synced_def frame_bytes_def header_bytes_def)
  have len: "CalcFrameSize (data_size h) \<le> length ?v" "10 \<le> length ?v"
    using assms(2) by (simp_all add: size_simps CalcFrameSize_def lpdu_consts)
  have body: "holds_body ?v 10 data" by (simp add: holds_body_def frame_bytes_def)
  have "drop (CalcFrameSize (data_size h)) ?v = x"
    using assms(2) by (simp add: drop_prefix size_simps)
  then show ?thesis
    using link_parse_synced(4)[OF sync len(2) header_at_frame[OF assms(1)] len(1)]
      ValidateBodyCRC_complete[OF body] deblock_holds_body[OF body] assms(2)
    by (simp add: Let_def)
qed


lemma data_size_make:
  assumes "0 < length data" "length data \<le> 250"
  shows "data_size (LinkHeader_make (word_of_nat (length data) + 5) src dest m fcv fcb f) = length data"
    and "user_data_length (LinkHeader_make (word_of_nat (length data) + 5) src dest m fcv fcb f) > 0"
    and "ValidLength (LinkHeader_make (word_of_nat (length data) + 5) src dest m fcv fcb f)"
proof -
  have "unat (word_of_nat (length data) :: uint8) = length data"
    using assms(2) by (simp add: unat_of_nat take_bit_nat_eq_self)
  note n = this
  have five: "unat (word_of_nat (length data) + 5 :: uint8) = length data + 5"
    using assms(2) n by (subst unat_add_lem[THEN iffD1]) simp_all
  show "data_size (LinkHeader_make (word_of_nat (length data) + 5) src dest m fcv fcb f) = length data"
    using n by (simp add: data_size_def user_data_length_def LinkHeader_make_def LinkHeader_Set_def LinkHeader_default_def lpdu_consts)
  show "user_data_length (LinkHeader_make (word_of_nat (length data) + 5) src dest m fcv fcb f) > 0"
    using n assms(1) by (simp add: user_data_length_def LinkHeader_make_def LinkHeader_Set_def LinkHeader_default_def lpdu_consts word_less_nat_alt)
  show "ValidLength (LinkHeader_make (word_of_nat (length data) + 5) src dest m fcv fcb f)"
    using five by (simp add: ValidLength_def LinkHeader_make_def LinkHeader_Set_def LinkHeader_default_def lpdu_consts word_less_nat_alt)
qed

lemma LinkHeader_make_fields:
  assumes "f \<noteq> LinkFunction_INVALID"
  shows "header_fields (LinkHeader_make n src dest m fcv fcb f) =
    \<lparr>f_func = f, f_isFromMaster = m, f_fcb = fcb, f_fcvdfc = fcv, f_dest = dest, f_src = src\<rparr>"
  using ControlByte_fields[of "LinkHeader_make n src dest m fcv fcb f", OF _ assms]
  by (simp add: header_fields_def LinkHeader_make_def LinkHeader_Set_def LinkHeader_default_def)

lemma ValidateFunctionCode_make:
  assumes "f \<noteq> LinkFunction_INVALID"
  shows "ValidateFunctionCode (LinkHeader_make n src dest m fcv fcb f) =
    (case f of PRI_CONFIRMED_USER_DATA \<Rightarrow> fcv | PRI_TEST_LINK_STATES \<Rightarrow> fcv
       | PRI_REQUEST_LINK_STATUS \<Rightarrow> \<not> fcv | PRI_RESET_LINK_STATES \<Rightarrow> \<not> fcv | PRI_UNCONFIRMED_USER_DATA \<Rightarrow> \<not> fcv
       | _ \<Rightarrow> \<not> fcb)"
  using ControlByte_fields[of "LinkHeader_make n src dest m fcv fcb f", OF _ assms]
    IsPriToSec_ControlByte[of "LinkHeader_make n src dest m fcv fcb f", OF _ assms] assms
  by (cases f) (simp_all add: ValidateFunctionCode_def LinkHeader_make_def LinkHeader_Set_def LinkHeader_default_def)

lemma GetFuncEnum_make: "f \<noteq> LinkFunction_INVALID \<Longrightarrow> GetFuncEnum (LinkHeader_make n src dest m fcv fcb f) = f"
  using ControlByte_fields(4)[of "LinkHeader_make n src dest m fcv fcb f"]
  by (simp add: LinkHeader_make_def LinkHeader_Set_def LinkHeader_default_def)

lemma valid_header_control:
  "f \<noteq> LinkFunction_INVALID \<Longrightarrow> \<not> is_user_data f \<Longrightarrow> ValidateFunctionCode (LinkHeader_make 5 src dest m fcv fcb f)
     \<Longrightarrow> valid_header (LinkHeader_make 5 src dest m fcv fcb f) \<and> data_size (LinkHeader_make 5 src dest m fcv fcb f) = 0"
  by (simp add: valid_header_def GetFuncEnum_make)
    (simp add: ValidLength_def user_data_length_def data_size_def LinkHeader_make_def LinkHeader_Set_def LinkHeader_default_def lpdu_consts)

lemma link_parse_Nil [simp]: "link_parse [] = ([], [])"
  by (simp add: link_parse_short)

section \<open>What is delivered was in the stream\<close>

text \<open>\<open>carved u fs\<close>: the frames \<open>fs\<close> lie in \<open>u\<close>, in this order, without overlap.\<close>

inductive carved :: "bytes \<Rightarrow> (LinkHeaderFields \<times> bytes) list \<Rightarrow> bool" where
  none: "carved u []"
| frame: "valid_header h \<Longrightarrow> length data = data_size h \<Longrightarrow> carved rest fs \<Longrightarrow>
    carved (gap @ frame_bytes h data @ rest) ((header_fields h, data) # fs)"

lemma carved_prepend: "carved u fs \<Longrightarrow> carved (g @ u) fs"
proof (induction rule: carved.induct)
  case (frame h data rest fs gap)
  then show ?case using carved.frame[of h data rest fs "g @ gap"] by simp
qed (rule carved.none)

lemma sync_list_suffix: "\<exists>g. u = g @ fst (sync_list u)"
proof (induction u rule: sync_list.induct)
  case (1 a b bs)
  show ?case
  proof (cases "a = 0x05 \<and> b = 0x64")
    case False
    with 1 obtain g where "b # bs = g @ fst (sync_list (b # bs))" by blast
    then have "a # b # bs = (a # g) @ fst (sync_list (a # b # bs))" using False by auto
    then show ?thesis by blast
  qed simp
qed auto

lemma header_frame:
  assumes "synced v" "10 \<le> length v" "header_at v = Some h"
    and "CalcFrameSize (data_size h) \<le> length v" "ValidateBodyCRC v 10 (data_size h)"
  obtains data where "length data = data_size h" "v = frame_bytes h data @ drop (CalcFrameSize (data_size h)) v"
proof -
  have crc: "IsCorrectCRC v 0 8" and h: "h = LinkHeader_Read v 0"
    using assms(3) by (auto simp: header_at_def split: if_splits)
  obtain rest where v: "v = 0x05 # 0x64 # rest"
    using sync_list_True[of v] assms(1) by (auto simp: synced_def)
  have "take 8 v = header_bytes h"
  proof -
    have "take 8 v = [v ! 0, v ! 1, v ! 2, v ! 3] @ take 2 (drop 4 v) @ take 2 (drop 6 v)"
      using assms(2) by (intro nth_equalityI) (auto simp: less_Suc_eq eval_nat_numeral nth_append)
    with v h show ?thesis
      using UInt16_Read_holds[of 4 v] UInt16_Read_holds[of 6 v] assms(2)
      by (simp add: header_bytes_def LinkHeader_Read_def li_consts)
  qed
  then have hdr: "take 10 v = header_bytes h @ uint16_bytes (CalcCrc (header_bytes h))"
    using IsCorrectCRC_holds[OF crc] assms(2) by simp
  from assms(4) have fits: "10 + CalcUserDataSize (data_size h) \<le> length v"
    by (simp add: CalcFrameSize_def lpdu_consts)
  from ValidateBodyCRC_sound[OF assms(5) fits] obtain data where data: "length data = data_size h"
    "holds_body v 10 data" by blast
  have "take (10 + CalcUserDataSize (data_size h)) v = frame_bytes h data"
    unfolding take_add using hdr data by (simp add: holds_body_def frame_bytes_def size_simps)
  then have "v = frame_bytes h data @ drop (CalcFrameSize (data_size h)) v"
    using append_take_drop_id[of "CalcFrameSize (data_size h)" v]
    by (simp add: CalcFrameSize_def lpdu_consts ac_simps)
  with data(1) show ?thesis by (rule that)
qed

lemma carved_link_parse: "carved u (fst (link_parse u))"
proof (induction u rule: link_parse.induct)
  case (1 u)
  define v where "v = fst (sync_list u)"
  obtain g where u: "u = g @ v" using sync_list_suffix[of u] by (auto simp: v_def)
  have "carved v (fst (link_parse v))"
  proof (cases "length v < 10")
    case True
    then show ?thesis by (simp add: link_parse_short carved.none)
  next
    case False
    then have long: "10 \<le> length v" by simp
    then have "synced v" using sync_list_False[of u] synced_sync_list[of u] by (fastforce simp: v_def)
    note cases = link_parse_synced[OF this long]
    have tl: "v = [hd v] @ tl v" using long by (cases v) auto
    show ?thesis
    proof (cases "header_at v")
      case None
      with cases(1) 1(1)[OF v_def False None] tl show ?thesis by (metis carved_prepend)
    next
      case (Some h)
      consider "length v < CalcFrameSize (data_size h)"
        | "CalcFrameSize (data_size h) \<le> length v" "\<not> ValidateBodyCRC v 10 (data_size h)"
        | "CalcFrameSize (data_size h) \<le> length v" "ValidateBodyCRC v 10 (data_size h)" by linarith
      then show ?thesis
      proof cases
        case 1 with cases(2)[OF Some] show ?thesis by (simp add: carved.none)
      next
        case 2
        with cases(3)[OF Some] 1(3)[OF v_def False Some] tl show ?thesis by (metis carved_prepend not_less)
      next
        case 3
        from header_frame[OF \<open>synced v\<close> long Some 3] obtain data where data: "length data = data_size h"
          "v = frame_bytes h data @ drop (CalcFrameSize (data_size h)) v" by blast
        have valid: "valid_header h" using Some by (auto simp: header_at_def split: if_splits)
        let ?rest = "drop (CalcFrameSize (data_size h)) v"
        have "fst (link_parse v) = (header_fields h, data) # fst (link_parse ?rest)"
          using link_parse_frame[OF valid data(1)[symmetric], of ?rest] data(2) by simp
        moreover have "carved ?rest (fst (link_parse ?rest))" using 1(2)[OF v_def False Some] 3 by simp
        ultimately show ?thesis
          using carved.frame[OF valid data(1), of ?rest _ "[]"] data(2) by simp
      qed
    qed
  qed
  with u show ?case by (metis carved_prepend link_parse_sync v_def)
qed

text \<open>A parser between frames, and delivery of one frame.\<close>

definition delivers :: "LinkLayerParser \<Rightarrow> bytes \<Rightarrow> LinkHeaderFields \<Rightarrow> bytes \<Rightarrow> bool" where
  "delivers p frame hdr data \<longleftrightarrow>
     (\<exists>p'. receive p frame = Some (p', [(hdr, data)]) \<and> parser_ok p' \<and> parser_unread p' = [])"

definition parser_idle :: "LinkLayerParser \<Rightarrow> bool" where
  "parser_idle p \<longleftrightarrow> parser_ok p \<and> parser_unread p = []"

lemma parser_idle_make: "length buf = LPDU_MAX_FRAME_SIZE \<Longrightarrow> parser_idle (LinkLayerParser_make stats buf)"
  by (simp add: parser_idle_def parser_ok_make) (simp add: LinkLayerParser_make_def)

lemma parser_ok_waiting_unread:
  assumes "parser_ok p" "snd (link_parse (parser_unread p)) = []"
  shows "parser_unread p = []"
proof (rule ccontr)
  let ?u = "parser_unread p"
  assume ne: "?u \<noteq> []"
  have *: "fst (sync_list u) \<noteq> []" if "u \<noteq> []" for u
    using that by (induction u rule: sync_list.induct) auto
  note ok = assms(1)[unfolded parser_ok_def]
  show False
  proof (cases "lp_state p")
    case ReadBody
    with ok link_parse_synced(2)[of ?u "lp_header p"] assms(2) ne show ?thesis
      by (auto simp: parser_rel_def waiting_def Let_def)
  qed (use ok assms(2) *[OF ne] in \<open>auto simp: waiting_def link_parse_short\<close>)
qed

lemma delivers_frame:
  assumes "parser_idle p" "valid_header h" "data_size h = length data" "length data \<le> 250"
  shows "delivers p (frame_bytes h data) (header_fields h) data"
proof -
  have "length (frame_bytes h data) \<le> NumWriteBytes (lp_buffer p)"
    using assms CalcFrameSize_le[OF assms(4)]
    by (auto simp: parser_idle_def parser_ok_def size_simps NumWriteBytes_0 dest!: parser_rel_inv)
  from receive_spec[OF _ this] assms(1) link_parse_frame[OF assms(2,3), of "[]"]
  obtain p' where p': "receive p (frame_bytes h data) = Some (p', [(header_fields h, data)])" "parser_ok p'"
    "snd (link_parse (parser_unread p')) = []"
    by (auto simp: parser_idle_def)
  with parser_ok_waiting_unread[OF p'(2,3)] show ?thesis by (auto simp: delivers_def)
qed

lemma delivers_control:
  assumes "parser_idle p" "f \<noteq> LinkFunction_INVALID" "\<not> is_user_data f"
    and "ValidateFunctionCode (LinkHeader_make 5 src dest m fcv fcb f)" "10 \<le> length buffer"
  shows "\<exists>buffer' frame. FormatHeader buffer 0 m fcb fcv f dest src = Some (buffer', frame)
    \<and> delivers p frame \<lparr>f_func = f, f_isFromMaster = m, f_fcb = fcb, f_fcvdfc = fcv, f_dest = dest, f_src = src\<rparr> []"
  using delivers_frame[OF assms(1), of "LinkHeader_make 5 src dest m fcv fcb f" "[]"]
    valid_header_control[OF assms(2-4)] FormatHeader_bytes[OF assms(5), of 0 m fcb fcv f dest src]
  by (simp add: LinkHeader_make_fields[OF assms(2)] Let_def)

text \<open>
  \<^bold>\<open>C5\<close>.  For every accepting parser and every chunk that fits the free part of its buffer,
  \<^verbatim>\<open>OnRead\<close> returns without a failed assertion; the frames it hands to its sink are exactly those
  the stream specification \<open>link_parse\<close> finds in the unread bytes followed by the chunk; and
  afterwards there is again room to write, so the receiver is never wedged by a peer.
\<close>

theorem receive_refines_stream:
  assumes "parser_ok p" "length bs \<le> NumWriteBytes (lp_buffer p)"
  shows "\<exists>p'. receive p bs = Some (p', fst (link_parse (parser_unread p @ bs))) \<and> parser_ok p'
    \<and> snd (link_parse (parser_unread p')) = snd (link_parse (parser_unread p @ bs))
    \<and> 0 < NumWriteBytes (lp_buffer p')"
  using receive_spec[OF assms] by metis

abbreviation parser0 :: LinkLayerParser where
  "parser0 \<equiv> LinkLayerParser_make None (replicate 292 0)"

lemma parser0_ok: "parser_idle parser0"
  by (rule parser_idle_make) (simp add: lpdu_consts)

lemma parser0_unread [simp]: "parser_unread parser0 = []" "NumWriteBytes (lp_buffer parser0) = 292"
  by (simp_all add: LinkLayerParser_make_def) (simp add: NumWriteBytes_def ShiftableBuffer_make_def lpdu_consts)

text \<open>A reset-link-states frame from master 1024 to station 1.\<close>

abbreviation reset_frame :: bytes where
  "reset_frame \<equiv> [0x05, 0x64, 0x05, 0xC0, 0x01, 0x00, 0x00, 0x04, 0xE9, 0x21]"

lemma reset_frame_bytes: "reset_frame = frame_bytes (LinkHeader_make 5 1024 1 True False False PRI_RESET_LINK_STATES) []"
  by (simp add: frame_bytes_def header_bytes_def LinkHeader_make_def LinkHeader_Set_def LinkHeader_default_def
      ControlByte_def mask_consts uint16_bytes_def crc_eval)

lemma reset_frame_parse: "link_parse (reset_frame @ x) =
  ((\<lparr>f_func = PRI_RESET_LINK_STATES, f_isFromMaster = True, f_fcb = False, f_fcvdfc = False,
     f_dest = 1, f_src = 1024\<rparr>, []) # fst (link_parse x), snd (link_parse x))"
  unfolding reset_frame_bytes
  using link_parse_frame[of "LinkHeader_make 5 1024 1 True False False PRI_RESET_LINK_STATES" "[]"]
    valid_header_control[of PRI_RESET_LINK_STATES 1024 1 True False False]
  by (simp add: LinkHeader_make_fields ValidateFunctionCode_make is_user_data_def)

theorem receive_refines_stream_witness:
  "\<exists>p'. receive parser0 (reset_frame @ [0x41]) = Some (p', [(\<lparr>f_func = PRI_RESET_LINK_STATES,
      f_isFromMaster = True, f_fcb = False, f_fcvdfc = False, f_dest = 1, f_src = 1024\<rparr>, [])])
     \<and> 0 < NumWriteBytes (lp_buffer p')"
  using receive_refines_stream[of parser0 "reset_frame @ [0x41]"] parser0_ok reset_frame_parse[of "[0x41]"]
  by (auto simp: parser_idle_def link_parse_short)

text \<open>
  \<^bold>\<open>C6\<close>.  How the stream is cut into reads does not matter: whatever the chunks, a receiver that
  took them all has handed up exactly the frames of the concatenated stream.
\<close>

theorem receive_all_chunks:
  assumes "parser_ok p" "receive_all p cs = Some (p', fs)"
  shows "fs = fst (link_parse (parser_unread p @ concat cs)) \<and> parser_ok p'"
  by (rule receive_all_spec[OF assms])

theorem receive_all_chunks_witness:
  "case receive_all parser0 (map (\<lambda>b. [b]) reset_frame) of None \<Rightarrow> False
   | Some (p', fs) \<Rightarrow> fs = [(\<lparr>f_func = PRI_RESET_LINK_STATES,
      f_isFromMaster = True, f_fcb = False, f_fcvdfc = False, f_dest = 1, f_src = 1024\<rparr>, [])]"
proof -
  have ok: "parser_ok parser0" using parser0_ok by (simp add: parser_idle_def)
  have "receive_all parser0 (map (\<lambda>b. [b]) reset_frame) \<noteq> None"
    by (rule receive_all_bytes[OF ok]) simp
  then obtain p' fs where *: "receive_all parser0 (map (\<lambda>b. [b]) reset_frame) = Some (p', fs)" by auto
  from receive_all_chunks[OF ok *] reset_frame_parse[of "[]"] show ?thesis
    unfolding * by simp
qed

text \<open>
  \<^bold>\<open>C7\<close>.  Nothing is invented: the frames a receiver hands up lie in the byte stream it was fed, in
  this order and without overlap, each one a valid header with correct CRCs followed by data blocks
  with correct CRCs.
\<close>

theorem receive_all_sound:
  assumes "length buf = LPDU_MAX_FRAME_SIZE"
    and "receive_all (LinkLayerParser_make stats buf) cs = Some (p', fs)"
  shows "carved (concat cs) fs"
proof -
  have "parser_idle (LinkLayerParser_make stats buf)" by (rule parser_idle_make[OF assms(1)])
  then show ?thesis
    using receive_all_spec[OF _ assms(2)] carved_link_parse[of "concat cs"] by (auto simp: parser_idle_def)
qed

theorem receive_all_sound_witness:
  "\<exists>p' fs. receive_all parser0 [reset_frame] = Some (p', fs) \<and> carved reset_frame fs \<and> length fs = 1"
proof -
  have ok: "parser_ok parser0" using parser0_ok by (simp add: parser_idle_def)
  from receive_spec[OF ok, of reset_frame] obtain p' where
    "receive parser0 reset_frame = Some (p', fst (link_parse reset_frame))" by auto
  then have *: "receive_all parser0 [reset_frame] = Some (p', fst (link_parse reset_frame))" by simp
  from receive_all_sound[OF _ *] reset_frame_parse[of "[]"] * show ?thesis by (simp add: lpdu_consts)
qed

text \<open>
  \<^bold>\<open>C8\<close>.  Round trip of user data: what \<^verbatim>\<open>FormatConfirmedUserData\<close> and \<^verbatim>\<open>FormatUnconfirmedUserData\<close>
  put on the wire, for every payload of 1 to 250 bytes, every address pair and every flag, an idle
  receiver hands up unchanged, as one frame with the same header fields and the same payload.
\<close>

theorem user_data_roundtrip:
  assumes "parser_idle p" "LPDU_MAX_FRAME_SIZE \<le> length buffer" "0 < length data" "length data \<le> 250"
  shows "(\<exists>b frame. FormatConfirmedUserData buffer m fcb dest src data = Some (b, frame)
      \<and> delivers p frame \<lparr>f_func = PRI_CONFIRMED_USER_DATA, f_isFromMaster = m, f_fcb = fcb,
           f_fcvdfc = True, f_dest = dest, f_src = src\<rparr> data)
    \<and> (\<exists>b frame. FormatUnconfirmedUserData buffer m dest src data = Some (b, frame)
      \<and> delivers p frame \<lparr>f_func = PRI_UNCONFIRMED_USER_DATA, f_isFromMaster = m, f_fcb = False,
           f_fcvdfc = False, f_dest = dest, f_src = src\<rparr> data)"
proof -
  have v: "valid_header (LinkHeader_make (word_of_nat (length data) + 5) src dest m fcv fcb f)"
    if "f = PRI_CONFIRMED_USER_DATA \<and> fcv \<or> f = PRI_UNCONFIRMED_USER_DATA \<and> \<not> fcv" for f fcv fcb
    using that data_size_make[OF assms(3,4)]
    by (auto simp: valid_header_def GetFuncEnum_make is_user_data_def ValidateFunctionCode_make)
  note delivered = delivers_frame[OF assms(1) v data_size_make(1)[OF assms(3,4)] assms(4)]
  show ?thesis
    using delivered[of PRI_CONFIRMED_USER_DATA True fcb] delivered[of PRI_UNCONFIRMED_USER_DATA False False]
    by (simp add: FormatConfirmedUserData_bytes[OF assms(2-4)] FormatUnconfirmedUserData_bytes[OF assms(2-4)]
        Let_def LinkHeader_make_fields)
qed

theorem user_data_roundtrip_witness:
  "\<exists>b frame. FormatConfirmedUserData (replicate 292 0) True False 1 1024 [0xC0, 0xC1, 0x01] = Some (b, frame)
      \<and> delivers parser0 frame \<lparr>f_func = PRI_CONFIRMED_USER_DATA, f_isFromMaster = True, f_fcb = False,
           f_fcvdfc = True, f_dest = 1, f_src = 1024\<rparr> [0xC0, 0xC1, 0x01]"
  using user_data_roundtrip[OF parser0_ok, of "replicate 292 0" "[0xC0, 0xC1, 0x01]"]
  by (simp add: lpdu_consts)

abbreviation fields_of :: "LinkFunction \<Rightarrow> bool \<Rightarrow> bool \<Rightarrow> bool \<Rightarrow> uint16 \<Rightarrow> uint16 \<Rightarrow> LinkHeaderFields" where
  "fields_of f m fcb fcv dest src \<equiv> \<lparr>f_func = f, f_isFromMaster = m, f_fcb = fcb, f_fcvdfc = fcv,
     f_dest = dest, f_src = src\<rparr>"

definition formats_to :: "LinkLayerParser \<Rightarrow> (bytes \<times> bytes) option \<Rightarrow> LinkHeaderFields \<Rightarrow> bool" where
  "formats_to p r hdr \<longleftrightarrow> (\<exists>b frame. r = Some (b, frame) \<and> delivers p frame hdr [])"

text \<open>
  Round trip of the frames without user data: every control frame the station formats is
  accepted by an idle receiver and handed up with the function code, direction, flags and addresses
  it was formatted with.
\<close>

theorem control_frame_roundtrip:
  assumes "parser_idle p" "10 \<le> length buffer"
  shows "formats_to p (FormatAck buffer m full dest src) (fields_of SEC_ACK m False full dest src)
    \<and> formats_to p (FormatNack buffer m full dest src) (fields_of SEC_NACK m False full dest src)
    \<and> formats_to p (FormatLinkStatus buffer m full dest src) (fields_of SEC_LINK_STATUS m False full dest src)
    \<and> formats_to p (FormatNotSupported buffer m full dest src) (fields_of SEC_NOT_SUPPORTED m False full dest src)
    \<and> formats_to p (FormatResetLinkStates buffer m dest src) (fields_of PRI_RESET_LINK_STATES m False False dest src)
    \<and> formats_to p (FormatRequestLinkStatus buffer m dest src) (fields_of PRI_REQUEST_LINK_STATUS m False False dest src)
    \<and> formats_to p (FormatTestLinkStatus buffer m fcb dest src) (fields_of PRI_TEST_LINK_STATES m fcb True dest src)"
  unfolding formats_to_def FormatAck_def FormatNack_def FormatLinkStatus_def FormatNotSupported_def
    FormatResetLinkStates_def FormatRequestLinkStatus_def FormatTestLinkStatus_def
  by (intro conjI delivers_control[OF assms(1) _ _ _ assms(2)])
    (simp_all add: ValidateFunctionCode_make is_user_data_def)

theorem control_frame_roundtrip_witness:
  "formats_to parser0 (FormatAck (replicate 292 0) False True 1024 1) (fields_of SEC_ACK False False True 1024 1)"
  using control_frame_roundtrip[OF parser0_ok, of "replicate 292 0" False True 1024 1] by simp

text \<open>
  De-interlacing in place: when the body of a frame passes its CRC checks,
  \<^verbatim>\<open>ReadUserData\<close> may copy the data over the very array the frame lies in, and still yields the
  data blocks without their CRCs; all bytes after the frame, where the next one starts, stay.
\<close>

theorem ReadUserData_in_place:
  assumes "ValidateBodyCRC buf (rd + 10) n" "rd + CalcFrameSize n \<le> length buf"
  shows "take n (ReadUserData buf (rd + 10) 0 n) = deblock (drop (rd + 10) buf) n
    \<and> drop (rd + CalcFrameSize n) (ReadUserData buf (rd + 10) 0 n) = drop (rd + CalcFrameSize n) buf"
proof -
  have fits: "rd + 10 + CalcUserDataSize n \<le> length buf"
    using assms(2) by (simp add: CalcFrameSize_def lpdu_consts)
  from ValidateBodyCRC_sound[OF assms(1) fits] obtain src where src: "length src = n" "holds_body buf (rd + 10) src"
    by blast
  have n: "n \<le> length buf" using fits CalcUserDataSize_ge[of n] by linarith
  have "ReadUserData buf (rd + 10) 0 n = overwrite buf 0 src"
    using ReadUserData_overwrite[OF src(2), of 0] fits src(1) by simp
  moreover have "take n (overwrite buf 0 src) = src" using src(1) n by (simp add: overwrite_0)
  moreover have "drop (rd + CalcFrameSize n) (overwrite buf 0 src) = drop (rd + CalcFrameSize n) buf"
    using src(1) CalcUserDataSize_ge[of n] by (intro drop_overwrite) (simp_all add: CalcFrameSize_def lpdu_consts)
  ultimately show ?thesis using deblock_holds_body[OF src(2)] src(1) by simp
qed

theorem ReadUserData_in_place_witness:
  "take 3 (ReadUserData (replicate 12 0 @ frame_body [1, 2, 3] @ [7]) 12 0 3) = [1, 2, 3]
   \<and> drop 17 (ReadUserData (replicate 12 0 @ frame_body [1, 2, 3] @ [7]) 12 0 3) = [7]"
proof -
  let ?buf = "replicate 12 0 @ frame_body [1, 2, 3] @ [7 :: uint8]"
  have len: "length (frame_body [1, 2, 3]) = 5" by (simp add: size_simps CalcUserDataSize_def lpdu_consts)
  have holds: "holds_body ?buf 12 [1, 2, 3]" by (simp add: holds_body_def)
  have "ValidateBodyCRC ?buf (2 + 10) 3"
    using ValidateBodyCRC_complete[OF holds] by (simp add: numeral_3_eq_3)
  moreover have "CalcFrameSize 3 = 15" by (simp add: CalcFrameSize_def CalcUserDataSize_def lpdu_consts)
  ultimately show ?thesis
    using ReadUserData_in_place[of ?buf 2 3] deblock_holds_body[OF holds] len
    by (simp add: numeral_3_eq_3)
qed

end
