(* ===== verification/LinkLayer.thy ===== *)
theory LinkLayer
  imports LinkConversation Transport LinkReceiver
begin

text \<open>
  The link layer with the transport layer's transmitter as its client, the way \<^verbatim>\<open>DNP3Stack\<close>
  connects the two: the interface \<^verbatim>\<open>link_client\<close> is interpreted on \<^verbatim>\<open>TransportTx\<close>, and the lemmas on
  sessions proved inside it become properties of the code: safety of every reachable session, confirmed
  and unconfirmed sends from the first frame to the reported result, silent peers, repeated frames,
  the transmit buffers and the keep-alive timer.
\<close>

section \<open>The transport layer's transmitter is a client's segment source\<close>

lemma tx_tpdu_size: "tx_inv t \<Longrightarrow> tpdu \<in> set (tx_todo t) \<Longrightarrow> tpdu_ok tpdu"
  using chain_tpdus[of "tx_sequence t" "tx_tpduCount t = 0" "tx_apdu t"]
  by (fastforce simp: tx_inv_def tx_todo_def tpdu_ok_def)

interpretation lk: link_client HasValue GetSegment Advance tx_inv tx_todo
  by unfold_locales (rule tx_tpdu_size)

abbreviation tx_vt :: "TransportTx ITransportSegment" where
  "tx_vt \<equiv> \<lparr>vt_GetSegment = GetSegment, vt_Advance = Advance\<rparr>"

abbreviation tx_ok :: "TransportTx \<Rightarrow> bool" where
  "tx_ok t \<equiv> tx_inv t \<and> tx_todo t \<noteq> []"

lemma configured_ok:
  assumes "tx_inv t" "length apdu < 2 ^ 32" "Configure t apdu = Some t1"
  shows "tx_ok t1" "tx_todo t1 = tpdus True (tx_sequence t) apdu" "apdu \<noteq> []"
proof -
  show "apdu \<noteq> []" using assms(3) by (auto simp: Configure_def split: if_splits)
  with tx_inv_Configure[OF assms] show "tx_ok t1" "tx_todo t1 = tpdus True (tx_sequence t) apdu" by simp_all
qed

text \<open>A session and a transmitter for the witnesses.\<close>

abbreviation config0 :: "bool \<Rightarrow> LinkConfig" where
  "config0 confirms \<equiv> \<lparr>cfg_IsMaster = True, cfg_UseConfirms = confirms, cfg_NumRetry = 2, cfg_LocalAddr = 1,
     cfg_RemoteAddr = 1024, cfg_Timeout = 1000, cfg_KeepAliveTimeout = 60000\<rparr>"

definition session0 :: "bool \<Rightarrow> TransportTx LinkContext" where
  "session0 confirms = fst (LinkContext_OnLowerLayerUp ((LinkContext_make (config0 confirms) 0)\<lparr>lc_pRouter := True\<rparr>) 5)"

abbreviation tx0 :: "bytes \<Rightarrow> TransportTx" where
  "tx0 apdu \<equiv> (TransportTx_make None)\<lparr>tx_apdu := apdu\<rparr>"

lemma session0_ready: "ready (session0 confirms)" "lc_config (session0 confirms) = config0 confirms"
  "lc_isRemoteReset (session0 confirms) = False" "lc_pSecState (session0 confirms) = SLLS_NotReset"
  by (simp_all add: session0_def LinkContext_OnLowerLayerUp_def Let_def StartKeepAliveTimer_def TimerRef_Start_def
      PostStatusCallback_def emit_def LinkContext_make_def)
    (simp add: ready_def sess_def wired_def waits_defs)

lemma session0_out: "lc_out (session0 confirms) = [PostStatus UNRESET, UpperLowerLayerUp]"
  by (simp add: session0_def LinkContext_OnLowerLayerUp_def Let_def StartKeepAliveTimer_def TimerRef_Start_def
      PostStatusCallback_def emit_def LinkContext_make_def)

lemma session0_reachable: "link_reachable vt (sends_ok ok) (config0 confirms) (session0 confirms)"
proof (rule link_reachable.step)
  show "link_reachable vt (sends_ok ok) (config0 confirms) ((LinkContext_make (config0 confirms) 0)\<lparr>lc_pRouter := True\<rparr>)"
    by (rule link_reachable.start[of _ 0]) (simp add: SetRouter_def LinkContext_make_def)
  show "LinkLayer_step vt ((LinkContext_make (config0 confirms) 0)\<lparr>lc_pRouter := True\<rparr>) (LowerLayerUp 5)
      = Some (session0 confirms)"
    by (simp add: LinkLayer_step_def session0_def)
qed (simp add: sends_ok_def)

lemma tx0_ok: "Configure (TransportTx_make None) (1 # apdu) = Some (tx0 (1 # apdu))"
  by (simp add: Configure_def TransportTx_make_def)

section \<open>Properties\<close>

text \<open>
  \<^bold>\<open>C1\<close>.  Safety of the link layer.  In every session that can be reached from its construction, by
  any sequence of frames from the wire, transmission outcomes, timer expiries, sends (also from inside
  a data callback) and layer changes, the next event, whatever it is, fails no assertion and
  dereferences no null pointer; the invariant of the session is kept, and an idle primary station is
  left with nothing unsent.
\<close>

theorem LinkLayer_safe:
  assumes "link_reachable tx_vt (sends_ok tx_ok) config ctx" "sends_ok tx_ok e"
  shows "\<exists>ctx'. LinkLayer_step tx_vt ctx e = Some ctx' \<and> link_inv (lc_pSecState ctx') tx_ok ctx' \<and> settled ctx'"
proof -
  have inv: "lk.session_inv ctx" "settled ctx" using lk.reachable_inv[OF assms(1)] by simp_all
  show ?thesis using lk.step_keeps[OF inv assms(2)] unfolding lk.session_inv_def .
qed

theorem LinkLayer_safe_witness:
  "\<exists>ctx'. LinkLayer_step tx_vt (session0 True) (Send (tx0 [1, 2, 3])) = Some ctx' \<and> settled ctx'"
proof -
  have "tx_ok (tx0 [1, 2, 3])" using configured_ok[OF tx_inv_make _ tx0_ok] by simp
  then have "sends_ok tx_ok (Send (tx0 [1, 2, 3]))" by (simp add: sends_ok_def)
  from LinkLayer_safe[OF session0_reachable this] show ?thesis by blast
qed

text \<open>
  \<^bold>\<open>C12\<close>.  Confirmed sends.  A ready session, given an APDU and a peer that acknowledges every frame,
  sends first a link reset when the remote link is not reset, then the segments of the APDU in
  order, each once, with the frame count bit alternating from the session's own, then reports success
  and is ready again.
\<close>

theorem confirmed_send_complete:
  assumes "ready ctx" "cfg_UseConfirms (lc_config ctx)" "is_ack (lc_config ctx) h"
    and "tx_inv t" "length apdu < 2 ^ 32" "Configure t apdu = Some t1"
  shows "let cfg = lc_config ctx; segs = tpdus True (tx_sequence t) apdu;
             reset = lc_isRemoteReset ctx;
             run = LinkLayer_run tx_vt ctx
               (Send t1 # sent_and_acked (if reset then length segs else Suc (length segs)) now h)
         in \<exists>c. run = Some c \<and> ready c \<and> lc_isRemoteReset c \<and> lc_out c = lc_out ctx @
           (if reset then confirmed_out cfg (lc_nextWriteFCB ctx) segs
            else RouterBeginTransmit TxPrimary (ctl_frame cfg PRI_RESET_LINK_STATES)
              # RouterBeginTransmit TxPrimary (conf_frame cfg True (hd segs)) # PostStatus RESET
              # confirmed_out cfg False (tl segs)) @ [PostSendResult True]"
proof -
  note t1 = configured_ok[OF assms(4-6)]
  note send = lk.confirmed_send[OF assms(1) t1(1) assms(2,3), unfolded t1(2)]
  show ?thesis using send by (cases "lc_isRemoteReset ctx") (simp_all add: Let_def)
qed

lemma tx0_small: "apdu \<noteq> [] \<Longrightarrow> length apdu < 2 ^ 32 \<Longrightarrow> Configure (TransportTx_make None) apdu = Some (tx0 apdu)"
  by (simp add: Configure_def TransportTx_make_def)

abbreviation ack0 :: LinkHeaderFields where
  "ack0 \<equiv> fields_of SEC_ACK False False False 1 1024"

lemma tpdus_short: "apdu \<noteq> [] \<Longrightarrow> length apdu \<le> 249 \<Longrightarrow> tpdus True 0 apdu = [0xC0 # apdu]"
  by (simp add: tpdus_ne GetHeader_def tl_consts)

theorem confirmed_send_complete_witness:
  "\<exists>c. LinkLayer_run tx_vt (session0 True) (Send (tx0 [1, 2]) # sent_and_acked 2 7 ack0) = Some c \<and> ready c
     \<and> lc_out c = lc_out (session0 True) @ [
         RouterBeginTransmit TxPrimary (ctl_frame (config0 True) PRI_RESET_LINK_STATES),
         RouterBeginTransmit TxPrimary (conf_frame (config0 True) True [0xC0, 1, 2]), PostStatus RESET, PostSendResult True]"
proof -
  have "Configure (TransportTx_make None) [1, 2] = Some (tx0 [1, 2])" by (rule tx0_small) simp_all
  from confirmed_send_complete[OF session0_ready(1) _ _ tx_inv_make _ this, of True ack0 7]
  show ?thesis
    by (simp add: session0_ready(2,3) is_ack_def from_remote_def tpdus_short TransportTx_make_def Let_def
        del: LinkLayer_run.simps) (auto simp: numeral_2_eq_2 simp del: LinkLayer_run.simps)
qed

text \<open>
  \<^bold>\<open>C23\<close>.  Unconfirmed sends.  A ready session hands the router the segments of the APDU in order, one
  frame per transmission result, and is ready again.  The result it reports is the result of the last
  transmission alone: that an earlier segment was not transmitted is not noticed.
\<close>

theorem unconfirmed_send_complete:
  assumes "ready ctx" "\<not> cfg_UseConfirms (lc_config ctx)"
    and "tx_inv t" "length apdu < 2 ^ 32" "Configure t apdu = Some t1"
    and "length outcomes = length (tpdus True (tx_sequence t) apdu)"
  shows "\<exists>c. LinkLayer_run tx_vt ctx (Send t1 # map TransmitResult outcomes) = Some c \<and> ready c
    \<and> lc_out c = lc_out ctx
        @ map (\<lambda>tpdu. RouterBeginTransmit TxPrimary (unconf_frame (lc_config ctx) tpdu)) (tpdus True (tx_sequence t) apdu)
        @ [PostSendResult (last outcomes)]"
proof -
  note t1 = configured_ok[OF assms(3-5)]
  show ?thesis
    using lk.unconfirmed_send[OF assms(1) t1(1) assms(2), of outcomes] assms(6) unfolding t1(2) by simp
qed

theorem unconfirmed_send_complete_witness:
  "\<exists>c frames. LinkLayer_run tx_vt (session0 False) (Send (tx0 (replicate 300 7)) # map TransmitResult [False, True]) = Some c
     \<and> lc_out c = lc_out (session0 False) @ frames @ [PostSendResult True] \<and> length frames = 2"
proof -
  have conf: "Configure (TransportTx_make None) (replicate 300 7) = Some (tx0 (replicate 300 7))"
    by (rule tx0_small) simp_all
  have two: "length (tpdus True (tx_sequence (TransportTx_make None)) (replicate 300 7)) = 2"
    by (simp add: tpdus_ne)
  have "length [False, True] = length (tpdus True (tx_sequence (TransportTx_make None)) (replicate 300 7))"
    using two by simp
  from unconfirmed_send_complete[OF session0_ready(1) _ tx_inv_make _ conf this] two
  show ?thesis by (simp add: session0_ready(2) del: LinkLayer_run.simps list.map(2)) (metis length_map)
qed

text \<open>
  \<^bold>\<open>C13\<close>.  A peer that never answers cannot hold a send up, nor make it transmit without end: a
  confirmed send puts its first frame on the wire exactly \<^verbatim>\<open>NumRetry + 1\<close> times, one per expired
  response timer, reports failure and is ready for the next send.
\<close>

theorem silent_peer_bounded:
  assumes "ready ctx" "cfg_UseConfirms (lc_config ctx)"
    and "tx_inv t" "length apdu < 2 ^ 32" "Configure t apdu = Some t1"
  shows "let n = cfg_NumRetry (lc_config ctx);
             first = (if lc_isRemoteReset ctx
               then conf_frame (lc_config ctx) (lc_nextWriteFCB ctx) (hd (tpdus True (tx_sequence t) apdu))
               else ctl_frame (lc_config ctx) PRI_RESET_LINK_STATES)
         in \<exists>c. LinkLayer_run tx_vt ctx (Send t1 # silence (n + 1)) = Some c \<and> ready c
           \<and> lc_out c = lc_out ctx @ replicate (n + 1) (RouterBeginTransmit TxPrimary first)
               @ (if lc_isRemoteReset ctx then [PostStatus UNRESET] else []) @ [PostSendResult False]"
proof -
  note t1 = configured_ok[OF assms(3-5)]
  show ?thesis
    using lk.silent_send[OF assms(1) t1(1) assms(2)] unfolding t1(2) Let_def Suc_eq_plus1 by blast
qed

theorem silent_peer_bounded_witness:
  "\<exists>c. LinkLayer_run tx_vt (session0 True) (Send (tx0 [1, 2]) # silence 3) = Some c \<and> ready c
     \<and> lc_out c = lc_out (session0 True)
        @ replicate 3 (RouterBeginTransmit TxPrimary (ctl_frame (config0 True) PRI_RESET_LINK_STATES)) @ [PostSendResult False]"
proof -
  have "Configure (TransportTx_make None) [1, 2] = Some (tx0 [1, 2])" by (rule tx0_small) simp_all
  from silent_peer_bounded[OF session0_ready(1) _ tx_inv_make _ this, of True]
  have run: "\<exists>c. LinkLayer_run tx_vt (session0 True) (Send (tx0 [1, 2]) # silence (2 + 1)) = Some c \<and> ready c
     \<and> lc_out c = lc_out (session0 True)
        @ replicate (2 + 1) (RouterBeginTransmit TxPrimary (ctl_frame (config0 True) PRI_RESET_LINK_STATES)) @ [PostSendResult False]"
    by (simp add: session0_ready(2,3) Let_def del: LinkLayer_run.simps replicate.simps replicate_Suc)
  have three: "(2::nat) + 1 = 3" by simp
  show ?thesis by (rule run[unfolded three])
qed

text \<open>
  \<^bold>\<open>C26\<close>.  After such a failure on a reset link the listener has been told that the link is not reset,
  but the session still takes it for reset: the next send starts with user data, without a link
  reset, and the listener is not told otherwise.
\<close>

theorem reported_unreset_stays_reset:
  assumes "ready ctx" "cfg_UseConfirms (lc_config ctx)" "lc_isRemoteReset ctx"
    and "tx_inv t" "length apdu < 2 ^ 32" "Configure t apdu = Some t1"
    and "tx_inv u" "length apdu' < 2 ^ 32" "Configure u apdu' = Some u1"
  shows "\<exists>c out. LinkLayer_run tx_vt ctx (Send t1 # silence (cfg_NumRetry (lc_config ctx) + 1) @ [Send u1]) = Some c
    \<and> lc_isRemoteReset c
    \<and> lc_out c = out @ [PostStatus UNRESET, PostSendResult False, RouterBeginTransmit TxPrimary
        (conf_frame (lc_config ctx) (lc_nextWriteFCB c) (hd (tpdus True (tx_sequence u) apdu')))]"
proof -
  note t1 = configured_ok[OF assms(4-6)]
  note u1 = configured_ok[OF assms(7-9)]
  obtain c where c: "LinkLayer_run tx_vt ctx (Send t1 # silence (Suc (cfg_NumRetry (lc_config ctx)))) = Some c" "ready c"
    "lc_config c = lc_config ctx" "lc_isRemoteReset c"
    "\<exists>out. lc_out c = out @ [PostStatus UNRESET, PostSendResult False]"
    using lk.silent_send[OF assms(1) t1(1) assms(2)] assms(3) by auto
  have conf: "cfg_UseConfirms (lc_config c)" using c(3) assms(2) by simp
  obtain d where d: "LinkLayer_step tx_vt c (Send u1) = Some d" "lc_isRemoteReset d" "lc_nextWriteFCB d = lc_nextWriteFCB c"
    "lc_out d = lc_out c @ [RouterBeginTransmit TxPrimary
       (conf_frame (lc_config c) (lc_nextWriteFCB c) (hd (tx_todo u1)))]"
    using lk.Send_first_confirmed[OF c(2) u1(1) conf c(4)] c(4) by metis
  from c(5) obtain out where "lc_out c = out @ [PostStatus UNRESET, PostSendResult False]" by blast
  moreover have "LinkLayer_run tx_vt ctx ((Send t1 # silence (Suc (cfg_NumRetry (lc_config ctx)))) @ [Send u1]) = Some d"
    unfolding LinkLayer_run_append c(1) using d(1) by simp
  ultimately show ?thesis using d(2-4) c(3) u1(2) by simp
qed

theorem reported_unreset_stays_reset_witness:
  "\<exists>c out. LinkLayer_run tx_vt ((session0 True)\<lparr>lc_isRemoteReset := True\<rparr>) (Send (tx0 [1]) # silence 3 @ [Send (tx0 [2])]) = Some c
    \<and> lc_isRemoteReset c \<and> lc_out c = out @ [PostStatus UNRESET, PostSendResult False, RouterBeginTransmit TxPrimary
        (conf_frame (config0 True) (lc_nextWriteFCB c) [0xC0, 2])]"
proof -
  let ?ctx = "(session0 True)\<lparr>lc_isRemoteReset := True\<rparr>"
  have ready: "ready ?ctx" using session0_ready(1)[of True] by (simp add: ready_def sess_def wired_def)
  have one: "Configure (TransportTx_make None) [1] = Some (tx0 [1])" by (rule tx0_small) simp_all
  have two: "Configure (TransportTx_make None) [2] = Some (tx0 [2])" by (rule tx0_small) simp_all
  from reported_unreset_stays_reset[OF ready _ _ tx_inv_make _ one tx_inv_make _ two] show ?thesis
    by (simp add: session0_ready(2) tpdus_short TransportTx_make_def del: LinkLayer_run.simps)
qed

text \<open>
  \<^bold>\<open>C14\<close>.  Retransmissions are acknowledged but not delivered again.  However often a peer repeats the
  same confirmed user data frame on a reset link, each acknowledgement having been transmitted, or having failed, before the
  next repetition arrives, the upper layer sees it at most once: once if its frame count bit was the expected one.
\<close>

theorem retransmission_delivered_once:
  assumes "ready ctx" "lc_pSecState ctx = SLLS_Reset" "from_remote (lc_config ctx) h"
    and "f_func h = PRI_CONFIRMED_USER_DATA"
  shows "\<exists>c. LinkLayer_run vt ctx (concat (replicate (n + 1) [Frame now h data None, TransmitResult b])) = Some c
    \<and> ready c \<and> lc_out c = lc_out ctx
       @ [RouterBeginTransmit TxSecondary (ctl_frame (lc_config ctx) SEC_ACK)]
       @ (if f_fcb h = lc_nextReadFCB ctx then [UpperReceive data] else [])
       @ replicate n (RouterBeginTransmit TxSecondary (ctl_frame (lc_config ctx) SEC_ACK))"
proof -
  let ?ack = "RouterBeginTransmit TxSecondary (ctl_frame (lc_config ctx) SEC_ACK)"
  let ?round = "[Frame now h data None, TransmitResult b]"
  obtain c where c: "LinkLayer_run vt ctx ?round = Some c" "ready c" "lc_pSecState c = SLLS_Reset"
    "lc_config c = lc_config ctx" "lc_nextReadFCB c = (\<not> f_fcb h)"
    "lc_out c = lc_out ctx @ [?ack] @ (if f_fcb h = lc_nextReadFCB ctx then [UpperReceive data] else [])"
    using confirmed_data[OF assms] by blast
  have repeated: "\<exists>d. LinkLayer_run vt c (concat (replicate n ?round)) = Some d \<and> ready d
      \<and> lc_out d = lc_out c @ replicate n ?ack"
    if "ready c" "lc_pSecState c = SLLS_Reset" "lc_config c = lc_config ctx" "lc_nextReadFCB c = (\<not> f_fcb h)" for c n
    using that
  proof (induction n arbitrary: c)
    case (Suc n)
    have h: "from_remote (lc_config c) h" using Suc.prems(3) assms(3) by simp
    obtain d where d': "LinkLayer_run vt c ?round = Some d" "ready d" "lc_pSecState d = SLLS_Reset"
      "lc_config d = lc_config c" "lc_nextReadFCB d = (\<not> f_fcb h)"
      "lc_out d = lc_out c @ [RouterBeginTransmit TxSecondary (ctl_frame (lc_config c) SEC_ACK)]
         @ (if f_fcb h = lc_nextReadFCB c then [UpperReceive data] else [])"
      by (rule confirmed_data[OF Suc.prems(1,2) h assms(4)])
    then have d: "LinkLayer_run vt c ?round = Some d" "ready d" "lc_pSecState d = SLLS_Reset"
      "lc_config d = lc_config ctx" "lc_nextReadFCB d = (\<not> f_fcb h)" "lc_out d = lc_out c @ [?ack]"
      using Suc.prems(3,4) by simp_all
    have "LinkLayer_run vt c (concat (replicate (Suc n) ?round)) = LinkLayer_run vt d (concat (replicate n ?round))"
      unfolding replicate_Suc concat.simps LinkLayer_run_append d(1) by simp
    with Suc.IH[OF d(2-5)] d(6) show ?case by (simp del: LinkLayer_run.simps replicate_Suc) simp
  qed simp
  have "LinkLayer_run vt ctx (concat (replicate (n + 1) ?round)) = LinkLayer_run vt c (concat (replicate n ?round))"
    unfolding Suc_eq_plus1[symmetric] replicate_Suc concat.simps LinkLayer_run_append c(1) by simp
  with repeated[OF c(2-5), of n] c(6) show ?thesis by auto
qed

theorem retransmission_delivered_once_witness:
  "\<exists>c. LinkLayer_run tx_vt ((session0 True)\<lparr>lc_pSecState := SLLS_Reset, lc_nextReadFCB := True\<rparr>)
      (concat (replicate 3 [Frame 9 (fields_of PRI_CONFIRMED_USER_DATA False True True 1 1024) [0xC0] None, TransmitResult True]))
      = Some c
    \<and> lc_out c = lc_out (session0 True) @ [RouterBeginTransmit TxSecondary (ctl_frame (config0 True) SEC_ACK),
        UpperReceive [0xC0]] @ replicate 2 (RouterBeginTransmit TxSecondary (ctl_frame (config0 True) SEC_ACK))"
proof -
  let ?ctx = "(session0 True)\<lparr>lc_pSecState := SLLS_Reset, lc_nextReadFCB := True\<rparr>"
  have ready: "ready ?ctx" using session0_ready(1)[of True] by (simp add: ready_def sess_def wired_def)
  from retransmission_delivered_once[OF ready, of "fields_of PRI_CONFIRMED_USER_DATA False True True 1 1024" tx_vt 2 9 "[0xC0]" True]
  show ?thesis by (auto simp: from_remote_def session0_ready(2) simp del: LinkLayer_run.simps concat.simps replicate.simps)
qed

text \<open>
  A frame that is in flight or queued is not overwritten.  The router and the queues hold
  slices of the two transmit buffers; as long as a station waits for a transmission, no event other
  than the result of that transmission changes a byte of its buffer.
\<close>

theorem queued_frames_kept:
  assumes "LinkLayer_step vt ctx e = Some ctx'"
  shows "(pri_waits_tx (lc_pPriState ctx) \<and> (\<forall>b. e = TransmitResult b \<longrightarrow> lc_txMode ctx \<noteq> TxPrimary)
        \<longrightarrow> lc_priTxBuffer ctx' = lc_priTxBuffer ctx)
    \<and> (sec_waits_tx (lc_pSecState ctx) \<and> (\<forall>b. e = TransmitResult b \<longrightarrow> lc_txMode ctx \<noteq> TxSecondary)
        \<longrightarrow> lc_secTxBuffer ctx' = lc_secTxBuffer ctx)"
  using pri_buffer_kept[OF assms] sec_buffer_kept[OF assms] by blast

theorem queued_frames_kept_witness:
  "\<exists>c d. LinkLayer_step tx_vt (session0 False) (Send (tx0 [1, 2])) = Some c
     \<and> LinkLayer_step tx_vt c (Frame 8 (fields_of PRI_RESET_LINK_STATES False False False 1 1024) [] None) = Some d
     \<and> lc_priTxBuffer d = lc_priTxBuffer c"
proof -
  have ok: "tx_ok (tx0 [1, 2])" using configured_ok[OF tx_inv_make _ tx0_ok] by simp
  let ?s = "session0 False" and ?send = "Send (tx0 [1, 2]) :: TransportTx LinkEvent"
  let ?h = "Frame 8 (fields_of PRI_RESET_LINK_STATES False False False 1 1024) [] None :: TransportTx LinkEvent"
  have inv: "lk.session_inv ?s" "settled ?s" using lk.reachable_inv[OF session0_reachable] by simp_all
  have "sends_ok tx_ok ?send" "sends_ok tx_ok ?h" using ok by (simp_all add: sends_ok_def)
  with lk.step_keeps[OF inv] obtain c where c: "LinkLayer_step tx_vt ?s ?send = Some c" "lk.session_inv c" "settled c" by blast
  with lk.step_keeps[OF c(2,3), of ?h] \<open>sends_ok tx_ok ?h\<close> obtain d where d: "LinkLayer_step tx_vt c ?h = Some d" by blast
  have "lc_pPriState c = PLLS_SendUnconfirmedTransmitWait"
    using c(1) session0_ready[of False] by (auto simp: lk.Send_ready[OF session0_ready(1)] PLLS_Idle_TrySendUnconfirmed_def set_pri_def split: Option.bind_splits)
  then have "pri_waits_tx (lc_pPriState c)" by (simp add: waits_defs)
  with queued_frames_kept[OF d] c(1) d show ?thesis by blast
qed

text \<open>
  When the keep-alive timer fires and the line was not idle for the whole timeout, it is
  restarted for a full timeout from now, whatever the time of the last message: the keep-alive request
  is sent up to twice the configured timeout after the last message.
\<close>

theorem keep_alive_rescheduled_from_now:
  assumes "lc_keepAliveTimer ctx \<noteq> None" "\<not> lc_keepAliveTimeout ctx" "lc_pPriState ctx \<noteq> PLLS_Idle \<or> lc_pSegments ctx = None"
    and "now - lc_lastMessageTimestamp ctx < cfg_KeepAliveTimeout (lc_config ctx)"
  shows "LinkLayer_step vt ctx (KeepAliveTimerFires now) =
    Some (ctx\<lparr>lc_keepAliveTimer := Some (cfg_KeepAliveTimeout (lc_config ctx))\<rparr>)"
  using assms by (auto simp: LinkLayer_step_def OnKeepAliveTimeout_def Let_def StartKeepAliveTimer_def TimerRef_Start_def
      TryStartTransmission_def PriState_TrySendConfirmed_def PriState_TrySendUnconfirmed_def)

theorem keep_alive_rescheduled_from_now_witness:
  "LinkLayer_step tx_vt ((session0 True)\<lparr>lc_lastMessageTimestamp := 59999\<rparr>) (KeepAliveTimerFires 60005) =
    Some ((session0 True)\<lparr>lc_lastMessageTimestamp := 59999, lc_keepAliveTimer := Some 60000\<rparr>)"
proof -
  have s: "lc_keepAliveTimer (session0 True) \<noteq> None" "\<not> lc_keepAliveTimeout (session0 True)" "lc_pSegments (session0 True) = None"
    by (simp_all add: session0_def LinkContext_OnLowerLayerUp_def Let_def StartKeepAliveTimer_def TimerRef_Start_def
        PostStatusCallback_def emit_def LinkContext_make_def)
  show ?thesis
    using keep_alive_rescheduled_from_now[of "(session0 True)\<lparr>lc_lastMessageTimestamp := 59999\<rparr>" 60005 tx_vt] s
    by (simp add: session0_ready(2))
qed

end
