(* ===== verification/Serialization.thy ===== *)
theory Serialization
  imports Prelude
begin

text \<open>
  \<^verbatim>\<open>openpal/serialization\<close> and \<^verbatim>\<open>openpal/container\<close>: the slices of a buffer that are written and read,
  the little-endian encodings of the primitive types, and \<^verbatim>\<open>Parse::Many\<close> and \<^verbatim>\<open>Format::Many\<close>, on which
  every object of the application layer is built.
\<close>

section \<open>\<^verbatim>\<open>WSlice\<close>\<close>

text \<open>
  A slice that is written is a position in a buffer, up to the buffer's end.  A slice that is read is the list of
  the bytes left.
\<close>

record WSlice =
  ws_buffer :: bytes
  ws_position :: nat

definition WSlice_make :: "bytes \<Rightarrow> WSlice" where
  "WSlice_make buffer = \<lparr>ws_buffer = buffer, ws_position = 0\<rparr>"

definition WSlice_Size :: "WSlice \<Rightarrow> nat" where
  "WSlice_Size w = length (ws_buffer w) - ws_position w"

definition WSlice_Advance :: "nat \<Rightarrow> WSlice \<Rightarrow> WSlice" where
  "WSlice_Advance n w = w\<lparr>ws_position := ws_position w + min n (WSlice_Size w)\<rparr>"

text \<open>\<open>Poke\<close> writes through the pointer; \<^verbatim>\<open>WriteBuffer\<close> of every type writes and advances.\<close>

definition Poke :: "bytes \<Rightarrow> WSlice \<Rightarrow> WSlice" where
  "Poke bs w = w\<lparr>ws_buffer := overwrite (ws_buffer w) (ws_position w) bs\<rparr>"

definition WriteBuffer :: "bytes \<Rightarrow> WSlice \<Rightarrow> WSlice" where
  "WriteBuffer bs w = WSlice_Advance (length bs) (Poke bs w)"

definition ws_ok :: "WSlice \<Rightarrow> bool" where
  "ws_ok w \<longleftrightarrow> ws_position w \<le> length (ws_buffer w)"

text \<open>What has been written before the position.\<close>

definition ws_written :: "WSlice \<Rightarrow> bytes" where
  "ws_written w = take (ws_position w) (ws_buffer w)"

lemma WriteBuffer_simps:
  assumes "ws_ok w" "length bs \<le> WSlice_Size w"
  shows "ws_ok (WriteBuffer bs w)" "ws_written (WriteBuffer bs w) = ws_written w @ bs"
    "WSlice_Size (WriteBuffer bs w) = WSlice_Size w - length bs" "length (ws_buffer (WriteBuffer bs w)) = length (ws_buffer w)"
    "ws_position (WriteBuffer bs w) = ws_position w + length bs"
  using assms
  by (auto simp: WriteBuffer_def WSlice_Advance_def Poke_def WSlice_Size_def ws_ok_def ws_written_def size_simps
      take_overwrite_end min_def)

section \<open>Little-endian integers\<close>

definition Bit16LE_Read :: "bytes \<Rightarrow> uint16" where
  "Bit16LE_Read data = push_bit 0 (ucast (data ! 0)) OR push_bit 8 (ucast (data ! 1))"

definition Bit16LE_Write :: "uint16 \<Rightarrow> bytes" where
  "Bit16LE_Write v = [ucast (v AND 0xFF), ucast (drop_bit 8 v AND 0xFF)]"

definition Bit32LE_Read :: "bytes \<Rightarrow> uint32" where
  "Bit32LE_Read data = push_bit 0 (ucast (data ! 0)) OR push_bit 8 (ucast (data ! 1)) OR push_bit 16 (ucast (data ! 2))
     OR push_bit 24 (ucast (data ! 3))"

definition Bit32LE_Write :: "uint32 \<Rightarrow> bytes" where
  "Bit32LE_Write v = [ucast (v AND 0xFF), ucast (drop_bit 8 v AND 0xFF), ucast (drop_bit 16 v AND 0xFF),
     ucast (drop_bit 24 v AND 0xFF)]"

definition UInt48_MAX :: uint64 where
  "UInt48_MAX = 281474976710655"

definition UInt48LE_Read :: "bytes \<Rightarrow> uint64" where
  "UInt48LE_Read data = push_bit 0 (ucast (data ! 0)) OR push_bit 8 (ucast (data ! 1)) OR push_bit 16 (ucast (data ! 2))
     OR push_bit 24 (ucast (data ! 3)) OR push_bit 32 (ucast (data ! 4)) OR push_bit 40 (ucast (data ! 5))"

text \<open>A time past the range of 48 bits is sent as the last one in it.\<close>

definition UInt48LE_Write :: "uint64 \<Rightarrow> bytes" where
  "UInt48LE_Write value =
     (let v = (if value > UInt48_MAX then UInt48_MAX else value)
      in [ucast (v AND 0xFF), ucast (drop_bit 8 v AND 0xFF), ucast (drop_bit 16 v AND 0xFF), ucast (drop_bit 24 v AND 0xFF),
          ucast (drop_bit 32 v AND 0xFF), ucast (drop_bit 40 v AND 0xFF)])"

text \<open>
  \<^verbatim>\<open>float\<close> and \<^verbatim>\<open>double\<close> are their IEEE representations, and the machine stores them little-endian:
  \<^verbatim>\<open>FloatByteOrder::Value::NORMAL\<close>.
\<close>

definition SingleFloat_Read :: "bytes \<Rightarrow> uint32" where
  "SingleFloat_Read data = Bit32LE_Read data"

definition SingleFloat_Write :: "uint32 \<Rightarrow> bytes" where
  "SingleFloat_Write v = Bit32LE_Write v"

definition DoubleFloat_Read :: "bytes \<Rightarrow> uint64" where
  "DoubleFloat_Read data = ucast (Bit32LE_Read (take 4 data)) OR push_bit 32 (ucast (Bit32LE_Read (drop 4 data)))"

definition DoubleFloat_Write :: "uint64 \<Rightarrow> bytes" where
  "DoubleFloat_Write v = Bit32LE_Write (ucast v) @ Bit32LE_Write (ucast (drop_bit 32 v))"

lemma ucast_byte: "(ucast (v AND 0xFF :: 'a::len word) :: uint8) = ucast v" if "8 \<le> LENGTH('a)"
proof (rule bit_word_eqI)
  fix n
  assume n: "n < LENGTH(8)"
  have m: "(0xFF :: 'a word) = mask 8" by (simp add: mask_eq_exp_minus_1)
  show "bit (ucast (v AND 0xFF :: 'a word) :: uint8) n = bit (ucast v :: uint8) n"
    unfolding m using n that by (auto simp: bit_ucast_iff bit_and_iff bit_mask_iff)
qed

lemma bit_byte: "bit (ucast (b :: uint8) :: 'a::len word) n \<longleftrightarrow> bit b n \<and> n < LENGTH('a)"
  by (auto simp: bit_ucast_iff)

lemma Bit16LE_roundtrip: "Bit16LE_Read (Bit16LE_Write v @ rest) = v"
  by (rule bit_word_eqI)
    (auto simp: Bit16LE_Read_def Bit16LE_Write_def ucast_byte bit_or_iff bit_push_bit_iff bit_ucast_iff bit_drop_bit_eq
      dest: bit_imp_le_length; linarith?)

lemma Bit32LE_roundtrip: "Bit32LE_Read (Bit32LE_Write v @ rest) = v"
proof (rule bit_word_eqI)
  fix n
  assume "n < LENGTH(32)"
  then consider "n < 8" | "8 \<le> n" "n < 16" | "16 \<le> n" "n < 24" | "24 \<le> n" "n < 32" by fastforce
  then show "bit (Bit32LE_Read (Bit32LE_Write v @ rest)) n = bit v n"
    by cases (simp_all add: Bit32LE_Read_def Bit32LE_Write_def ucast_byte bit_or_iff bit_push_bit_iff bit_ucast_iff bit_drop_bit_eq,
        linarith+)
qed

lemma UInt48_high_bits:
  assumes "v \<le> UInt48_MAX" "48 \<le> n"
  shows "\<not> bit v n"
proof -
  have "unat v < 2 ^ 48" using assms(1) by (simp add: UInt48_MAX_def word_le_nat_alt)
  also have "(2 :: nat) ^ 48 \<le> 2 ^ n" using assms(2) by (rule power_increasing) simp
  finally have "unat v div 2 ^ n = 0" by simp
  moreover have "bit v n = bit (unat v) n" by (simp add: bit_unsigned_iff bit_imp_possible_bit)
  ultimately show ?thesis by (simp add: bit_iff_odd)
qed

lemma UInt48LE_roundtrip:
  assumes "v \<le> UInt48_MAX"
  shows "UInt48LE_Read (UInt48LE_Write v @ rest) = v"
proof (rule bit_word_eqI)
  fix n
  assume "n < LENGTH(64)"
  then consider "n < 8" | "8 \<le> n" "n < 16" | "16 \<le> n" "n < 24" | "24 \<le> n" "n < 32" | "32 \<le> n" "n < 40"
    | "40 \<le> n" "n < 48" | "48 \<le> n" "n < 64" by fastforce
  then show "bit (UInt48LE_Read (UInt48LE_Write v @ rest)) n = bit v n"
    using assms UInt48_high_bits[OF assms, of n]
    by cases (simp_all add: UInt48LE_Read_def UInt48LE_Write_def Let_def ucast_byte bit_or_iff bit_push_bit_iff bit_ucast_iff
        bit_drop_bit_eq not_less[symmetric], linarith+)
qed

lemma DoubleFloat_roundtrip: "DoubleFloat_Read (DoubleFloat_Write v @ rest) = v"
proof -
  have "length (Bit32LE_Write w) = 4" for w by (simp add: Bit32LE_Write_def)
  then have "take 4 (DoubleFloat_Write v @ rest) = Bit32LE_Write (ucast v)"
    "drop 4 (DoubleFloat_Write v @ rest) = Bit32LE_Write (ucast (drop_bit 32 v)) @ rest"
    by (simp_all add: DoubleFloat_Write_def)
  then have "DoubleFloat_Read (DoubleFloat_Write v @ rest) = ucast (ucast v :: uint32) OR push_bit 32 (ucast (ucast (drop_bit 32 v) :: uint32))"
    using Bit32LE_roundtrip[of "ucast v" "[]"] Bit32LE_roundtrip[of "ucast (drop_bit 32 v)" rest] by (simp add: DoubleFloat_Read_def)
  also have "\<dots> = v"
    by (rule bit_word_eqI)
      (auto simp: bit_or_iff bit_push_bit_iff bit_ucast_iff bit_drop_bit_eq dest: bit_imp_le_length; linarith?)
  finally show ?thesis .
qed

section \<open>\<^verbatim>\<open>Parse\<close> and \<^verbatim>\<open>Format\<close>\<close>

text \<open>The types that \<^verbatim>\<open>Parse::Read\<close> and \<^verbatim>\<open>Format::Write\<close> are overloaded on.\<close>

datatype FieldType = U8 | U16 | U32 | U48 | I16 | I32 | Float32 | Double64

datatype Field =
    FU8 uint8 | FU16 uint16 | FU32 uint32 | FU48 uint64 | FI16 uint16 | FI32 uint32 | FFloat uint32 | FDouble uint64

fun field_type :: "Field \<Rightarrow> FieldType" where
  "field_type (FU8 v) = U8" | "field_type (FU16 v) = U16" | "field_type (FU32 v) = U32" | "field_type (FU48 v) = U48"
| "field_type (FI16 v) = I16" | "field_type (FI32 v) = I32" | "field_type (FFloat v) = Float32" | "field_type (FDouble v) = Double64"

fun field_size :: "FieldType \<Rightarrow> nat" where
  "field_size U8 = 1" | "field_size U16 = 2" | "field_size U32 = 4" | "field_size U48 = 6"
| "field_size I16 = 2" | "field_size I32 = 4" | "field_size Float32 = 4" | "field_size Double64 = 8"

fun ReadBuffer :: "FieldType \<Rightarrow> bytes \<Rightarrow> Field" where
  "ReadBuffer U8 data = FU8 (data ! 0)"
| "ReadBuffer U16 data = FU16 (Bit16LE_Read data)"
| "ReadBuffer U32 data = FU32 (Bit32LE_Read data)"
| "ReadBuffer U48 data = FU48 (UInt48LE_Read data)"
| "ReadBuffer I16 data = FI16 (Bit16LE_Read data)"
| "ReadBuffer I32 data = FI32 (Bit32LE_Read data)"
| "ReadBuffer Float32 data = FFloat (SingleFloat_Read data)"
| "ReadBuffer Double64 data = FDouble (DoubleFloat_Read data)"

fun field_bytes :: "Field \<Rightarrow> bytes" where
  "field_bytes (FU8 v) = [v]"
| "field_bytes (FU16 v) = Bit16LE_Write v"
| "field_bytes (FU32 v) = Bit32LE_Write v"
| "field_bytes (FU48 v) = UInt48LE_Write v"
| "field_bytes (FI16 v) = Bit16LE_Write v"
| "field_bytes (FI32 v) = Bit32LE_Write v"
| "field_bytes (FFloat v) = SingleFloat_Write v"
| "field_bytes (FDouble v) = DoubleFloat_Write v"

definition Parse_Read :: "FieldType \<Rightarrow> bytes \<Rightarrow> (Field \<times> bytes) option" where
  "Parse_Read t input =
     (if length input < field_size t then None else Some (ReadBuffer t input, drop (field_size t) input))"

fun Parse_Many :: "FieldType list \<Rightarrow> bytes \<Rightarrow> (Field list \<times> bytes) option" where
  "Parse_Many [] input = Some ([], input)"
| "Parse_Many (t # ts) input =
     (case Parse_Read t input of None \<Rightarrow> None
      | Some (f, input) \<Rightarrow> (case Parse_Many ts input of None \<Rightarrow> None | Some (fs, input) \<Rightarrow> Some (f # fs, input)))"

definition Format_Write :: "Field \<Rightarrow> WSlice \<Rightarrow> WSlice \<times> bool" where
  "Format_Write f dest =
     (if WSlice_Size dest < field_size (field_type f) then (dest, False) else (WriteBuffer (field_bytes f) dest, True))"

fun Format_Many :: "Field list \<Rightarrow> WSlice \<Rightarrow> WSlice \<times> bool" where
  "Format_Many [] dest = (dest, True)"
| "Format_Many (f # fs) dest =
     (case Format_Write f dest of (dest, ok) \<Rightarrow> if ok then Format_Many fs dest else (dest, False))"

abbreviation fields_bytes :: "Field list \<Rightarrow> bytes" where
  "fields_bytes fs \<equiv> concat (map field_bytes fs)"

abbreviation fields_size :: "FieldType list \<Rightarrow> nat" where
  "fields_size ts \<equiv> sum_list (map field_size ts)"

lemma length_field_bytes [simp]: "length (field_bytes f) = field_size (field_type f)"
  by (cases f) (simp_all add: Bit16LE_Write_def Bit32LE_Write_def UInt48LE_Write_def Let_def SingleFloat_Write_def DoubleFloat_Write_def)

lemma length_fields_bytes [simp]: "length (fields_bytes fs) = fields_size (map field_type fs)"
  by (induction fs) simp_all

fun field_ok :: "Field \<Rightarrow> bool" where
  "field_ok (FU48 v) = (v \<le> UInt48_MAX)"
| "field_ok _ = True"

lemma ReadBuffer_field_bytes: "field_ok f \<Longrightarrow> ReadBuffer (field_type f) (field_bytes f @ rest) = f"
  by (cases f) (simp_all add: Bit16LE_roundtrip Bit32LE_roundtrip UInt48LE_roundtrip DoubleFloat_roundtrip SingleFloat_Read_def SingleFloat_Write_def)

lemma Parse_Many_fields:
  "\<forall>f\<in>set fs. field_ok f \<Longrightarrow> Parse_Many (map field_type fs) (fields_bytes fs @ rest) = Some (fs, rest)"
  by (induction fs) (simp_all add: Parse_Read_def ReadBuffer_field_bytes)

lemma Parse_Many_size:
  "Parse_Many ts input = Some (fs, rest) \<Longrightarrow> map field_type fs = ts \<and> rest = drop (fields_size ts) input \<and> fields_size ts \<le> length input"
proof (induction ts arbitrary: fs input)
  case (Cons t ts)
  have t: "field_type (ReadBuffer t input) = t" by (cases t) simp_all
  from Cons.prems obtain fs' where room: "field_size t \<le> length input"
    and fs: "Parse_Many ts (drop (field_size t) input) = Some (fs', rest)" "fs = ReadBuffer t input # fs'"
    by (auto simp: Parse_Read_def split: if_splits option.splits)
  from Cons.IH[OF fs(1)] room fs(2) t show ?case by (auto simp: add.commute)
qed simp

lemma Parse_Many_total: "fields_size ts \<le> length input \<Longrightarrow> Parse_Many ts input \<noteq> None"
proof (induction ts arbitrary: input)
  case (Cons t ts)
  then have "Parse_Many ts (drop (field_size t) input) \<noteq> None" by simp
  with Cons.prems show ?case by (auto simp: Parse_Read_def)
qed simp

lemma Format_Many_room:
  assumes "ws_ok w" "fields_size (map field_type fs) \<le> WSlice_Size w"
  shows "Format_Many fs w = (WriteBuffer (fields_bytes fs) w, True)"
  using assms
proof (induction fs arbitrary: w)
  case Nil
  then show ?case by (simp add: WriteBuffer_def WSlice_Advance_def Poke_def)
next
  case (Cons f fs)
  let ?w = "WriteBuffer (field_bytes f) w"
  have room: "field_size (field_type f) \<le> WSlice_Size w" using Cons.prems by simp
  note W = WriteBuffer_simps[OF Cons.prems(1), of "field_bytes f"]
  have "Format_Many fs ?w = (WriteBuffer (fields_bytes fs) ?w, True)"
    by (rule Cons.IH) (use W Cons.prems in auto)
  moreover have "WriteBuffer (fields_bytes fs) ?w = WriteBuffer (field_bytes f @ fields_bytes fs) w"
    using Cons.prems overwrite_append[of "ws_position w" "field_bytes f" "ws_buffer w" "fields_bytes fs"]
    by (auto simp: WriteBuffer_def WSlice_Advance_def Poke_def WSlice_Size_def ws_ok_def size_simps min_def)
  ultimately show ?case using room by (simp add: Format_Write_def)
qed

end
