(* ===== verification/DownSampling.thy ===== *)
theory DownSampling
  imports Prelude
begin

text \<open>
  \<^verbatim>\<open>app/DownSampling.h\<close>: conversion of a \<^verbatim>\<open>double\<close> to a narrower type, and the conversions of C++ it
  rests on.  A \<^verbatim>\<open>double\<close> or \<^verbatim>\<open>float\<close> is its IEEE 754 representation; the order, truncation and rounding of
  numbers are those of exact integer arithmetic on the represented numbers.
\<close>

section \<open>The numbers represented\<close>

definition dbl_negative :: "uint64 \<Rightarrow> bool" where
  "dbl_negative d = bit d 63"

definition dbl_exponent :: "uint64 \<Rightarrow> nat" where
  "dbl_exponent d = unat (drop_bit 52 d AND 0x7FF)"

definition dbl_fraction :: "uint64 \<Rightarrow> nat" where
  "dbl_fraction d = unat (d AND 0xFFFFFFFFFFFFF)"

definition dbl_isnan :: "uint64 \<Rightarrow> bool" where
  "dbl_isnan d \<longleftrightarrow> dbl_exponent d = 2047 \<and> dbl_fraction d \<noteq> 0"

text \<open>
  The absolute value in units of the smallest number, \<open>2\<^sup>-\<^sup>1\<^sup>0\<^sup>7\<^sup>4\<close>; infinity comes out as \<open>2\<^sup>1\<^sup>0\<^sup>2\<^sup>4\<close>, above every number.
\<close>

definition dbl_unit :: int where
  "dbl_unit = 2 ^ 1074"

definition dbl_abs :: "uint64 \<Rightarrow> nat" where
  "dbl_abs d =
     (if dbl_exponent d = 0 then dbl_fraction d else (dbl_fraction d + 2 ^ 52) * 2 ^ (dbl_exponent d - 1))"

definition dbl_int :: "uint64 \<Rightarrow> int" where
  "dbl_int d = (if dbl_negative d then - int (dbl_abs d) else int (dbl_abs d))"

text \<open>Comparison with an exact number \<open>n / dbl_unit\<close>; a NaN compares false.\<close>

definition dbl_greater :: "uint64 \<Rightarrow> int \<Rightarrow> bool" where
  "dbl_greater d n \<longleftrightarrow> \<not> dbl_isnan d \<and> dbl_int d > n"

definition dbl_less :: "uint64 \<Rightarrow> int \<Rightarrow> bool" where
  "dbl_less d n \<longleftrightarrow> \<not> dbl_isnan d \<and> dbl_int d < n"

section \<open>Conversions\<close>

text \<open>\<^verbatim>\<open>static_cast\<close> to an integer type truncates; of a NaN it is undefined.\<close>

definition dbl_truncate :: "uint64 \<Rightarrow> int" where
  "dbl_truncate d = (if dbl_negative d then - (int (dbl_abs d) div dbl_unit) else int (dbl_abs d) div dbl_unit)"

text \<open>
  \<^verbatim>\<open>static_cast<float>\<close> rounds to the nearest number, ties to even.  The fraction keeps its leading 24 bits, fewer below
  the normal range of a \<^verbatim>\<open>float\<close>; a carry out of the fraction runs into the exponent, as it must.  A NaN stays a NaN and
  keeps the leading bits of its payload.
\<close>

definition round_even :: "nat \<Rightarrow> nat \<Rightarrow> nat" where
  "round_even a n =
     (let q = a div n; r = a mod n in if 2 * r > n \<or> 2 * r = n \<and> odd q then q + 1 else q)"

definition flt_of_dbl :: "uint64 \<Rightarrow> uint32" where
  "flt_of_dbl d =
     (let sign = (if dbl_negative d then 0x80000000 else 0)
      in if dbl_isnan d then sign OR 0x7FC00000 OR word_of_nat (dbl_fraction d div 2 ^ 29)
         else let k = dbl_exponent d - 897
              in sign OR word_of_nat (min 0x7F800000 (round_even (dbl_abs d) (2 ^ (925 + k)) + k * 2 ^ 23)))"

text \<open>The conversions to \<^verbatim>\<open>double\<close> are exact.\<close>

fun log2 :: "nat \<Rightarrow> nat" where
  "log2 n = (if n < 2 then 0 else Suc (log2 (n div 2)))"

declare log2.simps [simp del]

definition dbl_of_int :: "int \<Rightarrow> uint64" where
  "dbl_of_int i =
     (if i = 0 then 0
      else let m = nat \<bar>i\<bar>; k = log2 m
           in (if i < 0 then 2 ^ 63 else 0) OR word_of_nat ((k + 1022) * 2 ^ 52 + m * 2 ^ (52 - k)))"

definition dbl_of_flt :: "uint32 \<Rightarrow> uint64" where
  "dbl_of_flt f =
     (let sign = (if bit f 31 then 2 ^ 63 else 0);
          e = unat (drop_bit 23 f AND 0xFF);
          m = unat (f AND 0x7FFFFF)
      in sign OR (if e = 255 then word_of_nat (2047 * 2 ^ 52 + m * 2 ^ 29)
                  else if e > 0 then word_of_nat ((e + 896) * 2 ^ 52 + m * 2 ^ 29)
                  else if m = 0 then 0
                  else let k = log2 m in word_of_nat ((k + 873) * 2 ^ 52 + m * 2 ^ (52 - k))))"

section \<open>\<^verbatim>\<open>DownSampling\<close>\<close>

text \<open>
  \<^verbatim>\<open>Apply\<close>: the target and whether it is out of range; \<open>None\<close> is undefined behaviour, the conversion of a NaN to an
  integer.
\<close>

definition DownSampling_int :: "int \<Rightarrow> int \<Rightarrow> uint64 \<Rightarrow> (int \<times> bool) option" where
  "DownSampling_int TARGET_MIN TARGET_MAX src =
     (if dbl_greater src (TARGET_MAX * dbl_unit) then Some (TARGET_MAX, True)
      else if dbl_less src (TARGET_MIN * dbl_unit) then Some (TARGET_MIN, True)
      else if dbl_isnan src then None
      else Some (dbl_truncate src, False))"

definition DownSampling_int32 :: "uint64 \<Rightarrow> (uint32 \<times> bool) option" where
  "DownSampling_int32 src = map_option (\<lambda>(n, over). (word_of_int n, over)) (DownSampling_int (- 2147483648) 2147483647 src)"

definition DownSampling_int16 :: "uint64 \<Rightarrow> (uint16 \<times> bool) option" where
  "DownSampling_int16 src = map_option (\<lambda>(n, over). (word_of_int n, over)) (DownSampling_int (- 32768) 32767 src)"

definition FLT_MAX_int :: int where
  "FLT_MAX_int = (2 ^ 24 - 1) * 2 ^ 104 * dbl_unit"

definition DownSampling_float :: "uint64 \<Rightarrow> uint32 \<times> bool" where
  "DownSampling_float src =
     (if dbl_greater src FLT_MAX_int then (0x7F7FFFFF, True)
      else if dbl_less src (- FLT_MAX_int) then (0xFF7FFFFF, True)
      else (flt_of_dbl src, False))"

section \<open>Integers survive\<close>

lemma dbl_fields:
  fixes s :: bool
  assumes "E < 2048" "F < 2 ^ 52"
  defines "w \<equiv> (if s then 2 ^ 63 else 0) OR word_of_nat (E * 2 ^ 52 + F) :: uint64"
  shows "dbl_negative w = s" "dbl_exponent w = E" "dbl_fraction w = F"
proof -
  define N where "N = E * 2 ^ 52 + F"
  have w: "w = (if s then 2 ^ 63 else 0) OR word_of_nat N" by (simp only: w_def N_def)
  have N: "N < 2 ^ 63" using assms(1,2) by (simp add: N_def)
  have unat_N: "unat (word_of_nat N :: uint64) = N" using N by (simp add: unat_of_nat)
  have high: "\<not> bit (word_of_nat N :: uint64) n" if "63 \<le> n" for n
  proof -
    have "N < 2 ^ n" using N that by (meson less_le_trans one_le_numeral power_increasing)
    then have "\<not> bit N n" by (simp add: bit_iff_odd)
    then show ?thesis using bit_unsigned_iff[of "word_of_nat N :: uint64" n, where ?'a = nat] by (auto simp: unat_N dest: bit_imp_le_length)
  qed
  show "dbl_negative w = s"
    using high[of 63] by (simp add: dbl_negative_def w bit_or_iff bit_exp_iff)
  have mask: "0xFFFFFFFFFFFFF = (mask 52 :: uint64)" "0x7FF = (mask 11 :: uint64)" by (simp_all add: mask_eq_exp_minus_1)
  have "take_bit 52 w = take_bit 52 (word_of_nat N)"
    by (simp add: w take_bit_or take_bit_of_exp)
  then have "dbl_fraction w = unat (take_bit 52 (word_of_nat N :: uint64))"
    by (simp add: dbl_fraction_def mask(1) take_bit_eq_mask)
  also have "\<dots> = N mod 2 ^ 52" by (simp only: unsigned_take_bit_eq unat_N) (simp only: take_bit_eq_mod)
  finally show "dbl_fraction w = F" using assms(2) by (simp add: N_def)
  have "take_bit 63 w = take_bit 63 (word_of_nat N)"
    by (simp add: w take_bit_or take_bit_of_exp)
  then have "take_bit 11 (drop_bit 52 w) = take_bit 11 (drop_bit 52 (word_of_nat N))"
    by (simp add: take_bit_drop_bit)
  then have "dbl_exponent w = unat (take_bit 11 (drop_bit 52 (word_of_nat N :: uint64)))"
    by (simp add: dbl_exponent_def mask(2) take_bit_eq_mask)
  also have "\<dots> = N div 2 ^ 52 mod 2 ^ 11"
    by (simp only: unsigned_take_bit_eq unsigned_drop_bit_eq unat_N) (use N in \<open>simp add: take_bit_eq_mod drop_bit_eq_div\<close>)
  finally show "dbl_exponent w = E" using assms(1,2) by (simp add: N_def)
qed

lemma log2_bounds: "0 < n \<Longrightarrow> 2 ^ log2 n \<le> n \<and> n < 2 ^ (log2 n + 1)"
proof (induction n rule: log2.induct)
  case (1 n)
  show ?case
  proof (cases "n < 2")
    case True
    with 1 show ?thesis by (simp add: log2.simps[of n])
  next
    case False
    with 1 have "2 ^ log2 (n div 2) \<le> n div 2" "n div 2 < 2 ^ (log2 (n div 2) + 1)" by simp_all
    then have "n div 2 < 2 * 2 ^ log2 (n div 2)" "2 ^ log2 (n div 2) \<le> n div 2" by simp_all
    then have "2 * 2 ^ log2 (n div 2) \<le> n" "n < 2 * (2 * 2 ^ log2 (n div 2))" by linarith+
    then show ?thesis using False by (simp add: log2.simps[of n])
  qed
qed

lemma dbl_of_int_exact:
  assumes "\<bar>i\<bar> < 2 ^ 53"
  shows "dbl_int (dbl_of_int i) = i * dbl_unit" "\<not> dbl_isnan (dbl_of_int i)"
proof -
  have "dbl_int (dbl_of_int i) = i * dbl_unit \<and> \<not> dbl_isnan (dbl_of_int i)"
  proof (cases "i = 0")
    case True
    then show ?thesis
      by (simp add: dbl_of_int_def dbl_int_def dbl_abs_def dbl_negative_def dbl_exponent_def dbl_fraction_def dbl_isnan_def)
  next
    case False
    define m where "m = nat \<bar>i\<bar>"
    define k where "k = log2 m"
    have m: "0 < m" "m < 2 ^ 53" using False assms by (simp_all add: m_def nat_less_iff)
    have k: "2 ^ k \<le> m" "m < 2 ^ (k + 1)" using log2_bounds[OF m(1)] by (simp_all add: k_def)
    have "(2 :: nat) ^ k < 2 ^ 53" using k(1) m(2) by linarith
    then have "k < 53" by (rule power_less_imp_less_exp[rotated]) simp
    then have k52: "k \<le> 52" by simp
    define F where "F = m * 2 ^ (52 - k) - 2 ^ 52"
    have pow: "(2 :: nat) ^ k * 2 ^ (52 - k) = 2 ^ 52" "(2 :: nat) ^ (k + 1) * 2 ^ (52 - k) = 2 ^ 53"
      using k52 by (simp_all flip: power_add)
    have lo: "2 ^ 52 \<le> m * 2 ^ (52 - k)" using mult_le_mono1[OF k(1), of "2 ^ (52 - k)"] pow(1) by simp
    have hi: "m * 2 ^ (52 - k) < 2 ^ 53"
      using mult_strict_right_mono[OF k(2), of "2 ^ (52 - k)"] unfolding pow(2) by simp
    have F: "F < 2 ^ 52" "F + 2 ^ 52 = m * 2 ^ (52 - k)" using lo hi by (simp_all add: F_def)
    have w: "dbl_of_int i = (if i < 0 then 2 ^ 63 else 0) OR word_of_nat ((k + 1023) * 2 ^ 52 + F)"
    proof -
      have "(k + 1022) * 2 ^ 52 + m * 2 ^ (52 - k) = (k + 1023) * 2 ^ 52 + F" unfolding F(2)[symmetric] by simp
      then show ?thesis using False by (simp only: dbl_of_int_def Let_def m_def[symmetric] k_def[symmetric] if_False)
    qed
    note fields = dbl_fields[of "k + 1023" F "i < 0", folded w]
    have E: "k + 1023 < 2048" using k52 by simp
    have "dbl_abs (dbl_of_int i) = m * 2 ^ (52 - k) * 2 ^ (k + 1022)"
      using fields(2,3)[OF E F(1)] F(2) by (simp add: dbl_abs_def)
    also have "\<dots> = m * 2 ^ 1074" using k52 by (simp flip: power_add)
    finally have "dbl_int (dbl_of_int i) = i * dbl_unit"
      using fields(1)[OF E F(1)] by (simp add: dbl_int_def dbl_unit_def m_def)
    moreover have "\<not> dbl_isnan (dbl_of_int i)" using fields(2)[OF E F(1)] k52 by (simp add: dbl_isnan_def)
    ultimately show ?thesis ..
  qed
  then show "dbl_int (dbl_of_int i) = i * dbl_unit" "\<not> dbl_isnan (dbl_of_int i)" by simp_all
qed

section \<open>Properties\<close>

lemma unit_div: "(m * dbl_unit) div dbl_unit = m" "- (m * dbl_unit) div dbl_unit = - m"
proof -
  have u: "dbl_unit \<noteq> 0" by (simp add: dbl_unit_def)
  then show "(m * dbl_unit) div dbl_unit = m" by simp
  have "- m * dbl_unit div dbl_unit = - m" using u by (rule nonzero_mult_div_cancel_right)
  then show "- (m * dbl_unit) div dbl_unit = - m" by simp
qed

lemma dbl_truncate_bounds:
  assumes "\<not> dbl_int d > M * dbl_unit" "\<not> dbl_int d < m * dbl_unit" "m \<le> 0" "0 \<le> M"
  shows "m \<le> dbl_truncate d" "dbl_truncate d \<le> M"
proof -
  have u: "0 < dbl_unit" by (simp add: dbl_unit_def)
  have a: "0 \<le> int (dbl_abs d)" by simp
  have q: "0 \<le> int (dbl_abs d) div dbl_unit" using u by (simp add: pos_imp_zdiv_nonneg_iff)
  show "m \<le> dbl_truncate d"
  proof (cases "dbl_negative d")
    case True
    with assms(2) have "int (dbl_abs d) \<le> - m * dbl_unit" by (simp add: dbl_int_def)
    then have "int (dbl_abs d) div dbl_unit \<le> - m * dbl_unit div dbl_unit" by (rule zdiv_mono1) (rule u)
    with True show ?thesis by (simp add: dbl_truncate_def unit_div)
  qed (use q assms(3) in \<open>simp add: dbl_truncate_def\<close>)
  show "dbl_truncate d \<le> M"
  proof (cases "dbl_negative d")
    case False
    with assms(1) have "int (dbl_abs d) \<le> M * dbl_unit" by (simp add: dbl_int_def)
    then have "int (dbl_abs d) div dbl_unit \<le> M * dbl_unit div dbl_unit" by (rule zdiv_mono1) (rule u)
    with False show ?thesis by (simp add: dbl_truncate_def unit_div)
  qed (use q assms(4) in \<open>simp add: dbl_truncate_def\<close>)
qed

lemma dbl_truncate_int:
  assumes "dbl_int d = i * dbl_unit"
  shows "dbl_truncate d = i"
proof -
  have u: "dbl_unit \<noteq> 0" by (simp add: dbl_unit_def)
  show ?thesis
  proof (cases "dbl_negative d")
    case True
    with assms have "int (dbl_abs d) = - i * dbl_unit" by (simp add: dbl_int_def)
    with True show ?thesis by (simp add: dbl_truncate_def unit_div)
  qed (use assms in \<open>simp add: dbl_truncate_def dbl_int_def unit_div\<close>)
qed

lemma DownSampling_int_result:
  assumes "m \<le> 0" "0 \<le> M"
  shows "DownSampling_int m M src =
    (if dbl_isnan src then None
     else Some (max m (min M (dbl_truncate src)), dbl_int src > M * dbl_unit \<or> dbl_int src < m * dbl_unit))"
proof -
  have u: "0 < dbl_unit" by (simp add: dbl_unit_def)
  have over: "dbl_int src > M * dbl_unit \<Longrightarrow> M \<le> dbl_truncate src"
  proof -
    assume *: "dbl_int src > M * dbl_unit"
    with assms(2) u have n: "\<not> dbl_negative src" by (auto simp: dbl_int_def) (metis mult_nonneg_nonneg not_le of_nat_0_le_iff order_less_imp_le neg_le_0_iff_le order_trans)
    with * have "M * dbl_unit div dbl_unit \<le> int (dbl_abs src) div dbl_unit" by (intro zdiv_mono1) (simp_all add: dbl_int_def u)
    with n show ?thesis by (simp add: dbl_truncate_def unit_div)
  qed
  have under: "dbl_int src < m * dbl_unit \<Longrightarrow> dbl_truncate src \<le> m"
  proof -
    assume *: "dbl_int src < m * dbl_unit"
    have "m * dbl_unit \<le> 0" using assms(1) u by (simp add: mult_nonpos_nonneg)
    with * have n: "dbl_negative src" by (cases "dbl_negative src") (simp_all add: dbl_int_def)
    with * have "- m * dbl_unit div dbl_unit \<le> int (dbl_abs src) div dbl_unit" by (intro zdiv_mono1) (simp_all add: dbl_int_def u)
    with n show ?thesis by (simp add: dbl_truncate_def unit_div)
  qed
  show ?thesis
    using dbl_truncate_bounds[of M src m] over under assms
    by (auto simp: DownSampling_int_def dbl_greater_def dbl_less_def max_def min_def)
qed

text \<open>
  \<^bold>\<open>C34\<close>.  Down-sampling an analog value to 32 bits truncates it and saturates at the limits of the type; the
  out-of-range flag is set exactly when the value lies outside the limits; the only input that is not converted is
  a NaN; and every integer in the range comes out as itself.
\<close>

theorem DownSampling_int32_saturates:
  "DownSampling_int32 src =
     (if dbl_isnan src then None
      else Some (word_of_int (max (- (2 ^ 31)) (min (2 ^ 31 - 1) (dbl_truncate src))),
                 dbl_int src > (2 ^ 31 - 1) * dbl_unit \<or> dbl_int src < - (2 ^ 31) * dbl_unit))
   \<and> DownSampling_int32 (dbl_of_int (sint (n :: uint32))) = Some (n, False)"
proof
  show "DownSampling_int32 src =
     (if dbl_isnan src then None
      else Some (word_of_int (max (- (2 ^ 31)) (min (2 ^ 31 - 1) (dbl_truncate src))),
                 dbl_int src > (2 ^ 31 - 1) * dbl_unit \<or> dbl_int src < - (2 ^ 31) * dbl_unit))"
    using DownSampling_int_result[of "- 2147483648" 2147483647 src] by (simp add: DownSampling_int32_def)
  have range: "- (2 ^ 31) \<le> sint n" "sint n < 2 ^ 31" using sint_greater_eq[of n] sint_less[of n] by simp_all
  then have i: "dbl_int (dbl_of_int (sint n)) = sint n * dbl_unit" "\<not> dbl_isnan (dbl_of_int (sint n))"
    using dbl_of_int_exact[of "sint n"] by (simp_all add: abs_less_iff)
  have u: "0 < dbl_unit" by (simp add: dbl_unit_def)
  have "\<not> 2147483647 * dbl_unit < sint n * dbl_unit" "\<not> sint n * dbl_unit < - 2147483648 * dbl_unit"
    unfolding mult_less_cancel_right_pos[OF u] using range by simp_all
  moreover have "max (- 2147483648) (min 2147483647 (sint n)) = sint n" using range by simp
  ultimately show "DownSampling_int32 (dbl_of_int (sint n)) = Some (n, False)"
    using i DownSampling_int_result[of "- 2147483648" 2147483647 "dbl_of_int (sint n)"] dbl_truncate_int[OF i(1)]
    by (simp add: DownSampling_int32_def del: max_def min_def)
qed

end
