(* ===== verification/AppFields.thy ===== *)
theory AppFields
  imports Prelude
begin

text \<open>
  The small values of the application layer the outstation computes with: the enumerations
  \<^verbatim>\<open>EventType\<close>, \<^verbatim>\<open>EventClass\<close> and \<^verbatim>\<open>PointClass\<close>, the internal indications \<^verbatim>\<open>IINField\<close>, the class sets
  \<^verbatim>\<open>ClassField\<close>, and \<^verbatim>\<open>GroupVariation\<close>.  Both bit fields are bytes, their operations mask them.
\<close>

section \<open>Enumerations\<close>

datatype EventType = ET_Binary | ET_Analog | ET_Counter | ET_FrozenCounter | ET_DoubleBitBinary
  | ET_BinaryOutputStatus | ET_AnalogOutputStatus | ET_SecurityStat

fun type_index :: "EventType \<Rightarrow> nat" where
  "type_index ET_Binary = 0"
| "type_index ET_Analog = 1"
| "type_index ET_Counter = 2"
| "type_index ET_FrozenCounter = 3"
| "type_index ET_DoubleBitBinary = 4"
| "type_index ET_BinaryOutputStatus = 5"
| "type_index ET_AnalogOutputStatus = 6"
| "type_index ET_SecurityStat = 7"

datatype EventClass = EC1 | EC2 | EC3

fun class_index :: "EventClass \<Rightarrow> nat" where
  "class_index EC1 = 0"
| "class_index EC2 = 1"
| "class_index EC3 = 2"

datatype PointClass = Class0 | Class1 | Class2 | Class3

fun PointClassToType :: "PointClass \<Rightarrow> uint8" where
  "PointClassToType Class0 = 0x1"
| "PointClassToType Class1 = 0x2"
| "PointClassToType Class2 = 0x4"
| "PointClassToType Class3 = 0x8"

lemma type_index_less [simp]: "type_index t < 8" by (cases t) simp_all
lemma type_index_inj [simp]: "type_index s = type_index t \<longleftrightarrow> s = t" by (cases s; cases t) simp_all
lemma class_index_less [simp]: "class_index c < 3" by (cases c) simp_all
lemma class_index_inj [simp]: "class_index c = class_index d \<longleftrightarrow> c = d" by (cases c; cases d) simp_all

text \<open>An enumerator \<^verbatim>\<open>GroupGVarV\<close> of \<^verbatim>\<open>GroupVariation\<close> has the value \<open>256 * G + V\<close>.\<close>

type_synonym GroupVariation = uint16

definition GroupVar :: "nat \<Rightarrow> nat \<Rightarrow> GroupVariation" where
  "GroupVar g v = word_of_nat (256 * g + v)"

section \<open>\<^verbatim>\<open>IINField\<close>\<close>

datatype IINBit = ALL_STATIONS | CLASS1_EVENTS | CLASS2_EVENTS | CLASS3_EVENTS | NEED_TIME | LOCAL_CONTROL
  | DEVICE_TROUBLE | DEVICE_RESTART | FUNC_NOT_SUPPORTED | OBJECT_UNKNOWN | PARAM_ERROR | EVENT_BUFFER_OVERFLOW
  | ALREADY_EXECUTING | CONFIG_CORRUPT | RESERVED1 | RESERVED2

record IINField =
  LSB :: uint8
  MSB :: uint8

text \<open>The masks: \<^verbatim>\<open>LSBMask\<close> is left, \<^verbatim>\<open>MSBMask\<close> is right.\<close>

fun IINMask :: "IINBit \<Rightarrow> uint8 + uint8" where
  "IINMask ALL_STATIONS = Inl 0x01"
| "IINMask CLASS1_EVENTS = Inl 0x02"
| "IINMask CLASS2_EVENTS = Inl 0x04"
| "IINMask CLASS3_EVENTS = Inl 0x08"
| "IINMask NEED_TIME = Inl 0x10"
| "IINMask LOCAL_CONTROL = Inl 0x20"
| "IINMask DEVICE_TROUBLE = Inl 0x40"
| "IINMask DEVICE_RESTART = Inl 0x80"
| "IINMask FUNC_NOT_SUPPORTED = Inr 0x01"
| "IINMask OBJECT_UNKNOWN = Inr 0x02"
| "IINMask PARAM_ERROR = Inr 0x04"
| "IINMask EVENT_BUFFER_OVERFLOW = Inr 0x08"
| "IINMask ALREADY_EXECUTING = Inr 0x10"
| "IINMask CONFIG_CORRUPT = Inr 0x20"
| "IINMask RESERVED1 = Inr 0x40"
| "IINMask RESERVED2 = Inr 0x80"

definition REQUEST_ERROR_MASK :: uint8 where
  "REQUEST_ERROR_MASK = 0x01 OR 0x02 OR 0x04"

definition IIN_Empty :: IINField where
  "IIN_Empty = \<lparr>LSB = 0, MSB = 0\<rparr>"

definition IIN_IsSet :: "IINField \<Rightarrow> IINBit \<Rightarrow> bool" where
  "IIN_IsSet f b = (case IINMask b of Inl m \<Rightarrow> LSB f AND m \<noteq> 0 | Inr m \<Rightarrow> MSB f AND m \<noteq> 0)"

definition IIN_SetBit :: "IINBit \<Rightarrow> IINField \<Rightarrow> IINField" where
  "IIN_SetBit b f = (case IINMask b of Inl m \<Rightarrow> f\<lparr>LSB := LSB f OR m\<rparr> | Inr m \<Rightarrow> f\<lparr>MSB := MSB f OR m\<rparr>)"

definition IIN_ClearBit :: "IINBit \<Rightarrow> IINField \<Rightarrow> IINField" where
  "IIN_ClearBit b f = (case IINMask b of Inl m \<Rightarrow> f\<lparr>LSB := LSB f AND NOT m\<rparr> | Inr m \<Rightarrow> f\<lparr>MSB := MSB f AND NOT m\<rparr>)"

definition IIN_SetBitToValue :: "IINBit \<Rightarrow> bool \<Rightarrow> IINField \<Rightarrow> IINField" where
  "IIN_SetBitToValue b value f = (if value then IIN_SetBit b f else IIN_ClearBit b f)"

definition IIN_of_bit :: "IINBit \<Rightarrow> IINField" where
  "IIN_of_bit b = IIN_SetBit b IIN_Empty"

definition IIN_Any :: "IINField \<Rightarrow> bool" where
  "IIN_Any f = (LSB f OR MSB f \<noteq> 0)"

definition IIN_HasRequestError :: "IINField \<Rightarrow> bool" where
  "IIN_HasRequestError f = (MSB f AND REQUEST_ERROR_MASK \<noteq> 0)"

definition IIN_or :: "IINField \<Rightarrow> IINField \<Rightarrow> IINField" where
  "IIN_or f g = \<lparr>LSB = LSB f OR LSB g, MSB = MSB f OR MSB g\<rparr>"

definition IIN_and :: "IINField \<Rightarrow> IINField \<Rightarrow> IINField" where
  "IIN_and f g = \<lparr>LSB = LSB f AND LSB g, MSB = MSB f AND MSB g\<rparr>"

definition IIN_not :: "IINField \<Rightarrow> IINField" where
  "IIN_not f = \<lparr>LSB = NOT (LSB f), MSB = NOT (MSB f)\<rparr>"

section \<open>\<^verbatim>\<open>ClassField\<close>\<close>

type_synonym ClassField = uint8

definition CLASS_0 :: uint8 where "CLASS_0 = PointClassToType Class0"
definition CLASS_1 :: uint8 where "CLASS_1 = PointClassToType Class1"
definition CLASS_2 :: uint8 where "CLASS_2 = PointClassToType Class2"
definition CLASS_3 :: uint8 where "CLASS_3 = PointClassToType Class3"
definition EVENT_CLASSES :: uint8 where "EVENT_CLASSES = CLASS_1 OR CLASS_2 OR CLASS_3"
definition ALL_CLASSES :: uint8 where "ALL_CLASSES = EVENT_CLASSES OR CLASS_0"

lemmas class_consts = CLASS_0_def CLASS_1_def CLASS_2_def CLASS_3_def EVENT_CLASSES_def ALL_CLASSES_def

definition ClassField_None :: ClassField where
  "ClassField_None = 0"

definition ClassField_of :: "PointClass \<Rightarrow> ClassField" where
  "ClassField_of pc = PointClassToType pc"

definition ClassField_mask :: "uint8 \<Rightarrow> ClassField" where
  "ClassField_mask m = m AND ALL_CLASSES"

definition ClassField_make :: "bool \<Rightarrow> bool \<Rightarrow> bool \<Rightarrow> bool \<Rightarrow> ClassField" where
  "ClassField_make class0 class1 class2 class3 =
     (let bitfield = (if class0 then CLASS_0 else 0);
          bitfield = bitfield OR (if class1 then CLASS_1 else 0);
          bitfield = bitfield OR (if class2 then CLASS_2 else 0)
      in bitfield OR (if class3 then CLASS_3 else 0))"

definition ClassField_IsEmpty :: "ClassField \<Rightarrow> bool" where
  "ClassField_IsEmpty f = (f = 0)"

definition ClassField_Intersects :: "ClassField \<Rightarrow> ClassField \<Rightarrow> bool" where
  "ClassField_Intersects f g = (f AND g > 0)"

definition ClassField_OnlyEventClasses :: "ClassField \<Rightarrow> ClassField" where
  "ClassField_OnlyEventClasses f = ClassField_mask (f AND EVENT_CLASSES)"

definition ClassField_SetClass :: "PointClass \<Rightarrow> ClassField \<Rightarrow> ClassField" where
  "ClassField_SetClass pc f = f OR PointClassToType pc"

definition ClassField_Clear :: "ClassField \<Rightarrow> ClassField \<Rightarrow> ClassField" where
  "ClassField_Clear field f = f AND NOT field"

definition ClassField_Set :: "ClassField \<Rightarrow> ClassField \<Rightarrow> ClassField" where
  "ClassField_Set field f = f OR field"

definition HasClass0 :: "ClassField \<Rightarrow> bool" where "HasClass0 f = (f AND CLASS_0 \<noteq> 0)"
definition HasClass1 :: "ClassField \<Rightarrow> bool" where "HasClass1 f = (f AND CLASS_1 \<noteq> 0)"
definition HasClass2 :: "ClassField \<Rightarrow> bool" where "HasClass2 f = (f AND CLASS_2 \<noteq> 0)"
definition HasClass3 :: "ClassField \<Rightarrow> bool" where "HasClass3 f = (f AND CLASS_3 \<noteq> 0)"

definition HasEventClass :: "ClassField \<Rightarrow> bool" where
  "HasEventClass f = (f AND EVENT_CLASSES \<noteq> 0)"

definition HasAnyClass :: "ClassField \<Rightarrow> bool" where
  "HasAnyClass f = (f \<noteq> 0)"

fun HasEventType :: "ClassField \<Rightarrow> EventClass \<Rightarrow> bool" where
  "HasEventType f EC1 = HasClass1 f"
| "HasEventType f EC2 = HasClass2 f"
| "HasEventType f EC3 = HasClass3 f"

section \<open>Single bits\<close>

text \<open>Every mask is a single bit; \<open>test_mask\<close> reads it.\<close>

fun IINBit_index :: "IINBit \<Rightarrow> nat + nat" where
  "IINBit_index ALL_STATIONS = Inl 0" | "IINBit_index CLASS1_EVENTS = Inl 1" | "IINBit_index CLASS2_EVENTS = Inl 2"
| "IINBit_index CLASS3_EVENTS = Inl 3" | "IINBit_index NEED_TIME = Inl 4" | "IINBit_index LOCAL_CONTROL = Inl 5"
| "IINBit_index DEVICE_TROUBLE = Inl 6" | "IINBit_index DEVICE_RESTART = Inl 7"
| "IINBit_index FUNC_NOT_SUPPORTED = Inr 0" | "IINBit_index OBJECT_UNKNOWN = Inr 1" | "IINBit_index PARAM_ERROR = Inr 2"
| "IINBit_index EVENT_BUFFER_OVERFLOW = Inr 3" | "IINBit_index ALREADY_EXECUTING = Inr 4"
| "IINBit_index CONFIG_CORRUPT = Inr 5" | "IINBit_index RESERVED1 = Inr 6" | "IINBit_index RESERVED2 = Inr 7"

lemma masks_are_bits:
  "IINMask b = map_sum (\<lambda>n. 2 ^ n) (\<lambda>n. 2 ^ n) (IINBit_index b)"
  by (cases b) simp_all

lemma IINBit_index_less: "(case IINBit_index b of Inl n \<Rightarrow> n | Inr n \<Rightarrow> n) < 8"
  by (cases b) simp_all

lemma IINBit_index_inj: "IINBit_index b = IINBit_index c \<longleftrightarrow> b = c"
  by (cases b; cases c) simp_all

lemma and_single_bit: "(x :: uint8) AND 2 ^ n \<noteq> 0 \<longleftrightarrow> bit x n"
  by (simp add: bit_iff_and_push_bit_not_eq_0)

lemma bit_single: "bit (2 ^ n :: uint8) m \<longleftrightarrow> m = n \<and> n < 8"
  by (auto simp: bit_exp_iff)

lemma IIN_IsSet_bit:
  "IIN_IsSet f b = (case IINBit_index b of Inl n \<Rightarrow> bit (LSB f) n | Inr n \<Rightarrow> bit (MSB f) n)"
  by (simp add: IIN_IsSet_def masks_are_bits flip: and_single_bit split: sum.splits)

lemma IIN_IsSet_SetBitToValue:
  "IIN_IsSet (IIN_SetBitToValue b v f) c = (if b = c then v else IIN_IsSet f c)"
  using IINBit_index_inj[of b c] IINBit_index_less[of b] IINBit_index_less[of c]
  by (auto simp: IIN_IsSet_bit IIN_SetBitToValue_def IIN_SetBit_def IIN_ClearBit_def masks_are_bits
      bit_or_iff bit_and_iff bit_not_iff bit_single split: sum.splits)

lemma IINBit_index_surj:
  assumes "n < 8"
  shows "\<exists>b. IINBit_index b = Inl n" "\<exists>b. IINBit_index b = Inr n"
proof -
  have "n \<in> {0, 1, 2, 3, 4, 5, 6, 7}" using assms by auto
  then have "IINBit_index ([ALL_STATIONS, CLASS1_EVENTS, CLASS2_EVENTS, CLASS3_EVENTS, NEED_TIME, LOCAL_CONTROL,
      DEVICE_TROUBLE, DEVICE_RESTART] ! n) = Inl n"
    "IINBit_index ([FUNC_NOT_SUPPORTED, OBJECT_UNKNOWN, PARAM_ERROR, EVENT_BUFFER_OVERFLOW, ALREADY_EXECUTING,
      CONFIG_CORRUPT, RESERVED1, RESERVED2] ! n) = Inr n" by auto
  then show "\<exists>b. IINBit_index b = Inl n" "\<exists>b. IINBit_index b = Inr n" by blast+
qed

lemma IINField_eqI:
  assumes "\<And>b. IIN_IsSet f b = IIN_IsSet g b"
  shows "f = g"
proof -
  have "bit (LSB f) n = bit (LSB g) n" "bit (MSB f) n = bit (MSB g) n" if "n < 8" for n
  proof -
    from IINBit_index_surj[OF that] obtain b c where "IINBit_index b = Inl n" "IINBit_index c = Inr n" by blast
    with assms[of b] assms[of c] show "bit (LSB f) n = bit (LSB g) n" "bit (MSB f) n = bit (MSB g) n"
      by (simp_all add: IIN_IsSet_bit)
  qed
  then have "LSB f = LSB g" "MSB f = MSB g" by (auto intro: bit_word_eqI)
  then show ?thesis by simp
qed

lemma IIN_IsSet_or: "IIN_IsSet (IIN_or f g) b \<longleftrightarrow> IIN_IsSet f b \<or> IIN_IsSet g b"
  by (auto simp: IIN_IsSet_bit IIN_or_def bit_or_iff split: sum.splits)

lemma IIN_IsSet_and: "IIN_IsSet (IIN_and f g) b \<longleftrightarrow> IIN_IsSet f b \<and> IIN_IsSet g b"
  by (auto simp: IIN_IsSet_bit IIN_and_def bit_and_iff split: sum.splits)

lemma IIN_IsSet_not: "IIN_IsSet (IIN_not f) b \<longleftrightarrow> \<not> IIN_IsSet f b"
  using IINBit_index_less[of b] by (auto simp: IIN_IsSet_bit IIN_not_def bit_not_iff split: sum.splits)

lemma IIN_IsSet_Empty: "\<not> IIN_IsSet IIN_Empty b"
  by (simp add: IIN_IsSet_bit IIN_Empty_def split: sum.splits)

lemma IIN_Any_iff: "IIN_Any f \<longleftrightarrow> (\<exists>b. IIN_IsSet f b)"
proof -
  have "IIN_Any f \<longleftrightarrow> f \<noteq> IIN_Empty" by (cases f) (auto simp: IIN_Any_def IIN_Empty_def or_eq_0_iff)
  then show ?thesis using IINField_eqI[of f IIN_Empty] IIN_IsSet_Empty by blast
qed

lemma HasClass_make [simp]:
  "HasClass0 (ClassField_make a b c d) = a" "HasClass1 (ClassField_make a b c d) = b"
  "HasClass2 (ClassField_make a b c d) = c" "HasClass3 (ClassField_make a b c d) = d"
  by (cases a; cases b; cases c; cases d; simp add: ClassField_make_def class_consts HasClass0_def HasClass1_def
      HasClass2_def HasClass3_def)+

lemma HasEventType_of [simp]:
  "HasEventType (ClassField_of Class1) c = (c = EC1)" "HasEventType (ClassField_of Class2) c = (c = EC2)"
  "HasEventType (ClassField_of Class3) c = (c = EC3)"
  by (cases c; simp add: ClassField_of_def class_consts HasClass1_def HasClass2_def HasClass3_def)+

section \<open>Properties\<close>

text \<open>
  The sixteen internal indications are sixteen independent flags of the two octets: setting or
  clearing one reads back and changes no other, the bitwise operators act on each flag separately, and
  two fields are equal exactly when their flags are.
\<close>

theorem IINField_flags:
  "IIN_IsSet (IIN_SetBitToValue b v f) c = (if b = c then v else IIN_IsSet f c)
    \<and> IIN_IsSet (IIN_or f g) c = (IIN_IsSet f c \<or> IIN_IsSet g c)
    \<and> IIN_IsSet (IIN_and f g) c = (IIN_IsSet f c \<and> IIN_IsSet g c)
    \<and> IIN_IsSet (IIN_not f) c = (\<not> IIN_IsSet f c)
    \<and> (f = g) = (\<forall>d. IIN_IsSet f d = IIN_IsSet g d)
    \<and> IIN_Any f = (\<exists>d. IIN_IsSet f d)
    \<and> IIN_HasRequestError f = (IIN_IsSet f FUNC_NOT_SUPPORTED \<or> IIN_IsSet f OBJECT_UNKNOWN \<or> IIN_IsSet f PARAM_ERROR)"
proof -
  have "IIN_HasRequestError f = (IIN_IsSet f FUNC_NOT_SUPPORTED \<or> IIN_IsSet f OBJECT_UNKNOWN \<or> IIN_IsSet f PARAM_ERROR)"
    unfolding IIN_HasRequestError_def REQUEST_ERROR_MASK_def bit.conj_disj_distrib or_eq_0_iff
    by (simp add: IIN_IsSet_def)
  then show ?thesis
    using IINField_eqI[of f g]
    by (auto simp: IIN_IsSet_SetBitToValue IIN_IsSet_or IIN_IsSet_and IIN_IsSet_not IIN_Any_iff)
qed

end
