(* ===== verification/SOERecord.thy ===== *)
theory SOERecord
  imports AppFields "HOL-Library.Multiset"
begin

text \<open>
  The outstation's events: \<^verbatim>\<open>Event.h\<close>, \<^verbatim>\<open>SOERecord\<close> (one entry of the sequence of events),
  \<^verbatim>\<open>EventBufferConfig\<close> (how many of each type are kept) and \<^verbatim>\<open>EventCount\<close> (counters per type and class,
  in unsigned 32-bit integers that wrap around).
\<close>

section \<open>Measurements and events\<close>

datatype DoubleBit = INTERMEDIATE | DETERMINED_OFF | DETERMINED_ON | INDETERMINATE

text \<open>
  \<^verbatim>\<open>T::ValueType\<close> of the eight measurement types; a \<^verbatim>\<open>double\<close> is its IEEE representation, which the event
  buffer only stores.
\<close>

datatype ValueType =
    BoolValue bool
  | DoubleBitValue DoubleBit
  | UInt32Value uint32
  | DoubleValue uint64
  | SecurityStatValue uint16 uint32

fun value_fits :: "EventType \<Rightarrow> ValueType \<Rightarrow> bool" where
  "value_fits ET_Binary (BoolValue b) = True"
| "value_fits ET_BinaryOutputStatus (BoolValue b) = True"
| "value_fits ET_DoubleBitBinary (DoubleBitValue b) = True"
| "value_fits ET_Counter (UInt32Value n) = True"
| "value_fits ET_FrozenCounter (UInt32Value n) = True"
| "value_fits ET_Analog (DoubleValue d) = True"
| "value_fits ET_AnalogOutputStatus (DoubleValue d) = True"
| "value_fits ET_SecurityStat (SecurityStatValue a n) = True"
| "value_fits _ _ = False"

text \<open>
  \<^verbatim>\<open>T::EventVariation\<close>: an enumerator such as \<^verbatim>\<open>EventBinaryVariation::Group2Var1\<close> is the group and
  variation of the same name.
\<close>

type_synonym EventVariation = GroupVariation

text \<open>\<^verbatim>\<open>Event<T>\<close>, with the fields of its measurement; \<open>evt_type\<close> is \<^verbatim>\<open>T::EventTypeEnum\<close>.\<close>

record Event =
  evt_type :: EventType
  evt_value :: ValueType
  evt_quality :: uint8
  evt_time :: uint64
  evt_index :: uint16
  evt_clazz :: EventClass
  evt_variation :: EventVariation

section \<open>\<^verbatim>\<open>SOERecord\<close>\<close>

record ValueAndVariation =
  vv_value :: ValueType
  vv_defaultVariation :: EventVariation
  vv_selectedVariation :: EventVariation

text \<open>The union \<^verbatim>\<open>EventValue\<close> is one \<^verbatim>\<open>ValueAndVariation\<close> whose value carries its type.\<close>

record SOERecord =
  soe_type :: EventType
  soe_clazz :: EventClass
  soe_selected :: bool
  soe_written :: bool
  soe_value :: ValueAndVariation
  soe_index :: uint16
  soe_time :: uint64
  soe_flags :: uint8

definition SelectDefaultVariation :: "ValueAndVariation \<Rightarrow> ValueAndVariation" where
  "SelectDefaultVariation v = v\<lparr>vv_selectedVariation := vv_defaultVariation v\<rparr>"

text \<open>The default constructor leaves the union uninitialised; some value stands for it.\<close>

definition SOERecord_default :: SOERecord where
  "SOERecord_default = \<lparr>soe_type = ET_Analog, soe_clazz = EC1, soe_selected = False, soe_written = False,
     soe_value = \<lparr>vv_value = DoubleValue 0, vv_defaultVariation = 0, vv_selectedVariation = 0\<rparr>,
     soe_index = 0, soe_time = 0, soe_flags = 0\<rparr>"

definition SOERecord_make :: "Event \<Rightarrow> SOERecord" where
  "SOERecord_make evt = \<lparr>soe_type = evt_type evt, soe_clazz = evt_clazz evt, soe_selected = False, soe_written = False,
     soe_value = \<lparr>vv_value = evt_value evt, vv_defaultVariation = evt_variation evt, vv_selectedVariation = evt_variation evt\<rparr>,
     soe_index = evt_index evt, soe_time = evt_time evt, soe_flags = evt_quality evt\<rparr>"

definition SOERecord_Reset :: "SOERecord \<Rightarrow> SOERecord" where
  "SOERecord_Reset r = r\<lparr>soe_selected := False, soe_written := False\<rparr>"

definition SOERecord_SelectDefault :: "SOERecord \<Rightarrow> SOERecord" where
  "SOERecord_SelectDefault r = r\<lparr>soe_selected := True, soe_value := SelectDefaultVariation (soe_value r)\<rparr>"

definition SOERecord_Select :: "EventVariation \<Rightarrow> SOERecord \<Rightarrow> SOERecord" where
  "SOERecord_Select var r = r\<lparr>soe_selected := True, soe_value := (soe_value r)\<lparr>vv_selectedVariation := var\<rparr>\<rparr>"

text \<open>\<^verbatim>\<open>ReadEvent\<close>: what the event writer sends.\<close>

definition SOERecord_ReadEvent :: "SOERecord \<Rightarrow> ValueType \<times> uint8 \<times> uint64 \<times> uint16" where
  "SOERecord_ReadEvent r = (vv_value (soe_value r), soe_flags r, soe_time r, soe_index r)"

text \<open>A record as the buffer holds it: what \<^verbatim>\<open>ReadEvent\<close> of the union's active member is allowed to read.\<close>

definition record_ok :: "SOERecord \<Rightarrow> bool" where
  "record_ok r \<longleftrightarrow> value_fits (soe_type r) (vv_value (soe_value r)) \<and> (soe_written r \<longrightarrow> soe_selected r)"

section \<open>\<^verbatim>\<open>EventBufferConfig\<close>\<close>

record EventBufferConfig =
  maxBinaryEvents :: uint16
  maxDoubleBinaryEvents :: uint16
  maxAnalogEvents :: uint16
  maxCounterEvents :: uint16
  maxFrozenCounterEvents :: uint16
  maxBinaryOutputStatusEvents :: uint16
  maxAnalogOutputStatusEvents :: uint16
  maxSecurityStatisticEvents :: uint16

definition EventBufferConfig_AllTypes :: "uint16 \<Rightarrow> EventBufferConfig" where
  "EventBufferConfig_AllTypes sizes = \<lparr>maxBinaryEvents = sizes, maxDoubleBinaryEvents = sizes, maxAnalogEvents = sizes,
     maxCounterEvents = sizes, maxFrozenCounterEvents = sizes, maxBinaryOutputStatusEvents = sizes,
     maxAnalogOutputStatusEvents = sizes, maxSecurityStatisticEvents = sizes\<rparr>"

fun GetMaxEventsForType :: "EventBufferConfig \<Rightarrow> EventType \<Rightarrow> uint16" where
  "GetMaxEventsForType c ET_Binary = maxBinaryEvents c"
| "GetMaxEventsForType c ET_DoubleBitBinary = maxDoubleBinaryEvents c"
| "GetMaxEventsForType c ET_BinaryOutputStatus = maxBinaryOutputStatusEvents c"
| "GetMaxEventsForType c ET_Counter = maxCounterEvents c"
| "GetMaxEventsForType c ET_FrozenCounter = maxFrozenCounterEvents c"
| "GetMaxEventsForType c ET_Analog = maxAnalogEvents c"
| "GetMaxEventsForType c ET_AnalogOutputStatus = maxAnalogOutputStatusEvents c"
| "GetMaxEventsForType c ET_SecurityStat = maxSecurityStatisticEvents c"

text \<open>The sum is one of \<^verbatim>\<open>int\<close>s, then converted to \<^verbatim>\<open>uint32_t\<close>.\<close>

definition TotalEvents :: "EventBufferConfig \<Rightarrow> uint32" where
  "TotalEvents c = word_of_int (
     uint (maxBinaryEvents c) + uint (maxDoubleBinaryEvents c) + uint (maxAnalogEvents c) + uint (maxCounterEvents c)
     + uint (maxFrozenCounterEvents c) + uint (maxBinaryOutputStatusEvents c) + uint (maxAnalogOutputStatusEvents c)
     + uint (maxSecurityStatisticEvents c))"

abbreviation all_types :: "EventType list" where
  "all_types \<equiv> [ET_Binary, ET_DoubleBitBinary, ET_Analog, ET_Counter, ET_FrozenCounter, ET_BinaryOutputStatus,
     ET_AnalogOutputStatus, ET_SecurityStat]"

abbreviation quota :: "EventBufferConfig \<Rightarrow> EventType \<Rightarrow> nat" where
  "quota c t \<equiv> unat (GetMaxEventsForType c t)"

lemma all_types: "t \<in> set all_types" "distinct all_types" by (cases t; simp) simp

lemma TotalEvents_quota: "unat (TotalEvents c) = (\<Sum>t\<leftarrow>all_types. quota c t)"
proof -
  have less: "quota c t < 65536" for t using unsigned_less[of "GetMaxEventsForType c t"] by simp
  have sum: "TotalEvents c = word_of_nat (\<Sum>t\<leftarrow>all_types. quota c t)"
    by (simp add: TotalEvents_def flip: of_int_add) (simp add: add_ac unsigned_ucast_eq)
  have "(\<Sum>t\<leftarrow>all_types. quota c t) < 2 ^ 32"
    using less[of ET_Binary] less[of ET_DoubleBitBinary] less[of ET_Analog] less[of ET_Counter] less[of ET_FrozenCounter]
      less[of ET_BinaryOutputStatus] less[of ET_AnalogOutputStatus] less[of ET_SecurityStat] by simp
  then show ?thesis unfolding sum by (simp only: unat_of_nat) simp
qed

section \<open>\<^verbatim>\<open>EventCount\<close>\<close>

record EventCount =
  ec_total :: uint32
  ec_numOfType :: "uint32 list"
  ec_numOfClass :: "uint32 list"

definition EventCount_make :: EventCount where
  "EventCount_make = \<lparr>ec_total = 0, ec_numOfType = replicate 8 0, ec_numOfClass = replicate 3 0\<rparr>"

definition EventCount_Clear :: "EventCount \<Rightarrow> EventCount" where
  "EventCount_Clear ec = ec\<lparr>ec_total := 0, ec_numOfType := replicate 8 0, ec_numOfClass := replicate 3 0\<rparr>"

definition NumOfType :: "EventCount \<Rightarrow> EventType \<Rightarrow> uint32" where
  "NumOfType ec t = ec_numOfType ec ! type_index t"

definition NumOfClass :: "EventCount \<Rightarrow> EventClass \<Rightarrow> uint32" where
  "NumOfClass ec c = ec_numOfClass ec ! class_index c"

definition NumOfClassField :: "EventCount \<Rightarrow> ClassField \<Rightarrow> uint32" where
  "NumOfClassField ec field =
     (let ret = 0;
          ret = (if HasClass1 field then ret + NumOfClass ec EC1 else ret);
          ret = (if HasClass2 field then ret + NumOfClass ec EC2 else ret)
      in if HasClass3 field then ret + NumOfClass ec EC3 else ret)"

definition TotatCount :: "EventCount \<Rightarrow> uint32" where
  "TotatCount ec = ec_total ec"

definition ToClassField :: "EventCount \<Rightarrow> ClassField" where
  "ToClassField ec = ClassField_make False (NumOfClass ec EC1 > 0) (NumOfClass ec EC2 > 0) (NumOfClass ec EC3 > 0)"

definition EventCount_IsEmpty :: "EventCount \<Rightarrow> bool" where
  "EventCount_IsEmpty ec = ClassField_IsEmpty (ToClassField ec)"

definition Increment :: "EventClass \<Rightarrow> EventType \<Rightarrow> EventCount \<Rightarrow> EventCount" where
  "Increment clazz type ec = ec\<lparr>ec_total := ec_total ec + 1,
     ec_numOfClass := (ec_numOfClass ec)[class_index clazz := NumOfClass ec clazz + 1],
     ec_numOfType := (ec_numOfType ec)[type_index type := NumOfType ec type + 1]\<rparr>"

definition Decrement :: "EventClass \<Rightarrow> EventType \<Rightarrow> EventCount \<Rightarrow> EventCount" where
  "Decrement clazz type ec = ec\<lparr>ec_total := ec_total ec - 1,
     ec_numOfType := (ec_numOfType ec)[type_index type := NumOfType ec type - 1],
     ec_numOfClass := (ec_numOfClass ec)[class_index clazz := NumOfClass ec clazz - 1]\<rparr>"

section \<open>What a counter counts\<close>

type_synonym key = "EventClass \<times> EventType"

text \<open>
  The contract of a counter: it tracks a multiset of keys.  Incrementing adds a key, decrementing
  takes one out that is there.
\<close>

locale tally =
  fixes tracks :: "'c \<Rightarrow> 'k multiset \<Rightarrow> bool"
    and zero :: 'c
    and inc dec :: "'k \<Rightarrow> 'c \<Rightarrow> 'c"
  assumes zero: "tracks zero {#}"
    and inc: "tracks c M \<Longrightarrow> tracks (inc k c) (add_mset k M)"
    and dec: "tracks c (add_mset k M) \<Longrightarrow> tracks (dec k c) M"
begin

lemma fold_inc: "tracks c M \<Longrightarrow> tracks (fold inc ks c) (mset ks + M)"
proof (induction ks arbitrary: c M)
  case (Cons k ks)
  from Cons.IH[OF inc[OF Cons.prems, of k]] show ?case by simp
qed simp

lemma fold_dec: "tracks c (mset ks + M) \<Longrightarrow> tracks (fold dec ks c) M"
proof (induction ks arbitrary: c M)
  case (Cons k ks)
  then have "tracks (dec k c) (mset ks + M)" by (intro dec) simp
  from Cons.IH[OF this] show ?case by simp
qed simp

lemma dec_in: "tracks c M \<Longrightarrow> k \<in># M \<Longrightarrow> tracks (dec k c) (M - {#k#})"
  by (rule dec) simp

end

definition counts :: "EventCount \<Rightarrow> key multiset \<Rightarrow> bool" where
  "counts ec M \<longleftrightarrow> length (ec_numOfType ec) = 8 \<and> length (ec_numOfClass ec) = 3 \<and> ec_total ec = of_nat (size M)
     \<and> (\<forall>t. NumOfType ec t = of_nat (size (filter_mset (\<lambda>k. snd k = t) M)))
     \<and> (\<forall>c. NumOfClass ec c = of_nat (size (filter_mset (\<lambda>k. fst k = c) M)))"

abbreviation inc_key :: "key \<Rightarrow> EventCount \<Rightarrow> EventCount" where
  "inc_key k \<equiv> Increment (fst k) (snd k)"

abbreviation dec_key :: "key \<Rightarrow> EventCount \<Rightarrow> EventCount" where
  "dec_key k \<equiv> Decrement (fst k) (snd k)"

interpretation ec: tally counts EventCount_make inc_key dec_key
proof unfold_locales
  show "counts EventCount_make {#}"
    by (simp add: counts_def EventCount_make_def NumOfType_def NumOfClass_def nth_replicate)
next
  fix ec M and k :: key
  assume "counts ec M"
  then show "counts (inc_key k ec) (add_mset k M)"
    by (auto simp: counts_def Increment_def NumOfType_def NumOfClass_def nth_list_update)
next
  fix ec M and k :: key
  assume "counts ec (add_mset k M)"
  then show "counts (dec_key k ec) M"
    by (auto simp: counts_def Decrement_def NumOfType_def NumOfClass_def nth_list_update)
qed

lemma counts_total: "counts ec M \<Longrightarrow> size M < 2 ^ 32 \<Longrightarrow> unat (TotatCount ec) = size M"
  by (simp add: counts_def TotatCount_def unat_of_nat take_bit_nat_eq_self)

lemma size_filter_less: "size M < n \<Longrightarrow> size (filter_mset P M) < n"
  by (rule le_less_trans[OF size_filter_mset_lesseq])

lemma counts_type: "counts ec M \<Longrightarrow> size M < 2 ^ 32 \<Longrightarrow> unat (NumOfType ec t) = size (filter_mset (\<lambda>k. snd k = t) M)"
  using size_filter_less[of M "2 ^ 32" "\<lambda>k. snd k = t"] by (simp add: counts_def unat_of_nat)

lemma counts_class: "counts ec M \<Longrightarrow> size M < 2 ^ 32 \<Longrightarrow> unat (NumOfClass ec c) = size (filter_mset (\<lambda>k. fst k = c) M)"
  using size_filter_less[of M "2 ^ 32" "\<lambda>k. fst k = c"] by (simp add: counts_def unat_of_nat)

end
