(* ===== verification/Objects.thy ===== *)
theory Objects
  imports Serialization DownSampling SOERecord
begin

text \<open>
  \<^verbatim>\<open>objects/Group*.cpp\<close>: the wire formats of the measurement objects.  Each object is a list of fields; a
  measurement is converted to one (\<^verbatim>\<open>WriteConversionTemplates.h\<close>) and made from one (\<^verbatim>\<open>MeasurementFactory.h\<close>).
\<close>

section \<open>Measurements\<close>

text \<open>\<^verbatim>\<open>TypedMeasurement\<close> and \<^verbatim>\<open>SecurityStat\<close>: the value carries its type.\<close>

record Measurement =
  m_value :: ValueType
  m_quality :: uint8
  m_time :: uint64

definition QUALITY_ONLINE :: uint8 where "QUALITY_ONLINE = 0x01"
definition QUALITY_STATE :: uint8 where "QUALITY_STATE = 0x80"

definition GetBinaryValue :: "uint8 \<Rightarrow> bool" where
  "GetBinaryValue quality = (quality AND QUALITY_STATE \<noteq> 0)"

definition GetBinaryQuality :: "uint8 \<Rightarrow> bool \<Rightarrow> uint8" where
  "GetBinaryQuality q value = (if value then q OR QUALITY_STATE else q AND NOT QUALITY_STATE)"

fun DoubleBitToType :: "DoubleBit \<Rightarrow> uint8" where
  "DoubleBitToType INTERMEDIATE = 0" | "DoubleBitToType DETERMINED_OFF = 1"
| "DoubleBitToType DETERMINED_ON = 2" | "DoubleBitToType INDETERMINATE = 3"

definition DoubleBitFromType :: "uint8 \<Rightarrow> DoubleBit" where
  "DoubleBitFromType arg =
     (if arg = 0 then INTERMEDIATE else if arg = 1 then DETERMINED_OFF else if arg = 2 then DETERMINED_ON else INDETERMINATE)"

definition DoubleBit_GetValue :: "uint8 \<Rightarrow> DoubleBit" where
  "DoubleBit_GetValue quality = DoubleBitFromType (drop_bit 6 quality)"

definition DoubleBit_GetQual :: "uint8 \<Rightarrow> DoubleBit \<Rightarrow> uint8" where
  "DoubleBit_GetQual quality state = (0x3F AND quality) OR push_bit 6 (DoubleBitToType state)"

text \<open>
  The constructors: from the flags alone the value of a binary is read out of them; from a value and
  flags its state bits are put into them.
\<close>

definition Binary_of_flags :: "uint8 \<Rightarrow> uint64 \<Rightarrow> Measurement" where
  "Binary_of_flags quality time = \<lparr>m_value = BoolValue (GetBinaryValue quality), m_quality = quality, m_time = time\<rparr>"

definition DoubleBitBinary_of_flags :: "uint8 \<Rightarrow> uint64 \<Rightarrow> Measurement" where
  "DoubleBitBinary_of_flags quality time =
     \<lparr>m_value = DoubleBitValue (DoubleBit_GetValue quality), m_quality = quality, m_time = time\<rparr>"

definition BinaryOutputStatus_of_flags :: "uint8 \<Rightarrow> uint64 \<Rightarrow> Measurement" where
  "BinaryOutputStatus_of_flags quality time = \<lparr>m_value = BoolValue (GetBinaryValue quality), m_quality = quality, m_time = time\<rparr>"

fun Measurement_make :: "ValueType \<Rightarrow> uint8 \<Rightarrow> uint64 \<Rightarrow> Measurement" where
  "Measurement_make (BoolValue v) quality time =
     \<lparr>m_value = BoolValue v, m_quality = GetBinaryQuality quality v, m_time = time\<rparr>"
| "Measurement_make (DoubleBitValue v) quality time =
     \<lparr>m_value = DoubleBitValue v, m_quality = DoubleBit_GetQual quality v, m_time = time\<rparr>"
| "Measurement_make v quality time = \<lparr>m_value = v, m_quality = quality, m_time = time\<rparr>"

section \<open>Conversions to fields\<close>

text \<open>
  \<^verbatim>\<open>t.value = src.value\<close>, with and without truncation and with down-sampling, to a field of the type
  the object has.  \<open>None\<close> is undefined behaviour, or a conversion that the types rule out.
\<close>

fun assign_value :: "FieldType \<Rightarrow> ValueType \<Rightarrow> Field option" where
  "assign_value U32 (UInt32Value n) = Some (FU32 n)"
| "assign_value Double64 (DoubleValue d) = Some (FDouble d)"
| "assign_value _ _ = None"

fun truncate_value :: "FieldType \<Rightarrow> ValueType \<Rightarrow> Field option" where
  "truncate_value U16 (UInt32Value n) = Some (FU16 (ucast n))"
| "truncate_value _ _ = None"

fun DownSampling_Apply :: "FieldType \<Rightarrow> ValueType \<Rightarrow> (Field \<times> bool) option" where
  "DownSampling_Apply I32 (DoubleValue d) = map_option (\<lambda>(v, over). (FI32 v, over)) (DownSampling_int32 d)"
| "DownSampling_Apply I16 (DoubleValue d) = map_option (\<lambda>(v, over). (FI16 v, over)) (DownSampling_int16 d)"
| "DownSampling_Apply Float32 (DoubleValue d) = (case DownSampling_float d of (v, over) \<Rightarrow> Some (FFloat v, over))"
| "DownSampling_Apply _ _ = None"

definition ConvertQ :: "Measurement \<Rightarrow> Field list option" where
  "ConvertQ src = Some [FU8 (m_quality src)]"

definition ConvertQT :: "Measurement \<Rightarrow> Field list option" where
  "ConvertQT src = Some [FU8 (m_quality src), FU48 (m_time src)]"

definition ConvertQTDowncast :: "Measurement \<Rightarrow> Field list option" where
  "ConvertQTDowncast src = Some [FU8 (m_quality src), FU16 (ucast (m_time src))]"

definition ConvertV :: "FieldType \<Rightarrow> Measurement \<Rightarrow> Field list option" where
  "ConvertV t src = map_option (\<lambda>v. [v]) (assign_value t (m_value src))"

definition ConvertQV :: "FieldType \<Rightarrow> Measurement \<Rightarrow> Field list option" where
  "ConvertQV t src = map_option (\<lambda>v. [FU8 (m_quality src), v]) (assign_value t (m_value src))"

definition ConvertQVT :: "FieldType \<Rightarrow> Measurement \<Rightarrow> Field list option" where
  "ConvertQVT t src = map_option (\<lambda>v. [FU8 (m_quality src), v, FU48 (m_time src)]) (assign_value t (m_value src))"

definition ConvertVandTruncate :: "FieldType \<Rightarrow> Measurement \<Rightarrow> Field list option" where
  "ConvertVandTruncate t src = map_option (\<lambda>v. [v]) (truncate_value t (m_value src))"

definition ConvertQVandTruncate :: "FieldType \<Rightarrow> Measurement \<Rightarrow> Field list option" where
  "ConvertQVandTruncate t src = map_option (\<lambda>v. [FU8 (m_quality src), v]) (truncate_value t (m_value src))"

definition ConvertQVTandTruncate :: "FieldType \<Rightarrow> Measurement \<Rightarrow> Field list option" where
  "ConvertQVTandTruncate t src =
     map_option (\<lambda>v. [FU8 (m_quality src), v, FU48 (m_time src)]) (truncate_value t (m_value src))"

definition ConvertVRangeCheck :: "FieldType \<Rightarrow> Measurement \<Rightarrow> Field list option" where
  "ConvertVRangeCheck t src = map_option (\<lambda>(v, overrange). [v]) (DownSampling_Apply t (m_value src))"

definition ConvertQVRangeCheck :: "FieldType \<Rightarrow> uint8 \<Rightarrow> Measurement \<Rightarrow> Field list option" where
  "ConvertQVRangeCheck t Overrange src =
     map_option (\<lambda>(v, overrange). [FU8 ((if overrange then Overrange else 0) OR m_quality src), v])
       (DownSampling_Apply t (m_value src))"

definition ConvertQVTRangeCheck :: "FieldType \<Rightarrow> uint8 \<Rightarrow> Measurement \<Rightarrow> Field list option" where
  "ConvertQVTRangeCheck t Overrange src =
     map_option (\<lambda>(v, overrange). [FU8 ((if overrange then Overrange else 0) OR m_quality src), v, FU48 (m_time src)])
       (DownSampling_Apply t (m_value src))"

fun ConvertGroup121Var1 :: "Measurement \<Rightarrow> Field list option" where
  "ConvertGroup121Var1 \<lparr>m_value = SecurityStatValue assocId cnt, m_quality = q, m_time = t\<rparr> = Some [FU8 q, FU16 assocId, FU32 cnt]"
| "ConvertGroup121Var1 _ = None"

fun ConvertGroup122Var1 :: "Measurement \<Rightarrow> Field list option" where
  "ConvertGroup122Var1 \<lparr>m_value = SecurityStatValue assocId cnt, m_quality = q, m_time = t\<rparr> = Some [FU8 q, FU16 assocId, FU32 cnt]"
| "ConvertGroup122Var1 _ = None"

fun ConvertGroup122Var2 :: "Measurement \<Rightarrow> Field list option" where
  "ConvertGroup122Var2 \<lparr>m_value = SecurityStatValue assocId cnt, m_quality = q, m_time = t\<rparr>
     = Some [FU8 q, FU16 assocId, FU32 cnt, FU48 t]"
| "ConvertGroup122Var2 _ = None"

section \<open>Measurements from fields\<close>

text \<open>\<open>no_measurement\<close> stands where no overload of \<^verbatim>\<open>From\<close> has such arguments.\<close>

definition no_measurement :: Measurement where
  "no_measurement = \<lparr>m_value = BoolValue False, m_quality = 0, m_time = 0\<rparr>"

fun BinaryFactory :: "Field list \<Rightarrow> Measurement" where
  "BinaryFactory [FU8 flags] = Binary_of_flags flags 0"
| "BinaryFactory [FU8 flags, FU16 time] = Binary_of_flags flags (ucast time)"
| "BinaryFactory [FU8 flags, FU48 time] = Binary_of_flags flags time"
| "BinaryFactory _ = no_measurement"

fun DoubleBitBinaryFactory :: "Field list \<Rightarrow> Measurement" where
  "DoubleBitBinaryFactory [FU8 flags] = DoubleBitBinary_of_flags flags 0"
| "DoubleBitBinaryFactory [FU8 flags, FU16 time] = DoubleBitBinary_of_flags flags (ucast time)"
| "DoubleBitBinaryFactory [FU8 flags, FU48 time] = DoubleBitBinary_of_flags flags time"
| "DoubleBitBinaryFactory _ = no_measurement"

fun BinaryOutputStatusFactory :: "Field list \<Rightarrow> Measurement" where
  "BinaryOutputStatusFactory [FU8 flags] = BinaryOutputStatus_of_flags flags 0"
| "BinaryOutputStatusFactory [FU8 flags, FU48 time] = BinaryOutputStatus_of_flags flags time"
| "BinaryOutputStatusFactory _ = no_measurement"

text \<open>A counter or number in an argument of \<^verbatim>\<open>From\<close>, with the implicit conversion to the argument's type.\<close>

fun to_uint32 :: "Field \<Rightarrow> ValueType" where
  "to_uint32 (FU32 n) = UInt32Value n"
| "to_uint32 (FU16 n) = UInt32Value (ucast n)"
| "to_uint32 _ = UInt32Value 0"

fun to_double :: "Field \<Rightarrow> ValueType" where
  "to_double (FI32 n) = DoubleValue (dbl_of_int (sint n))"
| "to_double (FI16 n) = DoubleValue (dbl_of_int (sint n))"
| "to_double (FFloat f) = DoubleValue (dbl_of_flt f)"
| "to_double (FDouble d) = DoubleValue d"
| "to_double _ = DoubleValue 0"

fun CounterFactory :: "Field list \<Rightarrow> Measurement" where
  "CounterFactory [cnt] = \<lparr>m_value = to_uint32 cnt, m_quality = QUALITY_ONLINE, m_time = 0\<rparr>"
| "CounterFactory [FU8 flags, cnt] = \<lparr>m_value = to_uint32 cnt, m_quality = flags, m_time = 0\<rparr>"
| "CounterFactory [FU8 flags, cnt, FU48 time] = \<lparr>m_value = to_uint32 cnt, m_quality = flags, m_time = time\<rparr>"
| "CounterFactory _ = no_measurement"

fun FrozenCounterFactory :: "Field list \<Rightarrow> Measurement" where
  "FrozenCounterFactory [cnt] = \<lparr>m_value = to_uint32 cnt, m_quality = QUALITY_ONLINE, m_time = 0\<rparr>"
| "FrozenCounterFactory [FU8 flags, cnt] = \<lparr>m_value = to_uint32 cnt, m_quality = flags, m_time = 0\<rparr>"
| "FrozenCounterFactory [FU8 flags, cnt, FU48 time] = \<lparr>m_value = to_uint32 cnt, m_quality = flags, m_time = time\<rparr>"
| "FrozenCounterFactory _ = no_measurement"

fun AnalogFactory :: "Field list \<Rightarrow> Measurement" where
  "AnalogFactory [v] = \<lparr>m_value = to_double v, m_quality = QUALITY_ONLINE, m_time = 0\<rparr>"
| "AnalogFactory [FU8 flags, v] = \<lparr>m_value = to_double v, m_quality = flags, m_time = 0\<rparr>"
| "AnalogFactory [FU8 flags, v, FU48 time] = \<lparr>m_value = to_double v, m_quality = flags, m_time = time\<rparr>"
| "AnalogFactory _ = no_measurement"

fun AnalogOutputStatusFactory :: "Field list \<Rightarrow> Measurement" where
  "AnalogOutputStatusFactory [FU8 flags, v] = \<lparr>m_value = to_double v, m_quality = flags, m_time = 0\<rparr>"
| "AnalogOutputStatusFactory [FU8 flags, v, FU48 time] = \<lparr>m_value = to_double v, m_quality = flags, m_time = time\<rparr>"
| "AnalogOutputStatusFactory _ = no_measurement"

fun SecurityStatFactory :: "Field list \<Rightarrow> Measurement" where
  "SecurityStatFactory [FU8 flags, FU16 assocId, FU32 v] =
     \<lparr>m_value = SecurityStatValue assocId v, m_quality = flags, m_time = 0\<rparr>"
| "SecurityStatFactory [FU8 flags, FU16 assocId, FU32 v, FU48 time] =
     \<lparr>m_value = SecurityStatValue assocId v, m_quality = flags, m_time = time\<rparr>"
| "SecurityStatFactory _ = no_measurement"

section \<open>The objects\<close>

text \<open>
  What the sources write out for each object: \<^verbatim>\<open>ID\<close>, \<^verbatim>\<open>Size\<close>, the fields that \<^verbatim>\<open>Read\<close> and \<^verbatim>\<open>Write\<close> go
  through, the conversion of \<^verbatim>\<open>WriteTarget\<close> and the factory of \<^verbatim>\<open>ReadTarget\<close>; \<^verbatim>\<open>Inst\<close> packs them into a
  \<^verbatim>\<open>DNP3Serializer\<close>.
\<close>

record 'm ObjectCodec =
  oc_id :: "uint8 \<times> uint8"
  oc_size :: nat
  oc_fields :: "FieldType list"
  oc_convert :: "'m \<Rightarrow> Field list option"
  oc_factory :: "Field list \<Rightarrow> 'm"

definition ReadTarget :: "'m ObjectCodec \<Rightarrow> bytes \<Rightarrow> ('m \<times> bytes) option" where
  "ReadTarget c buff =
     (case Parse_Many (oc_fields c) buff of
        None \<Rightarrow> None
      | Some (fs, rest) \<Rightarrow> Some (oc_factory c fs, rest))"

definition WriteTarget :: "'m ObjectCodec \<Rightarrow> 'm \<Rightarrow> WSlice \<Rightarrow> (WSlice \<times> bool) option" where
  "WriteTarget c value buff = map_option (\<lambda>fs. Format_Many fs buff) (oc_convert c value)"

text \<open>Group 1: Binary inputs.\<close>

definition Group1Var2 :: "Measurement ObjectCodec" where
  "Group1Var2 = \<lparr>oc_id = (1, 2), oc_size = 1, oc_fields = [U8],
     oc_convert = ConvertQ, oc_factory = BinaryFactory\<rparr>"

text \<open>Group 2: Binary input events.\<close>

definition Group2Var1 :: "Measurement ObjectCodec" where
  "Group2Var1 = \<lparr>oc_id = (2, 1), oc_size = 1, oc_fields = [U8],
     oc_convert = ConvertQ, oc_factory = BinaryFactory\<rparr>"

definition Group2Var2 :: "Measurement ObjectCodec" where
  "Group2Var2 = \<lparr>oc_id = (2, 2), oc_size = 7, oc_fields = [U8, U48],
     oc_convert = ConvertQT, oc_factory = BinaryFactory\<rparr>"

definition Group2Var3 :: "Measurement ObjectCodec" where
  "Group2Var3 = \<lparr>oc_id = (2, 3), oc_size = 3, oc_fields = [U8, U16],
     oc_convert = ConvertQTDowncast, oc_factory = BinaryFactory\<rparr>"

text \<open>Group 3: Double-bit binary inputs.\<close>

definition Group3Var2 :: "Measurement ObjectCodec" where
  "Group3Var2 = \<lparr>oc_id = (3, 2), oc_size = 1, oc_fields = [U8],
     oc_convert = ConvertQ, oc_factory = DoubleBitBinaryFactory\<rparr>"

text \<open>Group 4: Double-bit binary input events.\<close>

definition Group4Var1 :: "Measurement ObjectCodec" where
  "Group4Var1 = \<lparr>oc_id = (4, 1), oc_size = 1, oc_fields = [U8],
     oc_convert = ConvertQ, oc_factory = DoubleBitBinaryFactory\<rparr>"

definition Group4Var2 :: "Measurement ObjectCodec" where
  "Group4Var2 = \<lparr>oc_id = (4, 2), oc_size = 7, oc_fields = [U8, U48],
     oc_convert = ConvertQT, oc_factory = DoubleBitBinaryFactory\<rparr>"

definition Group4Var3 :: "Measurement ObjectCodec" where
  "Group4Var3 = \<lparr>oc_id = (4, 3), oc_size = 3, oc_fields = [U8, U16],
     oc_convert = ConvertQTDowncast, oc_factory = DoubleBitBinaryFactory\<rparr>"

text \<open>Group 10: Binary output statuses.\<close>

definition Group10Var2 :: "Measurement ObjectCodec" where
  "Group10Var2 = \<lparr>oc_id = (10, 2), oc_size = 1, oc_fields = [U8],
     oc_convert = ConvertQ, oc_factory = BinaryOutputStatusFactory\<rparr>"

text \<open>Group 11: Binary output status events.\<close>

definition Group11Var1 :: "Measurement ObjectCodec" where
  "Group11Var1 = \<lparr>oc_id = (11, 1), oc_size = 1, oc_fields = [U8],
     oc_convert = ConvertQ, oc_factory = BinaryOutputStatusFactory\<rparr>"

definition Group11Var2 :: "Measurement ObjectCodec" where
  "Group11Var2 = \<lparr>oc_id = (11, 2), oc_size = 7, oc_fields = [U8, U48],
     oc_convert = ConvertQT, oc_factory = BinaryOutputStatusFactory\<rparr>"

text \<open>Group 20: Counters.\<close>

definition Group20Var1 :: "Measurement ObjectCodec" where
  "Group20Var1 = \<lparr>oc_id = (20, 1), oc_size = 5, oc_fields = [U8, U32],
     oc_convert = ConvertQV U32, oc_factory = CounterFactory\<rparr>"

definition Group20Var2 :: "Measurement ObjectCodec" where
  "Group20Var2 = \<lparr>oc_id = (20, 2), oc_size = 3, oc_fields = [U8, U16],
     oc_convert = ConvertQVandTruncate U16, oc_factory = CounterFactory\<rparr>"

definition Group20Var5 :: "Measurement ObjectCodec" where
  "Group20Var5 = \<lparr>oc_id = (20, 5), oc_size = 4, oc_fields = [U32],
     oc_convert = ConvertV U32, oc_factory = CounterFactory\<rparr>"

definition Group20Var6 :: "Measurement ObjectCodec" where
  "Group20Var6 = \<lparr>oc_id = (20, 6), oc_size = 2, oc_fields = [U16],
     oc_convert = ConvertVandTruncate U16, oc_factory = CounterFactory\<rparr>"

text \<open>Group 21: Frozen counters.\<close>

definition Group21Var1 :: "Measurement ObjectCodec" where
  "Group21Var1 = \<lparr>oc_id = (21, 1), oc_size = 5, oc_fields = [U8, U32],
     oc_convert = ConvertQV U32, oc_factory = FrozenCounterFactory\<rparr>"

definition Group21Var2 :: "Measurement ObjectCodec" where
  "Group21Var2 = \<lparr>oc_id = (21, 2), oc_size = 3, oc_fields = [U8, U16],
     oc_convert = ConvertQVandTruncate U16, oc_factory = FrozenCounterFactory\<rparr>"

definition Group21Var5 :: "Measurement ObjectCodec" where
  "Group21Var5 = \<lparr>oc_id = (21, 5), oc_size = 11, oc_fields = [U8, U32, U48],
     oc_convert = ConvertQVT U32, oc_factory = FrozenCounterFactory\<rparr>"

definition Group21Var6 :: "Measurement ObjectCodec" where
  "Group21Var6 = \<lparr>oc_id = (21, 6), oc_size = 9, oc_fields = [U8, U16, U48],
     oc_convert = ConvertQVTandTruncate U16, oc_factory = FrozenCounterFactory\<rparr>"

definition Group21Var9 :: "Measurement ObjectCodec" where
  "Group21Var9 = \<lparr>oc_id = (21, 9), oc_size = 4, oc_fields = [U32],
     oc_convert = ConvertV U32, oc_factory = FrozenCounterFactory\<rparr>"

definition Group21Var10 :: "Measurement ObjectCodec" where
  "Group21Var10 = \<lparr>oc_id = (21, 10), oc_size = 2, oc_fields = [U16],
     oc_convert = ConvertVandTruncate U16, oc_factory = FrozenCounterFactory\<rparr>"

text \<open>Group 22: Counter events.\<close>

definition Group22Var1 :: "Measurement ObjectCodec" where
  "Group22Var1 = \<lparr>oc_id = (22, 1), oc_size = 5, oc_fields = [U8, U32],
     oc_convert = ConvertQV U32, oc_factory = CounterFactory\<rparr>"

definition Group22Var2 :: "Measurement ObjectCodec" where
  "Group22Var2 = \<lparr>oc_id = (22, 2), oc_size = 3, oc_fields = [U8, U16],
     oc_convert = ConvertQVandTruncate U16, oc_factory = CounterFactory\<rparr>"

definition Group22Var5 :: "Measurement ObjectCodec" where
  "Group22Var5 = \<lparr>oc_id = (22, 5), oc_size = 11, oc_fields = [U8, U32, U48],
     oc_convert = ConvertQVT U32, oc_factory = CounterFactory\<rparr>"

definition Group22Var6 :: "Measurement ObjectCodec" where
  "Group22Var6 = \<lparr>oc_id = (22, 6), oc_size = 9, oc_fields = [U8, U16, U48],
     oc_convert = ConvertQVTandTruncate U16, oc_factory = CounterFactory\<rparr>"

text \<open>Group 23: Frozen counter events.\<close>

definition Group23Var1 :: "Measurement ObjectCodec" where
  "Group23Var1 = \<lparr>oc_id = (23, 1), oc_size = 5, oc_fields = [U8, U32],
     oc_convert = ConvertQV U32, oc_factory = FrozenCounterFactory\<rparr>"

definition Group23Var2 :: "Measurement ObjectCodec" where
  "Group23Var2 = \<lparr>oc_id = (23, 2), oc_size = 3, oc_fields = [U8, U16],
     oc_convert = ConvertQVandTruncate U16, oc_factory = FrozenCounterFactory\<rparr>"

definition Group23Var5 :: "Measurement ObjectCodec" where
  "Group23Var5 = \<lparr>oc_id = (23, 5), oc_size = 11, oc_fields = [U8, U32, U48],
     oc_convert = ConvertQVT U32, oc_factory = FrozenCounterFactory\<rparr>"

definition Group23Var6 :: "Measurement ObjectCodec" where
  "Group23Var6 = \<lparr>oc_id = (23, 6), oc_size = 9, oc_fields = [U8, U16, U48],
     oc_convert = ConvertQVTandTruncate U16, oc_factory = FrozenCounterFactory\<rparr>"

text \<open>Group 30: Analog inputs.\<close>

definition Group30Var1 :: "Measurement ObjectCodec" where
  "Group30Var1 = \<lparr>oc_id = (30, 1), oc_size = 5, oc_fields = [U8, I32],
     oc_convert = ConvertQVRangeCheck I32 0x20, oc_factory = AnalogFactory\<rparr>"

definition Group30Var2 :: "Measurement ObjectCodec" where
  "Group30Var2 = \<lparr>oc_id = (30, 2), oc_size = 3, oc_fields = [U8, I16],
     oc_convert = ConvertQVRangeCheck I16 0x20, oc_factory = AnalogFactory\<rparr>"

definition Group30Var3 :: "Measurement ObjectCodec" where
  "Group30Var3 = \<lparr>oc_id = (30, 3), oc_size = 4, oc_fields = [I32],
     oc_convert = ConvertVRangeCheck I32, oc_factory = AnalogFactory\<rparr>"

definition Group30Var4 :: "Measurement ObjectCodec" where
  "Group30Var4 = \<lparr>oc_id = (30, 4), oc_size = 2, oc_fields = [I16],
     oc_convert = ConvertVRangeCheck I16, oc_factory = AnalogFactory\<rparr>"

definition Group30Var5 :: "Measurement ObjectCodec" where
  "Group30Var5 = \<lparr>oc_id = (30, 5), oc_size = 5, oc_fields = [U8, Float32],
     oc_convert = ConvertQVRangeCheck Float32 0x20, oc_factory = AnalogFactory\<rparr>"

definition Group30Var6 :: "Measurement ObjectCodec" where
  "Group30Var6 = \<lparr>oc_id = (30, 6), oc_size = 9, oc_fields = [U8, Double64],
     oc_convert = ConvertQV Double64, oc_factory = AnalogFactory\<rparr>"

text \<open>Group 32: Analog input events.\<close>

definition Group32Var1 :: "Measurement ObjectCodec" where
  "Group32Var1 = \<lparr>oc_id = (32, 1), oc_size = 5, oc_fields = [U8, I32],
     oc_convert = ConvertQVRangeCheck I32 0x20, oc_factory = AnalogFactory\<rparr>"

definition Group32Var2 :: "Measurement ObjectCodec" where
  "Group32Var2 = \<lparr>oc_id = (32, 2), oc_size = 3, oc_fields = [U8, I16],
     oc_convert = ConvertQVRangeCheck I16 0x20, oc_factory = AnalogFactory\<rparr>"

definition Group32Var3 :: "Measurement ObjectCodec" where
  "Group32Var3 = \<lparr>oc_id = (32, 3), oc_size = 11, oc_fields = [U8, I32, U48],
     oc_convert = ConvertQVTRangeCheck I32 0x20, oc_factory = AnalogFactory\<rparr>"

definition Group32Var4 :: "Measurement ObjectCodec" where
  "Group32Var4 = \<lparr>oc_id = (32, 4), oc_size = 9, oc_fields = [U8, I16, U48],
     oc_convert = ConvertQVTRangeCheck I16 0x20, oc_factory = AnalogFactory\<rparr>"

definition Group32Var5 :: "Measurement ObjectCodec" where
  "Group32Var5 = \<lparr>oc_id = (32, 5), oc_size = 5, oc_fields = [U8, Float32],
     oc_convert = ConvertQVRangeCheck Float32 0x20, oc_factory = AnalogFactory\<rparr>"

definition Group32Var6 :: "Measurement ObjectCodec" where
  "Group32Var6 = \<lparr>oc_id = (32, 6), oc_size = 9, oc_fields = [U8, Double64],
     oc_convert = ConvertQV Double64, oc_factory = AnalogFactory\<rparr>"

definition Group32Var7 :: "Measurement ObjectCodec" where
  "Group32Var7 = \<lparr>oc_id = (32, 7), oc_size = 11, oc_fields = [U8, Float32, U48],
     oc_convert = ConvertQVTRangeCheck Float32 0x20, oc_factory = AnalogFactory\<rparr>"

definition Group32Var8 :: "Measurement ObjectCodec" where
  "Group32Var8 = \<lparr>oc_id = (32, 8), oc_size = 15, oc_fields = [U8, Double64, U48],
     oc_convert = ConvertQVT Double64, oc_factory = AnalogFactory\<rparr>"

text \<open>Group 40: Analog output statuses.\<close>

definition Group40Var1 :: "Measurement ObjectCodec" where
  "Group40Var1 = \<lparr>oc_id = (40, 1), oc_size = 5, oc_fields = [U8, I32],
     oc_convert = ConvertQVRangeCheck I32 0x20, oc_factory = AnalogOutputStatusFactory\<rparr>"

definition Group40Var2 :: "Measurement ObjectCodec" where
  "Group40Var2 = \<lparr>oc_id = (40, 2), oc_size = 3, oc_fields = [U8, I16],
     oc_convert = ConvertQVRangeCheck I16 0x20, oc_factory = AnalogOutputStatusFactory\<rparr>"

definition Group40Var3 :: "Measurement ObjectCodec" where
  "Group40Var3 = \<lparr>oc_id = (40, 3), oc_size = 5, oc_fields = [U8, Float32],
     oc_convert = ConvertQVRangeCheck Float32 0x20, oc_factory = AnalogOutputStatusFactory\<rparr>"

definition Group40Var4 :: "Measurement ObjectCodec" where
  "Group40Var4 = \<lparr>oc_id = (40, 4), oc_size = 9, oc_fields = [U8, Double64],
     oc_convert = ConvertQV Double64, oc_factory = AnalogOutputStatusFactory\<rparr>"

text \<open>Group 42: Analog output status events.\<close>

definition Group42Var1 :: "Measurement ObjectCodec" where
  "Group42Var1 = \<lparr>oc_id = (42, 1), oc_size = 5, oc_fields = [U8, I32],
     oc_convert = ConvertQVRangeCheck I32 0x20, oc_factory = AnalogOutputStatusFactory\<rparr>"

definition Group42Var2 :: "Measurement ObjectCodec" where
  "Group42Var2 = \<lparr>oc_id = (42, 2), oc_size = 3, oc_fields = [U8, I16],
     oc_convert = ConvertQVRangeCheck I16 0x20, oc_factory = AnalogOutputStatusFactory\<rparr>"

definition Group42Var3 :: "Measurement ObjectCodec" where
  "Group42Var3 = \<lparr>oc_id = (42, 3), oc_size = 11, oc_fields = [U8, I32, U48],
     oc_convert = ConvertQVTRangeCheck I32 0x20, oc_factory = AnalogOutputStatusFactory\<rparr>"

definition Group42Var4 :: "Measurement ObjectCodec" where
  "Group42Var4 = \<lparr>oc_id = (42, 4), oc_size = 9, oc_fields = [U8, I16, U48],
     oc_convert = ConvertQVTRangeCheck I16 0x20, oc_factory = AnalogOutputStatusFactory\<rparr>"

definition Group42Var5 :: "Measurement ObjectCodec" where
  "Group42Var5 = \<lparr>oc_id = (42, 5), oc_size = 5, oc_fields = [U8, Float32],
     oc_convert = ConvertQVRangeCheck Float32 0x20, oc_factory = AnalogOutputStatusFactory\<rparr>"

definition Group42Var6 :: "Measurement ObjectCodec" where
  "Group42Var6 = \<lparr>oc_id = (42, 6), oc_size = 9, oc_fields = [U8, Double64],
     oc_convert = ConvertQV Double64, oc_factory = AnalogOutputStatusFactory\<rparr>"

definition Group42Var7 :: "Measurement ObjectCodec" where
  "Group42Var7 = \<lparr>oc_id = (42, 7), oc_size = 11, oc_fields = [U8, Float32, U48],
     oc_convert = ConvertQVTRangeCheck Float32 0x20, oc_factory = AnalogOutputStatusFactory\<rparr>"

definition Group42Var8 :: "Measurement ObjectCodec" where
  "Group42Var8 = \<lparr>oc_id = (42, 8), oc_size = 15, oc_fields = [U8, Double64, U48],
     oc_convert = ConvertQVT Double64, oc_factory = AnalogOutputStatusFactory\<rparr>"

text \<open>Group 121: Security statistics.\<close>

definition Group121Var1 :: "Measurement ObjectCodec" where
  "Group121Var1 = \<lparr>oc_id = (121, 1), oc_size = 7, oc_fields = [U8, U16, U32],
     oc_convert = ConvertGroup121Var1, oc_factory = SecurityStatFactory\<rparr>"

text \<open>Group 122: Security statistic events.\<close>

definition Group122Var1 :: "Measurement ObjectCodec" where
  "Group122Var1 = \<lparr>oc_id = (122, 1), oc_size = 7, oc_fields = [U8, U16, U32],
     oc_convert = ConvertGroup122Var1, oc_factory = SecurityStatFactory\<rparr>"

definition Group122Var2 :: "Measurement ObjectCodec" where
  "Group122Var2 = \<lparr>oc_id = (122, 2), oc_size = 13, oc_fields = [U8, U16, U32, U48],
     oc_convert = ConvertGroup122Var2, oc_factory = SecurityStatFactory\<rparr>"

section \<open>All objects, by the type of their measurement\<close>

definition objects_of :: "(EventType \<times> Measurement ObjectCodec list) list" where
  "objects_of =
    [(ET_Binary, [Group1Var2, Group2Var1, Group2Var2, Group2Var3]),
     (ET_DoubleBitBinary, [Group3Var2, Group4Var1, Group4Var2, Group4Var3]),
     (ET_BinaryOutputStatus, [Group10Var2, Group11Var1, Group11Var2]),
     (ET_Counter, [Group20Var1, Group20Var2, Group20Var5, Group20Var6, Group22Var1, Group22Var2, Group22Var5, Group22Var6]),
     (ET_FrozenCounter, [Group21Var1, Group21Var2, Group21Var5, Group21Var6, Group21Var9, Group21Var10, Group23Var1, Group23Var2, Group23Var5, Group23Var6]),
     (ET_Analog, [Group30Var1, Group30Var2, Group30Var3, Group30Var4, Group30Var5, Group30Var6, Group32Var1, Group32Var2, Group32Var3, Group32Var4, Group32Var5, Group32Var6, Group32Var7, Group32Var8]),
     (ET_AnalogOutputStatus, [Group40Var1, Group40Var2, Group40Var3, Group40Var4, Group42Var1, Group42Var2, Group42Var3, Group42Var4, Group42Var5, Group42Var6, Group42Var7, Group42Var8]),
     (ET_SecurityStat, [Group121Var1, Group122Var1, Group122Var2])]"

definition objects :: "(EventType \<times> Measurement ObjectCodec) list" where
  "objects = concat (map (\<lambda>(t, cs). map (Pair t) cs) objects_of)"

lemma objects_member: "list_all (\<lambda>(t, cs). list_all (\<lambda>c. (t, c) \<in> set objects) cs) objects_of"
  by (auto simp: objects_def list_all_iff)

lemmas objects_members = objects_member[unfolded objects_of_def list.pred_inject prod.case]

lemmas object_defs = Group1Var2_def Group2Var1_def Group2Var2_def Group2Var3_def Group3Var2_def Group4Var1_def Group4Var2_def Group4Var3_def
  Group10Var2_def Group11Var1_def Group11Var2_def Group20Var1_def Group20Var2_def Group20Var5_def Group20Var6_def Group21Var1_def
  Group21Var2_def Group21Var5_def Group21Var6_def Group21Var9_def Group21Var10_def Group22Var1_def Group22Var2_def Group22Var5_def
  Group22Var6_def Group23Var1_def Group23Var2_def Group23Var5_def Group23Var6_def Group30Var1_def Group30Var2_def Group30Var3_def
  Group30Var4_def Group30Var5_def Group30Var6_def Group32Var1_def Group32Var2_def Group32Var3_def Group32Var4_def Group32Var5_def
  Group32Var6_def Group32Var7_def Group32Var8_def Group40Var1_def Group40Var2_def Group40Var3_def Group40Var4_def Group42Var1_def
  Group42Var2_def Group42Var3_def Group42Var4_def Group42Var5_def Group42Var6_def Group42Var7_def Group42Var8_def Group121Var1_def
  Group122Var1_def Group122Var2_def

lemmas convert_defs = ConvertQ_def ConvertQT_def ConvertQTDowncast_def ConvertV_def ConvertQV_def ConvertQVT_def
  ConvertVandTruncate_def ConvertQVandTruncate_def ConvertQVTandTruncate_def ConvertVRangeCheck_def ConvertQVRangeCheck_def
  ConvertQVTRangeCheck_def

text \<open>An object that cannot be made from a number that is a NaN: the field of the value is an integer.\<close>

definition int_valued :: "Measurement ObjectCodec \<Rightarrow> bool" where
  "int_valued c \<longleftrightarrow> I32 \<in> set (oc_fields c) \<or> I16 \<in> set (oc_fields c)"

lemma value_fits_iff:
  "value_fits ET_Binary v \<longleftrightarrow> (\<exists>b. v = BoolValue b)"
  "value_fits ET_BinaryOutputStatus v \<longleftrightarrow> (\<exists>b. v = BoolValue b)"
  "value_fits ET_DoubleBitBinary v \<longleftrightarrow> (\<exists>b. v = DoubleBitValue b)"
  "value_fits ET_Counter v \<longleftrightarrow> (\<exists>n. v = UInt32Value n)"
  "value_fits ET_FrozenCounter v \<longleftrightarrow> (\<exists>n. v = UInt32Value n)"
  "value_fits ET_Analog v \<longleftrightarrow> (\<exists>d. v = DoubleValue d)"
  "value_fits ET_AnalogOutputStatus v \<longleftrightarrow> (\<exists>d. v = DoubleValue d)"
  "value_fits ET_SecurityStat v \<longleftrightarrow> (\<exists>a n. v = SecurityStatValue a n)"
  by (cases v; simp)+

definition NaN_value :: "Measurement \<Rightarrow> bool" where
  "NaN_value m \<longleftrightarrow> (\<exists>d. m_value m = DoubleValue d \<and> dbl_isnan d)"

text \<open>The types of the fields are those of the object, and only a NaN is not converted.\<close>

definition object_ok :: "EventType \<Rightarrow> Measurement ObjectCodec \<Rightarrow> bool" where
  "object_ok t c \<longleftrightarrow> fields_size (oc_fields c) = oc_size c
     \<and> (\<forall>m. value_fits t (m_value m) \<longrightarrow> (oc_convert c m = None \<longleftrightarrow> int_valued c \<and> NaN_value m)
          \<and> (\<forall>fs. oc_convert c m = Some fs \<longrightarrow> map field_type fs = oc_fields c
                \<and> (m_time m \<le> UInt48_MAX \<longrightarrow> (\<forall>f\<in>set fs. field_ok f))))"

lemma DownSampling_int_None: "DownSampling_int32 d = None \<longleftrightarrow> dbl_isnan d" "DownSampling_int16 d = None \<longleftrightarrow> dbl_isnan d"
  by (simp_all add: DownSampling_int32_def DownSampling_int16_def DownSampling_int_result)

lemma Convert_SecurityStat:
  "m_value m = SecurityStatValue a n \<Longrightarrow> ConvertGroup121Var1 m = Some [FU8 (m_quality m), FU16 a, FU32 n]"
  "m_value m = SecurityStatValue a n \<Longrightarrow> ConvertGroup122Var1 m = Some [FU8 (m_quality m), FU16 a, FU32 n]"
  "m_value m = SecurityStatValue a n \<Longrightarrow> ConvertGroup122Var2 m = Some [FU8 (m_quality m), FU16 a, FU32 n, FU48 (m_time m)]"
  by (cases m; simp)+

text \<open>One lemma for each kind of value, with every shape of object it has.\<close>

lemma binary_ok:
  assumes "t = ET_Binary \<or> t = ET_DoubleBitBinary \<or> t = ET_BinaryOutputStatus"
  shows
    "object_ok t \<lparr>oc_id = i, oc_size = 1, oc_fields = [U8], oc_convert = ConvertQ, oc_factory = f\<rparr>"
    "object_ok t \<lparr>oc_id = i, oc_size = 7, oc_fields = [U8, U48], oc_convert = ConvertQT, oc_factory = f\<rparr>"
    "object_ok t \<lparr>oc_id = i, oc_size = 3, oc_fields = [U8, U16], oc_convert = ConvertQTDowncast, oc_factory = f\<rparr>"
  using assms by (auto simp: object_ok_def convert_defs int_valued_def NaN_value_def value_fits_iff)

lemma counter_ok:
  assumes "t = ET_Counter \<or> t = ET_FrozenCounter"
  shows
    "object_ok t \<lparr>oc_id = i, oc_size = 5, oc_fields = [U8, U32], oc_convert = ConvertQV U32, oc_factory = f\<rparr>"
    "object_ok t \<lparr>oc_id = i, oc_size = 3, oc_fields = [U8, U16], oc_convert = ConvertQVandTruncate U16, oc_factory = f\<rparr>"
    "object_ok t \<lparr>oc_id = i, oc_size = 4, oc_fields = [U32], oc_convert = ConvertV U32, oc_factory = f\<rparr>"
    "object_ok t \<lparr>oc_id = i, oc_size = 2, oc_fields = [U16], oc_convert = ConvertVandTruncate U16, oc_factory = f\<rparr>"
    "object_ok t \<lparr>oc_id = i, oc_size = 11, oc_fields = [U8, U32, U48], oc_convert = ConvertQVT U32, oc_factory = f\<rparr>"
    "object_ok t \<lparr>oc_id = i, oc_size = 9, oc_fields = [U8, U16, U48], oc_convert = ConvertQVTandTruncate U16, oc_factory = f\<rparr>"
  using assms by (auto simp: object_ok_def convert_defs int_valued_def NaN_value_def value_fits_iff)

lemma analog_ok:
  assumes "t = ET_Analog \<or> t = ET_AnalogOutputStatus"
  shows
    "object_ok t \<lparr>oc_id = i, oc_size = 5, oc_fields = [U8, I32], oc_convert = ConvertQVRangeCheck I32 over, oc_factory = f\<rparr>"
    "object_ok t \<lparr>oc_id = i, oc_size = 3, oc_fields = [U8, I16], oc_convert = ConvertQVRangeCheck I16 over, oc_factory = f\<rparr>"
    "object_ok t \<lparr>oc_id = i, oc_size = 5, oc_fields = [U8, Float32], oc_convert = ConvertQVRangeCheck Float32 over, oc_factory = f\<rparr>"
    "object_ok t \<lparr>oc_id = i, oc_size = 4, oc_fields = [I32], oc_convert = ConvertVRangeCheck I32, oc_factory = f\<rparr>"
    "object_ok t \<lparr>oc_id = i, oc_size = 2, oc_fields = [I16], oc_convert = ConvertVRangeCheck I16, oc_factory = f\<rparr>"
    "object_ok t \<lparr>oc_id = i, oc_size = 9, oc_fields = [U8, Double64], oc_convert = ConvertQV Double64, oc_factory = f\<rparr>"
    "object_ok t \<lparr>oc_id = i, oc_size = 11, oc_fields = [U8, I32, U48], oc_convert = ConvertQVTRangeCheck I32 over, oc_factory = f\<rparr>"
    "object_ok t \<lparr>oc_id = i, oc_size = 9, oc_fields = [U8, I16, U48], oc_convert = ConvertQVTRangeCheck I16 over, oc_factory = f\<rparr>"
    "object_ok t \<lparr>oc_id = i, oc_size = 11, oc_fields = [U8, Float32, U48], oc_convert = ConvertQVTRangeCheck Float32 over, oc_factory = f\<rparr>"
    "object_ok t \<lparr>oc_id = i, oc_size = 15, oc_fields = [U8, Double64, U48], oc_convert = ConvertQVT Double64, oc_factory = f\<rparr>"
  using assms by (auto simp: object_ok_def convert_defs int_valued_def NaN_value_def value_fits_iff DownSampling_int_None
      split: prod.splits)

lemma security_stat_ok:
  assumes "t = ET_SecurityStat"
  shows
    "object_ok t \<lparr>oc_id = i, oc_size = 7, oc_fields = [U8, U16, U32], oc_convert = ConvertGroup121Var1, oc_factory = f\<rparr>"
    "object_ok t \<lparr>oc_id = i, oc_size = 7, oc_fields = [U8, U16, U32], oc_convert = ConvertGroup122Var1, oc_factory = f\<rparr>"
    "object_ok t \<lparr>oc_id = i, oc_size = 13, oc_fields = [U8, U16, U32, U48], oc_convert = ConvertGroup122Var2, oc_factory = f\<rparr>"
  using assms by (auto simp: object_ok_def int_valued_def NaN_value_def value_fits_iff Convert_SecurityStat)

lemma objects_ok: "(t, c) \<in> set objects \<Longrightarrow> object_ok t c"
proof -
  have "list_all (\<lambda>(t, cs). list_all (object_ok t) cs) objects_of"
    unfolding objects_of_def object_defs
    by (simp add: binary_ok counter_ok analog_ok security_stat_ok del: One_nat_def)
  then show "(t, c) \<in> set objects \<Longrightarrow> object_ok t c"
    by (auto simp: objects_def list_all_iff)
qed

section \<open>Values that survive\<close>

lemma GetBinaryValue_Quality: "GetBinaryValue (GetBinaryQuality q v) = v"
proof -
  have state: "QUALITY_STATE = 2 ^ 7" by (simp add: QUALITY_STATE_def)
  have "GetBinaryValue x \<longleftrightarrow> bit x 7" for x
    by (simp add: GetBinaryValue_def state bit_iff_and_push_bit_not_eq_0)
  then show ?thesis
    by (simp add: GetBinaryQuality_def state bit_or_iff bit_and_iff bit_not_iff bit_exp_iff)
qed

lemma DoubleBit_GetValue_Qual: "DoubleBit_GetValue (DoubleBit_GetQual q v) = v"
proof -
  have mask: "0x3F = (mask 6 :: uint8)" by (simp add: mask_eq_exp_minus_1)
  have low: "drop_bit 6 (mask 6 AND q) = 0"
    by (rule bit_word_eqI) (simp add: bit_drop_bit_eq bit_and_iff bit_mask_iff)
  have "drop_bit 6 (push_bit 6 (DoubleBitToType v)) = DoubleBitToType v" by (cases v) simp_all
  then have "drop_bit 6 (DoubleBit_GetQual q v) = DoubleBitToType v"
    unfolding DoubleBit_GetQual_def mask drop_bit_or low by simp
  then show ?thesis by (cases v) (simp_all add: DoubleBit_GetValue_def DoubleBitFromType_def)
qed

text \<open>The state bits among the flags of a measurement are those of its value, as every constructor leaves them.\<close>

definition consistent :: "Measurement \<Rightarrow> bool" where
  "consistent m \<longleftrightarrow> Measurement_make (m_value m) (m_quality m) (m_time m) = m"

text \<open>The objects that carry the whole value: with the time, and without.\<close>

definition whole_objects :: "Measurement ObjectCodec list" where
  "whole_objects = [Group2Var2, Group4Var2, Group11Var2, Group21Var5, Group22Var5, Group23Var5, Group32Var8, Group42Var8, Group122Var2]"

definition timeless_objects :: "Measurement ObjectCodec list" where
  "timeless_objects = [Group1Var2, Group2Var1, Group3Var2, Group4Var1, Group10Var2, Group11Var1, Group20Var1, Group21Var1, Group22Var1,
     Group23Var1, Group30Var6, Group32Var6, Group40Var4, Group42Var6, Group121Var1, Group122Var1]"

definition group_type :: "uint8 \<Rightarrow> EventType" where
  "group_type g =
     (if g \<in> {1, 2} then ET_Binary else if g \<in> {3, 4} then ET_DoubleBitBinary else if g \<in> {10, 11} then ET_BinaryOutputStatus
      else if g \<in> {20, 22} then ET_Counter else if g \<in> {21, 23} then ET_FrozenCounter else if g \<in> {30, 32} then ET_Analog
      else if g \<in> {40, 42} then ET_AnalogOutputStatus else ET_SecurityStat)"

lemma objects_group: "(t, c) \<in> set objects \<Longrightarrow> t = group_type (fst (oc_id c))"
proof -
  have "list_all (\<lambda>(t, cs). list_all (\<lambda>c. t = group_type (fst (oc_id c))) cs) objects_of"
    by (simp add: objects_of_def object_defs group_type_def)
  then show "(t, c) \<in> set objects \<Longrightarrow> t = group_type (fst (oc_id c))"
    by (auto simp: objects_def list_all_iff)
qed

lemma consistent_flags:
  "consistent m \<Longrightarrow> m_value m = BoolValue b \<Longrightarrow> Binary_of_flags (m_quality m) t = m\<lparr>m_time := t\<rparr>"
  "consistent m \<Longrightarrow> m_value m = BoolValue b \<Longrightarrow> BinaryOutputStatus_of_flags (m_quality m) t = m\<lparr>m_time := t\<rparr>"
  "consistent m \<Longrightarrow> m_value m = DoubleBitValue d \<Longrightarrow> DoubleBitBinary_of_flags (m_quality m) t = m\<lparr>m_time := t\<rparr>"
proof -
  assume "consistent m" "m_value m = BoolValue b"
  then have "m_quality m = GetBinaryQuality (m_quality m) b" by (cases m) (simp add: consistent_def)
  then have "GetBinaryValue (m_quality m) = b" using GetBinaryValue_Quality by metis
  with \<open>m_value m = BoolValue b\<close> show "Binary_of_flags (m_quality m) t = m\<lparr>m_time := t\<rparr>"
    "BinaryOutputStatus_of_flags (m_quality m) t = m\<lparr>m_time := t\<rparr>"
    by (cases m; simp add: Binary_of_flags_def BinaryOutputStatus_of_flags_def)+
next
  assume "consistent m" "m_value m = DoubleBitValue d"
  then have "m_quality m = DoubleBit_GetQual (m_quality m) d" by (cases m) (simp add: consistent_def)
  then have "DoubleBit_GetValue (m_quality m) = d" using DoubleBit_GetValue_Qual by metis
  with \<open>m_value m = DoubleBitValue d\<close> show "DoubleBitBinary_of_flags (m_quality m) t = m\<lparr>m_time := t\<rparr>"
    by (cases m; simp add: DoubleBitBinary_of_flags_def)
qed

lemma factory_whole:
  assumes "(t, c) \<in> set objects" "value_fits t (m_value m)" "consistent m" "oc_convert c m = Some fs"
  shows "c \<in> set whole_objects \<Longrightarrow> oc_factory c fs = m" "c \<in> set timeless_objects \<Longrightarrow> oc_factory c fs = m\<lparr>m_time := 0\<rparr>"
proof -
  note t = objects_group[OF assms(1)]
  have id: "m\<lparr>m_time := m_time m\<rparr> = m" by simp
  show "c \<in> set whole_objects \<Longrightarrow> oc_factory c fs = m"
    using assms(2-4) unfolding t whole_objects_def object_defs
    by (auto simp: group_type_def value_fits_iff convert_defs Convert_SecurityStat consistent_flags)
  show "c \<in> set timeless_objects \<Longrightarrow> oc_factory c fs = m\<lparr>m_time := 0\<rparr>"
    using assms(2-4) unfolding t timeless_objects_def object_defs
    by (auto simp: group_type_def value_fits_iff convert_defs Convert_SecurityStat consistent_flags)
qed

section \<open>Properties\<close>

text \<open>
  \<^bold>\<open>C32\<close>.  Every measurement object of the library is written and read back: a measurement that has a representation
  takes exactly the size the object declares, reading consumes these bytes and no other, and gives the measurement
  that the object's factory makes of the fields written; the objects that have room for the whole value, flags and time
  give the measurement itself, those without a time give it without.
\<close>

theorem object_roundtrip:
  assumes "(t, c) \<in> set objects" and "value_fits t (m_value m)" and "m_time m \<le> UInt48_MAX"
    and "oc_convert c m = Some fs" and "ws_ok w" and "oc_size c \<le> WSlice_Size w"
  shows "WriteTarget c m w = Some (WriteBuffer (fields_bytes fs) w, True)
    \<and> length (fields_bytes fs) = oc_size c
    \<and> ReadTarget c (fields_bytes fs @ rest) = Some (oc_factory c fs, rest)
    \<and> (consistent m \<longrightarrow> c \<in> set whole_objects \<longrightarrow> oc_factory c fs = m)
    \<and> (consistent m \<longrightarrow> c \<in> set timeless_objects \<longrightarrow> oc_factory c fs = m\<lparr>m_time := 0\<rparr>)"
proof -
  have ok: "fields_size (oc_fields c) = oc_size c" "map field_type fs = oc_fields c" "\<forall>f\<in>set fs. field_ok f"
    using objects_ok[OF assms(1)] assms(2,3,4) by (auto simp: object_ok_def)
  show ?thesis
    using Format_Many_room[OF assms(5), of fs] Parse_Many_fields[OF ok(3), of rest] assms(4,6) ok
      factory_whole[OF assms(1,2) _ assms(4)]
    by (simp add: WriteTarget_def ReadTarget_def)
qed

lemma object_roundtrip_witness:
  defines "m \<equiv> \<lparr>m_value = UInt32Value 70000, m_quality = 1, m_time = 1000\<rparr>"
  shows "ReadTarget Group22Var5 ([1, 0x70, 0x11, 1, 0, 0xE8, 3, 0, 0, 0, 0] @ [9]) = Some (m, [9])"
proof -
  let ?fs = "[FU8 1, FU32 70000, FU48 1000]"
  have "(ET_Counter, Group22Var5) \<in> set objects" by (simp add: objects_def objects_of_def)
  moreover have "oc_convert Group22Var5 m = Some ?fs" by (simp add: Group22Var5_def ConvertQVT_def m_def)
  moreover have "value_fits ET_Counter (m_value m)" "m_time m \<le> UInt48_MAX" by (simp_all add: m_def UInt48_MAX_def)
  moreover have "ws_ok (WSlice_make (replicate 20 0))" "oc_size Group22Var5 \<le> WSlice_Size (WSlice_make (replicate 20 0))"
    by (simp_all add: ws_ok_def WSlice_make_def WSlice_Size_def Group22Var5_def)
  ultimately have "ReadTarget Group22Var5 (fields_bytes ?fs @ [9]) = Some (oc_factory Group22Var5 ?fs, [9])"
    using object_roundtrip[of ET_Counter Group22Var5 m ?fs "WSlice_make (replicate 20 0)" "[9]"] by blast
  moreover have "fields_bytes ?fs = [1, 0x70, 0x11, 1, 0, 0xE8, 3, 0, 0, 0, 0]"
    by (simp add: Bit32LE_Write_def UInt48LE_Write_def UInt48_MAX_def)
  moreover have "oc_factory Group22Var5 ?fs = m" by (simp add: Group22Var5_def m_def)
  ultimately show ?thesis by (simp only:)
qed

text \<open>
  \<^bold>\<open>C33\<close>.  The only measurement that cannot be written is an analog value that is a NaN, in an object with an integer field:
  the conversion is then undefined behaviour of C++.
\<close>

theorem only_NaN_unwritable:
  assumes "(t, c) \<in> set objects" and "value_fits t (m_value m)"
  shows "WriteTarget c m w = None \<longleftrightarrow> (I32 \<in> set (oc_fields c) \<or> I16 \<in> set (oc_fields c)) \<and> (\<exists>d. m_value m = DoubleValue d \<and> dbl_isnan d)"
  using objects_ok[OF assms(1)] assms(2) by (simp add: object_ok_def WriteTarget_def int_valued_def NaN_value_def)

lemma only_NaN_unwritable_witness:
  "WriteTarget Group32Var1 \<lparr>m_value = DoubleValue 0x7FF8000000000000, m_quality = 1, m_time = 0\<rparr> (WSlice_make []) = None"
proof -
  have "(ET_Analog, Group32Var1) \<in> set objects" by (simp add: objects_def objects_of_def)
  moreover have "dbl_isnan 0x7FF8000000000000" by (simp add: dbl_isnan_def dbl_exponent_def dbl_fraction_def)
  ultimately show ?thesis
    using only_NaN_unwritable[of ET_Analog Group32Var1 "\<lparr>m_value = DoubleValue 0x7FF8000000000000, m_quality = 1, m_time = 0\<rparr>"
        "WSlice_make []"] by (simp add: Group32Var1_def)
qed

end
