(* ===== verification/HeaderWriter.thy ===== *)
theory HeaderWriter
  imports Objects
begin

text \<open>
  \<^verbatim>\<open>app/HeaderWriter\<close> and the write iterators: object headers and the objects after them, written into
  what is left of a fragment.  The iterators remember where the count or the stop index of their header is, and
  write it when they are destroyed.
\<close>

section \<open>Qualifiers and indices\<close>

type_synonym GroupVariationID = "uint8 \<times> uint8"

datatype QualifierCode = UINT8_START_STOP | UINT16_START_STOP | ALL_OBJECTS | UINT8_CNT | UINT16_CNT
  | UINT8_CNT_UINT8_INDEX | UINT16_CNT_UINT16_INDEX | UINT16_FREE_FORMAT | QC_UNDEFINED

fun QualifierCodeToType :: "QualifierCode \<Rightarrow> uint8" where
  "QualifierCodeToType UINT8_START_STOP = 0x0" | "QualifierCodeToType UINT16_START_STOP = 0x1"
| "QualifierCodeToType ALL_OBJECTS = 0x6" | "QualifierCodeToType UINT8_CNT = 0x7" | "QualifierCodeToType UINT16_CNT = 0x8"
| "QualifierCodeToType UINT8_CNT_UINT8_INDEX = 0x17" | "QualifierCodeToType UINT16_CNT_UINT16_INDEX = 0x28"
| "QualifierCodeToType UINT16_FREE_FORMAT = 0x5B" | "QualifierCodeToType QC_UNDEFINED = 0xFF"

definition QualifierCodeFromType :: "uint8 \<Rightarrow> QualifierCode" where
  "QualifierCodeFromType arg =
     (if arg = 0x0 then UINT8_START_STOP else if arg = 0x1 then UINT16_START_STOP
      else if arg = 0x6 then ALL_OBJECTS else if arg = 0x7 then UINT8_CNT else if arg = 0x8 then UINT16_CNT
      else if arg = 0x17 then UINT8_CNT_UINT8_INDEX else if arg = 0x28 then UINT16_CNT_UINT16_INDEX
      else if arg = 0x5B then UINT16_FREE_FORMAT else QC_UNDEFINED)"

lemma QualifierCode_roundtrip: "QualifierCodeFromType (QualifierCodeToType qc) = qc"
  by (cases qc) (simp_all add: QualifierCodeFromType_def)

text \<open>
  The template parameters \<^verbatim>\<open>IndexType\<close>, \<^verbatim>\<open>CountType\<close> and \<^verbatim>\<open>PrefixType\<close> are \<^verbatim>\<open>UInt8\<close> or \<^verbatim>\<open>UInt16\<close>.
\<close>

datatype IndexType = Index8 | Index16

fun index_size :: "IndexType \<Rightarrow> nat" where
  "index_size Index8 = 1" | "index_size Index16 = 2"

abbreviation index_mod :: "IndexType \<Rightarrow> nat" where
  "index_mod it \<equiv> 256 ^ index_size it"

fun index_bytes :: "IndexType \<Rightarrow> nat \<Rightarrow> bytes" where
  "index_bytes Index8 n = [word_of_nat n]"
| "index_bytes Index16 n = Bit16LE_Write (word_of_nat n)"

lemma length_index_bytes [simp]: "length (index_bytes it n) = index_size it"
  by (cases it) (simp_all add: Bit16LE_Write_def)

text \<open>A write at a remembered place of the buffer.\<close>

definition PokeAt :: "nat \<Rightarrow> bytes \<Rightarrow> WSlice \<Rightarrow> WSlice" where
  "PokeAt off bs w = w\<lparr>ws_buffer := overwrite (ws_buffer w) off bs\<rparr>"

section \<open>\<^verbatim>\<open>HeaderWriter\<close>\<close>

record HeaderWriter =
  hw_position :: WSlice
  hw_mark :: "nat option"

definition HeaderWriter_make :: "WSlice \<Rightarrow> HeaderWriter" where
  "HeaderWriter_make position = \<lparr>hw_position = position, hw_mark = None\<rparr>"

definition Remaining :: "HeaderWriter \<Rightarrow> nat" where
  "Remaining w = WSlice_Size (hw_position w)"

definition Mark :: "HeaderWriter \<Rightarrow> HeaderWriter" where
  "Mark w = w\<lparr>hw_mark := Some (ws_position (hw_position w))\<rparr>"

definition Rollback :: "HeaderWriter \<Rightarrow> HeaderWriter \<times> bool" where
  "Rollback w =
     (case hw_mark w of
        Some p \<Rightarrow> (w\<lparr>hw_position := (hw_position w)\<lparr>ws_position := p\<rparr>, hw_mark := None\<rparr>, True)
      | None \<Rightarrow> (w, False))"

definition WriteHeader :: "GroupVariationID \<Rightarrow> QualifierCode \<Rightarrow> HeaderWriter \<Rightarrow> HeaderWriter \<times> bool" where
  "WriteHeader gv qc w =
     (if WSlice_Size (hw_position w) < 3 then (w, False)
      else (w\<lparr>hw_position := WriteBuffer [QualifierCodeToType qc] (WriteBuffer [snd gv] (WriteBuffer [fst gv] (hw_position w)))\<rparr>, True))"

definition WriteHeaderWithReserve :: "GroupVariationID \<Rightarrow> QualifierCode \<Rightarrow> nat \<Rightarrow> HeaderWriter \<Rightarrow> HeaderWriter \<times> bool" where
  "WriteHeaderWithReserve gv qc reserve w =
     (if WSlice_Size (hw_position w) < 3 + reserve then (w, False) else WriteHeader gv qc w)"

definition WriteRangeHeader :: "IndexType \<Rightarrow> QualifierCode \<Rightarrow> GroupVariationID \<Rightarrow> nat \<Rightarrow> nat \<Rightarrow> HeaderWriter \<Rightarrow> HeaderWriter \<times> bool" where
  "WriteRangeHeader it qc gvId start stop w =
     (case WriteHeaderWithReserve gvId qc (2 * index_size it) w of (w, ok) \<Rightarrow>
        if ok then (w\<lparr>hw_position := WriteBuffer (index_bytes it stop) (WriteBuffer (index_bytes it start) (hw_position w))\<rparr>, True)
        else (w, False))"

definition WriteCountHeader :: "IndexType \<Rightarrow> QualifierCode \<Rightarrow> GroupVariationID \<Rightarrow> nat \<Rightarrow> HeaderWriter \<Rightarrow> HeaderWriter \<times> bool" where
  "WriteCountHeader it qc gvId cnt w =
     (case WriteHeaderWithReserve gvId qc (index_size it) w of (w, ok) \<Rightarrow>
        if ok then (w\<lparr>hw_position := WriteBuffer (index_bytes it cnt) (hw_position w)\<rparr>, True)
        else (w, False))"

text \<open>
  A serializer's \<^verbatim>\<open>Write\<close> on the writer's position, whose result the callers drop; \<open>None\<close> is the undefined conversion of a
  NaN.
\<close>

definition WriteObject :: "'m ObjectCodec \<Rightarrow> 'm \<Rightarrow> HeaderWriter \<Rightarrow> HeaderWriter option" where
  "WriteObject c value w = map_option (\<lambda>(p, ok). w\<lparr>hw_position := p\<rparr>) (WriteTarget c value (hw_position w))"

definition WriteSingleValue :: "IndexType \<Rightarrow> QualifierCode \<Rightarrow> 'm ObjectCodec \<Rightarrow> 'm \<Rightarrow> HeaderWriter \<Rightarrow> (HeaderWriter \<times> bool) option" where
  "WriteSingleValue ct qc c value w =
     (case WriteHeaderWithReserve (oc_id c) qc (index_size ct + oc_size c) w of (w, ok) \<Rightarrow>
        if ok then map_option (\<lambda>w. (w, True)) (WriteObject c value (w\<lparr>hw_position := WriteBuffer (index_bytes ct 1) (hw_position w)\<rparr>))
        else Some (w, False))"

definition WriteSingleIndexedValue ::
  "IndexType \<Rightarrow> QualifierCode \<Rightarrow> 'm ObjectCodec \<Rightarrow> 'm \<Rightarrow> nat \<Rightarrow> HeaderWriter \<Rightarrow> (HeaderWriter \<times> bool) option" where
  "WriteSingleIndexedValue ct qc c value index w =
     (case WriteHeaderWithReserve (oc_id c) qc (2 * index_size ct + oc_size c) w of (w, ok) \<Rightarrow>
        if ok
        then map_option (\<lambda>w. (w, True))
          (WriteObject c value (w\<lparr>hw_position := WriteBuffer (index_bytes ct index) (WriteBuffer (index_bytes ct 1) (hw_position w))\<rparr>))
        else Some (w, False))"

section \<open>\<^verbatim>\<open>RangeWriteIterator\<close>\<close>

record 'm RangeWriteIterator =
  rw_type :: IndexType
  rw_start :: nat
  rw_serializer :: "'m ObjectCodec"
  rw_count :: nat
  rw_isValid :: bool
  rw_range :: nat

definition RangeWriteIterator_make :: "IndexType \<Rightarrow> nat \<Rightarrow> 'm ObjectCodec \<Rightarrow> HeaderWriter \<Rightarrow> 'm RangeWriteIterator \<times> HeaderWriter" where
  "RangeWriteIterator_make it start c w =
     (let p = hw_position w;
          i = \<lparr>rw_type = it, rw_start = start, rw_serializer = c, rw_count = 0,
               rw_isValid = (WSlice_Size p \<ge> 2 * index_size it), rw_range = ws_position p\<rparr>
      in if rw_isValid i
         then (i\<lparr>rw_range := rw_range i + index_size it\<rparr>,
               w\<lparr>hw_position := WSlice_Advance (2 * index_size it) (PokeAt (ws_position p) (index_bytes it start) p)\<rparr>)
         else (i, w))"

definition RangeWriteIterator_Null :: "IndexType \<Rightarrow> 'm ObjectCodec \<Rightarrow> 'm RangeWriteIterator" where
  "RangeWriteIterator_Null it c =
     \<lparr>rw_type = it, rw_start = 0, rw_serializer = c, rw_count = 0, rw_isValid = False, rw_range = 0\<rparr>"

text \<open>The count has the type of an index: it wraps around.\<close>

definition RangeWriteIterator_Write :: "'m \<Rightarrow> 'm RangeWriteIterator \<Rightarrow> HeaderWriter \<Rightarrow> ('m RangeWriteIterator \<times> HeaderWriter \<times> bool) option" where
  "RangeWriteIterator_Write value i w =
     (if rw_isValid i \<and> WSlice_Size (hw_position w) \<ge> oc_size (rw_serializer i)
      then map_option (\<lambda>w. (i\<lparr>rw_count := (rw_count i + 1) mod index_mod (rw_type i)\<rparr>, w, True)) (WriteObject (rw_serializer i) value w)
      else Some (i, w, False))"

definition RangeWriteIterator_destroy :: "'m RangeWriteIterator \<Rightarrow> HeaderWriter \<Rightarrow> HeaderWriter" where
  "RangeWriteIterator_destroy i w =
     (if rw_isValid i \<and> rw_count i > 0
      then w\<lparr>hw_position := PokeAt (rw_range i) (index_bytes (rw_type i) (rw_start i + rw_count i - 1)) (hw_position w)\<rparr>
      else w)"

definition IterateOverRange ::
  "IndexType \<Rightarrow> QualifierCode \<Rightarrow> 'm ObjectCodec \<Rightarrow> nat \<Rightarrow> HeaderWriter \<Rightarrow> 'm RangeWriteIterator \<times> HeaderWriter" where
  "IterateOverRange it qc c start w =
     (case WriteHeaderWithReserve (oc_id c) qc (2 * index_size it + oc_size c) w of (w, ok) \<Rightarrow>
        if ok then RangeWriteIterator_make it start c w else (RangeWriteIterator_Null it c, w))"

section \<open>\<^verbatim>\<open>CountWriteIterator\<close>\<close>

record 'm CountWriteIterator =
  cw_type :: IndexType
  cw_count :: nat
  cw_serializer :: "'m ObjectCodec"
  cw_isValid :: bool
  cw_countPosition :: nat

definition CountWriteIterator_make :: "IndexType \<Rightarrow> 'm ObjectCodec \<Rightarrow> HeaderWriter \<Rightarrow> 'm CountWriteIterator \<times> HeaderWriter" where
  "CountWriteIterator_make ct c w =
     (let p = hw_position w;
          i = \<lparr>cw_type = ct, cw_count = 0, cw_serializer = c, cw_isValid = (WSlice_Size p \<ge> index_size ct),
               cw_countPosition = ws_position p\<rparr>
      in if cw_isValid i then (i, w\<lparr>hw_position := WSlice_Advance (index_size ct) p\<rparr>) else (i, w))"

definition CountWriteIterator_Null :: "IndexType \<Rightarrow> 'm ObjectCodec \<Rightarrow> 'm CountWriteIterator" where
  "CountWriteIterator_Null ct c =
     \<lparr>cw_type = ct, cw_count = 0, cw_serializer = c, cw_isValid = False, cw_countPosition = 0\<rparr>"

definition CountWriteIterator_Write :: "'m \<Rightarrow> 'm CountWriteIterator \<Rightarrow> HeaderWriter \<Rightarrow> ('m CountWriteIterator \<times> HeaderWriter \<times> bool) option" where
  "CountWriteIterator_Write value i w =
     (if cw_isValid i \<and> oc_size (cw_serializer i) \<le> WSlice_Size (hw_position w)
      then map_option (\<lambda>w. (i\<lparr>cw_count := (cw_count i + 1) mod index_mod (cw_type i)\<rparr>, w, True)) (WriteObject (cw_serializer i) value w)
      else Some (i, w, False))"

definition CountWriteIterator_destroy :: "'m CountWriteIterator \<Rightarrow> HeaderWriter \<Rightarrow> HeaderWriter" where
  "CountWriteIterator_destroy i w =
     (if cw_isValid i
      then w\<lparr>hw_position := PokeAt (cw_countPosition i) (index_bytes (cw_type i) (cw_count i)) (hw_position w)\<rparr> else w)"

definition IterateOverCount :: "IndexType \<Rightarrow> QualifierCode \<Rightarrow> 'm ObjectCodec \<Rightarrow> HeaderWriter \<Rightarrow> 'm CountWriteIterator \<times> HeaderWriter" where
  "IterateOverCount ct qc c w =
     (case WriteHeaderWithReserve (oc_id c) qc (index_size ct + oc_size c) w of (w, ok) \<Rightarrow>
        if ok then CountWriteIterator_make ct c w else (CountWriteIterator_Null ct c, w))"

section \<open>\<^verbatim>\<open>BitfieldRangeWriteIterator\<close>\<close>

record BitfieldRangeWriteIterator =
  bw_type :: IndexType
  bw_start :: nat
  bw_count :: nat
  bw_maxCount :: nat
  bw_isValid :: bool
  bw_range :: nat

definition BitfieldRangeWriteIterator_make :: "IndexType \<Rightarrow> nat \<Rightarrow> HeaderWriter \<Rightarrow> BitfieldRangeWriteIterator \<times> HeaderWriter" where
  "BitfieldRangeWriteIterator_make it start w =
     (let p = hw_position w;
          i = \<lparr>bw_type = it, bw_start = start, bw_count = 0, bw_maxCount = 0,
               bw_isValid = (WSlice_Size p \<ge> 2 * index_size it), bw_range = ws_position p\<rparr>
      in if bw_isValid i
         then let p' = WSlice_Advance (2 * index_size it) (PokeAt (ws_position p) (index_bytes it start) p)
              in (i\<lparr>bw_range := bw_range i + index_size it, bw_maxCount := WSlice_Size p' * 8\<rparr>, w\<lparr>hw_position := p'\<rparr>)
         else (i, w))"

definition BitfieldRangeWriteIterator_Null :: "IndexType \<Rightarrow> BitfieldRangeWriteIterator" where
  "BitfieldRangeWriteIterator_Null it =
     \<lparr>bw_type = it, bw_start = 0, bw_count = 0, bw_maxCount = 0, bw_isValid = False, bw_range = 0\<rparr>"

definition BitfieldRangeWriteIterator_Write ::
  "bool \<Rightarrow> BitfieldRangeWriteIterator \<Rightarrow> HeaderWriter \<Rightarrow> BitfieldRangeWriteIterator \<times> HeaderWriter \<times> bool" where
  "BitfieldRangeWriteIterator_Write value i w =
     (if bw_isValid i \<and> bw_count i < bw_maxCount i
      then let p = hw_position w;
               off = ws_position p + bw_count i div 8;
               b = bw_count i mod 8;
               p = (if b = 0 then PokeAt off [0] p else p);
               p = (if value then PokeAt off [ws_buffer p ! off OR 2 ^ b] p else p)
           in (i\<lparr>bw_count := (bw_count i + 1) mod index_mod (bw_type i)\<rparr>, w\<lparr>hw_position := p\<rparr>, True)
      else (i, w, False))"

definition BitfieldRangeWriteIterator_destroy :: "BitfieldRangeWriteIterator \<Rightarrow> HeaderWriter \<Rightarrow> HeaderWriter" where
  "BitfieldRangeWriteIterator_destroy i w =
     (if bw_isValid i \<and> bw_count i > 0
      then let p = PokeAt (bw_range i) (index_bytes (bw_type i) (bw_start i + bw_count i - 1)) (hw_position w);
               num = bw_count i div 8;
               num = (if bw_count i mod 8 > 0 then num + 1 else num)
           in w\<lparr>hw_position := WSlice_Advance num p\<rparr>
      else w)"

definition IterateOverSingleBitfield ::
  "IndexType \<Rightarrow> GroupVariationID \<Rightarrow> QualifierCode \<Rightarrow> nat \<Rightarrow> HeaderWriter \<Rightarrow> BitfieldRangeWriteIterator \<times> HeaderWriter" where
  "IterateOverSingleBitfield it gv qc start w =
     (case WriteHeaderWithReserve gv qc (2 * index_size it + 1) w of (w, ok) \<Rightarrow>
        if ok then BitfieldRangeWriteIterator_make it start w else (BitfieldRangeWriteIterator_Null it, w))"

section \<open>\<^verbatim>\<open>PrefixedWriteIterator\<close>\<close>

record 'm PrefixedWriteIterator =
  pw_type :: IndexType
  pw_serializer :: "'m ObjectCodec"
  pw_sizeOfTypePlusIndex :: nat
  pw_count :: nat
  pw_isValid :: bool
  pw_countPosition :: nat

definition PrefixedWriteIterator_make :: "IndexType \<Rightarrow> 'm ObjectCodec \<Rightarrow> HeaderWriter \<Rightarrow> 'm PrefixedWriteIterator \<times> HeaderWriter" where
  "PrefixedWriteIterator_make pt c w =
     (let p = hw_position w;
          i = \<lparr>pw_type = pt, pw_serializer = c, pw_sizeOfTypePlusIndex = oc_size c + index_size pt, pw_count = 0,
               pw_isValid = (WSlice_Size p \<ge> index_size pt), pw_countPosition = ws_position p\<rparr>
      in if pw_isValid i then (i, w\<lparr>hw_position := WSlice_Advance (index_size pt) p\<rparr>) else (i, w))"

definition PrefixedWriteIterator_Null :: "IndexType \<Rightarrow> 'm ObjectCodec \<Rightarrow> 'm PrefixedWriteIterator" where
  "PrefixedWriteIterator_Null pt c =
     \<lparr>pw_type = pt, pw_serializer = c, pw_sizeOfTypePlusIndex = 0, pw_count = 0, pw_isValid = False, pw_countPosition = 0\<rparr>"

definition PrefixedWriteIterator_Write ::
  "'m \<Rightarrow> nat \<Rightarrow> 'm PrefixedWriteIterator \<Rightarrow> HeaderWriter \<Rightarrow> ('m PrefixedWriteIterator \<times> HeaderWriter \<times> bool) option" where
  "PrefixedWriteIterator_Write value index i w =
     (if pw_isValid i \<and> WSlice_Size (hw_position w) \<ge> pw_sizeOfTypePlusIndex i
      then map_option (\<lambda>w. (i\<lparr>pw_count := (pw_count i + 1) mod index_mod (pw_type i)\<rparr>, w, True))
        (WriteObject (pw_serializer i) value (w\<lparr>hw_position := WriteBuffer (index_bytes (pw_type i) index) (hw_position w)\<rparr>))
      else Some (i, w, False))"

definition PrefixedWriteIterator_destroy :: "'m PrefixedWriteIterator \<Rightarrow> HeaderWriter \<Rightarrow> HeaderWriter" where
  "PrefixedWriteIterator_destroy i w =
     (if pw_isValid i
      then w\<lparr>hw_position := PokeAt (pw_countPosition i) (index_bytes (pw_type i) (pw_count i)) (hw_position w)\<rparr> else w)"

definition IterateOverCountWithPrefix ::
  "IndexType \<Rightarrow> QualifierCode \<Rightarrow> 'm ObjectCodec \<Rightarrow> HeaderWriter \<Rightarrow> 'm PrefixedWriteIterator \<times> HeaderWriter" where
  "IterateOverCountWithPrefix pt qc c w =
     (case WriteHeaderWithReserve (oc_id c) qc (2 * index_size pt + oc_size c) w of (w, ok) \<Rightarrow>
        if ok then PrefixedWriteIterator_make pt c w else (PrefixedWriteIterator_Null pt c, w))"

definition IterateOverCountWithPrefixAndCTO ::
  "IndexType \<Rightarrow> QualifierCode \<Rightarrow> 'm ObjectCodec \<Rightarrow> 'c ObjectCodec \<Rightarrow> 'c \<Rightarrow> HeaderWriter
    \<Rightarrow> ('m PrefixedWriteIterator \<times> HeaderWriter) option" where
  "IterateOverCountWithPrefixAndCTO pt qc c ctoType cto w =
     (case WriteSingleValue Index8 UINT8_CNT ctoType cto (Mark w) of
        None \<Rightarrow> None
      | Some (w, ok) \<Rightarrow> Some (
          if ok
          then case IterateOverCountWithPrefix pt qc c w of (iter, w) \<Rightarrow>
            if \<not> pw_isValid iter then (iter, fst (Rollback w)) else (iter, w)
          else (PrefixedWriteIterator_Null pt c, w)))"

section \<open>Objects that are only a time\<close>

fun time48 :: "Field list \<Rightarrow> uint64" where
  "time48 [FU48 t] = t"
| "time48 _ = 0"

fun time16 :: "Field list \<Rightarrow> uint16" where
  "time16 [FU16 t] = t"
| "time16 _ = 0"

definition Group50Var1 :: "uint64 ObjectCodec" where
  "Group50Var1 = \<lparr>oc_id = (50, 1), oc_size = 6, oc_fields = [U48], oc_convert = (\<lambda>t. Some [FU48 t]), oc_factory = time48\<rparr>"

definition Group51Var1 :: "uint64 ObjectCodec" where
  "Group51Var1 = \<lparr>oc_id = (51, 1), oc_size = 6, oc_fields = [U48], oc_convert = (\<lambda>t. Some [FU48 t]), oc_factory = time48\<rparr>"

definition Group51Var2 :: "uint64 ObjectCodec" where
  "Group51Var2 = \<lparr>oc_id = (51, 2), oc_size = 6, oc_fields = [U48], oc_convert = (\<lambda>t. Some [FU48 t]), oc_factory = time48\<rparr>"

definition Group52Var1 :: "uint16 ObjectCodec" where
  "Group52Var1 = \<lparr>oc_id = (52, 1), oc_size = 2, oc_fields = [U16], oc_convert = (\<lambda>t. Some [FU16 t]), oc_factory = time16\<rparr>"

definition Group52Var2 :: "uint16 ObjectCodec" where
  "Group52Var2 = \<lparr>oc_id = (52, 2), oc_size = 2, oc_fields = [U16], oc_convert = (\<lambda>t. Some [FU16 t]), oc_factory = time16\<rparr>"

record TimeAndInterval =
  ti_time :: uint64
  ti_interval :: uint32
  ti_units :: uint8

fun TimeAndIntervalFactory :: "Field list \<Rightarrow> TimeAndInterval" where
  "TimeAndIntervalFactory [FU48 t, FU32 i, FU8 u] = \<lparr>ti_time = t, ti_interval = i, ti_units = u\<rparr>"
| "TimeAndIntervalFactory _ = \<lparr>ti_time = 0, ti_interval = 0, ti_units = 0\<rparr>"

definition Group50Var4 :: "TimeAndInterval ObjectCodec" where
  "Group50Var4 = \<lparr>oc_id = (50, 4), oc_size = 11, oc_fields = [U48, U32, U8],
     oc_convert = (\<lambda>v. Some [FU48 (ti_time v), FU32 (ti_interval v), FU8 (ti_units v)]), oc_factory = TimeAndIntervalFactory\<rparr>"

section \<open>What the writer writes\<close>

definition hw_ok :: "HeaderWriter \<Rightarrow> bool" where
  "hw_ok w \<longleftrightarrow> ws_ok (hw_position w)"

abbreviation written :: "HeaderWriter \<Rightarrow> bytes" where
  "written w \<equiv> ws_written (hw_position w)"

text \<open>\<open>wrote bs w w'\<close>: from \<open>w\<close> to \<open>w'\<close> exactly \<open>bs\<close> was appended, in the same buffer.\<close>

definition wrote :: "bytes \<Rightarrow> WSlice \<Rightarrow> WSlice \<Rightarrow> bool" where
  "wrote bs w w' \<longleftrightarrow> ws_ok w \<and> ws_ok w' \<and> ws_written w' = ws_written w @ bs \<and> length (ws_buffer w') = length (ws_buffer w)"

lemma wrote_refl: "ws_ok w \<Longrightarrow> wrote [] w w"
  by (simp add: wrote_def)

lemma wrote_trans: "wrote bs u v \<Longrightarrow> wrote cs v w \<Longrightarrow> wrote (bs @ cs) u w"
  by (simp add: wrote_def)

lemma wrote_WriteBuffer: "ws_ok w \<Longrightarrow> length bs \<le> WSlice_Size w \<Longrightarrow> wrote bs w (WriteBuffer bs w)"
  by (simp add: wrote_def WriteBuffer_simps)

lemma length_ws_written: "ws_ok w \<Longrightarrow> length (ws_written w) = ws_position w"
  by (simp add: ws_ok_def ws_written_def)

lemma wrote_position: "wrote bs w w' \<Longrightarrow> ws_position w' = ws_position w + length bs"
  using length_ws_written[of w] length_ws_written[of w'] by (simp add: wrote_def)

lemma wrote_Size: "wrote bs w w' \<Longrightarrow> WSlice_Size w' = WSlice_Size w - length bs \<and> length bs \<le> WSlice_Size w"
  using wrote_position[of bs w w'] by (auto simp: wrote_def WSlice_Size_def ws_ok_def)

lemma WriteHeaderWithReserve_wrote:
  assumes "hw_ok w" "WriteHeaderWithReserve gv qc reserve w = (w', True)"
  shows "wrote [fst gv, snd gv, QualifierCodeToType qc] (hw_position w) (hw_position w')" "hw_mark w' = hw_mark w"
    "reserve \<le> WSlice_Size (hw_position w')"
proof -
  from assms have room: "3 + reserve \<le> WSlice_Size (hw_position w)"
    and w': "w' = w\<lparr>hw_position := WriteBuffer [QualifierCodeToType qc] (WriteBuffer [snd gv] (WriteBuffer [fst gv] (hw_position w)))\<rparr>"
    by (auto simp: WriteHeaderWithReserve_def WriteHeader_def split: if_splits)
  let ?a = "WriteBuffer [fst gv] (hw_position w)" and ?b = "WriteBuffer [snd gv] (WriteBuffer [fst gv] (hw_position w))"
  have a: "wrote [fst gv] (hw_position w) ?a" using assms(1) room by (intro wrote_WriteBuffer) (simp_all add: hw_ok_def)
  have b: "wrote [snd gv] ?a ?b" using a room wrote_Size[OF a] by (intro wrote_WriteBuffer) (simp_all add: wrote_def)
  have "wrote [QualifierCodeToType qc] ?b (WriteBuffer [QualifierCodeToType qc] ?b)"
    using b room wrote_Size[OF a] wrote_Size[OF b] by (intro wrote_WriteBuffer) (simp_all add: wrote_def)
  then have c: "wrote [QualifierCodeToType qc] ?b (hw_position w')" by (simp add: w')
  show "wrote [fst gv, snd gv, QualifierCodeToType qc] (hw_position w) (hw_position w')"
    using wrote_trans[OF wrote_trans[OF a b] c] by simp
  from wrote_Size[OF this] room show "reserve \<le> WSlice_Size (hw_position w')" by simp
  show "hw_mark w' = hw_mark w" by (simp add: w')
qed

lemma word_of_nat_mod_65536: "(word_of_nat (n mod 65536) :: uint16) = word_of_nat n"
  by (rule word_unat_eq_iff[THEN iffD2]) (simp add: unsigned_of_nat take_bit_eq_mod)

lemma length_Bit16LE_Write [simp]: "length (Bit16LE_Write v) = 2"
  by (simp add: Bit16LE_Write_def)

text \<open>Objects behind a prefix: each is an index and the fields of an object.\<close>

type_synonym item = "nat \<times> Field list"

definition item_bytes :: "item \<Rightarrow> bytes" where
  "item_bytes it = index_bytes Index16 (fst it) @ fields_bytes (snd it)"

definition header_start :: "'m ObjectCodec \<Rightarrow> bytes" where
  "header_start c = [fst (oc_id c), snd (oc_id c), QualifierCodeToType UINT16_CNT_UINT16_INDEX]"

definition prefixed_bytes :: "'m ObjectCodec \<Rightarrow> item list \<Rightarrow> bytes" where
  "prefixed_bytes c items = header_start c @ index_bytes Index16 (length items) @ concat (map item_bytes items)"

text \<open>
  The state of an iterator between its construction and its destruction: after \<open>pre\<close>, what comes of the header is there
  but for the two bytes of the count.
\<close>

definition pw_state :: "'m ObjectCodec \<Rightarrow> WSlice \<Rightarrow> bytes \<Rightarrow> item list \<Rightarrow> 'm PrefixedWriteIterator \<Rightarrow> HeaderWriter \<Rightarrow> bool" where
  "pw_state c p0 pre items i w \<longleftrightarrow> pw_type i = Index16 \<and> pw_serializer i = c \<and> pw_sizeOfTypePlusIndex i = oc_size c + 2
     \<and> pw_isValid i \<and> pw_count i = length items mod 65536 \<and> pw_countPosition i = ws_position p0 + length pre + 3
     \<and> (\<exists>x. length x = 2 \<and> wrote (pre @ header_start c @ x @ concat (map item_bytes items)) p0 (hw_position w))"

lemma wrote_Advance:
  assumes "ws_ok p" "n \<le> WSlice_Size p"
  shows "\<exists>x. length x = n \<and> wrote x p (WSlice_Advance n p)"
proof (intro exI conjI)
  let ?x = "take n (drop (ws_position p) (ws_buffer p))"
  show "length ?x = n" using assms by (simp add: WSlice_Size_def)
  show "wrote ?x p (WSlice_Advance n p)"
    using assms by (auto simp: wrote_def WSlice_Advance_def WSlice_Size_def ws_ok_def ws_written_def take_add)
qed

lemma IterateOverCountWithPrefix_state:
  assumes ok: "hw_ok w" and pre: "wrote pre p0 (hw_position w)"
  shows "case IterateOverCountWithPrefix Index16 UINT16_CNT_UINT16_INDEX c w of (i, w') \<Rightarrow> hw_mark w' = hw_mark w \<and>
    (if WSlice_Size (hw_position w) < 7 + oc_size c then \<not> pw_isValid i \<and> w' = w
     else pw_state c p0 pre [] i w' \<and> WSlice_Size (hw_position w') + 5 = WSlice_Size (hw_position w))"
proof (cases "WSlice_Size (hw_position w) < 7 + oc_size c")
  case True
  then show ?thesis
    by (simp add: IterateOverCountWithPrefix_def WriteHeaderWithReserve_def PrefixedWriteIterator_Null_def)
next
  case False
  then obtain w1 where w1: "WriteHeaderWithReserve (oc_id c) UINT16_CNT_UINT16_INDEX (4 + oc_size c) w = (w1, True)"
    by (auto simp: WriteHeaderWithReserve_def WriteHeader_def)
  note h = WriteHeaderWithReserve_wrote[OF ok w1]
  have size: "WSlice_Size (hw_position w1) = WSlice_Size (hw_position w) - 3" using wrote_Size[OF h(1)] by simp
  have ok1: "ws_ok (hw_position w1)" using h(1) by (simp add: wrote_def)
  have room: "2 \<le> WSlice_Size (hw_position w1)" using h(3) by simp
  obtain x where x: "length x = 2" "wrote x (hw_position w1) (WSlice_Advance 2 (hw_position w1))"
    using wrote_Advance[OF ok1 room] by blast
  have all: "wrote (pre @ header_start c @ x) p0 (WSlice_Advance 2 (hw_position w1))"
    using wrote_trans[OF wrote_trans[OF pre h(1)] x(2)] by (simp add: header_start_def)
  have pos: "ws_position (hw_position w1) = ws_position p0 + length pre + 3"
    using wrote_position[OF h(1)] wrote_position[OF pre] by simp
  have iter: "IterateOverCountWithPrefix Index16 UINT16_CNT_UINT16_INDEX c w = PrefixedWriteIterator_make Index16 c w1"
    using w1 by (simp add: IterateOverCountWithPrefix_def)
  show ?thesis
    unfolding iter using False room all pos size h(2) wrote_Size[OF x(2)] x(1)
    by (auto simp: PrefixedWriteIterator_make_def Let_def pw_state_def)
qed

lemma WriteObject_wrote:
  assumes c: "oc_convert c v = Some fs" "fields_size (map field_type fs) = oc_size c" and ok: "ws_ok (hw_position w)" and room: "oc_size c \<le> WSlice_Size (hw_position w)"
  shows "\<exists>w'. WriteObject c v w = Some w' \<and> wrote (fields_bytes fs) (hw_position w) (hw_position w') \<and> hw_mark w' = hw_mark w"
proof -
  have size: "fields_size (map field_type fs) \<le> WSlice_Size (hw_position w)" using room c(2) by simp
  then have "Format_Many fs (hw_position w) = (WriteBuffer (fields_bytes fs) (hw_position w), True)"
    by (rule Format_Many_room[OF ok])
  moreover have "wrote (fields_bytes fs) (hw_position w) (WriteBuffer (fields_bytes fs) (hw_position w))"
    using size by (intro wrote_WriteBuffer ok) simp
  ultimately show ?thesis using c(1) by (simp add: WriteObject_def WriteTarget_def)
qed

lemma PrefixedWriteIterator_Write_state:
  assumes st: "pw_state c p0 pre items i w" and c: "oc_convert c v = Some fs" "fields_size (map field_type fs) = oc_size c"
  shows "if WSlice_Size (hw_position w) < oc_size c + 2 then PrefixedWriteIterator_Write v idx i w = Some (i, w, False)
    else \<exists>i' w'. PrefixedWriteIterator_Write v idx i w = Some (i', w', True) \<and> pw_state c p0 pre (items @ [(idx, fs)]) i' w'
      \<and> hw_mark w' = hw_mark w \<and> WSlice_Size (hw_position w') + oc_size c + 2 = WSlice_Size (hw_position w)"
proof (cases "WSlice_Size (hw_position w) < oc_size c + 2")
  case True
  with st show ?thesis by (simp add: PrefixedWriteIterator_Write_def pw_state_def)
next
  case False
  from st obtain x where x: "length x = 2" "wrote (pre @ header_start c @ x @ concat (map item_bytes items)) p0 (hw_position w)"
    by (auto simp: pw_state_def)
  let ?p = "WriteBuffer (index_bytes Index16 idx) (hw_position w)"
  have ok: "ws_ok (hw_position w)" using x(2) by (simp add: wrote_def)
  have p: "wrote (index_bytes Index16 idx) (hw_position w) ?p"
    using False by (intro wrote_WriteBuffer ok) simp
  have okp: "ws_ok ?p" using p by (simp add: wrote_def)
  have "oc_size c \<le> WSlice_Size ?p" using wrote_Size[OF p] False by simp
  then obtain w' where w': "WriteObject c v (w\<lparr>hw_position := ?p\<rparr>) = Some w'" "wrote (fields_bytes fs) ?p (hw_position w')" "hw_mark w' = hw_mark w"
    using WriteObject_wrote[OF c, of "w\<lparr>hw_position := ?p\<rparr>"] okp by auto
  have "wrote (pre @ header_start c @ x @ concat (map item_bytes (items @ [(idx, fs)]))) p0 (hw_position w')"
    using wrote_trans[OF x(2) wrote_trans[OF p w'(2)]] by (simp add: item_bytes_def)
  moreover have "WSlice_Size (hw_position w') + oc_size c + 2 = WSlice_Size (hw_position w)"
    using wrote_Size[OF p] wrote_Size[OF w'(2)] False c(2) by simp
  ultimately show ?thesis
    using st x(1) w'(1,3) False
    by (auto simp: PrefixedWriteIterator_Write_def pw_state_def mod_Suc_eq intro!: exI[of _ x])
qed

lemma PrefixedWriteIterator_destroy_state:
  assumes st: "pw_state c p0 pre items i w"
  shows "wrote (pre @ prefixed_bytes c items) p0 (hw_position (PrefixedWriteIterator_destroy i w))"
    "hw_mark (PrefixedWriteIterator_destroy i w) = hw_mark w"
    "WSlice_Size (hw_position (PrefixedWriteIterator_destroy i w)) = WSlice_Size (hw_position w)"
proof -
  from st obtain x where x: "length x = 2" "wrote (pre @ header_start c @ x @ concat (map item_bytes items)) p0 (hw_position w)"
    and i: "pw_type i = Index16" "pw_isValid i" "pw_count i = length items mod 65536" "pw_countPosition i = ws_position p0 + length pre + 3"
    by (auto simp: pw_state_def)
  define off where "off = ws_position p0 + length pre + 3"
  define bs where "bs = index_bytes Index16 (pw_count i)"
  have bs: "bs = index_bytes Index16 (length items)" "length bs = 2"
    by (simp_all add: bs_def i(3) word_of_nat_mod_65536)
  define p where "p = hw_position w"
  let ?tail = "concat (map item_bytes items)"
  let ?A = "ws_written p0 @ pre @ header_start c"
  have A: "length ?A = off" using x(2) by (simp add: off_def header_start_def wrote_def length_ws_written)
  have w: "take (ws_position p) (ws_buffer p) = ?A @ x @ ?tail" "ws_ok p" "length (ws_buffer p) = length (ws_buffer p0)" "ws_ok p0"
    using x(2) by (simp_all add: p_def wrote_def ws_written_def)
  have pos: "ws_position p = off + 2 + length ?tail"
    using wrote_position[OF x(2)] x(1) by (simp add: p_def off_def header_start_def)
  have buf: "ws_buffer p = ?A @ x @ ?tail @ drop (ws_position p) (ws_buffer p)"
    using w(1) append_take_drop_id[of "ws_position p" "ws_buffer p"] by simp
  have over: "overwrite (ws_buffer p) off bs = ?A @ bs @ ?tail @ drop (ws_position p) (ws_buffer p)"
    by (subst buf, use A x(1) bs(2) in \<open>simp add: overwrite_def\<close>)
  then have "take (ws_position p) (overwrite (ws_buffer p) off bs) = ?A @ bs @ ?tail"
    using A bs(2) pos by simp
  moreover have "length (overwrite (ws_buffer p) off bs) = length (ws_buffer p)"
    using pos w(2) bs(2) by (intro length_overwrite) (simp add: ws_ok_def)
  ultimately show "wrote (pre @ prefixed_bytes c items) p0 (hw_position (PrefixedWriteIterator_destroy i w))"
    "hw_mark (PrefixedWriteIterator_destroy i w) = hw_mark w"
    "WSlice_Size (hw_position (PrefixedWriteIterator_destroy i w)) = WSlice_Size (hw_position w)"
    using i w(2-4) bs(1)
    by (simp_all add: PrefixedWriteIterator_destroy_def PokeAt_def prefixed_bytes_def wrote_def ws_ok_def ws_written_def WSlice_Size_def
        word_of_nat_mod_65536 flip: bs_def off_def p_def)
qed

text \<open>A common time of occurrence, and the header of relative times after it; without room for both, neither is written.\<close>

definition cto_bytes :: "uint64 \<Rightarrow> bytes" where
  "cto_bytes t = [51, 1, 0x07, 1] @ UInt48LE_Write t"

lemma length_UInt48LE_Write [simp]: "length (UInt48LE_Write v) = 6"
  by (simp add: UInt48LE_Write_def Let_def)

lemma Group51Var1_ok: "oc_convert Group51Var1 t = Some [FU48 t]" "fields_size (map field_type [FU48 t]) = oc_size Group51Var1" "oc_size Group51Var1 = 6" "oc_id Group51Var1 = (51, 1)"
  by (simp_all add: Group51Var1_def)

lemma WriteSingleValue_wrote:
  assumes ok: "hw_ok w" and c: "oc_convert c v = Some fs" "fields_size (map field_type fs) = oc_size c"
  shows "\<exists>w'. WriteSingleValue ct qc c v w = Some (w', 3 + (index_size ct + oc_size c) \<le> WSlice_Size (hw_position w))
    \<and> hw_mark w' = hw_mark w
    \<and> (if 3 + (index_size ct + oc_size c) \<le> WSlice_Size (hw_position w)
       then wrote ([fst (oc_id c), snd (oc_id c), QualifierCodeToType qc] @ index_bytes ct 1 @ fields_bytes fs) (hw_position w) (hw_position w')
     else w' = w)"
proof (cases "3 + (index_size ct + oc_size c) \<le> WSlice_Size (hw_position w)")
  case False
  then have "WriteHeaderWithReserve (oc_id c) qc (index_size ct + oc_size c) w = (w, False)" by (simp add: WriteHeaderWithReserve_def)
  then show ?thesis using False by (simp add: WriteSingleValue_def)
next
  case True
  then obtain w1 where w1: "WriteHeaderWithReserve (oc_id c) qc (index_size ct + oc_size c) w = (w1, True)"
    by (auto simp: WriteHeaderWithReserve_def WriteHeader_def)
  note h = WriteHeaderWithReserve_wrote[OF ok w1]
  have ok1: "ws_ok (hw_position w1)" using h(1) by (simp add: wrote_def)
  let ?p = "WriteBuffer (index_bytes ct 1) (hw_position w1)"
  have p: "wrote (index_bytes ct 1) (hw_position w1) ?p" using h(3) by (intro wrote_WriteBuffer ok1) simp
  have "ws_ok ?p" "oc_size c \<le> WSlice_Size ?p" using p h(3) wrote_Size[OF p] by (simp_all add: wrote_def)
  then obtain w' where w': "WriteObject c v (w1\<lparr>hw_position := ?p\<rparr>) = Some w'" "wrote (fields_bytes fs) ?p (hw_position w')" "hw_mark w' = hw_mark w1"
    using WriteObject_wrote[OF c, of "w1\<lparr>hw_position := ?p\<rparr>"] by auto
  have "wrote ([fst (oc_id c), snd (oc_id c), QualifierCodeToType qc] @ index_bytes ct 1 @ fields_bytes fs) (hw_position w) (hw_position w')"
    using wrote_trans[OF h(1) wrote_trans[OF p w'(2)]] by simp
  then show ?thesis using True w1 w'(1,3) h(2) by (simp add: WriteSingleValue_def)
qed

lemma IterateOverCountWithPrefixAndCTO_state:
  assumes ok: "hw_ok w"
  shows "\<exists>i w'. IterateOverCountWithPrefixAndCTO Index16 UINT16_CNT_UINT16_INDEX c Group51Var1 t w = Some (i, w') \<and>
    (if WSlice_Size (hw_position w) < 17 + oc_size c then \<not> pw_isValid i \<and> wrote [] (hw_position w) (hw_position w')
     else pw_state c (hw_position w) (cto_bytes t) [] i w' \<and> WSlice_Size (hw_position w') + 15 = WSlice_Size (hw_position w))"
proof -
  let ?p0 = "hw_position w"
  have okm: "hw_ok (Mark w)" "hw_position (Mark w) = ?p0" "hw_mark (Mark w) = Some (ws_position ?p0)"
    using ok by (simp_all add: Mark_def hw_ok_def)
  have bytes: "[fst (oc_id Group51Var1), snd (oc_id Group51Var1), QualifierCodeToType UINT8_CNT] @ index_bytes Index8 1 @ fields_bytes [FU48 t]
      = cto_bytes t" by (simp add: Group51Var1_ok(4) cto_bytes_def)
  obtain w1 where w1: "WriteSingleValue Index8 UINT8_CNT Group51Var1 t (Mark w) = Some (w1, 10 \<le> WSlice_Size ?p0)"
    "hw_mark w1 = Some (ws_position ?p0)"
    "if 10 \<le> WSlice_Size ?p0 then wrote (cto_bytes t) ?p0 (hw_position w1) else w1 = Mark w"
    using WriteSingleValue_wrote[OF okm(1) Group51Var1_ok(1,2)[of t], of Index8 UINT8_CNT, unfolded bytes okm(2,3)]
    by (auto simp: Group51Var1_ok(3))
  show ?thesis
  proof (cases "10 \<le> WSlice_Size ?p0")
    case False
    then show ?thesis using w1 ok okm
      by (auto simp: IterateOverCountWithPrefixAndCTO_def PrefixedWriteIterator_Null_def hw_ok_def wrote_refl)
  next
    case True
    then have cto: "wrote (cto_bytes t) ?p0 (hw_position w1)" using w1(3) by simp
    have size: "WSlice_Size (hw_position w1) + 10 = WSlice_Size ?p0" using wrote_Size[OF cto] by (simp add: cto_bytes_def)
    have ok1: "hw_ok w1" using cto by (simp add: wrote_def hw_ok_def)
    obtain i w2 where w2: "IterateOverCountWithPrefix Index16 UINT16_CNT_UINT16_INDEX c w1 = (i, w2)" "hw_mark w2 = hw_mark w1"
      "if WSlice_Size (hw_position w1) < 7 + oc_size c then \<not> pw_isValid i \<and> w2 = w1
       else pw_state c ?p0 (cto_bytes t) [] i w2 \<and> WSlice_Size (hw_position w2) + 5 = WSlice_Size (hw_position w1)"
      using IterateOverCountWithPrefix_state[OF ok1 cto, of c] by (auto split: prod.splits if_splits)
    show ?thesis
    proof (cases "WSlice_Size (hw_position w1) < 7 + oc_size c")
      case short: True
      have "wrote [] ?p0 ((hw_position w1)\<lparr>ws_position := ws_position ?p0\<rparr>)"
      proof -
        have "take (ws_position ?p0) (ws_written (hw_position w1)) = ws_written ?p0"
          using cto ok by (simp add: wrote_def length_ws_written hw_ok_def)
        moreover have "ws_position ?p0 \<le> ws_position (hw_position w1)" using wrote_position[OF cto] by simp
        ultimately show ?thesis using cto by (simp add: wrote_def ws_ok_def ws_written_def min_def)
      qed
      then show ?thesis using w1 w2 True short size by (auto simp: IterateOverCountWithPrefixAndCTO_def Rollback_def)
    next
      case False
      then show ?thesis using w1 w2 True size by (auto simp: IterateOverCountWithPrefixAndCTO_def pw_state_def)
    qed
  qed
qed

end
