(* ===== verification/IndexSearch.thy ===== *)
theory IndexSearch
  imports Prelude "HOL-Library.Monad_Syntax"
begin

text \<open>
  \<^verbatim>\<open>app/Range\<close> and \<^verbatim>\<open>outstation/IndexSearch\<close>: ranges of indices, and the binary search that maps the virtual indices of a
  discontiguous database to the indices of its array.  \<open>None\<close> is an access outside of the array (an assertion of
  \<^verbatim>\<open>ArrayView\<close>) or a loop that does not end.
\<close>

section \<open>\<^verbatim>\<open>Range\<close>\<close>

record Range =
  rg_start :: uint16
  rg_stop :: uint16

definition Range_From :: "uint16 \<Rightarrow> uint16 \<Rightarrow> Range" where
  "Range_From start stop = \<lparr>rg_start = start, rg_stop = stop\<rparr>"

definition Range_Invalid :: Range where
  "Range_Invalid = \<lparr>rg_start = 1, rg_stop = 0\<rparr>"

definition Range_IsValid :: "Range \<Rightarrow> bool" where
  "Range_IsValid r = (rg_start r \<le> rg_stop r)"

definition Range_Count :: "Range \<Rightarrow> uint32" where
  "Range_Count r = (if Range_IsValid r then ucast (rg_stop r) - ucast (rg_start r) + 1 else 0)"

definition Range_Advance :: "Range \<Rightarrow> Range \<times> bool" where
  "Range_Advance r =
     (if Range_IsValid r
      then (if rg_start r < rg_stop r then r\<lparr>rg_start := rg_start r + 1\<rparr> else r\<lparr>rg_start := 1, rg_stop := 0\<rparr>, True)
      else (r, False))"

definition Range_Intersection :: "Range \<Rightarrow> Range \<Rightarrow> Range" where
  "Range_Intersection r other = \<lparr>rg_start = max (rg_start r) (rg_start other), rg_stop = min (rg_stop r) (rg_stop other)\<rparr>"

definition Range_Union :: "Range \<Rightarrow> Range \<Rightarrow> Range" where
  "Range_Union r other = \<lparr>rg_start = min (rg_start r) (rg_start other), rg_stop = max (rg_stop r) (rg_stop other)\<rparr>"

definition Range_Equals :: "Range \<Rightarrow> Range \<Rightarrow> bool" where
  "Range_Equals r other = (rg_start other = rg_start r \<and> rg_stop other = rg_stop r)"

definition Range_IsOneByte :: "Range \<Rightarrow> bool" where
  "Range_IsOneByte r = (Range_IsValid r \<and> rg_start r \<le> 255 \<and> rg_stop r \<le> 255)"

abbreviation range_start :: "Range \<Rightarrow> nat" where
  "range_start r \<equiv> unat (rg_start r)"

abbreviation range_stop :: "Range \<Rightarrow> nat" where
  "range_stop r \<equiv> unat (rg_stop r)"

text \<open>The indices of a range; none when it is not valid.\<close>

definition in_range :: "nat \<Rightarrow> Range \<Rightarrow> bool" where
  "in_range i r \<longleftrightarrow> range_start r \<le> i \<and> i \<le> range_stop r"

lemma Range_IsValid_iff: "Range_IsValid r \<longleftrightarrow> range_start r \<le> range_stop r"
  by (simp add: Range_IsValid_def word_le_nat_alt)

lemma Range_IsValid_in: "Range_IsValid r \<longleftrightarrow> (\<exists>i. in_range i r)"
  by (auto simp: Range_IsValid_iff in_range_def)

lemma not_in_Invalid [simp]: "\<not> in_range i Range_Invalid"
  by (simp add: in_range_def Range_Invalid_def)

lemma Range_Intersection_in: "in_range i (Range_Intersection r s) \<longleftrightarrow> in_range i r \<and> in_range i s"
  by (auto simp: in_range_def Range_Intersection_def max_def min_def word_le_nat_alt)

lemma Range_Union_in: "in_range i r \<or> in_range i s \<Longrightarrow> in_range i (Range_Union r s)"
  by (auto simp: in_range_def Range_Union_def max_def min_def word_le_nat_alt)

lemma unat_uint16_less: "unat (x :: uint16) < 65536"
  using unsigned_less[of x] by simp

lemma unat_Suc: "unat (x :: uint16) < 65535 \<Longrightarrow> unat (x + 1) = Suc (unat x)"
  by (simp add: unat_word_ariths)

lemma unat_pred: "(x :: uint16) \<noteq> 0 \<Longrightarrow> unat (x - 1) = unat x - 1"
  by (rule unat_minus_one)

lemma Range_Advance_in: "in_range i (fst (Range_Advance r)) \<longleftrightarrow> in_range i r \<and> i \<noteq> range_start r"
proof (cases "rg_start r < rg_stop r")
  case True
  then have "range_start r < range_stop r" by (simp add: word_less_nat_alt)
  moreover have "unat (rg_start r + 1) = Suc (range_start r)"
    using calculation unat_uint16_less[of "rg_stop r"] by (intro unat_Suc) simp
  ultimately show ?thesis using True by (auto simp: Range_Advance_def Range_IsValid_def in_range_def)
next
  case False
  then show ?thesis by (auto simp: Range_Advance_def Range_IsValid_def in_range_def word_less_nat_alt word_le_nat_alt)
qed

lemma Range_Count_in: "unat (Range_Count r) = card {i. in_range i r}"
proof (cases "Range_IsValid r")
  case True
  then have le: "range_start r \<le> range_stop r" by (simp add: Range_IsValid_iff)
  have "{i. in_range i r} = {range_start r..range_stop r}" by (auto simp: in_range_def)
  moreover have small: "range_stop r < 65536" by (rule unat_uint16_less)
  moreover have u: "unat (ucast x :: uint32) = unat x" for x :: uint16
    using unat_uint16_less[of x] by (simp add: unsigned_ucast_eq take_bit_nat_eq_self)
  have "unat (ucast (rg_stop r) - ucast (rg_start r) + 1 :: uint32) = range_stop r - range_start r + 1"
    using le small by (simp add: unat_word_ariths u unat_sub word_le_nat_alt)
  ultimately show ?thesis using True le by (simp add: Range_Count_def)
next
  case False
  then show ?thesis by (auto simp: Range_Count_def Range_IsValid_in)
qed

section \<open>\<^verbatim>\<open>IndexSearch\<close>\<close>

text \<open>\<open>vs\<close> are the virtual indices of the cells of a view, in the order of the array.\<close>

definition GetMidpoint :: "uint16 \<Rightarrow> uint16 \<Rightarrow> uint16" where
  "GetMidpoint lower upper = (upper - lower) div 2 + lower"

partial_function (option) SearchLoop :: "uint16 list \<Rightarrow> uint16 \<Rightarrow> uint16 \<Rightarrow> uint16 \<Rightarrow> uint16 \<Rightarrow> (bool \<times> uint16) option" where
  "SearchLoop view vIndex lower upper midpoint =
     (if lower \<le> upper
      then let midpoint = GetMidpoint lower upper
        in if unat midpoint < length view
           then let index = view ! unat midpoint
             in if index = vIndex then Some (True, midpoint)
                else if index < vIndex
                then (if lower < 65535 then SearchLoop view vIndex (midpoint + 1) upper midpoint else Some (False, midpoint))
                else (if upper > 0 then SearchLoop view vIndex lower (midpoint - 1) midpoint else Some (False, midpoint))
           else None
      else Some (False, midpoint))"

definition FindClosestRawIndex :: "uint16 list \<Rightarrow> uint16 \<Rightarrow> (bool \<times> uint16) option" where
  "FindClosestRawIndex view vIndex =
     (if view = [] then Some (False, 0) else SearchLoop view vIndex 0 (of_nat (length view) - 1) 0)"

definition FindRawRange :: "uint16 list \<Rightarrow> Range \<Rightarrow> Range option" where
  "FindRawRange view rng =
     (if Range_IsValid rng \<and> view \<noteq> []
      then do {
        (match, start) \<leftarrow> FindClosestRawIndex view (rg_start rng);
        (match, stop) \<leftarrow> FindClosestRawIndex view (rg_stop rng);
        if unat start < length view \<and> unat stop < length view
        then (if view ! unat start < rg_start rng \<and> \<not> start < 65535 then Some Range_Invalid
              else let start = (if view ! unat start < rg_start rng then start + 1 else start)
                in if view ! unat stop > rg_stop rng \<and> \<not> stop > 0 then Some Range_Invalid
                   else let stop = (if view ! unat stop > rg_stop rng then stop - 1 else stop)
                     in Some (if unat start < length view \<and> unat stop < length view then Range_From start stop else Range_Invalid))
        else None}
      else Some Range_Invalid)"

text \<open>The array of a view: at most 65535 cells, in the order of their virtual indices.\<close>

definition view_ok :: "uint16 list \<Rightarrow> bool" where
  "view_ok view \<longleftrightarrow> sorted_wrt (<) view \<and> length view \<le> 65535"

lemma view_mono: "view_ok view \<Longrightarrow> i < j \<Longrightarrow> j < length view \<Longrightarrow> view ! i < view ! j"
  unfolding view_ok_def using sorted_wrt_nth_less by blast

lemma GetMidpoint_unat:
  assumes "lower \<le> upper"
  shows "unat (GetMidpoint lower upper) = unat lower + (unat upper - unat lower) div 2"
proof -
  have le: "unat lower \<le> unat upper" using assms by (simp add: word_le_nat_alt)
  have "unat ((upper - lower) div 2) = (unat upper - unat lower) div 2"
    using assms by (simp add: unat_div unat_sub)
  moreover have "(unat upper - unat lower) div 2 + unat lower < 65536" using le unat_uint16_less[of upper] by linarith
  ultimately show ?thesis by (simp add: GetMidpoint_def unat_word_ariths)
qed

text \<open>What the search gives: every cell before the place has a smaller index, every cell behind it a greater one.\<close>

definition search_result :: "uint16 list \<Rightarrow> uint16 \<Rightarrow> bool \<times> uint16 \<Rightarrow> bool" where
  "search_result view v = (\<lambda>(found, i). unat i < length view \<and> (found \<longleftrightarrow> v \<in> set view) \<and> (found \<longrightarrow> view ! unat i = v)
     \<and> (\<forall>j<unat i. view ! j < v) \<and> (\<forall>j. unat i < j \<and> j < length view \<longrightarrow> v < view ! j))"

lemma search_resultI:
  assumes "view_ok view" "unat i < length view" "\<forall>j<unat i. view ! j < v" "\<forall>j. unat i < j \<and> j < length view \<longrightarrow> v < view ! j"
  shows "search_result view v (view ! unat i = v, i)"
proof -
  have "view ! unat i = v" if "v \<in> set view"
  proof -
    from that obtain j where j: "j < length view" "view ! j = v" by (auto simp: in_set_conv_nth)
    with assms(3,4) have "\<not> j < unat i" "\<not> unat i < j" by auto
    with j show ?thesis by simp
  qed
  with assms show ?thesis by (auto simp: search_result_def)
qed

lemma SearchLoop_result:
  assumes ok: "view_ok view" and first: "view \<noteq> []" "view ! 0 \<le> v"
    and "\<forall>j<unat lower. view ! j < v" "\<forall>j. unat upper < j \<and> j < length view \<longrightarrow> v < view ! j"
    and "unat upper < length view" "lower \<le> upper"
  shows "\<exists>res. SearchLoop view v lower upper midpoint = Some res \<and> search_result view v res"
  using assms(4-)
proof (induction "unat upper - unat lower" arbitrary: lower upper midpoint rule: less_induct)
  case less
  define m where "m = GetMidpoint lower upper"
  have bounds: "unat m = unat lower + (unat upper - unat lower) div 2" "unat lower \<le> unat upper"
    unfolding m_def using GetMidpoint_unat[OF less.prems(4)] less.prems(4) by (simp_all add: word_le_nat_alt)
  then have m: "unat lower \<le> unat m" "unat m \<le> unat upper" "unat m < length view" using less.prems(3) by linarith+
  have mono: "\<And>i j. i < j \<Longrightarrow> j < length view \<Longrightarrow> view ! i < view ! j" using view_mono[OF ok] .
  note step = SearchLoop.simps[of view v lower upper midpoint, unfolded if_P[OF less.prems(4)] Let_def, folded m_def, unfolded if_P[OF m(3)]]
  consider "view ! unat m = v" | "view ! unat m < v" | "v < view ! unat m" by force
  then show ?case
  proof cases
    case 1
    have "search_result view v (view ! unat m = v, m)"
      by (rule search_resultI[OF ok m(3)]) (use mono m(3) 1 in auto)
    then show ?thesis using step 1 by simp
  next
    case 2
    have small: "\<forall>j\<le>unat m. view ! j < v" using mono[OF _ m(3)] 2 by (metis le_neq_implies_less less_trans)
    have len: "length view \<le> 65535" using ok by (simp add: view_ok_def)
    have m1: "unat (m + 1) = Suc (unat m)" using m(3) len by (intro unat_Suc) simp
    have "lower < 65535" using m len less.prems(3) by (simp add: word_less_nat_alt)
    then have eq: "SearchLoop view v lower upper midpoint = SearchLoop view v (m + 1) upper m" using step 2 by auto
    show ?thesis
    proof (cases "m + 1 \<le> upper")
      case True
      have "\<exists>res. SearchLoop view v (m + 1) upper m = Some res \<and> search_result view v res"
      proof (rule less.hyps)
        show "unat upper - unat (m + 1) < unat upper - unat lower"
          using True m1 m by (simp add: word_le_nat_alt)
      qed (use small m1 less.prems True in \<open>auto simp: less_Suc_eq_le\<close>)
      then show ?thesis by (simp add: eq)
    next
      case False
      then have "unat m = unat upper" using m1 m by (simp add: word_le_nat_alt)
      then have "search_result view v (view ! unat m = v, m)"
        using small less.prems(2) by (intro search_resultI[OF ok m(3)]) auto
      moreover have "(view ! unat m = v) = False" using 2 by auto
      ultimately show ?thesis using SearchLoop.simps[of view v "m + 1" upper m] False by (simp add: eq)
    qed
  next
    case 3
    have big: "\<forall>j. unat m \<le> j \<and> j < length view \<longrightarrow> v < view ! j" using mono[of "unat m"] 3
      by (metis le_neq_implies_less less_trans)
    have nz: "m \<noteq> 0" using 3 first by (auto simp: not_le[symmetric])
    then have m1: "unat (m - 1) = unat m - 1" "0 < unat m" using unat_pred by (simp_all add: unat_gt_0)
    have "upper > 0" using m(2) m1(2) by (simp add: word_less_nat_alt)
    then have eq: "SearchLoop view v lower upper midpoint = SearchLoop view v lower (m - 1) m"
      using step less_not_sym[OF 3] less_imp_neq[OF 3] by auto
    show ?thesis
    proof (cases "lower \<le> m - 1")
      case True
      have "\<exists>res. SearchLoop view v lower (m - 1) m = Some res \<and> search_result view v res"
      proof (rule less.hyps)
        show "unat (m - 1) - unat lower < unat upper - unat lower"
          using True m1 m by (simp add: word_le_nat_alt)
      qed (use big m1 less.prems True m in \<open>auto simp: Suc_le_eq\<close>)
      then show ?thesis by (simp add: eq)
    next
      case False
      then have "unat m = unat lower" using m1 m by (simp add: word_le_nat_alt)
      then have "search_result view v (view ! unat m = v, m)"
        using big less.prems(1) by (intro search_resultI[OF ok m(3)]) auto
      moreover have "(view ! unat m = v) = False" using 3 by auto
      ultimately show ?thesis using SearchLoop.simps[of view v lower "m - 1" m] False by (simp add: eq)
    qed
  qed
qed


lemma FindClosestRawIndex_result:
  assumes ok: "view_ok view" and first: "view \<noteq> []" "view ! 0 \<le> v"
  shows "\<exists>res. FindClosestRawIndex view v = Some res \<and> search_result view v res"
proof -
  have len: "0 < length view" "length view \<le> 65535" using ok first by (simp_all add: view_ok_def)
  have n: "unat (of_nat (length view) :: uint16) = length view" using len by (simp add: unat_of_nat take_bit_nat_eq_self)
  then have "(of_nat (length view) :: uint16) \<noteq> 0" using len(1) by (metis unat_0 less_irrefl)
  then have "unat (of_nat (length view) - 1 :: uint16) = length view - 1" using n unat_pred by simp
  then have u: "unat (of_nat (length view) - 1 :: uint16) = length view - 1" .
  have "\<forall>j. unat (of_nat (length view) - 1 :: uint16) < j \<and> j < length view \<longrightarrow> v < view ! j"
    "unat (of_nat (length view) - 1 :: uint16) < length view" using u len by auto
  then have "\<exists>res. SearchLoop view v 0 (of_nat (length view) - 1) 0 = Some res \<and> search_result view v res"
    by (intro SearchLoop_result[OF ok first]) simp_all
  then show ?thesis using first by (simp add: FindClosestRawIndex_def)
qed

lemma FindRawRange_spec:
  assumes ok: "view_ok view" and first: "view \<noteq> []" "view ! 0 \<le> rg_start r"
  shows "\<exists>raw. FindRawRange view r = Some raw \<and> (\<forall>i. in_range i raw \<longleftrightarrow> i < length view \<and> in_range (unat (view ! i)) r)"
proof (cases "Range_IsValid r")
  case False
  then show ?thesis by (auto simp: FindRawRange_def Range_IsValid_in)
next
  case True
  then have le: "view ! 0 \<le> rg_stop r" using first(2) by (simp add: Range_IsValid_def)
  obtain m1 start where start: "FindClosestRawIndex view (rg_start r) = Some (m1, start)" "search_result view (rg_start r) (m1, start)"
    using FindClosestRawIndex_result[OF ok first] by auto
  obtain m2 stop where stop: "FindClosestRawIndex view (rg_stop r) = Some (m2, stop)" "search_result view (rg_stop r) (m2, stop)"
    using FindClosestRawIndex_result[OF ok first(1) le] by auto
  have len: "length view \<le> 65535" using ok by (simp add: view_ok_def)
  have st: "unat start < length view" "\<And>j. j < unat start \<Longrightarrow> view ! j < rg_start r"
    "\<And>j. unat start < j \<Longrightarrow> j < length view \<Longrightarrow> rg_start r < view ! j"
    and sp: "unat stop < length view" "\<And>j. j < unat stop \<Longrightarrow> view ! j < rg_stop r"
    "\<And>j. unat stop < j \<Longrightarrow> j < length view \<Longrightarrow> rg_stop r < view ! j"
    using start(2) stop(2) by (auto simp: search_result_def)
  define start' where "start' = (if view ! unat start < rg_start r then start + 1 else start)"
  define stop' where "stop' = (if view ! unat stop > rg_stop r then stop - 1 else stop)"
  have s1: "\<not> (view ! unat start < rg_start r \<and> \<not> start < 65535)" using st(1) len by (simp add: word_less_nat_alt)
  have pos: "0 < unat stop" if "view ! unat stop > rg_stop r"
  proof (rule ccontr)
    assume "\<not> 0 < unat stop"
    with that le show False by simp
  qed
  then have s2: "\<not> (view ! unat stop > rg_stop r \<and> \<not> stop > 0)" by (simp add: word_less_nat_alt)
  have run: "FindRawRange view r
      = Some (if unat start' < length view \<and> unat stop' < length view then Range_From start' stop' else Range_Invalid)"
    using True first(1) start(1) stop(1) st(1) sp(1)
    by (simp add: FindRawRange_def Let_def if_not_P[OF s1] if_not_P[OF s2] flip: start'_def stop'_def)
  have u1: "unat start' = (if view ! unat start < rg_start r then Suc (unat start) else unat start)"
    using st(1) len unat_Suc[of start] by (simp add: start'_def)
  have u2: "unat stop' = (if view ! unat stop > rg_stop r then unat stop - 1 else unat stop)"
  proof (cases "view ! unat stop > rg_stop r")
    case True
    then have "stop \<noteq> 0" using pos by auto
    then show ?thesis using True unat_pred by (simp add: stop'_def)
  qed (simp add: stop'_def)
  have lower: "unat start' \<le> i \<longleftrightarrow> rg_start r \<le> view ! i" if "i < length view" for i
  proof -
    consider "i < unat start" | "i = unat start" | "unat start < i" by linarith
    then show ?thesis using st(2,3)[of i] that by cases (auto simp: u1 not_less not_le less_imp_le)
  qed
  have upper: "i \<le> unat stop' \<longleftrightarrow> view ! i \<le> rg_stop r" if "i < length view" for i
  proof -
    consider "i < unat stop" | "i = unat stop" | "unat stop < i" by linarith
    then show ?thesis using sp(2,3)[of i] that pos by cases (auto simp: u2 not_less not_le less_imp_le)
  qed
  have stop_len: "unat stop' < length view" using sp(1) less_imp_diff_less unfolding u2 by auto
  show ?thesis
  proof (cases "unat start' < length view")
    case True
    have "in_range i (Range_From start' stop') \<longleftrightarrow> i < length view \<and> in_range (unat (view ! i)) r" for i
      using lower[of i] upper[of i] stop_len by (auto simp: in_range_def Range_From_def word_le_nat_alt)
    with run True stop_len show ?thesis by simp
  next
    case False
    then have "\<not> (i < length view \<and> in_range (unat (view ! i)) r)" for i
      using lower[of i] by (auto simp: in_range_def word_le_nat_alt)
    with run False show ?thesis by simp
  qed
qed

text \<open>
  A range of virtual indices of a discontiguous database is mapped to exactly the cells of the array whose index lies
  in it, provided that it does not start below the first index.
\<close>

theorem FindRawRange_exact:
  assumes "sorted_wrt (<) view" and "view \<noteq> []" and "length view \<le> 65535" and "view ! 0 \<le> rg_start r"
  shows "\<exists>raw. FindRawRange view r = Some raw \<and> (\<forall>i. in_range i raw = (i < length view \<and> in_range (unat (view ! i)) r))"
  by (rule FindRawRange_spec) (use assms in \<open>simp_all add: view_ok_def\<close>)

lemma FindRawRange_exact_witness:
  "\<exists>raw. FindRawRange [5, 9, 12] (Range_From 6 12) = Some raw \<and> in_range 1 raw \<and> in_range 2 raw \<and> \<not> in_range 0 raw"
proof -
  have sorted: "sorted_wrt (<) [5, 9, 12 :: uint16]" "[5, 9, 12 :: uint16] \<noteq> []" "length [5, 9, 12 :: uint16] \<le> 65535"
    "[5, 9, 12] ! 0 \<le> rg_start (Range_From 6 12)" by (simp_all add: Range_From_def)
  obtain raw where raw: "FindRawRange [5, 9, 12] (Range_From 6 12) = Some raw"
    "\<And>i. in_range i raw = (i < length [5, 9, 12 :: uint16] \<and> in_range (unat ([5, 9, 12 :: uint16] ! i)) (Range_From 6 12))"
    using FindRawRange_exact[OF sorted] by blast
  have "in_range 1 raw" "in_range 2 raw" "\<not> in_range 0 raw" unfolding raw(2) by (simp_all add: in_range_def Range_From_def)
  with raw(1) show ?thesis by blast
qed

section \<open>Below the first index\<close>

text \<open>The two leading binary digits of a number are both one.\<close>

fun leading_11 :: "nat \<Rightarrow> bool" where
  "leading_11 w = (if w < 4 then w = 3 else leading_11 (w div 2))"

declare leading_11.simps [simp del]

lemma leading_11_half: "4 \<le> w \<Longrightarrow> leading_11 w \<longleftrightarrow> leading_11 (w div 2)"
  by (subst leading_11.simps) simp

lemma leading_11_small: "\<not> leading_11 2" "leading_11 3"
  by (simp_all add: leading_11.simps)

text \<open>
  The search never leaves the lower half: with \<open>upper + 2\<close> written in binary, each round drops the last digit, until the
  upper bound is 0, where the search stops, or 1, where it wraps around.
\<close>

lemma SearchLoop_below:
  assumes "\<forall>x\<in>set view. v < x" "unat upper div 2 < length view"
  shows "SearchLoop view v 0 upper m = (if leading_11 (unat upper + 2) then SearchLoop view v 0 65535 0 else Some (False, 0))"
  using assms(2)
proof (induction "unat upper" arbitrary: upper m rule: less_induct)
  case less
  define mid where "mid = GetMidpoint 0 upper"
  have mid: "unat mid = unat upper div 2" unfolding mid_def by (simp add: GetMidpoint_unat)
  have above: "v < view ! unat mid" using assms(1) less.prems mid by simp
  have step: "SearchLoop view v 0 upper m = (if upper > 0 then SearchLoop view v 0 (mid - 1) mid else Some (False, mid))"
    using SearchLoop.simps[of view v 0 upper m] less.prems mid less_not_sym[OF above] less_imp_neq[OF above]
    unfolding mid_def[symmetric] by (auto simp: Let_def)
  consider "unat upper = 0" | "unat upper = 1" | "2 \<le> unat upper" by linarith
  then show ?case
  proof cases
    case 1
    with mid have "upper = 0" "mid = 0" by (simp_all add: unat_eq_zero)
    with step show ?thesis using leading_11_small(1) by (simp add: numeral_2_eq_2)
  next
    case 2
    with mid have mid0: "mid = 0" by (simp add: unat_eq_zero)
    have wrap: "(0 :: uint16) - 1 = 65535" by simp
    have "0 < upper" using 2 by (simp add: word_less_nat_alt)
    then have "SearchLoop view v 0 upper m = SearchLoop view v 0 65535 0" using step by (simp only: mid0 wrap if_True)
    then show ?thesis using 2 leading_11_small(2) by (simp add: numeral_3_eq_3)
  next
    case 3
    have pos: "0 < upper" using 3 by (simp add: word_less_nat_alt)
    have "mid \<noteq> 0" using 3 mid by (auto simp: unat_eq_zero[symmetric])
    then have u: "unat (mid - 1) = unat upper div 2 - 1" using unat_pred mid by simp
    have "SearchLoop view v 0 (mid - 1) mid
      = (if leading_11 (unat (mid - 1) + 2) then SearchLoop view v 0 65535 0 else Some (False, 0))"
      by (rule less.hyps) (use u 3 less.prems in auto)
    moreover have "unat (mid - 1) + 2 = (unat upper + 2) div 2" using u 3 by simp
    ultimately show ?thesis using step pos leading_11_half[of "unat upper + 2"] 3 by simp
  qed
qed

text \<open>
  \<^bold>\<open>C37\<close>.  A search for an index below every index of a database of \<open>n\<close> points.  When the two leading binary digits of
  \<open>n + 1\<close> are ones, that is for 2, 5, 6, 11 to 14, 23 to 30 and so on points, the upper bound of the search is decremented
  below zero and wraps around to 65535, and if there are at most 32767 points the next midpoint is outside of the array.
  In all other cases the search ends at the first cell without a match.
\<close>

theorem FindClosestRawIndex_out_of_bounds:
  assumes "view \<noteq> []" "length view \<le> 65535" "\<forall>x\<in>set view. v < x"
  shows "if leading_11 (length view + 1)
    then FindClosestRawIndex view v = SearchLoop view v 0 65535 0
      \<and> (if length view \<le> unat (GetMidpoint 0 65535) then FindClosestRawIndex view v = None else FindClosestRawIndex view v = Some (False, 0))
    else FindClosestRawIndex view v = Some (False, 0)"
proof -
  have len: "0 < length view" using assms(1) by simp
  have n: "unat (of_nat (length view) :: uint16) = length view" using assms(2) by (simp add: unat_of_nat take_bit_nat_eq_self)
  then have "(of_nat (length view) :: uint16) \<noteq> 0" using len by (metis unat_0 less_irrefl)
  then have u: "unat (of_nat (length view) - 1 :: uint16) = length view - 1" using n unat_pred by simp
  have half: "(length view - 1) div 2 < length view" using len by linarith
  have "FindClosestRawIndex view v
    = (if leading_11 (length view - 1 + 2) then SearchLoop view v 0 65535 0 else Some (False, 0))"
    using SearchLoop_below[OF assms(3), of "of_nat (length view) - 1" 0] assms(1) half unfolding u by (simp add: FindClosestRawIndex_def)
  moreover have "length view - 1 + 2 = length view + 1" using len by simp
  ultimately have find: "FindClosestRawIndex view v
    = (if leading_11 (length view + 1) then SearchLoop view v 0 65535 0 else Some (False, 0))" by simp
  have mid: "unat (GetMidpoint 0 65535 :: uint16) = 32767" by (simp add: GetMidpoint_def)
  have "SearchLoop view v 0 65535 0 = None" if "length view \<le> 32767"
    using that mid by (subst SearchLoop.simps) (simp add: Let_def)
  moreover have "SearchLoop view v 0 65535 0 = Some (False, 0)" if "32767 < length view"
  proof -
    have "\<not> leading_11 65537" by (simp add: leading_11_half leading_11_small)
    then show ?thesis using SearchLoop_below[OF assms(3), of 65535 0] that by simp
  qed
  ultimately show ?thesis using find mid by simp
qed

lemma FindClosestRawIndex_out_of_bounds_witness:
  "FindClosestRawIndex [5, 9] 3 = None \<and> FindClosestRawIndex [5, 9, 12, 20, 21] 3 = None
    \<and> FindClosestRawIndex [1, 3, 7, 9] 0 = Some (False, 0)"
  using FindClosestRawIndex_out_of_bounds[of "[5, 9]" 3] FindClosestRawIndex_out_of_bounds[of "[5, 9, 12, 20, 21]" 3]
    FindClosestRawIndex_out_of_bounds[of "[1, 3, 7, 9]" 0]
  by (simp add: GetMidpoint_def leading_11.simps) metis

end
