(* ===== verification/LinkedList.thy ===== *)
theory LinkedList
  imports Prelude "HOL-Library.Monad_Syntax"
begin

text \<open>
  \<^verbatim>\<open>openpal/container/LinkedList.h\<close>: the doubly linked list that lives in a fixed array, with its free
  list.  The array is a list of nodes, a pointer to a node is an index into it (\<open>None\<close> is the null
  pointer), and every operation updates nodes through pointers the way the code does.  The loops over
  an iterator follow the pointers: they are \<open>partial_function (option)\<close>, \<open>None\<close> would be a loop that
  never ends.  The lemmas show that the operations refine operations on a plain list of
  values, that every loop ends, and that no node is ever lost or shared.
\<close>

section \<open>The data\<close>

record 'a ListNode =
  nd_value :: 'a
  nd_prev :: "nat option"
  nd_next :: "nat option"

record 'a LinkedList =
  ll_size :: uint32
  ll_pHead :: "nat option"
  ll_pTail :: "nat option"
  ll_pFree :: "nat option"
  ll_underlying :: "'a ListNode list"

abbreviation next_of :: "'a ListNode list \<Rightarrow> nat \<Rightarrow> nat option" where
  "next_of ns i \<equiv> nd_next (ns ! i)"

abbreviation prev_of :: "'a ListNode list \<Rightarrow> nat \<Rightarrow> nat option" where
  "prev_of ns i \<equiv> nd_prev (ns ! i)"

section \<open>Operations\<close>

definition Link :: "nat option \<Rightarrow> nat option \<Rightarrow> 'a ListNode list \<Rightarrow> 'a ListNode list" where
  "Link first second ns =
     (let ns = (case first of None \<Rightarrow> ns | Some i \<Rightarrow> ns[i := (ns ! i)\<lparr>nd_next := second\<rparr>])
      in case second of None \<Rightarrow> ns | Some j \<Rightarrow> ns[j := (ns ! j)\<lparr>nd_prev := first\<rparr>])"

definition Initialize :: "'a LinkedList \<Rightarrow> 'a LinkedList" where
  "Initialize l =
     (if ll_underlying l \<noteq> []
      then l\<lparr>ll_pFree := Some 0,
             ll_underlying := fold (\<lambda>i. Link (Some (i - 1)) (Some i)) [1..<length (ll_underlying l)] (ll_underlying l)\<rparr>
      else l)"

text \<open>\<open>dflt\<close> is the value of \<^verbatim>\<open>ValueType()\<close>.\<close>

definition LinkedList_make :: "'a \<Rightarrow> uint32 \<Rightarrow> 'a LinkedList" where
  "LinkedList_make dflt maxSize = Initialize
     \<lparr>ll_size = 0, ll_pHead = None, ll_pTail = None, ll_pFree = None,
      ll_underlying = replicate (unat maxSize) \<lparr>nd_value = dflt, nd_prev = None, nd_next = None\<rparr>\<rparr>"

definition Capacity :: "'a LinkedList \<Rightarrow> uint32" where
  "Capacity l = of_nat (length (ll_underlying l))"

definition IsNotEmpty :: "'a LinkedList \<Rightarrow> bool" where
  "IsNotEmpty l = (ll_size l \<noteq> 0)"

definition IsFull :: "'a LinkedList \<Rightarrow> bool" where
  "IsFull l = (ll_pFree l = None)"

definition ClearList :: "'a LinkedList \<Rightarrow> 'a LinkedList" where
  "ClearList l =
     (if IsNotEmpty l
      then l\<lparr>ll_underlying := Link (ll_pTail l) (ll_pFree l) (ll_underlying l),
             ll_pFree := ll_pHead l, ll_pHead := None, ll_pTail := None, ll_size := 0\<rparr>
      else l)"

text \<open>The private \<^verbatim>\<open>Insert\<close>, with the two neighbours; it returns the new node.\<close>

definition InsertBetween :: "'a \<Rightarrow> nat option \<Rightarrow> nat option \<Rightarrow> 'a LinkedList \<Rightarrow> 'a LinkedList \<times> nat option" where
  "InsertBetween value pLeft pRight l =
     (case ll_pFree l of
        None \<Rightarrow> (l, None)
      | Some pNode \<Rightarrow>
          let ns = ll_underlying l;
              l = l\<lparr>ll_pFree := next_of ns pNode\<rparr>;
              ns = ns[pNode := (ns ! pNode)\<lparr>nd_value := value\<rparr>];
              l = l\<lparr>ll_size := ll_size l + 1\<rparr>;
              ns = Link pLeft (Some pNode) ns;
              ns = Link (Some pNode) pRight ns;
              l = (if pLeft = None then l\<lparr>ll_pHead := Some pNode\<rparr> else l);
              l = (if pRight = None then l\<lparr>ll_pTail := Some pNode\<rparr> else l)
          in (l\<lparr>ll_underlying := ns\<rparr>, Some pNode))"

definition Add :: "'a \<Rightarrow> 'a LinkedList \<Rightarrow> 'a LinkedList \<times> nat option" where
  "Add value l = InsertBetween value (ll_pTail l) None l"

definition RemoveNode :: "nat \<Rightarrow> 'a LinkedList \<Rightarrow> 'a LinkedList" where
  "RemoveNode apNode l =
     (let ns = ll_underlying l;
          prev = prev_of ns apNode; nxt = next_of ns apNode;
          l = (case prev of
                 None \<Rightarrow> (case nxt of
                     None \<Rightarrow> l\<lparr>ll_pHead := None, ll_pTail := None\<rparr>
                   | Some i \<Rightarrow> l\<lparr>ll_pHead := nxt\<rparr>)
               | Some i \<Rightarrow> (case nxt of None \<Rightarrow> l\<lparr>ll_pTail := prev\<rparr> | Some j \<Rightarrow> l));
          ns = Link prev nxt ns;
          ns = ns[apNode := (ns ! apNode)\<lparr>nd_next := ll_pFree l\<rparr>];
          ns = (case ll_pFree l of None \<Rightarrow> ns | Some f \<Rightarrow> ns[f := (ns ! f)\<lparr>nd_prev := Some apNode\<rparr>]);
          ns = ns[apNode := (ns ! apNode)\<lparr>nd_prev := None\<rparr>]
      in l\<lparr>ll_underlying := ns, ll_pFree := Some apNode, ll_size := ll_size l - 1\<rparr>)"

subsection \<open>Iteration\<close>

text \<open>\<^verbatim>\<open>LinkedListIterator\<close> is its current pointer; \<^verbatim>\<open>Next\<close> returns it and moves on.\<close>

definition Next :: "'a ListNode list \<Rightarrow> nat option \<Rightarrow> nat option \<times> nat option" where
  "Next ns iter = (case iter of None \<Rightarrow> (None, None) | Some i \<Rightarrow> (Some i, next_of ns i))"

definition CurrentValue :: "'a ListNode list \<Rightarrow> nat option \<Rightarrow> 'a option" where
  "CurrentValue ns iter = map_option (\<lambda>i. nd_value (ns ! i)) iter"

partial_function (option) FindFrom :: "('a \<Rightarrow> bool) \<Rightarrow> 'a ListNode list \<Rightarrow> nat option \<Rightarrow> nat option option" where
  "FindFrom select ns iter =
     (case iter of
        None \<Rightarrow> Some None
      | Some i \<Rightarrow> if select (nd_value (ns ! i)) then Some (Some i) else FindFrom select ns (next_of ns i))"

definition FindFirst :: "('a \<Rightarrow> bool) \<Rightarrow> 'a LinkedList \<Rightarrow> nat option option" where
  "FindFirst select l = FindFrom select (ll_underlying l) (ll_pHead l)"

text \<open>
  A loop \<^verbatim>\<open>while (iter.HasNext() && c) body\<close> whose body may assign to the fields of the node's value.
  The loop's own variables are the state \<open>s\<close>.
\<close>

partial_function (option) LoopFrom ::
  "('s \<Rightarrow> bool) \<Rightarrow> ('a \<Rightarrow> 's \<Rightarrow> 'a \<times> 's) \<Rightarrow> nat option \<Rightarrow> 'a ListNode list \<Rightarrow> 's \<Rightarrow> ('a ListNode list \<times> 's) option" where
  "LoopFrom cond body iter ns s =
     (case iter of
        None \<Rightarrow> Some (ns, s)
      | Some i \<Rightarrow>
          if cond s then
            let (v, s') = body (nd_value (ns ! i)) s
            in LoopFrom cond body (next_of ns i) (ns[i := (ns ! i)\<lparr>nd_value := v\<rparr>]) s'
          else Some (ns, s))"

definition Loop :: "('s \<Rightarrow> bool) \<Rightarrow> ('a \<Rightarrow> 's \<Rightarrow> 'a \<times> 's) \<Rightarrow> 'a LinkedList \<Rightarrow> 's \<Rightarrow> ('a LinkedList \<times> 's) option" where
  "Loop cond body l s =
     do {(ns, s) \<leftarrow> LoopFrom cond body (ll_pHead l) (ll_underlying l) s; Some (l\<lparr>ll_underlying := ns\<rparr>, s)}"

definition WhileList :: "('a \<Rightarrow> 's \<Rightarrow> bool \<times> 'a \<times> 's) \<Rightarrow> 'a LinkedList \<Rightarrow> 's \<Rightarrow> ('a LinkedList \<times> 's) option" where
  "WhileList select l s =
     do {(l, result, s) \<leftarrow> Loop fst (\<lambda>v (result, s). let (result, v, s) = select v s in (v, result, s)) l (True, s);
         Some (l, s)}"

definition ForeachList :: "('a \<Rightarrow> 's \<Rightarrow> 'a \<times> 's) \<Rightarrow> 'a LinkedList \<Rightarrow> 's \<Rightarrow> ('a LinkedList \<times> 's) option" where
  "ForeachList select = Loop (\<lambda>s. True) select"

definition InsertOrdered :: "('a \<Rightarrow> 'a \<Rightarrow> bool) \<Rightarrow> 'a \<Rightarrow> 'a LinkedList \<Rightarrow> ('a LinkedList \<times> nat option) option" where
  "InsertOrdered lt value l =
     (if ll_pFree l = None then Some (l, None)
      else do {
        pResult \<leftarrow> FindFirst (\<lambda>v. lt value v) l;
        Some (case pResult of
            Some i \<Rightarrow> InsertBetween value (prev_of (ll_underlying l) i) pResult l
          | None \<Rightarrow> InsertBetween value (ll_pTail l) None l)})"

definition RemoveFirst :: "('a \<Rightarrow> bool) \<Rightarrow> 'a LinkedList \<Rightarrow> ('a LinkedList \<times> nat option) option" where
  "RemoveFirst select l =
     do {pNode \<leftarrow> FindFirst select l;
         Some (case pNode of None \<Rightarrow> l | Some i \<Rightarrow> RemoveNode i l, pNode)}"

definition RemoveValue :: "'a \<Rightarrow> 'a LinkedList \<Rightarrow> ('a LinkedList \<times> bool) option" where
  "RemoveValue value l =
     do {pNode \<leftarrow> FindFirst (\<lambda>v. v = value) l;
         Some (case pNode of None \<Rightarrow> (l, False) | Some i \<Rightarrow> (RemoveNode i l, True))}"

text \<open>\<^verbatim>\<open>RemoveAll\<close> reads the next node before it unlinks the current one; \<open>match\<close> has a state of its own.\<close>

partial_function (option) RemoveAllFrom ::
  "('a \<Rightarrow> 's \<Rightarrow> bool \<times> 's) \<Rightarrow> nat option \<Rightarrow> nat option \<Rightarrow> 'a LinkedList \<Rightarrow> 's \<Rightarrow> uint32 \<Rightarrow> ('a LinkedList \<times> 's \<times> uint32) option" where
  "RemoveAllFrom match pCurrent iter l s count =
     (case pCurrent of
        None \<Rightarrow> Some (l, s, count)
      | Some i \<Rightarrow>
          let (matches, s) = match (nd_value (ll_underlying l ! i)) s;
              (nxt, iter) = Next (ll_underlying l) iter
          in if matches then RemoveAllFrom match nxt iter (RemoveNode i l) s (count + 1)
             else RemoveAllFrom match nxt iter l s count)"

definition RemoveAll :: "('a \<Rightarrow> 's \<Rightarrow> bool \<times> 's) \<Rightarrow> 'a LinkedList \<Rightarrow> 's \<Rightarrow> ('a LinkedList \<times> 's \<times> uint32) option" where
  "RemoveAll match l s =
     (let (pCurrent, iter) = Next (ll_underlying l) (ll_pHead l)
      in RemoveAllFrom match pCurrent iter l s 0)"

section \<open>List segments\<close>

fun seg :: "(nat \<Rightarrow> nat option) \<Rightarrow> nat option \<Rightarrow> nat list \<Rightarrow> nat option \<Rightarrow> bool" where
  "seg f p [] q = (p = q)"
| "seg f p (x # xs) q = (p = Some x \<and> seg f (f x) xs q)"

definition first :: "nat list \<Rightarrow> nat option \<Rightarrow> nat option" where
  "first xs q = (case xs of [] \<Rightarrow> q | x # _ \<Rightarrow> Some x)"

lemma first_simps [simp]: "first [] q = q" "first (x # xs) q = Some x"
  by (simp_all add: first_def)

lemma first_append: "first (xs @ ys) q = first xs (first ys q)"
  by (cases xs) simp_all

lemma first_None [simp]: "first xs None = None \<longleftrightarrow> xs = []"
  by (cases xs) simp_all

lemma seg_first: "seg f p xs q \<Longrightarrow> p = first xs q"
  by (cases xs) simp_all

lemma seg_append: "seg f p (xs @ ys) q \<longleftrightarrow> seg f p xs (first ys q) \<and> seg f (first ys q) ys q"
  by (induction xs arbitrary: p) (auto dest: seg_first)

lemma seg_cong: "(\<And>x. x \<in> set xs \<Longrightarrow> f x = g x) \<Longrightarrow> seg f p xs q \<longleftrightarrow> seg g p xs q"
  by (induction xs arbitrary: p) simp_all

lemma seg_relink:
  assumes "seg f p xs q" "distinct xs" "xs \<noteq> []" "g (last xs) = r" "\<And>y. y \<in> set (butlast xs) \<Longrightarrow> g y = f y"
  shows "seg g p xs r"
  using assms
proof (induction xs arbitrary: p)
  case (Cons x xs)
  then show ?case by (cases "xs = []") (auto split: if_splits)
qed simp

lemma seg_insert:
  assumes "seg f p (ls @ rs) None" "distinct (ls @ x # rs)"
    and "g x = first rs None" "ls \<noteq> [] \<Longrightarrow> g (last ls) = Some x"
    and "\<And>y. y \<in> set (ls @ rs) \<Longrightarrow> ls = [] \<or> y \<noteq> last ls \<Longrightarrow> g y = f y"
  shows "seg g (if ls = [] then Some x else p) (ls @ x # rs) None"
proof -
  have f: "seg f p ls (first rs None)" "seg f (first rs None) rs None" using assms(1) by (simp_all add: seg_append)
  have "f y = g y" if "y \<in> set rs" for y
    using assms(2) that by (cases ls rule: rev_cases) (auto intro!: assms(5)[symmetric])
  with f(2) have rest: "seg g (first rs None) rs None" using seg_cong[of rs f g] by simp
  have "g y = f y" if "y \<in> set (butlast ls)" for y
    using assms(2) that by (cases ls rule: rev_cases) (auto intro!: assms(5))
  moreover have "distinct ls" using assms(2) by simp
  ultimately have start: "seg g p ls (Some x)" if "ls \<noteq> []"
    using seg_relink[OF f(1) _ that] assms(4)[OF that] by blast
  show ?thesis
  proof (cases "ls = []")
    case False
    with rest assms(3) start show ?thesis by (simp add: seg_append)
  qed (use rest assms(3) in simp)
qed

lemma seg_remove:
  assumes "seg f p (ls @ x # rs) None" "distinct (ls @ x # rs)"
    and "ls \<noteq> [] \<Longrightarrow> g (last ls) = first rs None"
    and "\<And>y. y \<in> set (ls @ rs) \<Longrightarrow> ls = [] \<or> y \<noteq> last ls \<Longrightarrow> g y = f y"
  shows "seg g (if ls = [] then first rs None else p) (ls @ rs) None"
proof -
  have f: "seg f p ls (Some x)" "seg f (f x) rs None" using assms(1) by (simp_all add: seg_append)
  have "f y = g y" if "y \<in> set rs" for y
    using assms(2) that by (cases ls rule: rev_cases) (auto intro!: assms(4)[symmetric])
  with f(2) have rest: "seg g (first rs None) rs None" using seg_cong[of rs f g] seg_first[OF f(2)] by simp
  have "g y = f y" if "y \<in> set (butlast ls)" for y
    using assms(2) that by (cases ls rule: rev_cases) (auto intro!: assms(4))
  moreover have "distinct ls" using assms(2) by simp
  ultimately have start: "seg g p ls (first rs None)" if "ls \<noteq> []"
    using seg_relink[OF f(1) _ that] assms(3)[OF that] by blast
  show ?thesis
  proof (cases "ls = []")
    case False
    with rest start show ?thesis by (simp add: seg_append)
  qed (use rest in simp)
qed

section \<open>The effect of an assignment through a pointer\<close>

lemma nth_assign: "ns[j := f (ns ! j)] ! i = (if i = j \<and> j < length ns then f (ns ! i) else ns ! i)"
  by (cases "j < length ns") (auto simp: nth_list_update list_update_beyond)

lemma assign_simps:
  "next_of (ns[j := (ns ! j)\<lparr>nd_next := p\<rparr>]) i = (if i = j \<and> j < length ns then p else next_of ns i)"
  "prev_of (ns[j := (ns ! j)\<lparr>nd_next := p\<rparr>]) i = prev_of ns i"
  "nd_value (ns[j := (ns ! j)\<lparr>nd_next := p\<rparr>] ! i) = nd_value (ns ! i)"
  "next_of (ns[j := (ns ! j)\<lparr>nd_prev := p\<rparr>]) i = next_of ns i"
  "prev_of (ns[j := (ns ! j)\<lparr>nd_prev := p\<rparr>]) i = (if i = j \<and> j < length ns then p else prev_of ns i)"
  "nd_value (ns[j := (ns ! j)\<lparr>nd_prev := p\<rparr>] ! i) = nd_value (ns ! i)"
  "next_of (ns[j := (ns ! j)\<lparr>nd_value := v\<rparr>]) i = next_of ns i"
  "prev_of (ns[j := (ns ! j)\<lparr>nd_value := v\<rparr>]) i = prev_of ns i"
  "nd_value (ns[j := (ns ! j)\<lparr>nd_value := v\<rparr>] ! i) = (if i = j \<and> j < length ns then v else nd_value (ns ! i))"
  by (simp_all only: nth_assign[where f = "nd_next_update (\<lambda>_. p)"] nth_assign[where f = "nd_prev_update (\<lambda>_. p)"]
      nth_assign[where f = "nd_value_update (\<lambda>_. v)"]) simp_all

lemma length_Link [simp]: "length (Link a b ns) = length ns"
  by (simp add: Link_def Let_def split: option.splits)

lemma Link_effect:
  "i < length ns \<Longrightarrow> next_of (Link a b ns) i = (if a = Some i then b else next_of ns i)"
  "i < length ns \<Longrightarrow> prev_of (Link a b ns) i = (if b = Some i then a else prev_of ns i)"
  "nd_value (Link a b ns ! i) = nd_value (ns ! i)"
  by (auto simp: Link_def Let_def assign_simps split: option.splits)

section \<open>The representation\<close>

text \<open>
  \<open>ll_rep l act free\<close>: the nodes of the array are shared out between the list proper and the free
  list; \<open>act\<close> is the list proper in both directions, \<open>free\<close> the free list; the size counts the former.
\<close>

definition ll_rep :: "'a LinkedList \<Rightarrow> nat list \<Rightarrow> nat list \<Rightarrow> bool" where
  "ll_rep l act free \<longleftrightarrow>
     distinct (act @ free) \<and> set (act @ free) = {..<length (ll_underlying l)} \<and> length (ll_underlying l) < 2 ^ 32 \<and>
     seg (next_of (ll_underlying l)) (ll_pHead l) act None \<and>
     seg (prev_of (ll_underlying l)) (ll_pTail l) (rev act) None \<and>
     seg (next_of (ll_underlying l)) (ll_pFree l) free None \<and>
     ll_size l = of_nat (length act)"

definition node_values :: "'a LinkedList \<Rightarrow> nat list \<Rightarrow> 'a list" where
  "node_values l = map (\<lambda>i. nd_value (ll_underlying l ! i))"

lemma ll_rep_length:
  assumes "ll_rep l act free"
  shows "length act + length free = length (ll_underlying l)" "unat (ll_size l) = length act" "length act < 2 ^ 32"
proof -
  have "distinct (act @ free)" "set (act @ free) = {..<length (ll_underlying l)}"
    using assms by (simp_all add: ll_rep_def)
  then show len: "length act + length free = length (ll_underlying l)"
    using distinct_card[of "act @ free"] by simp
  then show "length act < 2 ^ 32" using assms by (simp add: ll_rep_def)
  then show "unat (ll_size l) = length act" using assms by (simp add: ll_rep_def unat_of_nat)
qed

lemma ll_rep_bounds: "ll_rep l act free \<Longrightarrow> i \<in> set (act @ free) \<Longrightarrow> i < length (ll_underlying l)"
  by (auto simp: ll_rep_def)

lemma ll_repD:
  assumes "ll_rep l act free"
  shows "distinct act" "distinct free" "set act \<inter> set free = {}"
    and "i \<in> set act \<Longrightarrow> i < length (ll_underlying l)" "i \<in> set free \<Longrightarrow> i < length (ll_underlying l)"
    and "seg (next_of (ll_underlying l)) (ll_pHead l) act None"
    and "seg (prev_of (ll_underlying l)) (ll_pTail l) (rev act) None"
    and "seg (next_of (ll_underlying l)) (ll_pFree l) free None"
  using assms by (auto simp: ll_rep_def)

lemma ll_rep_pFree: "ll_rep l act free \<Longrightarrow> ll_pFree l = first free None"
  using seg_first ll_repD(8) by blast

lemma ll_rep_IsFull: "ll_rep l act free \<Longrightarrow> IsFull l \<longleftrightarrow> length act = length (ll_underlying l)"
  using ll_rep_length(1)[of l act free] by (auto simp: ll_rep_pFree IsFull_def)

lemma first_rev: "first (rev ls) None = (if ls = [] then None else Some (last ls))"
  by (cases ls rule: rev_cases) simp_all

lemma first_hd: "first rs None = (if rs = [] then None else Some (hd rs))"
  by (cases rs) simp_all

lemma InsertBetween_rep:
  assumes rep: "ll_rep l (ls @ rs) (x # free)"
  shows "\<exists>l'. InsertBetween v (first (rev ls) None) (first rs None) l = (l', Some x) \<and> ll_rep l' (ls @ x # rs) free
      \<and> node_values l' (ls @ x # rs) = node_values l ls @ v # node_values l rs
      \<and> length (ll_underlying l') = length (ll_underlying l)"
proof -
  let ?ns = "ll_underlying l"
  note D = ll_repD[OF rep]
  have x: "x < length ?ns" "x \<notin> set ls" "x \<notin> set rs" "x \<notin> set free" using D by auto
  define ns' where "ns' = Link (Some x) (first rs None) (Link (first (rev ls) None) (Some x) (?ns[x := (?ns ! x)\<lparr>nd_value := v\<rparr>]))"
  have len: "length ns' = length ?ns" by (simp add: ns'_def)
  have nx: "i < length ?ns \<Longrightarrow> next_of ns' i
      = (if i = x then first rs None else if first (rev ls) None = Some i then Some x else next_of ?ns i)" for i
    by (simp add: ns'_def Link_effect assign_simps)
  have pv: "i < length ?ns \<Longrightarrow> prev_of ns' i
      = (if first rs None = Some i then Some x else if i = x then first (rev ls) None else prev_of ?ns i)" for i
    by (simp add: ns'_def Link_effect assign_simps)
  have val: "nd_value (ns' ! i) = (if i = x then v else nd_value (?ns ! i))" for i
    using x by (simp add: ns'_def Link_effect assign_simps)
  define nx' pv' where fs: "nx' = next_of ns'" "pv' = prev_of ns'"
  have nx': "nx' i = (if i = x then first rs None else if first (rev ls) None = Some i then Some x else next_of ?ns i)"
    and pv': "pv' i = (if first rs None = Some i then Some x else if i = x then first (rev ls) None else prev_of ?ns i)"
    if "i \<in> set (ls @ rs) \<union> set (x # free)" for i using nx[of i] pv[of i] D(4,5)[of i] that by (auto simp: fs)
  have next_seg: "seg nx' (if ls = [] then Some x else ll_pHead l) (ls @ x # rs) None"
  proof (rule seg_insert[OF D(6)])
    show "distinct (ls @ x # rs)" using D(1) x by auto
  qed (use x D(1) in \<open>auto simp: nx' first_rev\<close>)
  have prev_seg: "seg pv' (if rev rs = [] then Some x else ll_pTail l) (rev rs @ x # rev ls) None"
  proof (rule seg_insert)
    show "seg (prev_of ?ns) (ll_pTail l) (rev rs @ rev ls) None" using D(7) by simp
    show "distinct (rev rs @ x # rev ls)" using D(1) x by auto
  qed (use x D(1) in \<open>auto simp: pv' first_hd last_rev split: if_splits\<close>)
  have "nx' i = next_of ?ns i" if "i \<in> set free" for i
    using that x(4) D(3) by (cases ls rule: rev_cases) (auto simp: nx')
  then have "seg nx' (next_of ?ns x) free None"
    using D(8) seg_cong[of free nx' "next_of ?ns"] by simp
  with next_seg prev_seg rep len show ?thesis
    by (auto simp: InsertBetween_def Let_def ll_rep_pFree[OF rep] ll_rep_def node_values_def val fs x
        simp flip: ns'_def split: if_splits)
qed

lemma seg_step: "seg f p (ls @ x # rs) None \<Longrightarrow> f x = first rs None"
  by (auto simp: seg_append dest: seg_first)

lemma RemoveNode_rep:
  assumes rep: "ll_rep l (ls @ x # rs) free"
  shows "ll_rep (RemoveNode x l) (ls @ rs) (x # free)"
    and "nd_value (ll_underlying (RemoveNode x l) ! i) = nd_value (ll_underlying l ! i)"
    and "length (ll_underlying (RemoveNode x l)) = length (ll_underlying l)"
proof -
  let ?ns = "ll_underlying l"
  note D = ll_repD[OF rep]
  have x: "x < length ?ns" "x \<notin> set ls" "x \<notin> set rs" "x \<notin> set free" using D(1,3) D(4)[of x] by auto
  have at: "next_of ?ns x = first rs None" "prev_of ?ns x = first (rev ls) None"
    using seg_step[OF D(6)] seg_step[of "prev_of ?ns" _ "rev rs" x "rev ls"] D(7) by simp_all
  define ns1 where "ns1 = (Link (first (rev ls) None) (first rs None) ?ns)[x :=
    (Link (first (rev ls) None) (first rs None) ?ns ! x)\<lparr>nd_next := first free None\<rparr>]"
  define ns2 where "ns2 = (case first free None of None \<Rightarrow> ns1 | Some f \<Rightarrow> ns1[f := (ns1 ! f)\<lparr>nd_prev := Some x\<rparr>])"
  define ns' where "ns' = ns2[x := (ns2 ! x)\<lparr>nd_prev := None\<rparr>]"
  have len: "length ns' = length ?ns" by (simp add: ns'_def ns2_def ns1_def split: option.splits)
  have ns: "ll_underlying (RemoveNode x l) = ns'"
    by (cases "first (rev ls) None"; cases "first rs None"; cases "first free None")
      (simp_all add: RemoveNode_def Let_def at ns'_def ns2_def ns1_def ll_rep_pFree[OF rep] del: first_None)
  have lens: "length ns1 = length ?ns" "length ns2 = length ?ns"
    by (simp_all add: ns2_def ns1_def split: option.splits)
  have val1: "nd_value (ns1 ! i) = nd_value (?ns ! i)" for i by (simp only: ns1_def assign_simps Link_effect)
  have val2: "nd_value (ns2 ! i) = nd_value (?ns ! i)" for i
    by (cases "first free None") (simp_all only: ns2_def assign_simps val1 option.case)
  have val: "nd_value (ns' ! i) = nd_value (?ns ! i)" for i by (simp only: ns'_def assign_simps val2)
  have nx1: "next_of ns1 i = (if i = x then first free None
      else if first (rev ls) None = Some i then first rs None else next_of ?ns i)" if "i < length ?ns" for i
    using that x(1) by (simp only: ns1_def assign_simps Link_effect length_Link) simp
  have nx2: "next_of ns2 i = next_of ns1 i" for i
    by (cases "first free None") (simp_all only: ns2_def assign_simps option.case)
  have pv1: "prev_of ns1 i = (if first rs None = Some i then first (rev ls) None else prev_of ?ns i)"
    if "i < length ?ns" for i using that by (simp only: ns1_def assign_simps Link_effect)
  have pv2: "prev_of ns2 i = prev_of ns1 i" if "first free None \<noteq> Some i" for i
    using that by (cases "first free None") (auto simp only: ns2_def assign_simps option.case split: if_splits)
  define nx' pv' where fs: "nx' = next_of ns'" "pv' = prev_of ns'"
  have nx': "nx' i = (if i = x then first free None else if first (rev ls) None = Some i then first rs None else next_of ?ns i)"
    if "i < length ?ns" for i using nx1[OF that] by (simp only: fs ns'_def assign_simps nx2)
  have pv': "pv' i = (if first rs None = Some i then first (rev ls) None else prev_of ?ns i)"
    if i: "i \<in> set (ls @ rs)" for i
  proof -
    have "i < length ?ns" "i \<noteq> x" "first free None \<noteq> Some i"
      using i D(3) D(4)[of i] x by (auto simp: first_hd split: if_splits)
    then show ?thesis by (simp only: fs ns'_def assign_simps pv2 pv1 lens if_False simp_thms)
  qed
  have next_seg: "seg nx' (if ls = [] then first rs None else ll_pHead l) (ls @ rs) None"
    by (rule seg_remove[OF D(6) D(1)]) (use x D in \<open>auto simp: nx' first_rev\<close>)
  have prev_seg: "seg pv' (if rev rs = [] then first (rev ls) None else ll_pTail l) (rev rs @ rev ls) None"
  proof (rule seg_remove)
    show "seg (prev_of ?ns) (ll_pTail l) (rev rs @ x # rev ls) None" using D(7) by simp
    show "distinct (rev rs @ x # rev ls)" using D(1) x by auto
  qed (use x D(1) in \<open>auto simp: pv' first_hd last_rev split: if_splits\<close>)
  have "nx' i = next_of ?ns i" if "i \<in> set free" for i
    using that x(4) D(3) D(5)[of i] by (cases ls rule: rev_cases) (auto simp: nx')
  then have "seg nx' (nx' x) free None"
    using D(8) seg_cong[of free nx' "next_of ?ns"] nx'[OF x(1)] by (simp add: ll_rep_pFree[OF rep])
  with next_seg prev_seg have segs: "seg (next_of ns') (if ls = [] then first rs None else ll_pHead l) (ls @ rs) None"
    "seg (prev_of ns') (if rs = [] then first (rev ls) None else ll_pTail l) (rev rs @ rev ls) None"
    "seg (next_of ns') (Some x) (x # free) None" by (simp_all add: fs)
  have ends: "ll_pHead (RemoveNode x l) = (if ls = [] then first rs None else ll_pHead l)"
    "ll_pTail (RemoveNode x l) = (if rs = [] then first (rev ls) None else ll_pTail l)"
    "ll_pFree (RemoveNode x l) = Some x" "ll_size (RemoveNode x l) = ll_size l - 1"
    by (cases ls rule: rev_cases; cases rs; simp add: RemoveNode_def Let_def at)+
  have sets: "distinct ((ls @ rs) @ x # free)" "set ((ls @ rs) @ x # free) = set ((ls @ x # rs) @ free)"
    using D x by auto
  have "ll_size l = of_nat (length ls + length rs) + 1" "length ?ns < 2 ^ 32"
    "set ((ls @ x # rs) @ free) = {..<length ?ns}" using rep by (simp_all only: ll_rep_def) simp
  with segs ends sets show "ll_rep (RemoveNode x l) (ls @ rs) (x # free)"
    by (simp only: ll_rep_def ns len rev_append) simp
  show "nd_value (ll_underlying (RemoveNode x l) ! i) = nd_value (?ns ! i)" by (simp only: ns val)
  show "length (ll_underlying (RemoveNode x l)) = length ?ns" by (simp only: ns len)
qed

section \<open>Loops over an iterator end\<close>

lemma FindFrom_seg:
  "seg (next_of ns) p act None \<Longrightarrow> FindFrom select ns p = Some (List.find (\<lambda>i. select (nd_value (ns ! i))) act)"
proof (induction act arbitrary: p)
  case Nil
  then show ?case by (simp add: FindFrom.simps[of select ns None])
next
  case (Cons x act)
  then show ?case by (auto simp: FindFrom.simps[of select ns "Some x"])
qed

lemma FindFirst_rep:
  "ll_rep l act free \<Longrightarrow> FindFirst select l = Some (List.find (\<lambda>i. select (nd_value (ll_underlying l ! i))) act)"
  unfolding FindFirst_def by (rule FindFrom_seg) (rule ll_repD(6))

text \<open>What the loops do to the values.\<close>

fun list_loop :: "('s \<Rightarrow> bool) \<Rightarrow> ('a \<Rightarrow> 's \<Rightarrow> 'a \<times> 's) \<Rightarrow> 'a list \<Rightarrow> 's \<Rightarrow> 'a list \<times> 's" where
  "list_loop cond body [] s = ([], s)"
| "list_loop cond body (v # vs) s =
     (if cond s then let (v, s) = body v s; (vs, s) = list_loop cond body vs s in (v # vs, s) else (v # vs, s))"

fun list_remove_all :: "('a \<Rightarrow> 's \<Rightarrow> bool \<times> 's) \<Rightarrow> 'a list \<Rightarrow> 's \<Rightarrow> 'a list \<times> 's \<times> nat" where
  "list_remove_all match [] s = ([], s, 0)"
| "list_remove_all match (v # vs) s =
     (let (matches, s) = match v s; (vs, s, n) = list_remove_all match vs s
      in if matches then (vs, s, n + 1) else (v # vs, s, n))"

lemma list_loop_length: "list_loop cond body vs s = (vs', s') \<Longrightarrow> length vs' = length vs"
  by (induction vs arbitrary: s vs' s') (auto split: if_splits prod.splits)

lemma LoopFrom_seg:
  assumes "seg (next_of ns) p act None" "distinct act" "set act \<subseteq> {..<length ns}"
    and "list_loop cond body (map (\<lambda>i. nd_value (ns ! i)) act) s = (vs', s')"
  shows "\<exists>ns'. LoopFrom cond body p ns s = Some (ns', s') \<and> length ns' = length ns
    \<and> (\<forall>i. next_of ns' i = next_of ns i \<and> prev_of ns' i = prev_of ns i)
    \<and> (\<forall>i. i \<notin> set act \<longrightarrow> nd_value (ns' ! i) = nd_value (ns ! i))
    \<and> map (\<lambda>i. nd_value (ns' ! i)) act = vs'"
  using assms
proof (induction act arbitrary: p ns s vs' s')
  case Nil
  then show ?case by (auto simp: LoopFrom.simps[of cond body None])
next
  case (Cons x act)
  from Cons.prems(1) have p: "p = Some x" and rest: "seg (next_of ns) (next_of ns x) act None" by simp_all
  show ?case
  proof (cases "cond s")
    case False
    with Cons.prems(4) p show ?thesis by (auto simp: LoopFrom.simps[of cond body "Some x"])
  next
    case True
    obtain v1 s1 where body: "body (nd_value (ns ! x)) s = (v1, s1)" by (cases "body (nd_value (ns ! x)) s")
    let ?ns = "ns[x := (ns ! x)\<lparr>nd_value := v1\<rparr>]"
    have same: "map (\<lambda>i. nd_value (?ns ! i)) act = map (\<lambda>i. nd_value (ns ! i)) act"
      using Cons.prems(2) by (auto simp: assign_simps)
    obtain vs1 where list: "list_loop cond body (map (\<lambda>i. nd_value (ns ! i)) act) s1 = (vs1, s')" "vs' = v1 # vs1"
      using Cons.prems(4) True body by (auto split: prod.splits)
    have "\<exists>ns'. LoopFrom cond body (next_of ns x) ?ns s1 = Some (ns', s') \<and> length ns' = length ?ns
      \<and> (\<forall>i. next_of ns' i = next_of ?ns i \<and> prev_of ns' i = prev_of ?ns i)
      \<and> (\<forall>i. i \<notin> set act \<longrightarrow> nd_value (ns' ! i) = nd_value (?ns ! i))
      \<and> map (\<lambda>i. nd_value (ns' ! i)) act = vs1"
    proof (rule Cons.IH)
      show "seg (next_of ?ns) (next_of ns x) act None" using rest by (simp add: assign_simps)
      show "list_loop cond body (map (\<lambda>i. nd_value (?ns ! i)) act) s1 = (vs1, s')" by (simp only: same list(1))
    qed (use Cons.prems(2,3) in auto)
    then obtain ns' where ns': "LoopFrom cond body (next_of ns x) ?ns s1 = Some (ns', s')" "length ns' = length ns"
      "\<And>i. next_of ns' i = next_of ns i" "\<And>i. prev_of ns' i = prev_of ns i"
      "\<And>i. i \<notin> set act \<Longrightarrow> nd_value (ns' ! i) = (if i = x then v1 else nd_value (ns ! i))"
      "map (\<lambda>i. nd_value (ns' ! i)) act = vs1"
      using Cons.prems(3) by (auto simp: assign_simps)
    have "LoopFrom cond body p ns s = Some (ns', s')"
      using p True body ns'(1) by (simp add: LoopFrom.simps[of cond body "Some x"])
    with ns'(2-6) list(2) Cons.prems(2) show ?thesis by (intro exI[of _ ns']) auto
  qed
qed

lemma Loop_rep:
  assumes "ll_rep l act free" "list_loop cond body (node_values l act) s = (vs', s')"
  shows "\<exists>l'. Loop cond body l s = Some (l', s') \<and> ll_rep l' act free \<and> node_values l' act = vs'
    \<and> length (ll_underlying l') = length (ll_underlying l)"
proof -
  note D = ll_repD[OF assms(1)]
  obtain ns' where ns': "LoopFrom cond body (ll_pHead l) (ll_underlying l) s = Some (ns', s')"
    "length ns' = length (ll_underlying l)"
    "\<And>i. next_of ns' i = next_of (ll_underlying l) i" "\<And>i. prev_of ns' i = prev_of (ll_underlying l) i"
    "map (\<lambda>i. nd_value (ns' ! i)) act = vs'"
    using LoopFrom_seg[OF D(6,1)] D(4) assms(2) by (fastforce simp: node_values_def)
  have "next_of ns' = next_of (ll_underlying l)" "prev_of ns' = prev_of (ll_underlying l)" using ns'(3,4) by auto
  with assms(1) ns'(1,2,5) show ?thesis by (simp add: Loop_def ll_rep_def node_values_def)
qed

lemma RemoveAllFrom_rep:
  assumes "ll_rep l (ks @ act) free" "list_remove_all match (node_values l act) s = (vs', s', n)"
  shows "\<exists>l' act' free'. RemoveAllFrom match (first act None) (first (tl act) None) l s c = Some (l', s', c + of_nat n)
    \<and> ll_rep l' (ks @ act') free' \<and> node_values l' (ks @ act') = node_values l ks @ vs'
    \<and> length (ll_underlying l') = length (ll_underlying l)"
  using assms
proof (induction act arbitrary: l ks free s vs' n c)
  case Nil
  then show ?case by (auto simp: RemoveAllFrom.simps[of match None] node_values_def)
next
  case (Cons x act)
  let ?v = "nd_value (ll_underlying l ! x)"
  obtain matches s1 where m: "match ?v s = (matches, s1)" by (cases "match ?v s")
  obtain vs1 n1 where rest: "list_remove_all match (node_values l act) s1 = (vs1, s', n1)"
    and out: "(vs', n) = (if matches then (vs1, n1 + 1) else (?v # vs1, n1))"
    using Cons.prems(2) m by (auto simp: node_values_def split: prod.splits if_splits)
  have next_step: "Next (ll_underlying l) (first act None) = (first act None, first (tl act) None)"
  proof (cases act)
    case (Cons y ys)
    then have "seg (next_of (ll_underlying l)) (ll_pHead l) ((ks @ [x]) @ y # ys) None"
      using ll_repD(6)[OF Cons.prems(1)] Cons by simp
    from seg_step[OF this] Cons show ?thesis by (simp add: Next_def)
  qed (simp add: Next_def)
  show ?case
  proof (cases matches)
    case True
    note R = RemoveNode_rep[OF Cons.prems(1)]
    have same: "node_values (RemoveNode x l) xs = node_values l xs" for xs by (simp add: node_values_def R(2))
    from Cons.IH[OF R(1), unfolded same, OF rest, of "c + 1"] True m next_step out R(3) show ?thesis
      by (simp add: RemoveAllFrom.simps[of match "Some x"] add_ac)
  next
    case False
    have "ll_rep l ((ks @ [x]) @ act) free" using Cons.prems(1) by simp
    from Cons.IH[OF this rest, of c] obtain l' act' free' where
      "RemoveAllFrom match (first act None) (first (tl act) None) l s1 c = Some (l', s', c + of_nat n1)"
      "ll_rep l' (ks @ x # act') free'" "node_values l' (ks @ x # act') = node_values l ks @ ?v # vs1"
      "length (ll_underlying l') = length (ll_underlying l)"
      by (auto simp: node_values_def)
    with False m next_step out show ?thesis
      by (intro exI[of _ l'] exI[of _ "x # act'"] exI[of _ free']) (simp add: RemoveAllFrom.simps[of match "Some x"])
  qed
qed

lemma RemoveAll_rep:
  assumes "ll_rep l act free" "list_remove_all match (node_values l act) s = (vs', s', n)"
  shows "\<exists>l' act' free'. RemoveAll match l s = Some (l', s', of_nat n) \<and> ll_rep l' act' free' \<and> node_values l' act' = vs'
    \<and> length (ll_underlying l') = length (ll_underlying l)"
proof -
  have "Next (ll_underlying l) (ll_pHead l) = (first act None, first (tl act) None)"
  proof (cases act)
    case (Cons y ys)
    then have "seg (next_of (ll_underlying l)) (ll_pHead l) ([] @ y # ys) None" using ll_repD(6)[OF assms(1)] by simp
    with seg_step[OF this] Cons show ?thesis by (simp add: Next_def)
  qed (use seg_first[OF ll_repD(6)[OF assms(1)]] in \<open>simp add: Next_def\<close>)
  with RemoveAllFrom_rep[of l "[]" act free match s vs' s' n 0] assms show ?thesis
    by (auto simp: RemoveAll_def node_values_def)
qed

section \<open>Construction and clearing\<close>

lemma seg_upt:
  assumes "\<And>i. a \<le> i \<Longrightarrow> i < n \<Longrightarrow> f i = (if i + 1 < n then Some (i + 1) else None)"
  shows "seg f (first [a..<n] None) [a..<n] None"
  using assms
proof (induction "n - a" arbitrary: a)
  case (Suc k)
  then have a: "a < n" "[a..<n] = a # [Suc a..<n]" by (simp_all add: upt_rec)
  have IH: "seg f (first [Suc a..<n] None) [Suc a..<n] None" using Suc by (intro Suc.hyps(1)) auto
  have "f a = first [Suc a..<n] None" using Suc.prems[of a] a(1) by (simp add: upt_rec)
  with IH a(2) show ?case by simp
qed simp

lemma LinkedList_make_rep:
  "ll_rep (LinkedList_make dflt maxSize) [] [0..<unat maxSize]"
  "length (ll_underlying (LinkedList_make dflt maxSize)) = unat maxSize"
proof -
  define ns where "ns = replicate (unat maxSize) \<lparr>nd_value = dflt, nd_prev = None, nd_next = None\<rparr>"
  have linked: "length (fold (\<lambda>i. Link (Some (i - 1)) (Some i)) [1..<k] ns) = length ns"
    "i < length ns \<Longrightarrow> next_of (fold (\<lambda>i. Link (Some (i - 1)) (Some i)) [1..<k] ns) i = (if i + 1 < k then Some (i + 1) else None)"
    if "k \<le> length ns" for k i
    using that
  proof (induction k arbitrary: i)
    case (Suc k)
    { case 1 with Suc.IH show ?case by (cases "1 \<le> k") simp_all }
    { case 2 with Suc.IH show ?case by (cases "1 \<le> k") (auto simp: Link_effect ns_def) }
  qed (simp_all add: ns_def)
  have small: "unat maxSize < 2 ^ 32" using unsigned_less[of maxSize] by simp
  have len: "length ns = unat maxSize" by (simp add: ns_def)
  have empty: "ns = [] \<longleftrightarrow> unat maxSize = 0" unfolding len[symmetric] by simp
  have "seg (next_of (fold (\<lambda>i. Link (Some (i - 1)) (Some i)) [1..<length ns] ns)) (first [0..<length ns] None)
      [0..<length ns] None"
    by (rule seg_upt) (use linked(2)[OF order.refl] in blast)
  then show "ll_rep (LinkedList_make dflt maxSize) [] [0..<unat maxSize]"
    "length (ll_underlying (LinkedList_make dflt maxSize)) = unat maxSize"
    using small linked(1)[of "length ns"]
    by (auto simp: LinkedList_make_def Initialize_def ll_rep_def len empty first_hd simp flip: ns_def split: if_splits)
qed

lemma ClearList_rep:
  assumes "ll_rep l act free"
  shows "\<exists>free'. ll_rep (ClearList l) [] free'" "length (ll_underlying (ClearList l)) = length (ll_underlying l)"
proof -
  note D = ll_repD[OF assms]
  show "length (ll_underlying (ClearList l)) = length (ll_underlying l)" by (simp add: ClearList_def)
  have empty: "IsNotEmpty l \<longleftrightarrow> act \<noteq> []"
    using ll_rep_length(2)[OF assms] by (auto simp: IsNotEmpty_def simp flip: unat_eq_0)
  have tail: "ll_pTail l = first (rev act) None" using D(7) seg_first by blast
  show "\<exists>free'. ll_rep (ClearList l) [] free'"
  proof (cases "act = []")
    case True
    with assms empty show ?thesis by (auto simp: ClearList_def)
  next
    case False
    let ?ns = "Link (ll_pTail l) (ll_pFree l) (ll_underlying l)"
    have nx: "i < length (ll_underlying l) \<Longrightarrow> next_of ?ns i
        = (if i = last act then first free None else next_of (ll_underlying l) i)" for i
      using False by (auto simp: Link_effect tail first_rev ll_rep_pFree[OF assms])
    have "seg (next_of ?ns) (ll_pHead l) act (first free None)"
      by (rule seg_relink[OF D(6,1) False]) (use D False in \<open>auto simp: nx dest: in_set_butlastD\<close>,
          metis D(1,4) append_butlast_last_id distinct_append in_set_butlastD nx not_distinct_conv_prefix)
    moreover have "next_of ?ns i = next_of (ll_underlying l) i" if "i \<in> set free" for i
      using nx[OF D(5)[OF that]] that D(3) last_in_set[OF False] by auto
    then have "seg (next_of ?ns) (first free None) free None"
      using D(8) seg_cong[of free "next_of ?ns" "next_of (ll_underlying l)"]
      by (simp add: ll_rep_pFree[OF assms])
    ultimately have "seg (next_of ?ns) (ll_pHead l) (act @ free) None" by (simp add: seg_append)
    with assms False empty have "ll_rep (ClearList l) [] (act @ free)" by (simp add: ClearList_def ll_rep_def)
    then show ?thesis ..
  qed
qed

section \<open>The contract of the list\<close>

text \<open>\<open>holds l vs\<close>: the list has the values \<open>vs\<close>, in order.  \<open>Assign\<close> writes a value through a node pointer.\<close>

definition holds :: "'a LinkedList \<Rightarrow> 'a list \<Rightarrow> bool" where
  "holds l vs \<longleftrightarrow> (\<exists>act free. ll_rep l act free \<and> node_values l act = vs)"

definition ValueAt :: "'a LinkedList \<Rightarrow> nat \<Rightarrow> 'a" where
  "ValueAt l i = nd_value (ll_underlying l ! i)"

definition Assign :: "nat \<Rightarrow> 'a \<Rightarrow> 'a LinkedList \<Rightarrow> 'a LinkedList" where
  "Assign i v l = l\<lparr>ll_underlying := (ll_underlying l)[i := (ll_underlying l ! i)\<lparr>nd_value := v\<rparr>]\<rparr>"

abbreviation capacity :: "'a LinkedList \<Rightarrow> nat" where
  "capacity l \<equiv> length (ll_underlying l)"

text \<open>
  What a client may rely on: a bounded sequence that is full exactly at its capacity; \<open>add\<close> appends,
  \<open>remove_first\<close> takes out the first match and leaves its node readable and writable, the loops visit
  every value once and end.
\<close>

locale bounded_list =
  fixes has_values :: "'l \<Rightarrow> 'a list \<Rightarrow> bool"
    and cap :: "'l \<Rightarrow> nat"
    and is_full :: "'l \<Rightarrow> bool"
    and add :: "'a \<Rightarrow> 'l \<Rightarrow> 'l \<times> nat option"
    and value_at :: "'l \<Rightarrow> nat \<Rightarrow> 'a"
    and assign :: "nat \<Rightarrow> 'a \<Rightarrow> 'l \<Rightarrow> 'l"
    and remove_first :: "('a \<Rightarrow> bool) \<Rightarrow> 'l \<Rightarrow> ('l \<times> nat option) option"
    and remove_all :: "('a \<Rightarrow> 's \<Rightarrow> bool \<times> 's) \<Rightarrow> 'l \<Rightarrow> 's \<Rightarrow> ('l \<times> 's \<times> uint32) option"
    and loop :: "('s \<Rightarrow> bool) \<Rightarrow> ('a \<Rightarrow> 's \<Rightarrow> 'a \<times> 's) \<Rightarrow> 'l \<Rightarrow> 's \<Rightarrow> ('l \<times> 's) option"
  assumes full: "has_values l vs \<Longrightarrow> is_full l \<longleftrightarrow> length vs = cap l"
    and bounded: "has_values l vs \<Longrightarrow> length vs \<le> cap l"
    and small: "has_values l vs \<Longrightarrow> length vs < 2 ^ 32"
    and add_full: "is_full l \<Longrightarrow> add v l = (l, None)"
    and add: "has_values l vs \<Longrightarrow> \<not> is_full l \<Longrightarrow> \<exists>l' i. add v l = (l', Some i) \<and> value_at l' i = v
      \<and> cap l' = cap l \<and> (\<forall>w. has_values (assign i w l') (vs @ [w]) \<and> cap (assign i w l') = cap l)"
    and remove_none: "has_values l vs \<Longrightarrow> \<forall>v\<in>set vs. \<not> P v \<Longrightarrow> remove_first P l = Some (l, None)"
    and remove_first: "has_values l (us @ v # ws) \<Longrightarrow> P v \<Longrightarrow> \<forall>u\<in>set us. \<not> P u \<Longrightarrow>
      \<exists>l' i. remove_first P l = Some (l', Some i) \<and> value_at l' i = v
        \<and> cap l' = cap l \<and> (\<forall>w. has_values (assign i w l') (us @ ws) \<and> cap (assign i w l') = cap l)"
    and remove_all: "has_values l vs \<Longrightarrow> list_remove_all match vs s = (vs', s', n) \<Longrightarrow>
      \<exists>l'. remove_all match l s = Some (l', s', of_nat n) \<and> has_values l' vs' \<and> cap l' = cap l"
    and loop: "has_values l vs \<Longrightarrow> list_loop cond body vs s = (vs', s') \<Longrightarrow>
      \<exists>l'. loop cond body l s = Some (l', s') \<and> has_values l' vs' \<and> cap l' = cap l"
begin

text \<open>Replacing the first match by a new value at the end always finds room.\<close>

lemma replace_first:
  assumes "has_values l vs" "\<exists>v\<in>set vs. P v"
  shows "\<exists>us v ws l1 i l2 j. vs = us @ v # ws \<and> P v \<and> (\<forall>u\<in>set us. \<not> P u)
    \<and> remove_first P l = Some (l1, Some i) \<and> value_at l1 i = v
    \<and> add x (assign i w l1) = (l2, Some j) \<and> value_at l2 j = x \<and> cap l2 = cap l
    \<and> (\<forall>y. has_values (assign j y l2) (us @ ws @ [y]) \<and> cap (assign j y l2) = cap l)"
proof -
  obtain us v ws where vs: "vs = us @ v # ws" "P v" "\<forall>u\<in>set us. \<not> P u"
    using split_list_first_prop[OF assms(2)] by blast
  obtain l1 i where l1: "remove_first P l = Some (l1, Some i)" "value_at l1 i = v"
    "has_values (assign i w l1) (us @ ws)" "cap (assign i w l1) = cap l"
    using remove_first[OF assms(1)[unfolded vs(1)] vs(2,3)] by blast
  have "\<not> is_full (assign i w l1)"
    using full[OF l1(3)] bounded[OF assms(1)] vs(1) l1(4) by simp
  from add[OF l1(3) this, of x] l1(4) show ?thesis using vs l1(1,2) by (metis append.assoc)
qed

end

lemma Assign_rep: "ll_rep l act free \<Longrightarrow> ll_rep (Assign i w l) act free"
proof -
  have "next_of (ll_underlying (Assign i w l)) = next_of (ll_underlying l)"
    "prev_of (ll_underlying (Assign i w l)) = prev_of (ll_underlying l)" by (simp_all add: Assign_def assign_simps)
  moreover have "length (ll_underlying (Assign i w l)) = capacity l" "ll_pHead (Assign i w l) = ll_pHead l"
    "ll_pTail (Assign i w l) = ll_pTail l" "ll_pFree (Assign i w l) = ll_pFree l" "ll_size (Assign i w l) = ll_size l"
    by (simp_all add: Assign_def)
  ultimately show "ll_rep l act free \<Longrightarrow> ll_rep (Assign i w l) act free" by (simp only: ll_rep_def)
qed

lemma Assign_values:
  "i \<notin> set act \<Longrightarrow> node_values (Assign i w l) act = node_values l act"
  "i < capacity l \<Longrightarrow> ValueAt (Assign i w l) i = w" "capacity (Assign i w l) = capacity l"
  by (auto simp: node_values_def ValueAt_def Assign_def assign_simps)

lemma node_values_simps [simp]:
  "node_values l [] = []" "node_values l (i # is) = ValueAt l i # node_values l is"
  "node_values l (is @ js) = node_values l is @ node_values l js" "length (node_values l is) = length is"
  by (simp_all add: node_values_def ValueAt_def)

lemma Add_holds:
  assumes "holds l vs" "\<not> IsFull l"
  shows "\<exists>l' i. Add v l = (l', Some i) \<and> ValueAt l' i = v \<and> capacity l' = capacity l
    \<and> (\<forall>w. holds (Assign i w l') (vs @ [w]) \<and> capacity (Assign i w l') = capacity l)"
proof -
  obtain act free where rep: "ll_rep l act free" and vs: "node_values l act = vs" using assms(1) by (auto simp: holds_def)
  obtain x free' where free: "free = x # free'"
    using assms(2) ll_rep_pFree[OF rep] by (cases free) (auto simp: IsFull_def)
  have tail: "ll_pTail l = first (rev act) None" using ll_repD(7)[OF rep] seg_first by blast
  have "ll_rep l (act @ []) (x # free')" using rep free by simp
  from InsertBetween_rep[OF this, of v] obtain l' where l': "Add v l = (l', Some x)" "ll_rep l' (act @ [x]) free'"
    "node_values l' (act @ [x]) = vs @ [v]" "capacity l' = capacity l"
    by (auto simp: Add_def tail vs)
  have x: "x \<notin> set act" "x < capacity l'" using ll_repD(1)[OF l'(2)] ll_repD(4)[OF l'(2)] by auto
  have "node_values l' act = vs" "ValueAt l' x = v" using l'(3) vs by simp_all
  then have "node_values (Assign x w l') (act @ [x]) = vs @ [w]" for w
    using x by (simp add: Assign_values)
  then have "holds (Assign x w l') (vs @ [w])" for w
    using Assign_rep[OF l'(2)] unfolding holds_def by blast
  then show ?thesis
    by (intro exI[of _ l'] exI[of _ x]) (simp add: l'(1,4) \<open>ValueAt l' x = v\<close> Assign_values(3))
qed

lemma find_first_split:
  "find P vs = None \<longleftrightarrow> (\<forall>v\<in>set vs. \<not> P v)"
  "\<forall>u\<in>set us. \<not> P u \<Longrightarrow> P v \<Longrightarrow> find P (us @ v # ws) = Some v"
  by (auto simp: find_None_iff) (induction us; simp)

lemma RemoveFirst_none:
  assumes "holds l vs" "\<forall>v\<in>set vs. \<not> P v"
  shows "RemoveFirst P l = Some (l, None)"
proof -
  obtain act free where rep: "ll_rep l act free" "vs = node_values l act" using assms(1) by (auto simp: holds_def)
  have "find (\<lambda>i. P (nd_value (ll_underlying l ! i))) act = None"
    using assms(2) unfolding find_first_split(1) rep(2) by (simp add: node_values_def)
  then show ?thesis by (simp add: RemoveFirst_def FindFirst_rep[OF rep(1)])
qed

lemma split_values:
  assumes "ll_rep l act free" "node_values l act = us @ v # ws"
  obtains as x bs where "act = as @ x # bs" "node_values l as = us" "ValueAt l x = v" "node_values l bs = ws"
proof -
  from assms(2) have "map (ValueAt l) act = us @ v # ws" by (simp add: node_values_def ValueAt_def[abs_def])
  then obtain as x bs where "act = as @ x # bs" "map (ValueAt l) as = us" "ValueAt l x = v" "map (ValueAt l) bs = ws"
    by (auto simp: map_eq_append_conv Cons_eq_map_conv map_eq_Cons_conv)
  then show ?thesis by (intro that) (auto simp: node_values_def ValueAt_def[abs_def])
qed

lemma RemoveFirst_holds:
  assumes "holds l (us @ v # ws)" "P v" "\<forall>u\<in>set us. \<not> P u"
  shows "\<exists>l' i. RemoveFirst P l = Some (l', Some i) \<and> ValueAt l' i = v \<and> capacity l' = capacity l
    \<and> (\<forall>w. holds (Assign i w l') (us @ ws) \<and> capacity (Assign i w l') = capacity l)"
proof -
  obtain act free where rep: "ll_rep l act free" and vs: "node_values l act = us @ v # ws"
    using assms(1) by (auto simp: holds_def)
  from split_values[OF rep vs] obtain as x bs where act: "act = as @ x # bs"
    and vals: "node_values l as = us" "ValueAt l x = v" "node_values l bs = ws" .
  note R = RemoveNode_rep[OF rep[unfolded act]]
  have "find (\<lambda>i. P (nd_value (ll_underlying l ! i))) act = Some x"
    unfolding act by (rule find_first_split(2)) (use assms(2,3) vals in \<open>auto simp: node_values_def ValueAt_def\<close>)
  then have remove: "RemoveFirst P l = Some (RemoveNode x l, Some x)"
    by (simp add: RemoveFirst_def FindFirst_rep[OF rep])
  have same: "node_values (RemoveNode x l) xs = node_values l xs" for xs by (simp add: node_values_def R(2))
  have x: "x \<notin> set (as @ bs)" using ll_repD(1)[OF rep] act by auto
  have "node_values (Assign x w (RemoveNode x l)) (as @ bs) = us @ ws" for w
    using Assign_values(1)[OF x, of w "RemoveNode x l"] same vals by simp
  then have "holds (Assign x w (RemoveNode x l)) (us @ ws)" for w
    using Assign_rep[OF R(1)] unfolding holds_def by blast
  moreover have "ValueAt (RemoveNode x l) x = v" using vals(2) R(2) by (simp add: ValueAt_def)
  ultimately show ?thesis
    by (intro exI[of _ "RemoveNode x l"] exI[of _ x]) (simp add: remove R(3) Assign_values(3))
qed

interpretation ll: bounded_list holds capacity IsFull Add ValueAt Assign RemoveFirst RemoveAll Loop
proof unfold_locales
  fix l :: "'a LinkedList" and vs :: "'a list"
  assume "holds l vs"
  then obtain act free where rep: "ll_rep l act free" "node_values l act = vs" by (auto simp: holds_def)
  then have len: "length vs = length act" by auto
  show "IsFull l \<longleftrightarrow> length vs = capacity l" using ll_rep_IsFull[OF rep(1)] len by simp
  show "length vs \<le> capacity l" "length vs < 2 ^ 32" using ll_rep_length(1,3)[OF rep(1)] len by simp_all
next
  fix l :: "'a LinkedList" and v
  assume "IsFull l"
  then show "Add v l = (l, None)" by (simp add: Add_def InsertBetween_def IsFull_def)
next
  fix l :: "'a LinkedList" and vs match s vs' s' n
  assume "holds l vs" "list_remove_all match vs s = (vs', s', n)"
  with RemoveAll_rep[of l _ _ match s vs' s' n]
  show "\<exists>l'. RemoveAll match l s = Some (l', s', of_nat n) \<and> holds l' vs' \<and> capacity l' = capacity l"
    unfolding holds_def by blast
next
  fix l :: "'a LinkedList" and vs cond body s vs' s'
  assume "holds l vs" "list_loop cond body vs s = (vs', s')"
  with Loop_rep[of l _ _ cond body s vs' s']
  show "\<exists>l'. Loop cond body l s = Some (l', s') \<and> holds l' vs' \<and> capacity l' = capacity l"
    unfolding holds_def by blast
qed (rule Add_holds RemoveFirst_none RemoveFirst_holds; assumption)+

lemma LinkedList_make_holds: "holds (LinkedList_make dflt maxSize) []" "capacity (LinkedList_make dflt maxSize) = unat maxSize"
  using LinkedList_make_rep[of dflt maxSize] unfolding holds_def by auto

section \<open>Any sequence of operations\<close>

datatype 'a ListOp =
    OpAdd 'a
  | OpInsert "'a \<Rightarrow> 'a \<Rightarrow> bool" 'a
  | OpRemoveFirst "'a \<Rightarrow> bool"
  | OpRemove 'a
  | OpRemoveAll "'a \<Rightarrow> bool"
  | OpForeach "'a \<Rightarrow> 'a"
  | OpClear

fun list_op :: "'a ListOp \<Rightarrow> 'a LinkedList \<Rightarrow> 'a LinkedList option" where
  "list_op (OpAdd v) l = Some (fst (Add v l))"
| "list_op (OpInsert lt v) l = map_option fst (InsertOrdered lt v l)"
| "list_op (OpRemoveFirst P) l = map_option fst (RemoveFirst P l)"
| "list_op (OpRemove v) l = map_option fst (RemoveValue v l)"
| "list_op (OpRemoveAll P) l = map_option fst (RemoveAll (\<lambda>v _. (P v, ())) l ())"
| "list_op (OpForeach f) l = map_option fst (ForeachList (\<lambda>v _. (f v, ())) l ())"
| "list_op OpClear l = Some (ClearList l)"

fun list_ops :: "'a ListOp list \<Rightarrow> 'a LinkedList \<Rightarrow> 'a LinkedList option" where
  "list_ops [] l = Some l"
| "list_ops (op # ops) l = do {l \<leftarrow> list_op op l; list_ops ops l}"

text \<open>The same operations on a sequence of at most \<open>n\<close> values.\<close>

fun spec_op :: "nat \<Rightarrow> 'a ListOp \<Rightarrow> 'a list \<Rightarrow> 'a list" where
  "spec_op n (OpAdd v) vs = (if length vs < n then vs @ [v] else vs)"
| "spec_op n (OpInsert lt v) vs =
     (if length vs < n then takeWhile (\<lambda>w. \<not> lt v w) vs @ v # dropWhile (\<lambda>w. \<not> lt v w) vs else vs)"
| "spec_op n (OpRemoveFirst P) vs = takeWhile (\<lambda>v. \<not> P v) vs @ tl (dropWhile (\<lambda>v. \<not> P v) vs)"
| "spec_op n (OpRemove v) vs = remove1 v vs"
| "spec_op n (OpRemoveAll P) vs = filter (\<lambda>v. \<not> P v) vs"
| "spec_op n (OpForeach f) vs = map f vs"
| "spec_op n OpClear vs = []"

lemma takeWhile_split:
  "\<forall>u\<in>set us. \<not> P u \<Longrightarrow> P v \<Longrightarrow> takeWhile (\<lambda>v. \<not> P v) (us @ v # ws) = us"
  "\<forall>u\<in>set us. \<not> P u \<Longrightarrow> P v \<Longrightarrow> dropWhile (\<lambda>v. \<not> P v) (us @ v # ws) = v # ws"
  by (induction us) simp_all

lemma FindFirst_cases:
  assumes rep: "ll_rep l act free"
  obtains (none) "\<forall>v\<in>set (node_values l act). \<not> P v" "FindFirst P l = Some None"
    | (some) as x bs where "act = as @ x # bs" "P (ValueAt l x)" "\<forall>u\<in>set (node_values l as). \<not> P u"
        "FindFirst P l = Some (Some x)"
proof (cases "\<exists>v\<in>set (node_values l act). P v")
  case True
  then obtain us v ws where vs: "node_values l act = us @ v # ws" "P v" "\<forall>u\<in>set us. \<not> P u"
    using split_list_first_prop by metis
  from split_values[OF rep vs(1)] obtain as x bs where act: "act = as @ x # bs"
    and vals: "node_values l as = us" "ValueAt l x = v" "node_values l bs = ws" .
  have "find (\<lambda>i. P (nd_value (ll_underlying l ! i))) act = Some x"
    unfolding act by (rule find_first_split(2)) (use vs(2,3) vals in \<open>auto simp: node_values_def ValueAt_def\<close>)
  with act vals vs(2,3) show thesis by (intro some[of as x bs]) (simp_all add: FindFirst_rep[OF rep])
next
  case False
  then have "find (\<lambda>i. P (nd_value (ll_underlying l ! i))) act = None"
    unfolding find_first_split(1) by (simp add: node_values_def)
  with False show thesis by (intro none) (simp_all add: FindFirst_rep[OF rep])
qed

lemma RemoveNode_holds:
  assumes "ll_rep l (as @ x # bs) free"
  shows "holds (RemoveNode x l) (node_values l as @ node_values l bs)"
  using RemoveNode_rep[OF assms] unfolding holds_def
  by (intro exI[of _ "as @ bs"] exI[of _ "x # free"]) (simp add: node_values_def)

lemma Assign_same: "ValueAt l i = v \<Longrightarrow> Assign i v l = l"
  by (auto simp: Assign_def ValueAt_def)

lemma Add_holds_plain:
  assumes "holds l vs" "\<not> IsFull l"
  shows "\<exists>l' i. Add v l = (l', Some i) \<and> holds l' (vs @ [v]) \<and> capacity l' = capacity l"
  using Add_holds[OF assms, of v] Assign_same by metis

lemma InsertBetween_holds:
  assumes "ll_rep l (as @ bs) (x # free)"
  shows "\<exists>l'. InsertBetween v (first (rev as) None) (first bs None) l = (l', Some x)
    \<and> holds l' (node_values l as @ v # node_values l bs) \<and> capacity l' = capacity l"
  using InsertBetween_rep[OF assms, of v] unfolding holds_def by blast

lemma InsertOrdered_holds:
  assumes "holds l vs" "\<not> IsFull l"
  shows "\<exists>l' i. InsertOrdered lt v l = Some (l', Some i)
    \<and> holds l' (takeWhile (\<lambda>w. \<not> lt v w) vs @ v # dropWhile (\<lambda>w. \<not> lt v w) vs) \<and> capacity l' = capacity l"
proof -
  obtain act free where rep: "ll_rep l act free" and vs: "node_values l act = vs" using assms(1) by (auto simp: holds_def)
  obtain x free' where free: "free = x # free'"
    using assms(2) ll_rep_pFree[OF rep] by (cases free) (auto simp: IsFull_def)
  show ?thesis
    using rep
  proof (cases rule: FindFirst_cases[where P = "\<lambda>w. lt v w"])
    case none
    have t: "takeWhile (\<lambda>w. \<not> lt v w) vs = vs" "dropWhile (\<lambda>w. \<not> lt v w) vs = []"
      using none(1) vs by (simp_all add: takeWhile_eq_all_conv)
    have "ll_pTail l = first (rev act) None" using ll_repD(7)[OF rep] seg_first by blast
    then have "InsertOrdered lt v l = Some (InsertBetween v (first (rev act) None) (first [] None) l)"
      using none(2) assms(2) by (auto simp: InsertOrdered_def IsFull_def)
    moreover have "ll_rep l (act @ []) (x # free')" using rep free by simp
    ultimately show ?thesis unfolding t using InsertBetween_holds[of l act "[]" x free' v] vs by auto
  next
    case (some as y bs)
    have eq: "vs = node_values l as @ ValueAt l y # node_values l bs" using some(1) vs by auto
    have "prev_of (ll_underlying l) y = first (rev as) None"
      using seg_step[of "prev_of (ll_underlying l)" _ "rev bs" y "rev as"] ll_repD(7)[OF rep] some(1) by simp
    then have "InsertOrdered lt v l = Some (InsertBetween v (first (rev as) None) (first (y # bs) None) l)"
      using some(4) assms(2) by (auto simp: InsertOrdered_def IsFull_def)
    moreover have t: "takeWhile (\<lambda>w. \<not> lt v w) vs = node_values l as"
      "dropWhile (\<lambda>w. \<not> lt v w) vs = node_values l (y # bs)"
      using some(2,3) by (simp_all add: eq takeWhile_split)
    moreover have "ll_rep l (as @ y # bs) (x # free')" using rep free some(1) by simp
    ultimately show ?thesis unfolding t using InsertBetween_holds[of l as "y # bs" x free' v] by auto
  qed
qed

lemma list_remove_all_filter: "list_remove_all (\<lambda>v _. (P v, ())) vs () = (filter (\<lambda>v. \<not> P v) vs, (), length (filter P vs))"
  by (induction vs) simp_all

lemma list_loop_map: "list_loop (\<lambda>_. True) (\<lambda>v _. (f v, ())) vs () = (map f vs, ())"
  by (induction vs) simp_all

lemma list_op_refines:
  assumes "holds l vs"
  shows "\<exists>l'. list_op op l = Some l' \<and> holds l' (spec_op (capacity l) op vs) \<and> capacity l' = capacity l"
proof -
  obtain act free where rep: "ll_rep l act free" and vs: "node_values l act = vs" using assms by (auto simp: holds_def)
  have removed: "capacity (RemoveNode x l) = capacity l" "holds (RemoveNode x l) (node_values l as @ node_values l bs)"
    if "act = as @ x # bs" for as x bs using RemoveNode_rep(3) RemoveNode_holds rep that by blast+
  show ?thesis
  proof (cases op)
    case (OpAdd v)
    have "IsFull l \<longleftrightarrow> \<not> length vs < capacity l" using ll.full[OF assms] ll.bounded[OF assms] by auto
    with OpAdd ll.add_full[of l v] assms Add_holds_plain[OF assms, of v] show ?thesis by (cases "IsFull l") auto
  next
    case (OpRemoveFirst P)
    show ?thesis using rep
    proof (cases rule: FindFirst_cases[where P = P])
      case none
      then have t: "takeWhile (\<lambda>v. \<not> P v) vs = vs" "dropWhile (\<lambda>v. \<not> P v) vs = []" using vs by simp_all
      have "spec_op (capacity l) op vs = vs" unfolding OpRemoveFirst spec_op.simps t by simp
      with OpRemoveFirst none assms show ?thesis by (simp add: RemoveFirst_def)
    qed (use OpRemoveFirst vs removed in \<open>auto simp: RemoveFirst_def takeWhile_split\<close>)
  next
    case (OpRemove v)
    show ?thesis using rep
      by (cases rule: FindFirst_cases[where P = "\<lambda>w. w = v"])
        (use OpRemove assms vs removed in \<open>auto simp: RemoveValue_def remove1_idem remove1_append\<close>)
  next
    case (OpRemoveAll P)
    then show ?thesis using ll.remove_all[OF assms list_remove_all_filter, of P] by auto
  next
    case (OpForeach f)
    then show ?thesis using ll.loop[OF assms list_loop_map, of f] by (auto simp: ForeachList_def)
  next
    case OpClear
    then show ?thesis using ClearList_rep[OF rep] by (auto simp: holds_def)
  next
    case (OpInsert lt v)
    have "IsFull l \<longleftrightarrow> \<not> length vs < capacity l" using ll.full[OF assms] ll.bounded[OF assms] by auto
    with OpInsert InsertOrdered_holds[OF assms, of lt v] assms show ?thesis
      by (cases "IsFull l") (auto simp: InsertOrdered_def IsFull_def)
  qed
qed

lemma list_ops_refine:
  "holds l vs \<Longrightarrow> \<exists>l'. list_ops ops l = Some l' \<and> holds l' (fold (spec_op (capacity l)) ops vs) \<and> capacity l' = capacity l"
proof (induction ops arbitrary: l vs)
  case (Cons op ops)
  obtain l1 where l1: "list_op op l = Some l1" "holds l1 (spec_op (capacity l) op vs)" "capacity l1 = capacity l"
    using list_op_refines[OF Cons.prems] by blast
  from Cons.IH[OF l1(2)] l1(1,3) show ?case by simp
qed simp

lemma sorted_around:
  assumes "\<And>a b. lt a b \<Longrightarrow> \<not> lt b a" "\<And>a b c. \<not> lt b a \<Longrightarrow> \<not> lt c b \<Longrightarrow> \<not> lt c a"
    and "sorted_wrt (\<lambda>a b. \<not> lt b a) vs"
  shows "sorted_wrt (\<lambda>a b. \<not> lt b a) (takeWhile (\<lambda>w. \<not> lt v w) vs @ v # dropWhile (\<lambda>w. \<not> lt v w) vs)"
  using assms(3)
proof (induction vs)
  case (Cons w vs)
  have le: "\<not> lt u w" if "u \<in> set vs" for u using Cons.prems that by simp
  show ?case
  proof (cases "lt v w")
    case True
    have "\<not> lt w v" using assms(1)[OF True] .
    then have "\<not> lt u v" if "u \<in> set (w # vs)" for u using assms(2)[of w v u] le that by auto
    with True Cons.prems show ?thesis by simp
  next
    case False
    have "\<not> lt u w" if "u \<in> set (takeWhile (\<lambda>w. \<not> lt v w) vs @ v # dropWhile (\<lambda>w. \<not> lt v w) vs)" for u
      using that le False by (auto dest: set_takeWhileD set_dropWhileD)
    with False Cons.IH Cons.prems show ?thesis by simp
  qed
qed simp

section \<open>Properties\<close>

text \<open>
  \<^bold>\<open>C22\<close>.  The array-backed list refines a bounded sequence.  After any sequence of insertions,
  removals, updates and clearings on a new list, every loop of which ends, the list has exactly the
  values the sequence operations give, every node of the array is either in the list or free, and
  it is full exactly when it has as many values as the array has nodes.
\<close>

theorem LinkedList_refines_sequence:
  "\<exists>l. list_ops ops (LinkedList_make dflt maxSize) = Some l
    \<and> holds l (fold (spec_op (unat maxSize)) ops []) \<and> capacity l = unat maxSize
    \<and> unat (ll_size l) = length (fold (spec_op (unat maxSize)) ops [])
    \<and> (IsFull l \<longleftrightarrow> length (fold (spec_op (unat maxSize)) ops []) = unat maxSize)"
proof -
  from list_ops_refine[OF LinkedList_make_holds(1)[of dflt maxSize], of ops]
  obtain l where l: "list_ops ops (LinkedList_make dflt maxSize) = Some l"
    "holds l (fold (spec_op (unat maxSize)) ops [])" "capacity l = unat maxSize"
    by (auto simp: LinkedList_make_holds(2))
  moreover have "unat (ll_size l) = length (fold (spec_op (unat maxSize)) ops [])"
    using l(2) ll_rep_length(2) node_values_simps(4) unfolding holds_def by metis
  ultimately show ?thesis using ll.full[OF l(2)] by auto
qed

text \<open>
  Insertion with a comparison keeps the list ordered.  If \<open>lt\<close> is a strict weak order and no
  value precedes a smaller one, then \<^verbatim>\<open>Insert\<close> with \<open>lt\<close> finds a free node, ends, and leaves a list
  with one more value that is ordered again.
\<close>

theorem InsertOrdered_sorted:
  assumes "holds l vs" "\<not> IsFull l" "sorted_wrt (\<lambda>a b. \<not> lt b a) vs"
    and "\<And>a b. lt a b \<Longrightarrow> \<not> lt b a" "\<And>a b c. \<not> lt b a \<Longrightarrow> \<not> lt c b \<Longrightarrow> \<not> lt c a"
  shows "\<exists>l' i us ws. InsertOrdered lt v l = Some (l', Some i) \<and> vs = us @ ws \<and> holds l' (us @ v # ws)
    \<and> sorted_wrt (\<lambda>a b. \<not> lt b a) (us @ v # ws)"
proof -
  let ?us = "takeWhile (\<lambda>w. \<not> lt v w) vs" and ?ws = "dropWhile (\<lambda>w. \<not> lt v w) vs"
  have "\<exists>l' i. InsertOrdered lt v l = Some (l', Some i) \<and> holds l' (?us @ v # ?ws)"
    using InsertOrdered_holds[OF assms(1,2), of lt v] by blast
  moreover have "sorted_wrt (\<lambda>a b. \<not> lt b a) (?us @ v # ?ws)"
    by (rule sorted_around[of lt, OF assms(4,5,3)])
  ultimately show ?thesis by (metis takeWhile_dropWhile_id)
qed

theorem InsertOrdered_sorted_witness:
  "\<exists>l l' i us ws. list_ops [OpAdd 3, OpAdd 7] (LinkedList_make (0::int) 5) = Some l
    \<and> InsertOrdered (<) 4 l = Some (l', Some i) \<and> [3, 7] = us @ ws \<and> holds l' (us @ 4 # ws)"
proof -
  from list_ops_refine[OF LinkedList_make_holds(1)[of "0::int" 5], of "[OpAdd 3, OpAdd 7]"]
  obtain l where l: "list_ops [OpAdd 3, OpAdd 7] (LinkedList_make (0::int) 5) = Some l" "holds l [3, 7]" "capacity l = 5"
    by (auto simp: LinkedList_make_holds(2))
  have "\<not> IsFull l" using ll.full[OF l(2)] l(3) by simp
  have "\<exists>l' i us ws. InsertOrdered (<) 4 l = Some (l', Some i) \<and> [3, 7] = us @ ws \<and> holds l' (us @ 4 # ws)
      \<and> sorted_wrt (\<lambda>a b. \<not> b < a) (us @ 4 # ws)"
    by (rule InsertOrdered_sorted[OF l(2) \<open>\<not> IsFull l\<close>]) simp_all
  with l(1) show ?thesis by blast
qed

end
