(* ===== verification/EventBuffer.thy ===== *)
theory EventBuffer
  imports SOERecord LinkedList
begin

text \<open>
  \<^verbatim>\<open>outstation/EventBuffer\<close>: the sequence of events of an outstation, in a bounded linked list, with
  the counters of all, selected and written events.  Every operation is an \<open>option\<close>: \<open>None\<close> is a null
  pointer that is dereferenced, or a loop over the list that does not end.
\<close>

section \<open>The buffer\<close>

record EventBuffer =
  eb_overflow :: bool
  eb_config :: EventBufferConfig
  eb_events :: "SOERecord LinkedList"
  eb_totalCounts :: EventCount
  eb_selectedCounts :: EventCount
  eb_writtenCounts :: EventCount

definition EventBuffer_make :: "EventBufferConfig \<Rightarrow> EventBuffer" where
  "EventBuffer_make config =
     \<lparr>eb_overflow = False, eb_config = config, eb_events = LinkedList_make SOERecord_default (TotalEvents config),
      eb_totalCounts = EventCount_make, eb_selectedCounts = EventCount_make, eb_writtenCounts = EventCount_make\<rparr>"

section \<open>Adding events\<close>

definition RemoveFromCounts :: "SOERecord \<Rightarrow> EventBuffer \<Rightarrow> EventBuffer" where
  "RemoveFromCounts record b =
     (let b = b\<lparr>eb_totalCounts := Decrement (soe_clazz record) (soe_type record) (eb_totalCounts b)\<rparr>;
          b = (if soe_selected record
               then b\<lparr>eb_selectedCounts := Decrement (soe_clazz record) (soe_type record) (eb_selectedCounts b)\<rparr> else b)
      in if soe_written record
         then b\<lparr>eb_writtenCounts := Decrement (soe_clazz record) (soe_type record) (eb_writtenCounts b)\<rparr> else b)"

definition RemoveOldestEventOfType :: "EventType \<Rightarrow> EventBuffer \<Rightarrow> (EventBuffer \<times> bool) option" where
  "RemoveOldestEventOfType type b =
     do {(l, pNode) \<leftarrow> RemoveFirst (\<lambda>rec. soe_type rec = type) (eb_events b);
         Some (case pNode of
             Some i \<Rightarrow>
               (let b = RemoveFromCounts (ValueAt l i) (b\<lparr>eb_events := l\<rparr>)
                in (b\<lparr>eb_events := Assign i (SOERecord_Reset (ValueAt l i)) l\<rparr>, True))
           | None \<Rightarrow> (b\<lparr>eb_events := l\<rparr>, False))}"

definition UpdateAny :: "Event \<Rightarrow> EventBuffer \<Rightarrow> EventBuffer option" where
  "UpdateAny evt b =
     (let maxForType = GetMaxEventsForType (eb_config b) (evt_type evt)
      in if maxForType > 0
         then do {
           b \<leftarrow> (let currentCount = NumOfType (eb_totalCounts b) (evt_type evt)
                 in if currentCount \<ge> ucast maxForType \<or> IsFull (eb_events b)
                    then map_option fst (RemoveOldestEventOfType (evt_type evt) (b\<lparr>eb_overflow := True\<rparr>))
                    else Some b);
           case Add (SOERecord_make evt) (eb_events b) of
             (l, None) \<Rightarrow> None
           | (l, Some i) \<Rightarrow>
               Some (b\<lparr>eb_events := Assign i (SOERecord_Reset (ValueAt l i)) l,
                       eb_totalCounts := Increment (evt_clazz evt) (evt_type evt) (eb_totalCounts b)\<rparr>)}
         else Some b)"

section \<open>Selecting events\<close>

text \<open>The lambda of \<^verbatim>\<open>Unselect\<close>, over the counters of selected and of written events.\<close>

definition unselect :: "SOERecord \<Rightarrow> EventCount \<times> EventCount \<Rightarrow> bool \<times> SOERecord \<times> EventCount \<times> EventCount" where
  "unselect record = (\<lambda>(sc, wc).
     let (sc, record) = (if soe_selected record
           then (Decrement (soe_clazz record) (soe_type record) sc, record\<lparr>soe_selected := False\<rparr>)
           else (sc, record));
         (wc, record) = (if soe_written record
           then (Decrement (soe_clazz record) (soe_type record) wc, record\<lparr>soe_written := False\<rparr>)
           else (wc, record))
     in (TotatCount sc > 0, record, (sc, wc)))"

definition Unselect :: "EventBuffer \<Rightarrow> EventBuffer option" where
  "Unselect b =
     do {(l, sc, wc) \<leftarrow> WhileList unselect (eb_events b) (eb_selectedCounts b, eb_writtenCounts b);
         Some (b\<lparr>eb_events := l, eb_selectedCounts := sc, eb_writtenCounts := wc\<rparr>)}"

text \<open>The loop of both selections: \<open>want\<close> is its condition, \<open>sel\<close> what it does to a record.\<close>

definition SelectLoop ::
  "(SOERecord \<Rightarrow> bool) \<Rightarrow> (SOERecord \<Rightarrow> SOERecord) \<Rightarrow> uint32 \<Rightarrow> uint32 \<Rightarrow> EventBuffer \<Rightarrow> (EventBuffer \<times> uint32) option" where
  "SelectLoop want sel remaining maximum b =
     do {(l, num, sc) \<leftarrow> Loop (\<lambda>(num, sc). num < remaining \<and> num < maximum)
           (\<lambda>record (num, sc). if want record
              then (let record = sel record
                    in (record, num + 1, Increment (soe_clazz record) (soe_type record) sc))
              else (record, num, sc))
           (eb_events b) (0, eb_selectedCounts b);
         Some (b\<lparr>eb_events := l, eb_selectedCounts := sc\<rparr>, num)}"

definition SelectByClass :: "ClassField \<Rightarrow> uint32 \<Rightarrow> EventBuffer \<Rightarrow> (EventBuffer \<times> IINField) option" where
  "SelectByClass field maximum b =
     (let remaining = NumOfClassField (eb_totalCounts b) field - NumOfClassField (eb_selectedCounts b) field
      in do {(b, num) \<leftarrow> SelectLoop (\<lambda>record. HasEventType field (soe_clazz record)) SOERecord_SelectDefault remaining maximum b;
             Some (b, IIN_Empty)})"

definition GenericSelectByType ::
  "EventType \<Rightarrow> uint32 \<Rightarrow> bool \<Rightarrow> EventVariation \<Rightarrow> EventBuffer \<Rightarrow> (EventBuffer \<times> uint32) option" where
  "GenericSelectByType type maximum useDefault var b =
     (let remaining = NumOfType (eb_totalCounts b) type - NumOfType (eb_selectedCounts b) type
      in SelectLoop (\<lambda>record. soe_type record = type)
           (\<lambda>record. if useDefault then SOERecord_SelectDefault record else SOERecord_Select var record) remaining maximum b)"

text \<open>The two overloads of \<^verbatim>\<open>SelectByType\<close>: the maximum goes through an \<^verbatim>\<open>int32_t\<close> and back.\<close>

definition SelectByType :: "EventType \<Rightarrow> uint32 \<Rightarrow> EventVariation option \<Rightarrow> EventBuffer \<Rightarrow> (EventBuffer \<times> IINField) option" where
  "SelectByType type maximum var b =
     (let maximum = word_of_int (sint maximum)
      in do {(b, num) \<leftarrow> (case var of None \<Rightarrow> GenericSelectByType type maximum True 0 b
                          | Some var \<Rightarrow> GenericSelectByType type maximum False var b);
             Some (b, IIN_Empty)})"

text \<open>The cases of \<^verbatim>\<open>SelectMaxCount\<close>.\<close>

datatype SelectCase =
    SelectType EventType "EventVariation option"
  | SelectClass PointClass

definition select_types :: "(nat \<times> EventType \<times> nat list) list" where
  "select_types =
     [(2, ET_Binary, [1, 2, 3]), (4, ET_DoubleBitBinary, [1, 2, 3]), (11, ET_BinaryOutputStatus, [1, 2]),
      (22, ET_Counter, [1, 2, 5, 6]), (23, ET_FrozenCounter, [1, 2, 5, 6]),
      (32, ET_Analog, [1, 2, 3, 4, 5, 6, 7, 8]), (42, ET_AnalogOutputStatus, [1, 2, 3, 4, 5, 6, 7, 8]),
      (122, ET_SecurityStat, [1, 2])]"

definition select_cases :: "(GroupVariation \<times> SelectCase) list" where
  "select_cases =
     concat (map (\<lambda>(g, t, vs). (GroupVar g 0, SelectType t None)
       # map (\<lambda>v. (GroupVar g v, SelectType t (Some (GroupVar g v)))) vs) select_types)
     @ [(GroupVar 60 2, SelectClass Class1), (GroupVar 60 3, SelectClass Class2), (GroupVar 60 4, SelectClass Class3)]"

definition SelectMaxCount :: "GroupVariation \<Rightarrow> uint32 \<Rightarrow> EventBuffer \<Rightarrow> (EventBuffer \<times> IINField) option" where
  "SelectMaxCount gv maximum b =
     (case map_of select_cases gv of
        Some (SelectType t var) \<Rightarrow> SelectByType t maximum var b
      | Some (SelectClass pc) \<Rightarrow> SelectByClass (ClassField_of pc) maximum b
      | None \<Rightarrow> Some (b, IIN_of_bit FUNC_NOT_SUPPORTED))"

definition SelectAll :: "GroupVariation \<Rightarrow> EventBuffer \<Rightarrow> (EventBuffer \<times> IINField) option" where
  "SelectAll gv b = SelectMaxCount gv (- 1) b"

definition SelectCount :: "GroupVariation \<Rightarrow> uint16 \<Rightarrow> EventBuffer \<Rightarrow> (EventBuffer \<times> IINField) option" where
  "SelectCount gv cnt b = SelectMaxCount gv (ucast cnt) b"

definition SelectAllByClass :: "ClassField \<Rightarrow> EventBuffer \<Rightarrow> EventBuffer option" where
  "SelectAllByClass field b = map_option fst (SelectByClass field (- 1) b)"

section \<open>Writing events\<close>

definition HasAnySelection :: "EventBuffer \<Rightarrow> bool" where
  "HasAnySelection b = (TotatCount (eb_selectedCounts b) > TotatCount (eb_writtenCounts b))"

definition HasMoreUnwrittenEvents :: "EventBuffer \<Rightarrow> bool" where
  "HasMoreUnwrittenEvents b = HasAnySelection b"

definition RecordWritten :: "EventClass \<Rightarrow> EventType \<Rightarrow> EventBuffer \<Rightarrow> EventBuffer" where
  "RecordWritten ec et b = b\<lparr>eb_writtenCounts := Increment ec et (eb_writtenCounts b)\<rparr>"

definition IsWritable :: "SOERecord \<Rightarrow> bool" where
  "IsWritable record = (soe_selected record \<and> \<not> soe_written record)"

definition ClearWritten :: "EventBuffer \<Rightarrow> EventBuffer option" where
  "ClearWritten b =
     do {(l, b', n) \<leftarrow> RemoveAll
           (\<lambda>record b. if soe_written record then (True, RemoveFromCounts record b) else (False, b)) (eb_events b) b;
         Some (b'\<lparr>eb_events := l\<rparr>)}"

section \<open>What the buffer reports\<close>

definition HasUnwrittenEvents :: "EventClass \<Rightarrow> EventBuffer \<Rightarrow> bool" where
  "HasUnwrittenEvents ec b = (NumOfClass (eb_totalCounts b) ec - NumOfClass (eb_writtenCounts b) ec > 0)"

definition UnwrittenClassField :: "EventBuffer \<Rightarrow> ClassField" where
  "UnwrittenClassField b =
     ClassField_make False (HasUnwrittenEvents EC1 b) (HasUnwrittenEvents EC2 b) (HasUnwrittenEvents EC3 b)"

definition IsTypeOverflown :: "EventType \<Rightarrow> EventBuffer \<Rightarrow> bool" where
  "IsTypeOverflown type b =
     (let max = GetMaxEventsForType (eb_config b) type
      in if max > 0 then NumOfType (eb_totalCounts b) type \<ge> ucast max else False)"

definition IsAnyTypeOverflown :: "EventBuffer \<Rightarrow> bool" where
  "IsAnyTypeOverflown b =
     (IsTypeOverflown ET_Binary b \<or> IsTypeOverflown ET_DoubleBitBinary b \<or> IsTypeOverflown ET_BinaryOutputStatus b
      \<or> IsTypeOverflown ET_Counter b \<or> IsTypeOverflown ET_FrozenCounter b \<or> IsTypeOverflown ET_Analog b
      \<or> IsTypeOverflown ET_AnalogOutputStatus b)"

definition HasEnoughSpaceToClearOverflow :: "EventBuffer \<Rightarrow> bool" where
  "HasEnoughSpaceToClearOverflow b = (\<not> (IsFull (eb_events b) \<or> IsAnyTypeOverflown b))"

definition IsOverflown :: "EventBuffer \<Rightarrow> EventBuffer \<times> bool" where
  "IsOverflown b =
     (let b = (if eb_overflow b \<and> HasEnoughSpaceToClearOverflow b then b\<lparr>eb_overflow := False\<rparr> else b)
      in (b, eb_overflow b))"

section \<open>The invariant\<close>

definition key_of :: "SOERecord \<Rightarrow> key" where
  "key_of r = (soe_clazz r, soe_type r)"

abbreviation keys :: "SOERecord list \<Rightarrow> key multiset" where
  "keys vs \<equiv> mset (map key_of vs)"

abbreviation of_type :: "EventType \<Rightarrow> SOERecord list \<Rightarrow> nat" where
  "of_type t vs \<equiv> length (filter (\<lambda>r. soe_type r = t) vs)"

text \<open>What the three counters of a buffer count.\<close>

definition tracked :: "EventBuffer \<Rightarrow> key multiset \<Rightarrow> key multiset \<Rightarrow> key multiset \<Rightarrow> bool" where
  "tracked b T S W \<longleftrightarrow> counts (eb_totalCounts b) T \<and> counts (eb_selectedCounts b) S \<and> counts (eb_writtenCounts b) W"

text \<open>
  \<open>eb_inv b vs D\<close>: the events of the buffer are \<open>vs\<close>, no type has more than its quota, and the counters
  count them.  \<open>D\<close> is the drift: what the counter of selected events counts beyond the events that
  are selected.
\<close>

definition eb_inv :: "EventBuffer \<Rightarrow> SOERecord list \<Rightarrow> key multiset \<Rightarrow> bool" where
  "eb_inv b vs D \<longleftrightarrow> holds (eb_events b) vs \<and> capacity (eb_events b) = unat (TotalEvents (eb_config b))
     \<and> (\<forall>r\<in>set vs. record_ok r) \<and> (\<forall>t. of_type t vs \<le> quota (eb_config b) t)
     \<and> tracked b (keys vs) (keys (filter soe_selected vs) + D) (keys (filter soe_written vs))"

lemma eb_invD:
  assumes "eb_inv b vs D"
  shows "holds (eb_events b) vs" "capacity (eb_events b) = unat (TotalEvents (eb_config b))"
    "r \<in> set vs \<Longrightarrow> record_ok r" "of_type t vs \<le> quota (eb_config b) t"
    "counts (eb_totalCounts b) (keys vs)" "counts (eb_selectedCounts b) (keys (filter soe_selected vs) + D)"
    "counts (eb_writtenCounts b) (keys (filter soe_written vs))" "length vs < 2 ^ 32"
  using assms ll.small by (auto simp: eb_inv_def tracked_def)

lemma EventBuffer_make_inv: "eb_inv (EventBuffer_make config) [] {#}"
  using LinkedList_make_holds[of SOERecord_default "TotalEvents config"] ec.zero
  by (simp add: eb_inv_def EventBuffer_make_def tracked_def)

lemma length_by_type: "length vs = (\<Sum>t\<leftarrow>all_types. of_type t vs)"
proof (induction vs)
  case (Cons r vs)
  then show ?case by (cases "soe_type r") simp_all
qed simp

lemma sum_list_le: "(\<And>t. t \<in> set ts \<Longrightarrow> f t \<le> g t) \<Longrightarrow> (\<Sum>t\<leftarrow>ts. f t) \<le> (\<Sum>t\<leftarrow>ts. (g t :: nat))"
  by (induction ts) (auto intro: add_mono)

lemma sum_list_tight:
  assumes "\<And>t. t \<in> set ts \<Longrightarrow> f t \<le> (g t :: nat)" "(\<Sum>t\<leftarrow>ts. f t) = (\<Sum>t\<leftarrow>ts. g t)" "t \<in> set ts"
  shows "f t = g t"
  using assms
proof (induction ts)
  case (Cons u ts)
  have "f u \<le> g u" "(\<Sum>t\<leftarrow>ts. f t) \<le> (\<Sum>t\<leftarrow>ts. g t)" using Cons.prems(1) by (auto intro: sum_list_le)
  with Cons.prems(2) have "f u = g u" "(\<Sum>t\<leftarrow>ts. f t) = (\<Sum>t\<leftarrow>ts. g t)" by simp_all
  with Cons show ?case by auto
qed simp

text \<open>The list is full only when every type has used up its quota.\<close>

lemma full_quota:
  assumes "eb_inv b vs D" "IsFull (eb_events b)"
  shows "of_type t vs = quota (eb_config b) t"
proof (rule sum_list_tight[of all_types])
  show "(\<Sum>t\<leftarrow>all_types. of_type t vs) = (\<Sum>t\<leftarrow>all_types. quota (eb_config b) t)"
    using ll.full[OF eb_invD(1)[OF assms(1)]] assms(2) eb_invD(2)[OF assms(1)]
    unfolding length_by_type[symmetric] TotalEvents_quota[symmetric] by simp
qed (use eb_invD(4)[OF assms(1)] all_types(1) in auto)

lemma NumOfType_of_type:
  "counts ec (keys vs) \<Longrightarrow> length vs < 2 ^ 32 \<Longrightarrow> unat (NumOfType ec t) = of_type t vs"
proof -
  have "size (filter_mset (\<lambda>k. snd k = t) (keys vs)) = of_type t vs"
    by (induction vs) (simp_all add: key_of_def)
  then show "counts ec (keys vs) \<Longrightarrow> length vs < 2 ^ 32 \<Longrightarrow> unat (NumOfType ec t) = of_type t vs"
    using counts_type[of ec "keys vs" t] by simp
qed

section \<open>Adding an event\<close>

lemma counts_Decrement: "counts c (add_mset (cl, t) M) \<Longrightarrow> counts (Decrement cl t c) M"
  using ec.dec[of c "(cl, t)" M] by simp

lemma counts_Increment: "counts c M \<Longrightarrow> counts (Increment cl t c) (add_mset (cl, t) M)"
  using ec.inc[of c M "(cl, t)"] by simp

lemma RemoveFromCounts_counts:
  "eb_totalCounts (RemoveFromCounts r b) = dec_key (key_of r) (eb_totalCounts b)"
  "eb_selectedCounts (RemoveFromCounts r b) =
     (if soe_selected r then dec_key (key_of r) (eb_selectedCounts b) else eb_selectedCounts b)"
  "eb_writtenCounts (RemoveFromCounts r b) =
     (if soe_written r then dec_key (key_of r) (eb_writtenCounts b) else eb_writtenCounts b)"
  by (simp_all add: RemoveFromCounts_def Let_def key_of_def)

lemma counts_dec_if: "counts c (if p then add_mset k M else M) \<Longrightarrow> counts (if p then dec_key k c else c) M"
  using ec.dec[of c k M] by (cases p) (simp_all only: if_True if_False)

lemma RemoveFromCounts_tracked:
  assumes "tracked b (add_mset (key_of r) T) (if soe_selected r then add_mset (key_of r) S else S)
      (if soe_written r then add_mset (key_of r) W else W)"
  shows "tracked (RemoveFromCounts r b) T S W"
  using assms unfolding tracked_def RemoveFromCounts_counts by (blast intro: ec.dec counts_dec_if)

lemma RemoveFromCounts_frame [simp]:
  "eb_events (RemoveFromCounts r b) = eb_events b" "eb_config (RemoveFromCounts r b) = eb_config b"
  "eb_overflow (RemoveFromCounts r b) = eb_overflow b"
  by (simp_all add: RemoveFromCounts_def Let_def)

definition remove_oldest :: "EventType \<Rightarrow> SOERecord list \<Rightarrow> SOERecord list" where
  "remove_oldest t vs = takeWhile (\<lambda>r. soe_type r \<noteq> t) vs @ tl (dropWhile (\<lambda>r. soe_type r \<noteq> t) vs)"

lemma remove_oldest_split:
  "\<forall>u\<in>set us. soe_type u \<noteq> t \<Longrightarrow> soe_type v = t \<Longrightarrow> remove_oldest t (us @ v # ws) = us @ ws"
  by (induction us) (simp_all add: remove_oldest_def)

lemma keys_mid:
  "keys (us @ v # ws) = add_mset (key_of v) (keys (us @ ws))"
  "keys (filter P (us @ v # ws)) =
     (if P v then add_mset (key_of v) (keys (filter P (us @ ws))) else keys (filter P (us @ ws)))"
  "(if q then add_mset k M else M) + D = (if q then add_mset k (M + D) else M + D)"
  by simp_all

lemma RemoveOldest_inv:
  assumes inv: "eb_inv b vs D" and some: "of_type t vs > 0"
  shows "\<exists>b'. RemoveOldestEventOfType t b = Some (b', True) \<and> eb_inv b' (remove_oldest t vs) D
    \<and> eb_config b' = eb_config b \<and> eb_overflow b' = eb_overflow b"
proof -
  have "\<exists>r\<in>set vs. soe_type r = t" using some by (auto simp: filter_empty_conv)
  then obtain us v ws where vs: "vs = us @ v # ws" "soe_type v = t" "\<forall>u\<in>set us. soe_type u \<noteq> t"
    using split_list_first_prop[of vs "\<lambda>r. soe_type r = t"] by blast
  obtain l i where l: "RemoveFirst (\<lambda>rec. soe_type rec = t) (eb_events b) = Some (l, Some i)" "ValueAt l i = v"
    "capacity l = capacity (eb_events b)" "\<And>w. holds (Assign i w l) (us @ ws)"
    "\<And>w. capacity (Assign i w l) = capacity (eb_events b)"
    using ll.remove_first[OF eb_invD(1)[OF inv, unfolded vs(1)], of "\<lambda>rec. soe_type rec = t"] vs(2,3) by blast
  have "tracked b (keys vs) (keys (filter soe_selected vs) + D) (keys (filter soe_written vs))"
    using inv by (simp add: eb_inv_def)
  then have "tracked b (add_mset (key_of v) (keys (us @ ws)))
      (if soe_selected v then add_mset (key_of v) (keys (filter soe_selected (us @ ws)) + D)
       else keys (filter soe_selected (us @ ws)) + D)
      (if soe_written v then add_mset (key_of v) (keys (filter soe_written (us @ ws)))
       else keys (filter soe_written (us @ ws)))"
    unfolding vs(1) keys_mid .
  then have "tracked (RemoveFromCounts v (b\<lparr>eb_events := l\<rparr>)) (keys (us @ ws)) (keys (filter soe_selected (us @ ws)) + D)
      (keys (filter soe_written (us @ ws)))"
    by (intro RemoveFromCounts_tracked) (simp add: tracked_def)
  then have "eb_inv ((RemoveFromCounts v (b\<lparr>eb_events := l\<rparr>))\<lparr>eb_events := Assign i (SOERecord_Reset v) l\<rparr>) (us @ ws) D"
    using inv l(4,5) le_trans[OF _ eb_invD(4)[OF inv]] by (auto simp: eb_inv_def tracked_def vs(1))
  then show ?thesis using l(1,2) vs by (simp add: RemoveOldestEventOfType_def remove_oldest_split)
qed

lemma remove_oldest_of_type:
  assumes "of_type t vs > 0"
  shows "of_type t (remove_oldest t vs) = of_type t vs - 1" "u \<noteq> t \<Longrightarrow> of_type u (remove_oldest t vs) = of_type u vs"
    "length (remove_oldest t vs) = length vs - 1"
proof -
  have "\<exists>r\<in>set vs. soe_type r = t" using assms by (auto simp: filter_empty_conv)
  then obtain us v ws where vs: "vs = us @ v # ws" "soe_type v = t" "\<forall>u\<in>set us. soe_type u \<noteq> t"
    using split_list_first_prop[of vs "\<lambda>r. soe_type r = t"] by blast
  from vs show "of_type t (remove_oldest t vs) = of_type t vs - 1" "u \<noteq> t \<Longrightarrow> of_type u (remove_oldest t vs) = of_type u vs"
    "length (remove_oldest t vs) = length vs - 1" by (simp_all add: remove_oldest_split)
qed

definition evt_ok :: "Event \<Rightarrow> bool" where
  "evt_ok evt \<longleftrightarrow> value_fits (evt_type evt) (evt_value evt)"

lemma SOERecord_make_simps [simp]:
  "soe_type (SOERecord_make evt) = evt_type evt" "soe_clazz (SOERecord_make evt) = evt_clazz evt"
  "\<not> soe_selected (SOERecord_make evt)" "\<not> soe_written (SOERecord_make evt)"
  "SOERecord_Reset (SOERecord_make evt) = SOERecord_make evt"
  "record_ok (SOERecord_make evt) = evt_ok evt" "key_of (SOERecord_make evt) = (evt_clazz evt, evt_type evt)"
  by (simp_all add: SOERecord_make_def SOERecord_Reset_def record_ok_def evt_ok_def key_of_def)

text \<open>The step of \<^verbatim>\<open>UpdateAny\<close> that stores the event, once there is room for it.\<close>

lemma store_inv:
  assumes inv: "eb_inv b vs D" and room: "of_type (evt_type evt) vs < quota (eb_config b) (evt_type evt)" "\<not> IsFull (eb_events b)"
    and ok: "evt_ok evt"
  shows "\<exists>l i. Add (SOERecord_make evt) (eb_events b) = (l, Some i)
    \<and> eb_inv (b\<lparr>eb_events := Assign i (SOERecord_Reset (ValueAt l i)) l,
                eb_totalCounts := Increment (evt_clazz evt) (evt_type evt) (eb_totalCounts b)\<rparr>) (vs @ [SOERecord_make evt]) D"
proof -
  obtain l i where l: "Add (SOERecord_make evt) (eb_events b) = (l, Some i)" "ValueAt l i = SOERecord_make evt"
    "capacity l = capacity (eb_events b)" "\<And>w. holds (Assign i w l) (vs @ [w])"
    "\<And>w. capacity (Assign i w l) = capacity (eb_events b)"
    using ll.add[OF eb_invD(1)[OF inv] room(2), of "SOERecord_make evt"] by blast
  have "counts (Increment (evt_clazz evt) (evt_type evt) (eb_totalCounts b)) (keys (vs @ [SOERecord_make evt]))"
    using ec.inc[OF eb_invD(5)[OF inv], of "(evt_clazz evt, evt_type evt)"] by simp
  then show ?thesis
    using l inv room(1) ok by (auto simp: eb_inv_def tracked_def)
qed

definition updated :: "EventBufferConfig \<Rightarrow> Event \<Rightarrow> SOERecord list \<Rightarrow> SOERecord list" where
  "updated c evt vs =
     (let t = evt_type evt
      in if quota c t = 0 then vs
         else (if of_type t vs < quota c t then vs else remove_oldest t vs) @ [SOERecord_make evt])"

definition update_overflows :: "EventBufferConfig \<Rightarrow> Event \<Rightarrow> SOERecord list \<Rightarrow> bool" where
  "update_overflows c evt vs \<longleftrightarrow> quota c (evt_type evt) > 0 \<and> of_type (evt_type evt) vs = quota c (evt_type evt)"

lemma ucast_le_iff: "(ucast (m :: uint16) :: uint32) \<le> n \<longleftrightarrow> unat m \<le> unat n"
proof -
  have "unat m < 65536" using unsigned_less[of m] by simp
  then have "unat (ucast m :: uint32) = unat m" by (simp add: unsigned_ucast_eq take_bit_nat_eq_self)
  then show ?thesis by (simp add: word_le_nat_alt)
qed

lemma UpdateAny_inv:
  assumes inv: "eb_inv b vs D" and ok: "evt_ok evt"
  shows "\<exists>b'. UpdateAny evt b = Some b' \<and> eb_inv b' (updated (eb_config b) evt vs) D \<and> eb_config b' = eb_config b
    \<and> eb_overflow b' = (eb_overflow b \<or> update_overflows (eb_config b) evt vs)"
proof (cases "quota (eb_config b) (evt_type evt) = 0")
  case True
  then show ?thesis using inv by (simp add: UpdateAny_def updated_def update_overflows_def unat_eq_zero)
next
  case False
  define t where t_def: "t = evt_type evt"
  from False have pos: "0 < GetMaxEventsForType (eb_config b) t" by (simp add: t_def word_greater_zero_iff unat_eq_zero)
  have num: "unat (NumOfType (eb_totalCounts b) t) = of_type t vs"
    using NumOfType_of_type[OF eb_invD(5,8)[OF inv]] .
  have full: "IsFull (eb_events b) \<Longrightarrow> of_type t vs = quota (eb_config b) t" by (rule full_quota[OF inv])
  have le: "of_type t vs \<le> quota (eb_config b) t" by (rule eb_invD(4)[OF inv])
  show ?thesis
  proof (cases "of_type t vs < quota (eb_config b) t")
    case True
    then have nf: "\<not> IsFull (eb_events b)" using full by auto
    from store_inv[OF inv True[unfolded t_def] nf ok] obtain l i where
      "Add (SOERecord_make evt) (eb_events b) = (l, Some i)"
      "eb_inv (b\<lparr>eb_events := Assign i (SOERecord_Reset (ValueAt l i)) l,
        eb_totalCounts := Increment (evt_clazz evt) (evt_type evt) (eb_totalCounts b)\<rparr>) (vs @ [SOERecord_make evt]) D" by blast
    then show ?thesis
      using True nf pos num False by (simp add: UpdateAny_def updated_def update_overflows_def ucast_le_iff Let_def flip: t_def)
  next
    case False
    with le have eq: "of_type t vs = quota (eb_config b) t" by simp
    with \<open>quota (eb_config b) (evt_type evt) \<noteq> 0\<close> have some: "of_type t vs > 0" by (simp add: t_def)
    have inv': "eb_inv (b\<lparr>eb_overflow := True\<rparr>) vs D" using inv by (simp add: eb_inv_def tracked_def)
    obtain b' where b': "RemoveOldestEventOfType t (b\<lparr>eb_overflow := True\<rparr>) = Some (b', True)" "eb_inv b' (remove_oldest t vs) D"
      "eb_config b' = eb_config b" "eb_overflow b'"
      using RemoveOldest_inv[OF inv' some] by auto
    have room: "of_type t (remove_oldest t vs) < quota (eb_config b') t"
      using remove_oldest_of_type(1)[OF some] some eq b'(3) by simp
    have nf: "\<not> IsFull (eb_events b')" using full_quota[OF b'(2), of t] room by auto
    from store_inv[OF b'(2)[unfolded t_def] room[unfolded t_def] nf ok] obtain l i where
      "Add (SOERecord_make evt) (eb_events b') = (l, Some i)"
      "eb_inv (b'\<lparr>eb_events := Assign i (SOERecord_Reset (ValueAt l i)) l,
        eb_totalCounts := Increment (evt_clazz evt) (evt_type evt) (eb_totalCounts b')\<rparr>) (remove_oldest t vs @ [SOERecord_make evt]) D"
      by (auto simp: t_def)
    then show ?thesis
      using eq pos num some b' by (simp add: UpdateAny_def updated_def update_overflows_def ucast_le_iff Let_def flip: t_def)
  qed
qed

section \<open>Selecting events\<close>

text \<open>\<open>select_first n want sel vs\<close>: \<open>sel\<close> is applied to the first \<open>n\<close> records that \<open>want\<close> holds of.\<close>

fun select_first :: "nat \<Rightarrow> (SOERecord \<Rightarrow> bool) \<Rightarrow> (SOERecord \<Rightarrow> SOERecord) \<Rightarrow> SOERecord list \<Rightarrow> SOERecord list" where
  "select_first n want sel [] = []"
| "select_first n want sel (r # rs) =
     (if n = 0 then r # rs
      else if want r then sel r # select_first (n - 1) want sel rs else r # select_first n want sel rs)"

definition picked :: "nat \<Rightarrow> (SOERecord \<Rightarrow> bool) \<Rightarrow> SOERecord list \<Rightarrow> SOERecord list" where
  "picked n want vs = take n (filter want vs)"

text \<open>What the loops do to a record: it is marked selected; its place in the counts does not change.\<close>

definition selects :: "(SOERecord \<Rightarrow> SOERecord) \<Rightarrow> bool" where
  "selects sel \<longleftrightarrow> (\<forall>r. soe_clazz (sel r) = soe_clazz r \<and> soe_type (sel r) = soe_type r \<and> soe_selected (sel r)
     \<and> soe_written (sel r) = soe_written r \<and> (record_ok r \<longrightarrow> record_ok (sel r)))"

lemma selects_SelectDefault: "selects SOERecord_SelectDefault"
  by (simp add: selects_def SOERecord_SelectDefault_def SelectDefaultVariation_def record_ok_def)

lemma selects_Select: "selects (SOERecord_Select var)"
  by (simp add: selects_def SOERecord_Select_def record_ok_def)

lemma picked_Cons:
  "picked n want (r # rs) = (if n = 0 then [] else if want r then r # picked (n - 1) want rs else picked n want rs)"
  by (cases n) (simp_all add: picked_def)

lemma select_first_simps:
  assumes "selects sel"
  shows "length (select_first n want sel vs) = length vs"
    "keys (select_first n want sel vs) = keys vs"
    "of_type t (select_first n want sel vs) = of_type t vs"
    "keys (filter soe_written (select_first n want sel vs)) = keys (filter soe_written vs)"
    "keys (filter soe_selected (select_first n want sel vs)) + keys (filter soe_selected (picked n want vs))
       = keys (filter soe_selected vs) + keys (picked n want vs)"
    "\<forall>r\<in>set vs. record_ok r \<Longrightarrow> \<forall>r\<in>set (select_first n want sel vs). record_ok r"
proof (induction vs arbitrary: n)
  case (Cons r vs)
  have sel: "key_of (sel r) = key_of r" "soe_type (sel r) = soe_type r" "soe_selected (sel r)" "soe_written (sel r) = soe_written r"
    "record_ok r \<Longrightarrow> record_ok (sel r)" using assms by (simp_all add: selects_def key_of_def)
  { case 1 show ?case by (simp add: Cons.IH(1)) }
  { case 2 show ?case using Cons.IH(2) sel(1) by simp }
  { case 3 show ?case using Cons.IH(3) sel(2) by simp }
  { case 4 show ?case using Cons.IH(4) sel(1,4) by simp }
  { case 5 show ?case using Cons.IH(5) sel(1,3) by (auto simp: picked_Cons simp: picked_def[of 0]) }
  { case 6 then show ?case using Cons.IH(6) sel(5) by simp }
qed (simp_all add: picked_def)

lemma SelectLoop_list:
  fixes num :: uint32
  assumes sel: "selects sel" and lim: "lim = min (unat remaining) (unat maximum)" and num: "unat num \<le> lim"
  shows "list_loop (\<lambda>(num, sc). num < remaining \<and> num < maximum)
      (\<lambda>record (num, sc). if want record
         then (let record = sel record in (record, num + 1, Increment (soe_clazz record) (soe_type record) sc))
         else (record, num, sc)) vs (num, sc)
    = (select_first (lim - unat num) want sel vs, num + of_nat (length (picked (lim - unat num) want vs)),
       fold inc_key (map key_of (picked (lim - unat num) want vs)) sc)"
  using num
proof (induction vs arbitrary: num sc)
  case Nil
  then show ?case by (simp add: picked_def)
next
  case (Cons r vs)
  have go: "num < remaining \<and> num < maximum \<longleftrightarrow> unat num < lim" by (simp add: lim word_less_nat_alt)
  show ?case
  proof (cases "unat num < lim")
    case False
    with go Cons.prems show ?thesis by (auto simp: picked_def)
  next
    case True
    then have "unat num < unat remaining" by (simp add: lim)
    moreover have "unat remaining < 2 ^ 32" using unsigned_less[of remaining] by simp
    ultimately have "unat num + 1 < 2 ^ 32" by linarith
    then have suc: "unat (num + 1) = unat num + 1" by (simp add: unat_word_ariths)
    have key: "Increment (soe_clazz (sel r)) (soe_type (sel r)) sc = inc_key (key_of r) sc"
      using sel by (simp add: selects_def key_of_def)
    have cond: "num < remaining" "num < maximum" using go True by simp_all
    show ?thesis
    proof (cases "want r")
      case False
      then show ?thesis using cond True by (simp add: picked_Cons Cons.IH[OF Cons.prems])
    next
      case wants: True
      have eq: "lim - unat (num + 1) = lim - unat num - 1" "lim - unat num > 0" using suc True by simp_all
      have "unat (num + 1) \<le> lim" using suc True by simp
      note ih = Cons.IH[OF this, unfolded eq(1)]
      show ?thesis using cond wants eq(2) by (simp add: picked_Cons key Let_def ih)
    qed
  qed
qed

lemma SelectLoop_inv:
  assumes inv: "eb_inv b vs D" and sel: "selects sel" and lim: "lim = min (unat remaining) (unat maximum)"
  shows "\<exists>b'. SelectLoop want sel remaining maximum b = Some (b', of_nat (length (picked lim want vs)))
    \<and> eb_inv b' (select_first lim want sel vs) (D + keys (filter soe_selected (picked lim want vs)))
    \<and> eb_config b' = eb_config b \<and> eb_overflow b' = eb_overflow b"
proof -
  have list: "list_loop (\<lambda>(num, sc). num < remaining \<and> num < maximum)
      (\<lambda>record (num, sc). if want record
         then (let record = sel record in (record, num + 1, Increment (soe_clazz record) (soe_type record) sc))
         else (record, num, sc)) vs (0, eb_selectedCounts b)
    = (select_first lim want sel vs, of_nat (length (picked lim want vs)),
       fold inc_key (map key_of (picked lim want vs)) (eb_selectedCounts b))"
    using SelectLoop_list[OF sel lim, of 0 want vs "eb_selectedCounts b"] by simp
  obtain l where l: "Loop (\<lambda>(num, sc). num < remaining \<and> num < maximum)
      (\<lambda>record (num, sc). if want record
         then (let record = sel record in (record, num + 1, Increment (soe_clazz record) (soe_type record) sc))
         else (record, num, sc)) (eb_events b) (0, eb_selectedCounts b)
      = Some (l, of_nat (length (picked lim want vs)), fold inc_key (map key_of (picked lim want vs)) (eb_selectedCounts b))"
    "holds l (select_first lim want sel vs)" "capacity l = capacity (eb_events b)"
    using ll.loop[OF eb_invD(1)[OF inv] list] by blast
  note S = select_first_simps[OF sel, where n = lim and want = want and vs = vs]
  have "counts (fold inc_key (map key_of (picked lim want vs)) (eb_selectedCounts b))
      (keys (filter soe_selected (select_first lim want sel vs)) + (D + keys (filter soe_selected (picked lim want vs))))"
    using ec.fold_inc[OF eb_invD(6)[OF inv], of "map key_of (picked lim want vs)"] S(5) by (simp add: ac_simps)
  then have "eb_inv (b\<lparr>eb_events := l, eb_selectedCounts := fold inc_key (map key_of (picked lim want vs)) (eb_selectedCounts b)\<rparr>)
      (select_first lim want sel vs) (D + keys (filter soe_selected (picked lim want vs)))"
    using inv l(2,3) S(6) unfolding eb_inv_def tracked_def by (simp add: S(3) S(2,4)[simplified])
  then show ?thesis using l(1) by (simp add: SelectLoop_def)
qed

text \<open>What a request selects, and how.\<close>

fun case_want :: "SelectCase \<Rightarrow> SOERecord \<Rightarrow> bool" where
  "case_want (SelectType t var) r = (soe_type r = t)"
| "case_want (SelectClass pc) r = HasEventType (ClassField_of pc) (soe_clazz r)"

fun case_sel :: "SelectCase \<Rightarrow> SOERecord \<Rightarrow> SOERecord" where
  "case_sel (SelectType t (Some var)) = SOERecord_Select var"
| "case_sel _ = SOERecord_SelectDefault"

lemma case_want_fun:
  "case_want (SelectType t var) = (\<lambda>r. soe_type r = t)"
  "case_want (SelectClass pc) = (\<lambda>r. HasEventType (ClassField_of pc) (soe_clazz r))"
  by (rule ext; simp)+

lemma selects_case: "selects (case_sel c)"
  by (cases c rule: case_sel.cases) (simp_all add: selects_Select selects_SelectDefault)

lemma select_first_limit: "select_first (min (length (filter want vs)) n) want sel vs = select_first n want sel vs"
  "picked (min (length (filter want vs)) n) want vs = picked n want vs"
proof -
  show "select_first (min (length (filter want vs)) n) want sel vs = select_first n want sel vs"
  proof (induction vs arbitrary: n)
    case (Cons r vs)
    have none: "select_first 0 want sel us = us" for us by (cases us) simp_all
    have id: "length (filter want us) = 0 \<Longrightarrow> select_first m want sel us = us" for us m
      by (induction us) (auto split: if_splits)
    show ?case
    proof (cases "want r")
      case True
      then show ?thesis using Cons.IH[of "n - 1"] by (cases n) simp_all
    next
      case False
      then show ?thesis using Cons.IH[of n] id[of vs n] none[of vs] by (cases "length (filter want vs) = 0") auto
    qed
  qed simp
  show "picked (min (length (filter want vs)) n) want vs = picked n want vs"
    by (simp add: picked_def min_def)
qed

lemma NumOfClassField_counts:
  assumes "counts ec M"
  shows "NumOfClassField ec f = of_nat (size (filter_mset (\<lambda>k. HasEventType f (fst k)) M))"
proof -
  have count: "NumOfClass ec c = of_nat (size (filter_mset (\<lambda>k. fst k = c) M))" for c
    using assms by (simp add: counts_def)
  have "size (filter_mset (\<lambda>k. HasEventType f (fst k)) M)
    = (if HasClass1 f then size (filter_mset (\<lambda>k. fst k = EC1) M) else 0)
      + (if HasClass2 f then size (filter_mset (\<lambda>k. fst k = EC2) M) else 0)
      + (if HasClass3 f then size (filter_mset (\<lambda>k. fst k = EC3) M) else 0)"
  proof (induction M)
    case (add k M)
    then show ?case by (cases "fst k") auto
  qed simp
  then show ?thesis by (simp add: NumOfClassField_def count Let_def)
qed

definition remaining_of :: "SelectCase \<Rightarrow> EventBuffer \<Rightarrow> uint32" where
  "remaining_of c b = (case c of
       SelectType t var \<Rightarrow> NumOfType (eb_totalCounts b) t - NumOfType (eb_selectedCounts b) t
     | SelectClass pc \<Rightarrow> NumOfClassField (eb_totalCounts b) (ClassField_of pc) - NumOfClassField (eb_selectedCounts b) (ClassField_of pc))"

lemma size_filter_keys: "size (filter_mset Q (keys vs)) = length (filter (\<lambda>r. Q (key_of r)) vs)"
  by (induction vs) simp_all

lemma remaining_of_eq:
  assumes inv: "eb_inv b vs D"
  shows "remaining_of c b = of_nat (length (filter (case_want c) vs))
    - of_nat (length (filter (case_want c) (filter soe_selected vs))
        + size (filter_mset (\<lambda>k. case c of SelectType t var \<Rightarrow> snd k = t | SelectClass pc \<Rightarrow> HasEventType (ClassField_of pc) (fst k)) D))"
proof (cases c)
  case (SelectType t var)
  then show ?thesis using eb_invD(5,6)[OF inv]
    by (simp add: remaining_of_def counts_def size_filter_keys key_of_def case_want_fun del: mset_map mset_filter)
next
  case (SelectClass pc)
  then show ?thesis using NumOfClassField_counts[OF eb_invD(5)[OF inv]] NumOfClassField_counts[OF eb_invD(6)[OF inv]]
    by (simp add: remaining_of_def size_filter_keys key_of_def case_want_fun del: mset_map mset_filter)
qed

lemma remaining_all:
  assumes inv: "eb_inv b vs {#}" and none: "\<forall>r\<in>set vs. case_want c r \<longrightarrow> \<not> soe_selected r"
  shows "unat (remaining_of c b) = length (filter (case_want c) vs)"
proof -
  have "length (filter (case_want c) (filter soe_selected vs)) = 0" using none by (auto simp: filter_empty_conv)
  then have "remaining_of c b = of_nat (length (filter (case_want c) vs))" unfolding remaining_of_eq[OF inv] by simp
  moreover have "length (filter (case_want c) vs) < 2 ^ 32"
    using length_filter_le[of "case_want c" vs] eb_invD(8)[OF inv] by linarith
  ultimately show ?thesis by (simp add: unat_of_nat)
qed

lemma SelectMaxCount_case:
  assumes "map_of select_cases gv = Some c"
  shows "SelectMaxCount gv maximum b =
    map_option (\<lambda>(b, n). (b, IIN_Empty)) (SelectLoop (case_want c) (case_sel c) (remaining_of c b) maximum b)"
proof (cases c)
  case (SelectType t var)
  then show ?thesis using assms
    by (cases var; cases "SelectLoop (case_want c) (case_sel c) (remaining_of c b) maximum b")
      (auto simp: SelectMaxCount_def SelectByType_def GenericSelectByType_def remaining_of_def Let_def case_want_fun)
next
  case (SelectClass pc)
  then show ?thesis using assms
    by (cases "SelectLoop (case_want c) (case_sel c) (remaining_of c b) maximum b")
      (auto simp: SelectMaxCount_def SelectByClass_def remaining_of_def Let_def case_want_fun)
qed

lemma SelectMaxCount_inv:
  fixes maximum :: uint32
  assumes inv: "eb_inv b vs D" and c: "map_of select_cases gv = Some c"
  defines "n \<equiv> min (unat (remaining_of c b)) (unat maximum)"
  shows "\<exists>b'. SelectMaxCount gv maximum b = Some (b', IIN_Empty)
    \<and> eb_inv b' (select_first n (case_want c) (case_sel c) vs) (D + keys (filter soe_selected (picked n (case_want c) vs)))
    \<and> eb_config b' = eb_config b \<and> eb_overflow b' = eb_overflow b"
  using SelectLoop_inv[OF inv selects_case refl, of "case_want c" c "remaining_of c b" maximum]
  unfolding n_def SelectMaxCount_case[OF c] by auto

lemma SelectMaxCount_fresh:
  assumes inv: "eb_inv b vs {#}" and c: "map_of select_cases gv = Some c"
    and none: "\<forall>r\<in>set vs. case_want c r \<longrightarrow> \<not> soe_selected r"
  shows "\<exists>b'. SelectMaxCount gv maximum b = Some (b', IIN_Empty)
    \<and> eb_inv b' (select_first (unat maximum) (case_want c) (case_sel c) vs) {#}
    \<and> eb_config b' = eb_config b \<and> eb_overflow b' = eb_overflow b"
proof -
  let ?n = "min (unat (remaining_of c b)) (unat maximum)"
  have "filter soe_selected (picked ?n (case_want c) vs) = []"
    using none set_take_subset[of ?n "filter (case_want c) vs"] by (auto simp: picked_def filter_empty_conv)
  moreover note remaining_all[OF inv none]
  ultimately show ?thesis
    using SelectLoop_inv[OF inv selects_case refl, of "case_want c" c "remaining_of c b" maximum]
    by (auto simp: SelectMaxCount_case[OF c] select_first_limit)
qed

section \<open>Unselecting\<close>

lemma Reset_idem: "record_ok r \<Longrightarrow> \<not> soe_selected r \<Longrightarrow> SOERecord_Reset r = r"
  by (cases r) (auto simp: SOERecord_Reset_def record_ok_def)

lemma unselect_eq:
  "unselect r (sc, wc) =
     (let sc' = (if soe_selected r then dec_key (key_of r) sc else sc);
          wc' = (if soe_written r then dec_key (key_of r) wc else wc)
      in (TotatCount sc' > 0, SOERecord_Reset r, sc', wc'))"
  by (cases r) (auto simp: unselect_def Let_def SOERecord_Reset_def key_of_def)

lemma Unselect_list:
  assumes "counts sc (keys (filter soe_selected vs) + D)" "counts wc (keys (filter soe_written vs))"
  shows "\<exists>k res sc' wc'. list_loop fst (\<lambda>v (result, s). let (result, v, s) = unselect v s in (v, result, s)) vs (True, sc, wc)
      = (map SOERecord_Reset (take k vs) @ drop k vs, res, sc', wc')
    \<and> counts sc' (keys (filter soe_selected (drop k vs)) + D) \<and> counts wc' (keys (filter soe_written (drop k vs)))
    \<and> (k < length vs \<longrightarrow> TotatCount sc' = 0)"
  using assms
proof (induction vs arbitrary: sc wc)
  case Nil
  then show ?case by (auto intro!: exI[of _ 0])
next
  case (Cons r vs)
  define sc' where "sc' = (if soe_selected r then dec_key (key_of r) sc else sc)"
  define wc' where "wc' = (if soe_written r then dec_key (key_of r) wc else wc)"
  have step: "unselect r (sc, wc) = (TotatCount sc' > 0, SOERecord_Reset r, sc', wc')"
    unfolding unselect_eq sc'_def wc'_def Let_def ..
  have inv: "counts sc' (keys (filter soe_selected vs) + D)" "counts wc' (keys (filter soe_written vs))"
    unfolding sc'_def wc'_def
    by (rule counts_dec_if; use Cons.prems in \<open>simp split: if_splits\<close>)+
  show ?case
  proof (cases "TotatCount sc' > 0")
    case False
    have stop: "list_loop fst body us (False, s) = (us, False, s)" for body us and s :: "EventCount \<times> EventCount"
      by (cases us) simp_all
    from False inv show ?thesis
      by - (rule exI[of _ 1], rule exI[of _ False], rule exI[of _ sc'], rule exI[of _ wc'], simp add: step stop word_greater_zero_iff)
  next
    case True
    from Cons.IH[OF inv] obtain k res sc2 wc2 where
      "list_loop fst (\<lambda>v (result, s). let (result, v, s) = unselect v s in (v, result, s)) vs (True, sc', wc')
        = (map SOERecord_Reset (take k vs) @ drop k vs, res, sc2, wc2)"
      "counts sc2 (keys (filter soe_selected (drop k vs)) + D)" "counts wc2 (keys (filter soe_written (drop k vs)))"
      "k < length vs \<longrightarrow> TotatCount sc2 = 0" by blast
    with True show ?thesis
      by - (rule exI[of _ "Suc k"], rule exI[of _ res], rule exI[of _ sc2], rule exI[of _ wc2], simp add: step)
  qed
qed

lemma Unselect_inv:
  assumes inv: "eb_inv b vs D"
  shows "\<exists>b' k. Unselect b = Some b' \<and> eb_inv b' (map SOERecord_Reset (take k vs) @ drop k vs) D
    \<and> eb_config b' = eb_config b \<and> eb_overflow b' = eb_overflow b
    \<and> (size D + length vs < 2 ^ 32 \<longrightarrow> map SOERecord_Reset (take k vs) @ drop k vs = map SOERecord_Reset vs)"
proof -
  let ?body = "\<lambda>v (result, s). let (result, v, s) = unselect v s in (v, result, s)"
  obtain k res sc wc where list: "list_loop fst ?body vs (True, eb_selectedCounts b, eb_writtenCounts b)
      = (map SOERecord_Reset (take k vs) @ drop k vs, res, sc, wc)"
    and counts: "counts sc (keys (filter soe_selected (drop k vs)) + D)" "counts wc (keys (filter soe_written (drop k vs)))"
    and stop: "k < length vs \<longrightarrow> TotatCount sc = 0"
    using Unselect_list[OF eb_invD(6,7)[OF inv]] by blast
  define vs' where "vs' = map SOERecord_Reset (take k vs) @ drop k vs"
  obtain l where l: "Loop fst ?body (eb_events b) (True, eb_selectedCounts b, eb_writtenCounts b) = Some (l, res, sc, wc)"
    "holds l vs'" "capacity l = capacity (eb_events b)"
    using ll.loop[OF eb_invD(1)[OF inv] list[folded vs'_def]] by blast
  have none: "filter soe_selected (map SOERecord_Reset us) = []" "filter soe_written (map SOERecord_Reset us) = []"
    "map key_of (map SOERecord_Reset us) = map key_of us" "of_type t (map SOERecord_Reset us) = of_type t us" for us t
    by (induction us) (simp_all add: SOERecord_Reset_def key_of_def)
  have ok: "record_ok r \<Longrightarrow> record_ok (SOERecord_Reset r)" for r by (simp add: record_ok_def SOERecord_Reset_def)
  have vs'_simps: "filter soe_selected vs' = filter soe_selected (drop k vs)" "filter soe_written vs' = filter soe_written (drop k vs)"
    "keys vs' = keys vs" "of_type t vs' = of_type t vs" for t
  proof -
    show "filter soe_selected vs' = filter soe_selected (drop k vs)" "filter soe_written vs' = filter soe_written (drop k vs)"
      by (simp_all only: vs'_def filter_append none append.simps)
    have "map key_of vs' = map key_of (take k vs @ drop k vs)" by (simp only: vs'_def map_append none)
    then show "keys vs' = keys vs" by (simp only: append_take_drop_id)
    have "of_type t vs' = of_type t (take k vs @ drop k vs)" by (simp only: vs'_def filter_append length_append none)
    then show "of_type t vs' = of_type t vs" by (simp only: append_take_drop_id)
  qed
  have "\<forall>r\<in>set vs'. record_ok r"
    using eb_invD(3)[OF inv] ok by (auto simp: vs'_def dest: in_set_takeD in_set_dropD)
  then have "eb_inv (b\<lparr>eb_events := l, eb_selectedCounts := sc, eb_writtenCounts := wc\<rparr>) vs' D"
    using inv l(2,3) counts by (simp add: eb_inv_def tracked_def vs'_simps del: mset_map mset_filter)
  moreover have "vs' = map SOERecord_Reset vs" if "size D + length vs < 2 ^ 32"
  proof (cases "k < length vs")
    case True
    have "length (filter soe_selected (drop k vs)) \<le> length vs"
      using length_filter_le[of soe_selected "drop k vs"] by simp
    then have "length (filter soe_selected (drop k vs)) + size D < 2 ^ 32" using that by linarith
    then have "filter soe_selected (drop k vs) = []"
      using counts_total[OF counts(1)] stop True by (simp del: mset_filter flip: length_0_conv)
    then have "map SOERecord_Reset (drop k vs) = drop k vs"
      using eb_invD(3)[OF inv] Reset_idem by (intro map_idI) (auto simp: filter_empty_conv dest: in_set_dropD)
    then have "vs' = map SOERecord_Reset (take k vs @ drop k vs)" by (simp only: vs'_def map_append)
    then show ?thesis by simp
  qed (simp add: vs'_def)
  moreover have "Unselect b = Some (b\<lparr>eb_events := l, eb_selectedCounts := sc, eb_writtenCounts := wc\<rparr>)"
    using l(1) by (simp add: Unselect_def WhileList_def)
  ultimately show ?thesis by (auto simp: vs'_def)
qed

section \<open>Confirming what was written\<close>

lemma ClearWritten_list:
  assumes "tracked b (keys vs + T) (keys (filter soe_selected vs) + S) (keys (filter soe_written vs) + W)"
    "\<forall>r\<in>set vs. record_ok r"
  shows "\<exists>b' n. list_remove_all (\<lambda>record b. if soe_written record then (True, RemoveFromCounts record b) else (False, b)) vs b
      = (filter (\<lambda>r. \<not> soe_written r) vs, b', n)
    \<and> tracked b' (keys (filter (\<lambda>r. \<not> soe_written r) vs) + T)
        (keys (filter soe_selected (filter (\<lambda>r. \<not> soe_written r) vs)) + S) W
    \<and> eb_config b' = eb_config b \<and> eb_overflow b' = eb_overflow b"
  using assms
proof (induction vs arbitrary: b T S)
  case Nil
  then show ?case by simp
next
  case (Cons r vs)
  show ?case
  proof (cases "soe_written r")
    case True
    with Cons.prems(2) have sel: "soe_selected r" by (simp add: record_ok_def)
    have "tracked (RemoveFromCounts r b) (keys vs + T) (keys (filter soe_selected vs) + S) (keys (filter soe_written vs) + W)"
      by (rule RemoveFromCounts_tracked) (use Cons.prems(1) True sel in simp)
    from Cons.IH[OF this] Cons.prems(2) True show ?thesis by auto
  next
    case False
    have "tracked b (keys vs + add_mset (key_of r) T)
        (keys (filter soe_selected vs) + (if soe_selected r then add_mset (key_of r) S else S)) (keys (filter soe_written vs) + W)"
      using Cons.prems(1) False by (cases "soe_selected r") simp_all
    from Cons.IH[OF this] Cons.prems(2) False show ?thesis by (cases "soe_selected r") auto
  qed
qed

lemma ClearWritten_inv:
  assumes inv: "eb_inv b vs D"
  shows "\<exists>b'. ClearWritten b = Some b' \<and> eb_inv b' (filter (\<lambda>r. \<not> soe_written r) vs) D
    \<and> eb_config b' = eb_config b \<and> eb_overflow b' = eb_overflow b"
proof -
  define vs' where "vs' = filter (\<lambda>r. \<not> soe_written r) vs"
  have "tracked b (keys vs + {#}) (keys (filter soe_selected vs) + D) (keys (filter soe_written vs) + {#})"
    using inv by (simp add: eb_inv_def)
  from ClearWritten_list[OF this] eb_invD(3)[OF inv] obtain b1 n where list:
    "list_remove_all (\<lambda>record b. if soe_written record then (True, RemoveFromCounts record b) else (False, b)) vs b = (vs', b1, n)"
    "tracked b1 (keys vs' + {#}) (keys (filter soe_selected vs') + D) {#}"
    "eb_config b1 = eb_config b" "eb_overflow b1 = eb_overflow b" unfolding vs'_def by blast
  obtain l where l: "RemoveAll (\<lambda>record b. if soe_written record then (True, RemoveFromCounts record b) else (False, b)) (eb_events b) b
      = Some (l, b1, of_nat n)" "holds l vs'" "capacity l = capacity (eb_events b)"
    using ll.remove_all[OF eb_invD(1)[OF inv] list(1)] by blast
  have none: "filter soe_written vs' = []" by (simp add: vs'_def)
  have "of_type t vs' \<le> of_type t vs" for t unfolding vs'_def by (induction vs) auto
  then have quota: "of_type t vs' \<le> quota (eb_config b) t" for t using eb_invD(4)[OF inv, of t] le_trans by blast
  have "\<forall>r\<in>set vs'. record_ok r" using eb_invD(3)[OF inv] by (simp add: vs'_def)
  then have "eb_inv (b1\<lparr>eb_events := l\<rparr>) vs' D"
    using list(2,3) l(2,3) quota eb_invD(2)[OF inv] none by (simp add: eb_inv_def tracked_def del: mset_map mset_filter)
  then show ?thesis using l(1) list(3,4) unfolding vs'_def[symmetric] by (simp add: ClearWritten_def)
qed

section \<open>What the buffer reports\<close>

lemma HasUnwrittenEvents_iff:
  assumes inv: "eb_inv b vs D"
  shows "HasUnwrittenEvents ec b \<longleftrightarrow> (\<exists>r\<in>set vs. soe_clazz r = ec \<and> \<not> soe_written r)"
proof -
  have split: "length (filter (\<lambda>r. soe_clazz r = ec) vs)
    = length (filter (\<lambda>r. soe_clazz r = ec) (filter soe_written vs)) + length (filter (\<lambda>r. soe_clazz r = ec \<and> \<not> soe_written r) vs)"
    by (induction vs) auto
  have "length (filter (\<lambda>r. soe_clazz r = ec \<and> \<not> soe_written r) vs) \<le> length vs" by (rule length_filter_le)
  then have small: "length (filter (\<lambda>r. soe_clazz r = ec \<and> \<not> soe_written r) vs) < 2 ^ 32" using eb_invD(8)[OF inv] by linarith
  have "NumOfClass (eb_totalCounts b) ec - NumOfClass (eb_writtenCounts b) ec
    = of_nat (length (filter (\<lambda>r. soe_clazz r = ec) vs)) - of_nat (length (filter (\<lambda>r. soe_clazz r = ec) (filter soe_written vs)))"
    using eb_invD(5,7)[OF inv] by (simp add: counts_def size_filter_keys key_of_def del: mset_map mset_filter)
  then have "unat (NumOfClass (eb_totalCounts b) ec - NumOfClass (eb_writtenCounts b) ec)
    = length (filter (\<lambda>r. soe_clazz r = ec \<and> \<not> soe_written r) vs)"
    using small unfolding split by (simp add: unat_of_nat)
  then show ?thesis
    by (auto simp: HasUnwrittenEvents_def word_greater_zero_iff filter_empty_conv simp flip: unat_eq_0)
qed

lemma IsTypeOverflown_iff:
  assumes inv: "eb_inv b vs D"
  shows "IsTypeOverflown t b \<longleftrightarrow> quota (eb_config b) t > 0 \<and> of_type t vs = quota (eb_config b) t"
  using NumOfType_of_type[OF eb_invD(5,8)[OF inv], of t] eb_invD(4)[OF inv, of t]
  by (auto simp: IsTypeOverflown_def Let_def ucast_le_iff word_greater_zero_iff simp flip: unat_eq_0)

lemma updated_meaning:
  assumes "of_type (evt_type evt) vs \<le> quota c (evt_type evt)"
  defines "t \<equiv> evt_type evt"
  shows "filter (\<lambda>r. soe_type r \<noteq> t) (updated c evt vs) = filter (\<lambda>r. soe_type r \<noteq> t) vs"
    "filter (\<lambda>r. soe_type r = t) (updated c evt vs)
       = (let rs = filter (\<lambda>r. soe_type r = t) vs @ [SOERecord_make evt] in drop (length rs - quota c t) rs)"
proof -
  have old: "filter (\<lambda>r. soe_type r \<noteq> t) (remove_oldest t vs) = filter (\<lambda>r. soe_type r \<noteq> t) vs"
    "filter (\<lambda>r. soe_type r = t) (remove_oldest t vs) = tl (filter (\<lambda>r. soe_type r = t) vs)"
    by (induction vs) (simp_all add: remove_oldest_def)
  consider "quota c t = 0" | "quota c t > 0" "of_type t vs < quota c t" | "quota c t > 0" "of_type t vs = quota c t"
    using assms(1) unfolding t_def by linarith
  note cases = this
  show "filter (\<lambda>r. soe_type r \<noteq> t) (updated c evt vs) = filter (\<lambda>r. soe_type r \<noteq> t) vs"
    using old(1) by (auto simp: updated_def Let_def simp flip: t_def)
  show "filter (\<lambda>r. soe_type r = t) (updated c evt vs)
       = (let rs = filter (\<lambda>r. soe_type r = t) vs @ [SOERecord_make evt] in drop (length rs - quota c t) rs)"
    using cases
  proof cases
    case 1
    with assms(1) show ?thesis by (simp add: updated_def flip: t_def)
  next
    case 2
    then show ?thesis by (simp add: updated_def flip: t_def)
  next
    case 3
    then show ?thesis using old(2) by (simp add: updated_def drop_Suc flip: t_def)
  qed
qed

lemma unwritten_report:
  assumes "eb_inv b vs D"
  shows "HasEventType (UnwrittenClassField b) cl \<longleftrightarrow> (\<exists>r\<in>set vs. soe_clazz r = cl \<and> \<not> soe_written r)"
  using HasUnwrittenEvents_iff[OF assms] by (cases cl) (simp_all add: UnwrittenClassField_def)

lemma space_report:
  assumes inv: "eb_inv b vs D"
  shows "HasEnoughSpaceToClearOverflow b \<longleftrightarrow> length vs < unat (TotalEvents (eb_config b))
    \<and> (\<forall>t. t \<noteq> ET_SecurityStat \<longrightarrow> quota (eb_config b) t > 0 \<longrightarrow> of_type t vs < quota (eb_config b) t)"
proof -
  have "IsAnyTypeOverflown b \<longleftrightarrow> (\<exists>t. t \<noteq> ET_SecurityStat \<and> IsTypeOverflown t b)"
    by (auto simp: IsAnyTypeOverflown_def) (metis EventType.exhaust)
  moreover have "IsFull (eb_events b) \<longleftrightarrow> length vs = unat (TotalEvents (eb_config b))"
    using ll.full[OF eb_invD(1)[OF inv]] eb_invD(2)[OF inv] by simp
  moreover have "length vs \<le> unat (TotalEvents (eb_config b))"
    using ll.bounded[OF eb_invD(1)[OF inv]] eb_invD(2)[OF inv] by simp
  ultimately show ?thesis
    using eb_invD(4)[OF inv] IsTypeOverflown_iff[OF inv] unfolding HasEnoughSpaceToClearOverflow_def
    by (metis le_neq_implies_less nless_le)
qed

section \<open>Properties\<close>

text \<open>
  \<^bold>\<open>C28\<close>.  Adding an event refines an operation on the sequence of events: it always finds a node for the
  event, keeps the events of every other type in place and, of the event's own type, keeps the newest ones
  up to the quota of the type, in order of arrival; the overflow flag is set exactly when an event had
  to be discarded, and the counters stay exact.
\<close>

theorem UpdateAny_refines:
  assumes "eb_inv b vs D" and "evt_ok evt"
  defines "t \<equiv> evt_type evt"
  shows "\<exists>b' vs'. UpdateAny evt b = Some b' \<and> eb_inv b' vs' D
    \<and> filter (\<lambda>r. soe_type r \<noteq> t) vs' = filter (\<lambda>r. soe_type r \<noteq> t) vs
    \<and> filter (\<lambda>r. soe_type r = t) vs'
        = (let rs = filter (\<lambda>r. soe_type r = t) vs @ [SOERecord_make evt] in drop (length rs - quota (eb_config b) t) rs)
    \<and> eb_overflow b' = (eb_overflow b \<or> quota (eb_config b) t > 0 \<and> of_type t vs = quota (eb_config b) t)"
  using UpdateAny_inv[OF assms(1,2)] updated_meaning[OF eb_invD(4)[OF assms(1)]]
  unfolding t_def update_overflows_def by blast

definition test_event :: "uint16 \<Rightarrow> Event" where
  "test_event i = \<lparr>evt_type = ET_Binary, evt_value = BoolValue True, evt_quality = 1, evt_time = 0, evt_index = i,
     evt_clazz = EC1, evt_variation = GroupVar 2 1\<rparr>"

lemma test_event_ok: "evt_ok (test_event i)" by (simp add: evt_ok_def test_event_def)

lemma UpdateAny_refines_witness:
  "\<exists>b' vs'. UpdateAny (test_event 7) (EventBuffer_make (EventBufferConfig_AllTypes 3)) = Some b' \<and> eb_inv b' vs' {#}
    \<and> map soe_index (filter (\<lambda>r. soe_type r = ET_Binary) vs') = [7]"
proof -
  obtain b' vs' where "UpdateAny (test_event 7) (EventBuffer_make (EventBufferConfig_AllTypes 3)) = Some b'" "eb_inv b' vs' {#}"
    "filter (\<lambda>r. soe_type r = ET_Binary) vs' = drop (1 - 3) [SOERecord_make (test_event 7)]"
    using UpdateAny_refines[OF EventBuffer_make_inv[of "EventBufferConfig_AllTypes 3"] test_event_ok[of 7]]
    by (auto simp: test_event_def EventBuffer_make_def EventBufferConfig_AllTypes_def)
  then show ?thesis by (auto simp: SOERecord_make_def test_event_def)
qed

text \<open>
  \<^bold>\<open>C29\<close>.  A read request for events, on a buffer whose counters have no drift and in which none of the events asked
  for is selected yet, selects exactly the oldest of them, as many as there are up to the maximum, with the
  variation asked for or else the default, and leaves every other event as it was; a group and variation that is
  not one of events changes nothing and is answered with \<^verbatim>\<open>FUNC_NOT_SUPPORTED\<close>.
\<close>

theorem SelectMaxCount_selects_oldest:
  assumes "eb_inv b vs {#}"
  shows "case map_of select_cases gv of
      None \<Rightarrow> SelectMaxCount gv maximum b = Some (b, IIN_of_bit FUNC_NOT_SUPPORTED)
    | Some c \<Rightarrow> (\<forall>r\<in>set vs. case_want c r \<longrightarrow> \<not> soe_selected r) \<longrightarrow>
        (\<exists>b'. SelectMaxCount gv maximum b = Some (b', IIN_Empty)
          \<and> eb_inv b' (select_first (unat maximum) (case_want c) (case_sel c) vs) {#})"
proof (cases "map_of select_cases gv")
  case None
  then show ?thesis by (simp add: SelectMaxCount_def)
next
  case (Some c)
  then show ?thesis using SelectMaxCount_fresh[OF assms Some, of maximum] by auto
qed

lemma test_buffer:
  "\<exists>b. UpdateAny (test_event i) (EventBuffer_make (EventBufferConfig_AllTypes 3)) = Some b
    \<and> eb_inv b [SOERecord_make (test_event i)] {#} \<and> eb_config b = EventBufferConfig_AllTypes 3"
  using UpdateAny_inv[OF EventBuffer_make_inv[of "EventBufferConfig_AllTypes 3"] test_event_ok[of i]]
  by (auto simp: updated_def test_event_def EventBuffer_make_def EventBufferConfig_AllTypes_def)

lemma SelectMaxCount_selects_oldest_witness:
  "\<exists>b b'. UpdateAny (test_event 7) (EventBuffer_make (EventBufferConfig_AllTypes 3)) = Some b
    \<and> SelectMaxCount (GroupVar 2 3) 5 b = Some (b', IIN_Empty)
    \<and> eb_inv b' [SOERecord_Select (GroupVar 2 3) (SOERecord_make (test_event 7))] {#}"
proof -
  obtain b where b: "UpdateAny (test_event 7) (EventBuffer_make (EventBufferConfig_AllTypes 3)) = Some b"
    "eb_inv b [SOERecord_make (test_event 7)] {#}" using test_buffer by blast
  have "map_of select_cases (GroupVar 2 3) = Some (SelectType ET_Binary (Some (GroupVar 2 3)))"
    by (simp add: select_cases_def select_types_def GroupVar_def)
  with b(1) show ?thesis
    using SelectMaxCount_selects_oldest[OF b(2), where gv = "GroupVar 2 3" and maximum = 5] by (auto simp: test_event_def)
qed

text \<open>
  \<^bold>\<open>C30\<close>.  What the buffer reports is what it holds: a class is pending exactly when it has an event that is not yet written,
  and there is room again exactly when the list is not full and no type but security statistics has used up its quota.
\<close>

theorem EventBuffer_reports:
  assumes "eb_inv b vs D"
  shows "HasEventType (UnwrittenClassField b) cl = (\<exists>r\<in>set vs. soe_clazz r = cl \<and> \<not> soe_written r)
    \<and> HasEnoughSpaceToClearOverflow b = (length vs < unat (TotalEvents (eb_config b))
        \<and> (\<forall>t. t \<noteq> ET_SecurityStat \<longrightarrow> quota (eb_config b) t > 0 \<longrightarrow> of_type t vs < quota (eb_config b) t))"
  using unwritten_report[OF assms] space_report[OF assms] by blast

lemma EventBuffer_reports_witness:
  "\<exists>b. UpdateAny (test_event 7) (EventBuffer_make (EventBufferConfig_AllTypes 3)) = Some b
    \<and> HasEventType (UnwrittenClassField b) EC1 \<and> \<not> HasEventType (UnwrittenClassField b) EC2"
proof -
  obtain b where b: "UpdateAny (test_event 7) (EventBuffer_make (EventBufferConfig_AllTypes 3)) = Some b"
    "eb_inv b [SOERecord_make (test_event 7)] {#}" using test_buffer by blast
  with EventBuffer_reports[OF b(2), of EC1] EventBuffer_reports[OF b(2), of EC2] show ?thesis
    by (simp add: SOERecord_make_def test_event_def)
qed

section \<open>Events that are selected twice\<close>

text \<open>The operations on a buffer, in any order.\<close>

datatype BufferOperation =
    UpdateOp Event
  | SelectOp GroupVariation uint32
  | UnselectOp
  | ClearWrittenOp

fun buffer_step :: "BufferOperation \<Rightarrow> EventBuffer \<Rightarrow> EventBuffer option" where
  "buffer_step (UpdateOp evt) b = UpdateAny evt b"
| "buffer_step (SelectOp gv maximum) b = map_option fst (SelectMaxCount gv maximum b)"
| "buffer_step UnselectOp b = Unselect b"
| "buffer_step ClearWrittenOp b = ClearWritten b"

fun buffer_run :: "BufferOperation list \<Rightarrow> EventBuffer \<Rightarrow> EventBuffer option" where
  "buffer_run [] b = Some b"
| "buffer_run (e # es) b = Option.bind (buffer_step e b) (buffer_run es)"

definition operation_ok :: "BufferOperation \<Rightarrow> bool" where
  "operation_ok e \<longleftrightarrow> (case e of UpdateOp evt \<Rightarrow> evt_ok evt | _ \<Rightarrow> True)"

lemma buffer_step_drift:
  assumes inv: "eb_inv b vs D" and ok: "operation_ok e" and s: "buffer_step e b = Some b'"
  shows "\<exists>vs' D'. eb_inv b' vs' D' \<and> D \<subseteq># D'"
proof (cases e)
  case (UpdateOp evt)
  with UpdateAny_inv[OF inv, of evt] ok s show ?thesis by (auto simp: operation_ok_def)
next
  case (SelectOp gv maximum)
  show ?thesis
  proof (cases "map_of select_cases gv")
    case None
    with SelectOp s inv show ?thesis by (auto simp: SelectMaxCount_def)
  next
    case (Some c)
    obtain vs' D' where "eb_inv b' vs' (D + D')" using SelectMaxCount_inv[OF inv Some, of maximum] SelectOp s by auto
    then show ?thesis by (blast intro: mset_subset_eq_add_left)
  qed
next
  case UnselectOp
  with Unselect_inv[OF inv] s show ?thesis by auto
next
  case ClearWrittenOp
  with ClearWritten_inv[OF inv] s show ?thesis by auto
qed

lemma buffer_run_drift:
  "eb_inv b vs D \<Longrightarrow> list_all operation_ok es \<Longrightarrow> buffer_run es b = Some b' \<Longrightarrow> \<exists>vs' D'. eb_inv b' vs' D' \<and> D \<subseteq># D'"
proof (induction es arbitrary: b vs D)
  case (Cons e es)
  from Cons.prems(3) obtain b1 where one: "buffer_step e b = Some b1" and rest: "buffer_run es b1 = Some b'"
    by (auto simp: bind_eq_Some_conv)
  from buffer_step_drift[OF Cons.prems(1) _ one] Cons.prems(2) obtain vs1 D1 where "eb_inv b1 vs1 D1" "D \<subseteq># D1" by auto
  with Cons.IH[OF this(1) _ rest] Cons.prems(2) show ?case by (auto intro: subset_mset.order_trans)
qed auto

text \<open>How many of the counts that are too many a request is charged for.\<close>

definition charged :: "SelectCase \<Rightarrow> key multiset \<Rightarrow> nat" where
  "charged c D = size (filter_mset (\<lambda>k. case c of SelectType t var \<Rightarrow> snd k = t | SelectClass pc \<Rightarrow> HasEventType (ClassField_of pc) (fst k)) D)"

lemma charged_mono: "D \<subseteq># D' \<Longrightarrow> charged c D \<le> charged c D'"
  unfolding charged_def by (intro size_mset_mono multiset_filter_mono)

lemma SelectAll_drift:
  assumes inv: "eb_inv b vs D" and c: "map_of select_cases gv = Some c"
    and none: "\<forall>r\<in>set vs. case_want c r \<longrightarrow> \<not> soe_selected r" and le: "charged c D \<le> length (filter (case_want c) vs)"
  shows "\<exists>b'. SelectAll gv b = Some (b', IIN_Empty)
    \<and> eb_inv b' (select_first (length (filter (case_want c) vs) - charged c D) (case_want c) (case_sel c) vs) D"
proof -
  let ?len = "length (filter (case_want c) vs)"
  have "length (filter (case_want c) (filter soe_selected vs)) = 0" using none by (auto simp: filter_empty_conv)
  then have "remaining_of c b = of_nat ?len - of_nat (charged c D)" unfolding remaining_of_eq[OF inv] charged_def by simp
  also have "\<dots> = of_nat (?len - charged c D)" using le by (simp add: of_nat_diff)
  finally have r: "remaining_of c b = of_nat (?len - charged c D)" .
  have small: "?len - charged c D < 2 ^ 32" using length_filter_le[of "case_want c" vs] eb_invD(8)[OF inv] by linarith
  then have n: "min (unat (remaining_of c b)) (unat (- 1 :: uint32)) = ?len - charged c D"
    unfolding r by (simp add: unat_of_nat take_bit_nat_eq_self unsigned_minus_1_eq_mask mask_eq_exp_minus_1)
  have "filter soe_selected (picked (?len - charged c D) (case_want c) vs) = []"
    using none set_take_subset[of _ "filter (case_want c) vs"] by (fastforce simp: picked_def filter_empty_conv)
  with SelectMaxCount_inv[OF inv c, of "- 1"] show ?thesis unfolding n by (auto simp: SelectAll_def)
qed


text \<open>
  With two events of class 1, a request for one binary event and then for class 1 selects the first event twice and the second
  never, and after \<^verbatim>\<open>Unselect\<close> a request for all of class 1 still leaves the second event out.
\<close>

lemma reselection_example:
  "\<exists>b1 b2 b3 b4 b5 b6.
     UpdateAny (test_event 7) (EventBuffer_make (EventBufferConfig_AllTypes 3)) = Some b1
   \<and> UpdateAny (test_event 8) b1 = Some b2
   \<and> SelectCount (GroupVar 2 0) 1 b2 = Some (b3, IIN_Empty)
   \<and> eb_inv b3 [SOERecord_SelectDefault (SOERecord_make (test_event 7)), SOERecord_make (test_event 8)] {#}
   \<and> SelectAll (GroupVar 60 2) b3 = Some (b4, IIN_Empty)
   \<and> Unselect b4 = Some b5
   \<and> SelectAll (GroupVar 60 2) b5 = Some (b6, IIN_Empty)
   \<and> eb_inv b6 [SOERecord_SelectDefault (SOERecord_make (test_event 7)), SOERecord_make (test_event 8)] {#(EC1, ET_Binary)#}"
proof -
  define r where "r i = SOERecord_make (test_event i)" for i
  have r: "soe_type (r i) = ET_Binary" "soe_clazz (r i) = EC1" "\<not> soe_selected (r i)" "SOERecord_Reset (r i) = r i"
    "key_of (r i) = (EC1, ET_Binary)" for i by (simp_all add: r_def test_event_def)
  have s: "soe_type (SOERecord_SelectDefault (r i)) = ET_Binary" "soe_clazz (SOERecord_SelectDefault (r i)) = EC1"
    "soe_selected (SOERecord_SelectDefault (r i))" "key_of (SOERecord_SelectDefault (r i)) = (EC1, ET_Binary)"
    "SOERecord_SelectDefault (SOERecord_SelectDefault (r i)) = SOERecord_SelectDefault (r i)"
    "SOERecord_Reset (SOERecord_SelectDefault (r i)) = r i" for i
    using r[of i] by (simp_all add: SOERecord_SelectDefault_def SelectDefaultVariation_def key_of_def r_def
        SOERecord_Reset_def SOERecord_make_def)
  have gv: "map_of select_cases (GroupVar 2 0) = Some (SelectType ET_Binary None)"
    "map_of select_cases (GroupVar 60 2) = Some (SelectClass Class1)"
    by (simp_all add: select_cases_def select_types_def GroupVar_def)
  have m: "min (Suc 0) (unat (- 1 :: uint32)) = Suc 0" by (simp add: unsigned_minus_1_eq_mask mask_eq_exp_minus_1)
  have cl: "HasClass1 (ClassField_of Class1)" using HasEventType_of(1)[of EC1] by simp
  obtain b1 where b1: "UpdateAny (test_event 7) (EventBuffer_make (EventBufferConfig_AllTypes 3)) = Some b1"
    "eb_inv b1 [r 7] {#}" "eb_config b1 = EventBufferConfig_AllTypes 3" unfolding r_def using test_buffer by blast
  have "updated (eb_config b1) (test_event 8) [r 7] = [r 7, r 8]"
    by (simp add: updated_def b1(3) EventBufferConfig_AllTypes_def test_event_def r_def)
  with UpdateAny_inv[OF b1(2) test_event_ok[of 8]] obtain b2 where b2: "UpdateAny (test_event 8) b1 = Some b2" "eb_inv b2 [r 7, r 8] {#}"
    by auto
  have "remaining_of (SelectType ET_Binary None) b2 = 2" by (simp add: remaining_of_eq[OF b2(2)] r)
  with SelectMaxCount_inv[OF b2(2) gv(1), of 1] obtain b3 where b3: "SelectCount (GroupVar 2 0) 1 b2 = Some (b3, IIN_Empty)"
    "eb_inv b3 [SOERecord_SelectDefault (r 7), r 8] {#}"
    by (auto simp: SelectCount_def r picked_def)
  have "remaining_of (SelectClass Class1) b3 = 1" by (simp add: remaining_of_eq[OF b3(2)] r s cl)
  with SelectMaxCount_inv[OF b3(2) gv(2), of "- 1"] obtain b4 where b4: "SelectAll (GroupVar 60 2) b3 = Some (b4, IIN_Empty)"
    "eb_inv b4 [SOERecord_SelectDefault (r 7), r 8] {#(EC1, ET_Binary)#}"
    by (auto simp: SelectAll_def r s cl m picked_def)
  from Unselect_inv[OF b4(2)] s(6)[of 7] r(4)[of 8] obtain b5 where b5: "Unselect b4 = Some b5"
    "eb_inv b5 [r 7, r 8] {#(EC1, ET_Binary)#}" by auto
  have "remaining_of (SelectClass Class1) b5 = 1" by (simp add: remaining_of_eq[OF b5(2)] r s cl)
  with SelectMaxCount_inv[OF b5(2) gv(2), of "- 1"] obtain b6 where b6: "SelectAll (GroupVar 60 2) b5 = Some (b6, IIN_Empty)"
    "eb_inv b6 [SOERecord_SelectDefault (r 7), r 8] {#(EC1, ET_Binary)#}"
    by (auto simp: SelectAll_def r s cl m picked_def)
  from b1(1) b2(1) b3 b4(1) b5(1) b6 show ?thesis unfolding r_def by blast
qed


end
