(* ===== verification/StaticDatabase.thy ===== *)
theory StaticDatabase
  imports HeaderWriter IndexSearch EventBuffer
begin

text \<open>
  \<^verbatim>\<open>outstation/Database\<close>, \<^verbatim>\<open>DatabaseBuffers\<close>, \<^verbatim>\<open>StaticBuffers\<close>, \<^verbatim>\<open>SelectedRanges\<close> and
  \<^verbatim>\<open>StaticLoadFunctions\<close>: the current values of an outstation, their selection by a read request and the writing of
  the selected values into a response.  \<open>None\<close> is an access outside of an array, the conversion of a NaN to an integer or
  a loop that does not end.
\<close>

section \<open>Event detection\<close>

text \<open>
  \<^verbatim>\<open>fabs(a - b)\<close> of two doubles in units of the smallest number: the exact difference rounded to 53 bits, ties to even;
  \<open>2\<^sup>2\<^sup>0\<^sup>9\<^sup>8\<close> is infinity and \<open>None\<close> a NaN.
\<close>

definition dbl_isinf :: "uint64 \<Rightarrow> bool" where
  "dbl_isinf d \<longleftrightarrow> dbl_exponent d = 2047 \<and> dbl_fraction d = 0"

definition dbl_infinity :: nat where
  "dbl_infinity = 2 ^ 2098"

definition fabs_diff :: "uint64 \<Rightarrow> uint64 \<Rightarrow> nat option" where
  "fabs_diff a b =
     (if dbl_isnan a \<or> dbl_isnan b then None
      else if dbl_isinf a \<or> dbl_isinf b then (if a = b then None else Some dbl_infinity)
      else let e = nat \<bar>dbl_int a - dbl_int b\<bar>; k = log2 e - 52
           in Some (min dbl_infinity (round_even e (2 ^ k) * 2 ^ k)))"

text \<open>The two overloads of \<^verbatim>\<open>measurements::IsEvent\<close>.\<close>

definition IsEvent_double :: "Measurement \<Rightarrow> Measurement \<Rightarrow> uint64 \<Rightarrow> uint64 \<Rightarrow> uint64 \<Rightarrow> bool" where
  "IsEvent_double newMeas oldMeas newValue oldValue deadband =
     (if m_quality newMeas \<noteq> m_quality oldMeas then True
      else case fabs_diff newValue oldValue of
          None \<Rightarrow> False
        | Some diff \<Rightarrow> if diff = dbl_infinity then True else dbl_less deadband (int diff))"

definition IsEvent_uint32 :: "uint32 \<Rightarrow> uint32 \<Rightarrow> uint32 \<Rightarrow> bool" where
  "IsEvent_uint32 val1 val2 deadband =
     (let diff = (if val2 > val1 then ucast val2 - ucast val1 else ucast val1 - ucast val2 :: uint64)
      in diff > ucast deadband)"

text \<open>
  The \<^verbatim>\<open>IsEvent\<close> of the measurement types, on the last event and the new value.  The deadband is the bits of a
  \<^verbatim>\<open>double\<close> for the analog types and a number of 32 bits for the counters.
\<close>

fun Measurement_IsEvent :: "Measurement \<Rightarrow> Measurement \<Rightarrow> uint64 \<Rightarrow> bool" where
  "Measurement_IsEvent lastEvent newValue deadband =
     (case (m_value lastEvent, m_value newValue) of
        (DoubleValue old, DoubleValue new) \<Rightarrow> IsEvent_double newValue lastEvent new old deadband
      | (UInt32Value old, UInt32Value new) \<Rightarrow>
          if m_quality lastEvent \<noteq> m_quality newValue then True else IsEvent_uint32 old new (ucast deadband)
      | (SecurityStatValue a old, SecurityStatValue a' new) \<Rightarrow>
          if m_quality lastEvent \<noteq> m_quality newValue then True else IsEvent_uint32 old new (ucast deadband)
      | _ \<Rightarrow> m_quality lastEvent \<noteq> m_quality newValue)"

definition IsQualityOnlineOnly :: "Measurement \<Rightarrow> bool" where
  "IsQualityOnlineOnly m = (m_quality m AND 0x01 \<noteq> 0 \<and> m_quality m AND NOT (0x01 OR 0x80) = 0)"

section \<open>Cells\<close>

type_synonym StaticVariation = GroupVariation

record 'v EventMetadata =
  md_clazz :: PointClass
  md_lastEvent :: 'v
  md_variation :: EventVariation
  md_deadband :: uint64

text \<open>\<^verbatim>\<open>Cell\<close> with its \<^verbatim>\<open>SelectedValue\<close>; the metadata of a \<^verbatim>\<open>TimeAndInterval\<close> is empty.\<close>

record ('v, 'm) Cell =
  cl_value :: 'v
  cl_vIndex :: uint16
  cl_variation :: StaticVariation
  cl_metadata :: 'm
  sel_selected :: bool
  sel_value :: 'v
  sel_variation :: StaticVariation

type_synonym MeasurementCell = "(Measurement, Measurement EventMetadata) Cell"
type_synonym TimeCell = "(TimeAndInterval, unit) Cell"

definition Cell_make :: "'v \<Rightarrow> StaticVariation \<Rightarrow> 'm \<Rightarrow> ('v, 'm) Cell" where
  "Cell_make value variation metadata =
     \<lparr>cl_value = value, cl_vIndex = 0, cl_variation = variation, cl_metadata = metadata,
      sel_selected = False, sel_value = value, sel_variation = variation\<rparr>"

text \<open>The default constructors and default variations of the measurement types.\<close>

definition RESTART_flag :: uint8 where "RESTART_flag = 0x02"

fun default_measurement :: "EventType \<Rightarrow> Measurement" where
  "default_measurement ET_Binary = \<lparr>m_value = BoolValue False, m_quality = RESTART_flag, m_time = 0\<rparr>"
| "default_measurement ET_BinaryOutputStatus = \<lparr>m_value = BoolValue False, m_quality = RESTART_flag, m_time = 0\<rparr>"
| "default_measurement ET_DoubleBitBinary = \<lparr>m_value = DoubleBitValue INDETERMINATE, m_quality = RESTART_flag, m_time = 0\<rparr>"
| "default_measurement ET_Counter = \<lparr>m_value = UInt32Value 0, m_quality = RESTART_flag, m_time = 0\<rparr>"
| "default_measurement ET_FrozenCounter = \<lparr>m_value = UInt32Value 0, m_quality = RESTART_flag, m_time = 0\<rparr>"
| "default_measurement ET_Analog = \<lparr>m_value = DoubleValue 0, m_quality = RESTART_flag, m_time = 0\<rparr>"
| "default_measurement ET_AnalogOutputStatus = \<lparr>m_value = DoubleValue 0, m_quality = RESTART_flag, m_time = 0\<rparr>"
| "default_measurement ET_SecurityStat = \<lparr>m_value = SecurityStatValue 0 0, m_quality = RESTART_flag, m_time = 0\<rparr>"

fun DefaultStaticVariation :: "EventType \<Rightarrow> StaticVariation" where
  "DefaultStaticVariation ET_Binary = GroupVar 1 2"
| "DefaultStaticVariation ET_DoubleBitBinary = GroupVar 3 2"
| "DefaultStaticVariation ET_BinaryOutputStatus = GroupVar 10 2"
| "DefaultStaticVariation ET_Counter = GroupVar 20 1"
| "DefaultStaticVariation ET_FrozenCounter = GroupVar 21 1"
| "DefaultStaticVariation ET_Analog = GroupVar 30 1"
| "DefaultStaticVariation ET_AnalogOutputStatus = GroupVar 40 1"
| "DefaultStaticVariation ET_SecurityStat = GroupVar 121 1"

fun DefaultEventVariation :: "EventType \<Rightarrow> EventVariation" where
  "DefaultEventVariation ET_Binary = GroupVar 2 1"
| "DefaultEventVariation ET_DoubleBitBinary = GroupVar 4 1"
| "DefaultEventVariation ET_BinaryOutputStatus = GroupVar 11 1"
| "DefaultEventVariation ET_Counter = GroupVar 22 1"
| "DefaultEventVariation ET_FrozenCounter = GroupVar 23 1"
| "DefaultEventVariation ET_Analog = GroupVar 32 1"
| "DefaultEventVariation ET_AnalogOutputStatus = GroupVar 42 1"
| "DefaultEventVariation ET_SecurityStat = GroupVar 122 1"

definition default_metadata :: "EventType \<Rightarrow> Measurement EventMetadata" where
  "default_metadata t = \<lparr>md_clazz = Class1, md_lastEvent = default_measurement t, md_variation = DefaultEventVariation t, md_deadband = 0\<rparr>"

definition SetDefaultIndices :: "('v, 'm) Cell list \<Rightarrow> ('v, 'm) Cell list" where
  "SetDefaultIndices view = map (\<lambda>i. (view ! i)\<lparr>cl_vIndex := of_nat i\<rparr>) [0..<length view]"

section \<open>\<^verbatim>\<open>DatabaseBuffers\<close>\<close>

datatype IndexMode = Contiguous | Discontiguous

text \<open>
  \<^verbatim>\<open>StaticBuffers\<close>, \<^verbatim>\<open>SelectedRanges\<close> and \<^verbatim>\<open>DatabaseBuffers\<close>: the arrays and ranges of the eight measurement types, and
  those of \<^verbatim>\<open>TimeAndInterval\<close>.  \<open>db_class0\<close> is a mask of types.
\<close>

record DatabaseBuffers =
  db_cells :: "EventType \<Rightarrow> MeasurementCell list"
  db_times :: "TimeCell list"
  db_ranges :: "EventType \<Rightarrow> Range"
  db_timeRange :: Range
  db_class0 :: uint16
  db_indexMode :: IndexMode

definition DatabaseBuffers_make :: "(EventType \<Rightarrow> uint16) \<Rightarrow> uint16 \<Rightarrow> uint16 \<Rightarrow> IndexMode \<Rightarrow> DatabaseBuffers" where
  "DatabaseBuffers_make sizes numTimeAndInterval allowedClass0Types indexMode =
     \<lparr>db_cells = (\<lambda>t. SetDefaultIndices (replicate (unat (sizes t))
        (Cell_make (default_measurement t) (DefaultStaticVariation t) (default_metadata t)))),
      db_times = SetDefaultIndices (replicate (unat numTimeAndInterval)
        (Cell_make \<lparr>ti_time = 0, ti_interval = 0, ti_units = 0\<rparr> (GroupVar 50 4) ())),
      db_ranges = (\<lambda>t. Range_Invalid), db_timeRange = Range_Invalid,
      db_class0 = allowedClass0Types, db_indexMode = indexMode\<rparr>"

fun StaticTypeMask :: "EventType \<Rightarrow> uint16" where
  "StaticTypeMask ET_Binary = 0x1" | "StaticTypeMask ET_DoubleBitBinary = 0x2" | "StaticTypeMask ET_Counter = 0x4"
| "StaticTypeMask ET_FrozenCounter = 0x8" | "StaticTypeMask ET_Analog = 0x10" | "StaticTypeMask ET_BinaryOutputStatus = 0x20"
| "StaticTypeMask ET_AnalogOutputStatus = 0x40" | "StaticTypeMask ET_SecurityStat = 0x100"

definition StaticTypeMask_TimeAndInterval :: uint16 where
  "StaticTypeMask_TimeAndInterval = 0x80"

definition StaticTypeBitField_IsSet :: "uint16 \<Rightarrow> uint16 \<Rightarrow> bool" where
  "StaticTypeBitField_IsSet msk type = (msk AND type \<noteq> 0)"

section \<open>Selection\<close>

definition RangeOf :: "nat \<Rightarrow> Range" where
  "RangeOf n = (if n > 0 then Range_From 0 (of_nat n - 1) else Range_Invalid)"

text \<open>The indices of a loop \<^verbatim>\<open>for (uint16_t i = start; i <= stop; ++i)\<close> with \<open>stop < 65535\<close>.\<close>

definition indices :: "Range \<Rightarrow> nat list" where
  "indices r = [range_start r..<Suc (range_stop r)]"

definition CheckForPromotion :: "EventType \<Rightarrow> Measurement \<Rightarrow> StaticVariation \<Rightarrow> StaticVariation" where
  "CheckForPromotion t value variation =
     (if t = ET_Binary \<and> variation = GroupVar 1 1
      then (if IsQualityOnlineOnly value then variation else GroupVar 1 2)
      else variation)"

text \<open>\<open>promote\<close> is \<^verbatim>\<open>CheckForPromotion<T>\<close>; \<open>var\<close> is \<open>None\<close> for \<^verbatim>\<open>useDefault\<close>.\<close>

definition select_cell :: "('v \<Rightarrow> StaticVariation \<Rightarrow> StaticVariation) \<Rightarrow> StaticVariation option \<Rightarrow> ('v, 'm) Cell \<Rightarrow> ('v, 'm) Cell" where
  "select_cell promote var c =
     c\<lparr>sel_selected := True, sel_value := cl_value c,
       sel_variation := promote (cl_value c) (case var of None \<Rightarrow> cl_variation c | Some v \<Rightarrow> v)\<rparr>"

definition GenericSelect ::
  "('v \<Rightarrow> StaticVariation \<Rightarrow> StaticVariation) \<Rightarrow> Range \<Rightarrow> StaticVariation option \<Rightarrow> ('v, 'm) Cell list \<times> Range
    \<Rightarrow> (('v, 'm) Cell list \<times> Range) \<times> IINField" where
  "GenericSelect promote rng var = (\<lambda>(view, selected).
     if Range_IsValid rng
     then let allowed = Range_Intersection rng (RangeOf (length view))
       in if Range_IsValid allowed
          then let ret = (if Range_Equals allowed rng then IIN_Empty else IIN_of_bit PARAM_ERROR);
                   (view, ret) = fold (\<lambda>i (view, ret).
                      if sel_selected (view ! i) then (view, IIN_or ret (IIN_of_bit PARAM_ERROR))
                      else (view[i := select_cell promote var (view ! i)], ret)) (indices allowed) (view, ret)
               in ((view, Range_Union selected allowed), ret)
          else ((view, selected), IIN_of_bit PARAM_ERROR)
     else ((view, selected), IIN_Empty))"

definition SelectVirtualRange ::
  "('v \<Rightarrow> StaticVariation \<Rightarrow> StaticVariation) \<Rightarrow> IndexMode \<Rightarrow> Range \<Rightarrow> StaticVariation option \<Rightarrow> ('v, 'm) Cell list \<times> Range
    \<Rightarrow> ((('v, 'm) Cell list \<times> Range) \<times> IINField) option" where
  "SelectVirtualRange promote indexMode rng var s =
     (if indexMode = Discontiguous
      then do {
        mapped \<leftarrow> FindRawRange (map cl_vIndex (fst s)) rng;
        Some (if Range_IsValid mapped
              then let clipped = (if Range_Count rng = Range_Count mapped then IIN_Empty else IIN_of_bit PARAM_ERROR);
                       (s, iin) = GenericSelect promote mapped var s
                   in (s, IIN_or clipped iin)
              else (s, IIN_of_bit PARAM_ERROR))}
      else Some (GenericSelect promote rng var s))"

text \<open>The same on the buffers of a type.\<close>

definition on_type ::
  "EventType \<Rightarrow> (MeasurementCell list \<times> Range \<Rightarrow> ((MeasurementCell list \<times> Range) \<times> 'r) option) \<Rightarrow> DatabaseBuffers
    \<Rightarrow> (DatabaseBuffers \<times> 'r) option" where
  "on_type t f db =
     map_option (\<lambda>((view, rng), r). (db\<lparr>db_cells := (db_cells db)(t := view), db_ranges := (db_ranges db)(t := rng)\<rparr>, r))
       (f (db_cells db t, db_ranges db t))"

definition on_times ::
  "(TimeCell list \<times> Range \<Rightarrow> ((TimeCell list \<times> Range) \<times> 'r) option) \<Rightarrow> DatabaseBuffers \<Rightarrow> (DatabaseBuffers \<times> 'r) option" where
  "on_times f db =
     map_option (\<lambda>((view, rng), r). (db\<lparr>db_times := view, db_timeRange := rng\<rparr>, r)) (f (db_times db, db_timeRange db))"

datatype StaticType = Measured EventType | Times

definition SelectAll_type :: "StaticType \<Rightarrow> StaticVariation option \<Rightarrow> DatabaseBuffers \<Rightarrow> (DatabaseBuffers \<times> IINField) option" where
  "SelectAll_type type var = (case type of
       Measured t \<Rightarrow> on_type t (\<lambda>s. Some (GenericSelect (CheckForPromotion t) (RangeOf (length (fst s))) var s))
     | Times \<Rightarrow> on_times (\<lambda>s. Some (GenericSelect (\<lambda>_ v. v) (RangeOf (length (fst s))) var s)))"

definition SelectRange_type ::
  "StaticType \<Rightarrow> Range \<Rightarrow> StaticVariation option \<Rightarrow> DatabaseBuffers \<Rightarrow> (DatabaseBuffers \<times> IINField) option" where
  "SelectRange_type type rng var db = (case type of
       Measured t \<Rightarrow> on_type t (SelectVirtualRange (CheckForPromotion t) (db_indexMode db) rng var) db
     | Times \<Rightarrow> on_times (SelectVirtualRange (\<lambda>_ v. v) (db_indexMode db) rng var) db)"

text \<open>The cases of \<^verbatim>\<open>SelectAll\<close> and of \<^verbatim>\<open>SelectRange\<close>, which are the same.\<close>

definition static_types :: "(nat \<times> EventType \<times> nat list) list" where
  "static_types =
     [(1, ET_Binary, [1, 2]), (3, ET_DoubleBitBinary, [2]), (10, ET_BinaryOutputStatus, [2]),
      (20, ET_Counter, [1, 2, 5, 6]), (21, ET_FrozenCounter, [1, 2, 5, 6, 9, 10]),
      (30, ET_Analog, [1, 2, 3, 4, 5, 6]), (40, ET_AnalogOutputStatus, [1, 2, 3, 4]), (121, ET_SecurityStat, [1])]"

definition static_cases :: "(GroupVariation \<times> StaticType \<times> StaticVariation option) list" where
  "static_cases =
     concat (map (\<lambda>(g, t, vs). (GroupVar g 0, Measured t, None)
       # map (\<lambda>v. (GroupVar g v, Measured t, Some (GroupVar g v))) vs) static_types)
     @ [(GroupVar 50 4, Times, Some (GroupVar 50 4))]"

definition SelectAllClass0 :: "StaticType \<Rightarrow> DatabaseBuffers \<Rightarrow> DatabaseBuffers option" where
  "SelectAllClass0 type db =
     (if StaticTypeBitField_IsSet (db_class0 db) (case type of Measured t \<Rightarrow> StaticTypeMask t | Times \<Rightarrow> StaticTypeMask_TimeAndInterval)
      then map_option fst (SelectAll_type type None db) else Some db)"

definition all_static :: "StaticType list" where
  "all_static = [Measured ET_Binary, Measured ET_DoubleBitBinary, Measured ET_Counter, Measured ET_FrozenCounter, Measured ET_Analog,
     Measured ET_BinaryOutputStatus, Measured ET_AnalogOutputStatus, Times, Measured ET_SecurityStat]"

fun sequence_option :: "('s \<Rightarrow> 's option) list \<Rightarrow> 's \<Rightarrow> 's option" where
  "sequence_option [] s = Some s"
| "sequence_option (f # fs) s = (case f s of None \<Rightarrow> None | Some s \<Rightarrow> sequence_option fs s)"

definition Static_SelectAll :: "GroupVariation \<Rightarrow> DatabaseBuffers \<Rightarrow> (DatabaseBuffers \<times> IINField) option" where
  "Static_SelectAll gv db =
     (if gv = GroupVar 60 1
      then map_option (\<lambda>db. (db, IIN_Empty)) (sequence_option (map SelectAllClass0 all_static) db)
      else case map_of static_cases gv of
          Some (type, var) \<Rightarrow> SelectAll_type type var db
        | None \<Rightarrow> Some (db, IIN_of_bit FUNC_NOT_SUPPORTED))"

definition Static_SelectRange :: "GroupVariation \<Rightarrow> Range \<Rightarrow> DatabaseBuffers \<Rightarrow> (DatabaseBuffers \<times> IINField) option" where
  "Static_SelectRange gv rng db =
     (case map_of static_cases gv of
        Some (type, var) \<Rightarrow> SelectRange_type type rng var db
      | None \<Rightarrow> Some (db, IIN_of_bit FUNC_NOT_SUPPORTED))"

definition Deselect :: "('v, 'm) Cell list \<times> Range \<Rightarrow> ('v, 'm) Cell list \<times> Range" where
  "Deselect = (\<lambda>(view, rng).
     if Range_IsValid rng
     then (fold (\<lambda>i view. view[i := (view ! i)\<lparr>sel_selected := False\<rparr>]) (indices rng) view, Range_Invalid)
     else (view, rng))"

definition Static_Unselect :: "DatabaseBuffers \<Rightarrow> DatabaseBuffers" where
  "Static_Unselect db = fold (\<lambda>type db. case type of
       Measured t \<Rightarrow> (let (view, rng) = Deselect (db_cells db t, db_ranges db t)
         in db\<lparr>db_cells := (db_cells db)(t := view), db_ranges := (db_ranges db)(t := rng)\<rparr>)
     | Times \<Rightarrow> (let (view, rng) = Deselect (db_times db, db_timeRange db) in db\<lparr>db_times := view, db_timeRange := rng\<rparr>))
     [Measured ET_Binary, Measured ET_DoubleBitBinary, Measured ET_Counter, Measured ET_FrozenCounter, Measured ET_Analog,
      Measured ET_BinaryOutputStatus, Measured ET_AnalogOutputStatus, Times, Measured ET_SecurityStat] db"

definition Ranges_HasAnySelection :: "DatabaseBuffers \<Rightarrow> bool" where
  "Ranges_HasAnySelection db =
     (Range_IsValid (db_ranges db ET_Binary) \<or> Range_IsValid (db_ranges db ET_DoubleBitBinary) \<or> Range_IsValid (db_ranges db ET_Analog)
      \<or> Range_IsValid (db_ranges db ET_Counter) \<or> Range_IsValid (db_ranges db ET_FrozenCounter)
      \<or> Range_IsValid (db_ranges db ET_BinaryOutputStatus) \<or> Range_IsValid (db_ranges db ET_AnalogOutputStatus)
      \<or> Range_IsValid (db_timeRange db) \<or> Range_IsValid (db_ranges db ET_SecurityStat))"

section \<open>Writing the selected values\<close>

text \<open>What \<^verbatim>\<open>GetStaticWriter\<close> returns: \<^verbatim>\<open>WriteSingleBitfield\<close> or \<^verbatim>\<open>WriteWithSerializer\<close>, with their objects.\<close>

datatype 'v StaticWriter = SingleBitfield GroupVariationID "'v \<Rightarrow> bool" | WithSerializer "'v ObjectCodec"

definition bool_value :: "Measurement \<Rightarrow> bool" where
  "bool_value m = (case m_value m of BoolValue b \<Rightarrow> b | _ \<Rightarrow> False)"

fun GetStaticWriter :: "EventType \<Rightarrow> StaticVariation \<Rightarrow> Measurement StaticWriter" where
  "GetStaticWriter ET_Binary variation =
     (if variation = GroupVar 1 1 then SingleBitfield (1, 1) bool_value else WithSerializer Group1Var2)"
| "GetStaticWriter ET_DoubleBitBinary variation = WithSerializer Group3Var2"
| "GetStaticWriter ET_Analog variation =
     (if variation = GroupVar 30 1 then WithSerializer Group30Var1 else if variation = GroupVar 30 2 then WithSerializer Group30Var2
      else if variation = GroupVar 30 3 then WithSerializer Group30Var3 else if variation = GroupVar 30 4 then WithSerializer Group30Var4
      else if variation = GroupVar 30 5 then WithSerializer Group30Var5 else if variation = GroupVar 30 6 then WithSerializer Group30Var6
      else WithSerializer Group30Var1)"
| "GetStaticWriter ET_Counter variation =
     (if variation = GroupVar 20 1 then WithSerializer Group20Var1 else if variation = GroupVar 20 2 then WithSerializer Group20Var2
      else if variation = GroupVar 20 5 then WithSerializer Group20Var5 else if variation = GroupVar 20 6 then WithSerializer Group20Var6
      else WithSerializer Group20Var1)"
| "GetStaticWriter ET_FrozenCounter variation = WithSerializer Group21Var1"
| "GetStaticWriter ET_BinaryOutputStatus variation = WithSerializer Group10Var2"
| "GetStaticWriter ET_AnalogOutputStatus variation =
     (if variation = GroupVar 40 1 then WithSerializer Group40Var1 else if variation = GroupVar 40 2 then WithSerializer Group40Var2
      else if variation = GroupVar 40 3 then WithSerializer Group40Var3 else if variation = GroupVar 40 4 then WithSerializer Group40Var4
      else WithSerializer Group40Var1)"
| "GetStaticWriter ET_SecurityStat variation = WithSerializer Group121Var1"

definition GetStaticWriter_TimeAndInterval :: "StaticVariation \<Rightarrow> TimeAndInterval StaticWriter" where
  "GetStaticWriter_TimeAndInterval variation = WithSerializer Group50Var4"

text \<open>
  The loop of \<^verbatim>\<open>LoadWithRangeIterator\<close> and \<^verbatim>\<open>LoadWithBitfieldIterator\<close>: \<open>write\<close> is the iterator's \<^verbatim>\<open>Write\<close>,
  \<open>variation\<close> the variation of the first value.
\<close>

function LoadLoop ::
  "('v \<Rightarrow> 'i \<Rightarrow> HeaderWriter \<Rightarrow> ('i \<times> HeaderWriter \<times> bool) option) \<Rightarrow> StaticVariation \<Rightarrow> uint16
    \<Rightarrow> ('v, 'm) Cell list \<Rightarrow> 'i \<Rightarrow> Range \<Rightarrow> HeaderWriter \<Rightarrow> (('v, 'm) Cell list \<times> 'i \<times> Range \<times> HeaderWriter \<times> bool) option" where
  "LoadLoop write variation nextIndex view iter rng w =
     (if Range_IsValid rng
      then if range_start rng < length view
        then let c = view ! range_start rng
          in if sel_selected c \<and> sel_variation c = variation \<and> cl_vIndex c = nextIndex
             then case write (sel_value c) iter w of
                 None \<Rightarrow> None
               | Some (iter, w, ok) \<Rightarrow>
                   if ok then LoadLoop write variation (nextIndex + 1) (view[range_start rng := c\<lparr>sel_selected := False\<rparr>]) iter
                     (fst (Range_Advance rng)) w
                   else Some (view, iter, rng, w, False)
             else Some (view, iter, rng, w, True)
        else None
      else Some (view, iter, rng, w, True))"
  by pat_completeness auto

lemma Range_Advance_Count: "Range_IsValid r \<Longrightarrow> unat (Range_Count (fst (Range_Advance r))) < unat (Range_Count r)"
proof -
  assume "Range_IsValid r"
  then have "in_range (range_start r) r" by (simp add: Range_IsValid_iff in_range_def)
  then have "{i. in_range i (fst (Range_Advance r))} \<subset> {i. in_range i r}" by (auto simp: Range_Advance_in)
  moreover have "finite {i. in_range i r}" by (rule finite_subset[of _ "{..range_stop r}"]) (auto simp: in_range_def)
  ultimately show ?thesis unfolding Range_Count_in by (intro psubset_card_mono)
qed

termination LoadLoop
  by (relation "measure (\<lambda>(_, _, _, _, _, rng, _). unat (Range_Count rng))") (simp_all add: Range_Advance_Count)

declare LoadLoop.simps [simp del]

text \<open>The iterator is destroyed at the end.\<close>

definition WriteSingleBitfield_with ::
  "IndexType \<Rightarrow> QualifierCode \<Rightarrow> GroupVariationID \<Rightarrow> ('v \<Rightarrow> bool) \<Rightarrow> nat \<Rightarrow> ('v, 'm) Cell list \<Rightarrow> Range \<Rightarrow> HeaderWriter
    \<Rightarrow> (('v, 'm) Cell list \<times> Range \<times> HeaderWriter \<times> bool) option" where
  "WriteSingleBitfield_with it qc gv val start view rng w =
     (let (iter, w) = IterateOverSingleBitfield it gv qc start w; c = view ! range_start rng
      in map_option (\<lambda>(view, iter, rng, w, ok). (view, rng, BitfieldRangeWriteIterator_destroy iter w, ok))
        (LoadLoop (\<lambda>v i w. Some (BitfieldRangeWriteIterator_Write (val v) i w)) (sel_variation c) (cl_vIndex c) view iter rng w))"

definition WriteWithSerializer_with ::
  "IndexType \<Rightarrow> QualifierCode \<Rightarrow> 'v ObjectCodec \<Rightarrow> nat \<Rightarrow> ('v, 'm) Cell list \<Rightarrow> Range \<Rightarrow> HeaderWriter
    \<Rightarrow> (('v, 'm) Cell list \<times> Range \<times> HeaderWriter \<times> bool) option" where
  "WriteWithSerializer_with it qc codec start view rng w =
     (let (iter, w) = IterateOverRange it qc codec start w; c = view ! range_start rng
      in map_option (\<lambda>(view, iter, rng, w, ok). (view, rng, RangeWriteIterator_destroy iter w, ok))
        (LoadLoop RangeWriteIterator_Write (sel_variation c) (cl_vIndex c) view iter rng w))"

definition WriteStatic ::
  "'v StaticWriter \<Rightarrow> ('v, 'm) Cell list \<Rightarrow> Range \<Rightarrow> HeaderWriter \<Rightarrow> (('v, 'm) Cell list \<times> Range \<times> HeaderWriter \<times> bool) option" where
  "WriteStatic writer view rng w =
     (if range_start rng < length view \<and> range_stop rng < length view
      then let start = cl_vIndex (view ! range_start rng); stop = cl_vIndex (view ! range_stop rng);
               mapped = Range_From start stop;
               (it, qc) = (if Range_IsOneByte mapped then (Index8, UINT8_START_STOP) else (Index16, UINT16_START_STOP))
           in case writer of
               SingleBitfield gv val \<Rightarrow> WriteSingleBitfield_with it qc gv val (range_start mapped) view rng w
             | WithSerializer codec \<Rightarrow> WriteWithSerializer_with it qc codec (range_start mapped) view rng w
      else None)"

text \<open>The loop of \<^verbatim>\<open>LoadType\<close>; the result says whether space remains.\<close>

partial_function (option) LoadTypeLoop ::
  "(StaticVariation \<Rightarrow> 'v StaticWriter) \<Rightarrow> ('v, 'm) Cell list \<Rightarrow> Range \<Rightarrow> HeaderWriter
    \<Rightarrow> (('v, 'm) Cell list \<times> Range \<times> HeaderWriter \<times> bool) option" where
  "LoadTypeLoop writer view rng w =
     (if Range_IsValid rng
      then if range_start rng < length view
        then let c = view ! range_start rng
          in if sel_selected c
             then do {
               (view, rng, w, spaceRemaining) \<leftarrow> WriteStatic (writer (sel_variation c)) view rng w;
               if spaceRemaining then LoadTypeLoop writer view rng w else Some (view, rng, w, False)}
             else LoadTypeLoop writer view (fst (Range_Advance rng)) w
        else None
      else Some (view, rng, w, True))"

definition LoadType :: "StaticType \<Rightarrow> HeaderWriter \<Rightarrow> DatabaseBuffers \<Rightarrow> (DatabaseBuffers \<times> HeaderWriter \<times> bool) option" where
  "LoadType type w db = (case type of
       Measured t \<Rightarrow> on_type t (\<lambda>(view, rng). map_option (\<lambda>(view, rng, w, ok). ((view, rng), (w, ok)))
         (LoadTypeLoop (GetStaticWriter t) view rng w)) db
     | Times \<Rightarrow> on_times (\<lambda>(view, rng). map_option (\<lambda>(view, rng, w, ok). ((view, rng), (w, ok)))
         (LoadTypeLoop GetStaticWriter_TimeAndInterval view rng w)) db)"

fun LoadTypes :: "StaticType list \<Rightarrow> HeaderWriter \<Rightarrow> DatabaseBuffers \<Rightarrow> (DatabaseBuffers \<times> HeaderWriter \<times> bool) option" where
  "LoadTypes [] w db = Some (db, w, True)"
| "LoadTypes (type # types) w db =
     (case LoadType type w db of
        None \<Rightarrow> None
      | Some (db, w, ok) \<Rightarrow> if ok then LoadTypes types w db else Some (db, w, False))"

definition Static_Load :: "HeaderWriter \<Rightarrow> DatabaseBuffers \<Rightarrow> (DatabaseBuffers \<times> HeaderWriter \<times> bool) option" where
  "Static_Load = LoadTypes
     [Measured ET_Binary, Measured ET_DoubleBitBinary, Measured ET_Counter, Measured ET_FrozenCounter, Measured ET_Analog,
      Measured ET_BinaryOutputStatus, Measured ET_AnalogOutputStatus, Times, Measured ET_SecurityStat]"

section \<open>Classes\<close>

definition AssignClassTo :: "PointClass \<Rightarrow> Range \<Rightarrow> ('v, 'w EventMetadata) Cell list \<Rightarrow> ('v, 'w EventMetadata) Cell list \<times> Range" where
  "AssignClassTo clazz rng view =
     (let clipped = Range_Intersection rng (RangeOf (length view))
      in (fold (\<lambda>i view. view[i := (view ! i)\<lparr>cl_metadata := (cl_metadata (view ! i))\<lparr>md_clazz := clazz\<rparr>\<rparr>]) (indices clipped) view, clipped))"

text \<open>An \<^verbatim>\<open>AssignClassType\<close> is the measurement type of the same name.\<close>

definition AssignClassToRange :: "EventType \<Rightarrow> PointClass \<Rightarrow> Range \<Rightarrow> DatabaseBuffers \<Rightarrow> DatabaseBuffers \<times> Range" where
  "AssignClassToRange t clazz rng db =
     (let (view, clipped) = AssignClassTo clazz rng (db_cells db t) in (db\<lparr>db_cells := (db_cells db)(t := view)\<rparr>, clipped))"

definition AssignClassToAll :: "EventType \<Rightarrow> PointClass \<Rightarrow> DatabaseBuffers \<Rightarrow> DatabaseBuffers \<times> Range" where
  "AssignClassToAll t clazz db = AssignClassToRange t clazz (RangeOf (length (db_cells db t))) db"

section \<open>\<^verbatim>\<open>Database\<close>\<close>

record Database =
  dt_buffers :: DatabaseBuffers
  dt_events :: EventBuffer

datatype EventMode = Detect | Force | Suppress

fun ConvertToEventClass :: "PointClass \<Rightarrow> EventClass option" where
  "ConvertToEventClass Class1 = Some EC1" | "ConvertToEventClass Class2 = Some EC2"
| "ConvertToEventClass Class3 = Some EC3" | "ConvertToEventClass Class0 = None"

definition GetRawIndex :: "IndexMode \<Rightarrow> ('v, 'm) Cell list \<Rightarrow> uint16 \<Rightarrow> uint16 option" where
  "GetRawIndex indexMode view index =
     (if indexMode = Contiguous then Some index
      else map_option (\<lambda>(match, i). if match then i else 65535) (FindClosestRawIndex (map cl_vIndex view) index))"

text \<open>\<^verbatim>\<open>Database::UpdateAny\<close>: the cell, and the event it creates.\<close>

definition UpdateCell :: "EventType \<Rightarrow> Measurement \<Rightarrow> EventMode \<Rightarrow> MeasurementCell \<Rightarrow> MeasurementCell \<times> Event option" where
  "UpdateCell t val mode c =
     (let md = cl_metadata c
      in case ConvertToEventClass (md_clazz md) of
           Some ec \<Rightarrow>
             (let createEvent = (case mode of Force \<Rightarrow> True
                  | Detect \<Rightarrow> Measurement_IsEvent (md_lastEvent md) val (md_deadband md) | Suppress \<Rightarrow> False)
              in if createEvent
                 then (c\<lparr>cl_metadata := md\<lparr>md_lastEvent := val\<rparr>, cl_value := val\<rparr>,
                   Some \<lparr>evt_type = t, evt_value = m_value val, evt_quality = m_quality val, evt_time = m_time val,
                         evt_index = cl_vIndex c, evt_clazz = ec, evt_variation = md_variation md\<rparr>)
                 else (c\<lparr>cl_value := val\<rparr>, None))
         | None \<Rightarrow> (c\<lparr>cl_value := val\<rparr>, None))"

text \<open>\<^verbatim>\<open>UpdateEvent\<close> and \<^verbatim>\<open>ModifyEvent\<close>; \<open>f\<close> gives the new value of a cell.\<close>

definition ModifyEvent :: "EventType \<Rightarrow> (Measurement \<Rightarrow> Measurement) \<Rightarrow> uint16 \<Rightarrow> EventMode \<Rightarrow> Database \<Rightarrow> (Database \<times> bool) option" where
  "ModifyEvent t f index mode d =
     (let view = db_cells (dt_buffers d) t
      in do {
        rawIndex \<leftarrow> GetRawIndex (db_indexMode (dt_buffers d)) view index;
        let i = unat rawIndex in
        if i < length view
        then let (c, evt) = UpdateCell t (f (cl_value (view ! i))) mode (view ! i);
                 b = (dt_buffers d)\<lparr>db_cells := (db_cells (dt_buffers d))(t := view[i := c])\<rparr>
             in map_option (\<lambda>ev. (\<lparr>dt_buffers = b, dt_events = ev\<rparr>, True))
               (case evt of None \<Rightarrow> Some (dt_events d) | Some e \<Rightarrow> UpdateAny e (dt_events d))
        else Some (d, False)})"

definition UpdateEvent :: "EventType \<Rightarrow> Measurement \<Rightarrow> uint16 \<Rightarrow> EventMode \<Rightarrow> Database \<Rightarrow> (Database \<times> bool) option" where
  "UpdateEvent t val = ModifyEvent t (\<lambda>_. val)"

definition ModifyTime :: "(TimeAndInterval \<Rightarrow> TimeAndInterval) \<Rightarrow> uint16 \<Rightarrow> Database \<Rightarrow> (Database \<times> bool) option" where
  "ModifyTime f index d =
     (let view = db_times (dt_buffers d)
      in do {
        rawIndex \<leftarrow> GetRawIndex (db_indexMode (dt_buffers d)) view index;
        let i = unat rawIndex in
        Some (if i < length view
              then (d\<lparr>dt_buffers := (dt_buffers d)\<lparr>db_times := view[i := (view ! i)\<lparr>cl_value := f (cl_value (view ! i))\<rparr>]\<rparr>\<rparr>, True)
              else (d, False))})"

definition UpdateTime :: "TimeAndInterval \<Rightarrow> uint16 \<Rightarrow> Database \<Rightarrow> (Database \<times> bool) option" where
  "UpdateTime val = ModifyTime (\<lambda>_. val)"

end
