(* ===== verification/StaticLoad.thy ===== *)
theory StaticLoad
  imports StaticDatabase
begin

text \<open>What \<^verbatim>\<open>DatabaseBuffers::Load\<close> writes, and which values it deselects.\<close>

section \<open>The range iterator\<close>

lemma wrote_PokeAt:
  assumes w: "wrote (A @ x @ B) p0 p" and len: "length bs = length x" and off: "off = ws_position p0 + length A"
  shows "wrote (A @ bs @ B) p0 (PokeAt off bs p)" "WSlice_Size (PokeAt off bs p) = WSlice_Size p" "ws_position (PokeAt off bs p) = ws_position p"
proof -
  let ?A = "ws_written p0 @ A"
  have A: "length ?A = off" using w off by (simp add: wrote_def length_ws_written)
  have d: "take (ws_position p) (ws_buffer p) = ?A @ x @ B" "ws_ok p" "length (ws_buffer p) = length (ws_buffer p0)" "ws_ok p0"
    using w by (simp_all add: wrote_def ws_written_def)
  have pos: "ws_position p = off + length x + length B" using wrote_position[OF w] off by simp
  have buf: "ws_buffer p = ?A @ x @ B @ drop (ws_position p) (ws_buffer p)"
    using d(1) append_take_drop_id[of "ws_position p" "ws_buffer p"] by simp
  have over: "overwrite (ws_buffer p) off bs = ?A @ bs @ B @ drop (ws_position p) (ws_buffer p)"
    by (subst buf, use A len in \<open>simp add: overwrite_def\<close>)
  then have "take (ws_position p) (overwrite (ws_buffer p) off bs) = ?A @ bs @ B" using A len pos by simp
  moreover have "length (overwrite (ws_buffer p) off bs) = length (ws_buffer p)"
    using pos d(2) len by (intro length_overwrite) (simp add: ws_ok_def)
  ultimately show "wrote (A @ bs @ B) p0 (PokeAt off bs p)" "WSlice_Size (PokeAt off bs p) = WSlice_Size p"
    "ws_position (PokeAt off bs p) = ws_position p"
    using d(2-4) by (simp_all add: PokeAt_def wrote_def ws_ok_def ws_written_def WSlice_Size_def)
qed

definition object_header :: "GroupVariationID \<Rightarrow> QualifierCode \<Rightarrow> bytes" where
  "object_header gv qc = [fst gv, snd gv, QualifierCodeToType qc]"

lemma length_object_header [simp]: "length (object_header gv qc) = 3"
  by (simp add: object_header_def)

text \<open>The header of a range from \<open>start\<close> with \<open>n\<close> objects: the stop index is there once the iterator is destroyed.\<close>

definition range_bytes :: "IndexType \<Rightarrow> QualifierCode \<Rightarrow> GroupVariationID \<Rightarrow> nat \<Rightarrow> nat \<Rightarrow> bytes \<Rightarrow> bytes" where
  "range_bytes it qc gv start n objs =
     object_header gv qc @ index_bytes it start @ index_bytes it (start + n - 1) @ objs"

definition rw_state ::
  "QualifierCode \<Rightarrow> 'm ObjectCodec \<Rightarrow> IndexType \<Rightarrow> nat \<Rightarrow> WSlice \<Rightarrow> Field list list \<Rightarrow> 'm RangeWriteIterator \<Rightarrow> HeaderWriter \<Rightarrow> bool" where
  "rw_state qc c it start p0 items i w \<longleftrightarrow> rw_type i = it \<and> rw_start i = start \<and> rw_serializer i = c \<and> rw_isValid i
     \<and> rw_count i = length items mod index_mod it \<and> rw_range i = ws_position p0 + 3 + index_size it
     \<and> (\<exists>x. length x = index_size it
          \<and> wrote (object_header (oc_id c) qc @ index_bytes it start @ x @ concat (map fields_bytes items)) p0 (hw_position w))"

lemma RangeWriteIterator_make_wrote:
  assumes ok: "hw_ok w" and room: "2 * index_size it \<le> WSlice_Size (hw_position w)"
  shows "case RangeWriteIterator_make it start c w of (i, w') \<Rightarrow>
     rw_type i = it \<and> rw_start i = start \<and> rw_serializer i = c \<and> rw_isValid i \<and> rw_count i = 0
     \<and> rw_range i = ws_position (hw_position w) + index_size it
     \<and> (\<exists>x. length x = index_size it \<and> wrote (index_bytes it start @ x) (hw_position w) (hw_position w'))"
proof -
  let ?p = "hw_position w"
  have "ws_ok ?p" using ok by (simp add: hw_ok_def)
  then obtain x where x: "length x = 2 * index_size it" "wrote x ?p (WSlice_Advance (2 * index_size it) ?p)"
    using wrote_Advance room by blast
  define a where "a = take (index_size it) x"
  define b where "b = drop (index_size it) x"
  have ab: "x = [] @ a @ b" "length a = index_size it" "length b = index_size it" using x(1) by (simp_all add: a_def b_def)
  have "wrote ([] @ index_bytes it start @ b) ?p (PokeAt (ws_position ?p) (index_bytes it start) (WSlice_Advance (2 * index_size it) ?p))"
    using wrote_PokeAt(1)[OF x(2)[unfolded ab(1)], of "index_bytes it start" "ws_position ?p"] ab(2) by simp
  moreover have "PokeAt (ws_position ?p) (index_bytes it start) (WSlice_Advance (2 * index_size it) ?p)
      = WSlice_Advance (2 * index_size it) (PokeAt (ws_position ?p) (index_bytes it start) ?p)"
  proof -
    have "length (overwrite (ws_buffer ?p) (ws_position ?p) (index_bytes it start)) = length (ws_buffer ?p)"
      using room ok by (intro length_overwrite) (simp add: WSlice_Size_def hw_ok_def ws_ok_def)
    then show ?thesis by (simp add: PokeAt_def WSlice_Advance_def WSlice_Size_def)
  qed
  ultimately show ?thesis using room ab(3) by (auto simp: RangeWriteIterator_make_def Let_def)
qed


lemma IterateOverRange_state:
  assumes ok: "hw_ok w"
  shows "case IterateOverRange it qc c start w of (i, w') \<Rightarrow>
    if WSlice_Size (hw_position w) < 3 + 2 * index_size it + oc_size c then \<not> rw_isValid i \<and> w' = w
    else rw_state qc c it start (hw_position w) [] i w'"
proof (cases "WSlice_Size (hw_position w) < 3 + 2 * index_size it + oc_size c")
  case True
  then show ?thesis by (simp add: IterateOverRange_def WriteHeaderWithReserve_def RangeWriteIterator_Null_def add.assoc)
next
  case False
  let ?p0 = "hw_position w"
  obtain w1 where w1: "WriteHeaderWithReserve (oc_id c) qc (2 * index_size it + oc_size c) w = (w1, True)"
    using False by (auto simp: WriteHeaderWithReserve_def WriteHeader_def)
  note h = WriteHeaderWithReserve_wrote[OF ok w1]
  have hdr: "wrote (object_header (oc_id c) qc) ?p0 (hw_position w1)" using h(1) by (simp add: object_header_def)
  have ok1: "hw_ok w1" using hdr by (simp add: wrote_def hw_ok_def)
  have room: "2 * index_size it \<le> WSlice_Size (hw_position w1)" using h(3) by simp
  have pos: "ws_position (hw_position w1) = ws_position ?p0 + 3" using wrote_position[OF hdr] by simp
  obtain i w2 where i: "RangeWriteIterator_make it start c w1 = (i, w2)" by fastforce
  with RangeWriteIterator_make_wrote[OF ok1 room, of start c] obtain x where x: "length x = index_size it"
    "wrote (index_bytes it start @ x) (hw_position w1) (hw_position w2)"
    and f: "rw_type i = it" "rw_start i = start" "rw_serializer i = c" "rw_isValid i" "rw_count i = 0"
      "rw_range i = ws_position (hw_position w1) + index_size it" by auto
  have "rw_state qc c it start ?p0 [] i w2"
    using f pos x(1) wrote_trans[OF hdr x(2)] by (auto simp: rw_state_def)
  with False w1 i show ?thesis by (simp add: IterateOverRange_def)
qed

lemma rw_state_ok: "rw_state qc c it start p0 items i w \<Longrightarrow> hw_ok w"
  by (auto simp: rw_state_def wrote_def hw_ok_def)

lemma rw_state_Size:
  assumes "rw_state qc c it start p0 items i w"
  shows "WSlice_Size (hw_position w) + (3 + 2 * index_size it + length (concat (map fields_bytes items))) = WSlice_Size p0"
proof -
  from assms obtain x where x: "length x = index_size it"
    "wrote (object_header (oc_id c) qc @ index_bytes it start @ x @ concat (map fields_bytes items)) p0 (hw_position w)"
    by (auto simp: rw_state_def)
  from wrote_Size[OF x(2)] x(1) show ?thesis by simp
qed

lemma RangeWriteIterator_Write_state:
  assumes st: "rw_state qc c it start p0 items i w" and c: "oc_convert c v = Some fs" "fields_size (map field_type fs) = oc_size c"
  shows "if WSlice_Size (hw_position w) < oc_size c then RangeWriteIterator_Write v i w = Some (i, w, False)
    else \<exists>i' w'. RangeWriteIterator_Write v i w = Some (i', w', True) \<and> rw_state qc c it start p0 (items @ [fs]) i' w'"
proof (cases "WSlice_Size (hw_position w) < oc_size c")
  case True
  with st show ?thesis by (simp add: RangeWriteIterator_Write_def rw_state_def)
next
  case False
  from st obtain x where x: "length x = index_size it"
    "wrote (object_header (oc_id c) qc @ index_bytes it start @ x @ concat (map fields_bytes items)) p0 (hw_position w)"
    by (auto simp: rw_state_def)
  have "ws_ok (hw_position w)" using x(2) by (simp add: wrote_def)
  then obtain w' where w': "WriteObject c v w = Some w'" "wrote (fields_bytes fs) (hw_position w) (hw_position w')"
    using WriteObject_wrote[OF c, of w] False by auto
  have "wrote (object_header (oc_id c) qc @ index_bytes it start @ x @ concat (map fields_bytes (items @ [fs]))) p0 (hw_position w')"
    using wrote_trans[OF x(2) w'(2)] by simp
  then show ?thesis using st x(1) w'(1) False
    by (auto simp: RangeWriteIterator_Write_def rw_state_def mod_Suc_eq intro!: exI[of _ x])
qed

text \<open>The stop index is written unless the count has wrapped around.\<close>

lemma RangeWriteIterator_destroy_state:
  assumes st: "rw_state qc c it start p0 items i w" and n: "0 < length items" "length items < index_mod it"
  shows "wrote (range_bytes it qc (oc_id c) start (length items) (concat (map fields_bytes items))) p0
    (hw_position (RangeWriteIterator_destroy i w))"
proof -
  from st obtain x where x: "length x = index_size it"
    "wrote (object_header (oc_id c) qc @ index_bytes it start @ x @ concat (map fields_bytes items)) p0 (hw_position w)"
    by (auto simp: rw_state_def)
  have count: "rw_count i = length items" using st n(2) by (simp add: rw_state_def)
  define A where "A = object_header (oc_id c) qc @ index_bytes it start"
  have off: "rw_range i = ws_position p0 + length A" using st by (simp add: rw_state_def A_def)
  have "wrote (A @ x @ concat (map fields_bytes items)) p0 (hw_position w)" using x(2) by (simp add: A_def)
  from wrote_PokeAt(1)[OF this _ off, of "index_bytes it (start + length items - 1)"] x(1)
  have "wrote (A @ index_bytes it (start + length items - 1) @ concat (map fields_bytes items)) p0
    (PokeAt (rw_range i) (index_bytes it (start + length items - 1)) (hw_position w))" by simp
  moreover have "rw_isValid i" "rw_type i = it" "rw_start i = start" using st by (simp_all add: rw_state_def)
  ultimately show ?thesis using count n(1)
    by (simp add: RangeWriteIterator_destroy_def range_bytes_def A_def)
qed

lemma RangeWriteIterator_destroy_wrapped:
  assumes "rw_state qc c it start p0 items i w" "length items mod index_mod it = 0"
  shows "RangeWriteIterator_destroy i w = w"
  using assms by (simp add: RangeWriteIterator_destroy_def rw_state_def)


section \<open>The bitfield iterator\<close>

lemma round_up_8: "(n + 7) div 8 = (if n mod 8 = 0 then n div 8 else Suc (n div 8))" for n :: nat
proof -
  have "(n + 7) div 8 = (n mod 8 + 7 + n div 8 * 8) div 8" by (simp add: add.assoc add.commute)
  also have "\<dots> = n div 8 + (n mod 8 + 7) div 8" by (rule div_mult_self1) simp
  finally have split: "(n + 7) div 8 = n div 8 + (n mod 8 + 7) div 8" .
  show ?thesis
  proof (cases "n mod 8 = 0")
    case False
    then have "(n mod 8 + 7) div 8 = 1" by (intro div_nat_eqI) simp_all
    then show ?thesis using False split by simp
  qed (simp add: split)
qed

lemma round_up_Suc: "(Suc n + 7) div 8 = Suc (n div 8)" for n :: nat
proof -
  have "Suc n + 7 = n + 1 * 8" by simp
  then show ?thesis by (simp only: div_mult_self1)
qed

lemma round_up_le: "n \<le> 8 * m \<Longrightarrow> (n + 7) div 8 \<le> m" for n m :: nat
  by (rule less_Suc_eq_le[THEN iffD1]) (simp add: less_mult_imp_div_less)

text \<open>Bits packed into bytes, the first bit lowest.\<close>

definition byte_of_bits :: "bool list \<Rightarrow> uint8" where
  "byte_of_bits bs = fold (\<lambda>j acc. if bs ! j then acc OR 2 ^ j else acc) [0..<length bs] 0"

definition pack_bits :: "bool list \<Rightarrow> bytes" where
  "pack_bits bs = map (\<lambda>k. byte_of_bits (take 8 (drop (8 * k) bs))) [0..<(length bs + 7) div 8]"

lemma length_pack_bits [simp]: "length (pack_bits bs) = (length bs + 7) div 8"
  by (simp add: pack_bits_def)

lemma byte_of_bits_snoc: "byte_of_bits (bs @ [v]) = (if v then byte_of_bits bs OR 2 ^ length bs else byte_of_bits bs)"
proof -
  have "fold (\<lambda>j acc. if (bs @ [v]) ! j then acc OR 2 ^ j else acc) [0..<length bs] 0
    = (fold (\<lambda>j acc. if bs ! j then acc OR 2 ^ j else acc) [0..<length bs] 0 :: uint8)"
    by (rule fold_cong) (auto simp: nth_append)
  then show ?thesis by (cases v) (simp_all add: byte_of_bits_def)
qed

lemma pack_bits_nth: "k < (length bs + 7) div 8 \<Longrightarrow> pack_bits bs ! k = byte_of_bits (take 8 (drop (8 * k) bs))"
  by (simp add: pack_bits_def)

lemma pack_bits_snoc:
  assumes n: "n = length bs"
  shows "n mod 8 = 0 \<Longrightarrow> pack_bits (bs @ [v]) = pack_bits bs @ [if v then 0 OR 2 ^ (n mod 8) else 0]"
    "n mod 8 \<noteq> 0 \<Longrightarrow> pack_bits (bs @ [v]) = (pack_bits bs)[n div 8 := (if v then pack_bits bs ! (n div 8) OR 2 ^ (n mod 8) else pack_bits bs ! (n div 8))]"
proof -
  have low: "take 8 (drop (8 * k) (bs @ [v])) = take 8 (drop (8 * k) bs)" if "k < n div 8" for k
    using that n by simp
  have last: "take 8 (drop (8 * (n div 8)) bs) = drop (8 * (n div 8)) bs"
    "take 8 (drop (8 * (n div 8)) (bs @ [v])) = drop (8 * (n div 8)) bs @ [v]"
    "length (drop (8 * (n div 8)) bs) = n mod 8"
    using n by (simp_all add: minus_mult_div_eq_mod)
  show "pack_bits (bs @ [v]) = pack_bits bs @ [if v then 0 OR 2 ^ (n mod 8) else 0]" if "n mod 8 = 0"
  proof (rule nth_equalityI)
    note len = round_up_8[of n, unfolded if_P[OF that]] round_up_Suc[of n]
    show "length (pack_bits (bs @ [v])) = length (pack_bits bs @ [if v then 0 OR 2 ^ (n mod 8) else 0])"
      using len n by simp
    fix k assume "k < length (pack_bits (bs @ [v]))"
    then consider "k < n div 8" | "k = n div 8" using len n by fastforce
    then show "pack_bits (bs @ [v]) ! k = (pack_bits bs @ [if v then 0 OR 2 ^ (n mod 8) else 0]) ! k"
    proof cases
      case 1
      then show ?thesis using len n low[OF 1] by (simp add: nth_append pack_bits_nth)
    next
      case 2
      have "drop (8 * (n div 8)) bs = []" using last(3) that by simp
      then show ?thesis using len n 2 last that by (simp add: nth_append pack_bits_nth byte_of_bits_def)
    qed
  qed
  show "pack_bits (bs @ [v]) = (pack_bits bs)[n div 8 := (if v then pack_bits bs ! (n div 8) OR 2 ^ (n mod 8) else pack_bits bs ! (n div 8))]"
    if nz: "n mod 8 \<noteq> 0"
  proof (rule nth_equalityI)
    note len = round_up_8[of n, unfolded if_not_P[OF nz]] round_up_Suc[of n]
    show "length (pack_bits (bs @ [v])) = length ((pack_bits bs)[n div 8 := (if v then pack_bits bs ! (n div 8) OR 2 ^ (n mod 8) else pack_bits bs ! (n div 8))])"
      using len n by simp
    fix k assume "k < length (pack_bits (bs @ [v]))"
    then consider "k < n div 8" | "k = n div 8" using len n by fastforce
    then show "pack_bits (bs @ [v]) ! k
      = (pack_bits bs)[n div 8 := (if v then pack_bits bs ! (n div 8) OR 2 ^ (n mod 8) else pack_bits bs ! (n div 8))] ! k"
    proof cases
      case 1
      then show ?thesis using len n low[OF 1] by (simp add: pack_bits_nth)
    next
      case 2
      have "pack_bits (bs @ [v]) ! k = byte_of_bits (drop (8 * (n div 8)) bs @ [v])"
        using 2 len n by (subst pack_bits_nth) (simp_all only: last length_append list.size, simp)
      moreover have "pack_bits bs ! k = byte_of_bits (drop (8 * (n div 8)) bs)"
        using 2 len n by (subst pack_bits_nth) (simp_all only: last, simp)
      ultimately show ?thesis using 2 len n last(3) by (simp add: byte_of_bits_snoc)
    qed
  qed
qed

lemma overwrite_one: "k < length xs \<Longrightarrow> overwrite xs k [y] = xs[k := y]"
  by (simp add: overwrite_def upd_conv_take_nth_drop)

text \<open>The unwritten rest of a slice.\<close>

definition ws_rest :: "WSlice \<Rightarrow> bytes" where
  "ws_rest p = drop (ws_position p) (ws_buffer p)"

lemma PokeAt_rest:
  assumes "ws_ok p" "k < WSlice_Size p"
  shows "ws_rest (PokeAt (ws_position p + k) [y] p) = (ws_rest p)[k := y]" "ws_written (PokeAt (ws_position p + k) [y] p) = ws_written p"
    "ws_ok (PokeAt (ws_position p + k) [y] p)" "length (ws_buffer (PokeAt (ws_position p + k) [y] p)) = length (ws_buffer p)"
    "ws_position (PokeAt (ws_position p + k) [y] p) = ws_position p"
  using assms by (simp_all add: PokeAt_def ws_rest_def ws_written_def ws_ok_def WSlice_Size_def overwrite_one drop_update_swap)

lemma length_ws_rest: "length (ws_rest p) = WSlice_Size p"
  by (simp add: ws_rest_def WSlice_Size_def)


definition bw_state ::
  "GroupVariationID \<Rightarrow> QualifierCode \<Rightarrow> IndexType \<Rightarrow> nat \<Rightarrow> WSlice \<Rightarrow> bool list \<Rightarrow> BitfieldRangeWriteIterator \<Rightarrow> HeaderWriter \<Rightarrow> bool" where
  "bw_state gv qc it start p0 bits i w \<longleftrightarrow> bw_type i = it \<and> bw_start i = start \<and> bw_isValid i
     \<and> bw_count i = length bits \<and> bw_maxCount i = WSlice_Size (hw_position w) * 8 \<and> bw_range i = ws_position p0 + 3 + index_size it
     \<and> (\<exists>x. length x = index_size it \<and> wrote (object_header gv qc @ index_bytes it start @ x) p0 (hw_position w))
     \<and> length bits \<le> 8 * WSlice_Size (hw_position w) \<and> take (length (pack_bits bits)) (ws_rest (hw_position w)) = pack_bits bits"

lemma RangeWriteIterator_Bitfield_make:
  "BitfieldRangeWriteIterator_make it start w = (case RangeWriteIterator_make it start (undefined :: unit ObjectCodec) w of (i, w') \<Rightarrow>
     (\<lparr>bw_type = it, bw_start = start, bw_count = 0,
       bw_maxCount = (if rw_isValid i then WSlice_Size (hw_position w') * 8 else 0), bw_isValid = rw_isValid i, bw_range = rw_range i\<rparr>, w'))"
  by (simp add: BitfieldRangeWriteIterator_make_def RangeWriteIterator_make_def Let_def)

lemma IterateOverSingleBitfield_state:
  assumes ok: "hw_ok w"
  shows "case IterateOverSingleBitfield it gv qc start w of (i, w') \<Rightarrow>
    if WSlice_Size (hw_position w) < 4 + 2 * index_size it then \<not> bw_isValid i \<and> w' = w
    else bw_state gv qc it start (hw_position w) [] i w' \<and> 1 \<le> WSlice_Size (hw_position w')"
proof (cases "WSlice_Size (hw_position w) < 4 + 2 * index_size it")
  case True
  then show ?thesis by (simp add: IterateOverSingleBitfield_def WriteHeaderWithReserve_def BitfieldRangeWriteIterator_Null_def)
next
  case False
  let ?p0 = "hw_position w"
  obtain w1 where w1: "WriteHeaderWithReserve gv qc (2 * index_size it + 1) w = (w1, True)"
    using False by (auto simp: WriteHeaderWithReserve_def WriteHeader_def)
  note h = WriteHeaderWithReserve_wrote[OF ok w1]
  have hdr: "wrote (object_header gv qc) ?p0 (hw_position w1)" using h(1) by (simp add: object_header_def)
  have ok1: "hw_ok w1" using hdr by (simp add: wrote_def hw_ok_def)
  have room: "2 * index_size it \<le> WSlice_Size (hw_position w1)" using h(3) by simp
  have pos: "ws_position (hw_position w1) = ws_position ?p0 + 3" using wrote_position[OF hdr] by simp
  obtain i w2 where i: "RangeWriteIterator_make it start (undefined :: unit ObjectCodec) w1 = (i, w2)" by fastforce
  with RangeWriteIterator_make_wrote[OF ok1 room, of start "undefined :: unit ObjectCodec"] obtain x where x: "length x = index_size it"
    "wrote (index_bytes it start @ x) (hw_position w1) (hw_position w2)"
    and f: "rw_isValid i" "rw_range i = ws_position (hw_position w1) + index_size it" by auto
  have "1 \<le> WSlice_Size (hw_position w2)" using wrote_Size[OF x(2)] x(1) h(3) by simp
  moreover have "wrote (object_header gv qc @ index_bytes it start @ x) ?p0 (hw_position w2)" using wrote_trans[OF hdr x(2)] by simp
  ultimately show ?thesis using False w1 i f pos x(1)
    by (auto simp: IterateOverSingleBitfield_def RangeWriteIterator_Bitfield_make bw_state_def pack_bits_def)
qed

lemma bw_state_ok: "bw_state gv qc it start p0 bits i w \<Longrightarrow> hw_ok w"
  by (auto simp: bw_state_def wrote_def hw_ok_def)

lemma BitfieldRangeWriteIterator_Write_state:
  assumes st: "bw_state gv qc it start p0 bits i w" and n: "length bits + 1 < index_mod it"
  shows "if 8 * WSlice_Size (hw_position w) \<le> length bits then BitfieldRangeWriteIterator_Write v i w = (i, w, False)
    else \<exists>i' w'. BitfieldRangeWriteIterator_Write v i w = (i', w', True) \<and> bw_state gv qc it start p0 (bits @ [v]) i' w'
      \<and> WSlice_Size (hw_position w') = WSlice_Size (hw_position w)"
proof (cases "8 * WSlice_Size (hw_position w) \<le> length bits")
  case True
  with st show ?thesis by (simp add: BitfieldRangeWriteIterator_Write_def bw_state_def)
next
  case False
  define n where "n = length bits"
  define p where "p = hw_position w"
  define k where "k = n div 8"
  define p1 where "p1 = (if n mod 8 = 0 then PokeAt (ws_position p + k) [0] p else p)"
  define y where "y = ws_buffer p1 ! (ws_position p + k)"
  define p2 where "p2 = (if v then PokeAt (ws_position p + k) [y OR 2 ^ (n mod 8)] p1 else p1)"
  from st obtain x where x: "length x = index_size it" "wrote (object_header gv qc @ index_bytes it start @ x) p0 p"
    by (auto simp: bw_state_def p_def)
  have ok: "ws_ok p" using x(2) by (simp add: wrote_def)
  have k: "k < WSlice_Size p" using False by (simp add: k_def n_def p_def)
  have p1: "ws_rest p1 = (if n mod 8 = 0 then (ws_rest p)[k := 0] else ws_rest p)" "ws_written p1 = ws_written p" "ws_ok p1"
    "length (ws_buffer p1) = length (ws_buffer p)" "ws_position p1 = ws_position p"
    using PokeAt_rest[OF ok k, of 0] ok by (simp_all add: p1_def)
  have size1: "WSlice_Size p1 = WSlice_Size p" using p1(4,5) by (simp add: WSlice_Size_def)
  have k1: "k < WSlice_Size p1" using k size1 by simp
  have y: "y = ws_rest p1 ! k" using p1(3,5) k1 by (simp add: y_def ws_rest_def WSlice_Size_def ws_ok_def)
  have p2: "ws_rest p2 = (if v then (ws_rest p1)[k := y OR 2 ^ (n mod 8)] else ws_rest p1)" "ws_written p2 = ws_written p" "ws_ok p2"
    "length (ws_buffer p2) = length (ws_buffer p)" "ws_position p2 = ws_position p"
    using PokeAt_rest[OF p1(3) k1, of "y OR 2 ^ (n mod 8)"] p1 by (simp_all add: p2_def)
  have size2: "WSlice_Size p2 = WSlice_Size p" using p2(4,5) by (simp add: WSlice_Size_def)
  have old: "take ((n + 7) div 8) (ws_rest p) = pack_bits bits" using st by (simp add: bw_state_def p_def n_def)
  have len: "k < length (ws_rest p)" using k by (simp add: length_ws_rest)
  have new: "take ((Suc n + 7) div 8) (ws_rest p2) = pack_bits (bits @ [v])"
  proof (cases "n mod 8 = 0")
    case True
    then have "(n + 7) div 8 = k" "(Suc n + 7) div 8 = Suc k" unfolding k_def round_up_8[of n] round_up_Suc by simp_all
    moreover have "ws_rest p2 = (ws_rest p)[k := (if v then 0 OR 2 ^ (n mod 8) else 0)]"
      using p1(1) p2(1) y True len by simp
    ultimately show ?thesis using old pack_bits_snoc(1)[OF n_def True, of v] len by (simp add: take_Suc_conv_app_nth)
  next
    case False
    then have d: "(n + 7) div 8 = Suc k" "(Suc n + 7) div 8 = Suc k" unfolding k_def round_up_8[of n] round_up_Suc by simp_all
    have nth: "pack_bits bits ! k = ws_rest p ! k" using old d(1) len by (metis lessI nth_take)
    have "ws_rest p2 = (ws_rest p)[k := (if v then ws_rest p ! k OR 2 ^ (n mod 8) else ws_rest p ! k)]"
      using p1(1) p2(1) y False by simp
    then have "take (Suc k) (ws_rest p2) = (take (Suc k) (ws_rest p))[k := (if v then ws_rest p ! k OR 2 ^ (n mod 8) else ws_rest p ! k)]"
      by (simp add: take_update_swap)
    then show ?thesis using old pack_bits_snoc(2)[OF n_def False, of v] d nth by (simp add: k_def)
  qed
  have count: "bw_isValid i" "bw_count i = n" "bw_maxCount i = WSlice_Size p * 8" "bw_type i = it"
    using st by (simp_all add: bw_state_def p_def n_def)
  have "n < WSlice_Size p * 8" using False by (simp add: n_def p_def)
  with count have run: "BitfieldRangeWriteIterator_Write v i w = (i\<lparr>bw_count := (n + 1) mod index_mod it\<rparr>, w\<lparr>hw_position := p2\<rparr>, True)"
    by (simp add: BitfieldRangeWriteIterator_Write_def Let_def p2_def p1_def y_def p_def k_def)
  have "wrote (object_header gv qc @ index_bytes it start @ x) p0 p2" using x(2) p2 by (simp add: wrote_def)
  moreover have "(n + 1) mod index_mod it = Suc n" using n by (simp add: n_def)
  ultimately have "bw_state gv qc it start p0 (bits @ [v]) (i\<lparr>bw_count := (n + 1) mod index_mod it\<rparr>) (w\<lparr>hw_position := p2\<rparr>)"
    using st x(1) size2 new False by (auto simp: bw_state_def n_def p_def intro!: exI[of _ x])
  with run False size2 show ?thesis by (simp add: p_def)
qed

lemma BitfieldRangeWriteIterator_destroy_state:
  assumes st: "bw_state gv qc it start p0 bits i w" and n: "0 < length bits"
  shows "wrote (range_bytes it qc gv start (length bits) (pack_bits bits)) p0 (hw_position (BitfieldRangeWriteIterator_destroy i w))"
proof -
  define p where "p = hw_position w"
  from st obtain x where x: "length x = index_size it" "wrote (object_header gv qc @ index_bytes it start @ x) p0 p"
    by (auto simp: bw_state_def p_def)
  define A where "A = object_header gv qc @ index_bytes it start"
  define bs where "bs = index_bytes it (start + length bits - 1)"
  have off: "bw_range i = ws_position p0 + length A" using st by (simp add: bw_state_def A_def)
  define q where "q = PokeAt (bw_range i) bs p"
  have "wrote (A @ x @ []) p0 p" using x(2) by (simp add: A_def)
  from wrote_PokeAt[OF this _ off, of bs] x(1) have q: "wrote (A @ bs) p0 q" "WSlice_Size q = WSlice_Size p" "ws_position q = ws_position p"
    by (simp_all add: q_def bs_def)
  have rest: "ws_rest q = ws_rest p"
  proof -
    have "bw_range i + length bs \<le> ws_position p" using wrote_position[OF x(2)] x(1) off by (simp add: A_def bs_def)
    then show ?thesis using x(2)
      by (simp add: ws_rest_def q_def PokeAt_def overwrite_def wrote_def ws_ok_def)
  qed
  define num where "num = (length bits + 7) div 8"
  have num: "num = (let num = length bits div 8 in if length bits mod 8 > 0 then num + 1 else num)"
    unfolding num_def Let_def round_up_8[of "length bits"] by simp
  have "length bits \<le> 8 * WSlice_Size q" using st q(2) by (simp add: bw_state_def p_def)
  then have fit: "num \<le> WSlice_Size q" unfolding num_def by (rule round_up_le)
  have okq: "ws_ok q" using q(1) by (simp add: wrote_def)
  have "ws_written (WSlice_Advance num q) = ws_written q @ take num (ws_rest q)"
    using fit okq by (simp add: WSlice_Advance_def ws_written_def ws_rest_def take_add)
  moreover have "take num (ws_rest q) = pack_bits bits" using st rest by (simp add: bw_state_def num_def p_def)
  moreover have "ws_ok (WSlice_Advance num q)" "length (ws_buffer (WSlice_Advance num q)) = length (ws_buffer q)"
    using okq fit by (simp_all add: ws_ok_def WSlice_Advance_def WSlice_Size_def)
  ultimately have adv: "wrote (pack_bits bits) q (WSlice_Advance num q)" using okq by (simp add: wrote_def)
  have f: "bw_isValid i" "bw_count i = length bits" "bw_type i = it" "bw_start i = start" using st by (simp_all add: bw_state_def)
  have "hw_position (BitfieldRangeWriteIterator_destroy i w) = WSlice_Advance num q"
    using f n by (simp add: BitfieldRangeWriteIterator_destroy_def num Let_def q_def bs_def p_def)
  then show ?thesis using wrote_trans[OF q(1) adv] by (simp add: range_bytes_def A_def bs_def)
qed


section \<open>A run of cells\<close>

text \<open>The range of the cells \<open>cs\<close> of a view; it is not valid when there are none.\<close>

definition cells_at :: "('v, 'm) Cell list \<Rightarrow> Range \<Rightarrow> ('v, 'm) Cell list \<Rightarrow> ('v, 'm) Cell list \<Rightarrow> ('v, 'm) Cell list \<Rightarrow> bool" where
  "cells_at view rng ls cs rs \<longleftrightarrow> view = ls @ cs @ rs
     \<and> (if cs = [] then \<not> Range_IsValid rng else range_start rng = length ls \<and> range_stop rng + 1 = length ls + length cs)"

lemma cells_at_Cons:
  assumes "cells_at view rng ls (c # cs) rs"
  shows "Range_IsValid rng" "range_start rng < length view" "range_stop rng < length view" "view ! range_start rng = c"
    "view ! range_stop rng = last (c # cs)"
    "cells_at (view[range_start rng := c']) (fst (Range_Advance rng)) (ls @ [c']) cs rs"
proof -
  have view: "view = ls @ (c # cs) @ rs" and rng: "range_start rng = length ls" "range_stop rng = length ls + length cs"
    using assms by (simp_all add: cells_at_def)
  show "Range_IsValid rng" "range_start rng < length view" "range_stop rng < length view" "view ! range_start rng = c"
    using view rng by (simp_all add: Range_IsValid_iff)
  show "view ! range_stop rng = last (c # cs)"
    using view rng by (simp add: nth_append last_conv_nth nth_Cons')
  have up: "view[range_start rng := c'] = (ls @ [c']) @ cs @ rs" using view rng by simp
  show "cells_at (view[range_start rng := c']) (fst (Range_Advance rng)) (ls @ [c']) cs rs"
  proof (cases "cs = []")
    case True
    then show ?thesis using up rng by (simp add: cells_at_def Range_Advance_def Range_IsValid_def word_less_nat_alt word_le_nat_alt)
  next
    case False
    then have "rg_start rng < rg_stop rng" using rng by (simp add: word_less_nat_alt)
    moreover have "unat (rg_start rng + 1) = Suc (range_start rng)"
      using False rng unat_uint16_less[of "rg_stop rng"] by (intro unat_Suc) (cases cs; simp)
    ultimately show ?thesis using False up rng by (simp add: cells_at_def Range_Advance_def Range_IsValid_def)
  qed
qed

definition deselect :: "('v, 'm) Cell \<Rightarrow> ('v, 'm) Cell" where
  "deselect c = c\<lparr>sel_selected := False\<rparr>"

definition continues :: "StaticVariation \<Rightarrow> uint16 \<Rightarrow> ('v, 'm) Cell \<Rightarrow> bool" where
  "continues var nxt c \<longleftrightarrow> sel_selected c \<and> sel_variation c = var \<and> cl_vIndex c = nxt"

fun run :: "StaticVariation \<Rightarrow> uint16 \<Rightarrow> ('v, 'm) Cell list \<Rightarrow> bool" where
  "run var nxt [] = True"
| "run var nxt (c # cs) = (continues var nxt c \<and> run var (nxt + 1) cs)"

text \<open>The contract of an iterator: \<open>st\<close> is its state after some items, which are fewer than \<open>limit\<close>.\<close>

definition write_ok ::
  "('v \<Rightarrow> 'i \<Rightarrow> HeaderWriter \<Rightarrow> ('i \<times> HeaderWriter \<times> bool) option) \<Rightarrow> ('b list \<Rightarrow> 'i \<Rightarrow> HeaderWriter \<Rightarrow> bool) \<Rightarrow> ('v \<Rightarrow> 'b)
    \<Rightarrow> ('b list \<Rightarrow> HeaderWriter \<Rightarrow> bool) \<Rightarrow> nat \<Rightarrow> 'v \<Rightarrow> bool" where
  "write_ok wr st conv room limit v \<longleftrightarrow> (\<forall>items i w. st items i w \<longrightarrow> length items < limit \<longrightarrow>
     (if \<not> room items w then wr v i w = Some (i, w, False)
      else \<exists>i' w'. wr v i w = Some (i', w', True) \<and> st (items @ [conv v]) i' w'))"

definition cells_post where
  "cells_post st conv room ls cs rs var nxt items = (\<lambda>(view, iter, rng, w, ok).
     \<exists>xs ys. cs = xs @ ys \<and> cells_at view rng (ls @ map deselect xs) ys rs \<and> run var nxt xs
       \<and> st (items @ map (conv \<circ> sel_value) xs) iter w
       \<and> (if ok then ys = [] \<or> \<not> continues var (nxt + of_nat (length xs)) (hd ys)
          else ys \<noteq> [] \<and> continues var (nxt + of_nat (length xs)) (hd ys)
            \<and> \<not> room (items @ map (conv \<circ> sel_value) xs) w))"

lemma cells_post_stop:
  assumes "cells_at view rng ls cs rs" "st items iter w"
    "if ok then cs = [] \<or> \<not> continues var nxt (hd cs) else cs \<noteq> [] \<and> continues var nxt (hd cs) \<and> \<not> room items w"
  shows "cells_post st conv room ls cs rs var nxt items (view, iter, rng, w, ok)"
  unfolding cells_post_def prod.case by (rule exI[of _ "[]"], rule exI[of _ cs]) (use assms in simp)

lemma cells_post_pass:
  assumes "cells_post st conv room (ls @ [deselect c]) cs rs var (nxt + 1) (items @ [conv (sel_value c)]) res" "continues var nxt c"
  shows "cells_post st conv room ls (c # cs) rs var nxt items res"
proof -
  obtain view iter rng w ok where res: "res = (view, iter, rng, w, ok)" by (cases res)
  from assms(1) obtain xs ys where xs: "cs = xs @ ys" "cells_at view rng ((ls @ [deselect c]) @ map deselect xs) ys rs" "run var (nxt + 1) xs"
    "st ((items @ [conv (sel_value c)]) @ map (conv \<circ> sel_value) xs) iter w"
    "if ok then ys = [] \<or> \<not> continues var (nxt + 1 + of_nat (length xs)) (hd ys)
     else ys \<noteq> [] \<and> continues var (nxt + 1 + of_nat (length xs)) (hd ys)
       \<and> \<not> room ((items @ [conv (sel_value c)]) @ map (conv \<circ> sel_value) xs) w"
    unfolding cells_post_def res prod.case by blast
  have nxt: "nxt + of_nat (length (c # xs)) = nxt + 1 + of_nat (length xs)" by simp
  show ?thesis unfolding res cells_post_def prod.case
    by (rule exI[of _ "c # xs"], rule exI[of _ ys], unfold nxt) (use xs assms(2) in \<open>cases ok; simp\<close>)
qed

lemma LoadLoop_spec:
  assumes "cells_at view rng ls cs rs" "st items iter w" "\<forall>c\<in>set cs. sel_selected c \<longrightarrow> sel_variation c = var \<longrightarrow> write_ok wr st conv room limit (sel_value c)"
    "length items + length cs \<le> limit"
  shows "\<exists>res. LoadLoop wr var nxt view iter rng w = Some res \<and> cells_post st conv room ls cs rs var nxt items res"
  using assms
proof (induction cs arbitrary: view rng ls nxt items iter w)
  case Nil
  then have "LoadLoop wr var nxt view iter rng w = Some (view, iter, rng, w, True)"
    by (subst LoadLoop.simps) (simp add: cells_at_def)
  moreover have "cells_post st conv room ls [] rs var nxt items (view, iter, rng, w, True)"
    by (rule cells_post_stop[OF Nil.prems(1), where st = st and items = items, OF Nil.prems(2)]) simp
  ultimately show ?case by blast
next
  case (Cons c cs)
  note at = cells_at_Cons[OF Cons.prems(1)]
  note loop = LoadLoop.simps[of wr var nxt view iter rng w, unfolded if_P[OF at(1)] if_P[OF at(2)] Let_def at(4)]
  show ?case
  proof (cases "continues var nxt c")
    case False
    then have "LoadLoop wr var nxt view iter rng w = Some (view, iter, rng, w, True)" using loop by (auto simp: continues_def)
    moreover have "cells_post st conv room ls (c # cs) rs var nxt items (view, iter, rng, w, True)"
      by (rule cells_post_stop[OF Cons.prems(1), where st = st and items = items, OF Cons.prems(2)]) (simp add: False)
    ultimately show ?thesis by blast
  next
    case True
    then have cont: "sel_selected c \<and> sel_variation c = var \<and> cl_vIndex c = nxt" by (simp add: continues_def)
    have "write_ok wr st conv room limit (sel_value c)" using Cons.prems(3) cont by simp
    note eff = this[unfolded write_ok_def, rule_format, OF Cons.prems(2)]
    have lim: "length items < limit" using Cons.prems(4) by simp
    show ?thesis
    proof (cases "room items w")
      case False
      then have "LoadLoop wr var nxt view iter rng w = Some (view, iter, rng, w, False)" using loop cont eff[OF lim] by simp
      moreover have "cells_post st conv room ls (c # cs) rs var nxt items (view, iter, rng, w, False)"
        by (rule cells_post_stop[OF Cons.prems(1), where st = st and items = items, OF Cons.prems(2)]) (simp add: False True)
      ultimately show ?thesis by blast
    next
      case room: True
      then obtain iter' w' where w': "wr (sel_value c) iter w = Some (iter', w', True)" "st (items @ [conv (sel_value c)]) iter' w'"
        using eff[OF lim] by auto
      obtain res where "LoadLoop wr var (nxt + 1) (view[range_start rng := deselect c]) iter' (fst (Range_Advance rng)) w' = Some res"
        and post: "cells_post st conv room (ls @ [deselect c]) cs rs var (nxt + 1) (items @ [conv (sel_value c)]) res"
        using Cons.IH[OF at(6)[of "deselect c"] w'(2), of "nxt + 1"] Cons.prems(3,4) by auto
      then have res: "LoadLoop wr var nxt view iter rng w = Some res" using loop cont w'(1) by (auto simp: deselect_def)
      have "cells_post st conv room ls (c # cs) rs var nxt items res" by (rule cells_post_pass[OF post True])
      with res show ?thesis by blast
    qed
  qed
qed


section \<open>One header\<close>

definition range_qualifier :: "IndexType \<Rightarrow> QualifierCode" where
  "range_qualifier it = (if it = Index8 then UINT8_START_STOP else UINT16_START_STOP)"

text \<open>The indices of a header have two bytes when that of the last cell in the range does not fit in one.\<close>

definition header_index :: "('v, 'm) Cell list \<Rightarrow> IndexType" where
  "header_index cs = (if cl_vIndex (last cs) \<le> 255 then Index8 else Index16)"

definition static_fields :: "'v ObjectCodec \<Rightarrow> ('v, 'm) Cell \<Rightarrow> Field list" where
  "static_fields k c = the (oc_convert k (sel_value c))"

text \<open>What is written of the cells behind one header.\<close>

definition static_bytes :: "IndexType \<Rightarrow> 'v StaticWriter \<Rightarrow> ('v, 'm) Cell list \<Rightarrow> bytes" where
  "static_bytes it writer cs = (case writer of
       SingleBitfield gv val \<Rightarrow> range_bytes it (range_qualifier it) gv (unat (cl_vIndex (hd cs))) (length cs) (pack_bits (map (val \<circ> sel_value) cs))
     | WithSerializer k \<Rightarrow> range_bytes it (range_qualifier it) (oc_id k) (unat (cl_vIndex (hd cs))) (length cs)
         (concat (map fields_bytes (map (static_fields k) cs))))"

definition static_room :: "IndexType \<Rightarrow> 'v StaticWriter \<Rightarrow> nat" where
  "static_room it writer = 3 + 2 * index_size it + (case writer of SingleBitfield gv val \<Rightarrow> 1 | WithSerializer k \<Rightarrow> oc_size k)"

definition writable_with :: "'v StaticWriter \<Rightarrow> 'v \<Rightarrow> bool" where
  "writable_with writer v \<longleftrightarrow> (case writer of SingleBitfield gv val \<Rightarrow> True
     | WithSerializer k \<Rightarrow> (\<exists>fs. oc_convert k v = Some fs \<and> fields_size (map field_type fs) = oc_size k))"

definition write_static_post where
  "write_static_post p0 it writer ls h cs rs = (\<lambda>(view, rng, w, ok).
     \<exists>xs ys. h # cs = xs @ ys \<and> cells_at view rng (ls @ map deselect xs) ys rs \<and> run (sel_variation h) (cl_vIndex h) xs
       \<and> wrote (if xs = [] then [] else static_bytes it writer xs) p0 (hw_position w)
       \<and> (if ok then xs \<noteq> [] \<and> (ys = [] \<or> \<not> continues (sel_variation h) (cl_vIndex h + of_nat (length xs)) (hd ys))
          else ys \<noteq> [] \<and> sel_selected (hd ys) \<and> sel_variation (hd ys) = sel_variation h
            \<and> WSlice_Size (hw_position w) < static_room it writer))"

lemma write_static_full:
  assumes "cells_at view rng ls (h # cs) rs" "sel_selected h" "hw_ok w" "WSlice_Size (hw_position w) < static_room it writer"
  shows "write_static_post (hw_position w) it writer ls h cs rs (view, rng, w, False)"
  unfolding write_static_post_def prod.case
  by (rule exI[of _ "[]"], rule exI[of _ "h # cs"]) (use assms in \<open>simp add: hw_ok_def wrote_refl\<close>)

lemma LoadLoop_invalid:
  assumes "cells_at view rng ls (h # cs) rs" "sel_selected h" "wr (sel_value h) iter w = Some (iter, w, False)"
  shows "LoadLoop wr (sel_variation h) (cl_vIndex h) view iter rng w = Some (view, iter, rng, w, False)"
  using cells_at_Cons(1,2,4)[OF assms(1)] assms(2,3) by (subst LoadLoop.simps) (simp add: Let_def)

lemma WriteWithSerializer_with_spec:
  assumes at: "cells_at view rng ls (h # cs) rs" and h: "sel_selected h" and w: "hw_ok w"
    and conv: "\<forall>c\<in>set (h # cs). sel_selected c \<longrightarrow> sel_variation c = sel_variation h \<longrightarrow> writable_with (WithSerializer k) (sel_value c)"
    and len: "length (h # cs) < index_mod it"
  shows "\<exists>res. WriteWithSerializer_with it (range_qualifier it) k (unat (cl_vIndex h)) view rng w = Some res
    \<and> write_static_post (hw_position w) it (WithSerializer k) ls h cs rs res"
proof -
  let ?start = "unat (cl_vIndex h)" and ?qc = "range_qualifier it" and ?p0 = "hw_position w"
  have c: "view ! range_start rng = h" using cells_at_Cons(4)[OF at] .
  obtain iter w1 where iter: "IterateOverRange it ?qc k ?start w = (iter, w1)" by fastforce
  note state = IterateOverRange_state[OF w, where it = it and qc = ?qc and c = k and start = ?start, unfolded iter prod.case]
  show ?thesis
  proof (cases "WSlice_Size ?p0 < 3 + 2 * index_size it + oc_size k")
    case True
    then have bad: "\<not> rw_isValid iter" "w1 = w" using state by simp_all
    then have "RangeWriteIterator_Write (sel_value h) iter w = Some (iter, w, False)" by (simp add: RangeWriteIterator_Write_def)
    from LoadLoop_invalid[OF at h, where wr = RangeWriteIterator_Write, OF this]
    have "WriteWithSerializer_with it ?qc k ?start view rng w = Some (view, rng, w, False)"
      using bad by (simp add: WriteWithSerializer_with_def iter c RangeWriteIterator_destroy_def)
    moreover have "write_static_post ?p0 it (WithSerializer k) ls h cs rs (view, rng, w, False)"
      by (rule write_static_full[OF at h w]) (use True in \<open>simp add: static_room_def\<close>)
    ultimately show ?thesis by blast
  next
    case room: False
    then have st: "rw_state ?qc k it ?start ?p0 [] iter w1" using state by simp
    let ?conv = "\<lambda>v. the (oc_convert k v)"
    let ?room = "\<lambda>items w. oc_size k \<le> WSlice_Size (hw_position w)"
    have good: "write_ok RangeWriteIterator_Write (rw_state ?qc k it ?start ?p0) ?conv ?room (index_mod it) v"
      if "writable_with (WithSerializer k) v" for v
      unfolding write_ok_def
    proof (intro allI impI)
      fix items i w'
      assume st: "rw_state ?qc k it ?start ?p0 items i w'"
      from that obtain fs where fs: "oc_convert k v = Some fs" "fields_size (map field_type fs) = oc_size k"
        by (auto simp: writable_with_def)
      from RangeWriteIterator_Write_state[OF st fs]
      show "if \<not> ?room items w' then RangeWriteIterator_Write v i w' = Some (i, w', False)
        else \<exists>i' w''. RangeWriteIterator_Write v i w' = Some (i', w'', True) \<and> rw_state ?qc k it ?start ?p0 (items @ [?conv v]) i' w''"
        unfolding fs(1) option.sel not_le .
    qed
    have steps: "\<forall>c\<in>set (h # cs). sel_selected c \<longrightarrow> sel_variation c = sel_variation h
        \<longrightarrow> write_ok RangeWriteIterator_Write (rw_state ?qc k it ?start ?p0) ?conv ?room (index_mod it) (sel_value c)"
      using conv good by blast
    have "length [] + length (h # cs) \<le> index_mod it" using len by simp
    from LoadLoop_spec[OF at st steps this, of "cl_vIndex h"]
    obtain view' iter' rng' w' ok where loop: "LoadLoop RangeWriteIterator_Write (sel_variation h) (cl_vIndex h) view iter rng w1 = Some (view', iter', rng', w', ok)"
      "cells_post (rw_state ?qc k it ?start ?p0) ?conv ?room ls (h # cs) rs (sel_variation h) (cl_vIndex h) [] (view', iter', rng', w', ok)"
      by (metis prod_cases5)
    from loop(2) obtain xs ys where xs: "h # cs = xs @ ys" "cells_at view' rng' (ls @ map deselect xs) ys rs" "run (sel_variation h) (cl_vIndex h) xs"
      "rw_state ?qc k it ?start ?p0 (map (?conv \<circ> sel_value) xs) iter' w'"
      "if ok then ys = [] \<or> \<not> continues (sel_variation h) (cl_vIndex h + of_nat (length xs)) (hd ys)
       else ys \<noteq> [] \<and> continues (sel_variation h) (cl_vIndex h + of_nat (length xs)) (hd ys) \<and> \<not> oc_size k \<le> WSlice_Size (hw_position w')"
      unfolding cells_post_def prod.case append_Nil by blast
    note size = rw_state_Size[OF xs(4)]
    have ne: "xs \<noteq> []"
    proof
      assume "xs = []"
      with xs(1,5) h size room show False by (auto simp: continues_def split: if_splits)
    qed
    then have hd: "hd xs = h" "0 < length xs" using xs(1) by (cases xs; simp)+
    have "length xs < index_mod it" using len xs(1) by (metis length_append le_add1 le_less_trans)
    with hd have "wrote (range_bytes it ?qc (oc_id k) ?start (length xs) (concat (map fields_bytes (map (?conv \<circ> sel_value) xs)))) ?p0
        (hw_position (RangeWriteIterator_destroy iter' w'))"
      using RangeWriteIterator_destroy_state[OF xs(4)] by simp
    then have bytes: "wrote (static_bytes it (WithSerializer k) xs) ?p0 (hw_position (RangeWriteIterator_destroy iter' w'))"
      by (simp add: static_bytes_def hd static_fields_def comp_def)
    have "WSlice_Size (hw_position (RangeWriteIterator_destroy iter' w')) = WSlice_Size (hw_position w')"
      using wrote_Size[OF bytes] size by (simp add: static_bytes_def range_bytes_def static_fields_def comp_def)
    then have last: "if ok then xs \<noteq> [] \<and> (ys = [] \<or> \<not> continues (sel_variation h) (cl_vIndex h + of_nat (length xs)) (hd ys)) else ys \<noteq> [] \<and> sel_selected (hd ys) \<and> sel_variation (hd ys) = sel_variation h
            \<and> WSlice_Size (hw_position (RangeWriteIterator_destroy iter' w')) < static_room it (WithSerializer k)"
      using xs(5) ne by (cases ok) (simp_all add: static_room_def continues_def)
    have "WriteWithSerializer_with it ?qc k ?start view rng w = Some (view', rng', RangeWriteIterator_destroy iter' w', ok)"
      using loop(1) by (simp add: WriteWithSerializer_with_def iter c)
    moreover have "write_static_post ?p0 it (WithSerializer k) ls h cs rs (view', rng', RangeWriteIterator_destroy iter' w', ok)"
      unfolding write_static_post_def prod.case
      by (rule exI[of _ xs], rule exI[of _ ys]) (use xs(1-3) bytes ne last in \<open>simp only: if_not_P simp_thms\<close>)
    ultimately show ?thesis by blast
  qed
qed


lemma WriteSingleBitfield_with_spec:
  assumes at: "cells_at view rng ls (h # cs) rs" and h: "sel_selected h" and w: "hw_ok w"
    and len: "length (h # cs) < index_mod it"
  shows "\<exists>res. WriteSingleBitfield_with it (range_qualifier it) gv val (unat (cl_vIndex h)) view rng w = Some res
    \<and> write_static_post (hw_position w) it (SingleBitfield gv val) ls h cs rs res"
proof -
  let ?start = "unat (cl_vIndex h)" and ?qc = "range_qualifier it" and ?p0 = "hw_position w"
  let ?wr = "\<lambda>v i w. Some (BitfieldRangeWriteIterator_Write (val v) i w)"
  have c: "view ! range_start rng = h" using cells_at_Cons(4)[OF at] .
  obtain iter w1 where iter: "IterateOverSingleBitfield it gv ?qc ?start w = (iter, w1)" by fastforce
  note state = IterateOverSingleBitfield_state[OF w, where it = it and qc = ?qc and gv = gv and start = ?start, unfolded iter prod.case]
  show ?thesis
  proof (cases "WSlice_Size ?p0 < 4 + 2 * index_size it")
    case True
    then have bad: "\<not> bw_isValid iter" "w1 = w" using state by simp_all
    then have "?wr (sel_value h) iter w = Some (iter, w, False)" by (simp add: BitfieldRangeWriteIterator_Write_def)
    from LoadLoop_invalid[OF at h, where wr = ?wr, OF this]
    have "WriteSingleBitfield_with it ?qc gv val ?start view rng w = Some (view, rng, w, False)"
      using bad by (simp add: WriteSingleBitfield_with_def iter c BitfieldRangeWriteIterator_destroy_def)
    moreover have "write_static_post ?p0 it (SingleBitfield gv val) ls h cs rs (view, rng, w, False)"
      by (rule write_static_full[OF at h w]) (use True in \<open>simp add: static_room_def\<close>)
    ultimately show ?thesis by blast
  next
    case room: False
    let ?st = "\<lambda>bits i w. bw_state gv ?qc it ?start ?p0 bits i w \<and> 1 \<le> WSlice_Size (hw_position w)"
    let ?room = "\<lambda>bits w. length bits < 8 * WSlice_Size (hw_position w)"
    have st: "?st [] iter w1" using room state by simp
    have good: "write_ok ?wr ?st val ?room (index_mod it - 1) v" for v
      unfolding write_ok_def
    proof (intro allI impI)
      fix bits i w'
      assume st: "?st bits i w'" and "length bits < index_mod it - 1"
      then have "length bits + 1 < index_mod it" by simp
      note eff = BitfieldRangeWriteIterator_Write_state[OF conjunct1[OF st] this, of "val v"]
      show "if \<not> ?room bits w' then ?wr v i w' = Some (i, w', False)
        else \<exists>i' w''. ?wr v i w' = Some (i', w'', True) \<and> ?st (bits @ [val v]) i' w''"
      proof (cases "?room bits w'")
        case True
        with eff obtain i' w'' where "BitfieldRangeWriteIterator_Write (val v) i w' = (i', w'', True)"
          "bw_state gv ?qc it ?start ?p0 (bits @ [val v]) i' w''" "WSlice_Size (hw_position w'') = WSlice_Size (hw_position w')"
          by auto
        with st True show ?thesis by simp
      next
        case False
        with eff show ?thesis by simp
      qed
    qed
    then have steps: "\<forall>c\<in>set (h # cs). sel_selected c \<longrightarrow> sel_variation c = sel_variation h
        \<longrightarrow> write_ok ?wr ?st val ?room (index_mod it - 1) (sel_value c)" by blast
    have "length [] + length (h # cs) \<le> index_mod it - 1" using len by simp
    from LoadLoop_spec[OF at, where wr = ?wr and st = ?st and room = ?room, OF st steps this, of "cl_vIndex h"]
    obtain res where res: "LoadLoop ?wr (sel_variation h) (cl_vIndex h) view iter rng w1 = Some res"
      "cells_post ?st val ?room ls (h # cs) rs (sel_variation h) (cl_vIndex h) [] res" by blast
    obtain view' iter' rng' w' ok where tuple: "res = (view', iter', rng', w', ok)" by (cases res)
    note loop = res[unfolded tuple]
    from loop(2) obtain xs ys where xs: "h # cs = xs @ ys" "cells_at view' rng' (ls @ map deselect xs) ys rs" "run (sel_variation h) (cl_vIndex h) xs"
      "bw_state gv ?qc it ?start ?p0 (map (val \<circ> sel_value) xs) iter' w'" "1 \<le> WSlice_Size (hw_position w')"
      "if ok then ys = [] \<or> \<not> continues (sel_variation h) (cl_vIndex h + of_nat (length xs)) (hd ys)
       else ys \<noteq> [] \<and> continues (sel_variation h) (cl_vIndex h + of_nat (length xs)) (hd ys)
         \<and> \<not> length (map (val \<circ> sel_value) xs) < 8 * WSlice_Size (hw_position w')"
      unfolding cells_post_def prod.case append_Nil by blast
    have ne: "xs \<noteq> []"
    proof
      assume "xs = []"
      with xs(1,5,6) h show False by (auto simp: continues_def split: if_splits)
    qed
    then have hd: "hd xs = h" "0 < length xs" using xs(1) by (cases xs; simp)+
    then have "wrote (range_bytes it ?qc gv ?start (length xs) (pack_bits (map (val \<circ> sel_value) xs))) ?p0
        (hw_position (BitfieldRangeWriteIterator_destroy iter' w'))"
      using BitfieldRangeWriteIterator_destroy_state[OF xs(4)] by simp
    then have bytes: "wrote (static_bytes it (SingleBitfield gv val) xs) ?p0 (hw_position (BitfieldRangeWriteIterator_destroy iter' w'))"
      by (simp add: static_bytes_def hd)
    have last: "if ok then xs \<noteq> [] \<and> (ys = [] \<or> \<not> continues (sel_variation h) (cl_vIndex h + of_nat (length xs)) (hd ys)) else ys \<noteq> [] \<and> sel_selected (hd ys) \<and> sel_variation (hd ys) = sel_variation h
            \<and> WSlice_Size (hw_position (BitfieldRangeWriteIterator_destroy iter' w')) < static_room it (SingleBitfield gv val)"
    proof (cases ok)
      case False
      from xs(4) obtain x where x: "length x = index_size it" "wrote (object_header gv ?qc @ index_bytes it ?start @ x) ?p0 (hw_position w')"
        "length xs \<le> 8 * WSlice_Size (hw_position w')" by (auto simp: bw_state_def)
      have "length xs = 8 * WSlice_Size (hw_position w')" using x(3) xs(6) False by simp
      then have "(length xs + 7) div 8 = WSlice_Size (hw_position w')" by (simp add: round_up_8)
      then have "WSlice_Size (hw_position (BitfieldRangeWriteIterator_destroy iter' w')) = 0"
        using wrote_Size[OF bytes] wrote_Size[OF x(2)] x(1) by (simp add: static_bytes_def range_bytes_def)
      then show ?thesis using False xs(6) by (simp add: static_room_def continues_def)
    qed (use xs(6) in \<open>simp add: ne\<close>)
    have "WriteSingleBitfield_with it ?qc gv val ?start view rng w = Some (view', rng', BitfieldRangeWriteIterator_destroy iter' w', ok)"
      using loop(1) by (simp add: WriteSingleBitfield_with_def iter c)
    moreover have "write_static_post ?p0 it (SingleBitfield gv val) ls h cs rs (view', rng', BitfieldRangeWriteIterator_destroy iter' w', ok)"
      unfolding write_static_post_def prod.case
      by (rule exI[of _ xs], rule exI[of _ ys]) (use xs(1-3) bytes ne last in \<open>simp only: if_not_P simp_thms\<close>)
    ultimately show ?thesis by blast
  qed
qed


lemma WriteStatic_spec:
  assumes at: "cells_at view rng ls (h # cs) rs" and h: "sel_selected h" and w: "hw_ok w"
    and idx: "sorted_wrt (<) (map cl_vIndex (h # cs))" and len: "length (h # cs) < index_mod (header_index (h # cs))"
    and conv: "\<forall>c\<in>set (h # cs). sel_selected c \<longrightarrow> sel_variation c = sel_variation h \<longrightarrow> writable_with writer (sel_value c)"
  shows "\<exists>res. WriteStatic writer view rng w = Some res
    \<and> write_static_post (hw_position w) (header_index (h # cs)) writer ls h cs rs res"
proof -
  note c = cells_at_Cons[OF at]
  have "cl_vIndex h \<le> cl_vIndex (last (h # cs))" using idx by (cases cs rule: rev_cases) auto
  then have one: "Range_IsOneByte (Range_From (cl_vIndex h) (cl_vIndex (last (h # cs)))) \<longleftrightarrow> header_index (h # cs) = Index8"
    by (auto simp: Range_IsOneByte_def Range_From_def Range_IsValid_def header_index_def)
  have start: "range_start (Range_From (cl_vIndex h) (cl_vIndex (last (h # cs)))) = unat (cl_vIndex h)" by (simp add: Range_From_def)
  have it: "(if header_index (h # cs) = Index8 then (Index8, UINT8_START_STOP) else (Index16, UINT16_START_STOP))
    = (header_index (h # cs), range_qualifier (header_index (h # cs)))" by (simp add: header_index_def range_qualifier_def)
  have eq: "WriteStatic writer view rng w = (case writer of
      SingleBitfield gv val \<Rightarrow> WriteSingleBitfield_with (header_index (h # cs)) (range_qualifier (header_index (h # cs))) gv val
        (unat (cl_vIndex h)) view rng w
    | WithSerializer codec \<Rightarrow> WriteWithSerializer_with (header_index (h # cs)) (range_qualifier (header_index (h # cs))) codec
        (unat (cl_vIndex h)) view rng w)"
    unfolding WriteStatic_def c(4,5) Let_def one start it using c(2,3) by simp
  show ?thesis
  proof (cases writer)
    case (SingleBitfield gv val)
    show ?thesis unfolding eq unfolding SingleBitfield StaticWriter.case by (rule WriteSingleBitfield_with_spec[OF at h w len])
  next
    case (WithSerializer k)
    show ?thesis unfolding eq unfolding WithSerializer StaticWriter.case
      by (rule WriteWithSerializer_with_spec[OF at h w conv[unfolded WithSerializer] len])
  qed
qed

end
