(* ===== verification/StaticResponse.thy ===== *)
theory StaticResponse
  imports StaticLoad
begin

text \<open>
  The response to a read of current values: \<^verbatim>\<open>LoadType\<close> groups the selected values of a type into headers, and stops where
  the APDU is full.
\<close>

section \<open>The headers of a list of cells\<close>

text \<open>The selected cells, split where the variation changes or an index is left out.\<close>

fun static_runs :: "('v, 'm) Cell list \<Rightarrow> ('v, 'm) Cell list list" where
  "static_runs [] = []"
| "static_runs (c # cs) =
     (if sel_selected c
      then (if cs \<noteq> [] \<and> continues (sel_variation c) (cl_vIndex c + 1) (hd cs)
            then (c # hd (static_runs cs)) # tl (static_runs cs)
            else [c] # static_runs cs)
      else static_runs cs)"

definition runs_bytes :: "IndexType \<Rightarrow> (StaticVariation \<Rightarrow> 'v StaticWriter) \<Rightarrow> ('v, 'm) Cell list \<Rightarrow> bytes" where
  "runs_bytes it writer cs = concat (map (\<lambda>r. static_bytes it (writer (sel_variation (hd r))) r) (static_runs cs))"

lemma run_selected: "run var nxt cs \<Longrightarrow> c \<in> set cs \<Longrightarrow> sel_selected c"
  by (induction var nxt cs rule: run.induct) (auto simp: continues_def)

lemma run_next: "run var nxt (xs @ ys) \<Longrightarrow> ys \<noteq> [] \<Longrightarrow> continues var (nxt + of_nat (length xs)) (hd ys)"
proof (induction xs arbitrary: nxt)
  case Nil
  then show ?case by (cases ys) simp_all
next
  case (Cons x xs)
  then have "continues var (nxt + 1 + of_nat (length xs)) (hd ys)" by simp
  then show ?case by (simp add: add.assoc)
qed

lemma static_runs_run:
  assumes "run var nxt xs" "xs \<noteq> []" "ys = [] \<or> \<not> continues var (nxt + of_nat (length xs)) (hd ys)"
  shows "static_runs (xs @ ys) = xs # static_runs ys"
  using assms
proof (induction xs arbitrary: nxt)
  case (Cons x xs)
  then have x: "sel_selected x" "sel_variation x = var" "cl_vIndex x = nxt" "run var (nxt + 1) xs" by (simp_all add: continues_def)
  show ?case
  proof (cases xs)
    case Nil
    then show ?thesis using x Cons.prems(3) by auto
  next
    case (Cons y zs)
    have "nxt + of_nat (length (x # xs)) = nxt + 1 + of_nat (length xs)" by simp
    note last = Cons.prems(3)[unfolded this]
    have "static_runs (xs @ ys) = xs # static_runs ys"
      by (rule Cons.IH[OF x(4) _ last]) (simp add: Cons)
    moreover have "continues var (nxt + 1) y" using x(4) Cons by simp
    ultimately show ?thesis using x Cons by simp
  qed
qed simp

lemma static_runs_selected: "concat (static_runs cs) = filter sel_selected cs"
proof (induction cs)
  case (Cons c cs)
  show ?case
  proof (cases "sel_selected c \<and> cs \<noteq> [] \<and> continues (sel_variation c) (cl_vIndex c + 1) (hd cs)")
    case True
    then obtain d ds where "cs = d # ds" "sel_selected d" by (cases cs) (auto simp: continues_def)
    then have "static_runs cs \<noteq> []" by simp
    then have "concat (hd (static_runs cs) # tl (static_runs cs)) = filter sel_selected cs" using Cons by simp
    then show ?thesis using True by simp
  next
    case False
    then show ?thesis using Cons by auto
  qed
qed simp

lemma runs_bytes_run:
  assumes "run var nxt xs" "xs \<noteq> []" "ys = [] \<or> \<not> continues var (nxt + of_nat (length xs)) (hd ys)" "sel_variation (hd xs) = var"
  shows "runs_bytes it writer (xs @ ys) = static_bytes it (writer var) xs @ runs_bytes it writer ys"
  using static_runs_run[OF assms(1-3)] assms(4) by (simp add: runs_bytes_def)

lemma runs_bytes_skip: "\<not> sel_selected c \<Longrightarrow> runs_bytes it writer (c # cs) = runs_bytes it writer cs"
  by (simp add: runs_bytes_def)

lemma runs_bytes_Nil [simp]: "runs_bytes it writer [] = []"
  by (simp add: runs_bytes_def)

section \<open>\<^verbatim>\<open>LoadType\<close>\<close>

definition writable_cells :: "(StaticVariation \<Rightarrow> 'v StaticWriter) \<Rightarrow> ('v, 'm) Cell list \<Rightarrow> bool" where
  "writable_cells writer cs \<longleftrightarrow> (\<forall>c\<in>set cs. sel_selected c \<longrightarrow> writable_with (writer (sel_variation c)) (sel_value c))"

text \<open>The indices increase, as those of \<^verbatim>\<open>SetDefaultIndices\<close> do, and one header can hold all of the range.\<close>

definition indexed :: "('v, 'm) Cell list \<Rightarrow> bool" where
  "indexed cs \<longleftrightarrow> sorted_wrt (<) (map cl_vIndex cs) \<and> length cs < index_mod (header_index cs)"

definition load_type_post where
  "load_type_post p0 it writer ls cs rs = (\<lambda>(view, rng, w, ok).
     \<exists>xs ys. cs = xs @ ys \<and> cells_at view rng (ls @ map deselect xs) ys rs
       \<and> wrote (runs_bytes it writer xs) p0 (hw_position w)
       \<and> (if ok then ys = [] else ys \<noteq> [] \<and> sel_selected (hd ys)
            \<and> WSlice_Size (hw_position w) < static_room it (writer (sel_variation (hd ys)))))"

lemma load_type_post_intro:
  assumes "cs = xs @ ys" "cells_at view rng (ls @ map deselect xs) ys rs" "wrote (runs_bytes it writer xs) p0 (hw_position w)"
    "if ok then ys = [] else ys \<noteq> [] \<and> sel_selected (hd ys) \<and> WSlice_Size (hw_position w) < static_room it (writer (sel_variation (hd ys)))"
  shows "load_type_post p0 it writer ls cs rs (view, rng, w, ok)"
  unfolding load_type_post_def prod.case by (rule exI[of _ xs], rule exI[of _ ys]) (use assms in blast)

lemma deselect_id: "\<not> sel_selected c \<Longrightarrow> deselect c = c"
  by (simp add: deselect_def)

lemma load_type_post_more:
  assumes post: "load_type_post p1 it writer (ls @ map deselect as) bs rs (view, rng, w, ok)" and w: "wrote ws p0 p1"
    and eq: "\<And>xs ys. bs = xs @ ys \<Longrightarrow> runs_bytes it writer (as @ xs) = ws @ runs_bytes it writer xs"
  shows "load_type_post p0 it writer ls (as @ bs) rs (view, rng, w, ok)"
proof -
  from post obtain xs ys where xs: "bs = xs @ ys" "cells_at view rng ((ls @ map deselect as) @ map deselect xs) ys rs"
    "wrote (runs_bytes it writer xs) p1 (hw_position w)"
    "if ok then ys = [] else ys \<noteq> [] \<and> sel_selected (hd ys) \<and> WSlice_Size (hw_position w) < static_room it (writer (sel_variation (hd ys)))"
    unfolding load_type_post_def prod.case by blast
  show ?thesis
    by (rule load_type_post_intro[of _ "as @ xs" ys]) (use xs wrote_trans[OF w xs(3)] eq in \<open>simp_all only: append_assoc map_append\<close>)
qed

lemma indexed_tail:
  assumes "indexed (xs @ ys)" "ys \<noteq> []"
  shows "indexed ys" "header_index ys = header_index (xs @ ys)"
proof -
  show it: "header_index ys = header_index (xs @ ys)" using assms(2) by (simp add: header_index_def)
  show "indexed ys" using assms it by (simp add: indexed_def sorted_wrt_append)
qed

lemma LoadTypeLoop_spec:
  assumes "cells_at view rng ls cs rs" "hw_ok w" "cs \<noteq> [] \<Longrightarrow> indexed cs" "cs \<noteq> [] \<Longrightarrow> header_index cs = it" "writable_cells writer cs"
  shows "\<exists>res. LoadTypeLoop writer view rng w = Some res \<and> load_type_post (hw_position w) it writer ls cs rs res"
  using assms
proof (induction cs arbitrary: view rng ls w rule: length_induct)
  case (1 cs)
  show ?case
  proof (cases cs)
    case Nil
    then have "LoadTypeLoop writer view rng w = Some (view, rng, w, True)"
      using 1(2) by (subst LoadTypeLoop.simps) (simp add: cells_at_def)
    moreover have "load_type_post (hw_position w) it writer ls cs rs (view, rng, w, True)"
      by (rule load_type_post_intro[of _ "[]" "[]"]) (use 1(2,3) Nil in \<open>simp_all add: wrote_refl hw_ok_def\<close>)
    ultimately show ?thesis by blast
  next
    case (Cons h t)
    note at = cells_at_Cons[OF 1(2)[unfolded Cons]]
    note loop = LoadTypeLoop.simps[of writer view rng w, unfolded if_P[OF at(1)] if_P[OF at(2)] Let_def at(4)]
    have ix: "indexed (h # t)" "header_index (h # t) = it" using 1(4,5) Cons by simp_all
    show ?thesis
    proof (cases "sel_selected h")
      case False
      have "view[range_start rng := h] = view" using at(4) by (metis list_update_id)
      then have at': "cells_at view (fst (Range_Advance rng)) (ls @ map deselect [h]) t rs"
        using at(6)[of h] deselect_id[OF False] by simp
      have tl: "indexed t" "header_index t = it" if "t \<noteq> []"
        using indexed_tail[of "[h]" t] ix that by simp_all
      have wt: "writable_cells writer t" using 1(6) Cons by (simp add: writable_cells_def)
      from 1(1)[rule_format, OF _ at' 1(3) tl wt] obtain res where
        res: "LoadTypeLoop writer view (fst (Range_Advance rng)) w = Some res" "load_type_post (hw_position w) it writer (ls @ map deselect [h]) t rs res"
        using Cons by auto
      obtain view' rng' w' ok where tuple: "res = (view', rng', w', ok)" by (cases res)
      have "load_type_post (hw_position w) it writer ls ([h] @ t) rs (view', rng', w', ok)"
        by (rule load_type_post_more[OF res(2)[unfolded tuple], where ws = "[]"])
          (use 1(3) False in \<open>simp_all add: wrote_refl hw_ok_def runs_bytes_skip\<close>)
      then show ?thesis using res(1) loop False Cons tuple by simp
    next
      case True
      have conv: "\<forall>c\<in>set (h # t). sel_selected c \<longrightarrow> sel_variation c = sel_variation h \<longrightarrow> writable_with (writer (sel_variation h)) (sel_value c)"
        using 1(6) Cons by (auto simp: writable_cells_def)
      from WriteStatic_spec[OF 1(2)[unfolded Cons] True 1(3) _ _ conv] ix obtain res1 where
        res1: "WriteStatic (writer (sel_variation h)) view rng w = Some res1"
        "write_static_post (hw_position w) it (writer (sel_variation h)) ls h t rs res1"
        by (auto simp: indexed_def)
      obtain view1 rng1 w1 ok1 where tuple1: "res1 = (view1, rng1, w1, ok1)" by (cases res1)
      from res1(2) obtain xs ys where xs: "h # t = xs @ ys" "cells_at view1 rng1 (ls @ map deselect xs) ys rs"
        "run (sel_variation h) (cl_vIndex h) xs"
        "wrote (if xs = [] then [] else static_bytes it (writer (sel_variation h)) xs) (hw_position w) (hw_position w1)"
        "if ok1 then xs \<noteq> [] \<and> (ys = [] \<or> \<not> continues (sel_variation h) (cl_vIndex h + of_nat (length xs)) (hd ys))
         else ys \<noteq> [] \<and> sel_selected (hd ys) \<and> sel_variation (hd ys) = sel_variation h
            \<and> WSlice_Size (hw_position w1) < static_room it (writer (sel_variation h))"
        unfolding write_static_post_def tuple1 prod.case by blast
      have hd: "sel_variation (hd xs) = sel_variation h" if "xs \<noteq> []" using xs(1) that by (cases xs) auto
      show ?thesis
      proof (cases ok1)
        case False
        have bytes: "runs_bytes it writer xs = (if xs = [] then [] else static_bytes it (writer (sel_variation h)) xs)"
          using runs_bytes_run[OF xs(3), of "[]"] hd by auto
        have "load_type_post (hw_position w) it writer ls cs rs (view1, rng1, w1, False)"
          by (rule load_type_post_intro[of _ xs ys]) (use xs False bytes Cons in simp_all)
        then show ?thesis using loop True res1(1) tuple1 False by simp
      next
        case ok: True
        have ne: "xs \<noteq> []" using xs(5) ok by simp
        have ok1: "hw_ok w1" using xs(4) by (auto simp: hw_ok_def wrote_def)
        have tl: "indexed ys" "header_index ys = it" if "ys \<noteq> []"
          using indexed_tail[of xs ys] ix that xs(1) by simp_all
        have wt: "writable_cells writer ys" using 1(6) Cons xs(1) by (simp add: writable_cells_def)
        have "length ys < length cs" using xs(1) ne Cons by (metis length_append length_greater_0_conv less_add_same_cancel2)
        from 1(1)[rule_format, OF this xs(2) ok1 tl wt] obtain res where
          res: "LoadTypeLoop writer view1 rng1 w1 = Some res" "load_type_post (hw_position w1) it writer (ls @ map deselect xs) ys rs res"
          by blast
        obtain view' rng' w' ok' where tuple: "res = (view', rng', w', ok')" by (cases res)
        have "load_type_post (hw_position w) it writer ls (xs @ ys) rs (view', rng', w', ok')"
        proof (rule load_type_post_more[OF res(2)[unfolded tuple]])
          show "wrote (static_bytes it (writer (sel_variation h)) xs) (hw_position w) (hw_position w1)" using xs(4) ne by simp
          fix xs' ys'
          assume "ys = xs' @ ys'"
          then have "xs' = [] \<or> \<not> continues (sel_variation h) (cl_vIndex h + of_nat (length xs)) (hd xs')"
            using xs(5) ok by (cases xs') auto
          then show "runs_bytes it writer (xs @ xs') = static_bytes it (writer (sel_variation h)) xs @ runs_bytes it writer xs'"
            by (rule runs_bytes_run[OF xs(3) ne _ hd[OF ne]])
        qed
        then show ?thesis using loop True res1(1) tuple1 ok res(1) tuple xs(1) Cons by simp
      qed
    qed
  qed
qed

section \<open>A header of 256 points\<close>

lemma wrote_keeps: "wrote bs p p' \<Longrightarrow> i < ws_position p \<Longrightarrow> ws_buffer p' ! i = ws_buffer p ! i"
proof -
  assume w: "wrote bs p p'" and i: "i < ws_position p"
  have "ws_written p' ! i = ws_written p ! i" using w i by (simp add: wrote_def nth_append length_ws_written)
  then show ?thesis using i wrote_position[OF w] by (simp add: ws_written_def)
qed

lemma wrote_same_size: "wrote bs p p' \<Longrightarrow> length (ws_buffer p') = length (ws_buffer p)"
  by (simp add: wrote_def)

lemma overwrite_after: "off + length bs \<le> i \<Longrightarrow> i < length xs \<Longrightarrow> overwrite xs off bs ! i = xs ! i"
  by (auto simp: overwrite_def nth_append)

lemma WriteBuffer_after:
  "ws_position p + length bs \<le> i \<Longrightarrow> i < length (ws_buffer p) \<Longrightarrow> ws_buffer (WriteBuffer bs p) ! i = ws_buffer p ! i"
  by (simp add: WriteBuffer_def Poke_def WSlice_Advance_def overwrite_after)

lemma IterateOverRange_keeps:
  assumes "hw_ok w" "3 + 2 * index_size it + oc_size c \<le> WSlice_Size (hw_position w)" "IterateOverRange it qc c start w = (i, w')"
  shows "ws_buffer (hw_position w') ! (ws_position (hw_position w) + 3 + index_size it)
    = ws_buffer (hw_position w) ! (ws_position (hw_position w) + 3 + index_size it)"
proof -
  let ?p0 = "hw_position w" and ?i = "ws_position (hw_position w) + 3 + index_size it"
  have ok: "ws_ok ?p0" using assms(1) by (simp add: hw_ok_def)
  define a where "a = WriteBuffer [fst (oc_id c)] ?p0"
  define b where "b = WriteBuffer [snd (oc_id c)] a"
  define d where "d = WriteBuffer [QualifierCodeToType qc] b"
  have i: "?i < length (ws_buffer ?p0)" using assms(2) by (cases it) (simp_all add: WSlice_Size_def)
  note A = WriteBuffer_simps[OF ok, of "[fst (oc_id c)]", folded a_def]
  have a: "ws_ok a" "WSlice_Size a = WSlice_Size ?p0 - 1" "length (ws_buffer a) = length (ws_buffer ?p0)"
    "ws_position a = ws_position ?p0 + 1" using A assms(2) by simp_all
  note B = WriteBuffer_simps[OF a(1), of "[snd (oc_id c)]", folded b_def]
  have b: "ws_ok b" "WSlice_Size b = WSlice_Size ?p0 - 2" "length (ws_buffer b) = length (ws_buffer ?p0)"
    "ws_position b = ws_position ?p0 + 2" using B a assms(2) by simp_all
  note D = WriteBuffer_simps[OF b(1), of "[QualifierCodeToType qc]", folded d_def]
  have d: "ws_ok d" "WSlice_Size d = WSlice_Size ?p0 - 3" "length (ws_buffer d) = length (ws_buffer ?p0)"
    "ws_position d = ws_position ?p0 + 3" using D b assms(2) by simp_all
  have "IterateOverRange it qc c start w = RangeWriteIterator_make it start c (w\<lparr>hw_position := d\<rparr>)"
    using assms(2) by (simp add: IterateOverRange_def WriteHeaderWithReserve_def WriteHeader_def a_def b_def d_def)
  moreover have two: "2 * index_size it \<le> WSlice_Size d" using assms(2) d(2) by simp
  ultimately have "ws_buffer (hw_position w') = overwrite (ws_buffer d) (ws_position d) (index_bytes it start)"
    using assms(3) two by (auto simp: RangeWriteIterator_make_def Let_def PokeAt_def WSlice_Advance_def)
  then have "ws_buffer (hw_position w') ! ?i = ws_buffer d ! ?i" using i d(3,4) by (simp add: overwrite_after)
  also have "\<dots> = ws_buffer b ! ?i" unfolding d_def by (rule WriteBuffer_after) (use b i in simp_all)
  also have "\<dots> = ws_buffer a ! ?i" unfolding b_def by (rule WriteBuffer_after) (use a i in simp_all)
  also have "\<dots> = ws_buffer ?p0 ! ?i" unfolding a_def by (rule WriteBuffer_after) (use i in simp_all)
  finally show ?thesis .
qed

lemma RangeWriteIterator_Write_wrote:
  assumes "RangeWriteIterator_Write v i w = Some (i', w', ok)" "hw_ok w" "rw_serializer i = c"
    "oc_convert c v = Some fs" "fields_size (map field_type fs) = oc_size c"
  shows "\<exists>bs. wrote bs (hw_position w) (hw_position w')"
proof (cases "rw_isValid i \<and> oc_size c \<le> WSlice_Size (hw_position w)")
  case True
  then obtain w'' where "WriteObject c v w = Some w''" "wrote (fields_bytes fs) (hw_position w) (hw_position w'')"
    using WriteObject_wrote[OF assms(4,5), of w] assms(2) by (auto simp: hw_ok_def)
  with True assms(1,3) show ?thesis by (auto simp: RangeWriteIterator_Write_def)
next
  case False
  then have "w' = w" using assms(1,3) by (auto simp: RangeWriteIterator_Write_def split: if_splits)
  then show ?thesis using assms(2) wrote_refl by (auto simp: hw_ok_def)
qed

lemma length_concat_const: "(\<And>c. c \<in> set xs \<Longrightarrow> length (f c) = n) \<Longrightarrow> length (concat (map f xs)) = length xs * n"
  by (induction xs) simp_all

lemma WriteWithSerializer_256:
  assumes at: "cells_at view rng ls (h # cs) rs" and w: "hw_ok w" and all: "run (sel_variation h) (cl_vIndex h) (h # cs)"
    and n: "length (h # cs) = 256" and conv: "\<forall>c\<in>set (h # cs). writable_with (WithSerializer k) (sel_value c)"
    and room: "3 + 2 + 256 * oc_size k \<le> WSlice_Size (hw_position w)"
  defines "start \<equiv> unat (cl_vIndex h)"
  shows "\<exists>view' rng' w' x. WriteWithSerializer_with Index8 UINT8_START_STOP k start view rng w = Some (view', rng', w', True)
    \<and> cells_at view' rng' (ls @ map deselect (h # cs)) [] rs
    \<and> x = ws_buffer (hw_position w) ! (ws_position (hw_position w) + 4)
    \<and> wrote (object_header (oc_id k) UINT8_START_STOP @ index_bytes Index8 start @ [x]
        @ concat (map fields_bytes (map (static_fields k) (h # cs)))) (hw_position w) (hw_position w')"
proof -
  let ?qc = UINT8_START_STOP and ?p0 = "hw_position w"
  have c: "view ! range_start rng = h" using cells_at_Cons(4)[OF at] .
  obtain iter w1 where iter: "IterateOverRange Index8 ?qc k start w = (iter, w1)" by fastforce
  have big: "\<not> WSlice_Size ?p0 < 3 + 2 * index_size Index8 + oc_size k" using room by simp
  have st0: "rw_state ?qc k Index8 start ?p0 [] iter w1"
    using IterateOverRange_state[OF w, where it = Index8 and qc = ?qc and c = k and start = start] iter big by simp
  let ?conv = "\<lambda>v. the (oc_convert k v)"
  let ?st = "\<lambda>items i w'. rw_state ?qc k Index8 start ?p0 items i w' \<and> (\<exists>bs. wrote bs (hw_position w1) (hw_position w'))"
  let ?room = "\<lambda>items w. oc_size k \<le> WSlice_Size (hw_position w)"
  have good: "write_ok RangeWriteIterator_Write ?st ?conv ?room (index_mod Index8) v"
    if "writable_with (WithSerializer k) v" for v
    unfolding write_ok_def
  proof (intro allI impI)
    fix items i w'
    assume st: "?st items i w'"
    from that obtain fs where fs: "oc_convert k v = Some fs" "fields_size (map field_type fs) = oc_size k"
      by (auto simp: writable_with_def)
    note eff = RangeWriteIterator_Write_state[OF conjunct1[OF st] fs]
    show "if \<not> ?room items w' then RangeWriteIterator_Write v i w' = Some (i, w', False)
      else \<exists>i' w''. RangeWriteIterator_Write v i w' = Some (i', w'', True) \<and> ?st (items @ [?conv v]) i' w''"
    proof (cases "?room items w'")
      case True
      then obtain i' w'' where w'': "RangeWriteIterator_Write v i w' = Some (i', w'', True)"
        "rw_state ?qc k Index8 start ?p0 (items @ [fs]) i' w''" using eff by auto
      have "rw_serializer i = k" using st by (simp add: rw_state_def)
      from RangeWriteIterator_Write_wrote[OF w''(1) rw_state_ok[OF conjunct1[OF st]] this fs] st
      have "\<exists>bs. wrote bs (hw_position w1) (hw_position w'')" using wrote_trans by blast
      with w'' True fs(1) show ?thesis by simp
    next
      case False
      then show ?thesis using eff by simp
    qed
  qed
  have steps: "\<forall>c\<in>set (h # cs). sel_selected c \<longrightarrow> sel_variation c = sel_variation h
      \<longrightarrow> write_ok RangeWriteIterator_Write ?st ?conv ?room (index_mod Index8) (sel_value c)"
    using conv good by blast
  have st1: "?st [] iter w1" using st0 wrote_refl rw_state_ok[OF st0] by (auto simp: hw_ok_def)
  have "length [] + length (h # cs) \<le> index_mod Index8" using n by simp
  from LoadLoop_spec[OF at, where wr = RangeWriteIterator_Write and st = ?st and room = ?room, OF st1 steps this, of "cl_vIndex h"]
  obtain res where res: "LoadLoop RangeWriteIterator_Write (sel_variation h) (cl_vIndex h) view iter rng w1 = Some res"
    "cells_post ?st ?conv ?room ls (h # cs) rs (sel_variation h) (cl_vIndex h) [] res" by blast
  obtain view' iter' rng' w' ok where tuple: "res = (view', iter', rng', w', ok)" by (cases res)
  note loop = res[unfolded tuple]
  from loop(2) obtain xs ys where xs: "h # cs = xs @ ys" "cells_at view' rng' (ls @ map deselect xs) ys rs" "run (sel_variation h) (cl_vIndex h) xs"
    "rw_state ?qc k Index8 start ?p0 (map (?conv \<circ> sel_value) xs) iter' w'" "\<exists>bs. wrote bs (hw_position w1) (hw_position w')"
    "if ok then ys = [] \<or> \<not> continues (sel_variation h) (cl_vIndex h + of_nat (length xs)) (hd ys)
     else ys \<noteq> [] \<and> continues (sel_variation h) (cl_vIndex h + of_nat (length xs)) (hd ys) \<and> \<not> oc_size k \<le> WSlice_Size (hw_position w')"
    unfolding cells_post_def prod.case append_Nil by blast
  note st = xs(4)
  have size: "WSlice_Size (hw_position w') + (3 + 2 + length (concat (map fields_bytes (map (?conv \<circ> sel_value) xs)))) = WSlice_Size ?p0"
    using rw_state_Size[OF st] by simp
  have len: "length (concat (map fields_bytes (map (?conv \<circ> sel_value) xs))) = length xs * oc_size k"
  proof -
    have e: "length (fields_bytes (?conv (sel_value c))) = oc_size k" if "c \<in> set xs" for c
    proof -
      have "writable_with (WithSerializer k) (sel_value c)" using conv xs(1) that by simp
      then obtain fs where "oc_convert k (sel_value c) = Some fs" "fields_size (map field_type fs) = oc_size k"
        by (auto simp: writable_with_def)
      then show ?thesis by (simp only: option.sel length_fields_bytes)
    qed
    show ?thesis by (simp only: map_map, rule length_concat_const) (simp only: comp_def e)
  qed
  have nil: "ys = []"
  proof (rule ccontr)
    assume ne: "ys \<noteq> []"
    have short: "length xs < 256" using ne n xs(1) by (metis length_append length_greater_0_conv less_add_same_cancel1)
    have "continues (sel_variation h) (cl_vIndex h + of_nat (length xs)) (hd ys)"
      using run_next[OF all[unfolded xs(1)] ne] .
    then have bad: "\<not> oc_size k \<le> WSlice_Size (hw_position w')" using xs(6) ne by (cases ok) simp_all
    have "length xs * oc_size k + oc_size k \<le> 256 * oc_size k" using mult_le_mono1[of "Suc (length xs)" 256 "oc_size k"] short by simp
    then show False using room size[unfolded len] bad by linarith
  qed
  then have okt: "ok = True" using xs(6) by (cases ok) simp_all
  have xs': "xs = h # cs" using xs(1) nil by simp
  have dest: "RangeWriteIterator_destroy iter' w' = w'" by (rule RangeWriteIterator_destroy_wrapped[OF st]) (use n xs' in simp)
  from st obtain x where x: "length x = 1"
    "wrote (object_header (oc_id k) ?qc @ index_bytes Index8 start @ x @ concat (map fields_bytes (map (?conv \<circ> sel_value) xs))) ?p0 (hw_position w')"
    by (auto simp: rw_state_def)
  let ?i = "ws_position ?p0 + 4"
  have pos1: "ws_position (hw_position w1) = ws_position ?p0 + 5"
  proof -
    from st0 obtain x where "length x = 1" "wrote (object_header (oc_id k) ?qc @ index_bytes Index8 start @ x) ?p0 (hw_position w1)"
      by (auto simp: rw_state_def)
    from wrote_position[OF this(2)] this(1) show ?thesis by simp
  qed
  obtain bs where bs: "wrote bs (hw_position w1) (hw_position w')" using xs(5) by blast
  have "ws_buffer (hw_position w') ! ?i = ws_buffer (hw_position w1) ! ?i" by (rule wrote_keeps[OF bs]) (simp add: pos1)
  also have "\<dots> = ws_buffer ?p0 ! ?i" using IterateOverRange_keeps[OF w _ iter] big by (simp add: add.commute)
  finally have keep: "ws_buffer (hw_position w') ! ?i = ws_buffer ?p0 ! ?i" .
  have "ws_buffer (hw_position w') ! ?i = ws_written (hw_position w') ! ?i"
    using wrote_position[OF bs] pos1 by (simp add: ws_written_def)
  also have "\<dots> = hd x"
  proof -
    have "length (ws_written ?p0) = ws_position ?p0" using x(2) by (simp add: wrote_def length_ws_written)
    then show ?thesis using x by (cases x) (simp_all add: wrote_def nth_append)
  qed
  finally have "x = [ws_buffer ?p0 ! ?i]" using keep x(1) by (cases x) simp_all
  then have bytes: "wrote (object_header (oc_id k) ?qc @ index_bytes Index8 start @ [ws_buffer ?p0 ! ?i]
      @ concat (map fields_bytes (map (static_fields k) (h # cs)))) ?p0 (hw_position w')"
    using x(2) xs' by (simp add: static_fields_def comp_def)
  have "WriteWithSerializer_with Index8 ?qc k start view rng w = Some (view', rng', w', True)"
    using loop(1) dest okt by (simp add: WriteWithSerializer_with_def iter c)
  then show ?thesis using xs(2) xs' nil bytes by blast
qed


section \<open>The cells of a range\<close>

definition range_cells :: "('v, 'm) Cell list \<Rightarrow> Range \<Rightarrow> ('v, 'm) Cell list" where
  "range_cells view rng = take (Suc (range_stop rng) - range_start rng) (drop (range_start rng) view)"

lemma range_cells_at:
  assumes "Range_IsValid rng" "range_stop rng < length view"
  shows "cells_at view rng (take (range_start rng) view) (range_cells view rng) (drop (Suc (range_stop rng)) view)"
    "range_cells view rng \<noteq> []" "length (range_cells view rng) = Suc (range_stop rng) - range_start rng"
proof -
  have le: "range_start rng \<le> range_stop rng" using assms(1) by (simp add: Range_IsValid_iff)
  show len: "length (range_cells view rng) = Suc (range_stop rng) - range_start rng" using assms(2) le by (simp add: range_cells_def)
  show ne: "range_cells view rng \<noteq> []" using len le by auto
  have "drop (range_start rng) view = range_cells view rng @ drop (Suc (range_stop rng)) view"
    unfolding range_cells_def using le by (metis append_take_drop_id drop_drop le_SucI le_add_diff_inverse2)
  then have "view = take (range_start rng) view @ range_cells view rng @ drop (Suc (range_stop rng)) view" by (metis append_take_drop_id)
  then show "cells_at view rng (take (range_start rng) view) (range_cells view rng) (drop (Suc (range_stop rng)) view)"
    using ne len le assms(2) by (simp add: cells_at_def)
qed

text \<open>A value that can be written: of its type, and no NaN for an object with an integer.\<close>

definition int_writer :: "Measurement StaticWriter \<Rightarrow> bool" where
  "int_writer writer \<longleftrightarrow> (case writer of SingleBitfield gv val \<Rightarrow> False | WithSerializer k \<Rightarrow> int_valued k)"

definition loadable :: "EventType \<Rightarrow> MeasurementCell \<Rightarrow> bool" where
  "loadable t c \<longleftrightarrow> value_fits t (m_value (sel_value c)) \<and> \<not> (int_writer (GetStaticWriter t (sel_variation c)) \<and> NaN_value (sel_value c))"

lemma GetStaticWriter_objects: "GetStaticWriter t var = WithSerializer k \<Longrightarrow> (t, k) \<in> set objects"
  by (cases t) (auto simp: objects_members split: if_splits)

lemma loadable_writable:
  assumes "loadable t c"
  shows "writable_with (GetStaticWriter t (sel_variation c)) (sel_value c)"
proof (cases "GetStaticWriter t (sel_variation c)")
  case (SingleBitfield gv val)
  then show ?thesis by (simp add: writable_with_def)
next
  case (WithSerializer k)
  have ok: "object_ok t k" by (rule objects_ok[OF GetStaticWriter_objects[OF WithSerializer]])
  have fits: "value_fits t (m_value (sel_value c))" using assms by (simp add: loadable_def)
  have "\<not> (int_valued k \<and> NaN_value (sel_value c))" using assms by (simp add: loadable_def WithSerializer int_writer_def)
  then have "oc_convert k (sel_value c) \<noteq> None" using ok fits unfolding object_ok_def by blast
  then obtain fs where fs: "oc_convert k (sel_value c) = Some fs" by blast
  then have "map field_type fs = oc_fields k" "fields_size (oc_fields k) = oc_size k"
    using ok fits unfolding object_ok_def by blast+
  then have "fields_size (map field_type fs) = oc_size k" by (simp only:)
  with fs show ?thesis unfolding WithSerializer writable_with_def StaticWriter.case by blast
qed

lemma sorted_indices_length:
  assumes "sorted_wrt (<) (map cl_vIndex cs)" "cs \<noteq> []"
  shows "unat (cl_vIndex (hd cs)) + length cs \<le> Suc (unat (cl_vIndex (last cs)))"
  using assms
proof (induction cs)
  case (Cons c cs)
  show ?case
  proof (cases "cs = []")
    case False
    then have "cl_vIndex c < cl_vIndex (hd cs)" using Cons.prems(1) by (cases cs) auto
    then have "unat (cl_vIndex c) < unat (cl_vIndex (hd cs))" by (simp add: word_less_nat_alt)
    then show ?thesis using Cons False by simp
  qed simp
qed simp

lemma LoadType_Measured:
  "LoadType (Measured t) w db = map_option (\<lambda>(view, rng, w, ok).
     (db\<lparr>db_cells := (db_cells db)(t := view), db_ranges := (db_ranges db)(t := rng)\<rparr>, w, ok))
     (LoadTypeLoop (GetStaticWriter t) (db_cells db t) (db_ranges db t) w)"
  by (cases "LoadTypeLoop (GetStaticWriter t) (db_cells db t) (db_ranges db t) w") (simp_all add: LoadType_def on_type_def split: prod.splits)

lemma run_map:
  assumes "\<And>i. continues var (of_nat i) (f i)"
  shows "run var (of_nat k) (map f [k..<k + n])"
proof (induction n arbitrary: k)
  case (Suc n)
  have "run var (of_nat (Suc k)) (map f [Suc k..<Suc k + n])" by (rule Suc.IH)
  moreover have "[k..<k + Suc n] = k # [Suc k..<Suc k + n]" by (simp add: upt_conv_Cons del: upt_Suc)
  ultimately show ?case using assms[of k] by (simp add: add.commute[of _ 1] del: upt_Suc)
qed simp

lemma run_variation: "run var nxt cs \<Longrightarrow> c \<in> set cs \<Longrightarrow> sel_variation c = var"
  by (induction var nxt cs rule: run.induct) (auto simp: continues_def)

lemma run_last: "run var nxt (xs @ [c]) \<Longrightarrow> cl_vIndex c = nxt + of_nat (length xs)"
  using run_next[of var nxt xs "[c]"] by (simp add: continues_def)

section \<open>Properties\<close>

text \<open>
  \<^bold>\<open>C35\<close>.  Loading the selected values of a type into a response: the values of the range are written in the order of
  their indices, those not selected left out, with a header for every run of one variation and consecutive indices; the
  values written are deselected and no other value changes.  It stops early only at a selected value for which a header with
  one object does not fit, and the range then begins there.  All values have to be expressible, and the range must not be
  the whole of the indices 0 to 255.
\<close>

theorem LoadType_exact:
  fixes t :: EventType and db :: DatabaseBuffers and w :: HeaderWriter
  defines "view \<equiv> db_cells db t" and "rng \<equiv> db_ranges db t"
  defines "cells \<equiv> range_cells view rng" and "writer \<equiv> GetStaticWriter t"
  assumes "Range_IsValid rng" and "range_stop rng < length view" and "length view \<le> 65535"
    and "sorted_wrt (<) (map cl_vIndex view)" and "length cells = 256 \<Longrightarrow> 255 < cl_vIndex (last cells)"
    and "\<And>c. c \<in> set cells \<Longrightarrow> sel_selected c \<Longrightarrow> loadable t c" and "hw_ok w"
  shows "\<exists>n rng' w' ok. n \<le> length cells
    \<and> LoadType (Measured t) w db = Some (db\<lparr>
        db_cells := (db_cells db)(t := take (range_start rng) view @ map deselect (take n cells) @ drop n cells @ drop (Suc (range_stop rng)) view),
        db_ranges := (db_ranges db)(t := rng')\<rparr>, w', ok)
    \<and> ws_written (hw_position w') = ws_written (hw_position w) @ runs_bytes (header_index cells) writer (take n cells)
    \<and> (if ok then n = length cells \<and> \<not> Range_IsValid rng'
       else n < length cells \<and> sel_selected (cells ! n) \<and> range_start rng' = range_start rng + n \<and> range_stop rng' = range_stop rng
         \<and> WSlice_Size (hw_position w') < static_room (header_index cells) (writer (sel_variation (cells ! n))))"
proof -
  note at = range_cells_at[OF assms(5,6), folded cells_def]
  have sorted: "sorted_wrt (<) (map cl_vIndex cells)"
    unfolding cells_def range_cells_def take_map[symmetric] drop_map[symmetric] by (intro sorted_wrt_take sorted_wrt_drop assms(8))
  have "length cells < index_mod (header_index cells)"
  proof (cases "cl_vIndex (last cells) \<le> 255")
    case True
    then have "unat (cl_vIndex (last cells)) \<le> 255" by (simp add: word_le_nat_alt)
    moreover have "length cells \<noteq> 256" using assms(9) True by auto
    ultimately show ?thesis using sorted_indices_length[OF sorted at(2)] True by (simp add: header_index_def)
  next
    case False
    then show ?thesis using at(3) assms(6,7) by (simp add: header_index_def)
  qed
  with sorted have ix: "indexed cells" by (simp add: indexed_def)
  have wc: "writable_cells writer cells" using assms(10) loadable_writable by (simp add: writable_cells_def writer_def)
  from LoadTypeLoop_spec[OF at(1) assms(11) ix refl wc] obtain res where
    res: "LoadTypeLoop writer view rng w = Some res" "load_type_post (hw_position w) (header_index cells) writer (take (range_start rng) view) cells
      (drop (Suc (range_stop rng)) view) res" by blast
  obtain view' rng' w' ok where tuple: "res = (view', rng', w', ok)" by (cases res)
  from res(2) obtain xs ys where xs: "cells = xs @ ys"
    "cells_at view' rng' (take (range_start rng) view @ map deselect xs) ys (drop (Suc (range_stop rng)) view)"
    "wrote (runs_bytes (header_index cells) writer xs) (hw_position w) (hw_position w')"
    "if ok then ys = [] else ys \<noteq> [] \<and> sel_selected (hd ys)
       \<and> WSlice_Size (hw_position w') < static_room (header_index cells) (writer (sel_variation (hd ys)))"
    unfolding load_type_post_def tuple prod.case by blast
  have n: "take (length xs) cells = xs" "drop (length xs) cells = ys" using xs(1) by simp_all
  have view': "view' = take (range_start rng) view @ map deselect xs @ ys @ drop (Suc (range_stop rng)) view"
    using xs(2) by (simp add: cells_at_def)
  have load: "LoadType (Measured t) w db = Some (db\<lparr>db_cells := (db_cells db)(t := view'), db_ranges := (db_ranges db)(t := rng')\<rparr>, w', ok)"
    using res(1) by (simp add: LoadType_Measured tuple view_def rng_def writer_def)
  have bytes: "ws_written (hw_position w') = ws_written (hw_position w) @ runs_bytes (header_index cells) writer xs"
    using xs(3) by (simp add: wrote_def)
  have last: "if ok then length xs = length cells \<and> \<not> Range_IsValid rng'
       else length xs < length cells \<and> sel_selected (cells ! length xs) \<and> range_start rng' = range_start rng + length xs
         \<and> range_stop rng' = range_stop rng
         \<and> WSlice_Size (hw_position w') < static_room (header_index cells) (writer (sel_variation (cells ! length xs)))"
  proof (cases ok)
    case True
    then show ?thesis using xs(1,2,4) by (simp add: cells_at_def)
  next
    case False
    then have ys: "ys \<noteq> []" using xs(4) by simp
    have hd: "cells ! length xs = hd ys" using xs(1) ys by (simp add: nth_append hd_conv_nth)
    have le: "range_start rng \<le> range_stop rng" using assms(5) by (simp add: Range_IsValid_iff)
    have "range_start rng' = range_start rng + length xs" "range_stop rng' = range_stop rng"
      using xs(1,2) ys at(3) assms(6) le by (auto simp: cells_at_def)
    then show ?thesis using xs(1,4) False ys hd by simp
  qed
  show ?thesis
    by (rule exI[of _ "length xs"], rule exI[of _ rng'], rule exI[of _ w'], rule exI[of _ ok], unfold n)
      (use xs(1) load bytes last view' in simp)
qed


lemma LoadType_exact_witness:
  defines "c \<equiv> Cell_make \<lparr>m_value = UInt32Value 7, m_quality = 1, m_time = 0\<rparr> (GroupVar 20 1) (default_metadata ET_Counter)"
    and "w \<equiv> \<lparr>hw_position = WSlice_make (replicate 100 0), hw_mark = None\<rparr>"
  defines "db \<equiv> (DatabaseBuffers_make (\<lambda>_. 0) 0 0 Contiguous)\<lparr>
      db_cells := (\<lambda>_. [c, c\<lparr>cl_vIndex := 1, sel_selected := True\<rparr>]), db_ranges := (\<lambda>_. Range_From 0 1)\<rparr>"
  shows "\<exists>db' w' ok. LoadType (Measured ET_Counter) w db = Some (db', w', ok)"
proof -
  have cells: "range_cells (db_cells db ET_Counter) (db_ranges db ET_Counter) = [c, c\<lparr>cl_vIndex := 1, sel_selected := True\<rparr>]"
    by (simp add: db_def range_cells_def Range_From_def)
  have idx: "cl_vIndex c = 0" "\<not> sel_selected c" "sel_value c = \<lparr>m_value = UInt32Value 7, m_quality = 1, m_time = 0\<rparr>"
    by (simp_all add: c_def Cell_make_def)
  have view: "db_cells db ET_Counter = [c, c\<lparr>cl_vIndex := 1, sel_selected := True\<rparr>]" "db_ranges db ET_Counter = Range_From 0 1"
    by (simp_all add: db_def)
  have rng: "Range_IsValid (db_ranges db ET_Counter)" "range_stop (db_ranges db ET_Counter) < length (db_cells db ET_Counter)"
    "length (db_cells db ET_Counter) \<le> 65535" "sorted_wrt (<) (map cl_vIndex (db_cells db ET_Counter))"
    using idx by (simp_all add: view Range_From_def Range_IsValid_def)
  have load: "loadable ET_Counter c'" if "c' \<in> set [c, c\<lparr>cl_vIndex := 1, sel_selected := True\<rparr>]" for c'
    using that idx by (auto simp: loadable_def NaN_value_def)
  have "hw_ok w" by (simp add: hw_ok_def ws_ok_def w_def WSlice_make_def)
  from LoadType_exact[where t = ET_Counter and db = db and w = w, unfolded cells, OF rng _ load this]
  show ?thesis by auto
qed

text \<open>
  \<^bold>\<open>C36\<close>.  When the 256 values with the indices 0 to 255 are all selected with one variation and fit, they are written behind one
  header with indices of one octet, whose count of objects then wraps around to 0: the stop index is never written, and its
  place holds whatever the buffer held before.
\<close>

theorem stop_index_of_256_points:
  fixes t :: EventType and db :: DatabaseBuffers and w :: HeaderWriter
  defines "view \<equiv> db_cells db t" and "rng \<equiv> db_ranges db t"
  defines "cells \<equiv> range_cells view rng" and "stale \<equiv> ws_buffer (hw_position w) ! (ws_position (hw_position w) + 4)"
  assumes "Range_IsValid rng" and "range_stop rng < length view" and "run var 0 cells" and "length cells = 256"
    and "\<And>c. c \<in> set cells \<Longrightarrow> loadable t c" and "GetStaticWriter t var = WithSerializer k" and "hw_ok w"
    and "5 + 256 * oc_size k \<le> WSlice_Size (hw_position w)"
  shows "\<exists>db' w'. LoadType (Measured t) w db = Some (db', w', True)
    \<and> db_cells db' t = take (range_start rng) view @ map deselect cells @ drop (Suc (range_stop rng)) view
    \<and> ws_written (hw_position w') = ws_written (hw_position w)
        @ [fst (oc_id k), snd (oc_id k), 0x00, 0, stale] @ concat (map fields_bytes (map (static_fields k) cells))"
proof -
  note at = range_cells_at[OF assms(5,6), folded cells_def]
  obtain h cs where h: "cells = h # cs" using at(2) by (cases cells) auto
  have hd: "sel_selected h" "sel_variation h = var" "cl_vIndex h = 0" using assms(7) h by (simp_all add: continues_def)
  have var: "sel_variation c = var" if "c \<in> set cells" for c
    by (rule run_variation[OF assms(7) that])
  obtain xs c where snoc: "cells = xs @ [c]" using at(2) by (cases cells rule: rev_cases) auto
  have last: "cl_vIndex (last (h # cs)) = 255"
    using run_last[of var 0 xs c] assms(7,8) snoc h by simp
  have conv: "\<forall>c\<in>set (h # cs). writable_with (WithSerializer k) (sel_value c)"
    using loadable_writable assms(9,10) var h by metis
  have start: "range_start rng < length view" "view ! range_start rng = h" "view ! range_stop rng = last (h # cs)"
    using cells_at_Cons(2,4,5)[OF at(1)[unfolded h]] .
  from WriteWithSerializer_256[OF at(1)[unfolded h] assms(11) _ _ conv] obtain view' rng' w' where
    w': "WriteWithSerializer_with Index8 UINT8_START_STOP k (unat (cl_vIndex h)) view rng w = Some (view', rng', w', True)"
    "cells_at view' rng' (take (range_start rng) view @ map deselect (h # cs)) [] (drop (Suc (range_stop rng)) view)"
    "wrote (object_header (oc_id k) UINT8_START_STOP @ index_bytes Index8 (unat (cl_vIndex h)) @ [stale]
        @ concat (map fields_bytes (map (static_fields k) (h # cs)))) (hw_position w) (hw_position w')"
    using assms(7,8,12) h hd stale_def by auto
  have "WriteStatic (WithSerializer k) view rng w = Some (view', rng', w', True)"
    using start assms(6) w'(1) hd last
    by (simp add: WriteStatic_def Let_def Range_From_def Range_IsOneByte_def Range_IsValid_def)
  moreover have "\<not> Range_IsValid rng'" using w'(2) by (simp add: cells_at_def)
  ultimately have "LoadTypeLoop (GetStaticWriter t) view rng w = Some (view', rng', w', True)"
    using assms(5,10) start hd by (subst LoadTypeLoop.simps) (subst LoadTypeLoop.simps, simp add: Let_def)
  then have "LoadType (Measured t) w db = Some (db\<lparr>db_cells := (db_cells db)(t := view'), db_ranges := (db_ranges db)(t := rng')\<rparr>, w', True)"
    by (simp add: LoadType_Measured view_def rng_def)
  moreover have "view' = take (range_start rng) view @ map deselect cells @ drop (Suc (range_stop rng)) view"
    using w'(2) h by (simp add: cells_at_def)
  moreover have "ws_written (hw_position w') = ws_written (hw_position w)
      @ [fst (oc_id k), snd (oc_id k), 0x00, 0, stale] @ concat (map fields_bytes (map (static_fields k) cells))"
    using w'(3) hd h by (simp add: wrote_def object_header_def)
  ultimately show ?thesis by (intro exI conjI) (assumption, simp_all)
qed

lemma stop_index_of_256_points_witness:
  defines "c i \<equiv> (Cell_make \<lparr>m_value = BoolValue True, m_quality = 0x81, m_time = 0\<rparr> (GroupVar 1 2) (default_metadata ET_Binary))
      \<lparr>cl_vIndex := of_nat i, sel_selected := True\<rparr>"
    and "w \<equiv> \<lparr>hw_position = WSlice_make (replicate 2048 0), hw_mark = None\<rparr>"
  defines "db \<equiv> (DatabaseBuffers_make (\<lambda>_. 0) 0 0 Contiguous)\<lparr>
      db_cells := (\<lambda>_. map c [0..<256]), db_ranges := (\<lambda>_. Range_From 0 255)\<rparr>"
  shows "\<exists>db' w'. LoadType (Measured ET_Binary) w db = Some (db', w', True)
    \<and> take 5 (ws_written (hw_position w')) = [1, 2, 0, 0, 0]"
proof -
  have cells: "range_cells (db_cells db ET_Binary) (db_ranges db ET_Binary) = map c [0..<256]"
    by (simp add: db_def range_cells_def Range_From_def)
  have cont: "continues (GroupVar 1 2) (of_nat i) (c i)" for i by (simp add: continues_def c_def Cell_make_def)
  have run: "run (GroupVar 1 2) 0 (map c [0..<256])" using run_map[of "GroupVar 1 2" c 0 256, OF cont] by simp
  have load: "loadable ET_Binary c'" if "c' \<in> set (map c [0..<256])" for c'
    using that by (auto simp: loadable_def c_def Cell_make_def NaN_value_def)
  have ok: "Range_IsValid (db_ranges db ET_Binary)" "range_stop (db_ranges db ET_Binary) < length (db_cells db ET_Binary)"
    "hw_ok w" "5 + 256 * oc_size Group1Var2 \<le> WSlice_Size (hw_position w)"
    by (simp_all add: db_def Range_From_def Range_IsValid_def hw_ok_def ws_ok_def w_def WSlice_make_def WSlice_Size_def Group1Var2_def)
  have "length (map c [0..<256]) = 256" "GetStaticWriter ET_Binary (GroupVar 1 2) = WithSerializer Group1Var2"
    by (simp_all add: GroupVar_def)
  from stop_index_of_256_points[where t = ET_Binary and db = db and var = "GroupVar 1 2" and k = Group1Var2 and w = w, unfolded cells,
      OF ok(1,2) run this(1) load this(2) ok(3,4)]
  obtain db' w' bs where "LoadType (Measured ET_Binary) w db = Some (db', w', True)"
    "ws_written (hw_position w') = ws_written (hw_position w)
      @ [fst (oc_id Group1Var2), snd (oc_id Group1Var2), 0x00, 0, ws_buffer (hw_position w) ! (ws_position (hw_position w) + 4)] @ bs"
    by auto
  then show ?thesis by (intro exI conjI) (assumption, simp add: w_def WSlice_make_def ws_written_def Group1Var2_def)
qed

end
