(* ===== verification/AuthObjects.thy ===== *)
theory AuthObjects
  imports HeaderWriter
begin

text \<open>
  \<^verbatim>\<open>objects/Group120\<close>: the objects of secure authentication.  They have fields of a fixed size, fields with a prefix
  of two octets for their length (\<^verbatim>\<open>PrefixFields\<close>) and, most of them, a last field that takes the rest of the
  object.
\<close>

section \<open>Enumerations\<close>

datatype HMACType = NO_MAC_VALUE | HMAC_SHA1_TRUNC_10 | HMAC_SHA256_TRUNC_8 | HMAC_SHA256_TRUNC_16 | HMAC_SHA1_TRUNC_8
  | AES_GMAC | HMACType_UNKNOWN

fun HMACTypeToType :: "HMACType \<Rightarrow> uint8" where
  "HMACTypeToType NO_MAC_VALUE = 0x0" | "HMACTypeToType HMAC_SHA1_TRUNC_10 = 0x2"
| "HMACTypeToType HMAC_SHA256_TRUNC_8 = 0x3" | "HMACTypeToType HMAC_SHA256_TRUNC_16 = 0x4"
| "HMACTypeToType HMAC_SHA1_TRUNC_8 = 0x5" | "HMACTypeToType AES_GMAC = 0x6"
| "HMACTypeToType HMACType_UNKNOWN = 0xFF"

definition HMACTypeFromType :: "uint8 \<Rightarrow> HMACType" where
  "HMACTypeFromType arg =
     (if arg = 0x0 then NO_MAC_VALUE else if arg = 0x2 then HMAC_SHA1_TRUNC_10 else if arg = 0x3 then HMAC_SHA256_TRUNC_8
      else if arg = 0x4 then HMAC_SHA256_TRUNC_16 else if arg = 0x5 then HMAC_SHA1_TRUNC_8
      else if arg = 0x6 then AES_GMAC else HMACType_UNKNOWN)"

lemma HMACType_roundtrip [simp]: "HMACTypeFromType (HMACTypeToType x) = x"
  by (cases x) (simp_all add: HMACTypeFromType_def)

datatype ChallengeReason = CRITICAL | ChallengeReason_UNKNOWN

fun ChallengeReasonToType :: "ChallengeReason \<Rightarrow> uint8" where
  "ChallengeReasonToType CRITICAL = 0x1" | "ChallengeReasonToType ChallengeReason_UNKNOWN = 0xFF"

definition ChallengeReasonFromType :: "uint8 \<Rightarrow> ChallengeReason" where
  "ChallengeReasonFromType arg =
     (if arg = 0x1 then CRITICAL else ChallengeReason_UNKNOWN)"

lemma ChallengeReason_roundtrip [simp]: "ChallengeReasonFromType (ChallengeReasonToType x) = x"
  by (cases x) (simp_all add: ChallengeReasonFromType_def)

datatype KeyWrapAlgorithm = AES_128 | AES_256 | KeyWrapAlgorithm_UNDEFINED

fun KeyWrapAlgorithmToType :: "KeyWrapAlgorithm \<Rightarrow> uint8" where
  "KeyWrapAlgorithmToType AES_128 = 0x1" | "KeyWrapAlgorithmToType AES_256 = 0x2"
| "KeyWrapAlgorithmToType KeyWrapAlgorithm_UNDEFINED = 0x0"

definition KeyWrapAlgorithmFromType :: "uint8 \<Rightarrow> KeyWrapAlgorithm" where
  "KeyWrapAlgorithmFromType arg =
     (if arg = 0x1 then AES_128 else if arg = 0x2 then AES_256 else KeyWrapAlgorithm_UNDEFINED)"

lemma KeyWrapAlgorithm_roundtrip [simp]: "KeyWrapAlgorithmFromType (KeyWrapAlgorithmToType x) = x"
  by (cases x) (simp_all add: KeyWrapAlgorithmFromType_def)

datatype KeyStatus = KeyStatus_OK | NOT_INIT | COMM_FAIL | AUTH_FAIL | KeyStatus_UNDEFINED

fun KeyStatusToType :: "KeyStatus \<Rightarrow> uint8" where
  "KeyStatusToType KeyStatus_OK = 0x1" | "KeyStatusToType NOT_INIT = 0x2" | "KeyStatusToType COMM_FAIL = 0x3"
| "KeyStatusToType AUTH_FAIL = 0x4" | "KeyStatusToType KeyStatus_UNDEFINED = 0x0"

definition KeyStatusFromType :: "uint8 \<Rightarrow> KeyStatus" where
  "KeyStatusFromType arg =
     (if arg = 0x1 then KeyStatus_OK else if arg = 0x2 then NOT_INIT else if arg = 0x3 then COMM_FAIL
      else if arg = 0x4 then AUTH_FAIL else KeyStatus_UNDEFINED)"

lemma KeyStatus_roundtrip [simp]: "KeyStatusFromType (KeyStatusToType x) = x"
  by (cases x) (simp_all add: KeyStatusFromType_def)

datatype AuthErrorCode = AUTHENTICATION_FAILED | AGGRESSIVE_MODE_UNSUPPORTED | MAC_NOT_SUPPORTED
  | KEY_WRAP_NOT_SUPPORTED | AUTHORIZATION_FAILED | UPDATE_KEY_METHOD_NOT_PERMITTED | INVALID_SIGNATURE
  | INVALID_CERTIFICATION_DATA | UNKNOWN_USER | MAX_SESSION_KEY_STATUS_REQUESTS_EXCEEDED | AuthErrorCode_UNKNOWN

fun AuthErrorCodeToType :: "AuthErrorCode \<Rightarrow> uint8" where
  "AuthErrorCodeToType AUTHENTICATION_FAILED = 0x1" | "AuthErrorCodeToType AGGRESSIVE_MODE_UNSUPPORTED = 0x4"
| "AuthErrorCodeToType MAC_NOT_SUPPORTED = 0x5" | "AuthErrorCodeToType KEY_WRAP_NOT_SUPPORTED = 0x6"
| "AuthErrorCodeToType AUTHORIZATION_FAILED = 0x7" | "AuthErrorCodeToType UPDATE_KEY_METHOD_NOT_PERMITTED = 0x8"
| "AuthErrorCodeToType INVALID_SIGNATURE = 0x9" | "AuthErrorCodeToType INVALID_CERTIFICATION_DATA = 0xA"
| "AuthErrorCodeToType UNKNOWN_USER = 0xB" | "AuthErrorCodeToType MAX_SESSION_KEY_STATUS_REQUESTS_EXCEEDED = 0xC"
| "AuthErrorCodeToType AuthErrorCode_UNKNOWN = 0x0"

definition AuthErrorCodeFromType :: "uint8 \<Rightarrow> AuthErrorCode" where
  "AuthErrorCodeFromType arg =
     (if arg = 0x1 then AUTHENTICATION_FAILED else if arg = 0x4 then AGGRESSIVE_MODE_UNSUPPORTED
      else if arg = 0x5 then MAC_NOT_SUPPORTED else if arg = 0x6 then KEY_WRAP_NOT_SUPPORTED
      else if arg = 0x7 then AUTHORIZATION_FAILED else if arg = 0x8 then UPDATE_KEY_METHOD_NOT_PERMITTED
      else if arg = 0x9 then INVALID_SIGNATURE else if arg = 0xA then INVALID_CERTIFICATION_DATA
      else if arg = 0xB then UNKNOWN_USER else if arg = 0xC then MAX_SESSION_KEY_STATUS_REQUESTS_EXCEEDED else AuthErrorCode_UNKNOWN)"

lemma AuthErrorCode_roundtrip [simp]: "AuthErrorCodeFromType (AuthErrorCodeToType x) = x"
  by (cases x) (simp_all add: AuthErrorCodeFromType_def)

datatype KeyChangeMethod = AES_128_SHA1_HMAC | AES_256_SHA256_HMAC | AES_256_AES_GMAC | RSA_1024_DSA_SHA1_HMAC_SHA1
  | RSA_2048_DSA_SHA256_HMAC_SHA256 | RSA_3072_DSA_SHA256_HMAC_SHA256 | RSA_2048_DSA_SHA256_AES_GMAC
  | RSA_3072_DSA_SHA256_AES_GMAC | KeyChangeMethod_UNDEFINED

fun KeyChangeMethodToType :: "KeyChangeMethod \<Rightarrow> uint8" where
  "KeyChangeMethodToType AES_128_SHA1_HMAC = 0x3" | "KeyChangeMethodToType AES_256_SHA256_HMAC = 0x4"
| "KeyChangeMethodToType AES_256_AES_GMAC = 0x5" | "KeyChangeMethodToType RSA_1024_DSA_SHA1_HMAC_SHA1 = 0x43"
| "KeyChangeMethodToType RSA_2048_DSA_SHA256_HMAC_SHA256 = 0x44"
| "KeyChangeMethodToType RSA_3072_DSA_SHA256_HMAC_SHA256 = 0x45"
| "KeyChangeMethodToType RSA_2048_DSA_SHA256_AES_GMAC = 0x46"
| "KeyChangeMethodToType RSA_3072_DSA_SHA256_AES_GMAC = 0x47"
| "KeyChangeMethodToType KeyChangeMethod_UNDEFINED = 0x0"

definition KeyChangeMethodFromType :: "uint8 \<Rightarrow> KeyChangeMethod" where
  "KeyChangeMethodFromType arg =
     (if arg = 0x3 then AES_128_SHA1_HMAC else if arg = 0x4 then AES_256_SHA256_HMAC else if arg = 0x5 then AES_256_AES_GMAC
      else if arg = 0x43 then RSA_1024_DSA_SHA1_HMAC_SHA1 else if arg = 0x44 then RSA_2048_DSA_SHA256_HMAC_SHA256
      else if arg = 0x45 then RSA_3072_DSA_SHA256_HMAC_SHA256 else if arg = 0x46 then RSA_2048_DSA_SHA256_AES_GMAC
      else if arg = 0x47 then RSA_3072_DSA_SHA256_AES_GMAC else KeyChangeMethod_UNDEFINED)"

lemma KeyChangeMethod_roundtrip [simp]: "KeyChangeMethodFromType (KeyChangeMethodToType x) = x"
  by (cases x) (simp_all add: KeyChangeMethodFromType_def)

datatype CertificateType = ID_CERTIFICATE | ATTRIBUTE_CERTIFICATE | CertificateType_UNKNOWN

fun CertificateTypeToType :: "CertificateType \<Rightarrow> uint8" where
  "CertificateTypeToType ID_CERTIFICATE = 0x1" | "CertificateTypeToType ATTRIBUTE_CERTIFICATE = 0x2"
| "CertificateTypeToType CertificateType_UNKNOWN = 0x0"

definition CertificateTypeFromType :: "uint8 \<Rightarrow> CertificateType" where
  "CertificateTypeFromType arg =
     (if arg = 0x1 then ID_CERTIFICATE else if arg = 0x2 then ATTRIBUTE_CERTIFICATE else CertificateType_UNKNOWN)"

lemma CertificateType_roundtrip [simp]: "CertificateTypeFromType (CertificateTypeToType x) = x"
  by (cases x) (simp_all add: CertificateTypeFromType_def)

datatype UserOperation = OP_ADD | OP_DELETE | OP_CHANGE | OP_UNDEFINED

fun UserOperationToType :: "UserOperation \<Rightarrow> uint8" where
  "UserOperationToType OP_ADD = 0x1" | "UserOperationToType OP_DELETE = 0x2" | "UserOperationToType OP_CHANGE = 0x3"
| "UserOperationToType OP_UNDEFINED = 0xFF"

definition UserOperationFromType :: "uint8 \<Rightarrow> UserOperation" where
  "UserOperationFromType arg =
     (if arg = 0x1 then OP_ADD else if arg = 0x2 then OP_DELETE else if arg = 0x3 then OP_CHANGE else OP_UNDEFINED)"

lemma UserOperation_roundtrip [simp]: "UserOperationFromType (UserOperationToType x) = x"
  by (cases x) (simp_all add: UserOperationFromType_def)

section \<open>\<^verbatim>\<open>PrefixFields\<close>\<close>

fun ReadFields :: "nat list \<Rightarrow> bytes \<Rightarrow> bytes list \<times> bytes" where
  "ReadFields [] input = ([], input)"
| "ReadFields (n # ns) input = (case ReadFields ns (drop n input) of (outs, input') \<Rightarrow> (take n input # outs, input'))"

definition PrefixFields_Read :: "nat \<Rightarrow> bytes \<Rightarrow> (bytes list \<times> bytes) option" where
  "PrefixFields_Read n input =
     (if length input < 2 * n then None
      else let lengths = map (\<lambda>i. unat (Bit16LE_Read (drop (2 * i) input))) [0..<n]; input = drop (2 * n) input
        in if length input < sum_list lengths then None else Some (ReadFields lengths input))"

definition CopyTo :: "bytes \<Rightarrow> WSlice \<Rightarrow> WSlice" where
  "CopyTo data dest = (if WSlice_Size dest < length data then dest else WriteBuffer data dest)"

definition PrefixFields_Write :: "bytes list \<Rightarrow> WSlice \<Rightarrow> WSlice \<times> bool" where
  "PrefixFields_Write args dest =
     (if WSlice_Size dest < 2 * length args + sum_list (map length args) then (dest, False)
      else (fold CopyTo args (fold (\<lambda>f. WriteBuffer (Bit16LE_Write (of_nat (length f)))) args dest), True))"

definition LengthFitsInUInt16 :: "bytes list \<Rightarrow> bool" where
  "LengthFitsInUInt16 args = (\<forall>f\<in>set args. length f \<le> 65535)"

section \<open>The objects\<close>

datatype AuthObject =
    Group120Var1 uint32 uint16 HMACType ChallengeReason bytes
  | Group120Var2 uint32 uint16 bytes
  | Group120Var5 uint32 uint16 KeyWrapAlgorithm KeyStatus HMACType bytes bytes
  | Group120Var6 uint32 uint16 bytes
  | Group120Var7 uint32 uint16 uint16 AuthErrorCode uint64 bytes
  | Group120Var8 KeyChangeMethod CertificateType bytes
  | Group120Var9 bytes
  | Group120Var10 KeyChangeMethod UserOperation uint32 uint16 uint16 bytes bytes bytes
  | Group120Var11 KeyChangeMethod bytes bytes
  | Group120Var12 uint32 uint16 bytes
  | Group120Var13 uint32 uint16 bytes
  | Group120Var14 bytes
  | Group120Var15 bytes

text \<open>
  \<^verbatim>\<open>Read\<close>: the size is checked against \<^verbatim>\<open>MIN_SIZE\<close>, and the fields of fixed size are read.  \<^verbatim>\<open>Write\<close>: the fields of fixed
  size are written without further checks.
\<close>

definition read_fixed :: "nat \<Rightarrow> FieldType list \<Rightarrow> bytes \<Rightarrow> (Field list \<times> bytes) option" where
  "read_fixed min_size ts buffer = (if length buffer < min_size then None else Parse_Many ts buffer)"

definition write_fixed :: "Field list \<Rightarrow> WSlice \<Rightarrow> WSlice" where
  "write_fixed fs buffer = fold (\<lambda>f. WriteBuffer (field_bytes f)) fs buffer"

fun Group120Var1_Size :: "AuthObject \<Rightarrow> nat" where
  "Group120Var1_Size (Group120Var1 challengeSeqNum userNum hmacAlgo challengeReason challengeData) = 8 + length challengeData"
| "Group120Var1_Size _ = 0"

definition Group120Var1_Read :: "bytes \<Rightarrow> AuthObject option" where
  "Group120Var1_Read buffer =
     (case read_fixed 8 [U32, U16, U8, U8] buffer of
      Some ([FU32 challengeSeqNum, FU16 userNum, FU8 hmacAlgo, FU8 challengeReason], challengeData) \<Rightarrow>
        Some (Group120Var1 challengeSeqNum userNum (HMACTypeFromType hmacAlgo) (ChallengeReasonFromType challengeReason) challengeData)
      | _ \<Rightarrow> None)"

fun Group120Var1_Write :: "AuthObject \<Rightarrow> WSlice \<Rightarrow> WSlice \<times> bool" where
  "Group120Var1_Write (Group120Var1 challengeSeqNum userNum hmacAlgo challengeReason challengeData) buffer =
     (if Group120Var1_Size (Group120Var1 challengeSeqNum userNum hmacAlgo challengeReason challengeData) > WSlice_Size buffer
      then (buffer, False)
      else (CopyTo challengeData (write_fixed [FU32 challengeSeqNum, FU16 userNum, FU8 (HMACTypeToType hmacAlgo), FU8 (ChallengeReasonToType challengeReason)] buffer), True))"
| "Group120Var1_Write _ buffer = (buffer, False)"

fun Group120Var2_Size :: "AuthObject \<Rightarrow> nat" where
  "Group120Var2_Size (Group120Var2 challengeSeqNum userNum hmacValue) = 6 + length hmacValue"
| "Group120Var2_Size _ = 0"

definition Group120Var2_Read :: "bytes \<Rightarrow> AuthObject option" where
  "Group120Var2_Read buffer =
     (case read_fixed 6 [U32, U16] buffer of
      Some ([FU32 challengeSeqNum, FU16 userNum], hmacValue) \<Rightarrow>
        Some (Group120Var2 challengeSeqNum userNum hmacValue)
      | _ \<Rightarrow> None)"

fun Group120Var2_Write :: "AuthObject \<Rightarrow> WSlice \<Rightarrow> WSlice \<times> bool" where
  "Group120Var2_Write (Group120Var2 challengeSeqNum userNum hmacValue) buffer =
     (if Group120Var2_Size (Group120Var2 challengeSeqNum userNum hmacValue) > WSlice_Size buffer
      then (buffer, False)
      else (CopyTo hmacValue (write_fixed [FU32 challengeSeqNum, FU16 userNum] buffer), True))"
| "Group120Var2_Write _ buffer = (buffer, False)"

fun Group120Var5_Size :: "AuthObject \<Rightarrow> nat" where
  "Group120Var5_Size (Group120Var5 keyChangeSeqNum userNum keyWrapAlgo keyStatus hmacAlgo challengeData hmacValue) = 11 + length challengeData + length hmacValue"
| "Group120Var5_Size _ = 0"

definition Group120Var5_Read :: "bytes \<Rightarrow> AuthObject option" where
  "Group120Var5_Read buffer =
     (case read_fixed 11 [U32, U16, U8, U8, U8] buffer of
      Some ([FU32 keyChangeSeqNum, FU16 userNum, FU8 keyWrapAlgo, FU8 keyStatus, FU8 hmacAlgo], copy) \<Rightarrow>
        (case PrefixFields_Read 1 copy of
           Some ([challengeData], hmacValue) \<Rightarrow> Some (Group120Var5 keyChangeSeqNum userNum (KeyWrapAlgorithmFromType keyWrapAlgo) (KeyStatusFromType keyStatus) (HMACTypeFromType hmacAlgo) challengeData hmacValue)
         | _ \<Rightarrow> None)
      | _ \<Rightarrow> None)"

fun Group120Var5_Write :: "AuthObject \<Rightarrow> WSlice \<Rightarrow> WSlice \<times> bool" where
  "Group120Var5_Write (Group120Var5 keyChangeSeqNum userNum keyWrapAlgo keyStatus hmacAlgo challengeData hmacValue) buffer =
     (if Group120Var5_Size (Group120Var5 keyChangeSeqNum userNum keyWrapAlgo keyStatus hmacAlgo challengeData hmacValue) > WSlice_Size buffer
      then (buffer, False)
      else if \<not> LengthFitsInUInt16 [challengeData] then (buffer, False)
      else case PrefixFields_Write [challengeData]
          (write_fixed [FU32 keyChangeSeqNum, FU16 userNum, FU8 (KeyWrapAlgorithmToType keyWrapAlgo), FU8 (KeyStatusToType keyStatus), FU8 (HMACTypeToType hmacAlgo)] buffer) of
        (buffer, ok) \<Rightarrow> if \<not> ok then (buffer, False) else (CopyTo hmacValue buffer, True))"
| "Group120Var5_Write _ buffer = (buffer, False)"

fun Group120Var6_Size :: "AuthObject \<Rightarrow> nat" where
  "Group120Var6_Size (Group120Var6 keyChangeSeqNum userNum keyWrapData) = 6 + length keyWrapData"
| "Group120Var6_Size _ = 0"

definition Group120Var6_Read :: "bytes \<Rightarrow> AuthObject option" where
  "Group120Var6_Read buffer =
     (case read_fixed 6 [U32, U16] buffer of
      Some ([FU32 keyChangeSeqNum, FU16 userNum], keyWrapData) \<Rightarrow>
        Some (Group120Var6 keyChangeSeqNum userNum keyWrapData)
      | _ \<Rightarrow> None)"

fun Group120Var6_Write :: "AuthObject \<Rightarrow> WSlice \<Rightarrow> WSlice \<times> bool" where
  "Group120Var6_Write (Group120Var6 keyChangeSeqNum userNum keyWrapData) buffer =
     (if Group120Var6_Size (Group120Var6 keyChangeSeqNum userNum keyWrapData) > WSlice_Size buffer
      then (buffer, False)
      else (CopyTo keyWrapData (write_fixed [FU32 keyChangeSeqNum, FU16 userNum] buffer), True))"
| "Group120Var6_Write _ buffer = (buffer, False)"

fun Group120Var7_Size :: "AuthObject \<Rightarrow> nat" where
  "Group120Var7_Size (Group120Var7 challengeSeqNum userNum assocId errorCode tm errorText) = 15 + length errorText"
| "Group120Var7_Size _ = 0"

definition Group120Var7_Read :: "bytes \<Rightarrow> AuthObject option" where
  "Group120Var7_Read buffer =
     (case read_fixed 15 [U32, U16, U16, U8, U48] buffer of
      Some ([FU32 challengeSeqNum, FU16 userNum, FU16 assocId, FU8 errorCode, FU48 tm], errorText) \<Rightarrow>
        Some (Group120Var7 challengeSeqNum userNum assocId (AuthErrorCodeFromType errorCode) tm errorText)
      | _ \<Rightarrow> None)"

fun Group120Var7_Write :: "AuthObject \<Rightarrow> WSlice \<Rightarrow> WSlice \<times> bool" where
  "Group120Var7_Write (Group120Var7 challengeSeqNum userNum assocId errorCode tm errorText) buffer =
     (if Group120Var7_Size (Group120Var7 challengeSeqNum userNum assocId errorCode tm errorText) > WSlice_Size buffer
      then (buffer, False)
      else (CopyTo errorText (write_fixed [FU32 challengeSeqNum, FU16 userNum, FU16 assocId, FU8 (AuthErrorCodeToType errorCode), FU48 tm] buffer), True))"
| "Group120Var7_Write _ buffer = (buffer, False)"

fun Group120Var8_Size :: "AuthObject \<Rightarrow> nat" where
  "Group120Var8_Size (Group120Var8 keyChangeMethod certificateType certificate) = 2 + length certificate"
| "Group120Var8_Size _ = 0"

definition Group120Var8_Read :: "bytes \<Rightarrow> AuthObject option" where
  "Group120Var8_Read buffer =
     (case read_fixed 2 [U8, U8] buffer of
      Some ([FU8 keyChangeMethod, FU8 certificateType], certificate) \<Rightarrow>
        Some (Group120Var8 (KeyChangeMethodFromType keyChangeMethod) (CertificateTypeFromType certificateType) certificate)
      | _ \<Rightarrow> None)"

fun Group120Var8_Write :: "AuthObject \<Rightarrow> WSlice \<Rightarrow> WSlice \<times> bool" where
  "Group120Var8_Write (Group120Var8 keyChangeMethod certificateType certificate) buffer =
     (if Group120Var8_Size (Group120Var8 keyChangeMethod certificateType certificate) > WSlice_Size buffer
      then (buffer, False)
      else (CopyTo certificate (write_fixed [FU8 (KeyChangeMethodToType keyChangeMethod), FU8 (CertificateTypeToType certificateType)] buffer), True))"
| "Group120Var8_Write _ buffer = (buffer, False)"

fun Group120Var9_Size :: "AuthObject \<Rightarrow> nat" where
  "Group120Var9_Size (Group120Var9 hmacValue) = 0 + length hmacValue"
| "Group120Var9_Size _ = 0"

definition Group120Var9_Read :: "bytes \<Rightarrow> AuthObject option" where
  "Group120Var9_Read buffer = Some (Group120Var9 buffer)"

fun Group120Var9_Write :: "AuthObject \<Rightarrow> WSlice \<Rightarrow> WSlice \<times> bool" where
  "Group120Var9_Write (Group120Var9 hmacValue) buffer =
     (if Group120Var9_Size (Group120Var9 hmacValue) > WSlice_Size buffer
      then (buffer, False)
      else (CopyTo hmacValue buffer, True))"
| "Group120Var9_Write _ buffer = (buffer, False)"

fun Group120Var10_Size :: "AuthObject \<Rightarrow> nat" where
  "Group120Var10_Size (Group120Var10 keyChangeMethod userOperation statusChangeSeqNum userRole userRoleExpDays userName userPublicKey certificationData) = 16 + length userName + length userPublicKey + length certificationData"
| "Group120Var10_Size _ = 0"

definition Group120Var10_Read :: "bytes \<Rightarrow> AuthObject option" where
  "Group120Var10_Read buffer =
     (case read_fixed 16 [U8, U8, U32, U16, U16] buffer of
      Some ([FU8 keyChangeMethod, FU8 userOperation, FU32 statusChangeSeqNum, FU16 userRole, FU16 userRoleExpDays], copy) \<Rightarrow>
        (case PrefixFields_Read 3 copy of
           Some ([userName, userPublicKey, certificationData], copy) \<Rightarrow>
             if copy \<noteq> [] then None else Some (Group120Var10 (KeyChangeMethodFromType keyChangeMethod) (UserOperationFromType userOperation) statusChangeSeqNum userRole userRoleExpDays userName userPublicKey certificationData)
         | _ \<Rightarrow> None)
      | _ \<Rightarrow> None)"

fun Group120Var10_Write :: "AuthObject \<Rightarrow> WSlice \<Rightarrow> WSlice \<times> bool" where
  "Group120Var10_Write (Group120Var10 keyChangeMethod userOperation statusChangeSeqNum userRole userRoleExpDays userName userPublicKey certificationData) buffer =
     (if Group120Var10_Size (Group120Var10 keyChangeMethod userOperation statusChangeSeqNum userRole userRoleExpDays userName userPublicKey certificationData) > WSlice_Size buffer
      then (buffer, False)
      else if \<not> LengthFitsInUInt16 [userName, userPublicKey, certificationData] then (buffer, False)
      else PrefixFields_Write [userName, userPublicKey, certificationData]
          (write_fixed [FU8 (KeyChangeMethodToType keyChangeMethod), FU8 (UserOperationToType userOperation), FU32 statusChangeSeqNum, FU16 userRole, FU16 userRoleExpDays] buffer))"
| "Group120Var10_Write _ buffer = (buffer, False)"

fun Group120Var11_Size :: "AuthObject \<Rightarrow> nat" where
  "Group120Var11_Size (Group120Var11 keyChangeMethod userName challengeData) = 5 + length userName + length challengeData"
| "Group120Var11_Size _ = 0"

definition Group120Var11_Read :: "bytes \<Rightarrow> AuthObject option" where
  "Group120Var11_Read buffer =
     (case read_fixed 5 [U8] buffer of
      Some ([FU8 keyChangeMethod], copy) \<Rightarrow>
        (case PrefixFields_Read 2 copy of
           Some ([userName, challengeData], copy) \<Rightarrow>
             if copy \<noteq> [] then None else Some (Group120Var11 (KeyChangeMethodFromType keyChangeMethod) userName challengeData)
         | _ \<Rightarrow> None)
      | _ \<Rightarrow> None)"

fun Group120Var11_Write :: "AuthObject \<Rightarrow> WSlice \<Rightarrow> WSlice \<times> bool" where
  "Group120Var11_Write (Group120Var11 keyChangeMethod userName challengeData) buffer =
     (if Group120Var11_Size (Group120Var11 keyChangeMethod userName challengeData) > WSlice_Size buffer
      then (buffer, False)
      else if \<not> LengthFitsInUInt16 [userName, challengeData] then (buffer, False)
      else PrefixFields_Write [userName, challengeData]
          (write_fixed [FU8 (KeyChangeMethodToType keyChangeMethod)] buffer))"
| "Group120Var11_Write _ buffer = (buffer, False)"

fun Group120Var12_Size :: "AuthObject \<Rightarrow> nat" where
  "Group120Var12_Size (Group120Var12 keyChangeSeqNum userNum challengeData) = 8 + length challengeData"
| "Group120Var12_Size _ = 0"

definition Group120Var12_Read :: "bytes \<Rightarrow> AuthObject option" where
  "Group120Var12_Read buffer =
     (case read_fixed 8 [U32, U16] buffer of
      Some ([FU32 keyChangeSeqNum, FU16 userNum], copy) \<Rightarrow>
        (case PrefixFields_Read 1 copy of
           Some ([challengeData], copy) \<Rightarrow>
             if copy \<noteq> [] then None else Some (Group120Var12 keyChangeSeqNum userNum challengeData)
         | _ \<Rightarrow> None)
      | _ \<Rightarrow> None)"

fun Group120Var12_Write :: "AuthObject \<Rightarrow> WSlice \<Rightarrow> WSlice \<times> bool" where
  "Group120Var12_Write (Group120Var12 keyChangeSeqNum userNum challengeData) buffer =
     (if Group120Var12_Size (Group120Var12 keyChangeSeqNum userNum challengeData) > WSlice_Size buffer
      then (buffer, False)
      else if \<not> LengthFitsInUInt16 [challengeData] then (buffer, False)
      else PrefixFields_Write [challengeData]
          (write_fixed [FU32 keyChangeSeqNum, FU16 userNum] buffer))"
| "Group120Var12_Write _ buffer = (buffer, False)"

fun Group120Var13_Size :: "AuthObject \<Rightarrow> nat" where
  "Group120Var13_Size (Group120Var13 keyChangeSeqNum userNum encryptedUpdateKey) = 8 + length encryptedUpdateKey"
| "Group120Var13_Size _ = 0"

definition Group120Var13_Read :: "bytes \<Rightarrow> AuthObject option" where
  "Group120Var13_Read buffer =
     (case read_fixed 8 [U32, U16] buffer of
      Some ([FU32 keyChangeSeqNum, FU16 userNum], copy) \<Rightarrow>
        (case PrefixFields_Read 1 copy of
           Some ([encryptedUpdateKey], copy) \<Rightarrow>
             if copy \<noteq> [] then None else Some (Group120Var13 keyChangeSeqNum userNum encryptedUpdateKey)
         | _ \<Rightarrow> None)
      | _ \<Rightarrow> None)"

fun Group120Var13_Write :: "AuthObject \<Rightarrow> WSlice \<Rightarrow> WSlice \<times> bool" where
  "Group120Var13_Write (Group120Var13 keyChangeSeqNum userNum encryptedUpdateKey) buffer =
     (if Group120Var13_Size (Group120Var13 keyChangeSeqNum userNum encryptedUpdateKey) > WSlice_Size buffer
      then (buffer, False)
      else if \<not> LengthFitsInUInt16 [encryptedUpdateKey] then (buffer, False)
      else PrefixFields_Write [encryptedUpdateKey]
          (write_fixed [FU32 keyChangeSeqNum, FU16 userNum] buffer))"
| "Group120Var13_Write _ buffer = (buffer, False)"

fun Group120Var14_Size :: "AuthObject \<Rightarrow> nat" where
  "Group120Var14_Size (Group120Var14 digitalSignature) = 0 + length digitalSignature"
| "Group120Var14_Size _ = 0"

definition Group120Var14_Read :: "bytes \<Rightarrow> AuthObject option" where
  "Group120Var14_Read buffer = Some (Group120Var14 buffer)"

fun Group120Var14_Write :: "AuthObject \<Rightarrow> WSlice \<Rightarrow> WSlice \<times> bool" where
  "Group120Var14_Write (Group120Var14 digitalSignature) buffer =
     (if Group120Var14_Size (Group120Var14 digitalSignature) > WSlice_Size buffer
      then (buffer, False)
      else (CopyTo digitalSignature buffer, True))"
| "Group120Var14_Write _ buffer = (buffer, False)"

fun Group120Var15_Size :: "AuthObject \<Rightarrow> nat" where
  "Group120Var15_Size (Group120Var15 hmacValue) = 0 + length hmacValue"
| "Group120Var15_Size _ = 0"

definition Group120Var15_Read :: "bytes \<Rightarrow> AuthObject option" where
  "Group120Var15_Read buffer = Some (Group120Var15 buffer)"

fun Group120Var15_Write :: "AuthObject \<Rightarrow> WSlice \<Rightarrow> WSlice \<times> bool" where
  "Group120Var15_Write (Group120Var15 hmacValue) buffer =
     (if Group120Var15_Size (Group120Var15 hmacValue) > WSlice_Size buffer
      then (buffer, False)
      else (CopyTo hmacValue buffer, True))"
| "Group120Var15_Write _ buffer = (buffer, False)"

section \<open>The interface \<^verbatim>\<open>IVariableLength\<close>\<close>

fun AuthObject_variation :: "AuthObject \<Rightarrow> uint8" where
  "AuthObject_variation (Group120Var1 challengeSeqNum userNum hmacAlgo challengeReason challengeData) = 1"
| "AuthObject_variation (Group120Var2 challengeSeqNum userNum hmacValue) = 2"
| "AuthObject_variation (Group120Var5 keyChangeSeqNum userNum keyWrapAlgo keyStatus hmacAlgo challengeData hmacValue) = 5"
| "AuthObject_variation (Group120Var6 keyChangeSeqNum userNum keyWrapData) = 6"
| "AuthObject_variation (Group120Var7 challengeSeqNum userNum assocId errorCode tm errorText) = 7"
| "AuthObject_variation (Group120Var8 keyChangeMethod certificateType certificate) = 8"
| "AuthObject_variation (Group120Var9 hmacValue) = 9"
| "AuthObject_variation (Group120Var10 keyChangeMethod userOperation statusChangeSeqNum userRole userRoleExpDays userName userPublicKey certificationData) = 10"
| "AuthObject_variation (Group120Var11 keyChangeMethod userName challengeData) = 11"
| "AuthObject_variation (Group120Var12 keyChangeSeqNum userNum challengeData) = 12"
| "AuthObject_variation (Group120Var13 keyChangeSeqNum userNum encryptedUpdateKey) = 13"
| "AuthObject_variation (Group120Var14 digitalSignature) = 14"
| "AuthObject_variation (Group120Var15 hmacValue) = 15"

fun AuthObject_Size :: "AuthObject \<Rightarrow> nat" where
  "AuthObject_Size (Group120Var1 challengeSeqNum userNum hmacAlgo challengeReason challengeData) = Group120Var1_Size (Group120Var1 challengeSeqNum userNum hmacAlgo challengeReason challengeData)"
| "AuthObject_Size (Group120Var2 challengeSeqNum userNum hmacValue) = Group120Var2_Size (Group120Var2 challengeSeqNum userNum hmacValue)"
| "AuthObject_Size (Group120Var5 keyChangeSeqNum userNum keyWrapAlgo keyStatus hmacAlgo challengeData hmacValue) = Group120Var5_Size (Group120Var5 keyChangeSeqNum userNum keyWrapAlgo keyStatus hmacAlgo challengeData hmacValue)"
| "AuthObject_Size (Group120Var6 keyChangeSeqNum userNum keyWrapData) = Group120Var6_Size (Group120Var6 keyChangeSeqNum userNum keyWrapData)"
| "AuthObject_Size (Group120Var7 challengeSeqNum userNum assocId errorCode tm errorText) = Group120Var7_Size (Group120Var7 challengeSeqNum userNum assocId errorCode tm errorText)"
| "AuthObject_Size (Group120Var8 keyChangeMethod certificateType certificate) = Group120Var8_Size (Group120Var8 keyChangeMethod certificateType certificate)"
| "AuthObject_Size (Group120Var9 hmacValue) = Group120Var9_Size (Group120Var9 hmacValue)"
| "AuthObject_Size (Group120Var10 keyChangeMethod userOperation statusChangeSeqNum userRole userRoleExpDays userName userPublicKey certificationData) = Group120Var10_Size (Group120Var10 keyChangeMethod userOperation statusChangeSeqNum userRole userRoleExpDays userName userPublicKey certificationData)"
| "AuthObject_Size (Group120Var11 keyChangeMethod userName challengeData) = Group120Var11_Size (Group120Var11 keyChangeMethod userName challengeData)"
| "AuthObject_Size (Group120Var12 keyChangeSeqNum userNum challengeData) = Group120Var12_Size (Group120Var12 keyChangeSeqNum userNum challengeData)"
| "AuthObject_Size (Group120Var13 keyChangeSeqNum userNum encryptedUpdateKey) = Group120Var13_Size (Group120Var13 keyChangeSeqNum userNum encryptedUpdateKey)"
| "AuthObject_Size (Group120Var14 digitalSignature) = Group120Var14_Size (Group120Var14 digitalSignature)"
| "AuthObject_Size (Group120Var15 hmacValue) = Group120Var15_Size (Group120Var15 hmacValue)"

fun AuthObject_Write :: "AuthObject \<Rightarrow> WSlice \<Rightarrow> WSlice \<times> bool" where
  "AuthObject_Write (Group120Var1 challengeSeqNum userNum hmacAlgo challengeReason challengeData) buffer = Group120Var1_Write (Group120Var1 challengeSeqNum userNum hmacAlgo challengeReason challengeData) buffer"
| "AuthObject_Write (Group120Var2 challengeSeqNum userNum hmacValue) buffer = Group120Var2_Write (Group120Var2 challengeSeqNum userNum hmacValue) buffer"
| "AuthObject_Write (Group120Var5 keyChangeSeqNum userNum keyWrapAlgo keyStatus hmacAlgo challengeData hmacValue) buffer = Group120Var5_Write (Group120Var5 keyChangeSeqNum userNum keyWrapAlgo keyStatus hmacAlgo challengeData hmacValue) buffer"
| "AuthObject_Write (Group120Var6 keyChangeSeqNum userNum keyWrapData) buffer = Group120Var6_Write (Group120Var6 keyChangeSeqNum userNum keyWrapData) buffer"
| "AuthObject_Write (Group120Var7 challengeSeqNum userNum assocId errorCode tm errorText) buffer = Group120Var7_Write (Group120Var7 challengeSeqNum userNum assocId errorCode tm errorText) buffer"
| "AuthObject_Write (Group120Var8 keyChangeMethod certificateType certificate) buffer = Group120Var8_Write (Group120Var8 keyChangeMethod certificateType certificate) buffer"
| "AuthObject_Write (Group120Var9 hmacValue) buffer = Group120Var9_Write (Group120Var9 hmacValue) buffer"
| "AuthObject_Write (Group120Var10 keyChangeMethod userOperation statusChangeSeqNum userRole userRoleExpDays userName userPublicKey certificationData) buffer = Group120Var10_Write (Group120Var10 keyChangeMethod userOperation statusChangeSeqNum userRole userRoleExpDays userName userPublicKey certificationData) buffer"
| "AuthObject_Write (Group120Var11 keyChangeMethod userName challengeData) buffer = Group120Var11_Write (Group120Var11 keyChangeMethod userName challengeData) buffer"
| "AuthObject_Write (Group120Var12 keyChangeSeqNum userNum challengeData) buffer = Group120Var12_Write (Group120Var12 keyChangeSeqNum userNum challengeData) buffer"
| "AuthObject_Write (Group120Var13 keyChangeSeqNum userNum encryptedUpdateKey) buffer = Group120Var13_Write (Group120Var13 keyChangeSeqNum userNum encryptedUpdateKey) buffer"
| "AuthObject_Write (Group120Var14 digitalSignature) buffer = Group120Var14_Write (Group120Var14 digitalSignature) buffer"
| "AuthObject_Write (Group120Var15 hmacValue) buffer = Group120Var15_Write (Group120Var15 hmacValue) buffer"

definition AuthObject_Read :: "uint8 \<Rightarrow> bytes \<Rightarrow> AuthObject option" where
  "AuthObject_Read variation buffer =
     (if variation = 1 then Group120Var1_Read buffer
      else if variation = 2 then Group120Var2_Read buffer
      else if variation = 5 then Group120Var5_Read buffer
      else if variation = 6 then Group120Var6_Read buffer
      else if variation = 7 then Group120Var7_Read buffer
      else if variation = 8 then Group120Var8_Read buffer
      else if variation = 9 then Group120Var9_Read buffer
      else if variation = 10 then Group120Var10_Read buffer
      else if variation = 11 then Group120Var11_Read buffer
      else if variation = 12 then Group120Var12_Read buffer
      else if variation = 13 then Group120Var13_Read buffer
      else if variation = 14 then Group120Var14_Read buffer
      else if variation = 15 then Group120Var15_Read buffer
      else None)"

section \<open>What is written, and reading it back\<close>

lemma wrote_cong: "wrote a p q \<Longrightarrow> a = b \<Longrightarrow> wrote b p q"
  by simp

lemma write_fixed_wrote:
  assumes "ws_ok p" "fields_size (map field_type fs) \<le> WSlice_Size p"
  shows "wrote (fields_bytes fs) p (write_fixed fs p)"
  using assms
proof (induction fs arbitrary: p)
  case Nil
  then show ?case by (simp add: write_fixed_def wrote_refl)
next
  case (Cons f fs)
  have f: "wrote (field_bytes f) p (WriteBuffer (field_bytes f) p)" using Cons.prems by (intro wrote_WriteBuffer) simp_all
  have "wrote (fields_bytes fs) (WriteBuffer (field_bytes f) p) (write_fixed fs (WriteBuffer (field_bytes f) p))"
    using Cons.prems wrote_Size[OF f] f by (intro Cons.IH) (simp_all add: wrote_def)
  with f have "wrote (field_bytes f @ fields_bytes fs) p (write_fixed fs (WriteBuffer (field_bytes f) p))" by (rule wrote_trans)
  then show ?case by (simp add: write_fixed_def)
qed

lemma CopyTo_wrote: "ws_ok p \<Longrightarrow> length data \<le> WSlice_Size p \<Longrightarrow> wrote data p (CopyTo data p)"
  by (simp add: CopyTo_def wrote_WriteBuffer)

lemma fold_CopyTo_wrote:
  "ws_ok p \<Longrightarrow> sum_list (map length args) \<le> WSlice_Size p \<Longrightarrow> wrote (concat args) p (fold CopyTo args p)"
proof (induction args arbitrary: p)
  case Nil
  then show ?case by (simp add: wrote_refl)
next
  case (Cons a args)
  have a: "wrote a p (CopyTo a p)" using Cons.prems by (intro CopyTo_wrote) simp_all
  have "wrote (concat args) (CopyTo a p) (fold CopyTo args (CopyTo a p))"
    using Cons.prems wrote_Size[OF a] a by (intro Cons.IH) (simp_all add: wrote_def)
  from wrote_trans[OF a this] show ?case by simp
qed

definition prefix_bytes :: "bytes list \<Rightarrow> bytes" where
  "prefix_bytes args = concat (map (\<lambda>f. Bit16LE_Write (of_nat (length f))) args) @ concat args"

lemma length_prefix_bytes: "length (prefix_bytes args) = 2 * length args + sum_list (map length args)"
  by (simp add: prefix_bytes_def length_concat comp_def sum_list_triv)

lemma write_lengths_wrote:
  "ws_ok p \<Longrightarrow> 2 * length args \<le> WSlice_Size p \<Longrightarrow>
    wrote (concat (map (\<lambda>f. Bit16LE_Write (of_nat (length f))) args)) p (fold (\<lambda>f. WriteBuffer (Bit16LE_Write (of_nat (length f)))) args p)"
proof (induction args arbitrary: p)
  case Nil
  then show ?case by (simp add: wrote_refl)
next
  case (Cons a args)
  let ?q = "WriteBuffer (Bit16LE_Write (of_nat (length a))) p"
  have a: "wrote (Bit16LE_Write (of_nat (length a))) p ?q" using Cons.prems by (intro wrote_WriteBuffer) simp_all
  have "wrote (concat (map (\<lambda>f. Bit16LE_Write (of_nat (length f))) args)) ?q (fold (\<lambda>f. WriteBuffer (Bit16LE_Write (of_nat (length f)))) args ?q)"
    using Cons.prems wrote_Size[OF a] a by (intro Cons.IH) (simp_all add: wrote_def)
  from wrote_trans[OF a this] show ?case by simp
qed

lemma PrefixFields_Write_wrote:
  assumes "ws_ok p" "2 * length args + sum_list (map length args) \<le> WSlice_Size p"
  shows "snd (PrefixFields_Write args p)" "wrote (prefix_bytes args) p (fst (PrefixFields_Write args p))"
proof -
  let ?q = "fold (\<lambda>f. WriteBuffer (Bit16LE_Write (of_nat (length f)))) args p"
  have a: "wrote (concat (map (\<lambda>f. Bit16LE_Write (of_nat (length f))) args)) p ?q" by (rule write_lengths_wrote) (use assms in simp_all)
  have "length (concat (map (\<lambda>f. Bit16LE_Write (of_nat (length f) :: uint16)) args)) = 2 * length args"
    by (simp add: length_concat comp_def sum_list_triv)
  then have "wrote (concat args) ?q (fold CopyTo args ?q)"
    using assms wrote_Size[OF a] a by (intro fold_CopyTo_wrote) (simp_all add: wrote_def)
  with a have "wrote (prefix_bytes args) p (fold CopyTo args ?q)" unfolding prefix_bytes_def by (rule wrote_trans)
  then show "snd (PrefixFields_Write args p)" "wrote (prefix_bytes args) p (fst (PrefixFields_Write args p))"
    using assms(2) by (simp_all add: PrefixFields_Write_def)
qed

lemma ReadFields_concat: "ReadFields (map length args) (concat args @ rest) = (args, rest)"
  by (induction args) simp_all

lemma prefix_length:
  assumes "i < length args" "length (args ! i) \<le> 65535"
  shows "unat (Bit16LE_Read (drop (2 * i) (prefix_bytes args @ rest))) = length (args ! i)"
proof -
  have "concat (map (\<lambda>f. Bit16LE_Write (of_nat (length f))) args)
      = concat (map (\<lambda>f. Bit16LE_Write (of_nat (length f))) (take i args))
        @ Bit16LE_Write (of_nat (length (args ! i))) @ concat (map (\<lambda>f. Bit16LE_Write (of_nat (length f))) (drop (Suc i) args))"
    by (subst id_take_nth_drop[OF assms(1)]) (simp only: map_append list.map concat_append concat.simps)
  moreover have "length (concat (map (\<lambda>f. Bit16LE_Write (of_nat (length f) :: uint16)) (take i args))) = 2 * i"
    using assms(1) by (simp add: length_concat comp_def sum_list_triv)
  ultimately have "drop (2 * i) (prefix_bytes args @ rest)
      = Bit16LE_Write (of_nat (length (args ! i))) @ concat (map (\<lambda>f. Bit16LE_Write (of_nat (length f))) (drop (Suc i) args)) @ concat args @ rest"
    by (simp add: prefix_bytes_def)
  then show ?thesis using assms(2) by (simp add: Bit16LE_roundtrip unat_of_nat)
qed

lemma PrefixFields_Read_bytes:
  assumes "LengthFitsInUInt16 args"
  shows "PrefixFields_Read (length args) (prefix_bytes args @ rest) = Some (args, rest)"
proof -
  have "map (\<lambda>i. unat (Bit16LE_Read (drop (2 * i) (prefix_bytes args @ rest)))) [0..<length args] = map (\<lambda>i. length (args ! i)) [0..<length args]"
    using assms by (intro map_cong refl prefix_length) (simp_all add: LengthFitsInUInt16_def)
  also have "\<dots> = map length args" by (rule nth_equalityI) simp_all
  finally have lengths: "map (\<lambda>i. unat (Bit16LE_Read (drop (2 * i) (prefix_bytes args @ rest)))) [0..<length args] = map length args" .
  have "drop (2 * length args) (prefix_bytes args @ rest) = concat args @ rest"
    by (simp add: prefix_bytes_def length_concat comp_def sum_list_triv)
  then show ?thesis
    unfolding PrefixFields_Read_def lengths Let_def
    by (simp add: length_prefix_bytes ReadFields_concat length_concat)
qed

lemma read_fixed_bytes:
  assumes "\<forall>f\<in>set fs. field_ok f" "min_size \<le> fields_size (map field_type fs) + length rest"
  shows "read_fixed min_size (map field_type fs) (fields_bytes fs @ rest) = Some (fs, rest)"
  using Parse_Many_fields[OF assms(1), of rest] assms(2) by (simp add: read_fixed_def)

lemma write_parts:
  assumes "ws_ok p" "fields_size (map field_type fs) + length (prefix_bytes args) + length rest \<le> WSlice_Size p"
  shows "wrote (fields_bytes fs @ prefix_bytes args) p (fst (PrefixFields_Write args (write_fixed fs p)))"
    and "snd (PrefixFields_Write args (write_fixed fs p))"
    and "wrote (fields_bytes fs @ prefix_bytes args @ rest) p (CopyTo rest (fst (PrefixFields_Write args (write_fixed fs p))))"
proof -
  have f: "wrote (fields_bytes fs) p (write_fixed fs p)" by (rule write_fixed_wrote) (use assms in simp_all)
  have size: "2 * length args + sum_list (map length args) \<le> WSlice_Size (write_fixed fs p)"
    using assms(2) wrote_Size[OF f] by (simp add: length_prefix_bytes length_fields_bytes)
  have ok: "ws_ok (write_fixed fs p)" using f by (simp add: wrote_def)
  note pre = PrefixFields_Write_wrote[OF ok size]
  show a: "wrote (fields_bytes fs @ prefix_bytes args) p (fst (PrefixFields_Write args (write_fixed fs p)))"
    by (rule wrote_trans[OF f pre(2)])
  show "snd (PrefixFields_Write args (write_fixed fs p))" by (rule pre(1))
  have "wrote rest (fst (PrefixFields_Write args (write_fixed fs p))) (CopyTo rest (fst (PrefixFields_Write args (write_fixed fs p))))"
    by (rule CopyTo_wrote) (use a assms(2) wrote_Size[OF a] in \<open>simp_all add: wrote_def length_fields_bytes\<close>)
  from wrote_trans[OF a this]
  show "wrote (fields_bytes fs @ prefix_bytes args @ rest) p (CopyTo rest (fst (PrefixFields_Write args (write_fixed fs p))))" by simp
qed

text \<open>Every object as its fields of fixed size, its prefixed fields and the last one.\<close>

fun auth_fixed :: "AuthObject \<Rightarrow> Field list" where
  "auth_fixed (Group120Var1 a b c d z) = [FU32 a, FU16 b, FU8 (HMACTypeToType c), FU8 (ChallengeReasonToType d)]"
| "auth_fixed (Group120Var2 a b z) = [FU32 a, FU16 b]"
| "auth_fixed (Group120Var5 a b c d e x z) = [FU32 a, FU16 b, FU8 (KeyWrapAlgorithmToType c), FU8 (KeyStatusToType d), FU8 (HMACTypeToType e)]"
| "auth_fixed (Group120Var6 a b z) = [FU32 a, FU16 b]"
| "auth_fixed (Group120Var7 a b c d e z) = [FU32 a, FU16 b, FU16 c, FU8 (AuthErrorCodeToType d), FU48 e]"
| "auth_fixed (Group120Var8 a b z) = [FU8 (KeyChangeMethodToType a), FU8 (CertificateTypeToType b)]"
| "auth_fixed (Group120Var9 z) = []"
| "auth_fixed (Group120Var10 a b c d e x y z) = [FU8 (KeyChangeMethodToType a), FU8 (UserOperationToType b), FU32 c, FU16 d, FU16 e]"
| "auth_fixed (Group120Var11 a x y) = [FU8 (KeyChangeMethodToType a)]"
| "auth_fixed (Group120Var12 a b x) = [FU32 a, FU16 b]"
| "auth_fixed (Group120Var13 a b x) = [FU32 a, FU16 b]"
| "auth_fixed (Group120Var14 z) = []"
| "auth_fixed (Group120Var15 z) = []"

fun auth_prefixed :: "AuthObject \<Rightarrow> bytes list" where
  "auth_prefixed (Group120Var1 a b c d z) = []"
| "auth_prefixed (Group120Var2 a b z) = []"
| "auth_prefixed (Group120Var5 a b c d e x z) = [x]"
| "auth_prefixed (Group120Var6 a b z) = []"
| "auth_prefixed (Group120Var7 a b c d e z) = []"
| "auth_prefixed (Group120Var8 a b z) = []"
| "auth_prefixed (Group120Var9 z) = []"
| "auth_prefixed (Group120Var10 a b c d e x y z) = [x, y, z]"
| "auth_prefixed (Group120Var11 a x y) = [x, y]"
| "auth_prefixed (Group120Var12 a b x) = [x]"
| "auth_prefixed (Group120Var13 a b x) = [x]"
| "auth_prefixed (Group120Var14 z) = []"
| "auth_prefixed (Group120Var15 z) = []"

fun auth_last :: "AuthObject \<Rightarrow> bytes" where
  "auth_last (Group120Var1 a b c d z) = z"
| "auth_last (Group120Var2 a b z) = z"
| "auth_last (Group120Var5 a b c d e x z) = z"
| "auth_last (Group120Var6 a b z) = z"
| "auth_last (Group120Var7 a b c d e z) = z"
| "auth_last (Group120Var8 a b z) = z"
| "auth_last (Group120Var9 z) = z"
| "auth_last (Group120Var10 a b c d e x y z) = []"
| "auth_last (Group120Var11 a x y) = []"
| "auth_last (Group120Var12 a b x) = []"
| "auth_last (Group120Var13 a b x) = []"
| "auth_last (Group120Var14 z) = z"
| "auth_last (Group120Var15 z) = z"

definition auth_bytes :: "AuthObject \<Rightarrow> bytes" where
  "auth_bytes o1 = fields_bytes (auth_fixed o1) @ prefix_bytes (auth_prefixed o1) @ auth_last o1"

definition auth_ok :: "AuthObject \<Rightarrow> bool" where
  "auth_ok o1 \<longleftrightarrow> (\<forall>f\<in>set (auth_fixed o1). field_ok f) \<and> LengthFitsInUInt16 (auth_prefixed o1)"

lemma PrefixFields_Write_Nil: "PrefixFields_Write [] p = (p, True)"
  by (simp add: PrefixFields_Write_def)

lemma ex_ok_pair: "(\<exists>q. x = (q, True) \<and> P q) \<longleftrightarrow> snd x \<and> P (fst x)"
  by (cases x) auto

lemma length_Bit32LE_Write [simp]: "length (Bit32LE_Write v) = 4"
  by (simp add: Bit32LE_Write_def)

lemma AuthObject_Size_bytes: "AuthObject_Size o1 = length (auth_bytes o1)"
  by (cases o1) (simp_all add: auth_bytes_def length_prefix_bytes length_fields_bytes)

lemma AuthObject_Write_bytes:
  assumes "ws_ok p" "auth_ok o1" "AuthObject_Size o1 \<le> WSlice_Size p"
  shows "\<exists>q. AuthObject_Write o1 p = (q, True) \<and> wrote (auth_bytes o1) p q"
proof -
  have "fields_size (map field_type (auth_fixed o1)) + length (prefix_bytes (auth_prefixed o1)) + length (auth_last o1) \<le> WSlice_Size p"
    using assms(3) by (simp add: AuthObject_Size_bytes auth_bytes_def length_fields_bytes)
  from write_parts[OF assms(1) this] show ?thesis using assms
    by (cases o1) (simp_all add: auth_bytes_def auth_ok_def case_prod_beta ex_ok_pair PrefixFields_Write_Nil write_fixed_def prefix_bytes_def)
qed

lemma AuthObject_Read_bytes:
  assumes "auth_ok o1"
  shows "AuthObject_Read (AuthObject_variation o1) (auth_bytes o1) = Some o1"
proof -
  have f: "min_size \<le> length (auth_bytes o1) \<Longrightarrow> read_fixed min_size (map field_type (auth_fixed o1)) (auth_bytes o1) = Some (auth_fixed o1, prefix_bytes (auth_prefixed o1) @ auth_last o1)" for min_size
    unfolding auth_bytes_def by (rule read_fixed_bytes) (use assms in \<open>simp_all add: auth_ok_def length_fields_bytes\<close>)
  have p: "n = length (auth_prefixed o1) \<Longrightarrow> PrefixFields_Read n (prefix_bytes (auth_prefixed o1) @ auth_last o1) = Some (auth_prefixed o1, auth_last o1)" for n
    by (simp only:, rule PrefixFields_Read_bytes) (use assms in \<open>simp add: auth_ok_def\<close>)
  have l: "length (auth_bytes o1) = fields_size (map field_type (auth_fixed o1)) + 2 * length (auth_prefixed o1) + sum_list (map length (auth_prefixed o1)) + length (auth_last o1)"
    by (simp add: auth_bytes_def length_prefix_bytes length_fields_bytes)
  show ?thesis
  proof (cases o1)
    case (Group120Var9 z)
    then show ?thesis by (simp add: AuthObject_Read_def Group120Var9_Read_def auth_bytes_def prefix_bytes_def)
  next
    case (Group120Var14 z)
    then show ?thesis by (simp add: AuthObject_Read_def Group120Var14_Read_def auth_bytes_def prefix_bytes_def)
  next
    case (Group120Var15 z)
    then show ?thesis by (simp add: AuthObject_Read_def Group120Var15_Read_def auth_bytes_def prefix_bytes_def)
  next
    case (Group120Var1 a b c d z)
    with f[of 8] p l show ?thesis by (simp add: AuthObject_Read_def Group120Var1_Read_def prefix_bytes_def)
  next
    case (Group120Var2 a b z)
    with f[of 6] p l show ?thesis by (simp add: AuthObject_Read_def Group120Var2_Read_def prefix_bytes_def)
  next
    case (Group120Var5 a b c d e x z)
    with f[of 11] p[of 1] l show ?thesis by (simp add: AuthObject_Read_def Group120Var5_Read_def)
  next
    case (Group120Var6 a b z)
    with f[of 6] p l show ?thesis by (simp add: AuthObject_Read_def Group120Var6_Read_def prefix_bytes_def)
  next
    case (Group120Var7 a b c d e z)
    with f[of 15] p l show ?thesis by (simp add: AuthObject_Read_def Group120Var7_Read_def prefix_bytes_def)
  next
    case (Group120Var8 a b z)
    with f[of 2] p l show ?thesis by (simp add: AuthObject_Read_def Group120Var8_Read_def prefix_bytes_def)
  next
    case (Group120Var10 a b c d e x y z)
    with f[of 16] p[of 3] l show ?thesis by (simp add: AuthObject_Read_def Group120Var10_Read_def)
  next
    case (Group120Var11 a x y)
    with f[of 5] p[of 2] l show ?thesis by (simp add: AuthObject_Read_def Group120Var11_Read_def)
  next
    case (Group120Var12 a b x)
    with f[of 8] p[of 1] l show ?thesis by (simp add: AuthObject_Read_def Group120Var12_Read_def)
  next
    case (Group120Var13 a b x)
    with f[of 8] p[of 1] l show ?thesis by (simp add: AuthObject_Read_def Group120Var13_Read_def)
  qed
qed

end
