(* ===== verification/AppHeader.thy ===== *)
theory AppHeader
  imports AuthObjects
begin

text \<open>
  The header of an APDU: function code, control octet, internal indications; the wrappers \<^verbatim>\<open>APDURequest\<close> and
  \<^verbatim>\<open>APDUResponse\<close> around the buffer an APDU is written into; the requests and responses of \<^verbatim>\<open>app/APDUBuilders\<close>.
\<close>

section \<open>\<^verbatim>\<open>FunctionCode\<close>\<close>

datatype FunctionCode = FC_CONFIRM | FC_READ | FC_WRITE | FC_SELECT | FC_OPERATE | FC_DIRECT_OPERATE
  | FC_DIRECT_OPERATE_NR | FC_IMMED_FREEZE | FC_IMMED_FREEZE_NR | FC_FREEZE_CLEAR | FC_FREEZE_CLEAR_NR | FC_FREEZE_AT_TIME
  | FC_FREEZE_AT_TIME_NR | FC_COLD_RESTART | FC_WARM_RESTART | FC_INITIALIZE_DATA | FC_INITIALIZE_APPLICATION | FC_START_APPLICATION
  | FC_STOP_APPLICATION | FC_SAVE_CONFIGURATION | FC_ENABLE_UNSOLICITED | FC_DISABLE_UNSOLICITED | FC_ASSIGN_CLASS | FC_DELAY_MEASURE
  | FC_RECORD_CURRENT_TIME | FC_OPEN_FILE | FC_CLOSE_FILE | FC_DELETE_FILE | FC_GET_FILE_INFO | FC_AUTHENTICATE_FILE
  | FC_ABORT_FILE | FC_AUTH_REQUEST | FC_AUTH_REQUEST_NO_ACK | FC_RESPONSE | FC_UNSOLICITED_RESPONSE | FC_AUTH_RESPONSE
  | FC_UNKNOWN

fun FunctionCodeToType :: "FunctionCode \<Rightarrow> uint8" where
  "FunctionCodeToType FC_CONFIRM = 0x0" | "FunctionCodeToType FC_READ = 0x1" | "FunctionCodeToType FC_WRITE = 0x2"
| "FunctionCodeToType FC_SELECT = 0x3" | "FunctionCodeToType FC_OPERATE = 0x4" | "FunctionCodeToType FC_DIRECT_OPERATE = 0x5"
| "FunctionCodeToType FC_DIRECT_OPERATE_NR = 0x6" | "FunctionCodeToType FC_IMMED_FREEZE = 0x7" | "FunctionCodeToType FC_IMMED_FREEZE_NR = 0x8"
| "FunctionCodeToType FC_FREEZE_CLEAR = 0x9" | "FunctionCodeToType FC_FREEZE_CLEAR_NR = 0xA" | "FunctionCodeToType FC_FREEZE_AT_TIME = 0xB"
| "FunctionCodeToType FC_FREEZE_AT_TIME_NR = 0xC" | "FunctionCodeToType FC_COLD_RESTART = 0xD" | "FunctionCodeToType FC_WARM_RESTART = 0xE"
| "FunctionCodeToType FC_INITIALIZE_DATA = 0xF" | "FunctionCodeToType FC_INITIALIZE_APPLICATION = 0x10" | "FunctionCodeToType FC_START_APPLICATION = 0x11"
| "FunctionCodeToType FC_STOP_APPLICATION = 0x12" | "FunctionCodeToType FC_SAVE_CONFIGURATION = 0x13" | "FunctionCodeToType FC_ENABLE_UNSOLICITED = 0x14"
| "FunctionCodeToType FC_DISABLE_UNSOLICITED = 0x15" | "FunctionCodeToType FC_ASSIGN_CLASS = 0x16" | "FunctionCodeToType FC_DELAY_MEASURE = 0x17"
| "FunctionCodeToType FC_RECORD_CURRENT_TIME = 0x18" | "FunctionCodeToType FC_OPEN_FILE = 0x19" | "FunctionCodeToType FC_CLOSE_FILE = 0x1A"
| "FunctionCodeToType FC_DELETE_FILE = 0x1B" | "FunctionCodeToType FC_GET_FILE_INFO = 0x1C" | "FunctionCodeToType FC_AUTHENTICATE_FILE = 0x1D"
| "FunctionCodeToType FC_ABORT_FILE = 0x1E" | "FunctionCodeToType FC_AUTH_REQUEST = 0x20" | "FunctionCodeToType FC_AUTH_REQUEST_NO_ACK = 0x21"
| "FunctionCodeToType FC_RESPONSE = 0x81" | "FunctionCodeToType FC_UNSOLICITED_RESPONSE = 0x82" | "FunctionCodeToType FC_AUTH_RESPONSE = 0x83"
| "FunctionCodeToType FC_UNKNOWN = 0xFF"

definition FunctionCodeFromType :: "uint8 \<Rightarrow> FunctionCode" where
  "FunctionCodeFromType arg =
     (if arg = 0x0 then FC_CONFIRM else if arg = 0x1 then FC_READ else if arg = 0x2 then FC_WRITE else
      if arg = 0x3 then FC_SELECT else if arg = 0x4 then FC_OPERATE else if arg = 0x5 then FC_DIRECT_OPERATE else
      if arg = 0x6 then FC_DIRECT_OPERATE_NR else if arg = 0x7 then FC_IMMED_FREEZE else if arg = 0x8 then FC_IMMED_FREEZE_NR else
      if arg = 0x9 then FC_FREEZE_CLEAR else if arg = 0xA then FC_FREEZE_CLEAR_NR else if arg = 0xB then FC_FREEZE_AT_TIME else
      if arg = 0xC then FC_FREEZE_AT_TIME_NR else if arg = 0xD then FC_COLD_RESTART else if arg = 0xE then FC_WARM_RESTART else
      if arg = 0xF then FC_INITIALIZE_DATA else if arg = 0x10 then FC_INITIALIZE_APPLICATION else if arg = 0x11 then FC_START_APPLICATION else
      if arg = 0x12 then FC_STOP_APPLICATION else if arg = 0x13 then FC_SAVE_CONFIGURATION else if arg = 0x14 then FC_ENABLE_UNSOLICITED else
      if arg = 0x15 then FC_DISABLE_UNSOLICITED else if arg = 0x16 then FC_ASSIGN_CLASS else if arg = 0x17 then FC_DELAY_MEASURE else
      if arg = 0x18 then FC_RECORD_CURRENT_TIME else if arg = 0x19 then FC_OPEN_FILE else if arg = 0x1A then FC_CLOSE_FILE else
      if arg = 0x1B then FC_DELETE_FILE else if arg = 0x1C then FC_GET_FILE_INFO else if arg = 0x1D then FC_AUTHENTICATE_FILE else
      if arg = 0x1E then FC_ABORT_FILE else if arg = 0x20 then FC_AUTH_REQUEST else if arg = 0x21 then FC_AUTH_REQUEST_NO_ACK else
      if arg = 0x81 then FC_RESPONSE else if arg = 0x82 then FC_UNSOLICITED_RESPONSE else if arg = 0x83 then FC_AUTH_RESPONSE else
      FC_UNKNOWN)"

lemma FunctionCode_roundtrip [simp]: "FunctionCodeFromType (FunctionCodeToType fc) = fc"
  by (cases fc) (simp_all add: FunctionCodeFromType_def)

definition IsNoAckFuncCode :: "FunctionCode \<Rightarrow> bool" where
  "IsNoAckFuncCode code =
     (case code of FC_DIRECT_OPERATE_NR \<Rightarrow> True | FC_IMMED_FREEZE_NR \<Rightarrow> True | FC_FREEZE_AT_TIME_NR \<Rightarrow> True
      | FC_FREEZE_CLEAR_NR \<Rightarrow> True | _ \<Rightarrow> False)"

section \<open>\<^verbatim>\<open>AppSeqNum\<close> and \<^verbatim>\<open>AppControlField\<close>\<close>

text \<open>\<^verbatim>\<open>openpal::SequenceNum<uint8_t, 16>\<close> is its number; the sum is computed in \<^verbatim>\<open>int\<close>.\<close>

type_synonym AppSeqNum = uint8

definition AppSeqNum_Next :: "AppSeqNum \<Rightarrow> AppSeqNum" where
  "AppSeqNum_Next seq = word_of_nat ((unat seq + 1) mod 16)"

definition AppSeqNum_Equals :: "AppSeqNum \<Rightarrow> uint8 \<Rightarrow> bool" where
  "AppSeqNum_Equals seq other = (other = seq)"

record AppControlField =
  FIR :: bool
  FIN :: bool
  CON :: bool
  UNS :: bool
  SEQ :: uint8

definition AppControlField_make :: "bool \<Rightarrow> bool \<Rightarrow> bool \<Rightarrow> bool \<Rightarrow> uint8 \<Rightarrow> AppControlField" where
  "AppControlField_make fir fin con uns seq = \<lparr>FIR = fir, FIN = fin, CON = con, UNS = uns, SEQ = seq\<rparr>"

definition AppControlField_DEFAULT :: AppControlField where
  "AppControlField_DEFAULT = AppControlField_make True True False False 0"

definition AppControlField_Request :: "uint8 \<Rightarrow> AppControlField" where
  "AppControlField_Request seq = AppControlField_make True True False False seq"

definition AppControlField_of_byte :: "uint8 \<Rightarrow> AppControlField" where
  "AppControlField_of_byte byte =
     \<lparr>FIR = (byte AND 0x80 \<noteq> 0), FIN = (byte AND 0x40 \<noteq> 0), CON = (byte AND 0x20 \<noteq> 0), UNS = (byte AND 0x10 \<noteq> 0),
      SEQ = byte AND 0x0F\<rparr>"

definition AppControlField_ToByte :: "AppControlField \<Rightarrow> uint8" where
  "AppControlField_ToByte c =
     (let ret = 0;
          ret = (if FIR c then ret OR 0x80 else ret);
          ret = (if FIN c then ret OR 0x40 else ret);
          ret = (if CON c then ret OR 0x20 else ret);
          ret = (if UNS c then ret OR 0x10 else ret)
      in ret OR (SEQ c mod 16))"

definition IsFirAndFin :: "AppControlField \<Rightarrow> bool" where
  "IsFirAndFin c = (FIR c \<and> FIN c)"

section \<open>\<^verbatim>\<open>APDUHeader\<close>\<close>

definition APDU_REQUEST_HEADER_SIZE :: nat where "APDU_REQUEST_HEADER_SIZE = 2"
definition APDU_RESPONSE_HEADER_SIZE :: nat where "APDU_RESPONSE_HEADER_SIZE = 4"

record APDUHeader =
  ah_function :: FunctionCode
  ah_control :: AppControlField

record APDUResponseHeader = APDUHeader +
  ah_IIN :: IINField

definition APDUHeader_default :: APDUHeader where
  "APDUHeader_default = \<lparr>ah_function = FC_UNKNOWN, ah_control = AppControlField_make True True False False 0\<rparr>"

definition APDUHeader_Equals :: "APDUHeader \<Rightarrow> APDUHeader \<Rightarrow> bool" where
  "APDUHeader_Equals this header =
     (ah_function header = ah_function this \<and> AppControlField_ToByte (ah_control header) = AppControlField_ToByte (ah_control this))"

definition APDUHeader_Confirm :: "uint8 \<Rightarrow> bool \<Rightarrow> APDUHeader" where
  "APDUHeader_Confirm seq unsolicited =
     \<lparr>ah_function = FC_CONFIRM, ah_control = AppControlField_make True True False unsolicited seq\<rparr>"

definition APDUHeader_SolicitedConfirm :: "uint8 \<Rightarrow> APDUHeader" where
  "APDUHeader_SolicitedConfirm seq = APDUHeader_Confirm seq False"

definition APDUHeader_UnsolicitedConfirm :: "uint8 \<Rightarrow> APDUHeader" where
  "APDUHeader_UnsolicitedConfirm seq = APDUHeader_Confirm seq True"

definition ParseRequest :: "bytes \<Rightarrow> APDUHeader option" where
  "ParseRequest apdu =
     (if length apdu < APDU_REQUEST_HEADER_SIZE then None
      else Some \<lparr>ah_function = FunctionCodeFromType (apdu ! 1), ah_control = AppControlField_of_byte (apdu ! 0)\<rparr>)"

definition ParseResponse :: "bytes \<Rightarrow> APDUResponseHeader option" where
  "ParseResponse apdu =
     (if length apdu < APDU_RESPONSE_HEADER_SIZE then None
      else Some \<lparr>ah_function = FunctionCodeFromType (apdu ! 1), ah_control = AppControlField_of_byte (apdu ! 0),
             ah_IIN = \<lparr>LSB = apdu ! 2, MSB = apdu ! 3\<rparr>\<rparr>)"

section \<open>\<^verbatim>\<open>APDUWrapper\<close>\<close>

text \<open>
  An APDU is the slice \<^verbatim>\<open>remaining\<close> of its buffer: \<^verbatim>\<open>buffer\<close>, which starts at the same memory, is all of it.  The
  header writer moves \<^verbatim>\<open>remaining\<close>: \<open>APDU_PutWriter\<close> takes it back.  \<open>None\<close> is an assertion that fails.
\<close>

type_synonym APDUWrapper = WSlice

definition APDUWrapper_make :: "bytes \<Rightarrow> APDUWrapper option" where
  "APDUWrapper_make buffer = (if length buffer \<ge> 2 then Some (WSlice_Advance 2 (WSlice_make buffer)) else None)"

definition APDUResponse_make :: "bytes \<Rightarrow> APDUWrapper option" where
  "APDUResponse_make buffer =
     (if length buffer \<ge> 4 then map_option (WSlice_Advance 2) (APDUWrapper_make buffer) else None)"

definition APDURequest_make :: "bytes \<Rightarrow> APDUWrapper option" where
  "APDURequest_make buffer = APDUWrapper_make buffer"

definition GetWriter :: "APDUWrapper \<Rightarrow> HeaderWriter" where
  "GetWriter apdu = HeaderWriter_make apdu"

definition APDU_PutWriter :: "HeaderWriter \<Rightarrow> APDUWrapper" where
  "APDU_PutWriter w = hw_position w"

definition SetFunction :: "FunctionCode \<Rightarrow> APDUWrapper \<Rightarrow> APDUWrapper" where
  "SetFunction code apdu = apdu\<lparr>ws_buffer := (ws_buffer apdu)[1 := FunctionCodeToType code]\<rparr>"

definition GetFunction :: "APDUWrapper \<Rightarrow> FunctionCode" where
  "GetFunction apdu = FunctionCodeFromType (ws_buffer apdu ! 1)"

definition SetControl :: "AppControlField \<Rightarrow> APDUWrapper \<Rightarrow> APDUWrapper" where
  "SetControl control apdu = apdu\<lparr>ws_buffer := (ws_buffer apdu)[0 := AppControlField_ToByte control]\<rparr>"

definition GetControl :: "APDUWrapper \<Rightarrow> AppControlField" where
  "GetControl apdu = AppControlField_of_byte (ws_buffer apdu ! 0)"

definition SetIIN :: "IINField \<Rightarrow> APDUWrapper \<Rightarrow> APDUWrapper" where
  "SetIIN indications apdu = apdu\<lparr>ws_buffer := (ws_buffer apdu)[2 := LSB indications, 3 := MSB indications]\<rparr>"

definition GetIIN :: "APDUWrapper \<Rightarrow> IINField" where
  "GetIIN apdu = \<lparr>LSB = ws_buffer apdu ! 2, MSB = ws_buffer apdu ! 3\<rparr>"

definition APDU_Remaining :: "APDUWrapper \<Rightarrow> nat" where
  "APDU_Remaining apdu = WSlice_Size apdu"

definition APDU_Size :: "APDUWrapper \<Rightarrow> nat" where
  "APDU_Size apdu = length (ws_buffer apdu) - WSlice_Size apdu"

definition ToRSlice :: "APDUWrapper \<Rightarrow> bytes" where
  "ToRSlice apdu = take (APDU_Size apdu) (ws_buffer apdu)"

definition ConfigureHeader :: "FunctionCode \<Rightarrow> uint8 \<Rightarrow> APDUWrapper \<Rightarrow> APDUWrapper" where
  "ConfigureHeader code seq apdu = SetControl (AppControlField_Request seq) (SetFunction FC_AUTH_REQUEST apdu)"

section \<open>\<^verbatim>\<open>TxBuffer\<close>\<close>

text \<open>\<^verbatim>\<open>lastResponse\<close> is a slice at the start of the buffer: its length.\<close>

record TxBuffer =
  tx_buffer :: bytes
  tx_lastResponse :: nat

definition TxBuffer_make :: "nat \<Rightarrow> TxBuffer" where
  "TxBuffer_make maxTxSize = \<lparr>tx_buffer = replicate maxTxSize 0, tx_lastResponse = 0\<rparr>"

definition TxBuffer_Start :: "TxBuffer \<Rightarrow> APDUWrapper option" where
  "TxBuffer_Start tx = APDUResponse_make (tx_buffer tx)"

text \<open>The response that was built is in the buffer.\<close>

definition TxBuffer_Record :: "APDUWrapper \<Rightarrow> TxBuffer \<Rightarrow> TxBuffer" where
  "TxBuffer_Record response tx = \<lparr>tx_buffer = ws_buffer response, tx_lastResponse = APDU_Size response\<rparr>"

definition GetLastResponse :: "TxBuffer \<Rightarrow> bytes" where
  "GetLastResponse tx = take (tx_lastResponse tx) (tx_buffer tx)"

section \<open>\<^verbatim>\<open>APDUBuilders\<close>\<close>

definition write_class_header :: "bool \<Rightarrow> GroupVariationID \<Rightarrow> HeaderWriter \<times> bool \<Rightarrow> HeaderWriter \<times> bool" where
  "write_class_header has gv = (\<lambda>(w, ok). if ok \<and> has then WriteHeader gv ALL_OBJECTS w else (w, ok))"

definition WriteClassHeaders :: "ClassField \<Rightarrow> HeaderWriter \<Rightarrow> HeaderWriter \<times> bool" where
  "WriteClassHeaders classes writer =
     write_class_header (HasClass0 classes) (60, 1) (write_class_header (HasClass3 classes) (60, 4)
       (write_class_header (HasClass2 classes) (60, 3) (write_class_header (HasClass1 classes) (60, 2) (writer, True))))"

definition ClassRequest :: "FunctionCode \<Rightarrow> ClassField \<Rightarrow> uint8 \<Rightarrow> APDUWrapper \<Rightarrow> APDUWrapper" where
  "ClassRequest fc classes seq request =
     (let request = SetFunction fc (SetControl (AppControlField_make True True False False seq) request)
      in APDU_PutWriter (fst (WriteClassHeaders classes (GetWriter request))))"

definition ReadIntegrity :: "ClassField \<Rightarrow> uint8 \<Rightarrow> APDUWrapper \<Rightarrow> APDUWrapper" where
  "ReadIntegrity classes seq request = ClassRequest FC_READ classes seq request"

definition ReadAllObjects :: "GroupVariationID \<Rightarrow> uint8 \<Rightarrow> APDUWrapper \<Rightarrow> APDUWrapper" where
  "ReadAllObjects gvId seq request =
     (let request = SetFunction FC_READ (SetControl (AppControlField_make True True False False seq) request)
      in APDU_PutWriter (fst (WriteHeader gvId ALL_OBJECTS (GetWriter request))))"

definition build_DisableUnsolicited :: "uint8 \<Rightarrow> APDUWrapper \<Rightarrow> APDUWrapper" where
  "build_DisableUnsolicited seq request = ClassRequest FC_DISABLE_UNSOLICITED EVENT_CLASSES seq request"

definition build_EnableUnsolicited :: "ClassField \<Rightarrow> uint8 \<Rightarrow> APDUWrapper \<Rightarrow> APDUWrapper" where
  "build_EnableUnsolicited classes seq request = ClassRequest FC_ENABLE_UNSOLICITED classes seq request"

text \<open>The indication's number is its position in the enumeration; the iterator is destroyed at the end.\<close>

definition ClearRestartIIN :: "uint8 \<Rightarrow> APDUWrapper \<Rightarrow> APDUWrapper" where
  "ClearRestartIIN seq request =
     (let request = SetControl (AppControlField_make True True False False seq) (SetFunction FC_WRITE request)
      in case IterateOverSingleBitfield Index8 (80, 1) UINT8_START_STOP 7 (GetWriter request) of
           (iter, w) \<Rightarrow> (case BitfieldRangeWriteIterator_Write False iter w of
             (iter, w, ok) \<Rightarrow> APDU_PutWriter (BitfieldRangeWriteIterator_destroy iter w)))"

definition MeasureDelay :: "uint8 \<Rightarrow> APDUWrapper \<Rightarrow> APDUWrapper" where
  "MeasureDelay seq request = SetControl (AppControlField_Request seq) (SetFunction FC_DELAY_MEASURE request)"

definition NullUnsolicited :: "uint8 \<Rightarrow> IINField \<Rightarrow> APDUWrapper \<Rightarrow> APDUWrapper" where
  "NullUnsolicited seq iin response =
     SetIIN iin (SetFunction FC_UNSOLICITED_RESPONSE (SetControl (AppControlField_make True True True True seq) response))"

end
