(* ===== verification/Commands.thy ===== *)
theory Commands
  imports HeaderWriter
begin

text \<open>
  Controls and setpoints: the status and control codes, \<^verbatim>\<open>ControlRelayOutputBlock\<close>, \<^verbatim>\<open>AnalogOutput\<close> and the command
  events, with their objects of the groups 12, 13, 41 and 43.
\<close>

section \<open>\<^verbatim>\<open>CommandStatus\<close> and \<^verbatim>\<open>ControlCode\<close>\<close>

datatype CommandStatus = SUCCESS | TIMEOUT | NO_SELECT | FORMAT_ERROR | NOT_SUPPORTED | ALREADY_ACTIVE | HARDWARE_ERROR | LOCAL
  | TOO_MANY_OPS | NOT_AUTHORIZED | AUTOMATION_INHIBIT | PROCESSING_LIMITED | OUT_OF_RANGE | DOWNSTREAM_LOCAL
  | ALREADY_COMPLETE | BLOCKED | CANCELLED | BLOCKED_OTHER_MASTER | DOWNSTREAM_FAIL | NON_PARTICIPATING | CS_UNDEFINED

fun CommandStatusToType :: "CommandStatus \<Rightarrow> uint8" where
  "CommandStatusToType SUCCESS = 0" | "CommandStatusToType TIMEOUT = 1" | "CommandStatusToType NO_SELECT = 2"
| "CommandStatusToType FORMAT_ERROR = 3" | "CommandStatusToType NOT_SUPPORTED = 4" | "CommandStatusToType ALREADY_ACTIVE = 5"
| "CommandStatusToType HARDWARE_ERROR = 6" | "CommandStatusToType LOCAL = 7" | "CommandStatusToType TOO_MANY_OPS = 8"
| "CommandStatusToType NOT_AUTHORIZED = 9" | "CommandStatusToType AUTOMATION_INHIBIT = 10"
| "CommandStatusToType PROCESSING_LIMITED = 11" | "CommandStatusToType OUT_OF_RANGE = 12"
| "CommandStatusToType DOWNSTREAM_LOCAL = 13" | "CommandStatusToType ALREADY_COMPLETE = 14" | "CommandStatusToType BLOCKED = 15"
| "CommandStatusToType CANCELLED = 16" | "CommandStatusToType BLOCKED_OTHER_MASTER = 17"
| "CommandStatusToType DOWNSTREAM_FAIL = 18" | "CommandStatusToType NON_PARTICIPATING = 126" | "CommandStatusToType CS_UNDEFINED = 127"

definition CommandStatusFromType :: "uint8 \<Rightarrow> CommandStatus" where
  "CommandStatusFromType arg =
     (if arg = 0 then SUCCESS else if arg = 1 then TIMEOUT else if arg = 2 then NO_SELECT else if arg = 3 then FORMAT_ERROR
      else if arg = 4 then NOT_SUPPORTED else if arg = 5 then ALREADY_ACTIVE else if arg = 6 then HARDWARE_ERROR
      else if arg = 7 then LOCAL else if arg = 8 then TOO_MANY_OPS else if arg = 9 then NOT_AUTHORIZED
      else if arg = 10 then AUTOMATION_INHIBIT else if arg = 11 then PROCESSING_LIMITED else if arg = 12 then OUT_OF_RANGE
      else if arg = 13 then DOWNSTREAM_LOCAL else if arg = 14 then ALREADY_COMPLETE else if arg = 15 then BLOCKED
      else if arg = 16 then CANCELLED else if arg = 17 then BLOCKED_OTHER_MASTER else if arg = 18 then DOWNSTREAM_FAIL
      else if arg = 126 then NON_PARTICIPATING else CS_UNDEFINED)"

lemma CommandStatus_roundtrip [simp]: "CommandStatusFromType (CommandStatusToType s) = s"
  by (cases s) (simp_all add: CommandStatusFromType_def)

datatype ControlCode = NUL | NUL_CANCEL | PULSE_ON | PULSE_ON_CANCEL | PULSE_OFF | PULSE_OFF_CANCEL | LATCH_ON | LATCH_ON_CANCEL
  | LATCH_OFF | LATCH_OFF_CANCEL | CLOSE_PULSE_ON | CLOSE_PULSE_ON_CANCEL | TRIP_PULSE_ON | TRIP_PULSE_ON_CANCEL | CC_UNDEFINED

fun ControlCodeToType :: "ControlCode \<Rightarrow> uint8" where
  "ControlCodeToType NUL = 0x0" | "ControlCodeToType NUL_CANCEL = 0x20" | "ControlCodeToType PULSE_ON = 0x1"
| "ControlCodeToType PULSE_ON_CANCEL = 0x21" | "ControlCodeToType PULSE_OFF = 0x2" | "ControlCodeToType PULSE_OFF_CANCEL = 0x22"
| "ControlCodeToType LATCH_ON = 0x3" | "ControlCodeToType LATCH_ON_CANCEL = 0x23" | "ControlCodeToType LATCH_OFF = 0x4"
| "ControlCodeToType LATCH_OFF_CANCEL = 0x24" | "ControlCodeToType CLOSE_PULSE_ON = 0x41"
| "ControlCodeToType CLOSE_PULSE_ON_CANCEL = 0x61" | "ControlCodeToType TRIP_PULSE_ON = 0x81"
| "ControlCodeToType TRIP_PULSE_ON_CANCEL = 0xA1" | "ControlCodeToType CC_UNDEFINED = 0xFF"

definition ControlCodeFromType :: "uint8 \<Rightarrow> ControlCode" where
  "ControlCodeFromType arg =
     (if arg = 0x0 then NUL else if arg = 0x20 then NUL_CANCEL else if arg = 0x1 then PULSE_ON else if arg = 0x21 then PULSE_ON_CANCEL
      else if arg = 0x2 then PULSE_OFF else if arg = 0x22 then PULSE_OFF_CANCEL else if arg = 0x3 then LATCH_ON
      else if arg = 0x23 then LATCH_ON_CANCEL else if arg = 0x4 then LATCH_OFF else if arg = 0x24 then LATCH_OFF_CANCEL
      else if arg = 0x41 then CLOSE_PULSE_ON else if arg = 0x61 then CLOSE_PULSE_ON_CANCEL else if arg = 0x81 then TRIP_PULSE_ON
      else if arg = 0xA1 then TRIP_PULSE_ON_CANCEL else CC_UNDEFINED)"

lemma ControlCode_roundtrip [simp]: "ControlCodeFromType (ControlCodeToType c) = c"
  by (cases c) (simp_all add: ControlCodeFromType_def)

section \<open>Commands\<close>

record ControlRelayOutputBlock =
  crob_functionCode :: ControlCode
  crob_rawCode :: uint8
  crob_count :: uint8
  crob_onTimeMS :: uint32
  crob_offTimeMS :: uint32
  crob_status :: CommandStatus

definition ControlRelayOutputBlock_of_code ::
  "ControlCode \<Rightarrow> uint8 \<Rightarrow> uint32 \<Rightarrow> uint32 \<Rightarrow> CommandStatus \<Rightarrow> ControlRelayOutputBlock" where
  "ControlRelayOutputBlock_of_code code cnt onTime offTime status =
     \<lparr>crob_functionCode = code, crob_rawCode = ControlCodeToType code, crob_count = cnt, crob_onTimeMS = onTime,
      crob_offTimeMS = offTime, crob_status = status\<rparr>"

definition ControlRelayOutputBlock_of_raw ::
  "uint8 \<Rightarrow> uint8 \<Rightarrow> uint32 \<Rightarrow> uint32 \<Rightarrow> CommandStatus \<Rightarrow> ControlRelayOutputBlock" where
  "ControlRelayOutputBlock_of_raw rawCode cnt onTime offTime status =
     \<lparr>crob_functionCode = ControlCodeFromType rawCode, crob_rawCode = rawCode, crob_count = cnt, crob_onTimeMS = onTime,
      crob_offTimeMS = offTime, crob_status = status\<rparr>"

definition ControlRelayOutputBlock_ValuesEqual :: "ControlRelayOutputBlock \<Rightarrow> ControlRelayOutputBlock \<Rightarrow> bool" where
  "ControlRelayOutputBlock_ValuesEqual a b =
     (crob_functionCode a = crob_functionCode b \<and> crob_count a = crob_count b \<and> crob_onTimeMS a = crob_onTimeMS b
      \<and> crob_offTimeMS a = crob_offTimeMS b)"

text \<open>
  \<^verbatim>\<open>AnalogOutput<T>\<close>: an integer of 16 or 32 bits, or the bits of a \<^verbatim>\<open>float\<close> or a \<^verbatim>\<open>double\<close>.
\<close>

record 'v AnalogOutput =
  ao_value :: 'v
  ao_status :: CommandStatus

record BinaryCommandEvent =
  bce_value :: bool
  bce_status :: CommandStatus
  bce_time :: uint64

definition BinaryCommandEvent_GetFlags :: "BinaryCommandEvent \<Rightarrow> uint8" where
  "BinaryCommandEvent_GetFlags e = push_bit 7 (if bce_value e then 1 else 0) OR CommandStatusToType (bce_status e)"

definition BinaryCommandEvent_of_flags :: "uint8 \<Rightarrow> uint64 \<Rightarrow> BinaryCommandEvent" where
  "BinaryCommandEvent_of_flags flags time =
     \<lparr>bce_value = (flags AND 0x80 = 0x80), bce_status = CommandStatusFromType (flags AND 0x7F), bce_time = time\<rparr>"

record AnalogCommandEvent =
  ace_value :: uint64
  ace_status :: CommandStatus
  ace_time :: uint64

section \<open>Objects\<close>

fun ControlRelayOutputBlockFactory :: "Field list \<Rightarrow> ControlRelayOutputBlock" where
  "ControlRelayOutputBlockFactory [FU8 code, FU8 cnt, FU32 onTime, FU32 offTime, FU8 status] =
     ControlRelayOutputBlock_of_raw code cnt onTime offTime (CommandStatusFromType status)"
| "ControlRelayOutputBlockFactory _ = ControlRelayOutputBlock_of_code LATCH_ON 1 100 100 SUCCESS"

definition ConvertGroup12Var1 :: "ControlRelayOutputBlock \<Rightarrow> Field list option" where
  "ConvertGroup12Var1 crob =
     Some [FU8 (crob_rawCode crob), FU8 (crob_count crob), FU32 (crob_onTimeMS crob), FU32 (crob_offTimeMS crob),
           FU8 (CommandStatusToType (crob_status crob))]"

definition Group12Var1 :: "ControlRelayOutputBlock ObjectCodec" where
  "Group12Var1 = \<lparr>oc_id = (12, 1), oc_size = 11, oc_fields = [U8, U8, U32, U32, U8],
     oc_convert = ConvertGroup12Var1, oc_factory = ControlRelayOutputBlockFactory\<rparr>"

fun BinaryCommandEventFactory :: "Field list \<Rightarrow> BinaryCommandEvent" where
  "BinaryCommandEventFactory [FU8 flags] = BinaryCommandEvent_of_flags flags 0"
| "BinaryCommandEventFactory [FU8 flags, FU48 time] = BinaryCommandEvent_of_flags flags time"
| "BinaryCommandEventFactory _ = \<lparr>bce_value = False, bce_status = SUCCESS, bce_time = 0\<rparr>"

definition Group13Var1 :: "BinaryCommandEvent ObjectCodec" where
  "Group13Var1 = \<lparr>oc_id = (13, 1), oc_size = 1, oc_fields = [U8],
     oc_convert = (\<lambda>ev. Some [FU8 (BinaryCommandEvent_GetFlags ev)]), oc_factory = BinaryCommandEventFactory\<rparr>"

definition Group13Var2 :: "BinaryCommandEvent ObjectCodec" where
  "Group13Var2 = \<lparr>oc_id = (13, 2), oc_size = 7, oc_fields = [U8, U48],
     oc_convert = (\<lambda>ev. Some [FU8 (BinaryCommandEvent_GetFlags ev), FU48 (bce_time ev)]), oc_factory = BinaryCommandEventFactory\<rparr>"

text \<open>The four instances of \<^verbatim>\<open>ConvertQS\<close> and \<^verbatim>\<open>AnalogOutputFactory\<close>.\<close>

definition ConvertQS :: "('v \<Rightarrow> Field) \<Rightarrow> 'v AnalogOutput \<Rightarrow> Field list option" where
  "ConvertQS field src = Some [field (ao_value src), FU8 (CommandStatusToType (ao_status src))]"

fun AnalogOutputInt32Factory :: "Field list \<Rightarrow> uint32 AnalogOutput" where
  "AnalogOutputInt32Factory [FI32 v, FU8 status] = \<lparr>ao_value = v, ao_status = CommandStatusFromType status\<rparr>"
| "AnalogOutputInt32Factory _ = \<lparr>ao_value = 0, ao_status = SUCCESS\<rparr>"

fun AnalogOutputInt16Factory :: "Field list \<Rightarrow> uint16 AnalogOutput" where
  "AnalogOutputInt16Factory [FI16 v, FU8 status] = \<lparr>ao_value = v, ao_status = CommandStatusFromType status\<rparr>"
| "AnalogOutputInt16Factory _ = \<lparr>ao_value = 0, ao_status = SUCCESS\<rparr>"

fun AnalogOutputFloat32Factory :: "Field list \<Rightarrow> uint32 AnalogOutput" where
  "AnalogOutputFloat32Factory [FFloat v, FU8 status] = \<lparr>ao_value = v, ao_status = CommandStatusFromType status\<rparr>"
| "AnalogOutputFloat32Factory _ = \<lparr>ao_value = 0, ao_status = SUCCESS\<rparr>"

fun AnalogOutputDouble64Factory :: "Field list \<Rightarrow> uint64 AnalogOutput" where
  "AnalogOutputDouble64Factory [FDouble v, FU8 status] = \<lparr>ao_value = v, ao_status = CommandStatusFromType status\<rparr>"
| "AnalogOutputDouble64Factory _ = \<lparr>ao_value = 0, ao_status = SUCCESS\<rparr>"

definition Group41Var1 :: "uint32 AnalogOutput ObjectCodec" where
  "Group41Var1 = \<lparr>oc_id = (41, 1), oc_size = 5, oc_fields = [I32, U8], oc_convert = ConvertQS FI32, oc_factory = AnalogOutputInt32Factory\<rparr>"

definition Group41Var2 :: "uint16 AnalogOutput ObjectCodec" where
  "Group41Var2 = \<lparr>oc_id = (41, 2), oc_size = 3, oc_fields = [I16, U8], oc_convert = ConvertQS FI16, oc_factory = AnalogOutputInt16Factory\<rparr>"

definition Group41Var3 :: "uint32 AnalogOutput ObjectCodec" where
  "Group41Var3 = \<lparr>oc_id = (41, 3), oc_size = 5, oc_fields = [Float32, U8], oc_convert = ConvertQS FFloat, oc_factory = AnalogOutputFloat32Factory\<rparr>"

definition Group41Var4 :: "uint64 AnalogOutput ObjectCodec" where
  "Group41Var4 = \<lparr>oc_id = (41, 4), oc_size = 9, oc_fields = [Double64, U8], oc_convert = ConvertQS FDouble, oc_factory = AnalogOutputDouble64Factory\<rparr>"

text \<open>The value of a command event is down-sampled, and a loss is not shown.\<close>

definition ConvertGroup43RangeCheck :: "FieldType \<Rightarrow> AnalogCommandEvent \<Rightarrow> Field list option" where
  "ConvertGroup43RangeCheck t src =
     map_option (\<lambda>(v, overrange). [FU8 (CommandStatusToType (ace_status src)), v]) (DownSampling_Apply t (DoubleValue (ace_value src)))"

definition ConvertGroup43WithTimeRangeCheck :: "FieldType \<Rightarrow> AnalogCommandEvent \<Rightarrow> Field list option" where
  "ConvertGroup43WithTimeRangeCheck t src =
     map_option (\<lambda>(v, overrange). [FU8 (CommandStatusToType (ace_status src)), v, FU48 (ace_time src)])
       (DownSampling_Apply t (DoubleValue (ace_value src)))"

definition ConvertGroup43Var6 :: "AnalogCommandEvent \<Rightarrow> Field list option" where
  "ConvertGroup43Var6 src = Some [FU8 (CommandStatusToType (ace_status src)), FDouble (ace_value src)]"

definition ConvertGroup43Var8 :: "AnalogCommandEvent \<Rightarrow> Field list option" where
  "ConvertGroup43Var8 src = Some [FU8 (CommandStatusToType (ace_status src)), FDouble (ace_value src), FU48 (ace_time src)]"

definition double_of :: "Field \<Rightarrow> uint64" where
  "double_of f = (case to_double f of DoubleValue d \<Rightarrow> d | _ \<Rightarrow> 0)"

fun AnalogCommandEventFactory :: "Field list \<Rightarrow> AnalogCommandEvent" where
  "AnalogCommandEventFactory [FU8 status, v] = \<lparr>ace_value = double_of v, ace_status = CommandStatusFromType status, ace_time = 0\<rparr>"
| "AnalogCommandEventFactory [FU8 status, v, FU48 time] =
     \<lparr>ace_value = double_of v, ace_status = CommandStatusFromType status, ace_time = time\<rparr>"
| "AnalogCommandEventFactory _ = \<lparr>ace_value = 0, ace_status = SUCCESS, ace_time = 0\<rparr>"

definition Group43Var1 :: "AnalogCommandEvent ObjectCodec" where
  "Group43Var1 = \<lparr>oc_id = (43, 1), oc_size = 5, oc_fields = [U8, I32],
     oc_convert = ConvertGroup43RangeCheck I32, oc_factory = AnalogCommandEventFactory\<rparr>"

definition Group43Var2 :: "AnalogCommandEvent ObjectCodec" where
  "Group43Var2 = \<lparr>oc_id = (43, 2), oc_size = 3, oc_fields = [U8, I16],
     oc_convert = ConvertGroup43RangeCheck I16, oc_factory = AnalogCommandEventFactory\<rparr>"

definition Group43Var3 :: "AnalogCommandEvent ObjectCodec" where
  "Group43Var3 = \<lparr>oc_id = (43, 3), oc_size = 11, oc_fields = [U8, I32, U48],
     oc_convert = ConvertGroup43WithTimeRangeCheck I32, oc_factory = AnalogCommandEventFactory\<rparr>"

definition Group43Var4 :: "AnalogCommandEvent ObjectCodec" where
  "Group43Var4 = \<lparr>oc_id = (43, 4), oc_size = 9, oc_fields = [U8, I16, U48],
     oc_convert = ConvertGroup43WithTimeRangeCheck I16, oc_factory = AnalogCommandEventFactory\<rparr>"

definition Group43Var5 :: "AnalogCommandEvent ObjectCodec" where
  "Group43Var5 = \<lparr>oc_id = (43, 5), oc_size = 5, oc_fields = [U8, Float32],
     oc_convert = ConvertGroup43RangeCheck Float32, oc_factory = AnalogCommandEventFactory\<rparr>"

definition Group43Var6 :: "AnalogCommandEvent ObjectCodec" where
  "Group43Var6 = \<lparr>oc_id = (43, 6), oc_size = 9, oc_fields = [U8, Double64],
     oc_convert = ConvertGroup43Var6, oc_factory = AnalogCommandEventFactory\<rparr>"

definition Group43Var7 :: "AnalogCommandEvent ObjectCodec" where
  "Group43Var7 = \<lparr>oc_id = (43, 7), oc_size = 11, oc_fields = [U8, Float32, U48],
     oc_convert = ConvertGroup43WithTimeRangeCheck Float32, oc_factory = AnalogCommandEventFactory\<rparr>"

definition Group43Var8 :: "AnalogCommandEvent ObjectCodec" where
  "Group43Var8 = \<lparr>oc_id = (43, 8), oc_size = 15, oc_fields = [U8, Double64, U48],
     oc_convert = ConvertGroup43Var8, oc_factory = AnalogCommandEventFactory\<rparr>"

section \<open>Commands survive\<close>

lemma ReadTarget_fields:
  assumes "oc_convert c m = Some fs" "map field_type fs = oc_fields c" "\<forall>f\<in>set fs. field_ok f"
  shows "ReadTarget c (fields_bytes fs @ rest) = Some (oc_factory c fs, rest)"
  using Parse_Many_fields[OF assms(3), of rest] assms(2) by (simp add: ReadTarget_def)

definition crob_ok :: "ControlRelayOutputBlock \<Rightarrow> bool" where
  "crob_ok c \<longleftrightarrow> crob_functionCode c = ControlCodeFromType (crob_rawCode c)"

text \<open>A codec that loses nothing of the values in \<open>ok\<close>.\<close>

definition lossless :: "('m \<Rightarrow> bool) \<Rightarrow> 'm ObjectCodec \<Rightarrow> bool" where
  "lossless ok c \<longleftrightarrow> fields_size (oc_fields c) = oc_size c \<and>
     (\<forall>m. ok m \<longrightarrow> (\<exists>fs. oc_convert c m = Some fs \<and> map field_type fs = oc_fields c \<and> (\<forall>f\<in>set fs. field_ok f) \<and> oc_factory c fs = m))"

lemma lossless_ReadTarget:
  assumes "lossless ok c" "ok m"
  obtains fs where "oc_convert c m = Some fs" "map field_type fs = oc_fields c" "length (fields_bytes fs) = oc_size c"
    "ReadTarget c (fields_bytes fs @ rest) = Some (m, rest)"
proof -
  from assms obtain fs where fs: "oc_convert c m = Some fs" "map field_type fs = oc_fields c" "\<forall>f\<in>set fs. field_ok f" "oc_factory c fs = m"
    by (auto simp: lossless_def)
  moreover have "length (fields_bytes fs) = oc_size c" using fs(2) assms(1) by (simp add: lossless_def)
  moreover have "ReadTarget c (fields_bytes fs @ rest) = Some (m, rest)" using ReadTarget_fields[OF fs(1-3), of rest] fs(4) by simp
  ultimately show ?thesis by (intro that)
qed

lemma lossless_Group12Var1: "lossless crob_ok Group12Var1"
  by (auto simp: lossless_def Group12Var1_def ConvertGroup12Var1_def ControlRelayOutputBlock_of_raw_def crob_ok_def)

lemma lossless_Group41:
  "lossless (\<lambda>_. True) Group41Var1" "lossless (\<lambda>_. True) Group41Var2" "lossless (\<lambda>_. True) Group41Var3" "lossless (\<lambda>_. True) Group41Var4"
  by (simp_all add: lossless_def Group41Var1_def Group41Var2_def Group41Var3_def Group41Var4_def ConvertQS_def)

lemma lossless_Group13Var2: "lossless (\<lambda>e. bce_time e \<le> UInt48_MAX) Group13Var2"
proof -
  have "(push_bit 7 (if v then 1 else 0) OR CommandStatusToType s) AND 0x80 = 0x80 \<longleftrightarrow> v"
    "(push_bit 7 (if v then 1 else 0) OR CommandStatusToType s) AND 0x7F = CommandStatusToType s" for v s
    by (cases v; cases s; simp)+
  then show ?thesis
    by (auto simp: lossless_def Group13Var2_def BinaryCommandEvent_GetFlags_def BinaryCommandEvent_of_flags_def)
qed

lemma lossless_Group43Var8: "lossless (\<lambda>e. ace_time e \<le> UInt48_MAX) Group43Var8"
  by (auto simp: lossless_def Group43Var8_def ConvertGroup43Var8_def double_of_def)

end
