(* ===== verification/ObjectParser.thy ===== *)
theory ObjectParser
  imports AuthObjects Commands IndexSearch
begin

text \<open>
  \<^verbatim>\<open>app/parsing\<close>: the parser of the object headers of an APDU.  A header is an object (group and variation), a qualifier
  and what the qualifier calls for: a count, a range or a size, and the objects.  A parser hands each header to a handler
  with a collection, which reads its objects from the buffer each time it is iterated.  Here the calls are collected in a
  list, a collection is the list of values an iteration gives, or \<open>None\<close> if it would read past the buffer.

  The sizes are \<^verbatim>\<open>uint32_t\<close>; they are products of a count of at most 65536 and a size of at most 257, so that they
  are natural numbers here.  Log output is left out.
\<close>

section \<open>Results, settings, records\<close>

datatype ParseResult = PR_OK | NOT_ON_WHITELIST | NOT_ENOUGH_DATA_FOR_HEADER | NOT_ENOUGH_DATA_FOR_RANGE
  | NOT_ENOUGH_DATA_FOR_OBJECTS | UNREASONABLE_OBJECT_COUNT | UNKNOWN_OBJECT | UNKNOWN_QUALIFIER
  | INVALID_OBJECT_QUALIFIER | INVALID_OBJECT | BAD_START_STOP | COUNT_OF_ZERO

record ParserSettings =
  expectContents :: bool

definition ParserSettings_NoContents :: ParserSettings where
  "ParserSettings_NoContents = \<lparr>expectContents = False\<rparr>"

definition ParserSettings_Default :: ParserSettings where
  "ParserSettings_Default = \<lparr>expectContents = True\<rparr>"

text \<open>\<^verbatim>\<open>gen/GroupVariation\<close>: the objects with an enumeration, by group; the enumerator is the number.\<close>

definition known_variations :: "(nat \<times> nat list) list" where
  "known_variations =
    [(1, [0, 1, 2]), (2, [0, 1, 2, 3]), (3, [0, 1, 2]), (4, [0, 1, 2, 3]), (10, [0, 1, 2]), (11, [0, 1, 2]),
     (12, [0, 1]), (13, [1, 2]), (20, [0, 1, 2, 5, 6]), (21, [0, 1, 2, 5, 6, 9, 10]), (22, [0, 1, 2, 5, 6]),
     (23, [0, 1, 2, 5, 6]), (30, [0, 1, 2, 3, 4, 5, 6]), (32, [0, 1, 2, 3, 4, 5, 6, 7, 8]), (40, [0, 1, 2, 3, 4]),
     (41, [0, 1, 2, 3, 4]), (42, [0, 1, 2, 3, 4, 5, 6, 7, 8]), (43, [1, 2, 3, 4, 5, 6, 7, 8]), (50, [1, 4]),
     (51, [1, 2]), (52, [1, 2]), (60, [1, 2, 3, 4]), (70, [1, 2, 3, 4, 5, 6, 7, 8]), (80, [1]), (110, [0]),
     (111, [0]), (112, [0]), (113, [0]), (120, [1, 2, 3, 4, 5, 6, 7, 8, 9, 10, 11, 12, 13, 14, 15]), (121, [0, 1]),
     (122, [0, 1, 2])]"

definition GroupVariation_UNKNOWN :: GroupVariation where
  "GroupVariation_UNKNOWN = 0"

definition GroupVariationFromType :: "uint16 \<Rightarrow> GroupVariation" where
  "GroupVariationFromType arg =
     (if \<exists>(g, vs)\<in>set known_variations. \<exists>v\<in>set vs. arg = GroupVar g v then arg else GroupVariation_UNKNOWN)"

datatype GroupVariationType = GVT_STATIC | GVT_EVENT | GVT_OTHER

definition GroupVariationRecord_GetType :: "uint8 \<Rightarrow> uint8 \<Rightarrow> GroupVariationType" where
  "GroupVariationRecord_GetType grp variation =
     (if grp \<in> set [1, 3, 10, 20, 21, 30, 40, 110, 121] then GVT_STATIC
      else if grp \<in> set [2, 4, 11, 13, 22, 23, 32, 41, 42, 43, 111, 122] then GVT_EVENT
      else if grp = 50 then (if variation = 4 then GVT_STATIC else GVT_OTHER)
      else if grp = 60 then (if variation = 1 then GVT_STATIC else GVT_EVENT)
      else GVT_OTHER)"

definition GetGroupVar :: "uint8 \<Rightarrow> uint8 \<Rightarrow> uint16" where
  "GetGroupVar grp variation = push_bit 8 (ucast grp) OR ucast variation"

definition GetEnumAndType :: "uint8 \<Rightarrow> uint8 \<Rightarrow> GroupVariation \<times> GroupVariationType" where
  "GetEnumAndType grp variation =
     (let type = GroupVariationRecord_GetType grp variation;
          enumeration = GroupVariationFromType (GetGroupVar grp variation);
          enumeration = (if enumeration = GroupVariation_UNKNOWN
            then if grp = 110 then GroupVar 110 0 else if grp = 111 then GroupVar 111 0
              else if grp = 112 then GroupVar 112 0 else if grp = 113 then GroupVar 113 0 else enumeration
            else enumeration)
      in (enumeration, type))"

text \<open>\<^verbatim>\<open>HeaderRecord\<close> with the fields of its base class \<^verbatim>\<open>GroupVariationRecord\<close>.\<close>

record GroupVariationRecord =
  gvr_enumeration :: GroupVariation
  gvr_type :: GroupVariationType
  gvr_group :: uint8
  gvr_variation :: uint8

record HeaderRecord = GroupVariationRecord +
  hr_qualifier :: uint8
  hr_headerIndex :: uint32

definition GetRecord :: "uint8 \<Rightarrow> uint8 \<Rightarrow> GroupVariationRecord" where
  "GetRecord grp variation =
     (case GetEnumAndType grp variation of (enumeration, type) \<Rightarrow>
        \<lparr>gvr_enumeration = enumeration, gvr_type = type, gvr_group = grp, gvr_variation = variation\<rparr>)"

definition HeaderRecord_make :: "GroupVariationRecord \<Rightarrow> uint8 \<Rightarrow> uint32 \<Rightarrow> HeaderRecord" where
  "HeaderRecord_make gv qualifier headerIndex =
     \<lparr>gvr_enumeration = gvr_enumeration gv, gvr_type = gvr_type gv, gvr_group = gvr_group gv, gvr_variation = gvr_variation gv,
      hr_qualifier = qualifier, hr_headerIndex = headerIndex\<rparr>"

definition GetQualifierCode :: "HeaderRecord \<Rightarrow> QualifierCode" where
  "GetQualifierCode record1 = QualifierCodeFromType (hr_qualifier record1)"

section \<open>Values and the calls of a handler\<close>

text \<open>
  The type of the values of a collection, which selects the overload of \<^verbatim>\<open>OnHeader\<close>, and the values.  The objects that
  are handed on as they are read (\<^verbatim>\<open>Group50Var1\<close>, \<^verbatim>\<open>Group121Var1\<close>, \<open>\<dots>\<close>) are their fields.
\<close>

datatype Target = T_Measurement EventType | T_TimeAndInterval | T_BinaryCommandEvent | T_AnalogCommandEvent
  | T_ControlRelayOutputBlock | T_AnalogOutputInt16 | T_AnalogOutputInt32 | T_AnalogOutputFloat32 | T_AnalogOutputDouble64
  | T_OctetString | T_IINValue | T_Struct GroupVariation

datatype Item = It_Measurement Measurement | It_TimeAndInterval TimeAndInterval | It_BinaryCommandEvent BinaryCommandEvent
  | It_AnalogCommandEvent AnalogCommandEvent | It_ControlRelayOutputBlock ControlRelayOutputBlock
  | It_AnalogOutputInt16 "uint16 AnalogOutput" | It_AnalogOutputInt32 "uint32 AnalogOutput"
  | It_AnalogOutputFloat32 "uint32 AnalogOutput" | It_AnalogOutputDouble64 "uint64 AnalogOutput"
  | It_OctetString bytes | It_IINValue bool | It_Struct "Field list"

type_synonym IndexedItem = "Item \<times> uint16"

datatype HandlerCall =
    OnAllObjects HeaderRecord
  | OnRange HeaderRecord Range
  | OnCount HeaderRecord uint16
  | OnCountOf HeaderRecord uint16 Target "Item list option"
  | OnRangeOf HeaderRecord Range Target "IndexedItem list option"
  | OnPrefixOf HeaderRecord uint16 Target "IndexedItem list option"
  | OnFreeFormat HeaderRecord AuthObject bytes

section \<open>Reading objects\<close>

text \<open>\<^verbatim>\<open>BufferedCollection::Foreach\<close>: \<^verbatim>\<open>pos\<close> runs up to the count, the reader advances its copy of the buffer.\<close>

primrec BufferedCollection_Foreach :: "(nat \<Rightarrow> bytes \<Rightarrow> ('t \<times> bytes) option) \<Rightarrow> nat \<Rightarrow> nat \<Rightarrow> bytes \<Rightarrow> 't list option" where
  "BufferedCollection_Foreach readFunc pos 0 copy = Some []"
| "BufferedCollection_Foreach readFunc pos (Suc n) copy =
     (case readFunc pos copy of
        None \<Rightarrow> None
      | Some (v, copy) \<Rightarrow> map_option ((#) v) (BufferedCollection_Foreach readFunc (Suc pos) n copy))"

definition CreateBufferedCollection :: "bytes \<Rightarrow> nat \<Rightarrow> (nat \<Rightarrow> bytes \<Rightarrow> ('t \<times> bytes) option) \<Rightarrow> 't list option" where
  "CreateBufferedCollection buffer cnt readFunc = BufferedCollection_Foreach readFunc 0 cnt buffer"

definition NumBytesInBits :: "nat \<Rightarrow> nat" where
  "NumBytesInBits numBits = (if numBits mod 8 = 0 then numBits div 8 else numBits div 8 + 1)"

definition GetBit :: "bytes \<Rightarrow> nat \<Rightarrow> bool option" where
  "GetBit buffer position =
     (if position div 8 < length buffer then Some ((buffer ! (position div 8)) AND push_bit (position mod 8) 1 \<noteq> 0) else None)"

definition NumBytesInDoubleBits :: "nat \<Rightarrow> nat" where
  "NumBytesInDoubleBits numBits = (if numBits mod 4 = 0 then numBits div 4 else numBits div 4 + 1)"

definition GetDoubleBit :: "bytes \<Rightarrow> nat \<Rightarrow> DoubleBit option" where
  "GetDoubleBit buffer index =
     (if index div 4 < length buffer
      then Some (DoubleBitFromType (drop_bit (2 * (index mod 4)) (buffer ! (index div 4)) AND 0x03)) else None)"

text \<open>
  A descriptor: what the parsers use of an object, its size and \<^verbatim>\<open>ReadTarget\<close>, or \<^verbatim>\<open>Read\<close> for the objects handed on as they
  are.
\<close>

record Descriptor =
  d_target :: Target
  d_size :: nat
  d_read :: "bytes \<Rightarrow> (Item \<times> bytes) option"

definition descriptor :: "Target \<Rightarrow> ('m \<Rightarrow> Item) \<Rightarrow> 'm ObjectCodec \<Rightarrow> GroupVariation \<times> Descriptor" where
  "descriptor target item c =
     (GetGroupVar (fst (oc_id c)) (snd (oc_id c)),
      \<lparr>d_target = target, d_size = oc_size c, d_read = (\<lambda>buff. map_option (map_prod item id) (ReadTarget c buff))\<rparr>)"

definition struct_descriptor :: "'m ObjectCodec \<Rightarrow> GroupVariation \<times> Descriptor" where
  "struct_descriptor c =
     (GetGroupVar (fst (oc_id c)) (snd (oc_id c)),
      \<lparr>d_target = T_Struct (GetGroupVar (fst (oc_id c)) (snd (oc_id c))), d_size = oc_size c,
       d_read = (\<lambda>buff. map_option (map_prod It_Struct id) (Parse_Many (oc_fields c) buff))\<rparr>)"

definition Group120Var4 :: "uint16 ObjectCodec" where
  "Group120Var4 = \<lparr>oc_id = (120, 4), oc_size = 2, oc_fields = [U16], oc_convert = (\<lambda>v. Some [FU16 v]), oc_factory = time16\<rparr>"

section \<open>\<^verbatim>\<open>NumParser\<close>\<close>

fun ReadNum :: "IndexType \<Rightarrow> bytes \<Rightarrow> uint16 \<times> bytes" where
  "ReadNum Index8 buffer = (ucast (buffer ! 0), drop 1 buffer)"
| "ReadNum Index16 buffer = (Bit16LE_Read buffer, drop 2 buffer)"

definition NumParser_Read :: "IndexType \<Rightarrow> bytes \<Rightarrow> (uint16 \<times> bytes) option" where
  "NumParser_Read np buffer = (if length buffer < index_size np then None else Some (ReadNum np buffer))"

definition ParseCount :: "IndexType \<Rightarrow> bytes \<Rightarrow> ParseResult \<times> uint16 \<times> bytes" where
  "ParseCount np buffer =
     (case NumParser_Read np buffer of
        Some (cnt, buffer) \<Rightarrow> (if cnt = 0 then COUNT_OF_ZERO else PR_OK, cnt, buffer)
      | None \<Rightarrow> (NOT_ENOUGH_DATA_FOR_RANGE, 0, buffer))"

definition ParseRange :: "IndexType \<Rightarrow> bytes \<Rightarrow> ParseResult \<times> Range \<times> bytes" where
  "ParseRange np buffer =
     (if length buffer < 2 * index_size np then (NOT_ENOUGH_DATA_FOR_RANGE, Range_Invalid, buffer)
      else case ReadNum np buffer of (start, buffer) \<Rightarrow> case ReadNum np buffer of (stop, buffer) \<Rightarrow>
        let rng = \<lparr>rg_start = start, rg_stop = stop\<rparr>
        in (if Range_IsValid rng then PR_OK else BAD_START_STOP, rng, buffer))"

section \<open>\<^verbatim>\<open>CountParser\<close>\<close>

type_synonym ParserOutput = "ParseResult \<times> bytes \<times> HandlerCall list"

definition count_descriptors :: "(GroupVariation \<times> Descriptor) list" where
  "count_descriptors = [struct_descriptor Group50Var1, struct_descriptor Group51Var1, struct_descriptor Group51Var2,
     struct_descriptor Group52Var1, struct_descriptor Group52Var2, struct_descriptor Group120Var4]"

definition CountParser_Process :: "HeaderRecord \<Rightarrow> uint16 \<Rightarrow> Descriptor \<Rightarrow> bytes \<Rightarrow> ParserOutput" where
  "CountParser_Process record1 cnt d buffer =
     (let requiredSize = unat cnt * d_size d
      in if length buffer < requiredSize then (NOT_ENOUGH_DATA_FOR_OBJECTS, buffer, [])
      else (PR_OK, drop requiredSize buffer,
        [OnCountOf record1 cnt (d_target d) (CreateBufferedCollection buffer (unat cnt) (\<lambda>_. d_read d))]))"

definition CountParser_ParseCountOfObjects :: "HeaderRecord \<Rightarrow> uint16 \<Rightarrow> bytes \<Rightarrow> ParserOutput" where
  "CountParser_ParseCountOfObjects record1 cnt buffer =
     (case map_of count_descriptors (gvr_enumeration record1) of
        Some d \<Rightarrow> CountParser_Process record1 cnt d buffer
      | None \<Rightarrow> (INVALID_OBJECT_QUALIFIER, buffer, []))"

definition CountParser_ParseHeader :: "IndexType \<Rightarrow> ParserSettings \<Rightarrow> HeaderRecord \<Rightarrow> bytes \<Rightarrow> ParserOutput" where
  "CountParser_ParseHeader np settings record1 buffer =
     (case ParseCount np buffer of (result, cnt, buffer) \<Rightarrow>
        if result = PR_OK
        then if expectContents settings then CountParser_ParseCountOfObjects record1 cnt buffer
          else (PR_OK, buffer, [OnCount record1 cnt])
        else (result, buffer, []))"

section \<open>\<^verbatim>\<open>RangeParser\<close>\<close>

record RangeParser =
  rp_target :: Target
  rp_requiredSize :: nat
  rp_read :: "nat \<Rightarrow> bytes \<Rightarrow> (Item \<times> bytes) option"

definition FromFixedSize :: "Descriptor \<Rightarrow> Range \<Rightarrow> RangeParser" where
  "FromFixedSize d rng =
     \<lparr>rp_target = d_target d, rp_requiredSize = unat (Range_Count rng) * d_size d, rp_read = (\<lambda>pos. d_read d)\<rparr>"

definition FromBitfieldType :: "Target \<Rightarrow> (bool \<Rightarrow> Item) \<Rightarrow> Range \<Rightarrow> RangeParser" where
  "FromBitfieldType target mk rng =
     \<lparr>rp_target = target, rp_requiredSize = NumBytesInBits (unat (Range_Count rng)),
      rp_read = (\<lambda>pos buffer. map_option (\<lambda>b. (mk b, buffer)) (GetBit buffer pos))\<rparr>"

definition FromDoubleBitfieldType :: "Target \<Rightarrow> (DoubleBit \<Rightarrow> Item) \<Rightarrow> Range \<Rightarrow> RangeParser" where
  "FromDoubleBitfieldType target mk rng =
     \<lparr>rp_target = target, rp_requiredSize = NumBytesInDoubleBits (unat (Range_Count rng)),
      rp_read = (\<lambda>pos buffer. map_option (\<lambda>b. (mk b, buffer)) (GetDoubleBit buffer pos))\<rparr>"

definition BitMeasurement :: "bool \<Rightarrow> Item" where
  "BitMeasurement v = It_Measurement (Measurement_make (BoolValue v) QUALITY_ONLINE 0)"

definition DoubleBitMeasurement :: "DoubleBit \<Rightarrow> Item" where
  "DoubleBitMeasurement v = It_Measurement (Measurement_make (DoubleBitValue v) QUALITY_ONLINE 0)"

definition range_descriptors :: "(GroupVariation \<times> Descriptor) list" where
  "range_descriptors =
     map (\<lambda>(t, c). descriptor (T_Measurement t) It_Measurement c)
       [(ET_Binary, Group1Var2), (ET_DoubleBitBinary, Group3Var2), (ET_BinaryOutputStatus, Group10Var2),
        (ET_Counter, Group20Var1), (ET_Counter, Group20Var2), (ET_Counter, Group20Var5), (ET_Counter, Group20Var6),
        (ET_FrozenCounter, Group21Var1), (ET_FrozenCounter, Group21Var2), (ET_FrozenCounter, Group21Var5),
        (ET_FrozenCounter, Group21Var6), (ET_FrozenCounter, Group21Var9), (ET_FrozenCounter, Group21Var10),
        (ET_Analog, Group30Var1), (ET_Analog, Group30Var2), (ET_Analog, Group30Var3), (ET_Analog, Group30Var4),
        (ET_Analog, Group30Var5), (ET_Analog, Group30Var6),
        (ET_AnalogOutputStatus, Group40Var1), (ET_AnalogOutputStatus, Group40Var2), (ET_AnalogOutputStatus, Group40Var3),
        (ET_AnalogOutputStatus, Group40Var4)]
     @ [descriptor T_TimeAndInterval It_TimeAndInterval Group50Var4, struct_descriptor Group121Var1]"

definition RangeParser_select :: "GroupVariation \<Rightarrow> Range \<Rightarrow> RangeParser option" where
  "RangeParser_select enumeration rng =
     (if enumeration = GroupVar 1 1 then Some (FromBitfieldType (T_Measurement ET_Binary) BitMeasurement rng)
      else if enumeration = GroupVar 3 1 then Some (FromDoubleBitfieldType (T_Measurement ET_DoubleBitBinary) DoubleBitMeasurement rng)
      else if enumeration = GroupVar 10 1 then Some (FromBitfieldType (T_Measurement ET_BinaryOutputStatus) BitMeasurement rng)
      else if enumeration = GroupVar 80 1 then Some (FromBitfieldType T_IINValue It_IINValue rng)
      else map_option (\<lambda>d. FromFixedSize d rng) (map_of range_descriptors enumeration))"

text \<open>The lambdas of the handlers: a value with the index \<^verbatim>\<open>range.start + pos\<close>, a \<^verbatim>\<open>uint16_t\<close>.\<close>

definition with_range_index :: "Range \<Rightarrow> (nat \<Rightarrow> bytes \<Rightarrow> (Item \<times> bytes) option) \<Rightarrow> nat \<Rightarrow> bytes \<Rightarrow> (IndexedItem \<times> bytes) option" where
  "with_range_index rng rd pos buffer = map_option (map_prod (\<lambda>v. (v, rg_start rng + of_nat pos)) id) (rd pos buffer)"

definition RangeParser_Process :: "HeaderRecord \<Rightarrow> Range \<Rightarrow> RangeParser \<Rightarrow> bytes \<Rightarrow> ParserOutput" where
  "RangeParser_Process record1 rng rp buffer =
     (if length buffer < rp_requiredSize rp then (NOT_ENOUGH_DATA_FOR_OBJECTS, buffer, [])
      else (PR_OK, drop (rp_requiredSize rp) buffer,
        [OnRangeOf record1 rng (rp_target rp)
          (CreateBufferedCollection buffer (unat (Range_Count rng)) (with_range_index rng (rp_read rp)))]))"

definition octets_read :: "nat \<Rightarrow> bytes \<Rightarrow> (Item \<times> bytes) option" where
  "octets_read n buffer = (if length buffer < n then None else Some (It_OctetString (take n buffer), drop n buffer))"

definition ParseRangeOfOctetData :: "HeaderRecord \<Rightarrow> Range \<Rightarrow> bytes \<Rightarrow> ParserOutput" where
  "ParseRangeOfOctetData record1 rng buffer =
     (if gvr_variation record1 > 0
      then let cnt = unat (Range_Count rng); size = unat (gvr_variation record1) * cnt
        in if length buffer < size then (NOT_ENOUGH_DATA_FOR_OBJECTS, buffer, [])
        else (PR_OK, drop size buffer,
          [OnRangeOf record1 rng T_OctetString
            (CreateBufferedCollection buffer cnt (with_range_index rng (\<lambda>_. octets_read (unat (gvr_variation record1)))))])
      else (INVALID_OBJECT, buffer, []))"

definition ParseRangeOfObjects :: "HeaderRecord \<Rightarrow> Range \<Rightarrow> bytes \<Rightarrow> ParserOutput" where
  "ParseRangeOfObjects record1 rng buffer =
     (if gvr_enumeration record1 = GroupVar 110 0 then ParseRangeOfOctetData record1 rng buffer
      else case RangeParser_select (gvr_enumeration record1) rng of
        Some rp \<Rightarrow> RangeParser_Process record1 rng rp buffer
      | None \<Rightarrow> (INVALID_OBJECT_QUALIFIER, buffer, []))"

definition RangeParser_ParseHeader :: "IndexType \<Rightarrow> ParserSettings \<Rightarrow> HeaderRecord \<Rightarrow> bytes \<Rightarrow> ParserOutput" where
  "RangeParser_ParseHeader np settings record1 buffer =
     (case ParseRange np buffer of (result, rng, buffer) \<Rightarrow>
        if result = PR_OK
        then if expectContents settings then ParseRangeOfObjects record1 rng buffer
          else (PR_OK, buffer, [OnRange record1 rng])
        else (result, buffer, []))"

section \<open>\<^verbatim>\<open>CountIndexParser\<close>\<close>

definition prefix_descriptors :: "(GroupVariation \<times> Descriptor) list" where
  "prefix_descriptors =
     map (\<lambda>(t, c). descriptor (T_Measurement t) It_Measurement c)
       [(ET_Binary, Group2Var1), (ET_Binary, Group2Var2), (ET_Binary, Group2Var3),
        (ET_DoubleBitBinary, Group4Var1), (ET_DoubleBitBinary, Group4Var2), (ET_DoubleBitBinary, Group4Var3),
        (ET_BinaryOutputStatus, Group11Var1), (ET_BinaryOutputStatus, Group11Var2),
        (ET_Counter, Group22Var1), (ET_Counter, Group22Var2), (ET_Counter, Group22Var5), (ET_Counter, Group22Var6),
        (ET_FrozenCounter, Group23Var1), (ET_FrozenCounter, Group23Var2), (ET_FrozenCounter, Group23Var5),
        (ET_FrozenCounter, Group23Var6),
        (ET_Analog, Group32Var1), (ET_Analog, Group32Var2), (ET_Analog, Group32Var3), (ET_Analog, Group32Var4),
        (ET_Analog, Group32Var5), (ET_Analog, Group32Var6), (ET_Analog, Group32Var7), (ET_Analog, Group32Var8),
        (ET_AnalogOutputStatus, Group42Var1), (ET_AnalogOutputStatus, Group42Var2), (ET_AnalogOutputStatus, Group42Var3),
        (ET_AnalogOutputStatus, Group42Var4), (ET_AnalogOutputStatus, Group42Var5), (ET_AnalogOutputStatus, Group42Var6),
        (ET_AnalogOutputStatus, Group42Var7), (ET_AnalogOutputStatus, Group42Var8)]
     @ [descriptor T_ControlRelayOutputBlock It_ControlRelayOutputBlock Group12Var1]
     @ map (descriptor T_BinaryCommandEvent It_BinaryCommandEvent) [Group13Var1, Group13Var2]
     @ [descriptor T_AnalogOutputInt32 It_AnalogOutputInt32 Group41Var1, descriptor T_AnalogOutputInt16 It_AnalogOutputInt16 Group41Var2,
        descriptor T_AnalogOutputFloat32 It_AnalogOutputFloat32 Group41Var3,
        descriptor T_AnalogOutputDouble64 It_AnalogOutputDouble64 Group41Var4]
     @ map (descriptor T_AnalogCommandEvent It_AnalogCommandEvent)
         [Group43Var1, Group43Var2, Group43Var3, Group43Var4, Group43Var5, Group43Var6, Group43Var7, Group43Var8]
     @ [descriptor T_TimeAndInterval It_TimeAndInterval Group50Var4, struct_descriptor Group122Var1, struct_descriptor Group122Var2]"

definition with_prefix_index :: "IndexType \<Rightarrow> (bytes \<Rightarrow> (Item \<times> bytes) option) \<Rightarrow> nat \<Rightarrow> bytes \<Rightarrow> (IndexedItem \<times> bytes) option" where
  "with_prefix_index np rd pos buffer =
     (case NumParser_Read np buffer of
        None \<Rightarrow> None
      | Some (index, buffer) \<Rightarrow> map_option (map_prod (\<lambda>v. (v, index)) id) (rd buffer))"

definition CountIndexParser_Process :: "HeaderRecord \<Rightarrow> uint16 \<Rightarrow> IndexType \<Rightarrow> Descriptor \<Rightarrow> bytes \<Rightarrow> ParserOutput" where
  "CountIndexParser_Process record1 cnt np d buffer =
     (let requiredSize = unat cnt * (d_size d + index_size np)
      in if length buffer < requiredSize then (NOT_ENOUGH_DATA_FOR_OBJECTS, buffer, [])
      else (PR_OK, drop requiredSize buffer,
        [OnPrefixOf record1 cnt (d_target d) (CreateBufferedCollection buffer (unat cnt) (with_prefix_index np (d_read d)))]))"

definition ParseIndexPrefixedOctetData :: "HeaderRecord \<Rightarrow> IndexType \<Rightarrow> uint16 \<Rightarrow> bytes \<Rightarrow> ParserOutput" where
  "ParseIndexPrefixedOctetData record1 np cnt buffer =
     (if gvr_variation record1 = 0 then (INVALID_OBJECT, buffer, [])
      else let total = unat cnt * (index_size np + unat (gvr_variation record1))
        in if length buffer < total then (NOT_ENOUGH_DATA_FOR_OBJECTS, buffer, [])
        else (PR_OK, drop total buffer,
          [OnPrefixOf record1 cnt T_OctetString
            (CreateBufferedCollection buffer (unat cnt) (with_prefix_index np (octets_read (unat (gvr_variation record1)))))]))"

definition CountIndexParser_ParseCountOfObjects :: "HeaderRecord \<Rightarrow> IndexType \<Rightarrow> uint16 \<Rightarrow> bytes \<Rightarrow> ParserOutput" where
  "CountIndexParser_ParseCountOfObjects record1 np cnt buffer =
     (if gvr_enumeration record1 = GroupVar 111 0 then ParseIndexPrefixedOctetData record1 np cnt buffer
      else case map_of prefix_descriptors (gvr_enumeration record1) of
        Some d \<Rightarrow> CountIndexParser_Process record1 cnt np d buffer
      | None \<Rightarrow> (INVALID_OBJECT_QUALIFIER, buffer, []))"

definition CountIndexParser_ParseHeader :: "IndexType \<Rightarrow> ParserSettings \<Rightarrow> HeaderRecord \<Rightarrow> bytes \<Rightarrow> ParserOutput" where
  "CountIndexParser_ParseHeader np settings record1 buffer =
     (case ParseCount np buffer of (result, cnt, buffer) \<Rightarrow>
        if result = PR_OK then CountIndexParser_ParseCountOfObjects record1 np cnt buffer else (result, buffer, []))"

section \<open>\<^verbatim>\<open>FreeFormatParser\<close>\<close>

definition free_format_variations :: "uint8 list" where
  "free_format_variations = [1, 2, 5, 6, 7, 10, 11, 12, 13, 14, 15]"

definition FreeFormatParser_ParseHeader :: "ParserSettings \<Rightarrow> HeaderRecord \<Rightarrow> bytes \<Rightarrow> ParserOutput" where
  "FreeFormatParser_ParseHeader settings record1 buffer =
     (if length buffer < 3 then (NOT_ENOUGH_DATA_FOR_HEADER, buffer, [])
      else let cnt = buffer ! 0; size = unat (Bit16LE_Read (drop 1 buffer)); buffer = drop 3 buffer
        in if cnt \<noteq> 1 then (UNREASONABLE_OBJECT_COUNT, buffer, [])
        else if length buffer < size then (NOT_ENOUGH_DATA_FOR_OBJECTS, buffer, [])
        else let copy = take size buffer; buffer = drop size buffer
          in case find (\<lambda>v. gvr_enumeration record1 = GetGroupVar 120 v) free_format_variations of
               None \<Rightarrow> (INVALID_OBJECT_QUALIFIER, buffer, [])
             | Some v \<Rightarrow> (case AuthObject_Read v copy of
                 Some obj \<Rightarrow> (PR_OK, buffer, [OnFreeFormat record1 obj copy])
               | None \<Rightarrow> (NOT_ENOUGH_DATA_FOR_OBJECTS, buffer, [])))"

section \<open>\<^verbatim>\<open>ObjectHeaderParser\<close> and \<^verbatim>\<open>APDUParser\<close>\<close>

definition ParseObjectHeader :: "bytes \<Rightarrow> ((uint8 \<times> uint8 \<times> uint8) \<times> bytes) option" where
  "ParseObjectHeader buffer =
     (if length buffer < 3 then None else Some ((buffer ! 0, buffer ! 1, buffer ! 2), drop 3 buffer))"

definition ReadFirstGroupVariation :: "bytes \<Rightarrow> GroupVariation option" where
  "ReadFirstGroupVariation buffer =
     (case ParseObjectHeader buffer of
        None \<Rightarrow> None
      | Some ((grp, variation, qualifier), rest) \<Rightarrow> Some (gvr_enumeration (GetRecord grp variation)))"

definition ParseQualifier :: "ParserSettings \<Rightarrow> HeaderRecord \<Rightarrow> bytes \<Rightarrow> ParserOutput" where
  "ParseQualifier settings record1 buffer =
     (case GetQualifierCode record1 of
        ALL_OBJECTS \<Rightarrow> (PR_OK, buffer, [OnAllObjects record1])
      | UINT8_CNT \<Rightarrow> CountParser_ParseHeader Index8 settings record1 buffer
      | UINT16_CNT \<Rightarrow> CountParser_ParseHeader Index16 settings record1 buffer
      | UINT8_START_STOP \<Rightarrow> RangeParser_ParseHeader Index8 settings record1 buffer
      | UINT16_START_STOP \<Rightarrow> RangeParser_ParseHeader Index16 settings record1 buffer
      | UINT8_CNT_UINT8_INDEX \<Rightarrow> CountIndexParser_ParseHeader Index8 settings record1 buffer
      | UINT16_CNT_UINT16_INDEX \<Rightarrow> CountIndexParser_ParseHeader Index16 settings record1 buffer
      | UINT16_FREE_FORMAT \<Rightarrow> FreeFormatParser_ParseHeader settings record1 buffer
      | QC_UNDEFINED \<Rightarrow> (UNKNOWN_QUALIFIER, buffer, []))"

type_synonym WhiteList = "uint32 \<Rightarrow> GroupVariation \<Rightarrow> QualifierCode \<Rightarrow> bool"

definition APDUParser_ParseHeader :: "WhiteList option \<Rightarrow> ParserSettings \<Rightarrow> uint32 \<Rightarrow> bytes \<Rightarrow> ParserOutput" where
  "APDUParser_ParseHeader whiteList settings cnt buffer =
     (case ParseObjectHeader buffer of
        None \<Rightarrow> (NOT_ENOUGH_DATA_FOR_HEADER, buffer, [])
      | Some ((grp, variation, qualifier), buffer) \<Rightarrow>
          let gv = GetRecord grp variation
          in if gvr_enumeration gv = GroupVariation_UNKNOWN then (UNKNOWN_OBJECT, buffer, [])
             else if (case whiteList of None \<Rightarrow> False
               | Some isAllowed \<Rightarrow> \<not> isAllowed cnt (gvr_enumeration gv) (QualifierCodeFromType qualifier))
             then (NOT_ON_WHITELIST, buffer, [])
             else ParseQualifier settings (HeaderRecord_make gv qualifier cnt) buffer)"

text \<open>A header that is parsed takes at least its three octets off the buffer, so the loop over the headers ends.\<close>

definition shrinks :: "nat \<Rightarrow> ParserOutput \<Rightarrow> bool" where
  "shrinks n out \<longleftrightarrow> length (fst (snd out)) \<le> n"

lemma ReadNum_length [simp]: "length (snd (ReadNum np buffer)) = length buffer - index_size np"
  by (cases np) simp_all

lemma ParseCount_shrinks: "ParseCount np buffer = (r, cnt, rest) \<Longrightarrow> length rest \<le> length buffer"
  by (cases np) (auto simp: ParseCount_def NumParser_Read_def split: if_splits prod.splits)

lemma ParseRange_shrinks: "ParseRange np buffer = (r, rng, rest) \<Longrightarrow> length rest \<le> length buffer"
  by (cases np) (auto simp: ParseRange_def Let_def split: if_splits prod.splits)

lemma CountParser_shrinks: "shrinks (length buffer) (CountParser_ParseHeader np settings record1 buffer)"
  by (auto simp: shrinks_def CountParser_ParseHeader_def CountParser_ParseCountOfObjects_def CountParser_Process_def Let_def
      dest!: ParseCount_shrinks split: prod.split option.split)

lemma RangeParser_shrinks: "shrinks (length buffer) (RangeParser_ParseHeader np settings record1 buffer)"
  by (auto simp: shrinks_def RangeParser_ParseHeader_def ParseRangeOfObjects_def ParseRangeOfOctetData_def RangeParser_Process_def
      Let_def dest!: ParseRange_shrinks split: prod.split option.split)

lemma CountIndexParser_shrinks: "shrinks (length buffer) (CountIndexParser_ParseHeader np settings record1 buffer)"
  by (auto simp: shrinks_def CountIndexParser_ParseHeader_def CountIndexParser_ParseCountOfObjects_def
      ParseIndexPrefixedOctetData_def CountIndexParser_Process_def Let_def dest!: ParseCount_shrinks split: prod.split option.split)

lemma FreeFormatParser_shrinks: "shrinks (length buffer) (FreeFormatParser_ParseHeader settings record1 buffer)"
  by (auto simp: shrinks_def FreeFormatParser_ParseHeader_def Let_def split: option.split)

lemma ParseQualifier_shrinks: "shrinks (length buffer) (ParseQualifier settings record1 buffer)"
  by (simp add: ParseQualifier_def CountParser_shrinks RangeParser_shrinks CountIndexParser_shrinks FreeFormatParser_shrinks
      split: QualifierCode.split) (simp add: shrinks_def)

lemma APDUParser_ParseHeader_shrinks:
  assumes "APDUParser_ParseHeader whiteList settings cnt buffer = (PR_OK, rest, calls)"
  shows "length rest + 3 \<le> length buffer"
proof -
  from assms obtain record1 where room: "3 \<le> length buffer" and "ParseQualifier settings record1 (drop 3 buffer) = (PR_OK, rest, calls)"
    by (auto simp: APDUParser_ParseHeader_def ParseObjectHeader_def Let_def split: if_splits option.splits)
  with ParseQualifier_shrinks[of "drop 3 buffer" settings record1] show ?thesis by (simp add: shrinks_def)
qed

text \<open>
  \<^verbatim>\<open>ParseSinglePass\<close> with the number of the current header.  A pass without a handler makes the same decisions and
  drops the calls.
\<close>

function ParseSinglePass :: "WhiteList option \<Rightarrow> ParserSettings \<Rightarrow> uint32 \<Rightarrow> bytes \<Rightarrow> ParseResult \<times> HandlerCall list" where
  "ParseSinglePass whiteList settings cnt copy =
     (if copy = [] then (PR_OK, [])
      else case APDUParser_ParseHeader whiteList settings cnt copy of (result, copy, calls) \<Rightarrow>
        if result \<noteq> PR_OK then (result, calls)
        else case ParseSinglePass whiteList settings (cnt + 1) copy of (result, more_calls) \<Rightarrow> (result, calls @ more_calls))"
  by pat_completeness auto
termination
  by (relation "measure (\<lambda>(_, _, _, copy). length copy)") (auto dest!: sym[THEN APDUParser_ParseHeader_shrinks])

declare ParseSinglePass.simps [simp del]

definition APDUParser_Parse :: "WhiteList \<Rightarrow> ParserSettings \<Rightarrow> bytes \<Rightarrow> ParseResult \<times> HandlerCall list" where
  "APDUParser_Parse isAllowed settings buffer =
     (let result = fst (ParseSinglePass (Some isAllowed) settings 0 buffer)
      in if result = PR_OK then ParseSinglePass None settings 0 buffer else (result, []))"

definition ParseAndLogAll :: "ParserSettings \<Rightarrow> bytes \<Rightarrow> ParseResult" where
  "ParseAndLogAll settings buffer = fst (ParseSinglePass None settings 0 buffer)"

end
