(* ===== verification/ParserSafety.thy ===== *)
theory ParserSafety
  imports ObjectParser
begin

text \<open>
  What a handler may rely on: every collection it is given can be iterated without reading past the buffer, has as many
  values as its header says, of the type that selected the overload, and the headers come in order and passed the
  white-list.
\<close>

section \<open>Iterating a collection\<close>

lemma Foreach_total:
  assumes step: "\<And>pos buf. pos < N \<Longrightarrow> I pos buf \<Longrightarrow> \<exists>v buf'. rd pos buf = Some (v, buf') \<and> I (Suc pos) buf' \<and> P pos v"
    and "pos + n = N" "I pos buf"
  shows "\<exists>xs. BufferedCollection_Foreach rd pos n buf = Some xs \<and> length xs = n \<and> (\<forall>i<n. P (pos + i) (xs ! i))"
  using assms(2,3)
proof (induction n arbitrary: pos buf)
  case 0
  then show ?case by simp
next
  case (Suc n)
  obtain v buf' where v: "rd pos buf = Some (v, buf')" "I (Suc pos) buf'" "P pos v"
    using step[of pos buf] Suc.prems by auto
  obtain xs where xs: "BufferedCollection_Foreach rd (Suc pos) n buf' = Some xs" "length xs = n" "\<forall>i<n. P (Suc pos + i) (xs ! i)"
    using Suc.IH[of "Suc pos" buf'] Suc.prems v(2) by auto
  have "\<forall>i<Suc n. P (pos + i) ((v # xs) ! i)" using v(3) xs(3) by (auto simp: nth_Cons split: nat.split)
  with v xs show ?case by auto
qed

lemma collection_fixed:
  assumes "\<And>pos buf. sz \<le> length buf \<Longrightarrow> \<exists>v. rd pos buf = Some (v, drop sz buf) \<and> P pos v" "n * sz \<le> length buffer"
  shows "\<exists>xs. CreateBufferedCollection buffer n rd = Some xs \<and> length xs = n \<and> (\<forall>i<n. P i (xs ! i))"
proof -
  have "\<exists>v buf'. rd pos buf = Some (v, buf') \<and> (n - Suc pos) * sz \<le> length buf' \<and> P pos v"
    if pos: "pos < n" and room: "(n - pos) * sz \<le> length buf" for pos buf
  proof -
    have split: "(n - pos) * sz = sz + (n - Suc pos) * sz" using pos by (simp add: Suc_diff_Suc flip: mult_Suc)
    then have "sz \<le> length buf" using room by simp
    from assms(1)[OF this, of pos] obtain v where "rd pos buf = Some (v, drop sz buf)" "P pos v" by blast
    moreover have "(n - Suc pos) * sz \<le> length (drop sz buf)" using split room by simp
    ultimately show ?thesis by blast
  qed
  from Foreach_total[where I = "\<lambda>pos buf. (n - pos) * sz \<le> length buf" and P = P and N = n and pos = 0 and n = n, OF this] assms(2)
  show ?thesis by (simp add: CreateBufferedCollection_def)
qed

lemma collection_bits:
  assumes "\<And>pos. pos < n \<Longrightarrow> \<exists>v. rd pos buffer = Some (v, buffer) \<and> P pos v"
  shows "\<exists>xs. CreateBufferedCollection buffer n rd = Some xs \<and> length xs = n \<and> (\<forall>i<n. P i (xs ! i))"
  using Foreach_total[where I = "\<lambda>pos buf. buf = buffer" and P = P and N = n and pos = 0 and n = n and rd = rd and buf = buffer] assms
  by (simp add: CreateBufferedCollection_def)

section \<open>The types of the values\<close>

fun has_type :: "Target \<Rightarrow> Item \<Rightarrow> bool" where
  "has_type t (It_Measurement m) = (case t of T_Measurement et \<Rightarrow> value_fits et (m_value m) | _ \<Rightarrow> False)"
| "has_type t (It_TimeAndInterval v) = (t = T_TimeAndInterval)"
| "has_type t (It_BinaryCommandEvent v) = (t = T_BinaryCommandEvent)"
| "has_type t (It_AnalogCommandEvent v) = (t = T_AnalogCommandEvent)"
| "has_type t (It_ControlRelayOutputBlock v) = (t = T_ControlRelayOutputBlock)"
| "has_type t (It_AnalogOutputInt16 v) = (t = T_AnalogOutputInt16)"
| "has_type t (It_AnalogOutputInt32 v) = (t = T_AnalogOutputInt32)"
| "has_type t (It_AnalogOutputFloat32 v) = (t = T_AnalogOutputFloat32)"
| "has_type t (It_AnalogOutputDouble64 v) = (t = T_AnalogOutputDouble64)"
| "has_type t (It_OctetString v) = (t = T_OctetString \<and> 0 < length v \<and> length v \<le> 255)"
| "has_type t (It_IINValue v) = (t = T_IINValue)"
| "has_type t (It_Struct fs) = (case t of T_Struct gv \<Rightarrow> True | _ \<Rightarrow> False)"

definition d_ok :: "Descriptor \<Rightarrow> bool" where
  "d_ok d \<longleftrightarrow> (\<forall>buf. d_size d \<le> length buf \<longrightarrow> (\<exists>it. d_read d buf = Some (it, drop (d_size d) buf) \<and> has_type (d_target d) it))"

lemma Parse_Many_drop:
  assumes "fields_size ts \<le> length buf"
  shows "\<exists>fs. Parse_Many ts buf = Some (fs, drop (fields_size ts) buf)"
  using Parse_Many_total[OF assms] Parse_Many_size[of ts buf] by fastforce

lemma descriptor_ok:
  assumes "fields_size (oc_fields c) = oc_size c"
    and "\<And>fs. map field_type fs = oc_fields c \<Longrightarrow> has_type t (f (oc_factory c fs))"
  shows "d_ok (snd (descriptor t f c))"
proof -
  have "\<exists>it. map_option (map_prod f id) (ReadTarget c buf) = Some (it, drop (oc_size c) buf) \<and> has_type t it"
    if room: "oc_size c \<le> length buf" for buf
  proof -
    obtain fs where fs: "Parse_Many (oc_fields c) buf = Some (fs, drop (oc_size c) buf)"
      using Parse_Many_drop[of "oc_fields c" buf] room assms(1) by auto
    with assms(2)[of fs] Parse_Many_size[OF fs] show ?thesis by (auto simp: ReadTarget_def)
  qed
  then show ?thesis by (simp add: d_ok_def descriptor_def)
qed

lemma struct_descriptor_ok:
  assumes "fields_size (oc_fields c) = oc_size c"
  shows "d_ok (snd (struct_descriptor c))"
  using Parse_Many_drop[of "oc_fields c"] assms by (fastforce simp: d_ok_def struct_descriptor_def)

lemma field_type_iff:
  "field_type f = U8 \<longleftrightarrow> (\<exists>v. f = FU8 v)" "field_type f = U16 \<longleftrightarrow> (\<exists>v. f = FU16 v)" "field_type f = U32 \<longleftrightarrow> (\<exists>v. f = FU32 v)"
  "field_type f = U48 \<longleftrightarrow> (\<exists>v. f = FU48 v)" "field_type f = I16 \<longleftrightarrow> (\<exists>v. f = FI16 v)" "field_type f = I32 \<longleftrightarrow> (\<exists>v. f = FI32 v)"
  "field_type f = Float32 \<longleftrightarrow> (\<exists>v. f = FFloat v)" "field_type f = Double64 \<longleftrightarrow> (\<exists>v. f = FDouble v)"
  by (cases f; simp)+

definition factory_ok :: "EventType \<Rightarrow> Measurement ObjectCodec \<Rightarrow> bool" where
  "factory_ok t c \<longleftrightarrow> (\<forall>fs. map field_type fs = oc_fields c \<longrightarrow> value_fits t (m_value (oc_factory c fs)))"

lemma binary_factory_ok:
  "factory_ok ET_Binary \<lparr>oc_id = i, oc_size = n, oc_fields = [U8], oc_convert = cv, oc_factory = BinaryFactory\<rparr>"
  "factory_ok ET_Binary \<lparr>oc_id = i, oc_size = n, oc_fields = [U8, U48], oc_convert = cv, oc_factory = BinaryFactory\<rparr>"
  "factory_ok ET_Binary \<lparr>oc_id = i, oc_size = n, oc_fields = [U8, U16], oc_convert = cv, oc_factory = BinaryFactory\<rparr>"
  "factory_ok ET_DoubleBitBinary \<lparr>oc_id = i, oc_size = n, oc_fields = [U8], oc_convert = cv, oc_factory = DoubleBitBinaryFactory\<rparr>"
  "factory_ok ET_DoubleBitBinary \<lparr>oc_id = i, oc_size = n, oc_fields = [U8, U48], oc_convert = cv, oc_factory = DoubleBitBinaryFactory\<rparr>"
  "factory_ok ET_DoubleBitBinary \<lparr>oc_id = i, oc_size = n, oc_fields = [U8, U16], oc_convert = cv, oc_factory = DoubleBitBinaryFactory\<rparr>"
  "factory_ok ET_BinaryOutputStatus \<lparr>oc_id = i, oc_size = n, oc_fields = [U8], oc_convert = cv, oc_factory = BinaryOutputStatusFactory\<rparr>"
  "factory_ok ET_BinaryOutputStatus \<lparr>oc_id = i, oc_size = n, oc_fields = [U8, U48], oc_convert = cv, oc_factory = BinaryOutputStatusFactory\<rparr>"
  by (auto simp: factory_ok_def map_eq_Cons_conv field_type_iff Binary_of_flags_def DoubleBitBinary_of_flags_def BinaryOutputStatus_of_flags_def)

lemma counter_factory_ok:
  assumes "t = ET_Counter \<and> f = CounterFactory \<or> t = ET_FrozenCounter \<and> f = FrozenCounterFactory" "w = U32 \<or> w = U16"
  shows "factory_ok t \<lparr>oc_id = i, oc_size = n, oc_fields = [w], oc_convert = cv, oc_factory = f\<rparr>"
    "factory_ok t \<lparr>oc_id = i, oc_size = n, oc_fields = [U8, w], oc_convert = cv, oc_factory = f\<rparr>"
    "factory_ok t \<lparr>oc_id = i, oc_size = n, oc_fields = [U8, w, U48], oc_convert = cv, oc_factory = f\<rparr>"
  using assms by (auto simp: factory_ok_def map_eq_Cons_conv field_type_iff)

lemma analog_factory_ok:
  assumes "w \<in> {I32, I16, Float32, Double64}"
  shows "factory_ok ET_Analog \<lparr>oc_id = i, oc_size = n, oc_fields = [w], oc_convert = cv, oc_factory = AnalogFactory\<rparr>"
    "factory_ok ET_Analog \<lparr>oc_id = i, oc_size = n, oc_fields = [U8, w], oc_convert = cv, oc_factory = AnalogFactory\<rparr>"
    "factory_ok ET_Analog \<lparr>oc_id = i, oc_size = n, oc_fields = [U8, w, U48], oc_convert = cv, oc_factory = AnalogFactory\<rparr>"
    "factory_ok ET_AnalogOutputStatus \<lparr>oc_id = i, oc_size = n, oc_fields = [U8, w], oc_convert = cv, oc_factory = AnalogOutputStatusFactory\<rparr>"
    "factory_ok ET_AnalogOutputStatus \<lparr>oc_id = i, oc_size = n, oc_fields = [U8, w, U48], oc_convert = cv, oc_factory = AnalogOutputStatusFactory\<rparr>"
  using assms by (auto simp: factory_ok_def map_eq_Cons_conv field_type_iff)

lemma security_factory_ok:
  "factory_ok ET_SecurityStat \<lparr>oc_id = i, oc_size = n, oc_fields = [U8, U16, U32], oc_convert = cv, oc_factory = SecurityStatFactory\<rparr>"
  "factory_ok ET_SecurityStat \<lparr>oc_id = i, oc_size = n, oc_fields = [U8, U16, U32, U48], oc_convert = cv, oc_factory = SecurityStatFactory\<rparr>"
  by (auto simp: factory_ok_def map_eq_Cons_conv field_type_iff)

lemma objects_factory_ok: "(t, c) \<in> set objects \<Longrightarrow> factory_ok t c"
proof -
  have "list_all (\<lambda>(t, cs). list_all (factory_ok t) cs) objects_of"
    unfolding objects_of_def object_defs
    by (simp add: binary_factory_ok counter_factory_ok analog_factory_ok security_factory_ok del: One_nat_def)
  then show "(t, c) \<in> set objects \<Longrightarrow> factory_ok t c"
    by (auto simp: objects_def list_all_iff)
qed

lemma measurement_descriptor_ok:
  assumes "(t, c) \<in> set objects"
  shows "d_ok (snd (descriptor (T_Measurement t) It_Measurement c))"
  by (rule descriptor_ok) (use objects_ok[OF assms] objects_factory_ok[OF assms] in \<open>simp_all add: object_ok_def factory_ok_def\<close>)

lemma count_descriptors_ok: "list_all (\<lambda>e. d_ok (snd e)) count_descriptors"
  unfolding count_descriptors_def list.pred_inject
  by (intro conjI TrueI struct_descriptor_ok)
    (simp_all add: Group50Var1_def Group51Var1_def Group51Var2_def Group52Var1_def Group52Var2_def Group120Var4_def)

lemma range_descriptors_ok: "list_all (\<lambda>e. d_ok (snd e)) range_descriptors"
  unfolding range_descriptors_def list.simps(8,9) list_all_append list.pred_inject append.simps prod.case
  by (intro conjI TrueI measurement_descriptor_ok struct_descriptor_ok descriptor_ok)
    (simp_all add: objects_members Group50Var4_def Group121Var1_def)

lemma prefix_descriptors_ok: "list_all (\<lambda>e. d_ok (snd e)) prefix_descriptors"
  unfolding prefix_descriptors_def list.simps(8,9) list_all_append list.pred_inject append.simps prod.case
  by (intro conjI TrueI; (rule measurement_descriptor_ok, simp add: objects_members)?;
      (rule struct_descriptor_ok, simp add: Group122Var1_def Group122Var2_def)?; (rule descriptor_ok)?)
    (simp_all add: Group50Var4_def Group12Var1_def Group13Var1_def Group13Var2_def Group41Var1_def Group41Var2_def Group41Var3_def
      Group41Var4_def Group43Var1_def Group43Var2_def Group43Var3_def Group43Var4_def Group43Var5_def Group43Var6_def
      Group43Var7_def Group43Var8_def)

lemma map_of_ok: "list_all (\<lambda>e. d_ok (snd e)) ds \<Longrightarrow> map_of ds gv = Some d \<Longrightarrow> d_ok d"
  by (fastforce simp: list_all_iff dest: map_of_SomeD)

section \<open>The calls\<close>

fun call_header :: "HandlerCall \<Rightarrow> HeaderRecord" where
  "call_header (OnAllObjects record1) = record1"
| "call_header (OnRange record1 rng) = record1"
| "call_header (OnCount record1 cnt) = record1"
| "call_header (OnCountOf record1 cnt t vs) = record1"
| "call_header (OnRangeOf record1 rng t vs) = record1"
| "call_header (OnPrefixOf record1 cnt t vs) = record1"
| "call_header (OnFreeFormat record1 obj object) = record1"

text \<open>
  The collection is there, has the number of values the header says, of the type of the overload; the indices of a range
  are the range.
\<close>

fun call_ok :: "HandlerCall \<Rightarrow> bool" where
  "call_ok (OnAllObjects record1) = True"
| "call_ok (OnRange record1 rng) = Range_IsValid rng"
| "call_ok (OnCount record1 cnt) = (cnt \<noteq> 0)"
| "call_ok (OnCountOf record1 cnt t vs) =
     (cnt \<noteq> 0 \<and> (\<exists>xs. vs = Some xs \<and> length xs = unat cnt \<and> list_all (has_type t) xs))"
| "call_ok (OnRangeOf record1 rng t vs) =
     (Range_IsValid rng \<and> (\<exists>xs. vs = Some xs \<and> map snd xs = map of_nat [range_start rng..<Suc (range_stop rng)]
        \<and> list_all (\<lambda>x. has_type t (fst x)) xs))"
| "call_ok (OnPrefixOf record1 cnt t vs) =
     (cnt \<noteq> 0 \<and> (\<exists>xs. vs = Some xs \<and> length xs = unat cnt \<and> list_all (\<lambda>x. has_type t (fst x)) xs))"
| "call_ok (OnFreeFormat record1 obj object) = (AuthObject_Read (AuthObject_variation obj) object = Some obj
     \<and> gvr_enumeration record1 = GetGroupVar 120 (AuthObject_variation obj))"

definition out_ok :: "HeaderRecord \<Rightarrow> ParserOutput \<Rightarrow> bool" where
  "out_ok record1 out \<longleftrightarrow> (case out of (result, rest, calls) \<Rightarrow>
     if result = PR_OK then \<exists>c. calls = [c] \<and> call_header c = record1 \<and> call_ok c else calls = [])"

lemma out_ok_simps:
  "out_ok record1 (PR_OK, rest, [c]) \<longleftrightarrow> call_header c = record1 \<and> call_ok c"
  "result \<noteq> PR_OK \<Longrightarrow> out_ok record1 (result, rest, []) \<longleftrightarrow> True"
  by (simp_all add: out_ok_def)

lemma list_all_nth: "(\<forall>i<length xs. P (xs ! i)) \<longleftrightarrow> list_all P xs"
  by (simp add: list_all_length)

lemma ParseCount_nonzero: "ParseCount np buffer = (PR_OK, cnt, rest) \<Longrightarrow> cnt \<noteq> 0"
  by (auto simp: ParseCount_def split: option.splits if_splits)

lemma CountParser_Process_ok:
  assumes "d_ok d" "cnt \<noteq> 0"
  shows "out_ok record1 (CountParser_Process record1 cnt d buffer)"
proof (cases "length buffer < unat cnt * d_size d")
  case False
  have "\<exists>xs. CreateBufferedCollection buffer (unat cnt) (\<lambda>_. d_read d) = Some xs \<and> length xs = unat cnt \<and> (\<forall>i<unat cnt. has_type (d_target d) (xs ! i))"
    by (rule collection_fixed[where sz = "d_size d"]) (use assms(1) False in \<open>auto simp: d_ok_def\<close>)
  with assms(2) False show ?thesis by (auto simp: CountParser_Process_def out_ok_simps list_all_length)
qed (simp add: CountParser_Process_def out_ok_simps)

lemma CountParser_ok: "out_ok record1 (CountParser_ParseHeader np settings record1 buffer)"
  using ParseCount_nonzero map_of_ok[OF count_descriptors_ok]
  by (auto simp: CountParser_ParseHeader_def CountParser_ParseCountOfObjects_def out_ok_simps CountParser_Process_ok
      split: prod.split option.split)

lemma with_prefix_index_fixed:
  assumes "\<And>buf. sz \<le> length buf \<Longrightarrow> \<exists>it. rd buf = Some (it, drop sz buf) \<and> P it" "sz + index_size np \<le> length buf"
  shows "\<exists>v. with_prefix_index np rd pos buf = Some (v, drop (sz + index_size np) buf) \<and> P (fst v)"
proof -
  have "NumParser_Read np buf = Some (fst (ReadNum np buf), drop (index_size np) buf)"
    using assms(2) by (cases np) (auto simp: NumParser_Read_def)
  moreover have "sz \<le> length (drop (index_size np) buf)" using assms(2) by simp
  then obtain it where "rd (drop (index_size np) buf) = Some (it, drop sz (drop (index_size np) buf))" "P it"
    using assms(1) by blast
  ultimately show ?thesis by (simp add: with_prefix_index_def add.commute)
qed

lemma prefix_collection:
  assumes "\<And>buf. sz \<le> length buf \<Longrightarrow> \<exists>it. rd buf = Some (it, drop sz buf) \<and> P it" "n * (sz + index_size np) \<le> length buffer"
  shows "\<exists>xs. CreateBufferedCollection buffer n (with_prefix_index np rd) = Some xs \<and> length xs = n \<and> list_all (\<lambda>x. P (fst x)) xs"
proof -
  have "\<exists>xs. CreateBufferedCollection buffer n (with_prefix_index np rd) = Some xs \<and> length xs = n \<and> (\<forall>i<n. P (fst (xs ! i)))"
    by (rule collection_fixed[where sz = "sz + index_size np" and P = "\<lambda>_ x. P (fst x)"])
      (use assms with_prefix_index_fixed[of sz rd P np] in auto)
  then show ?thesis by (auto simp: list_all_length)
qed

lemma octets_read_ok:
  "0 < sz \<Longrightarrow> sz \<le> 255 \<Longrightarrow> sz \<le> length buf \<Longrightarrow> \<exists>it. octets_read sz buf = Some (it, drop sz buf) \<and> has_type T_OctetString it"
  by (simp add: octets_read_def)

lemma uint8_bounds: "(v :: uint8) \<noteq> 0 \<Longrightarrow> 0 < unat v" "unat (v :: uint8) \<le> 255"
  using unsigned_less[of v, where ?'a = nat] by (simp_all add: unat_gt_0)

lemma CountIndexParser_ok: "out_ok record1 (CountIndexParser_ParseHeader np settings record1 buffer)"
proof -
  have d: "out_ok record1 (CountIndexParser_Process record1 cnt np d buf)" if "d_ok d" "cnt \<noteq> 0" for d cnt buf
    using prefix_collection[of "d_size d" "d_read d" "has_type (d_target d)" "unat cnt" np buf] that
    by (auto simp: CountIndexParser_Process_def Let_def out_ok_simps d_ok_def)
  have o: "out_ok record1 (ParseIndexPrefixedOctetData record1 np cnt buf)" if "cnt \<noteq> 0" for cnt buf
    using prefix_collection[of "unat (gvr_variation record1)" "octets_read (unat (gvr_variation record1))" "has_type T_OctetString" "unat cnt" np buf]
      octets_read_ok[of "unat (gvr_variation record1)"] uint8_bounds[of "gvr_variation record1"] that
    by (auto simp: ParseIndexPrefixedOctetData_def Let_def out_ok_simps add.commute)
  show ?thesis using ParseCount_nonzero map_of_ok[OF prefix_descriptors_ok] d o
    by (auto simp: CountIndexParser_ParseHeader_def CountIndexParser_ParseCountOfObjects_def out_ok_simps split: prod.split option.split)
qed

lemma Range_Count_nat: "Range_IsValid rng \<Longrightarrow> unat (Range_Count rng) = Suc (range_stop rng) - range_start rng"
proof -
  have "{i. in_range i rng} = {range_start rng..range_stop rng}" by (auto simp: in_range_def)
  then show ?thesis by (simp add: Range_Count_in)
qed

lemma range_collection:
  assumes "\<exists>xs. CreateBufferedCollection buffer n rd = Some xs \<and> length xs = n \<and> (\<forall>i<n. P (fst (xs ! i)) \<and> snd (xs ! i) = rg_start rng + of_nat i)"
    and "Range_IsValid rng" "n = unat (Range_Count rng)"
  shows "\<exists>xs. CreateBufferedCollection buffer n rd = Some xs \<and> map snd xs = map of_nat [range_start rng..<Suc (range_stop rng)]
    \<and> list_all (\<lambda>x. P (fst x)) xs"
proof -
  from assms(1) obtain xs where xs: "CreateBufferedCollection buffer n rd = Some xs" "length xs = n"
    "\<forall>i<n. P (fst (xs ! i)) \<and> snd (xs ! i) = rg_start rng + of_nat i" by blast
  have n: "n = Suc (range_stop rng) - range_start rng" using assms(2,3) by (simp add: Range_Count_nat)
  have "map snd xs = map of_nat [range_start rng..<Suc (range_stop rng)]"
    by (rule nth_equalityI) (use xs n in \<open>simp_all del: upt_Suc\<close>)
  with xs show ?thesis by (auto simp: list_all_length)
qed

lemma with_range_index_step:
  assumes "rd pos buf = Some (it, buf')" "P it"
  shows "\<exists>v. with_range_index rng rd pos buf = Some (v, buf') \<and> P (fst v) \<and> snd v = rg_start rng + of_nat pos"
  using assms by (simp add: with_range_index_def)

definition rp_ok :: "Range \<Rightarrow> RangeParser \<Rightarrow> bool" where
  "rp_ok rng rp \<longleftrightarrow> (\<forall>buffer. rp_requiredSize rp \<le> length buffer \<longrightarrow>
     (\<exists>xs. CreateBufferedCollection buffer (unat (Range_Count rng)) (with_range_index rng (rp_read rp)) = Some xs
        \<and> map snd xs = map of_nat [range_start rng..<Suc (range_stop rng)] \<and> list_all (\<lambda>x. has_type (rp_target rp) (fst x)) xs))"

lemma fixed_range_collection:
  assumes "\<And>pos buf. sz \<le> length buf \<Longrightarrow> \<exists>it. rd pos buf = Some (it, drop sz buf) \<and> P it"
    and "Range_IsValid rng" "unat (Range_Count rng) * sz \<le> length buffer"
  shows "\<exists>xs. CreateBufferedCollection buffer (unat (Range_Count rng)) (with_range_index rng rd) = Some xs
    \<and> map snd xs = map of_nat [range_start rng..<Suc (range_stop rng)] \<and> list_all (\<lambda>x. P (fst x)) xs"
proof (rule range_collection[OF collection_fixed[where sz = sz and P = "\<lambda>i x. P (fst x) \<and> snd x = rg_start rng + of_nat i"] assms(2) refl])
  show "sz \<le> length buf \<Longrightarrow> \<exists>v. with_range_index rng rd pos buf = Some (v, drop sz buf) \<and> P (fst v) \<and> snd v = rg_start rng + of_nat pos" for pos buf
    using assms(1)[of buf pos] with_range_index_step by fast
qed (rule assms(3))

lemma bits_range_collection:
  assumes "\<And>pos. pos < unat (Range_Count rng) \<Longrightarrow> \<exists>it. rd pos buffer = Some (it, buffer) \<and> P it" and "Range_IsValid rng"
  shows "\<exists>xs. CreateBufferedCollection buffer (unat (Range_Count rng)) (with_range_index rng rd) = Some xs
    \<and> map snd xs = map of_nat [range_start rng..<Suc (range_stop rng)] \<and> list_all (\<lambda>x. P (fst x)) xs"
proof (rule range_collection[OF collection_bits[where P = "\<lambda>i x. P (fst x) \<and> snd x = rg_start rng + of_nat i"] assms(2) refl])
  show "pos < unat (Range_Count rng) \<Longrightarrow> \<exists>v. with_range_index rng rd pos buffer = Some (v, buffer) \<and> P (fst v) \<and> snd v = rg_start rng + of_nat pos" for pos
    using assms(1)[of pos] with_range_index_step by fast
qed

lemma FromFixedSize_ok: "d_ok d \<Longrightarrow> Range_IsValid rng \<Longrightarrow> rp_ok rng (FromFixedSize d rng)"
  unfolding rp_ok_def FromFixedSize_def RangeParser.simps
  by (intro allI impI fixed_range_collection[where sz = "d_size d"]) (simp_all add: d_ok_def)

lemma bits_room: "pos < n \<Longrightarrow> NumBytesInBits n \<le> m \<Longrightarrow> pos div 8 < m" "pos < n \<Longrightarrow> NumBytesInDoubleBits n \<le> m \<Longrightarrow> pos div 4 < m"
  by (auto simp: NumBytesInBits_def NumBytesInDoubleBits_def div_less_iff_less_mult elim!: order.strict_trans2 split: if_splits)

lemma FromBitfieldType_ok:
  assumes "\<And>b. has_type t (mk b)" "Range_IsValid rng"
  shows "rp_ok rng (FromBitfieldType t mk rng)"
  unfolding rp_ok_def FromBitfieldType_def RangeParser.simps
  by (intro allI impI bits_range_collection) (use assms bits_room(1) in \<open>auto simp: GetBit_def\<close>)

lemma FromDoubleBitfieldType_ok:
  assumes "\<And>b. has_type t (mk b)" "Range_IsValid rng"
  shows "rp_ok rng (FromDoubleBitfieldType t mk rng)"
  unfolding rp_ok_def FromDoubleBitfieldType_def RangeParser.simps
  by (intro allI impI bits_range_collection) (use assms bits_room(2) in \<open>auto simp: GetDoubleBit_def\<close>)

lemma RangeParser_select_ok:
  assumes "RangeParser_select enumeration rng = Some rp" "Range_IsValid rng"
  shows "rp_ok rng rp"
  using assms map_of_ok[OF range_descriptors_ok, of enumeration]
  by (auto simp: RangeParser_select_def FromFixedSize_ok BitMeasurement_def DoubleBitMeasurement_def split: if_splits
      intro!: FromBitfieldType_ok FromDoubleBitfieldType_ok)

lemma ParseRange_valid: "ParseRange np buffer = (PR_OK, rng, rest) \<Longrightarrow> Range_IsValid rng"
  by (auto simp: ParseRange_def Let_def split: if_splits prod.splits)

lemma RangeParser_ok: "out_ok record1 (RangeParser_ParseHeader np settings record1 buffer)"
proof -
  have p: "out_ok record1 (RangeParser_Process record1 rng rp buf)" if "rp_ok rng rp" "Range_IsValid rng" for rng rp buf
    using that by (auto simp: RangeParser_Process_def out_ok_simps rp_ok_def)
  have o: "out_ok record1 (ParseRangeOfOctetData record1 rng buf)" if "Range_IsValid rng" for rng buf
    using fixed_range_collection[of "unat (gvr_variation record1)" "\<lambda>_. octets_read (unat (gvr_variation record1))" "has_type T_OctetString" rng buf]
      octets_read_ok[of "unat (gvr_variation record1)"] uint8_bounds[of "gvr_variation record1"] that
    by (auto simp: ParseRangeOfOctetData_def Let_def out_ok_simps mult.commute word_greater_zero_iff simp del: upt_Suc)
  show ?thesis using ParseRange_valid[of np buffer] RangeParser_select_ok p o
    by (auto simp: RangeParser_ParseHeader_def ParseRangeOfObjects_def out_ok_simps split: prod.split option.split)
qed

lemma read_variation:
  "Group120Var1_Read buffer = Some obj \<Longrightarrow> AuthObject_variation obj = 1"
  "Group120Var2_Read buffer = Some obj \<Longrightarrow> AuthObject_variation obj = 2"
  "Group120Var5_Read buffer = Some obj \<Longrightarrow> AuthObject_variation obj = 5"
  "Group120Var6_Read buffer = Some obj \<Longrightarrow> AuthObject_variation obj = 6"
  "Group120Var7_Read buffer = Some obj \<Longrightarrow> AuthObject_variation obj = 7"
  "Group120Var10_Read buffer = Some obj \<Longrightarrow> AuthObject_variation obj = 10"
  "Group120Var11_Read buffer = Some obj \<Longrightarrow> AuthObject_variation obj = 11"
  "Group120Var12_Read buffer = Some obj \<Longrightarrow> AuthObject_variation obj = 12"
  "Group120Var13_Read buffer = Some obj \<Longrightarrow> AuthObject_variation obj = 13"
  "Group120Var14_Read buffer = Some obj \<Longrightarrow> AuthObject_variation obj = 14"
  "Group120Var15_Read buffer = Some obj \<Longrightarrow> AuthObject_variation obj = 15"
  by (auto simp: Group120Var1_Read_def Group120Var2_Read_def Group120Var5_Read_def Group120Var6_Read_def Group120Var7_Read_def
      Group120Var10_Read_def Group120Var11_Read_def Group120Var12_Read_def Group120Var13_Read_def Group120Var14_Read_def
      Group120Var15_Read_def split: option.splits prod.splits list.splits Field.splits if_splits)

lemma AuthObject_Read_variation:
  "v \<in> set free_format_variations \<Longrightarrow> AuthObject_Read v buffer = Some obj \<Longrightarrow> AuthObject_variation obj = v"
  by (auto simp: free_format_variations_def AuthObject_Read_def dest: read_variation)

lemma FreeFormatParser_ok: "out_ok record1 (FreeFormatParser_ParseHeader settings record1 buffer)"
proof -
  have *: "AuthObject_variation obj = v \<and> gvr_enumeration record1 = GetGroupVar 120 v \<and> AuthObject_Read v copy = Some obj"
    if "find (\<lambda>v. gvr_enumeration record1 = GetGroupVar 120 v) free_format_variations = Some v" "AuthObject_Read v copy = Some obj" for v obj copy
    using that AuthObject_Read_variation[of v copy obj] by (auto simp: find_Some_iff)
  show ?thesis
    by (auto simp: FreeFormatParser_ParseHeader_def Let_def out_ok_simps split: option.split dest: *)
qed

section \<open>The parser\<close>

lemma ParseQualifier_ok: "out_ok record1 (ParseQualifier settings record1 buffer)"
  by (simp add: ParseQualifier_def CountParser_ok RangeParser_ok CountIndexParser_ok FreeFormatParser_ok out_ok_simps
      split: QualifierCode.split)

text \<open>One header, allowed by the white-list if there is one, is one call.\<close>

definition allowed :: "WhiteList option \<Rightarrow> HeaderRecord \<Rightarrow> bool" where
  "allowed whiteList record1 \<longleftrightarrow> gvr_enumeration record1 \<noteq> GroupVariation_UNKNOWN
     \<and> (case whiteList of None \<Rightarrow> True | Some isAllowed \<Rightarrow> isAllowed (hr_headerIndex record1) (gvr_enumeration record1) (GetQualifierCode record1))"

lemma APDUParser_ParseHeader_OK:
  assumes "APDUParser_ParseHeader whiteList settings cnt buffer = (PR_OK, rest, calls)"
  shows "\<exists>c. calls = [c] \<and> call_ok c \<and> hr_headerIndex (call_header c) = cnt \<and> allowed whiteList (call_header c)"
    and "length rest + 3 \<le> length buffer"
    and "APDUParser_ParseHeader None settings cnt buffer = (PR_OK, rest, calls)"
proof -
  from assms obtain gv q where "ParseQualifier settings (HeaderRecord_make gv q cnt) (drop 3 buffer) = (PR_OK, rest, calls)"
    "allowed whiteList (HeaderRecord_make gv q cnt)"
    and none: "APDUParser_ParseHeader None settings cnt buffer = (PR_OK, rest, calls)"
    by (auto simp: APDUParser_ParseHeader_def ParseObjectHeader_def Let_def allowed_def HeaderRecord_make_def GetQualifierCode_def
        split: if_splits option.splits)
  with ParseQualifier_ok[of "HeaderRecord_make gv q cnt" settings "drop 3 buffer"]
  show "\<exists>c. calls = [c] \<and> call_ok c \<and> hr_headerIndex (call_header c) = cnt \<and> allowed whiteList (call_header c)"
    by (auto simp: out_ok_def HeaderRecord_make_def)
  show "APDUParser_ParseHeader None settings cnt buffer = (PR_OK, rest, calls)" by (rule none)
qed (rule APDUParser_ParseHeader_shrinks[OF assms])

lemma ParseSinglePass_OK:
  assumes "ParseSinglePass whiteList settings cnt buffer = (PR_OK, calls)"
  shows "list_all call_ok calls \<and> list_all (\<lambda>c. allowed whiteList (call_header c)) calls
    \<and> map (\<lambda>c. hr_headerIndex (call_header c)) calls = map (\<lambda>i. cnt + of_nat i) [0..<length calls]
    \<and> 3 * length calls \<le> length buffer \<and> ParseSinglePass None settings cnt buffer = (PR_OK, calls)"
  using assms
proof (induction whiteList settings cnt buffer arbitrary: calls rule: ParseSinglePass.induct)
  case (1 whiteList settings cnt copy)
  show ?case
  proof (cases "copy = []")
    case True
    with "1.prems" show ?thesis by (simp add: ParseSinglePass.simps[of _ _ _ "[]"])
  next
    case False
    obtain result rest cs where h: "APDUParser_ParseHeader whiteList settings cnt copy = (result, rest, cs)"
      by (cases "APDUParser_ParseHeader whiteList settings cnt copy") auto
    with False "1.prems" have "result = PR_OK" by (subst (asm) ParseSinglePass.simps) (simp split: if_splits)
    note h = h[unfolded this]
    from False h "1.prems" obtain cs' where cs': "ParseSinglePass whiteList settings (cnt + 1) rest = (PR_OK, cs')" "calls = cs @ cs'"
      by (subst (asm) ParseSinglePass.simps) (simp split: prod.splits)
    note H = APDUParser_ParseHeader_OK[OF h]
    from H(1) obtain c where c: "cs = [c]" "call_ok c" "hr_headerIndex (call_header c) = cnt" "allowed whiteList (call_header c)" by blast
    have IH: "list_all call_ok cs' \<and> list_all (\<lambda>c. allowed whiteList (call_header c)) cs'
      \<and> map (\<lambda>c. hr_headerIndex (call_header c)) cs' = map (\<lambda>i. cnt + 1 + of_nat i) [0..<length cs']
      \<and> 3 * length cs' \<le> length rest \<and> ParseSinglePass None settings (cnt + 1) rest = (PR_OK, cs')"
      using "1.IH"[OF False h[symmetric] refl _ cs'(1)] by blast
    have "ParseSinglePass None settings cnt copy = (PR_OK, calls)"
      using False H(3) IH cs'(2) by (subst ParseSinglePass.simps) simp
    moreover have "map (\<lambda>i. cnt + of_nat i) [0..<length calls] = cnt # map (\<lambda>i. cnt + 1 + of_nat i) [0..<length cs']"
      unfolding cs'(2) c(1) by (simp add: upt_conv_Cons del: upt_Suc flip: map_Suc_upt)
    ultimately show ?thesis using IH c cs'(2) H(2) by simp
  qed
qed

text \<open>
  \<^bold>\<open>C38\<close>.  The parser is all or nothing and hands its handler only what is safe to use.  Unless every header of the APDU
  is well-formed and passes the white-list, the handler is not called at all.  Otherwise it is called once for each
  header, in order; the header is a known object that the white-list allows; every collection can be iterated to its end
  without reading past the buffer, and gives the number of values its header says, with the indices of a range, each of
  the type that selected the overload.
\<close>

theorem parse_handler_safe:
  assumes "APDUParser_Parse isAllowed settings buffer = (result, calls)"
  shows "(result \<noteq> PR_OK \<longrightarrow> calls = [])
    \<and> list_all call_ok calls
    \<and> map (\<lambda>c. hr_headerIndex (call_header c)) calls = map of_nat [0..<length calls]
    \<and> list_all (\<lambda>c. let h = call_header c in gvr_enumeration h \<noteq> GroupVariation_UNKNOWN
        \<and> isAllowed (hr_headerIndex h) (gvr_enumeration h) (GetQualifierCode h)) calls"
proof (cases "fst (ParseSinglePass (Some isAllowed) settings 0 buffer) = PR_OK")
  case True
  then obtain cs where cs: "ParseSinglePass (Some isAllowed) settings 0 buffer = (PR_OK, cs)" by (metis prod.collapse)
  from ParseSinglePass_OK[OF cs] assms show ?thesis by (simp add: APDUParser_Parse_def cs allowed_def Let_def)
next
  case False
  with assms show ?thesis by (auto simp: APDUParser_Parse_def)
qed

lemma parse_example_record:
  "GetRecord 1 2 = \<lparr>gvr_enumeration = 0x102, gvr_type = GVT_STATIC, gvr_group = 1, gvr_variation = 2\<rparr>"
  by (simp add: GetRecord_def GetEnumAndType_def GroupVariationRecord_GetType_def GroupVariationFromType_def GetGroupVar_def
      known_variations_def GroupVar_def GroupVariation_UNKNOWN_def)

lemma parse_example_header:
  assumes "w = None \<or> w = Some (\<lambda>_ _ _. True)"
  shows "APDUParser_ParseHeader w ParserSettings_Default 0 [1, 2, 0, 7, 7, 0x81] =
     (PR_OK, [], [OnRangeOf \<lparr>gvr_enumeration = 0x102, gvr_type = GVT_STATIC, gvr_group = 1, gvr_variation = 2, hr_qualifier = 0, hr_headerIndex = 0\<rparr>
         \<lparr>rg_start = 7, rg_stop = 7\<rparr> (T_Measurement ET_Binary)
         (Some [(It_Measurement \<lparr>m_value = BoolValue True, m_quality = 0x81, m_time = 0\<rparr>, 7)])])"
  using assms
  by (auto simp: APDUParser_ParseHeader_def ParseObjectHeader_def parse_example_record GroupVariation_UNKNOWN_def QualifierCodeFromType_def
      ParseQualifier_def GetQualifierCode_def HeaderRecord_make_def RangeParser_ParseHeader_def ParseRange_def Range_IsValid_def
      ParserSettings_Default_def ParseRangeOfObjects_def GroupVar_def RangeParser_select_def range_descriptors_def 
      descriptor_def Group1Var2_def GetGroupVar_def RangeParser_Process_def FromFixedSize_def Range_Count_def CreateBufferedCollection_def
      Let_def with_range_index_def ReadTarget_def Parse_Read_def Binary_of_flags_def GetBinaryValue_def QUALITY_STATE_def)

theorem parse_handler_safe_witness:
  "APDUParser_Parse (\<lambda>_ _ _. True) ParserSettings_Default [1, 2, 0, 7, 7, 0x81]
     = (PR_OK, [OnRangeOf \<lparr>gvr_enumeration = 0x102, gvr_type = GVT_STATIC, gvr_group = 1, gvr_variation = 2, hr_qualifier = 0, hr_headerIndex = 0\<rparr>
         \<lparr>rg_start = 7, rg_stop = 7\<rparr> (T_Measurement ET_Binary)
         (Some [(It_Measurement \<lparr>m_value = BoolValue True, m_quality = 0x81, m_time = 0\<rparr>, 7)])])
   \<and> list_all call_ok (snd (APDUParser_Parse (\<lambda>_ _ _. True) ParserSettings_Default [1, 2, 0, 7, 7, 0x81]))"
proof -
  have pass: "w = None \<or> w = Some (\<lambda>_ _ _. True) \<Longrightarrow> ParseSinglePass w ParserSettings_Default 0 [1, 2, 0, 7, 7, 0x81]
    = (PR_OK, [OnRangeOf \<lparr>gvr_enumeration = 0x102, gvr_type = GVT_STATIC, gvr_group = 1, gvr_variation = 2, hr_qualifier = 0, hr_headerIndex = 0\<rparr>
         \<lparr>rg_start = 7, rg_stop = 7\<rparr> (T_Measurement ET_Binary)
         (Some [(It_Measurement \<lparr>m_value = BoolValue True, m_quality = 0x81, m_time = 0\<rparr>, 7)])])" for w
    by (subst ParseSinglePass.simps) (simp add: parse_example_header ParseSinglePass.simps[of w _ _ "[]"])
  then have "APDUParser_Parse (\<lambda>_ _ _. True) ParserSettings_Default [1, 2, 0, 7, 7, 0x81]
     = (PR_OK, [OnRangeOf \<lparr>gvr_enumeration = 0x102, gvr_type = GVT_STATIC, gvr_group = 1, gvr_variation = 2, hr_qualifier = 0, hr_headerIndex = 0\<rparr>
         \<lparr>rg_start = 7, rg_stop = 7\<rparr> (T_Measurement ET_Binary)
         (Some [(It_Measurement \<lparr>m_value = BoolValue True, m_quality = 0x81, m_time = 0\<rparr>, 7)])])"
    by (simp add: APDUParser_Parse_def)
  with parse_handler_safe[OF this] show ?thesis by simp
qed

text \<open>
  \<^bold>\<open>C39\<close>.  The loop over the headers ends: whatever the octets, a pass takes at least three octets off the buffer for each
  header it accepts, so that a handler is called at most once for every three octets.
\<close>

theorem parse_bounded: "3 * length (snd (APDUParser_Parse isAllowed settings buffer)) \<le> length buffer"
proof -
  obtain result calls where p: "ParseSinglePass (Some isAllowed) settings 0 buffer = (result, calls)" by (meson surj_pair)
  show ?thesis using ParseSinglePass_OK[of "Some isAllowed" settings 0 buffer calls] p
    by (cases "result = PR_OK") (auto simp: APDUParser_Parse_def)
qed

end
