(* ===== verification/MeasurementHandler.thy ===== *)
theory MeasurementHandler
  imports ParserSafety
begin

text \<open>
  \<^verbatim>\<open>app/parsing/IAPDUHandler\<close>, the base class of everything that handles the headers of an APDU, and
  \<^verbatim>\<open>master/MeasurementHandler\<close>, which hands the measurements of a response to the application.
\<close>

section \<open>\<^verbatim>\<open>IAPDUHandler\<close>\<close>

text \<open>
  The virtual \<^verbatim>\<open>ProcessHeader\<close> functions are one function of the call; \<open>None\<close> is an overload that the subclass does not
  override, which ends in \<^verbatim>\<open>ProcessUnsupportedHeader\<close>.
\<close>

record IAPDUHandler =
  ih_errors :: IINField
  ih_numTotalHeaders :: uint32
  ih_numIgnoredHeaders :: uint32

definition IAPDUHandler_make :: IAPDUHandler where
  "IAPDUHandler_make = \<lparr>ih_errors = IIN_Empty, ih_numTotalHeaders = 0, ih_numIgnoredHeaders = 0\<rparr>"

definition IAPDUHandler_Reset :: "IAPDUHandler \<Rightarrow> IAPDUHandler" where
  "IAPDUHandler_Reset h = h\<lparr>ih_numTotalHeaders := 0, ih_numIgnoredHeaders := 0, ih_errors := IIN_Empty\<rparr>"

definition IsFirstHeader :: "IAPDUHandler \<Rightarrow> bool" where
  "IsFirstHeader h = (ih_numTotalHeaders h = 0)"

definition Record :: "IINField \<Rightarrow> IAPDUHandler \<Rightarrow> IAPDUHandler" where
  "Record result h = h\<lparr>ih_errors := IIN_or (ih_errors h) result, ih_numTotalHeaders := ih_numTotalHeaders h + 1\<rparr>"

definition ProcessUnsupportedHeader :: "IAPDUHandler \<Rightarrow> IAPDUHandler \<times> IINField" where
  "ProcessUnsupportedHeader h = (h\<lparr>ih_numIgnoredHeaders := ih_numIgnoredHeaders h + 1\<rparr>, IIN_of_bit FUNC_NOT_SUPPORTED)"

definition OnHeader :: "(HandlerCall \<Rightarrow> IAPDUHandler \<Rightarrow> 's \<Rightarrow> ('s \<times> IINField) option) \<Rightarrow> HandlerCall \<Rightarrow> IAPDUHandler \<times> 's \<Rightarrow> IAPDUHandler \<times> 's" where
  "OnHeader ProcessHeader header hs =
     (case hs of (h, s) \<Rightarrow>
        case ProcessHeader header h s of
          Some (s, result) \<Rightarrow> (Record result h, s)
        | None \<Rightarrow> (case ProcessUnsupportedHeader h of (h, result) \<Rightarrow> (Record result h, s)))"

definition HandleAll :: "(HandlerCall \<Rightarrow> IAPDUHandler \<Rightarrow> 's \<Rightarrow> ('s \<times> IINField) option) \<Rightarrow> HandlerCall list \<Rightarrow> IAPDUHandler \<times> 's \<Rightarrow> IAPDUHandler \<times> 's" where
  "HandleAll ProcessHeader headers hs = fold (OnHeader ProcessHeader) headers hs"

section \<open>\<^verbatim>\<open>MeasurementHandler\<close>\<close>

definition TypeHasTimestamp :: "GroupVariation \<Rightarrow> bool" where
  "TypeHasTimestamp gv \<longleftrightarrow> gv \<in> set [GroupVar 2 2, GroupVar 2 3, GroupVar 4 2, GroupVar 4 3, GroupVar 11 2, GroupVar 13 2,
     GroupVar 21 5, GroupVar 21 6, GroupVar 22 5, GroupVar 22 6, GroupVar 23 5, GroupVar 23 6,
     GroupVar 32 3, GroupVar 32 4, GroupVar 32 7, GroupVar 32 8, GroupVar 42 3, GroupVar 42 4, GroupVar 42 7, GroupVar 42 8,
     GroupVar 43 3, GroupVar 43 4, GroupVar 43 7, GroupVar 43 8, GroupVar 122 2]"

datatype TimestampMode = TM_INVALID | TM_SYNCHRONIZED | TM_UNSYNCHRONIZED

record HeaderInfo =
  hi_gv :: GroupVariation
  hi_qualifier :: QualifierCode
  hi_tsmode :: TimestampMode
  hi_headerIndex :: uint32

text \<open>The calls of the application's \<^verbatim>\<open>ISOEHandler\<close>.\<close>

datatype SOECall = SOE_Start | SOE_Process HeaderInfo Target "IndexedItem list option" | SOE_End

record MeasurementHandler =
  mh_txInitiated :: bool
  mh_soe :: "SOECall list"
  mh_ctoMode :: TimestampMode
  mh_commonTimeOccurence :: uint64

definition MeasurementHandler_make :: MeasurementHandler where
  "MeasurementHandler_make = \<lparr>mh_txInitiated = False, mh_soe = [], mh_ctoMode = TM_INVALID, mh_commonTimeOccurence = 0\<rparr>"

definition MeasurementHandler_destroy :: "MeasurementHandler \<Rightarrow> MeasurementHandler" where
  "MeasurementHandler_destroy m = (if mh_txInitiated m then m\<lparr>mh_soe := mh_soe m @ [SOE_End]\<rparr> else m)"

definition ModeFromType :: "GroupVariation \<Rightarrow> TimestampMode" where
  "ModeFromType gv = (if TypeHasTimestamp gv then TM_SYNCHRONIZED else TM_INVALID)"

definition CheckForTxStart :: "MeasurementHandler \<Rightarrow> MeasurementHandler" where
  "CheckForTxStart m = (if \<not> mh_txInitiated m then m\<lparr>mh_txInitiated := True, mh_soe := mh_soe m @ [SOE_Start]\<rparr> else m)"

definition LoadValues :: "HeaderRecord \<Rightarrow> TimestampMode \<Rightarrow> Target \<Rightarrow> IndexedItem list option \<Rightarrow> MeasurementHandler \<Rightarrow> MeasurementHandler \<times> IINField" where
  "LoadValues record1 tsmode target values m =
     (let m = CheckForTxStart m;
          info = \<lparr>hi_gv = gvr_enumeration record1, hi_qualifier = GetQualifierCode record1, hi_tsmode = tsmode,
            hi_headerIndex = hr_headerIndex record1\<rparr>
      in (m\<lparr>mh_soe := mh_soe m @ [SOE_Process info target values]\<rparr>, IIN_Empty))"

text \<open>\<^verbatim>\<open>LoadValuesWithTransformTo<SecurityStat>\<close>: \<^verbatim>\<open>Convert\<close> of the objects of the groups 121 and 122.\<close>

fun Convert_SecurityStat_Item :: "Item \<Rightarrow> Item" where
  "Convert_SecurityStat_Item (It_Struct fs) = It_Measurement (SecurityStatFactory fs)"
| "Convert_SecurityStat_Item it = it"

definition LoadValuesWithTransformToSecurityStat :: "HeaderRecord \<Rightarrow> IndexedItem list option \<Rightarrow> MeasurementHandler \<Rightarrow> MeasurementHandler \<times> IINField" where
  "LoadValuesWithTransformToSecurityStat record1 values m =
     LoadValues record1 (ModeFromType (gvr_enumeration record1)) (T_Measurement ET_SecurityStat)
       (map_option (map (map_prod Convert_SecurityStat_Item id)) values) m"

fun add_time :: "uint64 \<Rightarrow> Item \<Rightarrow> Item" where
  "add_time cto (It_Measurement m) = It_Measurement (m\<lparr>m_time := m_time m + cto\<rparr>)"
| "add_time cto it = it"

definition ProcessWithCTO :: "HeaderRecord \<Rightarrow> Target \<Rightarrow> IndexedItem list option \<Rightarrow> MeasurementHandler \<Rightarrow> MeasurementHandler \<times> IINField" where
  "ProcessWithCTO record1 target values m =
     (if mh_ctoMode m = TM_INVALID then (m, IIN_of_bit PARAM_ERROR)
      else LoadValues record1 (mh_ctoMode m) target (map_option (map (map_prod (add_time (mh_commonTimeOccurence m)) id)) values) m)"

text \<open>\<^verbatim>\<open>ICollection::ReadOnlyValue\<close> on a collection of times.\<close>

fun ReadOnlyValue_time :: "Item list option \<Rightarrow> uint64 option" where
  "ReadOnlyValue_time (Some [It_Struct fs]) = Some (time48 fs)"
| "ReadOnlyValue_time _ = None"

definition set_cto :: "TimestampMode \<Rightarrow> Item list option \<Rightarrow> MeasurementHandler \<Rightarrow> MeasurementHandler \<times> IINField" where
  "set_cto mode values m =
     ((case ReadOnlyValue_time values of
         Some t \<Rightarrow> m\<lparr>mh_ctoMode := mode, mh_commonTimeOccurence := t\<rparr>
       | None \<Rightarrow> m), IIN_Empty)"

text \<open>The overloads of \<^verbatim>\<open>ProcessHeader\<close>.\<close>

fun MeasurementHandler_ProcessHeader :: "HandlerCall \<Rightarrow> IAPDUHandler \<Rightarrow> MeasurementHandler \<Rightarrow> (MeasurementHandler \<times> IINField) option" where
  "MeasurementHandler_ProcessHeader (OnCountOf header cnt t values) h m =
     (if t = T_Struct (GroupVar 51 1) then Some (set_cto TM_SYNCHRONIZED values m)
      else if t = T_Struct (GroupVar 51 2) then Some (set_cto TM_UNSYNCHRONIZED values m)
      else None)"
| "MeasurementHandler_ProcessHeader (OnRangeOf header rng t values) h m =
     (if t = T_Struct (GroupVar 121 1) then Some (LoadValuesWithTransformToSecurityStat header values m)
      else if t \<in> set [T_Measurement ET_Binary, T_Measurement ET_DoubleBitBinary, T_Measurement ET_BinaryOutputStatus,
        T_Measurement ET_Counter, T_Measurement ET_FrozenCounter, T_Measurement ET_Analog, T_Measurement ET_AnalogOutputStatus,
        T_OctetString, T_TimeAndInterval]
      then Some (LoadValues header (ModeFromType (gvr_enumeration header)) t values m)
      else None)"
| "MeasurementHandler_ProcessHeader (OnPrefixOf header cnt t values) h m =
     (if t = T_Measurement ET_Binary \<and> gvr_enumeration header = GroupVar 2 3 \<or> t = T_Measurement ET_DoubleBitBinary \<and> gvr_enumeration header = GroupVar 4 3
      then Some (ProcessWithCTO header t values m)
      else if t \<in> set [T_Struct (GroupVar 122 1), T_Struct (GroupVar 122 2)] then Some (LoadValuesWithTransformToSecurityStat header values m)
      else if t \<in> set [T_Measurement ET_Binary, T_Measurement ET_DoubleBitBinary, T_Measurement ET_BinaryOutputStatus,
        T_Measurement ET_Counter, T_Measurement ET_FrozenCounter, T_Measurement ET_Analog, T_Measurement ET_AnalogOutputStatus,
        T_OctetString, T_BinaryCommandEvent, T_AnalogCommandEvent]
      then Some (LoadValues header (ModeFromType (gvr_enumeration header)) t values m)
      else None)"
| "MeasurementHandler_ProcessHeader _ h m = None"

text \<open>\<^verbatim>\<open>ProcessMeasurements\<close>, with the destructor of the handler; its white-list allows everything.\<close>

definition ProcessMeasurements :: "bytes \<Rightarrow> SOECall list \<times> ParseResult" where
  "ProcessMeasurements objs =
     (case APDUParser_Parse (\<lambda>_ _ _. True) ParserSettings_Default objs of (result, headers) \<Rightarrow>
        case HandleAll MeasurementHandler_ProcessHeader headers (IAPDUHandler_make, MeasurementHandler_make) of (h, m) \<Rightarrow>
          (mh_soe (MeasurementHandler_destroy m), result))"

end
