(* ===== verification/EventWriter.thy ===== *)
theory EventWriter
  imports HeaderWriter EventBuffer
begin

text \<open>
  \<^verbatim>\<open>outstation/EventWriter\<close> and \<^verbatim>\<open>EventBuffer::Load\<close>: the selected events are written into a response, one header
  for every run of events with the same object, and marked written.  Every operation is an \<open>option\<close>: \<open>None\<close>
  is an undefined conversion (a NaN) or a loop that does not end.
\<close>

section \<open>Choice of the object\<close>

text \<open>
  What the \<^verbatim>\<open>LoadHeader\<close> functions choose from the selected variation of the first event: the
  serializer, and whether it is written with a common time of occurrence.
\<close>

definition LoadHeaderBinary :: "EventVariation \<Rightarrow> Measurement ObjectCodec \<times> bool" where
  "LoadHeaderBinary variation =
     (if variation = GroupVar 2 1 then (Group2Var1, False)
      else if variation = GroupVar 2 2 then (Group2Var2, False)
      else if variation = GroupVar 2 3 then (Group2Var3, True)
      else (Group2Var1, False))"

definition LoadHeaderDoubleBinary :: "EventVariation \<Rightarrow> Measurement ObjectCodec \<times> bool" where
  "LoadHeaderDoubleBinary variation =
     (if variation = GroupVar 4 1 then (Group4Var1, False)
      else if variation = GroupVar 4 2 then (Group4Var2, False)
      else if variation = GroupVar 4 3 then (Group4Var3, True)
      else (Group4Var1, False))"

definition LoadHeaderCounter :: "EventVariation \<Rightarrow> Measurement ObjectCodec \<times> bool" where
  "LoadHeaderCounter variation =
     (if variation = GroupVar 22 1 then (Group22Var1, False)
      else if variation = GroupVar 22 2 then (Group22Var2, False)
      else if variation = GroupVar 22 5 then (Group22Var5, False)
      else if variation = GroupVar 22 6 then (Group22Var6, False)
      else (Group22Var1, False))"

definition LoadHeaderFrozenCounter :: "EventVariation \<Rightarrow> Measurement ObjectCodec \<times> bool" where
  "LoadHeaderFrozenCounter variation =
     (if variation = GroupVar 23 1 then (Group23Var1, False)
      else if variation = GroupVar 23 2 then (Group23Var2, False)
      else if variation = GroupVar 23 5 then (Group23Var5, False)
      else if variation = GroupVar 23 6 then (Group23Var6, False)
      else (Group23Var1, False))"

definition LoadHeaderAnalog :: "EventVariation \<Rightarrow> Measurement ObjectCodec \<times> bool" where
  "LoadHeaderAnalog variation =
     (if variation = GroupVar 32 1 then (Group32Var1, False)
      else if variation = GroupVar 32 2 then (Group32Var2, False)
      else if variation = GroupVar 32 3 then (Group32Var3, False)
      else if variation = GroupVar 32 4 then (Group32Var4, False)
      else if variation = GroupVar 32 5 then (Group32Var5, False)
      else if variation = GroupVar 32 6 then (Group32Var6, False)
      else if variation = GroupVar 32 7 then (Group32Var7, False)
      else if variation = GroupVar 32 8 then (Group32Var8, False)
      else (Group32Var1, False))"

definition LoadHeaderBinaryOutputStatus :: "EventVariation \<Rightarrow> Measurement ObjectCodec \<times> bool" where
  "LoadHeaderBinaryOutputStatus variation =
     (if variation = GroupVar 11 1 then (Group11Var1, False)
      else if variation = GroupVar 11 2 then (Group11Var2, False)
      else (Group11Var1, False))"

definition LoadHeaderAnalogOutputStatus :: "EventVariation \<Rightarrow> Measurement ObjectCodec \<times> bool" where
  "LoadHeaderAnalogOutputStatus variation =
     (if variation = GroupVar 42 1 then (Group42Var1, False)
      else if variation = GroupVar 42 2 then (Group42Var2, False)
      else if variation = GroupVar 42 3 then (Group42Var3, False)
      else if variation = GroupVar 42 4 then (Group42Var4, False)
      else if variation = GroupVar 42 5 then (Group42Var5, False)
      else if variation = GroupVar 42 6 then (Group42Var6, False)
      else if variation = GroupVar 42 7 then (Group42Var7, False)
      else if variation = GroupVar 42 8 then (Group42Var8, False)
      else (Group42Var1, False))"

definition LoadHeaderSecurityStat :: "EventVariation \<Rightarrow> Measurement ObjectCodec \<times> bool" where
  "LoadHeaderSecurityStat variation =
     (if variation = GroupVar 122 1 then (Group122Var1, False)
      else if variation = GroupVar 122 2 then (Group122Var2, False)
      else (Group122Var1, False))"

fun LoadHeader_serializer :: "EventType \<Rightarrow> EventVariation \<Rightarrow> Measurement ObjectCodec \<times> bool" where
  "LoadHeader_serializer ET_Binary = LoadHeaderBinary"
| "LoadHeader_serializer ET_DoubleBitBinary = LoadHeaderDoubleBinary"
| "LoadHeader_serializer ET_Counter = LoadHeaderCounter"
| "LoadHeader_serializer ET_FrozenCounter = LoadHeaderFrozenCounter"
| "LoadHeader_serializer ET_Analog = LoadHeaderAnalog"
| "LoadHeader_serializer ET_BinaryOutputStatus = LoadHeaderBinaryOutputStatus"
| "LoadHeader_serializer ET_AnalogOutputStatus = LoadHeaderAnalogOutputStatus"
| "LoadHeader_serializer ET_SecurityStat = LoadHeaderSecurityStat"

section \<open>Writing a run of events\<close>

abbreviation selectedVariation :: "SOERecord \<Rightarrow> EventVariation" where
  "selectedVariation r \<equiv> vv_selectedVariation (soe_value r)"

text \<open>\<^verbatim>\<open>ReadEvent\<close> makes a measurement of the record.\<close>

definition ReadEvent_measurement :: "SOERecord \<Rightarrow> Measurement" where
  "ReadEvent_measurement r = (case SOERecord_ReadEvent r of (value, flags, time, index) \<Rightarrow> Measurement_make value flags time)"

text \<open>What the loops do with a writable event: write it, find the fragment full, or leave it for another header.\<close>

datatype WriteStep = STEP_WRITTEN | STEP_FULL | STEP_BREAK

type_synonym iterator = "Measurement PrefixedWriteIterator"

definition WriteType_step ::
  "EventType \<Rightarrow> EventVariation \<Rightarrow> SOERecord \<Rightarrow> iterator \<Rightarrow> HeaderWriter \<Rightarrow> (WriteStep \<times> iterator \<times> HeaderWriter) option" where
  "WriteType_step type variation record header w =
     (if soe_type record = type \<and> selectedVariation record = variation
      then map_option (\<lambda>(header, w, ok). (if ok then STEP_WRITTEN else STEP_FULL, header, w))
        (PrefixedWriteIterator_Write (ReadEvent_measurement record) (unat (soe_index record)) header w)
      else Some (STEP_BREAK, header, w))"

definition WriteCTOType_step ::
  "uint64 \<Rightarrow> EventType \<Rightarrow> EventVariation \<Rightarrow> SOERecord \<Rightarrow> iterator \<Rightarrow> HeaderWriter \<Rightarrow> (WriteStep \<times> iterator \<times> HeaderWriter) option" where
  "WriteCTOType_step cto_time type variation record header w =
     (if soe_type record = type \<and> selectedVariation record = variation
      then if soe_time record < cto_time then Some (STEP_BREAK, header, w)
        else let diff = soe_time record - cto_time
          in if diff > 65535 then Some (STEP_BREAK, header, w)
             else map_option (\<lambda>(header, w, ok). (if ok then STEP_WRITTEN else STEP_FULL, header, w))
               (PrefixedWriteIterator_Write ((ReadEvent_measurement record)\<lparr>m_time := diff\<rparr>) (unat (soe_index record)) header w)
      else Some (STEP_BREAK, header, w))"

text \<open>
  The loop of \<^verbatim>\<open>WriteTypeWithSerializer\<close> and \<^verbatim>\<open>WriteCTOTypeWithSerializer\<close>: \<open>pCurrent\<close> and \<open>iter\<close> are its pointers;
  the result is \<^verbatim>\<open>isFragmentFull\<close>, the location, and the state.
\<close>

definition mark_written :: "nat \<Rightarrow> SOERecord \<Rightarrow> EventBuffer \<Rightarrow> EventBuffer" where
  "mark_written n record b =
     RecordWritten (soe_clazz record) (soe_type record) (b\<lparr>eb_events := Assign n (record\<lparr>soe_written := True\<rparr>) (eb_events b)\<rparr>)"

partial_function (option) WriteLoop ::
  "(SOERecord \<Rightarrow> iterator \<Rightarrow> HeaderWriter \<Rightarrow> (WriteStep \<times> iterator \<times> HeaderWriter) option) \<Rightarrow> nat option \<Rightarrow> nat option
    \<Rightarrow> EventBuffer \<Rightarrow> iterator \<Rightarrow> HeaderWriter \<Rightarrow> (bool \<times> nat option \<times> EventBuffer \<times> iterator \<times> HeaderWriter) option" where
  "WriteLoop step pCurrent iter b header w =
     (if HasMoreUnwrittenEvents b
      then case iter of
          None \<Rightarrow> Some (False, None, b, header, w)
        | Some n \<Rightarrow>
            let record = ValueAt (eb_events b) n;
                iter = next_of (ll_underlying (eb_events b)) n
            in if IsWritable record
               then do {
                 (s, header, w) \<leftarrow> step record header w;
                 case s of
                   STEP_WRITTEN \<Rightarrow> WriteLoop step (Some n) iter (mark_written n record b) header w
                 | STEP_FULL \<Rightarrow> Some (True, Some n, b, header, w)
                 | STEP_BREAK \<Rightarrow> Some (False, Some n, b, header, w)}
               else WriteLoop step (Some n) iter b header w
      else Some (False, pCurrent, b, header, w))"

definition WriteTypeWithSerializer ::
  "EventType \<Rightarrow> Measurement ObjectCodec \<Rightarrow> EventVariation \<Rightarrow> nat \<Rightarrow> EventBuffer \<Rightarrow> HeaderWriter
    \<Rightarrow> (bool \<times> nat option \<times> EventBuffer \<times> HeaderWriter) option" where
  "WriteTypeWithSerializer type serializer variation pLocation b w =
     (let (header, w) = IterateOverCountWithPrefix Index16 UINT16_CNT_UINT16_INDEX serializer w
      in map_option (\<lambda>(full, location, b, header, w). (full, location, b, PrefixedWriteIterator_destroy header w))
        (WriteLoop (WriteType_step type variation) None (Some pLocation) b header w))"

definition WriteCTOTypeWithSerializer ::
  "EventType \<Rightarrow> Measurement ObjectCodec \<Rightarrow> EventVariation \<Rightarrow> nat \<Rightarrow> EventBuffer \<Rightarrow> HeaderWriter
    \<Rightarrow> (bool \<times> nat option \<times> EventBuffer \<times> HeaderWriter) option" where
  "WriteCTOTypeWithSerializer type serializer variation pLocation b w =
     (let cto_time = soe_time (ValueAt (eb_events b) pLocation)
      in do {
        (header, w) \<leftarrow> IterateOverCountWithPrefixAndCTO Index16 UINT16_CNT_UINT16_INDEX serializer Group51Var1 cto_time w;
        map_option (\<lambda>(full, location, b, header, w). (full, location, b, PrefixedWriteIterator_destroy header w))
          (WriteLoop (WriteCTOType_step cto_time type variation) None (Some pLocation) b header w)})"

definition LoadHeader :: "nat \<Rightarrow> EventBuffer \<Rightarrow> HeaderWriter \<Rightarrow> (bool \<times> nat option \<times> EventBuffer \<times> HeaderWriter) option" where
  "LoadHeader pLocation b w =
     (let record = ValueAt (eb_events b) pLocation;
          (serializer, cto) = LoadHeader_serializer (soe_type record) (selectedVariation record)
      in if cto then WriteCTOTypeWithSerializer (soe_type record) serializer (selectedVariation record) pLocation b w
         else WriteTypeWithSerializer (soe_type record) serializer (selectedVariation record) pLocation b w)"

section \<open>\<^verbatim>\<open>EventWriter::Write\<close>\<close>

partial_function (option) EventWriter_Write ::
  "nat option \<Rightarrow> EventBuffer \<Rightarrow> HeaderWriter \<Rightarrow> (EventBuffer \<times> HeaderWriter \<times> bool) option" where
  "EventWriter_Write iterator b w =
     (case iterator of
        None \<Rightarrow> Some (b, w, True)
      | Some n \<Rightarrow>
          if HasMoreUnwrittenEvents b
          then if IsWritable (ValueAt (eb_events b) n)
            then do {
              (isFragmentFull, location, b, w) \<leftarrow> LoadHeader n b w;
              if isFragmentFull then Some (b, w, False) else EventWriter_Write location b w}
            else EventWriter_Write (next_of (ll_underlying (eb_events b)) n) b w
          else Some (b, w, True))"

definition EventBuffer_Load :: "HeaderWriter \<Rightarrow> EventBuffer \<Rightarrow> (EventBuffer \<times> HeaderWriter \<times> bool) option" where
  "EventBuffer_Load w b = EventWriter_Write (ll_pHead (eb_events b)) b w"

section \<open>A place in the list\<close>

text \<open>\<open>eb_at b ls rs us vs D\<close>: the nodes \<open>ls\<close> with the events \<open>us\<close> are behind an iterator, \<open>rs\<close> with \<open>vs\<close> before it.\<close>

definition eb_at :: "EventBuffer \<Rightarrow> nat list \<Rightarrow> nat list \<Rightarrow> SOERecord list \<Rightarrow> SOERecord list \<Rightarrow> key multiset \<Rightarrow> bool" where
  "eb_at b ls rs us vs D \<longleftrightarrow> eb_inv b (us @ vs) D \<and> (\<exists>free. ll_rep (eb_events b) (ls @ rs) free)
     \<and> node_values (eb_events b) ls = us \<and> node_values (eb_events b) rs = vs"

lemma eb_at_start:
  assumes "eb_inv b vs D"
  shows "\<exists>rs. eb_at b [] rs [] vs D \<and> ll_pHead (eb_events b) = first rs None"
  using assms seg_first[OF ll_repD(6)] by (auto simp: eb_inv_def eb_at_def holds_def)

lemma eb_at_nodes:
  assumes "eb_at b ls rs us vs D"
  shows "vs = [] \<longleftrightarrow> rs = []"
  using assms by (auto simp: eb_at_def node_values_def)

lemma node_values_append [simp]: "node_values l (is @ js) = node_values l is @ node_values l js"
  by (simp add: node_values_def)

lemma eb_at_Cons:
  assumes "eb_at b ls rs us (r # vs) D"
  obtains n rs' where "rs = n # rs'" "ValueAt (eb_events b) n = r" "next_of (ll_underlying (eb_events b)) n = first rs' None"
    "eb_at b (ls @ [n]) rs' (us @ [r]) vs D"
proof -
  from assms have "rs \<noteq> []" using eb_at_nodes[OF assms] by simp
  then obtain n rs' where rs: "rs = n # rs'" by (cases rs) auto
  obtain free where rep: "ll_rep (eb_events b) (ls @ n # rs') free" using assms rs by (auto simp: eb_at_def)
  show ?thesis
  proof (rule that[OF rs])
    show "next_of (ll_underlying (eb_events b)) n = first rs' None" using seg_step ll_repD(6)[OF rep] by fast
    show "ValueAt (eb_events b) n = r" using assms rs by (simp add: eb_at_def)
    show "eb_at b (ls @ [n]) rs' (us @ [r]) vs D" using assms rs by (simp add: eb_at_def)
  qed
qed

definition mark :: "SOERecord \<Rightarrow> SOERecord" where
  "mark r = (if IsWritable r then r\<lparr>soe_written := True\<rparr> else r)"

lemma mark_simps [simp]:
  "soe_type (mark r) = soe_type r" "key_of (mark r) = key_of r" "soe_selected (mark r) = soe_selected r" "\<not> IsWritable (mark r)"
  "record_ok (mark r) = record_ok r" "soe_written (mark r) = (soe_written r \<or> IsWritable r)"
  by (auto simp: mark_def key_of_def record_ok_def IsWritable_def)

lemma eb_at_mark:
  assumes at: "eb_at b ls (n # rs) us (r # vs) D" and r: "IsWritable r"
  shows "eb_at (mark_written n r b) (ls @ [n]) rs (us @ [mark r]) vs D"
    "eb_config (mark_written n r b) = eb_config b" "eb_overflow (mark_written n r b) = eb_overflow b"
proof -
  let ?b = "mark_written n r b"
  have b: "eb_events ?b = Assign n (mark r) (eb_events b)" "eb_totalCounts ?b = eb_totalCounts b" "eb_selectedCounts ?b = eb_selectedCounts b"
    "eb_writtenCounts ?b = inc_key (key_of r) (eb_writtenCounts b)" "eb_config ?b = eb_config b" "eb_overflow ?b = eb_overflow b"
    using r by (simp_all add: mark_written_def RecordWritten_def mark_def key_of_def)
  from at obtain free where rep: "ll_rep (eb_events b) (ls @ n # rs) free" and inv: "eb_inv b (us @ r # vs) D"
    and vals: "node_values (eb_events b) ls = us" "node_values (eb_events b) rs = vs" by (auto simp: eb_at_def)
  have n: "n < capacity (eb_events b)" "n \<notin> set ls" "n \<notin> set rs" using ll_repD(1,4)[OF rep] by auto
  have rep': "ll_rep (eb_events ?b) (ls @ n # rs) free" unfolding b by (rule Assign_rep[OF rep])
  have vals': "node_values (eb_events ?b) ls = us" "node_values (eb_events ?b) rs = vs" "ValueAt (eb_events ?b) n = mark r"
    "capacity (eb_events ?b) = capacity (eb_events b)"
    using n vals by (simp_all add: b Assign_values)
  then have holds: "holds (eb_events ?b) (us @ mark r # vs)" using rep' by (auto simp: holds_def)
  have "counts (inc_key (key_of r) (eb_writtenCounts b)) (add_mset (key_of r) (keys (filter soe_written (us @ r # vs))))"
    by (rule ec.inc) (rule eb_invD(7)[OF inv])
  moreover have "soe_selected r" "\<not> soe_written r" using r by (simp_all add: IsWritable_def)
  ultimately have "tracked ?b (keys (us @ mark r # vs)) (keys (filter soe_selected (us @ mark r # vs)) + D) (keys (filter soe_written (us @ mark r # vs)))"
    using inv r by (simp add: eb_inv_def tracked_def b)
  moreover have "\<forall>x\<in>set (us @ mark r # vs). record_ok x" using eb_invD(3)[OF inv] by auto
  moreover have "of_type t (us @ mark r # vs) \<le> quota (eb_config ?b) t" for t
    using eb_invD(4)[OF inv, of t] unfolding b(5) by (cases "soe_type r = t") simp_all
  ultimately have "eb_inv ?b (us @ mark r # vs) D"
    using holds vals'(4) eb_invD(2)[OF inv] unfolding eb_inv_def b(5) by simp
  then show "eb_at ?b (ls @ [n]) rs (us @ [mark r]) vs D" using rep' vals' by (auto simp: eb_at_def)
qed (simp_all add: mark_written_def RecordWritten_def)

lemma no_more_events:
  assumes inv: "eb_inv b vs D" and small: "size D + length vs < 2 ^ 32" and "\<not> HasMoreUnwrittenEvents b" and r: "r \<in> set vs"
  shows "\<not> IsWritable r"
proof
  assume w: "IsWritable r"
  have sub: "length (filter soe_written us) \<le> length (filter soe_selected us)
    \<and> (\<forall>r\<in>set us. IsWritable r \<longrightarrow> length (filter soe_written us) < length (filter soe_selected us))" if "\<forall>r\<in>set us. record_ok r" for us
    using that by (induction us) (auto simp: IsWritable_def record_ok_def)
  have le: "length (filter soe_selected vs) + size D < 2 ^ 32" "length (filter soe_written vs) < 2 ^ 32"
    using small length_filter_le[of soe_selected vs] length_filter_le[of soe_written vs] by linarith+
  have "unat (TotatCount (eb_selectedCounts b)) = length (filter soe_selected vs) + size D"
    using counts_total[OF eb_invD(6)[OF inv]] le(1) by (simp del: mset_filter)
  moreover have "unat (TotatCount (eb_writtenCounts b)) = length (filter soe_written vs)"
    using counts_total[OF eb_invD(7)[OF inv]] le(2) by (simp del: mset_filter)
  moreover have "length (filter soe_written vs) < length (filter soe_selected vs)"
    using sub[of vs] eb_invD(3)[OF inv] w r by blast
  ultimately show False using assms(3) by (simp add: HasMoreUnwrittenEvents_def HasAnySelection_def word_less_nat_alt)
qed


section \<open>A run of events\<close>

text \<open>
  What a step does with an event behind the items of a header: \<open>fits\<close> says which events go into the header, \<open>conv\<close>
  what is written of them.
\<close>

definition step_ok ::
  "(SOERecord \<Rightarrow> iterator \<Rightarrow> HeaderWriter \<Rightarrow> (WriteStep \<times> iterator \<times> HeaderWriter) option) \<Rightarrow> Measurement ObjectCodec
    \<Rightarrow> (SOERecord \<Rightarrow> bool) \<Rightarrow> (SOERecord \<Rightarrow> item) \<Rightarrow> WSlice \<Rightarrow> bytes \<Rightarrow> SOERecord \<Rightarrow> bool" where
  "step_ok step c fits conv p0 pre r \<longleftrightarrow> (\<forall>items header w. pw_state c p0 pre items header w \<longrightarrow>
     (if \<not> fits r then step r header w = Some (STEP_BREAK, header, w)
      else if WSlice_Size (hw_position w) < oc_size c + 2 then step r header w = Some (STEP_FULL, header, w)
      else \<exists>header' w'. step r header w = Some (STEP_WRITTEN, header', w') \<and> pw_state c p0 pre (items @ [conv r]) header' w'))"

definition loop_result ::
  "Measurement ObjectCodec \<Rightarrow> (SOERecord \<Rightarrow> bool) \<Rightarrow> SOERecord list \<Rightarrow> bool \<Rightarrow> nat option \<Rightarrow> nat option \<Rightarrow> EventBuffer \<Rightarrow> HeaderWriter \<Rightarrow> bool" where
  "loop_result c fits ys full loc place b w \<longleftrightarrow>
     (if full then (\<exists>r ys'. ys = r # ys' \<and> IsWritable r \<and> fits r \<and> WSlice_Size (hw_position w) < oc_size c + 2)
      else (\<forall>r\<in>set ys. \<not> IsWritable r) \<and> (loc = None \<or> \<not> HasMoreUnwrittenEvents b)
        \<or> (\<exists>r ys'. ys = r # ys' \<and> IsWritable r \<and> \<not> fits r \<and> loc = place))"

text \<open>
  What a loop from the events \<open>vs\<close> on leaves: it has passed the events \<open>xs\<close>, marked the writable ones and put them
  behind the header, and stops at \<open>ys\<close>.
\<close>

definition loop_post where
  "loop_post c fits conv p0 pre D b0 us vs items = (\<lambda>(full, loc, b, header, w).
     \<exists>xs ys ls rs. vs = xs @ ys \<and> eb_at b ls rs (us @ map mark xs) ys D
       \<and> eb_config b = eb_config b0 \<and> eb_overflow b = eb_overflow b0
       \<and> pw_state c p0 pre (items @ map conv (filter IsWritable xs)) header w \<and> (\<forall>r\<in>set xs. IsWritable r \<longrightarrow> fits r)
       \<and> loop_result c fits ys full loc (first rs None) b w)"

lemma loop_post_stop:
  assumes "eb_at b ls rs us vs D" "pw_state c p0 pre items header w" "loop_result c fits vs full loc (first rs None) b w"
  shows "loop_post c fits conv p0 pre D b us vs items (full, loc, b, header, w)"
  unfolding loop_post_def prod.case
  by (rule exI[of _ "[]"], rule exI[of _ vs], rule exI[of _ ls], rule exI[of _ rs]) (use assms in simp)

lemma loop_post_pass:
  assumes "loop_post c fits conv p0 pre D b' (us @ [mark r]) vs (items @ (if IsWritable r then [conv r] else [])) res"
    "IsWritable r \<longrightarrow> fits r" "eb_config b' = eb_config b" "eb_overflow b' = eb_overflow b"
  shows "loop_post c fits conv p0 pre D b us (r # vs) items res"
proof -
  obtain full loc b1 header w where res: "res = (full, loc, b1, header, w)" by (cases res)
  from assms(1) obtain xs ys ls rs where xs: "vs = xs @ ys" "eb_at b1 ls rs ((us @ [mark r]) @ map mark xs) ys D"
    "eb_config b1 = eb_config b'" "eb_overflow b1 = eb_overflow b'"
    "pw_state c p0 pre ((items @ (if IsWritable r then [conv r] else [])) @ map conv (filter IsWritable xs)) header w"
    "\<forall>r\<in>set xs. IsWritable r \<longrightarrow> fits r" "loop_result c fits ys full loc (first rs None) b1 w"
    unfolding loop_post_def res prod.case by blast
  show ?thesis unfolding res loop_post_def prod.case
    by (rule exI[of _ "r # xs"], rule exI[of _ ys], rule exI[of _ ls], rule exI[of _ rs]) (use xs assms(2-4) in \<open>cases "IsWritable r"; simp\<close>)
qed

lemma WriteLoop_spec:
  assumes "eb_at b ls rs us vs D" "size D + length (us @ vs) < 2 ^ 32"
    and "\<forall>r\<in>set vs. IsWritable r \<longrightarrow> step_ok step c fits conv p0 pre r" "pw_state c p0 pre items header w"
  shows "\<exists>res. WriteLoop step cur (first rs None) b header w = Some res \<and> loop_post c fits conv p0 pre D b us vs items res"
  using assms
proof (induction vs arbitrary: b ls rs us items header w cur)
  case Nil
  then have "rs = []" using eb_at_nodes by blast
  then have "WriteLoop step cur (first rs None) b header w
      = Some (False, if HasMoreUnwrittenEvents b then None else cur, b, header, w)"
    by (simp add: WriteLoop.simps[of step cur None])
  moreover have "loop_result c fits [] False (if HasMoreUnwrittenEvents b then None else cur) (first rs None) b w"
    by (simp add: loop_result_def)
  ultimately show ?case using loop_post_stop[OF Nil.prems(1,4)] by blast
next
  case (Cons r vs)
  obtain n rs' where rs: "rs = n # rs'" "ValueAt (eb_events b) n = r" "next_of (ll_underlying (eb_events b)) n = first rs' None"
    and skip: "eb_at b (ls @ [n]) rs' (us @ [r]) vs D" using eb_at_Cons[OF Cons.prems(1)] .
  have at: "eb_at b ls (n # rs') us (r # vs) D" using Cons.prems(1) rs(1) by simp
  have inv: "eb_inv b (us @ r # vs) D" using at by (simp add: eb_at_def)
  have small: "size D + length ((us @ [x]) @ vs) < 2 ^ 32" for x :: SOERecord using Cons.prems(2) by simp
  have steps: "\<forall>r\<in>set vs. IsWritable r \<longrightarrow> step_ok step c fits conv p0 pre r" using Cons.prems(3) by simp
  have first: "first rs None = Some n" using rs(1) by simp
  note loop = WriteLoop.simps[of step cur "Some n" b header w, unfolded option.case rs(2,3) Let_def]
  consider "\<not> HasMoreUnwrittenEvents b" | "HasMoreUnwrittenEvents b" "\<not> IsWritable r" | "HasMoreUnwrittenEvents b" "IsWritable r" by blast
  then show ?case
  proof cases
    case 1
    have "\<forall>s\<in>set (r # vs). \<not> IsWritable s" using no_more_events[OF inv Cons.prems(2) 1] by auto
    then have "loop_result c fits (r # vs) False cur (first rs None) b w" using 1 by (simp add: loop_result_def)
    then show ?thesis using loop_post_stop[OF Cons.prems(1,4)] loop 1 unfolding first by auto
  next
    case 2
    have mark: "mark r = r" using 2(2) by (simp add: mark_def)
    obtain res where "WriteLoop step (Some n) (first rs' None) b header w = Some res"
      "loop_post c fits conv p0 pre D b (us @ [r]) vs items res"
      using Cons.IH[OF skip small steps Cons.prems(4)] by blast
    then show ?thesis using loop_post_pass[of c fits conv p0 pre D b us r vs items res b] loop 2 mark unfolding first by auto
  next
    case 3
    have ok: "step_ok step c fits conv p0 pre r" using Cons.prems(3) 3(2) by simp
    note eff = ok[unfolded step_ok_def, rule_format, OF Cons.prems(4)]
    consider "\<not> fits r" | "fits r" "WSlice_Size (hw_position w) < oc_size c + 2" | "fits r" "\<not> WSlice_Size (hw_position w) < oc_size c + 2"
      by blast
    then show ?thesis
    proof cases
      case 1
      then have "loop_result c fits (r # vs) False (Some n) (first rs None) b w" using 3 first by (auto simp: loop_result_def)
      then show ?thesis using loop_post_stop[OF Cons.prems(1,4)] loop 3 eff 1 unfolding first by auto
    next
      case 2
      then have "loop_result c fits (r # vs) True (Some n) (first rs None) b w" using 3 2 by (auto simp: loop_result_def)
      then show ?thesis using loop_post_stop[OF Cons.prems(1,4)] loop 3 eff 2 unfolding first by auto
    next
      case full: 3
      obtain header' w' where w': "step r header w = Some (STEP_WRITTEN, header', w')" "pw_state c p0 pre (items @ [conv r]) header' w'"
        using eff full by auto
      note marked = eb_at_mark[OF at 3(2)]
      obtain res where "WriteLoop step (Some n) (first rs' None) (mark_written n r b) header' w' = Some res"
        "loop_post c fits conv p0 pre D (mark_written n r b) (us @ [mark r]) vs (items @ [conv r]) res"
        using Cons.IH[OF marked(1) small steps w'(2)] by blast
      then show ?thesis
        using loop_post_pass[of c fits conv p0 pre D "mark_written n r b" us r vs items res b] loop 3 w'(1) full(1) marked(2,3)
        unfolding first by auto
    qed
  qed
qed


section \<open>What is written of an event\<close>

definition codec :: "SOERecord \<Rightarrow> Measurement ObjectCodec" where
  "codec r = fst (LoadHeader_serializer (soe_type r) (selectedVariation r))"

definition has_cto :: "SOERecord \<Rightarrow> bool" where
  "has_cto r = snd (LoadHeader_serializer (soe_type r) (selectedVariation r))"

text \<open>The time an event is written relative to.\<close>

definition base_time :: "SOERecord \<Rightarrow> uint64" where
  "base_time r = (if has_cto r then soe_time r else 0)"

definition event_item :: "uint64 \<Rightarrow> SOERecord \<Rightarrow> item" where
  "event_item base r = (unat (soe_index r), the (oc_convert (codec r) ((ReadEvent_measurement r)\<lparr>m_time := soe_time r - base\<rparr>)))"

text \<open>The events that go behind the header of \<open>h\<close>.\<close>

definition same_header :: "SOERecord \<Rightarrow> SOERecord \<Rightarrow> bool" where
  "same_header h r \<longleftrightarrow> soe_type r = soe_type h \<and> selectedVariation r = selectedVariation h
     \<and> (has_cto h \<longrightarrow> soe_time h \<le> soe_time r \<and> soe_time r - soe_time h \<le> 65535)"

definition chunk_bytes :: "SOERecord list \<Rightarrow> bytes" where
  "chunk_bytes rs = (let h = hd rs in (if has_cto h then cto_bytes (soe_time h) else [])
     @ prefixed_bytes (codec h) (map (event_item (base_time h)) rs))"

text \<open>A chunk: the events behind one header.\<close>

definition chunk_ok :: "SOERecord list \<Rightarrow> bool" where
  "chunk_ok rs \<longleftrightarrow> rs \<noteq> [] \<and> (\<forall>r\<in>set rs. same_header (hd rs) r)"

text \<open>An event that can be written: no NaN for an object with an integer.\<close>

definition expressible :: "SOERecord \<Rightarrow> bool" where
  "expressible r \<longleftrightarrow> \<not> (int_valued (codec r) \<and> NaN_value (ReadEvent_measurement r))"

lemma serializer_in_objects: "(t, fst (LoadHeader_serializer t v)) \<in> set objects"
  by (cases t; simp only: LoadHeader_serializer.simps LoadHeaderBinary_def LoadHeaderDoubleBinary_def LoadHeaderCounter_def
      LoadHeaderFrozenCounter_def LoadHeaderAnalog_def LoadHeaderBinaryOutputStatus_def LoadHeaderAnalogOutputStatus_def
      LoadHeaderSecurityStat_def if_distrib[of fst] fst_conv objects_members if_True if_False simp_thms split: if_split)

lemma measurement_simps [simp]:
  "m_value (ReadEvent_measurement r) = vv_value (soe_value r)" "m_time (ReadEvent_measurement r) = soe_time r"
  by (cases "vv_value (soe_value r)"; simp add: ReadEvent_measurement_def SOERecord_ReadEvent_def)+

lemma measurement_base_0: "(ReadEvent_measurement r)\<lparr>m_time := soe_time r - 0\<rparr> = ReadEvent_measurement r"
  by (cases "vv_value (soe_value r)") (simp_all add: ReadEvent_measurement_def SOERecord_ReadEvent_def)

lemma event_converted:
  assumes "record_ok r" "expressible r"
  shows "oc_convert (codec r) ((ReadEvent_measurement r)\<lparr>m_time := soe_time r - base\<rparr>) = Some (snd (event_item base r))"
    "fields_size (map field_type (snd (event_item base r))) = oc_size (codec r)"
proof -
  let ?m = "(ReadEvent_measurement r)\<lparr>m_time := soe_time r - base\<rparr>"
  have ok: "object_ok (soe_type r) (codec r)" unfolding codec_def by (rule objects_ok) (rule serializer_in_objects)
  have fits: "value_fits (soe_type r) (m_value ?m)" using assms(1) by (simp add: record_ok_def)
  have "NaN_value ?m = NaN_value (ReadEvent_measurement r)" by (simp add: NaN_value_def)
  then have "oc_convert (codec r) ?m \<noteq> None" using ok fits assms(2) unfolding object_ok_def expressible_def by blast
  then obtain fs where fs: "oc_convert (codec r) ?m = Some fs" by blast
  then show "oc_convert (codec r) ?m = Some (snd (event_item base r))" by (simp add: event_item_def)
  show "fields_size (map field_type (snd (event_item base r))) = oc_size (codec r)"
  proof -
    have "map field_type fs = oc_fields (codec r)" "fields_size (oc_fields (codec r)) = oc_size (codec r)"
      using ok fits fs unfolding object_ok_def by blast+
    then show ?thesis using fs by (simp only: event_item_def snd_conv option.sel)
  qed
qed

lemma same_header_codec: "same_header h r \<Longrightarrow> codec r = codec h"
  by (simp add: same_header_def codec_def)

lemma Write_step:
  fixes idx :: nat
  assumes "pw_state c p0 pre items header w" "oc_convert c v = Some fs" "fields_size (map field_type fs) = oc_size c"
  defines "step \<equiv> map_option (\<lambda>(header, w, ok). (if ok then STEP_WRITTEN else STEP_FULL, header, w)) (PrefixedWriteIterator_Write v idx header w)"
  shows "if WSlice_Size (hw_position w) < oc_size c + 2 then step = Some (STEP_FULL, header, w)
    else \<exists>header' w'. step = Some (STEP_WRITTEN, header', w') \<and> pw_state c p0 pre (items @ [(idx, fs)]) header' w'"
proof (cases "WSlice_Size (hw_position w) < oc_size c + 2")
  case True
  then show ?thesis using PrefixedWriteIterator_Write_state[OF assms(1-3), of idx] by (simp add: step_def)
next
  case False
  then obtain header' w' where "PrefixedWriteIterator_Write v idx header w = Some (header', w', True)"
    "pw_state c p0 pre (items @ [(idx, fs)]) header' w'"
    using PrefixedWriteIterator_Write_state[OF assms(1-3), of idx] by auto
  with False show ?thesis by (simp add: step_def)
qed

lemma WriteType_step_ok:
  assumes "record_ok r" "expressible r" "\<not> has_cto h"
  shows "step_ok (WriteType_step (soe_type h) (selectedVariation h)) (codec h) (same_header h) (event_item (base_time h)) p0 pre r"
  unfolding step_ok_def
proof (intro allI impI)
  fix items header w
  assume st: "pw_state (codec h) p0 pre items header w"
  have base: "base_time h = 0" using assms(3) by (simp add: base_time_def)
  note conv = event_converted[OF assms(1,2), of 0]
  have fits: "same_header h r \<longleftrightarrow> soe_type r = soe_type h \<and> selectedVariation r = selectedVariation h"
    using assms(3) by (simp add: same_header_def)
  show "if \<not> same_header h r then WriteType_step (soe_type h) (selectedVariation h) r header w = Some (STEP_BREAK, header, w)
      else if WSlice_Size (hw_position w) < oc_size (codec h) + 2
        then WriteType_step (soe_type h) (selectedVariation h) r header w = Some (STEP_FULL, header, w)
      else \<exists>header' w'. WriteType_step (soe_type h) (selectedVariation h) r header w = Some (STEP_WRITTEN, header', w')
        \<and> pw_state (codec h) p0 pre (items @ [event_item (base_time h) r]) header' w'"
  proof (cases "same_header h r")
    case True
    note c = conv[unfolded same_header_codec[OF True] measurement_base_0]
    have item: "(unat (soe_index r), snd (event_item 0 r)) = event_item 0 r" by (simp add: event_item_def)
    have "WriteType_step (soe_type h) (selectedVariation h) r header w
        = map_option (\<lambda>(header, w, ok). (if ok then STEP_WRITTEN else STEP_FULL, header, w))
            (PrefixedWriteIterator_Write (ReadEvent_measurement r) (unat (soe_index r)) header w)"
      using True fits by (simp add: WriteType_step_def)
    with True show ?thesis using Write_step[OF st c, of "unat (soe_index r)"] unfolding base item by (simp only: not_True_eq_False if_False)
  qed (simp add: WriteType_step_def fits)
qed

lemma WriteCTOType_step_ok:
  assumes "record_ok r" "expressible r" "has_cto h"
  shows "step_ok (WriteCTOType_step (soe_time h) (soe_type h) (selectedVariation h)) (codec h) (same_header h)
    (event_item (base_time h)) p0 pre r"
  unfolding step_ok_def
proof (intro allI impI)
  fix items header w
  assume st: "pw_state (codec h) p0 pre items header w"
  let ?step = "WriteCTOType_step (soe_time h) (soe_type h) (selectedVariation h) r header w"
  have base: "base_time h = soe_time h" using assms(3) by (simp add: base_time_def)
  note conv = event_converted[OF assms(1,2), of "soe_time h"]
  have fits: "same_header h r \<longleftrightarrow> soe_type r = soe_type h \<and> selectedVariation r = selectedVariation h
      \<and> \<not> soe_time r < soe_time h \<and> \<not> soe_time r - soe_time h > 65535"
    using assms(3) by (simp add: same_header_def not_less)
  show "if \<not> same_header h r then ?step = Some (STEP_BREAK, header, w)
      else if WSlice_Size (hw_position w) < oc_size (codec h) + 2 then ?step = Some (STEP_FULL, header, w)
      else \<exists>header' w'. ?step = Some (STEP_WRITTEN, header', w')
        \<and> pw_state (codec h) p0 pre (items @ [event_item (base_time h) r]) header' w'"
  proof (cases "same_header h r")
    case True
    note c = conv[unfolded same_header_codec[OF True]]
    have item: "(unat (soe_index r), snd (event_item (soe_time h) r)) = event_item (soe_time h) r" by (simp add: event_item_def)
    have "WriteCTOType_step (soe_time h) (soe_type h) (selectedVariation h) r header w
        = map_option (\<lambda>(header, w, ok). (if ok then STEP_WRITTEN else STEP_FULL, header, w))
            (PrefixedWriteIterator_Write ((ReadEvent_measurement r)\<lparr>m_time := soe_time r - soe_time h\<rparr>) (unat (soe_index r)) header w)"
      using True fits by (simp add: WriteCTOType_step_def Let_def)
    with True show ?thesis using Write_step[OF st c, of "unat (soe_index r)"] unfolding base item by (simp only: not_True_eq_False if_False)
  next
    case False
    then show ?thesis using fits by (auto simp: WriteCTOType_step_def Let_def)
  qed
qed


section \<open>One header\<close>

definition room_needed :: "SOERecord \<Rightarrow> nat" where
  "room_needed r = (if has_cto r then 17 else 7) + oc_size (codec r)"

text \<open>
  What \<^verbatim>\<open>LoadHeader\<close> leaves when it starts at the writable event \<open>h\<close>: a chunk of events that starts with \<open>h\<close> is
  written, or the fragment has no room for the header and one event.
\<close>

definition load_post where
  "load_post p0 D b0 us h vs = (\<lambda>(full, loc, b, w).
     \<exists>xs ys ls rs. h # vs = xs @ ys \<and> eb_at b ls rs (us @ map mark xs) ys D
       \<and> eb_config b = eb_config b0 \<and> eb_overflow b = eb_overflow b0
       \<and> (if xs = [] then full \<and> wrote [] p0 (hw_position w)
          else chunk_ok (filter IsWritable xs) \<and> wrote (chunk_bytes (filter IsWritable xs)) p0 (hw_position w))
       \<and> (if full then (\<exists>r ys'. ys = r # ys' \<and> IsWritable r \<and> WSlice_Size (hw_position w) < room_needed r)
          else (\<forall>r\<in>set ys. \<not> IsWritable r) \<and> (loc = None \<or> \<not> HasMoreUnwrittenEvents b)
            \<or> (\<exists>r ys'. ys = r # ys' \<and> IsWritable r \<and> loc = first rs None)))"

lemma same_header_refl: "same_header h h"
  by (simp add: same_header_def)

lemma loop_load_post:
  assumes post: "loop_post (codec h) (same_header h) (event_item (base_time h)) p0 pre D b us (h # vs) [] (full, loc, b', header, w)"
    and pre: "pre = (if has_cto h then cto_bytes (soe_time h) else [])"
    and h: "IsWritable h" and room: "room_needed h \<le> WSlice_Size p0"
  shows "load_post p0 D b us h vs (full, loc, b', PrefixedWriteIterator_destroy header w)"
proof -
  from post obtain xs ys ls rs where xs: "h # vs = xs @ ys" "eb_at b' ls rs (us @ map mark xs) ys D"
    "eb_config b' = eb_config b" "eb_overflow b' = eb_overflow b"
    "pw_state (codec h) p0 pre (map (event_item (base_time h)) (filter IsWritable xs)) header w"
    "\<forall>r\<in>set xs. IsWritable r \<longrightarrow> same_header h r" "loop_result (codec h) (same_header h) ys full loc (first rs None) b' w"
    unfolding loop_post_def prod.case by auto
  note destroy = PrefixedWriteIterator_destroy_state[OF xs(5)]
  have "xs \<noteq> []"
  proof
    assume empty: "xs = []"
    then obtain x where "length x = 2" "wrote (pre @ header_start (codec h) @ x) p0 (hw_position w)" using xs(5) by (auto simp: pw_state_def)
    from wrote_Size[OF this(2)] this(1) room have "oc_size (codec h) + 2 \<le> WSlice_Size (hw_position w)"
      by (auto simp: pre room_needed_def header_start_def cto_bytes_def split: if_splits)
    then show False using xs(1,7) empty h same_header_refl[of h] by (auto simp: loop_result_def split: if_splits)
  qed
  then obtain xs' where xs': "xs = h # xs'" using xs(1) by (cases xs) auto
  have hd: "hd (filter IsWritable xs) = h" "filter IsWritable xs \<noteq> []" using xs' h by simp_all
  have chunk: "chunk_ok (filter IsWritable xs)" using xs(6) hd by (simp add: chunk_ok_def)
  have bytes: "pre @ prefixed_bytes (codec h) (map (event_item (base_time h)) (filter IsWritable xs)) = chunk_bytes (filter IsWritable xs)"
    by (simp add: chunk_bytes_def hd pre Let_def)
  have full: "if full then (\<exists>r ys'. ys = r # ys' \<and> IsWritable r \<and> WSlice_Size (hw_position (PrefixedWriteIterator_destroy header w)) < room_needed r)
          else (\<forall>r\<in>set ys. \<not> IsWritable r) \<and> (loc = None \<or> \<not> HasMoreUnwrittenEvents b')
            \<or> (\<exists>r ys'. ys = r # ys' \<and> IsWritable r \<and> loc = first rs None)"
  proof (cases full)
    case True
    then obtain r ys' where r: "ys = r # ys'" "IsWritable r" "same_header h r" "WSlice_Size (hw_position w) < oc_size (codec h) + 2"
      using xs(7) by (auto simp: loop_result_def)
    then have "WSlice_Size (hw_position (PrefixedWriteIterator_destroy header w)) < room_needed r"
      using same_header_codec[OF r(3)] destroy(3) by (simp add: room_needed_def)
    with True r(1,2) show ?thesis by auto
  next
    case False
    then show ?thesis using xs(7) unfolding loop_result_def if_not_P[OF False] by blast
  qed
  show ?thesis unfolding load_post_def prod.case
    by (rule exI[of _ xs], rule exI[of _ ys], rule exI[of _ ls], rule exI[of _ rs])
      (use xs(1-4) \<open>xs \<noteq> []\<close> chunk destroy(1) full in \<open>simp only: bytes if_False simp_thms\<close>)
qed

lemma WriteLoop_full:
  assumes "HasMoreUnwrittenEvents b" "IsWritable (ValueAt (eb_events b) n)" "step (ValueAt (eb_events b) n) header w = Some (STEP_FULL, header, w)"
  shows "WriteLoop step None (Some n) b header w = Some (True, Some n, b, header, w)"
  using assms by (simp add: WriteLoop.simps[of step None "Some n"] Let_def)

lemma full_load_post:
  assumes "eb_at b ls rs us (h # vs) D" "IsWritable h" "WSlice_Size p0 < room_needed h" "wrote [] p0 (hw_position w)"
  shows "load_post p0 D b us h vs (True, loc, b, w)"
proof -
  have "WSlice_Size (hw_position w) < room_needed h" using wrote_Size[OF assms(4)] assms(3) by simp
  then show ?thesis unfolding load_post_def prod.case
    by - (rule exI[of _ "[]"], rule exI[of _ "h # vs"], rule exI[of _ ls], rule exI[of _ rs], use assms in simp)
qed

lemma LoadHeader_spec:
  assumes at: "eb_at b ls (n # rs) us (h # vs) D" and small: "size D + length (us @ h # vs) < 2 ^ 32"
    and ok: "\<forall>r\<in>set (h # vs). IsWritable r \<longrightarrow> expressible r" and h: "IsWritable h" and more: "HasMoreUnwrittenEvents b" and w: "hw_ok w"
  shows "\<exists>res. LoadHeader n b w = Some res \<and> load_post (hw_position w) D b us h vs res"
proof -
  have val: "ValueAt (eb_events b) n = h" using at by (simp add: eb_at_def)
  have rec: "\<forall>r\<in>set (h # vs). record_ok r" using at eb_invD(3)[of b "us @ h # vs" D] by (auto simp: eb_at_def)
  have ser: "LoadHeader_serializer (soe_type h) (selectedVariation h) = (codec h, has_cto h)" by (simp add: codec_def has_cto_def)
  let ?p0 = "hw_position w"
  have null: "\<not> pw_isValid i \<Longrightarrow> PrefixedWriteIterator_destroy i v = v" for i :: iterator and v by (simp add: PrefixedWriteIterator_destroy_def)
  show ?thesis
  proof (cases "has_cto h")
    case False
    let ?step = "WriteType_step (soe_type h) (selectedVariation h)"
    obtain header w1 where iter: "IterateOverCountWithPrefix Index16 UINT16_CNT_UINT16_INDEX (codec h) w = (header, w1)"
      "if WSlice_Size ?p0 < 7 + oc_size (codec h) then \<not> pw_isValid header \<and> w1 = w else pw_state (codec h) ?p0 [] [] header w1"
      using IterateOverCountWithPrefix_state[OF w wrote_refl, of "codec h"] w by (auto simp: hw_ok_def split: prod.splits if_splits)
    have load: "LoadHeader n b w = map_option (\<lambda>(full, location, b, header, w). (full, location, b, PrefixedWriteIterator_destroy header w))
        (WriteLoop ?step None (Some n) b header w1)"
      using iter(1) False by (simp add: LoadHeader_def val ser WriteTypeWithSerializer_def)
    show ?thesis
    proof (cases "WSlice_Size ?p0 < 7 + oc_size (codec h)")
      case True
      then have bad: "\<not> pw_isValid header" "w1 = w" using iter(2) by simp_all
      then have "?step h header w = Some (STEP_FULL, header, w)" by (simp add: WriteType_step_def PrefixedWriteIterator_Write_def)
      then have "LoadHeader n b w = Some (True, Some n, b, w)"
        using WriteLoop_full[OF more, of n ?step header w] h bad null by (simp add: load val)
      moreover have "load_post ?p0 D b us h vs (True, Some n, b, w)"
        by (rule full_load_post[OF at h]) (use True False w in \<open>simp_all add: room_needed_def hw_ok_def wrote_refl\<close>)
      ultimately show ?thesis by blast
    next
      case room: False
      then have st: "pw_state (codec h) ?p0 [] [] header w1" using iter(2) by simp
      have steps: "\<forall>r\<in>set (h # vs). IsWritable r \<longrightarrow> step_ok ?step (codec h) (same_header h) (event_item (base_time h)) ?p0 [] r"
        using rec ok WriteType_step_ok[OF _ _ False] by blast
      obtain full loc b' header' w' where "WriteLoop ?step None (Some n) b header w1 = Some (full, loc, b', header', w')"
        "loop_post (codec h) (same_header h) (event_item (base_time h)) ?p0 [] D b us (h # vs) [] (full, loc, b', header', w')"
        using WriteLoop_spec[OF at small steps st, of None] by (auto split: prod.splits)
      then show ?thesis using loop_load_post[of h ?p0 "[]" D b us vs full loc b' header' w'] False h room
        by (simp add: load room_needed_def)
    qed
  next
    case True
    let ?step = "WriteCTOType_step (soe_time h) (soe_type h) (selectedVariation h)"
    let ?pre = "cto_bytes (soe_time h)"
    obtain header w1 where iter: "IterateOverCountWithPrefixAndCTO Index16 UINT16_CNT_UINT16_INDEX (codec h) Group51Var1 (soe_time h) w = Some (header, w1)"
      "if WSlice_Size ?p0 < 17 + oc_size (codec h) then \<not> pw_isValid header \<and> wrote [] ?p0 (hw_position w1) else pw_state (codec h) ?p0 ?pre [] header w1"
      using IterateOverCountWithPrefixAndCTO_state[OF w, of "codec h" "soe_time h"] by (auto split: if_splits)
    have load: "LoadHeader n b w = map_option (\<lambda>(full, location, b, header, w). (full, location, b, PrefixedWriteIterator_destroy header w))
        (WriteLoop ?step None (Some n) b header w1)"
      using iter(1) True by (simp add: LoadHeader_def val ser WriteCTOTypeWithSerializer_def)
    show ?thesis
    proof (cases "WSlice_Size ?p0 < 17 + oc_size (codec h)")
      case short: True
      then have bad: "\<not> pw_isValid header" "wrote [] ?p0 (hw_position w1)" using iter(2) by simp_all
      then have "?step h header w1 = Some (STEP_FULL, header, w1)" by (simp add: WriteCTOType_step_def PrefixedWriteIterator_Write_def)
      then have "LoadHeader n b w = Some (True, Some n, b, w1)"
        using WriteLoop_full[OF more, of n ?step header w1] h bad null by (simp add: load val)
      moreover have "load_post ?p0 D b us h vs (True, Some n, b, w1)"
        using full_load_post[OF at h _ bad(2)] True short by (simp add: room_needed_def)
      ultimately show ?thesis by blast
    next
      case room: False
      then have st: "pw_state (codec h) ?p0 ?pre [] header w1" using iter(2) by simp
      have steps: "\<forall>r\<in>set (h # vs). IsWritable r \<longrightarrow> step_ok ?step (codec h) (same_header h) (event_item (base_time h)) ?p0 ?pre r"
        using rec ok WriteCTOType_step_ok[OF _ _ True] by blast
      obtain full loc b' header' w' where "WriteLoop ?step None (Some n) b header w1 = Some (full, loc, b', header', w')"
        "loop_post (codec h) (same_header h) (event_item (base_time h)) ?p0 ?pre D b us (h # vs) [] (full, loc, b', header', w')"
        using WriteLoop_spec[OF at small steps st, of None] by (auto split: prod.splits)
      then show ?thesis using loop_load_post[of h ?p0 ?pre D b us vs full loc b' header' w'] True h room
        by (simp add: load room_needed_def)
    qed
  qed
qed


section \<open>The whole response\<close>

definition write_post where
  "write_post p0 D b0 us vs = (\<lambda>(b, w, finished).
     \<exists>xs ys chunks. vs = xs @ ys \<and> eb_inv b (us @ map mark xs @ ys) D \<and> eb_config b = eb_config b0 \<and> eb_overflow b = eb_overflow b0
       \<and> concat chunks = filter IsWritable xs \<and> (\<forall>c\<in>set chunks. chunk_ok c)
       \<and> wrote (concat (map chunk_bytes chunks)) p0 (hw_position w)
       \<and> (if finished then \<forall>r\<in>set ys. \<not> IsWritable r
          else \<exists>r ys'. ys = r # ys' \<and> IsWritable r \<and> WSlice_Size (hw_position w) < room_needed r))"

lemma write_postI:
  assumes "vs = xs @ ys" "eb_inv b (us @ map mark xs @ ys) D" "eb_config b = eb_config b0" "eb_overflow b = eb_overflow b0"
    "concat chunks = filter IsWritable xs" "\<forall>c\<in>set chunks. chunk_ok c" "wrote (concat (map chunk_bytes chunks)) p0 (hw_position w)"
    "if finished then \<forall>r\<in>set ys. \<not> IsWritable r
     else \<exists>r ys'. ys = r # ys' \<and> IsWritable r \<and> WSlice_Size (hw_position w) < room_needed r"
  shows "write_post p0 D b0 us vs (b, w, finished)"
  unfolding write_post_def prod.case
  by (rule exI[of _ xs], rule exI[of _ ys], rule exI[of _ chunks]) (use assms in blast)

lemma write_post_done:
  assumes "eb_inv b (us @ vs) D" "\<forall>r\<in>set vs. \<not> IsWritable r" "wrote [] p0 (hw_position w)"
  shows "write_post p0 D b us vs (b, w, True)"
  using assms by (intro write_postI[where xs = "[]" and ys = vs and chunks = "[]"]) simp_all

text \<open>What was written before, and then the rest.\<close>

lemma write_post_pass:
  assumes post: "write_post p1 D b1 (us @ map mark zs) vs res"
    and first: "concat chunks = filter IsWritable zs" "\<forall>c\<in>set chunks. chunk_ok c" "wrote (concat (map chunk_bytes chunks)) p0 p1"
    and frame: "eb_config b1 = eb_config b" "eb_overflow b1 = eb_overflow b"
  shows "write_post p0 D b us (zs @ vs) res"
proof -
  obtain b2 w finished where res: "res = (b2, w, finished)" by (cases res)
  from post obtain xs ys cs where xs: "vs = xs @ ys" "eb_inv b2 ((us @ map mark zs) @ map mark xs @ ys) D"
    "eb_config b2 = eb_config b1" "eb_overflow b2 = eb_overflow b1"
    "concat cs = filter IsWritable xs" "\<forall>c\<in>set cs. chunk_ok c"
    "wrote (concat (map chunk_bytes cs)) p1 (hw_position w)"
    "if finished then \<forall>r\<in>set ys. \<not> IsWritable r
     else \<exists>r ys'. ys = r # ys' \<and> IsWritable r \<and> WSlice_Size (hw_position w) < room_needed r"
    unfolding write_post_def res prod.case by blast
  have bytes: "wrote (concat (map chunk_bytes (chunks @ cs))) p0 (hw_position w)" using wrote_trans[OF first(3) xs(7)] by simp
  show ?thesis unfolding res
    by (rule write_postI[where xs = "zs @ xs" and ys = ys and chunks = "chunks @ cs", OF _ _ _ _ _ _ bytes xs(8)])
      (use xs first frame in \<open>auto simp del: filter.simps\<close>)
qed

lemma EventWriter_Write_stop:
  "loc = None \<or> \<not> HasMoreUnwrittenEvents b \<Longrightarrow> EventWriter_Write loc b w = Some (b, w, True)"
  by (subst EventWriter_Write.simps) (auto split: option.splits)

lemma EventWriter_Write_spec:
  assumes "eb_at b ls rs us vs D" "size D + length (us @ vs) < 2 ^ 32" "\<forall>r\<in>set vs. IsWritable r \<longrightarrow> expressible r" "hw_ok w"
  shows "\<exists>res. EventWriter_Write (first rs None) b w = Some res \<and> write_post (hw_position w) D b us vs res"
  using assms
proof (induction "length vs" arbitrary: b ls rs us vs w rule: less_induct)
  case less
  note at = less.prems(1)
  have inv: "eb_inv b (us @ vs) D" using at by (simp add: eb_at_def)
  have refl: "wrote [] (hw_position w) (hw_position w)" using less.prems(4) by (simp add: hw_ok_def wrote_refl)
  show ?case
  proof (cases "vs = [] \<or> \<not> HasMoreUnwrittenEvents b")
    case True
    then have "first rs None = None \<or> \<not> HasMoreUnwrittenEvents b" using eb_at_nodes[OF at] by simp
    moreover have "\<forall>r\<in>set vs. \<not> IsWritable r" using True no_more_events[OF inv less.prems(2)] by auto
    ultimately show ?thesis using EventWriter_Write_stop write_post_done[OF inv _ refl] by blast
  next
    case False
    then obtain h vs' where vs: "vs = h # vs'" by (cases vs) auto
    have more: "HasMoreUnwrittenEvents b" using False by simp
    obtain n rs' where rs: "rs = n # rs'" "ValueAt (eb_events b) n = h" "next_of (ll_underlying (eb_events b)) n = first rs' None"
      and skip: "eb_at b (ls @ [n]) rs' (us @ [h]) vs' D" using eb_at_Cons[OF at[unfolded vs]] .
    note step = EventWriter_Write.simps[of "Some n" b w, unfolded option.case rs(2,3) if_P[OF more]]
    show ?thesis
    proof (cases "IsWritable h")
      case False
      have small: "size D + length ((us @ [h]) @ vs') < 2 ^ 32" and ok: "\<forall>r\<in>set vs'. IsWritable r \<longrightarrow> expressible r"
        using less.prems(2,3) vs by simp_all
      obtain res where "EventWriter_Write (first rs' None) b w = Some res" "write_post (hw_position w) D b (us @ map mark [h]) vs' res"
        using less.hyps[OF _ skip small ok less.prems(4)] vs False by (auto simp: mark_def)
      then show ?thesis
        using write_post_pass[of "hw_position w" D b us "[h]" vs' res "[]" "hw_position w" b] refl step False rs(1) vs by auto
    next
      case True
      have loads: "size D + length (us @ h # vs') < 2 ^ 32" "\<forall>r\<in>set (h # vs'). IsWritable r \<longrightarrow> expressible r"
        "eb_at b ls (n # rs') us (h # vs') D" using less.prems(1-3) vs rs(1) by simp_all
      obtain full loc b1 w1 where load: "LoadHeader n b w = Some (full, loc, b1, w1)"
        "load_post (hw_position w) D b us h vs' (full, loc, b1, w1)"
        using LoadHeader_spec[OF loads(3,1,2) True more less.prems(4)] by (auto split: prod.splits)
      then obtain xs ys ls1 rs1 where xs: "h # vs' = xs @ ys" "eb_at b1 ls1 rs1 (us @ map mark xs) ys D"
        "eb_config b1 = eb_config b" "eb_overflow b1 = eb_overflow b"
        "if xs = [] then full \<and> wrote [] (hw_position w) (hw_position w1)
          else chunk_ok (filter IsWritable xs) \<and> wrote (chunk_bytes (filter IsWritable xs)) (hw_position w) (hw_position w1)"
        "if full then (\<exists>r ys'. ys = r # ys' \<and> IsWritable r \<and> WSlice_Size (hw_position w1) < room_needed r)
          else (\<forall>r\<in>set ys. \<not> IsWritable r) \<and> (loc = None \<or> \<not> HasMoreUnwrittenEvents b1)
            \<or> (\<exists>r ys'. ys = r # ys' \<and> IsWritable r \<and> loc = first rs1 None)"
        unfolding load_post_def prod.case by blast
      define chunks where "chunks = (if xs = [] then [] else [filter IsWritable xs])"
      have chunks: "concat chunks = filter IsWritable xs" "\<forall>c\<in>set chunks. chunk_ok c"
        "wrote (concat (map chunk_bytes chunks)) (hw_position w) (hw_position w1)"
        using xs(5) by (simp_all add: chunks_def split: if_splits)
      note pass = write_post_pass[OF _ chunks xs(3,4), of D us ys]
      have inv1: "eb_inv b1 ((us @ map mark xs) @ ys) D" using xs(2) by (simp add: eb_at_def)
      have refl1: "wrote [] (hw_position w1) (hw_position w1)" using chunks(3) by (simp add: wrote_def)
      have vs_eq: "vs = xs @ ys" using vs xs(1) by simp
      have run: "EventWriter_Write (first rs None) b w = (if full then Some (b1, w1, False) else EventWriter_Write loc b1 w1)"
        using step True load(1) rs(1) by simp
      consider full | "\<not> full" "\<forall>r\<in>set ys. \<not> IsWritable r" "loc = None \<or> \<not> HasMoreUnwrittenEvents b1"
        | "\<not> full" "loc = first rs1 None" using xs(6) by (auto split: if_splits)
      then show ?thesis
      proof cases
        case 1
        have "write_post (hw_position w1) D b1 (us @ map mark xs) ys (b1, w1, False)"
          by (rule write_postI[where xs = "[]" and ys = ys and chunks = "[]"]) (use inv1 refl1 xs(6) 1 in auto)
        then show ?thesis using pass run 1 vs_eq by auto
      next
        case 2
        then show ?thesis using pass[OF write_post_done[OF inv1 2(2) refl1]] run EventWriter_Write_stop[OF 2(3)] vs_eq by auto
      next
        case 3
        then have "xs \<noteq> []" using xs(5) by auto
        then have "length ys < length vs" using vs_eq by simp
        moreover have "size D + length ((us @ map mark xs) @ ys) < 2 ^ 32" "\<forall>r\<in>set ys. IsWritable r \<longrightarrow> expressible r"
          using less.prems(2,3) vs_eq by auto
        moreover have "hw_ok w1" using refl1 by (simp add: wrote_def hw_ok_def)
        ultimately obtain res where "EventWriter_Write (first rs1 None) b1 w1 = Some res"
          "write_post (hw_position w1) D b1 (us @ map mark xs) ys res"
          using less.hyps[of ys b1 ls1 rs1 "us @ map mark xs" w1] xs(2) by blast
        then show ?thesis using pass[of res] run 3 vs_eq by auto
      qed
    qed
  qed
qed


lemma EventBuffer_Load_list:
  assumes "eb_inv b vs D" and "hw_ok w" and "size D + length vs < 2 ^ 32" and "\<forall>r\<in>set vs. IsWritable r \<longrightarrow> expressible r"
  shows "\<exists>b' w' finished xs ys chunks. EventBuffer_Load w b = Some (b', w', finished)
    \<and> vs = xs @ ys \<and> eb_inv b' (map mark xs @ ys) D \<and> eb_config b' = eb_config b \<and> eb_overflow b' = eb_overflow b
    \<and> concat chunks = filter IsWritable xs \<and> (\<forall>c\<in>set chunks. chunk_ok c)
    \<and> wrote (concat (map chunk_bytes chunks)) (hw_position w) (hw_position w')
    \<and> (if finished then \<forall>r\<in>set ys. \<not> IsWritable r
       else \<exists>r ys'. ys = r # ys' \<and> IsWritable r \<and> WSlice_Size (hw_position w') < room_needed r)"
proof -
  obtain rs where rs: "eb_at b [] rs [] vs D" "ll_pHead (eb_events b) = first rs None" using eb_at_start[OF assms(1)] by blast
  obtain b' w' finished where load: "EventBuffer_Load w b = Some (b', w', finished)"
    "write_post (hw_position w) D b [] vs (b', w', finished)"
    using EventWriter_Write_spec[OF rs(1), of w] assms(2-4) rs(2) by (auto simp: EventBuffer_Load_def)
  from load(2) show ?thesis unfolding write_post_def prod.case append_Nil using load(1) by blast
qed

text \<open>
  \<^bold>\<open>C19\<close>.  \<^verbatim>\<open>EventBuffer::Load\<close> writes into the fragment the selected events that are not written yet, oldest first, in
  chunks of events behind one header each, and marks exactly the events it wrote.  It reports that it is done only when no
  event is left to be written, and otherwise stops at an event for whose header and object there is no room.  It always ends.
\<close>

theorem EventBuffer_Load_correct:
  assumes "eb_inv b vs D" and "hw_ok w" and "size D + length vs < 2 ^ 32" and "\<forall>r\<in>set vs. IsWritable r \<longrightarrow> expressible r"
  shows "\<exists>b' w' finished xs ys chunks. EventBuffer_Load w b = Some (b', w', finished)
    \<and> vs = xs @ ys \<and> eb_inv b' (map mark xs @ ys) D \<and> eb_config b' = eb_config b \<and> eb_overflow b' = eb_overflow b
    \<and> concat chunks = filter IsWritable xs \<and> (\<forall>c\<in>set chunks. chunk_ok c)
    \<and> written w' = written w @ concat (map chunk_bytes chunks) \<and> Remaining w' + length (concat (map chunk_bytes chunks)) = Remaining w
    \<and> (if finished then \<forall>r\<in>set ys. \<not> IsWritable r
       else \<exists>r ys'. ys = r # ys' \<and> IsWritable r \<and> Remaining w' < room_needed r)"
proof -
  obtain b' w' finished xs ys chunks where post: "EventBuffer_Load w b = Some (b', w', finished)" "vs = xs @ ys" "eb_inv b' (map mark xs @ ys) D"
    "eb_config b' = eb_config b" "eb_overflow b' = eb_overflow b" "concat chunks = filter IsWritable xs" "\<forall>c\<in>set chunks. chunk_ok c"
    "wrote (concat (map chunk_bytes chunks)) (hw_position w) (hw_position w')"
    "if finished then \<forall>r\<in>set ys. \<not> IsWritable r
     else \<exists>r ys'. ys = r # ys' \<and> IsWritable r \<and> WSlice_Size (hw_position w') < room_needed r"
    using EventBuffer_Load_list[OF assms] by blast
  have "written w' = written w @ concat (map chunk_bytes chunks)"
    "WSlice_Size (hw_position w') + length (concat (map chunk_bytes chunks)) = WSlice_Size (hw_position w)"
    using post(8) wrote_Size[OF post(8)] by (simp_all add: wrote_def)
  with post show ?thesis unfolding Remaining_def by blast
qed

lemma chunks_of_one: "concat cs = [r] \<Longrightarrow> \<forall>c\<in>set cs. chunk_ok c \<Longrightarrow> cs = [[r]]"
proof -
  assume *: "concat cs = [r]" "\<forall>c\<in>set cs. chunk_ok c"
  then obtain c cs' where cs: "cs = c # cs'" "c \<noteq> []" by (cases cs) (auto simp: chunk_ok_def)
  with * have "c = [r]" "concat cs' = []" by (cases c; auto)+
  moreover have "cs' = []" using \<open>concat cs' = []\<close> * cs by (cases cs') (auto simp: chunk_ok_def)
  ultimately show ?thesis using cs by simp
qed

lemma chunks_of_none: "concat cs = [] \<Longrightarrow> \<forall>c\<in>set cs. chunk_ok c \<Longrightarrow> cs = []"
  by (cases cs) (auto simp: chunk_ok_def)

lemma selected_buffer:
  "\<exists>b b1. UpdateAny (test_event 7) (EventBuffer_make (EventBufferConfig_AllTypes 3)) = Some b
    \<and> SelectMaxCount (GroupVar 2 1) 5 b = Some (b1, IIN_Empty)
    \<and> eb_inv b1 [SOERecord_Select (GroupVar 2 1) (SOERecord_make (test_event 7))] {#}"
proof -
  obtain b where b: "UpdateAny (test_event 7) (EventBuffer_make (EventBufferConfig_AllTypes 3)) = Some b"
    "eb_inv b [SOERecord_make (test_event 7)] {#}" using test_buffer by blast
  have "map_of select_cases (GroupVar 2 1) = Some (SelectType ET_Binary (Some (GroupVar 2 1)))"
    by (simp add: select_cases_def select_types_def GroupVar_def)
  then show ?thesis
    using b SelectMaxCount_fresh[OF b(2), of "GroupVar 2 1" _ 5] by (auto simp: test_event_def)
qed

text \<open>A binary event with index 7 is written into a fragment of 20 octets.\<close>

lemma EventBuffer_Load_correct_witness:
  "\<exists>b b1 b' w'. UpdateAny (test_event 7) (EventBuffer_make (EventBufferConfig_AllTypes 3)) = Some b
    \<and> SelectMaxCount (GroupVar 2 1) 5 b = Some (b1, IIN_Empty)
    \<and> EventBuffer_Load (HeaderWriter_make (WSlice_make (replicate 20 0))) b1 = Some (b', w', True)
    \<and> written w' = [2, 1, 0x28, 1, 0, 7, 0, 0x81]"
proof -
  define r where "r = SOERecord_Select (GroupVar 2 1) (SOERecord_make (test_event 7))"
  define w where "w = HeaderWriter_make (WSlice_make (replicate 20 0))"
  obtain b b1 where b: "UpdateAny (test_event 7) (EventBuffer_make (EventBufferConfig_AllTypes 3)) = Some b"
    and b1: "SelectMaxCount (GroupVar 2 1) 5 b = Some (b1, IIN_Empty)" "eb_inv b1 [r] {#}"
    using selected_buffer unfolding r_def by blast
  have r: "IsWritable r" "soe_type r = ET_Binary" "selectedVariation r = GroupVar 2 1" "vv_value (soe_value r) = BoolValue True"
    "soe_index r = 7" "soe_flags r = 1" "soe_time r = 0"
    by (simp_all add: r_def IsWritable_def SOERecord_Select_def SOERecord_make_def test_event_def)
  have codec: "codec r = Group2Var1" "\<not> has_cto r" by (simp_all add: codec_def has_cto_def r LoadHeaderBinary_def)
  have expr: "expressible r" by (simp add: expressible_def NaN_value_def r)
  have w: "hw_ok w" "written w = []" "Remaining w = 20"
    by (simp_all add: w_def HeaderWriter_make_def hw_ok_def ws_ok_def WSlice_make_def ws_written_def Remaining_def WSlice_Size_def)
  obtain b' w' finished xs ys chunks where load: "EventBuffer_Load w b1 = Some (b', w', finished)" "[r] = xs @ ys"
    "concat chunks = filter IsWritable xs" "\<forall>c\<in>set chunks. chunk_ok c" "written w' = written w @ concat (map chunk_bytes chunks)"
    "Remaining w' + length (concat (map chunk_bytes chunks)) = Remaining w"
    "if finished then \<forall>r\<in>set ys. \<not> IsWritable r else \<exists>r ys'. ys = r # ys' \<and> IsWritable r \<and> Remaining w' < room_needed r"
    using EventBuffer_Load_correct[OF b1(2) w(1)] expr by auto
  have "xs \<noteq> []"
  proof
    assume "xs = []"
    with load(2-4) have "ys = [r]" "chunks = []" using chunks_of_none by auto
    then show False using load(6,7) r(1) w(3) codec by (auto simp: room_needed_def Group2Var1_def split: if_splits)
  qed
  then have xs: "xs = [r]" "ys = []" using load(2) by (cases xs; simp)+
  then have "chunks = [[r]]" "finished" using load(3,4,7) r(1) chunks_of_one by (auto split: if_splits)
  moreover have "chunk_bytes [r] = [2, 1, 0x28, 1, 0, 7, 0, 0x81]"
    using codec r by (simp add: chunk_bytes_def prefixed_bytes_def header_start_def event_item_def item_bytes_def base_time_def
        ReadEvent_measurement_def SOERecord_ReadEvent_def Group2Var1_def Bit16LE_Write_def Let_def convert_defs GetBinaryQuality_def QUALITY_STATE_def)
  ultimately show ?thesis using b b1(1) load(1,5) w(2) unfolding w_def by auto
qed




end
