(* ===== verification/OutstationHandlers.thy ===== *)
theory OutstationHandlers
  imports AppHeader MeasurementHandler StaticDatabase EventWriter
begin

text \<open>
  The handlers of the outstation's requests: \<^verbatim>\<open>ReadHandler\<close>, \<^verbatim>\<open>WriteHandler\<close>, \<^verbatim>\<open>ClassBasedRequestHandler\<close>,
  \<^verbatim>\<open>AssignClassHandler\<close> and \<^verbatim>\<open>CommandResponseHandler\<close> with its command actions.
\<close>

section \<open>The application\<close>

text \<open>
  The user's code, \<^verbatim>\<open>IOutstationApplication\<close> and \<^verbatim>\<open>ICommandHandler\<close>, is a parameter.  What it is called with, and what is
  handed to the lower layer, is recorded in a list of calls; what it answers may depend on all the calls before.
\<close>

datatype AppCall =
    BeginTransmit bytes
  | CommandsStart
  | SelectCommand Item uint16
  | OperateCommand Item uint16
  | CommandsEnd
  | WriteAbsoluteTime uint64
  | WriteTimeAndInterval "IndexedItem list"
  | RecordClassAssignment EventType PointClass Range
  | ColdRestart
  | WarmRestart

datatype RestartMode = RESTART_UNSUPPORTED | SUPPORTED_DELAY_FINE | SUPPORTED_DELAY_COARSE

record ApplicationIIN =
  needTime :: bool
  localControl :: bool
  deviceTrouble :: bool
  configCorrupt :: bool

definition ApplicationIIN_make :: ApplicationIIN where
  "ApplicationIIN_make = \<lparr>needTime = False, localControl = False, deviceTrouble = False, configCorrupt = False\<rparr>"

definition ApplicationIIN_ToIIN :: "ApplicationIIN \<Rightarrow> IINField" where
  "ApplicationIIN_ToIIN a =
     IIN_SetBitToValue DEVICE_TROUBLE (deviceTrouble a) (IIN_SetBitToValue CONFIG_CORRUPT (configCorrupt a)
       (IIN_SetBitToValue LOCAL_CONTROL (localControl a) (IIN_SetBitToValue NEED_TIME (needTime a) IIN_Empty)))"

record OutstationApplication =
  app_Select :: "AppCall list \<Rightarrow> Item \<Rightarrow> uint16 \<Rightarrow> CommandStatus"
  app_Operate :: "AppCall list \<Rightarrow> Item \<Rightarrow> uint16 \<Rightarrow> CommandStatus"
  app_SupportsWriteAbsoluteTime :: "AppCall list \<Rightarrow> bool"
  app_WriteAbsoluteTime :: "AppCall list \<Rightarrow> uint64 \<Rightarrow> bool"
  app_SupportsWriteTimeAndInterval :: "AppCall list \<Rightarrow> bool"
  app_WriteTimeAndInterval :: "AppCall list \<Rightarrow> IndexedItem list \<Rightarrow> bool"
  app_SupportsAssignClass :: "AppCall list \<Rightarrow> bool"
  app_GetApplicationIIN :: "AppCall list \<Rightarrow> ApplicationIIN"
  app_ColdRestartSupport :: "AppCall list \<Rightarrow> RestartMode"
  app_WarmRestartSupport :: "AppCall list \<Rightarrow> RestartMode"
  app_ColdRestart :: "AppCall list \<Rightarrow> uint16"
  app_WarmRestart :: "AppCall list \<Rightarrow> uint16"

text \<open>\<^verbatim>\<open>DefaultOutstationApplication\<close>: the virtual functions' own bodies, and a command handler that answers one status.\<close>

definition DefaultOutstationApplication :: "CommandStatus \<Rightarrow> OutstationApplication" where
  "DefaultOutstationApplication status =
     \<lparr>app_Select = (\<lambda>_ _ _. status), app_Operate = (\<lambda>_ _ _. status),
      app_SupportsWriteAbsoluteTime = (\<lambda>_. False), app_WriteAbsoluteTime = (\<lambda>_ _. False),
      app_SupportsWriteTimeAndInterval = (\<lambda>_. False), app_WriteTimeAndInterval = (\<lambda>_ _. False),
      app_SupportsAssignClass = (\<lambda>_. False), app_GetApplicationIIN = (\<lambda>_. ApplicationIIN_make),
      app_ColdRestartSupport = (\<lambda>_. RESTART_UNSUPPORTED), app_WarmRestartSupport = (\<lambda>_. RESTART_UNSUPPORTED),
      app_ColdRestart = (\<lambda>_. 65535), app_WarmRestart = (\<lambda>_. 65535)\<rparr>"

section \<open>Parsing with a handler\<close>

definition IINFromParseResult :: "ParseResult \<Rightarrow> IINField" where
  "IINFromParseResult result =
     (if result = PR_OK then IIN_Empty else if result = UNKNOWN_OBJECT then IIN_of_bit OBJECT_UNKNOWN else IIN_of_bit PARAM_ERROR)"

text \<open>
  The state of a handler is \<open>None\<close> once an operation it called is undefined.  \<open>on_state\<close> lifts an operation to it,
  \<open>ParseWith\<close> is \<^verbatim>\<open>APDUParser::Parse\<close> with a handler.
\<close>

definition on_state :: "('s \<Rightarrow> ('s \<times> IINField) option) \<Rightarrow> 's option \<Rightarrow> 's option \<times> IINField" where
  "on_state f s =
     (case s of None \<Rightarrow> (None, IIN_Empty)
      | Some s \<Rightarrow> (case f s of None \<Rightarrow> (None, IIN_Empty) | Some (s, result) \<Rightarrow> (Some s, result)))"

definition ParseWith ::
  "WhiteList \<Rightarrow> ParserSettings \<Rightarrow> (HandlerCall \<Rightarrow> IAPDUHandler \<Rightarrow> 's \<Rightarrow> ('s \<times> IINField) option) \<Rightarrow> bytes \<Rightarrow> 's
    \<Rightarrow> ParseResult \<times> IINField \<times> 's" where
  "ParseWith isAllowed settings ProcessHeader objs s =
     (case APDUParser_Parse isAllowed settings objs of (result, headers) \<Rightarrow>
        case HandleAll ProcessHeader headers (IAPDUHandler_make, s) of (h, s) \<Rightarrow> (result, ih_errors h, s))"

definition AllowAll :: WhiteList where
  "AllowAll = (\<lambda>_ _ _. True)"

section \<open>\<^verbatim>\<open>ReadHandler\<close>\<close>

type_synonym ReadHandler = "(DatabaseBuffers \<times> EventBuffer) option"

definition select_static :: "(DatabaseBuffers \<Rightarrow> (DatabaseBuffers \<times> IINField) option) \<Rightarrow> ReadHandler \<Rightarrow> ReadHandler \<times> IINField" where
  "select_static f = on_state (\<lambda>(db, eb). map_option (\<lambda>(db, result). ((db, eb), result)) (f db))"

definition select_event :: "(EventBuffer \<Rightarrow> (EventBuffer \<times> IINField) option) \<Rightarrow> ReadHandler \<Rightarrow> ReadHandler \<times> IINField" where
  "select_event f = on_state (\<lambda>(db, eb). map_option (\<lambda>(eb, result). ((db, eb), result)) (f eb))"

fun ReadHandler_ProcessHeader :: "HandlerCall \<Rightarrow> IAPDUHandler \<Rightarrow> ReadHandler \<Rightarrow> (ReadHandler \<times> IINField) option" where
  "ReadHandler_ProcessHeader (OnAllObjects header) h s =
     Some (case gvr_type header of
         GVT_STATIC \<Rightarrow> select_static (Static_SelectAll (gvr_enumeration header)) s
       | GVT_EVENT \<Rightarrow> select_event (SelectAll (gvr_enumeration header)) s
       | GVT_OTHER \<Rightarrow> (s, IIN_of_bit FUNC_NOT_SUPPORTED))"
| "ReadHandler_ProcessHeader (OnRange header rng) h s = Some (select_static (Static_SelectRange (gvr_enumeration header) rng) s)"
| "ReadHandler_ProcessHeader (OnCount header cnt) h s = Some (select_event (SelectCount (gvr_enumeration header) cnt) s)"
| "ReadHandler_ProcessHeader _ h s = None"

section \<open>\<^verbatim>\<open>ClassBasedRequestHandler\<close>\<close>

definition ClassBasedRequest_Set :: "GroupVariation \<Rightarrow> ClassField \<Rightarrow> ClassField \<times> IINField" where
  "ClassBasedRequest_Set gv classField =
     (if gv = GroupVar 60 2 then (ClassField_SetClass Class1 classField, IIN_Empty)
      else if gv = GroupVar 60 3 then (ClassField_SetClass Class2 classField, IIN_Empty)
      else if gv = GroupVar 60 4 then (ClassField_SetClass Class3 classField, IIN_Empty)
      else (classField, IIN_of_bit FUNC_NOT_SUPPORTED))"

fun ClassBasedRequestHandler_ProcessHeader :: "HandlerCall \<Rightarrow> IAPDUHandler \<Rightarrow> ClassField \<Rightarrow> (ClassField \<times> IINField) option" where
  "ClassBasedRequestHandler_ProcessHeader (OnAllObjects header) h classField =
     Some (ClassBasedRequest_Set (gvr_enumeration header) classField)"
| "ClassBasedRequestHandler_ProcessHeader _ h classField = None"

section \<open>\<^verbatim>\<open>WriteHandler\<close>\<close>

record WriteHandler =
  wh_writeIIN :: IINField
  wh_wroteTime :: bool
  wh_wroteIIN :: bool
  wh_calls :: "AppCall list"

definition WriteHandler_make :: "IINField \<Rightarrow> AppCall list \<Rightarrow> WriteHandler" where
  "WriteHandler_make writeIIN calls = \<lparr>wh_writeIIN = writeIIN, wh_wroteTime = False, wh_wroteIIN = False, wh_calls = calls\<rparr>"

text \<open>\<^verbatim>\<open>ReadOnlyValue\<close> on a collection that was read.\<close>

fun ReadOnlyValue :: "'t list \<Rightarrow> 't option" where
  "ReadOnlyValue [v] = Some v"
| "ReadOnlyValue _ = None"

fun iin_value :: "Item \<Rightarrow> bool" where
  "iin_value (It_IINValue b) = b"
| "iin_value _ = False"

definition WriteHandler_IIN :: "IndexedItem list \<Rightarrow> WriteHandler \<Rightarrow> WriteHandler \<times> IINField" where
  "WriteHandler_IIN values w =
     (case ReadOnlyValue values of
        None \<Rightarrow> (w, IIN_of_bit PARAM_ERROR)
      | Some (val, index) \<Rightarrow>
          if wh_wroteIIN w then (w, IIN_of_bit PARAM_ERROR)
          else if index \<noteq> 7 then (w, IIN_of_bit PARAM_ERROR)
          else if iin_value val then (w, IIN_of_bit PARAM_ERROR)
          else (w\<lparr>wh_wroteIIN := True, wh_writeIIN := IIN_ClearBit DEVICE_RESTART (wh_writeIIN w)\<rparr>, IIN_Empty))"

definition WriteHandler_Time :: "OutstationApplication \<Rightarrow> Item list \<Rightarrow> WriteHandler \<Rightarrow> WriteHandler \<times> IINField" where
  "WriteHandler_Time app values w =
     (if wh_wroteTime w then (w, IIN_of_bit PARAM_ERROR)
      else case ReadOnlyValue_time (Some values) of
          Some t \<Rightarrow>
            if app_SupportsWriteAbsoluteTime app (wh_calls w)
            then (w\<lparr>wh_wroteTime := True, wh_calls := wh_calls w @ [WriteAbsoluteTime t]\<rparr>,
              if app_WriteAbsoluteTime app (wh_calls w) t then IIN_Empty else IIN_of_bit PARAM_ERROR)
            else (w, IIN_of_bit FUNC_NOT_SUPPORTED)
        | None \<Rightarrow> (w, IIN_of_bit PARAM_ERROR))"

definition WriteHandler_TimeAndInterval :: "OutstationApplication \<Rightarrow> IndexedItem list \<Rightarrow> WriteHandler \<Rightarrow> WriteHandler \<times> IINField" where
  "WriteHandler_TimeAndInterval app values w =
     (if \<not> app_SupportsWriteTimeAndInterval app (wh_calls w) then (w, IIN_of_bit FUNC_NOT_SUPPORTED)
      else (w\<lparr>wh_calls := wh_calls w @ [WriteTimeAndInterval values]\<rparr>,
        if app_WriteTimeAndInterval app (wh_calls w) values then IIN_Empty else IIN_of_bit PARAM_ERROR))"

definition WriteHandler_ProcessHeader ::
  "OutstationApplication \<Rightarrow> HandlerCall \<Rightarrow> IAPDUHandler \<Rightarrow> WriteHandler option \<Rightarrow> (WriteHandler option \<times> IINField) option" where
  "WriteHandler_ProcessHeader app header h s =
     (case header of
        OnRangeOf hdr rng t values \<Rightarrow>
          if t = T_IINValue then Some (on_state (\<lambda>w. map_option (\<lambda>vs. WriteHandler_IIN vs w) values) s) else None
      | OnCountOf hdr cnt t values \<Rightarrow>
          if t = T_Struct (GroupVar 50 1) then Some (on_state (\<lambda>w. map_option (\<lambda>vs. WriteHandler_Time app vs w) values) s) else None
      | OnPrefixOf hdr cnt t values \<Rightarrow>
          if t = T_TimeAndInterval then Some (on_state (\<lambda>w. map_option (\<lambda>vs. WriteHandler_TimeAndInterval app vs w) values) s) else None
      | _ \<Rightarrow> None)"

section \<open>\<^verbatim>\<open>AssignClassHandler\<close>\<close>

record AssignClassHandler =
  ac_classHeader :: int
  ac_clazz :: PointClass
  ac_assigner :: DatabaseBuffers
  ac_calls :: "AppCall list"

definition AssignClassHandler_make :: "DatabaseBuffers \<Rightarrow> AppCall list \<Rightarrow> AssignClassHandler" where
  "AssignClassHandler_make assigner calls = \<lparr>ac_classHeader = - 1, ac_clazz = Class0, ac_assigner = assigner, ac_calls = calls\<rparr>"

text \<open>The number of the current header, converted to \<^verbatim>\<open>int32_t\<close>.\<close>

definition IsExpectingAssignment :: "IAPDUHandler \<Rightarrow> AssignClassHandler \<Rightarrow> AssignClassHandler \<times> bool" where
  "IsExpectingAssignment h a =
     (let current = sint (ih_numTotalHeaders h)
      in if current > 0 \<and> current - 1 = ac_classHeader a then (a\<lparr>ac_classHeader := - 1\<rparr>, True) else (a, False))"

definition RecordClass :: "GroupVariation \<Rightarrow> IAPDUHandler \<Rightarrow> AssignClassHandler \<Rightarrow> AssignClassHandler \<times> IINField" where
  "RecordClass gv h a =
     (let a = a\<lparr>ac_classHeader := sint (ih_numTotalHeaders h)\<rparr>
      in if gv = GroupVar 60 1 then (a\<lparr>ac_clazz := Class0\<rparr>, IIN_Empty)
         else if gv = GroupVar 60 2 then (a\<lparr>ac_clazz := Class1\<rparr>, IIN_Empty)
         else if gv = GroupVar 60 3 then (a\<lparr>ac_clazz := Class2\<rparr>, IIN_Empty)
         else if gv = GroupVar 60 4 then (a\<lparr>ac_clazz := Class3\<rparr>, IIN_Empty)
         else (a\<lparr>ac_classHeader := - 1\<rparr>, IIN_of_bit PARAM_ERROR))"

text \<open>The application is told through the executor, after the request.\<close>

definition NotifyApplicationOfAssignment :: "EventType \<Rightarrow> PointClass \<Rightarrow> Range \<Rightarrow> AssignClassHandler \<Rightarrow> AssignClassHandler" where
  "NotifyApplicationOfAssignment type clazz rng a =
     (if Range_IsValid rng then a\<lparr>ac_calls := ac_calls a @ [RecordClassAssignment type clazz rng]\<rparr> else a)"

definition ProcessAssignRange :: "EventType \<Rightarrow> PointClass \<Rightarrow> Range \<Rightarrow> AssignClassHandler \<Rightarrow> AssignClassHandler \<times> IINField" where
  "ProcessAssignRange type clazz rng a =
     (case AssignClassToRange type clazz rng (ac_assigner a) of (db, actual) \<Rightarrow>
        (NotifyApplicationOfAssignment type clazz actual (a\<lparr>ac_assigner := db\<rparr>),
         if actual = rng then IIN_Empty else IIN_of_bit PARAM_ERROR))"

definition ProcessAssignAll :: "EventType \<Rightarrow> PointClass \<Rightarrow> AssignClassHandler \<Rightarrow> AssignClassHandler \<times> IINField" where
  "ProcessAssignAll type clazz a =
     (case AssignClassToAll type clazz (ac_assigner a) of (db, full) \<Rightarrow>
        (NotifyApplicationOfAssignment type clazz full (a\<lparr>ac_assigner := db\<rparr>),
         if Range_IsValid full then IIN_Empty else IIN_of_bit PARAM_ERROR))"

definition assign_types :: "(GroupVariation \<times> EventType) list" where
  "assign_types = [(GroupVar 1 0, ET_Binary), (GroupVar 3 0, ET_DoubleBitBinary), (GroupVar 10 0, ET_BinaryOutputStatus),
     (GroupVar 20 0, ET_Counter), (GroupVar 21 0, ET_FrozenCounter), (GroupVar 30 0, ET_Analog), (GroupVar 40 0, ET_AnalogOutputStatus)]"

definition AssignClass_AllObjects :: "GroupVariation \<Rightarrow> IAPDUHandler \<Rightarrow> AssignClassHandler \<Rightarrow> AssignClassHandler \<times> IINField" where
  "AssignClass_AllObjects gv h a =
     (case IsExpectingAssignment h a of (a, expecting) \<Rightarrow>
        if expecting
        then case map_of assign_types gv of
            Some t \<Rightarrow> ProcessAssignAll t (ac_clazz a) a
          | None \<Rightarrow> (a, IIN_of_bit FUNC_NOT_SUPPORTED)
        else RecordClass gv h a)"

definition AssignClass_Range :: "GroupVariation \<Rightarrow> Range \<Rightarrow> IAPDUHandler \<Rightarrow> AssignClassHandler \<Rightarrow> AssignClassHandler \<times> IINField" where
  "AssignClass_Range gv rng h a =
     (case IsExpectingAssignment h a of (a, expecting) \<Rightarrow>
        if expecting
        then case map_of assign_types gv of
            Some t \<Rightarrow> ProcessAssignRange t (ac_clazz a) rng a
          | None \<Rightarrow> (a, IIN_of_bit FUNC_NOT_SUPPORTED)
        else (a, IIN_of_bit PARAM_ERROR))"

fun AssignClassHandler_ProcessHeader :: "HandlerCall \<Rightarrow> IAPDUHandler \<Rightarrow> AssignClassHandler \<Rightarrow> (AssignClassHandler \<times> IINField) option" where
  "AssignClassHandler_ProcessHeader (OnAllObjects header) h a = Some (AssignClass_AllObjects (gvr_enumeration header) h a)"
| "AssignClassHandler_ProcessHeader (OnRange header rng) h a = Some (AssignClass_Range (gvr_enumeration header) rng h a)"
| "AssignClassHandler_ProcessHeader _ h a = None"

section \<open>Command actions\<close>

text \<open>\<^verbatim>\<open>CommandActionAdapter\<close> with \<^verbatim>\<open>m_isSelect\<close> and \<^verbatim>\<open>m_isStarted\<close>, and \<^verbatim>\<open>ConstantCommandAction\<close>.\<close>

datatype ICommandAction = CommandActionAdapter bool bool | ConstantCommandAction CommandStatus

definition CommandActionAdapter_make :: "bool \<Rightarrow> ICommandAction" where
  "CommandActionAdapter_make isSelect = CommandActionAdapter isSelect False"

definition CheckStart :: "bool \<Rightarrow> AppCall list \<Rightarrow> AppCall list" where
  "CheckStart isStarted calls = (if isStarted then calls else calls @ [CommandsStart])"

fun CommandAction :: "OutstationApplication \<Rightarrow> Item \<Rightarrow> uint16 \<Rightarrow> ICommandAction \<times> AppCall list \<Rightarrow> (ICommandAction \<times> AppCall list) \<times> CommandStatus" where
  "CommandAction app command index (CommandActionAdapter isSelect isStarted, calls) =
     (let calls = CheckStart isStarted calls
      in if isSelect
         then ((CommandActionAdapter isSelect True, calls @ [SelectCommand command index]), app_Select app calls command index)
         else ((CommandActionAdapter isSelect True, calls @ [OperateCommand command index]), app_Operate app calls command index))"
| "CommandAction app command index (ConstantCommandAction status, calls) = ((ConstantCommandAction status, calls), status)"

fun CommandAction_destroy :: "ICommandAction \<Rightarrow> AppCall list \<Rightarrow> AppCall list" where
  "CommandAction_destroy (CommandActionAdapter isSelect isStarted) calls = (if isStarted then calls @ [CommandsEnd] else calls)"
| "CommandAction_destroy (ConstantCommandAction status) calls = calls"

section \<open>\<^verbatim>\<open>CommandResponseHandler\<close>\<close>

record CommandResponseHandler =
  cr_action :: ICommandAction
  cr_numRequests :: uint32
  cr_numSuccess :: uint32
  cr_maxCommands :: uint8
  cr_writer :: "HeaderWriter option"
  cr_calls :: "AppCall list"

definition CommandResponseHandler_make :: "uint8 \<Rightarrow> ICommandAction \<Rightarrow> HeaderWriter option \<Rightarrow> AppCall list \<Rightarrow> CommandResponseHandler" where
  "CommandResponseHandler_make maxCommands action writer calls =
     \<lparr>cr_action = action, cr_numRequests = 0, cr_numSuccess = 0, cr_maxCommands = maxCommands, cr_writer = writer, cr_calls = calls\<rparr>"

definition AllCommandsSuccessful :: "CommandResponseHandler \<Rightarrow> bool" where
  "AllCommandsSuccessful h = (cr_numRequests h = cr_numSuccess h)"

definition CommandResponseHandler_IsAllowed :: WhiteList where
  "CommandResponseHandler_IsAllowed headerCount gv qc =
     (if \<not> (qc = UINT8_CNT_UINT8_INDEX \<or> qc = UINT16_CNT_UINT16_INDEX) then False
      else gv \<in> set [GroupVar 12 1, GroupVar 41 1, GroupVar 41 2, GroupVar 41 3, GroupVar 41 4])"

text \<open>
  The commands are \<open>Item\<close>s here: the copy of the command with its status set, and the serializer
  each overload names.
\<close>

fun set_status :: "CommandStatus \<Rightarrow> Item \<Rightarrow> Item" where
  "set_status st (It_ControlRelayOutputBlock c) = It_ControlRelayOutputBlock (c\<lparr>crob_status := st\<rparr>)"
| "set_status st (It_AnalogOutputInt16 c) = It_AnalogOutputInt16 (c\<lparr>ao_status := st\<rparr>)"
| "set_status st (It_AnalogOutputInt32 c) = It_AnalogOutputInt32 (c\<lparr>ao_status := st\<rparr>)"
| "set_status st (It_AnalogOutputFloat32 c) = It_AnalogOutputFloat32 (c\<lparr>ao_status := st\<rparr>)"
| "set_status st (It_AnalogOutputDouble64 c) = It_AnalogOutputDouble64 (c\<lparr>ao_status := st\<rparr>)"
| "set_status st it = it"

fun convert_command :: "Item \<Rightarrow> Field list option" where
  "convert_command (It_ControlRelayOutputBlock c) = oc_convert Group12Var1 c"
| "convert_command (It_AnalogOutputInt16 c) = oc_convert Group41Var2 c"
| "convert_command (It_AnalogOutputInt32 c) = oc_convert Group41Var1 c"
| "convert_command (It_AnalogOutputFloat32 c) = oc_convert Group41Var3 c"
| "convert_command (It_AnalogOutputDouble64 c) = oc_convert Group41Var4 c"
| "convert_command it = None"

definition item_codec :: "('m \<Rightarrow> Item) \<Rightarrow> 'm ObjectCodec \<Rightarrow> Item ObjectCodec" where
  "item_codec mk c =
     \<lparr>oc_id = oc_id c, oc_size = oc_size c, oc_fields = oc_fields c, oc_convert = convert_command, oc_factory = (\<lambda>fs. mk (oc_factory c fs))\<rparr>"

definition command_serializers :: "(Target \<times> Item ObjectCodec) list" where
  "command_serializers =
     [(T_ControlRelayOutputBlock, item_codec It_ControlRelayOutputBlock Group12Var1), (T_AnalogOutputInt16, item_codec It_AnalogOutputInt16 Group41Var2),
      (T_AnalogOutputInt32, item_codec It_AnalogOutputInt32 Group41Var1), (T_AnalogOutputFloat32, item_codec It_AnalogOutputFloat32 Group41Var3),
      (T_AnalogOutputDouble64, item_codec It_AnalogOutputDouble64 Group41Var4)]"

definition ProcessCommand :: "OutstationApplication \<Rightarrow> Item \<Rightarrow> uint16 \<Rightarrow> CommandResponseHandler \<Rightarrow> CommandResponseHandler \<times> CommandStatus" where
  "ProcessCommand app command index h =
     (if cr_numRequests h < ucast (cr_maxCommands h)
      then case CommandAction app command index (cr_action h, cr_calls h) of ((action, calls), status) \<Rightarrow>
        (h\<lparr>cr_numRequests := cr_numRequests h + 1, cr_action := action, cr_calls := calls\<rparr>, status)
      else (h, TOO_MANY_OPS))"

text \<open>The lambda \<^verbatim>\<open>process\<close>: the errors it has recorded, and the iterator, if there is a writer.\<close>

type_synonym CommandLoop = "CommandResponseHandler \<times> IINField \<times> Item PrefixedWriteIterator option"

definition process_command :: "OutstationApplication \<Rightarrow> IndexedItem \<Rightarrow> CommandLoop \<Rightarrow> CommandLoop option" where
  "process_command app = (\<lambda>(command, index) (h, ret, iter).
     case ProcessCommand app command index h of (h, status) \<Rightarrow>
       let response = set_status status command;
           h = (if status = SUCCESS then h\<lparr>cr_numSuccess := cr_numSuccess h + 1\<rparr> else h);
           ret = (if status = NOT_SUPPORTED then IIN_SetBit PARAM_ERROR ret else ret)
       in case (iter, cr_writer h) of
            (Some i, Some w) \<Rightarrow> map_option (\<lambda>(i, w, ok). (h\<lparr>cr_writer := Some w\<rparr>, ret, Some i))
              (PrefixedWriteIterator_Write response (unat index) i w)
          | _ \<Rightarrow> Some (h, ret, iter))"

fun process_commands :: "OutstationApplication \<Rightarrow> IndexedItem list \<Rightarrow> CommandLoop \<Rightarrow> CommandLoop option" where
  "process_commands app [] s = Some s"
| "process_commands app (v # vs) s = Option.bind (process_command app v s) (process_commands app vs)"

definition RespondToHeader ::
  "OutstationApplication \<Rightarrow> IndexType \<Rightarrow> QualifierCode \<Rightarrow> Item ObjectCodec \<Rightarrow> IndexedItem list \<Rightarrow> CommandResponseHandler
    \<Rightarrow> (CommandResponseHandler \<times> IINField) option" where
  "RespondToHeader app it qualifier serializer values h =
     (case cr_writer h of
        Some w \<Rightarrow> (case IterateOverCountWithPrefix it qualifier serializer w of (iter, w) \<Rightarrow>
          map_option (\<lambda>(h, ret, iter). (h\<lparr>cr_writer := map_option (PrefixedWriteIterator_destroy (the iter)) (cr_writer h)\<rparr>, ret))
            (process_commands app values (h\<lparr>cr_writer := Some w\<rparr>, IIN_Empty, Some iter)))
      | None \<Rightarrow> map_option (\<lambda>(h, ret, iter). (h, ret)) (process_commands app values (h, IIN_Empty, None)))"

text \<open>\<^verbatim>\<open>ProcessAny\<close>: the qualifier selects the width of the index.\<close>

definition ProcessAny ::
  "OutstationApplication \<Rightarrow> HeaderRecord \<Rightarrow> Item ObjectCodec \<Rightarrow> IndexedItem list \<Rightarrow> CommandResponseHandler
    \<Rightarrow> (CommandResponseHandler \<times> IINField) option" where
  "ProcessAny app record1 serializer values h =
     (if GetQualifierCode record1 = UINT8_CNT_UINT8_INDEX
      then RespondToHeader app Index8 UINT8_CNT_UINT8_INDEX serializer values h
      else RespondToHeader app Index16 UINT16_CNT_UINT16_INDEX serializer values h)"

definition CommandResponseHandler_ProcessHeader ::
  "OutstationApplication \<Rightarrow> HandlerCall \<Rightarrow> IAPDUHandler \<Rightarrow> CommandResponseHandler option \<Rightarrow> (CommandResponseHandler option \<times> IINField) option" where
  "CommandResponseHandler_ProcessHeader app header h s =
     (case header of
        OnPrefixOf record1 cnt t values \<Rightarrow>
          (case map_of command_serializers t of
             Some serializer \<Rightarrow> Some (on_state (\<lambda>c. Option.bind values (\<lambda>vs. ProcessAny app record1 serializer vs c)) s)
           | None \<Rightarrow> None)
      | _ \<Rightarrow> None)"

end
