(* ===== verification/OutstationContext.thy ===== *)
theory OutstationContext
  imports OutstationHandlers LinkContext
begin

text \<open>
  \<^verbatim>\<open>outstation/OutstationContext\<close>, the application layer of an outstation, with the state it is made of: the history of
  requests, the deferred request, the state of a selection, the response in progress, and the two state machines that wait
  for a confirmation.

  What the executor and the layer below do is an event of \<open>Outstation_step\<close>.  \<open>None\<close> is an operation that is undefined: an
  assertion that fails, a loop over a list that does not end, a conversion of a NaN.
\<close>

section \<open>\<^verbatim>\<open>RequestHistory\<close>\<close>

record RequestHistory =
  rh_hasLast :: bool
  rh_lastHeader :: APDUHeader
  rh_lastDigest :: uint16
  rh_lastObjectsLength :: nat

definition RequestHistory_make :: RequestHistory where
  "RequestHistory_make = \<lparr>rh_hasLast = False, rh_lastHeader = APDUHeader_default, rh_lastDigest = 0, rh_lastObjectsLength = 0\<rparr>"

definition RequestHistory_Reset :: "RequestHistory \<Rightarrow> RequestHistory" where
  "RequestHistory_Reset r = r\<lparr>rh_hasLast := False\<rparr>"

definition RecordLastProcessedRequest :: "APDUHeader \<Rightarrow> bytes \<Rightarrow> RequestHistory \<Rightarrow> RequestHistory" where
  "RecordLastProcessedRequest header objs r =
     \<lparr>rh_hasLast = True, rh_lastHeader = header, rh_lastDigest = CalcCrc objs, rh_lastObjectsLength = length objs\<rparr>"

definition EqualsLastObjects :: "bytes \<Rightarrow> RequestHistory \<Rightarrow> bool" where
  "EqualsLastObjects objs r =
     (rh_hasLast r \<and> rh_lastObjectsLength r = length objs \<and> rh_lastDigest r = CalcCrc objs)"

definition FullyEqualsLastRequest :: "APDUHeader \<Rightarrow> bytes \<Rightarrow> RequestHistory \<Rightarrow> bool" where
  "FullyEqualsLastRequest header objs r = (APDUHeader_Equals (rh_lastHeader r) header \<and> EqualsLastObjects objs r)"

definition GetLastHeader :: "RequestHistory \<Rightarrow> APDUHeader" where
  "GetLastHeader r = (if rh_hasLast r then rh_lastHeader r else APDUHeader_default)"

section \<open>\<^verbatim>\<open>DeferredRequest\<close>\<close>

text \<open>\<^verbatim>\<open>CopyTo\<close> returns the empty slice when the buffer is too small.\<close>

record DeferredRequest =
  df_isSet :: bool
  df_header :: APDUHeader
  df_objects :: bytes
  df_bufferSize :: nat

definition DeferredRequest_make :: "nat \<Rightarrow> DeferredRequest" where
  "DeferredRequest_make maxAPDUSize = \<lparr>df_isSet = False, df_header = APDUHeader_default, df_objects = [], df_bufferSize = maxAPDUSize\<rparr>"

definition DeferredRequest_Reset :: "DeferredRequest \<Rightarrow> DeferredRequest" where
  "DeferredRequest_Reset d = d\<lparr>df_isSet := False\<rparr>"

definition DeferredRequest_GetFunction :: "DeferredRequest \<Rightarrow> FunctionCode" where
  "DeferredRequest_GetFunction d = ah_function (df_header d)"

definition DeferredRequest_Set :: "APDUHeader \<Rightarrow> bytes \<Rightarrow> DeferredRequest \<Rightarrow> DeferredRequest" where
  "DeferredRequest_Set header objs d =
     d\<lparr>df_isSet := True, df_header := header, df_objects := (if df_bufferSize d < length objs then [] else objs)\<rparr>"

section \<open>\<^verbatim>\<open>ControlState\<close>\<close>

text \<open>Times are milliseconds of the executor's monotonic clock, \<^verbatim>\<open>int64_t\<close>.\<close>

record ControlState =
  ct_expectedSeq :: AppSeqNum
  ct_selectTime :: int
  ct_digest :: uint16
  ct_length :: nat

definition ControlState_make :: ControlState where
  "ControlState_make = \<lparr>ct_expectedSeq = 0, ct_selectTime = 0, ct_digest = 0, ct_length = 0\<rparr>"

definition ValidateSelection :: "AppSeqNum \<Rightarrow> int \<Rightarrow> int \<Rightarrow> bytes \<Rightarrow> ControlState \<Rightarrow> CommandStatus" where
  "ValidateSelection seq now timeout objs c =
     (if AppSeqNum_Equals (ct_expectedSeq c) seq
      then if ct_selectTime c \<le> now
        then let elapsed = now - ct_selectTime c
          in if elapsed < timeout
             then if ct_length c = length objs \<and> ct_digest c = CalcCrc objs then SUCCESS else NO_SELECT
             else TIMEOUT
        else TIMEOUT
      else NO_SELECT)"

definition ControlState_Select :: "AppSeqNum \<Rightarrow> int \<Rightarrow> bytes \<Rightarrow> ControlState \<Rightarrow> ControlState" where
  "ControlState_Select currentSeqN now objs c =
     \<lparr>ct_expectedSeq = AppSeqNum_Next currentSeqN, ct_selectTime = now, ct_digest = CalcCrc objs, ct_length = length objs\<rparr>"

section \<open>Parameters and the channels' states\<close>

record OutstationParams =
  prm_maxControlsPerRequest :: uint8
  prm_selectTimeout :: int
  prm_solConfirmTimeout :: int
  prm_unsolConfirmTimeout :: int
  prm_unsolRetryTimeout :: int
  prm_maxTxFragSize :: nat
  prm_maxRxFragSize :: nat
  prm_allowUnsolicited :: bool
  prm_unsolClassMask :: ClassField

record OutstationSeqNum =
  sq_num :: AppSeqNum
  sq_confirmNum :: AppSeqNum

definition OutstationSeqNum_make :: OutstationSeqNum where
  "OutstationSeqNum_make = \<lparr>sq_num = 0, sq_confirmNum = 0\<rparr>"

datatype SolicitedState = SolIdle | SolConfirmWait

record OutstationSolState =
  sol_pState :: SolicitedState
  sol_seq :: OutstationSeqNum
  sol_tx :: TxBuffer

definition OutstationSolState_make :: "nat \<Rightarrow> OutstationSolState" where
  "OutstationSolState_make maxTxSize = \<lparr>sol_pState = SolIdle, sol_seq = OutstationSeqNum_make, sol_tx = TxBuffer_make maxTxSize\<rparr>"

definition OutstationSolState_Reset :: "OutstationSolState \<Rightarrow> OutstationSolState" where
  "OutstationSolState_Reset s = s\<lparr>sol_pState := SolIdle\<rparr>"

datatype UnsolicitedState = UnsolIdle | UnsolConfirmWait

record OutstationUnsolState =
  un_completedNull :: bool
  un_pState :: UnsolicitedState
  un_seq :: OutstationSeqNum
  un_tx :: TxBuffer

definition OutstationUnsolState_make :: "nat \<Rightarrow> OutstationUnsolState" where
  "OutstationUnsolState_make maxTxSize =
     \<lparr>un_completedNull = False, un_pState = UnsolIdle, un_seq = OutstationSeqNum_make, un_tx = TxBuffer_make maxTxSize\<rparr>"

definition OutstationUnsolState_IsIdle :: "OutstationUnsolState \<Rightarrow> bool" where
  "OutstationUnsolState_IsIdle u = (un_pState u = UnsolIdle)"

definition OutstationUnsolState_Reset :: "OutstationUnsolState \<Rightarrow> OutstationUnsolState" where
  "OutstationUnsolState_Reset u = u\<lparr>un_completedNull := False, un_pState := UnsolIdle\<rparr>"

section \<open>\<^verbatim>\<open>OContext\<close>\<close>

text \<open>
  The database holds the event buffer its updates go to.  The timer's action says which of the two state machines it
  is for.  \<open>os_calls\<close> records the calls of the layer below and of the application.
\<close>

datatype ConfirmAction = SolicitedConfirmTimeout | UnsolicitedConfirmTimeout

record OContext =
  os_database :: Database
  os_fragmentCount :: uint32
  os_params :: OutstationParams
  os_isOnline :: bool
  os_isTransmitting :: bool
  os_staticIIN :: IINField
  os_confirmTimer :: "(ConfirmAction \<times> int) option"
  os_history :: RequestHistory
  os_deferred :: DeferredRequest
  os_control :: ControlState
  os_sol :: OutstationSolState
  os_unsol :: OutstationUnsolState
  os_calls :: "AppCall list"

definition OContext_make :: "OutstationParams \<Rightarrow> Database \<Rightarrow> OContext" where
  "OContext_make params db =
     \<lparr>os_database = db, os_fragmentCount = 0, os_params = params, os_isOnline = False, os_isTransmitting = False,
      os_staticIIN = IIN_of_bit DEVICE_RESTART, os_confirmTimer = None, os_history = RequestHistory_make,
      os_deferred = DeferredRequest_make (prm_maxRxFragSize params), os_control = ControlState_make,
      os_sol = OutstationSolState_make (prm_maxTxFragSize params), os_unsol = OutstationUnsolState_make (prm_maxTxFragSize params),
      os_calls = []\<rparr>"

abbreviation os_eventBuffer :: "OContext \<Rightarrow> EventBuffer" where
  "os_eventBuffer ctx \<equiv> dt_events (os_database ctx)"

abbreviation os_buffers :: "OContext \<Rightarrow> DatabaseBuffers" where
  "os_buffers ctx \<equiv> dt_buffers (os_database ctx)"

definition set_eventBuffer :: "EventBuffer \<Rightarrow> OContext \<Rightarrow> OContext" where
  "set_eventBuffer b ctx = ctx\<lparr>os_database := (os_database ctx)\<lparr>dt_events := b\<rparr>\<rparr>"

definition set_buffers :: "DatabaseBuffers \<Rightarrow> OContext \<Rightarrow> OContext" where
  "set_buffers b ctx = ctx\<lparr>os_database := (os_database ctx)\<lparr>dt_buffers := b\<rparr>\<rparr>"

definition CanTransmit :: "OContext \<Rightarrow> bool" where
  "CanTransmit ctx = (os_isOnline ctx \<and> \<not> os_isTransmitting ctx)"

definition SetRestartIIN :: "OContext \<Rightarrow> OContext" where
  "SetRestartIIN ctx = ctx\<lparr>os_staticIIN := IIN_SetBit DEVICE_RESTART (os_staticIIN ctx)\<rparr>"

definition Defer :: "APDUHeader \<Rightarrow> bytes \<Rightarrow> OContext \<Rightarrow> OContext" where
  "Defer header objs ctx = ctx\<lparr>os_deferred := DeferredRequest_Set header objs (os_deferred ctx)\<rparr>"

section \<open>Timers\<close>

definition ConfirmTimer_Cancel :: "OContext \<Rightarrow> OContext" where
  "ConfirmTimer_Cancel ctx = ctx\<lparr>os_confirmTimer := fst (TimerRef_Cancel (os_confirmTimer ctx))\<rparr>"

definition StartSolicitedConfirmTimer :: "OContext \<Rightarrow> OContext" where
  "StartSolicitedConfirmTimer ctx =
     ctx\<lparr>os_confirmTimer := fst (TimerRef_Start (os_confirmTimer ctx) (SolicitedConfirmTimeout, prm_unsolConfirmTimeout (os_params ctx)))\<rparr>"

definition StartUnsolicitedConfirmTimer :: "OContext \<Rightarrow> OContext" where
  "StartUnsolicitedConfirmTimer ctx =
     ctx\<lparr>os_confirmTimer := fst (TimerRef_Start (os_confirmTimer ctx) (UnsolicitedConfirmTimeout, prm_unsolConfirmTimeout (os_params ctx)))\<rparr>"

section \<open>Internal indications\<close>

definition GetDynamicIIN :: "OContext \<Rightarrow> OContext \<times> IINField" where
  "GetDynamicIIN ctx =
     (let classField = UnwrittenClassField (os_eventBuffer ctx);
          ret = IIN_SetBitToValue CLASS1_EVENTS (HasClass1 classField) IIN_Empty;
          ret = IIN_SetBitToValue CLASS2_EVENTS (HasClass2 classField) ret;
          ret = IIN_SetBitToValue CLASS3_EVENTS (HasClass3 classField) ret
      in case IsOverflown (os_eventBuffer ctx) of
           (b, overflown) \<Rightarrow> (set_eventBuffer b ctx, IIN_SetBitToValue EVENT_BUFFER_OVERFLOW overflown ret))"

definition GetResponseIIN :: "OutstationApplication \<Rightarrow> OContext \<Rightarrow> OContext \<times> IINField" where
  "GetResponseIIN app ctx =
     (case GetDynamicIIN ctx of (ctx, dyn) \<Rightarrow>
        (ctx, IIN_or (IIN_or (os_staticIIN ctx) dyn) (ApplicationIIN_ToIIN (app_GetApplicationIIN app (os_calls ctx)))))"

section \<open>Transmitting\<close>

definition BeginTx :: "bytes \<Rightarrow> OContext \<Rightarrow> OContext" where
  "BeginTx response ctx = ctx\<lparr>os_isTransmitting := True, os_calls := os_calls ctx @ [BeginTransmit response]\<rparr>"

definition BeginResponseTx :: "APDUWrapper \<Rightarrow> OContext \<Rightarrow> OContext" where
  "BeginResponseTx response ctx =
     BeginTx (ToRSlice response) (ctx\<lparr>os_sol := (os_sol ctx)\<lparr>sol_tx := TxBuffer_Record response (sol_tx (os_sol ctx))\<rparr>\<rparr>)"

text \<open>\<^verbatim>\<open>BeginResponseTx\<close> of the last response records the slice it already has.\<close>

definition RepeatResponseTx :: "OContext \<Rightarrow> OContext" where
  "RepeatResponseTx ctx = BeginTx (GetLastResponse (sol_tx (os_sol ctx))) ctx"

definition BeginUnsolTx :: "APDUWrapper \<Rightarrow> OContext \<Rightarrow> OContext" where
  "BeginUnsolTx response ctx =
     (let u = os_unsol ctx; seq = un_seq u
      in BeginTx (ToRSlice response)
           (ctx\<lparr>os_unsol := u\<lparr>un_tx := TxBuffer_Record response (un_tx u),
                  un_seq := seq\<lparr>sq_confirmNum := sq_num seq, sq_num := AppSeqNum_Next (sq_num seq)\<rparr>\<rparr>\<rparr>))"

section \<open>\<^verbatim>\<open>ResponseContext\<close>\<close>

definition ResponseContext_HasSelection :: "OContext \<Rightarrow> bool" where
  "ResponseContext_HasSelection ctx = (Ranges_HasAnySelection (os_buffers ctx) \<or> HasAnySelection (os_eventBuffer ctx))"

definition ResponseContext_Reset :: "OContext \<Rightarrow> OContext" where
  "ResponseContext_Reset ctx = ctx\<lparr>os_fragmentCount := 0\<rparr>"

definition LoadResponse :: "HeaderWriter \<Rightarrow> OContext \<Rightarrow> (OContext \<times> HeaderWriter \<times> AppControlField) option" where
  "LoadResponse writer ctx =
     (let fir = (os_fragmentCount ctx = 0);
          ctx = ctx\<lparr>os_fragmentCount := os_fragmentCount ctx + 1\<rparr>;
          startingSize = Remaining writer
      in do {
        (b, writer, notFull) \<leftarrow> EventBuffer_Load writer (os_eventBuffer ctx);
        let ctx = set_eventBuffer b ctx; someEventsWritten = Remaining writer < startingSize in
        if notFull
        then do {
          (db, writer, fin) \<leftarrow> Static_Load writer (os_buffers ctx);
          let con = (\<not> fin \<or> someEventsWritten) in
          Some (set_buffers db ctx, writer, AppControlField_make fir fin con False 0)}
        else Some (ctx, writer, AppControlField_make fir False True False 0)})"

section \<open>Handlers of the functions that are not reads\<close>

type_synonym Handled = "(OContext \<times> IINField) option"

definition HandleWrite :: "OutstationApplication \<Rightarrow> bytes \<Rightarrow> OContext \<Rightarrow> Handled" where
  "HandleWrite app objs ctx =
     (case ParseWith AllowAll ParserSettings_Default (WriteHandler_ProcessHeader app) objs
         (Some (WriteHandler_make (os_staticIIN ctx) (os_calls ctx))) of
        (result, errors, s) \<Rightarrow>
          map_option (\<lambda>w. (ctx\<lparr>os_staticIIN := wh_writeIIN w, os_calls := wh_calls w\<rparr>,
            if result = PR_OK then errors else IINFromParseResult result)) s)"

text \<open>
  A request with commands, parsed with a \<^verbatim>\<open>CommandResponseHandler\<close>: the handler at the end, and the writer.  The action is
  destroyed when the request has been handled.
\<close>

definition ParseCommands ::
  "OutstationApplication \<Rightarrow> ICommandAction \<Rightarrow> bytes \<Rightarrow> HeaderWriter option \<Rightarrow> OContext
    \<Rightarrow> ParseResult \<times> IINField \<times> CommandResponseHandler option" where
  "ParseCommands app action objs writer ctx =
     ParseWith CommandResponseHandler_IsAllowed ParserSettings_Default (CommandResponseHandler_ProcessHeader app) objs
       (Some (CommandResponseHandler_make (prm_maxControlsPerRequest (os_params ctx)) action writer (os_calls ctx)))"

definition EndCommands :: "CommandResponseHandler \<Rightarrow> OContext \<Rightarrow> OContext" where
  "EndCommands h ctx = ctx\<lparr>os_calls := CommandAction_destroy (cr_action h) (cr_calls h)\<rparr>"

definition HandleDirectOperate ::
  "OutstationApplication \<Rightarrow> bytes \<Rightarrow> HeaderWriter option \<Rightarrow> OContext \<Rightarrow> (OContext \<times> HeaderWriter option \<times> IINField) option" where
  "HandleDirectOperate app objs pWriter ctx =
     (if (case pWriter of Some w \<Rightarrow> length objs > Remaining w | None \<Rightarrow> False) then Some (ctx, pWriter, IIN_of_bit PARAM_ERROR)
      else case ParseCommands app (CommandActionAdapter_make False) objs pWriter ctx of
        (result, errors, s) \<Rightarrow>
          map_option (\<lambda>h. (EndCommands h ctx, cr_writer h, if result = PR_OK then errors else IINFromParseResult result)) s)"

definition HandleSelect ::
  "OutstationApplication \<Rightarrow> int \<Rightarrow> bytes \<Rightarrow> HeaderWriter \<Rightarrow> OContext \<Rightarrow> (OContext \<times> HeaderWriter option \<times> IINField) option" where
  "HandleSelect app now objs writer ctx =
     (if length objs > Remaining writer then Some (ctx, Some writer, IIN_of_bit PARAM_ERROR)
      else case ParseCommands app (CommandActionAdapter_make True) objs (Some writer) ctx of
        (result, errors, s) \<Rightarrow>
          map_option (\<lambda>h.
            if result = PR_OK
            then (EndCommands h (if AllCommandsSuccessful h
                then ctx\<lparr>os_control := ControlState_Select (sq_num (sol_seq (os_sol ctx))) now objs (os_control ctx)\<rparr> else ctx),
              cr_writer h, errors)
            else (EndCommands h ctx, cr_writer h, IINFromParseResult result)) s)"

definition HandleCommandWithConstant ::
  "OutstationApplication \<Rightarrow> bytes \<Rightarrow> HeaderWriter \<Rightarrow> CommandStatus \<Rightarrow> OContext \<Rightarrow> (OContext \<times> HeaderWriter option \<times> IINField) option" where
  "HandleCommandWithConstant app objs writer status ctx =
     (case ParseCommands app (ConstantCommandAction status) objs (Some writer) ctx of
        (result, errors, s) \<Rightarrow> map_option (\<lambda>h. (EndCommands h ctx, cr_writer h, IINFromParseResult result)) s)"

definition HandleOperate ::
  "OutstationApplication \<Rightarrow> int \<Rightarrow> bytes \<Rightarrow> HeaderWriter \<Rightarrow> OContext \<Rightarrow> (OContext \<times> HeaderWriter option \<times> IINField) option" where
  "HandleOperate app now objs writer ctx =
     (if length objs > Remaining writer then Some (ctx, Some writer, IIN_of_bit PARAM_ERROR)
      else let result = ValidateSelection (sq_num (sol_seq (os_sol ctx))) now (prm_selectTimeout (os_params ctx)) objs (os_control ctx)
        in if result = SUCCESS
           then case ParseCommands app (CommandActionAdapter_make False) objs (Some writer) ctx of
             (result, errors, s) \<Rightarrow>
               map_option (\<lambda>h. (EndCommands h ctx, cr_writer h, if result = PR_OK then errors else IINFromParseResult result)) s
           else HandleCommandWithConstant app objs writer result ctx)"

definition HandleDelayMeasure :: "bytes \<Rightarrow> HeaderWriter \<Rightarrow> OContext \<Rightarrow> (OContext \<times> HeaderWriter option \<times> IINField) option" where
  "HandleDelayMeasure objs writer ctx =
     (if objs = []
      then map_option (\<lambda>(w, ok). (ctx, Some w, IIN_Empty)) (WriteSingleValue Index8 UINT8_CNT Group52Var2 0 writer)
      else Some (ctx, Some writer, IIN_of_bit PARAM_ERROR))"

definition HandleRestart ::
  "OutstationApplication \<Rightarrow> bytes \<Rightarrow> bool \<Rightarrow> HeaderWriter \<Rightarrow> OContext \<Rightarrow> (OContext \<times> HeaderWriter option \<times> IINField) option" where
  "HandleRestart app objs isWarmRestart writer ctx =
     (if objs = []
      then let calls = os_calls ctx;
               mode = (if isWarmRestart then app_WarmRestartSupport app calls else app_ColdRestartSupport app calls);
               delay = (if isWarmRestart then app_WarmRestart app calls else app_ColdRestart app calls);
               ctx' = ctx\<lparr>os_calls := calls @ [if isWarmRestart then WarmRestart else ColdRestart]\<rparr>
        in case mode of
             RESTART_UNSUPPORTED \<Rightarrow> Some (ctx, Some writer, IIN_of_bit FUNC_NOT_SUPPORTED)
           | SUPPORTED_DELAY_COARSE \<Rightarrow>
               map_option (\<lambda>(w, ok). (ctx', Some w, IIN_Empty)) (WriteSingleValue Index8 UINT8_CNT Group52Var1 delay writer)
           | SUPPORTED_DELAY_FINE \<Rightarrow>
               map_option (\<lambda>(w, ok). (ctx', Some w, IIN_Empty)) (WriteSingleValue Index8 UINT8_CNT Group52Var2 delay writer)
      else Some (ctx, Some writer, IIN_of_bit PARAM_ERROR))"

definition HandleAssignClass :: "OutstationApplication \<Rightarrow> bytes \<Rightarrow> OContext \<Rightarrow> OContext \<times> IINField" where
  "HandleAssignClass app objs ctx =
     (if app_SupportsAssignClass app (os_calls ctx)
      then case ParseWith AllowAll ParserSettings_NoContents AssignClassHandler_ProcessHeader objs
          (AssignClassHandler_make (os_buffers ctx) (os_calls ctx)) of
        (result, errors, a) \<Rightarrow>
          (set_buffers (ac_assigner a) (ctx\<lparr>os_calls := ac_calls a\<rparr>), if result = PR_OK then errors else IINFromParseResult result)
      else (ctx, IIN_of_bit FUNC_NOT_SUPPORTED))"

text \<open>\<^verbatim>\<open>HandleDisableUnsolicited\<close> and \<^verbatim>\<open>HandleEnableUnsolicited\<close>; their writers are not used.\<close>

definition HandleUnsolicited :: "(ClassField \<Rightarrow> ClassField \<Rightarrow> ClassField) \<Rightarrow> bytes \<Rightarrow> OContext \<Rightarrow> OContext \<times> IINField" where
  "HandleUnsolicited change objs ctx =
     (case ParseWith AllowAll ParserSettings_Default ClassBasedRequestHandler_ProcessHeader objs ClassField_None of
        (result, errors, classField) \<Rightarrow>
          if result = PR_OK
          then (ctx\<lparr>os_params := (os_params ctx)\<lparr>prm_unsolClassMask := change classField (prm_unsolClassMask (os_params ctx))\<rparr>\<rparr>, errors)
          else (ctx, IINFromParseResult result))"

definition HandleDisableUnsolicited :: "bytes \<Rightarrow> OContext \<Rightarrow> OContext \<times> IINField" where
  "HandleDisableUnsolicited objs ctx = HandleUnsolicited ClassField_Clear objs ctx"

definition HandleEnableUnsolicited :: "bytes \<Rightarrow> OContext \<Rightarrow> OContext \<times> IINField" where
  "HandleEnableUnsolicited objs ctx = HandleUnsolicited ClassField_Set objs ctx"

definition HandleNonReadResponse ::
  "OutstationApplication \<Rightarrow> int \<Rightarrow> APDUHeader \<Rightarrow> bytes \<Rightarrow> HeaderWriter \<Rightarrow> OContext \<Rightarrow> (OContext \<times> HeaderWriter option \<times> IINField) option" where
  "HandleNonReadResponse app now header objs writer ctx =
     (let unwritten = (\<lambda>(ctx, iin). (ctx, Some writer, iin));
          notSupported = Some (ctx, Some writer, IIN_of_bit FUNC_NOT_SUPPORTED)
      in case ah_function header of
           FC_WRITE \<Rightarrow> map_option unwritten (HandleWrite app objs ctx)
         | FC_SELECT \<Rightarrow> HandleSelect app now objs writer ctx
         | FC_OPERATE \<Rightarrow> HandleOperate app now objs writer ctx
         | FC_DIRECT_OPERATE \<Rightarrow> HandleDirectOperate app objs (Some writer) ctx
         | FC_COLD_RESTART \<Rightarrow> HandleRestart app objs False writer ctx
         | FC_WARM_RESTART \<Rightarrow> HandleRestart app objs True writer ctx
         | FC_ASSIGN_CLASS \<Rightarrow> Some (unwritten (HandleAssignClass app objs ctx))
         | FC_DELAY_MEASURE \<Rightarrow> HandleDelayMeasure objs writer ctx
         | FC_DISABLE_UNSOLICITED \<Rightarrow>
             (if prm_allowUnsolicited (os_params ctx) then Some (unwritten (HandleDisableUnsolicited objs ctx)) else notSupported)
         | FC_ENABLE_UNSOLICITED \<Rightarrow>
             (if prm_allowUnsolicited (os_params ctx) then Some (unwritten (HandleEnableUnsolicited objs ctx)) else notSupported)
         | _ \<Rightarrow> notSupported)"

definition ProcessRequestNoAck :: "OutstationApplication \<Rightarrow> APDUHeader \<Rightarrow> bytes \<Rightarrow> OContext \<Rightarrow> OContext option" where
  "ProcessRequestNoAck app header objs ctx =
     (if ah_function header = FC_DIRECT_OPERATE_NR then map_option fst (HandleDirectOperate app objs None ctx) else Some ctx)"

section \<open>Responding\<close>

definition RespondToNonReadRequest :: "OutstationApplication \<Rightarrow> int \<Rightarrow> APDUHeader \<Rightarrow> bytes \<Rightarrow> OContext \<Rightarrow> (OContext \<times> SolicitedState) option" where
  "RespondToNonReadRequest app now header objs ctx =
     (let ctx = ctx\<lparr>os_history := RecordLastProcessedRequest header objs (os_history ctx)\<rparr>
      in do {
        response \<leftarrow> TxBuffer_Start (sol_tx (os_sol ctx));
        let response = SetFunction FC_RESPONSE response;
            response = SetControl (AppControlField_make True True False False (SEQ (ah_control header))) response in do {
        (ctx, writer, iin) \<leftarrow> HandleNonReadResponse app now header objs (GetWriter response) ctx;
        writer \<leftarrow> writer;
        let (ctx, rsp) = GetResponseIIN app ctx;
            response = SetIIN (IIN_or iin rsp) (APDU_PutWriter writer) in
        Some (BeginResponseTx response ctx, SolIdle)}})"

definition HandleRead :: "bytes \<Rightarrow> HeaderWriter \<Rightarrow> OContext \<Rightarrow> (OContext \<times> HeaderWriter \<times> IINField \<times> AppControlField) option" where
  "HandleRead objs writer ctx =
     do {
       b \<leftarrow> Unselect (os_eventBuffer ctx);
       let ctx = set_buffers (Static_Unselect (os_buffers ctx)) (set_eventBuffer b (ResponseContext_Reset ctx)) in
       case ParseWith AllowAll ParserSettings_NoContents ReadHandler_ProcessHeader objs (Some (os_buffers ctx, os_eventBuffer ctx)) of
         (result, errors, s) \<Rightarrow> do {
           (db, b) \<leftarrow> s;
           let ctx = set_buffers db (set_eventBuffer b ctx) in
           if result = PR_OK
           then do {
             (ctx, writer, control) \<leftarrow> LoadResponse writer ctx;
             Some (ctx, writer, errors, control)}
           else Some (ResponseContext_Reset ctx, writer, IINFromParseResult result, AppControlField_make True True False False 0)}}"

text \<open>What the two functions that send a fragment of a read response share.\<close>

definition FinishReadResponse ::
  "OutstationApplication \<Rightarrow> AppSeqNum \<Rightarrow> HeaderWriter \<Rightarrow> IINField \<Rightarrow> AppControlField \<Rightarrow> OContext \<Rightarrow> OContext \<times> SolicitedState" where
  "FinishReadResponse app seq writer iin control ctx =
     (let control = control\<lparr>SEQ := seq\<rparr>;
          sol = os_sol ctx;
          ctx = ctx\<lparr>os_sol := sol\<lparr>sol_seq := (sol_seq sol)\<lparr>sq_confirmNum := seq\<rparr>\<rparr>\<rparr>;
          response = SetControl control (APDU_PutWriter writer);
          (ctx, rsp) = GetResponseIIN app ctx;
          response = SetIIN (IIN_or iin rsp) response;
          ctx = BeginResponseTx response ctx
      in if CON control then (StartSolicitedConfirmTimer ctx, SolConfirmWait) else (ctx, SolIdle))"

definition RespondToReadRequest :: "OutstationApplication \<Rightarrow> APDUHeader \<Rightarrow> bytes \<Rightarrow> OContext \<Rightarrow> (OContext \<times> SolicitedState) option" where
  "RespondToReadRequest app header objs ctx =
     (let ctx = ctx\<lparr>os_history := RecordLastProcessedRequest header objs (os_history ctx)\<rparr>
      in do {
        response \<leftarrow> TxBuffer_Start (sol_tx (os_sol ctx));
        (ctx, writer, iin, control) \<leftarrow> HandleRead objs (GetWriter (SetFunction FC_RESPONSE response)) ctx;
        Some (FinishReadResponse app (SEQ (ah_control header)) writer iin control ctx)})"

definition ContinueMultiFragResponse :: "OutstationApplication \<Rightarrow> AppSeqNum \<Rightarrow> OContext \<Rightarrow> (OContext \<times> SolicitedState) option" where
  "ContinueMultiFragResponse app seq ctx =
     do {
       response \<leftarrow> TxBuffer_Start (sol_tx (os_sol ctx));
       (ctx, writer, control) \<leftarrow> LoadResponse (GetWriter (SetFunction FC_RESPONSE response)) ctx;
       Some (FinishReadResponse app seq writer IIN_Empty control ctx)}"

section \<open>The solicited states\<close>

definition Sol_OnNewReadRequest :: "OutstationApplication \<Rightarrow> APDUHeader \<Rightarrow> bytes \<Rightarrow> OContext \<Rightarrow> (OContext \<times> SolicitedState) option" where
  "Sol_OnNewReadRequest app header objs ctx =
     (case sol_pState (os_sol ctx) of
        SolIdle \<Rightarrow>
          if OutstationUnsolState_IsIdle (os_unsol ctx) then RespondToReadRequest app header objs ctx
          else Some (Defer header objs ctx, SolIdle)
      | SolConfirmWait \<Rightarrow> Some (ConfirmTimer_Cancel (Defer header objs ctx), SolIdle))"

definition Sol_OnNewNonReadRequest :: "OutstationApplication \<Rightarrow> int \<Rightarrow> APDUHeader \<Rightarrow> bytes \<Rightarrow> OContext \<Rightarrow> (OContext \<times> SolicitedState) option" where
  "Sol_OnNewNonReadRequest app now header objs ctx =
     (case sol_pState (os_sol ctx) of
        SolIdle \<Rightarrow> RespondToNonReadRequest app now header objs ctx
      | SolConfirmWait \<Rightarrow> Some (ConfirmTimer_Cancel (Defer header objs ctx), SolIdle))"

definition Sol_OnRepeatNonReadRequest :: "APDUHeader \<Rightarrow> bytes \<Rightarrow> OContext \<Rightarrow> OContext \<times> SolicitedState" where
  "Sol_OnRepeatNonReadRequest header objs ctx =
     (case sol_pState (os_sol ctx) of
        SolIdle \<Rightarrow> (RepeatResponseTx ctx, SolIdle)
      | SolConfirmWait \<Rightarrow> (Defer header objs ctx, SolConfirmWait))"

definition Sol_OnConfirm :: "OutstationApplication \<Rightarrow> APDUHeader \<Rightarrow> OContext \<Rightarrow> (OContext \<times> SolicitedState) option" where
  "Sol_OnConfirm app header ctx =
     (case sol_pState (os_sol ctx) of
        SolIdle \<Rightarrow> Some (ctx, SolIdle)
      | SolConfirmWait \<Rightarrow>
          if AppSeqNum_Equals (sq_confirmNum (sol_seq (os_sol ctx))) (SEQ (ah_control header))
          then do {
            b \<leftarrow> ClearWritten (os_eventBuffer ctx);
            let ctx = set_eventBuffer b (ConfirmTimer_Cancel ctx) in
            if ResponseContext_HasSelection ctx
            then ContinueMultiFragResponse app (AppSeqNum_Next (SEQ (ah_control header))) ctx
            else Some (ctx, SolIdle)}
          else Some (ctx, SolConfirmWait))"

text \<open>\<^verbatim>\<open>OnConfirmTimeout\<close>: both states are idle afterwards.\<close>

definition Sol_OnConfirmTimeout :: "OContext \<Rightarrow> OContext \<times> SolicitedState" where
  "Sol_OnConfirmTimeout ctx = (ctx, case sol_pState (os_sol ctx) of SolIdle \<Rightarrow> SolIdle | SolConfirmWait \<Rightarrow> SolIdle)"

definition set_sol :: "OContext \<times> SolicitedState \<Rightarrow> OContext" where
  "set_sol = (\<lambda>(ctx, st). ctx\<lparr>os_sol := (os_sol ctx)\<lparr>sol_pState := st\<rparr>\<rparr>)"

section \<open>The unsolicited states\<close>

definition Unsol_OnConfirm :: "APDUHeader \<Rightarrow> OContext \<Rightarrow> (OContext \<times> UnsolicitedState) option" where
  "Unsol_OnConfirm header ctx =
     (case un_pState (os_unsol ctx) of
        UnsolIdle \<Rightarrow> Some (ctx, UnsolIdle)
      | UnsolConfirmWait \<Rightarrow>
          if AppSeqNum_Equals (sq_confirmNum (un_seq (os_unsol ctx))) (SEQ (ah_control header))
          then let ctx = ConfirmTimer_Cancel ctx
            in if un_completedNull (os_unsol ctx)
               then map_option (\<lambda>b. (set_eventBuffer b ctx, UnsolIdle)) (ClearWritten (os_eventBuffer ctx))
               else Some (ctx\<lparr>os_unsol := (os_unsol ctx)\<lparr>un_completedNull := True\<rparr>\<rparr>, UnsolIdle)
          else Some (ctx, UnsolConfirmWait))"

definition Unsol_OnConfirmTimeout :: "OContext \<Rightarrow> (OContext \<times> UnsolicitedState) option" where
  "Unsol_OnConfirmTimeout ctx =
     (case un_pState (os_unsol ctx) of
        UnsolIdle \<Rightarrow> Some (ctx, UnsolIdle)
      | UnsolConfirmWait \<Rightarrow> map_option (\<lambda>b. (set_eventBuffer b ctx, UnsolIdle)) (Unselect (os_eventBuffer ctx)))"

definition set_unsol :: "OContext \<times> UnsolicitedState \<Rightarrow> OContext" where
  "set_unsol = (\<lambda>(ctx, st). ctx\<lparr>os_unsol := (os_unsol ctx)\<lparr>un_pState := st\<rparr>\<rparr>)"

section \<open>Requests\<close>

definition ProcessNewRequest :: "OutstationApplication \<Rightarrow> int \<Rightarrow> APDUHeader \<Rightarrow> bytes \<Rightarrow> OContext \<Rightarrow> (OContext \<times> SolicitedState) option" where
  "ProcessNewRequest app now header objs ctx =
     (let sol = os_sol ctx;
          ctx = ctx\<lparr>os_sol := sol\<lparr>sol_seq := (sol_seq sol)\<lparr>sq_num := SEQ (ah_control header)\<rparr>\<rparr>\<rparr>
      in if ah_function header = FC_READ then Sol_OnNewReadRequest app header objs ctx
         else Sol_OnNewNonReadRequest app now header objs ctx)"

definition OnReceiveSolRequest :: "OutstationApplication \<Rightarrow> int \<Rightarrow> APDUHeader \<Rightarrow> bytes \<Rightarrow> OContext \<Rightarrow> (OContext \<times> SolicitedState) option" where
  "OnReceiveSolRequest app now header objs ctx =
     (if rh_hasLast (os_history ctx)
      then if AppSeqNum_Equals (sq_num (sol_seq (os_sol ctx))) (SEQ (ah_control header))
        then if FullyEqualsLastRequest header objs (os_history ctx)
          then if ah_function header = FC_READ then Some (ctx, sol_pState (os_sol ctx))
            else Some (Sol_OnRepeatNonReadRequest header objs ctx)
          else ProcessNewRequest app now header objs ctx
        else ProcessNewRequest app now header objs ctx
      else ProcessNewRequest app now header objs ctx)"

definition ProcessRequest :: "OutstationApplication \<Rightarrow> int \<Rightarrow> APDUHeader \<Rightarrow> bytes \<Rightarrow> OContext \<Rightarrow> OContext option" where
  "ProcessRequest app now header objs ctx =
     (if UNS (ah_control header) then Some ctx else map_option set_sol (OnReceiveSolRequest app now header objs ctx))"

definition ProcessConfirm :: "OutstationApplication \<Rightarrow> APDUHeader \<Rightarrow> OContext \<Rightarrow> OContext option" where
  "ProcessConfirm app header ctx =
     (if UNS (ah_control header) then map_option set_unsol (Unsol_OnConfirm header ctx)
      else map_option set_sol (Sol_OnConfirm app header ctx))"

definition ProcessAPDU :: "OutstationApplication \<Rightarrow> int \<Rightarrow> APDUHeader \<Rightarrow> bytes \<Rightarrow> OContext \<Rightarrow> OContext option" where
  "ProcessAPDU app now header objs ctx =
     (if IsNoAckFuncCode (ah_function header) then ProcessRequestNoAck app header objs ctx
      else if os_isTransmitting ctx then Some (Defer header objs ctx)
      else if ah_function header = FC_CONFIRM then ProcessConfirm app header ctx
      else ProcessRequest app now header objs ctx)"

definition ParseHeader :: "OutstationApplication \<Rightarrow> int \<Rightarrow> bytes \<Rightarrow> OContext \<Rightarrow> OContext option" where
  "ParseHeader app now apdu ctx =
     (case ParseRequest apdu of
        None \<Rightarrow> Some ctx
      | Some header \<Rightarrow>
          if \<not> IsFirAndFin (ah_control header) \<or> CON (ah_control header) then Some ctx
          else ProcessAPDU app now header (drop APDU_REQUEST_HEADER_SIZE apdu) ctx)"

section \<open>Tasks\<close>

definition ProcessDeferredRequest :: "OutstationApplication \<Rightarrow> int \<Rightarrow> APDUHeader \<Rightarrow> bytes \<Rightarrow> OContext \<Rightarrow> (OContext \<times> bool) option" where
  "ProcessDeferredRequest app now header objs ctx =
     (if ah_function header = FC_CONFIRM then map_option (\<lambda>ctx. (ctx, True)) (ProcessConfirm app header ctx)
      else if ah_function header = FC_READ
      then if OutstationUnsolState_IsIdle (os_unsol ctx)
        then map_option (\<lambda>ctx. (ctx, True)) (ProcessRequest app now header objs ctx)
        else Some (ctx, False)
      else map_option (\<lambda>ctx. (ctx, True)) (ProcessRequest app now header objs ctx))"

text \<open>\<^verbatim>\<open>DeferredRequest::Process\<close> with this handler: \<^verbatim>\<open>isSet\<close> is written after the handler has returned.\<close>

definition CheckForDeferredRequest :: "OutstationApplication \<Rightarrow> int \<Rightarrow> OContext \<Rightarrow> OContext option" where
  "CheckForDeferredRequest app now ctx =
     (if CanTransmit ctx \<and> df_isSet (os_deferred ctx)
      then map_option (\<lambda>(ctx, processed). ctx\<lparr>os_deferred := (os_deferred ctx)\<lparr>df_isSet := \<not> processed\<rparr>\<rparr>)
        (ProcessDeferredRequest app now (df_header (os_deferred ctx)) (df_objects (os_deferred ctx)) ctx)
      else Some ctx)"

definition SendUnsolicited :: "OutstationApplication \<Rightarrow> APDUWrapper \<Rightarrow> OContext \<Rightarrow> OContext" where
  "SendUnsolicited app response ctx =
     (let (ctx, iin) = GetResponseIIN app ctx;
          response = NullUnsolicited (sq_num (un_seq (os_unsol ctx))) iin response;
          ctx = StartUnsolicitedConfirmTimer ctx;
          ctx = set_unsol (ctx, UnsolConfirmWait)
      in BeginUnsolTx response ctx)"

definition CheckForUnsolicited :: "OutstationApplication \<Rightarrow> OContext \<Rightarrow> OContext option" where
  "CheckForUnsolicited app ctx =
     (if CanTransmit ctx \<and> OutstationUnsolState_IsIdle (os_unsol ctx) \<and> prm_allowUnsolicited (os_params ctx)
      then if un_completedNull (os_unsol ctx)
        then if ClassField_Intersects (prm_unsolClassMask (os_params ctx)) (UnwrittenClassField (os_eventBuffer ctx))
          then do {
            response \<leftarrow> TxBuffer_Start (un_tx (os_unsol ctx));
            b \<leftarrow> Unselect (os_eventBuffer ctx);
            b \<leftarrow> SelectAllByClass (prm_unsolClassMask (os_params ctx)) b;
            (b, writer, ok) \<leftarrow> EventBuffer_Load (GetWriter response) b;
            Some (SendUnsolicited app (APDU_PutWriter writer) (set_eventBuffer b ctx))}
          else Some ctx
        else map_option (\<lambda>response. SendUnsolicited app response ctx) (TxBuffer_Start (un_tx (os_unsol ctx)))
      else Some ctx)"

definition CheckForTaskStart :: "OutstationApplication \<Rightarrow> int \<Rightarrow> OContext \<Rightarrow> OContext option" where
  "CheckForTaskStart app now ctx = Option.bind (CheckForDeferredRequest app now ctx) (CheckForUnsolicited app)"

section \<open>The events\<close>

definition OContext_OnLowerLayerUp :: "OutstationApplication \<Rightarrow> int \<Rightarrow> OContext \<Rightarrow> (OContext \<times> bool) option" where
  "OContext_OnLowerLayerUp app now ctx =
     (if os_isOnline ctx then Some (ctx, False)
      else map_option (\<lambda>ctx. (ctx, True)) (CheckForTaskStart app now (ctx\<lparr>os_isOnline := True\<rparr>)))"

definition OContext_OnLowerLayerDown :: "OContext \<Rightarrow> (OContext \<times> bool) option" where
  "OContext_OnLowerLayerDown ctx =
     (if \<not> os_isOnline ctx then Some (ctx, False)
      else let ctx = ctx\<lparr>os_isOnline := False, os_isTransmitting := False, os_sol := OutstationSolState_Reset (os_sol ctx),
                 os_unsol := OutstationUnsolState_Reset (os_unsol ctx), os_history := RequestHistory_Reset (os_history ctx),
                 os_deferred := DeferredRequest_Reset (os_deferred ctx)\<rparr>
        in map_option (\<lambda>b. (ConfirmTimer_Cancel (ResponseContext_Reset (set_eventBuffer b ctx)), True)) (Unselect (os_eventBuffer ctx)))"

definition OContext_OnSendResult :: "OutstationApplication \<Rightarrow> int \<Rightarrow> OContext \<Rightarrow> (OContext \<times> bool) option" where
  "OContext_OnSendResult app now ctx =
     (if \<not> os_isOnline ctx \<or> \<not> os_isTransmitting ctx then Some (ctx, False)
      else map_option (\<lambda>ctx. (ctx, True)) (CheckForTaskStart app now (ctx\<lparr>os_isTransmitting := False\<rparr>)))"

definition OContext_OnReceive :: "OutstationApplication \<Rightarrow> int \<Rightarrow> bytes \<Rightarrow> OContext \<Rightarrow> (OContext \<times> bool) option" where
  "OContext_OnReceive app now fragment ctx =
     (if \<not> os_isOnline ctx then Some (ctx, False)
      else map_option (\<lambda>ctx. (ctx, True)) (Option.bind (ParseHeader app now fragment ctx) (CheckForTaskStart app now)))"

text \<open>The lambdas of the two confirm timers; the timer's reference is cleared before they run.\<close>

definition OnConfirmTimer :: "OutstationApplication \<Rightarrow> int \<Rightarrow> ConfirmAction \<Rightarrow> OContext \<Rightarrow> OContext option" where
  "OnConfirmTimer app now action ctx =
     (case action of
        SolicitedConfirmTimeout \<Rightarrow> CheckForTaskStart app now (set_sol (Sol_OnConfirmTimeout ctx))
      | UnsolicitedConfirmTimeout \<Rightarrow> Option.bind (Unsol_OnConfirmTimeout ctx) (\<lambda>r. CheckForTaskStart app now (set_unsol r)))"

text \<open>
  \<^verbatim>\<open>asiodnp3/OutstationStackBase\<close> posts \<^verbatim>\<open>CheckForTaskStart\<close> after the database has been updated.
\<close>

datatype OutstationEvent =
    LowerUp
  | LowerDown
  | SendResult bool
  | Receive bytes
  | ConfirmTimerFires
  | UpdateDatabase EventType Measurement uint16 EventMode
  | UpdateTimes TimeAndInterval uint16
  | StartTasks
  | RestartIIN

definition Outstation_step :: "OutstationApplication \<Rightarrow> int \<Rightarrow> OutstationEvent \<Rightarrow> OContext \<Rightarrow> OContext option" where
  "Outstation_step app now e ctx =
     (case e of
        LowerUp \<Rightarrow> map_option fst (OContext_OnLowerLayerUp app now ctx)
      | LowerDown \<Rightarrow> map_option fst (OContext_OnLowerLayerDown ctx)
      | SendResult isSuccess \<Rightarrow> map_option fst (OContext_OnSendResult app now ctx)
      | Receive fragment \<Rightarrow> map_option fst (OContext_OnReceive app now fragment ctx)
      | ConfirmTimerFires \<Rightarrow>
          (case os_confirmTimer ctx of
             Some (action, d) \<Rightarrow> OnConfirmTimer app now action (ctx\<lparr>os_confirmTimer := None\<rparr>)
           | None \<Rightarrow> Some ctx)
      | UpdateDatabase t val index mode \<Rightarrow>
          map_option (\<lambda>(db, ok). ctx\<lparr>os_database := db\<rparr>) (UpdateEvent t val index mode (os_database ctx))
      | UpdateTimes val index \<Rightarrow> map_option (\<lambda>(db, ok). ctx\<lparr>os_database := db\<rparr>) (UpdateTime val index (os_database ctx))
      | StartTasks \<Rightarrow> CheckForTaskStart app now ctx
      | RestartIIN \<Rightarrow> Some (SetRestartIIN ctx))"

fun Outstation_run :: "OutstationApplication \<Rightarrow> (int \<times> OutstationEvent) list \<Rightarrow> OContext \<Rightarrow> OContext option" where
  "Outstation_run app [] ctx = Some ctx"
| "Outstation_run app ((now, e) # es) ctx = Option.bind (Outstation_step app now e ctx) (Outstation_run app es)"

end
