(* ===== verification/OutstationSafety.thy ===== *)
theory OutstationSafety
  imports OutstationContext
begin

text \<open>
  What holds of every step of an outstation: the application is called in the order of the objects, one fragment is sent at a
  time, a request that does not parse has no effect.
\<close>

section \<open>Invariants of a handler\<close>

lemma HandleAll_inv:
  assumes "I s" "\<And>hd h s s' res. I s \<Longrightarrow> PH hd h s = Some (s', res) \<Longrightarrow> I s'"
  shows "I (snd (HandleAll PH headers (h, s)))"
  using assms(1)
proof (induction headers arbitrary: h s)
  case Nil
  then show ?case by (simp add: HandleAll_def)
next
  case (Cons hd headers)
  obtain h1 s1 where one: "OnHeader PH hd (h, s) = (h1, s1)" by fastforce
  then have "I s1"
    using Cons.prems assms(2) by (auto simp: OnHeader_def ProcessUnsupportedHeader_def split: option.splits)
  from Cons.IH[OF this] show ?case using one by (simp add: HandleAll_def)
qed

lemma ParseWith_inv:
  assumes "ParseWith isAllowed settings PH objs s = (result, errors, s')" "I s"
    and "\<And>hd h s s' res. I s \<Longrightarrow> PH hd h s = Some (s', res) \<Longrightarrow> I s'"
  shows "I s'"
proof -
  obtain r headers where parse: "APDUParser_Parse isAllowed settings objs = (r, headers)" by fastforce
  have "I (snd (HandleAll PH headers (IAPDUHandler_make, s)))" using assms(2, 3) by (rule HandleAll_inv)
  then show ?thesis using assms(1) parse by (auto simp: ParseWith_def split: prod.splits)
qed

lemma on_state_inv:
  assumes "on_state f s = (s', res)" "pred_option I s" "\<And>x y r. I x \<Longrightarrow> f x = Some (y, r) \<Longrightarrow> I y"
  shows "pred_option I s'"
  using assms by (auto simp: on_state_def split: option.splits)

text \<open>A request that does not parse is not handled.\<close>

lemma Parse_error:
  assumes "fst (APDUParser_Parse isAllowed settings objs) \<noteq> PR_OK"
  shows "APDUParser_Parse isAllowed settings objs = (fst (APDUParser_Parse isAllowed settings objs), [])"
proof (cases "fst (ParseSinglePass (Some isAllowed) settings 0 objs) = PR_OK")
  case True
  then obtain cs where cs: "ParseSinglePass (Some isAllowed) settings 0 objs = (PR_OK, cs)" by (metis prod.collapse)
  from ParseSinglePass_OK[OF cs] assms cs show ?thesis by (simp add: APDUParser_Parse_def)
next
  case False
  then show ?thesis by (simp add: APDUParser_Parse_def Let_def)
qed

lemma ParseWith_error:
  assumes "fst (APDUParser_Parse isAllowed settings objs) \<noteq> PR_OK"
  shows "ParseWith isAllowed settings PH objs s = (fst (APDUParser_Parse isAllowed settings objs), IIN_Empty, s)"
proof -
  obtain r where "APDUParser_Parse isAllowed settings objs = (r, [])" using Parse_error[OF assms] by fastforce
  then show ?thesis by (simp add: ParseWith_def HandleAll_def IAPDUHandler_make_def)
qed

section \<open>The calls of a step\<close>

definition is_tx :: "AppCall \<Rightarrow> bool" where
  "is_tx c = (case c of BeginTransmit _ \<Rightarrow> True | _ \<Rightarrow> False)"

lemma is_tx_simps [simp]:
  "is_tx (BeginTransmit b)" "\<not> is_tx CommandsStart" "\<not> is_tx (SelectCommand it i)" "\<not> is_tx (OperateCommand it i)"
  "\<not> is_tx CommandsEnd" "\<not> is_tx (WriteAbsoluteTime t)" "\<not> is_tx (WriteTimeAndInterval vs)"
  "\<not> is_tx (RecordClassAssignment ty pc r)" "\<not> is_tx ColdRestart" "\<not> is_tx WarmRestart"
  by (simp_all add: is_tx_def)

definition extends :: "AppCall list \<Rightarrow> AppCall list \<Rightarrow> bool" where
  "extends calls calls' \<longleftrightarrow> (\<exists>cs. calls' = calls @ cs \<and> list_all (\<lambda>c. \<not> is_tx c) cs)"

lemma extends_refl [simp]: "extends calls calls"
  by (simp add: extends_def)

lemma extends_append: "extends calls calls' \<Longrightarrow> list_all (\<lambda>c. \<not> is_tx c) cs \<Longrightarrow> extends calls (calls' @ cs)"
  by (auto simp: extends_def)

lemma extends_trans: "extends a b \<Longrightarrow> extends b c \<Longrightarrow> extends a c"
  by (auto simp: extends_def)

lemma CommandAction_extends:
  assumes "CommandAction app command index (action, calls') = ((action', calls''), st)" "extends calls calls'"
  shows "extends calls calls''"
proof (cases action)
  case (CommandActionAdapter isSelect isStarted)
  then show ?thesis using assms
    by (cases isSelect; cases isStarted) (auto simp: Let_def CheckStart_def intro!: extends_append)
next
  case (ConstantCommandAction s)
  then show ?thesis using assms by simp
qed

lemma CommandAction_destroy_extends: "extends calls calls' \<Longrightarrow> extends calls (CommandAction_destroy action calls')"
  by (cases action) (auto intro: extends_append)

lemma process_commands_extends:
  "process_commands app vs (h, ret, iter) = Some (h', ret', iter') \<Longrightarrow> extends calls (cr_calls h) \<Longrightarrow> extends calls (cr_calls h')"
proof (induction vs arbitrary: h ret iter)
  case Nil
  then show ?case by simp
next
  case (Cons v vs)
  obtain command index where v: "v = (command, index)" by fastforce
  from Cons.prems(1) obtain h1 ret1 iter1 where one: "process_command app v (h, ret, iter) = Some (h1, ret1, iter1)"
    and rest: "process_commands app vs (h1, ret1, iter1) = Some (h', ret', iter')"
    by (auto simp: bind_eq_Some_conv)
  obtain h2 st where pc: "ProcessCommand app command index h = (h2, st)" by fastforce
  have "extends calls (cr_calls h2)"
    using pc Cons.prems(2) by (auto simp: ProcessCommand_def split: if_splits prod.splits intro: CommandAction_extends)
  then have "extends calls (cr_calls h1)"
    using one pc by (auto simp: v process_command_def Let_def split: option.splits if_splits)
  from Cons.IH[OF rest this] show ?case .
qed

lemma ProcessAny_extends:
  assumes "ProcessAny app record1 serializer vs h = Some (h', ret)" "extends calls (cr_calls h)"
  shows "extends calls (cr_calls h')"
  using assms by (auto simp: ProcessAny_def RespondToHeader_def split: if_splits option.splits prod.splits
      dest!: process_commands_extends[where calls = calls])

lemma ParseCommands_extends:
  assumes "ParseCommands app action objs writer ctx = (result, errors, Some h)"
  shows "extends (os_calls ctx) (cr_calls h)"
proof -
  have "pred_option (\<lambda>h. extends (os_calls ctx) (cr_calls h)) (Some h)"
    using assms unfolding ParseCommands_def
  proof (rule ParseWith_inv)
    show "pred_option (\<lambda>h. extends (os_calls ctx) (cr_calls h))
      (Some (CommandResponseHandler_make (prm_maxControlsPerRequest (os_params ctx)) action writer (os_calls ctx)))"
      by (simp add: CommandResponseHandler_make_def)
  next
    fix call ih s s' res
    assume "pred_option (\<lambda>h. extends (os_calls ctx) (cr_calls h)) s"
      and "CommandResponseHandler_ProcessHeader app call ih s = Some (s', res)"
    then show "pred_option (\<lambda>h. extends (os_calls ctx) (cr_calls h)) s'"
      by (auto simp: CommandResponseHandler_ProcessHeader_def bind_eq_Some_conv split: HandlerCall.splits option.splits
          elim!: on_state_inv intro: ProcessAny_extends)
  qed
  then show ?thesis by simp
qed


text \<open>What a handler leaves alone: all but the static values, the calls, the selection and the class mask.\<close>

definition keeps :: "OContext \<Rightarrow> OContext \<Rightarrow> bool" where
  "keeps ctx ctx' \<longleftrightarrow> os_isOnline ctx' = os_isOnline ctx \<and> os_isTransmitting ctx' = os_isTransmitting ctx
     \<and> os_confirmTimer ctx' = os_confirmTimer ctx \<and> os_history ctx' = os_history ctx \<and> os_deferred ctx' = os_deferred ctx
     \<and> os_sol ctx' = os_sol ctx \<and> os_unsol ctx' = os_unsol ctx \<and> os_eventBuffer ctx' = os_eventBuffer ctx
     \<and> os_fragmentCount ctx' = os_fragmentCount ctx
     \<and> os_params ctx' = (os_params ctx)\<lparr>prm_unsolClassMask := prm_unsolClassMask (os_params ctx')\<rparr>
     \<and> extends (os_calls ctx) (os_calls ctx')"

lemma keeps_refl [simp]: "keeps ctx ctx"
  by (simp add: keeps_def)

lemma keeps_EndCommands:
  "extends (os_calls ctx) (cr_calls h) \<Longrightarrow> keeps ctx (EndCommands h ctx)"
  "extends (os_calls ctx) (cr_calls h) \<Longrightarrow> keeps ctx (EndCommands h (ctx\<lparr>os_control := c\<rparr>))"
  by (simp_all add: keeps_def EndCommands_def CommandAction_destroy_extends)

lemma HandleDirectOperate_keeps:
  "HandleDirectOperate app objs w ctx = Some (ctx', w', iin) \<Longrightarrow> keeps ctx ctx'"
  by (auto simp: HandleDirectOperate_def split: if_splits prod.splits option.splits intro!: keeps_EndCommands dest!: ParseCommands_extends)

lemma HandleSelect_keeps:
  "HandleSelect app now objs w ctx = Some (ctx', w', iin) \<Longrightarrow> keeps ctx ctx'"
  by (auto simp: HandleSelect_def split: if_splits prod.splits option.splits intro!: keeps_EndCommands dest!: ParseCommands_extends)

lemma HandleOperate_keeps:
  "HandleOperate app now objs w ctx = Some (ctx', w', iin) \<Longrightarrow> keeps ctx ctx'"
  by (auto simp: HandleOperate_def HandleCommandWithConstant_def Let_def split: if_splits prod.splits option.splits
      intro!: keeps_EndCommands dest!: ParseCommands_extends)

lemma HandleDelayMeasure_keeps:
  "HandleDelayMeasure objs w ctx = Some (ctx', w', iin) \<Longrightarrow> keeps ctx ctx'"
  by (auto simp: HandleDelayMeasure_def split: if_splits)

lemma HandleRestart_keeps:
  "HandleRestart app objs warm w ctx = Some (ctx', w', iin) \<Longrightarrow> keeps ctx ctx'"
  by (auto simp: HandleRestart_def Let_def keeps_def intro!: extends_append split: if_splits RestartMode.splits)

lemma WriteHandler_extends:
  assumes "WriteHandler_ProcessHeader app call ih s = Some (s', res)" "pred_option (\<lambda>w. extends calls (wh_calls w)) s"
  shows "pred_option (\<lambda>w. extends calls (wh_calls w)) s'"
  using assms
  by (auto simp: WriteHandler_ProcessHeader_def WriteHandler_IIN_def WriteHandler_Time_def WriteHandler_TimeAndInterval_def
      split: HandlerCall.splits option.splits if_splits prod.splits elim!: on_state_inv intro!: extends_append)

lemma HandleWrite_keeps:
  assumes "HandleWrite app objs ctx = Some (ctx', iin)"
  shows "keeps ctx ctx'"
proof -
  obtain result errors s where p: "ParseWith AllowAll ParserSettings_Default (WriteHandler_ProcessHeader app) objs
      (Some (WriteHandler_make (os_staticIIN ctx) (os_calls ctx))) = (result, errors, s)" by (metis prod_cases3)
  have "pred_option (\<lambda>w. extends (os_calls ctx) (wh_calls w)) s"
    using p by (rule ParseWith_inv) (auto simp: WriteHandler_make_def intro: WriteHandler_extends)
  then show ?thesis using assms p by (auto simp: HandleWrite_def keeps_def)
qed

lemma AssignClass_extends:
  assumes "AssignClassHandler_ProcessHeader call ih a = Some (a', res)" "extends calls (ac_calls a)"
  shows "extends calls (ac_calls a')"
  using assms
  by (cases call) (auto simp: AssignClass_AllObjects_def AssignClass_Range_def IsExpectingAssignment_def RecordClass_def Let_def
      ProcessAssignAll_def ProcessAssignRange_def NotifyApplicationOfAssignment_def
      split: prod.splits option.splits if_splits intro!: extends_append)

lemma HandleAssignClass_keeps:
  assumes "HandleAssignClass app objs ctx = (ctx', iin)"
  shows "keeps ctx ctx'"
proof -
  obtain result errors a where p: "ParseWith AllowAll ParserSettings_NoContents AssignClassHandler_ProcessHeader objs
      (AssignClassHandler_make (os_buffers ctx) (os_calls ctx)) = (result, errors, a)" by (metis prod_cases3)
  have "extends (os_calls ctx) (ac_calls a)"
    using p by (rule ParseWith_inv) (auto simp: AssignClassHandler_make_def intro: AssignClass_extends)
  then show ?thesis using assms p by (auto simp: HandleAssignClass_def keeps_def set_buffers_def split: if_splits)
qed

lemma HandleUnsolicited_keeps:
  "HandleUnsolicited change objs ctx = (ctx', iin) \<Longrightarrow> keeps ctx ctx'"
  by (auto simp: HandleUnsolicited_def keeps_def split: prod.splits if_splits)

lemma HandleNonReadResponse_keeps:
  assumes "HandleNonReadResponse app now header objs writer ctx = Some (ctx', writer', iin)"
  shows "keeps ctx ctx'"
  using assms
  by (auto simp: HandleNonReadResponse_def Let_def HandleDisableUnsolicited_def HandleEnableUnsolicited_def
      split: FunctionCode.splits if_splits prod.splits option.splits
      intro: HandleDirectOperate_keeps HandleSelect_keeps HandleOperate_keeps HandleDelayMeasure_keeps HandleRestart_keeps
        HandleWrite_keeps HandleAssignClass_keeps HandleUnsolicited_keeps)


section \<open>One fragment at a time\<close>

definition quiet :: "OContext \<Rightarrow> OContext \<Rightarrow> bool" where
  "quiet ctx ctx' \<longleftrightarrow> extends (os_calls ctx) (os_calls ctx') \<and> os_isTransmitting ctx' = os_isTransmitting ctx \<and> os_isOnline ctx' = os_isOnline ctx"

definition sends :: "OContext \<Rightarrow> OContext \<Rightarrow> bool" where
  "sends ctx ctx' \<longleftrightarrow> (\<exists>calls r. extends (os_calls ctx) calls \<and> os_calls ctx' = calls @ [BeginTransmit r])
     \<and> os_isTransmitting ctx' \<and> os_isOnline ctx' = os_isOnline ctx"

definition acts :: "OContext \<Rightarrow> OContext \<Rightarrow> bool" where
  "acts ctx ctx' \<longleftrightarrow> quiet ctx ctx' \<or> sends ctx ctx'"

lemma quiet_refl [simp]: "quiet ctx ctx"
  by (simp add: quiet_def)

lemma acts_refl [simp]: "acts ctx ctx"
  by (simp add: acts_def)

lemma quiet_sends: "quiet ctx ctx' \<Longrightarrow> sends ctx' ctx'' \<Longrightarrow> sends ctx ctx''"
  unfolding quiet_def sends_def using extends_trans by metis

lemma quiet_quiet: "quiet ctx ctx' \<Longrightarrow> quiet ctx' ctx'' \<Longrightarrow> quiet ctx ctx''"
  unfolding quiet_def using extends_trans by metis

lemma quiet_acts: "quiet ctx ctx' \<Longrightarrow> acts ctx' ctx'' \<Longrightarrow> acts ctx ctx''"
  unfolding acts_def using quiet_sends quiet_quiet by blast

lemma keeps_quiet: "keeps ctx ctx' \<Longrightarrow> quiet ctx ctx'"
  by (simp add: keeps_def quiet_def)

text \<open>Changes of the rest of the state.\<close>

lemma quiet_change: "os_calls ctx' = os_calls ctx \<Longrightarrow> os_isTransmitting ctx' = os_isTransmitting ctx \<Longrightarrow> os_isOnline ctx' = os_isOnline ctx \<Longrightarrow> quiet ctx ctx'"
  by (simp add: quiet_def)

lemmas outstation_updates = set_eventBuffer_def set_buffers_def Defer_def ConfirmTimer_Cancel_def StartSolicitedConfirmTimer_def
  StartUnsolicitedConfirmTimer_def ResponseContext_Reset_def SetRestartIIN_def

lemma GetResponseIIN_quiet: "quiet ctx (fst (GetResponseIIN app ctx))"
  by (auto simp: GetResponseIIN_def GetDynamicIIN_def Let_def outstation_updates intro!: quiet_change split: prod.splits)

lemma BeginTx_sends: "sends ctx (BeginTx r ctx)"
  by (auto simp: sends_def BeginTx_def intro: exI[of _ "os_calls ctx"])

lemma sends_change_left:
  "sends ctx' ctx'' \<Longrightarrow> os_calls ctx' = os_calls ctx \<Longrightarrow> os_isOnline ctx' = os_isOnline ctx \<Longrightarrow> sends ctx ctx''"
  by (simp add: sends_def)

lemma sends_change_right:
  "sends ctx ctx' \<Longrightarrow> os_calls ctx'' = os_calls ctx' \<Longrightarrow> os_isTransmitting ctx'' = os_isTransmitting ctx'
    \<Longrightarrow> os_isOnline ctx'' = os_isOnline ctx' \<Longrightarrow> sends ctx ctx''"
  by (simp add: sends_def)

lemma BeginResponseTx_sends: "sends ctx (BeginResponseTx response ctx)"
  unfolding BeginResponseTx_def by (rule sends_change_left[OF BeginTx_sends]) simp_all

lemma BeginUnsolTx_sends: "sends ctx (BeginUnsolTx response ctx)"
  unfolding BeginUnsolTx_def Let_def by (rule sends_change_left[OF BeginTx_sends]) simp_all

lemma RespondToNonReadRequest_sends:
  assumes "RespondToNonReadRequest app now header objs ctx = Some (ctx', st)"
  shows "sends ctx ctx'"
proof -
  let ?ctx = "ctx\<lparr>os_history := RecordLastProcessedRequest header objs (os_history ctx)\<rparr>"
  from assms obtain response ctx1 writer iin response' where
    h: "HandleNonReadResponse app now header objs (GetWriter response) ?ctx = Some (ctx1, Some writer, iin)"
    and c: "ctx' = BeginResponseTx response' (fst (GetResponseIIN app ctx1))"
    by (auto simp: RespondToNonReadRequest_def Let_def bind_eq_Some_conv case_prod_unfold)
  have "quiet ctx ctx1" using keeps_quiet[OF HandleNonReadResponse_keeps[OF h]] by (simp add: quiet_def)
  then have "quiet ctx (fst (GetResponseIIN app ctx1))" by (rule quiet_quiet) (rule GetResponseIIN_quiet)
  then show ?thesis unfolding c by (rule quiet_sends) (rule BeginResponseTx_sends)
qed

lemma LoadResponse_quiet: "LoadResponse w ctx = Some (ctx', w', control) \<Longrightarrow> quiet ctx ctx'"
  by (auto simp: LoadResponse_def Let_def outstation_updates bind_eq_Some_conv intro!: quiet_change split: prod.splits if_splits)

lemma HandleRead_quiet:
  assumes "HandleRead objs w ctx = Some (ctx', w', iin, control)"
  shows "quiet ctx ctx'"
proof -
  from assms obtain b where u: "Unselect (os_eventBuffer ctx) = Some b" by (auto simp: HandleRead_def bind_eq_Some_conv)
  define ctx1 where "ctx1 = set_buffers (Static_Unselect (os_buffers ctx)) (set_eventBuffer b (ResponseContext_Reset ctx))"
  obtain result errors s where p: "ParseWith AllowAll ParserSettings_NoContents ReadHandler_ProcessHeader objs
      (Some (os_buffers ctx1, os_eventBuffer ctx1)) = (result, errors, s)" by (metis prod_cases3)
  from assms obtain db b' where s: "s = Some (db, b')"
    by (auto simp: HandleRead_def Let_def u p ctx1_def[symmetric] bind_eq_Some_conv)
  have q: "quiet ctx (set_buffers db (set_eventBuffer b' ctx1))" by (simp add: ctx1_def quiet_def outstation_updates)
  show ?thesis
  proof (cases "result = PR_OK")
    case True
    with assms have "LoadResponse w (set_buffers db (set_eventBuffer b' ctx1)) = Some (ctx', w', control)"
      by (auto simp: HandleRead_def Let_def u p ctx1_def[symmetric] s bind_eq_Some_conv)
    then show ?thesis using q LoadResponse_quiet quiet_quiet by blast
  next
    case False
    with assms have "ctx' = ResponseContext_Reset (set_buffers db (set_eventBuffer b' ctx1))"
      by (auto simp: HandleRead_def Let_def u p ctx1_def[symmetric] s)
    then show ?thesis using q by (simp add: quiet_def ResponseContext_Reset_def)
  qed
qed

lemma FinishReadResponse_sends:
  assumes "FinishReadResponse app seq w iin control ctx = (ctx', st)"
  shows "sends ctx ctx'"
proof -
  let ?ctx = "ctx\<lparr>os_sol := (os_sol ctx)\<lparr>sol_seq := (sol_seq (os_sol ctx))\<lparr>sq_confirmNum := seq\<rparr>\<rparr>\<rparr>"
  have "quiet ctx (fst (GetResponseIIN app ?ctx))" using GetResponseIIN_quiet[of ?ctx app] by (simp add: quiet_def)
  then have s: "sends ctx (BeginResponseTx response (fst (GetResponseIIN app ?ctx)))" for response
    by (rule quiet_sends) (rule BeginResponseTx_sends)
  have "sends ctx (StartSolicitedConfirmTimer (BeginResponseTx response (fst (GetResponseIIN app ?ctx))))" for response
    by (rule sends_change_right[OF s]) (simp_all add: outstation_updates)
  with s show ?thesis using assms by (auto simp: FinishReadResponse_def Let_def case_prod_unfold split: if_splits)
qed

lemma RespondToReadRequest_sends:
  assumes "RespondToReadRequest app header objs ctx = Some (ctx', st)"
  shows "sends ctx ctx'"
proof -
  let ?ctx = "ctx\<lparr>os_history := RecordLastProcessedRequest header objs (os_history ctx)\<rparr>"
  from assms obtain response ctx1 w iin control where
    h: "HandleRead objs (GetWriter (SetFunction FC_RESPONSE response)) ?ctx = Some (ctx1, w, iin, control)"
    and f: "FinishReadResponse app (SEQ (ah_control header)) w iin control ctx1 = (ctx', st)"
    by (auto simp: RespondToReadRequest_def Let_def bind_eq_Some_conv)
  have "quiet ctx ctx1" using HandleRead_quiet[OF h] by (simp add: quiet_def)
  then show ?thesis by (rule quiet_sends) (rule FinishReadResponse_sends[OF f])
qed

lemma ContinueMultiFragResponse_sends:
  assumes "ContinueMultiFragResponse app seq ctx = Some (ctx', st)"
  shows "sends ctx ctx'"
proof -
  from assms obtain response ctx1 w control where
    l: "LoadResponse (GetWriter (SetFunction FC_RESPONSE response)) ctx = Some (ctx1, w, control)"
    and f: "FinishReadResponse app seq w IIN_Empty control ctx1 = (ctx', st)"
    by (auto simp: ContinueMultiFragResponse_def bind_eq_Some_conv)
  show ?thesis by (rule quiet_sends[OF LoadResponse_quiet[OF l] FinishReadResponse_sends[OF f]])
qed

lemma acts_sends: "sends ctx ctx' \<Longrightarrow> acts ctx ctx'"
  by (simp add: acts_def)

lemma acts_change_left:
  "acts ctx' ctx'' \<Longrightarrow> os_calls ctx' = os_calls ctx \<Longrightarrow> os_isTransmitting ctx' = os_isTransmitting ctx \<Longrightarrow> os_isOnline ctx' = os_isOnline ctx \<Longrightarrow> acts ctx ctx''"
  by (simp add: acts_def sends_def quiet_def)

lemma acts_change_right:
  "acts ctx ctx' \<Longrightarrow> os_calls ctx'' = os_calls ctx' \<Longrightarrow> os_isTransmitting ctx'' = os_isTransmitting ctx' \<Longrightarrow> os_isOnline ctx'' = os_isOnline ctx' \<Longrightarrow> acts ctx ctx''"
  by (simp add: acts_def sends_def quiet_def)

lemma acts_quiet_change:
  "os_calls ctx' = os_calls ctx \<Longrightarrow> os_isTransmitting ctx' = os_isTransmitting ctx \<Longrightarrow> os_isOnline ctx' = os_isOnline ctx \<Longrightarrow> acts ctx ctx'"
  by (simp add: acts_def quiet_change)

lemma ProcessRequest_acts:
  assumes "ProcessRequest app now header objs ctx = Some ctx'"
  shows "acts ctx ctx'"
proof (cases "UNS (ah_control header)")
  case True
  with assms show ?thesis by (simp add: ProcessRequest_def)
next
  case False
  have new: "acts ctx ctx1" if "ProcessNewRequest app now header objs ctx = Some (ctx1, st)" for ctx1 st
    using that unfolding ProcessNewRequest_def Let_def
    by (auto simp: Sol_OnNewReadRequest_def Sol_OnNewNonReadRequest_def outstation_updates split: if_splits SolicitedState.splits
        intro: acts_quiet_change acts_change_left[OF acts_sends] sends_change_left
        dest!: RespondToReadRequest_sends RespondToNonReadRequest_sends)
  from False assms obtain ctx1 st where r: "OnReceiveSolRequest app now header objs ctx = Some (ctx1, st)" and c: "ctx' = set_sol (ctx1, st)"
    by (auto simp: ProcessRequest_def)
  have "acts ctx ctx1"
    using r new by (auto simp: OnReceiveSolRequest_def Sol_OnRepeatNonReadRequest_def RepeatResponseTx_def outstation_updates
        split: if_splits SolicitedState.splits intro: acts_quiet_change acts_sends BeginTx_sends)
  then show ?thesis unfolding c set_sol_def by (rule acts_change_right) simp_all
qed

lemma ProcessConfirm_acts:
  assumes "ProcessConfirm app header ctx = Some ctx'"
  shows "acts ctx ctx'"
proof (cases "UNS (ah_control header)")
  case True
  with assms show ?thesis
    by (auto simp: ProcessConfirm_def Unsol_OnConfirm_def set_unsol_def outstation_updates Let_def
        split: UnsolicitedState.splits if_splits intro!: acts_quiet_change)
next
  case False
  with assms obtain ctx1 st where s: "Sol_OnConfirm app header ctx = Some (ctx1, st)" and c: "ctx' = set_sol (ctx1, st)"
    by (auto simp: ProcessConfirm_def)
  have "acts ctx ctx1"
    using s by (auto simp: Sol_OnConfirm_def Let_def bind_eq_Some_conv outstation_updates
        split: SolicitedState.splits if_splits intro: acts_quiet_change acts_change_left[OF acts_sends]
        dest!: ContinueMultiFragResponse_sends)
  then show ?thesis unfolding c set_sol_def by (rule acts_change_right) simp_all
qed

lemma CheckForDeferredRequest_acts:
  assumes "CheckForDeferredRequest app now ctx = Some ctx'"
  shows "acts ctx ctx'" "\<not> CanTransmit ctx \<Longrightarrow> ctx' = ctx"
  using assms by (auto simp: CheckForDeferredRequest_def ProcessDeferredRequest_def split: if_splits
      dest!: ProcessRequest_acts ProcessConfirm_acts intro: acts_change_right acts_quiet_change)

lemma SendUnsolicited_sends: "sends ctx (SendUnsolicited app response ctx)"
proof -
  have "quiet ctx (set_unsol (StartUnsolicitedConfirmTimer (fst (GetResponseIIN app ctx)), UnsolConfirmWait))"
    using GetResponseIIN_quiet[of ctx app] by (simp add: quiet_def set_unsol_def outstation_updates)
  then show ?thesis unfolding SendUnsolicited_def Let_def case_prod_unfold by (rule quiet_sends[OF _ BeginUnsolTx_sends])
qed

lemma CheckForUnsolicited_acts:
  assumes "CheckForUnsolicited app ctx = Some ctx'"
  shows "acts ctx ctx'" "\<not> CanTransmit ctx \<Longrightarrow> ctx' = ctx"
  using assms by (auto simp: CheckForUnsolicited_def bind_eq_Some_conv split: if_splits
      intro!: acts_sends sends_change_left[OF SendUnsolicited_sends] simp: outstation_updates)

lemma CheckForTaskStart_acts:
  assumes "CheckForTaskStart app now ctx = Some ctx'"
  shows "acts ctx ctx'" "\<not> CanTransmit ctx \<Longrightarrow> ctx' = ctx"
proof -
  from assms obtain ctx1 where d: "CheckForDeferredRequest app now ctx = Some ctx1" and u: "CheckForUnsolicited app ctx1 = Some ctx'"
    by (auto simp: CheckForTaskStart_def bind_eq_Some_conv)
  show "\<not> CanTransmit ctx \<Longrightarrow> ctx' = ctx"
    using CheckForDeferredRequest_acts(2)[OF d] CheckForUnsolicited_acts(2)[OF u] by simp
  show "acts ctx ctx'"
  proof (cases "sends ctx ctx1")
    case True
    then have "\<not> CanTransmit ctx1" by (simp add: sends_def CanTransmit_def)
    then show ?thesis using True CheckForUnsolicited_acts(2)[OF u] by (simp add: acts_def)
  next
    case False
    then have "quiet ctx ctx1" using CheckForDeferredRequest_acts(1)[OF d] by (simp add: acts_def)
    then show ?thesis using CheckForUnsolicited_acts(1)[OF u] by (rule quiet_acts)
  qed
qed


lemma ParseHeader_acts:
  assumes "ParseHeader app now apdu ctx = Some ctx'"
  shows "acts ctx ctx'" "os_isTransmitting ctx \<Longrightarrow> quiet ctx ctx'"
proof -
  have noack: "quiet ctx ctx1" if "ProcessRequestNoAck app header objs ctx = Some ctx1" for header objs ctx1
    using that by (auto simp: ProcessRequestNoAck_def split: if_splits dest!: HandleDirectOperate_keeps keeps_quiet)
  have later: "quiet ctx (Defer header objs ctx)" for header objs by (simp add: quiet_def Defer_def)
  show "acts ctx ctx'" using assms noack later
    by (auto simp: ParseHeader_def ProcessAPDU_def acts_def[of ctx ctx'] split: option.splits if_splits
        dest!: ProcessRequest_acts ProcessConfirm_acts simp: acts_def)
  show "os_isTransmitting ctx \<Longrightarrow> quiet ctx ctx'" using assms noack later
    by (auto simp: ParseHeader_def ProcessAPDU_def split: option.splits if_splits)
qed

definition ends_transmission :: "OutstationEvent \<Rightarrow> bool" where
  "ends_transmission e \<longleftrightarrow> e = LowerDown \<or> (\<exists>b. e = SendResult b)"

definition transmitting_online :: "OContext \<Rightarrow> bool" where
  "transmitting_online ctx \<longleftrightarrow> (os_isTransmitting ctx \<longrightarrow> os_isOnline ctx)"

text \<open>A step that does not end a transmission.\<close>

lemma Outstation_step_other:
  assumes "Outstation_step app now e ctx = Some ctx'" "\<not> ends_transmission e" "transmitting_online ctx"
  shows "(acts ctx ctx' \<or> acts (ctx\<lparr>os_isOnline := True\<rparr>) ctx') \<and> (os_isTransmitting ctx \<longrightarrow> quiet ctx ctx')"
proof (cases e)
  case LowerUp
  with assms show ?thesis
    by (auto simp: Outstation_step_def OContext_OnLowerLayerUp_def transmitting_online_def split: if_splits dest!: CheckForTaskStart_acts(1))
next
  case (Receive fragment)
  show ?thesis
  proof (cases "os_isOnline ctx")
    case True
    with assms Receive obtain ctx1 where h: "ParseHeader app now fragment ctx = Some ctx1"
      and c: "CheckForTaskStart app now ctx1 = Some ctx'"
      by (auto simp: Outstation_step_def OContext_OnReceive_def bind_eq_Some_conv)
    have "acts ctx ctx'"
    proof (cases "sends ctx ctx1")
      case True
      then have "ctx' = ctx1" using CheckForTaskStart_acts(2)[OF c] by (simp add: sends_def CanTransmit_def)
      then show ?thesis using True by (simp add: acts_def)
    next
      case False
      then have "quiet ctx ctx1" using ParseHeader_acts(1)[OF h] by (simp add: acts_def)
      then show ?thesis using CheckForTaskStart_acts(1)[OF c] by (rule quiet_acts)
    qed
    moreover have "quiet ctx ctx'" if "os_isTransmitting ctx"
      using ParseHeader_acts(2)[OF h that] CheckForTaskStart_acts(2)[OF c] that by (simp add: quiet_def CanTransmit_def)
    ultimately show ?thesis by simp
  next
    case False
    with assms Receive show ?thesis by (simp add: Outstation_step_def OContext_OnReceive_def)
  qed
next
  case ConfirmTimerFires
  have start: "acts ctx1 ctx'" "os_isTransmitting ctx1 \<longrightarrow> quiet ctx1 ctx'" if "CheckForTaskStart app now ctx1 = Some ctx'" for ctx1
    using CheckForTaskStart_acts[OF that] by (auto simp: CanTransmit_def)
  have "acts ctx ctx' \<and> (os_isTransmitting ctx \<longrightarrow> quiet ctx ctx')"
    if "CheckForTaskStart app now ctx1 = Some ctx'" "os_calls ctx1 = os_calls ctx" "os_isTransmitting ctx1 = os_isTransmitting ctx"
      "os_isOnline ctx1 = os_isOnline ctx" for ctx1
    using start[OF that(1)] that(2-) by (auto simp: quiet_def intro: acts_change_left)
  with ConfirmTimerFires assms show ?thesis
    by (auto simp: Outstation_step_def OnConfirmTimer_def bind_eq_Some_conv Sol_OnConfirmTimeout_def Unsol_OnConfirmTimeout_def
        set_sol_def set_unsol_def set_eventBuffer_def split: option.splits ConfirmAction.splits UnsolicitedState.splits)
next
  case StartTasks
  with assms show ?thesis
    using CheckForTaskStart_acts[of app now ctx ctx'] by (auto simp: Outstation_step_def CanTransmit_def)
qed (use assms in \<open>auto simp: Outstation_step_def ends_transmission_def acts_def quiet_def SetRestartIIN_def split: prod.splits\<close>)

lemma acts_count:
  assumes "acts ctx ctx'" "\<not> os_isTransmitting ctx"
  shows "\<exists>cs. os_calls ctx' = os_calls ctx @ cs \<and> length (filter is_tx cs) = of_bool (os_isTransmitting ctx')"
proof -
  have none: "list_all (\<lambda>c. \<not> is_tx c) cs \<Longrightarrow> filter is_tx cs = []" for cs by (induction cs) auto
  show ?thesis using assms none by (fastforce simp: acts_def quiet_def sends_def extends_def)
qed

lemma CheckForTaskStart_online:
  assumes "CheckForTaskStart app now ctx = Some ctx'" "transmitting_online ctx"
  shows "transmitting_online ctx'"
proof (cases "CanTransmit ctx")
  case True
  with CheckForTaskStart_acts(1)[OF assms(1)] show ?thesis
    by (auto simp: acts_def quiet_def sends_def CanTransmit_def transmitting_online_def)
next
  case False
  with CheckForTaskStart_acts(2)[OF assms(1)] assms(2) show ?thesis by simp
qed

lemma Outstation_step_online:
  assumes "Outstation_step app now e ctx = Some ctx'" "transmitting_online ctx"
  shows "transmitting_online ctx'"
proof -
  have start: "transmitting_online ctx'"
    if "CheckForTaskStart app now ctx1 = Some ctx'" "os_isTransmitting ctx1 \<longrightarrow> os_isOnline ctx1" for ctx1
    using CheckForTaskStart_online[OF that(1)] that(2) by (simp add: transmitting_online_def)
  have parse: "transmitting_online ctx1" if "ParseHeader app now fragment ctx = Some ctx1" "os_isOnline ctx" for fragment ctx1
    using ParseHeader_acts(1)[OF that(1)] that(2) by (auto simp: acts_def quiet_def sends_def transmitting_online_def)
  show ?thesis
    using assms start parse
    by (cases e) (auto simp: Outstation_step_def OContext_OnLowerLayerUp_def OContext_OnLowerLayerDown_def OContext_OnSendResult_def
        OContext_OnReceive_def OnConfirmTimer_def Sol_OnConfirmTimeout_def Unsol_OnConfirmTimeout_def set_sol_def set_unsol_def
        Let_def outstation_updates transmitting_online_def bind_eq_Some_conv
        split: if_splits option.splits ConfirmAction.splits UnsolicitedState.splits prod.splits)
qed

lemma Outstation_run_online:
  assumes "Outstation_run app es ctx = Some ctx'" "transmitting_online ctx"
  shows "transmitting_online ctx'"
  using assms
proof (induction es arbitrary: ctx)
  case (Cons e es)
  obtain now ev where e: "e = (now, ev)" by fastforce
  with Cons.prems obtain ctx1 where "Outstation_step app now ev ctx = Some ctx1" "Outstation_run app es ctx1 = Some ctx'"
    by (auto simp: bind_eq_Some_conv)
  then show ?case using Cons.IH Cons.prems(2) Outstation_step_online by blast
qed simp

text \<open>
  \<^bold>\<open>C4\<close>.  An outstation hands the layer below one fragment at a time: while a fragment is on its way, no step but the
  lower layer's result, or its end, begins another; a step begins one fragment at most, and only online.
\<close>

theorem one_transmission_at_a_time:
  assumes "Outstation_run app es (OContext_make params db) = Some ctx" "Outstation_step app now e ctx = Some ctx'"
  shows "\<exists>cs. os_calls ctx' = os_calls ctx @ cs
    \<and> (if os_isTransmitting ctx \<and> \<not> ends_transmission e
       then filter is_tx cs = [] \<and> os_isTransmitting ctx'
       else length (filter is_tx cs) = of_bool (os_isTransmitting ctx'))
    \<and> (os_isTransmitting ctx' \<longrightarrow> os_isOnline ctx')"
proof -
  have inv: "transmitting_online ctx"
    using assms(1) by (rule Outstation_run_online) (simp add: transmitting_online_def OContext_make_def)
  have on: "os_isTransmitting ctx' \<longrightarrow> os_isOnline ctx'"
    using Outstation_step_online[OF assms(2) inv] by (simp add: transmitting_online_def)
  consider (ends) "ends_transmission e" | (busy) "\<not> ends_transmission e" "os_isTransmitting ctx"
    | (idle) "\<not> ends_transmission e" "\<not> os_isTransmitting ctx" by blast
  then show ?thesis
  proof cases
    case ends
    have "\<exists>cs. os_calls ctx' = os_calls ctx @ cs \<and> length (filter is_tx cs) = of_bool (os_isTransmitting ctx')"
    proof -
      have "?thesis" if "CheckForTaskStart app now (ctx\<lparr>os_isTransmitting := False\<rparr>) = Some ctx'"
        using acts_count[OF CheckForTaskStart_acts(1)[OF that]] by simp
      then show ?thesis using ends assms(2) inv
        by (auto simp: ends_transmission_def Outstation_step_def OContext_OnLowerLayerDown_def OContext_OnSendResult_def Let_def
            outstation_updates transmitting_online_def split: if_splits)
    qed
    then show ?thesis using ends on by auto
  next
    case busy
    have none: "list_all (\<lambda>c. \<not> is_tx c) cs \<Longrightarrow> filter is_tx cs = []" for cs by (induction cs) auto
    from busy Outstation_step_other[OF assms(2) busy(1) inv] show ?thesis using on none by (auto simp: quiet_def extends_def)
  next
    case idle
    from Outstation_step_other[OF assms(2) idle(1) inv] have "acts ctx ctx' \<or> acts (ctx\<lparr>os_isOnline := True\<rparr>) ctx'" by simp
    then have "\<exists>cs. os_calls ctx' = os_calls ctx @ cs \<and> length (filter is_tx cs) = of_bool (os_isTransmitting ctx')"
      using acts_count[of ctx ctx'] acts_count[of "ctx\<lparr>os_isOnline := True\<rparr>" ctx'] idle(2) by auto
    then show ?thesis using idle on by auto
  qed
qed


text \<open>An outstation without points, events or a time source, for the examples.\<close>

definition sample_params :: OutstationParams where
  "sample_params = \<lparr>prm_maxControlsPerRequest = 16, prm_selectTimeout = 10000, prm_solConfirmTimeout = 5000,
     prm_unsolConfirmTimeout = 5000, prm_unsolRetryTimeout = 5000, prm_maxTxFragSize = 4, prm_maxRxFragSize = 4,
     prm_allowUnsolicited = True, prm_unsolClassMask = 0\<rparr>"

definition sample_config :: EventBufferConfig where
  "sample_config = \<lparr>maxBinaryEvents = 0, maxDoubleBinaryEvents = 0, maxAnalogEvents = 0, maxCounterEvents = 0,
     maxFrozenCounterEvents = 0, maxBinaryOutputStatusEvents = 0, maxAnalogOutputStatusEvents = 0, maxSecurityStatisticEvents = 0\<rparr>"

definition sample_db :: Database where
  "sample_db = \<lparr>dt_buffers = DatabaseBuffers_make (\<lambda>_. 0) 0 0 Contiguous, dt_events = EventBuffer_make sample_config\<rparr>"

definition sample :: OContext where
  "sample = OContext_make sample_params sample_db"

definition sample_app :: OutstationApplication where
  "sample_app = DefaultOutstationApplication SUCCESS"

lemma sample_up:
  "Outstation_step sample_app 0 LowerUp sample = Some (SendUnsolicited sample_app \<lparr>ws_buffer = [0, 0, 0, 0], ws_position = 4\<rparr> (sample\<lparr>os_isOnline := True\<rparr>))"
  by (simp add: Outstation_step_def OContext_OnLowerLayerUp_def CheckForTaskStart_def CheckForDeferredRequest_def CheckForUnsolicited_def
      CanTransmit_def sample_def OContext_make_def sample_params_def DeferredRequest_make_def OutstationUnsolState_make_def
      OutstationUnsolState_IsIdle_def TxBuffer_Start_def TxBuffer_make_def APDUResponse_make_def APDUWrapper_make_def WSlice_make_def
      WSlice_Advance_def WSlice_Size_def numeral_eq_Suc)

theorem one_transmission_at_a_time_witness:
  "\<exists>ctx' cs. Outstation_step sample_app 0 LowerUp sample = Some ctx' \<and> os_calls ctx' = cs \<and> length (filter is_tx cs) = 1"
proof -
  let ?up = "SendUnsolicited sample_app \<lparr>ws_buffer = [0, 0, 0, 0], ws_position = 4\<rparr> (sample\<lparr>os_isOnline := True\<rparr>)"
  have start: "os_calls sample = []" "\<not> os_isTransmitting sample" by (simp_all add: sample_def OContext_make_def)
  have run: "Outstation_run sample_app [] (OContext_make sample_params sample_db) = Some sample" by (simp add: sample_def)
  have "os_isTransmitting ?up" using SendUnsolicited_sends by (simp add: sends_def)
  with one_transmission_at_a_time[OF run sample_up] start sample_up show ?thesis by auto
qed

end
