(* ===== verification/OutstationRequests.thy ===== *)
theory OutstationRequests
  imports OutstationSafety
begin

text \<open>
  How an outstation answers single requests: one that it rejects has no effect, one that is repeated is answered from the
  transmit buffer, and one that the implementation loses.
\<close>

section \<open>Fragments\<close>

lemma TxBuffer_Start_4:
  assumes "TxBuffer_Start tx = Some response"
  shows "length (tx_buffer tx) \<ge> 4 \<and> response = \<lparr>ws_buffer = tx_buffer tx, ws_position = 4\<rparr>"
  using assms by (auto simp: TxBuffer_Start_def APDUResponse_make_def APDUWrapper_make_def WSlice_make_def WSlice_Advance_def
      WSlice_Size_def min_def split: if_splits)

lemma take_4_updates:
  assumes "length b \<ge> 4"
  shows "take 4 (b[Suc 0 := x1, 0 := x0, 2 := x2, 3 := x3]) = [x0, x1, x2, x3]"
proof -
  from assms obtain a0 a1 a2 a3 r where "b = a0 # a1 # a2 # a3 # r"
    by (auto simp: numeral_eq_Suc Suc_le_length_iff)
  then show ?thesis by (simp add: numeral_eq_Suc)
qed

text \<open>A response without objects.\<close>

lemma empty_response:
  assumes "TxBuffer_Start tx = Some response"
  shows "ToRSlice (SetIIN iin (SetControl c (SetFunction fc response))) =
    [AppControlField_ToByte c, FunctionCodeToType fc, LSB iin, MSB iin]"
  using TxBuffer_Start_4[OF assms]
  by (simp add: ToRSlice_def APDU_Size_def WSlice_Size_def SetIIN_def SetControl_def SetFunction_def take_4_updates)

section \<open>Rejected requests\<close>

text \<open>How each function's objects are parsed; the others are not supported.\<close>

definition parse_result :: "FunctionCode \<Rightarrow> bytes \<Rightarrow> ParseResult" where
  "parse_result fc objs =
     (if fc \<in> {FC_SELECT, FC_OPERATE, FC_DIRECT_OPERATE} then fst (APDUParser_Parse CommandResponseHandler_IsAllowed ParserSettings_Default objs)
      else if fc = FC_ASSIGN_CLASS then fst (APDUParser_Parse AllowAll ParserSettings_NoContents objs)
      else fst (APDUParser_Parse AllowAll ParserSettings_Default objs))"

definition supported_functions :: "FunctionCode set" where
  "supported_functions = {FC_WRITE, FC_SELECT, FC_OPERATE, FC_DIRECT_OPERATE, FC_COLD_RESTART, FC_WARM_RESTART, FC_ASSIGN_CLASS,
     FC_DELAY_MEASURE, FC_DISABLE_UNSOLICITED, FC_ENABLE_UNSOLICITED}"

definition rejected :: "FunctionCode \<Rightarrow> bytes \<Rightarrow> bool" where
  "rejected fc objs \<longleftrightarrow> fc \<notin> supported_functions
     \<or> (if fc \<in> {FC_COLD_RESTART, FC_WARM_RESTART, FC_DELAY_MEASURE} then objs \<noteq> [] else parse_result fc objs \<noteq> PR_OK)"

lemma IIN_error_bits [simp]:
  "IIN_HasRequestError (IIN_of_bit FUNC_NOT_SUPPORTED)" "IIN_HasRequestError (IIN_of_bit PARAM_ERROR)"
  "IIN_HasRequestError (IIN_of_bit OBJECT_UNKNOWN)"
  by (simp_all add: IIN_HasRequestError_def IIN_of_bit_def IIN_SetBit_def IIN_Empty_def REQUEST_ERROR_MASK_def)

lemma IINFromParseResult_error: "r \<noteq> PR_OK \<Longrightarrow> IIN_HasRequestError (IINFromParseResult r)"
  by (simp add: IINFromParseResult_def)

lemma ParseCommands_error:
  assumes "fst (APDUParser_Parse CommandResponseHandler_IsAllowed ParserSettings_Default objs) = r" "r \<noteq> PR_OK"
  shows "ParseCommands app action objs w ctx =
    (r, IIN_Empty, Some (CommandResponseHandler_make (prm_maxControlsPerRequest (os_params ctx)) action w (os_calls ctx)))"
  using ParseWith_error[of CommandResponseHandler_IsAllowed ParserSettings_Default objs] assms by (simp add: ParseCommands_def)

lemma rejected_HandleNonReadResponse:
  assumes "rejected (ah_function header) objs"
  shows "\<exists>iin. HandleNonReadResponse app now header objs writer ctx = Some (ctx, Some writer, iin) \<and> IIN_HasRequestError iin"
proof -
  have same: "EndCommands (CommandResponseHandler_make m (CommandActionAdapter_make b) w (os_calls ctx)) ctx = ctx"
    "EndCommands (CommandResponseHandler_make m (ConstantCommandAction st) w (os_calls ctx)) ctx = ctx" for m b w st
    by (simp_all add: EndCommands_def CommandResponseHandler_make_def CommandActionAdapter_make_def)
  have w: "cr_writer (CommandResponseHandler_make m a w c) = w" for m a w c by (simp add: CommandResponseHandler_make_def)
  note rules = HandleNonReadResponse_def Let_def rejected_def parse_result_def supported_functions_def
    ParseWith_error ParseCommands_error same w IINFromParseResult_error
  show ?thesis
    using assms
    by (cases "ah_function header")
      (auto simp: rules HandleWrite_def HandleSelect_def HandleOperate_def HandleCommandWithConstant_def HandleDirectOperate_def
        HandleRestart_def HandleAssignClass_def HandleDelayMeasure_def HandleDisableUnsolicited_def HandleEnableUnsolicited_def
        HandleUnsolicited_def WriteHandler_make_def AssignClassHandler_make_def set_buffers_def)
qed


lemma IIN_HasRequestError_or: "IIN_HasRequestError a \<Longrightarrow> IIN_HasRequestError (IIN_or a b)"
  by (auto simp: IIN_HasRequestError_def IIN_or_def bit_eq_iff bit_and_iff bit_or_iff)

lemma GetResponseIIN_frame:
  "os_calls (fst (GetResponseIIN app ctx)) = os_calls ctx" "os_sol (fst (GetResponseIIN app ctx)) = os_sol ctx"
  "os_buffers (fst (GetResponseIIN app ctx)) = os_buffers ctx" "os_staticIIN (fst (GetResponseIIN app ctx)) = os_staticIIN ctx"
  "os_params (fst (GetResponseIIN app ctx)) = os_params ctx" "os_control (fst (GetResponseIIN app ctx)) = os_control ctx"
  "os_unsol (fst (GetResponseIIN app ctx)) = os_unsol ctx" "os_deferred (fst (GetResponseIIN app ctx)) = os_deferred ctx"
  "os_history (fst (GetResponseIIN app ctx)) = os_history ctx" "os_confirmTimer (fst (GetResponseIIN app ctx)) = os_confirmTimer ctx"
  "os_isOnline (fst (GetResponseIIN app ctx)) = os_isOnline ctx" "os_isTransmitting (fst (GetResponseIIN app ctx)) = os_isTransmitting ctx"
  "os_fragmentCount (fst (GetResponseIIN app ctx)) = os_fragmentCount ctx"
  "eb_events (os_eventBuffer (fst (GetResponseIIN app ctx))) = eb_events (os_eventBuffer ctx)"
  by (simp_all add: GetResponseIIN_def GetDynamicIIN_def Let_def IsOverflown_def set_eventBuffer_def split: prod.splits)

lemma PutWriter_GetWriter [simp]: "APDU_PutWriter (GetWriter response) = response"
  by (simp add: APDU_PutWriter_def GetWriter_def HeaderWriter_make_def)

lemma BeginResponseTx_simps:
  "os_calls (BeginResponseTx response ctx) = os_calls ctx @ [BeginTransmit (ToRSlice response)]"
  "sol_tx (os_sol (BeginResponseTx response ctx)) = TxBuffer_Record response (sol_tx (os_sol ctx))"
  "sol_seq (os_sol (BeginResponseTx response ctx)) = sol_seq (os_sol ctx)"
  "sol_pState (os_sol (BeginResponseTx response ctx)) = sol_pState (os_sol ctx)"
  "os_database (BeginResponseTx response ctx) = os_database ctx" "os_staticIIN (BeginResponseTx response ctx) = os_staticIIN ctx"
  "os_params (BeginResponseTx response ctx) = os_params ctx" "os_control (BeginResponseTx response ctx) = os_control ctx"
  "os_unsol (BeginResponseTx response ctx) = os_unsol ctx" "os_deferred (BeginResponseTx response ctx) = os_deferred ctx"
  "os_history (BeginResponseTx response ctx) = os_history ctx" "os_confirmTimer (BeginResponseTx response ctx) = os_confirmTimer ctx"
  "os_isOnline (BeginResponseTx response ctx) = os_isOnline ctx" "os_isTransmitting (BeginResponseTx response ctx)"
  "os_fragmentCount (BeginResponseTx response ctx) = os_fragmentCount ctx"
  by (simp_all add: BeginResponseTx_def BeginTx_def)

lemma GetLastResponse_Record [simp]: "GetLastResponse (TxBuffer_Record response tx) = ToRSlice response"
  by (simp add: GetLastResponse_def TxBuffer_Record_def ToRSlice_def)

lemma rejected_answer:
  assumes "rejected (ah_function header) objs" "length (tx_buffer (sol_tx (os_sol ctx))) \<ge> 4"
  obtains iin response where "TxBuffer_Start (sol_tx (os_sol ctx)) = Some response" "IIN_HasRequestError iin"
    "RespondToNonReadRequest app now header objs ctx =
      Some (BeginResponseTx
        (SetIIN iin (SetControl (AppControlField_make True True False False (SEQ (ah_control header))) (SetFunction FC_RESPONSE response)))
        (fst (GetResponseIIN app (ctx\<lparr>os_history := RecordLastProcessedRequest header objs (os_history ctx)\<rparr>))), SolIdle)"
proof -
  obtain response where start: "TxBuffer_Start (sol_tx (os_sol ctx)) = Some response"
    using assms(2) by (simp add: TxBuffer_Start_def APDUResponse_make_def APDUWrapper_make_def)
  let ?rsp = "SetControl (AppControlField_make True True False False (SEQ (ah_control header))) (SetFunction FC_RESPONSE response)"
  let ?ctx = "ctx\<lparr>os_history := RecordLastProcessedRequest header objs (os_history ctx)\<rparr>"
  obtain iin where h: "HandleNonReadResponse app now header objs (GetWriter ?rsp) ?ctx = Some (?ctx, Some (GetWriter ?rsp), iin)"
    and err: "IIN_HasRequestError iin" using rejected_HandleNonReadResponse[OF assms(1)] by blast
  show ?thesis
    by (rule that[OF start, of "IIN_or iin (snd (GetResponseIIN app ?ctx))"])
      (simp_all add: IIN_HasRequestError_or err RespondToNonReadRequest_def Let_def start h case_prod_unfold)
qed

lemma sample_tx: "length (tx_buffer (sol_tx (os_sol sample))) \<ge> 4"
  by (simp add: sample_def OContext_make_def OutstationSolState_make_def TxBuffer_make_def sample_params_def)

section \<open>Receiving a request\<close>

lemma RespondToNonReadRequest_history:
  assumes "RespondToNonReadRequest app now header objs ctx = Some (ctx', st)"
  shows "os_history ctx' = RecordLastProcessedRequest header objs (os_history ctx)"
    "\<exists>calls. os_calls ctx' = calls @ [BeginTransmit (GetLastResponse (sol_tx (os_sol ctx')))]"
    "sol_pState (os_sol ctx') = sol_pState (os_sol ctx)" "sol_seq (os_sol ctx') = sol_seq (os_sol ctx)"
    "os_isOnline ctx' = os_isOnline ctx"
proof -
  let ?ctx = "ctx\<lparr>os_history := RecordLastProcessedRequest header objs (os_history ctx)\<rparr>"
  from assms obtain response ctx1 writer iin response' where
    h: "HandleNonReadResponse app now header objs (GetWriter response) ?ctx = Some (ctx1, Some writer, iin)"
    and c: "ctx' = BeginResponseTx response' (fst (GetResponseIIN app ctx1))"
    by (auto simp: RespondToNonReadRequest_def Let_def bind_eq_Some_conv case_prod_unfold)
  from HandleNonReadResponse_keeps[OF h] have k: "keeps ?ctx ctx1" .
  show "os_history ctx' = RecordLastProcessedRequest header objs (os_history ctx)"
    "\<exists>calls. os_calls ctx' = calls @ [BeginTransmit (GetLastResponse (sol_tx (os_sol ctx')))]"
    "sol_pState (os_sol ctx') = sol_pState (os_sol ctx)" "sol_seq (os_sol ctx') = sol_seq (os_sol ctx)"
    "os_isOnline ctx' = os_isOnline ctx"
    using k by (simp_all add: c BeginResponseTx_simps GetResponseIIN_frame keeps_def)
qed

lemma FullyEquals_recorded [simp]: "FullyEqualsLastRequest header objs (RecordLastProcessedRequest header objs r)"
  by (simp add: FullyEqualsLastRequest_def RecordLastProcessedRequest_def EqualsLastObjects_def APDUHeader_Equals_def)

lemma set_sol_same: "sol_pState (os_sol ctx) = st \<Longrightarrow> set_sol (ctx, st) = ctx"
  by (simp add: set_sol_def)

lemma CheckForTaskStart_busy: "os_isTransmitting ctx \<Longrightarrow> CheckForTaskStart app now ctx = Some ctx"
  by (simp add: CheckForTaskStart_def CheckForDeferredRequest_def CheckForUnsolicited_def CanTransmit_def)

definition request_for :: "FunctionCode set \<Rightarrow> bytes \<Rightarrow> APDUHeader \<Rightarrow> bool" where
  "request_for fcs apdu header \<longleftrightarrow> ParseRequest apdu = Some header \<and> IsFirAndFin (ah_control header)
     \<and> \<not> CON (ah_control header) \<and> \<not> UNS (ah_control header) \<and> ah_function header \<in> fcs"

definition answered_functions :: "FunctionCode set" where
  "answered_functions = {fc. \<not> IsNoAckFuncCode fc \<and> fc \<noteq> FC_CONFIRM}"

lemma rejected_step:
  assumes "request_for (answered_functions - {FC_READ}) apdu header" "rejected (ah_function header) (drop 2 apdu)"
    and "CanTransmit ctx" "sol_pState (os_sol ctx) = SolIdle" "length (tx_buffer (sol_tx (os_sol ctx))) \<ge> 4"
    and "\<not> (rh_hasLast (os_history ctx) \<and> sq_num (sol_seq (os_sol ctx)) = SEQ (ah_control header)
      \<and> FullyEqualsLastRequest header (drop 2 apdu) (os_history ctx))"
  defines "received \<equiv> ctx\<lparr>os_sol := (os_sol ctx)\<lparr>sol_seq := (sol_seq (os_sol ctx))\<lparr>sq_num := SEQ (ah_control header)\<rparr>\<rparr>\<rparr>"
  obtains ctx' where "RespondToNonReadRequest app now header (drop 2 apdu) received = Some (ctx', SolIdle)"
    "Outstation_step app now (Receive apdu) ctx = Some ctx'"
proof -
  have "length (tx_buffer (sol_tx (os_sol received))) \<ge> 4" using assms(5) by (simp add: received_def)
  from rejected_answer[OF assms(2) this, of app now]
  obtain ctx' where r: "RespondToNonReadRequest app now header (drop 2 apdu) received = Some (ctx', SolIdle)" by blast
  note facts = RespondToNonReadRequest_history[OF r]
  have tx: "os_isTransmitting ctx'" using RespondToNonReadRequest_sends[OF r] by (simp add: sends_def)
  have "ProcessNewRequest app now header (drop 2 apdu) ctx = Some (ctx', SolIdle)"
    using r assms(1,4) by (auto simp: ProcessNewRequest_def Let_def Sol_OnNewNonReadRequest_def received_def request_for_def)
  then have "OnReceiveSolRequest app now header (drop 2 apdu) ctx = Some (ctx', SolIdle)"
    using assms(6) by (auto simp: OnReceiveSolRequest_def AppSeqNum_Equals_def)
  then have "ParseHeader app now apdu ctx = Some ctx'"
    using assms(1,3,4) facts by (auto simp: ParseHeader_def ProcessAPDU_def ProcessRequest_def request_for_def answered_functions_def
        CanTransmit_def APDU_REQUEST_HEADER_SIZE_def set_sol_same received_def)
  then have "Outstation_step app now (Receive apdu) ctx = Some ctx'"
    using assms(3) tx by (simp add: Outstation_step_def OContext_OnReceive_def CanTransmit_def CheckForTaskStart_busy)
  with r show ?thesis by (rule that)
qed

text \<open>
  \<^bold>\<open>C15\<close>.  A request, other than a read, that has to be answered, arrives at an idle outstation and is not a repetition of the last one.
  If its function is not supported or its objects do not parse, it is answered with a response without objects that
  reports the error.  The values, the events, the parameters, the selection, and the deferred and unsolicited state stay as
  they are, and user code is not called to act on it, whatever objects stand before the one that does not parse; it
  is asked for its indications and for what it supports only.
\<close>

theorem rejected_request_has_no_effect:
  assumes "request_for (answered_functions - {FC_READ}) apdu header" "rejected (ah_function header) (drop 2 apdu)"
    and "CanTransmit ctx" "sol_pState (os_sol ctx) = SolIdle" "length (tx_buffer (sol_tx (os_sol ctx))) \<ge> 4"
    and "\<not> (rh_hasLast (os_history ctx) \<and> sq_num (sol_seq (os_sol ctx)) = SEQ (ah_control header)
      \<and> FullyEqualsLastRequest header (drop 2 apdu) (os_history ctx))"
  shows "\<exists>ctx' iin. Outstation_step app now (Receive apdu) ctx = Some ctx' \<and> IIN_HasRequestError iin
    \<and> os_calls ctx' = os_calls ctx @ [BeginTransmit [0xC0 OR SEQ (ah_control header) mod 16, 0x81, LSB iin, MSB iin]]
    \<and> os_buffers ctx' = os_buffers ctx \<and> eb_events (os_eventBuffer ctx') = eb_events (os_eventBuffer ctx)
    \<and> os_staticIIN ctx' = os_staticIIN ctx \<and> os_params ctx' = os_params ctx \<and> os_control ctx' = os_control ctx
    \<and> os_unsol ctx' = os_unsol ctx \<and> os_deferred ctx' = os_deferred ctx \<and> os_confirmTimer ctx' = os_confirmTimer ctx
    \<and> os_isOnline ctx' \<and> sol_pState (os_sol ctx') = SolIdle"
proof -
  let ?received = "ctx\<lparr>os_sol := (os_sol ctx)\<lparr>sol_seq := (sol_seq (os_sol ctx))\<lparr>sq_num := SEQ (ah_control header)\<rparr>\<rparr>\<rparr>"
  from rejected_step[OF assms, of app now] obtain ctx' where
    r: "RespondToNonReadRequest app now header (drop 2 apdu) ?received = Some (ctx', SolIdle)"
    and s: "Outstation_step app now (Receive apdu) ctx = Some ctx'" .
  have "length (tx_buffer (sol_tx (os_sol ?received))) \<ge> 4" using assms(5) by simp
  from rejected_answer[OF assms(2) this, of app now] r obtain iin response where
    start: "TxBuffer_Start (sol_tx (os_sol ?received)) = Some response" and err: "IIN_HasRequestError iin"
    and c: "ctx' = BeginResponseTx
        (SetIIN iin (SetControl (AppControlField_make True True False False (SEQ (ah_control header))) (SetFunction FC_RESPONSE response)))
        (fst (GetResponseIIN app (?received\<lparr>os_history := RecordLastProcessedRequest header (drop 2 apdu) (os_history ?received)\<rparr>)))"
    by (metis option.inject prod.inject)
  have "AppControlField_ToByte (AppControlField_make True True False False (SEQ (ah_control header))) = 0xC0 OR SEQ (ah_control header) mod 16"
    by (simp add: AppControlField_ToByte_def AppControlField_make_def)
  moreover have "os_isOnline ctx" using assms(3) by (simp add: CanTransmit_def)
  ultimately show ?thesis using s err assms(4)
    by (intro exI[of _ ctx'] exI[of _ iin]) (simp add: c BeginResponseTx_simps GetResponseIIN_frame empty_response[OF start])
qed

theorem rejected_request_has_no_effect_witness:
  "\<exists>ctx' iin. Outstation_step sample_app 7 (Receive [0xC3, 0x19, 70, 3]) (sample\<lparr>os_isOnline := True\<rparr>) = Some ctx'
    \<and> IIN_HasRequestError iin \<and> os_calls ctx' = [BeginTransmit [0xC3, 0x81, LSB iin, MSB iin]]"
proof -
  let ?h = "\<lparr>ah_function = FC_OPEN_FILE, ah_control = AppControlField_Request 3\<rparr>" and ?ctx = "sample\<lparr>os_isOnline := True\<rparr>"
  have r: "request_for (answered_functions - {FC_READ}) [0xC3, 0x19, 70, 3] ?h"
    by (simp add: request_for_def answered_functions_def ParseRequest_def APDU_REQUEST_HEADER_SIZE_def AppControlField_of_byte_def
        AppControlField_Request_def AppControlField_make_def IsFirAndFin_def FunctionCodeFromType_def IsNoAckFuncCode_def)
  have "rejected (ah_function ?h) (drop 2 [0xC3, 0x19, 70, 3])" by (simp add: rejected_def supported_functions_def)
  from rejected_request_has_no_effect[OF r this, of ?ctx sample_app 7] sample_tx show ?thesis
    by (fastforce simp: CanTransmit_def sample_def OContext_make_def OutstationSolState_make_def RequestHistory_make_def
        AppControlField_Request_def AppControlField_make_def)
qed

section \<open>Repeated requests\<close>

text \<open>
  \<^bold>\<open>C11\<close>.  When a request that has to be answered, other than a read, arrives again, as it does when its response was lost, while
  nothing is being sent and no confirmation is awaited, the outstation sends the response it has sent, octet by octet, and
  does nothing else: a command is not executed twice.
\<close>

theorem repeated_request_is_not_executed:
  assumes "request_for (answered_functions - {FC_READ}) apdu header"
    and "RespondToNonReadRequest app now header (drop 2 apdu) ctx = Some (ctx1, st)"
    and "CanTransmit ctx2" "os_history ctx2 = os_history ctx1" "os_sol ctx2 = os_sol ctx1"
      "sol_pState (os_sol ctx2) = SolIdle" "sq_num (sol_seq (os_sol ctx2)) = SEQ (ah_control header)"
  shows "\<exists>calls response. os_calls ctx1 = calls @ [BeginTransmit response]
    \<and> Outstation_step app later (Receive apdu) ctx2 =
        Some (ctx2\<lparr>os_isTransmitting := True, os_calls := os_calls ctx2 @ [BeginTransmit response]\<rparr>)"
proof -
  note answered = RespondToNonReadRequest_history[OF assms(2)]
  let ?rsp = "GetLastResponse (sol_tx (os_sol ctx1))"
  let ?ctx = "ctx2\<lparr>os_isTransmitting := True, os_calls := os_calls ctx2 @ [BeginTransmit ?rsp]\<rparr>"
  have "OnReceiveSolRequest app later header (drop 2 apdu) ctx2 = Some (?ctx, SolIdle)"
    using assms answered
    by (simp add: OnReceiveSolRequest_def AppSeqNum_Equals_def request_for_def Sol_OnRepeatNonReadRequest_def RepeatResponseTx_def
        BeginTx_def) (simp add: RecordLastProcessedRequest_def)
  then have "ParseHeader app later apdu ctx2 = Some ?ctx"
    using assms by (auto simp: ParseHeader_def ProcessAPDU_def ProcessRequest_def request_for_def answered_functions_def CanTransmit_def
        APDU_REQUEST_HEADER_SIZE_def set_sol_same)
  then have "Outstation_step app later (Receive apdu) ctx2 = Some ?ctx"
    using assms(3) by (simp add: Outstation_step_def OContext_OnReceive_def CanTransmit_def CheckForTaskStart_busy)
  then show ?thesis using answered(2) by blast
qed

theorem repeated_request_is_not_executed_witness:
  "\<exists>ctx1 ctx2 response. RespondToNonReadRequest sample_app 0 \<lparr>ah_function = FC_OPEN_FILE, ah_control = AppControlField_Request 0\<rparr> [70, 3]
      (sample\<lparr>os_isOnline := True\<rparr>) = Some (ctx1, SolIdle)
    \<and> Outstation_step sample_app 5 (Receive [0xC0, 0x19, 70, 3]) (ctx1\<lparr>os_isTransmitting := False\<rparr>) = Some ctx2
    \<and> os_calls ctx2 = os_calls ctx1 @ [BeginTransmit response]"
proof -
  let ?h = "\<lparr>ah_function = FC_OPEN_FILE, ah_control = AppControlField_Request 0\<rparr>" and ?ctx = "sample\<lparr>os_isOnline := True\<rparr>"
  have "rejected (ah_function ?h) [70, 3]" by (simp add: rejected_def supported_functions_def)
  then obtain ctx1 where r: "RespondToNonReadRequest sample_app 0 ?h [70, 3] ?ctx = Some (ctx1, SolIdle)"
    using rejected_answer[of ?h "[70, 3]" ?ctx sample_app 0] sample_tx by auto
  note facts = RespondToNonReadRequest_history[OF r]
  have "request_for (answered_functions - {FC_READ}) [0xC0, 0x19, 70, 3] ?h"
    by (simp add: request_for_def answered_functions_def ParseRequest_def APDU_REQUEST_HEADER_SIZE_def AppControlField_of_byte_def
        AppControlField_Request_def AppControlField_make_def IsFirAndFin_def FunctionCodeFromType_def IsNoAckFuncCode_def)
  from repeated_request_is_not_executed[OF this, of sample_app 0 ?ctx ctx1 SolIdle "ctx1\<lparr>os_isTransmitting := False\<rparr>" 5] r facts
  have "\<exists>calls response. os_calls ctx1 = calls @ [BeginTransmit response]
    \<and> Outstation_step sample_app 5 (Receive [0xC0, 0x19, 70, 3]) (ctx1\<lparr>os_isTransmitting := False\<rparr>) =
        Some (ctx1\<lparr>os_isTransmitting := True, os_calls := os_calls ctx1 @ [BeginTransmit response]\<rparr>)"
    by (simp add: CanTransmit_def sample_def OContext_make_def OutstationSolState_make_def OutstationSeqNum_make_def
        AppControlField_Request_def AppControlField_make_def)
  with r show ?thesis by auto
qed

section \<open>Requests that are lost\<close>

text \<open>
  \<^bold>\<open>C21\<close>.  On an outstation that does not send unsolicited responses, a request with a new sequence number that arrives while a
  solicited response that asks for a confirmation is being sent is deferred, and lost: when the response has been sent, the
  deferred request is taken up in the state that waits for the confirmation, which defers it again, and is then marked as
  done.  The wait for the confirmation is over as well, and nothing is sent.
\<close>

theorem deferred_request_is_lost:
  assumes "request_for answered_functions apdu header"
    and "os_isOnline ctx" "os_isTransmitting ctx" "sol_pState (os_sol ctx) = SolConfirmWait"
    and "un_pState (os_unsol ctx) = UnsolIdle" "\<not> prm_allowUnsolicited (os_params ctx)"
    and "sq_num (sol_seq (os_sol ctx)) \<noteq> SEQ (ah_control header)"
  shows "\<exists>ctx1 ctx2. Outstation_step app now (Receive apdu) ctx = Some ctx1 \<and> df_isSet (os_deferred ctx1)
    \<and> Outstation_step app later (SendResult ok) ctx1 = Some ctx2
    \<and> \<not> df_isSet (os_deferred ctx2) \<and> sol_pState (os_sol ctx2) = SolIdle \<and> os_confirmTimer ctx2 = None
    \<and> os_calls ctx2 = os_calls ctx \<and> (\<forall>t. Outstation_step app t StartTasks ctx2 = Some ctx2)"
proof -
  let ?ctx1 = "Defer header (drop 2 apdu) ctx"
  have d: "Outstation_step app now (Receive apdu) ctx = Some ?ctx1"
    using assms by (auto simp: Outstation_step_def OContext_OnReceive_def ParseHeader_def request_for_def answered_functions_def
        ProcessAPDU_def APDU_REQUEST_HEADER_SIZE_def CheckForTaskStart_busy Defer_def)
  let ?req = "?ctx1\<lparr>os_isTransmitting := False\<rparr>"
  let ?objs = "df_objects (os_deferred ?ctx1)"
  let ?sol = "os_sol ?req"
  let ?new = "?req\<lparr>os_sol := ?sol\<lparr>sol_seq := (sol_seq ?sol)\<lparr>sq_num := SEQ (ah_control header)\<rparr>\<rparr>\<rparr>"
  have "ProcessNewRequest app later header ?objs ?req = Some (ConfirmTimer_Cancel (Defer header ?objs ?new), SolIdle)"
    using assms(4) by (simp add: ProcessNewRequest_def Let_def Sol_OnNewReadRequest_def Sol_OnNewNonReadRequest_def Defer_def)
  then have "ProcessRequest app later header ?objs ?req = Some (set_sol (ConfirmTimer_Cancel (Defer header ?objs ?new), SolIdle))"
    using assms(1, 7) by (simp add: ProcessRequest_def request_for_def OnReceiveSolRequest_def AppSeqNum_Equals_def Defer_def)
  then have p: "ProcessDeferredRequest app later header ?objs ?req = Some (set_sol (ConfirmTimer_Cancel (Defer header ?objs ?new), SolIdle), True)"
    using assms(1, 5) by (simp add: ProcessDeferredRequest_def request_for_def answered_functions_def OutstationUnsolState_IsIdle_def Defer_def)
  define ctx2 where "ctx2 = (set_sol (ConfirmTimer_Cancel (Defer header ?objs ?new), SolIdle))
    \<lparr>os_deferred := (os_deferred (set_sol (ConfirmTimer_Cancel (Defer header ?objs ?new), SolIdle)))\<lparr>df_isSet := False\<rparr>\<rparr>"
  have facts: "\<not> df_isSet (os_deferred ctx2)" "sol_pState (os_sol ctx2) = SolIdle" "os_confirmTimer ctx2 = None" "os_calls ctx2 = os_calls ctx"
    "\<not> prm_allowUnsolicited (os_params ctx2)"
    using assms(6) by (simp_all add: ctx2_def set_sol_def ConfirmTimer_Cancel_def TimerRef_Cancel_def Defer_def split: option.split)
  have set: "df_isSet (os_deferred ?ctx1)" "df_header (os_deferred ?ctx1) = header" by (simp_all add: Defer_def DeferredRequest_Set_def)
  have idle: "CheckForTaskStart app t ctx2 = Some ctx2" for t
    using facts by (simp add: CheckForTaskStart_def CheckForDeferredRequest_def CheckForUnsolicited_def)
  have "CheckForDeferredRequest app later ?req = Some ctx2"
    using p set assms(2) by (simp add: CheckForDeferredRequest_def CanTransmit_def ctx2_def Defer_def)
  then have "Outstation_step app later (SendResult ok) ?ctx1 = Some ctx2"
    using assms(2, 3) facts(5)
    by (simp add: Outstation_step_def OContext_OnSendResult_def CheckForTaskStart_def CheckForUnsolicited_def Defer_def)
  then show ?thesis using d facts set(1) idle by (auto simp: Outstation_step_def)
qed


theorem deferred_request_is_lost_witness:
  "\<exists>ctx ctx1 ctx2. sol_pState (os_sol ctx) = SolConfirmWait \<and> Outstation_step sample_app 5 (Receive [0xC1, 0x17]) ctx = Some ctx1
    \<and> df_isSet (os_deferred ctx1) \<and> Outstation_step sample_app 6 (SendResult True) ctx1 = Some ctx2
    \<and> \<not> df_isSet (os_deferred ctx2) \<and> os_calls ctx2 = os_calls ctx"
proof -
  define ctx where "ctx = sample\<lparr>os_isOnline := True, os_isTransmitting := True, os_params := sample_params\<lparr>prm_allowUnsolicited := False\<rparr>,
    os_sol := (os_sol sample)\<lparr>sol_pState := SolConfirmWait\<rparr>\<rparr>"
  have ctx: "os_isOnline ctx" "os_isTransmitting ctx" "sol_pState (os_sol ctx) = SolConfirmWait" "un_pState (os_unsol ctx) = UnsolIdle"
    "\<not> prm_allowUnsolicited (os_params ctx)" "sq_num (sol_seq (os_sol ctx)) = 0"
    by (simp_all add: ctx_def sample_def OContext_make_def OutstationSolState_make_def OutstationSeqNum_make_def OutstationUnsolState_make_def)
  let ?h = "\<lparr>ah_function = FC_DELAY_MEASURE, ah_control = AppControlField_Request 1\<rparr>"
  have seq: "SEQ (ah_control ?h) = 1" by (simp add: AppControlField_Request_def AppControlField_make_def)
  have "request_for answered_functions [0xC1, 0x17] ?h"
    by (simp add: request_for_def answered_functions_def ParseRequest_def APDU_REQUEST_HEADER_SIZE_def AppControlField_of_byte_def
        AppControlField_Request_def AppControlField_make_def IsFirAndFin_def FunctionCodeFromType_def IsNoAckFuncCode_def)
  from deferred_request_is_lost[OF this ctx(1-5), of sample_app 5 6 True] seq ctx(3,6) show ?thesis by auto
qed

end
