(* ===== verification/EventReport.thy ===== *)
theory EventReport
  imports EventWriter MeasurementHandler
begin

text \<open>
  From the event buffer's fragment to the master's application: every object the event writer uses has a descriptor in the
  parser, the bytes of a chunk of events parse to one header with exactly these values, and the measurement handler passes
  them on, with the common times of occurrence added again.
\<close>

section \<open>The objects of events are known to the parser\<close>

definition event_descriptor :: "EventType \<Rightarrow> Measurement ObjectCodec \<Rightarrow> GroupVariation \<times> Descriptor" where
  "event_descriptor t c = (if t = ET_SecurityStat then struct_descriptor c else descriptor (T_Measurement t) It_Measurement c)"

definition measured_events :: "(EventType \<times> Measurement ObjectCodec) list" where
  "measured_events =
       [(ET_Binary, Group2Var1), (ET_Binary, Group2Var2), (ET_Binary, Group2Var3),
        (ET_DoubleBitBinary, Group4Var1), (ET_DoubleBitBinary, Group4Var2), (ET_DoubleBitBinary, Group4Var3),
        (ET_BinaryOutputStatus, Group11Var1), (ET_BinaryOutputStatus, Group11Var2),
        (ET_Counter, Group22Var1), (ET_Counter, Group22Var2), (ET_Counter, Group22Var5), (ET_Counter, Group22Var6),
        (ET_FrozenCounter, Group23Var1), (ET_FrozenCounter, Group23Var2), (ET_FrozenCounter, Group23Var5),
        (ET_FrozenCounter, Group23Var6),
        (ET_Analog, Group32Var1), (ET_Analog, Group32Var2), (ET_Analog, Group32Var3), (ET_Analog, Group32Var4),
        (ET_Analog, Group32Var5), (ET_Analog, Group32Var6), (ET_Analog, Group32Var7), (ET_Analog, Group32Var8),
        (ET_AnalogOutputStatus, Group42Var1), (ET_AnalogOutputStatus, Group42Var2), (ET_AnalogOutputStatus, Group42Var3),
        (ET_AnalogOutputStatus, Group42Var4), (ET_AnalogOutputStatus, Group42Var5), (ET_AnalogOutputStatus, Group42Var6),
        (ET_AnalogOutputStatus, Group42Var7), (ET_AnalogOutputStatus, Group42Var8)]"

definition event_objects :: "(EventType \<times> Measurement ObjectCodec) list" where
  "event_objects = measured_events @ [(ET_SecurityStat, Group122Var1), (ET_SecurityStat, Group122Var2)]"

lemma event_objects_member: "list_all (\<lambda>e. e \<in> set event_objects) event_objects"
  by (simp add: list_all_iff)

lemmas event_objects_members = event_objects_member[unfolded event_objects_def measured_events_def list.pred_inject append.simps,
    folded measured_events_def]

lemma serializer_in_event_objects: "(t, fst (LoadHeader_serializer t v)) \<in> set event_objects"
  unfolding event_objects_def measured_events_def
  by (cases t; simp only: LoadHeader_serializer.simps LoadHeaderBinary_def LoadHeaderDoubleBinary_def LoadHeaderCounter_def
      LoadHeaderFrozenCounter_def LoadHeaderAnalog_def LoadHeaderBinaryOutputStatus_def LoadHeaderAnalogOutputStatus_def
      LoadHeaderSecurityStat_def if_distrib[of fst] fst_conv if_True if_False simp_thms append.simps list.set insert_iff prod.inject
      EventType.distinct split: if_split)

lemma prefix_keys_distinct: "distinct (map fst prefix_descriptors)"
  by (simp add: prefix_descriptors_def descriptor_def struct_descriptor_def GetGroupVar_def object_defs Group12Var1_def Group13Var1_def
      Group13Var2_def Group41Var1_def Group41Var2_def Group41Var3_def Group41Var4_def Group43Var1_def Group43Var2_def Group43Var3_def
      Group43Var4_def Group43Var5_def Group43Var6_def Group43Var7_def Group43Var8_def Group50Var4_def)

lemma measured_descriptor:
  assumes "(t, c) \<in> set measured_events"
  shows "descriptor (T_Measurement t) It_Measurement c \<in> set prefix_descriptors"
  using imageI[OF assms, of "\<lambda>(t, c). descriptor (T_Measurement t) It_Measurement c"]
  unfolding prefix_descriptors_def set_append set_map measured_events_def prod.case by (rule UnI1)

lemma security_descriptor: "struct_descriptor Group122Var1 \<in> set prefix_descriptors" "struct_descriptor Group122Var2 \<in> set prefix_descriptors"
  by (simp_all only: prefix_descriptors_def set_append Un_iff list.set insert_iff simp_thms)

lemma measured_not_security: "(t, c) \<in> set measured_events \<Longrightarrow> t \<noteq> ET_SecurityStat"
proof -
  have "list_all (\<lambda>(t, c). t \<noteq> ET_SecurityStat) measured_events" by (simp add: measured_events_def)
  then show "(t, c) \<in> set measured_events \<Longrightarrow> t \<noteq> ET_SecurityStat" by (auto simp: list_all_iff)
qed

lemma event_descriptors: "(t, c) \<in> set event_objects \<Longrightarrow> event_descriptor t c \<in> set prefix_descriptors"
  by (auto simp: event_objects_def event_descriptor_def security_descriptor measured_descriptor dest: measured_not_security)

definition known_event :: "Measurement ObjectCodec \<Rightarrow> bool" where
  "known_event c \<longleftrightarrow> gvr_enumeration (GetRecord (fst (oc_id c)) (snd (oc_id c))) = GetGroupVar (fst (oc_id c)) (snd (oc_id c))
     \<and> GetGroupVar (fst (oc_id c)) (snd (oc_id c)) \<notin> {GroupVariation_UNKNOWN, GroupVar 111 0}"

lemma known_eventI:
  assumes "oc_id c = (g, v)" "map_of known_variations (unat g) = Some vs" "unat v \<in> set vs"
    and "GetGroupVar g v = GroupVar (unat g) (unat v)" "GroupVar (unat g) (unat v) \<notin> {GroupVariation_UNKNOWN, GroupVar 111 0}"
  shows "known_event c"
proof -
  have "(unat g, vs) \<in> set known_variations" using assms(2) by (rule map_of_SomeD)
  then have "GroupVariationFromType (GetGroupVar g v) = GetGroupVar g v"
    using assms(3,4) by (auto simp: GroupVariationFromType_def)
  then show ?thesis using assms(1,4,5) by (simp add: known_event_def GetRecord_def GetEnumAndType_def)
qed

lemma known_events: "list_all (\<lambda>(t, c). known_event c) event_objects"
  unfolding event_objects_def measured_events_def append.simps list.pred_inject prod.case
  by (intro conjI TrueI known_eventI; (simp only: object_defs ObjectCodec.simps)?, (rule refl)?;
      (simp add: known_variations_def GetGroupVar_def GroupVar_def GroupVariation_UNKNOWN_def)?) simp_all

section \<open>One header parsed\<close>

definition allows :: "WhiteList option \<Rightarrow> bool" where
  "allows w \<longleftrightarrow> w = None \<or> w = Some (\<lambda>_ _ _. True)"

lemma ParseHeader_start:
  assumes "allows w" "gvr_enumeration (GetRecord g v) \<noteq> GroupVariation_UNKNOWN"
  shows "APDUParser_ParseHeader w settings cnt ([g, v, q] @ rest) = ParseQualifier settings (HeaderRecord_make (GetRecord g v) q cnt) rest"
  using assms by (auto simp: APDUParser_ParseHeader_def ParseObjectHeader_def allows_def Let_def)

definition event_value :: "EventType \<Rightarrow> Measurement ObjectCodec \<Rightarrow> Field list \<Rightarrow> Item" where
  "event_value t c fs = (if t = ET_SecurityStat then It_Struct fs else It_Measurement (oc_factory c fs))"

lemma event_descriptor_read:
  assumes "map field_type fs = oc_fields c" "\<forall>f\<in>set fs. field_ok f"
  shows "d_read (snd (event_descriptor t c)) (fields_bytes fs @ rest) = Some (event_value t c fs, rest)"
  using Parse_Many_fields[OF assms(2), of rest] assms(1)
  by (simp add: event_descriptor_def descriptor_def struct_descriptor_def event_value_def ReadTarget_def)

lemma event_descriptor_size: "d_size (snd (event_descriptor t c)) = oc_size c"
  by (simp add: event_descriptor_def descriptor_def struct_descriptor_def)

text \<open>An object behind its index, as the writer leaves it.\<close>

definition item_ok :: "Measurement ObjectCodec \<Rightarrow> item \<Rightarrow> bool" where
  "item_ok c it \<longleftrightarrow> fst it < 65536 \<and> map field_type (snd it) = oc_fields c \<and> (\<forall>f\<in>set (snd it). field_ok f)"

lemma index16_bytes: "index_bytes Index16 n = Bit16LE_Write (of_nat n)"
  by simp

lemma ReadNum_index: "NumParser_Read Index16 (index_bytes Index16 n @ rest) = Some (of_nat n, rest)"
  by (simp add: NumParser_Read_def index16_bytes Bit16LE_roundtrip)

lemma items_collection:
  assumes "\<forall>it\<in>set items. item_ok c it"
  shows "BufferedCollection_Foreach (with_prefix_index Index16 (d_read (snd (event_descriptor t c)))) pos (length items)
      (concat (map item_bytes items) @ rest)
    = Some (map (\<lambda>it. (event_value t c (snd it), of_nat (fst it))) items)"
  using assms
proof (induction items arbitrary: pos)
  case (Cons it items)
  have read: "d_read (snd (event_descriptor t c)) (fields_bytes (snd it) @ concat (map item_bytes items) @ rest)
    = Some (event_value t c (snd it), concat (map item_bytes items) @ rest)"
    by (rule event_descriptor_read) (use Cons.prems in \<open>auto simp: item_ok_def\<close>)
  have "with_prefix_index Index16 (d_read (snd (event_descriptor t c))) pos (concat (map item_bytes (it # items)) @ rest)
    = Some ((event_value t c (snd it), of_nat (fst it)), concat (map item_bytes items) @ rest)"
    using read ReadNum_index[of "fst it" "fields_bytes (snd it) @ concat (map item_bytes items) @ rest"]
    by (simp only: with_prefix_index_def item_bytes_def list.map concat.simps append_assoc option.case prod.case option.map map_prod_simp id_apply)
  with Cons show ?case by simp
qed simp

lemma length_items: "\<forall>it\<in>set items. item_ok c it \<Longrightarrow> fields_size (oc_fields c) = oc_size c \<Longrightarrow>
    length (concat (map item_bytes items)) = length items * (oc_size c + 2)"
proof (induction items)
  case (Cons it items)
  have "length (fields_bytes (snd it)) = oc_size c" using Cons.prems by (simp add: item_ok_def)
  with Cons show ?case by (simp add: item_bytes_def del: length_fields_bytes)
qed simp

lemma event_object_ok:
  assumes "(t, c) \<in> set event_objects"
  shows "known_event c" "map_of prefix_descriptors (GetGroupVar (fst (oc_id c)) (snd (oc_id c))) = Some (snd (event_descriptor t c))"
proof -
  show "known_event c" using known_events assms by (auto simp: list_all_iff)
  have "(fst (event_descriptor t c), snd (event_descriptor t c)) \<in> set prefix_descriptors"
    using event_descriptors[OF assms] by simp
  then have "map_of prefix_descriptors (fst (event_descriptor t c)) = Some (snd (event_descriptor t c))"
    by (rule map_of_is_SomeI[OF prefix_keys_distinct])
  then show "map_of prefix_descriptors (GetGroupVar (fst (oc_id c)) (snd (oc_id c))) = Some (snd (event_descriptor t c))"
    by (simp add: event_descriptor_def descriptor_def struct_descriptor_def split: if_splits)
qed

definition event_header :: "Measurement ObjectCodec \<Rightarrow> uint32 \<Rightarrow> HeaderRecord" where
  "event_header c cnt = HeaderRecord_make (GetRecord (fst (oc_id c)) (snd (oc_id c))) (QualifierCodeToType UINT16_CNT_UINT16_INDEX) cnt"

lemma event_header_enumeration:
  assumes "(t, c) \<in> set event_objects"
  shows "gvr_enumeration (event_header c cnt) = GetGroupVar (fst (oc_id c)) (snd (oc_id c))"
    "GetQualifierCode (event_header c cnt) = UINT16_CNT_UINT16_INDEX"
  using event_object_ok(1)[OF assms]
  by (simp_all add: event_header_def HeaderRecord_make_def known_event_def GetQualifierCode_def QualifierCodeFromType_def)

lemma parse_prefixed:
  assumes "(t, c) \<in> set event_objects" "allows w" "items \<noteq> []" "length items < 65536" "\<forall>it\<in>set items. item_ok c it"
    and "fields_size (oc_fields c) = oc_size c"
  shows "APDUParser_ParseHeader w ParserSettings_Default cnt (prefixed_bytes c items @ rest)
    = (PR_OK, rest, [OnPrefixOf (event_header c cnt) (of_nat (length items)) (d_target (snd (event_descriptor t c)))
        (Some (map (\<lambda>it. (event_value t c (snd it), of_nat (fst it))) items))])"
proof -
  let ?hr = "event_header c cnt" and ?objs = "concat (map item_bytes items) @ rest"
  note hr = event_header_enumeration[OF assms(1), of cnt]
  have known: "gvr_enumeration (GetRecord (fst (oc_id c)) (snd (oc_id c))) \<noteq> GroupVariation_UNKNOWN"
    "gvr_enumeration ?hr \<noteq> GroupVar 111 0"
    using event_object_ok(1)[OF assms(1)] hr(1) by (auto simp: known_event_def)
  have cnt: "unat (of_nat (length items) :: uint16) = length items" using assms(4) by (simp add: unat_of_nat)
  then have nonzero: "(of_nat (length items) :: uint16) \<noteq> 0" using assms(3) by auto
  have "APDUParser_ParseHeader w ParserSettings_Default cnt (prefixed_bytes c items @ rest)
    = ParseQualifier ParserSettings_Default ?hr (index_bytes Index16 (length items) @ ?objs)"
    using ParseHeader_start[OF assms(2) known(1), of ParserSettings_Default cnt "QualifierCodeToType UINT16_CNT_UINT16_INDEX"
        "index_bytes Index16 (length items) @ ?objs"]
    unfolding prefixed_bytes_def header_start_def event_header_def by simp
  also have "\<dots> = CountIndexParser_ParseCountOfObjects ?hr Index16 (of_nat (length items)) ?objs"
    using nonzero ReadNum_index[of "length items" ?objs]
    by (simp add: ParseQualifier_def hr(2) CountIndexParser_ParseHeader_def ParseCount_def del: index_bytes.simps)
  also have "\<dots> = CountIndexParser_Process ?hr (of_nat (length items)) Index16 (snd (event_descriptor t c)) ?objs"
    using known(2) hr(1) event_object_ok(2)[OF assms(1)] by (simp add: CountIndexParser_ParseCountOfObjects_def)
  also have "\<dots> = (PR_OK, rest, [OnPrefixOf ?hr (of_nat (length items)) (d_target (snd (event_descriptor t c)))
        (Some (map (\<lambda>it. (event_value t c (snd it), of_nat (fst it))) items))])"
    using items_collection[OF assms(5), of t 0 rest] length_items[OF assms(5,6)]
    by (simp add: CountIndexParser_Process_def Let_def cnt event_descriptor_size CreateBufferedCollection_def)
  finally show ?thesis .
qed

definition cto_header :: "uint32 \<Rightarrow> HeaderRecord" where
  "cto_header cnt = HeaderRecord_make (GetRecord 51 1) (QualifierCodeToType UINT8_CNT) cnt"

lemma cto_record: "GetRecord 51 1 = \<lparr>gvr_enumeration = GroupVar 51 1, gvr_type = GVT_OTHER, gvr_group = 51, gvr_variation = 1\<rparr>"
  by (simp add: GetRecord_def GetEnumAndType_def GroupVariationRecord_GetType_def GroupVariationFromType_def GetGroupVar_def
      known_variations_def GroupVar_def GroupVariation_UNKNOWN_def)

lemma parse_cto:
  assumes "allows w" "time \<le> UInt48_MAX"
  shows "APDUParser_ParseHeader w ParserSettings_Default cnt (cto_bytes time @ rest)
    = (PR_OK, rest, [OnCountOf (cto_header cnt) 1 (T_Struct (GroupVar 51 1)) (Some [It_Struct [FU48 time]])])"
proof -
  have known: "gvr_enumeration (GetRecord 51 1) \<noteq> GroupVariation_UNKNOWN"
    by (simp add: cto_record GroupVar_def GroupVariation_UNKNOWN_def)
  have qc: "GetQualifierCode (cto_header cnt) = UINT8_CNT" "gvr_enumeration (cto_header cnt) = 0x3301"
    by (simp_all add: cto_header_def HeaderRecord_make_def GetQualifierCode_def QualifierCodeFromType_def cto_record GroupVar_def)
  have read: "Parse_Many [U48] (UInt48LE_Write time @ rest) = Some ([FU48 time], rest)"
    using Parse_Many_fields[of "[FU48 time]" rest] assms(2) by simp
  have d: "map_of count_descriptors 0x3301 = Some (snd (struct_descriptor Group51Var1))"
    by (simp add: count_descriptors_def struct_descriptor_def Group50Var1_def Group51Var1_def GetGroupVar_def)
  have "APDUParser_ParseHeader w ParserSettings_Default cnt (cto_bytes time @ rest)
    = ParseQualifier ParserSettings_Default (cto_header cnt) (1 # UInt48LE_Write time @ rest)"
    using ParseHeader_start[OF assms(1) known, of ParserSettings_Default cnt 7 "1 # UInt48LE_Write time @ rest"]
    by (simp add: cto_bytes_def cto_header_def)
  also have "\<dots> = CountParser_Process (cto_header cnt) 1 (snd (struct_descriptor Group51Var1)) (UInt48LE_Write time @ rest)"
    by (simp add: ParseQualifier_def qc CountParser_ParseHeader_def ParseCount_def NumParser_Read_def ParserSettings_Default_def
        CountParser_ParseCountOfObjects_def d)
  also have "\<dots> = (PR_OK, rest, [OnCountOf (cto_header cnt) 1 (T_Struct (GroupVar 51 1)) (Some [It_Struct [FU48 time]])])"
    using read by (simp add: CountParser_Process_def struct_descriptor_def Group51Var1_def CreateBufferedCollection_def GetGroupVar_def GroupVar_def)
  finally show ?thesis .
qed

section \<open>The headers of a report parsed\<close>

text \<open>An event whose report can be written and whose time is a \<^verbatim>\<open>UInt48\<close>.\<close>

definition reportable :: "SOERecord \<Rightarrow> bool" where
  "reportable r \<longleftrightarrow> record_ok r \<and> expressible r \<and> soe_time r \<le> UInt48_MAX"

lemma codec_event_object: "(soe_type r, codec r) \<in> set event_objects"
  unfolding codec_def by (rule serializer_in_event_objects)

lemma codec_sizes: "fields_size (oc_fields (codec r)) = oc_size (codec r)"
  using objects_ok[of "soe_type r" "codec r"] serializer_in_objects unfolding codec_def object_ok_def by blast

lemma base_time_le: "same_header h r \<Longrightarrow> base_time h \<le> soe_time r"
  by (simp add: base_time_def same_header_def)

lemma event_item_ok:
  assumes "reportable r" "same_header h r"
  shows "item_ok (codec h) (event_item (base_time h) r)"
proof -
  let ?m = "(ReadEvent_measurement r)\<lparr>m_time := soe_time r - base_time h\<rparr>"
  have ok: "object_ok (soe_type r) (codec r)" unfolding codec_def by (rule objects_ok) (rule serializer_in_objects)
  have r: "record_ok r" "expressible r" "soe_time r \<le> UInt48_MAX" using assms(1) by (simp_all add: reportable_def)
  have fits: "value_fits (soe_type r) (m_value ?m)" using r(1) by (simp add: record_ok_def)
  have fs: "oc_convert (codec r) ?m = Some (snd (event_item (base_time h) r))" by (rule event_converted(1)[OF r(1,2)])
  have "m_time ?m \<le> UInt48_MAX"
    using base_time_le[OF assms(2)] r(3) by (simp add: word_le_nat_alt unat_sub)
  with ok fits fs have "map field_type (snd (event_item (base_time h) r)) = oc_fields (codec r)"
    "\<forall>f\<in>set (snd (event_item (base_time h) r)). field_ok f"
    unfolding object_ok_def by blast+
  then show ?thesis using same_header_codec[OF assms(2)] unat_uint16_less[of "soe_index r"]
    by (simp add: item_ok_def) (simp add: event_item_def)
qed

definition chunk_headers :: "SOERecord list \<Rightarrow> uint32" where
  "chunk_headers rs = (if has_cto (hd rs) then 2 else 1)"

definition event_call :: "uint32 \<Rightarrow> SOERecord list \<Rightarrow> HandlerCall" where
  "event_call cnt rs = (let h = hd rs in
     OnPrefixOf (event_header (codec h) cnt) (of_nat (length rs)) (d_target (snd (event_descriptor (soe_type h) (codec h))))
       (Some (map (\<lambda>r. (event_value (soe_type h) (codec h) (snd (event_item (base_time h) r)), soe_index r)) rs)))"

definition cto_call :: "uint32 \<Rightarrow> SOERecord list \<Rightarrow> HandlerCall" where
  "cto_call cnt rs = OnCountOf (cto_header cnt) 1 (T_Struct (GroupVar 51 1)) (Some [It_Struct [FU48 (soe_time (hd rs))]])"

definition chunk_calls :: "uint32 \<Rightarrow> SOERecord list \<Rightarrow> HandlerCall list" where
  "chunk_calls cnt rs = (if has_cto (hd rs) then [cto_call cnt rs, event_call (cnt + 1) rs] else [event_call cnt rs])"

fun report_calls :: "uint32 \<Rightarrow> SOERecord list list \<Rightarrow> HandlerCall list" where
  "report_calls cnt [] = []"
| "report_calls cnt (rs # rss) = chunk_calls cnt rs @ report_calls (cnt + chunk_headers rs) rss"

definition chunk_fits :: "SOERecord list \<Rightarrow> bool" where
  "chunk_fits rs \<longleftrightarrow> chunk_ok rs \<and> length rs < 65536 \<and> (\<forall>r\<in>set rs. reportable r)"

lemma SinglePass_step:
  assumes "APDUParser_ParseHeader w settings cnt (bs @ rest) = (PR_OK, rest, [c])" "bs \<noteq> []"
  shows "ParseSinglePass w settings cnt (bs @ rest) = (case ParseSinglePass w settings (cnt + 1) rest of (r, cs) \<Rightarrow> (r, c # cs))"
  using assms by (subst ParseSinglePass.simps) simp

lemma prefixed_bytes_nonempty: "prefixed_bytes c items \<noteq> []"
  by (simp add: prefixed_bytes_def header_start_def)

lemma parse_events:
  assumes "allows w" "chunk_fits rs"
  shows "APDUParser_ParseHeader w ParserSettings_Default cnt (prefixed_bytes (codec (hd rs)) (map (event_item (base_time (hd rs))) rs) @ rest)
    = (PR_OK, rest, [event_call cnt rs])"
proof -
  let ?h = "hd rs"
  have rs: "rs \<noteq> []" "length rs < 65536" "\<forall>r\<in>set rs. same_header ?h r" "\<forall>r\<in>set rs. reportable r"
    using assms(2) by (simp_all add: chunk_fits_def chunk_ok_def)
  have items: "\<forall>it\<in>set (map (event_item (base_time ?h)) rs). item_ok (codec ?h) it"
    using rs(3,4) event_item_ok by simp
  have "map (\<lambda>it. (event_value (soe_type ?h) (codec ?h) (snd it), of_nat (fst it))) (map (event_item (base_time ?h)) rs)
    = map (\<lambda>r. (event_value (soe_type ?h) (codec ?h) (snd (event_item (base_time ?h) r)), soe_index r)) rs"
    by (simp add: event_item_def)
  with parse_prefixed[OF codec_event_object assms(1) _ _ items codec_sizes, of cnt rest] rs(1,2)
  show ?thesis by (simp add: event_call_def Let_def)
qed

lemma parse_chunk:
  assumes "allows w" "chunk_fits rs"
  shows "ParseSinglePass w ParserSettings_Default cnt (chunk_bytes rs @ rest)
    = (case ParseSinglePass w ParserSettings_Default (cnt + chunk_headers rs) rest of (r, cs) \<Rightarrow> (r, chunk_calls cnt rs @ cs))"
proof (cases "has_cto (hd rs)")
  case True
  have time: "soe_time (hd rs) \<le> UInt48_MAX" using assms(2) by (auto simp: chunk_fits_def chunk_ok_def reportable_def)
  note c = SinglePass_step[OF parse_cto[OF assms(1) time, folded cto_call_def]]
  note e = SinglePass_step[OF parse_events[OF assms] prefixed_bytes_nonempty]
  have "cto_bytes (soe_time (hd rs)) \<noteq> []" by (simp add: cto_bytes_def)
  then show ?thesis using True
    by (simp add: chunk_bytes_def Let_def c e chunk_calls_def chunk_headers_def cto_call_def add.assoc split: prod.split)
next
  case False
  note e = SinglePass_step[OF parse_events[OF assms] prefixed_bytes_nonempty]
  with False show ?thesis by (simp add: chunk_bytes_def Let_def chunk_calls_def chunk_headers_def split: prod.split)
qed

lemma parse_report:
  assumes "allows w" "\<forall>rs\<in>set chunks. chunk_fits rs"
  shows "ParseSinglePass w ParserSettings_Default cnt (concat (map chunk_bytes chunks)) = (PR_OK, report_calls cnt chunks)"
  using assms(2)
proof (induction chunks arbitrary: cnt)
  case Nil
  show ?case by (simp add: ParseSinglePass.simps[of _ _ _ "[]"])
next
  case (Cons rs chunks)
  then show ?case using parse_chunk[OF assms(1), of rs cnt "concat (map chunk_bytes chunks)"] by simp
qed

lemma Parse_report:
  assumes "\<forall>rs\<in>set chunks. chunk_fits rs"
  shows "APDUParser_Parse (\<lambda>_ _ _. True) ParserSettings_Default (concat (map chunk_bytes chunks)) = (PR_OK, report_calls 0 chunks)"
  using parse_report[OF _ assms] by (simp add: APDUParser_Parse_def allows_def)

section \<open>What the application gets\<close>

fun soe_values :: "SOECall \<Rightarrow> (Target \<times> IndexedItem) list" where
  "soe_values (SOE_Process info t (Some xs)) = map (Pair t) xs"
| "soe_values _ = []"

definition delivered_values :: "SOECall list \<Rightarrow> (Target \<times> IndexedItem) list" where
  "delivered_values cs = concat (map soe_values cs)"

lemma delivered_append [simp]: "delivered_values (as @ bs) = delivered_values as @ delivered_values bs"
  by (simp add: delivered_values_def)

text \<open>The measurement that arrives of an event: what its object carries of it; the relative times become absolute again.\<close>

definition arriving :: "SOERecord \<Rightarrow> Measurement" where
  "arriving r = (let m = oc_factory (codec r) (the (oc_convert (codec r) (ReadEvent_measurement r)))
     in if has_cto r then m\<lparr>m_time := soe_time r\<rparr> else m)"

definition delivered_event :: "SOERecord \<Rightarrow> Target \<times> IndexedItem" where
  "delivered_event r = (T_Measurement (soe_type r), (It_Measurement (arriving r), soe_index r))"

lemma has_cto_cases:
  assumes "has_cto r"
  shows "soe_type r = ET_Binary \<and> codec r = Group2Var3 \<or> soe_type r = ET_DoubleBitBinary \<and> codec r = Group4Var3"
  using assms by (cases "soe_type r") (auto simp: has_cto_def codec_def LoadHeaderBinary_def LoadHeaderDoubleBinary_def LoadHeaderCounter_def
      LoadHeaderFrozenCounter_def LoadHeaderAnalog_def LoadHeaderBinaryOutputStatus_def LoadHeaderAnalogOutputStatus_def
      LoadHeaderSecurityStat_def split: if_splits)

lemma not_cto_cases:
  assumes "\<not> has_cto r" "soe_type r = ET_Binary \<or> soe_type r = ET_DoubleBitBinary"
  shows "codec r \<in> {Group2Var1, Group2Var2, Group4Var1, Group4Var2}"
  using assms by (auto simp: has_cto_def codec_def LoadHeaderBinary_def LoadHeaderDoubleBinary_def split: if_splits)

lemma security_cases:
  assumes "soe_type r = ET_SecurityStat"
  shows "codec r = Group122Var1 \<or> codec r = Group122Var2"
  using assms by (auto simp: codec_def LoadHeaderSecurityStat_def split: if_splits)

lemma event_call_header:
  "gvr_enumeration (event_header (codec h) cnt) = GetGroupVar (fst (oc_id (codec h))) (snd (oc_id (codec h)))"
  by (rule event_header_enumeration(1)[OF codec_event_object])

definition event_items :: "SOERecord list \<Rightarrow> IndexedItem list" where
  "event_items rs = map (\<lambda>r. (event_value (soe_type (hd rs)) (codec (hd rs)) (snd (event_item (base_time (hd rs)) r)), soe_index r)) rs"

lemma delivered_LoadValues:
  "delivered_values (mh_soe (fst (LoadValues record1 mode t (Some xs) m))) = delivered_values (mh_soe m) @ map (Pair t) xs"
  "mh_ctoMode (fst (LoadValues record1 mode t values m)) = mh_ctoMode m"
  by (simp_all add: LoadValues_def CheckForTxStart_def Let_def delivered_values_def)

lemma LoadValues_step:
  assumes "P = Some (LoadValues record1 mode t (Some xs) m)" "map (Pair t) xs = ys"
  shows "\<exists>m' iin. P = Some (m', iin) \<and> delivered_values (mh_soe m') = delivered_values (mh_soe m) @ ys"
  using assms delivered_LoadValues(1)[of record1 mode t xs m] by (cases "LoadValues record1 mode t (Some xs) m") auto

lemma base_0: "\<not> has_cto h \<Longrightarrow> same_header h r \<Longrightarrow> snd (event_item (base_time h) r) = the (oc_convert (codec h) (ReadEvent_measurement r))"
  by (simp add: base_time_def event_item_def measurement_base_0[unfolded diff_zero] same_header_codec)

lemma same_header_cto: "same_header h r \<Longrightarrow> has_cto r = has_cto h"
  by (simp add: same_header_def has_cto_def)

lemma same_header_type: "same_header h r \<Longrightarrow> soe_type r = soe_type h"
  by (simp add: same_header_def)

lemma deliver_plain:
  assumes "\<not> has_cto (hd rs)" "\<forall>r\<in>set rs. same_header (hd rs) r"
  shows "\<exists>m' iin. MeasurementHandler_ProcessHeader (event_call cnt rs) h m = Some (m', iin)
    \<and> delivered_values (mh_soe m') = delivered_values (mh_soe m) @ map delivered_event rs"
proof (cases "soe_type (hd rs) = ET_SecurityStat")
  case True
  let ?xs = "map (map_prod Convert_SecurityStat_Item id) (event_items rs)"
  have c: "codec (hd rs) = Group122Var1 \<or> codec (hd rs) = Group122Var2" by (rule security_cases[OF True])
  then have "oc_factory (codec (hd rs)) = SecurityStatFactory" by (auto simp: Group122Var1_def Group122Var2_def)
  with True have "map (Pair (T_Measurement ET_SecurityStat)) ?xs = map delivered_event rs"
    using assms by (auto simp: event_items_def delivered_event_def event_value_def arriving_def Let_def base_0 same_header_codec same_header_cto
        same_header_type)
  moreover have "MeasurementHandler_ProcessHeader (event_call cnt rs) h m
    = Some (LoadValuesWithTransformToSecurityStat (event_header (codec (hd rs)) cnt) (Some (event_items rs)) m)"
    using c True by (auto simp: event_call_def Let_def event_items_def event_descriptor_def struct_descriptor_def GetGroupVar_def GroupVar_def
        Group122Var1_def Group122Var2_def)
  ultimately show ?thesis by (intro LoadValues_step) (simp_all add: LoadValuesWithTransformToSecurityStat_def del: map_map)
next
  case False
  have "map (Pair (T_Measurement (soe_type (hd rs)))) (event_items rs) = map delivered_event rs"
    using assms False by (auto simp: event_items_def delivered_event_def event_value_def arriving_def Let_def base_0 same_header_codec same_header_cto
        same_header_type)
  moreover have "MeasurementHandler_ProcessHeader (event_call cnt rs) h m
    = Some (LoadValues (event_header (codec (hd rs)) cnt) (ModeFromType (gvr_enumeration (event_header (codec (hd rs)) cnt)))
        (T_Measurement (soe_type (hd rs))) (Some (event_items rs)) m)"
  proof -
    have "\<not> (soe_type (hd rs) = ET_Binary \<and> gvr_enumeration (event_header (codec (hd rs)) cnt) = GroupVar 2 3
      \<or> soe_type (hd rs) = ET_DoubleBitBinary \<and> gvr_enumeration (event_header (codec (hd rs)) cnt) = GroupVar 4 3)"
      using not_cto_cases[OF assms(1)]
      by (auto simp: event_call_header GetGroupVar_def GroupVar_def Group2Var1_def Group2Var2_def Group4Var1_def Group4Var2_def)
    then show ?thesis using False
      by (cases "soe_type (hd rs)") (auto simp: event_call_def Let_def event_items_def event_descriptor_def descriptor_def)
  qed
  ultimately show ?thesis by (intro LoadValues_step) simp_all
qed

lemma relative_time:
  assumes "(h :: uint64) \<le> t" "t - h \<le> 65535"
  shows "ucast (ucast (t - h) :: uint16) + h = t"
proof -
  have "unat (t - h) < 65536" using assms(2) by (simp add: word_le_nat_alt)
  then have "ucast (ucast (t - h) :: uint16) = t - h"
    by (intro word_unat_eq_iff[THEN iffD2]) (simp add: unsigned_ucast_eq unsigned_take_bit_eq take_bit_nat_eq_self)
  then show ?thesis by simp
qed

lemma cto_value:
  assumes "has_cto h" "same_header h r"
  shows "add_time (soe_time h) (event_value (soe_type h) (codec h) (snd (event_item (base_time h) r))) = It_Measurement (arriving r)"
proof -
  have t: "ucast (ucast (soe_time r - soe_time h) :: uint16) + soe_time h = soe_time r"
    by (rule relative_time) (use assms in \<open>simp_all add: same_header_def\<close>)
  note r = same_header_codec[OF assms(2)] same_header_cto[OF assms(2)]
  from has_cto_cases[OF assms(1)] show ?thesis
    using assms(1) r t by (auto simp: arriving_def Let_def event_value_def event_item_def base_time_def Group2Var3_def Group4Var3_def
        ConvertQTDowncast_def Binary_of_flags_def DoubleBitBinary_of_flags_def)
qed

lemma deliver_cto:
  assumes "has_cto (hd rs)" "\<forall>r\<in>set rs. same_header (hd rs) r" "mh_ctoMode m \<noteq> TM_INVALID" "mh_commonTimeOccurence m = soe_time (hd rs)"
  shows "\<exists>m' iin. MeasurementHandler_ProcessHeader (event_call cnt rs) h m = Some (m', iin)
    \<and> delivered_values (mh_soe m') = delivered_values (mh_soe m) @ map delivered_event rs"
proof -
  let ?t = "soe_type (hd rs)"
  have type: "?t = ET_Binary \<and> gvr_enumeration (event_header (codec (hd rs)) cnt) = GroupVar 2 3
      \<or> ?t = ET_DoubleBitBinary \<and> gvr_enumeration (event_header (codec (hd rs)) cnt) = GroupVar 4 3"
    using has_cto_cases[OF assms(1)] by (auto simp: event_call_header Group2Var3_def Group4Var3_def GetGroupVar_def GroupVar_def)
  have "map (Pair (T_Measurement ?t)) (map (map_prod (add_time (mh_commonTimeOccurence m)) id) (event_items rs)) = map delivered_event rs"
    using assms by (auto simp: event_items_def delivered_event_def cto_value same_header_type)
  moreover have "MeasurementHandler_ProcessHeader (event_call cnt rs) h m
    = Some (ProcessWithCTO (event_header (codec (hd rs)) cnt) (T_Measurement ?t) (Some (event_items rs)) m)"
    using type by (auto simp: event_call_def Let_def event_items_def event_descriptor_def descriptor_def)
  ultimately show ?thesis using assms(3) by (intro LoadValues_step) (simp_all add: ProcessWithCTO_def del: map_map)
qed

lemma HandleAll_append: "HandleAll P (as @ bs) hs = HandleAll P bs (HandleAll P as hs)"
  by (simp add: HandleAll_def)

lemma deliver_chunk:
  assumes "chunk_ok rs"
  shows "\<exists>h' m'. HandleAll MeasurementHandler_ProcessHeader (chunk_calls cnt rs) (h, m) = (h', m')
    \<and> delivered_values (mh_soe m') = delivered_values (mh_soe m) @ map delivered_event rs"
proof (cases "has_cto (hd rs)")
  case True
  let ?m = "m\<lparr>mh_ctoMode := TM_SYNCHRONIZED, mh_commonTimeOccurence := soe_time (hd rs)\<rparr>"
  have cto: "MeasurementHandler_ProcessHeader (cto_call cnt rs) h m = Some (?m, IIN_Empty)"
    by (simp add: cto_call_def set_cto_def)
  obtain m' iin where "MeasurementHandler_ProcessHeader (event_call (cnt + 1) rs) (Record IIN_Empty h) ?m = Some (m', iin)"
    "delivered_values (mh_soe m') = delivered_values (mh_soe m) @ map delivered_event rs"
    using deliver_cto[of rs ?m "cnt + 1" "Record IIN_Empty h"] True assms by (auto simp: chunk_ok_def)
  with True cto show ?thesis by (simp add: chunk_calls_def HandleAll_def OnHeader_def)
next
  case False
  obtain m' iin where "MeasurementHandler_ProcessHeader (event_call cnt rs) h m = Some (m', iin)"
    "delivered_values (mh_soe m') = delivered_values (mh_soe m) @ map delivered_event rs"
    using deliver_plain[of rs cnt h m] False assms by (auto simp: chunk_ok_def)
  with False show ?thesis by (simp add: chunk_calls_def HandleAll_def OnHeader_def)
qed

lemma deliver_report:
  assumes "\<forall>rs\<in>set chunks. chunk_ok rs"
  shows "\<exists>h' m'. HandleAll MeasurementHandler_ProcessHeader (report_calls cnt chunks) (h, m) = (h', m')
    \<and> delivered_values (mh_soe m') = delivered_values (mh_soe m) @ map delivered_event (concat chunks)"
  using assms
proof (induction chunks arbitrary: cnt h m)
  case Nil
  then show ?case by (simp add: HandleAll_def)
next
  case (Cons rs chunks)
  obtain h1 m1 where 1: "HandleAll MeasurementHandler_ProcessHeader (chunk_calls cnt rs) (h, m) = (h1, m1)"
    "delivered_values (mh_soe m1) = delivered_values (mh_soe m) @ map delivered_event rs"
    using deliver_chunk[of rs cnt h m] Cons.prems by auto
  obtain h2 m2 where "HandleAll MeasurementHandler_ProcessHeader (report_calls (cnt + chunk_headers rs) chunks) (h1, m1) = (h2, m2)"
    "delivered_values (mh_soe m2) = delivered_values (mh_soe m1) @ map delivered_event (concat chunks)"
    using Cons.IH[of "cnt + chunk_headers rs" h1 m1] Cons.prems by auto
  with 1 show ?case by (simp add: HandleAll_append)
qed

lemma ProcessMeasurements_report:
  assumes "\<forall>rs\<in>set chunks. chunk_fits rs"
  shows "snd (ProcessMeasurements (concat (map chunk_bytes chunks))) = PR_OK
    \<and> delivered_values (fst (ProcessMeasurements (concat (map chunk_bytes chunks)))) = map delivered_event (concat chunks)"
proof -
  have "\<forall>rs\<in>set chunks. chunk_ok rs" using assms by (simp add: chunk_fits_def)
  from deliver_report[OF this, of 0 IAPDUHandler_make MeasurementHandler_make]
  obtain h m where m: "HandleAll MeasurementHandler_ProcessHeader (report_calls 0 chunks) (IAPDUHandler_make, MeasurementHandler_make) = (h, m)"
    "delivered_values (mh_soe m) = map delivered_event (concat chunks)"
    by (auto simp: MeasurementHandler_make_def delivered_values_def)
  have "delivered_values (mh_soe (MeasurementHandler_destroy m)) = delivered_values (mh_soe m)"
    by (simp add: MeasurementHandler_destroy_def) (simp add: delivered_values_def)
  with m Parse_report[OF assms] show ?thesis by (simp add: ProcessMeasurements_def)
qed

lemma length_prefixed_bytes: "length items \<le> length (prefixed_bytes c items)"
  by (induction items) (simp_all add: prefixed_bytes_def item_bytes_def)

lemma chunk_small: "rs \<in> set chunks \<Longrightarrow> length rs \<le> length (concat (map chunk_bytes chunks))"
proof (induction chunks)
  case (Cons cs chunks)
  have "length cs \<le> length (chunk_bytes cs)"
    using length_prefixed_bytes[of "map (event_item (base_time (hd cs))) cs" "codec (hd cs)"] by (simp add: chunk_bytes_def Let_def)
  with Cons show ?case by auto
qed simp

lemma loaded_report:
  assumes "concat chunks = rs" "\<forall>c\<in>set chunks. chunk_ok c" "\<forall>r\<in>set rs. reportable r"
    and "length (concat (map chunk_bytes chunks)) \<le> 65535"
  shows "snd (ProcessMeasurements (concat (map chunk_bytes chunks))) = PR_OK"
    "delivered_values (fst (ProcessMeasurements (concat (map chunk_bytes chunks)))) = map delivered_event rs"
proof -
  have "chunk_fits c" if c: "c \<in> set chunks" for c
  proof -
    have "set c \<subseteq> set rs" using c assms(1) by (metis UN_upper set_concat)
    moreover have "length c < 65536" using chunk_small[OF c] assms(4) by simp
    ultimately show ?thesis using assms(2,3) c by (auto simp: chunk_fits_def)
  qed
  then show "snd (ProcessMeasurements (concat (map chunk_bytes chunks))) = PR_OK"
    "delivered_values (fst (ProcessMeasurements (concat (map chunk_bytes chunks)))) = map delivered_event rs"
    using ProcessMeasurements_report[of chunks] unfolding assms(1) by blast+
qed

lemma arriving_whole:
  assumes "record_ok r" "expressible r" "consistent (ReadEvent_measurement r)" "codec r \<in> set whole_objects \<or> has_cto r"
  shows "arriving r = ReadEvent_measurement r"
proof -
  let ?m = "ReadEvent_measurement r"
  have obj: "(soe_type r, codec r) \<in> set objects" unfolding codec_def by (rule serializer_in_objects)
  have fits: "value_fits (soe_type r) (m_value ?m)" using assms(1) by (simp add: record_ok_def)
  obtain fs where fs: "oc_convert (codec r) ?m = Some fs"
    using event_converted(1)[OF assms(1,2), of 0] unfolding measurement_base_0 by blast
  show ?thesis
  proof (cases "has_cto r")
    case True
    have "oc_factory (codec r) fs\<lparr>m_time := soe_time r\<rparr> = ?m"
      using has_cto_cases[OF True] fs fits assms(3)
      by (cases "vv_value (soe_value r)") (auto simp: Group2Var3_def Group4Var3_def ConvertQTDowncast_def Binary_of_flags_def DoubleBitBinary_of_flags_def
          ReadEvent_measurement_def SOERecord_ReadEvent_def GetBinaryValue_Quality DoubleBit_GetValue_Qual)
    with True fs show ?thesis by (simp add: arriving_def)
  next
    case False
    with assms(4) factory_whole(1)[OF obj fits assms(3) fs] fs show ?thesis by (simp add: arriving_def)
  qed
qed

text \<open>
  \<^bold>\<open>C40\<close>.  End to end, from the outstation's event buffer to the master's application: what the event buffer loads into a
  fragment is, for the master, a well-formed response, and the master's handler passes on exactly the events written, in
  their order, each once, with its type, its index and the measurement its object carries.  The common times of
  occurrence that the outstation writes before relative times are added again, so that an event in an object with room for
  the whole measurement, or with a relative time, arrives unchanged.
\<close>

theorem event_report_delivered:
  assumes "eb_inv b vs D" and "hw_ok w" and "written w = []" and "Remaining w \<le> 65535" and "size D + length vs < 2 ^ 32"
    and "\<forall>r\<in>set vs. IsWritable r \<longrightarrow> expressible r \<and> soe_time r \<le> UInt48_MAX"
  shows "\<exists>b' w' finished xs ys. EventBuffer_Load w b = Some (b', w', finished)
    \<and> vs = xs @ ys \<and> eb_inv b' (map mark xs @ ys) D
    \<and> snd (ProcessMeasurements (written w')) = PR_OK
    \<and> delivered_values (fst (ProcessMeasurements (written w')))
        = map (\<lambda>r. (T_Measurement (soe_type r), It_Measurement (arriving r), soe_index r)) (filter IsWritable xs)
    \<and> (\<forall>r\<in>set (filter IsWritable xs). consistent (ReadEvent_measurement r) \<and> (codec r \<in> set whole_objects \<or> has_cto r)
        \<longrightarrow> arriving r = ReadEvent_measurement r)"
proof -
  have expr: "\<forall>r\<in>set vs. IsWritable r \<longrightarrow> expressible r" using assms(6) by blast
  obtain b' w' finished xs ys chunks where load: "EventBuffer_Load w b = Some (b', w', finished)" "vs = xs @ ys"
    "eb_inv b' (map mark xs @ ys) D" "concat chunks = filter IsWritable xs" "\<forall>c\<in>set chunks. chunk_ok c"
    "wrote (concat (map chunk_bytes chunks)) (hw_position w) (hw_position w')"
    using EventBuffer_Load_list[OF assms(1,2,5) expr] by blast
  have out: "written w' = concat (map chunk_bytes chunks)" using load(6) assms(3) by (simp add: wrote_def)
  have len: "length (concat (map chunk_bytes chunks)) \<le> 65535" using wrote_Size[OF load(6)] assms(4) by (simp add: Remaining_def)
  have rec: "record_ok r \<and> expressible r \<and> soe_time r \<le> UInt48_MAX" if "r \<in> set (filter IsWritable xs)" for r
    using that load(2) assms(6) eb_invD(3)[OF assms(1)] by auto
  have "\<forall>r\<in>set (filter IsWritable xs). reportable r" using rec by (auto simp: reportable_def)
  then have "snd (ProcessMeasurements (written w')) = PR_OK"
    "delivered_values (fst (ProcessMeasurements (written w')))
      = map (\<lambda>r. (T_Measurement (soe_type r), It_Measurement (arriving r), soe_index r)) (filter IsWritable xs)"
    using loaded_report[OF load(4,5) _ len] unfolding out delivered_event_def[abs_def] by blast+
  moreover have "\<forall>r\<in>set (filter IsWritable xs). consistent (ReadEvent_measurement r) \<and> (codec r \<in> set whole_objects \<or> has_cto r)
        \<longrightarrow> arriving r = ReadEvent_measurement r"
    using rec arriving_whole by blast
  ultimately show ?thesis using load(1-3) by blast
qed

theorem event_report_delivered_witness:
  "\<exists>b b1 b' w' finished xs ys. UpdateAny (test_event 7) (EventBuffer_make (EventBufferConfig_AllTypes 3)) = Some b
    \<and> SelectMaxCount (GroupVar 2 1) 5 b = Some (b1, IIN_Empty)
    \<and> EventBuffer_Load (HeaderWriter_make (WSlice_make (replicate 20 0))) b1 = Some (b', w', finished)
    \<and> [SOERecord_Select (GroupVar 2 1) (SOERecord_make (test_event 7))] = xs @ ys
    \<and> snd (ProcessMeasurements (written w')) = PR_OK
    \<and> delivered_values (fst (ProcessMeasurements (written w')))
        = map (\<lambda>r. (T_Measurement ET_Binary, It_Measurement (arriving r), 7)) xs"
proof -
  define r where "r = SOERecord_Select (GroupVar 2 1) (SOERecord_make (test_event 7))"
  define w where "w = HeaderWriter_make (WSlice_make (replicate 20 0))"
  obtain b b1 where b: "UpdateAny (test_event 7) (EventBuffer_make (EventBufferConfig_AllTypes 3)) = Some b"
    and b1: "SelectMaxCount (GroupVar 2 1) 5 b = Some (b1, IIN_Empty)" "eb_inv b1 [r] {#}"
    using selected_buffer unfolding r_def by blast
  have r: "IsWritable r" "soe_type r = ET_Binary" "soe_index r = 7" "expressible r" "soe_time r \<le> UInt48_MAX"
    by (simp_all add: r_def IsWritable_def expressible_def NaN_value_def SOERecord_Select_def SOERecord_make_def test_event_def)
  have w: "hw_ok w" "written w = []" "Remaining w \<le> 65535"
    by (simp_all add: w_def HeaderWriter_make_def hw_ok_def ws_ok_def WSlice_make_def ws_written_def Remaining_def WSlice_Size_def)
  obtain b' w' finished xs ys where load: "EventBuffer_Load w b1 = Some (b', w', finished)" "[r] = xs @ ys"
    "snd (ProcessMeasurements (written w')) = PR_OK"
    "delivered_values (fst (ProcessMeasurements (written w')))
      = map (\<lambda>r. (T_Measurement (soe_type r), It_Measurement (arriving r), soe_index r)) (filter IsWritable xs)"
    using event_report_delivered[OF b1(2) w] r by auto
  have "set xs \<subseteq> {r}" using load(2) by (cases xs) auto
  then have "map (\<lambda>r. (T_Measurement (soe_type r), It_Measurement (arriving r), soe_index r)) (filter IsWritable xs)
    = map (\<lambda>r. (T_Measurement ET_Binary, It_Measurement (arriving r), 7)) xs" using r by (induction xs) auto
  with load(4) have "delivered_values (fst (ProcessMeasurements (written w')))
    = map (\<lambda>r. (T_Measurement ET_Binary, It_Measurement (arriving r), 7)) xs" by (rule trans)
  with load(1-3) b b1(1) show ?thesis unfolding r_def w_def by (intro exI conjI)
qed

end
