(* ===== verification/OutstationReport.thy ===== *)
theory OutstationReport
  imports OutstationRequests EventReport
begin

text \<open>
  From the outstation's event buffer to the master's application: the unsolicited report, its confirmation and its timeout.
\<close>

section \<open>The control octet\<close>

lemma seq_cases:
  fixes seq :: uint8
  assumes "seq < 16"
  shows "seq \<in> set [0, 1, 2, 3, 4, 5, 6, 7, 8, 9, 10, 11, 12, 13, 14, 15]"
proof -
  have "unat seq < 16" using assms by (simp add: word_less_nat_alt)
  then have "unat seq \<in> set [0..<16]" by simp
  then have "word_of_nat (unat seq) \<in> set (map (word_of_nat :: nat \<Rightarrow> uint8) [0..<16])" by (simp only: set_map image_eqI[OF refl])
  then show ?thesis by (simp add: upt_conv_Cons)
qed

lemma AppControlField_roundtrip:
  assumes "SEQ c < 16"
  shows "AppControlField_of_byte (AppControlField_ToByte c) = c"
proof (cases c)
  case (fields fir fin con uns seq)
  then have "seq \<in> set [0, 1, 2, 3, 4, 5, 6, 7, 8, 9, 10, 11, 12, 13, 14, 15]" using seq_cases assms by simp
  then show ?thesis unfolding fields AppControlField_of_byte_def AppControlField_ToByte_def Let_def
    by (cases fir; cases fin; cases con; cases uns; simp; elim disjE; simp)
qed

section \<open>What is selected\<close>

definition reported :: "ClassField \<Rightarrow> SOERecord \<Rightarrow> bool" where
  "reported classes r \<longleftrightarrow> HasEventType classes (soe_clazz r)"

definition offered :: "ClassField \<Rightarrow> SOERecord \<Rightarrow> SOERecord" where
  "offered classes r = (if reported classes r then SOERecord_SelectDefault (SOERecord_Reset r) else SOERecord_Reset r)"

lemma select_first_all:
  assumes "length (filter want vs) \<le> n"
  shows "select_first n want sel vs = map (\<lambda>r. if want r then sel r else r) vs"
  using assms
proof (induction vs arbitrary: n)
  case (Cons r vs)
  show ?case
  proof (cases "n = 0")
    case True
    then have "filter want (r # vs) = []" using Cons.prems by (simp only: le_0_eq length_0_conv)
    then have "\<forall>x\<in>set (r # vs). \<not> want x" by (simp add: filter_empty_conv split: if_splits)
    then have "map (\<lambda>r. if want r then sel r else r) (r # vs) = r # vs" by (simp add: map_idI)
    then show ?thesis using True by simp
  next
    case False
    then show ?thesis using Cons by (auto simp: Suc_le_eq)
  qed
qed simp

lemma SelectAllByClass_fresh:
  assumes inv: "eb_inv b vs {#}" and none: "\<forall>r\<in>set vs. \<not> soe_selected r"
  shows "\<exists>b'. SelectAllByClass classes b = Some b'
    \<and> eb_inv b' (map (\<lambda>r. if reported classes r then SOERecord_SelectDefault r else r) vs) {#}
    \<and> eb_config b' = eb_config b \<and> eb_overflow b' = eb_overflow b"
proof -
  let ?want = "\<lambda>r. HasEventType classes (soe_clazz r)"
  let ?rem = "NumOfClassField (eb_totalCounts b) classes - NumOfClassField (eb_selectedCounts b) classes"
  have no: "filter soe_selected vs = []" using none by (simp add: filter_empty_conv)
  have "NumOfClassField (eb_totalCounts b) classes = of_nat (length (filter ?want vs))"
    using NumOfClassField_counts[OF eb_invD(5)[OF inv], of classes]
      size_filter_keys[of "\<lambda>k. HasEventType classes (fst k)" vs] by (simp add: key_of_def)
  moreover have "NumOfClassField (eb_selectedCounts b) classes = 0"
    using NumOfClassField_counts[OF eb_invD(6)[OF inv], of classes] no by simp
  moreover have small: "length (filter ?want vs) < 2 ^ 32"
    using length_filter_le[of ?want vs] eb_invD(8)[OF inv] by linarith
  ultimately have rem: "unat ?rem = length (filter ?want vs)" by (simp add: unat_of_nat)
  have lim: "length (filter ?want vs) = min (unat ?rem) (unat (- 1 :: uint32))"
    using small rem by (simp add: unsigned_minus_1_eq_mask mask_eq_exp_minus_1)
  have "filter soe_selected (picked (length (filter ?want vs)) ?want vs) = []"
    using none by (auto simp: picked_def filter_empty_conv)
  with SelectLoop_inv[OF inv selects_SelectDefault lim, of ?want] show ?thesis
    by (auto simp: SelectAllByClass_def SelectByClass_def Let_def select_first_all reported_def)
qed


lemma single_bits: "CLASS_0 = 2 ^ 0" "CLASS_1 = 2 ^ 1" "CLASS_2 = 2 ^ 2" "CLASS_3 = 2 ^ 3"
  by (simp_all add: class_consts)

lemma bit_ClassField_make:
  "bit (ClassField_make class0 class1 class2 class3) n
    \<longleftrightarrow> class0 \<and> n = 0 \<or> class1 \<and> n = 1 \<or> class2 \<and> n = 2 \<or> class3 \<and> n = 3"
  unfolding ClassField_make_def single_bits Let_def bit_or_iff if_distrib[of "\<lambda>x. bit x n"] bit_single bit_0_eq bot_fun_def by auto

lemma HasClass_bit: "HasClass1 f = bit f 1" "HasClass2 f = bit f 2" "HasClass3 f = bit f 3"
  unfolding HasClass1_def HasClass2_def HasClass3_def single_bits word_greater_zero_iff and_single_bit by simp_all

lemma ex_EventClass: "(\<exists>ec. P ec) \<longleftrightarrow> P EC1 \<or> P EC2 \<or> P EC3"
  by (metis EventClass.exhaust)

lemma Intersects_UnwrittenClassField:
  assumes "eb_inv b vs D"
  shows "ClassField_Intersects c (UnwrittenClassField b) \<longleftrightarrow> (\<exists>r\<in>set vs. reported c r \<and> \<not> soe_written r)"
proof -
  have lt: "n < 8" if "bit c n" for n using bit_imp_le_length[OF that] by simp
  have "ClassField_Intersects c (UnwrittenClassField b) \<longleftrightarrow> (\<exists>n. bit c n \<and> bit (UnwrittenClassField b) n)"
    by (auto simp: ClassField_Intersects_def word_greater_zero_iff bit_eq_iff[of _ 0] bit_and_iff) (use lt in blast)
  also have "\<dots> \<longleftrightarrow> (\<exists>ec. HasEventType c ec \<and> HasUnwrittenEvents ec b)"
    unfolding UnwrittenClassField_def bit_ClassField_make
    using HasClass_bit[of c] by (subst ex_EventClass) auto
  also have "\<dots> \<longleftrightarrow> (\<exists>r\<in>set vs. reported c r \<and> \<not> soe_written r)"
    unfolding HasUnwrittenEvents_iff[OF assms] reported_def by auto
  finally show ?thesis .
qed

section \<open>The fragment\<close>

lemma NullUnsolicited_fragment:
  assumes "ws_ok p" "length (ws_buffer p) \<ge> 4" "ws_position p \<ge> 4" "seq < 16"
  shows "drop 4 (ToRSlice (NullUnsolicited seq iin p)) = drop 4 (ws_written p)"
    "ParseResponse (ToRSlice (NullUnsolicited seq iin p)) =
      Some \<lparr>ah_function = FC_UNSOLICITED_RESPONSE, ah_control = AppControlField_make True True True True seq, ah_IIN = iin\<rparr>"
proof -
  from assms(2) obtain a0 a1 a2 a3 r where b: "ws_buffer p = a0 # a1 # a2 # a3 # r"
    by (auto simp: numeral_eq_Suc Suc_le_length_iff)
  from assms(3) obtain m where "ws_position p = 4 + m" using le_Suc_ex by blast
  then have n: "ws_position p = Suc (Suc (Suc (Suc m)))" by simp
  have size: "APDU_Size (p\<lparr>ws_buffer := x\<rparr>) = ws_position p" if "length x = length (ws_buffer p)" for x
    using assms(1) that by (simp add: APDU_Size_def WSlice_Size_def ws_ok_def)
  let ?f = "ToRSlice (NullUnsolicited seq iin p)"
  have f: "?f = AppControlField_ToByte (AppControlField_make True True True True seq) # 0x82 # LSB iin # MSB iin # take m r"
    using size by (simp add: ToRSlice_def NullUnsolicited_def SetIIN_def SetFunction_def SetControl_def b n)
  show "drop 4 ?f = drop 4 (ws_written p)" unfolding f by (simp add: ws_written_def b n)
  have c: "SEQ (AppControlField_make True True True True seq) < 16" using assms(4) by (simp add: AppControlField_make_def)
  show "ParseResponse ?f =
      Some \<lparr>ah_function = FC_UNSOLICITED_RESPONSE, ah_control = AppControlField_make True True True True seq, ah_IIN = iin\<rparr>"
    unfolding f using AppControlField_roundtrip[OF c] FunctionCode_roundtrip[of FC_UNSOLICITED_RESPONSE]
    by (simp add: ParseResponse_def APDU_RESPONSE_HEADER_SIZE_def)
qed

lemma eb_inv_overflow [simp]: "eb_inv (b\<lparr>eb_overflow := x\<rparr>) vs D \<longleftrightarrow> eb_inv b vs D"
  by (simp add: eb_inv_def tracked_def)

lemma IsOverflown_inv [simp]: "eb_inv (fst (IsOverflown b)) vs D \<longleftrightarrow> eb_inv b vs D"
  by (simp add: IsOverflown_def Let_def)

section \<open>The buffer during an unsolicited report\<close>

lemma offered_simps [simp]:
  "soe_type (offered c r) = soe_type r" "soe_clazz (offered c r) = soe_clazz r" "soe_index (offered c r) = soe_index r"
  "soe_time (offered c r) = soe_time r" "soe_selected (offered c r) = reported c r" "\<not> soe_written (offered c r)"
  "IsWritable (offered c r) = reported c r"
  by (simp_all add: offered_def SOERecord_SelectDefault_def SOERecord_Reset_def IsWritable_def)

lemma Reset_mark_offered [simp]:
  "SOERecord_Reset (mark (offered c r)) = SOERecord_Reset (offered c r)"
  by (simp add: mark_def SOERecord_Reset_def)

lemma unsolicited_load:
  assumes inv: "eb_inv b vs {#}" and w: "hw_ok w" "Remaining w \<le> 65535"
    and times: "\<forall>r\<in>set vs. reported c r \<longrightarrow> expressible (offered c r) \<and> soe_time r \<le> UInt48_MAX"
  obtains b1 b2 b3 w' ok xs ys out where
    "Unselect b = Some b1" "SelectAllByClass c b1 = Some b2" "EventBuffer_Load w b2 = Some (b3, w', ok)"
    "vs = xs @ ys" "eb_inv b3 (map (mark \<circ> offered c) xs @ map (offered c) ys) {#}" "wrote out (hw_position w) (hw_position w')"
    "snd (ProcessMeasurements out) = PR_OK"
    "delivered_values (fst (ProcessMeasurements out)) = map (delivered_event \<circ> offered c) (filter (reported c) xs)"
    "if ok then \<forall>r\<in>set ys. \<not> reported c r
     else \<exists>r ys'. ys = r # ys' \<and> reported c r \<and> Remaining w' < room_needed (offered c r)"
    "filter (reported c) xs = [] \<longrightarrow> out = []"
proof -
  have small: "length vs < 2 ^ 32" by (rule eb_invD(8)[OF inv])
  obtain b1 where b1: "Unselect b = Some b1" "eb_inv b1 (map SOERecord_Reset vs) {#}"
    using Unselect_inv[OF inv] small by auto
  have none: "\<forall>r\<in>set (map SOERecord_Reset vs). \<not> soe_selected r" by (simp add: SOERecord_Reset_def)
  have "map (\<lambda>r. if reported c r then SOERecord_SelectDefault r else r) (map SOERecord_Reset vs) = map (offered c) vs"
    by (simp add: offered_def reported_def SOERecord_Reset_def)
  with SelectAllByClass_fresh[OF b1(2) none, of c] obtain b2
    where b2: "SelectAllByClass c b1 = Some b2" "eb_inv b2 (map (offered c) vs) {#}" by (auto simp del: map_map map_eq_conv)
  have expr: "\<forall>r\<in>set (map (offered c) vs). IsWritable r \<longrightarrow> expressible r" using times by simp
  have size: "size {#} + length (map (offered c) vs) < 2 ^ 32" using small by simp
  obtain b3 w' ok us zs chunks where load: "EventBuffer_Load w b2 = Some (b3, w', ok)" "map (offered c) vs = us @ zs"
    "eb_inv b3 (map mark us @ zs) {#}" "concat chunks = filter IsWritable us" "\<forall>c\<in>set chunks. chunk_ok c"
    "wrote (concat (map chunk_bytes chunks)) (hw_position w) (hw_position w')"
    "if ok then \<forall>r\<in>set zs. \<not> IsWritable r else \<exists>r ys'. zs = r # ys' \<and> IsWritable r \<and> WSlice_Size (hw_position w') < room_needed r"
    using EventBuffer_Load_list[OF b2(2) w(1) size expr] by blast
  obtain xs ys where split: "vs = xs @ ys" "us = map (offered c) xs" "zs = map (offered c) ys"
    using load(2) by (auto simp: map_eq_append_conv)
  have fil: "filter IsWritable us = map (offered c) (filter (reported c) xs)"
    by (simp add: split(2) filter_map comp_def)
  have len: "length (concat (map chunk_bytes chunks)) \<le> 65535" using wrote_Size[OF load(6)] w(2) by (simp add: Remaining_def)
  have "\<forall>r\<in>set (filter IsWritable us). reportable r"
    using times eb_invD(3)[OF b2(2)] unfolding fil by (auto simp: reportable_def split(1))
  note rep = loaded_report[OF load(4,5) this len]
  have prog: "if ok then \<forall>r\<in>set ys. \<not> reported c r
     else \<exists>r ys'. ys = r # ys' \<and> reported c r \<and> Remaining w' < room_needed (offered c r)"
    using load(7) by (auto simp: split(3) Remaining_def map_eq_Cons_conv split: if_splits)
  have none: "filter (reported c) xs = [] \<longrightarrow> concat (map chunk_bytes chunks) = []"
  proof
    assume "filter (reported c) xs = []"
    then have "\<forall>c\<in>set chunks. c = []" using load(4) fil by simp
    then have "chunks = []" using load(5) by (cases chunks) (auto simp: chunk_ok_def)
    then show "concat (map chunk_bytes chunks) = []" by simp
  qed
  show ?thesis
    by (rule that[OF b1(1) b2(1) load(1) split(1) _ load(6) rep(1) _ prog none])
      (use load(3) rep(2) in \<open>simp_all add: split(2,3) fil[unfolded split(2)] comp_def\<close>)
qed

lemma confirmed_events:
  assumes "eb_inv b (map (mark \<circ> offered c) xs @ map (offered c) ys) {#}"
  shows "\<exists>b'. ClearWritten b = Some b' \<and> eb_inv b' (map (offered c) (filter (\<lambda>r. \<not> reported c r) xs @ ys)) {#}"
proof -
  have "filter (\<lambda>r. \<not> soe_written r) (map (mark \<circ> offered c) xs @ map (offered c) ys)
    = map (offered c) (filter (\<lambda>r. \<not> reported c r) xs @ ys)"
    by (induction xs) (simp_all add: mark_def filter_map comp_def)
  with ClearWritten_inv[OF assms] show ?thesis by auto
qed

lemma unconfirmed_events:
  assumes "eb_inv b (map (mark \<circ> offered c) xs @ map (offered c) ys) {#}"
  shows "\<exists>b'. Unselect b = Some b' \<and> eb_inv b' (map (SOERecord_Reset \<circ> offered c) (xs @ ys)) {#}"
  using Unselect_inv[OF assms] eb_invD(8)[OF assms] by (fastforce simp: comp_def)

section \<open>The report\<close>

lemma SendUnsolicited_sent:
  obtains iin where
    "os_calls (SendUnsolicited app response ctx) = os_calls ctx
      @ [BeginTransmit (ToRSlice (NullUnsolicited (sq_num (un_seq (os_unsol ctx))) iin response))]"
    "os_isTransmitting (SendUnsolicited app response ctx)"
    "os_eventBuffer (SendUnsolicited app response ctx) = fst (IsOverflown (os_eventBuffer ctx))"
    "un_pState (os_unsol (SendUnsolicited app response ctx)) = UnsolConfirmWait"
    "un_completedNull (os_unsol (SendUnsolicited app response ctx)) = un_completedNull (os_unsol ctx)"
    "un_seq (os_unsol (SendUnsolicited app response ctx)) =
      \<lparr>sq_num = AppSeqNum_Next (sq_num (un_seq (os_unsol ctx))), sq_confirmNum = sq_num (un_seq (os_unsol ctx))\<rparr>"
  by (rule that[of "snd (GetResponseIIN app ctx)"])
    (simp_all add: SendUnsolicited_def Let_def case_prod_unfold BeginUnsolTx_def BeginTx_def set_unsol_def StartUnsolicitedConfirmTimer_def
      TimerRef_Start_def GetResponseIIN_def GetDynamicIIN_def set_eventBuffer_def)

definition outstation_waits :: "OContext \<Rightarrow> OContext \<Rightarrow> bool" where
  "outstation_waits ctx ctx' \<longleftrightarrow> os_database ctx' = os_database ctx \<and> os_unsol ctx' = os_unsol ctx"

lemma unsolicited_answered:
  assumes "eb_inv (os_eventBuffer ctx) (map (mark \<circ> offered c) xs @ map (offered c) ys) {#}"
    and "un_pState (os_unsol ctx) = UnsolConfirmWait" "un_completedNull (os_unsol ctx)" "sq_confirmNum (un_seq (os_unsol ctx)) = seq"
  shows "\<exists>ctx'. ProcessConfirm app (APDUHeader_UnsolicitedConfirm seq) ctx = Some ctx' \<and> un_pState (os_unsol ctx') = UnsolIdle
      \<and> eb_inv (os_eventBuffer ctx') (map (offered c) (filter (\<lambda>r. \<not> reported c r) xs @ ys)) {#}"
    "\<exists>ctx'. map_option set_unsol (Unsol_OnConfirmTimeout ctx) = Some ctx' \<and> un_pState (os_unsol ctx') = UnsolIdle
      \<and> eb_inv (os_eventBuffer ctx') (map (SOERecord_Reset \<circ> offered c) (xs @ ys)) {#}"
  using confirmed_events[OF assms(1)] unconfirmed_events[OF assms(1)] assms(2-4)
  by (auto simp: ProcessConfirm_def APDUHeader_UnsolicitedConfirm_def APDUHeader_Confirm_def AppControlField_make_def Unsol_OnConfirm_def
      Unsol_OnConfirmTimeout_def AppSeqNum_Equals_def set_unsol_def set_eventBuffer_def ConfirmTimer_Cancel_def)

text \<open>
  \<^bold>\<open>C3\<close>.  An unsolicited report, from the outstation's event buffer to the master's application and back.  An idle outstation
  with events of the reported classes sends one fragment; the master reads it as an unsolicited response that asks for a
  confirmation, with exactly the reported events among the first ones, in their order, up to one for which there is no
  room.  The confirmation with its sequence number removes exactly these events from the buffer; without it, all events
  are there again.  The counters of the buffer have no drift, and the events of these classes can be expressed in their
  variations (no NaN as an integer) and have times of 48 bits.
\<close>

theorem unsolicited_report_delivered:
  fixes ctx :: OContext
  defines "c \<equiv> prm_unsolClassMask (os_params ctx)" and "seq \<equiv> sq_num (un_seq (os_unsol ctx))"
  assumes inv: "eb_inv (os_eventBuffer ctx) vs {#}"
    and "CanTransmit ctx" "un_pState (os_unsol ctx) = UnsolIdle" "prm_allowUnsolicited (os_params ctx)" "un_completedNull (os_unsol ctx)"
    and some: "\<exists>r\<in>set vs. reported c r \<and> \<not> soe_written r" and "seq < 16"
    and len: "4 \<le> length (tx_buffer (un_tx (os_unsol ctx)))" "length (tx_buffer (un_tx (os_unsol ctx))) \<le> 65539"
    and times: "\<forall>r\<in>set vs. reported c r \<longrightarrow> expressible (offered c r) \<and> soe_time r \<le> UInt48_MAX"
  shows "\<exists>ctx' apdu xs ys iin. CheckForUnsolicited app ctx = Some ctx' \<and> os_calls ctx' = os_calls ctx @ [BeginTransmit apdu]
    \<and> vs = xs @ ys
    \<and> ParseResponse apdu =
        Some \<lparr>ah_function = FC_UNSOLICITED_RESPONSE, ah_control = AppControlField_make True True True True seq, ah_IIN = iin\<rparr>
    \<and> snd (ProcessMeasurements (drop 4 apdu)) = PR_OK
    \<and> delivered_values (fst (ProcessMeasurements (drop 4 apdu))) = map (delivered_event \<circ> offered c) (filter (reported c) xs)
    \<and> ((\<forall>r\<in>set ys. \<not> reported c r) \<or> (\<exists>r ys'. ys = r # ys' \<and> reported c r
         \<and> length (tx_buffer (un_tx (os_unsol ctx))) < length apdu + room_needed (offered c r)))
    \<and> ((\<forall>r\<in>set vs. reported c r \<longrightarrow> 4 + room_needed (offered c r) \<le> length (tx_buffer (un_tx (os_unsol ctx)))) \<longrightarrow> filter (reported c) xs \<noteq> [])
    \<and> (\<forall>ctx2. outstation_waits ctx' ctx2 \<longrightarrow>
        (\<exists>ctx3. ProcessConfirm app (APDUHeader_UnsolicitedConfirm seq) ctx2 = Some ctx3 \<and> un_pState (os_unsol ctx3) = UnsolIdle
          \<and> eb_inv (os_eventBuffer ctx3) (map (offered c) (filter (\<lambda>r. \<not> reported c r) xs @ ys)) {#})
        \<and> (\<exists>ctx3. map_option set_unsol (Unsol_OnConfirmTimeout ctx2) = Some ctx3 \<and> un_pState (os_unsol ctx3) = UnsolIdle
          \<and> eb_inv (os_eventBuffer ctx3) (map (SOERecord_Reset \<circ> offered c) vs) {#}))"
proof -
  let ?buf = "tx_buffer (un_tx (os_unsol ctx))"
  define p where "p = \<lparr>ws_buffer = ?buf, ws_position = 4\<rparr>"
  have "4 \<le> length ?buf" using len by simp
  then have start: "TxBuffer_Start (un_tx (os_unsol ctx)) = Some p"
    by (simp add: p_def TxBuffer_Start_def APDUResponse_make_def APDUWrapper_make_def WSlice_make_def WSlice_Advance_def WSlice_Size_def min_def)
  have w: "hw_position (GetWriter p) = p" "hw_ok (GetWriter p)" "Remaining (GetWriter p) \<le> 65535"
    using len by (simp_all add: p_def GetWriter_def HeaderWriter_make_def hw_ok_def ws_ok_def Remaining_def WSlice_Size_def)
  obtain b1 b2 b3 w' ok xs ys out where load: "Unselect (os_eventBuffer ctx) = Some b1" "SelectAllByClass c b1 = Some b2"
    "EventBuffer_Load (GetWriter p) b2 = Some (b3, w', ok)" "vs = xs @ ys"
    "eb_inv b3 (map (mark \<circ> offered c) xs @ map (offered c) ys) {#}" "wrote out p (hw_position w')"
    "snd (ProcessMeasurements out) = PR_OK"
    "delivered_values (fst (ProcessMeasurements out)) = map (delivered_event \<circ> offered c) (filter (reported c) xs)"
    "if ok then \<forall>r\<in>set ys. \<not> reported c r
     else \<exists>r ys'. ys = r # ys' \<and> reported c r \<and> Remaining w' < room_needed (offered c r)" "filter (reported c) xs = [] \<longrightarrow> out = []"
    using unsolicited_load[OF inv w(2,3) times] unfolding w(1) by metis
  let ?ctx = "set_eventBuffer b3 ctx" and ?p' = "APDU_PutWriter w'"
  define ctx' where "ctx' = SendUnsolicited app ?p' ?ctx"
  have check: "CheckForUnsolicited app ctx = Some ctx'"
    using assms(4-7) iffD2[OF Intersects_UnwrittenClassField[OF inv] some]
    by (simp add: CheckForUnsolicited_def OutstationUnsolState_IsIdle_def c_def start load(1,3) load(2)[unfolded c_def] ctx'_def)
  have unsol: "os_unsol ?ctx = os_unsol ctx" "os_calls ?ctx = os_calls ctx" "os_eventBuffer ?ctx = b3" by (simp_all add: set_eventBuffer_def)
  obtain iin where sent: "os_calls ctx' = os_calls ctx @ [BeginTransmit (ToRSlice (NullUnsolicited seq iin ?p'))]"
    "os_eventBuffer ctx' = fst (IsOverflown b3)" "un_pState (os_unsol ctx') = UnsolConfirmWait" "un_completedNull (os_unsol ctx')"
    "sq_confirmNum (un_seq (os_unsol ctx')) = seq"
  proof (rule SendUnsolicited_sent[of app ?p' ?ctx, unfolded unsol, folded ctx'_def seq_def])
    fix iin
    assume "os_calls ctx' = os_calls ctx @ [BeginTransmit (ToRSlice (NullUnsolicited seq iin ?p'))]"
      "os_eventBuffer ctx' = fst (IsOverflown b3)" "un_pState (os_unsol ctx') = UnsolConfirmWait"
      "un_completedNull (os_unsol ctx') = un_completedNull (os_unsol ctx)"
      "un_seq (os_unsol ctx') = \<lparr>sq_num = AppSeqNum_Next seq, sq_confirmNum = seq\<rparr>"
    then show thesis using that[of iin] assms(7) by simp
  qed
  have p': "ws_ok ?p'" "length (ws_buffer ?p') = length ?buf" "ws_written ?p' = take 4 ?buf @ out"
    using load(6) by (simp_all add: wrote_def p_def APDU_PutWriter_def ws_written_def)
  have pos: "ws_position ?p' = 4 + length out" using arg_cong[OF p'(3), of length] p'(1,2) len by (simp add: ws_written_def ws_ok_def)
  note frag = NullUnsolicited_fragment[of ?p' seq iin]
  let ?apdu = "ToRSlice (NullUnsolicited seq iin ?p')"
  have body: "drop 4 ?apdu = out" using frag(1) p' pos len assms(9) by simp
  have parse: "ParseResponse ?apdu =
      Some \<lparr>ah_function = FC_UNSOLICITED_RESPONSE, ah_control = AppControlField_make True True True True seq, ah_IIN = iin\<rparr>"
    using frag(2) p' pos len assms(9) by simp
  have apdu: "length ?apdu = 4 + length out"
  proof -
    have "4 \<le> length ?apdu" using parse by (auto simp: ParseResponse_def APDU_RESPONSE_HEADER_SIZE_def split: if_splits)
    then show ?thesis using arg_cong[OF body, of length] by simp
  qed
  have prog: "(\<forall>r\<in>set ys. \<not> reported c r) \<or> (\<exists>r ys'. ys = r # ys' \<and> reported c r \<and> length ?buf < length ?apdu + room_needed (offered c r))"
    using load(9) pos p'(2) apdu by (auto simp: Remaining_def WSlice_Size_def APDU_PutWriter_def split: if_splits)
  have fits: "(\<forall>r\<in>set vs. reported c r \<longrightarrow> 4 + room_needed (offered c r) \<le> length ?buf) \<longrightarrow> filter (reported c) xs \<noteq> []"
  proof (intro impI notI)
    assume room: "\<forall>r\<in>set vs. reported c r \<longrightarrow> 4 + room_needed (offered c r) \<le> length ?buf" and xs: "filter (reported c) xs = []"
    have "\<exists>r\<in>set ys. reported c r" using some xs unfolding load(4) filter_empty_conv by auto
    then obtain r ys' where "ys = r # ys'" "reported c r" "length ?buf < length ?apdu + room_needed (offered c r)" using prog by blast
    with room show False using load(10) xs unfolding load(4) apdu by auto
  qed
  have answers: "(\<exists>ctx3. ProcessConfirm app (APDUHeader_UnsolicitedConfirm seq) ctx2 = Some ctx3 \<and> un_pState (os_unsol ctx3) = UnsolIdle
          \<and> eb_inv (os_eventBuffer ctx3) (map (offered c) (filter (\<lambda>r. \<not> reported c r) xs @ ys)) {#})
        \<and> (\<exists>ctx3. map_option set_unsol (Unsol_OnConfirmTimeout ctx2) = Some ctx3 \<and> un_pState (os_unsol ctx3) = UnsolIdle
          \<and> eb_inv (os_eventBuffer ctx3) (map (SOERecord_Reset \<circ> offered c) vs) {#})" if "outstation_waits ctx' ctx2" for ctx2
    using unsolicited_answered(1)[of ctx2 c xs ys seq app] unsolicited_answered(2)[of ctx2 c xs ys seq] sent load(4,5) that unfolding outstation_waits_def by simp
  show ?thesis using check sent(1) load(4) parse load(7,8) prog fits answers unfolding body[symmetric] by blast
qed

theorem unsolicited_report_delivered_witness:
  "\<exists>b ctx ctx' apdu. UpdateAny (test_event 7) (EventBuffer_make (EventBufferConfig_AllTypes 3)) = Some b
    \<and> os_eventBuffer ctx = b \<and> CheckForUnsolicited sample_app ctx = Some ctx' \<and> os_calls ctx' = [BeginTransmit apdu]
    \<and> delivered_values (fst (ProcessMeasurements (drop 4 apdu))) = [delivered_event (offered EVENT_CLASSES (SOERecord_make (test_event 7)))]"
proof -
  let ?r = "SOERecord_make (test_event 7)"
  obtain b where b: "UpdateAny (test_event 7) (EventBuffer_make (EventBufferConfig_AllTypes 3)) = Some b" "eb_inv b [?r] {#}"
    using test_buffer by blast
  define ctx where "ctx = sample\<lparr>os_isOnline := True, os_params := sample_params\<lparr>prm_unsolClassMask := EVENT_CLASSES\<rparr>,
    os_database := sample_db\<lparr>dt_events := b\<rparr>, os_unsol := (os_unsol sample)\<lparr>un_completedNull := True, un_tx := TxBuffer_make 40\<rparr>\<rparr>"
  have ctx: "os_eventBuffer ctx = b" "prm_unsolClassMask (os_params ctx) = EVENT_CLASSES" "CanTransmit ctx" "un_pState (os_unsol ctx) = UnsolIdle"
    "prm_allowUnsolicited (os_params ctx)" "un_completedNull (os_unsol ctx)" "sq_num (un_seq (os_unsol ctx)) = 0"
    "length (tx_buffer (un_tx (os_unsol ctx))) = 40" "os_calls ctx = []"
    by (simp_all add: ctx_def sample_def sample_params_def OContext_make_def CanTransmit_def OutstationUnsolState_make_def
        OutstationSeqNum_make_def TxBuffer_make_def)
  have rep: "reported EVENT_CLASSES ?r" "\<not> soe_written ?r"
    by (simp_all add: reported_def SOERecord_make_def test_event_def HasClass1_def class_consts)
  have o: "offered EVENT_CLASSES ?r = SOERecord_SelectDefault ?r"
    using rep by (simp add: offered_def SOERecord_Reset_def SOERecord_SelectDefault_def SOERecord_make_def)
  have exp: "expressible (offered EVENT_CLASSES ?r) \<and> soe_time ?r \<le> UInt48_MAX"
    unfolding o by (simp add: expressible_def NaN_value_def SOERecord_SelectDefault_def SOERecord_make_def test_event_def SelectDefaultVariation_def)
  have need: "room_needed (offered EVENT_CLASSES ?r) = 8"
    unfolding o by (simp add: room_needed_def has_cto_def codec_def LoadHeaderBinary_def SOERecord_SelectDefault_def SOERecord_make_def
        test_event_def SelectDefaultVariation_def Group2Var1_def)
  obtain ctx' apdu xs ys where res: "CheckForUnsolicited sample_app ctx = Some ctx'" "os_calls ctx' = [BeginTransmit apdu]" "[?r] = xs @ ys"
    "delivered_values (fst (ProcessMeasurements (drop 4 apdu))) = map (delivered_event \<circ> offered EVENT_CLASSES) (filter (reported EVENT_CLASSES) xs)"
    "4 + room_needed (offered EVENT_CLASSES ?r) \<le> 40 \<longrightarrow> filter (reported EVENT_CLASSES) xs \<noteq> []"
    using unsolicited_report_delivered[of ctx "[?r]" sample_app] b(2) ctx rep exp by auto
  have "xs = [?r]" using res(3,5) need by (cases xs) auto
  then show ?thesis using res b(1) ctx(1) rep by auto
qed

end
