(* ===== verification/OutstationCommands.thy ===== *)
theory OutstationCommands
  imports OutstationRequests EventReport
begin

text \<open>
  Which commands an outstation executes, and when: the commands of a request in order, up to the maximum, and for an
  \<^verbatim>\<open>OPERATE\<close> only after the same commands have been selected.
\<close>

section \<open>The commands of a request\<close>

fun commands_of :: "HandlerCall \<Rightarrow> IndexedItem list" where
  "commands_of (OnPrefixOf record1 cnt t (Some vs)) = (if map_of command_serializers t = None then [] else vs)"
| "commands_of _ = []"

lemma commands_of_prefix:
  "commands_of (OnPrefixOf record1 cnt t vs) = (if map_of command_serializers t = None then [] else (case vs of Some vs \<Rightarrow> vs | None \<Rightarrow> []))"
  by (cases vs) auto

definition commands :: "bytes \<Rightarrow> IndexedItem list" where
  "commands objs = concat (map commands_of (snd (APDUParser_Parse CommandResponseHandler_IsAllowed ParserSettings_Default objs)))"

definition command_call :: "bool \<Rightarrow> IndexedItem \<Rightarrow> AppCall" where
  "command_call isSelect = (\<lambda>(c, i). if isSelect then SelectCommand c i else OperateCommand c i)"

definition command_calls :: "bool \<Rightarrow> IndexedItem list \<Rightarrow> AppCall list" where
  "command_calls isSelect cmds = (if cmds = [] then [] else CommandsStart # map (command_call isSelect) cmds @ [CommandsEnd])"

text \<open>What the user's code answers to the commands, called one after the other.\<close>

definition answer :: "OutstationApplication \<Rightarrow> bool \<Rightarrow> AppCall list \<Rightarrow> IndexedItem \<Rightarrow> CommandStatus" where
  "answer app isSelect calls = (\<lambda>(c, i). if isSelect then app_Select app calls c i else app_Operate app calls c i)"

definition answers :: "OutstationApplication \<Rightarrow> bool \<Rightarrow> AppCall list \<Rightarrow> IndexedItem list \<Rightarrow> CommandStatus list" where
  "answers app isSelect calls cmds =
     map (\<lambda>k. answer app isSelect (calls @ CommandsStart # map (command_call isSelect) (take k cmds)) (cmds ! k)) [0..<length cmds]"

lemma answers_append [simp]:
  "answers app isSelect calls (cmds @ [x]) =
     answers app isSelect calls cmds @ [answer app isSelect (calls @ CommandsStart # map (command_call isSelect) cmds) x]"
  by (simp add: answers_def nth_append)

lemma length_answers [simp]: "length (answers app isSelect calls cmds) = length cmds"
  by (simp add: answers_def)

lemma answers_Nil [simp]: "answers app isSelect calls [] = []"
  by (simp add: answers_def)

text \<open>The handler after the commands \<open>cmds\<close>.\<close>

definition progress :: "OutstationApplication \<Rightarrow> bool \<Rightarrow> uint8 \<Rightarrow> AppCall list \<Rightarrow> IndexedItem list \<Rightarrow> CommandResponseHandler \<Rightarrow> bool" where
  "progress app isSelect m calls cmds h \<longleftrightarrow>
     (let taken = take (unat m) cmds
      in cr_maxCommands h = m \<and> unat (cr_numRequests h) = length taken
         \<and> unat (cr_numSuccess h) = length (filter ((=) SUCCESS) (answers app isSelect calls taken))
         \<and> cr_action h = CommandActionAdapter isSelect (taken \<noteq> [])
         \<and> cr_calls h = calls @ (if taken = [] then [] else CommandsStart # map (command_call isSelect) taken))"

lemma progress_writer [simp]: "progress app isSelect m calls cmds (h\<lparr>cr_writer := w\<rparr>) = progress app isSelect m calls cmds h"
  by (simp add: progress_def)

lemma unat_Suc_small:
  fixes x :: uint32
  assumes "unat x < 256"
  shows "unat (x + 1) = Suc (unat x)"
  using assms by (simp add: unat_word_ariths)

lemma ProcessCommand_progress:
  assumes p: "progress app isSelect m calls cmds h" and c: "ProcessCommand app command index h = (h', status)"
  shows "progress app isSelect m calls (cmds @ [(command, index)])
    (if status = SUCCESS then h'\<lparr>cr_numSuccess := cr_numSuccess h' + 1\<rparr> else h')"
proof -
  define taken where "taken = take (unat m) cmds"
  note p' = p[unfolded progress_def Let_def taken_def[symmetric]]
  have small: "unat m < 256" using unsigned_less[of m] by simp
  have less: "cr_numRequests h < ucast (cr_maxCommands h) \<longleftrightarrow> length taken < unat m"
  proof -
    have "take_bit 32 (unat m) = unat m" by (rule take_bit_nat_eq_self) (rule less_trans[OF small], simp)
    then show ?thesis using p' by (simp add: word_less_nat_alt unsigned_ucast_eq)
  qed
  have succ: "unat (cr_numSuccess h) \<le> length taken" using p' length_filter_le[of "(=) SUCCESS"] by (metis length_answers)
  show ?thesis
  proof (cases "length taken < unat m")
    case True
    then have t: "taken = cmds" "take (unat m) (cmds @ [(command, index)]) = cmds @ [(command, index)]" by (simp_all add: taken_def)
    have n: "unat (cr_numRequests h) = length taken" using p' by simp
    have "unat (cr_numRequests h) < 256" "unat (cr_numSuccess h) < 256" using n succ True small by linarith+
    from this[THEN unat_Suc_small] n t(1) have "unat (cr_numRequests h + 1) = Suc (length cmds)" "unat (cr_numSuccess h + 1) = Suc (unat (cr_numSuccess h))" by simp_all
    moreover have "CommandAction app command index (cr_action h, cr_calls h) =
        ((CommandActionAdapter isSelect True, calls @ CommandsStart # map (command_call isSelect) (cmds @ [(command, index)])),
         answer app isSelect (calls @ CommandsStart # map (command_call isSelect) cmds) (command, index))"
      using p' t(1) by (cases "cmds = []"; cases isSelect) (simp_all add: CheckStart_def answer_def command_call_def Let_def)
    ultimately show ?thesis using c True p' less by (auto simp: ProcessCommand_def progress_def t Let_def)
  next
    case False
    then have "take (unat m) (cmds @ [(command, index)]) = taken" by (auto simp: taken_def)
    then show ?thesis using c False p' less by (auto simp: ProcessCommand_def progress_def Let_def)
  qed
qed

lemma process_commands_progress:
  assumes "process_commands app vs (h, ret, iter) = Some (h', ret', iter')" "progress app isSelect m calls cmds h"
  shows "progress app isSelect m calls (cmds @ vs) h'"
  using assms
proof (induction vs arbitrary: h ret iter cmds)
  case (Cons v vs)
  obtain command index where v: "v = (command, index)" by fastforce
  from Cons.prems(1) obtain h1 ret1 iter1 where one: "process_command app v (h, ret, iter) = Some (h1, ret1, iter1)"
    and rest: "process_commands app vs (h1, ret1, iter1) = Some (h', ret', iter')"
    by (auto simp: bind_eq_Some_conv)
  obtain h2 st where pc: "ProcessCommand app command index h = (h2, st)" by fastforce
  note ProcessCommand_progress[OF Cons.prems(2) pc]
  then have "progress app isSelect m calls (cmds @ [v]) h1"
    using one pc by (auto simp: v process_command_def Let_def split: option.splits if_splits)
  from Cons.IH[OF rest this] show ?case by simp
qed simp

lemma ProcessAny_progress:
  assumes "ProcessAny app record1 serializer vs h = Some (h', ret)" "progress app isSelect m calls cmds h"
  shows "progress app isSelect m calls (cmds @ vs) h'"
  using assms by (auto simp: ProcessAny_def RespondToHeader_def split: if_splits option.splits prod.splits
      dest!: process_commands_progress[where cmds = cmds])

lemma HandleAll_progress:
  assumes "pred_option (progress app isSelect m calls cmds) s"
  shows "pred_option (progress app isSelect m calls (cmds @ concat (map commands_of headers)))
    (snd (HandleAll (CommandResponseHandler_ProcessHeader app) headers (ih, s)))"
  using assms
proof (induction headers arbitrary: cmds ih s)
  case Nil
  then show ?case by (simp add: HandleAll_def)
next
  case (Cons header headers)
  obtain ih1 s1 where one: "OnHeader (CommandResponseHandler_ProcessHeader app) header (ih, s) = (ih1, s1)" by fastforce
  have "pred_option (progress app isSelect m calls (cmds @ commands_of header)) s1"
    using one Cons.prems
    by (auto simp: commands_of_prefix OnHeader_def ProcessUnsupportedHeader_def CommandResponseHandler_ProcessHeader_def on_state_def bind_eq_Some_conv
        split: option.splits HandlerCall.splits prod.splits if_splits intro: ProcessAny_progress)
  from Cons.IH[OF this] show ?case using one by (simp add: HandleAll_def)
qed

lemma ParseCommands_progress:
  assumes "ParseCommands app (CommandActionAdapter_make isSelect) objs writer ctx = (result, errors, Some h)"
  shows "progress app isSelect (prm_maxControlsPerRequest (os_params ctx)) (os_calls ctx) (commands objs) h"
proof -
  let ?m = "prm_maxControlsPerRequest (os_params ctx)"
  let ?h = "CommandResponseHandler_make ?m (CommandActionAdapter_make isSelect) writer (os_calls ctx)"
  have "pred_option (progress app isSelect ?m (os_calls ctx) []) (Some ?h)"
    by (simp add: progress_def CommandResponseHandler_make_def CommandActionAdapter_make_def)
  note all = HandleAll_progress[OF this, where ih = IAPDUHandler_make]
  obtain r headers where parse: "APDUParser_Parse CommandResponseHandler_IsAllowed ParserSettings_Default objs = (r, headers)" by fastforce
  obtain ih s where handle: "HandleAll (CommandResponseHandler_ProcessHeader app) headers (IAPDUHandler_make, Some ?h) = (ih, s)" by fastforce
  have "s = Some h" using assms by (simp add: ParseCommands_def ParseWith_def parse handle)
  then show ?thesis using all[of headers] handle by (simp add: commands_def parse)
qed

text \<open>What the application has been called with when the request has been handled.\<close>

lemma EndCommands_progress:
  assumes "progress app isSelect (prm_maxControlsPerRequest (os_params ctx)) (os_calls ctx) cmds h"
  shows "os_calls (EndCommands h ctx') = os_calls ctx @ command_calls isSelect (take (unat (prm_maxControlsPerRequest (os_params ctx))) cmds)"
  using assms by (auto simp: progress_def Let_def EndCommands_def command_calls_def)

lemma filter_full: "length (filter P xs) = length xs \<longleftrightarrow> (\<forall>x\<in>set xs. P x)"
  by (metis filter_True length_filter_less less_irrefl)

lemma AllCommandsSuccessful_progress:
  assumes "progress app isSelect m calls cmds h"
  shows "AllCommandsSuccessful h \<longleftrightarrow> (\<forall>st\<in>set (answers app isSelect calls (take (unat m) cmds)). st = SUCCESS)"
proof -
  have "AllCommandsSuccessful h \<longleftrightarrow> length (filter ((=) SUCCESS) (answers app isSelect calls (take (unat m) cmds)))
    = length (answers app isSelect calls (take (unat m) cmds))"
    using assms by (simp add: AllCommandsSuccessful_def progress_def Let_def word_unat_eq_iff) linarith
  then show ?thesis unfolding filter_full by auto
qed

lemma ParseCommands_constant:
  assumes "ParseCommands app (ConstantCommandAction status) objs writer ctx = (result, errors, Some h)"
  shows "os_calls (EndCommands h ctx') = os_calls ctx"
proof -
  let ?I = "pred_option (\<lambda>h. cr_action h = ConstantCommandAction status \<and> cr_calls h = os_calls ctx)"
  have one: "cr_action h2 = ConstantCommandAction status \<and> cr_calls h2 = os_calls ctx"
    if "ProcessCommand app command index h1 = (h2, st)" "cr_action h1 = ConstantCommandAction status \<and> cr_calls h1 = os_calls ctx"
    for command index h1 h2 st using that by (auto simp: ProcessCommand_def split: if_splits)
  have all: "cr_action h2 = ConstantCommandAction status \<and> cr_calls h2 = os_calls ctx"
    if "process_commands app vs (h1, ret, iter) = Some (h2, ret', iter')" "cr_action h1 = ConstantCommandAction status \<and> cr_calls h1 = os_calls ctx"
    for vs h1 h2 ret iter ret' iter'
    using that
  proof (induction vs arbitrary: h1 ret iter)
    case (Cons v vs)
    obtain command index where v: "v = (command, index)" by fastforce
    obtain h3 st where pc: "ProcessCommand app command index h1 = (h3, st)" by fastforce
    from Cons.prems(1) obtain h4 ret1 iter1 where o: "process_command app v (h1, ret, iter) = Some (h4, ret1, iter1)"
      and rest: "process_commands app vs (h4, ret1, iter1) = Some (h2, ret', iter')"
      by (auto simp: bind_eq_Some_conv)
    have "cr_action h4 = ConstantCommandAction status \<and> cr_calls h4 = os_calls ctx"
      using o one[OF pc Cons.prems(2)] pc by (auto simp: v process_command_def Let_def split: option.splits if_splits)
    from Cons.IH[OF rest this] show ?case .
  qed simp
  have "?I (Some h)"
    using assms unfolding ParseCommands_def
  proof (rule ParseWith_inv)
    show "?I (Some (CommandResponseHandler_make (prm_maxControlsPerRequest (os_params ctx)) (ConstantCommandAction status) writer (os_calls ctx)))"
      by (simp add: CommandResponseHandler_make_def)
  next
    fix call ih s s' res
    assume "?I s" and "CommandResponseHandler_ProcessHeader app call ih s = Some (s', res)"
    then show "?I s'"
      by (auto simp: CommandResponseHandler_ProcessHeader_def bind_eq_Some_conv ProcessAny_def RespondToHeader_def
          split: HandlerCall.splits option.splits if_splits prod.splits elim!: on_state_inv dest!: all)
  qed
  then show ?thesis by (simp add: EndCommands_def)
qed

section \<open>A request with commands is always answered\<close>

definition convertible :: "Item \<Rightarrow> bool" where
  "convertible it \<longleftrightarrow> (\<forall>st. convert_command (set_status st it) \<noteq> None)"

lemma command_convertible:
  assumes "map_of command_serializers t = Some c" "has_type t it"
  shows "convertible it"
  using assms
  by (cases it) (auto simp: convertible_def command_serializers_def Group12Var1_def Group41Var1_def Group41Var2_def Group41Var3_def Group41Var4_def
      ConvertGroup12Var1_def ConvertQS_def split: if_splits)

lemma process_commands_total:
  assumes "list_all (\<lambda>v. convertible (fst v)) vs" "\<forall>i. iter = Some i \<longrightarrow> oc_convert (pw_serializer i) = convert_command"
  shows "\<exists>h' ret' iter'. process_commands app vs (h, ret, iter) = Some (h', ret', iter')
    \<and> (cr_writer h' = None \<longleftrightarrow> cr_writer h = None)"
  using assms
proof (induction vs arbitrary: h ret iter)
  case (Cons v vs)
  obtain command index where v: "v = (command, index)" by fastforce
  obtain h1 st where pc: "ProcessCommand app command index h = (h1, st)" by fastforce
  have w1: "cr_writer h1 = cr_writer h" using pc by (auto simp: ProcessCommand_def split: if_splits prod.splits)
  have wr: "\<exists>i' w' ok. PrefixedWriteIterator_Write (set_status st command) n i w = Some (i', w', ok) \<and> pw_serializer i' = pw_serializer i"
    if "iter = Some i" for n i w
  proof -
    have "convert_command (set_status st command) \<noteq> None" "oc_convert (pw_serializer i) = convert_command"
      using Cons.prems that by (simp_all add: convertible_def v)
    then show ?thesis by (auto simp: PrefixedWriteIterator_Write_def WriteObject_def WriteTarget_def case_prod_unfold)
  qed
  have "\<exists>h2 ret2 iter2. process_command app v (h, ret, iter) = Some (h2, ret2, iter2) \<and> (cr_writer h2 = None \<longleftrightarrow> cr_writer h = None)
    \<and> (\<forall>i. iter2 = Some i \<longrightarrow> oc_convert (pw_serializer i) = convert_command)"
  proof (cases iter)
    case (Some i)
    then show ?thesis using wr[OF Some] Cons.prems w1
      by (cases "cr_writer h") (fastforce simp: process_command_def v pc Let_def)+
  qed (use w1 in \<open>auto simp: process_command_def v pc Let_def\<close>)
  then obtain h2 ret2 iter2 where one: "process_command app v (h, ret, iter) = Some (h2, ret2, iter2)"
    "cr_writer h2 = None \<longleftrightarrow> cr_writer h = None" "\<forall>i. iter2 = Some i \<longrightarrow> oc_convert (pw_serializer i) = convert_command"
    by (elim exE conjE) (rule that)
  from Cons.IH[OF _ one(3), of h2 ret2] Cons.prems(1) one show ?case by simp
qed simp

lemma ProcessAny_total:
  assumes "list_all (\<lambda>v. convertible (fst v)) vs" "oc_convert serializer = convert_command"
  shows "\<exists>h' ret. ProcessAny app record1 serializer vs h = Some (h', ret) \<and> (cr_writer h' = None \<longleftrightarrow> cr_writer h = None)"
proof -
  have "\<exists>h' ret. RespondToHeader app it qc serializer vs h = Some (h', ret) \<and> (cr_writer h' = None \<longleftrightarrow> cr_writer h = None)" for it qc
  proof (cases "cr_writer h")
    case None
    with process_commands_total[OF assms(1), of None app h IIN_Empty] show ?thesis by (auto simp: RespondToHeader_def)
  next
    case (Some w)
    obtain i w1 where i: "IterateOverCountWithPrefix it qc serializer w = (i, w1)" by fastforce
    then have "pw_serializer i = serializer"
      by (auto simp: IterateOverCountWithPrefix_def PrefixedWriteIterator_make_def PrefixedWriteIterator_Null_def Let_def split: prod.splits if_splits)
    with process_commands_total[OF assms(1), of "Some i" app "h\<lparr>cr_writer := Some w1\<rparr>" IIN_Empty] assms(2) Some i
    show ?thesis by (auto simp: RespondToHeader_def)
  qed
  then show ?thesis by (simp add: ProcessAny_def)
qed

lemma HandleAll_total:
  assumes "list_all call_ok headers"
  shows "\<exists>h'. snd (HandleAll (CommandResponseHandler_ProcessHeader app) headers (ih, Some h)) = Some h' \<and> (cr_writer h' = None \<longleftrightarrow> cr_writer h = None)"
  using assms
proof (induction headers arbitrary: ih h)
  case Nil
  then show ?case by (simp add: HandleAll_def)
next
  case (Cons header headers)
  have one: "\<exists>h'. snd (OnHeader (CommandResponseHandler_ProcessHeader app) header (ih, Some h)) = Some h' \<and> (cr_writer h' = None \<longleftrightarrow> cr_writer h = None)"
  proof (cases "\<exists>record1 cnt t vs serializer. header = OnPrefixOf record1 cnt t vs \<and> map_of command_serializers t = Some serializer")
    case True
    then obtain record1 cnt t vs serializer where header: "header = OnPrefixOf record1 cnt t vs" "map_of command_serializers t = Some serializer" by blast
    then obtain xs where xs: "vs = Some xs" "list_all (\<lambda>x. has_type t (fst x)) xs" using Cons.prems by auto
    have "list_all (\<lambda>v. convertible (fst v)) xs" using xs(2) command_convertible[OF header(2)] by (auto simp: list_all_iff)
    moreover have "oc_convert serializer = convert_command"
      using header(2) by (auto simp: command_serializers_def item_codec_def split: if_splits)
    ultimately show ?thesis using ProcessAny_total[of xs serializer app record1 h] header xs(1)
      by (auto simp: OnHeader_def CommandResponseHandler_ProcessHeader_def on_state_def)
  next
    case False
    then have "CommandResponseHandler_ProcessHeader app header ih (Some h) = None"
      by (auto simp: CommandResponseHandler_ProcessHeader_def split: HandlerCall.splits option.splits)
    then show ?thesis by (simp add: OnHeader_def ProcessUnsupportedHeader_def)
  qed
  then obtain ih1 h1 where h1: "OnHeader (CommandResponseHandler_ProcessHeader app) header (ih, Some h) = (ih1, Some h1)"
    "cr_writer h1 = None \<longleftrightarrow> cr_writer h = None" by (metis prod.collapse)
  from Cons.IH[of ih1 h1] Cons.prems h1 show ?case by (simp add: HandleAll_def)
qed

lemma ParseCommands_total:
  "\<exists>errors h. ParseCommands app action objs w ctx = (parse_result FC_SELECT objs, errors, Some h) \<and> (cr_writer h = None \<longleftrightarrow> w = None)"
proof -
  let ?h = "CommandResponseHandler_make (prm_maxControlsPerRequest (os_params ctx)) action w (os_calls ctx)"
  obtain r headers where parse: "APDUParser_Parse CommandResponseHandler_IsAllowed ParserSettings_Default objs = (r, headers)" by fastforce
  have "list_all call_ok headers"
  proof (cases "r = PR_OK")
    case True
    then obtain calls where "ParseSinglePass (Some CommandResponseHandler_IsAllowed) ParserSettings_Default 0 objs = (PR_OK, calls)"
      using parse by (auto simp: APDUParser_Parse_def Let_def split: if_splits) (metis prod.collapse)
    from ParseSinglePass_OK[OF this] this show ?thesis using parse by (simp add: APDUParser_Parse_def)
  next
    case False
    then show ?thesis using Parse_error[of CommandResponseHandler_IsAllowed ParserSettings_Default objs] parse by simp
  qed
  note total = HandleAll_total[OF this, of app IAPDUHandler_make ?h]
  obtain ih s where run: "HandleAll (CommandResponseHandler_ProcessHeader app) headers (IAPDUHandler_make, Some ?h) = (ih, s)" by fastforce
  have "cr_writer ?h = w" by (simp add: CommandResponseHandler_make_def)
  with total run obtain h where
    "HandleAll (CommandResponseHandler_ProcessHeader app) headers (IAPDUHandler_make, Some ?h) = (ih, Some h)" "cr_writer h = None \<longleftrightarrow> w = None"
    by auto
  then show ?thesis by (simp add: ParseCommands_def ParseWith_def parse parse_result_def)
qed

lemma HandleNonReadResponse_total:
  assumes "ah_function header \<in> {FC_SELECT, FC_OPERATE, FC_DIRECT_OPERATE}"
  shows "\<exists>ctx' writer' iin. HandleNonReadResponse app now header objs writer ctx = Some (ctx', Some writer', iin)"
proof -
  have p: "\<exists>errors h. ParseCommands app action objs (Some writer) ctx = (parse_result FC_SELECT objs, errors, Some h) \<and> (\<exists>w. cr_writer h = Some w)" for action
    using ParseCommands_total[of app action objs "Some writer" ctx] by auto
  show ?thesis
    using assms p[of "CommandActionAdapter_make True"] p[of "CommandActionAdapter_make False"]
      p[of "ConstantCommandAction (ValidateSelection (sq_num (sol_seq (os_sol ctx))) now (prm_selectTimeout (os_params ctx)) objs (os_control ctx))"]
    by (auto simp: HandleNonReadResponse_def HandleSelect_def HandleOperate_def HandleDirectOperate_def HandleCommandWithConstant_def Let_def)
qed

section \<open>What a request makes of the application\<close>

definition operates :: "AppCall \<Rightarrow> bool" where
  "operates c \<longleftrightarrow> (\<exists>command index. c = OperateCommand command index)"

text \<open>No command is executed, and the selection, the parameters' limits and the deferred request stay.\<close>

definition spares :: "OContext \<Rightarrow> OContext \<Rightarrow> bool" where
  "spares ctx ctx' \<longleftrightarrow> (\<exists>cs. os_calls ctx' = os_calls ctx @ cs \<and> list_all (\<lambda>c. \<not> operates c) cs) \<and> os_control ctx' = os_control ctx
     \<and> prm_maxControlsPerRequest (os_params ctx') = prm_maxControlsPerRequest (os_params ctx)
     \<and> prm_selectTimeout (os_params ctx') = prm_selectTimeout (os_params ctx) \<and> os_deferred ctx' = os_deferred ctx"

lemma spares_refl [simp]: "spares ctx ctx"
  by (simp add: spares_def)

lemma spares_trans: "spares a b \<Longrightarrow> spares b c \<Longrightarrow> spares a c"
  by (auto simp: spares_def)

lemma spares_same:
  "os_calls ctx' = os_calls ctx \<Longrightarrow> os_control ctx' = os_control ctx \<Longrightarrow> os_params ctx' = os_params ctx
    \<Longrightarrow> os_deferred ctx' = os_deferred ctx \<Longrightarrow> spares ctx ctx'"
  by (simp add: spares_def)

lemma HandleUnsolicited_spares: "HandleUnsolicited change objs ctx = (ctx', iin) \<Longrightarrow> spares ctx ctx'"
  by (auto simp: HandleUnsolicited_def spares_def split: prod.splits if_splits)

lemma HandleRestart_spares: "HandleRestart app objs warm w ctx = Some (ctx', w', iin) \<Longrightarrow> spares ctx ctx'"
  by (auto simp: HandleRestart_def Let_def spares_def operates_def split: if_splits RestartMode.splits)

lemma HandleDelayMeasure_spares: "HandleDelayMeasure objs w ctx = Some (ctx', w', iin) \<Longrightarrow> spares ctx ctx'"
  by (auto simp: HandleDelayMeasure_def split: if_splits)

definition adds_none :: "AppCall list \<Rightarrow> AppCall list \<Rightarrow> bool" where
  "adds_none calls calls' \<longleftrightarrow> (\<exists>cs. calls' = calls @ cs \<and> list_all (\<lambda>c. \<not> operates c) cs)"

lemma adds_none_intros [intro]: "adds_none calls calls" "adds_none calls calls' \<Longrightarrow> \<not> operates c \<Longrightarrow> adds_none calls (calls' @ [c])"
  by (auto simp: adds_none_def)

lemma not_operates [simp]:
  "\<not> operates (WriteAbsoluteTime t)" "\<not> operates (WriteTimeAndInterval vs)" "\<not> operates (RecordClassAssignment ty pc r)"
  "\<not> operates (BeginTransmit b)" "\<not> operates (SelectCommand c i)" "\<not> operates CommandsStart" "\<not> operates CommandsEnd"
  "operates (OperateCommand c i)"
  by (simp_all add: operates_def)

lemma HandleWrite_spares:
  assumes "HandleWrite app objs ctx = Some (ctx', iin)"
  shows "spares ctx ctx'"
proof -
  obtain result errors s where p: "ParseWith AllowAll ParserSettings_Default (WriteHandler_ProcessHeader app) objs
      (Some (WriteHandler_make (os_staticIIN ctx) (os_calls ctx))) = (result, errors, s)" by (metis prod_cases3)
  have "pred_option (\<lambda>w. adds_none (os_calls ctx) (wh_calls w)) s"
    using p
  proof (rule ParseWith_inv)
    fix header ih s s' res
    assume "pred_option (\<lambda>w. adds_none (os_calls ctx) (wh_calls w)) s" "WriteHandler_ProcessHeader app header ih s = Some (s', res)"
    then show "pred_option (\<lambda>w. adds_none (os_calls ctx) (wh_calls w)) s'"
      by (auto simp: WriteHandler_ProcessHeader_def WriteHandler_IIN_def WriteHandler_Time_def WriteHandler_TimeAndInterval_def
          split: HandlerCall.splits option.splits if_splits prod.splits elim!: on_state_inv intro!: adds_none_intros(2))
  qed (auto simp: WriteHandler_make_def)
  then show ?thesis using assms p by (auto simp: HandleWrite_def spares_def adds_none_def)
qed

lemma HandleAssignClass_spares:
  assumes "HandleAssignClass app objs ctx = (ctx', iin)"
  shows "spares ctx ctx'"
proof -
  obtain result errors a where p: "ParseWith AllowAll ParserSettings_NoContents AssignClassHandler_ProcessHeader objs
      (AssignClassHandler_make (os_buffers ctx) (os_calls ctx)) = (result, errors, a)" by (metis prod_cases3)
  have "adds_none (os_calls ctx) (ac_calls a)"
    using p
  proof (rule ParseWith_inv)
    fix header ih a a' res
    assume "adds_none (os_calls ctx) (ac_calls a)" "AssignClassHandler_ProcessHeader header ih a = Some (a', res)"
    then show "adds_none (os_calls ctx) (ac_calls a')"
      by (cases header) (auto simp: AssignClass_AllObjects_def AssignClass_Range_def IsExpectingAssignment_def RecordClass_def Let_def
          ProcessAssignAll_def ProcessAssignRange_def NotifyApplicationOfAssignment_def split: prod.splits option.splits if_splits
          intro!: adds_none_intros(2))
  qed (auto simp: AssignClassHandler_make_def)
  then show ?thesis using assms p by (auto simp: HandleAssignClass_def spares_def adds_none_def set_buffers_def split: if_splits)
qed

text \<open>The commands a request has executed or selected.\<close>

definition request_commands :: "OContext \<Rightarrow> bytes \<Rightarrow> IndexedItem list" where
  "request_commands ctx objs = take (unat (prm_maxControlsPerRequest (os_params ctx))) (commands objs)"

definition request_calls :: "int \<Rightarrow> FunctionCode \<Rightarrow> bytes \<Rightarrow> nat \<Rightarrow> OContext \<Rightarrow> AppCall list" where
  "request_calls now fc objs room ctx =
     (if room < length objs then []
      else case fc of
        FC_SELECT \<Rightarrow> command_calls True (request_commands ctx objs)
      | FC_DIRECT_OPERATE \<Rightarrow> command_calls False (request_commands ctx objs)
      | FC_OPERATE \<Rightarrow>
          (if ValidateSelection (sq_num (sol_seq (os_sol ctx))) now (prm_selectTimeout (os_params ctx)) objs (os_control ctx) = SUCCESS
           then command_calls False (request_commands ctx objs) else [])
      | _ \<Rightarrow> [])"

definition all_selected :: "OutstationApplication \<Rightarrow> bytes \<Rightarrow> nat \<Rightarrow> OContext \<Rightarrow> bool" where
  "all_selected app objs room ctx \<longleftrightarrow> length objs \<le> room \<and> parse_result FC_SELECT objs = PR_OK
     \<and> (\<forall>st\<in>set (answers app True (os_calls ctx) (request_commands ctx objs)). st = SUCCESS)"

definition request_control :: "OutstationApplication \<Rightarrow> int \<Rightarrow> FunctionCode \<Rightarrow> bytes \<Rightarrow> nat \<Rightarrow> OContext \<Rightarrow> ControlState" where
  "request_control app now fc objs room ctx =
     (if fc = FC_SELECT \<and> all_selected app objs room ctx
      then ControlState_Select (sq_num (sol_seq (os_sol ctx))) now objs (os_control ctx) else os_control ctx)"

lemma command_handlers:
  "HandleSelect app now objs w ctx = Some (ctx', w', iin) \<Longrightarrow>
    os_calls ctx' = os_calls ctx @ request_calls now FC_SELECT objs (Remaining w) ctx
    \<and> os_control ctx' = request_control app now FC_SELECT objs (Remaining w) ctx"
  "HandleOperate app now objs w ctx = Some (ctx', w', iin) \<Longrightarrow>
    os_calls ctx' = os_calls ctx @ request_calls now FC_OPERATE objs (Remaining w) ctx \<and> os_control ctx' = os_control ctx"
  "HandleDirectOperate app objs (Some w) ctx = Some (ctx', w2, iin) \<Longrightarrow>
    os_calls ctx' = os_calls ctx @ request_calls now FC_DIRECT_OPERATE objs (Remaining w) ctx \<and> os_control ctx' = os_control ctx"
  "HandleDirectOperate app objs None ctx = Some (ctx', w2, iin) \<Longrightarrow>
    os_calls ctx' = os_calls ctx @ command_calls False (request_commands ctx objs) \<and> os_control ctx' = os_control ctx"
proof -
  have control: "os_control (EndCommands h c) = os_control c" for h c by (simp add: EndCommands_def)
  {
    fix a wr
    obtain result errors s where p: "ParseCommands app a objs wr ctx = (result, errors, s)" by (metis prod_cases3)
    have "result = parse_result FC_SELECT objs"
      using p by (auto simp: ParseCommands_def ParseWith_def parse_result_def split: prod.splits)
    with p have "\<exists>errors s. ParseCommands app a objs wr ctx = (parse_result FC_SELECT objs, errors, s)" by blast
  }
  note parse = this
  have calls: "os_calls (EndCommands h c) = os_calls ctx @ command_calls isSelect (request_commands ctx objs)"
    if "ParseCommands app (CommandActionAdapter_make isSelect) objs wr ctx = (result, errors, Some h)" for isSelect wr result errors h c
    using EndCommands_progress[OF ParseCommands_progress[OF that]] by (simp add: request_commands_def)
  have success: "AllCommandsSuccessful h \<longleftrightarrow> (\<forall>st\<in>set (answers app True (os_calls ctx) (request_commands ctx objs)). st = SUCCESS)"
    if "ParseCommands app (CommandActionAdapter_make True) objs wr ctx = (result, errors, Some h)" for wr result errors h
    using AllCommandsSuccessful_progress[OF ParseCommands_progress[OF that]] by (simp add: request_commands_def)
  show "os_calls ctx' = os_calls ctx @ request_calls now FC_SELECT objs (Remaining w) ctx
    \<and> os_control ctx' = request_control app now FC_SELECT objs (Remaining w) ctx"
    if h: "HandleSelect app now objs w ctx = Some (ctx', w', iin)"
  proof (cases "Remaining w < length objs")
    case True
    with h show ?thesis by (simp add: HandleSelect_def request_calls_def request_control_def all_selected_def)
  next
    case False
    obtain errors s where p: "ParseCommands app (CommandActionAdapter_make True) objs (Some w) ctx = (parse_result FC_SELECT objs, errors, s)"
      using parse by blast
    from False h obtain h' where "s = Some h'" by (auto simp: HandleSelect_def p)
    with False h p success[of "Some w"] calls[of True "Some w"] show ?thesis
      by (auto simp: HandleSelect_def request_calls_def request_control_def all_selected_def control split: if_splits)
  qed
  show "os_calls ctx' = os_calls ctx @ request_calls now FC_OPERATE objs (Remaining w) ctx \<and> os_control ctx' = os_control ctx"
    if h: "HandleOperate app now objs w ctx = Some (ctx', w', iin)"
  proof -
    define st where "st = ValidateSelection (sq_num (sol_seq (os_sol ctx))) now (prm_selectTimeout (os_params ctx)) objs (os_control ctx)"
    consider (full) "Remaining w < length objs" | (valid) "\<not> Remaining w < length objs" "st = SUCCESS"
      | (invalid) "\<not> Remaining w < length objs" "st \<noteq> SUCCESS" by blast
    then show ?thesis
    proof cases
      case full
      with h show ?thesis by (simp add: HandleOperate_def request_calls_def)
    next
      case valid
      obtain errors s where p: "ParseCommands app (CommandActionAdapter_make False) objs (Some w) ctx = (parse_result FC_SELECT objs, errors, s)"
        using parse by blast
      from valid h obtain h' where "s = Some h'" "ctx' = EndCommands h' ctx" by (auto simp: HandleOperate_def p Let_def st_def[symmetric])
      with valid p calls[of False "Some w"] show ?thesis by (auto simp: request_calls_def control st_def[symmetric])
    next
      case invalid
      obtain errors s where p: "ParseCommands app (ConstantCommandAction st) objs (Some w) ctx = (parse_result FC_SELECT objs, errors, s)"
        using parse by blast
      from invalid h obtain h' where "s = Some h'" "ctx' = EndCommands h' ctx"
        by (auto simp: HandleOperate_def HandleCommandWithConstant_def p Let_def st_def[symmetric])
      with invalid p ParseCommands_constant[of app st objs "Some w"] show ?thesis by (auto simp: request_calls_def control st_def[symmetric])
    qed
  qed
  have direct: "os_calls ctx' = os_calls ctx @ (if \<exists>w. wr = Some w \<and> Remaining w < length objs then [] else command_calls False (request_commands ctx objs))
    \<and> os_control ctx' = os_control ctx" if h: "HandleDirectOperate app objs wr ctx = Some (ctx', w2, iin)" for wr
  proof -
    obtain errors s where p: "ParseCommands app (CommandActionAdapter_make False) objs wr ctx = (parse_result FC_SELECT objs, errors, s)"
      using parse by blast
    show ?thesis using h p calls[of False wr] by (auto simp: HandleDirectOperate_def control split: if_splits option.splits)
  qed
  show "HandleDirectOperate app objs (Some w) ctx = Some (ctx', w2, iin) \<Longrightarrow>
    os_calls ctx' = os_calls ctx @ request_calls now FC_DIRECT_OPERATE objs (Remaining w) ctx \<and> os_control ctx' = os_control ctx"
    using direct[of "Some w"] by (simp add: request_calls_def)
  show "HandleDirectOperate app objs None ctx = Some (ctx', w2, iin) \<Longrightarrow>
    os_calls ctx' = os_calls ctx @ command_calls False (request_commands ctx objs) \<and> os_control ctx' = os_control ctx"
    using direct[of None] by simp
qed

definition command_functions :: "FunctionCode set" where
  "command_functions = {FC_SELECT, FC_OPERATE, FC_DIRECT_OPERATE}"

lemma HandleNonReadResponse_calls:
  assumes h: "HandleNonReadResponse app now header objs writer ctx = Some (ctx', w', iin)"
  shows "if ah_function header \<in> command_functions
    then os_calls ctx' = os_calls ctx @ request_calls now (ah_function header) objs (Remaining writer) ctx
      \<and> os_control ctx' = request_control app now (ah_function header) objs (Remaining writer) ctx
    else spares ctx ctx'"
proof (cases "ah_function header")
  case FC_SELECT
  then show ?thesis using h command_handlers(1) by (simp add: HandleNonReadResponse_def Let_def command_functions_def)
next
  case FC_OPERATE
  then show ?thesis using h command_handlers(2) by (simp add: HandleNonReadResponse_def Let_def command_functions_def request_control_def)
next
  case FC_DIRECT_OPERATE
  then show ?thesis using h command_handlers(3) by (simp add: HandleNonReadResponse_def Let_def command_functions_def request_control_def)
qed (use h in \<open>auto simp: HandleNonReadResponse_def Let_def command_functions_def HandleDisableUnsolicited_def HandleEnableUnsolicited_def
    split: if_splits prod.splits
    intro: HandleWrite_spares HandleAssignClass_spares HandleUnsolicited_spares HandleRestart_spares HandleDelayMeasure_spares\<close>)

lemma Remaining_response:
  assumes "TxBuffer_Start tx = Some response"
  shows "Remaining (GetWriter (SetControl c (SetFunction fc response))) = length (tx_buffer tx) - 4"
  using TxBuffer_Start_4[OF assms]
  by (simp add: Remaining_def GetWriter_def HeaderWriter_make_def SetControl_def SetFunction_def WSlice_Size_def)

lemma GetResponseIIN_spares: "spares ctx (fst (GetResponseIIN app ctx))"
  by (rule spares_same) (simp_all add: GetResponseIIN_frame)

lemma BeginResponseTx_spares: "spares ctx (BeginResponseTx response ctx)"
  by (simp add: spares_def BeginResponseTx_simps)

lemma keeps_params:
  assumes "keeps ctx ctx'"
  shows "prm_maxControlsPerRequest (os_params ctx') = prm_maxControlsPerRequest (os_params ctx)"
    "prm_selectTimeout (os_params ctx') = prm_selectTimeout (os_params ctx)" "os_deferred ctx' = os_deferred ctx"
proof -
  have p: "os_params ctx' = (os_params ctx)\<lparr>prm_unsolClassMask := prm_unsolClassMask (os_params ctx')\<rparr>"
    and d: "os_deferred ctx' = os_deferred ctx" using assms unfolding keeps_def by blast+
  show "prm_maxControlsPerRequest (os_params ctx') = prm_maxControlsPerRequest (os_params ctx)" by (subst p) simp
  show "prm_selectTimeout (os_params ctx') = prm_selectTimeout (os_params ctx)" by (subst p) simp
  show "os_deferred ctx' = os_deferred ctx" by (rule d)
qed

lemma RespondToNonReadRequest_calls:
  assumes "RespondToNonReadRequest app now header objs ctx = Some (ctx', st)"
  defines "room \<equiv> length (tx_buffer (sol_tx (os_sol ctx))) - 4"
  shows "if ah_function header \<in> command_functions
    then (\<exists>r. os_calls ctx' = os_calls ctx @ request_calls now (ah_function header) objs room ctx @ [BeginTransmit r])
      \<and> os_control ctx' = request_control app now (ah_function header) objs room ctx \<and> os_deferred ctx' = os_deferred ctx
      \<and> prm_maxControlsPerRequest (os_params ctx') = prm_maxControlsPerRequest (os_params ctx)
      \<and> prm_selectTimeout (os_params ctx') = prm_selectTimeout (os_params ctx)
    else spares ctx ctx'"
proof -
  let ?ctx = "ctx\<lparr>os_history := RecordLastProcessedRequest header objs (os_history ctx)\<rparr>"
  from assms(1) obtain response ctx1 writer iin response' where start: "TxBuffer_Start (sol_tx (os_sol ctx)) = Some response"
    and h: "HandleNonReadResponse app now header objs
      (GetWriter (SetControl (AppControlField_make True True False False (SEQ (ah_control header))) (SetFunction FC_RESPONSE response))) ?ctx
      = Some (ctx1, Some writer, iin)"
    and c: "ctx' = BeginResponseTx response' (fst (GetResponseIIN app ctx1))"
    by (auto simp: RespondToNonReadRequest_def Let_def bind_eq_Some_conv case_prod_unfold)
  have rc: "request_commands ?ctx objs = request_commands ctx objs" by (simp add: request_commands_def)
  have same: "request_calls now fc objs room ?ctx = request_calls now fc objs room ctx"
    "request_control app now fc objs room ?ctx = request_control app now fc objs room ctx" for fc
    unfolding request_calls_def request_control_def all_selected_def rc by simp_all
  have params: "prm_maxControlsPerRequest (os_params ctx1) = prm_maxControlsPerRequest (os_params ctx)"
    "prm_selectTimeout (os_params ctx1) = prm_selectTimeout (os_params ctx)" "os_deferred ctx1 = os_deferred ctx"
    using keeps_params[OF HandleNonReadResponse_keeps[OF h]] by simp_all
  note effect = HandleNonReadResponse_calls[OF h, unfolded Remaining_response[OF start] room_def[symmetric] same]
  show ?thesis
  proof (cases "ah_function header \<in> command_functions")
    case True
    with effect params show ?thesis by (simp add: c BeginResponseTx_simps GetResponseIIN_frame)
  next
    case False
    with effect have "spares ?ctx ctx1" by simp
    then have "spares ?ctx ctx'" unfolding c using GetResponseIIN_spares BeginResponseTx_spares spares_trans by metis
    with False show ?thesis by (simp add: spares_def)
  qed
qed

lemma RespondToNonReadRequest_total:
  assumes "ah_function header \<in> {FC_SELECT, FC_OPERATE, FC_DIRECT_OPERATE}" "length (tx_buffer (sol_tx (os_sol ctx))) \<ge> 4"
  shows "\<exists>ctx'. RespondToNonReadRequest app now header objs ctx = Some (ctx', SolIdle)"
proof -
  obtain response where start: "TxBuffer_Start (sol_tx (os_sol ctx)) = Some response"
    using assms(2) by (simp add: TxBuffer_Start_def APDUResponse_make_def APDUWrapper_make_def)
  obtain ctx1 writer iin where "HandleNonReadResponse app now header objs
      (GetWriter (SetControl (AppControlField_make True True False False (SEQ (ah_control header))) (SetFunction FC_RESPONSE response)))
      (ctx\<lparr>os_history := RecordLastProcessedRequest header objs (os_history ctx)\<rparr>) = Some (ctx1, Some writer, iin)"
    using HandleNonReadResponse_total[OF assms(1)] by blast
  then show ?thesis by (simp add: RespondToNonReadRequest_def Let_def start case_prod_unfold)
qed

text \<open>
  \<^bold>\<open>C10\<close>.  The commands of a request.  The application is called with the commands of a \<^verbatim>\<open>SELECT\<close>, \<^verbatim>\<open>OPERATE\<close> or \<^verbatim>\<open>DIRECT_OPERATE\<close>
  one by one, in the order of the objects, between one start and one end, and with no more than the configured maximum; with
  none at all if the response has no room for all objects, or an \<^verbatim>\<open>OPERATE\<close> does not match the selection.  A selection is
  recorded exactly when all of these commands were answered with success.
\<close>

theorem commands_in_order:
  fixes objs :: bytes and now :: int
  assumes "ah_function header \<in> {FC_SELECT, FC_OPERATE, FC_DIRECT_OPERATE}" "length (tx_buffer (sol_tx (os_sol ctx))) \<ge> 4"
  defines "cmds \<equiv> take (unat (prm_maxControlsPerRequest (os_params ctx))) (commands objs)"
    and "fits \<equiv> length objs \<le> length (tx_buffer (sol_tx (os_sol ctx))) - 4"
    and "selection \<equiv> ValidateSelection (sq_num (sol_seq (os_sol ctx))) now (prm_selectTimeout (os_params ctx)) objs (os_control ctx)"
  shows "\<exists>ctx' r. RespondToNonReadRequest app now header objs ctx = Some (ctx', SolIdle)
    \<and> os_calls ctx' = os_calls ctx
      @ (if fits \<and> (ah_function header = FC_OPERATE \<longrightarrow> selection = SUCCESS) then command_calls (ah_function header = FC_SELECT) cmds else [])
      @ [BeginTransmit r]
    \<and> os_control ctx' =
      (if ah_function header = FC_SELECT \<and> fits \<and> parse_result FC_SELECT objs = PR_OK
          \<and> (\<forall>st\<in>set (answers app True (os_calls ctx) cmds). st = SUCCESS)
       then ControlState_Select (sq_num (sol_seq (os_sol ctx))) now objs (os_control ctx) else os_control ctx)"
proof -
  obtain ctx' where "RespondToNonReadRequest app now header objs ctx = Some (ctx', SolIdle)"
    using RespondToNonReadRequest_total[OF assms(1,2)] by blast
  then show ?thesis using RespondToNonReadRequest_calls[of app now header objs ctx ctx' SolIdle] assms(1)
    by (auto simp: command_functions_def request_calls_def request_commands_def request_control_def all_selected_def cmds_def fits_def selection_def)
qed

text \<open>One setpoint: object 41, variation 2, at index 3.\<close>

definition setpoint :: bytes where
  "setpoint = [41, 2, 0x17, 1, 3, 5, 0, 0]"

lemma setpoint_record: "GetRecord 41 2 = \<lparr>gvr_enumeration = 0x2902, gvr_type = GVT_EVENT, gvr_group = 41, gvr_variation = 2\<rparr>"
  by (simp add: GetRecord_def GetEnumAndType_def GroupVariationRecord_GetType_def GroupVariationFromType_def GetGroupVar_def
      known_variations_def GroupVar_def GroupVariation_UNKNOWN_def)

lemma setpoint_descriptor:
  "map_of prefix_descriptors 0x2902 = Some (snd (descriptor T_AnalogOutputInt16 It_AnalogOutputInt16 Group41Var2))"
proof -
  let ?d = "descriptor T_AnalogOutputInt16 It_AnalogOutputInt16 Group41Var2"
  have "fst ?d = 0x2902" by (simp add: descriptor_def Group41Var2_def GetGroupVar_def)
  moreover have "(fst ?d, snd ?d) \<in> set prefix_descriptors" unfolding prod.collapse prefix_descriptors_def by simp
  ultimately show ?thesis using map_of_is_SomeI[OF prefix_keys_distinct, of "fst ?d" "snd ?d"] by simp
qed

lemma setpoint_allowed: "CommandResponseHandler_IsAllowed 0 0x2902 UINT8_CNT_UINT8_INDEX"
  by (simp add: CommandResponseHandler_IsAllowed_def GroupVar_def)

lemma setpoint_header:
  assumes "w = None \<or> w = Some CommandResponseHandler_IsAllowed"
  shows "APDUParser_ParseHeader w ParserSettings_Default 0 setpoint =
     (PR_OK, [], [OnPrefixOf \<lparr>gvr_enumeration = 0x2902, gvr_type = GVT_EVENT, gvr_group = 41, gvr_variation = 2, hr_qualifier = 0x17, hr_headerIndex = 0\<rparr>
         1 T_AnalogOutputInt16 (Some [(It_AnalogOutputInt16 \<lparr>ao_value = 5, ao_status = SUCCESS\<rparr>, 3)])])"
proof -
  let ?r = "\<lparr>gvr_enumeration = 0x2902, gvr_type = GVT_EVENT, gvr_group = 41, gvr_variation = 2, hr_qualifier = 0x17, hr_headerIndex = 0\<rparr> :: HeaderRecord"
  have q: "CountIndexParser_ParseHeader Index8 ParserSettings_Default ?r [1, 3, 5, 0, 0] =
     (PR_OK, [], [OnPrefixOf ?r 1 T_AnalogOutputInt16 (Some [(It_AnalogOutputInt16 \<lparr>ao_value = 5, ao_status = SUCCESS\<rparr>, 3)])])"
    by (simp add: CountIndexParser_ParseHeader_def ParseCount_def CountIndexParser_ParseCountOfObjects_def GroupVar_def setpoint_descriptor
        CountIndexParser_Process_def descriptor_def Group41Var2_def CreateBufferedCollection_def with_prefix_index_def ReadTarget_def
        Parse_Read_def NumParser_Read_def Let_def Bit16LE_Read_def CommandStatusFromType_def)
  show ?thesis using assms setpoint_allowed q
    by (auto simp: setpoint_def APDUParser_ParseHeader_def ParseObjectHeader_def setpoint_record GroupVariation_UNKNOWN_def QualifierCodeFromType_def
      ParseQualifier_def GetQualifierCode_def HeaderRecord_make_def)
qed

lemma setpoint_parse:
  "APDUParser_Parse CommandResponseHandler_IsAllowed ParserSettings_Default setpoint =
     (PR_OK, [OnPrefixOf \<lparr>gvr_enumeration = 0x2902, gvr_type = GVT_EVENT, gvr_group = 41, gvr_variation = 2, hr_qualifier = 0x17, hr_headerIndex = 0\<rparr>
         1 T_AnalogOutputInt16 (Some [(It_AnalogOutputInt16 \<lparr>ao_value = 5, ao_status = SUCCESS\<rparr>, 3)])])"
proof -
  have "ParseSinglePass w ParserSettings_Default 0 setpoint =
     (PR_OK, [OnPrefixOf \<lparr>gvr_enumeration = 0x2902, gvr_type = GVT_EVENT, gvr_group = 41, gvr_variation = 2, hr_qualifier = 0x17, hr_headerIndex = 0\<rparr>
         1 T_AnalogOutputInt16 (Some [(It_AnalogOutputInt16 \<lparr>ao_value = 5, ao_status = SUCCESS\<rparr>, 3)])])"
    if "w = None \<or> w = Some CommandResponseHandler_IsAllowed" for w
    using that by (subst ParseSinglePass.simps) (simp add: setpoint_header ParseSinglePass.simps[of w _ _ "[]"], simp add: setpoint_def)
  then show ?thesis by (simp add: APDUParser_Parse_def)
qed

lemma setpoint_commands: "commands setpoint = [(It_AnalogOutputInt16 \<lparr>ao_value = 5, ao_status = SUCCESS\<rparr>, 3)]"
  by (simp add: commands_def setpoint_parse command_serializers_def)

lemma setpoint_serializer: "map_of command_serializers T_AnalogOutputInt16 = Some (item_codec It_AnalogOutputInt16 Group41Var2)"
  by (simp add: command_serializers_def)

definition bench :: OContext where
  "bench = sample\<lparr>os_isOnline := True, os_sol := (os_sol sample)\<lparr>sol_tx := TxBuffer_make 20\<rparr>\<rparr>"

theorem commands_in_order_witness:
  "\<exists>ctx' r. RespondToNonReadRequest sample_app 7 \<lparr>ah_function = FC_SELECT, ah_control = AppControlField_Request 0\<rparr> setpoint bench = Some (ctx', SolIdle)
    \<and> os_calls ctx' = [CommandsStart, SelectCommand (It_AnalogOutputInt16 \<lparr>ao_value = 5, ao_status = SUCCESS\<rparr>) 3, CommandsEnd, BeginTransmit r]
    \<and> ct_expectedSeq (os_control ctx') = 1 \<and> ct_selectTime (os_control ctx') = 7"
proof -
  have b: "length (tx_buffer (sol_tx (os_sol bench))) = 20" "os_calls bench = []" "prm_maxControlsPerRequest (os_params bench) = 16"
    "sq_num (sol_seq (os_sol bench)) = 0" "length setpoint = 8" "parse_result FC_SELECT setpoint = PR_OK"
    by (simp_all add: bench_def sample_def OContext_make_def sample_params_def TxBuffer_make_def OutstationSolState_make_def OutstationSeqNum_make_def
        setpoint_def parse_result_def setpoint_parse[unfolded setpoint_def])
  have "\<forall>st\<in>set (answers sample_app True [] [(It_AnalogOutputInt16 \<lparr>ao_value = 5, ao_status = SUCCESS\<rparr>, 3)]). st = SUCCESS"
    by (simp add: answers_def answer_def sample_app_def DefaultOutstationApplication_def)
  then show ?thesis
    using commands_in_order[of "\<lparr>ah_function = FC_SELECT, ah_control = AppControlField_Request 0\<rparr>" bench sample_app 7 setpoint] b
    by (auto simp: setpoint_commands command_calls_def command_call_def ControlState_Select_def AppSeqNum_Next_def)
qed

end
