(* ===== verification/SelectBeforeOperate.thy ===== *)
theory SelectBeforeOperate
  imports OutstationCommands
begin

text \<open>
  Select before operate, over all runs of an outstation: every command that is executed was asked for by a direct operate, or
  by an operate that followed a matching selection in time.
\<close>

section \<open>What is left alone\<close>

lemma LoadResponse_spares: "LoadResponse w ctx = Some (ctx', w', control) \<Longrightarrow> spares ctx ctx'"
  by (auto simp: LoadResponse_def Let_def outstation_updates bind_eq_Some_conv intro!: spares_same split: prod.splits if_splits)

lemma HandleRead_spares:
  assumes "HandleRead objs w ctx = Some (ctx', w', iin, control)"
  shows "spares ctx ctx'"
proof -
  from assms obtain b where u: "Unselect (os_eventBuffer ctx) = Some b" by (auto simp: HandleRead_def bind_eq_Some_conv)
  define ctx1 where "ctx1 = set_buffers (Static_Unselect (os_buffers ctx)) (set_eventBuffer b (ResponseContext_Reset ctx))"
  obtain result errors s where p: "ParseWith AllowAll ParserSettings_NoContents ReadHandler_ProcessHeader objs
      (Some (os_buffers ctx1, os_eventBuffer ctx1)) = (result, errors, s)" by (metis prod_cases3)
  from assms obtain db b' where s: "s = Some (db, b')"
    by (auto simp: HandleRead_def Let_def u p ctx1_def[symmetric] bind_eq_Some_conv)
  let ?ctx2 = "set_buffers db (set_eventBuffer b' ctx1)"
  have q: "spares ctx ?ctx2" by (rule spares_same) (simp_all add: ctx1_def outstation_updates)
  show ?thesis
  proof (cases "result = PR_OK")
    case True
    with assms have "LoadResponse w ?ctx2 = Some (ctx', w', control)"
      by (auto simp: HandleRead_def Let_def u p ctx1_def[symmetric] s bind_eq_Some_conv)
    then show ?thesis by (rule spares_trans[OF q LoadResponse_spares])
  next
    case False
    with assms have "ctx' = ResponseContext_Reset ?ctx2" by (auto simp: HandleRead_def Let_def u p ctx1_def[symmetric] s)
    then show ?thesis using q by (simp add: ResponseContext_Reset_def spares_def)
  qed
qed

lemma spares_left: "spares ctx' ctx'' \<Longrightarrow> os_calls ctx' = os_calls ctx \<Longrightarrow> os_control ctx' = os_control ctx \<Longrightarrow> os_params ctx' = os_params ctx
    \<Longrightarrow> os_deferred ctx' = os_deferred ctx \<Longrightarrow> spares ctx ctx''"
  by (simp add: spares_def)

lemma BeginTx_spares: "spares ctx (BeginTx r ctx)"
  by (simp add: spares_def BeginTx_def)

lemma FinishReadResponse_spares:
  assumes "FinishReadResponse app seq w iin control ctx = (ctx', st)"
  shows "spares ctx ctx'"
proof -
  let ?ctx = "ctx\<lparr>os_sol := (os_sol ctx)\<lparr>sol_seq := (sol_seq (os_sol ctx))\<lparr>sq_confirmNum := seq\<rparr>\<rparr>\<rparr>"
  have s: "spares ctx (BeginResponseTx response (fst (GetResponseIIN app ?ctx)))" for response
    by (rule spares_trans[OF spares_trans[OF _ GetResponseIIN_spares] BeginResponseTx_spares]) (rule spares_same, simp_all)
  have "spares ctx (StartSolicitedConfirmTimer (BeginResponseTx response (fst (GetResponseIIN app ?ctx))))" for response
    by (rule spares_trans[OF s]) (rule spares_same, simp_all add: StartSolicitedConfirmTimer_def)
  with s show ?thesis using assms by (auto simp: FinishReadResponse_def Let_def case_prod_unfold split: if_splits)
qed

lemma RespondToReadRequest_spares:
  assumes "RespondToReadRequest app header objs ctx = Some (ctx', st)"
  shows "spares ctx ctx'"
proof -
  let ?ctx = "ctx\<lparr>os_history := RecordLastProcessedRequest header objs (os_history ctx)\<rparr>"
  from assms obtain response ctx1 w iin control where
    h: "HandleRead objs (GetWriter (SetFunction FC_RESPONSE response)) ?ctx = Some (ctx1, w, iin, control)"
    and f: "FinishReadResponse app (SEQ (ah_control header)) w iin control ctx1 = (ctx', st)"
    by (auto simp: RespondToReadRequest_def Let_def bind_eq_Some_conv)
  have "spares ctx ctx1" by (rule spares_left[OF HandleRead_spares[OF h]]) simp_all
  then show ?thesis using FinishReadResponse_spares[OF f] by (rule spares_trans)
qed

lemma ProcessConfirm_spares:
  assumes "ProcessConfirm app header ctx = Some ctx'"
  shows "spares ctx ctx'"
proof (cases "UNS (ah_control header)")
  case True
  with assms show ?thesis
    by (auto simp: ProcessConfirm_def Unsol_OnConfirm_def set_unsol_def outstation_updates Let_def
        split: UnsolicitedState.splits if_splits intro!: spares_same)
next
  case False
  have continue: "spares ctx1 ctx2" if c: "ContinueMultiFragResponse app seq ctx1 = Some (ctx2, st)" for seq ctx1 ctx2 st
  proof -
    from c obtain response ctx3 w control where
      l: "LoadResponse (GetWriter (SetFunction FC_RESPONSE response)) ctx1 = Some (ctx3, w, control)"
      and f: "FinishReadResponse app seq w IIN_Empty control ctx3 = (ctx2, st)"
      by (auto simp: ContinueMultiFragResponse_def bind_eq_Some_conv)
    show ?thesis by (rule spares_trans[OF LoadResponse_spares[OF l] FinishReadResponse_spares[OF f]])
  qed
  from False assms obtain ctx1 st where s: "Sol_OnConfirm app header ctx = Some (ctx1, st)" and c: "ctx' = set_sol (ctx1, st)"
    by (auto simp: ProcessConfirm_def)
  have "spares ctx ctx1"
    using s by (auto simp: Sol_OnConfirm_def Let_def bind_eq_Some_conv outstation_updates
        split: SolicitedState.splits if_splits intro: spares_same spares_left[OF continue])
  then show ?thesis unfolding c by (rule spares_trans) (auto simp: set_sol_def intro: spares_same)
qed

lemma SendUnsolicited_spares: "spares ctx (SendUnsolicited app response ctx)"
proof -
  have "spares ctx (set_unsol (StartUnsolicitedConfirmTimer (fst (GetResponseIIN app ctx)), UnsolConfirmWait))"
    by (rule spares_trans[OF GetResponseIIN_spares]) (rule spares_same, simp_all add: set_unsol_def StartUnsolicitedConfirmTimer_def)
  then show ?thesis unfolding SendUnsolicited_def Let_def case_prod_unfold
    by (rule spares_trans) (simp add: spares_def BeginUnsolTx_def BeginTx_def Let_def)
qed

lemma CheckForUnsolicited_spares:
  assumes "CheckForUnsolicited app ctx = Some ctx'"
  shows "spares ctx ctx'"
  using assms by (auto simp: CheckForUnsolicited_def bind_eq_Some_conv split: if_splits
      intro: SendUnsolicited_spares spares_left[OF SendUnsolicited_spares] simp: set_eventBuffer_def)

section \<open>The commands that may be executed\<close>

text \<open>
  \<open>asked header objs\<close>: the request was received; \<open>made n t\<close>: call \<open>n\<close> of the application was made at time \<open>t\<close>; \<open>calls\<close> are the
  calls made before.
\<close>

definition was_selected ::
  "OutstationApplication \<Rightarrow> nat \<Rightarrow> (APDUHeader \<Rightarrow> bytes \<Rightarrow> bool) \<Rightarrow> (nat \<Rightarrow> int \<Rightarrow> bool) \<Rightarrow> AppCall list \<Rightarrow> ControlState \<Rightarrow> bool" where
  "was_selected app m asked made calls c \<longleftrightarrow>
     (\<exists>header objs pre r post t. asked header objs \<and> ah_function header = FC_SELECT
       \<and> calls = pre @ command_calls True (take m (commands objs)) @ BeginTransmit r # post \<and> made (length pre) t
       \<and> (\<forall>st\<in>set (answers app True pre (take m (commands objs))). st = SUCCESS)
       \<and> c = ControlState_Select (SEQ (ah_control header)) t objs ControlState_make)"

definition may_execute ::
  "OutstationApplication \<Rightarrow> nat \<Rightarrow> int \<Rightarrow> (APDUHeader \<Rightarrow> bytes \<Rightarrow> bool) \<Rightarrow> (nat \<Rightarrow> int \<Rightarrow> bool) \<Rightarrow> AppCall list \<Rightarrow> IndexedItem \<Rightarrow> bool" where
  "may_execute app m timeout asked made calls x \<longleftrightarrow>
     (\<exists>header objs now. asked header objs \<and> x \<in> set (take m (commands objs)) \<and> made (length calls) now
       \<and> (ah_function header \<in> {FC_DIRECT_OPERATE, FC_DIRECT_OPERATE_NR}
          \<or> ah_function header = FC_OPERATE
            \<and> (\<exists>c. was_selected app m asked made calls c
                \<and> ValidateSelection (SEQ (ah_control header)) now timeout objs c = SUCCESS)))"

definition justified ::
  "OutstationApplication \<Rightarrow> nat \<Rightarrow> int \<Rightarrow> (APDUHeader \<Rightarrow> bytes \<Rightarrow> bool) \<Rightarrow> (nat \<Rightarrow> int \<Rightarrow> bool) \<Rightarrow> AppCall list \<Rightarrow> bool" where
  "justified app m timeout asked made calls \<longleftrightarrow>
     (\<forall>n<length calls. \<forall>c i. calls ! n = OperateCommand c i \<longrightarrow> may_execute app m timeout asked made (take n calls) (c, i))"

lemma was_selected_append: "was_selected app m asked made calls c \<Longrightarrow> was_selected app m asked made (calls @ cs) c"
  unfolding was_selected_def by (elim exE conjE) (intro exI conjI, auto)

lemma justified_append:
  assumes "justified app m timeout asked made calls"
    and "\<And>n c i. n < length cs \<Longrightarrow> cs ! n = OperateCommand c i \<Longrightarrow> may_execute app m timeout asked made (calls @ take n cs) (c, i)"
  shows "justified app m timeout asked made (calls @ cs)"
  unfolding justified_def
proof (intro allI impI)
  fix n c i
  assume n: "n < length (calls @ cs)" and op: "(calls @ cs) ! n = OperateCommand c i"
  show "may_execute app m timeout asked made (take n (calls @ cs)) (c, i)"
  proof (cases "n < length calls")
    case True
    with op assms(1) show ?thesis by (simp add: justified_def nth_append)
  next
    case False
    with n op assms(2)[of "n - length calls" c i] show ?thesis by (simp add: nth_append)
  qed
qed

lemma justified_spared:
  assumes "justified app m timeout asked made calls" "list_all (\<lambda>c. \<not> operates c) cs"
  shows "justified app m timeout asked made (calls @ cs)"
proof (rule justified_append[OF assms(1)])
  fix n c i
  assume "n < length cs" "cs ! n = OperateCommand c i"
  with assms(2) show "may_execute app m timeout asked made (calls @ take n cs) (c, i)"
    by (auto simp: list_all_length operates_def)
qed

text \<open>The calls of one request.\<close>

lemma command_calls_operate:
  assumes "n < length (command_calls sel cmds)" "command_calls sel cmds ! n = OperateCommand c i"
  shows "\<not> sel" "(c, i) \<in> set cmds"
proof -
  have "OperateCommand c i \<in> set (command_calls sel cmds)" using assms by (metis nth_mem)
  then show "\<not> sel" "(c, i) \<in> set cmds" by (auto simp: command_calls_def command_call_def split: if_splits)
qed

section \<open>The invariant\<close>

definition selection_inv ::
  "OutstationApplication \<Rightarrow> nat \<Rightarrow> int \<Rightarrow> (APDUHeader \<Rightarrow> bytes \<Rightarrow> bool) \<Rightarrow> (nat \<Rightarrow> int \<Rightarrow> bool) \<Rightarrow> nat \<Rightarrow> int \<Rightarrow> OContext \<Rightarrow> bool" where
  "selection_inv app m timeout asked made first_call now ctx \<longleftrightarrow>
     unat (prm_maxControlsPerRequest (os_params ctx)) = m \<and> prm_selectTimeout (os_params ctx) = timeout
     \<and> (df_isSet (os_deferred ctx) \<longrightarrow> asked (df_header (os_deferred ctx)) (df_objects (os_deferred ctx)))
     \<and> (os_control ctx = ControlState_make \<or> was_selected app m asked made (os_calls ctx) (os_control ctx))
     \<and> justified app m timeout asked made (os_calls ctx)
     \<and> first_call \<le> length (os_calls ctx) \<and> (\<forall>n\<ge>first_call. made n now) \<and> (\<forall>header objs. asked header objs \<longrightarrow> asked header [])"

lemma selection_inv_spares:
  assumes "selection_inv app m timeout asked made first_call now ctx" "spares ctx ctx'"
  shows "selection_inv app m timeout asked made first_call now ctx'"
  using assms by (auto simp: selection_inv_def spares_def intro: justified_spared was_selected_append)

lemma selection_inv_change:
  assumes "selection_inv app m timeout asked made first_call now ctx" "os_calls ctx' = os_calls ctx" "os_control ctx' = os_control ctx"
    "os_params ctx' = os_params ctx" "os_deferred ctx' = os_deferred ctx"
  shows "selection_inv app m timeout asked made first_call now ctx'"
  using assms by (simp add: selection_inv_def)

lemma selection_inv_Defer:
  assumes "selection_inv app m timeout asked made first_call now ctx" "asked header objs"
  shows "selection_inv app m timeout asked made first_call now (Defer header objs ctx)"
  using assms by (auto simp: selection_inv_def Defer_def DeferredRequest_Set_def)

lemma commands_Nil [simp]: "commands [] = []"
  by (simp add: commands_def APDUParser_Parse_def ParseSinglePass.simps)

text \<open>The selection before any \<^verbatim>\<open>SELECT\<close> matches no commands.\<close>

lemma initial_selection:
  assumes "ValidateSelection seq now timeout objs ControlState_make = SUCCESS"
  shows "commands objs = []"
proof -
  have "objs = []" using assms by (auto simp: ValidateSelection_def ControlState_make_def Let_def split: if_splits)
  then show ?thesis by simp
qed

lemma RespondToNonReadRequest_selection:
  assumes inv: "selection_inv app m timeout asked made first_call now ctx" and asked: "asked header objs"
    and seq: "sq_num (sol_seq (os_sol ctx)) = SEQ (ah_control header)"
    and r: "RespondToNonReadRequest app now header objs ctx = Some (ctx', st)"
  shows "selection_inv app m timeout asked made first_call now ctx'"
proof (cases "ah_function header \<in> command_functions")
  case False
  with RespondToNonReadRequest_calls[OF r] have "spares ctx ctx'" by simp
  with inv show ?thesis by (rule selection_inv_spares)
next
  case True
  let ?room = "length (tx_buffer (sol_tx (os_sol ctx))) - 4" and ?cmds = "take m (commands objs)"
  define fc where "fc = ah_function header"
  from True RespondToNonReadRequest_calls[OF r] obtain rsp where
    calls: "os_calls ctx' = os_calls ctx @ request_calls now fc objs ?room ctx @ [BeginTransmit rsp]"
    and control: "os_control ctx' = request_control app now fc objs ?room ctx"
    and same: "os_deferred ctx' = os_deferred ctx" "prm_maxControlsPerRequest (os_params ctx') = prm_maxControlsPerRequest (os_params ctx)"
      "prm_selectTimeout (os_params ctx') = prm_selectTimeout (os_params ctx)"
    unfolding fc_def by auto
  note i = inv[unfolded selection_inv_def]
  have cmds: "request_commands ctx objs = ?cmds" using i by (simp add: request_commands_def)
  have made: "made n now" if "length (os_calls ctx) \<le> n" for n using i that by auto
  have op: "may_execute app m timeout asked made (os_calls ctx @ take n (request_calls now fc objs ?room ctx)) (c, i)"
    if n: "n < length (request_calls now fc objs ?room ctx)" "request_calls now fc objs ?room ctx ! n = OperateCommand c i" for n c i
  proof -
    have direct: "(c, i) \<in> set ?cmds \<and> (fc = FC_DIRECT_OPERATE
        \<or> fc = FC_OPERATE \<and> ValidateSelection (SEQ (ah_control header)) now timeout objs (os_control ctx) = SUCCESS)"
      using n command_calls_operate[of n _ ?cmds c i] i
      by (auto simp: request_calls_def cmds seq split: if_splits FunctionCode.splits)
    have "was_selected app m asked made (os_calls ctx @ cs) (os_control ctx)" if "fc = FC_OPERATE" for cs
    proof (cases "os_control ctx = ControlState_make")
      case True
      with direct that have "commands objs = []" using initial_selection by auto
      with direct show ?thesis by simp
    next
      case False
      with i show ?thesis by (auto intro: was_selected_append)
    qed
    with direct asked made show ?thesis unfolding may_execute_def fc_def[symmetric]
      by (intro exI[of _ header] exI[of _ objs] exI[of _ now]) (auto simp: fc_def)
  qed
  have "justified app m timeout asked made (os_calls ctx @ (request_calls now fc objs ?room ctx @ [BeginTransmit rsp]))"
  proof (rule justified_append)
    show "justified app m timeout asked made (os_calls ctx)" using i by blast
    fix n c i
    assume "n < length (request_calls now fc objs ?room ctx @ [BeginTransmit rsp])"
      and "(request_calls now fc objs ?room ctx @ [BeginTransmit rsp]) ! n = OperateCommand c i"
    then show "may_execute app m timeout asked made (os_calls ctx @ take n (request_calls now fc objs ?room ctx @ [BeginTransmit rsp])) (c, i)"
      using op[of n c i] by (auto simp: nth_append less_Suc_eq split: if_splits)
  qed
  then have j: "justified app m timeout asked made (os_calls ctx')" by (simp add: calls)
  have "os_control ctx' = ControlState_make \<or> was_selected app m asked made (os_calls ctx') (os_control ctx')"
  proof (cases "fc = FC_SELECT \<and> all_selected app objs ?room ctx")
    case True
    then have c: "os_control ctx' = ControlState_Select (SEQ (ah_control header)) now objs ControlState_make"
      by (simp add: control request_control_def seq ControlState_Select_def)
    have k: "os_calls ctx' = os_calls ctx @ command_calls True ?cmds @ BeginTransmit rsp # []"
      using True by (simp add: calls request_calls_def all_selected_def cmds)
    have "\<forall>st\<in>set (answers app True (os_calls ctx) ?cmds). st = SUCCESS" using True by (simp add: all_selected_def cmds)
    then have "was_selected app m asked made (os_calls ctx') (os_control ctx')"
      unfolding was_selected_def using asked True made[OF order.refl]
      by (intro exI[of _ header] exI[of _ objs] exI[of _ "os_calls ctx"] exI[of _ rsp] exI[of _ "[]"] exI[of _ now] conjI k c) (simp_all add: fc_def)
    then show ?thesis ..
  next
    case False
    then have "os_control ctx' = os_control ctx" by (auto simp: control request_control_def)
    with i show ?thesis unfolding calls by (auto intro: was_selected_append)
  qed
  with i j same show ?thesis by (simp add: selection_inv_def calls)
qed

lemma ProcessRequest_selection:
  assumes inv: "selection_inv app m timeout asked made first_call now ctx" and asked: "asked header objs"
    and p: "ProcessRequest app now header objs ctx = Some ctx'"
  shows "selection_inv app m timeout asked made first_call now ctx'"
proof (cases "UNS (ah_control header)")
  case True
  with p inv show ?thesis by (simp add: ProcessRequest_def)
next
  case False
  let ?sol = "os_sol ctx"
  let ?ctx = "ctx\<lparr>os_sol := ?sol\<lparr>sol_seq := (sol_seq ?sol)\<lparr>sq_num := SEQ (ah_control header)\<rparr>\<rparr>\<rparr>"
  have inv': "selection_inv app m timeout asked made first_call now ?ctx" by (rule selection_inv_change[OF inv]) simp_all
  have wait: "selection_inv app m timeout asked made first_call now (ConfirmTimer_Cancel (Defer header objs ?ctx))"
    by (rule selection_inv_change[OF selection_inv_Defer[OF inv' asked]]) (simp_all add: ConfirmTimer_Cancel_def)
  have new: "selection_inv app m timeout asked made first_call now ctx1" if "ProcessNewRequest app now header objs ctx = Some (ctx1, st)" for ctx1 st
  proof (cases "ah_function header = FC_READ")
    case True
    with that have r: "Sol_OnNewReadRequest app header objs ?ctx = Some (ctx1, st)" by (simp add: ProcessNewRequest_def Let_def)
    then show ?thesis using wait selection_inv_Defer[OF inv' asked] selection_inv_spares[OF inv' RespondToReadRequest_spares]
      by (auto simp: Sol_OnNewReadRequest_def split: SolicitedState.splits if_splits)
  next
    case False
    with that have r: "Sol_OnNewNonReadRequest app now header objs ?ctx = Some (ctx1, st)" by (simp add: ProcessNewRequest_def Let_def)
    have "selection_inv app m timeout asked made first_call now ctx1" if "RespondToNonReadRequest app now header objs ?ctx = Some (ctx1, st)"
      by (rule RespondToNonReadRequest_selection[OF inv' asked _ that]) simp
    with r wait show ?thesis by (auto simp: Sol_OnNewNonReadRequest_def split: SolicitedState.splits)
  qed
  have repeat: "selection_inv app m timeout asked made first_call now (fst (Sol_OnRepeatNonReadRequest header objs ctx))"
    using selection_inv_spares[OF inv, of "RepeatResponseTx ctx"] selection_inv_Defer[OF inv asked]
    by (auto simp: Sol_OnRepeatNonReadRequest_def RepeatResponseTx_def BeginTx_spares split: SolicitedState.splits)
  from False p obtain ctx1 st where r: "OnReceiveSolRequest app now header objs ctx = Some (ctx1, st)" and c: "ctx' = set_sol (ctx1, st)"
    by (auto simp: ProcessRequest_def)
  have "selection_inv app m timeout asked made first_call now ctx1"
    using r new repeat inv by (auto simp: OnReceiveSolRequest_def split: if_splits)
  then show ?thesis unfolding c by (rule selection_inv_change) (simp_all add: set_sol_def)
qed

lemma ProcessRequestNoAck_selection:
  assumes inv: "selection_inv app m timeout asked made first_call now ctx" and asked: "asked header objs"
    and p: "ProcessRequestNoAck app header objs ctx = Some ctx'"
  shows "selection_inv app m timeout asked made first_call now ctx'"
proof (cases "ah_function header = FC_DIRECT_OPERATE_NR")
  case False
  with p inv show ?thesis by (simp add: ProcessRequestNoAck_def)
next
  case True
  let ?cmds = "take m (commands objs)"
  from True p obtain w iin where h: "HandleDirectOperate app objs None ctx = Some (ctx', w, iin)" by (auto simp: ProcessRequestNoAck_def)
  note i = inv[unfolded selection_inv_def]
  have calls: "os_calls ctx' = os_calls ctx @ command_calls False ?cmds" and control: "os_control ctx' = os_control ctx"
    using command_handlers(4)[OF h] i by (simp_all add: request_commands_def)
  have "may_execute app m timeout asked made (os_calls ctx @ take n (command_calls False ?cmds)) (c, i)"
    if "n < length (command_calls False ?cmds)" "command_calls False ?cmds ! n = OperateCommand c i" for n c i
    unfolding may_execute_def using command_calls_operate(2)[OF that] asked True i by (intro exI[of _ header] exI[of _ objs] exI[of _ now]) auto
  with i have "justified app m timeout asked made (os_calls ctx')" unfolding calls by (blast intro: justified_append)
  with i show ?thesis
    by (auto simp: selection_inv_def keeps_params[OF HandleDirectOperate_keeps[OF h]] calls control intro: was_selected_append)
qed

lemma ParseHeader_selection:
  assumes inv: "selection_inv app m timeout asked made first_call now ctx"
    and asked: "\<And>header. ParseRequest apdu = Some header \<Longrightarrow> asked header (drop APDU_REQUEST_HEADER_SIZE apdu)"
    and p: "ParseHeader app now apdu ctx = Some ctx'"
  shows "selection_inv app m timeout asked made first_call now ctx'"
  using p inv asked ProcessRequestNoAck_selection[OF inv] selection_inv_Defer[OF inv] ProcessRequest_selection[OF inv]
    selection_inv_spares[OF inv ProcessConfirm_spares]
  by (auto simp: ParseHeader_def ProcessAPDU_def split: option.splits if_splits)

lemma CheckForTaskStart_selection:
  assumes inv: "selection_inv app m timeout asked made first_call now ctx" and p: "CheckForTaskStart app now ctx = Some ctx'"
  shows "selection_inv app m timeout asked made first_call now ctx'"
proof -
  from p obtain ctx1 where d: "CheckForDeferredRequest app now ctx = Some ctx1" and u: "CheckForUnsolicited app ctx1 = Some ctx'"
    by (auto simp: CheckForTaskStart_def bind_eq_Some_conv)
  have "selection_inv app m timeout asked made first_call now ctx1"
  proof (cases "CanTransmit ctx \<and> df_isSet (os_deferred ctx)")
    case False
    with d inv show ?thesis by (simp add: CheckForDeferredRequest_def)
  next
    case True
    let ?d = "os_deferred ctx"
    from True d obtain ctx2 processed where q: "ProcessDeferredRequest app now (df_header ?d) (df_objects ?d) ctx = Some (ctx2, processed)"
      and c: "ctx1 = ctx2\<lparr>os_deferred := (os_deferred ctx2)\<lparr>df_isSet := \<not> processed\<rparr>\<rparr>"
      by (auto simp: CheckForDeferredRequest_def)
    have asked: "asked (df_header ?d) (df_objects ?d)" using inv True by (simp add: selection_inv_def)
    have "selection_inv app m timeout asked made first_call now ctx2 \<and> (\<not> processed \<longrightarrow> ctx2 = ctx)"
      using q inv ProcessRequest_selection[OF inv asked] selection_inv_spares[OF inv ProcessConfirm_spares]
      by (auto simp: ProcessDeferredRequest_def split: if_splits)
    with asked show ?thesis by (auto simp: c selection_inv_def)
  qed
  then show ?thesis using CheckForUnsolicited_spares[OF u] by (rule selection_inv_spares)
qed

lemma Outstation_step_selection:
  assumes inv: "selection_inv app m timeout asked made first_call now ctx"
    and asked: "\<And>apdu header. e = Receive apdu \<Longrightarrow> ParseRequest apdu = Some header \<Longrightarrow> asked header (drop APDU_REQUEST_HEADER_SIZE apdu)"
    and s: "Outstation_step app now e ctx = Some ctx'"
  shows "selection_inv app m timeout asked made first_call now ctx'"
proof -
  have start: "selection_inv app m timeout asked made first_call now ctx'"
    if "CheckForTaskStart app now ctx1 = Some ctx'" "selection_inv app m timeout asked made first_call now ctx1" for ctx1
    using CheckForTaskStart_selection[OF that(2,1)] .
  note change = selection_inv_change[OF inv]
  show ?thesis
  proof (cases e)
    case LowerUp
    have "selection_inv app m timeout asked made first_call now (ctx\<lparr>os_isOnline := True\<rparr>)" by (rule change) simp_all
    with LowerUp s inv show ?thesis by (auto simp: Outstation_step_def OContext_OnLowerLayerUp_def dest: start split: if_splits)
  next
    case LowerDown
    with s inv show ?thesis
      by (auto simp: Outstation_step_def OContext_OnLowerLayerDown_def Let_def outstation_updates DeferredRequest_Reset_def selection_inv_def split: if_splits)
  next
    case (SendResult ok)
    have "selection_inv app m timeout asked made first_call now (ctx\<lparr>os_isTransmitting := False\<rparr>)" by (rule change) simp_all
    with SendResult s inv show ?thesis by (auto simp: Outstation_step_def OContext_OnSendResult_def dest: start split: if_splits)
  next
    case (Receive apdu)
    have "selection_inv app m timeout asked made first_call now ctx1" if "ParseHeader app now apdu ctx = Some ctx1" for ctx1
      by (rule ParseHeader_selection[OF inv asked that]) (rule Receive)
    with Receive s inv show ?thesis
      by (auto simp: Outstation_step_def OContext_OnReceive_def bind_eq_Some_conv intro: start split: if_splits)
  next
    case ConfirmTimerFires
    have sol: "selection_inv app m timeout asked made first_call now (set_sol (Sol_OnConfirmTimeout (ctx\<lparr>os_confirmTimer := None\<rparr>)))"
      by (rule change) (simp_all add: set_sol_def Sol_OnConfirmTimeout_def)
    have unsol: "selection_inv app m timeout asked made first_call now (set_unsol r)"
      if "Unsol_OnConfirmTimeout (ctx\<lparr>os_confirmTimer := None\<rparr>) = Some r" for r
      using that by (auto simp: set_unsol_def Unsol_OnConfirmTimeout_def set_eventBuffer_def split: UnsolicitedState.splits intro: change)
    show ?thesis using s inv ConfirmTimerFires start[OF _ sol] start[OF _ unsol]
      by (auto simp: Outstation_step_def OnConfirmTimer_def bind_eq_Some_conv split: option.splits ConfirmAction.splits)
  next
    case StartTasks
    with s inv show ?thesis by (auto simp: Outstation_step_def intro: start)
  qed (use s in \<open>auto simp: Outstation_step_def SetRestartIIN_def intro: change split: prod.splits\<close>)
qed

section \<open>Runs\<close>

text \<open>The time of each call of the application in a run.\<close>

fun call_times :: "OutstationApplication \<Rightarrow> (int \<times> OutstationEvent) list \<Rightarrow> OContext \<Rightarrow> int list" where
  "call_times app [] ctx = []"
| "call_times app ((now, e) # es) ctx =
     (case Outstation_step app now e ctx of
        None \<Rightarrow> []
      | Some ctx' \<Rightarrow> replicate (length (os_calls ctx') - length (os_calls ctx)) now @ call_times app es ctx')"

definition requested :: "(int \<times> OutstationEvent) list \<Rightarrow> APDUHeader \<Rightarrow> bytes \<Rightarrow> bool" where
  "requested es header objs \<longleftrightarrow>
     (\<exists>t apdu. (t, Receive apdu) \<in> set es \<and> ParseRequest apdu = Some header \<and> objs = drop APDU_REQUEST_HEADER_SIZE apdu)"

text \<open>A deferred request whose objects do not fit into the buffer loses them.\<close>

definition arrived :: "(int \<times> OutstationEvent) list \<Rightarrow> APDUHeader \<Rightarrow> bytes \<Rightarrow> bool" where
  "arrived es header objs \<longleftrightarrow> (\<exists>objs'. requested es header objs' \<and> objs \<in> {objs', []})"

definition made_at :: "int list \<Rightarrow> int \<Rightarrow> nat \<Rightarrow> int \<Rightarrow> bool" where
  "made_at ts now n t \<longleftrightarrow> (if n < length ts then ts ! n = t else t = now)"

lemma Outstation_run_append:
  "Outstation_run app (es @ es') ctx = Option.bind (Outstation_run app es ctx) (Outstation_run app es')"
proof (induction es arbitrary: ctx)
  case (Cons e es)
  then have "Outstation_run app (es @ es') = (\<lambda>ctx. Option.bind (Outstation_run app es ctx) (Outstation_run app es'))" by blast
  then show ?case by (cases e) simp
qed simp

lemma call_times_append:
  assumes "Outstation_run app es ctx = Some ctx'"
  shows "call_times app (es @ es') ctx = call_times app es ctx @ call_times app es' ctx'"
  using assms by (induction app es ctx rule: call_times.induct) (auto simp: bind_eq_Some_conv)

lemma was_selected_mono:
  assumes "was_selected app m asked made calls c" "\<And>header objs. asked header objs \<Longrightarrow> asked' header objs"
    and "\<And>n t. n < length calls \<Longrightarrow> made n t \<Longrightarrow> made' n t"
  shows "was_selected app m asked' made' calls c"
proof -
  from assms(1) obtain header objs pre r post t where w: "asked header objs" "ah_function header = FC_SELECT"
    "calls = pre @ command_calls True (take m (commands objs)) @ BeginTransmit r # post" "made (length pre) t"
    "\<forall>st\<in>set (answers app True pre (take m (commands objs))). st = SUCCESS"
    "c = ControlState_Select (SEQ (ah_control header)) t objs ControlState_make"
    unfolding was_selected_def by blast
  have "length pre < length calls" by (simp add: w(3))
  with w assms(2,3) show ?thesis unfolding was_selected_def by blast
qed

lemma may_execute_mono:
  assumes "may_execute app m timeout asked made calls x" "\<And>header objs. asked header objs \<Longrightarrow> asked' header objs"
    and "\<And>n t. n \<le> length calls \<Longrightarrow> made n t \<Longrightarrow> made' n t"
  shows "may_execute app m timeout asked' made' calls x"
proof -
  have "was_selected app m asked made calls c \<Longrightarrow> was_selected app m asked' made' calls c" for c
    by (rule was_selected_mono[OF _ assms(2,3)]) simp_all
  then show ?thesis using assms unfolding may_execute_def by (meson order.refl)
qed

lemma selection_inv_mono:
  assumes inv: "selection_inv app m timeout asked made first_call now ctx"
    and asked: "\<And>header objs. asked header objs \<Longrightarrow> asked' header objs"
    and made: "\<And>n t. n < length (os_calls ctx) \<Longrightarrow> made n t \<Longrightarrow> made' n t"
    and new: "first_call' \<le> length (os_calls ctx)" "\<forall>n\<ge>first_call'. made' n now'" "\<forall>header objs. asked' header objs \<longrightarrow> asked' header []"
  shows "selection_inv app m timeout asked' made' first_call' now' ctx"
proof -
  have "justified app m timeout asked' made' (os_calls ctx)"
    unfolding justified_def
  proof (intro allI impI)
    fix n c i
    assume n: "n < length (os_calls ctx)" and op: "os_calls ctx ! n = OperateCommand c i"
    with inv have "may_execute app m timeout asked made (take n (os_calls ctx)) (c, i)" by (simp add: selection_inv_def justified_def)
    then show "may_execute app m timeout asked' made' (take n (os_calls ctx)) (c, i)"
      by (rule may_execute_mono[OF _ asked made]) (use n in simp_all)
  qed
  moreover have "was_selected app m asked' made' (os_calls ctx) (os_control ctx)" if "was_selected app m asked made (os_calls ctx) (os_control ctx)"
    by (rule was_selected_mono[OF that asked made])
  ultimately show ?thesis using inv new asked unfolding selection_inv_def by blast
qed

lemma Outstation_run_selection:
  assumes "Outstation_run app es (OContext_make params db) = Some ctx"
  defines "ts \<equiv> call_times app es (OContext_make params db)"
  shows "length ts = length (os_calls ctx)
    \<and> (\<forall>now. selection_inv app (unat (prm_maxControlsPerRequest params)) (prm_selectTimeout params) (arrived es) (made_at ts now) (length ts) now ctx)"
  using assms(1) unfolding ts_def
proof (induction es arbitrary: ctx rule: rev_induct)
  case Nil
  then show ?case
    by (auto simp: selection_inv_def OContext_make_def DeferredRequest_make_def justified_def arrived_def requested_def made_at_def)
next
  case (snoc ev es)
  let ?m = "unat (prm_maxControlsPerRequest params)" and ?timeout = "prm_selectTimeout params" and ?ctx0 = "OContext_make params db"
  obtain now e where ev: "ev = (now, e)" by fastforce
  from snoc.prems obtain ctx1 where run: "Outstation_run app es ?ctx0 = Some ctx1" and s: "Outstation_step app now e ctx1 = Some ctx"
    by (auto simp: Outstation_run_append bind_eq_Some_conv ev)
  define ts ts' where "ts = call_times app es ?ctx0" and "ts' = call_times app (es @ [ev]) ?ctx0"
  have l: "length ts = length (os_calls ctx1)"
    and inv: "selection_inv app ?m ?timeout (arrived es) (made_at ts now) (length ts) now ctx1"
    using snoc.IH[OF run] by (auto simp: ts_def)
  have "selection_inv app ?m ?timeout (arrived (es @ [ev])) (made_at ts now) (length ts) now ctx1"
    by (rule selection_inv_mono[OF inv]) (auto simp: l made_at_def arrived_def requested_def)
  then have inv': "selection_inv app ?m ?timeout (arrived (es @ [ev])) (made_at ts now) (length ts) now ctx"
    by (rule Outstation_step_selection[OF _ _ s]) (auto simp: arrived_def requested_def ev)
  then have le: "length ts \<le> length (os_calls ctx)" by (simp add: selection_inv_def)
  have ts': "ts' = ts @ replicate (length (os_calls ctx) - length ts) now"
    by (simp add: ts'_def ts_def call_times_append[OF run] ev s l[unfolded ts_def])
  have "selection_inv app ?m ?timeout (arrived (es @ [ev])) (made_at ts' now') (length ts') now' ctx" for now'
    by (rule selection_inv_mono[OF inv']) (auto simp: ts' le made_at_def arrived_def requested_def nth_append)
  then show ?case using le by (simp add: ts'_def[symmetric] ts')
qed

text \<open>
  \<^bold>\<open>C9\<close>.  Select before operate.  In every run of an outstation, each command \<open>command\<close> at index \<open>i\<close> that is executed was contained in a
  request that had been received, within its configured maximum; and this was a direct operate, or an \<^verbatim>\<open>OPERATE\<close> that
  follows a \<^verbatim>\<open>SELECT\<close> received before, all whose commands the user's code had accepted, less than the select timeout earlier,
  with the preceding sequence number and with objects of the same length and the same checksum.
\<close>

theorem select_before_operate:
  fixes m :: nat and times :: "int list"
  assumes "Outstation_run app es (OContext_make params db) = Some ctx" "os_calls ctx = before @ OperateCommand command i # after"
  defines "m \<equiv> unat (prm_maxControlsPerRequest params)" and "times \<equiv> call_times app es (OContext_make params db)"
  shows "\<exists>header objs. requested es header objs \<and> (command, i) \<in> set (take m (commands objs))
    \<and> (ah_function header = FC_DIRECT_OPERATE \<or> ah_function header = FC_DIRECT_OPERATE_NR
      \<or> ah_function header = FC_OPERATE
        \<and> (\<exists>header' objs' pre r post. requested es header' objs' \<and> ah_function header' = FC_SELECT
            \<and> before = pre @ command_calls True (take m (commands objs')) @ BeginTransmit r # post
            \<and> (\<forall>st\<in>set (answers app True pre (take m (commands objs'))). st = SUCCESS)
            \<and> times ! length pre \<le> times ! length before \<and> times ! length before - times ! length pre < prm_selectTimeout params
            \<and> SEQ (ah_control header) = AppSeqNum_Next (SEQ (ah_control header'))
            \<and> length objs' = length objs \<and> CalcCrc objs' = CalcCrc objs))"
proof -
  have l: "length times = length (os_calls ctx)"
    and inv: "selection_inv app m (prm_selectTimeout params) (arrived es) (made_at times 0) (length times) 0 ctx"
    using Outstation_run_selection[OF assms(1)] by (auto simp: times_def m_def)
  have "justified app m (prm_selectTimeout params) (arrived es) (made_at times 0) (os_calls ctx)" using inv by (simp add: selection_inv_def)
  moreover have "length before < length (os_calls ctx)" "os_calls ctx ! length before = OperateCommand command i" by (simp_all add: assms(2))
  ultimately have "may_execute app m (prm_selectTimeout params) (arrived es) (made_at times 0) (take (length before) (os_calls ctx)) (command, i)"
    unfolding justified_def by blast
  then have "may_execute app m (prm_selectTimeout params) (arrived es) (made_at times 0) before (command, i)" by (simp add: assms(2))
  then obtain header objs now where h: "arrived es header objs" "(command, i) \<in> set (take m (commands objs))" "made_at times 0 (length before) now"
    and f: "ah_function header \<in> {FC_DIRECT_OPERATE, FC_DIRECT_OPERATE_NR}
      \<or> ah_function header = FC_OPERATE \<and> (\<exists>c. was_selected app m (arrived es) (made_at times 0) before c
         \<and> ValidateSelection (SEQ (ah_control header)) now (prm_selectTimeout params) objs c = SUCCESS)"
    unfolding may_execute_def by blast
  have nonempty: "objs \<noteq> []" using h(2) commands_Nil by auto
  have now: "now = times ! length before" using h(3) l assms(2) by (simp add: made_at_def)
  have "ah_function header = FC_OPERATE
        \<and> (\<exists>header' objs' pre r post. requested es header' objs' \<and> ah_function header' = FC_SELECT
            \<and> before = pre @ command_calls True (take m (commands objs')) @ BeginTransmit r # post
            \<and> (\<forall>st\<in>set (answers app True pre (take m (commands objs'))). st = SUCCESS)
            \<and> times ! length pre \<le> times ! length before \<and> times ! length before - times ! length pre < prm_selectTimeout params
            \<and> SEQ (ah_control header) = AppSeqNum_Next (SEQ (ah_control header'))
            \<and> length objs' = length objs \<and> CalcCrc objs' = CalcCrc objs)"
    if "ah_function header \<notin> {FC_DIRECT_OPERATE, FC_DIRECT_OPERATE_NR}"
  proof -
    from f that obtain c where op: "ah_function header = FC_OPERATE" and w: "was_selected app m (arrived es) (made_at times 0) before c"
      and v: "ValidateSelection (SEQ (ah_control header)) now (prm_selectTimeout params) objs c = SUCCESS" by blast
    from w obtain header' objs' pre r post t where s: "arrived es header' objs'" "ah_function header' = FC_SELECT"
      "before = pre @ command_calls True (take m (commands objs')) @ BeginTransmit r # post" "made_at times 0 (length pre) t"
      "\<forall>st\<in>set (answers app True pre (take m (commands objs'))). st = SUCCESS"
      "c = ControlState_Select (SEQ (ah_control header')) t objs' ControlState_make"
      unfolding was_selected_def by blast
    have t: "t = times ! length pre" using s(3,4) l assms(2) by (simp add: made_at_def)
    have "t \<le> now" "now - t < prm_selectTimeout params" "AppSeqNum_Equals (AppSeqNum_Next (SEQ (ah_control header'))) (SEQ (ah_control header))"
      "length objs' = length objs" "CalcCrc objs' = CalcCrc objs"
      using v by (auto simp: s(6) ValidateSelection_def ControlState_Select_def Let_def split: if_splits)
    moreover from this(4) nonempty have "requested es header' objs'" using s(1) by (auto simp: arrived_def)
    ultimately show ?thesis using op s(2,3,5) unfolding t now AppSeqNum_Equals_def by blast
  qed
  moreover have "requested es header objs" using h(1) nonempty by (auto simp: arrived_def)
  ultimately show ?thesis using h(2) by blast
qed

text \<open>A buffer never gets shorter.\<close>

lemma overwrite_grows: "n \<le> length buf \<Longrightarrow> n \<le> length (overwrite buf off bs)"
  by (auto simp: overwrite_def)

lemma WriteBuffer_grows: "n \<le> length (ws_buffer w) \<Longrightarrow> n \<le> length (ws_buffer (WriteBuffer bs w))"
  by (simp add: WriteBuffer_def Poke_def WSlice_Advance_def overwrite_grows)

lemma Format_Many_grows: "Format_Many fs w = (w', ok) \<Longrightarrow> n \<le> length (ws_buffer w) \<Longrightarrow> n \<le> length (ws_buffer w')"
  by (induction fs w rule: Format_Many.induct) (auto simp: Format_Write_def WriteBuffer_grows split: if_splits prod.splits)

lemma PrefixedWriteIterator_Write_grows:
  assumes "PrefixedWriteIterator_Write v index i w = Some (i', w', ok)" "n \<le> length (ws_buffer (hw_position w))"
  shows "n \<le> length (ws_buffer (hw_position w'))"
  using assms by (auto simp: PrefixedWriteIterator_Write_def WriteObject_def WriteTarget_def split: if_splits prod.splits
      intro: Format_Many_grows WriteBuffer_grows)

lemma IterateOverCountWithPrefix_grows:
  assumes "IterateOverCountWithPrefix it qc c w = (i, w')" "n \<le> length (ws_buffer (hw_position w))"
  shows "n \<le> length (ws_buffer (hw_position w'))"
  using assms by (auto simp: IterateOverCountWithPrefix_def WriteHeaderWithReserve_def WriteHeader_def PrefixedWriteIterator_make_def
      Let_def WSlice_Advance_def WriteBuffer_grows split: if_splits prod.splits)

definition room :: "nat \<Rightarrow> CommandResponseHandler \<Rightarrow> bool" where
  "room n h \<longleftrightarrow> (\<forall>w. cr_writer h = Some w \<longrightarrow> n \<le> length (ws_buffer (hw_position w)))"

lemma ProcessCommand_writer: "ProcessCommand app c i h = (h', st) \<Longrightarrow> cr_writer h' = cr_writer h"
  by (auto simp: ProcessCommand_def split: if_splits prod.splits)

lemma process_commands_room:
  assumes "process_commands app vs (h, ret, iter) = Some (h', ret', iter')" "room n h"
  shows "room n h'"
  using assms
proof (induction vs arbitrary: h ret iter)
  case (Cons v vs)
  obtain c i where v: "v = (c, i)" by fastforce
  from Cons.prems(1) obtain h1 ret1 iter1 where one: "process_command app v (h, ret, iter) = Some (h1, ret1, iter1)"
    and rest: "process_commands app vs (h1, ret1, iter1) = Some (h', ret', iter')" by (auto simp: bind_eq_Some_conv)
  obtain h2 st where p: "ProcessCommand app c i h = (h2, st)" by fastforce
  have "room n h2" using ProcessCommand_writer[OF p] Cons.prems(2) by (simp add: room_def)
  then have "room n h1" using one
    by (auto simp: v process_command_def p Let_def room_def split: option.splits if_splits dest: PrefixedWriteIterator_Write_grows)
  from Cons.IH[OF rest this] show ?case .
qed simp

lemma ParseCommands_room:
  assumes "ParseCommands app action objs (Some w) ctx = (result, errors, Some h)" "n \<le> length (ws_buffer (hw_position w))"
  shows "room n h"
proof -
  have header: "room n h'" if "ProcessAny app record1 serializer vs h = Some (h', ret)" "room n h" for record1 serializer vs h h' ret
  proof -
    have "room n h'" if r: "RespondToHeader app it qc serializer vs h = Some (h', ret)" for it qc
    proof (cases "cr_writer h")
      case None
      then show ?thesis using r \<open>room n h\<close> by (auto simp: RespondToHeader_def split: prod.splits dest: process_commands_room)
    next
      case (Some w)
      obtain iter w1 where i: "IterateOverCountWithPrefix it qc serializer w = (iter, w1)" by fastforce
      with Some \<open>room n h\<close> have "room n (h\<lparr>cr_writer := Some w1\<rparr>)" by (auto simp: room_def dest: IterateOverCountWithPrefix_grows)
      moreover from r Some i obtain h1 iter1 where
        "process_commands app vs (h\<lparr>cr_writer := Some w1\<rparr>, IIN_Empty, Some iter) = Some (h1, ret, iter1)"
        and "h' = h1\<lparr>cr_writer := map_option (PrefixedWriteIterator_destroy (the iter1)) (cr_writer h1)\<rparr>"
        by (auto simp: RespondToHeader_def)
      ultimately show ?thesis using process_commands_room[of app vs "h\<lparr>cr_writer := Some w1\<rparr>"]
        by (auto simp: room_def PrefixedWriteIterator_destroy_def PokeAt_def overwrite_grows)
    qed
    with that(1) show ?thesis by (auto simp: ProcessAny_def split: if_splits)
  qed
  have "pred_option (room n) (Some h)"
    using assms(1) unfolding ParseCommands_def
  proof (rule ParseWith_inv)
    show "pred_option (room n) (Some (CommandResponseHandler_make (prm_maxControlsPerRequest (os_params ctx)) action (Some w) (os_calls ctx)))"
      using assms(2) by (simp add: CommandResponseHandler_make_def room_def)
  next
    fix call ih s s' res
    assume "pred_option (room n) s" "CommandResponseHandler_ProcessHeader app call ih s = Some (s', res)"
    then show "pred_option (room n) s'"
      by (auto simp: CommandResponseHandler_ProcessHeader_def bind_eq_Some_conv split: HandlerCall.splits option.splits
          elim!: on_state_inv intro: header)
  qed
  then show ?thesis by simp
qed

lemma SelectResponse_room:
  assumes "RespondToNonReadRequest app now header objs ctx = Some (ctx', st)" "ah_function header = FC_SELECT"
  shows "length (tx_buffer (sol_tx (os_sol ctx))) \<le> length (tx_buffer (sol_tx (os_sol ctx')))"
proof -
  let ?n = "length (tx_buffer (sol_tx (os_sol ctx)))"
  let ?ctx = "ctx\<lparr>os_history := RecordLastProcessedRequest header objs (os_history ctx)\<rparr>"
  from assms(1) obtain response ctx1 w iin rsp where start: "TxBuffer_Start (sol_tx (os_sol ctx)) = Some response"
    and h: "HandleNonReadResponse app now header objs
      (GetWriter (SetControl (AppControlField_make True True False False (SEQ (ah_control header))) (SetFunction FC_RESPONSE response))) ?ctx
      = Some (ctx1, Some w, iin)"
    and c: "ctx' = BeginResponseTx (SetIIN rsp (APDU_PutWriter w)) (fst (GetResponseIIN app ctx1))"
    by (auto simp: RespondToNonReadRequest_def Let_def bind_eq_Some_conv case_prod_unfold)
  have n: "?n \<le> length (ws_buffer (hw_position
      (GetWriter (SetControl (AppControlField_make True True False False (SEQ (ah_control header))) (SetFunction FC_RESPONSE response)))))"
    using start by (auto simp: TxBuffer_Start_def APDUResponse_make_def APDUWrapper_make_def WSlice_Advance_def WSlice_make_def
        GetWriter_def HeaderWriter_make_def SetControl_def SetFunction_def split: if_splits)
  have "?n \<le> length (ws_buffer (hw_position w))"
    using h n assms(2) by (auto simp: HandleNonReadResponse_def Let_def HandleSelect_def room_def split: if_splits prod.splits
        dest: ParseCommands_room[where n = ?n])
  then show ?thesis by (simp add: c BeginResponseTx_simps TxBuffer_Record_def SetIIN_def APDU_PutWriter_def)
qed

lemma RespondToNonReadRequest_allow:
  assumes "RespondToNonReadRequest app now header objs ctx = Some (ctx', st)"
  shows "prm_allowUnsolicited (os_params ctx') = prm_allowUnsolicited (os_params ctx)"
proof -
  let ?ctx = "ctx\<lparr>os_history := RecordLastProcessedRequest header objs (os_history ctx)\<rparr>"
  from assms obtain response ctx1 w iin response' where
    h: "HandleNonReadResponse app now header objs (GetWriter response) ?ctx = Some (ctx1, Some w, iin)"
    and c: "ctx' = BeginResponseTx response' (fst (GetResponseIIN app ctx1))"
    by (auto simp: RespondToNonReadRequest_def Let_def bind_eq_Some_conv case_prod_unfold)
  have "os_params ctx1 = (os_params ctx)\<lparr>prm_unsolClassMask := prm_unsolClassMask (os_params ctx1)\<rparr>"
    using HandleNonReadResponse_keeps[OF h] unfolding keeps_def by auto
  then have "prm_allowUnsolicited (os_params ctx1) = prm_allowUnsolicited (os_params ctx)"
    by (metis OutstationParams.simps(8) OutstationParams.select_convs(8) OutstationParams.surjective OutstationParams.update_convs(9))
  then show ?thesis by (simp add: c BeginResponseTx_simps GetResponseIIN_frame)
qed

text \<open>A request that arrives while nothing else is going on.\<close>

lemma request_step:
  assumes "os_isOnline ctx" "\<not> os_isTransmitting ctx" "sol_pState (os_sol ctx) = SolIdle"
    and "request_for command_functions apdu header" "rh_hasLast (os_history ctx) \<Longrightarrow> sq_num (sol_seq (os_sol ctx)) \<noteq> SEQ (ah_control header)"
    and "length (tx_buffer (sol_tx (os_sol ctx))) \<ge> 4"
  defines "received \<equiv> ctx\<lparr>os_sol := (os_sol ctx)\<lparr>sol_seq := (sol_seq (os_sol ctx))\<lparr>sq_num := SEQ (ah_control header)\<rparr>\<rparr>\<rparr>"
  shows "\<exists>ctx'. RespondToNonReadRequest app now header (drop 2 apdu) received = Some (ctx', SolIdle)
    \<and> Outstation_step app now (Receive apdu) ctx = Some ctx' \<and> os_isTransmitting ctx'"
proof -
  obtain ctx' where r: "RespondToNonReadRequest app now header (drop 2 apdu) received = Some (ctx', SolIdle)"
    using RespondToNonReadRequest_total[of header received app now "drop 2 apdu"] assms(4,6)
    by (auto simp: request_for_def command_functions_def received_def)
  note facts = RespondToNonReadRequest_history[OF r]
  have tx: "os_isTransmitting ctx'" using RespondToNonReadRequest_sends[OF r] by (simp add: sends_def)
  have "ProcessNewRequest app now header (drop 2 apdu) ctx = Some (ctx', SolIdle)"
    using r assms(3,4) by (auto simp: ProcessNewRequest_def Let_def Sol_OnNewNonReadRequest_def received_def request_for_def command_functions_def)
  then have "OnReceiveSolRequest app now header (drop 2 apdu) ctx = Some (ctx', SolIdle)"
    using assms(5) by (auto simp: OnReceiveSolRequest_def AppSeqNum_Equals_def)
  then have "ParseHeader app now apdu ctx = Some ctx'"
    using assms(2,3,4) facts by (auto simp: ParseHeader_def ProcessAPDU_def ProcessRequest_def request_for_def command_functions_def
        IsNoAckFuncCode_def APDU_REQUEST_HEADER_SIZE_def set_sol_same received_def)
  then have "Outstation_step app now (Receive apdu) ctx = Some ctx'"
    using assms(1) tx by (simp add: Outstation_step_def OContext_OnReceive_def CheckForTaskStart_busy)
  with r tx show ?thesis by blast
qed

definition selecting_params :: OutstationParams where
  "selecting_params = sample_params\<lparr>prm_allowUnsolicited := False, prm_maxTxFragSize := 20\<rparr>"

text \<open>A \<^verbatim>\<open>SELECT\<close> of the setpoint, and the \<^verbatim>\<open>OPERATE\<close> four milliseconds later.\<close>

definition select_and_operate :: "(int \<times> OutstationEvent) list" where
  "select_and_operate = [(0, LowerUp), (1, Receive ([0xC0, 3] @ setpoint)), (2, SendResult True), (5, Receive ([0xC1, 4] @ setpoint))]"

lemma setpoint_requests:
  "request_for command_functions ([0xC0, 3] @ setpoint) \<lparr>ah_function = FC_SELECT, ah_control = AppControlField_Request 0\<rparr>"
  "request_for command_functions ([0xC1, 4] @ setpoint) \<lparr>ah_function = FC_OPERATE, ah_control = AppControlField_Request 1\<rparr>"
  by (simp_all add: request_for_def command_functions_def ParseRequest_def APDU_REQUEST_HEADER_SIZE_def AppControlField_of_byte_def
      AppControlField_Request_def AppControlField_make_def IsFirAndFin_def FunctionCodeFromType_def setpoint_def)

lemma select_and_operate_run:
  "\<exists>ctx r r'. Outstation_run sample_app select_and_operate (OContext_make selecting_params sample_db) = Some ctx
    \<and> os_calls ctx = [CommandsStart, SelectCommand (It_AnalogOutputInt16 \<lparr>ao_value = 5, ao_status = SUCCESS\<rparr>) 3, CommandsEnd, BeginTransmit r, CommandsStart]
      @ OperateCommand (It_AnalogOutputInt16 \<lparr>ao_value = 5, ao_status = SUCCESS\<rparr>) 3 # [CommandsEnd, BeginTransmit r']"
proof -
  let ?cmd = "(It_AnalogOutputInt16 \<lparr>ao_value = 5, ao_status = SUCCESS\<rparr>, 3) :: IndexedItem"
  define ctx0 where "ctx0 = OContext_make selecting_params sample_db"
  define up where "up = ctx0\<lparr>os_isOnline := True\<rparr>"
  let ?sel = "\<lparr>ah_function = FC_SELECT, ah_control = AppControlField_Request 0\<rparr>"
  let ?op = "\<lparr>ah_function = FC_OPERATE, ah_control = AppControlField_Request 1\<rparr>"
  have ctx0: "\<not> os_isOnline ctx0" "\<not> os_isTransmitting ctx0" "\<not> df_isSet (os_deferred ctx0)" "\<not> prm_allowUnsolicited (os_params ctx0)"
    "prm_maxControlsPerRequest (os_params ctx0) = 16" "prm_selectTimeout (os_params ctx0) = 10000" "sol_pState (os_sol ctx0) = SolIdle"
    "\<not> rh_hasLast (os_history ctx0)" "length (tx_buffer (sol_tx (os_sol ctx0))) = 20" "os_calls ctx0 = []"
    by (simp_all add: ctx0_def OContext_make_def selecting_params_def sample_params_def DeferredRequest_make_def RequestHistory_make_def
        OutstationSolState_make_def TxBuffer_make_def)
  have idle: "CheckForTaskStart sample_app t c = Some c" if "\<not> df_isSet (os_deferred c)" "\<not> prm_allowUnsolicited (os_params c)" for t c
    using that by (simp add: CheckForTaskStart_def CheckForDeferredRequest_def CheckForUnsolicited_def)
  have s1: "Outstation_step sample_app 0 LowerUp ctx0 = Some up"
    using ctx0 by (simp add: Outstation_step_def OContext_OnLowerLayerUp_def idle up_def)
  have seq: "SEQ (AppControlField_Request 0) = 0" "SEQ (AppControlField_Request 1) = 1" by (simp_all add: AppControlField_Request_def AppControlField_make_def)
  let ?up = "up\<lparr>os_sol := (os_sol up)\<lparr>sol_seq := (sol_seq (os_sol up))\<lparr>sq_num := 0\<rparr>\<rparr>\<rparr>"
  obtain ctx1 where r1: "RespondToNonReadRequest sample_app 1 ?sel setpoint ?up = Some (ctx1, SolIdle)"
    and s2: "Outstation_step sample_app 1 (Receive ([0xC0, 3] @ setpoint)) up = Some ctx1" "os_isTransmitting ctx1"
    using request_step[of up "[0xC0, 3] @ setpoint" ?sel sample_app 1] setpoint_requests(1) ctx0 by (auto simp: up_def seq)
  have l: "length setpoint = 8" "parse_result FC_SELECT setpoint = PR_OK"
    by (simp_all add: setpoint_def parse_result_def setpoint_parse[unfolded setpoint_def])
  have accepted: "\<forall>st\<in>set (answers sample_app True [] [?cmd]). st = SUCCESS"
    by (simp add: answers_def answer_def sample_app_def DefaultOutstationApplication_def)
  have cmds: "request_commands c setpoint = [?cmd]" if "prm_maxControlsPerRequest (os_params c) = 16" for c
    using that by (simp add: request_commands_def setpoint_commands)
  have up: "request_commands ?up setpoint = [?cmd]" "os_calls ?up = []" "length (tx_buffer (sol_tx (os_sol ?up))) = 20"
    using ctx0 cmds[of ?up] by (simp_all add: up_def)
  obtain r where c1: "os_calls ctx1 = [CommandsStart, SelectCommand (fst ?cmd) 3, CommandsEnd, BeginTransmit r]"
    and sel: "os_control ctx1 = ControlState_Select 0 1 setpoint (os_control ?up)"
    and p1: "\<not> df_isSet (os_deferred ctx1)" "prm_maxControlsPerRequest (os_params ctx1) = 16" "prm_selectTimeout (os_params ctx1) = 10000"
    using RespondToNonReadRequest_calls[OF r1] l up accepted ctx0
    by (auto simp: command_functions_def request_calls_def request_control_def all_selected_def command_calls_def command_call_def up_def)
  note h1 = RespondToNonReadRequest_history[OF r1]
  have unsol: "\<not> prm_allowUnsolicited (os_params ctx1)" using RespondToNonReadRequest_allow[OF r1] ctx0 by (simp add: up_def)
  define sent where "sent = ctx1\<lparr>os_isTransmitting := False\<rparr>"
  have s3: "Outstation_step sample_app 2 (SendResult True) ctx1 = Some sent"
    using s2(2) h1(5) p1 unsol by (simp add: Outstation_step_def OContext_OnSendResult_def idle sent_def up_def)
  have room: "20 \<le> length (tx_buffer (sol_tx (os_sol sent)))" using SelectResponse_room[OF r1] up(3) by (simp add: sent_def)
  let ?sent = "sent\<lparr>os_sol := (os_sol sent)\<lparr>sol_seq := (sol_seq (os_sol sent))\<lparr>sq_num := 1\<rparr>\<rparr>\<rparr>"
  obtain ctx2 where r2: "RespondToNonReadRequest sample_app 5 ?op setpoint ?sent = Some (ctx2, SolIdle)"
    and s4: "Outstation_step sample_app 5 (Receive ([0xC1, 4] @ setpoint)) sent = Some ctx2"
    using request_step[of sent "[0xC1, 4] @ setpoint" ?op sample_app 5] setpoint_requests(2) ctx0 room h1 by (auto simp: up_def seq sent_def)
  have valid: "ValidateSelection 1 5 10000 setpoint (os_control ?sent) = SUCCESS"
    by (simp add: sent_def sel ValidateSelection_def ControlState_Select_def AppSeqNum_Equals_def AppSeqNum_Next_def)
  obtain r' where "os_calls ctx2 = os_calls ctx1 @ [CommandsStart, OperateCommand (fst ?cmd) 3, CommandsEnd, BeginTransmit r']"
    using RespondToNonReadRequest_calls[OF r2] l cmds[of ?sent] p1 valid room
    by (auto simp: command_functions_def request_calls_def command_calls_def command_call_def sent_def)
  with c1 s1 s2 s3 s4 show ?thesis by (simp add: select_and_operate_def ctx0_def[symmetric])
qed

theorem select_before_operate_witness:
  "\<exists>ctx before after header objs. Outstation_run sample_app select_and_operate (OContext_make selecting_params sample_db) = Some ctx
    \<and> os_calls ctx = before @ OperateCommand (It_AnalogOutputInt16 \<lparr>ao_value = 5, ao_status = SUCCESS\<rparr>) 3 # after
    \<and> requested select_and_operate header objs \<and> ah_function header = FC_OPERATE
    \<and> (It_AnalogOutputInt16 \<lparr>ao_value = 5, ao_status = SUCCESS\<rparr>, 3) \<in> set (take 16 (commands objs))"
proof -
  obtain ctx before after where run: "Outstation_run sample_app select_and_operate (OContext_make selecting_params sample_db) = Some ctx"
    "os_calls ctx = before @ OperateCommand (It_AnalogOutputInt16 \<lparr>ao_value = 5, ao_status = SUCCESS\<rparr>) 3 # after"
    using select_and_operate_run by blast
  have "ah_function header \<notin> {FC_DIRECT_OPERATE, FC_DIRECT_OPERATE_NR}" if "requested select_and_operate header objs" for header objs
    using that setpoint_requests by (auto simp: requested_def select_and_operate_def request_for_def)
  then have not_direct: "requested select_and_operate header objs \<Longrightarrow> A \<Longrightarrow>
      ah_function header = FC_DIRECT_OPERATE \<or> ah_function header = FC_DIRECT_OPERATE_NR \<or> ah_function header = FC_OPERATE \<and> B
      \<Longrightarrow> requested select_and_operate header objs \<and> ah_function header = FC_OPERATE \<and> A" for header objs A B by blast
  have m: "unat (prm_maxControlsPerRequest selecting_params) = 16" by (simp add: selecting_params_def sample_params_def)
  show ?thesis using select_before_operate[OF run, unfolded m] by (elim exE conjE) (intro exI conjI, rule run(1), rule run(2), (drule (2) not_direct, blast)+)
qed

end
