(* ===== verification/Spec2Isabelle.thy ===== *)
theory Spec2Isabelle
  imports LinkLayer StaticResponse OutstationReport SelectBeforeOperate
begin

text \<open>
  A verification of opendnp3, the DNP3 protocol stack of \<^verbatim>\<open>src/cpp/libs\<close>: the link layer, the transport function, and the
  application layer of an outstation down to the octets, with the part of the master that reads its responses.

  \<^bold>\<open>The program.\<close>  A stack is a tower of three layers over a byte stream.  The \<^emph>\<open>link layer\<close> (\<^verbatim>\<open>link/\<close>) cuts frames with
  checksums out of the stream and runs a primary station, which sends with confirmations and retries, and a secondary station,
  which answers.  The \<^emph>\<open>transport function\<close> (\<^verbatim>\<open>transport/\<close>) cuts application fragments into segments of at most 250 octets
  and puts them together again.  The \<^emph>\<open>application layer\<close> is a request and response protocol of fragments (APDUs), each a
  header and a sequence of object headers with objects (\<^verbatim>\<open>app/\<close>, \<^verbatim>\<open>objects/\<close>).  An \<^emph>\<open>outstation\<close> (\<^verbatim>\<open>outstation/\<close>) keeps a
  database of current values and a buffer of events, answers requests, and reports events on its own; a \<^emph>\<open>master\<close>
  (\<^verbatim>\<open>master/\<close>) reads them.  All code of a stack runs on one executor, one callback at a time: that is why each handler below
  is a function from state to state, and a run a sequence of events in any order.

  \<^bold>\<open>How the code is modelled.\<close>  A class is a record with the fields of the class, or a datatype where it is an enumeration
  or a set of singleton states; a method is a function of the same name on it (with the class as a prefix where two classes
  have it).  Integers have their width and wrap around.  Buffers are lists of octets written through offsets.  Calls to the
  layer above, the layer below, the user's code and the executor are recorded in the state as a list, in order; what
  user code answers is a parameter that may depend on all calls before.  \<open>None\<close> is an operation that is undefined: a failed
  assertion, a null pointer, a read outside an array, a conversion of a NaN to an integer, a loop that does not end.  Log
  output is left out.  Loops that follow pointers are \<^verbatim>\<open>partial_function (option)\<close>, so that ending is a
  conclusion of the theorems and not part of the definitions; no theorem depends on fuel.

  \<^bold>\<open>The theories\<close>, bottom up.

  \<^item> \<open>Prelude\<close>: machine words, buffers, generic lemmas.
  \<^item> \<open>CRC\<close>, \<open>LinkHeader\<close>, \<open>LinkFrame\<close>: \<^verbatim>\<open>link/CRC\<close>, \<^verbatim>\<open>LinkHeader\<close>, \<^verbatim>\<open>LinkFrame\<close>.  The table-driven checksum is the bit-serial
    one; it detects every burst of up to 16 bits.
  \<^item> \<open>ShiftableBuffer\<close>, \<open>LinkLayerParser\<close>: the receive buffer and the frame parser.  \<open>LinkStream\<close> states what they are for, a
    parser of the byte stream without buffer and positions; \<open>LinkReceiver\<close> proves the refinement, that the frames do not depend
    on how the stream is cut into reads, that every frame handed up lies in the stream with valid checksums, and the round trips.
  \<^item> \<open>TransportSegment\<close> is the interface \<^verbatim>\<open>ITransportSegment\<close> as a locale; \<open>Transport\<close> models both directions, interprets the
    locale, and proves segmentation, reassembly (which received TPDUs make up a delivered fragment, and which are passed over),
    their composition, and that one send at most is under way between two neighbours.
  \<^item> \<open>LinkContext\<close>: \<^verbatim>\<open>LinkContext\<close>, the states of both stations and \<^verbatim>\<open>LinkLayer\<close>; the state objects are constructors, and their
    virtual functions are dispatched by \<open>case\<close>.  \<open>LinkInvariant\<close> has the invariant of a session in the locale of its client,
    \<open>LinkConversation\<close> computes whole conversations, \<open>LinkLayer\<close> interprets the locale on the transport layer and states the
    properties: no reachable session fails an assertion, confirmed sends complete, retries are bounded, a repeated
    frame is delivered once.
  \<^item> \<open>LinkedList\<close>: the list in an array, pointer by pointer, as an implementation of sequences (locale \<open>bounded_list\<close>).
  \<^item> \<open>AppFields\<close>, \<open>SOERecord\<close>, \<open>EventBuffer\<close>: indications and class sets, event records and their counters (locale \<open>tally\<close>), and
    the event buffer, which refines a bounded sequence with quotas per type; what its counters count too much after an event has
    been selected twice (the drift) is followed through all runs of its operations (\<open>buffer_run\<close>).
  \<^item> \<open>Serialization\<close>, \<open>DownSampling\<close>, \<open>Objects\<close>, \<open>Commands\<close>, \<open>AuthObjects\<close>: the wire formats.  A measurement or command object is
    a list of typed fields with a conversion and a factory; doubles are their IEEE representation, computed with exactly.
  \<^item> \<open>HeaderWriter\<close>, \<open>EventWriter\<close>: object headers, write iterators, and the loops that fill a fragment with events.
  \<^item> \<open>IndexSearch\<close>, \<open>StaticDatabase\<close>, \<open>StaticLoad\<close>, \<open>StaticResponse\<close>: the database, its selection by a read and the filling of a
    fragment with the selected values, one header for each run of consecutive indices.
  \<^item> \<open>ObjectParser\<close>, \<open>ParserSafety\<close>: the two-pass parser of object headers.  The calls it makes to a handler are a list; what a
    handler may rely on is a property of that list.
  \<^item> \<open>MeasurementHandler\<close>, \<open>EventReport\<close>: what the master does with the objects of a response, and what it makes of the events
    an outstation has written.
  \<^item> \<open>AppHeader\<close>: function codes, control octet, headers, and every request and response that is built from them.
  \<^item> \<open>OutstationHandlers\<close>: the handlers of reads, writes, class requests, class assignments and commands.
  \<^item> \<open>OutstationContext\<close>: \<^verbatim>\<open>OContext\<close> with its state and the states of the two channels; \<open>Outstation_step\<close> is one event,
    \<open>Outstation_run\<close> a run.
  \<^item> \<open>OutstationSafety\<close>: what every step does to the calls (\<open>extends\<close>, \<open>keeps\<close>, \<open>quiet\<close>, \<open>sends\<close>, \<open>acts\<close>), and that an outstation
    sends one fragment at a time.  \<open>OutstationRequests\<close>: rejected, repeated and lost requests.  \<open>OutstationReport\<close>:
    unsolicited reports, from the event buffer to the master's application and back.
  \<^item> \<open>OutstationCommands\<close>: the commands a request contains, and the calls it makes of the application, one by one.
    \<open>SelectBeforeOperate\<close> extends this to runs: an invariant of \<open>Outstation_step\<close> keeps for every executed command the request
    that asked for it, and for an \<^verbatim>\<open>OPERATE\<close> the selection it relies on, with the times of both (\<open>call_times\<close>).

  \<^bold>\<open>Bounds.\<close>  Buffers have the sizes of the code (292 octets for a frame, 250 for a segment); a fragment may be as large as its
  length, at most 65535 octets of objects where the parser is involved; sequence numbers wrap around at 64 and 16; counters of
  events are \<^verbatim>\<open>uint32_t\<close>, and the theorems ask for fewer than 2^32 events where they could wrap around.

  \<^bold>\<open>Not modelled.\<close>  The master's tasks and scheduler (\<^verbatim>\<open>master/\<close>, but for the measurement handler): they depend on
  time and on callbacks of the user.  Secure authentication (\<^verbatim>\<open>secauth/\<close>): its content is in the cryptographic functions it
  calls; its objects are modelled.  \<^verbatim>\<open>LinkLayerRouter\<close>, channels, \<^verbatim>\<open>asiopal\<close>, \<^verbatim>\<open>asiodnp3\<close>: asynchronous input and output and
  threads; the layers are modelled against the calls they make.  Language bindings, \<^verbatim>\<open>osslcrypto\<close>, logging and the conversions
  of enumerations to strings.  The objects of files, times in octet groups and virtual terminals are known to the parser but
  have no operations in the code.  \<^verbatim>\<open>OnSendResult\<close> of the outstation's states is called by nothing.  User code is not re-entrant
  in the model: a callback that calls back into the stack from inside a handler is excluded by the executor's contract.
\<close>

end
